(* ===== verification/Go_Prelude.thy ===== *)
theory Go_Prelude
  imports Complex_Main "HOL-Library.Word" "HOL-Library.AList" "HOL-Library.List_Lexorder"
    "HOL-Library.Char_ord" "HOL-Library.Multiset" "HOL-Library.Monad_Syntax"
begin

text \<open>
  Shared vocabulary of the development: the fixed-width integers of Go, Go strings as byte
  lists, Go maps as association lists with distinct keys, the parts of the packages
  \<open>strings\<close>, \<open>strconv\<close> and \<open>math/big\<close> the program uses, sorting by a
  comparator, and reachability of a step relation with its invariant rule.

  Strings: a Go string is a sequence of bytes and a \<open>char\<close> of HOL is a byte, so
  lengths, comparisons, prefixes and concatenations agree. Case mapping and space trimming
  are the ASCII part of \<open>strings.ToUpper\<close>, \<open>strings.ToLower\<close> and
  \<open>strings.TrimSpace\<close>; bytes from 128 on are left alone here, where Go decodes UTF-8.
\<close>

named_theorems go_simps \<open>unfolding rules of the Go library model\<close>
named_theorems go_inv \<open>facts about the shape of Go maps and byte lists\<close>

section \<open>Integers\<close>

type_synonym byte = "8 word"
type_synonym uint16 = "16 word"
type_synonym uint32 = "32 word"
type_synonym uint64 = "64 word"

text \<open>
  Go's signed integers are the same words read through \<open>sint\<close>: addition and subtraction
  are those of the word, comparisons are comparisons of \<open>sint\<close>.
\<close>

type_synonym int64 = "64 word"

definition max_int64 :: int where
  "max_int64 = 2 ^ 63 - 1"

definition is_int64 :: "int \<Rightarrow> bool" where
  "is_int64 x \<longleftrightarrow> - (2 ^ 63) \<le> x \<and> x \<le> max_int64"

lemma is_int64_sint [simp]: "is_int64 (sint (w :: int64))"
  using sint_lt [of w] sint_ge [of w] by (simp add: is_int64_def max_int64_def)

lemma sint_word_of_int64: "is_int64 x \<Longrightarrow> sint (word_of_int x :: int64) = x"
  by (simp add: is_int64_def max_int64_def sint_sbintrunc' signed_take_bit_int_eq_self)

lemma sint_add64:
  "is_int64 (sint a + sint b) \<Longrightarrow> sint (a + b :: int64) = sint a + sint b"
  using sint_word_of_int64 [of "sint a + sint b"] by (simp add: wi_hom_add [symmetric])

lemma sint_sub64:
  "is_int64 (sint a - sint b) \<Longrightarrow> sint (a - b :: int64) = sint a - sint b"
  using sint_word_of_int64 [of "sint a - sint b"] by (simp add: wi_hom_sub [symmetric])

lemma word_sint_max: "sint (word_of_int max_int64 :: int64) = max_int64"
  by (rule sint_word_of_int64) (simp add: is_int64_def max_int64_def)

text \<open>What a call of the program returns: a value, an error, or a panic.\<close>

datatype ('e, 'a) outcome = Panic | Fail 'e | Return 'a

definition outcome_bind ::
  "('e, 'a) outcome \<Rightarrow> ('a \<Rightarrow> ('e, 'b) outcome) \<Rightarrow> ('e, 'b) outcome" where
  "outcome_bind m f = (case m of Panic \<Rightarrow> Panic | Fail e \<Rightarrow> Fail e | Return a \<Rightarrow> f a)"

definition of_panic :: "'a option \<Rightarrow> ('e, 'a) outcome" where
  "of_panic r = (case r of None \<Rightarrow> Panic | Some a \<Rightarrow> Return a)"

definition of_error :: "'e + 'a \<Rightarrow> ('e, 'a) outcome" where
  "of_error r = (case r of Inl e \<Rightarrow> Fail e | Inr a \<Rightarrow> Return a)"

definition guard_nil :: "'e option \<Rightarrow> ('e, 'a) outcome \<Rightarrow> ('e, 'a) outcome" where
  "guard_nil err k = (case err of Some e \<Rightarrow> Fail e | None \<Rightarrow> k)"

lemma outcome_bind_simps [simp]:
  "outcome_bind Panic f = Panic"
  "outcome_bind (Fail e) f = Fail e"
  "outcome_bind (Return a) f = f a"
  by (simp_all add: outcome_bind_def)

lemma outcome_bind_Return [simp]:
  "outcome_bind m f = Return b \<longleftrightarrow> (\<exists>a. m = Return a \<and> f a = Return b)"
  by (cases m) auto

lemma outcome_bind_Panic:
  "outcome_bind m f = Panic \<longleftrightarrow> m = Panic \<or> (\<exists>a. m = Return a \<and> f a = Panic)"
  by (cases m) auto

lemma guard_nil_simps [simp]:
  "guard_nil (Some e) k = Fail e" "guard_nil None k = k"
  by (simp_all add: guard_nil_def)

lemma guard_nil_Return [simp]: "guard_nil err k = Return b \<longleftrightarrow> err = None \<and> k = Return b"
  by (cases err) auto

lemma of_conversions [simp]:
  "of_panic None = Panic" "of_panic (Some a) = Return a"
  "of_error (Inl e) = Fail e" "of_error (Inr a) = Return a"
  "of_error r = Return a \<longleftrightarrow> r = Inr a" "of_panic o' = Return a \<longleftrightarrow> o' = Some a"
  "of_error r \<noteq> Panic"
  by (simp_all add: of_panic_def of_error_def split: sum.split option.split)

section \<open>Strings\<close>

definition is_digit :: "char \<Rightarrow> bool" where
  "is_digit c \<longleftrightarrow> 48 \<le> (of_char c :: nat) \<and> (of_char c :: nat) \<le> 57"

definition is_lower :: "char \<Rightarrow> bool" where
  "is_lower c \<longleftrightarrow> 97 \<le> (of_char c :: nat) \<and> (of_char c :: nat) \<le> 122"

definition is_upper :: "char \<Rightarrow> bool" where
  "is_upper c \<longleftrightarrow> 65 \<le> (of_char c :: nat) \<and> (of_char c :: nat) \<le> 90"

definition is_alpha :: "char \<Rightarrow> bool" where
  "is_alpha c \<longleftrightarrow> is_lower c \<or> is_upper c"

definition is_alnum :: "char \<Rightarrow> bool" where
  "is_alnum c \<longleftrightarrow> is_alpha c \<or> is_digit c"

definition digit_val :: "char \<Rightarrow> nat" where
  "digit_val c = of_char c - 48"

definition digit_char :: "nat \<Rightarrow> char" where
  "digit_char d = char_of (48 + d)"

lemmas char_class_defs [go_simps] =
  is_digit_def is_lower_def is_upper_def is_alpha_def is_alnum_def

lemma digit_char_facts [simp]:
  assumes "d < 10"
  shows "is_digit (digit_char d)" and "digit_val (digit_char d) = d"
proof -
  have "(of_char (char_of (48 + d) :: char) :: nat) = 48 + d"
    using assms by (simp add: of_char_of)
  then show "is_digit (digit_char d)" and "digit_val (digit_char d) = d"
    using assms by (simp_all add: is_digit_def digit_val_def digit_char_def)
qed

lemma digit_char_digit_val [simp]: "is_digit c \<Longrightarrow> digit_char (digit_val c) = c"
  by (simp add: is_digit_def digit_val_def digit_char_def)

lemma digit_val_less: "is_digit c \<Longrightarrow> digit_val c < 10"
  by (auto simp: is_digit_def digit_val_def)

lemma digit_char_inj: "d < 10 \<Longrightarrow> e < 10 \<Longrightarrow> digit_char d = digit_char e \<longleftrightarrow> d = e"
  by (metis digit_char_facts(2))

definition to_upper_char :: "char \<Rightarrow> char" where
  "to_upper_char c = (if is_lower c then char_of ((of_char c :: nat) - 32) else c)"

definition to_lower_char :: "char \<Rightarrow> char" where
  "to_lower_char c = (if is_upper c then char_of ((of_char c :: nat) + 32) else c)"

lemma of_char_to_upper:
  "(of_char (to_upper_char c) :: nat) = (if is_lower c then of_char c - 32 else of_char c)"
  by (auto simp: to_upper_char_def is_lower_def of_char_of)

lemma to_upper_char_idem [simp]: "to_upper_char (to_upper_char c) = to_upper_char c"
proof (cases "is_lower c")
  case True
  then have "\<not> is_lower (to_upper_char c)"
    by (auto simp: is_lower_def of_char_to_upper)
  then show ?thesis by (simp add: to_upper_char_def [of "to_upper_char c"])
qed (simp add: to_upper_char_def)

text \<open>The ASCII white space of \<open>unicode.IsSpace\<close>: tab, newline, VT, FF, CR and blank.\<close>

definition is_space :: "char \<Rightarrow> bool" where
  "is_space c \<longleftrightarrow> (of_char c :: nat) \<in> {9, 10, 11, 12, 13, 32}"

lemma is_space_to_upper [simp]: "is_space (to_upper_char c) = is_space c"
  by (auto simp: is_space_def of_char_to_upper is_lower_def)

definition trim_by :: "(char \<Rightarrow> bool) \<Rightarrow> string \<Rightarrow> string" where
  "trim_by p s = rev (dropWhile p (rev (dropWhile p s)))"

definition trim_space :: "string \<Rightarrow> string" where
  "trim_space = trim_by is_space"

definition to_upper :: "string \<Rightarrow> string" where
  "to_upper s = map to_upper_char s"

definition to_lower :: "string \<Rightarrow> string" where
  "to_lower s = map to_lower_char s"

lemma dropWhile_eq_self: "dropWhile p xs = xs \<longleftrightarrow> xs = [] \<or> \<not> p (hd xs)"
proof
  show "dropWhile p xs = xs \<Longrightarrow> xs = [] \<or> \<not> p (hd xs)"
    using hd_dropWhile [of p xs] by fastforce
  show "xs = [] \<or> \<not> p (hd xs) \<Longrightarrow> dropWhile p xs = xs"
    by (cases xs) auto
qed

lemma last_dropWhile: "dropWhile p xs \<noteq> [] \<Longrightarrow> last (dropWhile p xs) = last xs"
  by (induction xs) (auto split: if_splits)

lemma trim_by_no_lead:
  assumes "trim_by p s \<noteq> []"
  shows "\<not> p (hd (trim_by p s))" and "\<not> p (last (trim_by p s))"
proof -
  let ?u = "dropWhile p s" let ?v = "dropWhile p (rev ?u)"
  have v: "?v \<noteq> []" using assms unfolding trim_by_def by simp
  then have u: "?u \<noteq> []" by (metis dropWhile.simps(1) rev.simps(1))
  have "last ?v = last (rev ?u)" using v by (rule last_dropWhile)
  then have "hd (trim_by p s) = hd ?u"
    using u v by (simp add: trim_by_def hd_rev last_rev)
  then show "\<not> p (hd (trim_by p s))" using hd_dropWhile [OF u] by simp
  show "\<not> p (last (trim_by p s))"
    using hd_dropWhile [OF v] v by (simp add: trim_by_def last_rev)
qed

lemma trim_by_idem [simp]: "trim_by p (trim_by p s) = trim_by p s"
proof (cases "trim_by p s = []")
  case True
  then show ?thesis by (simp add: trim_by_def [of p "[]"])
next
  case False
  let ?t = "trim_by p s"
  have "dropWhile p ?t = ?t" using trim_by_no_lead(1) [OF False] by (simp add: dropWhile_eq_self)
  moreover have "dropWhile p (rev ?t) = rev ?t"
    using trim_by_no_lead(2) [OF False] by (simp add: dropWhile_eq_self hd_rev)
  ultimately show ?thesis by (simp add: trim_by_def [of p ?t])
qed

lemma dropWhile_map_upper:
  "dropWhile is_space (map to_upper_char s) = map to_upper_char (dropWhile is_space s)"
  by (induction s) auto

lemma trim_space_to_upper: "trim_space (to_upper s) = to_upper (trim_space s)"
  by (simp add: trim_space_def trim_by_def to_upper_def dropWhile_map_upper rev_map)

fun has_prefix :: "'a list \<Rightarrow> 'a list \<Rightarrow> bool" where
  "has_prefix s [] = True"
| "has_prefix [] (p # ps) = False"
| "has_prefix (c # cs) (p # ps) = (c = p \<and> has_prefix cs ps)"

text \<open>\<open>strings.TrimPrefix\<close>, \<open>strings.Contains\<close>, \<open>strings.ContainsAny\<close>.\<close>

definition trim_prefix :: "string \<Rightarrow> string \<Rightarrow> string" where
  "trim_prefix s p = (if has_prefix s p then drop (length p) s else s)"

fun str_contains :: "string \<Rightarrow> string \<Rightarrow> bool" where
  "str_contains [] t = (t = [])"
| "str_contains (c # cs) t = (has_prefix (c # cs) t \<or> str_contains cs t)"

definition contains_any :: "string \<Rightarrow> string \<Rightarrow> bool" where
  "contains_any s cs \<longleftrightarrow> list_ex (\<lambda>c. List.member cs c) s"

lemma has_prefix_append [simp]: "has_prefix (p @ s) p"
  by (induction p) auto

lemma has_prefix_iff: "has_prefix s p \<longleftrightarrow> (\<exists>r. s = p @ r)"
  by (induction s p rule: has_prefix.induct) auto

fun str_join :: "string \<Rightarrow> string list \<Rightarrow> string" where
  "str_join sep [] = []"
| "str_join sep [x] = x"
| "str_join sep (x # y # xs) = x @ sep @ str_join sep (y # xs)"

text \<open>Texts without the separator are recovered from a separated text.\<close>

lemma sep_unique:
  "c \<notin> set a \<Longrightarrow> c \<notin> set b \<Longrightarrow> a @ c # x = b @ c # y \<longleftrightarrow> a = b \<and> x = y"
proof (induction a arbitrary: b)
  case Nil
  then show ?case by (cases b) auto
next
  case (Cons d a)
  then show ?case by (cases b) auto
qed

lemma str_join_inj:
  assumes "\<forall>x \<in> set xs. c \<notin> set x \<and> x \<noteq> []" and "\<forall>y \<in> set ys. c \<notin> set y \<and> y \<noteq> []"
    and "str_join [c] xs = str_join [c] ys"
  shows "xs = ys"
  using assms
proof (induction "[c]" xs arbitrary: ys rule: str_join.induct)
  case 1
  then show ?case by (cases ys rule: str_join.cases [of "([c], ys)" for ys]) auto
next
  case (2 x)
  then show ?case
    by (cases ys rule: str_join.cases [of "([c], ys)" for ys]) auto
next
  case (3 x x' xs)
  show ?case
  proof (cases ys rule: str_join.cases [of "([c], ys)" for ys])
    case (3 sep y y' ys')
    then have ys: "ys = y # y' # ys'" by simp
    then have "x @ c # str_join [c] (x' # xs) = y @ c # str_join [c] (y' # ys')"
      using "3.prems"(3) by simp
    then have xy: "x = y \<and> str_join [c] (x' # xs) = str_join [c] (y' # ys')"
      using "3.prems"(1,2) ys sep_unique [of c x y] by simp
    then have "x' # xs = y' # ys'"
      using "3.hyps" [of "y' # ys'"] "3.prems"(1,2) ys by simp
    then show ?thesis using xy ys by simp
  qed (use "3.prems" in auto)
qed

lemma contains_any_iff: "contains_any s cs \<longleftrightarrow> set s \<inter> set cs \<noteq> {}"
  by (auto simp: contains_any_def list_ex_iff)

lemma trim_by_Nil: "trim_by p [] = []"
  by (simp add: trim_by_def)

lemma trim_space_nonempty: "trim_space s \<noteq> [] \<Longrightarrow> s \<noteq> []"
  by (auto simp: trim_space_def trim_by_Nil)

text \<open>\<open>strings.LastIndex\<close> for a single byte.\<close>

fun last_index :: "char \<Rightarrow> string \<Rightarrow> nat option" where
  "last_index c [] = None"
| "last_index c (x # xs) =
     (case last_index c xs of Some i \<Rightarrow> Some (Suc i) | None \<Rightarrow> if x = c then Some 0 else None)"

subsection \<open>Decimal numerals: \<open>strconv.Itoa\<close>, \<open>big.Int.String\<close>, \<open>SetString\<close>\<close>

fun nat_str :: "nat \<Rightarrow> string" where
  "nat_str n = (if n < 10 then [digit_char n] else nat_str (n div 10) @ [digit_char (n mod 10)])"

declare nat_str.simps [simp del]

definition int_str :: "int \<Rightarrow> string" where
  "int_str i = (if i < 0 then CHR ''-'' # nat_str (nat (- i)) else nat_str (nat i))"

definition digits_val :: "string \<Rightarrow> nat" where
  "digits_val s = foldl (\<lambda>a c. 10 * a + digit_val c) 0 s"

definition digits_parse :: "string \<Rightarrow> nat option" where
  "digits_parse s = (if s \<noteq> [] \<and> list_all is_digit s then Some (digits_val s) else None)"

text \<open>\<open>big.Int.SetString(s, 10)\<close>: an optional sign and at least one digit.\<close>

definition int_parse :: "string \<Rightarrow> int option" where
  "int_parse s = (case s of
     [] \<Rightarrow> None
   | c # r \<Rightarrow> (if c = CHR ''-'' then map_option (\<lambda>n. - int n) (digits_parse r)
              else if c = CHR ''+'' then map_option int (digits_parse r)
              else map_option int (digits_parse s)))"

lemma digits_val_snoc [simp]: "digits_val (s @ [c]) = 10 * digits_val s + digit_val c"
  by (simp add: digits_val_def)

lemma digits_val_Nil [simp]: "digits_val [] = 0"
  by (simp add: digits_val_def)

lemma nat_str_digits: "list_all is_digit (nat_str n) \<and> nat_str n \<noteq> []"
proof (induction n rule: nat_str.induct)
  case (1 n)
  show ?case
    using 1 by (cases "n < 10") (auto simp: nat_str.simps [of n])
qed

lemma digits_val_nat_str [simp]: "digits_val (nat_str n) = n"
proof (induction n rule: nat_str.induct)
  case (1 n)
  show ?case
  proof (cases "n < 10")
    case True
    then show ?thesis
      by (simp add: nat_str.simps [of n] digits_val_snoc [of "[]", simplified])
  next
    case False
    with 1 show ?thesis by (simp add: nat_str.simps [of n])
  qed
qed

lemma digits_parse_nat_str [simp]: "digits_parse (nat_str n) = Some n"
  using nat_str_digits [of n] by (simp add: digits_parse_def)

lemma nat_str_inj: "nat_str m = nat_str n \<longleftrightarrow> m = n"
  by (metis digits_val_nat_str)

lemma nat_str_hd: "is_digit (hd (nat_str n))"
  using nat_str_digits [of n] by (cases "nat_str n") auto

lemma not_digit_sign [simp]:
  "\<not> is_digit (CHR ''-'')" "\<not> is_digit (CHR ''+'')" "\<not> is_digit (CHR '':'')"
  by (simp_all add: is_digit_def)

lemma digit_neq:
  assumes "is_digit c"
  shows "c \<noteq> CHR ''-''" and "c \<noteq> CHR ''+''" and "c \<noteq> CHR '':''"
  using assms not_digit_sign by blast+

lemma digit_char_0 [simp]: "digit_char 0 = CHR ''0''"
  using digit_char_digit_val [of "CHR ''0''"] by (simp add: is_digit_def digit_val_def)

lemma int_parse_int_str [simp]: "int_parse (int_str i) = Some i"
proof (cases "i < 0")
  case True
  then show ?thesis by (simp add: int_parse_def int_str_def)
next
  case False
  obtain c r where cr: "nat_str (nat i) = c # r"
    using nat_str_digits [of "nat i"] by (cases "nat_str (nat i)") auto
  have "is_digit c" using nat_str_hd [of "nat i"] cr by simp
  then have "c \<noteq> CHR ''-''" "c \<noteq> CHR ''+''" by (rule digit_neq)+
  with False cr show ?thesis
    using digits_parse_nat_str [of "nat i"] by (simp add: int_parse_def int_str_def)
qed

section \<open>Go maps\<close>

text \<open>
  A Go map is an association list whose keys are distinct. The list order stands for one
  iteration order of \<open>range\<close>, which Go leaves open; results that must not depend on it
  are proved for every permutation of the list.
\<close>

type_synonym ('k, 'v) gomap = "('k \<times> 'v) list"

definition gm_get :: "('k, 'v) gomap \<Rightarrow> 'k \<Rightarrow> 'v option" where
  "gm_get m k = map_of m k"

definition gm_put :: "'k \<Rightarrow> 'v \<Rightarrow> ('k, 'v) gomap \<Rightarrow> ('k, 'v) gomap" where
  "gm_put k v m = AList.update k v m"

definition gm_del :: "'k \<Rightarrow> ('k, 'v) gomap \<Rightarrow> ('k, 'v) gomap" where
  "gm_del k m = AList.delete k m"

definition gm_has :: "('k, 'v) gomap \<Rightarrow> 'k \<Rightarrow> bool" where
  "gm_has m k \<longleftrightarrow> gm_get m k \<noteq> None"

definition gm_keys :: "('k, 'v) gomap \<Rightarrow> 'k set" where
  "gm_keys m = fst ` set m"

definition gm_ok :: "('k, 'v) gomap \<Rightarrow> bool" where
  "gm_ok m \<longleftrightarrow> distinct (map fst m)"

text \<open>Overwriting the values in place while ranging, and dropping entries while ranging.\<close>

definition gm_map :: "('k \<Rightarrow> 'v \<Rightarrow> 'w) \<Rightarrow> ('k, 'v) gomap \<Rightarrow> ('k, 'w) gomap" where
  "gm_map f m = map (\<lambda>(k, v). (k, f k v)) m"

definition gm_filter :: "('k \<Rightarrow> 'v \<Rightarrow> bool) \<Rightarrow> ('k, 'v) gomap \<Rightarrow> ('k, 'v) gomap" where
  "gm_filter p m = filter (\<lambda>(k, v). p k v) m"

lemma gm_get_Nil [simp]: "gm_get [] k = None"
  by (simp add: gm_get_def)

lemma gm_keys_Nil [simp]: "gm_keys [] = {}"
  by (simp add: gm_keys_def)

lemma gm_get_put [simp]: "gm_get (gm_put k v m) j = (if j = k then Some v else gm_get m j)"
  by (simp add: gm_get_def gm_put_def update_conv')

lemma gm_get_del [simp]: "gm_get (gm_del k m) j = (if j = k then None else gm_get m j)"
  by (simp add: gm_get_def gm_del_def delete_conv')

lemma gm_get_map [simp]: "gm_get (gm_map f m) k = map_option (f k) (gm_get m k)"
  by (induction m) (auto simp: gm_get_def gm_map_def)

lemma gm_keys_map [simp]: "gm_keys (gm_map f m) = gm_keys m"
  by (force simp: gm_keys_def gm_map_def)

lemma gm_ok_map [simp]: "gm_ok (gm_map f m) = gm_ok m"
  by (simp add: gm_ok_def gm_map_def comp_def split_def)

lemma length_gm_map [simp]: "length (gm_map f m) = length m"
  by (simp add: gm_map_def)

lemma gm_get_filter [simp]:
  "gm_ok m \<Longrightarrow>
     gm_get (gm_filter p m) k = (case gm_get m k of Some v \<Rightarrow> if p k v then Some v else None
                                 | None \<Rightarrow> None)"
proof (induction m)
  case (Cons a m)
  obtain j v where a: "a = (j, v)" by (cases a)
  have *: "j \<notin> fst ` set m" "gm_ok m" using Cons.prems by (auto simp: a gm_ok_def)
  have "gm_get (gm_filter p m) j = None"
    using Cons.IH [OF *(2)] *(1)
    by (metis (no_types, lifting) filter_is_subset gm_filter_def gm_get_def image_mono
        map_of_eq_None_iff subsetD)
  then show ?case
    using Cons.IH [OF *(2)] by (auto simp: a gm_get_def gm_filter_def split: option.splits)
qed (simp add: gm_filter_def)

lemma gm_ok_filter [simp]: "gm_ok m \<Longrightarrow> gm_ok (gm_filter p m)"
  unfolding gm_ok_def gm_filter_def
  by (rule distinct_map_filter)

lemma gm_ok_Nil [simp]: "gm_ok []"
  by (simp add: gm_ok_def)

lemma gm_ok_put [simp]: "gm_ok m \<Longrightarrow> gm_ok (gm_put k v m)"
  by (simp add: gm_ok_def gm_put_def distinct_update)

lemma gm_ok_del [simp]: "gm_ok m \<Longrightarrow> gm_ok (gm_del k m)"
  by (simp add: gm_ok_def gm_del_def distinct_delete)

lemma gm_keys_iff: "k \<in> gm_keys m \<longleftrightarrow> (\<exists>v. gm_get m k = Some v)"
  unfolding gm_keys_def gm_get_def
  by (metis not_None_eq map_of_eq_None_iff)

lemma gm_keys_put [simp]: "gm_keys (gm_put k v m) = insert k (gm_keys m)"
  by (simp add: gm_keys_def gm_put_def dom_update)

lemma gm_keys_del [simp]: "gm_keys (gm_del k m) = gm_keys m - {k}"
  by (auto simp: gm_keys_iff split: if_splits)

lemma gm_get_Some_in: "gm_get m k = Some v \<Longrightarrow> (k, v) \<in> set m"
  by (simp add: gm_get_def map_of_SomeD)

lemma gm_in_get: "gm_ok m \<Longrightarrow> (k, v) \<in> set m \<Longrightarrow> gm_get m k = Some v"
  by (simp add: gm_ok_def gm_get_def)

lemma gm_in_iff: "gm_ok m \<Longrightarrow> (k, v) \<in> set m \<longleftrightarrow> gm_get m k = Some v"
  using gm_in_get gm_get_Some_in by metis

lemma gm_length: "gm_ok m \<Longrightarrow> length m = card (gm_keys m)"
  unfolding gm_ok_def gm_keys_def
  by (metis distinct_card length_map list.set_map)

lemmas gm_lookups = gm_get_put gm_get_del gm_get_map gm_get_filter
lemmas gm_oks [go_inv] = gm_ok_put gm_ok_del gm_ok_map gm_ok_filter gm_ok_Nil

text \<open>
  A key function that is injective on the values the program admits: looking up under
  computed keys is looking up under the values themselves.
\<close>

locale keyed =
  fixes key :: "'a \<Rightarrow> 'k" and admitted :: "'a \<Rightarrow> bool"
  assumes key_inj: "admitted a \<Longrightarrow> admitted b \<Longrightarrow> key a = key b \<Longrightarrow> a = b"
begin

lemma key_eq_iff: "admitted a \<Longrightarrow> admitted b \<Longrightarrow> key a = key b \<longleftrightarrow> a = b"
  using key_inj by blast

lemma inj_on_admitted: "inj_on key {a. admitted a}"
  using key_inj by (auto intro: inj_onI)

lemma distinct_keys: "(\<And>x. x \<in> set xs \<Longrightarrow> admitted x) \<Longrightarrow> distinct (map key xs) \<longleftrightarrow> distinct xs"
  using inj_on_admitted by (auto simp: distinct_map intro: inj_on_subset)

lemma get_put_key:
  "admitted a \<Longrightarrow> admitted b \<Longrightarrow>
     gm_get (gm_put (key a) v m) (key b) = (if a = b then Some v else gm_get m (key b))"
  by (auto simp: key_eq_iff)

end

text \<open>The contract the components rely on: what a map operation does to every lookup.\<close>

locale go_map =
  fixes get :: "'m \<Rightarrow> 'k \<Rightarrow> 'v option"
    and put :: "'k \<Rightarrow> 'v \<Rightarrow> 'm \<Rightarrow> 'm"
    and del :: "'k \<Rightarrow> 'm \<Rightarrow> 'm"
    and size_of :: "'m \<Rightarrow> nat"
    and ok :: "'m \<Rightarrow> bool"
  assumes get_put: "get (put k v m) = (get m)(k \<mapsto> v)"
    and get_del: "get (del k m) = (get m)(k := None)"
    and ok_put: "ok m \<Longrightarrow> ok (put k v m)"
    and ok_del: "ok m \<Longrightarrow> ok (del k m)"
    and size_card: "ok m \<Longrightarrow> finite (dom (get m)) \<and> size_of m = card (dom (get m))"
begin

lemma put_same: "get m k = Some v \<Longrightarrow> get (put k v m) = get m"
  by (auto simp: get_put)

lemma put_comm: "k \<noteq> j \<Longrightarrow> get (put k v (put j w m)) = get (put j w (put k v m))"
  by (auto simp: get_put)

lemma del_put: "get (del k (put k v m)) = get (del k m)"
  by (simp add: get_put get_del)

lemma fold_put_get:
  "get (fold (\<lambda>(k, v). put k v) kvs m) = get m ++ map_of (rev kvs)"
  by (induction kvs arbitrary: m) (auto simp: get_put map_add_def fun_eq_iff split: option.splits)

lemma fold_put_ok: "ok m \<Longrightarrow> ok (fold (\<lambda>(k, v). put k v) kvs m)"
  by (induction kvs arbitrary: m) (auto simp: ok_put)

lemma size_put: "ok m \<Longrightarrow> size_of (put k v m) = (if get m k = None then Suc (size_of m) else size_of m)"
  using size_card [of m] size_card [OF ok_put, of m k v]
  by (auto simp: get_put card_insert_if)

lemma size_put_le: "ok m \<Longrightarrow> size_of (put k v m) \<le> Suc (size_of m)"
  by (simp add: size_put)

end

lemma dom_gm_get: "dom (gm_get m) = gm_keys m"
  by (simp add: gm_get_def [abs_def] gm_keys_def dom_map_of_conv_image_fst)

interpretation gm: go_map gm_get gm_put gm_del length gm_ok
proof unfold_locales
  show "gm_ok m \<Longrightarrow> finite (dom (gm_get m)) \<and> length m = card (dom (gm_get m))"
    for m :: "('a, 'b) gomap"
    by (simp add: dom_gm_get gm_length gm_keys_def)
qed (auto simp: fun_eq_iff go_inv)

section \<open>Sorting by a comparator: \<open>sort.Slice\<close>\<close>

text \<open>
  \<open>sort.Slice\<close> permutes the slice so that no later element is less than an earlier one;
  it is not stable. The model is insertion sort; where the comparator leaves no ties between
  different elements, \<open>sort_by_unique\<close> shows that every such permutation is this one.
\<close>

fun insort_by :: "('a \<Rightarrow> 'a \<Rightarrow> bool) \<Rightarrow> 'a \<Rightarrow> 'a list \<Rightarrow> 'a list" where
  "insort_by lt x [] = [x]"
| "insort_by lt x (y # ys) = (if lt y x then y # insort_by lt x ys else x # y # ys)"

fun sort_by :: "('a \<Rightarrow> 'a \<Rightarrow> bool) \<Rightarrow> 'a list \<Rightarrow> 'a list" where
  "sort_by lt [] = []"
| "sort_by lt (x # xs) = insort_by lt x (sort_by lt xs)"

lemma mset_insort_by [simp]: "mset (insort_by lt x xs) = add_mset x (mset xs)"
  by (induction xs) auto

lemma mset_sort_by [simp]: "mset (sort_by lt xs) = mset xs"
  by (induction xs) auto

lemma set_sort_by [simp]: "set (sort_by lt xs) = set xs"
  by (metis mset_sort_by set_mset_mset)

lemma length_sort_by [simp]: "length (sort_by lt xs) = length xs"
  by (metis mset_sort_by size_mset)

lemma sorted_wrt_perm_unique:
  assumes "mset ys = mset zs" and "sorted_wrt r ys" and "sorted_wrt r zs"
    and "\<And>x y. x \<in> set ys \<Longrightarrow> y \<in> set ys \<Longrightarrow> r x y \<Longrightarrow> r y x \<Longrightarrow> x = y"
  shows "ys = zs"
  using assms
proof (induction ys arbitrary: zs)
  case (Cons a ys)
  obtain b zs' where zs: "zs = b # zs'" using Cons.prems(1) by (cases zs) auto
  have sets: "insert a (set ys) = insert b (set zs')"
    using Cons.prems(1) by (metis list.simps(15) set_mset_mset zs)
  have "a = b"
  proof (rule ccontr)
    assume "a \<noteq> b"
    then have "a \<in> set zs'" "b \<in> set ys" using sets by auto
    then have "r b a" "r a b" using Cons.prems(2,3) zs by auto
    with Cons.prems(4) \<open>a \<noteq> b\<close> \<open>b \<in> set ys\<close> show False by auto
  qed
  moreover have "ys = zs'"
    using Cons.prems \<open>a = b\<close> by (intro Cons.IH) (auto simp: zs)
  ultimately show ?case by (simp add: zs)
qed simp

locale strict_weak_order =
  fixes lt :: "'a \<Rightarrow> 'a \<Rightarrow> bool"
  assumes asym: "lt x y \<Longrightarrow> \<not> lt y x"
    and neg_trans: "lt x z \<Longrightarrow> lt x y \<or> lt y z"
begin

lemma irrefl: "\<not> lt x x"
  using asym [of x x] by auto

lemma le_trans: "\<not> lt y x \<Longrightarrow> \<not> lt z y \<Longrightarrow> \<not> lt z x"
  using neg_trans [of z x y] by auto

lemma sorted_insort:
  "sorted_wrt (\<lambda>a b. \<not> lt b a) xs \<Longrightarrow> sorted_wrt (\<lambda>a b. \<not> lt b a) (insort_by lt x xs)"
proof (induction xs)
  case (Cons y ys)
  have set: "set (insort_by lt x ys) = insert x (set ys)"
    by (metis mset_insort_by set_mset_add_mset_insert set_mset_mset)
  show ?case
  proof (cases "lt y x")
    case True
    then show ?thesis using Cons by (auto simp: set dest: asym)
  next
    case False
    have "\<not> lt a x" if "a \<in> set ys" for a
      using False Cons.prems that neg_trans [of a x y] by auto
    then show ?thesis using False Cons.prems by auto
  qed
qed simp

lemma sorted_sort_by: "sorted_wrt (\<lambda>a b. \<not> lt b a) (sort_by lt xs)"
  by (induction xs) (auto intro: sorted_insort)

text \<open>Without ties between different elements the sorted permutation is unique.\<close>

lemma sort_by_unique:
  assumes "mset ys = mset xs" and "sorted_wrt (\<lambda>a b. \<not> lt b a) ys"
    and ties: "\<And>x y. x \<in> set xs \<Longrightarrow> y \<in> set xs \<Longrightarrow> \<not> lt x y \<Longrightarrow> \<not> lt y x \<Longrightarrow> x = y"
  shows "ys = sort_by lt xs"
proof (rule sorted_wrt_perm_unique [OF _ assms(2) sorted_sort_by])
  show "mset ys = mset (sort_by lt xs)" using assms(1) by simp
  show "x \<in> set ys \<Longrightarrow> y \<in> set ys \<Longrightarrow> \<not> lt y x \<Longrightarrow> \<not> lt x y \<Longrightarrow> x = y" for x y
    using ties assms(1) by (metis set_mset_mset)
qed

end

section \<open>Reachable states\<close>

text \<open>
  A component whose operations are atomic (each runs under its lock) is a step relation on
  its state. An invariant is established by the initial states and kept by every step.
\<close>

inductive reach :: "('s \<Rightarrow> bool) \<Rightarrow> ('s \<Rightarrow> 's \<Rightarrow> bool) \<Rightarrow> 's \<Rightarrow> bool"
  for init :: "'s \<Rightarrow> bool" and step :: "'s \<Rightarrow> 's \<Rightarrow> bool" where
  reach_init: "init s \<Longrightarrow> reach init step s"
| reach_step: "reach init step s \<Longrightarrow> step s t \<Longrightarrow> reach init step t"

locale invariant_system =
  fixes init :: "'s \<Rightarrow> bool" and step :: "'s \<Rightarrow> 's \<Rightarrow> bool" and inv :: "'s \<Rightarrow> bool"
  assumes init_inv: "init s \<Longrightarrow> inv s"
    and step_inv: "inv s \<Longrightarrow> step s t \<Longrightarrow> inv t"
begin

lemma reach_inv: "reach init step s \<Longrightarrow> inv s"
  by (induction rule: reach.induct) (auto intro: init_inv step_inv)

lemma reach_step_inv: "reach init step s \<Longrightarrow> step s t \<Longrightarrow> inv s \<and> inv t"
  using reach_inv step_inv by blast

lemma steps_inv: "step\<^sup>*\<^sup>* s t \<Longrightarrow> inv s \<Longrightarrow> inv t"
  by (induction rule: rtranclp_induct) (auto intro: step_inv)

lemma reach_steps: "step\<^sup>*\<^sup>* s t \<Longrightarrow> reach init step s \<Longrightarrow> reach init step t"
  by (induction rule: rtranclp_induct) (auto intro: reach_step)

end

end
