(* ===== verification/Pv_Types.thy ===== *)
theory Pv_Types
  imports Go_Prelude
begin

text \<open>
  The data of package \<open>pv\<close> (\<open>pv/types.go\<close>): errors, the string-typed enumerations and
  their constants, decimals, fact values, dimensions and fact keys, provenance, facts,
  updates and snapshots. Go's named string types stay strings, since a caller can pass any
  string and the code checks it; a Go pointer that is only tested for nil and copied is an
  \<open>option\<close>, a nil \<open>error\<close> is \<open>None\<close>.
\<close>

named_theorems pv_defs \<open>definitions of the pv data layer\<close>

datatype pv_error =
    ErrInvalidDecimal
  | ErrInvalidFact
  | ErrInvalidMonotonicTime
  | ErrInvalidCounter
  | ErrSourceNotAdmitted
  | ErrAssetNotFound
  | ErrInvalidProjection
  | ErrInvalidCapability

type_synonym digest = string
type_synonym fact_id = string
type_synonym fact_key = string
type_synonym policy_id = string
type_synonym monotonic_nanos = int64

section \<open>Constants\<close>

abbreviation "ContractV1 \<equiv> ''helianthus.canonical-pv/v1''"

abbreviation "ValueKindDecimal \<equiv> ''decimal''"
abbreviation "ValueKindEnum \<equiv> ''enum''"
abbreviation "ValueKindBitfield \<equiv> ''bitfield''"

abbreviation "UnitWatt \<equiv> ''W''"
abbreviation "UnitVoltAmp \<equiv> ''VA''"
abbreviation "UnitVar \<equiv> ''var''"
abbreviation "UnitVolt \<equiv> ''V''"
abbreviation "UnitAmpere \<equiv> ''A''"
abbreviation "UnitHertz \<equiv> ''Hz''"
abbreviation "UnitWattHour \<equiv> ''Wh''"
abbreviation "UnitCelsius \<equiv> ''Cel''"
abbreviation "UnitOne \<equiv> ''1''"

abbreviation "QualityGood \<equiv> ''GOOD''"
abbreviation "QualitySuspect \<equiv> ''SUSPECT''"
abbreviation "QualityBad \<equiv> ''BAD''"

abbreviation "AvailabilityAvailable \<equiv> ''AVAILABLE''"
abbreviation "AvailabilityUnavailable \<equiv> ''UNAVAILABLE''"
abbreviation "AvailabilityUnsupported \<equiv> ''UNSUPPORTED''"

abbreviation "FreshnessFresh \<equiv> ''FRESH''"
abbreviation "FreshnessStale \<equiv> ''STALE''"
abbreviation "FreshnessExpired \<equiv> ''EXPIRED''"

abbreviation "ContinuityBaseline \<equiv> ''BASELINE''"
abbreviation "ContinuityContiguous \<equiv> ''CONTIGUOUS''"
abbreviation "ContinuityRollover \<equiv> ''ROLLOVER''"
abbreviation "ContinuityReset \<equiv> ''RESET''"
abbreviation "ContinuityDiscontinuity \<equiv> ''DISCONTINUITY''"

abbreviation (input) "CounterEventNone \<equiv> ([] :: string)"
abbreviation "CounterEventReset \<equiv> ''RESET''"
abbreviation "CounterEventRollover \<equiv> ''ROLLOVER''"

abbreviation "PhaseL1 \<equiv> ''L1''"
abbreviation "PhaseL2 \<equiv> ''L2''"
abbreviation "PhaseL3 \<equiv> ''L3''"
abbreviation "PhasePairL1L2 \<equiv> ''L1_L2''"
abbreviation "PhasePairL2L3 \<equiv> ''L2_L3''"
abbreviation "PhasePairL3L1 \<equiv> ''L3_L1''"
abbreviation "ScopeTotal \<equiv> ''total''"

abbreviation "SourceTerminalVerified \<equiv> ''terminal_verified''"
abbreviation "SourceTimeUnavailable \<equiv> ''UNAVAILABLE''"
abbreviation "SourceTimeValid \<equiv> ''VALID''"
abbreviation "SourceTimeInvalid \<equiv> ''INVALID''"

abbreviation "CapabilityThreePhaseTelemetryV1 \<equiv>
  ''helianthus.pv.inverter.three_phase.telemetry.v1''"
abbreviation "CapabilitySatisfied \<equiv> ''SATISFIED''"
abbreviation "CapabilityNotSatisfied \<equiv> ''NOT_SATISFIED''"

abbreviation "ProjectionMapped \<equiv> ''MAPPED''"
abbreviation "ProjectionWithheld \<equiv> ''WITHHELD''"
abbreviation "ProjectionUnrepresentable \<equiv> ''UNREPRESENTABLE''"

section \<open>Decimals\<close>

record decimal =
  dec_coefficient :: string
  dec_scale :: int

text \<open>The pattern \<open>^-?(0|[1-9][0-9]*)$\<close>.\<close>

definition unsigned_pattern :: "string \<Rightarrow> bool" where
  "unsigned_pattern s \<longleftrightarrow> s = ''0'' \<or>
     (case s of [] \<Rightarrow> False | c # r \<Rightarrow> is_digit c \<and> c \<noteq> CHR ''0'' \<and> list_all is_digit r)"

definition decimal_pattern :: "string \<Rightarrow> bool" where
  "decimal_pattern s = (case s of [] \<Rightarrow> False
     | c # r \<Rightarrow> if c = CHR ''-'' then unsigned_pattern r else unsigned_pattern s)"

definition new_decimal :: "string \<Rightarrow> int \<Rightarrow> pv_error + decimal" where
  "new_decimal coefficient scale =
     (if \<not> decimal_pattern coefficient \<or> coefficient = ''-0'' \<or> scale < -18 \<or> scale > 18
      then Inl ErrInvalidDecimal
      else Inr \<lparr>dec_coefficient = coefficient, dec_scale = scale\<rparr>)"

text \<open>\<open>MustDecimal\<close> panics on a rejected decimal: \<open>None\<close>.\<close>

definition must_decimal :: "string \<Rightarrow> int \<Rightarrow> decimal option" where
  "must_decimal coefficient scale =
     (case new_decimal coefficient scale of Inl _ \<Rightarrow> None | Inr d \<Rightarrow> Some d)"

definition decimal_validate :: "decimal \<Rightarrow> pv_error option" where
  "decimal_validate d =
     (case new_decimal (dec_coefficient d) (dec_scale d) of Inl e \<Rightarrow> Some e | Inr _ \<Rightarrow> None)"

section \<open>Fact values, dimensions, keys\<close>

record fact_value =
  fv_kind :: string
  fv_decimal :: "decimal option"
  fv_symbol :: string
  fv_symbols :: "string list"

definition decimal_fact_value :: "decimal \<Rightarrow> fact_value" where
  "decimal_fact_value d =
     \<lparr>fv_kind = ValueKindDecimal, fv_decimal = Some d, fv_symbol = [], fv_symbols = []\<rparr>"

definition enum_fact_value :: "string \<Rightarrow> fact_value" where
  "enum_fact_value symbol =
     \<lparr>fv_kind = ValueKindEnum, fv_decimal = None, fv_symbol = symbol, fv_symbols = []\<rparr>"

definition bitfield_fact_value :: "string list \<Rightarrow> fact_value" where
  "bitfield_fact_value symbols =
     \<lparr>fv_kind = ValueKindBitfield, fv_decimal = None, fv_symbol = [], fv_symbols = symbols\<rparr>"

record dimensions =
  dim_scope :: string
  dim_phase :: string
  dim_phase_pair :: string
  dim_input_id :: string
  dim_sensor_id :: string

definition no_dimensions :: dimensions where
  "no_dimensions =
     \<lparr>dim_scope = [], dim_phase = [], dim_phase_pair = [], dim_input_id = [], dim_sensor_id = []\<rparr>"

definition dimensions_identity :: "dimensions \<Rightarrow> string" where
  "dimensions_identity d =
     str_join '','' (sort (
       (if dim_scope d \<noteq> [] then [''scope='' @ dim_scope d] else []) @
       (if dim_phase d \<noteq> [] then [''phase='' @ dim_phase d] else []) @
       (if dim_phase_pair d \<noteq> [] then [''phase_pair='' @ dim_phase_pair d] else []) @
       (if dim_input_id d \<noteq> [] then [''input_id='' @ dim_input_id d] else []) @
       (if dim_sensor_id d \<noteq> [] then [''sensor_id='' @ dim_sensor_id d] else [])))"

definition new_fact_key :: "fact_id \<Rightarrow> dimensions \<Rightarrow> fact_key" where
  "new_fact_key i d = i @ ''|'' @ dimensions_identity d"

record fact_candidate =
  cand_id :: fact_id
  cand_dimensions :: dimensions
  cand_value :: fact_value
  cand_unit :: string

record temporal =
  t_receipt :: monotonic_nanos
  t_fresh_until :: monotonic_nanos
  t_retain_until :: monotonic_nanos
  t_policy :: policy_id

record temporal_state =
  ts_availability :: string
  ts_freshness :: string
  ts_temporal :: temporal

section \<open>Counters\<close>

record continuity =
  cont_state :: string
  cont_delta :: "decimal option"
  cont_modulus :: "decimal option"
  cont_evidence_ref :: digest

record counter_evidence =
  ev_kind :: string
  ev_modulus :: "decimal option"
  ev_boundary_verified :: bool
  ev_evidence_ref :: digest

definition evidence_empty :: "counter_evidence \<Rightarrow> bool" where
  "evidence_empty e \<longleftrightarrow> ev_kind e = CounterEventNone \<and> ev_modulus e = None \<and>
     \<not> ev_boundary_verified e \<and> ev_evidence_ref e = []"

section \<open>Sources, facts, updates, snapshots\<close>

record source_identity =
  si_protocol :: string
  si_profile_id :: string
  si_profile_version :: string
  si_validity :: string

record provenance =
  prov_identity :: source_identity
  prov_registry_ref :: digest
  prov_observation_ref :: digest
  prov_shadow_ref :: digest
  prov_evidence_ref :: digest

type_synonym source_resolver = "source_identity \<Rightarrow> digest option"

record fact_input =
  fi_candidate :: fact_candidate
  fi_quality :: string
  fi_receipt :: monotonic_nanos
  fi_policy :: policy_id
  fi_counter :: counter_evidence

record fact =
  fact_id :: fact_id
  fact_dimensions :: dimensions
  fact_value :: fact_value
  fact_unit :: string
  fact_quality :: string
  fact_availability :: string
  fact_freshness :: string
  fact_temporal :: temporal
  fact_origin_ref :: digest
  fact_continuity :: "continuity option"

record capability =
  cap_id :: string
  cap_outcome :: string

record requested_output =
  ro_source_ref :: digest
  ro_output_ref :: digest

record projection =
  pj_source_ref :: digest
  pj_output_ref :: digest
  pj_fact_id :: fact_id
  pj_dimensions :: "dimensions option"
  pj_outcome :: string

record update =
  upd_asset_ref :: string
  upd_evaluated :: monotonic_nanos
  upd_source_time :: string
  upd_source :: provenance
  upd_facts :: "fact_input list"
  upd_capability :: capability
  upd_requested :: "requested_output list"
  upd_report :: "projection list"

record snapshot =
  sn_contract_id :: string
  sn_asset_ref :: string
  sn_generation :: uint64
  sn_evaluated :: monotonic_nanos
  sn_source :: provenance
  sn_facts :: "(fact_key, fact) gomap"
  sn_origins :: "(digest, provenance) gomap"
  sn_source_time :: string
  sn_capability :: capability
  sn_requested :: "requested_output list"
  sn_report :: "projection list"

text \<open>The pattern \<open>^sha256:[0-9a-f]{64}$\<close>.\<close>

definition is_lower_hex :: "char \<Rightarrow> bool" where
  "is_lower_hex c \<longleftrightarrow> is_digit c \<or> (97 \<le> (of_char c :: nat) \<and> (of_char c :: nat) \<le> 102)"

definition digest_pattern :: "string \<Rightarrow> bool" where
  "digest_pattern s \<longleftrightarrow>
     has_prefix s ''sha256:'' \<and> length s = 71 \<and> list_all is_lower_hex (drop 7 s)"

definition digest_validate :: "digest \<Rightarrow> pv_error option" where
  "digest_validate s = (if \<not> digest_pattern s then Some ErrSourceNotAdmitted else None)"

lemmas [pv_defs] = new_decimal_def decimal_validate_def evidence_empty_def digest_validate_def

section \<open>Lemmas\<close>

lemma new_decimal_Inr:
  "new_decimal c s = Inr d \<longleftrightarrow>
     decimal_pattern c \<and> c \<noteq> ''-0'' \<and> -18 \<le> s \<and> s \<le> 18 \<and> d = \<lparr>dec_coefficient = c, dec_scale = s\<rparr>"
  by (auto simp: new_decimal_def)

lemma decimal_validate_None:
  "decimal_validate d = None \<longleftrightarrow>
     decimal_pattern (dec_coefficient d) \<and> dec_coefficient d \<noteq> ''-0'' \<and>
     -18 \<le> dec_scale d \<and> dec_scale d \<le> 18"
  by (auto simp: decimal_validate_def new_decimal_def split: sum.splits)

lemma must_decimal_valid: "must_decimal c s = Some d \<Longrightarrow> decimal_validate d = None"
  by (auto simp: must_decimal_def decimal_validate_None new_decimal_Inr split: sum.splits)

text \<open>Every string the pattern accepts is read back as an integer.\<close>

lemma unsigned_patternD: "unsigned_pattern s \<Longrightarrow> s \<noteq> [] \<and> list_all is_digit s"
  by (auto simp: unsigned_pattern_def is_digit_def split: list.splits)

lemma int_parse_digits: "s \<noteq> [] \<Longrightarrow> list_all is_digit s \<Longrightarrow> int_parse s = Some (int (digits_val s))"
  by (cases s) (auto simp: int_parse_def digits_parse_def dest: digit_neq)

lemma int_parse_neg:
  "s \<noteq> [] \<Longrightarrow> list_all is_digit s \<Longrightarrow> int_parse (CHR ''-'' # s) = Some (- int (digits_val s))"
  by (simp add: int_parse_def digits_parse_def)

lemma decimal_pattern_parses: "decimal_pattern s \<Longrightarrow> \<exists>n. int_parse s = Some n"
  using int_parse_digits int_parse_neg
  by (fastforce simp: decimal_pattern_def split: list.splits if_splits dest!: unsigned_patternD)

lemma nat_str_pos_hd: "0 < n \<Longrightarrow> hd (nat_str n) \<noteq> CHR ''0''"
proof (induction n rule: nat_str.induct)
  case (1 n)
  show ?case
  proof (cases "n < 10")
    case True
    then have "digit_char n \<noteq> digit_char 0" using "1.prems" digit_char_inj by fastforce
    then show ?thesis using True by (simp add: nat_str.simps [of n])
  next
    case False
    then have "hd (nat_str (n div 10)) \<noteq> CHR ''0''" using "1.IH" by simp
    then show ?thesis
      using False nat_str_digits [of "n div 10"] by (simp add: nat_str.simps [of n])
  qed
qed

lemma unsigned_pattern_nat_str: "unsigned_pattern (nat_str n)"
proof (cases "n = 0")
  case True
  then show ?thesis by (simp add: nat_str.simps [of 0] unsigned_pattern_def)
next
  case False
  then show ?thesis
    using nat_str_digits [of n] nat_str_pos_hd [of n]
    by (cases "nat_str n") (auto simp: unsigned_pattern_def)
qed

text \<open>What \<open>big.Int.String\<close> prints is a well-formed coefficient.\<close>

lemma int_str_coefficient: "decimal_pattern (int_str i) \<and> int_str i \<noteq> ''-0''"
proof (cases "i < 0")
  case True
  then have "nat_str (nat (- i)) \<noteq> ''0''" using nat_str_pos_hd [of "nat (- i)"] by auto
  then show ?thesis
    using True unsigned_pattern_nat_str by (simp add: int_str_def decimal_pattern_def)
next
  case False
  obtain c r where cr: "nat_str (nat i) = c # r"
    using nat_str_digits [of "nat i"] by (cases "nat_str (nat i)") auto
  then have "c \<noteq> CHR ''-''" using nat_str_hd [of "nat i"] digit_neq by fastforce
  then show ?thesis
    using False unsigned_pattern_nat_str [of "nat i"] cr
    by (simp add: int_str_def decimal_pattern_def)
qed

end
