(* ===== verification/Pv_Counter.thy ===== *)
theory Pv_Counter
  imports Pv_Types
begin

text \<open>
  Decimal arithmetic and counter continuity (\<open>pv/counter.go\<close>). The Go code rescales two
  decimals to the smaller exponent and works on \<open>big.Int\<close> coefficients;
  \<open>scaled_coefficient\<close> panics on a coefficient that does not parse, which is \<open>None\<close>
  here, so \<open>evaluate_counter\<close> returning \<open>Some\<close> says that no panic is reached. The
  abstract value of a decimal is the rational \<open>dec_value\<close>; the arithmetic refines it.
\<close>

section \<open>Model\<close>

text \<open>\<open>big.Int.Exp\<close> with a negative exponent and no modulus is 1, as \<open>10 ^ nat e\<close> is.\<close>

definition scaled_coefficient :: "decimal \<Rightarrow> int \<Rightarrow> int option" where
  "scaled_coefficient d target =
     do {
       coefficient \<leftarrow> int_parse (dec_coefficient d);
       let exponent = dec_scale d - target;
       Some (if exponent = 0 then coefficient else coefficient * 10 ^ nat exponent)
     }"

definition min_scale :: "decimal \<Rightarrow> decimal \<Rightarrow> int" where
  "min_scale left right =
     (if dec_scale right < dec_scale left then dec_scale right else dec_scale left)"

definition compare_decimal :: "decimal \<Rightarrow> decimal \<Rightarrow> int option" where
  "compare_decimal left right =
     do {
       let scale = min_scale left right;
       l \<leftarrow> scaled_coefficient left scale;
       r \<leftarrow> scaled_coefficient right scale;
       Some (sgn (l - r))
     }"

definition subtract_decimal :: "decimal \<Rightarrow> decimal \<Rightarrow> decimal option" where
  "subtract_decimal left right =
     do {
       let scale = min_scale left right;
       l \<leftarrow> scaled_coefficient left scale;
       r \<leftarrow> scaled_coefficient right scale;
       Some \<lparr>dec_coefficient = int_str (l - r), dec_scale = scale\<rparr>
     }"

definition add_decimal :: "decimal \<Rightarrow> decimal \<Rightarrow> decimal option" where
  "add_decimal left right =
     do {
       let scale = min_scale left right;
       l \<leftarrow> scaled_coefficient left scale;
       r \<leftarrow> scaled_coefficient right scale;
       Some \<lparr>dec_coefficient = int_str (l + r), dec_scale = scale\<rparr>
     }"

definition decimal_sign :: "decimal \<Rightarrow> int" where
  "decimal_sign d = (case int_parse (dec_coefficient d) of None \<Rightarrow> 0 | Some c \<Rightarrow> sgn c)"

definition continuity_of :: "string \<Rightarrow> continuity" where
  "continuity_of s =
     \<lparr>cont_state = s, cont_delta = None, cont_modulus = None, cont_evidence_ref = []\<rparr>"

text \<open>The rejection every guard of \<open>EvaluateCounter\<close> returns.\<close>

definition counter_reject :: "(continuity \<times> pv_error option) option" where
  "counter_reject = Some (continuity_of ContinuityDiscontinuity, Some ErrInvalidCounter)"

definition evaluate_rollover ::
  "decimal \<Rightarrow> decimal \<Rightarrow> int \<Rightarrow> counter_evidence \<Rightarrow> (continuity \<times> pv_error option) option" where
  "evaluate_rollover previous current comparison evidence =
     (case ev_modulus evidence of
        None \<Rightarrow> counter_reject
      | Some modulus \<Rightarrow>
          if comparison \<ge> 0 \<or> \<not> ev_boundary_verified evidence
             \<or> digest_validate (ev_evidence_ref evidence) \<noteq> None
          then counter_reject
          else if decimal_validate modulus \<noteq> None \<or> decimal_sign modulus \<le> 0
          then counter_reject
          else do {
            below \<leftarrow> compare_decimal previous modulus;
            if below \<ge> 0 then counter_reject
            else do {
              remaining \<leftarrow> subtract_decimal modulus previous;
              delta \<leftarrow> add_decimal remaining current;
              Some (\<lparr>cont_state = ContinuityRollover, cont_delta = Some delta,
                     cont_modulus = Some modulus, cont_evidence_ref = ev_evidence_ref evidence\<rparr>,
                    None)
            }
          })"

definition evaluate_counter ::
  "decimal option \<Rightarrow> decimal \<Rightarrow> counter_evidence \<Rightarrow> (continuity \<times> pv_error option) option" where
  "evaluate_counter previous current evidence =
     (if decimal_validate current \<noteq> None then counter_reject
      else case previous of
        None \<Rightarrow>
          if \<not> evidence_empty evidence then counter_reject
          else Some (continuity_of ContinuityBaseline, None)
      | Some previous \<Rightarrow>
          if decimal_validate previous \<noteq> None then counter_reject
          else do {
            comparison \<leftarrow> compare_decimal current previous;
            if comparison \<ge> 0 \<and> evidence_empty evidence then do {
              delta \<leftarrow> subtract_decimal current previous;
              Some ((continuity_of ContinuityContiguous)\<lparr>cont_delta := Some delta\<rparr>, None)
            }
            else if ev_kind evidence = CounterEventNone then
              (if \<not> evidence_empty evidence then counter_reject
               else Some (continuity_of ContinuityDiscontinuity, None))
            else if ev_kind evidence = CounterEventReset then
              (if ev_modulus evidence \<noteq> None \<or> ev_boundary_verified evidence
                  \<or> digest_validate (ev_evidence_ref evidence) \<noteq> None
               then counter_reject
               else Some ((continuity_of ContinuityReset)
                            \<lparr>cont_evidence_ref := ev_evidence_ref evidence\<rparr>, None))
            else if ev_kind evidence = CounterEventRollover then
              evaluate_rollover previous current comparison evidence
            else counter_reject
          })"

section \<open>The abstract value of a decimal\<close>

definition dec_value :: "decimal \<Rightarrow> rat" where
  "dec_value d = (case int_parse (dec_coefficient d) of
     None \<Rightarrow> 0 | Some c \<Rightarrow> of_int c * 10 powi dec_scale d)"

abbreviation valid_decimal :: "decimal \<Rightarrow> bool" where
  "valid_decimal d \<equiv> decimal_validate d = None"

lemma valid_decimal_parses: "valid_decimal d \<Longrightarrow> \<exists>c. int_parse (dec_coefficient d) = Some c"
  by (simp add: decimal_validate_None decimal_pattern_parses)

lemma min_scale_le: "min_scale a b \<le> dec_scale a" "min_scale a b \<le> dec_scale b"
  by (simp_all add: min_scale_def)

lemma powi_split: "t \<le> s \<Longrightarrow> (10 :: rat) powi s = 10 ^ nat (s - t) * 10 powi t"
proof -
  assume "t \<le> s"
  then obtain n where s: "s = t + int n" using zle_iff_zadd by blast
  have "(10 :: rat) powi (t + int n) = 10 powi t * 10 powi int n"
    by (rule power_int_add) simp
  then show ?thesis by (simp add: s)
qed

lemma scaled_coefficient_value:
  assumes "valid_decimal d" and "t \<le> dec_scale d"
  shows "\<exists>k. scaled_coefficient d t = Some k \<and> dec_value d = of_int k * 10 powi t"
proof -
  obtain c where c: "int_parse (dec_coefficient d) = Some c"
    using valid_decimal_parses [OF assms(1)] by blast
  then show ?thesis
    using powi_split [OF assms(2)] by (auto simp: scaled_coefficient_def dec_value_def)
qed

lemma scaled_pair:
  assumes "valid_decimal a" and "valid_decimal b"
  obtains l r where "scaled_coefficient a (min_scale a b) = Some l"
    and "scaled_coefficient b (min_scale a b) = Some r"
    and "dec_value a = of_int l * 10 powi min_scale a b"
    and "dec_value b = of_int r * 10 powi min_scale a b"
  using scaled_coefficient_value [OF assms(1) min_scale_le(1)]
    scaled_coefficient_value [OF assms(2) min_scale_le(2)] by blast

lemma dec_value_int_str:
  "dec_value \<lparr>dec_coefficient = int_str i, dec_scale = s\<rparr> = of_int i * 10 powi s"
  by (simp add: dec_value_def)

lemma valid_int_str:
  "valid_decimal \<lparr>dec_coefficient = int_str i, dec_scale = s\<rparr> \<longleftrightarrow> -18 \<le> s \<and> s \<le> 18"
  using int_str_coefficient [of i] by (simp add: decimal_validate_None)

lemma min_scale_range:
  "valid_decimal a \<Longrightarrow> valid_decimal b \<Longrightarrow> -18 \<le> min_scale a b \<and> min_scale a b \<le> 18"
  by (auto simp: decimal_validate_None min_scale_def)

lemma subtract_decimal_exact:
  assumes "valid_decimal a" and "valid_decimal b"
  shows "\<exists>d. subtract_decimal a b = Some d \<and> valid_decimal d \<and>
    dec_value d = dec_value a - dec_value b"
proof (rule scaled_pair [OF assms])
  fix l r
  assume "scaled_coefficient a (min_scale a b) = Some l"
    and "scaled_coefficient b (min_scale a b) = Some r"
    and "dec_value a = of_int l * 10 powi min_scale a b"
    and "dec_value b = of_int r * 10 powi min_scale a b"
  then show ?thesis
    using min_scale_range [OF assms]
    by (simp add: subtract_decimal_def valid_int_str dec_value_int_str left_diff_distrib)
qed

lemma add_decimal_exact:
  assumes "valid_decimal a" and "valid_decimal b"
  shows "\<exists>d. add_decimal a b = Some d \<and> valid_decimal d \<and>
    dec_value d = dec_value a + dec_value b"
proof (rule scaled_pair [OF assms])
  fix l r
  assume "scaled_coefficient a (min_scale a b) = Some l"
    and "scaled_coefficient b (min_scale a b) = Some r"
    and "dec_value a = of_int l * 10 powi min_scale a b"
    and "dec_value b = of_int r * 10 powi min_scale a b"
  then show ?thesis
    using min_scale_range [OF assms]
    by (simp add: add_decimal_def valid_int_str dec_value_int_str distrib_right)
qed

lemma powi_10_pos: "(0 :: rat) < 10 powi s"
  by (simp add: zero_less_power_int)

lemma sgn_of_int: "sgn (of_int i :: rat) = of_int (sgn i)"
  by (simp add: sgn_if)

lemma compare_decimal_value:
  assumes "valid_decimal a" and "valid_decimal b"
  shows "\<exists>c. compare_decimal a b = Some c \<and> of_int c = sgn (dec_value a - dec_value b)"
proof -
  obtain l r where lr: "scaled_coefficient a (min_scale a b) = Some l"
    "scaled_coefficient b (min_scale a b) = Some r"
    and v: "dec_value a = of_int l * 10 powi min_scale a b"
    "dec_value b = of_int r * 10 powi min_scale a b"
    using assms by (rule scaled_pair)
  have "dec_value a - dec_value b = of_int (l - r) * 10 powi min_scale a b"
    by (simp add: v left_diff_distrib)
  then have "sgn (dec_value a - dec_value b) = of_int (sgn (l - r))"
    using powi_10_pos [of "min_scale a b"] by (simp add: sgn_mult sgn_of_int del: of_int_diff)
  then show ?thesis by (simp add: compare_decimal_def lr)
qed

lemma compare_decimal_ge:
  assumes "valid_decimal a" and "valid_decimal b"
  obtains c where "compare_decimal a b = Some c" and "c \<ge> 0 \<longleftrightarrow> dec_value b \<le> dec_value a"
proof -
  obtain c where c: "compare_decimal a b = Some c"
    and s: "of_int c = sgn (dec_value a - dec_value b)"
    using compare_decimal_value [OF assms] by blast
  have "c \<ge> 0 \<longleftrightarrow> (0 :: rat) \<le> of_int c" by simp
  also have "\<dots> \<longleftrightarrow> dec_value b \<le> dec_value a" by (simp add: s sgn_if)
  finally show ?thesis using that c by blast
qed

lemma decimal_sign_value: "valid_decimal d \<Longrightarrow> 0 < decimal_sign d \<longleftrightarrow> 0 < dec_value d"
proof -
  assume "valid_decimal d"
  then obtain c where c: "int_parse (dec_coefficient d) = Some c"
    using valid_decimal_parses by blast
  have "0 < of_int c * (10 :: rat) powi dec_scale d \<longleftrightarrow> 0 < c"
    by (metis mult_pos_pos of_int_0_less_iff powi_10_pos zero_less_mult_pos2)
  then show ?thesis by (simp add: decimal_sign_def dec_value_def c)
qed

lemmas decimal_exact = subtract_decimal_exact add_decimal_exact compare_decimal_value

section \<open>Counter continuity\<close>

lemma counter_reject_Some [simp]:
  "counter_reject = Some (c, e) \<longleftrightarrow>
     c = continuity_of ContinuityDiscontinuity \<and> e = Some ErrInvalidCounter"
  by (auto simp: counter_reject_def)

lemma continuity_of_sel [simp]:
  "cont_state (continuity_of s) = s" "cont_delta (continuity_of s) = None"
  "cont_modulus (continuity_of s) = None" "cont_evidence_ref (continuity_of s) = []"
  by (simp_all add: continuity_of_def)

text \<open>A rollover with its guards met: the result and its exact value.\<close>

lemma evaluate_rollover_accepts:
  assumes v: "valid_decimal previous" "valid_decimal current"
    and m: "ev_modulus evidence = Some modulus" "valid_decimal modulus" "0 < dec_value modulus"
    and "comparison < 0" "ev_boundary_verified evidence"
    and "digest_validate (ev_evidence_ref evidence) = None"
    and lt: "dec_value previous < dec_value modulus"
  shows "\<exists>delta. evaluate_rollover previous current comparison evidence =
      Some (\<lparr>cont_state = ContinuityRollover, cont_delta = Some delta,
             cont_modulus = Some modulus, cont_evidence_ref = ev_evidence_ref evidence\<rparr>, None) \<and>
    valid_decimal delta \<and>
    dec_value delta = dec_value modulus - dec_value previous + dec_value current"
proof -
  obtain b where b: "compare_decimal previous modulus = Some b"
    and "b \<ge> 0 \<longleftrightarrow> dec_value modulus \<le> dec_value previous"
    using v(1) m(2) by (rule compare_decimal_ge)
  moreover obtain d where d: "subtract_decimal modulus previous = Some d" "valid_decimal d"
    "dec_value d = dec_value modulus - dec_value previous"
    using subtract_decimal_exact [OF m(2) v(1)] by blast
  moreover obtain e where "add_decimal d current = Some e" "valid_decimal e"
    "dec_value e = dec_value d + dec_value current"
    using add_decimal_exact [OF d(2) v(2)] by blast
  moreover have "0 < decimal_sign modulus" using m by (simp add: decimal_sign_value)
  ultimately show ?thesis
    using assms by (auto simp: evaluate_rollover_def)
qed

text \<open>A rollover with a guard unmet is rejected.\<close>

lemma evaluate_rollover_rejects:
  assumes v: "valid_decimal previous" "valid_decimal current"
    and "\<not> (\<exists>modulus. ev_modulus evidence = Some modulus \<and> valid_decimal modulus \<and>
          0 < dec_value modulus \<and> dec_value previous < dec_value modulus \<and> comparison < 0 \<and>
          ev_boundary_verified evidence \<and> digest_validate (ev_evidence_ref evidence) = None)"
  shows "evaluate_rollover previous current comparison evidence = counter_reject"
proof (cases "ev_modulus evidence")
  case None
  then show ?thesis by (simp add: evaluate_rollover_def)
next
  case (Some modulus)
  show ?thesis
  proof (cases "valid_decimal modulus \<and> 0 < decimal_sign modulus")
    case True
    obtain b where "compare_decimal previous modulus = Some b"
      and "b \<ge> 0 \<longleftrightarrow> dec_value modulus \<le> dec_value previous"
      using v(1) True compare_decimal_ge by blast
    then show ?thesis
      using assms(3) Some True by (auto simp: evaluate_rollover_def decimal_sign_value)
  qed (auto simp: evaluate_rollover_def Some)
qed

text \<open>The guard of a rollover, over decimal values.\<close>

definition rollover_ok :: "decimal \<Rightarrow> decimal \<Rightarrow> counter_evidence \<Rightarrow> bool" where
  "rollover_ok previous current evidence \<longleftrightarrow>
     (\<exists>modulus. ev_modulus evidence = Some modulus \<and> valid_decimal modulus \<and>
        0 < dec_value modulus \<and> dec_value previous < dec_value modulus \<and>
        dec_value current < dec_value previous \<and> ev_boundary_verified evidence \<and>
        digest_validate (ev_evidence_ref evidence) = None)"

text \<open>The whole case analysis of \<open>EvaluateCounter\<close> for valid readings, over values.\<close>

lemma evaluate_counter_cases:
  assumes v: "valid_decimal p" "valid_decimal c"
  obtains
    (contiguous) d where "dec_value p \<le> dec_value c" "evidence_empty e"
      "evaluate_counter (Some p) c e =
         Some ((continuity_of ContinuityContiguous)\<lparr>cont_delta := Some d\<rparr>, None)"
      "valid_decimal d" "dec_value d = dec_value c - dec_value p"
  | (silent_drop) "dec_value c < dec_value p" "evidence_empty e"
      "evaluate_counter (Some p) c e = Some (continuity_of ContinuityDiscontinuity, None)"
  | (reset) "ev_kind e = CounterEventReset" "ev_modulus e = None" "\<not> ev_boundary_verified e"
      "digest_validate (ev_evidence_ref e) = None"
      "evaluate_counter (Some p) c e =
         Some ((continuity_of ContinuityReset)\<lparr>cont_evidence_ref := ev_evidence_ref e\<rparr>, None)"
  | (rollover) d m where "ev_kind e = CounterEventRollover" "rollover_ok p c e"
      "ev_modulus e = Some m" "valid_decimal d"
      "dec_value d = dec_value m - dec_value p + dec_value c"
      "evaluate_counter (Some p) c e =
         Some (\<lparr>cont_state = ContinuityRollover, cont_delta = Some d,
                cont_modulus = Some m, cont_evidence_ref = ev_evidence_ref e\<rparr>, None)"
  | (reject) "\<not> evidence_empty e" "evaluate_counter (Some p) c e = counter_reject"
      "\<not> (ev_kind e = CounterEventReset \<and> ev_modulus e = None \<and> \<not> ev_boundary_verified e \<and>
          digest_validate (ev_evidence_ref e) = None)"
      "\<not> (ev_kind e = CounterEventRollover \<and> rollover_ok p c e)"
proof -
  obtain k where k: "compare_decimal c p = Some k" "k \<ge> 0 \<longleftrightarrow> dec_value p \<le> dec_value c"
    using v(2,1) by (rule compare_decimal_ge)
  note ev = evaluate_counter_def k(1) v
  consider "evidence_empty e" | "\<not> evidence_empty e" "ev_kind e = CounterEventRollover"
    | "\<not> evidence_empty e" "ev_kind e \<noteq> CounterEventRollover" by blast
  then show thesis
  proof cases
    case 1
    then have kind: "ev_kind e = CounterEventNone" by (simp add: evidence_empty_def)
    obtain d where d: "subtract_decimal c p = Some d" "valid_decimal d"
      "dec_value d = dec_value c - dec_value p"
      using subtract_decimal_exact [OF v(2,1)] by blast
    show thesis
    proof (cases "k \<ge> 0")
      case True
      then show thesis using contiguous [of d] 1 d k(2) by (simp add: ev)
    next
      case False
      then show thesis using silent_drop 1 kind k(2) by (simp add: ev)
    qed
  next
    case 2
    then have step: "evaluate_counter (Some p) c e = evaluate_rollover p c k e"
      by (simp add: ev)
    show thesis
    proof (cases "rollover_ok p c e")
      case True
      then obtain m where m: "ev_modulus e = Some m" "valid_decimal m" "0 < dec_value m"
        "dec_value p < dec_value m" "k < 0" "ev_boundary_verified e"
        "digest_validate (ev_evidence_ref e) = None"
        using k(2) by (auto simp: rollover_ok_def)
      then show thesis
        using evaluate_rollover_accepts [OF v m(1-3) m(5-7) m(4)] rollover [OF 2(2) True m(1)]
          step by auto
    next
      case False
      then have "evaluate_rollover p c k e = counter_reject"
        using k(2) by (intro evaluate_rollover_rejects v) (auto simp: rollover_ok_def)
      then show thesis using reject 2 False step by simp
    qed
  next
    case 3
    then show thesis
      using reset reject
      by (cases "ev_kind e = CounterEventReset \<and> ev_modulus e = None \<and>
            \<not> ev_boundary_verified e \<and> digest_validate (ev_evidence_ref e) = None")
         (auto simp: ev)
  qed
qed

lemma evaluate_counter_invalid_current:
  "\<not> valid_decimal c \<Longrightarrow> evaluate_counter p c e = counter_reject"
  by (simp add: evaluate_counter_def)

lemma evaluate_counter_invalid_previous:
  "\<not> valid_decimal p \<Longrightarrow> evaluate_counter (Some p) c e = counter_reject"
  by (simp add: evaluate_counter_def)

lemma evaluate_counter_first:
  "valid_decimal c \<Longrightarrow> evaluate_counter None c e =
     (if evidence_empty e then Some (continuity_of ContinuityBaseline, None) else counter_reject)"
  by (simp add: evaluate_counter_def)

lemma evaluate_counter_no_panic: "\<exists>r. evaluate_counter p c e = Some r"
proof (cases "valid_decimal c \<and> (\<forall>q. p = Some q \<longrightarrow> valid_decimal q)")
  case True
  show ?thesis
  proof (cases p)
    case None
    then show ?thesis using True by (simp add: evaluate_counter_first counter_reject_def)
  next
    case (Some q)
    then have "valid_decimal q" "valid_decimal c" using True by auto
    then show ?thesis
      unfolding Some by (rule evaluate_counter_cases [where e = e]) (auto simp: counter_reject_def)
  qed
next
  case False
  then show ?thesis
    by (auto simp: evaluate_counter_invalid_current evaluate_counter_invalid_previous
        counter_reject_def)
qed

end
