(* ===== verification/Pv_Lifecycle.thy ===== *)
theory Pv_Lifecycle
  imports Pv_Types
begin

text \<open>
  Freshness policies and the temporal evaluation of a fact (\<open>pv/lifecycle.go\<close>), on 64-bit
  signed nanoseconds: additions and subtractions are those of the word and may wrap; that they
  do not is \<open>temporal_of_exact\<close>. The locale
  \<open>ageing\<close> is the contract the registry relies on, interpreted on \<open>evaluate_temporal\<close>.
\<close>

section \<open>Model\<close>

abbreviation "PolicyTelemetryFastV1 \<equiv> ''pv.telemetry.fast.v1''"
abbreviation "PolicyStatusV1 \<equiv> ''pv.status.v1''"
abbreviation "PolicyAccumulatorV1 \<equiv> ''pv.accumulator.v1''"
abbreviation "PolicyRatingV1 \<equiv> ''pv.rating.v1''"

record freshness_policy =
  pol_id :: policy_id
  pol_fresh_for :: monotonic_nanos
  pol_retain_for :: monotonic_nanos

definition policies_v1 :: "(policy_id, freshness_policy) gomap" where
  "policies_v1 =
    [(PolicyTelemetryFastV1, \<lparr>pol_id = PolicyTelemetryFastV1,
        pol_fresh_for = 30000000000, pol_retain_for = 300000000000\<rparr>),
     (PolicyStatusV1, \<lparr>pol_id = PolicyStatusV1,
        pol_fresh_for = 60000000000, pol_retain_for = 600000000000\<rparr>),
     (PolicyAccumulatorV1, \<lparr>pol_id = PolicyAccumulatorV1,
        pol_fresh_for = 900000000000, pol_retain_for = 86400000000000\<rparr>),
     (PolicyRatingV1, \<lparr>pol_id = PolicyRatingV1,
        pol_fresh_for = 86400000000000, pol_retain_for = 2592000000000000\<rparr>)]"

definition policy_by_id :: "policy_id \<Rightarrow> freshness_policy option" where
  "policy_by_id i = gm_get policies_v1 i"

definition evaluate_temporal ::
  "freshness_policy \<Rightarrow> monotonic_nanos \<Rightarrow> monotonic_nanos \<Rightarrow> pv_error + temporal_state" where
  "evaluate_temporal policy receipt evaluated =
     (if sint receipt < 0 \<or> sint evaluated < sint receipt \<or> sint (pol_fresh_for policy) \<le> 0
         \<or> sint (pol_retain_for policy) \<le> sint (pol_fresh_for policy)
      then Inl ErrInvalidMonotonicTime
      else if sint receipt > sint (word_of_int max_int64 - pol_retain_for policy)
      then Inl ErrInvalidMonotonicTime
      else
        let temporal = \<lparr>t_receipt = receipt,
                        t_fresh_until = receipt + pol_fresh_for policy,
                        t_retain_until = receipt + pol_retain_for policy,
                        t_policy = pol_id policy\<rparr>
        in if sint evaluated \<ge> sint (t_retain_until temporal)
           then Inr \<lparr>ts_availability = AvailabilityUnavailable,
                     ts_freshness = FreshnessExpired, ts_temporal = temporal\<rparr>
           else if sint evaluated \<ge> sint (t_fresh_until temporal)
           then Inr \<lparr>ts_availability = AvailabilityAvailable,
                     ts_freshness = FreshnessStale, ts_temporal = temporal\<rparr>
           else Inr \<lparr>ts_availability = AvailabilityAvailable,
                     ts_freshness = FreshnessFresh, ts_temporal = temporal\<rparr>)"

section \<open>Specification on exact integers\<close>

text \<open>The class of a reading of a given age.\<close>

definition age_class :: "freshness_policy \<Rightarrow> int \<Rightarrow> string \<times> string" where
  "age_class p age =
     (if age \<ge> sint (pol_retain_for p) then (AvailabilityUnavailable, FreshnessExpired)
      else if age \<ge> sint (pol_fresh_for p) then (AvailabilityAvailable, FreshnessStale)
      else (AvailabilityAvailable, FreshnessFresh))"

text \<open>Which calls are evaluated: the retention end must be representable.\<close>

definition receipt_ok :: "freshness_policy \<Rightarrow> monotonic_nanos \<Rightarrow> bool" where
  "receipt_ok p receipt \<longleftrightarrow>
     0 \<le> sint receipt \<and> 0 < sint (pol_fresh_for p) \<and>
     sint (pol_fresh_for p) < sint (pol_retain_for p) \<and>
     sint receipt + sint (pol_retain_for p) \<le> max_int64"

definition temporal_of :: "freshness_policy \<Rightarrow> monotonic_nanos \<Rightarrow> temporal" where
  "temporal_of p receipt =
     \<lparr>t_receipt = receipt, t_fresh_until = receipt + pol_fresh_for p,
      t_retain_until = receipt + pol_retain_for p, t_policy = pol_id p\<rparr>"

lemma temporal_of_exact:
  assumes "receipt_ok p r"
  shows "sint (t_fresh_until (temporal_of p r)) = sint r + sint (pol_fresh_for p)"
    and "sint (t_retain_until (temporal_of p r)) = sint r + sint (pol_retain_for p)"
  using assms
  by (auto simp: temporal_of_def receipt_ok_def is_int64_def max_int64_def intro!: sint_add64)

lemma retain_bound_exact:
  "0 < sint (pol_retain_for p) \<Longrightarrow>
     sint (word_of_int max_int64 - pol_retain_for p) = max_int64 - sint (pol_retain_for p)"
  using sint_lt [of "pol_retain_for p"]
  by (subst sint_sub64) (simp_all add: word_sint_max is_int64_def max_int64_def)

lemma evaluate_temporal_exact:
  "evaluate_temporal p receipt evaluated =
    (if receipt_ok p receipt \<and> sint receipt \<le> sint evaluated
     then Inr \<lparr>ts_availability = fst (age_class p (sint evaluated - sint receipt)),
               ts_freshness = snd (age_class p (sint evaluated - sint receipt)),
               ts_temporal = temporal_of p receipt\<rparr>
     else Inl ErrInvalidMonotonicTime)"
proof (cases "0 \<le> sint receipt \<and> sint receipt \<le> sint evaluated \<and> 0 < sint (pol_fresh_for p) \<and>
      sint (pol_fresh_for p) < sint (pol_retain_for p)")
  case False
  then show ?thesis by (auto simp: evaluate_temporal_def receipt_ok_def)
next
  case True
  then have m: "sint (word_of_int max_int64 - pol_retain_for p) = max_int64 - sint (pol_retain_for p)"
    by (intro retain_bound_exact) auto
  show ?thesis
  proof (cases "receipt_ok p receipt")
    case False
    then show ?thesis using True m by (auto simp: evaluate_temporal_def receipt_ok_def)
  next
    case ok: True
    have "\<not> sint receipt > sint (word_of_int max_int64 - pol_retain_for p)"
      using ok by (simp add: m receipt_ok_def)
    then show ?thesis
      using True ok temporal_of_exact [OF ok]
      by (auto simp: evaluate_temporal_def age_class_def Let_def temporal_of_def)
  qed
qed

text \<open>A rank of the freshness values: older is larger.\<close>

definition freshness_rank :: "string \<Rightarrow> nat" where
  "freshness_rank f = (if f = FreshnessFresh then 0 else if f = FreshnessStale then 1 else 2)"

section \<open>The contract\<close>

locale ageing =
  fixes eval :: "monotonic_nanos \<Rightarrow> monotonic_nanos \<Rightarrow> 'e + temporal_state"
    and bad_time :: 'e
  assumes eval_error: "eval r t = Inl e \<Longrightarrow> e = bad_time"
    and eval_causal: "eval r t = Inr s \<Longrightarrow> sint r \<le> sint t"
    and eval_later: "eval r t = Inr s \<Longrightarrow> sint t \<le> sint u \<Longrightarrow> \<exists>s'. eval r u = Inr s' \<and>
          ts_temporal s' = ts_temporal s \<and>
          freshness_rank (ts_freshness s) \<le> freshness_rank (ts_freshness s') \<and>
          (ts_availability s = AvailabilityUnavailable \<longrightarrow>
             ts_availability s' = AvailabilityUnavailable)"
    and eval_earlier: "eval r t = Inr s \<Longrightarrow> sint r \<le> sint u \<Longrightarrow> \<exists>s'. eval r u = Inr s'"
    and eval_receipt: "eval r t = Inr s \<Longrightarrow> t_receipt (ts_temporal s) = r"
    and eval_classes: "eval r t = Inr s \<Longrightarrow>
          ts_availability s \<in> {AvailabilityAvailable, AvailabilityUnavailable} \<and>
          (ts_availability s = AvailabilityUnavailable \<longleftrightarrow> ts_freshness s = FreshnessExpired)"
begin

text \<open>The stored temporal record only depends on the receipt.\<close>

lemma eval_temporal_unique:
  assumes "eval r t = Inr s" and "eval r u = Inr s'"
  shows "ts_temporal s' = ts_temporal s"
proof (cases "sint t \<le> sint u")
  case True
  then show ?thesis using eval_later [OF assms(1) True] assms(2) by auto
next
  case False
  then show ?thesis using eval_later [OF assms(2), of t] assms(1) by auto
qed

text \<open>Once a receipt can be evaluated, evaluation fails exactly before it.\<close>

lemma eval_succeeds_iff:
  assumes "eval r t = Inr s"
  shows "(\<exists>s'. eval r u = Inr s') \<longleftrightarrow> sint r \<le> sint u"
  using eval_earlier [OF assms] eval_causal by blast

lemma eval_expired_stays:
  assumes "eval r t = Inr s" and "ts_freshness s = FreshnessExpired" and "sint t \<le> sint u"
    and "eval r u = Inr s'"
  shows "ts_freshness s' = FreshnessExpired"
  using eval_later [OF assms(1,3)] eval_classes [OF assms(1)] eval_classes [OF assms(4)] assms(2,4)
  by auto

end

lemma policies_v1_ok:
  "policy_by_id i = Some p \<Longrightarrow>
     pol_id p = i \<and> 0 < sint (pol_fresh_for p) \<and> sint (pol_fresh_for p) < sint (pol_retain_for p)"
  by (auto simp: policy_by_id_def policies_v1_def gm_get_def split: if_splits)

lemma age_class_mono:
  assumes "a \<le> b" and "sint (pol_fresh_for p) < sint (pol_retain_for p)"
  shows "freshness_rank (snd (age_class p a)) \<le> freshness_rank (snd (age_class p b))"
    and "fst (age_class p a) = AvailabilityUnavailable \<Longrightarrow>
         fst (age_class p b) = AvailabilityUnavailable"
  using assms by (auto simp: age_class_def freshness_rank_def split: if_splits)

lemma evaluate_temporal_Inr:
  "evaluate_temporal p r t = Inr s \<longleftrightarrow> receipt_ok p r \<and> sint r \<le> sint t \<and>
     s = \<lparr>ts_availability = fst (age_class p (sint t - sint r)),
          ts_freshness = snd (age_class p (sint t - sint r)), ts_temporal = temporal_of p r\<rparr>"
  by (auto simp: evaluate_temporal_exact)

interpretation lc: ageing "evaluate_temporal p" ErrInvalidMonotonicTime for p
proof unfold_locales
  fix r t u s e
  show "evaluate_temporal p r t = Inl e \<Longrightarrow> e = ErrInvalidMonotonicTime"
    by (auto simp: evaluate_temporal_exact split: if_splits)
  show "evaluate_temporal p r t = Inr s \<Longrightarrow> sint r \<le> sint t"
    by (simp add: evaluate_temporal_Inr)
  show "evaluate_temporal p r t = Inr s \<Longrightarrow> sint r \<le> sint u \<Longrightarrow>
      \<exists>s'. evaluate_temporal p r u = Inr s'"
    by (simp add: evaluate_temporal_Inr)
  show "evaluate_temporal p r t = Inr s \<Longrightarrow> t_receipt (ts_temporal s) = r"
    by (auto simp: evaluate_temporal_Inr temporal_of_def)
  show "evaluate_temporal p r t = Inr s \<Longrightarrow>
      ts_availability s \<in> {AvailabilityAvailable, AvailabilityUnavailable} \<and>
      (ts_availability s = AvailabilityUnavailable \<longleftrightarrow> ts_freshness s = FreshnessExpired)"
    by (auto simp: evaluate_temporal_Inr age_class_def split: if_splits)
  assume r: "evaluate_temporal p r t = Inr s" and le: "sint t \<le> sint u"
  have "sint (pol_fresh_for p) < sint (pol_retain_for p)"
    using r by (simp add: evaluate_temporal_Inr receipt_ok_def)
  moreover have "sint t - sint r \<le> sint u - sint r" using le by simp
  ultimately show "\<exists>s'. evaluate_temporal p r u = Inr s' \<and> ts_temporal s' = ts_temporal s \<and>
      freshness_rank (ts_freshness s) \<le> freshness_rank (ts_freshness s') \<and>
      (ts_availability s = AvailabilityUnavailable \<longrightarrow>
         ts_availability s' = AvailabilityUnavailable)"
    using r le age_class_mono [of "sint t - sint r" "sint u - sint r" p]
    by (auto simp: evaluate_temporal_Inr)
qed

end
