(* ===== verification/Pv_Catalog.thy ===== *)
theory Pv_Catalog
  imports Pv_Lifecycle
begin

text \<open>
  The fact catalog and the validation of candidate facts (\<open>pv/catalog.go\<close>). The parts of
  package \<open>net\<close> that identifier validation calls (\<open>ParseIP\<close>, \<open>SplitHostPort\<close>) are
  modelled as acceptors: the code only asks whether they succeed.
\<close>

section \<open>Package net\<close>

text \<open>\<open>netip.parseIPv4Fields\<close>: current octet, digits seen in it, octets stored, rest.\<close>

fun ipv4_fields :: "nat \<Rightarrow> nat \<Rightarrow> nat \<Rightarrow> string \<Rightarrow> bool" where
  "ipv4_fields val dig_len pos [] = (\<not> pos < 3)"
| "ipv4_fields val dig_len pos (c # r) =
     (if is_digit c then
        (if dig_len = 1 \<and> val = 0 then False
         else let val' = val * 10 + digit_val c
              in if val' > 255 then False else ipv4_fields val' (Suc dig_len) pos r)
      else if c = CHR ''.'' then
        (if dig_len = 0 \<or> r = [] then False
         else if pos = 3 then False
         else ipv4_fields 0 0 (Suc pos) r)
      else False)"

definition is_hex :: "char \<Rightarrow> bool" where
  "is_hex c \<longleftrightarrow> is_digit c \<or> (97 \<le> (of_char c :: nat) \<and> (of_char c :: nat) \<le> 102) \<or>
     (65 \<le> (of_char c :: nat) \<and> (of_char c :: nat) \<le> 70)"

text \<open>
  The loop of \<open>netip.parseIPv6\<close>: bytes filled, whether an ellipsis was seen, rest. At the
  end the whole input must be used and an ellipsis must stand for at least one group.
\<close>

definition ipv6_end :: "nat \<Rightarrow> bool \<Rightarrow> string \<Rightarrow> bool" where
  "ipv6_end i ellipsis s \<longleftrightarrow> s = [] \<and> (if i < 16 then ellipsis else \<not> ellipsis)"

function ipv6_groups :: "nat \<Rightarrow> bool \<Rightarrow> string \<Rightarrow> bool" where
  "ipv6_groups i ellipsis s =
     (if \<not> i < 16 then ipv6_end i ellipsis s
      else
        let off = length (takeWhile is_hex s); rest = drop off s
        in if off > 4 \<or> off = 0 then False
           else if rest \<noteq> [] \<and> hd rest = CHR ''.'' then
             (if \<not> ellipsis \<and> i \<noteq> 12 then False
              else if i + 4 > 16 then False
              else ipv4_fields 0 0 0 s \<and> ipv6_end (i + 4) ellipsis [])
           else (case rest of
               [] \<Rightarrow> ipv6_end (i + 2) ellipsis []
             | [c] \<Rightarrow> False
             | c # d # r \<Rightarrow>
                 if c \<noteq> CHR '':'' then False
                 else if d = CHR '':'' then
                   (if ellipsis then False
                    else if r = [] then ipv6_end (i + 2) True []
                    else ipv6_groups (i + 2) True r)
                 else ipv6_groups (i + 2) ellipsis (d # r)))"
  by pat_completeness auto
termination
  by (relation "measure (\<lambda>(i, _, _). 16 - i)") auto

declare ipv6_groups.simps [simp del]

definition parse_ipv6_ok :: "string \<Rightarrow> bool" where
  "parse_ipv6_ok s =
     (if has_prefix s ''::'' then drop 2 s = [] \<or> ipv6_groups 0 True (drop 2 s)
      else ipv6_groups 0 False s)"

text \<open>\<open>netip.ParseAddr\<close> decides on the first dot, colon or percent; \<open>net.ParseIP\<close> rejects zones.\<close>

definition parse_ip_ok :: "string \<Rightarrow> bool" where
  "parse_ip_ok s =
     (case dropWhile (\<lambda>c. c \<notin> {CHR ''.'', CHR '':'', CHR ''%''}) s of
        [] \<Rightarrow> False
      | c # _ \<Rightarrow> if c = CHR ''.'' then ipv4_fields 0 0 0 s
                 else if c = CHR '':'' then parse_ipv6_ok s else False)"

definition split_host_port_ok :: "string \<Rightarrow> bool" where
  "split_host_port_ok s =
     (case last_index (CHR '':'') s of
        None \<Rightarrow> False
      | Some i \<Rightarrow>
          if hd s = CHR ''['' then
            (let e = length (takeWhile (\<lambda>c. c \<noteq> CHR '']'') s)
             in e < length s \<and> e + 1 = i \<and>
                \<not> List.member (drop 1 s) (CHR ''['') \<and> \<not> List.member (drop (e + 1) s) (CHR '']''))
          else \<not> List.member (take i s) (CHR '':'') \<and>
               \<not> List.member s (CHR ''['') \<and> \<not> List.member s (CHR '']''))"

section \<open>Catalog\<close>

abbreviation "FactACActivePower \<equiv> ''pv.ac.power.active''"
abbreviation "FactACApparentPower \<equiv> ''pv.ac.power.apparent''"
abbreviation "FactACReactivePower \<equiv> ''pv.ac.power.reactive''"
abbreviation "FactACPowerFactor \<equiv> ''pv.ac.power_factor''"
abbreviation "FactACFrequency \<equiv> ''pv.ac.frequency''"
abbreviation "FactACCurrent \<equiv> ''pv.ac.current''"
abbreviation "FactACVoltageLineToNeutral \<equiv> ''pv.ac.voltage.line_to_neutral''"
abbreviation "FactACVoltageLineToLine \<equiv> ''pv.ac.voltage.line_to_line''"
abbreviation "FactEnergyActiveExportTotal \<equiv> ''pv.energy.active_export_total''"
abbreviation "FactDCCurrent \<equiv> ''pv.dc.current''"
abbreviation "FactDCVoltage \<equiv> ''pv.dc.voltage''"
abbreviation "FactDCActivePower \<equiv> ''pv.dc.power.active''"
abbreviation "FactDCEnergyActiveTotal \<equiv> ''pv.dc.energy.active_total''"
abbreviation "FactTemperature \<equiv> ''pv.temperature''"
abbreviation "FactOperatingState \<equiv> ''pv.operating.state''"
abbreviation "FactEventFlags \<equiv> ''pv.event.flags''"
abbreviation "FactRatingACActivePower \<equiv> ''pv.rating.ac.active_power''"

abbreviation "dimensionScope \<equiv> ''scope''"
abbreviation "dimensionPhase \<equiv> ''phase''"
abbreviation "dimensionPhasePair \<equiv> ''phase_pair''"
abbreviation "dimensionInputID \<equiv> ''input_id''"
abbreviation "dimensionSensorID \<equiv> ''sensor_id''"

record fact_definition =
  fd_id :: fact_id
  fd_kind :: string
  fd_unit :: string
  fd_dimension :: string
  fd_policy :: policy_id
  fd_accumulator :: bool
  fd_domain :: "string set"

record catalog =
  cat_contract_id :: string
  cat_facts :: "(fact_id, fact_definition) gomap"
  cat_additive_facts_allowed :: bool
  cat_write_authority :: bool
  cat_source_compatibility :: "(string, string) gomap"

definition decimal_definition ::
  "fact_id \<Rightarrow> string \<Rightarrow> string \<Rightarrow> policy_id \<Rightarrow> bool \<Rightarrow> fact_definition" where
  "decimal_definition i unit dimension policy accumulator =
     \<lparr>fd_id = i, fd_kind = ValueKindDecimal, fd_unit = unit, fd_dimension = dimension,
      fd_policy = policy, fd_accumulator = accumulator, fd_domain = {}\<rparr>"

definition string_set :: "string list \<Rightarrow> string set" where
  "string_set values = set values"

definition catalog_definitions :: "fact_definition list" where
  "catalog_definitions =
    [decimal_definition FactACActivePower UnitWatt dimensionScope PolicyTelemetryFastV1 False,
     decimal_definition FactACApparentPower UnitVoltAmp dimensionScope PolicyTelemetryFastV1 False,
     decimal_definition FactACReactivePower UnitVar dimensionScope PolicyTelemetryFastV1 False,
     decimal_definition FactACPowerFactor UnitOne dimensionScope PolicyTelemetryFastV1 False,
     decimal_definition FactACFrequency UnitHertz dimensionScope PolicyTelemetryFastV1 False,
     decimal_definition FactACCurrent UnitAmpere dimensionPhase PolicyTelemetryFastV1 False,
     decimal_definition FactACVoltageLineToNeutral UnitVolt dimensionPhase PolicyTelemetryFastV1 False,
     decimal_definition FactACVoltageLineToLine UnitVolt dimensionPhasePair PolicyTelemetryFastV1 False,
     decimal_definition FactEnergyActiveExportTotal UnitWattHour dimensionScope PolicyAccumulatorV1 True,
     decimal_definition FactDCCurrent UnitAmpere dimensionInputID PolicyTelemetryFastV1 False,
     decimal_definition FactDCVoltage UnitVolt dimensionInputID PolicyTelemetryFastV1 False,
     decimal_definition FactDCActivePower UnitWatt dimensionInputID PolicyTelemetryFastV1 False,
     decimal_definition FactDCEnergyActiveTotal UnitWattHour dimensionInputID PolicyAccumulatorV1 True,
     decimal_definition FactTemperature UnitCelsius dimensionSensorID PolicyTelemetryFastV1 False,
     \<lparr>fd_id = FactOperatingState, fd_kind = ValueKindEnum, fd_unit = UnitOne,
      fd_dimension = dimensionScope, fd_policy = PolicyStatusV1, fd_accumulator = False,
      fd_domain = string_set [''UNKNOWN'', ''OFF'', ''STANDBY'', ''STARTING'', ''OPERATING'',
        ''DERATED'', ''FAULT'', ''SHUTTING_DOWN'']\<rparr>,
     \<lparr>fd_id = FactEventFlags, fd_kind = ValueKindBitfield, fd_unit = UnitOne,
      fd_dimension = dimensionScope, fd_policy = PolicyStatusV1, fd_accumulator = False,
      fd_domain = string_set [''GROUND_FAULT'', ''DC_OVER_VOLTAGE'', ''AC_DISCONNECT'',
        ''DC_DISCONNECT'', ''GRID_DISCONNECT'', ''CABINET_OPEN'', ''MANUAL_SHUTDOWN'',
        ''OVER_TEMPERATURE'', ''FREQUENCY_OUT_OF_RANGE'', ''VOLTAGE_OUT_OF_RANGE'',
        ''COMMUNICATION_FAULT'', ''INTERNAL_FAULT'']\<rparr>,
     decimal_definition FactRatingACActivePower UnitWatt dimensionScope PolicyRatingV1 False]"

definition catalog_v1 :: catalog where
  "catalog_v1 =
     \<lparr>cat_contract_id = ContractV1,
      cat_facts = fold (\<lambda>d. gm_put (fd_id d) d) catalog_definitions [],
      cat_additive_facts_allowed = False,
      cat_write_authority = False,
      cat_source_compatibility =
        [(''sunspec.phase1@1.0.0'', []),
         (''sunspec.inverter.three_phase.monitoring@1.0.0'', [])]\<rparr>"

section \<open>Validation\<close>

text \<open>The pattern \<open>^[A-Za-z0-9._:-]+$\<close>.\<close>

definition identifier_char :: "char \<Rightarrow> bool" where
  "identifier_char c \<longleftrightarrow> is_alnum c \<or> c \<in> {CHR ''.'', CHR ''_'', CHR '':'', CHR ''-''}"

definition identifier_pattern :: "string \<Rightarrow> bool" where
  "identifier_pattern s \<longleftrightarrow> s \<noteq> [] \<and> list_all identifier_char s"

definition valid_opaque_identifier :: "string \<Rightarrow> bool" where
  "valid_opaque_identifier value =
     (if length value = 0 \<or> length value > 64 \<or> \<not> identifier_pattern value \<or> parse_ip_ok value
      then False
      else if str_contains value ''://'' then False
      else if split_host_port_ok value then False
      else True)"

definition count_present :: "dimensions \<Rightarrow> nat" where
  "count_present d =
     length (filter id [dim_scope d \<noteq> [], dim_phase d \<noteq> [], dim_phase_pair d \<noteq> [],
                        dim_input_id d \<noteq> [], dim_sensor_id d \<noteq> []])"

definition validate_dimensions :: "string \<Rightarrow> dimensions \<Rightarrow> pv_error option" where
  "validate_dimensions kind d =
     (if count_present d \<noteq> 1 then Some ErrInvalidFact
      else if kind = dimensionScope then
        (if dim_scope d \<noteq> ScopeTotal then Some ErrInvalidFact else None)
      else if kind = dimensionPhase then
        (if dim_phase d \<noteq> PhaseL1 \<and> dim_phase d \<noteq> PhaseL2 \<and> dim_phase d \<noteq> PhaseL3
         then Some ErrInvalidFact else None)
      else if kind = dimensionPhasePair then
        (if dim_phase_pair d \<noteq> PhasePairL1L2 \<and> dim_phase_pair d \<noteq> PhasePairL2L3 \<and>
            dim_phase_pair d \<noteq> PhasePairL3L1
         then Some ErrInvalidFact else None)
      else if kind = dimensionInputID then
        (if \<not> valid_opaque_identifier (dim_input_id d) then Some ErrInvalidFact else None)
      else if kind = dimensionSensorID then
        (if \<not> valid_opaque_identifier (dim_sensor_id d) then Some ErrInvalidFact else None)
      else Some ErrInvalidFact)"

text \<open>The scan over a bitfield's symbols with the set of symbols seen.\<close>

fun validate_symbols :: "string set \<Rightarrow> string set \<Rightarrow> string list \<Rightarrow> pv_error option" where
  "validate_symbols domain seen [] = None"
| "validate_symbols domain seen (s # ss) =
     (if s \<notin> domain then Some ErrInvalidFact
      else if s \<in> seen then Some ErrInvalidFact
      else validate_symbols domain (insert s seen) ss)"

definition validate_candidate :: "catalog \<Rightarrow> fact_candidate \<Rightarrow> pv_error option" where
  "validate_candidate cat candidate =
     (case gm_get (cat_facts cat) (cand_id candidate) of
        None \<Rightarrow> Some ErrInvalidFact
      | Some def \<Rightarrow>
          let value = cand_value candidate in
          if fd_unit def \<noteq> cand_unit candidate \<or> fd_kind def \<noteq> fv_kind value
          then Some ErrInvalidFact
          else case validate_dimensions (fd_dimension def) (cand_dimensions candidate) of
            Some e \<Rightarrow> Some e
          | None \<Rightarrow>
              if fd_kind def = ValueKindDecimal then
                (case fv_decimal value of
                   None \<Rightarrow> Some ErrInvalidFact
                 | Some d \<Rightarrow>
                     if fv_symbol value \<noteq> [] \<or> length (fv_symbols value) \<noteq> 0
                        \<or> decimal_validate d \<noteq> None
                     then Some ErrInvalidFact else None)
              else if fd_kind def = ValueKindEnum then
                (if fv_decimal value \<noteq> None \<or> length (fv_symbols value) \<noteq> 0
                 then Some ErrInvalidFact
                 else if fv_symbol value \<notin> fd_domain def then Some ErrInvalidFact else None)
              else if fd_kind def = ValueKindBitfield then
                (if fv_decimal value \<noteq> None \<or> fv_symbol value \<noteq> []
                 then Some ErrInvalidFact
                 else validate_symbols (fd_domain def) {} (fv_symbols value))
              else Some ErrInvalidFact)"

definition validate_policy :: "fact_definition \<Rightarrow> policy_id \<Rightarrow> pv_error option" where
  "validate_policy def policy =
     (if fd_policy def \<noteq> policy then Some ErrInvalidFact else None)"

definition three_phase_required_keys :: "fact_key list" where
  "three_phase_required_keys =
     sort (map (\<lambda>i. new_fact_key i (no_dimensions\<lparr>dim_scope := ScopeTotal\<rparr>))
             [FactACActivePower, FactACFrequency, FactEnergyActiveExportTotal, FactOperatingState] @
           concat (map (\<lambda>p. [new_fact_key FactACCurrent (no_dimensions\<lparr>dim_phase := p\<rparr>),
                             new_fact_key FactACVoltageLineToNeutral (no_dimensions\<lparr>dim_phase := p\<rparr>)])
                   [PhaseL1, PhaseL2, PhaseL3]))"

definition three_phase_telemetry_satisfied :: "(fact_key, fact) gomap \<Rightarrow> bool" where
  "three_phase_telemetry_satisfied facts =
     list_all (\<lambda>key. case gm_get facts key of
         None \<Rightarrow> False
       | Some f \<Rightarrow> fact_availability f = AvailabilityAvailable \<or>
                   fact_availability f = AvailabilityUnavailable)
       three_phase_required_keys"

section \<open>Lemmas\<close>

subsection \<open>Dimensions and keys\<close>

definition one_dimension :: "string \<Rightarrow> dimensions \<Rightarrow> bool" where
  "one_dimension kind d \<longleftrightarrow>
     (kind = dimensionScope \<and> d = no_dimensions\<lparr>dim_scope := ScopeTotal\<rparr>) \<or>
     (kind = dimensionPhase \<and> (\<exists>p \<in> {PhaseL1, PhaseL2, PhaseL3}. d = no_dimensions\<lparr>dim_phase := p\<rparr>)) \<or>
     (kind = dimensionPhasePair \<and> (\<exists>p \<in> {PhasePairL1L2, PhasePairL2L3, PhasePairL3L1}.
        d = no_dimensions\<lparr>dim_phase_pair := p\<rparr>)) \<or>
     (kind = dimensionInputID \<and> (\<exists>i. valid_opaque_identifier i \<and> d = no_dimensions\<lparr>dim_input_id := i\<rparr>)) \<or>
     (kind = dimensionSensorID \<and> (\<exists>i. valid_opaque_identifier i \<and> d = no_dimensions\<lparr>dim_sensor_id := i\<rparr>))"

lemma valid_opaque_nonempty: "valid_opaque_identifier i \<Longrightarrow> i \<noteq> []"
  by (auto simp: valid_opaque_identifier_def)

lemma count_present_one:
  "count_present d = 1 \<and> dim_scope d = v \<and> v \<noteq> [] \<longleftrightarrow> d = no_dimensions\<lparr>dim_scope := v\<rparr> \<and> v \<noteq> []"
  "count_present d = 1 \<and> dim_phase d = v \<and> v \<noteq> [] \<longleftrightarrow> d = no_dimensions\<lparr>dim_phase := v\<rparr> \<and> v \<noteq> []"
  "count_present d = 1 \<and> dim_phase_pair d = v \<and> v \<noteq> [] \<longleftrightarrow>
     d = no_dimensions\<lparr>dim_phase_pair := v\<rparr> \<and> v \<noteq> []"
  "count_present d = 1 \<and> dim_input_id d = v \<and> v \<noteq> [] \<longleftrightarrow> d = no_dimensions\<lparr>dim_input_id := v\<rparr> \<and> v \<noteq> []"
  "count_present d = 1 \<and> dim_sensor_id d = v \<and> v \<noteq> [] \<longleftrightarrow>
     d = no_dimensions\<lparr>dim_sensor_id := v\<rparr> \<and> v \<noteq> []"
  by (cases d; auto simp: count_present_def no_dimensions_def)+

lemma opaque_dimension:
  assumes "\<And>i. V i \<Longrightarrow> i \<noteq> []"
  shows "(\<exists>i. V i \<and> d = no_dimensions\<lparr>dim_input_id := i\<rparr>) \<longleftrightarrow> count_present d = 1 \<and> V (dim_input_id d)"
    and "(\<exists>i. V i \<and> d = no_dimensions\<lparr>dim_sensor_id := i\<rparr>) \<longleftrightarrow> count_present d = 1 \<and> V (dim_sensor_id d)"
  using count_present_one(4) [of d] count_present_one(5) [of d] assms by metis+

lemma validate_dimensions_None: "validate_dimensions kind d = None \<longleftrightarrow> one_dimension kind d"
proof -
  consider "kind = dimensionScope" | "kind = dimensionPhase" | "kind = dimensionPhasePair"
    | "kind = dimensionInputID" | "kind = dimensionSensorID"
    | "kind \<notin> {dimensionScope, dimensionPhase, dimensionPhasePair, dimensionInputID, dimensionSensorID}"
    by blast
  then show ?thesis
  proof cases
    case 1
    then show ?thesis
      using count_present_one(1) [of d ScopeTotal]
      by (auto simp: validate_dimensions_def one_dimension_def)
  next
    case 2
    then show ?thesis
      using count_present_one(2) [of d PhaseL1] count_present_one(2) [of d PhaseL2]
        count_present_one(2) [of d PhaseL3]
      by (auto simp: validate_dimensions_def one_dimension_def)
  next
    case 3
    then show ?thesis
      using count_present_one(3) [of d PhasePairL1L2] count_present_one(3) [of d PhasePairL2L3]
        count_present_one(3) [of d PhasePairL3L1]
      by (auto simp: validate_dimensions_def one_dimension_def)
  next
    case 4
    then show ?thesis
      using opaque_dimension(1) [where d = d, OF valid_opaque_nonempty]
      by (auto simp: validate_dimensions_def one_dimension_def)
  next
    case 5
    then show ?thesis
      using opaque_dimension(2) [where d = d, OF valid_opaque_nonempty]
      by (auto simp: validate_dimensions_def one_dimension_def)
  next
    case 6
    then show ?thesis by (simp add: validate_dimensions_def one_dimension_def)
  qed
qed

definition kind_label :: "string \<Rightarrow> dimensions \<Rightarrow> string" where
  "kind_label kind d =
     (if kind = dimensionScope then dim_scope d
      else if kind = dimensionPhase then dim_phase d
      else if kind = dimensionPhasePair then dim_phase_pair d
      else if kind = dimensionInputID then dim_input_id d else dim_sensor_id d)"

definition with_label :: "string \<Rightarrow> string \<Rightarrow> dimensions" where
  "with_label kind v =
     (if kind = dimensionScope then no_dimensions\<lparr>dim_scope := v\<rparr>
      else if kind = dimensionPhase then no_dimensions\<lparr>dim_phase := v\<rparr>
      else if kind = dimensionPhasePair then no_dimensions\<lparr>dim_phase_pair := v\<rparr>
      else if kind = dimensionInputID then no_dimensions\<lparr>dim_input_id := v\<rparr>
      else no_dimensions\<lparr>dim_sensor_id := v\<rparr>)"

lemma one_dimension_label:
  "one_dimension kind d \<Longrightarrow> d = with_label kind (kind_label kind d) \<and> kind_label kind d \<noteq> [] \<and>
     kind \<in> {dimensionScope, dimensionPhase, dimensionPhasePair, dimensionInputID, dimensionSensorID}"
  unfolding one_dimension_def
  by (elim disjE conjE bexE exE; force simp: with_label_def kind_label_def no_dimensions_def
      dest: valid_opaque_nonempty)

lemma with_label_identity:
  assumes "kind \<in> {dimensionScope, dimensionPhase, dimensionPhasePair, dimensionInputID, dimensionSensorID}"
    and "v \<noteq> []"
  shows "dimensions_identity (with_label kind v) = kind @ ''='' @ v"
  using assms by (elim insertE; simp add: with_label_def dimensions_identity_def no_dimensions_def)

lemma one_dimension_identity:
  "one_dimension kind d \<Longrightarrow> dimensions_identity d = kind @ ''='' @ kind_label kind d"
  using one_dimension_label [of kind d] with_label_identity [of kind "kind_label kind d"] by metis

lemma one_dimension_eq:
  "one_dimension kind d \<Longrightarrow> one_dimension kind e \<Longrightarrow> kind_label kind d = kind_label kind e \<Longrightarrow> d = e"
  using one_dimension_label by metis

subsection \<open>The catalog's contents\<close>

lemma catalog_v1_get:
  "gm_get (cat_facts catalog_v1) i = map_of (rev (map (\<lambda>d. (fd_id d, d)) catalog_definitions)) i"
proof -
  have "fold (\<lambda>d. gm_put (fd_id d) d) catalog_definitions [] =
      fold (\<lambda>(k, v). gm_put k v) (map (\<lambda>d. (fd_id d, d)) catalog_definitions) []"
    by (simp add: fold_map comp_def)
  then show ?thesis
    using gm.fold_put_get [of "map (\<lambda>d. (fd_id d, d)) catalog_definitions" "[]"]
    by (simp add: catalog_v1_def gm_get_def [abs_def])
qed

lemma catalog_v1_in:
  assumes "gm_get (cat_facts catalog_v1) i = Some def"
  shows "def \<in> set catalog_definitions \<and> fd_id def = i"
  using map_of_SomeD [OF assms [unfolded catalog_v1_get]] by auto

lemma catalog_definitions_ok:
  "list_all (\<lambda>d. CHR ''|'' \<notin> set (fd_id d) \<and> policy_by_id (fd_policy d) \<noteq> None \<and>
     (fd_accumulator d \<longrightarrow> fd_kind d = ValueKindDecimal)) catalog_definitions"
  by (simp add: catalog_definitions_def decimal_definition_def policy_by_id_def policies_v1_def
      gm_get_def)

lemma catalog_v1_facts:
  assumes "gm_get (cat_facts catalog_v1) i = Some def"
  shows "fd_id def = i" and "CHR ''|'' \<notin> set i" and "\<exists>p. policy_by_id (fd_policy def) = Some p"
    and "fd_accumulator def \<Longrightarrow> fd_kind def = ValueKindDecimal"
  using catalog_v1_in [OF assms] catalog_definitions_ok by (auto simp: list_all_iff)

subsection \<open>Admitted candidates\<close>

lemma validate_candidate_None:
  assumes "validate_candidate cat c = None"
  obtains def where "gm_get (cat_facts cat) (cand_id c) = Some def"
    and "fd_unit def = cand_unit c" and "fd_kind def = fv_kind (cand_value c)"
    and "one_dimension (fd_dimension def) (cand_dimensions c)"
    and "fd_kind def = ValueKindDecimal \<Longrightarrow>
           \<exists>d. fv_decimal (cand_value c) = Some d \<and> decimal_validate d = None"
    and "fd_kind def \<noteq> ValueKindDecimal \<Longrightarrow> fv_decimal (cand_value c) = None"
  using assms
  by (auto simp: validate_candidate_def Let_def validate_dimensions_None
      split: option.splits if_splits)

text \<open>The identity of an admitted candidate: its fact and its dimensions.\<close>

definition admitted_id :: "fact_id \<times> dimensions \<Rightarrow> bool" where
  "admitted_id x \<longleftrightarrow> (\<exists>def. gm_get (cat_facts catalog_v1) (fst x) = Some def \<and>
     one_dimension (fd_dimension def) (snd x))"

lemma validate_candidate_admitted:
  "validate_candidate catalog_v1 c = None \<Longrightarrow> admitted_id (cand_id c, cand_dimensions c)"
  by (auto simp: admitted_id_def elim!: validate_candidate_None)

lemma bar_prefix_unique:
  assumes "CHR ''|'' \<notin> set a" and "CHR ''|'' \<notin> set b" and "a @ ''|'' @ x = b @ ''|'' @ y"
  shows "a = b \<and> x = y"
proof -
  have "takeWhile (\<lambda>c. c \<noteq> CHR ''|'') (u @ ''|'' @ v) = u" if "CHR ''|'' \<notin> set u" for u v
    using that by (induction u) auto
  then have "a = b" using assms by metis
  then show ?thesis using assms(3) by simp
qed

interpretation fk: keyed "\<lambda>(i, d). new_fact_key i d" admitted_id
proof unfold_locales
  fix x y
  assume x: "admitted_id x" and y: "admitted_id y"
    and eq: "(case x of (i, d) \<Rightarrow> new_fact_key i d) = (case y of (i, d) \<Rightarrow> new_fact_key i d)"
  obtain i d j e where xy: "x = (i, d)" "y = (j, e)" by (cases x, cases y)
  from x obtain def where def: "gm_get (cat_facts catalog_v1) i = Some def"
    "one_dimension (fd_dimension def) d" by (auto simp: xy admitted_id_def)
  from y obtain def' where def': "gm_get (cat_facts catalog_v1) j = Some def'"
    "one_dimension (fd_dimension def') e" by (auto simp: xy admitted_id_def)
  have "i = j \<and> dimensions_identity d = dimensions_identity e"
    using eq catalog_v1_facts(2) [OF def(1)] catalog_v1_facts(2) [OF def'(1)]
    unfolding xy new_fact_key_def prod.case by (intro bar_prefix_unique)
  then show "x = y"
    using def def' one_dimension_identity [OF def(2)] one_dimension_identity [OF def'(2)]
      one_dimension_eq [OF def(2), of e] by (auto simp: xy)
qed

lemma validate_symbols_None:
  "validate_symbols D seen ss = None \<longleftrightarrow>
     set ss \<subseteq> D \<and> distinct ss \<and> set ss \<inter> seen = {}"
  by (induction D seen ss rule: validate_symbols.induct) auto

lemma validate_policy_None: "validate_policy def p = None \<longleftrightarrow> fd_policy def = p"
  by (simp add: validate_policy_def)

lemma three_phase_cong:
  assumes "\<And>k. map_option fact_availability (gm_get m k) = map_option fact_availability (gm_get m' k)"
  shows "three_phase_telemetry_satisfied m = three_phase_telemetry_satisfied m'"
proof -
  have "(case gm_get m k of None \<Rightarrow> False | Some f \<Rightarrow> P (fact_availability f)) \<longleftrightarrow>
        (case gm_get m' k of None \<Rightarrow> False | Some f \<Rightarrow> P (fact_availability f))" for k P
    using assms [of k] by (auto split: option.splits)
  from this [where P = "\<lambda>a. a = AvailabilityAvailable \<or> a = AvailabilityUnavailable"]
  show ?thesis unfolding three_phase_telemetry_satisfied_def by simp
qed

end
