(* ===== verification/Pv_Registry.thy ===== *)
theory Pv_Registry
  imports Pv_Counter Pv_Catalog
begin

text \<open>
  The canonical fact registry (\<open>pv/registry.go\<close>): per asset the retained facts, their
  origins and the projection accounting. \<open>registry_apply\<close> and \<open>registry_snapshot\<close> are
  the two public operations; each runs under the registry's mutex, so a call is one step.
  A call works on a deep copy of the asset state and publishes it at its end; the model
  returns the new registry, unchanged wherever the Go code returns an error.
\<close>

section \<open>State\<close>

type_synonym projection_key = "digest \<times> digest"

record asset_state =
  as_generation :: uint64
  as_source :: provenance
  as_facts :: "(fact_key, fact) gomap"
  as_origins :: "(digest, provenance) gomap"
  as_requested :: "(projection_key, requested_output) gomap"
  as_projections :: "(projection_key, projection) gomap"
  as_source_time :: string

record registry =
  reg_resolver :: "source_resolver option"
  reg_catalog :: catalog
  reg_assets :: "(string, asset_state) gomap"

definition zero_provenance :: provenance where
  "zero_provenance =
     \<lparr>prov_identity = \<lparr>si_protocol = [], si_profile_id = [], si_profile_version = [], si_validity = []\<rparr>,
      prov_registry_ref = [], prov_observation_ref = [], prov_shadow_ref = [], prov_evidence_ref = []\<rparr>"

definition new_registry :: "source_resolver option \<Rightarrow> registry" where
  "new_registry resolver = \<lparr>reg_resolver = resolver, reg_catalog = catalog_v1, reg_assets = []\<rparr>"

definition fresh_asset_state :: asset_state where
  "fresh_asset_state =
     \<lparr>as_generation = 0, as_source = zero_provenance, as_facts = [], as_origins = [],
      as_requested = [], as_projections = [], as_source_time = []\<rparr>"

section \<open>Admission of an update\<close>

text \<open>The patterns \<open>^pv-asset-[A-Za-z0-9_-]{1,96}$\<close>, \<open>^[A-Za-z][A-Za-z0-9._@-]*$\<close> and
  \<open>^[0-9][0-9A-Za-z._-]*$\<close>.\<close>

definition valid_asset_ref :: "string \<Rightarrow> bool" where
  "valid_asset_ref value \<longleftrightarrow> has_prefix value ''pv-asset-'' \<and>
     (let r = drop 9 value in 1 \<le> length r \<and> length r \<le> 96 \<and>
        list_all (\<lambda>c. is_alnum c \<or> c = CHR ''_'' \<or> c = CHR ''-'') r)"

definition source_token_pattern :: "string \<Rightarrow> bool" where
  "source_token_pattern s = (case s of [] \<Rightarrow> False
     | c # r \<Rightarrow> is_alpha c \<and>
         list_all (\<lambda>c. is_alnum c \<or> c \<in> {CHR ''.'', CHR ''_'', CHR ''@'', CHR ''-''}) r)"

definition version_token_pattern :: "string \<Rightarrow> bool" where
  "version_token_pattern s = (case s of [] \<Rightarrow> False
     | c # r \<Rightarrow> is_digit c \<and>
         list_all (\<lambda>c. is_alnum c \<or> c \<in> {CHR ''.'', CHR ''_'', CHR ''-''}) r)"

definition validate_provenance :: "registry \<Rightarrow> provenance \<Rightarrow> pv_error option" where
  "validate_provenance reg pr =
     (let s = prov_identity pr in
      if si_validity s \<noteq> SourceTerminalVerified \<or> si_protocol s = [] \<or> si_profile_id s = []
         \<or> si_profile_version s = []
      then Some ErrSourceNotAdmitted
      else if length (si_protocol s) > 128 \<or> length (si_profile_id s) > 128
         \<or> length (si_profile_version s) > 64
         \<or> \<not> source_token_pattern (si_protocol s) \<or> \<not> source_token_pattern (si_profile_id s)
         \<or> \<not> version_token_pattern (si_profile_version s)
      then Some ErrSourceNotAdmitted
      else case last_index (CHR ''@'') (si_profile_id s) of
        None \<Rightarrow> Some ErrSourceNotAdmitted
      | Some delimiter \<Rightarrow>
          if delimiter \<le> 0 \<or> drop (delimiter + 1) (si_profile_id s) \<noteq> si_profile_version s
          then Some ErrSourceNotAdmitted
          else if list_ex (\<lambda>d. digest_validate d \<noteq> None)
                 [prov_registry_ref pr, prov_observation_ref pr, prov_shadow_ref pr,
                  prov_evidence_ref pr]
          then Some ErrSourceNotAdmitted
          else case reg_resolver reg of
            None \<Rightarrow> Some ErrSourceNotAdmitted
          | Some resolve \<Rightarrow>
              if resolve s \<noteq> Some (prov_registry_ref pr) then Some ErrSourceNotAdmitted else None)"

definition validate_update_accounting_limits :: "update \<Rightarrow> pv_error option" where
  "validate_update_accounting_limits u =
     (if upd_source_time u \<noteq> SourceTimeUnavailable \<and> upd_source_time u \<noteq> SourceTimeValid
         \<and> upd_source_time u \<noteq> SourceTimeInvalid
      then Some ErrInvalidProjection
      else if length (upd_facts u) = 0 \<or> length (upd_facts u) > 256
         \<or> length (upd_requested u) = 0 \<or> length (upd_requested u) > 512
         \<or> length (upd_report u) > 512 \<or> length (upd_report u) \<noteq> length (upd_requested u)
      then Some ErrInvalidProjection else None)"

definition candidate_key :: "fact_candidate \<Rightarrow> fact_key" where
  "candidate_key c = new_fact_key (cand_id c) (cand_dimensions c)"

text \<open>The scan of \<open>duplicateFactInputs\<close> with its set of keys.\<close>

fun duplicate_keys :: "fact_key set \<Rightarrow> fact_key list \<Rightarrow> bool" where
  "duplicate_keys seen [] = False"
| "duplicate_keys seen (k # ks) = (if k \<in> seen then True else duplicate_keys (insert k seen) ks)"

definition duplicate_fact_inputs :: "fact_input list \<Rightarrow> bool" where
  "duplicate_fact_inputs facts = duplicate_keys {} (map (\<lambda>f. candidate_key (fi_candidate f)) facts)"

definition requested_key :: "requested_output \<Rightarrow> projection_key" where
  "requested_key r = (ro_source_ref r, ro_output_ref r)"

definition report_key :: "projection \<Rightarrow> projection_key" where
  "report_key p = (pj_source_ref p, pj_output_ref p)"

fun collect_requested ::
  "projection_key set \<Rightarrow> requested_output list \<Rightarrow> pv_error + projection_key set" where
  "collect_requested seen [] = Inr seen"
| "collect_requested seen (r # rs) =
     (if digest_validate (ro_source_ref r) \<noteq> None \<or> digest_validate (ro_output_ref r) \<noteq> None
      then Inl ErrInvalidProjection
      else if requested_key r \<in> seen then Inl ErrInvalidProjection
      else collect_requested (insert (requested_key r) seen) rs)"

text \<open>The scan over the report: the keys seen and the count of mappings per fact.\<close>

fun collect_report ::
  "projection_key set \<Rightarrow> digest \<Rightarrow> projection_key set \<Rightarrow> (fact_key, nat) gomap \<Rightarrow> projection list \<Rightarrow>
     pv_error + (fact_key, nat) gomap" where
  "collect_report requested source seen mapped [] = Inr mapped"
| "collect_report requested source seen mapped (p # ps) =
     (if report_key p \<notin> requested \<or> pj_source_ref p \<noteq> source then Inl ErrInvalidProjection
      else if report_key p \<in> seen then Inl ErrInvalidProjection
      else if pj_outcome p = ProjectionMapped then
        (case pj_dimensions p of
           None \<Rightarrow> Inl ErrInvalidProjection
         | Some d \<Rightarrow>
             if pj_fact_id p = [] then Inl ErrInvalidProjection
             else
               let k = new_fact_key (pj_fact_id p) d;
                   n = (case gm_get mapped k of None \<Rightarrow> 0 | Some n \<Rightarrow> n)
               in collect_report requested source (insert (report_key p) seen)
                    (gm_put k (n + 1) mapped) ps)
      else if pj_outcome p = ProjectionWithheld \<or> pj_outcome p = ProjectionUnrepresentable then
        (if pj_fact_id p \<noteq> [] \<or> pj_dimensions p \<noteq> None then Inl ErrInvalidProjection
         else collect_report requested source (insert (report_key p) seen) mapped ps)
      else Inl ErrInvalidProjection)"

definition validate_update_accounting :: "update \<Rightarrow> pv_error option" where
  "validate_update_accounting u =
     (case validate_update_accounting_limits u of
        Some e \<Rightarrow> Some e
      | None \<Rightarrow>
          case collect_requested {} (upd_requested u) of
            Inl e \<Rightarrow> Some e
          | Inr requested \<Rightarrow>
              case collect_report requested (prov_observation_ref (upd_source u)) {} []
                     (upd_report u) of
                Inl e \<Rightarrow> Some e
              | Inr mapped \<Rightarrow>
                  if list_ex (\<lambda>f. gm_get mapped (candidate_key (fi_candidate f)) \<noteq> Some 1) (upd_facts u)
                  then Some ErrInvalidProjection
                  else if length mapped \<noteq> length (upd_facts u) then Some ErrInvalidProjection
                  else None)"

section \<open>Copies, ageing, pruning\<close>

definition clone_fact_value :: "fact_value \<Rightarrow> fact_value" where
  "clone_fact_value v = v\<lparr>fv_symbols := sort (fv_symbols v)\<rparr>"

definition clone_facts :: "(fact_key, fact) gomap \<Rightarrow> (fact_key, fact) gomap" where
  "clone_facts = gm_map (\<lambda>_ f. f\<lparr>fact_value := clone_fact_value (fact_value f)\<rparr>)"

definition clone_asset_state :: "asset_state option \<Rightarrow> asset_state option" where
  "clone_asset_state = map_option (\<lambda>st. st\<lparr>as_facts := clone_facts (as_facts st)\<rparr>)"

text \<open>One fact of \<open>evaluateRetainedFacts\<close>, and the loop in iteration order.\<close>

definition age_fact :: "monotonic_nanos \<Rightarrow> fact \<Rightarrow> pv_error + fact" where
  "age_fact evaluated f =
     (case policy_by_id (t_policy (fact_temporal f)) of
        None \<Rightarrow> Inl ErrInvalidFact
      | Some policy \<Rightarrow>
          case evaluate_temporal policy (t_receipt (fact_temporal f)) evaluated of
            Inl e \<Rightarrow> Inl e
          | Inr s \<Rightarrow> Inr (f\<lparr>fact_availability := ts_availability s,
                           fact_freshness := ts_freshness s\<rparr>))"

fun evaluate_retained_facts ::
  "monotonic_nanos \<Rightarrow> (fact_key, fact) gomap \<Rightarrow> pv_error + (fact_key, fact) gomap" where
  "evaluate_retained_facts evaluated [] = Inr []"
| "evaluate_retained_facts evaluated ((k, f) # m) =
     (case age_fact evaluated f of
        Inl e \<Rightarrow> Inl e
      | Inr f' \<Rightarrow>
          case evaluate_retained_facts evaluated m of
            Inl e \<Rightarrow> Inl e
          | Inr m' \<Rightarrow> Inr ((k, f') # m'))"

definition prune_origins :: "asset_state \<Rightarrow> asset_state" where
  "prune_origins st =
     (let referenced = insert (prov_observation_ref (as_source st))
                         (fact_origin_ref ` snd ` set (as_facts st))
      in st\<lparr>as_origins := gm_filter (\<lambda>r _. r \<in> referenced) (as_origins st)\<rparr>)"

definition same_source_identity :: "provenance \<Rightarrow> provenance \<Rightarrow> bool" where
  "same_source_identity a b \<longleftrightarrow>
     prov_identity a = prov_identity b \<and> prov_registry_ref a = prov_registry_ref b"

section \<open>One fact input\<close>

definition counter_continuity ::
  "asset_state \<Rightarrow> provenance \<Rightarrow> fact_key \<Rightarrow> fact_input \<Rightarrow> (pv_error, continuity) outcome" where
  "counter_continuity st source key input =
     (let prior = gm_get (as_facts st) key;
          previous = (case prior of None \<Rightarrow> None | Some f \<Rightarrow> fv_decimal (fact_value f))
      in if (case prior of
               None \<Rightarrow> True
             | Some f \<Rightarrow>
                 fact_availability f = AvailabilityAvailable \<and>
                 same_source_identity
                   (case gm_get (as_origins st) (fact_origin_ref f) of
                      None \<Rightarrow> zero_provenance | Some o' \<Rightarrow> o') source)
         then outcome_bind (of_panic (fv_decimal (cand_value (fi_candidate input)))) (\<lambda>current.
              outcome_bind (of_panic (evaluate_counter previous current (fi_counter input)))
                (\<lambda>(result, err). guard_nil err (Return result)))
         else Return (continuity_of ContinuityDiscontinuity))"

definition new_fact ::
  "provenance \<Rightarrow> fact_input \<Rightarrow> temporal_state \<Rightarrow> continuity option \<Rightarrow> fact" where
  "new_fact source input temporal continuity =
     (let c = fi_candidate input in
      \<lparr>fact_id = cand_id c, fact_dimensions = cand_dimensions c,
       fact_value = clone_fact_value (cand_value c), fact_unit = cand_unit c,
       fact_quality = fi_quality input, fact_availability = ts_availability temporal,
       fact_freshness = ts_freshness temporal, fact_temporal = ts_temporal temporal,
       fact_origin_ref = prov_observation_ref source, fact_continuity = continuity\<rparr>)"

definition apply_input ::
  "registry \<Rightarrow> update \<Rightarrow> fact_input \<Rightarrow> asset_state \<times> fact_key set \<Rightarrow>
     (pv_error, asset_state \<times> fact_key set) outcome" where
  "apply_input reg u input = (\<lambda>(st, seen).
     let c = fi_candidate input in
     case gm_get (cat_facts (reg_catalog reg)) (cand_id c) of
       None \<Rightarrow> Fail ErrInvalidFact
     | Some def \<Rightarrow>
         if validate_candidate (reg_catalog reg) c \<noteq> None \<or> validate_policy def (fi_policy input) \<noteq> None
         then Fail ErrInvalidFact
         else if fi_quality input \<noteq> QualityGood \<and> fi_quality input \<noteq> QualitySuspect
              \<and> fi_quality input \<noteq> QualityBad
         then Fail ErrInvalidFact
         else case policy_by_id (fi_policy input) of
           None \<Rightarrow> Fail ErrInvalidFact
         | Some policy \<Rightarrow>
             outcome_bind (of_error (evaluate_temporal policy (fi_receipt input) (upd_evaluated u)))
               (\<lambda>temporal.
                 let key = candidate_key c in
                 if key \<in> seen then Fail ErrInvalidFact
                 else
                   outcome_bind
                     (if fd_accumulator def
                      then outcome_bind (counter_continuity st (upd_source u) key input)
                             (\<lambda>r. Return (Some r))
                      else if \<not> evidence_empty (fi_counter input) then Fail ErrInvalidCounter
                      else Return None)
                     (\<lambda>continuity.
                       Return (st\<lparr>as_facts := gm_put key
                                   (new_fact (upd_source u) input temporal continuity) (as_facts st)\<rparr>,
                               insert key seen))))"

fun apply_inputs ::
  "registry \<Rightarrow> update \<Rightarrow> fact_input list \<Rightarrow> asset_state \<times> fact_key set \<Rightarrow>
     (pv_error, asset_state \<times> fact_key set) outcome" where
  "apply_inputs reg u [] s = Return s"
| "apply_inputs reg u (input # inputs) s =
     outcome_bind (apply_input reg u input s) (apply_inputs reg u inputs)"

section \<open>Accounting, snapshots, the two operations\<close>

definition merge_accounting :: "asset_state \<Rightarrow> update \<Rightarrow> asset_state" where
  "merge_accounting st u =
     (let updated = (\<lambda>f. candidate_key (fi_candidate f)) ` set (upd_facts u);
          remove = (\<lambda>p. case pj_dimensions p of
                      Some d \<Rightarrow> new_fact_key (pj_fact_id p) d \<in> updated
                    | None \<Rightarrow> pj_outcome p \<noteq> ProjectionMapped);
          dropped = fst ` set (filter (\<lambda>(k, p). remove p) (as_projections st));
          projections = gm_filter (\<lambda>k _. k \<notin> dropped) (as_projections st);
          requested = gm_filter (\<lambda>k _. k \<notin> dropped) (as_requested st)
      in st\<lparr>as_requested :=
              fold (\<lambda>r. gm_put (requested_key r) r) (upd_requested u) requested,
            as_projections :=
              fold (\<lambda>p. gm_put (report_key p) p) (upd_report u) projections\<rparr>)"

definition capability_outcome :: "bool \<Rightarrow> string" where
  "capability_outcome satisfied =
     (if satisfied then CapabilitySatisfied else CapabilityNotSatisfied)"

definition requested_less :: "requested_output \<Rightarrow> requested_output \<Rightarrow> bool" where
  "requested_less a b =
     (if ro_source_ref a = ro_source_ref b then ro_output_ref a < ro_output_ref b
      else ro_source_ref a < ro_source_ref b)"

definition report_less :: "projection \<Rightarrow> projection \<Rightarrow> bool" where
  "report_less a b =
     (if pj_source_ref a = pj_source_ref b then pj_output_ref a < pj_output_ref b
      else pj_source_ref a < pj_source_ref b)"

definition sorted_requested :: "(projection_key, requested_output) gomap \<Rightarrow> requested_output list" where
  "sorted_requested m = sort_by requested_less (map snd m)"

definition sorted_projections :: "(projection_key, projection) gomap \<Rightarrow> projection list" where
  "sorted_projections m = sort_by report_less (map snd m)"

definition snapshot_locked :: "string \<Rightarrow> asset_state \<Rightarrow> monotonic_nanos \<Rightarrow> snapshot" where
  "snapshot_locked asset_ref st evaluated =
     (let facts = clone_facts (as_facts st) in
      \<lparr>sn_contract_id = ContractV1, sn_asset_ref = asset_ref, sn_generation = as_generation st,
       sn_evaluated = evaluated, sn_source = as_source st, sn_facts = facts,
       sn_origins = as_origins st, sn_source_time = as_source_time st,
       sn_capability = \<lparr>cap_id = CapabilityThreePhaseTelemetryV1,
         cap_outcome = capability_outcome (three_phase_telemetry_satisfied facts)\<rparr>,
       sn_requested = sorted_requested (as_requested st),
       sn_report = sorted_projections (as_projections st)\<rparr>)"

text \<open>The part of \<open>Apply\<close> under the lock, from the copy of the asset state.\<close>

definition apply_locked :: "registry \<Rightarrow> update \<Rightarrow> asset_state \<Rightarrow> (pv_error, asset_state) outcome" where
  "apply_locked reg u st =
     outcome_bind (of_error (evaluate_retained_facts (upd_evaluated u) (as_facts st))) (\<lambda>aged.
       let source = upd_source u; ref = prov_observation_ref source;
           st1 = st\<lparr>as_facts := aged, as_source := source, as_source_time := upd_source_time u\<rparr>
       in if (case gm_get (as_origins st1) ref of Some existing \<Rightarrow> existing \<noteq> source | None \<Rightarrow> False)
          then Fail ErrSourceNotAdmitted
          else
            outcome_bind
              (apply_inputs reg u (upd_facts u)
                 (st1\<lparr>as_origins := gm_put ref source (as_origins st1)\<rparr>, {})) (\<lambda>(st2, _).
            outcome_bind (of_error (evaluate_retained_facts (upd_evaluated u) (as_facts st2)))
              (\<lambda>facts.
                let st3 = st2\<lparr>as_facts := facts\<rparr>;
                    want = capability_outcome (three_phase_telemetry_satisfied facts)
                in if cap_id (upd_capability u) \<noteq> CapabilityThreePhaseTelemetryV1
                      \<or> cap_outcome (upd_capability u) \<noteq> want
                   then Fail ErrInvalidCapability
                   else
                     let st4 = prune_origins (merge_accounting st3 u)
                     in if length (as_facts st4) > 256 \<or> length (as_origins st4) > 256
                           \<or> length (as_requested st4) > 512 \<or> length (as_projections st4) > 512
                        then Fail ErrInvalidProjection
                        else Return (st4\<lparr>as_generation := as_generation st4 + 1\<rparr>))))"

definition admit_update :: "registry \<Rightarrow> update \<Rightarrow> pv_error option" where
  "admit_update reg u =
     (if \<not> valid_asset_ref (upd_asset_ref u) then Some ErrInvalidFact
      else case validate_provenance reg (upd_source u) of Some e \<Rightarrow> Some e
      | None \<Rightarrow> case validate_update_accounting_limits u of Some e \<Rightarrow> Some e
      | None \<Rightarrow>
          if duplicate_fact_inputs (upd_facts u) then Some ErrInvalidFact
          else case validate_update_accounting u of Some e \<Rightarrow> Some e
          | None \<Rightarrow> if sint (upd_evaluated u) < 0 then Some ErrInvalidMonotonicTime else None)"

definition asset_copy :: "registry \<Rightarrow> string \<Rightarrow> asset_state" where
  "asset_copy reg asset_ref =
     (case clone_asset_state (gm_get (reg_assets reg) asset_ref) of
        None \<Rightarrow> fresh_asset_state | Some st \<Rightarrow> st)"

definition registry_apply ::
  "registry option \<Rightarrow> update \<Rightarrow> registry option \<times> (pv_error, snapshot) outcome" where
  "registry_apply receiver u =
     (case receiver of
        None \<Rightarrow> (None, Fail ErrInvalidFact)
      | Some reg \<Rightarrow>
          case admit_update reg u of
            Some e \<Rightarrow> (Some reg, Fail e)
          | None \<Rightarrow>
              case apply_locked reg u (asset_copy reg (upd_asset_ref u)) of
                Panic \<Rightarrow> (Some reg, Panic)
              | Fail e \<Rightarrow> (Some reg, Fail e)
              | Return st \<Rightarrow>
                  (Some (reg\<lparr>reg_assets := gm_put (upd_asset_ref u) st (reg_assets reg)\<rparr>),
                   Return (snapshot_locked (upd_asset_ref u) st (upd_evaluated u))))"

definition registry_snapshot ::
  "registry option \<Rightarrow> string \<Rightarrow> monotonic_nanos \<Rightarrow> pv_error + snapshot" where
  "registry_snapshot receiver asset_ref evaluated =
     (case receiver of
        None \<Rightarrow> Inl ErrInvalidMonotonicTime
      | Some reg \<Rightarrow>
          if sint evaluated < 0 then Inl ErrInvalidMonotonicTime
          else case clone_asset_state (gm_get (reg_assets reg) asset_ref) of
            None \<Rightarrow> Inl ErrAssetNotFound
          | Some st \<Rightarrow>
              case evaluate_retained_facts evaluated (as_facts st) of
                Inl e \<Rightarrow> Inl e
              | Inr facts \<Rightarrow>
                  Inr (snapshot_locked asset_ref (prune_origins (st\<lparr>as_facts := facts\<rparr>)) evaluated))"

end
