(* ===== verification/Pv_Accounting.thy ===== *)
theory Pv_Accounting
  imports Pv_Registry
begin

text \<open>
  What the admission of an update guarantees (\<open>validateUpdateAccounting\<close> and its callers in
  \<open>pv/registry.go\<close>), how \<open>mergeAccounting\<close> changes the two accounting maps, and the
  order of the two lists a snapshot carries. The specification of an accepted report is
  \<open>report_accounts\<close>: a bijection between mapped outputs and input facts.
\<close>

section \<open>The lists of a snapshot\<close>

lemma string_order: "(x :: string) < y \<or> x = y \<or> y < x"
  by (rule less_linear)

interpretation rq: strict_weak_order requested_less
  by unfold_locales (auto simp: requested_less_def split: if_splits)

interpretation rp: strict_weak_order report_less
  by unfold_locales (auto simp: report_less_def split: if_splits)

lemma requested_ties: "\<not> requested_less a b \<Longrightarrow> \<not> requested_less b a \<Longrightarrow> a = b"
  by (cases a, cases b) (auto simp: requested_less_def split: if_splits)

lemma report_ties: "\<not> report_less a b \<Longrightarrow> \<not> report_less b a \<Longrightarrow> report_key a = report_key b"
  by (auto simp: report_less_def report_key_def split: if_splits)

text \<open>A map whose values carry their key.\<close>

definition keyed_map :: "('v \<Rightarrow> 'k) \<Rightarrow> ('k, 'v) gomap \<Rightarrow> bool" where
  "keyed_map key m \<longleftrightarrow> gm_ok m \<and> (\<forall>k v. gm_get m k = Some v \<longrightarrow> key v = k)"

lemma keyed_map_values:
  assumes "keyed_map key m"
  shows "map key (map snd m) = map fst m"
  using assms by (auto simp: keyed_map_def gm_in_iff [symmetric])

lemma keyed_map_inj:
  "keyed_map key m \<Longrightarrow> v \<in> snd ` set m \<Longrightarrow> w \<in> snd ` set m \<Longrightarrow> key v = key w \<Longrightarrow> v = w"
  by (auto simp: keyed_map_def) (metis gm_in_iff option.inject)

lemma gm_filter_keys_cong:
  "(\<And>k. k \<in> gm_keys m \<Longrightarrow> p k = q k) \<Longrightarrow> gm_filter (\<lambda>k _. p k) m = gm_filter (\<lambda>k _. q k) m"
  unfolding gm_filter_def gm_keys_def by (rule filter_cong) force+

lemma gm_keys_restrict: "gm_keys (gm_filter (\<lambda>k _. k \<in> S) m) = gm_keys m \<inter> S"
  by (force simp: gm_keys_def gm_filter_def)

lemma gm_values_get: "gm_get m k = Some v \<Longrightarrow> v \<in> snd ` set m"
  using gm_get_Some_in by force

lemma gm_values_iff: "gm_ok m \<Longrightarrow> v \<in> snd ` set m \<longleftrightarrow> (\<exists>k. gm_get m k = Some v)"
  using gm_values_get by (fastforce dest: gm_in_get)

lemma keyed_map_Nil [simp]: "keyed_map key []"
  by (simp add: keyed_map_def)

lemma keyed_map_filter [simp]: "keyed_map key m \<Longrightarrow> keyed_map key (gm_filter p m)"
  by (auto simp: keyed_map_def split: option.splits if_splits)

lemma keyed_map_put: "keyed_map key m \<Longrightarrow> keyed_map key (gm_put (key v) v m)"
  by (auto simp: keyed_map_def)

lemma keyed_map_fold: "keyed_map key m \<Longrightarrow> keyed_map key (fold (\<lambda>v. gm_put (key v) v) vs m)"
  by (induction vs arbitrary: m) (auto simp: keyed_map_put)

lemma keys_fold_put: "gm_keys (fold (\<lambda>v. gm_put (key v) v) vs m) = gm_keys m \<union> key ` set vs"
  by (induction vs arbitrary: m) auto

lemma get_fold_put_other:
  "k \<notin> key ` set vs \<Longrightarrow> gm_get (fold (\<lambda>v. gm_put (key v) v) vs m) k = gm_get m k"
  by (induction vs arbitrary: m) auto

lemma get_fold_put_key:
  "distinct (map key vs) \<Longrightarrow> v \<in> set vs \<Longrightarrow>
     gm_get (fold (\<lambda>v. gm_put (key v) v) vs m) (key v) = Some v"
  by (induction vs arbitrary: m) (auto simp: get_fold_put_other)

lemma get_fold_put:
  assumes "distinct (map key vs)"
  shows "gm_get (fold (\<lambda>v. gm_put (key v) v) vs m) k = Some v \<longleftrightarrow>
     (v \<in> set vs \<and> key v = k) \<or> (k \<notin> key ` set vs \<and> gm_get m k = Some v)"
proof (cases "k \<in> key ` set vs")
  case True
  then obtain w where w: "w \<in> set vs" "key w = k" by auto
  have "v = w" if "v \<in> set vs" "key v = k"
    using assms w that by (auto simp: distinct_map dest: inj_onD)
  then show ?thesis using get_fold_put_key [OF assms w(1), of m] w by auto
qed (use get_fold_put_other in fastforce)

section \<open>Accepted updates\<close>

lemma duplicate_keys_iff:
  "duplicate_keys seen ks \<longleftrightarrow> \<not> (distinct ks \<and> set ks \<inter> seen = {})"
  by (induction seen ks rule: duplicate_keys.induct) auto

definition input_keys :: "update \<Rightarrow> fact_key list" where
  "input_keys u = map (\<lambda>f. candidate_key (fi_candidate f)) (upd_facts u)"

lemma duplicate_fact_inputs_iff: "duplicate_fact_inputs (upd_facts u) \<longleftrightarrow> \<not> distinct (input_keys u)"
  by (simp add: duplicate_fact_inputs_def duplicate_keys_iff input_keys_def)

lemma collect_requested_Inr:
  "collect_requested seen rs = Inr S \<longleftrightarrow>
     S = seen \<union> requested_key ` set rs \<and> distinct (map requested_key rs) \<and>
     requested_key ` set rs \<inter> seen = {} \<and>
     (\<forall>r \<in> set rs. digest_validate (ro_source_ref r) = None \<and> digest_validate (ro_output_ref r) = None)"
  by (induction seen rs arbitrary: S rule: collect_requested.induct) auto

definition mapped_key :: "projection \<Rightarrow> fact_key" where
  "mapped_key p = (case pj_dimensions p of Some d \<Rightarrow> new_fact_key (pj_fact_id p) d | None \<Rightarrow> [])"

definition mapped_keys :: "projection list \<Rightarrow> fact_key list" where
  "mapped_keys ps = map mapped_key (filter (\<lambda>p. pj_outcome p = ProjectionMapped) ps)"

definition projection_shape :: "projection \<Rightarrow> bool" where
  "projection_shape p \<longleftrightarrow>
     (pj_outcome p = ProjectionMapped \<and> pj_dimensions p \<noteq> None \<and> pj_fact_id p \<noteq> []) \<or>
     (pj_outcome p \<in> {ProjectionWithheld, ProjectionUnrepresentable} \<and>
      pj_dimensions p = None \<and> pj_fact_id p = [])"

definition tally :: "(fact_key, nat) gomap \<Rightarrow> fact_key \<Rightarrow> nat" where
  "tally m k = (case gm_get m k of None \<Rightarrow> 0 | Some n \<Rightarrow> n)"

lemma collect_report_Cons:
  "collect_report R s seen m (p # ps) = Inr m' \<longleftrightarrow>
     report_key p \<in> R \<and> pj_source_ref p = s \<and> report_key p \<notin> seen \<and> projection_shape p \<and>
     collect_report R s (insert (report_key p) seen)
       (if pj_outcome p = ProjectionMapped then gm_put (mapped_key p) (tally m (mapped_key p) + 1) m
        else m) ps = Inr m'"
  by (auto simp: projection_shape_def mapped_key_def tally_def Let_def split: option.splits)

lemma collect_report_conditions:
  "collect_report R s seen m ps = Inr m' \<Longrightarrow>
     distinct (map report_key ps) \<and> report_key ` set ps \<inter> seen = {} \<and> report_key ` set ps \<subseteq> R \<and>
     (\<forall>p \<in> set ps. pj_source_ref p = s \<and> projection_shape p)"
proof (induction ps arbitrary: seen m)
  case (Cons p ps)
  then show ?case unfolding collect_report_Cons by fastforce
qed simp

lemma collect_report_succeeds:
  "distinct (map report_key ps) \<Longrightarrow> report_key ` set ps \<inter> seen = {} \<Longrightarrow> report_key ` set ps \<subseteq> R \<Longrightarrow>
     (\<forall>p \<in> set ps. pj_source_ref p = s \<and> projection_shape p) \<Longrightarrow>
     \<exists>m'. collect_report R s seen m ps = Inr m'"
proof (induction ps arbitrary: seen m)
  case (Cons p ps)
  then show ?case unfolding collect_report_Cons by simp
qed simp

lemma collect_report_tally:
  "collect_report R s seen m ps = Inr m' \<Longrightarrow> gm_ok m \<Longrightarrow>
     gm_ok m' \<and> gm_keys m' = gm_keys m \<union> set (mapped_keys ps) \<and>
     (\<forall>k. tally m' k = tally m k + count_list (mapped_keys ps) k)"
proof (induction ps arbitrary: seen m)
  case (Cons p ps)
  let ?m = "if pj_outcome p = ProjectionMapped
            then gm_put (mapped_key p) (tally m (mapped_key p) + 1) m else m"
  have "gm_ok ?m" using Cons.prems(2) by simp
  then have IH: "gm_ok m' \<and> gm_keys m' = gm_keys ?m \<union> set (mapped_keys ps) \<and>
      (\<forall>k. tally m' k = tally ?m k + count_list (mapped_keys ps) k)"
    using Cons.prems(1) Cons.IH [of "insert (report_key p) seen" ?m]
    unfolding collect_report_Cons by blast
  moreover have "tally ?m k = tally m k + count_list (mapped_keys [p]) k" for k
    by (simp add: tally_def mapped_keys_def)
  moreover have "count_list (mapped_keys (p # ps)) k =
      count_list (mapped_keys [p]) k + count_list (mapped_keys ps) k" for k
    by (simp add: mapped_keys_def)
  moreover have "gm_keys ?m = gm_keys m \<union> set (mapped_keys [p])"
    by (simp add: mapped_keys_def)
  moreover have "set (mapped_keys (p # ps)) = set (mapped_keys [p]) \<union> set (mapped_keys ps)"
    by (auto simp: mapped_keys_def)
  ultimately show ?case by simp blast
qed (simp add: mapped_keys_def)

text \<open>
  The specification of an accepted report: every output was requested and reported once by the
  update's own source, and the mapped ones are the input facts, each exactly once.
\<close>

definition report_accounts :: "update \<Rightarrow> bool" where
  "report_accounts u \<longleftrightarrow>
     distinct (map requested_key (upd_requested u)) \<and> distinct (map report_key (upd_report u)) \<and>
     (\<forall>r \<in> set (upd_requested u). digest_pattern (ro_source_ref r) \<and> digest_pattern (ro_output_ref r)) \<and>
     report_key ` set (upd_report u) = requested_key ` set (upd_requested u) \<and>
     (\<forall>p \<in> set (upd_report u).
        pj_source_ref p = prov_observation_ref (upd_source u) \<and> projection_shape p) \<and>
     mset (mapped_keys (upd_report u)) = mset (input_keys u)"

lemma counts_one_mset:
  assumes "distinct xs" and "\<forall>x \<in> set xs. count_list ys x = 1" and "card (set ys) = length xs"
  shows "mset ys = mset xs"
proof -
  have "set xs \<subseteq> set ys" using assms(2) by (metis count_notin subsetI zero_neq_one)
  moreover have "card (set xs) = card (set ys)" using assms(1,3) by (simp add: distinct_card)
  ultimately have s: "set xs = set ys" by (simp add: card_subset_eq)
  have "count (mset ys) x = count (mset xs) x" for x
  proof (cases "x \<in> set xs")
    case True
    then show ?thesis using assms(1,2) by (metis count_mset distinct_count_atmost_1)
  next
    case False
    then show ?thesis using s by (metis count_mset count_notin)
  qed
  then show ?thesis by (rule multiset_eqI)
qed

lemma mset_counts_one:
  assumes "distinct xs" and "mset ys = mset xs"
  shows "\<forall>x \<in> set xs. count_list ys x = 1" and "card (set ys) = length xs"
proof -
  have "set ys = set xs" using assms(2) by (metis set_mset_mset)
  then show "card (set ys) = length xs" using assms(1) by (simp add: distinct_card)
  show "\<forall>x \<in> set xs. count_list ys x = 1"
    using assms by (metis count_mset distinct_count_atmost_1)
qed

lemma tally_Some_1: "gm_get m k = Some 1 \<longleftrightarrow> tally m k = 1"
  by (auto simp: tally_def split: option.splits)

lemma mapped_counts:
  assumes "collect_report R s {} [] ps = Inr m"
  shows "length m = card (set (mapped_keys ps))"
    and "gm_get m k = Some 1 \<longleftrightarrow> count_list (mapped_keys ps) k = 1"
proof -
  have t: "gm_ok m" "gm_keys m = set (mapped_keys ps)" "tally m k = count_list (mapped_keys ps) k"
    using collect_report_tally [OF assms] by (simp_all add: tally_def)
  show "length m = card (set (mapped_keys ps))" using gm_length [OF t(1)] t(2) by simp
  show "gm_get m k = Some 1 \<longleftrightarrow> count_list (mapped_keys ps) k = 1"
    unfolding tally_Some_1 t(3) ..
qed

lemma keys_same:
  assumes "distinct (map f xs)" and "distinct (map g ys)" and "length xs = length ys"
    and "f ` set xs \<subseteq> g ` set ys"
  shows "f ` set xs = g ` set ys"
proof (rule card_subset_eq [OF _ assms(4)])
  show "card (f ` set xs) = card (g ` set ys)"
    using assms(1-3) by (metis distinct_card length_map list.set_map)
qed simp

text \<open>\<open>validateUpdateAccounting\<close> accepts exactly the reports of the specification.\<close>

lemma validate_update_accounting_iff:
  assumes lim: "validate_update_accounting_limits u = None" and d: "distinct (input_keys u)"
  shows "validate_update_accounting u = None \<longleftrightarrow> report_accounts u"
proof -
  let ?R = "requested_key ` set (upd_requested u)"
  let ?s = "prov_observation_ref (upd_source u)"
  have len: "length (upd_report u) = length (upd_requested u)"
    using lim by (auto simp: validate_update_accounting_limits_def split: if_splits)
  have n: "length (upd_facts u) = length (input_keys u)" by (simp add: input_keys_def)
  show ?thesis
  proof (cases "collect_requested {} (upd_requested u)")
    case (Inl e)
    then have "\<not> report_accounts u"
      using collect_requested_Inr [of "{}" "upd_requested u" ?R]
      by (auto simp: report_accounts_def digest_validate_def)
    then show ?thesis using Inl lim by (simp add: validate_update_accounting_def)
  next
    case (Inr R)
    then have R: "R = ?R" "distinct (map requested_key (upd_requested u))"
      "\<forall>r \<in> set (upd_requested u). digest_pattern (ro_source_ref r) \<and> digest_pattern (ro_output_ref r)"
      by (auto simp: collect_requested_Inr digest_validate_def split: if_splits)
    show ?thesis
    proof (cases "collect_report R ?s {} [] (upd_report u)")
      case (Inl e)
      then have "\<not> report_accounts u"
        using collect_report_succeeds [of "upd_report u" "{}" R ?s "[]"] R(1)
        by (auto simp: report_accounts_def)
      then show ?thesis using Inl Inr lim by (simp add: validate_update_accounting_def)
    next
      case m: (Inr m)
      note c = collect_report_conditions [OF m]
      have keys: "report_key ` set (upd_report u) = ?R"
        using c R(1,2) len by (intro keys_same) auto
      have "validate_update_accounting u = None \<longleftrightarrow>
          (\<forall>k \<in> set (input_keys u). count_list (mapped_keys (upd_report u)) k = 1) \<and>
          card (set (mapped_keys (upd_report u))) = length (input_keys u)"
      proof -
        have "validate_update_accounting u = None \<longleftrightarrow>
            \<not> list_ex (\<lambda>f. gm_get m (candidate_key (fi_candidate f)) \<noteq> Some 1) (upd_facts u) \<and>
            length m = length (upd_facts u)"
          using lim Inr m by (simp add: validate_update_accounting_def)
        then show ?thesis
          unfolding mapped_counts [OF m] n by (auto simp: list_ex_iff input_keys_def)
      qed
      also have "\<dots> \<longleftrightarrow> mset (mapped_keys (upd_report u)) = mset (input_keys u)"
        using counts_one_mset [OF d] mset_counts_one [OF d] by metis
      finally show ?thesis using c R keys by (simp add: report_accounts_def)
    qed
  qed
qed

section \<open>Merging the accounting\<close>

definition accounting_ok :: "asset_state \<Rightarrow> bool" where
  "accounting_ok st \<longleftrightarrow>
     keyed_map requested_key (as_requested st) \<and> keyed_map report_key (as_projections st) \<and>
     gm_keys (as_requested st) = gm_keys (as_projections st) \<and>
     (\<forall>p \<in> snd ` set (as_projections st). projection_shape p \<and>
        (pj_outcome p = ProjectionMapped \<longrightarrow> mapped_key p \<in> gm_keys (as_facts st))) \<and>
     (\<forall>p \<in> snd ` set (as_projections st). \<forall>q \<in> snd ` set (as_projections st).
        pj_outcome p = ProjectionMapped \<longrightarrow> pj_outcome q = ProjectionMapped \<longrightarrow>
        mapped_key p = mapped_key q \<longrightarrow> p = q)"

lemma accounting_ok_fresh [simp]: "accounting_ok fresh_asset_state"
  by (simp add: accounting_ok_def fresh_asset_state_def)

text \<open>The entries of earlier updates that \<open>mergeAccounting\<close> keeps.\<close>

definition kept :: "update \<Rightarrow> projection \<Rightarrow> bool" where
  "kept u p \<longleftrightarrow> pj_outcome p = ProjectionMapped \<and> mapped_key p \<notin> set (input_keys u)"

definition kept_keys :: "asset_state \<Rightarrow> update \<Rightarrow> projection_key set" where
  "kept_keys st u = {k. \<exists>p. gm_get (as_projections st) k = Some p \<and> kept u p}"

lemma merge_removes:
  assumes "projection_shape p"
  shows "(case pj_dimensions p of
            Some d \<Rightarrow> new_fact_key (pj_fact_id p) d \<in> set (input_keys u)
          | None \<Rightarrow> pj_outcome p \<noteq> ProjectionMapped) \<longleftrightarrow> \<not> kept u p"
  using assms by (auto simp: projection_shape_def kept_def mapped_key_def)

lemma merge_accounting_maps:
  assumes ok: "accounting_ok st"
  shows "as_requested (merge_accounting st u) =
      fold (\<lambda>r. gm_put (requested_key r) r) (upd_requested u)
        (gm_filter (\<lambda>k _. k \<in> kept_keys st u) (as_requested st))"
    and "as_projections (merge_accounting st u) =
      fold (\<lambda>p. gm_put (report_key p) p) (upd_report u)
        (gm_filter (\<lambda>k _. k \<in> kept_keys st u) (as_projections st))"
proof -
  let ?P = "as_projections st" and ?D = "fst ` set (filter (\<lambda>(k, p). case pj_dimensions p of
      Some d \<Rightarrow> new_fact_key (pj_fact_id p) d \<in> set (input_keys u)
    | None \<Rightarrow> pj_outcome p \<noteq> ProjectionMapped) (as_projections st))"
  have gok: "gm_ok ?P" using ok by (simp add: accounting_ok_def keyed_map_def)
  have D: "k \<in> ?D \<longleftrightarrow> (\<exists>p. gm_get ?P k = Some p \<and> \<not> kept u p)" for k
  proof -
    have "(\<lambda>(k, p). case pj_dimensions p of Some d \<Rightarrow> new_fact_key (pj_fact_id p) d \<in> set (input_keys u)
        | None \<Rightarrow> pj_outcome p \<noteq> ProjectionMapped) x \<longleftrightarrow> \<not> kept u (snd x)" if "x \<in> set ?P" for x
    proof -
      have "projection_shape (snd x)" using ok that by (simp add: accounting_ok_def)
      then show ?thesis using merge_removes [of "snd x" u] by (simp add: split_def)
    qed
    then have "set (filter (\<lambda>(k, p). case pj_dimensions p of
          Some d \<Rightarrow> new_fact_key (pj_fact_id p) d \<in> set (input_keys u)
        | None \<Rightarrow> pj_outcome p \<noteq> ProjectionMapped) ?P) = {x \<in> set ?P. \<not> kept u (snd x)}"
      unfolding set_filter by blast
    then show ?thesis unfolding gm_in_iff [OF gok, symmetric] by (simp only:) force
  qed
  have keep: "k \<notin> ?D \<longleftrightarrow> k \<in> kept_keys st u" if "k \<in> gm_keys ?P" for k
    using that unfolding D kept_keys_def gm_keys_iff by auto
  have "gm_keys (as_requested st) = gm_keys ?P" using ok by (simp add: accounting_ok_def)
  then have f: "gm_filter (\<lambda>k _. k \<notin> ?D) (as_requested st) =
      gm_filter (\<lambda>k _. k \<in> kept_keys st u) (as_requested st)"
    "gm_filter (\<lambda>k _. k \<notin> ?D) ?P = gm_filter (\<lambda>k _. k \<in> kept_keys st u) ?P"
    using keep by (intro gm_filter_keys_cong; simp)+
  have upd: "(\<lambda>f. candidate_key (fi_candidate f)) ` set (upd_facts u) = set (input_keys u)"
    by (simp add: input_keys_def)
  show "as_requested (merge_accounting st u) =
      fold (\<lambda>r. gm_put (requested_key r) r) (upd_requested u)
        (gm_filter (\<lambda>k _. k \<in> kept_keys st u) (as_requested st))"
    "as_projections (merge_accounting st u) =
      fold (\<lambda>p. gm_put (report_key p) p) (upd_report u)
        (gm_filter (\<lambda>k _. k \<in> kept_keys st u) (as_projections st))"
    unfolding merge_accounting_def Let_def upd f by simp_all
qed

lemma merge_accounting_other [simp]:
  "as_generation (merge_accounting st u) = as_generation st"
  "as_source (merge_accounting st u) = as_source st"
  "as_facts (merge_accounting st u) = as_facts st"
  "as_origins (merge_accounting st u) = as_origins st"
  "as_source_time (merge_accounting st u) = as_source_time st"
  by (simp_all add: merge_accounting_def Let_def)

text \<open>Looking up the merged report: the update's entry, else a kept one.\<close>

lemma merge_accounting_report:
  assumes ok: "accounting_ok st" and u: "report_accounts u"
  shows "gm_get (as_projections (merge_accounting st u)) k = Some p \<longleftrightarrow>
     (p \<in> set (upd_report u) \<and> report_key p = k) \<or>
     (k \<notin> report_key ` set (upd_report u) \<and> gm_get (as_projections st) k = Some p \<and> kept u p)"
proof -
  have g: "gm_ok (as_projections st)" using ok by (simp add: accounting_ok_def keyed_map_def)
  have "distinct (map report_key (upd_report u))" using u by (simp add: report_accounts_def)
  from get_fold_put [OF this] show ?thesis
    unfolding merge_accounting_maps [OF ok]
    by (auto simp: g kept_keys_def split: option.splits)
qed

lemma mapped_unique:
  assumes "report_accounts u" and "distinct (input_keys u)"
    and "p \<in> set (upd_report u)" and "q \<in> set (upd_report u)"
    and "pj_outcome p = ProjectionMapped" and "pj_outcome q = ProjectionMapped"
    and "mapped_key p = mapped_key q"
  shows "p = q"
proof -
  have "distinct (mapped_keys (upd_report u))"
    using assms(1,2) by (metis report_accounts_def mset_eq_imp_distinct_iff)
  then show ?thesis
    using assms(3-7) by (auto simp: mapped_keys_def distinct_map dest: inj_onD)
qed

lemma mapped_inputs:
  assumes "report_accounts u" and "p \<in> set (upd_report u)" and "pj_outcome p = ProjectionMapped"
  shows "mapped_key p \<in> set (input_keys u)"
proof -
  have "mapped_key p \<in> set (mapped_keys (upd_report u))" using assms by (simp add: mapped_keys_def)
  moreover have "set (mapped_keys (upd_report u)) = set (input_keys u)"
    using assms(1) by (metis report_accounts_def set_mset_mset)
  ultimately show ?thesis by simp
qed

lemma merge_accounting_ok:
  assumes ok: "accounting_ok st" and u: "report_accounts u" and d: "distinct (input_keys u)"
    and facts: "set (input_keys u) \<subseteq> gm_keys (as_facts st)"
  shows "accounting_ok (merge_accounting st u)"
proof -
  let ?st = "merge_accounting st u"
  note maps = merge_accounting_maps [OF ok, of u] and report = merge_accounting_report [OF ok u]
  have k: "keyed_map requested_key (as_requested st)" "keyed_map report_key (as_projections st)"
    "gm_keys (as_requested st) = gm_keys (as_projections st)"
    using ok by (simp_all add: accounting_ok_def)
  have keyed: "keyed_map requested_key (as_requested ?st)" "keyed_map report_key (as_projections ?st)"
    unfolding maps using k by (simp_all add: keyed_map_fold)
  have keys: "gm_keys (as_requested ?st) = gm_keys (as_projections ?st)"
    using k(3) u unfolding maps by (simp add: keys_fold_put gm_keys_restrict report_accounts_def)
  have cases: "p \<in> set (upd_report u) \<or> (p \<in> snd ` set (as_projections st) \<and> kept u p)"
    if p: "p \<in> snd ` set (as_projections ?st)" for p
  proof -
    have "gm_ok (as_projections ?st)" using keyed(2) by (simp add: keyed_map_def)
    then obtain k where "gm_get (as_projections ?st) k = Some p"
      using gm_values_iff [of "as_projections ?st" p] p by blast
    then show ?thesis using gm_values_get [of "as_projections st"] unfolding report by blast
  qed
  have shape: "projection_shape p" "pj_outcome p = ProjectionMapped \<Longrightarrow> mapped_key p \<in> gm_keys (as_facts ?st)"
    if "p \<in> snd ` set (as_projections ?st)" for p
    using cases [OF that] ok u facts mapped_inputs [OF u, of p]
    by (auto simp: accounting_ok_def report_accounts_def)
  have unique: "p = q" if "p \<in> snd ` set (as_projections ?st)" "q \<in> snd ` set (as_projections ?st)"
    "pj_outcome p = ProjectionMapped" "pj_outcome q = ProjectionMapped" "mapped_key p = mapped_key q"
    for p q
    using cases [OF that(1)] cases [OF that(2)]
  proof (elim disjE conjE)
    assume "p \<in> set (upd_report u)" "q \<in> set (upd_report u)"
    then show ?thesis using mapped_unique [OF u d] that by blast
  next
    assume "p \<in> snd ` set (as_projections st)" "q \<in> snd ` set (as_projections st)"
    then show ?thesis using ok that by (auto simp: accounting_ok_def)
  qed (use mapped_inputs [OF u] that in \<open>metis kept_def\<close>)+
  show ?thesis unfolding accounting_ok_def using keyed keys shape unique by blast
qed

end
