(* ===== verification/Pv_Invariant.thy ===== *)
theory Pv_Invariant
  imports Pv_Accounting
begin

text \<open>
  The invariant of the fact registry and what its two operations do. \<open>asset_ok\<close> is the
  well-formedness of one asset: every fact is a catalog fact under its own key with the
  policy and time bounds of its receipt, origins are admitted and exactly the referenced
  ones, and the accounting is consistent. It holds of a new registry and every call of
  \<open>registry_apply\<close> preserves it; from it follow the absence of panics, the exact content
  of a snapshot, and that a snapshot of unchanged state only ages.
\<close>

section \<open>Facts\<close>

definition fact_candidate_of :: "fact \<Rightarrow> fact_candidate" where
  "fact_candidate_of f =
     \<lparr>cand_id = fact_id f, cand_dimensions = fact_dimensions f, cand_value = fact_value f,
      cand_unit = fact_unit f\<rparr>"

abbreviation receipt_of :: "fact \<Rightarrow> monotonic_nanos" where
  "receipt_of f \<equiv> t_receipt (fact_temporal f)"

definition fact_ok :: "fact_key \<Rightarrow> fact \<Rightarrow> bool" where
  "fact_ok k f \<longleftrightarrow>
     k = candidate_key (fact_candidate_of f) \<and>
     validate_candidate catalog_v1 (fact_candidate_of f) = None \<and>
     sorted (fv_symbols (fact_value f)) \<and>
     fact_quality f \<in> {QualityGood, QualitySuspect, QualityBad} \<and>
     (\<exists>def p. gm_get (cat_facts catalog_v1) (fact_id f) = Some def \<and>
        policy_by_id (fd_policy def) = Some p \<and> receipt_ok p (receipt_of f) \<and>
        fact_temporal f = temporal_of p (receipt_of f) \<and>
        (fact_continuity f \<noteq> None \<longleftrightarrow> fd_accumulator def))"

definition aged_fact :: "monotonic_nanos \<Rightarrow> fact \<Rightarrow> fact" where
  "aged_fact t f = (case policy_by_id (t_policy (fact_temporal f)) of
     None \<Rightarrow> f
   | Some p \<Rightarrow> f\<lparr>fact_availability := fst (age_class p (sint t - sint (receipt_of f))),
               fact_freshness := snd (age_class p (sint t - sint (receipt_of f)))\<rparr>)"

definition aged_at :: "monotonic_nanos \<Rightarrow> fact \<Rightarrow> bool" where
  "aged_at t f \<longleftrightarrow> sint (receipt_of f) \<le> sint t \<and> aged_fact t f = f"

lemma aged_fact_sel [simp]:
  "fact_id (aged_fact t f) = fact_id f" "fact_dimensions (aged_fact t f) = fact_dimensions f"
  "fact_value (aged_fact t f) = fact_value f" "fact_unit (aged_fact t f) = fact_unit f"
  "fact_quality (aged_fact t f) = fact_quality f" "fact_temporal (aged_fact t f) = fact_temporal f"
  "fact_origin_ref (aged_fact t f) = fact_origin_ref f"
  "fact_continuity (aged_fact t f) = fact_continuity f"
  by (simp_all add: aged_fact_def split: option.split)

lemma aged_fact_aged [simp]: "aged_fact t (aged_fact u f) = aged_fact t f"
  by (simp add: aged_fact_def split: option.split)

lemma aged_at_aged: "sint (receipt_of f) \<le> sint t \<Longrightarrow> aged_at t (aged_fact t f)"
  by (simp add: aged_at_def)

lemma fact_ok_aged [simp]: "fact_ok k (aged_fact t f) = fact_ok k f"
  by (simp add: fact_ok_def fact_candidate_of_def)

lemma fact_ok_policy:
  assumes "fact_ok k f"
  obtains def p where "gm_get (cat_facts catalog_v1) (fact_id f) = Some def"
    and "policy_by_id (fd_policy def) = Some p" and "receipt_ok p (receipt_of f)"
    and "fact_temporal f = temporal_of p (receipt_of f)"
    and "policy_by_id (t_policy (fact_temporal f)) = Some p"
proof -
  obtain def p where p: "gm_get (cat_facts catalog_v1) (fact_id f) = Some def"
    "policy_by_id (fd_policy def) = Some p" "receipt_ok p (receipt_of f)"
    "fact_temporal f = temporal_of p (receipt_of f)"
    using assms by (auto simp: fact_ok_def)
  have "t_policy (fact_temporal f) = fd_policy def"
    using p(4) policies_v1_ok [OF p(2)] by (metis temporal.select_convs(4) temporal_of_def)
  then show thesis using that p by metis
qed

lemma age_fact_ok:
  assumes "fact_ok k f"
  shows "age_fact t f = (if sint (receipt_of f) \<le> sint t then Inr (aged_fact t f)
                         else Inl ErrInvalidMonotonicTime)"
proof -
  obtain p where p: "receipt_ok p (receipt_of f)" "policy_by_id (t_policy (fact_temporal f)) = Some p"
    using assms by (rule fact_ok_policy)
  then show ?thesis by (simp add: age_fact_def aged_fact_def evaluate_temporal_exact)
qed

definition facts_ok :: "(fact_key, fact) gomap \<Rightarrow> bool" where
  "facts_ok m \<longleftrightarrow> gm_ok m \<and> (\<forall>(k, f) \<in> set m. fact_ok k f)"

lemma facts_ok_gm [simp]: "facts_ok m \<Longrightarrow> gm_ok m"
  by (simp add: facts_ok_def)

lemma facts_ok_get: "facts_ok m \<Longrightarrow> gm_get m k = Some f \<Longrightarrow> fact_ok k f"
  using gm_get_Some_in by (fastforce simp: facts_ok_def)

lemma facts_ok_iff: "facts_ok m \<longleftrightarrow> gm_ok m \<and> (\<forall>k f. gm_get m k = Some f \<longrightarrow> fact_ok k f)"
  unfolding facts_ok_def using gm_in_iff [of m] by blast

lemma facts_ok_put: "facts_ok m \<Longrightarrow> fact_ok k f \<Longrightarrow> facts_ok (gm_put k f m)"
  by (auto simp: facts_ok_iff)

lemma facts_ok_Nil [simp]: "facts_ok []"
  by (simp add: facts_ok_def)

lemma facts_ok_aged [simp]: "facts_ok m \<Longrightarrow> facts_ok (gm_map (\<lambda>_. aged_fact t) m)"
  by (auto simp: facts_ok_iff)

lemma evaluate_retained_ok:
  assumes "facts_ok m"
  shows "evaluate_retained_facts t m =
     (if \<forall>f \<in> snd ` set m. sint (receipt_of f) \<le> sint t then Inr (gm_map (\<lambda>_. aged_fact t) m)
      else Inl ErrInvalidMonotonicTime)"
  using assms
proof (induction m)
  case (Cons x m)
  obtain k f where x: "x = (k, f)" by (cases x)
  have "fact_ok k f" "facts_ok m" using Cons.prems by (auto simp: x facts_ok_def gm_ok_def)
  then show ?case using Cons.IH by (simp add: x age_fact_ok gm_map_def)
qed (simp add: gm_map_def)

lemma gm_map_id: "(\<And>k v. (k, v) \<in> set m \<Longrightarrow> f k v = v) \<Longrightarrow> gm_map f m = m"
  unfolding gm_map_def by (rule map_idI) auto

lemma evaluate_retained_aged:
  "facts_ok m \<Longrightarrow> (\<forall>f \<in> snd ` set m. aged_at t f) \<Longrightarrow> evaluate_retained_facts t m = Inr m"
  by (force simp: evaluate_retained_ok aged_at_def intro: gm_map_id)

lemma clone_value_sorted: "sorted (fv_symbols v) \<Longrightarrow> clone_fact_value v = v"
  by (simp add: clone_fact_value_def sorted_sort_id)

lemma clone_facts_ok: "facts_ok m \<Longrightarrow> clone_facts m = m"
  unfolding clone_facts_def
  by (rule gm_map_id) (auto simp: facts_ok_def fact_ok_def clone_value_sorted)

lemma validate_symbols_error: "validate_symbols D S ss = Some e \<Longrightarrow> e = ErrInvalidFact"
  by (induction D S ss rule: validate_symbols.induct) (auto split: if_splits)

text \<open>Cloning a value does not change whether its candidate is valid.\<close>

lemma validate_candidate_clone:
  "validate_candidate cat (c\<lparr>cand_value := clone_fact_value (cand_value c)\<rparr>) = validate_candidate cat c"
proof -
  have "validate_symbols D {} (sort ss) = None \<longleftrightarrow> validate_symbols D {} ss = None" for D ss
    by (simp add: validate_symbols_None)
  then have "validate_symbols D {} (sort ss) = validate_symbols D {} ss" for D ss
    by (metis not_None_eq validate_symbols_error)
  moreover have "sort ss = [] \<longleftrightarrow> ss = []" for ss :: "string list"
    by (metis set_empty set_sort)
  ultimately show ?thesis
    by (simp add: validate_candidate_def clone_fact_value_def Let_def
        cong: if_cong option.case_cong)
qed

section \<open>One fact input\<close>

lemma source_admitted_assets [simp]:
  "validate_provenance (reg\<lparr>reg_assets := a\<rparr>) = validate_provenance reg"
  by (simp add: validate_provenance_def fun_eq_iff Let_def cong: if_cong option.case_cong)

definition origins_ok :: "registry \<Rightarrow> (digest, provenance) gomap \<Rightarrow> bool" where
  "origins_ok reg m \<longleftrightarrow> keyed_map prov_observation_ref m \<and>
     (\<forall>pr \<in> snd ` set m. validate_provenance reg pr = None)"

text \<open>The state while the inputs of an update from \<open>src\<close> at time \<open>t\<close> are applied.\<close>

definition working :: "registry \<Rightarrow> monotonic_nanos \<Rightarrow> provenance \<Rightarrow> asset_state \<Rightarrow> bool" where
  "working reg t src st \<longleftrightarrow>
     facts_ok (as_facts st) \<and> (\<forall>f \<in> snd ` set (as_facts st). aged_at t f) \<and>
     origins_ok reg (as_origins st) \<and> as_source st = src \<and>
     gm_get (as_origins st) (prov_observation_ref src) = Some src \<and>
     (\<forall>f \<in> snd ` set (as_facts st). fact_origin_ref f \<in> gm_keys (as_origins st)) \<and>
     accounting_ok st"

text \<open>The fact an accepted input stores, given the prior one under its key.\<close>

definition accepted_fact ::
  "monotonic_nanos \<Rightarrow> provenance \<Rightarrow> fact_input \<Rightarrow> fact_definition \<Rightarrow> continuity option \<Rightarrow> fact \<Rightarrow> bool"
where
  "accepted_fact t src input def c f \<longleftrightarrow>
     (\<exists>p. policy_by_id (fd_policy def) = Some p \<and> fi_policy input = fd_policy def \<and>
        receipt_ok p (fi_receipt input) \<and> sint (fi_receipt input) \<le> sint t \<and>
        f = new_fact src input
              \<lparr>ts_availability = fst (age_class p (sint t - sint (fi_receipt input))),
               ts_freshness = snd (age_class p (sint t - sint (fi_receipt input))),
               ts_temporal = temporal_of p (fi_receipt input)\<rparr> c)"

lemma apply_input_Return:
  assumes "reg_catalog reg = catalog_v1"
    and "apply_input reg u input (st, seen) = Return (st', seen')"
  obtains def c f where "gm_get (cat_facts catalog_v1) (cand_id (fi_candidate input)) = Some def"
    and "validate_candidate catalog_v1 (fi_candidate input) = None"
    and "fi_quality input \<in> {QualityGood, QualitySuspect, QualityBad}"
    and "accepted_fact (upd_evaluated u) (upd_source u) input def c f"
    and "candidate_key (fi_candidate input) \<notin> seen"
    and "fd_accumulator def \<Longrightarrow> \<exists>r. c = Some r \<and>
           counter_continuity st (upd_source u) (candidate_key (fi_candidate input)) input = Return r"
    and "\<not> fd_accumulator def \<Longrightarrow> c = None \<and> evidence_empty (fi_counter input)"
    and "st' = st\<lparr>as_facts := gm_put (candidate_key (fi_candidate input)) f (as_facts st)\<rparr>"
    and "seen' = insert (candidate_key (fi_candidate input)) seen"
proof -
  obtain def where def: "gm_get (cat_facts catalog_v1) (cand_id (fi_candidate input)) = Some def"
    using assms by (cases "gm_get (cat_facts catalog_v1) (cand_id (fi_candidate input))")
      (auto simp: apply_input_def)
  obtain p where p: "policy_by_id (fi_policy input) = Some p"
    and q: "validate_candidate catalog_v1 (fi_candidate input) = None"
      "validate_policy def (fi_policy input) = None"
      "fi_quality input \<in> {QualityGood, QualitySuspect, QualityBad}"
    using assms def by (auto simp: apply_input_def Let_def split: if_splits option.splits)
  have pol: "fi_policy input = fd_policy def" using q(2) by (simp add: validate_policy_None)
  let ?ts = "evaluate_temporal p (fi_receipt input) (upd_evaluated u)"
  let ?c = "if fd_accumulator def
      then outcome_bind (counter_continuity st (upd_source u) (candidate_key (fi_candidate input)) input)
             (\<lambda>r. Return (Some r))
      else if \<not> evidence_empty (fi_counter input) then Fail ErrInvalidCounter else Return None"
  obtain ts c where "?ts = Inr ts" "candidate_key (fi_candidate input) \<notin> seen" "?c = Return c"
    "st' = st\<lparr>as_facts := gm_put (candidate_key (fi_candidate input))
              (new_fact (upd_source u) input ts c) (as_facts st)\<rparr>"
    "seen' = insert (candidate_key (fi_candidate input)) seen"
    using assms def p q by (auto simp: apply_input_def Let_def split: if_splits)
  then show thesis
    using that [OF def q(1,3), of c "new_fact (upd_source u) input ts c"] p pol
    by (auto simp: accepted_fact_def evaluate_temporal_Inr split: if_splits)
qed

lemma accepted_fact_ok:
  assumes "accepted_fact t src input def c f"
    and def: "gm_get (cat_facts catalog_v1) (cand_id (fi_candidate input)) = Some def"
    and "validate_candidate catalog_v1 (fi_candidate input) = None"
    and "fi_quality input \<in> {QualityGood, QualitySuspect, QualityBad}"
    and "c \<noteq> None \<longleftrightarrow> fd_accumulator def"
  shows "fact_ok (candidate_key (fi_candidate input)) f" and "aged_at t f"
    and "fact_origin_ref f = prov_observation_ref src"
proof -
  obtain p where p: "policy_by_id (fd_policy def) = Some p" "receipt_ok p (fi_receipt input)"
    "sint (fi_receipt input) \<le> sint t"
    and f: "f = new_fact src input
              \<lparr>ts_availability = fst (age_class p (sint t - sint (fi_receipt input))),
               ts_freshness = snd (age_class p (sint t - sint (fi_receipt input))),
               ts_temporal = temporal_of p (fi_receipt input)\<rparr> c"
    using assms(1) by (auto simp: accepted_fact_def)
  have cand: "fact_candidate_of f =
      (fi_candidate input)\<lparr>cand_value := clone_fact_value (cand_value (fi_candidate input))\<rparr>"
    by (simp add: f fact_candidate_of_def new_fact_def Let_def)
  have temporal: "fact_temporal f = temporal_of p (fi_receipt input)" "receipt_of f = fi_receipt input"
    by (simp_all add: f new_fact_def Let_def temporal_of_def)
  have "t_policy (fact_temporal f) = fd_policy def"
    using policies_v1_ok [OF p(1)] by (simp add: temporal temporal_of_def)
  then show "aged_at t f"
    using p by (simp add: aged_at_def temporal(2) aged_fact_def)
      (simp add: f new_fact_def Let_def)
  show "fact_origin_ref f = prov_observation_ref src" by (simp add: f new_fact_def Let_def)
  have "fact_id f = cand_id (fi_candidate input)" "fact_continuity f = c"
    "fact_quality f = fi_quality input" "fact_value f = clone_fact_value (cand_value (fi_candidate input))"
    by (simp_all add: f new_fact_def Let_def)
  moreover have "sorted (fv_symbols (clone_fact_value v))" for v
    by (simp add: clone_fact_value_def)
  ultimately show "fact_ok (candidate_key (fi_candidate input)) f"
    using p assms(3-5) def temporal
    by (auto simp: fact_ok_def cand validate_candidate_clone candidate_key_def)
qed

text \<open>What the stored fact of an input records, read off the state before the update.\<close>

definition input_stored ::
  "update \<Rightarrow> asset_state \<Rightarrow> (fact_key, fact) gomap \<Rightarrow> fact_input \<Rightarrow> bool" where
  "input_stored u st facts input \<longleftrightarrow>
     (\<exists>def c f. gm_get (cat_facts catalog_v1) (cand_id (fi_candidate input)) = Some def \<and>
        validate_candidate catalog_v1 (fi_candidate input) = None \<and>
        accepted_fact (upd_evaluated u) (upd_source u) input def c f \<and>
        gm_get facts (candidate_key (fi_candidate input)) = Some f \<and>
        (if fd_accumulator def
         then \<exists>r. c = Some r \<and> counter_continuity st (upd_source u)
                     (candidate_key (fi_candidate input)) input = Return r
         else c = None \<and> evidence_empty (fi_counter input)))"

lemma counter_continuity_cong:
  "gm_get (as_facts st) k = gm_get (as_facts st') k \<Longrightarrow> as_origins st = as_origins st' \<Longrightarrow>
     counter_continuity st src k input = counter_continuity st' src k input"
  by (simp only: counter_continuity_def Let_def cong: option.case_cong)

abbreviation input_key :: "fact_input \<Rightarrow> fact_key" where
  "input_key i \<equiv> candidate_key (fi_candidate i)"

lemma apply_inputs_Return:
  assumes "reg_catalog reg = catalog_v1"
    and "apply_inputs reg u inputs (st, seen) = Return (st', seen')"
  shows "st' = st\<lparr>as_facts := as_facts st'\<rparr> \<and> distinct (map input_key inputs) \<and>
     input_key ` set inputs \<inter> seen = {} \<and>
     (\<forall>k. k \<notin> input_key ` set inputs \<longrightarrow> gm_get (as_facts st') k = gm_get (as_facts st) k) \<and>
     (\<forall>i \<in> set inputs. input_stored u st (as_facts st') i)"
  using assms(2)
proof (induction inputs arbitrary: st seen)
  case (Cons i inputs)
  obtain st1 seen1 where i: "apply_input reg u i (st, seen) = Return (st1, seen1)"
    and rest: "apply_inputs reg u inputs (st1, seen1) = Return (st', seen')"
    using Cons.prems by auto
  obtain def c f where d: "gm_get (cat_facts catalog_v1) (cand_id (fi_candidate i)) = Some def"
    "validate_candidate catalog_v1 (fi_candidate i) = None"
    "accepted_fact (upd_evaluated u) (upd_source u) i def c f" "input_key i \<notin> seen"
    "fd_accumulator def \<Longrightarrow>
       \<exists>r. c = Some r \<and> counter_continuity st (upd_source u) (input_key i) i = Return r"
    "\<not> fd_accumulator def \<Longrightarrow> c = None \<and> evidence_empty (fi_counter i)"
    and st1: "st1 = st\<lparr>as_facts := gm_put (input_key i) f (as_facts st)\<rparr>"
    and seen1: "seen1 = insert (input_key i) seen"
    using apply_input_Return [OF assms(1) i] by metis
  note IH = Cons.IH [OF rest]
  have eq: "st' = st\<lparr>as_facts := as_facts st'\<rparr>"
    using IH st1 by (cases st, cases st') simp
  have fresh: "input_key i \<notin> input_key ` set inputs" using IH seen1 by blast
  have at_i: "gm_get (as_facts st') (input_key i) = Some f" using IH fresh st1 by simp
  have "input_stored u st (as_facts st') i"
    unfolding input_stored_def
    by (rule exI [of _ def], rule exI [of _ c], rule exI [of _ f]) (simp add: d at_i)
  moreover have "input_stored u st (as_facts st') j" if j: "j \<in> set inputs" for j
  proof -
    have "input_key j \<noteq> input_key i" using fresh j by (metis imageI)
    then have "counter_continuity st (upd_source u) (input_key j) j =
        counter_continuity st1 (upd_source u) (input_key j) j"
      by (intro counter_continuity_cong) (simp_all add: st1)
    moreover have "input_stored u st1 (as_facts st') j" using IH j by simp
    ultimately show ?thesis by (simp only: input_stored_def)
  qed
  ultimately show ?case using eq fresh IH d(4) st1 seen1 by auto
qed simp

lemma gm_values_put: "v \<in> snd ` set (gm_put k w m) \<Longrightarrow> v = w \<or> v \<in> snd ` set m"
  unfolding gm_put_def by (induction m) (auto split: if_splits)

lemma ball_gm_put: "P w \<Longrightarrow> \<forall>v \<in> snd ` set m. P v \<Longrightarrow> \<forall>v \<in> snd ` set (gm_put k w m). P v"
  using gm_values_put [of _ k w m] by blast

lemma accounting_ok_more_facts:
  "accounting_ok st \<Longrightarrow> gm_keys (as_facts st) \<subseteq> gm_keys m \<Longrightarrow> accounting_ok (st\<lparr>as_facts := m\<rparr>)"
  unfolding accounting_ok_def by auto

lemma apply_input_working:
  assumes cat: "reg_catalog reg = catalog_v1"
    and w: "working reg (upd_evaluated u) (upd_source u) st"
    and step: "apply_input reg u i (st, seen) = Return (st', seen')"
  shows "working reg (upd_evaluated u) (upd_source u) st'"
proof -
  obtain def c f where d: "gm_get (cat_facts catalog_v1) (cand_id (fi_candidate i)) = Some def"
    "validate_candidate catalog_v1 (fi_candidate i) = None"
    "fi_quality i \<in> {QualityGood, QualitySuspect, QualityBad}"
    "accepted_fact (upd_evaluated u) (upd_source u) i def c f"
    "fd_accumulator def \<Longrightarrow>
       \<exists>r. c = Some r \<and> counter_continuity st (upd_source u) (input_key i) i = Return r"
    "\<not> fd_accumulator def \<Longrightarrow> c = None \<and> evidence_empty (fi_counter i)"
    and st': "st' = st\<lparr>as_facts := gm_put (input_key i) f (as_facts st)\<rparr>"
    using apply_input_Return [OF cat step] by metis
  have "c \<noteq> None \<longleftrightarrow> fd_accumulator def" using d(5,6) by (cases "fd_accumulator def") auto
  note f = accepted_fact_ok [OF d(4,1,2,3) this]
  have "\<forall>g \<in> snd ` set (as_facts st'). P g"
    if "P f" "\<forall>g \<in> snd ` set (as_facts st). P g" for P
    using ball_gm_put [of P f "as_facts st" "input_key i"] that st' by simp
  from this [of "aged_at (upd_evaluated u)"]
    this [of "\<lambda>g. fact_origin_ref g \<in> gm_keys (as_origins st)"]
  show ?thesis
    using w f unfolding working_def
    by (auto simp: st' facts_ok_put gm_keys_iff intro: accounting_ok_more_facts)
qed

lemma apply_inputs_working:
  assumes "reg_catalog reg = catalog_v1"
  shows "working reg (upd_evaluated u) (upd_source u) st \<Longrightarrow>
     apply_inputs reg u inputs (st, seen) = Return (st', seen') \<Longrightarrow>
     working reg (upd_evaluated u) (upd_source u) st'"
  by (induction inputs arbitrary: st seen) (auto dest: apply_input_working [OF assms])

lemma counter_continuity_no_panic:
  assumes "fv_decimal (cand_value (fi_candidate i)) = Some d"
  shows "counter_continuity st src k i \<noteq> Panic"
proof -
  let ?q = "case gm_get (as_facts st) k of None \<Rightarrow> None | Some f \<Rightarrow> fv_decimal (fact_value f)"
  obtain r err where "evaluate_counter ?q d (fi_counter i) = Some (r, err)"
    using evaluate_counter_no_panic by force
  then show ?thesis
    using assms by (cases err) (simp_all add: counter_continuity_def Let_def)
qed

lemma apply_input_no_panic:
  assumes "reg_catalog reg = catalog_v1"
  shows "apply_input reg u i (st, seen) \<noteq> Panic"
proof
  assume panic: "apply_input reg u i (st, seen) = Panic"
  then obtain def where def: "gm_get (cat_facts catalog_v1) (cand_id (fi_candidate i)) = Some def"
    and v: "validate_candidate catalog_v1 (fi_candidate i) = None" and acc: "fd_accumulator def"
    and p: "counter_continuity st (upd_source u) (input_key i) i = Panic"
    using assms
    by (auto simp: apply_input_def Let_def outcome_bind_Panic split: option.splits if_splits)
  obtain d where "fv_decimal (cand_value (fi_candidate i)) = Some d"
    using v def acc catalog_v1_facts(4) [OF def] by (auto elim!: validate_candidate_None)
  then show False using counter_continuity_no_panic p by metis
qed

lemma apply_inputs_no_panic:
  "reg_catalog reg = catalog_v1 \<Longrightarrow> apply_inputs reg u inputs s \<noteq> Panic"
  by (induction inputs arbitrary: s)
    (auto simp: outcome_bind_Panic dest: apply_input_no_panic)

section \<open>The invariant of the registry\<close>

definition asset_ok :: "registry \<Rightarrow> asset_state \<Rightarrow> bool" where
  "asset_ok reg st \<longleftrightarrow>
     (\<exists>t. 0 \<le> sint t \<and> working reg t (as_source st) st) \<and>
     gm_keys (as_origins st) \<subseteq>
       insert (prov_observation_ref (as_source st)) (fact_origin_ref ` snd ` set (as_facts st)) \<and>
     as_facts st \<noteq> [] \<and> length (as_facts st) \<le> 256 \<and> length (as_origins st) \<le> 256 \<and>
     length (as_requested st) \<le> 512 \<and> length (as_projections st) \<le> 512"

definition registry_ok :: "registry \<Rightarrow> bool" where
  "registry_ok reg \<longleftrightarrow> reg_catalog reg = catalog_v1 \<and> gm_ok (reg_assets reg) \<and>
     (\<forall>ref st. gm_get (reg_assets reg) ref = Some st \<longrightarrow> valid_asset_ref ref \<and> asset_ok reg st)"

lemma new_registry_ok: "registry_ok (new_registry resolver)"
  by (simp add: registry_ok_def new_registry_def)

text \<open>What an update starts from: a consistent state without the aged facts.\<close>

definition resting :: "registry \<Rightarrow> asset_state \<Rightarrow> bool" where
  "resting reg st \<longleftrightarrow> facts_ok (as_facts st) \<and> origins_ok reg (as_origins st) \<and>
     (\<forall>f \<in> snd ` set (as_facts st). fact_origin_ref f \<in> gm_keys (as_origins st)) \<and> accounting_ok st"

lemma resting_fresh: "resting reg fresh_asset_state"
  using accounting_ok_fresh by (simp add: resting_def fresh_asset_state_def origins_ok_def)

lemma asset_ok_resting: "asset_ok reg st \<Longrightarrow> resting reg st"
  by (auto simp: asset_ok_def working_def resting_def)

lemma asset_copy_eq:
  assumes "registry_ok reg"
  shows "asset_copy reg ref =
     (case gm_get (reg_assets reg) ref of None \<Rightarrow> fresh_asset_state | Some st \<Rightarrow> st)"
proof -
  have "st\<lparr>as_facts := clone_facts (as_facts st)\<rparr> = st" if "asset_ok reg st" for st
    using asset_ok_resting [OF that] by (simp add: resting_def clone_facts_ok)
  then show ?thesis
    using assms by (auto simp: asset_copy_def clone_asset_state_def registry_ok_def split: option.split)
qed

lemma asset_copy_resting: "registry_ok reg \<Longrightarrow> resting reg (asset_copy reg ref)"
  using asset_copy_eq [of reg ref] resting_fresh asset_ok_resting
  by (auto simp: registry_ok_def split: option.splits)

text \<open>The state with its facts aged and the new source registered.\<close>

definition sourced :: "update \<Rightarrow> asset_state \<Rightarrow> asset_state" where
  "sourced u st = st\<lparr>as_facts := gm_map (\<lambda>_. aged_fact (upd_evaluated u)) (as_facts st),
     as_source := upd_source u, as_source_time := upd_source_time u,
     as_origins := gm_put (prov_observation_ref (upd_source u)) (upd_source u) (as_origins st)\<rparr>"

lemma gm_values_map: "snd ` set (gm_map (\<lambda>_. g) m) = g ` snd ` set m"
  by (force simp: gm_map_def)

lemma sourced_working:
  assumes "resting reg st" and "validate_provenance reg (upd_source u) = None"
    and "\<forall>f \<in> snd ` set (as_facts st). sint (receipt_of f) \<le> sint (upd_evaluated u)"
  shows "working reg (upd_evaluated u) (upd_source u) (sourced u st)"
proof -
  let ?m = "gm_put (prov_observation_ref (upd_source u)) (upd_source u) (as_origins st)"
  have "keyed_map prov_observation_ref ?m"
    using assms(1) by (simp add: resting_def origins_ok_def keyed_map_put)
  moreover have "\<forall>pr \<in> snd ` set ?m. validate_provenance reg pr = None"
    using assms(1,2) by (intro ball_gm_put) (simp_all add: resting_def origins_ok_def)
  moreover have "accounting_ok (sourced u st)"
    using assms(1) by (simp add: resting_def sourced_def accounting_ok_def)
  ultimately show ?thesis
    using assms unfolding working_def origins_ok_def
    by (simp add: sourced_def resting_def gm_values_map aged_at_aged)
qed

text \<open>The rest of the locked part, from the working state.\<close>

lemma prune_origins_sel [simp]:
  "as_facts (prune_origins st) = as_facts st" "as_source (prune_origins st) = as_source st"
  "as_requested (prune_origins st) = as_requested st"
  "as_projections (prune_origins st) = as_projections st"
  "as_generation (prune_origins st) = as_generation st"
  "as_source_time (prune_origins st) = as_source_time st"
  by (simp_all add: prune_origins_def Let_def)

lemma prune_origins_map:
  "as_origins (prune_origins st) = gm_filter (\<lambda>r _. r \<in> insert (prov_observation_ref (as_source st))
     (fact_origin_ref ` snd ` set (as_facts st))) (as_origins st)"
  by (simp add: prune_origins_def Let_def)

lemma working_prune:
  assumes "working reg t src st"
  shows "working reg t src (prune_origins st)"
    and "gm_keys (as_origins (prune_origins st)) =
      insert (prov_observation_ref src) (fact_origin_ref ` snd ` set (as_facts st))"
proof -
  let ?S = "insert (prov_observation_ref src) (fact_origin_ref ` snd ` set (as_facts st))"
  have src: "as_source st = src" using assms by (simp add: working_def)
  have ok: "gm_ok (as_origins st)" "origins_ok reg (as_origins st)"
    using assms by (simp_all add: working_def origins_ok_def keyed_map_def)
  have m: "as_origins (prune_origins st) = gm_filter (\<lambda>r _. r \<in> ?S) (as_origins st)"
    by (simp add: prune_origins_map src)
  have sub: "?S \<subseteq> gm_keys (as_origins st)"
    using assms by (auto simp: working_def gm_keys_iff)
  then show keys: "gm_keys (as_origins (prune_origins st)) = ?S"
    unfolding m gm_keys_restrict by blast
  have "set (gm_filter p m') \<subseteq> set m'" for p and m' :: "(digest, provenance) gomap"
    by (simp add: gm_filter_def)
  then have "origins_ok reg (as_origins (prune_origins st))"
    using ok unfolding m origins_ok_def by (metis (no_types, lifting) image_mono keyed_map_filter subsetD)
  moreover have "gm_get (as_origins (prune_origins st)) (prov_observation_ref src) = Some src"
    using assms unfolding m by (simp add: ok(1) working_def)
  moreover have "accounting_ok (prune_origins st)"
    using assms by (simp add: working_def accounting_ok_def)
  ultimately show "working reg t src (prune_origins st)"
    using assms keys unfolding working_def by simp
qed

lemma working_merge:
  assumes "working reg t src st" and "report_accounts u" and "distinct (input_keys u)"
    and "set (input_keys u) \<subseteq> gm_keys (as_facts st)"
  shows "working reg t src (merge_accounting st u)"
  using assms merge_accounting_ok [of st u] by (simp add: working_def)

lemma working_generation [simp]:
  "working reg t src (st\<lparr>as_generation := g\<rparr>) = working reg t src st"
  by (simp add: working_def accounting_ok_def)

lemma admit_update_None:
  assumes "admit_update reg u = None"
  shows "valid_asset_ref (upd_asset_ref u)" and "validate_provenance reg (upd_source u) = None"
    and "distinct (input_keys u)" and "report_accounts u" and "0 \<le> sint (upd_evaluated u)"
    and "upd_facts u \<noteq> []" and "length (upd_facts u) \<le> 256"
proof -
  note a = assms [unfolded admit_update_def]
  show "valid_asset_ref (upd_asset_ref u)" and "validate_provenance reg (upd_source u) = None"
    and d: "distinct (input_keys u)" and "0 \<le> sint (upd_evaluated u)"
    using a by (auto simp: duplicate_fact_inputs_iff split: if_splits option.splits)
  have l: "validate_update_accounting_limits u = None" "validate_update_accounting u = None"
    using a by (auto split: if_splits option.splits)
  then show "report_accounts u" using validate_update_accounting_iff [OF l(1) d] by simp
  show "upd_facts u \<noteq> []" and "length (upd_facts u) \<le> 256"
    using l(1) by (auto simp: validate_update_accounting_limits_def split: if_splits)
qed

section \<open>Apply\<close>

text \<open>The successful run of the locked part, step by step.\<close>

definition want_outcome :: "asset_state \<Rightarrow> string" where
  "want_outcome st = capability_outcome (three_phase_telemetry_satisfied (as_facts st))"

lemma apply_locked_eq:
  assumes cat: "reg_catalog reg = catalog_v1" and rest: "resting reg st"
    and adm: "admit_update reg u = None"
    and times: "\<forall>f \<in> snd ` set (as_facts st). sint (receipt_of f) \<le> sint (upd_evaluated u)"
    and origin: "\<forall>pr. gm_get (as_origins st) (prov_observation_ref (upd_source u)) = Some pr \<longrightarrow>
      pr = upd_source u"
  shows "apply_locked reg u st =
     outcome_bind (apply_inputs reg u (upd_facts u) (sourced u st, {})) (\<lambda>(st2, _).
       if cap_id (upd_capability u) \<noteq> CapabilityThreePhaseTelemetryV1
          \<or> cap_outcome (upd_capability u) \<noteq> want_outcome st2
       then Fail ErrInvalidCapability
       else let st4 = prune_origins (merge_accounting st2 u)
         in if length (as_facts st4) > 256 \<or> length (as_origins st4) > 256
               \<or> length (as_requested st4) > 512 \<or> length (as_projections st4) > 512
            then Fail ErrInvalidProjection
            else Return (st4\<lparr>as_generation := as_generation st4 + 1\<rparr>))"
proof -
  let ?t = "upd_evaluated u" and ?src = "upd_source u"
  have aged: "evaluate_retained_facts ?t (as_facts st) = Inr (gm_map (\<lambda>_. aged_fact ?t) (as_facts st))"
    using rest times by (simp add: resting_def evaluate_retained_ok)
  have no_clash: "\<not> (case gm_get (as_origins st) (prov_observation_ref ?src) of
      Some existing \<Rightarrow> existing \<noteq> ?src | None \<Rightarrow> False)"
    using origin by (auto split: option.split)
  have w: "working reg ?t ?src (sourced u st)"
    using rest admit_update_None(2) [OF adm] times by (rule sourced_working)
  have again: "evaluate_retained_facts ?t (as_facts st2) = Inr (as_facts st2)"
    if "apply_inputs reg u (upd_facts u) (sourced u st, {}) = Return (st2, seen)" for st2 seen
    using apply_inputs_working [OF cat w that] by (simp add: working_def evaluate_retained_aged)
  have same: "st2\<lparr>as_facts := as_facts st2\<rparr> = st2" for st2 :: asset_state by simp
  show ?thesis
    using no_clash again same
    by (cases "apply_inputs reg u (upd_facts u) (sourced u st, {})")
       (auto simp: apply_locked_def aged sourced_def [symmetric] Let_def want_outcome_def
         cong: if_cong)
qed

lemma apply_locked_early:
  assumes rest: "resting reg st"
    and fail: "\<not> ((\<forall>f \<in> snd ` set (as_facts st). sint (receipt_of f) \<le> sint (upd_evaluated u)) \<and>
      (\<forall>pr. gm_get (as_origins st) (prov_observation_ref (upd_source u)) = Some pr \<longrightarrow> pr = upd_source u))"
  shows "\<exists>e. apply_locked reg u st = Fail e"
proof (cases "\<forall>f \<in> snd ` set (as_facts st). sint (receipt_of f) \<le> sint (upd_evaluated u)")
  case True
  then obtain pr where "gm_get (as_origins st) (prov_observation_ref (upd_source u)) = Some pr"
    "pr \<noteq> upd_source u" using fail by auto
  then show ?thesis
    using rest True by (simp add: apply_locked_def Let_def resting_def evaluate_retained_ok)
next
  case False
  then have "evaluate_retained_facts (upd_evaluated u) (as_facts st) = Inl ErrInvalidMonotonicTime"
    using rest by (auto simp: resting_def evaluate_retained_ok)
  then show ?thesis by (simp add: apply_locked_def)
qed

lemma apply_locked_Return:
  assumes cat: "reg_catalog reg = catalog_v1" and rest: "resting reg st"
    and adm: "admit_update reg u = None" and run: "apply_locked reg u st = Return st'"
  obtains st2 seen where
    "\<forall>f \<in> snd ` set (as_facts st). sint (receipt_of f) \<le> sint (upd_evaluated u)"
    and "working reg (upd_evaluated u) (upd_source u) (sourced u st)"
    and "apply_inputs reg u (upd_facts u) (sourced u st, {}) = Return (st2, seen)"
    and "working reg (upd_evaluated u) (upd_source u) st2"
    and "set (input_keys u) \<subseteq> gm_keys (as_facts st2)"
    and "cap_outcome (upd_capability u) = want_outcome st2"
    and "st' = (prune_origins (merge_accounting st2 u))\<lparr>as_generation := as_generation st + 1\<rparr>"
    and "length (as_facts st') \<le> 256" "length (as_origins st') \<le> 256"
    and "length (as_requested st') \<le> 512" "length (as_projections st') \<le> 512"
proof -
  have times: "\<forall>f \<in> snd ` set (as_facts st). sint (receipt_of f) \<le> sint (upd_evaluated u)"
    and origin: "\<forall>pr. gm_get (as_origins st) (prov_observation_ref (upd_source u)) = Some pr \<longrightarrow>
      pr = upd_source u"
    using apply_locked_early [OF rest] run by fastforce+
  have w: "working reg (upd_evaluated u) (upd_source u) (sourced u st)"
    using rest admit_update_None(2) [OF adm] times by (rule sourced_working)
  obtain st2 seen where in2: "apply_inputs reg u (upd_facts u) (sourced u st, {}) = Return (st2, seen)"
    and rest2: "cap_outcome (upd_capability u) = want_outcome st2"
      "st' = (prune_origins (merge_accounting st2 u))\<lparr>as_generation := as_generation st2 + 1\<rparr>"
      "length (as_facts st') \<le> 256" "length (as_origins st') \<le> 256"
      "length (as_requested st') \<le> 512" "length (as_projections st') \<le> 512"
    using run unfolding apply_locked_eq [OF cat rest adm times origin]
    by (auto simp: Let_def split: if_splits)
  note c = apply_inputs_Return [OF cat in2]
  have "st2 = (sourced u st)\<lparr>as_facts := as_facts st2\<rparr>" using c by blast
  then have "as_generation st2 = as_generation (sourced u st)"
    by (metis asset_state.select_convs(1) asset_state.surjective asset_state.update_convs(3))
  then have g: "as_generation st2 = as_generation st" by (simp add: sourced_def)
  have keys: "set (input_keys u) \<subseteq> gm_keys (as_facts st2)"
    using c by (auto simp: input_keys_def input_stored_def gm_keys_iff)
  show thesis
    using that [OF times w in2 apply_inputs_working [OF cat w in2] keys] rest2 g by simp
qed

lemma apply_locked_ok:
  assumes "reg_catalog reg = catalog_v1" and "resting reg st"
    and adm: "admit_update reg u = None" and "apply_locked reg u st = Return st'"
  shows "asset_ok reg st'" and "working reg (upd_evaluated u) (upd_source u) st'"
proof -
  obtain st2 where w: "working reg (upd_evaluated u) (upd_source u) st2"
    and keys: "set (input_keys u) \<subseteq> gm_keys (as_facts st2)"
    and st': "st' = (prune_origins (merge_accounting st2 u))\<lparr>as_generation := as_generation st + 1\<rparr>"
    and len: "length (as_facts st') \<le> 256" "length (as_origins st') \<le> 256"
      "length (as_requested st') \<le> 512" "length (as_projections st') \<le> 512"
    using apply_locked_Return [OF assms] by metis
  note a = admit_update_None [OF adm]
  have m: "working reg (upd_evaluated u) (upd_source u) (merge_accounting st2 u)"
    using w a(4,3) keys by (rule working_merge)
  then show w': "working reg (upd_evaluated u) (upd_source u) st'"
    by (simp add: st' working_prune(1))
  have "as_facts st2 \<noteq> []"
    using keys a(6) by (auto simp: input_keys_def)
  moreover have "as_source st' = upd_source u" using w' by (simp add: working_def)
  moreover have "gm_keys (as_origins st') =
      insert (prov_observation_ref (upd_source u)) (fact_origin_ref ` snd ` set (as_facts st'))"
    using working_prune(2) [OF m] by (simp add: st')
  ultimately show "asset_ok reg st'"
    using w' a(5) len unfolding asset_ok_def by (auto simp: st')
qed

lemma apply_locked_no_panic:
  assumes "reg_catalog reg = catalog_v1" and "resting reg st" and "admit_update reg u = None"
  shows "apply_locked reg u st \<noteq> Panic"
proof (cases "(\<forall>f \<in> snd ` set (as_facts st). sint (receipt_of f) \<le> sint (upd_evaluated u)) \<and>
      (\<forall>pr. gm_get (as_origins st) (prov_observation_ref (upd_source u)) = Some pr \<longrightarrow> pr = upd_source u)")
  case True
  then have "apply_locked reg u st = Panic \<Longrightarrow> False"
    using apply_inputs_no_panic [OF assms(1)]
    by (subst (asm) apply_locked_eq [OF assms])
       (auto simp: outcome_bind_Panic Let_def split: if_splits)
  then show ?thesis by blast
next
  case False
  then show ?thesis using apply_locked_early [OF assms(2)] by fastforce
qed

section \<open>The two operations\<close>

lemma registry_apply_cases:
  assumes "registry_ok reg"
  obtains
    (fail) e where "registry_apply (Some reg) u = (Some reg, Fail e)"
  | (success) st' where "admit_update reg u = None"
      "apply_locked reg u (asset_copy reg (upd_asset_ref u)) = Return st'"
      "registry_apply (Some reg) u =
         (Some (reg\<lparr>reg_assets := gm_put (upd_asset_ref u) st' (reg_assets reg)\<rparr>),
          Return (snapshot_locked (upd_asset_ref u) st' (upd_evaluated u)))"
proof (cases "admit_update reg u")
  case None
  have "apply_locked reg u (asset_copy reg (upd_asset_ref u)) \<noteq> Panic"
    using assms None by (intro apply_locked_no_panic asset_copy_resting) (simp_all add: registry_ok_def)
  then show thesis
    using None fail success
    by (cases "apply_locked reg u (asset_copy reg (upd_asset_ref u))")
       (auto simp: registry_apply_def)
qed (use fail in \<open>simp add: registry_apply_def\<close>)

lemma admit_update_assets [simp]:
  "admit_update (reg\<lparr>reg_assets := a\<rparr>) = admit_update reg"
  by (simp add: admit_update_def fun_eq_iff)

lemma asset_ok_assets [simp]: "asset_ok (reg\<lparr>reg_assets := a\<rparr>) st = asset_ok reg st"
  by (simp add: asset_ok_def working_def origins_ok_def)

lemma registry_apply_success_ok:
  assumes "registry_ok reg" and "admit_update reg u = None"
    and "apply_locked reg u (asset_copy reg (upd_asset_ref u)) = Return st'"
  shows "asset_ok reg st'" and "working reg (upd_evaluated u) (upd_source u) st'"
  using apply_locked_ok [OF _ asset_copy_resting [OF assms(1)] assms(2,3)] assms(1)
  by (simp_all add: registry_ok_def)

lemma registry_apply_keeps_ok:
  assumes "registry_ok reg" and "registry_apply (Some reg) u = (Some reg', r)"
  shows "registry_ok reg'"
  using assms(1)
proof (cases rule: registry_apply_cases [of reg u])
  case (fail e)
  then show ?thesis using assms by simp
next
  case (success st')
  then show ?thesis
    using assms registry_apply_success_ok(1) [OF assms(1) success(1,2)] admit_update_None(1) [OF success(1)]
    by (auto simp: registry_ok_def)
qed

definition pv_step :: "registry \<Rightarrow> registry \<Rightarrow> bool" where
  "pv_step reg reg' \<longleftrightarrow> (\<exists>u r. registry_apply (Some reg) u = (Some reg', r))"

interpretation pv: invariant_system "\<lambda>reg. reg = new_registry resolver" pv_step registry_ok
  for resolver
  by unfold_locales (auto simp: pv_step_def new_registry_ok intro: registry_apply_keeps_ok)

abbreviation pv_reachable :: "source_resolver option \<Rightarrow> registry \<Rightarrow> bool" where
  "pv_reachable resolver \<equiv> reach (\<lambda>reg. reg = new_registry resolver) pv_step"

text \<open>A snapshot: the stored state with its facts aged.\<close>

definition aged_state :: "monotonic_nanos \<Rightarrow> asset_state \<Rightarrow> asset_state" where
  "aged_state t st = st\<lparr>as_facts := gm_map (\<lambda>_. aged_fact t) (as_facts st)\<rparr>"

lemma gm_filter_id: "(\<And>k. k \<in> gm_keys m \<Longrightarrow> p k) \<Longrightarrow> gm_filter (\<lambda>k _. p k) m = m"
  unfolding gm_filter_def gm_keys_def by (rule filter_True) force

lemma prune_aged:
  assumes "asset_ok reg st"
  shows "prune_origins (aged_state t st) = aged_state t st"
proof -
  have "as_origins (prune_origins (aged_state t st)) = as_origins (aged_state t st)"
    unfolding prune_origins_map using assms
    by (intro gm_filter_id) (auto simp: aged_state_def asset_ok_def gm_values_map image_image)
  then show ?thesis by simp
qed

lemma registry_snapshot_eq:
  assumes ok: "registry_ok reg"
  shows "registry_snapshot (Some reg) ref t =
    (if sint t < 0 then Inl ErrInvalidMonotonicTime
     else case gm_get (reg_assets reg) ref of
       None \<Rightarrow> Inl ErrAssetNotFound
     | Some st \<Rightarrow>
         if \<forall>f \<in> snd ` set (as_facts st). sint (receipt_of f) \<le> sint t
         then Inr (snapshot_locked ref (aged_state t st) t) else Inl ErrInvalidMonotonicTime)"
proof (cases "gm_get (reg_assets reg) ref")
  case (Some st)
  then have st: "asset_ok reg st" using ok by (simp add: registry_ok_def)
  then have f: "facts_ok (as_facts st)" using asset_ok_resting by (simp add: resting_def)
  have "clone_asset_state (Some st) = Some st" using f by (simp add: clone_asset_state_def clone_facts_ok)
  then show ?thesis
    using Some f prune_aged [OF st, of t]
    by (simp add: registry_snapshot_def evaluate_retained_ok aged_state_def)
qed (simp add: registry_snapshot_def clone_asset_state_def)

end
