(* ===== verification/Pv_Samples.thy ===== *)
theory Pv_Samples
  imports Pv_Invariant
begin

text \<open>
  Two updates of one asset, evaluated: an energy counter of input \<open>mppt1\<close> reads 1000 Wh and
  then 1250 Wh. The witnesses of the registry properties use them.
\<close>

definition sample_digest :: "char \<Rightarrow> digest" where
  "sample_digest c = ''sha256:'' @ replicate 64 c"

definition sample_identity :: source_identity where
  "sample_identity = \<lparr>si_protocol = ''sunspec'', si_profile_id = ''sunspec.phase1@1.0.0'',
     si_profile_version = ''1.0.0'', si_validity = SourceTerminalVerified\<rparr>"

definition sample_resolver :: source_resolver where
  "sample_resolver s = (if s = sample_identity then Some (sample_digest (CHR ''a'')) else None)"

definition sample_source :: "char \<Rightarrow> provenance" where
  "sample_source c = \<lparr>prov_identity = sample_identity, prov_registry_ref = sample_digest (CHR ''a''),
     prov_observation_ref = sample_digest c, prov_shadow_ref = sample_digest c,
     prov_evidence_ref = sample_digest c\<rparr>"

definition sample_dimensions :: dimensions where
  "sample_dimensions = no_dimensions\<lparr>dim_input_id := ''mppt1''\<rparr>"

definition sample_input :: "string \<Rightarrow> monotonic_nanos \<Rightarrow> fact_input" where
  "sample_input n t =
     \<lparr>fi_candidate = \<lparr>cand_id = FactDCEnergyActiveTotal, cand_dimensions = sample_dimensions,
        cand_value = decimal_fact_value \<lparr>dec_coefficient = n, dec_scale = 0\<rparr>, cand_unit = UnitWattHour\<rparr>,
      fi_quality = QualityGood, fi_receipt = t, fi_policy = PolicyAccumulatorV1,
      fi_counter = \<lparr>ev_kind = [], ev_modulus = None, ev_boundary_verified = False, ev_evidence_ref = []\<rparr>\<rparr>"

definition sample_update :: "char \<Rightarrow> string \<Rightarrow> monotonic_nanos \<Rightarrow> update" where
  "sample_update c n t =
     \<lparr>upd_asset_ref = ''pv-asset-roof'', upd_evaluated = t + 5, upd_source_time = SourceTimeUnavailable,
      upd_source = sample_source c, upd_facts = [sample_input n t],
      upd_capability = \<lparr>cap_id = CapabilityThreePhaseTelemetryV1, cap_outcome = CapabilityNotSatisfied\<rparr>,
      upd_requested = [\<lparr>ro_source_ref = sample_digest c, ro_output_ref = sample_digest (CHR ''e'')\<rparr>],
      upd_report = [\<lparr>pj_source_ref = sample_digest c, pj_output_ref = sample_digest (CHR ''e''),
        pj_fact_id = FactDCEnergyActiveTotal, pj_dimensions = Some sample_dimensions,
        pj_outcome = ProjectionMapped\<rparr>]\<rparr>"

definition sample_fact :: "char \<Rightarrow> string \<Rightarrow> monotonic_nanos \<Rightarrow> continuity \<Rightarrow> fact" where
  "sample_fact c n t cont =
     \<lparr>fact_id = FactDCEnergyActiveTotal, fact_dimensions = sample_dimensions,
      fact_value = decimal_fact_value \<lparr>dec_coefficient = n, dec_scale = 0\<rparr>,
      fact_unit = UnitWattHour, fact_quality = QualityGood,
      fact_availability = AvailabilityAvailable, fact_freshness = FreshnessFresh,
      fact_temporal = \<lparr>t_receipt = t, t_fresh_until = t + 900000000000,
        t_retain_until = t + 86400000000000, t_policy = PolicyAccumulatorV1\<rparr>,
      fact_origin_ref = sample_digest c, fact_continuity = Some cont\<rparr>"

definition sample_state :: "uint64 \<Rightarrow> char \<Rightarrow> string \<Rightarrow> monotonic_nanos \<Rightarrow> continuity \<Rightarrow> asset_state" where
  "sample_state g c n t cont =
     \<lparr>as_generation = g, as_source = sample_source c,
      as_facts = [(''pv.dc.energy.active_total|input_id=mppt1'', sample_fact c n t cont)],
      as_origins = [(sample_digest c, sample_source c)],
      as_requested = [((sample_digest c, sample_digest (CHR ''e'')),
        \<lparr>ro_source_ref = sample_digest c, ro_output_ref = sample_digest (CHR ''e'')\<rparr>)],
      as_projections = [((sample_digest c, sample_digest (CHR ''e'')),
        \<lparr>pj_source_ref = sample_digest c, pj_output_ref = sample_digest (CHR ''e''),
         pj_fact_id = FactDCEnergyActiveTotal, pj_dimensions = Some sample_dimensions,
         pj_outcome = ProjectionMapped\<rparr>)],
      as_source_time = SourceTimeUnavailable\<rparr>"

abbreviation "sample_contiguous \<equiv> (continuity_of ContinuityContiguous)
  \<lparr>cont_delta := Some \<lparr>dec_coefficient = ''250'', dec_scale = 0\<rparr>\<rparr>"

lemma sample_admitted:
  "admit_update (new_registry (Some sample_resolver)) (sample_update (CHR ''b'') ''1000'' 10) = None"
  by code_simp

lemma sample_first:
  "apply_locked (new_registry (Some sample_resolver)) (sample_update (CHR ''b'') ''1000'' 10)
     fresh_asset_state =
   Return (sample_state 1 (CHR ''b'') ''1000'' 10 (continuity_of ContinuityBaseline))"
  by code_simp

lemma sample_second:
  "apply_locked (new_registry (Some sample_resolver)) (sample_update (CHR ''c'') ''1250'' 20)
     (sample_state 1 (CHR ''b'') ''1000'' 10 (continuity_of ContinuityBaseline)) =
   Return (sample_state 2 (CHR ''c'') ''1250'' 20 sample_contiguous)"
  by code_simp

text \<open>The registry after each of the two updates, and the two calls.\<close>

definition sample_registry :: "asset_state \<Rightarrow> registry" where
  "sample_registry st =
     (new_registry (Some sample_resolver))\<lparr>reg_assets := [(''pv-asset-roof'', st)]\<rparr>"

abbreviation "sample_state1 \<equiv> sample_state 1 (CHR ''b'') ''1000'' 10 (continuity_of ContinuityBaseline)"
abbreviation "sample_state2 \<equiv> sample_state 2 (CHR ''c'') ''1250'' 20 sample_contiguous"
abbreviation "sample_update1 \<equiv> sample_update (CHR ''b'') ''1000'' 10"
abbreviation "sample_update2 \<equiv> sample_update (CHR ''c'') ''1250'' 20"

lemma sample_admitted2: "admit_update (new_registry (Some sample_resolver)) sample_update2 = None"
  by code_simp

lemma sample_update_sel [simp]:
  "upd_asset_ref (sample_update c n t) = ''pv-asset-roof''"
  "upd_evaluated (sample_update c n t) = t + 5"
  "upd_facts (sample_update c n t) = [sample_input n t]"
  by (simp_all add: sample_update_def)

lemma sample_apply1:
  "registry_apply (Some (new_registry (Some sample_resolver))) sample_update1 =
     (Some (sample_registry sample_state1), Return (snapshot_locked ''pv-asset-roof'' sample_state1 15))"
proof -
  have "asset_copy (new_registry (Some sample_resolver)) ''pv-asset-roof'' = fresh_asset_state"
    by (simp add: asset_copy_def clone_asset_state_def new_registry_def)
  then show ?thesis
    using sample_admitted sample_first
    by (simp add: registry_apply_def sample_registry_def new_registry_def gm_put_def)
qed

lemma sample_reachable1: "pv_reachable (Some sample_resolver) (sample_registry sample_state1)"
  by (rule reach_step [OF reach_init])
    (auto simp: pv_step_def intro!: exI [of _ sample_update1] sample_apply1)

lemma sample_ok1: "registry_ok (sample_registry sample_state1)"
  by (rule pv.reach_inv [OF sample_reachable1])

lemma sample_get [simp]:
  "gm_get (reg_assets (sample_registry st)) ref = (if ref = ''pv-asset-roof'' then Some st else None)"
  by (auto simp: sample_registry_def gm_get_def)

lemma sample_copy1: "asset_copy (sample_registry sample_state1) ''pv-asset-roof'' = sample_state1"
  by (simp add: asset_copy_eq [OF sample_ok1])

text \<open>Only the resolver and the catalog of a registry matter to an update.\<close>

lemma apply_input_assets: "apply_input (reg\<lparr>reg_assets := a\<rparr>) = apply_input reg"
proof -
  have "reg_catalog (reg\<lparr>reg_assets := a\<rparr>) = reg_catalog reg" by simp
  then show ?thesis by (simp only: apply_input_def [abs_def])
qed

lemma apply_inputs_assets: "apply_inputs (reg\<lparr>reg_assets := a\<rparr>) u inputs s = apply_inputs reg u inputs s"
proof (induction inputs arbitrary: s)
  case (Cons i inputs)
  then have "apply_inputs (reg\<lparr>reg_assets := a\<rparr>) u inputs = apply_inputs reg u inputs" by blast
  then show ?case by (simp only: apply_inputs.simps apply_input_assets)
qed simp

lemma apply_locked_assets: "apply_locked (reg\<lparr>reg_assets := a\<rparr>) u st = apply_locked reg u st"
  by (simp only: apply_locked_def apply_inputs_assets)

lemma sample_same:
  "admit_update (sample_registry st) = admit_update (new_registry (Some sample_resolver))"
  "apply_locked (sample_registry st) u s = apply_locked (new_registry (Some sample_resolver)) u s"
  "(sample_registry st)\<lparr>reg_assets := gm_put ''pv-asset-roof'' st' (reg_assets (sample_registry st))\<rparr> =
     sample_registry st'"
  by (simp_all add: sample_registry_def apply_locked_assets gm_put_def)

lemma sample_apply2:
  "registry_apply (Some (sample_registry sample_state1)) sample_update2 =
     (Some (sample_registry sample_state2), Return (snapshot_locked ''pv-asset-roof'' sample_state2 25))"
  by (simp add: registry_apply_def sample_same sample_admitted2 sample_second sample_copy1)

lemma sample_snapshot1:
  "registry_snapshot (Some (sample_registry sample_state1)) ''pv-asset-roof'' 15 =
     Inr (snapshot_locked ''pv-asset-roof'' sample_state1 15)"
  unfolding registry_snapshot_eq [OF sample_ok1] by code_simp

end
