(* ===== verification/Pv_Properties.thy ===== *)
theory Pv_Properties
  imports Pv_Samples
begin

text \<open>
  The properties of package \<open>pv\<close>: the fact registry under every sequence of updates, what one
  accepted update stores and reports, and the pure functions it is built from.
\<close>

section \<open>Specifications\<close>

text \<open>
  Counter continuity over the values of the two readings: the state and the increase since
  the previous reading, or \<open>None\<close> for a rejected reading.
\<close>

definition counter_spec :: "rat \<Rightarrow> rat \<Rightarrow> counter_evidence \<Rightarrow> (string \<times> rat option) option" where
  "counter_spec p c e =
     (if evidence_empty e then
        (if p \<le> c then Some (ContinuityContiguous, Some (c - p))
         else Some (ContinuityDiscontinuity, None))
      else if ev_kind e = CounterEventReset \<and> ev_modulus e = None \<and> \<not> ev_boundary_verified e \<and>
              digest_pattern (ev_evidence_ref e)
      then Some (ContinuityReset, None)
      else case ev_modulus e of
        None \<Rightarrow> None
      | Some m \<Rightarrow>
          if ev_kind e = CounterEventRollover \<and> valid_decimal m \<and> 0 < dec_value m \<and>
             c < p \<and> p < dec_value m \<and> ev_boundary_verified e \<and> digest_pattern (ev_evidence_ref e)
          then Some (ContinuityRollover, Some (dec_value m - p + c)) else None)"

definition continuity_value :: "continuity \<times> pv_error option \<Rightarrow> (string \<times> rat option) option" where
  "continuity_value r = (case snd r of
     Some _ \<Rightarrow> None | None \<Rightarrow> Some (cont_state (fst r), map_option dec_value (cont_delta (fst r))))"

text \<open>The outcome a snapshot must carry for its facts.\<close>

definition snapshot_ok :: "snapshot \<Rightarrow> bool" where
  "snapshot_ok sn \<longleftrightarrow>
     gm_ok (sn_facts sn) \<and> gm_ok (sn_origins sn) \<and>
     (\<forall>k f. gm_get (sn_facts sn) k = Some f \<longrightarrow> fact_ok k f \<and> aged_at (sn_evaluated sn) f) \<and>
     (\<forall>r pr. gm_get (sn_origins sn) r = Some pr \<longrightarrow> prov_observation_ref pr = r) \<and>
     gm_keys (sn_origins sn) = insert (prov_observation_ref (sn_source sn))
       (fact_origin_ref ` {f. \<exists>k. gm_get (sn_facts sn) k = Some f}) \<and>
     sorted_wrt requested_less (sn_requested sn) \<and> sorted_wrt report_less (sn_report sn) \<and>
     map requested_key (sn_requested sn) = map report_key (sn_report sn) \<and>
     distinct (mapped_keys (sn_report sn)) \<and>
     set (mapped_keys (sn_report sn)) \<subseteq> gm_keys (sn_facts sn) \<and>
     (\<forall>p \<in> set (sn_report sn). projection_shape p) \<and>
     cap_id (sn_capability sn) = CapabilityThreePhaseTelemetryV1 \<and>
     (cap_outcome (sn_capability sn) = CapabilitySatisfied \<longleftrightarrow>
        (\<forall>k \<in> set three_phase_required_keys. k \<in> gm_keys (sn_facts sn)))"

text \<open>
  What is stored of a reading, by the values themselves: \<open>reading_stored\<close> compares the fact under the
  reading's key with the reading, its exact age and the reading held before.
\<close>

definition same_reading :: "fact_value \<Rightarrow> fact_value \<Rightarrow> bool" where
  "same_reading stored given \<longleftrightarrow>
     fv_kind stored = fv_kind given \<and> fv_decimal stored = fv_decimal given \<and> fv_symbol stored = fv_symbol given \<and>
     mset (fv_symbols stored) = mset (fv_symbols given) \<and> sorted (fv_symbols stored)"

text \<open>State and increase of a counter against the held reading, its evidence kept with a reset or rollover.\<close>

definition expected_continuity :: "update \<Rightarrow> asset_state \<Rightarrow> fact_input \<Rightarrow> (string \<times> rat option) option" where
  "expected_continuity u st i =
     (let e = fi_counter i in
      case gm_get (as_facts st) (input_key i) of
        None \<Rightarrow> if evidence_empty e then Some (ContinuityBaseline, None) else None
      | Some prior \<Rightarrow>
          let origin = (if fact_origin_ref prior = prov_observation_ref (upd_source u) then Some (upd_source u)
                        else gm_get (as_origins st) (fact_origin_ref prior))
          in if sint (upd_evaluated u) < sint (t_retain_until (fact_temporal prior)) \<and>
                map_option prov_identity origin = Some (prov_identity (upd_source u)) \<and>
                map_option prov_registry_ref origin = Some (prov_registry_ref (upd_source u))
             then (case (fv_decimal (fact_value prior), fv_decimal (cand_value (fi_candidate i))) of
                     (Some p, Some n) \<Rightarrow> counter_spec (dec_value p) (dec_value n) e
                   | _ \<Rightarrow> None)
             else Some (ContinuityDiscontinuity, None))"

definition continuity_stored :: "update \<Rightarrow> asset_state \<Rightarrow> fact_input \<Rightarrow> continuity \<Rightarrow> bool" where
  "continuity_stored u st i r \<longleftrightarrow>
     expected_continuity u st i = Some (cont_state r, map_option dec_value (cont_delta r)) \<and>
     cont_modulus r = (if cont_state r = ContinuityRollover then ev_modulus (fi_counter i) else None) \<and>
     cont_evidence_ref r =
       (if cont_state r \<in> {ContinuityRollover, ContinuityReset} then ev_evidence_ref (fi_counter i) else [])"

definition reading_stored :: "update \<Rightarrow> asset_state \<Rightarrow> (fact_key, fact) gomap \<Rightarrow> fact_input \<Rightarrow> bool" where
  "reading_stored u st facts i \<longleftrightarrow>
     (let c = fi_candidate i; receipt = sint (fi_receipt i); age = sint (upd_evaluated u) - receipt in
      case (gm_get facts (input_key i), gm_get (cat_facts catalog_v1) (cand_id c)) of
        (Some f, Some def) \<Rightarrow>
          (case policy_by_id (fd_policy def) of
             None \<Rightarrow> False
           | Some p \<Rightarrow>
               fact_id f = cand_id c \<and> fact_dimensions f = cand_dimensions c \<and> same_reading (fact_value f) (cand_value c) \<and>
               fact_unit f = cand_unit c \<and> fact_quality f = fi_quality i \<and>
               fact_origin_ref f = prov_observation_ref (upd_source u) \<and>
               0 \<le> age \<and> (fact_availability f, fact_freshness f) = age_class p age \<and>
               t_receipt (fact_temporal f) = fi_receipt i \<and> t_policy (fact_temporal f) = fd_policy def \<and>
               sint (t_fresh_until (fact_temporal f)) = receipt + sint (pol_fresh_for p) \<and>
               sint (t_retain_until (fact_temporal f)) = receipt + sint (pol_retain_for p) \<and>
               (if fd_accumulator def
                then (case fact_continuity f of None \<Rightarrow> False | Some r \<Rightarrow> continuity_stored u st i r)
                else fact_continuity f = None \<and> evidence_empty (fi_counter i)))
      | _ \<Rightarrow> False)"

section \<open>Lemmas\<close>

lemma continuity_value_simps [simp]:
  "continuity_value (r, Some e) = None"
  "continuity_value (r, None) = Some (cont_state r, map_option dec_value (cont_delta r))"
  by (simp_all add: continuity_value_def)

lemma digest_validate_None [simp]: "digest_validate s = None \<longleftrightarrow> digest_pattern s"
  by (simp add: digest_validate_def)

lemma evaluate_counter_spec:
  assumes v: "valid_decimal p" "valid_decimal c"
  shows "\<exists>r. evaluate_counter (Some p) c e = Some r \<and>
     continuity_value r = counter_spec (dec_value p) (dec_value c) e"
  using v
proof (cases rule: evaluate_counter_cases [where e = e])
  case (reset)
  then have "\<not> evidence_empty e" by (simp add: evidence_empty_def)
  then show ?thesis using reset by (simp add: counter_spec_def)
next
  case (rollover d m)
  then have "\<not> evidence_empty e" by (simp add: evidence_empty_def)
  then show ?thesis using rollover by (auto simp: counter_spec_def rollover_ok_def)
next
  case reject
  then have "counter_spec (dec_value p) (dec_value c) e = None"
    by (auto simp: counter_spec_def rollover_ok_def split: option.split)
  then show ?thesis using reject by (simp add: counter_reject_def)
qed (simp_all add: counter_spec_def)

subsection \<open>Snapshots\<close>

definition key_less :: "projection_key \<Rightarrow> projection_key \<Rightarrow> bool" where
  "key_less a b = (if fst a = fst b then snd a < snd b else fst a < fst b)"

lemma less_keys:
  "requested_less a b = key_less (requested_key a) (requested_key b)"
  "report_less p q = key_less (report_key p) (report_key q)"
  by (simp_all add: requested_less_def report_less_def key_less_def requested_key_def report_key_def)

lemma key_less_total: "a \<noteq> b \<Longrightarrow> \<not> key_less b a \<Longrightarrow> key_less a b"
  by (cases a, cases b) (auto simp: key_less_def split: if_splits)

lemma key_less_asym: "key_less a b \<Longrightarrow> key_less b a \<Longrightarrow> a = b"
  by (auto simp: key_less_def split: if_splits)

lemma sorted_wrt_strict:
  "sorted_wrt (\<lambda>a b. \<not> lt b a) xs \<Longrightarrow> distinct (map key xs) \<Longrightarrow>
     (\<And>a b. lt a b = key_less (key a) (key b)) \<Longrightarrow> sorted_wrt lt xs"
proof (induction xs)
  case (Cons x xs)
  have "lt x y" if "y \<in> set xs" for y
  proof -
    have "key x \<noteq> key y" using Cons.prems(2) that by auto
    moreover have "\<not> key_less (key y) (key x)" using Cons.prems(1,3) that by simp
    ultimately show ?thesis using Cons.prems(3) key_less_total by blast
  qed
  then show ?case using Cons by simp
qed simp

lemma sort_by_keys:
  assumes order: "strict_weak_order lt" and key: "\<And>a b. lt a b = key_less (key a) (key b)"
    and m: "keyed_map key m"
  shows "sorted_wrt lt (sort_by lt (map snd m))"
    and "sorted_wrt key_less (map key (sort_by lt (map snd m)))"
    and "mset (map key (sort_by lt (map snd m))) = mset_set (gm_keys m)"
proof -
  let ?xs = "sort_by lt (map snd m)"
  have "mset (map key ?xs) = mset (map key (map snd m))" by (metis mset_map mset_sort_by)
  then have ks: "mset (map key ?xs) = mset (map fst m)" by (simp only: keyed_map_values [OF m])
  have dm: "distinct (map fst m)" using m by (simp add: keyed_map_def gm_ok_def)
  then have d: "distinct (map key ?xs)" using ks by (metis mset_eq_imp_distinct_iff)
  show "mset (map key ?xs) = mset_set (gm_keys m)"
    unfolding ks gm_keys_def using dm by (metis list.set_map mset_set_set)
  have "sorted_wrt (\<lambda>a b. \<not> lt b a) ?xs" using order by (rule strict_weak_order.sorted_sort_by)
  then show s: "sorted_wrt lt ?xs"
    using d key by (rule sorted_wrt_strict)
  then show "sorted_wrt key_less (map key ?xs)" unfolding sorted_wrt_map key .
qed

lemma rq_order: "strict_weak_order requested_less" and rp_order: "strict_weak_order report_less"
  by (rule rq.strict_weak_order_axioms rp.strict_weak_order_axioms)+

lemma mapped_keys_values:
  "mset (mapped_keys (sorted_projections m)) = mset (mapped_keys (map snd m))"
  by (simp add: mapped_keys_def sorted_projections_def mset_map mset_filter)

lemma mapped_keys_distinct:
  assumes "accounting_ok st"
  shows "distinct (mapped_keys (sorted_projections (as_projections st)))"
proof -
  let ?m = "as_projections st"
  have "keyed_map report_key ?m" using assms by (simp add: accounting_ok_def)
  then have "distinct (map report_key (map snd ?m))"
    by (metis gm_ok_def keyed_map_def keyed_map_values)
  then have "distinct (map snd ?m)" using distinct_map [of report_key "map snd ?m"] by blast
  then have "distinct (mapped_keys (map snd ?m))"
    using assms by (auto simp: mapped_keys_def distinct_map accounting_ok_def intro!: inj_onI distinct_filter)
  then show ?thesis using mapped_keys_values by (metis mset_eq_imp_distinct_iff)
qed

lemma three_phase_aged:
  assumes "facts_ok m" and "\<forall>f \<in> snd ` set m. aged_at t f"
  shows "three_phase_telemetry_satisfied m \<longleftrightarrow> (\<forall>k \<in> set three_phase_required_keys. k \<in> gm_keys m)"
proof -
  have av: "fact_availability f \<in> {AvailabilityAvailable, AvailabilityUnavailable}"
    if f: "gm_get m k = Some f" for k f
  proof -
    obtain p where "policy_by_id (t_policy (fact_temporal f)) = Some p"
      using facts_ok_get [OF assms(1) f] by (rule fact_ok_policy)
    moreover have "aged_at t f" using assms(2) gm_values_get [OF f] by blast
    then have "aged_fact t f = f" by (simp add: aged_at_def)
    moreover have "fact_availability (aged_fact t f) = fst (age_class p (sint t - sint (receipt_of f)))"
      by (simp add: aged_fact_def calculation(1))
    ultimately have "fact_availability f = fst (age_class p (sint t - sint (receipt_of f)))" by simp
    then show ?thesis by (auto simp: age_class_def)
  qed
  then have "(case gm_get m k of None \<Rightarrow> False
      | Some f \<Rightarrow> fact_availability f = AvailabilityAvailable \<or>
                  fact_availability f = AvailabilityUnavailable) \<longleftrightarrow> k \<in> gm_keys m" for k
    using av [of k] by (auto simp: gm_keys_iff split: option.split)
  then show ?thesis by (simp add: three_phase_telemetry_satisfied_def list_all_iff)
qed

text \<open>The snapshot of a working state is well formed.\<close>

lemma working_snapshot_ok:
  assumes w: "working reg t src st"
    and o': "gm_keys (as_origins st) \<subseteq>
      insert (prov_observation_ref src) (fact_origin_ref ` snd ` set (as_facts st))"
  shows "snapshot_ok (snapshot_locked ref st t)"
proof -
  let ?sn = "snapshot_locked ref st t"
  have f: "facts_ok (as_facts st)" "\<forall>f \<in> snd ` set (as_facts st). aged_at t f"
    and src: "as_source st = src" and acc: "accounting_ok st"
    and ori: "keyed_map prov_observation_ref (as_origins st)"
    using w by (simp_all add: working_def origins_ok_def)
  have vals: "snd ` set (as_facts st) = {f. \<exists>k. gm_get (as_facts st) k = Some f}"
    using gm_values_iff [OF facts_ok_gm [OF f(1)]] by blast
  have keys: "gm_keys (as_origins st) =
      insert (prov_observation_ref src) (fact_origin_ref ` snd ` set (as_facts st))"
  proof (rule equalityI [OF o'])
    have "prov_observation_ref src \<in> gm_keys (as_origins st)"
      using w by (simp add: working_def gm_keys_iff)
    moreover have "\<forall>f \<in> snd ` set (as_facts st). fact_origin_ref f \<in> gm_keys (as_origins st)"
      using w by (simp add: working_def)
    ultimately show "insert (prov_observation_ref src) (fact_origin_ref ` snd ` set (as_facts st)) \<subseteq>
        gm_keys (as_origins st)" by blast
  qed
  have km: "keyed_map requested_key (as_requested st)" "keyed_map report_key (as_projections st)"
    "gm_keys (as_requested st) = gm_keys (as_projections st)"
    using acc by (simp_all add: accounting_ok_def)
  note rq' = sort_by_keys [OF rq_order less_keys(1) km(1), folded sorted_requested_def]
    and rp' = sort_by_keys [OF rp_order less_keys(2) km(2), folded sorted_projections_def]
  have same: "map requested_key (sorted_requested (as_requested st)) =
      map report_key (sorted_projections (as_projections st))"
    by (rule sorted_wrt_perm_unique [where r = key_less])
       (use rq' rp' km(3) key_less_asym in \<open>simp_all\<close>)
  have sub: "set (mapped_keys (sorted_projections (as_projections st))) \<subseteq> gm_keys (as_facts st)"
    and shape: "\<forall>p \<in> set (sorted_projections (as_projections st)). projection_shape p"
    using acc by (auto simp: mapped_keys_def sorted_projections_def accounting_ok_def)
  have get: "fact_ok k x \<and> aged_at t x" if x: "gm_get (as_facts st) k = Some x" for k x
    using facts_ok_get [OF f(1) x] bspec [OF f(2) gm_values_get [OF x]] ..
  have sn: "sn_facts ?sn = as_facts st" "sn_origins ?sn = as_origins st" "sn_source ?sn = src"
    "sn_evaluated ?sn = t" "sn_requested ?sn = sorted_requested (as_requested st)"
    "sn_report ?sn = sorted_projections (as_projections st)"
    "cap_id (sn_capability ?sn) = CapabilityThreePhaseTelemetryV1"
    "cap_outcome (sn_capability ?sn) = CapabilitySatisfied \<longleftrightarrow>
       (\<forall>k \<in> set three_phase_required_keys. k \<in> gm_keys (as_facts st))"
    using f(1) three_phase_aged [OF f]
    by (simp_all add: snapshot_locked_def Let_def clone_facts_ok src capability_outcome_def)
  have "gm_ok (as_facts st)" "gm_ok (as_origins st)" using f(1) ori by (simp_all add: keyed_map_def)
  moreover have "\<forall>r pr. gm_get (as_origins st) r = Some pr \<longrightarrow> prov_observation_ref pr = r"
    using ori by (simp add: keyed_map_def)
  ultimately show ?thesis
    unfolding snapshot_ok_def sn using keys same sub shape rq'(1) rp'(1) mapped_keys_distinct [OF acc] get
    by (intro conjI) (simp_all only: vals, blast+)
qed

lemma aged_state_working:
  assumes "asset_ok reg st" and "\<forall>f \<in> snd ` set (as_facts st). sint (receipt_of f) \<le> sint t"
  shows "working reg t (as_source st) (aged_state t st)"
proof -
  have "accounting_ok (aged_state t st)"
    using assms(1) asset_ok_resting by (simp add: aged_state_def resting_def accounting_ok_def)
  moreover obtain t0 where "working reg t0 (as_source st) st"
    using assms(1) by (auto simp: asset_ok_def)
  ultimately show ?thesis
    using assms(2) unfolding working_def by (simp add: aged_state_def gm_values_map aged_at_aged)
qed

lemma registry_snapshot_ok:
  assumes ok: "registry_ok reg" and run: "registry_snapshot (Some reg) ref t = Inr sn"
  obtains st where "gm_get (reg_assets reg) ref = Some st" and "asset_ok reg st"
    and "\<forall>f \<in> snd ` set (as_facts st). sint (receipt_of f) \<le> sint t" and "0 \<le> sint t"
    and "sn = snapshot_locked ref (aged_state t st) t" and "snapshot_ok sn"
proof -
  obtain st where st: "gm_get (reg_assets reg) ref = Some st"
    "\<forall>f \<in> snd ` set (as_facts st). sint (receipt_of f) \<le> sint t" "0 \<le> sint t"
    "sn = snapshot_locked ref (aged_state t st) t"
    using run by (auto simp: registry_snapshot_eq [OF ok] split: if_splits option.splits)
  have a: "asset_ok reg st" using ok st(1) by (simp add: registry_ok_def)
  then have "gm_keys (as_origins (aged_state t st)) \<subseteq> insert (prov_observation_ref (as_source st))
      (fact_origin_ref ` snd ` set (as_facts (aged_state t st)))"
    by (simp add: asset_ok_def aged_state_def gm_values_map image_image)
  then have "snapshot_ok sn"
    unfolding st(4) using aged_state_working [OF a st(2)] by (intro working_snapshot_ok)
  then show thesis using that st a by blast
qed

text \<open>What a successful update changes.\<close>

lemma apply_effect:
  assumes ok: "registry_ok reg"
    and run: "registry_apply (Some reg) u = (Some reg', Return sn)"
  obtains st st' where "st = asset_copy reg (upd_asset_ref u)"
    and "admit_update reg u = None" and "apply_locked reg u st = Return st'"
    and "reg' = reg\<lparr>reg_assets := gm_put (upd_asset_ref u) st' (reg_assets reg)\<rparr>"
    and "sn = snapshot_locked (upd_asset_ref u) st' (upd_evaluated u)"
    and "working reg (upd_evaluated u) (upd_source u) st'" and "asset_ok reg st'"
    and "registry_ok reg'" and "resting reg st"
proof (cases rule: registry_apply_cases [OF ok, of u])
  case (2 st')
  note success = 2
  then show thesis
    using that run registry_apply_success_ok [OF ok success(1,2)] registry_apply_keeps_ok [OF ok run]
      asset_copy_resting [OF ok]
    by auto
qed (use run in simp)

lemma snapshot_after_apply:
  assumes ok: "registry_ok reg" and run: "registry_apply (Some reg) u = (Some reg', Return sn)"
  shows "registry_snapshot (Some reg') (upd_asset_ref u) (upd_evaluated u) = Inr sn"
proof -
  obtain st' where adm: "admit_update reg u = None"
    and reg': "reg' = reg\<lparr>reg_assets := gm_put (upd_asset_ref u) st' (reg_assets reg)\<rparr>"
    and sn: "sn = snapshot_locked (upd_asset_ref u) st' (upd_evaluated u)"
    and w: "working reg (upd_evaluated u) (upd_source u) st'" and ok': "registry_ok reg'"
    using ok run by (rule apply_effect)
  have "\<forall>f \<in> snd ` set (as_facts st'). aged_at (upd_evaluated u) f"
    using w by (simp add: working_def)
  then have "aged_state (upd_evaluated u) st' = st'"
    "\<forall>f \<in> snd ` set (as_facts st'). sint (receipt_of f) \<le> sint (upd_evaluated u)"
    by (auto simp: aged_state_def aged_at_def intro!: asset_state.equality gm_map_id) force
  then show ?thesis
    using admit_update_None(5) [OF adm] unfolding registry_snapshot_eq [OF ok'] sn
    by (simp add: reg')
qed

lemma apply_content:
  assumes ok: "registry_ok reg" and run: "registry_apply (Some reg) u = (Some reg', Return sn)"
  shows "(\<forall>i \<in> set (upd_facts u).
      input_stored u (sourced u (asset_copy reg (upd_asset_ref u))) (sn_facts sn) i) \<and>
    (\<forall>k. k \<notin> set (input_keys u) \<longrightarrow> gm_get (sn_facts sn) k =
      map_option (aged_fact (upd_evaluated u)) (gm_get (as_facts (asset_copy reg (upd_asset_ref u))) k))"
proof -
  let ?st = "asset_copy reg (upd_asset_ref u)"
  obtain st' where adm: "admit_update reg u = None" and loc: "apply_locked reg u ?st = Return st'"
    and sn: "sn = snapshot_locked (upd_asset_ref u) st' (upd_evaluated u)"
    and w: "working reg (upd_evaluated u) (upd_source u) st'" and rest: "resting reg ?st"
    using ok assms(2) by (rule apply_effect) auto
  have cat: "reg_catalog reg = catalog_v1" using ok by (simp add: registry_ok_def)
  obtain st2 seen where in2: "apply_inputs reg u (upd_facts u) (sourced u ?st, {}) = Return (st2, seen)"
    and st': "st' = (prune_origins (merge_accounting st2 u))\<lparr>as_generation := as_generation ?st + 1\<rparr>"
    using cat rest adm loc by (rule apply_locked_Return) blast
  have facts: "sn_facts sn = as_facts st2"
    using w by (simp add: sn snapshot_locked_def Let_def working_def clone_facts_ok) (simp add: st')
  note c = apply_inputs_Return [OF cat in2]
  have "\<forall>i \<in> set (upd_facts u). input_stored u (sourced u ?st) (sn_facts sn) i"
    using c by (simp add: facts)
  moreover have "\<forall>k. k \<notin> set (input_keys u) \<longrightarrow> gm_get (sn_facts sn) k =
      map_option (aged_fact (upd_evaluated u)) (gm_get (as_facts ?st) k)"
    using c by (simp add: facts input_keys_def) (simp add: sourced_def)
  ultimately show ?thesis ..
qed

text \<open>What a counter evaluation that succeeds returns, for a first reading and for a later one.\<close>

lemma evaluate_counter_result:
  assumes "valid_decimal n" and "case q of None \<Rightarrow> True | Some p \<Rightarrow> valid_decimal p"
    and "evaluate_counter q n e = Some (r, None)"
  shows "(case q of None \<Rightarrow> evidence_empty e \<and> (cont_state r, map_option dec_value (cont_delta r)) = (ContinuityBaseline, None)
       | Some p \<Rightarrow> counter_spec (dec_value p) (dec_value n) e = Some (cont_state r, map_option dec_value (cont_delta r)))"
    and "cont_modulus r = (if cont_state r = ContinuityRollover then ev_modulus e else None)"
    and "cont_evidence_ref r = (if cont_state r \<in> {ContinuityRollover, ContinuityReset} then ev_evidence_ref e else [])"
proof -
  show "(case q of None \<Rightarrow> evidence_empty e \<and> (cont_state r, map_option dec_value (cont_delta r)) = (ContinuityBaseline, None)
       | Some p \<Rightarrow> counter_spec (dec_value p) (dec_value n) e = Some (cont_state r, map_option dec_value (cont_delta r)))"
  proof (cases q)
    case None
    then show ?thesis
      using assms by (auto simp: evaluate_counter_first counter_reject_def continuity_of_def split: if_splits)
  next
    case (Some p)
    then have "continuity_value (r, None) = counter_spec (dec_value p) (dec_value n) e"
      using evaluate_counter_spec [of p n e] assms by auto
    then show ?thesis by (simp add: Some)
  qed
  have "cont_modulus r = (if cont_state r = ContinuityRollover then ev_modulus e else None) \<and>
      cont_evidence_ref r = (if cont_state r \<in> {ContinuityRollover, ContinuityReset} then ev_evidence_ref e else [])"
  proof (cases q)
    case None
    then show ?thesis
      using assms by (auto simp: evaluate_counter_first counter_reject_def continuity_of_def split: if_splits)
  next
    case (Some p)
    then have "valid_decimal p" using assms(2) by simp
    then show ?thesis
      using assms(3) unfolding Some
      by (cases rule: evaluate_counter_cases [OF _ assms(1), where e = e]) (auto simp: counter_reject_def continuity_of_def)
  qed
  then show "cont_modulus r = (if cont_state r = ContinuityRollover then ev_modulus e else None)"
    "cont_evidence_ref r = (if cont_state r \<in> {ContinuityRollover, ContinuityReset} then ev_evidence_ref e else [])"
    by blast+
qed

lemma accumulator_decimal:
  assumes "gm_get (cat_facts catalog_v1) (cand_id c) = Some def" and "fd_accumulator def"
    and "validate_candidate catalog_v1 c = None"
  obtains d where "fv_decimal (cand_value c) = Some d" and "valid_decimal d"
proof -
  obtain def' where "gm_get (cat_facts catalog_v1) (cand_id c) = Some def'"
    "fd_kind def' = ValueKindDecimal \<Longrightarrow> \<exists>d. fv_decimal (cand_value c) = Some d \<and> decimal_validate d = None"
    using assms(3) by (rule validate_candidate_None) blast
  then show thesis using that assms(1,2) catalog_v1_facts(4) [OF assms(1)] by auto
qed

lemma aged_available:
  assumes "fact_ok k f"
  shows "fact_availability (aged_fact t f) = AvailabilityAvailable \<longleftrightarrow> sint t < sint (t_retain_until (fact_temporal f))"
proof -
  obtain p where p: "receipt_ok p (receipt_of f)" "policy_by_id (t_policy (fact_temporal f)) = Some p"
    "fact_temporal f = temporal_of p (receipt_of f)"
  proof -
    obtain def :: fact_definition and p where "policy_by_id (fd_policy def) = Some p" "receipt_ok p (receipt_of f)"
      "fact_temporal f = temporal_of p (receipt_of f)"
      using assms by (auto simp: fact_ok_def)
    moreover from this have "t_policy (fact_temporal f) = fd_policy def"
      using policies_v1_ok by (metis temporal.select_convs(4) temporal_of_def)
    ultimately show thesis using that by metis
  qed
  have "sint (t_retain_until (fact_temporal f)) = sint (receipt_of f) + sint (pol_retain_for p)"
    using arg_cong [OF p(3), of "\<lambda>t. sint (t_retain_until t)"] temporal_of_exact(2) [OF p(1)] by (rule trans)
  then show ?thesis by (auto simp: aged_fact_def p(2) age_class_def)
qed

lemma continuity_read:
  assumes rest: "resting reg st"
    and def: "gm_get (cat_facts catalog_v1) (cand_id (fi_candidate i)) = Some def" "fd_accumulator def"
      "validate_candidate catalog_v1 (fi_candidate i) = None"
    and run: "counter_continuity (sourced u st) (upd_source u) (input_key i) i = Return r"
  shows "continuity_stored u st i r"
proof -
  obtain n where n: "fv_decimal (cand_value (fi_candidate i)) = Some n" "valid_decimal n"
    using def by (rule accumulator_decimal)
  have get: "gm_get (as_facts (sourced u st)) (input_key i) = map_option (aged_fact (upd_evaluated u)) (gm_get (as_facts st) (input_key i))"
    by (simp add: sourced_def)
  show ?thesis
  proof (cases "gm_get (as_facts st) (input_key i)")
    case None
    then have "evaluate_counter None n (fi_counter i) = Some (r, None)"
      using run n get by (auto simp: counter_continuity_def Let_def split: prod.splits)
    from evaluate_counter_result [OF n(2) _ this] show ?thesis
      by (simp add: continuity_stored_def expected_continuity_def None)
  next
    case (Some prior)
    have ok: "fact_ok (input_key i) prior" using rest Some by (auto simp: resting_def facts_ok_get)
    have key: "input_key i = candidate_key (fact_candidate_of prior)" "validate_candidate catalog_v1 (fact_candidate_of prior) = None"
      using ok by (simp_all add: fact_ok_def)
    then have "cand_id (fact_candidate_of prior) = cand_id (fi_candidate i)"
      using fk.key_inj [OF validate_candidate_admitted [OF key(2)] validate_candidate_admitted [OF def(3)]]
      by (simp add: candidate_key_def)
    then obtain p where p: "fv_decimal (fact_value prior) = Some p" "valid_decimal p"
      using accumulator_decimal [of "fact_candidate_of prior" def thesis] def(1,2) key(2) by (auto simp: fact_candidate_of_def)
    define origin where "origin = (if fact_origin_ref prior = prov_observation_ref (upd_source u) then Some (upd_source u)
        else gm_get (as_origins st) (fact_origin_ref prior))"
    have "fact_origin_ref prior \<in> gm_keys (as_origins st)"
      using rest gm_values_get [OF Some] unfolding resting_def by blast
    then obtain o' where o': "origin = Some o'" "gm_get (as_origins (sourced u st)) (fact_origin_ref prior) = Some o'"
      by (cases "fact_origin_ref prior = prov_observation_ref (upd_source u)") (auto simp: origin_def sourced_def gm_keys_iff)
    let ?compared = "sint (upd_evaluated u) < sint (t_retain_until (fact_temporal prior)) \<and> same_source_identity o' (upd_source u)"
    have expected: "expected_continuity u st i =
        (if ?compared then counter_spec (dec_value p) (dec_value n) (fi_counter i) else Some (ContinuityDiscontinuity, None))"
      by (simp add: expected_continuity_def Let_def Some origin_def [symmetric] o'(1) p(1) n(1) same_source_identity_def)
    show ?thesis
    proof (cases ?compared)
      case True
      then have "evaluate_counter (Some p) n (fi_counter i) = Some (r, None)"
        using run n get o'(2) aged_available [OF ok, of "upd_evaluated u"]
        by (auto simp: counter_continuity_def Let_def Some p(1) split: prod.splits)
      from evaluate_counter_result [OF n(2) _ this] show ?thesis
        using True by (simp add: continuity_stored_def expected p(2))
    next
      case False
      then have "r = continuity_of ContinuityDiscontinuity"
        using run get o'(2) aged_available [OF ok, of "upd_evaluated u"]
        by (auto simp: counter_continuity_def Let_def Some)
      then show ?thesis using False by (auto simp: continuity_stored_def expected continuity_of_def)
    qed
  qed
qed

lemma input_reading_stored:
  assumes "resting reg st" and "input_stored u (sourced u st) facts i"
  shows "reading_stored u st facts i"
proof -
  obtain def c f where d: "gm_get (cat_facts catalog_v1) (cand_id (fi_candidate i)) = Some def"
    "validate_candidate catalog_v1 (fi_candidate i) = None"
    "accepted_fact (upd_evaluated u) (upd_source u) i def c f" "gm_get facts (input_key i) = Some f"
    and c: "if fd_accumulator def
       then \<exists>r. c = Some r \<and> counter_continuity (sourced u st) (upd_source u) (input_key i) i = Return r
       else c = None \<and> evidence_empty (fi_counter i)"
    using assms(2) by (auto simp: input_stored_def)
  obtain p where p: "policy_by_id (fd_policy def) = Some p" "receipt_ok p (fi_receipt i)" "sint (fi_receipt i) \<le> sint (upd_evaluated u)"
    and f: "f = new_fact (upd_source u) i
        \<lparr>ts_availability = fst (age_class p (sint (upd_evaluated u) - sint (fi_receipt i))),
         ts_freshness = snd (age_class p (sint (upd_evaluated u) - sint (fi_receipt i))),
         ts_temporal = temporal_of p (fi_receipt i)\<rparr> c"
    using d(3) by (auto simp: accepted_fact_def)
  have "same_reading (clone_fact_value v) v" for v
    by (simp add: same_reading_def clone_fact_value_def)
  moreover have "pol_id p = fd_policy def" using policies_v1_ok [OF p(1)] by simp
  moreover have "if fd_accumulator def then (case c of None \<Rightarrow> False | Some r \<Rightarrow> continuity_stored u st i r)
      else c = None \<and> evidence_empty (fi_counter i)"
    using c continuity_read [OF assms(1) d(1) _ d(2)] by (auto split: if_splits)
  ultimately show ?thesis
    using p temporal_of_exact [OF p(2)]
    by (simp add: reading_stored_def d(1,4) Let_def) (simp add: f new_fact_def Let_def temporal_of_def)
qed

text \<open>What a contiguous reading was compared with.\<close>

lemma counter_continuity_contiguous:
  assumes "counter_continuity st src k i = Return c" and "cont_state c = ContinuityContiguous"
  obtains prior p n d where "gm_get (as_facts st) k = Some prior"
    and "fact_availability prior = AvailabilityAvailable"
    and "same_source_identity (case gm_get (as_origins st) (fact_origin_ref prior) of
           None \<Rightarrow> zero_provenance | Some o' \<Rightarrow> o') src"
    and "fv_decimal (fact_value prior) = Some p" and "fv_decimal (cand_value (fi_candidate i)) = Some n"
    and "cont_delta c = Some d" and "dec_value d = dec_value n - dec_value p" and "0 \<le> dec_value d"
proof -
  let ?q = "case gm_get (as_facts st) k of None \<Rightarrow> None | Some f \<Rightarrow> fv_decimal (fact_value f)"
  obtain n where n: "fv_decimal (cand_value (fi_candidate i)) = Some n"
    and e: "evaluate_counter ?q n (fi_counter i) = Some (c, None)"
    and g: "case gm_get (as_facts st) k of
               None \<Rightarrow> True
             | Some f \<Rightarrow> fact_availability f = AvailabilityAvailable \<and>
                 same_source_identity (case gm_get (as_origins st) (fact_origin_ref f) of
                   None \<Rightarrow> zero_provenance | Some o' \<Rightarrow> o') src"
    using assms by (auto simp: counter_continuity_def Let_def split: if_splits)
  have vn: "valid_decimal n" using e by (auto simp: evaluate_counter_def counter_reject_def split: if_splits)
  obtain p where p: "?q = Some p"
    using e assms(2) vn by (cases ?q) (auto simp: evaluate_counter_first counter_reject_def split: if_splits)
  have vp: "valid_decimal p"
    using e by (auto simp: p evaluate_counter_def counter_reject_def split: if_splits)
  obtain prior where prior: "gm_get (as_facts st) k = Some prior" "fv_decimal (fact_value prior) = Some p"
    using p by (auto split: option.splits)
  obtain d where "cont_delta c = Some d" "dec_value d = dec_value n - dec_value p" "0 \<le> dec_value d"
    using e assms(2) unfolding p
    by (cases rule: evaluate_counter_cases [OF vp vn, where e = "fi_counter i"])
       (auto simp: counter_reject_def)
  then show thesis using that prior n g by simp
qed

lemma contiguous_delta:
  assumes ok: "registry_ok reg"
    and run: "registry_apply (Some reg) u = (Some reg', Return sn)"
    and i: "i \<in> set (upd_facts u)" and f: "gm_get (sn_facts sn) (input_key i) = Some f"
    and c: "fact_continuity f = Some c" "cont_state c = ContinuityContiguous"
  shows "\<exists>prior p n d pr.
     gm_get (as_facts (asset_copy reg (upd_asset_ref u))) (input_key i) = Some prior \<and>
     fact_availability (aged_fact (upd_evaluated u) prior) = AvailabilityAvailable \<and>
     gm_get (as_origins (sourced u (asset_copy reg (upd_asset_ref u)))) (fact_origin_ref prior) = Some pr \<and>
     same_source_identity pr (upd_source u) \<and>
     fv_decimal (fact_value prior) = Some p \<and> fv_decimal (fact_value f) = Some n \<and>
     cont_delta c = Some d \<and> dec_value d = dec_value n - dec_value p \<and> 0 \<le> dec_value d"
proof -
  let ?st = "asset_copy reg (upd_asset_ref u)"
  let ?S = "sourced u ?st"
  have rest: "resting reg ?st" using ok by (rule asset_copy_resting)
  have "input_stored u ?S (sn_facts sn) i" using apply_content [OF ok run] i by blast
  then obtain def c' where acc: "accepted_fact (upd_evaluated u) (upd_source u) i def c' f"
    and cc: "if fd_accumulator def
         then \<exists>r. c' = Some r \<and> counter_continuity ?S (upd_source u) (input_key i) i = Return r
         else c' = None \<and> evidence_empty (fi_counter i)"
    using f by (auto simp: input_stored_def)
  have "fact_continuity f = c'" and val: "fact_value f = clone_fact_value (cand_value (fi_candidate i))"
    using acc by (auto simp: accepted_fact_def new_fact_def Let_def)
  then have "counter_continuity ?S (upd_source u) (input_key i) i = Return c"
    using cc c(1) by (auto split: if_splits)
  then obtain aged p n d where a: "gm_get (as_facts ?S) (input_key i) = Some aged"
    "fact_availability aged = AvailabilityAvailable"
    and same: "same_source_identity (case gm_get (as_origins ?S) (fact_origin_ref aged) of
           None \<Rightarrow> zero_provenance | Some o' \<Rightarrow> o') (upd_source u)"
    and d: "fv_decimal (fact_value aged) = Some p" "fv_decimal (cand_value (fi_candidate i)) = Some n"
    "cont_delta c = Some d" "dec_value d = dec_value n - dec_value p" "0 \<le> dec_value d"
    using c(2) by (rule counter_continuity_contiguous)
  from a(1) obtain prior where prior: "gm_get (as_facts ?st) (input_key i) = Some prior"
    and aged: "aged = aged_fact (upd_evaluated u) prior" by (auto simp: sourced_def)
  have "\<forall>f \<in> snd ` set (as_facts ?st). fact_origin_ref f \<in> gm_keys (as_origins ?st)"
    using rest by (simp add: resting_def)
  from bspec [OF this gm_values_get [OF prior]]
  have "fact_origin_ref prior \<in> gm_keys (as_origins ?S)" by (simp add: sourced_def)
  then obtain pr where "gm_get (as_origins ?S) (fact_origin_ref prior) = Some pr"
    by (auto simp: gm_keys_iff)
  then show ?thesis
    using prior aged a(2) same d val by (auto simp: clone_fact_value_def)
qed

lemma age_fact_mono:
  assumes "fact_ok k f" and "sint (receipt_of f) \<le> sint t" and "sint t \<le> sint t'"
  shows "freshness_rank (fact_freshness (aged_fact t f)) \<le> freshness_rank (fact_freshness (aged_fact t' f))"
    and "fact_availability (aged_fact t f) = AvailabilityUnavailable \<Longrightarrow>
         fact_availability (aged_fact t' f) = AvailabilityUnavailable"
proof -
  obtain p where p: "receipt_ok p (receipt_of f)" "policy_by_id (t_policy (fact_temporal f)) = Some p"
    using assms(1) by (rule fact_ok_policy)
  have a: "fact_freshness (aged_fact u f) = snd (age_class p (sint u - sint (receipt_of f)))"
    "fact_availability (aged_fact u f) = fst (age_class p (sint u - sint (receipt_of f)))" for u
    by (simp_all add: aged_fact_def p(2))
  have le: "sint t - sint (receipt_of f) \<le> sint t' - sint (receipt_of f)"
    "sint (pol_fresh_for p) < sint (pol_retain_for p)"
    using assms(3) p(1) by (simp_all add: receipt_ok_def)
  show "freshness_rank (fact_freshness (aged_fact t f)) \<le> freshness_rank (fact_freshness (aged_fact t' f))"
    unfolding a using age_class_mono(1) [OF le] .
  show "fact_availability (aged_fact t f) = AvailabilityUnavailable \<Longrightarrow>
      fact_availability (aged_fact t' f) = AvailabilityUnavailable"
    unfolding a using age_class_mono(2) [OF le] .
qed

lemma snapshot_aged_sel:
  assumes "asset_ok reg st" and "\<forall>f \<in> snd ` set (as_facts st). sint (receipt_of f) \<le> sint t"
  shows "sn_facts (snapshot_locked ref (aged_state t st) t) = gm_map (\<lambda>_. aged_fact t) (as_facts st)"
    and "sn_generation (snapshot_locked ref (aged_state t st) t) = as_generation st"
    and "sn_report (snapshot_locked ref (aged_state t st) t) = sorted_projections (as_projections st)"
    and "sn_capability (snapshot_locked ref (aged_state t st) t) =
      \<lparr>cap_id = CapabilityThreePhaseTelemetryV1, cap_outcome = capability_outcome
         (\<forall>k \<in> set three_phase_required_keys. k \<in> gm_keys (as_facts st))\<rparr>"
proof -
  have f: "facts_ok (as_facts (aged_state t st))" "\<forall>f \<in> snd ` set (as_facts (aged_state t st)). aged_at t f"
    using aged_state_working [OF assms] by (simp_all add: working_def)
  have "three_phase_telemetry_satisfied (as_facts (aged_state t st)) \<longleftrightarrow>
      (\<forall>k \<in> set three_phase_required_keys. k \<in> gm_keys (as_facts st))"
    using three_phase_aged [OF f] by (simp add: aged_state_def)
  then show "sn_capability (snapshot_locked ref (aged_state t st) t) =
      \<lparr>cap_id = CapabilityThreePhaseTelemetryV1, cap_outcome = capability_outcome
         (\<forall>k \<in> set three_phase_required_keys. k \<in> gm_keys (as_facts st))\<rparr>"
    using f(1) by (simp add: snapshot_locked_def Let_def clone_facts_ok)
qed (use aged_state_working [OF assms] in
     \<open>simp_all add: snapshot_locked_def Let_def working_def clone_facts_ok\<close>, simp_all add: aged_state_def)

lemma snapshot_ages:
  assumes ok: "registry_ok reg" and run: "registry_snapshot (Some reg) ref t = Inr sn"
    and le: "sint t \<le> sint t'"
  shows "\<exists>sn'. registry_snapshot (Some reg) ref t' = Inr sn' \<and>
     gm_keys (sn_facts sn') = gm_keys (sn_facts sn) \<and> sn_generation sn' = sn_generation sn \<and>
     sn_report sn' = sn_report sn \<and> sn_capability sn' = sn_capability sn \<and>
     (\<forall>k f. gm_get (sn_facts sn) k = Some f \<longrightarrow>
        (\<exists>f'. gm_get (sn_facts sn') k = Some f' \<and> fact_value f' = fact_value f \<and>
           fact_origin_ref f' = fact_origin_ref f \<and> fact_temporal f' = fact_temporal f \<and>
           freshness_rank (fact_freshness f) \<le> freshness_rank (fact_freshness f') \<and>
           (fact_availability f = AvailabilityUnavailable \<longrightarrow>
              fact_availability f' = AvailabilityUnavailable)))"
proof -
  obtain st where st: "gm_get (reg_assets reg) ref = Some st" and a: "asset_ok reg st"
    and r: "\<forall>f \<in> snd ` set (as_facts st). sint (receipt_of f) \<le> sint t" and t: "0 \<le> sint t"
    and sn: "sn = snapshot_locked ref (aged_state t st) t"
    using ok run by (rule registry_snapshot_ok)
  have r': "\<forall>f \<in> snd ` set (as_facts st). sint (receipt_of f) \<le> sint t'"
    using r le by (meson order_trans)
  let ?sn' = "snapshot_locked ref (aged_state t' st) t'"
  have e: "registry_snapshot (Some reg) ref t' = Inr ?sn'"
    using st r' t le by (simp add: registry_snapshot_eq [OF ok] del: image_iff)
  have "facts_ok (as_facts st)" using asset_ok_resting [OF a] by (simp add: resting_def)
  then have mono: "freshness_rank (fact_freshness (aged_fact t f)) \<le> freshness_rank (fact_freshness (aged_fact t' f)) \<and>
      (fact_availability (aged_fact t f) = AvailabilityUnavailable \<longrightarrow>
       fact_availability (aged_fact t' f) = AvailabilityUnavailable)"
    if "gm_get (as_facts st) k = Some f" for k f
    using age_fact_mono [OF facts_ok_get [OF _ that] bspec [OF r gm_values_get [OF that]] le] by blast
  note sel = snapshot_aged_sel [OF a r] snapshot_aged_sel [OF a r']
  show ?thesis unfolding sn
  proof (intro exI [of _ ?sn'] conjI allI impI)
    fix k f
    assume "gm_get (sn_facts (snapshot_locked ref (aged_state t st) t)) k = Some f"
    then obtain g where g: "gm_get (as_facts st) k = Some g" "f = aged_fact t g"
      by (auto simp: sel)
    show "\<exists>f'. gm_get (sn_facts ?sn') k = Some f' \<and> fact_value f' = fact_value f \<and>
           fact_origin_ref f' = fact_origin_ref f \<and> fact_temporal f' = fact_temporal f \<and>
           freshness_rank (fact_freshness f) \<le> freshness_rank (fact_freshness f') \<and>
           (fact_availability f = AvailabilityUnavailable \<longrightarrow>
              fact_availability f' = AvailabilityUnavailable)"
      using mono [OF g(1)] g by (intro exI [of _ "aged_fact t' g"]) (simp add: sel)
  qed (simp_all add: e sel)
qed

text \<open>The loop over retained facts, in any order.\<close>

lemma evaluate_retained_set:
  "(\<exists>r. evaluate_retained_facts t m = Inr r) \<longleftrightarrow> (\<forall>(k, f) \<in> set m. \<exists>f'. age_fact t f = Inr f')"
  "evaluate_retained_facts t m = Inr r \<Longrightarrow>
     mset r = image_mset (\<lambda>(k, f). (k, case age_fact t f of Inr f' \<Rightarrow> f' | Inl _ \<Rightarrow> f)) (mset m)"
  by (induction t m arbitrary: r rule: evaluate_retained_facts.induct)
     (auto split: sum.splits)

lemma evaluation_order:
  assumes "mset m' = mset m"
  shows "(case evaluate_retained_facts t m of
      Inl e \<Rightarrow> \<exists>e'. evaluate_retained_facts t m' = Inl e'
    | Inr r \<Rightarrow> \<exists>r'. evaluate_retained_facts t m' = Inr r' \<and> mset r' = mset r)"
proof -
  have "set m' = set m" using assms by (metis set_mset_mset)
  then have iff: "(\<exists>r. evaluate_retained_facts t m' = Inr r) \<longleftrightarrow> (\<exists>r. evaluate_retained_facts t m = Inr r)"
    by (simp only: evaluate_retained_set(1))
  show ?thesis
  proof (cases "evaluate_retained_facts t m")
    case (Inl e)
    then show ?thesis using iff by (cases "evaluate_retained_facts t m'") simp_all
  next
    case (Inr r)
    then obtain r' where r': "evaluate_retained_facts t m' = Inr r'" using iff by blast
    have "mset r' = mset r"
      unfolding evaluate_retained_set(2) [OF r'] evaluate_retained_set(2) [OF Inr] assms ..
    then show ?thesis using Inr r' by simp
  qed
qed

section \<open>Properties\<close>

text \<open>
  (C1) Every snapshot of every reachable registry is well formed: facts are catalog facts under
  their own keys, aged to the snapshot's time, with the bounds of their policy; origins are
  keyed by observation and are exactly the referenced ones; requested outputs and report list
  the same keys in strictly increasing order; no fact is mapped twice and every mapped fact
  exists; the capability outcome is that of the required keys.
\<close>

theorem pv_snapshot_well_formed:
  assumes "pv_reachable resolver reg" and "registry_snapshot (Some reg) ref t = Inr sn"
  shows "snapshot_ok sn \<and> sn_evaluated sn = t \<and> sn_asset_ref sn = ref"
proof -
  obtain st where "sn = snapshot_locked ref (aged_state t st) t" "snapshot_ok sn"
    using pv.reach_inv [OF assms(1)] assms(2) by (rule registry_snapshot_ok)
  then show ?thesis by (simp add: snapshot_locked_def Let_def)
qed

theorem pv_snapshot_well_formed_witness:
  "snapshot_ok (snapshot_locked ''pv-asset-roof'' sample_state1 15)"
  using pv_snapshot_well_formed [OF sample_reachable1 sample_snapshot1] by simp

text \<open>
  (C2) No sequence of updates makes \<open>Apply\<close> panic, whatever the next update holds: the
  dereference of a counter's decimal and the parsing of stored coefficients are always defined.
\<close>

theorem pv_apply_never_panics:
  assumes "pv_reachable resolver reg"
  shows "snd (registry_apply (Some reg) u) \<noteq> Panic"
  by (cases rule: registry_apply_cases [OF pv.reach_inv [OF assms], of u]) simp_all

theorem pv_apply_never_panics_witness:
  "snd (registry_apply (Some (sample_registry sample_state1)) sample_update2) \<noteq> Panic"
  by (rule pv_apply_never_panics [OF sample_reachable1])

text \<open>
  (C3) \<open>Apply\<close> is atomic: on an error the registry is unchanged; on success the generation of
  the asset goes up by one, no other asset changes, and the returned snapshot is what
  \<open>Snapshot\<close> returns for the asset at the same time.
\<close>

theorem pv_apply_atomic:
  assumes "pv_reachable resolver reg" and "registry_apply (Some reg) u = (Some reg', r)"
  shows "(case r of
      Panic \<Rightarrow> False
    | Fail e \<Rightarrow> reg' = reg
    | Return sn \<Rightarrow>
        sn_generation sn = as_generation (asset_copy reg (upd_asset_ref u)) + 1 \<and>
        registry_snapshot (Some reg') (upd_asset_ref u) (upd_evaluated u) = Inr sn \<and>
        (\<forall>ref. ref \<noteq> upd_asset_ref u \<longrightarrow>
           gm_get (reg_assets reg') ref = gm_get (reg_assets reg) ref))"
proof -
  have ok: "registry_ok reg" using assms(1) by (rule pv.reach_inv)
  show ?thesis
  proof (cases r)
    case (Return sn)
    note run = assms(2) [unfolded Return]
    obtain st' where adm: "admit_update reg u = None"
      and loc: "apply_locked reg u (asset_copy reg (upd_asset_ref u)) = Return st'"
      and reg': "reg' = reg\<lparr>reg_assets := gm_put (upd_asset_ref u) st' (reg_assets reg)\<rparr>"
      and sn: "sn = snapshot_locked (upd_asset_ref u) st' (upd_evaluated u)"
      and rest: "resting reg (asset_copy reg (upd_asset_ref u))"
      using ok run by (rule apply_effect) auto
    have "as_generation st' = as_generation (asset_copy reg (upd_asset_ref u)) + 1"
      using ok apply_locked_Return [OF _ rest adm loc] by (force simp: registry_ok_def)
    then show ?thesis
      using snapshot_after_apply [OF ok run] by (simp add: Return sn reg' snapshot_locked_def Let_def)
  qed (use assms(2) registry_apply_cases [OF ok, of u] in \<open>auto elim!: registry_apply_cases [OF ok, of u]\<close>)
qed

theorem pv_apply_atomic_witness:
  "registry_snapshot (Some (sample_registry sample_state2)) ''pv-asset-roof'' 25 =
     Inr (snapshot_locked ''pv-asset-roof'' sample_state2 25)"
  using pv_apply_atomic [OF sample_reachable1 sample_apply2] by simp

text \<open>
  (C4) What a successful update stores: under every input's key the reading itself, with its unit, quality,
  receipt and origin, the class of its exact age, the ends of its freshness and retention, and for an
  accumulator the continuity against the reading held before: a baseline when there was none, a
  discontinuity when that one had expired or came from another source, else what the two values and the
  evidence say. Every other fact is the old one aged to the update's time.
\<close>

theorem pv_apply_content:
  assumes "pv_reachable resolver reg" and "registry_apply (Some reg) u = (Some reg', Return sn)"
  shows "(\<forall>i \<in> set (upd_facts u). reading_stored u (asset_copy reg (upd_asset_ref u)) (sn_facts sn) i) \<and>
    (\<forall>k. k \<notin> set (input_keys u) \<longrightarrow> gm_get (sn_facts sn) k =
      map_option (aged_fact (upd_evaluated u)) (gm_get (as_facts (asset_copy reg (upd_asset_ref u))) k))"
proof -
  have ok: "registry_ok reg" using assms(1) by (rule pv.reach_inv)
  show ?thesis
    using apply_content [OF ok assms(2)] input_reading_stored [OF asset_copy_resting [OF ok]] by blast
qed

theorem pv_apply_content_witness:
  "reading_stored sample_update2 sample_state1 (as_facts sample_state2) (sample_input ''1250'' 20)"
proof -
  have "sn_facts (snapshot_locked ''pv-asset-roof'' sample_state2 25) = as_facts sample_state2"
    by code_simp
  then show ?thesis
    using pv_apply_content [OF sample_reachable1 sample_apply2] by (simp add: sample_copy1)
qed

text \<open>
  (C5) A contiguous energy increase is what the two readings say: if an accepted update stores a
  fact whose continuity is CONTIGUOUS with increase \<open>d\<close>, the asset held a reading of the same
  fact that had not expired at the update's time and came from the same source identity, and
  \<open>d\<close> is exactly the new value minus the held one, never negative.
\<close>

theorem pv_contiguous_delta:
  assumes reach: "pv_reachable resolver reg"
    and run: "registry_apply (Some reg) u = (Some reg', Return sn)"
    and i: "i \<in> set (upd_facts u)" and f: "gm_get (sn_facts sn) (input_key i) = Some f"
    and c: "fact_continuity f = Some c" "cont_state c = ContinuityContiguous"
  shows "\<exists>prior p n d pr.
     gm_get (as_facts (asset_copy reg (upd_asset_ref u))) (input_key i) = Some prior \<and>
     fact_availability (aged_fact (upd_evaluated u) prior) = AvailabilityAvailable \<and>
     gm_get (as_origins (sourced u (asset_copy reg (upd_asset_ref u)))) (fact_origin_ref prior) = Some pr \<and>
     same_source_identity pr (upd_source u) \<and>
     fv_decimal (fact_value prior) = Some p \<and> fv_decimal (fact_value f) = Some n \<and>
     cont_delta c = Some d \<and> dec_value d = dec_value n - dec_value p \<and> 0 \<le> dec_value d"
proof -
  have "registry_ok reg" using reach by (rule pv.reach_inv)
  then show ?thesis using run i f c by (rule contiguous_delta)
qed

theorem pv_contiguous_delta_witness:
  "\<exists>prior p n d pr.
     gm_get (as_facts sample_state1) (input_key (sample_input ''1250'' 20)) = Some prior \<and>
     fact_availability (aged_fact 25 prior) = AvailabilityAvailable \<and>
     gm_get (as_origins (sourced sample_update2 sample_state1)) (fact_origin_ref prior) = Some pr \<and>
     same_source_identity pr (upd_source sample_update2) \<and>
     fv_decimal (fact_value prior) = Some p \<and>
     fv_decimal (fact_value (sample_fact (CHR ''c'') ''1250'' 20 sample_contiguous)) = Some n \<and>
     cont_delta sample_contiguous = Some d \<and> dec_value d = dec_value n - dec_value p \<and> 0 \<le> dec_value d"
proof -
  have "gm_get (sn_facts (snapshot_locked ''pv-asset-roof'' sample_state2 25))
      (input_key (sample_input ''1250'' 20)) = Some (sample_fact (CHR ''c'') ''1250'' 20 sample_contiguous)"
    by code_simp
  then show ?thesis
    using pv_contiguous_delta [OF sample_reachable1 sample_apply2, of "sample_input ''1250'' 20"
        "sample_fact (CHR ''c'') ''1250'' 20 sample_contiguous" sample_contiguous]
    by (simp add: sample_copy1 sample_fact_def)
qed

text \<open>
  (C6) Update accounting: among the updates within the size limits whose inputs name distinct
  facts, \<open>validateUpdateAccounting\<close> accepts exactly those whose report answers every requested
  output once, from the update's own observation, with a well-formed outcome, and whose mapped
  outputs are the input facts, each exactly once.
\<close>

theorem pv_accounting_exact:
  assumes "validate_update_accounting_limits u = None" and "\<not> duplicate_fact_inputs (upd_facts u)"
  shows "validate_update_accounting u = None \<longleftrightarrow> report_accounts u"
  using assms by (simp add: validate_update_accounting_iff duplicate_fact_inputs_iff)

theorem pv_accounting_exact_witness: "report_accounts sample_update1"
proof -
  have "validate_update_accounting_limits sample_update1 = None"
    "\<not> duplicate_fact_inputs (upd_facts sample_update1)"
    "validate_update_accounting sample_update1 = None" by code_simp+
  then show ?thesis using pv_accounting_exact [of sample_update1] by simp
qed

text \<open>
  Reading later only ages: a later snapshot of an unchanged registry succeeds, holds the same
  facts with the same values, origins and time bounds, no fact gets fresher, and a fact once
  unavailable stays unavailable.
\<close>

theorem pv_snapshot_ages:
  assumes "pv_reachable resolver reg" and "registry_snapshot (Some reg) ref t = Inr sn"
    and "sint t \<le> sint t'"
  shows "\<exists>sn'. registry_snapshot (Some reg) ref t' = Inr sn' \<and>
     gm_keys (sn_facts sn') = gm_keys (sn_facts sn) \<and> sn_generation sn' = sn_generation sn \<and>
     sn_report sn' = sn_report sn \<and> sn_capability sn' = sn_capability sn \<and>
     (\<forall>k f. gm_get (sn_facts sn) k = Some f \<longrightarrow>
        (\<exists>f'. gm_get (sn_facts sn') k = Some f' \<and> fact_value f' = fact_value f \<and>
           fact_origin_ref f' = fact_origin_ref f \<and> fact_temporal f' = fact_temporal f \<and>
           freshness_rank (fact_freshness f) \<le> freshness_rank (fact_freshness f') \<and>
           (fact_availability f = AvailabilityUnavailable \<longrightarrow>
              fact_availability f' = AvailabilityUnavailable)))"
  using pv.reach_inv [OF assms(1)] assms(2,3) by (rule snapshot_ages)

theorem pv_snapshot_ages_witness:
  "\<exists>sn'. registry_snapshot (Some (sample_registry sample_state1)) ''pv-asset-roof'' 900000000010 = Inr sn' \<and>
     gm_keys (sn_facts sn') = gm_keys (sn_facts (snapshot_locked ''pv-asset-roof'' sample_state1 15))"
proof -
  have "sint (15 :: monotonic_nanos) \<le> sint (900000000010 :: monotonic_nanos)" by simp
  then show ?thesis using pv_snapshot_ages [OF sample_reachable1 sample_snapshot1] by blast
qed

text \<open>
  Go leaves the iteration order of \<open>evaluateRetainedFacts\<close> open; it does not matter:
  whatever the order, the evaluation of the same facts succeeds or fails alike, with the same
  facts afterwards.
\<close>

theorem pv_evaluation_order:
  assumes "mset m' = mset m"
  shows "(case evaluate_retained_facts t m of
      Inl e \<Rightarrow> \<exists>e'. evaluate_retained_facts t m' = Inl e'
    | Inr r \<Rightarrow> \<exists>r'. evaluate_retained_facts t m' = Inr r' \<and> mset r' = mset r)"
  using assms by (rule evaluation_order)

theorem pv_evaluation_order_witness:
  "evaluate_retained_facts 15 (rev (as_facts sample_state1)) = Inr (as_facts sample_state1)"
proof -
  have "evaluate_retained_facts 15 (as_facts sample_state1) = Inr (as_facts sample_state1)" by code_simp
  then show ?thesis
    using pv_evaluation_order [of "rev (as_facts sample_state1)" "as_facts sample_state1" 15]
    by (auto simp: sample_state_def)
qed

text \<open>
  (C7) \<open>EvaluateCounter\<close> refines the specification over exact values: for valid readings it
  returns without panic, and the state and the increase, or the rejection, are those of
  \<open>counter_spec\<close>.
\<close>

theorem pv_counter_refines_spec:
  assumes "valid_decimal p" and "valid_decimal c"
  shows "\<exists>r. evaluate_counter (Some p) c e = Some r \<and>
     continuity_value r = counter_spec (dec_value p) (dec_value c) e"
  using assms by (rule evaluate_counter_spec)

theorem pv_counter_refines_spec_witness:
  "\<exists>r. evaluate_counter (Some \<lparr>dec_coefficient = ''15'', dec_scale = -1\<rparr>) \<lparr>dec_coefficient = ''2'', dec_scale = 0\<rparr>
     \<lparr>ev_kind = [], ev_modulus = None, ev_boundary_verified = False, ev_evidence_ref = []\<rparr> = Some r \<and>
     continuity_value r = counter_spec (dec_value \<lparr>dec_coefficient = ''15'', dec_scale = -1\<rparr>)
       (dec_value \<lparr>dec_coefficient = ''2'', dec_scale = 0\<rparr>)
       \<lparr>ev_kind = [], ev_modulus = None, ev_boundary_verified = False, ev_evidence_ref = []\<rparr>"
  by (rule pv_counter_refines_spec) (code_simp, code_simp)

text \<open>
  (C8) \<open>EvaluateTemporal\<close> on 64-bit nanoseconds agrees with exact integers: it succeeds exactly
  when the receipt is not negative, not after the evaluation, the policy is ordered and the
  retention end does not exceed the largest 64-bit integer; then no addition wraps and the class
  is that of the exact age.
\<close>

theorem pv_temporal_exact:
  "(case evaluate_temporal p receipt evaluated of
      Inl e \<Rightarrow> e = ErrInvalidMonotonicTime \<and> \<not> (receipt_ok p receipt \<and> sint receipt \<le> sint evaluated)
    | Inr s \<Rightarrow> receipt_ok p receipt \<and> sint receipt \<le> sint evaluated \<and>
        (ts_availability s, ts_freshness s) = age_class p (sint evaluated - sint receipt) \<and>
        sint (t_fresh_until (ts_temporal s)) = sint receipt + sint (pol_fresh_for p) \<and>
        sint (t_retain_until (ts_temporal s)) = sint receipt + sint (pol_retain_for p))"
  using temporal_of_exact [of p receipt] by (simp add: evaluate_temporal_exact)

text \<open>
  Decimal arithmetic of valid decimals is exact: difference and sum are valid decimals with
  the difference and sum of the values, and the comparison is the sign of the difference.
\<close>

theorem pv_decimal_arithmetic_exact:
  assumes "valid_decimal a" and "valid_decimal b"
  shows "(\<exists>d. subtract_decimal a b = Some d \<and> valid_decimal d \<and> dec_value d = dec_value a - dec_value b) \<and>
    (\<exists>d. add_decimal a b = Some d \<and> valid_decimal d \<and> dec_value d = dec_value a + dec_value b) \<and>
    (\<exists>c. compare_decimal a b = Some c \<and> of_int c = sgn (dec_value a - dec_value b))"
  using assms decimal_exact by simp

theorem pv_decimal_arithmetic_exact_witness:
  "\<exists>d. add_decimal \<lparr>dec_coefficient = ''-7'', dec_scale = 2\<rparr> \<lparr>dec_coefficient = ''125'', dec_scale = -3\<rparr> = Some d \<and>
     valid_decimal d"
proof -
  have "valid_decimal \<lparr>dec_coefficient = ''-7'', dec_scale = 2\<rparr>"
    "valid_decimal \<lparr>dec_coefficient = ''125'', dec_scale = -3\<rparr>" by code_simp+
  from pv_decimal_arithmetic_exact [OF this] show ?thesis by blast
qed

text \<open>
  Fact keys identify facts: two candidates the catalog admits have the same key only when
  they have the same fact id and the same dimensions.
\<close>

theorem pv_fact_key_injective:
  assumes "validate_candidate catalog_v1 a = None" and "validate_candidate catalog_v1 b = None"
    and "candidate_key a = candidate_key b"
  shows "cand_id a = cand_id b \<and> cand_dimensions a = cand_dimensions b"
  using fk.key_inj [OF validate_candidate_admitted [OF assms(1)] validate_candidate_admitted [OF assms(2)]]
    assms(3) by (simp add: candidate_key_def)

theorem pv_fact_key_injective_witness:
  "cand_dimensions (fi_candidate (sample_input ''1000'' 10)) =
     cand_dimensions (fi_candidate (sample_input ''1250'' 20))"
proof -
  have "validate_candidate catalog_v1 (fi_candidate (sample_input ''1000'' 10)) = None"
    "validate_candidate catalog_v1 (fi_candidate (sample_input ''1250'' 20)) = None"
    "candidate_key (fi_candidate (sample_input ''1000'' 10)) =
     candidate_key (fi_candidate (sample_input ''1250'' 20))" by code_simp+
  from pv_fact_key_injective [OF this] show ?thesis by simp
qed

end
