(* ===== verification/Schema_Codec.thy ===== *)
theory Schema_Codec
  imports Go_Prelude
begin

text \<open>
  Payload schemas (\<open>schema/schema.go\<close>, \<open>schema/selector.go\<close>, the conversions of
  \<open>schema/loader_json.go\<close>) and the version matcher of \<open>internal/match\<close>. A field's data
  type comes from another module, so it is a record of its three methods; sizes are Go
  \<open>int\<close>s, 64-bit words read through \<open>sint\<close>, and offsets wrap as the code's do.
\<close>

section \<open>Schemas\<close>

record ('v, 'a, 'e) data_type =
  dt_size :: int64
  dt_decode :: "byte list \<Rightarrow> 'e + 'v"
  dt_encode :: "'a \<Rightarrow> 'e + byte list"

record ('v, 'a, 'e) schema_field =
  sf_name :: string
  sf_type :: "('v, 'a, 'e) data_type option"

record ('v, 'a, 'e) schema =
  sch_fields :: "('v, 'a, 'e) schema_field list"

datatype 'e schema_error =
    MissingType string
  | InvalidSize string
  | ShortPayload string
  | DecodeFailed string 'e
  | MissingValues
  | MissingValue string
  | EncodeFailed string 'e
  | SizeMismatch string
  | MissingName
  | MissingTypeName string
  | UnknownType string
  | MissingBitfieldSize

text \<open>\<open>payload[low:high]\<close>: a panic unless \<open>0 \<le> low \<le> high \<le> len\<close> (callers pass no spare capacity).\<close>

definition go_slice :: "'b list \<Rightarrow> int64 \<Rightarrow> int64 \<Rightarrow> 'b list option" where
  "go_slice xs low high =
     (if 0 \<le> sint low \<and> sint low \<le> sint high \<and> sint high \<le> int (length xs)
      then Some (take (nat (sint high - sint low)) (drop (nat (sint low)) xs)) else None)"

fun decode_fields ::
  "('v, 'a, 'e) schema_field list \<Rightarrow> byte list \<Rightarrow> int64 \<Rightarrow> (string, 'v) gomap \<Rightarrow>
     ('e schema_error, (string, 'v) gomap) outcome" where
  "decode_fields [] payload offset values = Return values"
| "decode_fields (field # rest) payload offset values =
     (case sf_type field of
        None \<Rightarrow> Fail (MissingType (sf_name field))
      | Some t \<Rightarrow>
          if sint (dt_size t) \<le> 0 then Fail (InvalidSize (sf_name field))
          else if sint (offset + dt_size t) > int (length payload)
          then Fail (ShortPayload (sf_name field))
          else outcome_bind (of_panic (go_slice payload offset (offset + dt_size t))) (\<lambda>part.
            case dt_decode t part of
              Inl e \<Rightarrow> Fail (DecodeFailed (sf_name field) e)
            | Inr v \<Rightarrow> decode_fields rest payload (offset + dt_size t)
                         (gm_put (sf_name field) v values)))"

definition schema_decode ::
  "('v, 'a, 'e) schema \<Rightarrow> byte list \<Rightarrow> ('e schema_error, (string, 'v) gomap) outcome" where
  "schema_decode s payload = decode_fields (sch_fields s) payload 0 []"

definition field_size :: "('v, 'a, 'e) schema_field \<Rightarrow> int64" where
  "field_size field = (case sf_type field of
     None \<Rightarrow> 0 | Some t \<Rightarrow> if sint (dt_size t) > 0 then dt_size t else 0)"

definition schema_size :: "('v, 'a, 'e) schema \<Rightarrow> int64" where
  "schema_size s = foldl (\<lambda>total field. total + field_size field) 0 (sch_fields s)"

fun encode_fields ::
  "('v, 'a, 'e) schema_field list \<Rightarrow> (string, 'a) gomap \<Rightarrow> byte list \<Rightarrow> 'e schema_error + byte list" where
  "encode_fields [] values payload = Inr payload"
| "encode_fields (field # rest) values payload =
     (case sf_type field of
        None \<Rightarrow> Inl (MissingType (sf_name field))
      | Some t \<Rightarrow>
          (case gm_get values (sf_name field) of
             None \<Rightarrow> Inl (MissingValue (sf_name field))
           | Some a \<Rightarrow>
               (case dt_encode t a of
                  Inl e \<Rightarrow> Inl (EncodeFailed (sf_name field) e)
                | Inr encoded \<Rightarrow>
                    if sint (dt_size t) > 0 \<and> int (length encoded) \<noteq> sint (dt_size t)
                    then Inl (SizeMismatch (sf_name field))
                    else encode_fields rest values (payload @ encoded))))"

text \<open>A nil map of values is \<open>None\<close>; a schema without fields encodes to the nil payload.\<close>

definition schema_encode ::
  "('v, 'a, 'e) schema \<Rightarrow> (string, 'a) gomap option \<Rightarrow> 'e schema_error + byte list" where
  "schema_encode s values =
     (if length (sch_fields s) = 0 then Inr []
      else case values of None \<Rightarrow> Inl MissingValues | Some m \<Rightarrow> encode_fields (sch_fields s) m [])"

section \<open>Selectors\<close>

record ('v, 'a, 'e) schema_condition =
  sc_target :: byte
  sc_has_target :: bool
  sc_min_hw :: uint16
  sc_has_min_hw :: bool
  sc_max_hw :: uint16
  sc_has_max_hw :: bool
  sc_schema :: "('v, 'a, 'e) schema"

record ('v, 'a, 'e) schema_selector =
  sel_default :: "('v, 'a, 'e) schema"
  sel_conditions :: "('v, 'a, 'e) schema_condition list"

text \<open>The loop of \<open>parseHWVersion\<close> over a 32-bit accumulator.\<close>

fun parse_hw_digits :: "uint32 \<Rightarrow> bool \<Rightarrow> string \<Rightarrow> uint16 option" where
  "parse_hw_digits number found [] = (if \<not> found then None else Some (ucast number))"
| "parse_hw_digits number found (ch # rest) =
     (if \<not> is_digit ch then parse_hw_digits number found rest
      else let number' = number * 10 + of_nat (digit_val ch)
           in if number' > 0xFFFF then None else parse_hw_digits number' True rest)"

definition parse_hw_version :: "string \<Rightarrow> uint16 option" where
  "parse_hw_version value = parse_hw_digits 0 False value"

fun select_condition ::
  "byte \<Rightarrow> uint16 option \<Rightarrow> ('v, 'a, 'e) schema_condition list \<Rightarrow> ('v, 'a, 'e) schema option" where
  "select_condition target hw [] = None"
| "select_condition target hw (c # cs) =
     (if sc_has_target c \<and> sc_target c \<noteq> target then select_condition target hw cs
      else if (sc_has_min_hw c \<or> sc_has_max_hw c) \<and> hw = None then select_condition target hw cs
      else if sc_has_min_hw c \<and> (case hw of Some v \<Rightarrow> v | None \<Rightarrow> 0) < sc_min_hw c
      then select_condition target hw cs
      else if sc_has_max_hw c \<and> (case hw of Some v \<Rightarrow> v | None \<Rightarrow> 0) > sc_max_hw c
      then select_condition target hw cs
      else Some (sc_schema c))"

definition selector_select ::
  "('v, 'a, 'e) schema_selector \<Rightarrow> byte \<Rightarrow> string \<Rightarrow> ('v, 'a, 'e) schema" where
  "selector_select sel target hw_version =
     (case select_condition target (parse_hw_version hw_version) (sel_conditions sel) of
        Some s \<Rightarrow> s | None \<Rightarrow> sel_default sel)"

text \<open>Package \<open>internal/match\<close> has its own copy of the digit parser.\<close>

fun parse_version_loop :: "uint32 \<Rightarrow> bool \<Rightarrow> string \<Rightarrow> uint16 option" where
  "parse_version_loop number found [] = (if \<not> found then None else Some (ucast number))"
| "parse_version_loop number found (character # rest) =
     (if \<not> is_digit character then parse_version_loop number found rest
      else let number' = number * 10 + of_nat (digit_val character)
           in if number' > 0xFFFF then None else parse_version_loop number' True rest)"

definition parse_version_digits :: "string \<Rightarrow> uint16 option" where
  "parse_version_digits value = parse_version_loop 0 False value"

definition hardware_version_at_least :: "string \<Rightarrow> uint16 \<Rightarrow> bool" where
  "hardware_version_at_least version minimum =
     (case parse_version_digits version of None \<Rightarrow> False | Some value \<Rightarrow> value \<ge> minimum)"

section \<open>Schemas from JSON values\<close>

text \<open>The values \<open>encoding/json\<close> fills in; a nil pointer is \<open>None\<close>.\<close>

record json_field =
  jf_name :: string
  jf_type :: string
  jf_size :: int64

record json_schema =
  js_fields :: "json_field list"

record json_condition =
  jc_target :: "byte option"
  jc_min_hw :: "uint16 option"
  jc_max_hw :: "uint16 option"
  jc_schema :: json_schema

record json_selector =
  jsel_default :: json_schema
  jsel_conditions :: "json_condition list"

text \<open>The data types of the types module: one per name, and the bit field of a size.\<close>

record ('v, 'a, 'e) builtin_types =
  bt_DATA1b :: "('v, 'a, 'e) data_type"
  bt_DATA2c :: "('v, 'a, 'e) data_type"
  bt_DATA2b :: "('v, 'a, 'e) data_type"
  bt_EXP :: "('v, 'a, 'e) data_type"
  bt_WORD :: "('v, 'a, 'e) data_type"
  bt_BCD :: "('v, 'a, 'e) data_type"
  bt_BITFIELD :: "int64 \<Rightarrow> ('v, 'a, 'e) data_type"

definition data_type_by_name ::
  "('v, 'a, 'e) builtin_types \<Rightarrow> string \<Rightarrow> int64 \<Rightarrow> 'e schema_error + ('v, 'a, 'e) data_type" where
  "data_type_by_name b name sz =
     (let upper = to_upper (trim_space name) in
      if upper = ''DATA1B'' then Inr (bt_DATA1b b)
      else if upper = ''DATA2C'' then Inr (bt_DATA2c b)
      else if upper = ''DATA2B'' then Inr (bt_DATA2b b)
      else if upper = ''EXP'' then Inr (bt_EXP b)
      else if upper = ''WORD'' then Inr (bt_WORD b)
      else if upper = ''BCD'' then Inr (bt_BCD b)
      else if upper = ''BITFIELD'' then
        (if sint sz \<le> 0 then Inl MissingBitfieldSize else Inr (bt_BITFIELD b sz))
      else Inl (UnknownType name))"

fun decode_json_fields ::
  "('v, 'a, 'e) builtin_types \<Rightarrow> json_field list \<Rightarrow> 'e schema_error + ('v, 'a, 'e) schema_field list" where
  "decode_json_fields b [] = Inr []"
| "decode_json_fields b (f # fs) =
     (if jf_name f = [] then Inl MissingName
      else if jf_type f = [] then Inl (MissingTypeName (jf_name f))
      else case data_type_by_name b (jf_type f) (jf_size f) of
        Inl e \<Rightarrow> Inl e
      | Inr t \<Rightarrow>
          (case decode_json_fields b fs of
             Inl e \<Rightarrow> Inl e
           | Inr rest \<Rightarrow> Inr (\<lparr>sf_name = jf_name f, sf_type = Some t\<rparr> # rest)))"

definition decode_json_schema ::
  "('v, 'a, 'e) builtin_types \<Rightarrow> json_schema \<Rightarrow> 'e schema_error + ('v, 'a, 'e) schema" where
  "decode_json_schema b raw =
     (case decode_json_fields b (js_fields raw) of
        Inl e \<Rightarrow> Inl e | Inr fs \<Rightarrow> Inr \<lparr>sch_fields = fs\<rparr>)"

definition condition_of_json ::
  "json_condition \<Rightarrow> ('v, 'a, 'e) schema \<Rightarrow> ('v, 'a, 'e) schema_condition" where
  "condition_of_json c s =
     \<lparr>sc_target = (case jc_target c of Some x \<Rightarrow> x | None \<Rightarrow> 0), sc_has_target = (jc_target c \<noteq> None),
      sc_min_hw = (case jc_min_hw c of Some x \<Rightarrow> x | None \<Rightarrow> 0), sc_has_min_hw = (jc_min_hw c \<noteq> None),
      sc_max_hw = (case jc_max_hw c of Some x \<Rightarrow> x | None \<Rightarrow> 0), sc_has_max_hw = (jc_max_hw c \<noteq> None),
      sc_schema = s\<rparr>"

fun conditions_of_json ::
  "('v, 'a, 'e) builtin_types \<Rightarrow> json_condition list \<Rightarrow>
     'e schema_error + ('v, 'a, 'e) schema_condition list" where
  "conditions_of_json b [] = Inr []"
| "conditions_of_json b (c # cs) =
     (case decode_json_schema b (jc_schema c) of
        Inl e \<Rightarrow> Inl e
      | Inr s \<Rightarrow>
          (case conditions_of_json b cs of
             Inl e \<Rightarrow> Inl e | Inr rest \<Rightarrow> Inr (condition_of_json c s # rest)))"

text \<open>\<open>LoadSchemaSelectorJSON\<close> after its unmarshalling.\<close>

definition selector_of_json ::
  "('v, 'a, 'e) builtin_types \<Rightarrow> json_selector \<Rightarrow> 'e schema_error + ('v, 'a, 'e) schema_selector" where
  "selector_of_json b raw =
     (case decode_json_schema b (jsel_default raw) of
        Inl e \<Rightarrow> Inl e
      | Inr d \<Rightarrow>
          (case conditions_of_json b (jsel_conditions raw) of
             Inl e \<Rightarrow> Inl e
           | Inr cs \<Rightarrow> Inr \<lparr>sel_default = d, sel_conditions = cs\<rparr>))"

section \<open>Decoding against a reference\<close>

text \<open>
  Decoding by cutting the payload field by field, on exact lengths. It agrees with the code
  while the sizes fit, that is while no size and the payload's length add up to more than the
  largest \<open>int\<close>.
\<close>

fun reference_decode ::
  "('v, 'a, 'e) schema_field list \<Rightarrow> byte list \<Rightarrow> (string, 'v) gomap \<Rightarrow>
     'e schema_error + (string, 'v) gomap" where
  "reference_decode [] payload values = Inr values"
| "reference_decode (field # rest) payload values =
     (case sf_type field of
        None \<Rightarrow> Inl (MissingType (sf_name field))
      | Some t \<Rightarrow>
          let n = nat (sint (dt_size t)) in
          if n = 0 then Inl (InvalidSize (sf_name field))
          else if length payload < n then Inl (ShortPayload (sf_name field))
          else case dt_decode t (take n payload) of
            Inl e \<Rightarrow> Inl (DecodeFailed (sf_name field) e)
          | Inr v \<Rightarrow> reference_decode rest (drop n payload) (gm_put (sf_name field) v values))"

definition sizes_fit :: "('v, 'a, 'e) schema_field list \<Rightarrow> nat \<Rightarrow> bool" where
  "sizes_fit fs n \<longleftrightarrow>
     (\<forall>f \<in> set fs. \<forall>t. sf_type f = Some t \<longrightarrow> int n + sint (dt_size t) \<le> max_int64)"

lemma go_slice_exact:
  assumes "sint low = int k" and "sint high = int k + int n" and "k + n \<le> length xs"
  shows "go_slice xs low high = Some (take n (drop k xs))"
  using assms by (simp add: go_slice_def)

lemma sint_add_offset:
  fixes o' t :: int64
  assumes "sint o' = int k" and "k \<le> n" and "0 < sint t" and "int n + sint t \<le> max_int64"
  shows "sint (o' + t) = int k + sint t"
  using assms sint_add64 [of o' t] by (simp add: is_int64_def max_int64_def)

lemma decode_fields_reference:
  assumes "sizes_fit fs (length payload)" and "sint offset = int k" and "k \<le> length payload"
  shows "decode_fields fs payload offset vals = of_error (reference_decode fs (drop k payload) vals)"
  using assms
proof (induction fs payload offset vals arbitrary: k rule: decode_fields.induct)
  case (2 field rest payload offset vals)
  show ?case
  proof (cases "sf_type field")
    case (Some t)
    show ?thesis
    proof (cases "0 < sint (dt_size t)")
      case True
      then obtain n where n: "sint (dt_size t) = int n" "0 < n" by (metis of_nat_0_less_iff zero_less_imp_eq_int)
      have add: "sint (offset + dt_size t) = int k + int n"
        using sint_add_offset [of offset k "length payload" "dt_size t"] "2.prems" Some True n
        by (simp add: sizes_fit_def)
      show ?thesis
      proof (cases "k + n \<le> length payload")
        case fits: True
        have cut: "go_slice payload offset (offset + dt_size t) = Some (take n (drop k payload))"
          using "2.prems"(2) add fits by (rule go_slice_exact)
        have rest: "sizes_fit rest (length payload)" using "2.prems"(1) by (simp add: sizes_fit_def)
        have notshort: "\<not> sint (offset + dt_size t) > int (length payload)" using add fits by simp
        show ?thesis
        proof (cases "dt_decode t (take n (drop k payload))")
          case (Inr v)
          have "decode_fields rest payload (offset + dt_size t) (gm_put (sf_name field) v vals) =
              of_error (reference_decode rest (drop (k + n) payload) (gm_put (sf_name field) v vals))"
            using "2.IH" [OF Some _ notshort Inr, of "k + n"] n rest add fits by simp
          moreover have "\<not> length payload - k < n" using fits by simp
          ultimately show ?thesis using Some n add fits cut Inr by (simp add: Let_def add.commute)
        qed (use Some n add fits cut in \<open>simp add: Let_def of_error_def\<close>)
      next
        case False
        moreover have "length payload - k < n" using False "2.prems"(3) by simp
        ultimately show ?thesis using Some n add by (simp add: Let_def of_error_def)
      qed
    qed (use Some in \<open>simp add: of_error_def\<close>)
  qed (simp add: of_error_def)
qed simp

lemma schema_decode_reference:
  "sizes_fit (sch_fields s) (length payload) \<Longrightarrow>
     schema_decode s payload = of_error (reference_decode (sch_fields s) payload [])"
  using decode_fields_reference [of "sch_fields s" payload 0 0] by (simp add: schema_decode_def)

section \<open>Encoding\<close>

text \<open>A schema whose fields all have a type with a positive size.\<close>

definition sized :: "('v, 'a, 'e) schema_field list \<Rightarrow> bool" where
  "sized fs \<longleftrightarrow> (\<forall>f \<in> set fs. \<exists>t. sf_type f = Some t \<and> 0 < sint (dt_size t))"

definition total_size :: "('v, 'a, 'e) schema_field list \<Rightarrow> int" where
  "total_size fs = (\<Sum>f \<leftarrow> fs. sint (field_size f))"

lemma field_size_nonneg: "0 \<le> sint (field_size f)"
  by (simp add: field_size_def split: option.split)

lemma total_size_nonneg: "0 \<le> total_size fs"
  unfolding total_size_def by (rule sum_list_nonneg) (auto simp: field_size_nonneg)

lemma total_size_Cons [simp]: "total_size (f # fs) = sint (field_size f) + total_size fs"
  by (simp add: total_size_def)

lemma total_size_member: "f \<in> set fs \<Longrightarrow> sint (field_size f) \<le> total_size fs"
proof (induction fs)
  case (Cons g fs)
  then show ?case using field_size_nonneg [of g] total_size_nonneg [of fs] by auto
qed simp

lemma fold_size_exact:
  "0 \<le> sint a \<Longrightarrow> sint a + total_size fs \<le> max_int64 \<Longrightarrow>
     sint (foldl (\<lambda>total f. total + field_size f) a fs) = sint a + total_size fs"
proof (induction fs arbitrary: a)
  case (Cons f fs)
  have "sint (a + field_size f) = sint a + sint (field_size f)"
    using Cons.prems field_size_nonneg [of f] total_size_nonneg [of fs]
    by (intro sint_add64) (simp add: is_int64_def max_int64_def)
  then show ?case using Cons.IH [of "a + field_size f"] Cons.prems field_size_nonneg [of f] by simp
qed (simp add: total_size_def)

lemma schema_size_exact:
  "total_size (sch_fields s) \<le> max_int64 \<Longrightarrow> sint (schema_size s) = total_size (sch_fields s)"
  using fold_size_exact [of 0 "sch_fields s"] by (simp add: schema_size_def)

text \<open>The bytes a field contributes, and an encoded payload as their concatenation.\<close>

definition field_bytes ::
  "(string, 'a) gomap \<Rightarrow> ('v, 'a, 'e) schema_field \<Rightarrow> byte list option" where
  "field_bytes values f = (case (sf_type f, gm_get values (sf_name f)) of
     (Some t, Some a) \<Rightarrow> (case dt_encode t a of Inr b \<Rightarrow> Some b | Inl _ \<Rightarrow> None)
   | _ \<Rightarrow> None)"

lemma encode_fields_Inr:
  "sized fs \<Longrightarrow> encode_fields fs vals acc = Inr payload \<Longrightarrow>
     \<exists>parts. map Some parts = map (field_bytes vals) fs \<and> payload = acc @ concat parts \<and>
       list_all2 (\<lambda>p f. int (length p) = sint (field_size f)) parts fs"
proof (induction fs arbitrary: acc)
  case (Cons f fs)
  obtain t where t: "sf_type f = Some t" "0 < sint (dt_size t)" using Cons.prems(1) by (auto simp: sized_def)
  then obtain a b where ab: "gm_get vals (sf_name f) = Some a" "dt_encode t a = Inr b"
    "int (length b) = sint (dt_size t)" and rest: "encode_fields fs vals (acc @ b) = Inr payload"
    using Cons.prems(2) by (auto split: option.splits sum.splits if_splits)
  have "sized fs" using Cons.prems(1) by (simp add: sized_def)
  from Cons.IH [OF this rest] obtain parts where p: "map Some parts = map (field_bytes vals) fs"
    "payload = (acc @ b) @ concat parts" "list_all2 (\<lambda>p f. int (length p) = sint (field_size f)) parts fs"
    by blast
  then show ?case
    using t ab by (intro exI [of _ "b # parts"]) (simp add: field_bytes_def field_size_def)
qed simp

lemma length_concat_parts:
  "list_all2 (\<lambda>p f. int (length p) = sint (field_size f)) parts fs \<Longrightarrow>
     int (length (concat parts)) = total_size fs"
  by (induction parts fs rule: list_all2_induct) (simp_all add: total_size_def)

lemma reference_decode_parts:
  assumes "sized fs" and "map Some parts = map (field_bytes vals) fs"
    and "list_all2 (\<lambda>p f. int (length p) = sint (field_size f)) parts fs"
    and "\<forall>f \<in> set fs. \<forall>t b. sf_type f = Some t \<longrightarrow> field_bytes vals f = Some b \<longrightarrow>
           dt_decode t b = Inr (g (sf_name f))"
  shows "reference_decode fs (concat parts) m =
    Inr (fold (\<lambda>f. gm_put (sf_name f) (g (sf_name f))) fs m)"
  using assms(3,1,2,4)
proof (induction parts fs arbitrary: m rule: list_all2_induct)
  case (Cons p parts f fs)
  obtain t where t: "sf_type f = Some t" "0 < sint (dt_size t)" using Cons.prems(1) by (auto simp: sized_def)
  have p: "nat (sint (dt_size t)) = length p" "length p \<noteq> 0" "field_bytes vals f = Some p"
    using Cons.hyps(1) t Cons.prems(2) by (auto simp: field_size_def)
  have "dt_decode t p = Inr (g (sf_name f))" using Cons.prems(3) t p by simp
  moreover have "sized fs" using Cons.prems(1) by (simp add: sized_def)
  ultimately show ?case
    using Cons.IH [OF \<open>sized fs\<close>, of "gm_put (sf_name f) (g (sf_name f)) m"] Cons.prems(2,3) t p by simp
qed simp

lemma gm_keys_fold_names:
  "gm_keys (fold (\<lambda>f. gm_put (sf_name f) (g (sf_name f))) fs m) = gm_keys m \<union> sf_name ` set fs"
  by (induction fs arbitrary: m) auto

lemma gm_get_fold_names:
  "gm_get (fold (\<lambda>f. gm_put (sf_name f) (g (sf_name f))) fs m) k =
     (if k \<in> sf_name ` set fs then Some (g k) else gm_get m k)"
  by (induction fs arbitrary: m) auto

section \<open>Selection\<close>

definition condition_holds :: "byte \<Rightarrow> uint16 option \<Rightarrow> ('v, 'a, 'e) schema_condition \<Rightarrow> bool" where
  "condition_holds target hw c \<longleftrightarrow>
     (sc_has_target c \<longrightarrow> sc_target c = target) \<and>
     (sc_has_min_hw c \<longrightarrow> (\<exists>v. hw = Some v \<and> sc_min_hw c \<le> v)) \<and>
     (sc_has_max_hw c \<longrightarrow> (\<exists>v. hw = Some v \<and> v \<le> sc_max_hw c))"

lemma select_condition_find:
  "select_condition target hw cs = map_option sc_schema (find (condition_holds target hw) cs)"
  by (induction cs) (auto simp: condition_holds_def not_less split: option.splits)

definition version_digits :: "string \<Rightarrow> string" where
  "version_digits s = filter is_digit s"

lemma digits_val_append: "digits_val (s @ t) = digits_val s * 10 ^ length t + digits_val t"
  by (induction t rule: rev_induct)
    (simp_all add: digits_val_snoc [unfolded digits_val_def] flip: append_assoc add: digits_val_def)

lemma digits_val_Cons: "digits_val (c # s) = digit_val c * 10 ^ length s + digits_val s"
  using digits_val_append [of "[c]" s] by (simp add: digits_val_def)

lemma digits_val_ge: "n * 10 ^ length s + digits_val s \<ge> n"
  by (metis le_add1 le_trans mult.right_neutral mult_le_mono2 one_le_numeral one_le_power)

lemma unat_step:
  assumes "unat (number :: uint32) \<le> 65535" and "is_digit ch"
  shows "unat (number * 10 + of_nat (digit_val ch)) = unat number * 10 + digit_val ch"
proof -
  have d: "digit_val ch < 10" using assms(2) by (rule digit_val_less)
  have "unat number * 10 + digit_val ch < 2 ^ 32" using assms(1) d by simp
  moreover have eq: "number * 10 + of_nat (digit_val ch) = (of_nat (unat number * 10 + digit_val ch) :: uint32)"
    by simp
  moreover have "unat (of_nat m :: uint32) = m" if "m < 2 ^ 32" for m
    using that by (simp add: unat_of_nat take_bit_nat_eq_self)
  ultimately show ?thesis unfolding eq by blast
qed

lemma parse_hw_digits_exact:
  "unat number \<le> 65535 \<Longrightarrow> parse_hw_digits number found s =
     (let ds = version_digits s; v = unat number * 10 ^ length ds + digits_val ds
      in if (found \<or> ds \<noteq> []) \<and> v \<le> 65535 then Some (of_nat v) else None)"
proof (induction number found s rule: parse_hw_digits.induct)
  case (1 number found)
  have "(ucast number :: uint16) = of_nat (unat number)" by (simp add: unsigned_ucast_eq)
  then show ?case using 1 by (simp add: version_digits_def)
next
  case (2 number found ch rest)
  show ?case
  proof (cases "is_digit ch")
    case True
    let ?n = "number * 10 + of_nat (digit_val ch)" and ?ds = "version_digits rest"
    have n: "unat ?n = unat number * 10 + digit_val ch" using "2.prems" True by (rule unat_step)
    have v: "unat number * 10 ^ length (version_digits (ch # rest)) + digits_val (version_digits (ch # rest)) =
        unat ?n * 10 ^ length ?ds + digits_val ?ds"
      unfolding n using True by (simp add: version_digits_def digits_val_Cons algebra_simps)
    have big: "?n > 0xFFFF \<longleftrightarrow> unat ?n > 65535" by (simp add: word_less_nat_alt)
    show ?thesis
    proof (cases "unat ?n > 65535")
      case True': True
      then have "\<not> unat ?n * 10 ^ length ?ds + digits_val ?ds \<le> 65535"
        using digits_val_ge [of "unat ?n" ?ds] by simp
      then show ?thesis using True True' big v by (simp add: Let_def)
    next
      case False
      then have "unat ?n \<le> 65535" by simp
      from "2.IH"(2) [OF _ refl _ this] True False big v show ?thesis
        by (simp add: Let_def) (simp add: version_digits_def)
    qed
  qed (use 2 in \<open>simp add: version_digits_def Let_def\<close>)
qed

lemma parse_hw_version_exact:
  "parse_hw_version s =
     (let ds = version_digits s
      in if ds \<noteq> [] \<and> digits_val ds \<le> 65535 then Some (of_nat (digits_val ds)) else None)"
  using parse_hw_digits_exact [of 0 False s] by (simp add: parse_hw_version_def Let_def)

lemma parse_loops_agree: "parse_version_loop number found s = parse_hw_digits number found s"
  by (induction number found s rule: parse_version_loop.induct) (simp_all add: Let_def)

lemma parsers_agree: "parse_version_digits = parse_hw_version"
  by (simp add: parse_version_digits_def parse_hw_version_def parse_loops_agree fun_eq_iff)

lemma hardware_version_exact:
  "hardware_version_at_least version minimum \<longleftrightarrow>
     version_digits version \<noteq> [] \<and> unat minimum \<le> digits_val (version_digits version) \<and>
     digits_val (version_digits version) \<le> 65535"
proof -
  have "minimum \<le> of_nat n \<longleftrightarrow> unat minimum \<le> n" if "n \<le> 65535" for n
  proof -
    have "unat (of_nat n :: uint16) = n" using that by (simp add: unat_of_nat take_bit_nat_eq_self)
    then show ?thesis by (simp add: word_le_nat_alt)
  qed
  then show ?thesis
    by (auto simp: hardware_version_at_least_def parsers_agree parse_hw_version_exact Let_def)
qed

text \<open>The loader keeps the fields in order and gives each the type its name stands for.\<close>

lemma decode_json_fields_Inr:
  "decode_json_fields b js = Inr fs \<longleftrightarrow>
     list_all2 (\<lambda>j f. sf_name f = jf_name j \<and> jf_name j \<noteq> [] \<and> jf_type j \<noteq> [] \<and>
       (\<exists>t. data_type_by_name b (jf_type j) (jf_size j) = Inr t \<and> sf_type f = Some t)) js fs"
proof (induction js arbitrary: fs)
  case (Cons j js)
  show ?case
  proof (cases fs)
    case Nil
    then show ?thesis by (auto split: sum.splits)
  next
    case Cons': (Cons f fs')
    show ?thesis
      by (cases f) (auto simp: Cons' Cons.IH [symmetric] split: sum.splits)
  qed
qed auto

lemma conditions_of_json_Inr:
  "conditions_of_json b js = Inr cs \<longleftrightarrow>
     list_all2 (\<lambda>j c. \<exists>s. decode_json_schema b (jc_schema j) = Inr s \<and> c = condition_of_json j s) js cs"
proof (induction js arbitrary: cs)
  case (Cons j js)
  then show ?case by (cases cs) (auto simp: Cons.IH [symmetric] split: sum.splits)
qed auto

lemma condition_of_json_holds:
  "condition_holds target hw (condition_of_json c s) \<longleftrightarrow>
     (\<forall>x. jc_target c = Some x \<longrightarrow> x = target) \<and>
     (\<forall>m. jc_min_hw c = Some m \<longrightarrow> (\<exists>v. hw = Some v \<and> m \<le> v)) \<and>
     (\<forall>m. jc_max_hw c = Some m \<longrightarrow> (\<exists>v. hw = Some v \<and> v \<le> m))"
  by (auto simp: condition_holds_def condition_of_json_def)

lemma selector_json_find:
  assumes "selector_of_json b raw = Inr sel"
  shows "\<exists>d ss. decode_json_schema b (jsel_default raw) = Inr d \<and>
     list_all2 (\<lambda>c s. decode_json_schema b (jc_schema c) = Inr s) (jsel_conditions raw) ss \<and>
     selector_select sel target hw =
       (case find (\<lambda>(c, s).
            (\<forall>x. jc_target c = Some x \<longrightarrow> x = target) \<and>
            (\<forall>m. jc_min_hw c = Some m \<longrightarrow> (\<exists>v. parse_hw_version hw = Some v \<and> m \<le> v)) \<and>
            (\<forall>m. jc_max_hw c = Some m \<longrightarrow> (\<exists>v. parse_hw_version hw = Some v \<and> v \<le> m)))
          (zip (jsel_conditions raw) ss) of
        Some (c, s) \<Rightarrow> s | None \<Rightarrow> d)"
proof -
  obtain d cs where d: "decode_json_schema b (jsel_default raw) = Inr d"
    and cs: "conditions_of_json b (jsel_conditions raw) = Inr cs"
    and sel: "sel = \<lparr>sel_default = d, sel_conditions = cs\<rparr>"
    using assms by (auto simp: selector_of_json_def split: sum.splits)
  let ?P = "\<lambda>(c, s). (\<forall>x. jc_target c = Some x \<longrightarrow> x = target) \<and>
      (\<forall>m. jc_min_hw c = Some m \<longrightarrow> (\<exists>v. parse_hw_version hw = Some v \<and> m \<le> v)) \<and>
      (\<forall>m. jc_max_hw c = Some m \<longrightarrow> (\<exists>v. parse_hw_version hw = Some v \<and> v \<le> m))"
  have pair: "list_all2 (\<lambda>c s. decode_json_schema b (jc_schema c) = Inr s) js (map sc_schema cs) \<and>
      map_option sc_schema (find (condition_holds target (parse_hw_version hw)) cs) =
      map_option snd (find ?P (zip js (map sc_schema cs)))"
    if "list_all2 (\<lambda>j c. \<exists>s. decode_json_schema b (jc_schema j) = Inr s \<and> c = condition_of_json j s) js cs"
    for js cs
    using that
  proof (induction js cs rule: list_all2_induct)
    case (Cons j js c cs)
    have [simp]: "sc_schema (condition_of_json j s) = s" for s by (simp add: condition_of_json_def)
    from Cons show ?case by (auto simp: condition_of_json_holds)
  qed simp
  from pair [OF cs [unfolded conditions_of_json_Inr]] show ?thesis
    using d by (intro exI [of _ d] exI [of _ "map sc_schema cs"])
      (auto simp: sel selector_select_def select_condition_find split: option.splits)
qed

lemma json_overflow:
  assumes "dt_size (bt_DATA1b b) = 1" and "dt_decode (bt_DATA1b b) [x] = Inr v"
    and "dt_size (bt_BITFIELD b 0x7FFFFFFFFFFFFFFF) = 0x7FFFFFFFFFFFFFFF"
  shows "\<exists>s. decode_json_schema b \<lparr>js_fields = [\<lparr>jf_name = ''a'', jf_type = ''DATA1b'', jf_size = 0\<rparr>,
        \<lparr>jf_name = ''b'', jf_type = ''BITFIELD'', jf_size = 0x7FFFFFFFFFFFFFFF\<rparr>]\<rparr> = Inr s \<and>
     schema_decode s [x] = Panic"
proof -
  have up: "to_upper (trim_space ''DATA1b'') = ''DATA1B''" "to_upper (trim_space ''BITFIELD'') = ''BITFIELD''"
    by code_simp+
  have "sint (0x7FFFFFFFFFFFFFFF :: int64) > 0" by simp
  then show ?thesis
    using assms
    by (simp add: decode_json_schema_def data_type_by_name_def up Let_def schema_decode_def go_slice_def)
qed

section \<open>Examples for the witnesses\<close>

definition byte_type :: "(nat, nat, unit) data_type" where
  "byte_type = \<lparr>dt_size = 1,
     dt_decode = (\<lambda>bs. case bs of [b] \<Rightarrow> Inr (unat b) | _ \<Rightarrow> Inl ()),
     dt_encode = (\<lambda>n. if n < 256 then Inr [of_nat n] else Inl ())\<rparr>"

definition word_type :: "(nat, nat, unit) data_type" where
  "word_type = \<lparr>dt_size = 2,
     dt_decode = (\<lambda>bs. case bs of [l, h] \<Rightarrow> Inr (unat l + 256 * unat h) | _ \<Rightarrow> Inl ()),
     dt_encode = (\<lambda>n. if n < 65536 then Inr [of_nat n, of_nat (n div 256)] else Inl ())\<rparr>"

definition example_schema :: "(nat, nat, unit) schema" where
  "example_schema = \<lparr>sch_fields =
     [\<lparr>sf_name = ''status'', sf_type = Some byte_type\<rparr>, \<lparr>sf_name = ''flow'', sf_type = Some word_type\<rparr>]\<rparr>"

definition example_builtin :: "(nat, nat, unit) builtin_types" where
  "example_builtin = \<lparr>bt_DATA1b = byte_type, bt_DATA2c = word_type, bt_DATA2b = word_type,
     bt_EXP = word_type, bt_WORD = word_type, bt_BCD = byte_type,
     bt_BITFIELD = (\<lambda>n. byte_type\<lparr>dt_size := n\<rparr>)\<rparr>"

section \<open>Properties\<close>

text \<open>
  While the sizes fit an \<open>int\<close>, \<open>Schema.Decode\<close> is the reference decoder: it cuts the
  payload field by field in order, fails with the first missing type, bad size, short payload or
  field error, and never slices out of range.
\<close>

theorem schema_decode_exact:
  assumes "sizes_fit (sch_fields s) (length payload)"
  shows "schema_decode s payload = of_error (reference_decode (sch_fields s) payload [])"
  using assms by (rule schema_decode_reference)

theorem schema_decode_exact_witness:
  "schema_decode example_schema [7, 1, 2] = Return [(''status'', 7), (''flow'', 513)]"
proof -
  have "sizes_fit (sch_fields example_schema) (length [7, 1, 2 :: byte])"
    by (simp add: sizes_fit_def example_schema_def byte_type_def word_type_def max_int64_def)
  from schema_decode_exact [OF this] show ?thesis
    by (simp add: example_schema_def byte_type_def word_type_def gm_put_def)
qed

text \<open>
  (C9) What \<open>Encode\<close> writes, \<open>Decode\<close> reads back: for a schema of sized fields whose data
  types each read their own encoding of the field's value back as \<open>g\<close> of its name, the encoded
  payload has exactly \<open>Size()\<close> bytes and decodes to the map of \<open>g\<close> on the schema's names.
\<close>

theorem schema_roundtrip:
  assumes "sized (sch_fields s)" and "total_size (sch_fields s) < 2 ^ 62"
    and "schema_encode s (Some vals) = Inr payload"
    and "\<forall>f \<in> set (sch_fields s). \<forall>t b. sf_type f = Some t \<longrightarrow> field_bytes vals f = Some b \<longrightarrow>
           dt_decode t b = Inr (g (sf_name f))"
  shows "\<exists>m. schema_decode s payload = Return m \<and>
     (\<forall>k. gm_get m k = (if k \<in> sf_name ` set (sch_fields s) then Some (g k) else None)) \<and>
     int (length payload) = sint (schema_size s)"
proof -
  let ?fs = "sch_fields s"
  have enc: "encode_fields ?fs vals [] = Inr payload"
    using assms(3) by (cases "?fs = []") (auto simp: schema_encode_def)
  from encode_fields_Inr [OF assms(1) this] obtain parts where
    parts: "map Some parts = map (field_bytes vals) ?fs" and payload: "payload = concat parts"
    and len: "list_all2 (\<lambda>p f. int (length p) = sint (field_size f)) parts ?fs" by auto
  have n: "int (length payload) = total_size ?fs" unfolding payload using len by (rule length_concat_parts)
  have "sizes_fit ?fs (length payload)"
    unfolding sizes_fit_def
  proof (intro ballI allI impI)
    fix f t assume f: "f \<in> set ?fs" and t: "sf_type f = Some t"
    have "sint (dt_size t) = sint (field_size f)" using assms(1) f t by (auto simp: sized_def field_size_def)
    then show "int (length payload) + sint (dt_size t) \<le> max_int64"
      using total_size_member [OF f] n assms(2) by (simp add: max_int64_def)
  qed
  moreover have "reference_decode ?fs payload [] =
      Inr (fold (\<lambda>f. gm_put (sf_name f) (g (sf_name f))) ?fs [])"
    unfolding payload using assms(1) parts len assms(4) by (rule reference_decode_parts)
  ultimately show ?thesis
    using schema_size_exact [of s] assms(2) n
    by (intro exI [of _ "fold (\<lambda>f. gm_put (sf_name f) (g (sf_name f))) ?fs []"])
       (simp add: schema_decode_reference gm_get_fold_names max_int64_def)
qed

theorem schema_roundtrip_witness:
  "\<exists>m. schema_decode example_schema [200, 44, 1] = Return m \<and> gm_get m ''flow'' = Some 300"
proof -
  let ?vals = "[(''flow'', 300 :: nat), (''status'', 200)]"
  have enc: "schema_encode example_schema (Some ?vals) = Inr [200, 44, 1]"
    by (simp add: schema_encode_def example_schema_def byte_type_def word_type_def gm_get_def)
  have sized: "sized (sch_fields example_schema)" "total_size (sch_fields example_schema) < 2 ^ 62"
    by (simp_all add: sized_def total_size_def example_schema_def byte_type_def word_type_def field_size_def)
  have "\<forall>f \<in> set (sch_fields example_schema). \<forall>t b. sf_type f = Some t \<longrightarrow> field_bytes ?vals f = Some b \<longrightarrow>
      dt_decode t b = Inr ((\<lambda>n. if n = ''flow'' then 300 else 200) (sf_name f))"
    by (simp add: example_schema_def byte_type_def word_type_def field_bytes_def gm_get_def)
  from schema_roundtrip [OF sized enc this] show ?thesis
    by (auto simp: example_schema_def)
qed

text \<open>
  \<open>SchemaSelector.Select\<close> returns the schema of the first condition that holds for the
  target and the parsed hardware version, and the default when none does; a bound on the
  hardware version never holds for a version without digits or above 65535.
\<close>

theorem selector_first_match:
  "selector_select sel target hw =
     (let version = (let ds = version_digits hw in
        if ds \<noteq> [] \<and> digits_val ds \<le> 65535 then Some (of_nat (digits_val ds)) else None)
      in case find (condition_holds target version) (sel_conditions sel) of
           Some c \<Rightarrow> sc_schema c | None \<Rightarrow> sel_default sel)"
  by (simp add: selector_select_def select_condition_find parse_hw_version_exact Let_def split: option.split)

text \<open>
  The matcher of \<open>internal/match\<close> is exact: a version is at least the minimum exactly when
  its digits, read as one decimal number, are at least the minimum and at most 65535; its 32-bit
  accumulator never wraps.
\<close>

theorem match_hardware_exact:
  "hardware_version_at_least version minimum \<longleftrightarrow>
     version_digits version \<noteq> [] \<and> unat minimum \<le> digits_val (version_digits version) \<and>
     digits_val (version_digits version) \<le> 65535"
  by (rule hardware_version_exact)

text \<open>
  A selector loaded from JSON values has a schema per condition, in order, and selects by
  the bounds the values give: the first condition all of whose present bounds hold.
\<close>

theorem selector_json_selects:
  assumes "selector_of_json b raw = Inr sel"
  shows "\<exists>d ss. decode_json_schema b (jsel_default raw) = Inr d \<and>
     list_all2 (\<lambda>c s. decode_json_schema b (jc_schema c) = Inr s) (jsel_conditions raw) ss \<and>
     selector_select sel target hw =
       (case find (\<lambda>(c, s).
            (\<forall>x. jc_target c = Some x \<longrightarrow> x = target) \<and>
            (\<forall>m. jc_min_hw c = Some m \<longrightarrow> (\<exists>v. parse_hw_version hw = Some v \<and> m \<le> v)) \<and>
            (\<forall>m. jc_max_hw c = Some m \<longrightarrow> (\<exists>v. parse_hw_version hw = Some v \<and> v \<le> m)))
          (zip (jsel_conditions raw) ss) of
        Some (c, s) \<Rightarrow> s | None \<Rightarrow> d)"
  using assms by (rule selector_json_find)

theorem selector_json_selects_witness:
  "\<exists>sel. selector_of_json example_builtin
      \<lparr>jsel_default = \<lparr>js_fields = []\<rparr>, jsel_conditions =
        [\<lparr>jc_target = Some 8, jc_min_hw = None, jc_max_hw = None,
          jc_schema = \<lparr>js_fields = [\<lparr>jf_name = ''x'', jf_type = ''data1b'', jf_size = 0\<rparr>]\<rparr>\<rparr>]\<rparr> = Inr sel \<and>
     selector_select sel 8 ''0204'' = \<lparr>sch_fields = [\<lparr>sf_name = ''x'', sf_type = Some byte_type\<rparr>]\<rparr>"
proof -
  let ?raw = "\<lparr>jsel_default = \<lparr>js_fields = []\<rparr>, jsel_conditions =
        [\<lparr>jc_target = Some 8, jc_min_hw = None, jc_max_hw = None,
          jc_schema = \<lparr>js_fields = [\<lparr>jf_name = ''x'', jf_type = ''data1b'', jf_size = 0\<rparr>]\<rparr>\<rparr>]\<rparr>"
  let ?s = "\<lparr>sch_fields = [\<lparr>sf_name = ''x'', sf_type = Some byte_type\<rparr>]\<rparr>"
  have up: "to_upper (trim_space ''data1b'') = ''DATA1B''" by code_simp
  have one: "decode_json_schema example_builtin (jc_schema (hd (jsel_conditions ?raw))) = Inr ?s"
    by (simp add: decode_json_schema_def data_type_by_name_def up example_builtin_def Let_def)
  then obtain sel where sel: "selector_of_json example_builtin ?raw = Inr sel"
    by (simp add: selector_of_json_def) (simp add: decode_json_schema_def)
  from selector_json_selects [OF this, of 8 "''0204''"] one have "selector_select sel 8 ''0204'' = ?s"
    by (auto simp: list_all2_Cons1)
  with sel show ?thesis by blast
qed

text \<open>
  Where the sizes do not fit, decoding panics: a schema the JSON loader accepts, a one-byte
  field followed by a bit field whose size is the largest \<open>int\<close>, makes the end offset wrap below
  zero, passes the length check and slices out of range on a payload of one byte.
\<close>

theorem schema_json_overflow_panics:
  assumes "dt_size (bt_DATA1b b) = 1" and "dt_decode (bt_DATA1b b) [x] = Inr v"
    and "dt_size (bt_BITFIELD b 0x7FFFFFFFFFFFFFFF) = 0x7FFFFFFFFFFFFFFF"
  shows "\<exists>s. decode_json_schema b \<lparr>js_fields = [\<lparr>jf_name = ''a'', jf_type = ''DATA1b'', jf_size = 0\<rparr>,
        \<lparr>jf_name = ''b'', jf_type = ''BITFIELD'', jf_size = 0x7FFFFFFFFFFFFFFF\<rparr>]\<rparr> = Inr s \<and>
     schema_decode s [x] = Panic"
  using assms by (rule json_overflow)

theorem schema_json_overflow_panics_witness:
  "\<exists>s. decode_json_schema example_builtin \<lparr>js_fields = [\<lparr>jf_name = ''a'', jf_type = ''DATA1b'', jf_size = 0\<rparr>,
        \<lparr>jf_name = ''b'', jf_type = ''BITFIELD'', jf_size = 0x7FFFFFFFFFFFFFFF\<rparr>]\<rparr> = Inr s \<and>
     schema_decode s [5] = Panic"
  by (rule schema_json_overflow_panics [where v = 5])
    (simp_all add: example_builtin_def byte_type_def)

end
