(* ===== verification/Reg_Projection.thy ===== *)
theory Reg_Projection
  imports Go_Prelude
begin

text \<open>
  Projection paths, nodes, edges and the canonical index (\<open>registry/projection.go\<close>), and the
  portal index built over them (\<open>registry/portal.go\<close>). Errors keep the sentinel each wrapped
  error carries; the texts around it are left out. A nil map of the index is \<open>None\<close>.
\<close>

section \<open>Paths\<close>

abbreviation "ServicePlane \<equiv> ''Service''"

datatype projection_error =
    ErrProjectionInvalidPlane
  | ErrProjectionInvalidSegment
  | ErrProjectionInvalidPath nat
  | ErrProjectionInvalidNode
  | ErrProjectionInvalidEdge
  | ErrPortalDuplicatePlane
  | ErrPortalDuplicateNode
  | ErrPortalDuplicateEdge
  | ErrPortalInvalidEntry

text \<open>A bad segment is reported with its index, joined with the invalid-path sentinel.\<close>

record path_segment =
  seg_name :: string
  seg_location :: bool

definition segment_str :: "path_segment \<Rightarrow> string" where
  "segment_str s = (if seg_location s then CHR ''@'' # seg_name s else seg_name s)"

definition segment_validate :: "path_segment \<Rightarrow> projection_error option" where
  "segment_validate s =
     (if trim_space (seg_name s) = [] then Some ErrProjectionInvalidSegment
      else if contains_any (seg_name s) ''/:'' then Some ErrProjectionInvalidSegment
      else if has_prefix (seg_name s) ''@'' then Some ErrProjectionInvalidSegment
      else None)"

record projection_path =
  path_plane :: string
  path_segments :: "path_segment list"

definition path_str :: "projection_path \<Rightarrow> string" where
  "path_str p = (if path_plane p = [] then []
     else path_plane p @ '':/'' @ str_join ''/'' (map segment_str (path_segments p)))"

fun segments_validate :: "nat \<Rightarrow> path_segment list \<Rightarrow> projection_error option" where
  "segments_validate i [] = None"
| "segments_validate i (s # ss) =
     (if segment_validate s \<noteq> None then Some (ErrProjectionInvalidPath i)
      else segments_validate (Suc i) ss)"

definition plane_name_ok :: "string \<Rightarrow> bool" where
  "plane_name_ok plane \<longleftrightarrow> \<not> (trim_space plane = [] \<or> contains_any plane ''/:'')"

definition path_validate :: "projection_path \<Rightarrow> projection_error option" where
  "path_validate p =
     (if trim_space (path_plane p) = [] then Some ErrProjectionInvalidPlane
      else if contains_any (path_plane p) ''/:'' then Some ErrProjectionInvalidPlane
      else segments_validate 0 (path_segments p))"

section \<open>Nodes, edges, projections\<close>

type_synonym node_id = string
type_synonym edge_id = string

record node =
  node_id :: node_id
  node_path :: projection_path
  node_canonical :: projection_path

definition stable_node_id :: "projection_path \<Rightarrow> projection_error + node_id" where
  "stable_node_id canonical =
     (case path_validate canonical of
        Some e \<Rightarrow> Inl e
      | None \<Rightarrow>
          if path_plane canonical \<noteq> ServicePlane then Inl ErrProjectionInvalidNode
          else Inr (path_str canonical))"

definition new_node :: "projection_path \<Rightarrow> projection_path \<Rightarrow> projection_error + node" where
  "new_node path canonical =
     (case path_validate path of
        Some e \<Rightarrow> Inl e
      | None \<Rightarrow>
          case stable_node_id canonical of
            Inl e \<Rightarrow> Inl e
          | Inr i \<Rightarrow>
              if path_plane path = ServicePlane \<and> path_str path \<noteq> path_str canonical
              then Inl ErrProjectionInvalidNode
              else Inr \<lparr>node_id = i, node_path = path, node_canonical = canonical\<rparr>)"

record edge =
  edge_id :: edge_id
  edge_from :: node_id
  edge_to :: node_id

definition stable_edge_id :: "string \<Rightarrow> node_id \<Rightarrow> node_id \<Rightarrow> projection_error + edge_id" where
  "stable_edge_id plane from_id to_id =
     (if trim_space plane = [] \<or> contains_any plane ''/:'' then Inl ErrProjectionInvalidPlane
      else if from_id = [] \<or> to_id = [] then Inl ErrProjectionInvalidEdge
      else Inr (plane @ '':'' @ from_id @ ''->'' @ to_id))"

definition new_edge :: "string \<Rightarrow> node_id \<Rightarrow> node_id \<Rightarrow> projection_error + edge" where
  "new_edge plane from_id to_id =
     (case stable_edge_id plane from_id to_id of
        Inl e \<Rightarrow> Inl e
      | Inr i \<Rightarrow> Inr \<lparr>edge_id = i, edge_from = from_id, edge_to = to_id\<rparr>)"

record plane_projection =
  prj_plane :: string
  prj_nodes :: "node list"
  prj_edges :: "edge list"

text \<open>The loop of \<open>Validate\<close> over the nodes: paths seen, canonical paths by id.\<close>

fun validate_nodes ::
  "string \<Rightarrow> string set \<Rightarrow> (node_id, projection_path) gomap \<Rightarrow> node list \<Rightarrow>
     projection_error + (node_id, projection_path) gomap" where
  "validate_nodes plane paths by_id [] = Inr by_id"
| "validate_nodes plane paths by_id (n # ns) =
     (if node_id n = [] then Inl ErrProjectionInvalidNode
      else case path_validate (node_path n) of Some e \<Rightarrow> Inl e
      | None \<Rightarrow>
      if path_plane (node_path n) \<noteq> plane then Inl ErrProjectionInvalidNode
      else case path_validate (node_canonical n) of Some e \<Rightarrow> Inl e
      | None \<Rightarrow>
      if path_plane (node_canonical n) \<noteq> ServicePlane then Inl ErrProjectionInvalidNode
      else if path_str (node_path n) \<in> paths then Inl ErrProjectionInvalidNode
      else case gm_get by_id (node_id n) of
        Some existing \<Rightarrow>
          if path_str existing \<noteq> path_str (node_canonical n) then Inl ErrProjectionInvalidNode
          else validate_nodes plane (insert (path_str (node_path n)) paths) by_id ns
      | None \<Rightarrow>
          validate_nodes plane (insert (path_str (node_path n)) paths)
            (gm_put (node_id n) (node_canonical n) by_id) ns)"

fun validate_edges :: "(node_id, projection_path) gomap \<Rightarrow> edge list \<Rightarrow> projection_error option" where
  "validate_edges by_id [] = None"
| "validate_edges by_id (e # es) =
     (if edge_id e = [] then Some ErrProjectionInvalidEdge
      else if edge_from e = [] \<or> edge_to e = [] then Some ErrProjectionInvalidEdge
      else if gm_get by_id (edge_from e) = None then Some ErrProjectionInvalidEdge
      else if gm_get by_id (edge_to e) = None then Some ErrProjectionInvalidEdge
      else validate_edges by_id es)"

definition projection_validate :: "plane_projection \<Rightarrow> projection_error option" where
  "projection_validate p =
     (if trim_space (prj_plane p) = [] \<or> contains_any (prj_plane p) ''/:''
      then Some ErrProjectionInvalidPlane
      else case validate_nodes (prj_plane p) {} [] (prj_nodes p) of
        Inl e \<Rightarrow> Some e
      | Inr by_id \<Rightarrow> validate_edges by_id (prj_edges p))"

definition new_projection ::
  "string \<Rightarrow> node list \<Rightarrow> edge list \<Rightarrow> projection_error + plane_projection" where
  "new_projection plane nodes edges =
     (let p = \<lparr>prj_plane = plane, prj_nodes = nodes, prj_edges = edges\<rparr>
      in case projection_validate p of Some e \<Rightarrow> Inl e | None \<Rightarrow> Inr p)"

section \<open>The canonical index\<close>

record canonical_index =
  ci_canonical :: "(node_id, projection_path) gomap option"
  ci_planes :: "(string, (node_id, projection_path) gomap) gomap option"

definition zero_index :: canonical_index where
  "zero_index = \<lparr>ci_canonical = None, ci_planes = None\<rparr>"

definition index_canonical :: "canonical_index \<Rightarrow> node_id \<Rightarrow> projection_path option" where
  "index_canonical ix i = (case ci_canonical ix of None \<Rightarrow> None | Some m \<Rightarrow> gm_get m i)"

definition index_plane_path :: "canonical_index \<Rightarrow> string \<Rightarrow> node_id \<Rightarrow> projection_path option" where
  "index_plane_path ix plane i =
     (case ci_planes ix of None \<Rightarrow> None
      | Some m \<Rightarrow> (case gm_get m plane of None \<Rightarrow> None | Some pm \<Rightarrow> gm_get pm i))"

text \<open>A nil result is \<open>None\<close>.\<close>

definition index_plane_paths :: "canonical_index \<Rightarrow> node_id \<Rightarrow> (string, projection_path) gomap option" where
  "index_plane_paths ix i =
     (case ci_planes ix of None \<Rightarrow> None
      | Some m \<Rightarrow>
          let out = fold (\<lambda>(plane, pm) out. case gm_get pm i of
                            Some p \<Rightarrow> gm_put plane p out | None \<Rightarrow> out) m []
          in if length out = 0 then None else Some out)"

text \<open>The two maps and the service ids while the projections are scanned.\<close>

record index_state =
  is_canonical :: "(node_id, projection_path) gomap"
  is_planes :: "(string, (node_id, projection_path) gomap) gomap"
  is_service :: "node_id set"

definition plane_map :: "index_state \<Rightarrow> string \<Rightarrow> (node_id, projection_path) gomap" where
  "plane_map s plane = (case gm_get (is_planes s) plane of None \<Rightarrow> [] | Some pm \<Rightarrow> pm)"

fun index_nodes :: "string \<Rightarrow> index_state \<Rightarrow> node list \<Rightarrow> projection_error + index_state" where
  "index_nodes plane s [] = Inr s"
| "index_nodes plane s (n # ns) =
     (case stable_node_id (node_canonical n) of
        Inl e \<Rightarrow> Inl e
      | Inr expected \<Rightarrow>
          if node_id n \<noteq> expected then Inl ErrProjectionInvalidNode
          else if plane = ServicePlane \<and> path_str (node_path n) \<noteq> path_str (node_canonical n)
          then Inl ErrProjectionInvalidNode
          else if (case gm_get (is_canonical s) (node_id n) of
                     Some existing \<Rightarrow> path_str existing \<noteq> path_str (node_canonical n) | None \<Rightarrow> False)
          then Inl ErrProjectionInvalidNode
          else
            let s1 = (if gm_has (is_canonical s) (node_id n) then s
                      else s\<lparr>is_canonical := gm_put (node_id n) (node_canonical n) (is_canonical s)\<rparr>)
            in if (case gm_get (plane_map s1 plane) (node_id n) of
                     Some existing \<Rightarrow> path_str existing \<noteq> path_str (node_path n) | None \<Rightarrow> False)
               then Inl ErrProjectionInvalidNode
               else
                 let s2 = (if gm_has (plane_map s1 plane) (node_id n) then s1
                           else s1\<lparr>is_planes := gm_put plane
                                  (gm_put (node_id n) (node_path n) (plane_map s1 plane)) (is_planes s1)\<rparr>);
                     s3 = (if plane = ServicePlane
                           then s2\<lparr>is_service := insert (node_id n) (is_service s2)\<rparr> else s2)
                 in index_nodes plane s3 ns)"

fun index_projections :: "index_state \<Rightarrow> plane_projection list \<Rightarrow> projection_error + index_state" where
  "index_projections s [] = Inr s"
| "index_projections s (p # ps) =
     (case projection_validate p of
        Some e \<Rightarrow> Inl e
      | None \<Rightarrow>
          let s1 = (if gm_has (is_planes s) (prj_plane p) then s
                    else s\<lparr>is_planes := gm_put (prj_plane p) [] (is_planes s)\<rparr>)
          in case index_nodes (prj_plane p) s1 (prj_nodes p) of
               Inl e \<Rightarrow> Inl e
             | Inr s2 \<Rightarrow> index_projections s2 ps)"

definition build_canonical_index :: "plane_projection list \<Rightarrow> projection_error + canonical_index" where
  "build_canonical_index projections =
     (case index_projections \<lparr>is_canonical = [], is_planes = [], is_service = {}\<rparr> projections of
        Inl e \<Rightarrow> Inl e
      | Inr s \<Rightarrow>
          if list_ex (\<lambda>p. prj_plane p = ServicePlane) projections \<and>
             list_ex (\<lambda>(plane, pm). plane \<noteq> ServicePlane \<and> list_ex (\<lambda>(i, _). i \<notin> is_service s) pm)
               (is_planes s)
          then Inl ErrProjectionInvalidNode
          else Inr \<lparr>ci_canonical = Some (is_canonical s), ci_planes = Some (is_planes s)\<rparr>)"

section \<open>Plane and portal indexes\<close>

record plane_index =
  pi_plane :: string
  pi_nodes_by_id :: "(node_id, node) gomap"
  pi_paths :: "(string, node) gomap"
  pi_edges_by_id :: "(edge_id, edge) gomap"
  pi_edges_from :: "(node_id, edge list) gomap"
  pi_edges_to :: "(node_id, edge list) gomap"
  pi_edge_counts :: nat

fun plane_index_nodes ::
  "(node_id, node) gomap \<Rightarrow> (string, node) gomap \<Rightarrow> node list \<Rightarrow>
     projection_error + (node_id, node) gomap \<times> (string, node) gomap" where
  "plane_index_nodes by_id paths [] = Inr (by_id, paths)"
| "plane_index_nodes by_id paths (n # ns) =
     (if gm_has by_id (node_id n) then Inl ErrPortalDuplicateNode
      else plane_index_nodes (gm_put (node_id n) n by_id) (gm_put (path_str (node_path n)) n paths) ns)"

text \<open>Appending to a missing entry of a map of slices starts from the nil slice.\<close>

definition slice_of :: "('k, 'x list) gomap \<Rightarrow> 'k \<Rightarrow> 'x list" where
  "slice_of m k = (case gm_get m k of None \<Rightarrow> [] | Some xs \<Rightarrow> xs)"

fun plane_index_edges ::
  "(edge_id, edge) gomap \<Rightarrow> (node_id, edge list) gomap \<Rightarrow> (node_id, edge list) gomap \<Rightarrow> edge list \<Rightarrow>
     projection_error + (edge_id, edge) gomap \<times> (node_id, edge list) gomap \<times> (node_id, edge list) gomap"
where
  "plane_index_edges by_id from_m to_m [] = Inr (by_id, from_m, to_m)"
| "plane_index_edges by_id from_m to_m (e # es) =
     (if gm_has by_id (edge_id e) then Inl ErrPortalDuplicateEdge
      else plane_index_edges (gm_put (edge_id e) e by_id)
             (gm_put (edge_from e) (slice_of from_m (edge_from e) @ [e]) from_m)
             (gm_put (edge_to e) (slice_of to_m (edge_to e) @ [e]) to_m) es)"

definition new_plane_index :: "plane_projection \<Rightarrow> projection_error + plane_index" where
  "new_plane_index p =
     (case projection_validate p of
        Some e \<Rightarrow> Inl e
      | None \<Rightarrow>
          case plane_index_nodes [] [] (prj_nodes p) of
            Inl e \<Rightarrow> Inl e
          | Inr (by_id, paths) \<Rightarrow>
              case plane_index_edges [] [] [] (prj_edges p) of
                Inl e \<Rightarrow> Inl e
              | Inr (edges, from_m, to_m) \<Rightarrow>
                  Inr \<lparr>pi_plane = prj_plane p, pi_nodes_by_id = by_id, pi_paths = paths,
                       pi_edges_by_id = edges, pi_edges_from = from_m, pi_edges_to = to_m,
                       pi_edge_counts = length (prj_edges p)\<rparr>)"

text \<open>Methods of \<open>*PlaneIndex\<close>; a nil receiver is \<open>None\<close>.\<close>

definition plane_index_plane :: "plane_index option \<Rightarrow> string" where
  "plane_index_plane ix = (case ix of None \<Rightarrow> [] | Some x \<Rightarrow> pi_plane x)"

definition node_by_id :: "plane_index option \<Rightarrow> node_id \<Rightarrow> node option" where
  "node_by_id ix i = (case ix of None \<Rightarrow> None | Some x \<Rightarrow> gm_get (pi_nodes_by_id x) i)"

definition node_by_canonical :: "plane_index option \<Rightarrow> projection_path \<Rightarrow> projection_error + node option" where
  "node_by_canonical ix canonical =
     (case ix of None \<Rightarrow> Inr None
      | Some _ \<Rightarrow> (case stable_node_id canonical of Inl e \<Rightarrow> Inl e | Inr i \<Rightarrow> Inr (node_by_id ix i)))"

definition node_by_path :: "plane_index option \<Rightarrow> projection_path \<Rightarrow> projection_error + node option" where
  "node_by_path ix path =
     (case ix of None \<Rightarrow> Inr None
      | Some x \<Rightarrow>
          case path_validate path of Some e \<Rightarrow> Inl e
          | None \<Rightarrow>
              if path_plane path \<noteq> pi_plane x then Inl ErrProjectionInvalidPlane
              else Inr (gm_get (pi_paths x) (path_str path)))"

definition edge_by_id :: "plane_index option \<Rightarrow> edge_id \<Rightarrow> edge option" where
  "edge_by_id ix i = (case ix of None \<Rightarrow> None | Some x \<Rightarrow> gm_get (pi_edges_by_id x) i)"

definition edges_from :: "plane_index option \<Rightarrow> node_id \<Rightarrow> edge list" where
  "edges_from ix i = (case ix of None \<Rightarrow> [] | Some x \<Rightarrow> slice_of (pi_edges_from x) i)"

definition edges_to :: "plane_index option \<Rightarrow> node_id \<Rightarrow> edge list" where
  "edges_to ix i = (case ix of None \<Rightarrow> [] | Some x \<Rightarrow> slice_of (pi_edges_to x) i)"

definition edge_count :: "plane_index option \<Rightarrow> nat" where
  "edge_count ix = (case ix of None \<Rightarrow> 0 | Some x \<Rightarrow> pi_edge_counts x)"

record portal_index =
  portal_planes :: "(string, plane_index) gomap option"

fun portal_index_planes ::
  "(string, plane_index) gomap \<Rightarrow> plane_projection list \<Rightarrow> projection_error + (string, plane_index) gomap"
where
  "portal_index_planes planes [] = Inr planes"
| "portal_index_planes planes (p # ps) =
     (if gm_has planes (prj_plane p) then Inl ErrPortalDuplicatePlane
      else case new_plane_index p of
        Inl e \<Rightarrow> Inl e
      | Inr ix \<Rightarrow> portal_index_planes (gm_put (prj_plane p) ix planes) ps)"

definition new_portal_index :: "plane_projection list \<Rightarrow> projection_error + portal_index" where
  "new_portal_index projections =
     (if length projections = 0 then Inr \<lparr>portal_planes = None\<rparr>
      else case portal_index_planes [] projections of
        Inl e \<Rightarrow> Inl e | Inr planes \<Rightarrow> Inr \<lparr>portal_planes = Some planes\<rparr>)"

definition portal_plane_index :: "portal_index \<Rightarrow> string \<Rightarrow> plane_index option" where
  "portal_plane_index portal plane =
     (case portal_planes portal of None \<Rightarrow> None | Some m \<Rightarrow> gm_get m plane)"

definition portal_node_by_canonical ::
  "portal_index \<Rightarrow> string \<Rightarrow> projection_path \<Rightarrow> projection_error + node option" where
  "portal_node_by_canonical portal plane canonical =
     (case portal_plane_index portal plane of
        None \<Rightarrow> Inr None | Some ix \<Rightarrow> node_by_canonical (Some ix) canonical)"

definition portal_edge_by_id :: "portal_index \<Rightarrow> string \<Rightarrow> edge_id \<Rightarrow> edge option" where
  "portal_edge_by_id portal plane i =
     (case portal_plane_index portal plane of None \<Rightarrow> None | Some ix \<Rightarrow> edge_by_id (Some ix) i)"

text \<open>\<open>PortalIndexForEntry\<close>: \<open>None\<close> is a nil entry, else the entry's projections.\<close>

definition portal_index_for_entry :: "plane_projection list option \<Rightarrow> projection_error + portal_index" where
  "portal_index_for_entry entry =
     (case entry of None \<Rightarrow> Inl ErrPortalInvalidEntry | Some projections \<Rightarrow> new_portal_index projections)"

section \<open>Paths and their texts\<close>

definition segment_ok :: "path_segment \<Rightarrow> bool" where
  "segment_ok s \<longleftrightarrow> trim_space (seg_name s) \<noteq> [] \<and> CHR ''/'' \<notin> set (seg_name s) \<and>
     CHR '':'' \<notin> set (seg_name s) \<and> hd (seg_name s) \<noteq> CHR ''@''"

definition path_ok :: "projection_path \<Rightarrow> bool" where
  "path_ok p \<longleftrightarrow> plane_name_ok (path_plane p) \<and> (\<forall>s \<in> set (path_segments p). segment_ok s)"

lemma plane_name_ok_iff:
  "plane_name_ok plane \<longleftrightarrow> trim_space plane \<noteq> [] \<and> CHR ''/'' \<notin> set plane \<and> CHR '':'' \<notin> set plane"
  by (auto simp: plane_name_ok_def contains_any_iff)

lemma segment_validate_None: "segment_validate s = None \<longleftrightarrow> segment_ok s"
  using trim_space_nonempty [of "seg_name s"]
  by (cases "seg_name s") (auto simp: segment_validate_def segment_ok_def contains_any_iff)

lemma segments_validate_None: "segments_validate i ss = None \<longleftrightarrow> (\<forall>s \<in> set ss. segment_ok s)"
  by (induction i ss rule: segments_validate.induct) (simp_all add: segment_validate_None)

lemma path_validate_None: "path_validate p = None \<longleftrightarrow> path_ok p"
  by (auto simp: path_validate_def path_ok_def plane_name_ok_def segments_validate_None)

lemma segment_str_ok:
  "segment_ok s \<Longrightarrow> segment_str s \<noteq> [] \<and> CHR ''/'' \<notin> set (segment_str s)"
  using trim_space_nonempty [of "seg_name s"] by (auto simp: segment_ok_def segment_str_def)

lemma segment_str_inj: "segment_ok s \<Longrightarrow> segment_ok t \<Longrightarrow> segment_str s = segment_str t \<Longrightarrow> s = t"
  using trim_space_nonempty [of "seg_name s"] trim_space_nonempty [of "seg_name t"]
  by (cases s, cases t) (auto simp: segment_ok_def segment_str_def split: if_splits)

lemma segments_str_inj:
  "\<forall>s \<in> set ss. segment_ok s \<Longrightarrow> \<forall>t \<in> set ts. segment_ok t \<Longrightarrow>
     map segment_str ss = map segment_str ts \<Longrightarrow> ss = ts"
  by (induction ss ts rule: list_induct2') (auto intro: segment_str_inj)

text \<open>The text of a valid path determines the path.\<close>

interpretation pp: keyed path_str path_ok
proof unfold_locales
  fix p q assume p: "path_ok p" and q: "path_ok q" and eq: "path_str p = path_str q"
  have ne: "path_plane p \<noteq> []" "path_plane q \<noteq> []" "CHR '':'' \<notin> set (path_plane p)"
    "CHR '':'' \<notin> set (path_plane q)"
    using p q trim_space_nonempty by (auto simp: path_ok_def plane_name_ok_iff)
  have "path_plane p @ CHR '':'' # (CHR ''/'' # str_join ''/'' (map segment_str (path_segments p))) =
      path_plane q @ CHR '':'' # (CHR ''/'' # str_join ''/'' (map segment_str (path_segments q)))"
    using eq ne by (simp add: path_str_def)
  then have pl: "path_plane p = path_plane q"
    and j: "str_join ''/'' (map segment_str (path_segments p)) = str_join ''/'' (map segment_str (path_segments q))"
    using sep_unique [OF ne(3,4)] by auto
  have "\<forall>x \<in> set (map segment_str (path_segments p)). CHR ''/'' \<notin> set x \<and> x \<noteq> []"
    "\<forall>x \<in> set (map segment_str (path_segments q)). CHR ''/'' \<notin> set x \<and> x \<noteq> []"
    using p q segment_str_ok by (auto simp: path_ok_def)
  from str_join_inj [OF this j] have "path_segments p = path_segments q"
    using p q segments_str_inj by (simp add: path_ok_def)
  with pl show "p = q" by (cases p, cases q) simp
qed

lemma stable_node_id_Inr:
  "stable_node_id c = Inr i \<longleftrightarrow> path_ok c \<and> path_plane c = ServicePlane \<and> i = path_str c"
  by (auto simp: stable_node_id_def path_validate_None [symmetric] split: option.splits)

lemma path_str_nonempty: "path_ok p \<Longrightarrow> path_str p \<noteq> []"
  using trim_space_nonempty [of "path_plane p"] by (simp add: path_ok_def plane_name_ok_iff path_str_def)

section \<open>Validation\<close>

definition node_ok :: "string \<Rightarrow> node \<Rightarrow> bool" where
  "node_ok plane n \<longleftrightarrow> node_id n \<noteq> [] \<and> path_ok (node_path n) \<and> path_plane (node_path n) = plane \<and>
     path_ok (node_canonical n) \<and> path_plane (node_canonical n) = ServicePlane"

definition edge_ok :: "node_id set \<Rightarrow> edge \<Rightarrow> bool" where
  "edge_ok ids e \<longleftrightarrow> edge_id e \<noteq> [] \<and> edge_from e \<noteq> [] \<and> edge_to e \<noteq> [] \<and>
     edge_from e \<in> ids \<and> edge_to e \<in> ids"

text \<open>What \<open>Projection.Validate\<close> accepts.\<close>

definition projection_ok :: "plane_projection \<Rightarrow> bool" where
  "projection_ok p \<longleftrightarrow> plane_name_ok (prj_plane p) \<and>
     (\<forall>n \<in> set (prj_nodes p). node_ok (prj_plane p) n) \<and>
     distinct (map node_path (prj_nodes p)) \<and>
     (\<forall>n \<in> set (prj_nodes p). \<forall>m \<in> set (prj_nodes p). node_id n = node_id m \<longrightarrow>
        node_canonical n = node_canonical m) \<and>
     (\<forall>e \<in> set (prj_edges p). edge_ok (node_id ` set (prj_nodes p)) e)"

text \<open>What the node loop accepts, from paths and canonical paths already seen.\<close>

definition nodes_consistent :: "projection_path set \<Rightarrow> (node_id, projection_path) gomap \<Rightarrow> node list \<Rightarrow> bool" where
  "nodes_consistent paths by_id ns \<longleftrightarrow> distinct (map node_path ns) \<and> node_path ` set ns \<inter> paths = {} \<and>
     (\<forall>n \<in> set ns. \<forall>m \<in> set ns. node_id n = node_id m \<longrightarrow> node_canonical n = node_canonical m) \<and>
     (\<forall>n \<in> set ns. \<forall>c. gm_get by_id (node_id n) = Some c \<longrightarrow> c = node_canonical n)"

lemma path_str_eq: "path_ok p \<Longrightarrow> path_ok q \<Longrightarrow> path_str p = path_str q \<longleftrightarrow> p = q"
  using pp.key_inj by blast

lemma path_str_mem: "path_ok p \<Longrightarrow> \<forall>q \<in> P. path_ok q \<Longrightarrow> path_str p \<in> path_str ` P \<longleftrightarrow> p \<in> P"
  using pp.key_inj by auto

definition add_canonical ::
  "node \<Rightarrow> (node_id, projection_path) gomap \<Rightarrow> (node_id, projection_path) gomap" where
  "add_canonical n m = (if gm_has m (node_id n) then m else gm_put (node_id n) (node_canonical n) m)"

lemma validate_nodes_step:
  assumes P: "\<forall>q \<in> P. path_ok q" and bi: "\<forall>i c. gm_get by_id i = Some c \<longrightarrow> path_ok c"
  shows "validate_nodes plane (path_str ` P) by_id (n # ns) = Inr m \<longleftrightarrow>
     node_ok plane n \<and> node_path n \<notin> P \<and>
     (\<forall>c. gm_get by_id (node_id n) = Some c \<longrightarrow> c = node_canonical n) \<and>
     validate_nodes plane (path_str ` insert (node_path n) P) (add_canonical n by_id) ns = Inr m"
proof (cases "node_ok plane n")
  case True
  then have v: "path_validate (node_path n) = None" "path_validate (node_canonical n) = None"
    "path_ok (node_path n)" "path_ok (node_canonical n)"
    by (simp_all add: node_ok_def path_validate_None)
  show ?thesis
  proof (cases "gm_get by_id (node_id n)")
    case None
    then show ?thesis
      using True v path_str_mem [OF v(3) P]
      by (simp add: node_ok_def add_canonical_def gm_has_def)
  next
    case (Some c)
    then have "path_str c = path_str (node_canonical n) \<longleftrightarrow> c = node_canonical n"
      using bi v(4) path_str_eq by blast
    then show ?thesis
      using True v path_str_mem [OF v(3) P] Some
      by (auto simp: node_ok_def add_canonical_def gm_has_def)
  qed
next
  case False
  then show ?thesis
    by (auto simp: node_ok_def path_validate_None [symmetric] split: option.splits if_splits)
qed

lemma add_canonical_get:
  "gm_get (add_canonical n m) i =
     (if i = node_id n \<and> gm_get m i = None then Some (node_canonical n) else gm_get m i)"
  by (auto simp: add_canonical_def gm_has_def)

lemma pairs_insert:
  assumes "\<And>a b. P a b \<Longrightarrow> P b a" and "\<And>a. P a a"
  shows "(\<forall>a \<in> insert n S. \<forall>b \<in> insert n S. P a b) \<longleftrightarrow>
     (\<forall>m \<in> S. P n m) \<and> (\<forall>a \<in> S. \<forall>b \<in> S. P a b)"
  using assms by blast

lemma nodes_consistent_Cons:
  "nodes_consistent P by_id (n # ns) \<longleftrightarrow> node_path n \<notin> P \<and>
     (\<forall>c. gm_get by_id (node_id n) = Some c \<longrightarrow> c = node_canonical n) \<and>
     nodes_consistent (insert (node_path n) P) (add_canonical n by_id) ns"
proof -
  let ?same = "\<lambda>a b. node_id a = node_id b \<longrightarrow> node_canonical a = node_canonical b"
  let ?new = "\<forall>m \<in> set ns. \<forall>c. gm_get (add_canonical n by_id) (node_id m) = Some c \<longrightarrow> c = node_canonical m"
  let ?old = "\<forall>m \<in> set ns. \<forall>c. gm_get by_id (node_id m) = Some c \<longrightarrow> c = node_canonical m"
  have new: "?new \<longleftrightarrow> ?old \<and> (gm_get by_id (node_id n) = None \<longrightarrow> (\<forall>m \<in> set ns. ?same n m))"
  proof -
    have key: "(\<forall>c. gm_get (add_canonical n by_id) (node_id m) = Some c \<longrightarrow> c = node_canonical m) \<longleftrightarrow>
        (\<forall>c. gm_get by_id (node_id m) = Some c \<longrightarrow> c = node_canonical m) \<and>
        (gm_get by_id (node_id n) = None \<longrightarrow> ?same n m)" for m
      by (cases "node_id n = node_id m"; cases "gm_get by_id (node_id n)") (auto simp: add_canonical_get)
    show ?thesis unfolding key by blast
  qed
  have pairs: "(\<forall>a \<in> set (n # ns). \<forall>b \<in> set (n # ns). ?same a b) \<longleftrightarrow>
      (\<forall>m \<in> set ns. ?same n m) \<and> (\<forall>a \<in> set ns. \<forall>b \<in> set ns. ?same a b)"
    using pairs_insert [of ?same n "set ns"] by (simp del: insert_iff)
  let ?all = "\<forall>a \<in> set ns. \<forall>b \<in> set ns. ?same a b"
  have l: "nodes_consistent P by_id (n # ns) \<longleftrightarrow>
      (node_path n \<notin> node_path ` set ns \<and> distinct (map node_path ns)) \<and>
      (node_path n \<notin> P \<and> node_path ` set ns \<inter> P = {}) \<and> ((\<forall>m \<in> set ns. ?same n m) \<and> ?all) \<and>
      ((\<forall>c. gm_get by_id (node_id n) = Some c \<longrightarrow> c = node_canonical n) \<and> ?old)"
  proof -
    have d: "distinct (map node_path (n # ns)) \<longleftrightarrow> node_path n \<notin> node_path ` set ns \<and> distinct (map node_path ns)"
      by simp
    have i: "node_path ` set (n # ns) \<inter> P = {} \<longleftrightarrow> node_path n \<notin> P \<and> node_path ` set ns \<inter> P = {}"
      by auto
    have k: "(\<forall>m \<in> set (n # ns). \<forall>c. gm_get by_id (node_id m) = Some c \<longrightarrow> c = node_canonical m) \<longleftrightarrow>
        (\<forall>c. gm_get by_id (node_id n) = Some c \<longrightarrow> c = node_canonical n) \<and> ?old"
      by (simp only: list.set ball_simps)
    show ?thesis unfolding nodes_consistent_def d i pairs k ..
  qed
  have r: "nodes_consistent (insert (node_path n) P) (add_canonical n by_id) ns \<longleftrightarrow>
      distinct (map node_path ns) \<and> (node_path n \<notin> node_path ` set ns \<and> node_path ` set ns \<inter> P = {}) \<and>
      ?all \<and> ?new"
  proof -
    have "node_path ` set ns \<inter> insert (node_path n) P = {} \<longleftrightarrow>
        node_path n \<notin> node_path ` set ns \<and> node_path ` set ns \<inter> P = {}"
      by (simp add: Int_insert_right)
    then show ?thesis unfolding nodes_consistent_def by (simp only:)
  qed
  have same: "(\<forall>m \<in> set ns. ?same n m)" if "gm_get by_id (node_id n) = Some (node_canonical n)" ?old
  proof (intro ballI impI)
    fix m assume m: "m \<in> set ns" "node_id n = node_id m"
    then have "gm_get by_id (node_id m) = Some (node_canonical n)" using that(1) by simp
    then show "node_canonical n = node_canonical m" using that(2) m(1) by blast
  qed
  have sel: "(\<forall>m \<in> set ns. ?same n m) \<and> ?old \<longleftrightarrow> ?new"
    if "\<forall>c. gm_get by_id (node_id n) = Some c \<longrightarrow> c = node_canonical n"
    using same that by (cases "gm_get by_id (node_id n)") (auto simp only: new option.distinct option.inject)
  define A where "A \<longleftrightarrow> (\<forall>c. gm_get by_id (node_id n) = Some c \<longrightarrow> c = node_canonical n)"
  define X where "X \<longleftrightarrow> (\<forall>m \<in> set ns. ?same n m)"
  define Y where "Y \<longleftrightarrow> ?old" define Z where "Z \<longleftrightarrow> ?new" define W where "W \<longleftrightarrow> ?all"
  have "A \<Longrightarrow> X \<and> Y \<longleftrightarrow> Z" using sel unfolding A_def X_def Y_def Z_def by (simp only:)
  then show ?thesis
    unfolding l r A_def [symmetric] X_def [symmetric] Y_def [symmetric] Z_def [symmetric] W_def [symmetric]
    by blast
qed

lemma add_canonical_ok:
  "\<forall>i c. gm_get by_id i = Some c \<longrightarrow> path_ok c \<Longrightarrow> node_ok plane n \<Longrightarrow>
     \<forall>i c. gm_get (add_canonical n by_id) i = Some c \<longrightarrow> path_ok c"
  by (auto simp: add_canonical_def node_ok_def)

lemma add_canonical_keys: "gm_keys (add_canonical n m) = insert (node_id n) (gm_keys m)"
  by (auto simp: add_canonical_def gm_has_def gm_keys_iff)

lemma validate_nodes_Inr:
  "\<forall>q \<in> P. path_ok q \<Longrightarrow> \<forall>i c. gm_get by_id i = Some c \<longrightarrow> path_ok c \<Longrightarrow>
     (\<exists>m. validate_nodes plane (path_str ` P) by_id ns = Inr m) \<longleftrightarrow>
     (\<forall>n \<in> set ns. node_ok plane n) \<and> nodes_consistent P by_id ns"
proof (induction ns arbitrary: P by_id)
  case (Cons n ns)
  show ?case
  proof (cases "node_ok plane n")
    case True
    then have "\<forall>q \<in> insert (node_path n) P. path_ok q" using Cons.prems(1) by (simp add: node_ok_def)
    from Cons.IH [OF this add_canonical_ok [OF Cons.prems(2) True]] show ?thesis
      unfolding validate_nodes_step [OF Cons.prems] nodes_consistent_Cons using True by auto
  next
    case False
    then show ?thesis unfolding validate_nodes_step [OF Cons.prems] by auto
  qed
qed (simp add: nodes_consistent_def)

lemma validate_nodes_keys:
  "\<forall>q \<in> P. path_ok q \<Longrightarrow> \<forall>i c. gm_get by_id i = Some c \<longrightarrow> path_ok c \<Longrightarrow>
     validate_nodes plane (path_str ` P) by_id ns = Inr m \<Longrightarrow> gm_keys m = gm_keys by_id \<union> node_id ` set ns"
proof (induction ns arbitrary: P by_id)
  case (Cons n ns)
  note step = Cons.prems(3) [unfolded validate_nodes_step [OF Cons.prems(1,2)]]
  then have "\<forall>q \<in> insert (node_path n) P. path_ok q" using Cons.prems(1) by (simp add: node_ok_def)
  from Cons.IH [OF this add_canonical_ok [OF Cons.prems(2)]] step
  have "gm_keys m = gm_keys (add_canonical n by_id) \<union> node_id ` set ns" by blast
  then show ?case by (simp add: add_canonical_keys)
qed simp

lemma validate_edges_None:
  "validate_edges by_id es = None \<longleftrightarrow> (\<forall>e \<in> set es. edge_ok (gm_keys by_id) e)"
  by (induction es) (auto simp: edge_ok_def gm_keys_iff)

lemma projection_validate_None: "projection_validate p = None \<longleftrightarrow> projection_ok p"
proof -
  have ex: "(\<exists>m. validate_nodes (prj_plane p) {} [] (prj_nodes p) = Inr m) \<longleftrightarrow>
      (\<forall>n \<in> set (prj_nodes p). node_ok (prj_plane p) n) \<and> nodes_consistent {} [] (prj_nodes p)"
    using validate_nodes_Inr [of "{}" "[]" "prj_plane p" "prj_nodes p"] by simp
  show ?thesis
  proof (cases "validate_nodes (prj_plane p) {} [] (prj_nodes p)")
    case (Inl e)
    then show ?thesis
      using ex by (simp add: projection_validate_def projection_ok_def nodes_consistent_def) blast
  next
    case (Inr m)
    have "gm_keys m = node_id ` set (prj_nodes p)"
      using validate_nodes_keys [of "{}" "[]" "prj_plane p" "prj_nodes p" m] Inr by simp
    then have e: "validate_edges m (prj_edges p) = None \<longleftrightarrow>
        (\<forall>e \<in> set (prj_edges p). edge_ok (node_id ` set (prj_nodes p)) e)"
      by (simp add: validate_edges_None)
    have n: "(\<forall>n \<in> set (prj_nodes p). node_ok (prj_plane p) n) \<and> nodes_consistent {} [] (prj_nodes p)"
      using ex Inr by blast
    have "projection_validate p = None \<longleftrightarrow> plane_name_ok (prj_plane p) \<and> validate_edges m (prj_edges p) = None"
      using Inr by (simp add: projection_validate_def plane_name_ok_def)
    moreover have "distinct (map node_path (prj_nodes p))"
      "\<forall>n \<in> set (prj_nodes p). \<forall>m \<in> set (prj_nodes p). node_id n = node_id m \<longrightarrow>
         node_canonical n = node_canonical m"
      using n unfolding nodes_consistent_def by blast+
    ultimately show ?thesis unfolding e projection_ok_def using n by blast
  qed
qed

end
