(* ===== verification/Reg_Index.thy ===== *)
theory Reg_Index
  imports Reg_Projection
begin

text \<open>
  What the canonical index and the portal index answer, against the projections they are
  built from: a representation relation between the scanned nodes and the maps, kept by every
  pass of the loops, and the conditions under which the builders return an index.
\<close>

section \<open>The index represents the scanned nodes\<close>

text \<open>A scanned node with the plane of its projection.\<close>

type_synonym scanned = "string \<times> node"

text \<open>The id is the text of the canonical path; a service path is its own canonical path.\<close>

definition aligned :: "string \<Rightarrow> node \<Rightarrow> bool" where
  "aligned plane n \<longleftrightarrow> node_id n = path_str (node_canonical n) \<and>
     (plane = ServicePlane \<longrightarrow> node_path n = node_canonical n)"

text \<open>One plane gives one path to a node id.\<close>

definition one_path :: "scanned set \<Rightarrow> bool" where
  "one_path S \<longleftrightarrow> (\<forall>plane n m. (plane, n) \<in> S \<longrightarrow> (plane, m) \<in> S \<longrightarrow> node_id n = node_id m \<longrightarrow>
     node_path n = node_path m)"

definition all_scanned :: "plane_projection list \<Rightarrow> scanned set" where
  "all_scanned ps = {(prj_plane p, n) |p n. p \<in> set ps \<and> n \<in> set (prj_nodes p)}"

definition rep :: "scanned set \<Rightarrow> index_state \<Rightarrow> bool" where
  "rep S s \<longleftrightarrow> gm_ok (is_planes s) \<and> one_path S \<and>
     (\<forall>plane n. (plane, n) \<in> S \<longrightarrow> node_ok plane n \<and> aligned plane n) \<and>
     (\<forall>i c. gm_get (is_canonical s) i = Some c \<longleftrightarrow> (\<exists>plane n. (plane, n) \<in> S \<and> node_id n = i \<and> node_canonical n = c)) \<and>
     (\<forall>plane i q. gm_get (plane_map s plane) i = Some q \<longleftrightarrow>
        (\<exists>n. (plane, n) \<in> S \<and> node_id n = i \<and> node_path n = q)) \<and>
     (\<forall>i. i \<in> is_service s \<longleftrightarrow> (\<exists>n. (ServicePlane, n) \<in> S \<and> node_id n = i))"

lemma repD:
  assumes "rep S s"
  shows "gm_ok (is_planes s)" "one_path S" "(plane, n) \<in> S \<Longrightarrow> node_ok plane n \<and> aligned plane n"
    "gm_get (is_canonical s) i = Some c \<longleftrightarrow> (\<exists>plane n. (plane, n) \<in> S \<and> node_id n = i \<and> node_canonical n = c)"
    "gm_get (plane_map s plane) i = Some q \<longleftrightarrow> (\<exists>n. (plane, n) \<in> S \<and> node_id n = i \<and> node_path n = q)"
    "i \<in> is_service s \<longleftrightarrow> (\<exists>n. (ServicePlane, n) \<in> S \<and> node_id n = i)"
  using assms unfolding rep_def by blast+

text \<open>What one pass of the node loop does to the maps when it does not return an error.\<close>

definition index_node :: "string \<Rightarrow> index_state \<Rightarrow> node \<Rightarrow> index_state" where
  "index_node plane s n = s\<lparr>
     is_canonical := (if gm_has (is_canonical s) (node_id n) then is_canonical s
                      else gm_put (node_id n) (node_canonical n) (is_canonical s)),
     is_planes := (if gm_has (plane_map s plane) (node_id n) then is_planes s
                   else gm_put plane (gm_put (node_id n) (node_path n) (plane_map s plane)) (is_planes s)),
     is_service := (if plane = ServicePlane then insert (node_id n) (is_service s) else is_service s)\<rparr>"

lemma one_pathD:
  "one_path S \<Longrightarrow> (plane, n) \<in> S \<Longrightarrow> (plane, m) \<in> S \<Longrightarrow> node_id n = node_id m \<Longrightarrow> node_path n = node_path m"
  unfolding one_path_def by blast

lemma one_path_insert:
  "one_path (insert (plane, n) S) \<longleftrightarrow> one_path S \<and>
     (\<forall>m. (plane, m) \<in> S \<longrightarrow> node_id n = node_id m \<longrightarrow> node_path n = node_path m)"
proof
  show "one_path (insert (plane, n) S) \<Longrightarrow> one_path S \<and>
     (\<forall>m. (plane, m) \<in> S \<longrightarrow> node_id n = node_id m \<longrightarrow> node_path n = node_path m)"
    unfolding one_path_def by blast
  assume A: "one_path S \<and> (\<forall>m. (plane, m) \<in> S \<longrightarrow> node_id n = node_id m \<longrightarrow> node_path n = node_path m)"
  show "one_path (insert (plane, n) S)"
    unfolding one_path_def
  proof (intro allI impI)
    fix pl a b
    assume "(pl, a) \<in> insert (plane, n) S" "(pl, b) \<in> insert (plane, n) S" and id: "node_id a = node_id b"
    then consider "pl = plane" "a = n" "b = n" | "pl = plane" "a = n" "(plane, b) \<in> S"
      | "pl = plane" "(plane, a) \<in> S" "b = n" | "(pl, a) \<in> S" "(pl, b) \<in> S" by blast
    then show "node_path a = node_path b"
    proof cases
      case 1
      then show ?thesis by (simp only:)
    next
      case 2
      then show ?thesis using A id by blast
    next
      case 3
      then have "node_path n = node_path a" using A id by metis
      then show ?thesis unfolding 3(3) by (rule sym)
    next
      case 4
      show ?thesis by (rule one_pathD [OF _ 4 id]) (use A in blast)
    qed
  qed
qed

lemma one_path_mono: "one_path T \<Longrightarrow> S \<subseteq> T \<Longrightarrow> one_path S"
  unfolding one_path_def by blast

lemma index_nodes_step:
  assumes "rep S s" and n: "node_ok plane n"
  shows "index_nodes plane s (n # ns) = Inr t \<longleftrightarrow> aligned plane n \<and> one_path (insert (plane, n) S) \<and>
     index_nodes plane (index_node plane s n) ns = Inr t"
proof -
  note R = repD [OF assms(1)]
  have n': "path_ok (node_path n)" "path_ok (node_canonical n)" "path_plane (node_canonical n) = ServicePlane"
    using n by (simp_all add: node_ok_def)
  then have st: "stable_node_id (node_canonical n) = Inr (path_str (node_canonical n))"
    by (simp add: stable_node_id_Inr)
  have al: "aligned plane n \<longleftrightarrow> node_id n = path_str (node_canonical n) \<and>
      \<not> (plane = ServicePlane \<and> path_str (node_path n) \<noteq> path_str (node_canonical n))"
    using path_str_eq [OF n'(1,2)] by (auto simp: aligned_def)
  have can: "\<not> (case gm_get (is_canonical s) (node_id n) of
      Some existing \<Rightarrow> path_str existing \<noteq> path_str (node_canonical n) | None \<Rightarrow> False)"
    if "node_id n = path_str (node_canonical n)"
  proof (cases "gm_get (is_canonical s) (node_id n)")
    case (Some c)
    then obtain pl m where "(pl, m) \<in> S" "node_id m = node_id n" "node_canonical m = c" using R(4) by blast
    then show ?thesis using Some R(3) that by (auto simp: aligned_def)
  qed simp
  have op: "one_path (insert (plane, n) S) \<longleftrightarrow> \<not> (case gm_get (plane_map s plane) (node_id n) of
      Some existing \<Rightarrow> path_str existing \<noteq> path_str (node_path n) | None \<Rightarrow> False)"
  proof (cases "gm_get (plane_map s plane) (node_id n)")
    case None
    then have "\<forall>m. (plane, m) \<in> S \<longrightarrow> node_id m \<noteq> node_id n" using R(5) by (metis option.distinct(1))
    then have "\<forall>m. (plane, m) \<in> S \<longrightarrow> node_id n \<noteq> node_id m" by metis
    then show ?thesis using None R(2) by (simp add: one_path_insert)
  next
    case (Some q)
    then obtain m where m: "(plane, m) \<in> S" "node_id m = node_id n" "node_path m = q" using R(5) by blast
    then have "path_ok q" using R(3) by (auto simp: node_ok_def)
    then have q: "path_str q = path_str (node_path n) \<longleftrightarrow> q = node_path n" using n'(1) path_str_eq by blast
    have "(\<forall>m. (plane, m) \<in> S \<longrightarrow> node_id n = node_id m \<longrightarrow> node_path n = node_path m) \<longleftrightarrow> q = node_path n"
    proof
      show "\<forall>m. (plane, m) \<in> S \<longrightarrow> node_id n = node_id m \<longrightarrow> node_path n = node_path m \<Longrightarrow> q = node_path n"
        using m by force
      show "\<forall>m'. (plane, m') \<in> S \<longrightarrow> node_id n = node_id m' \<longrightarrow> node_path n = node_path m'" if "q = node_path n"
      proof (intro allI impI)
        fix m' assume "(plane, m') \<in> S" "node_id n = node_id m'"
        then have "node_path m = node_path m'" using one_pathD [OF R(2) m(1), of m'] m(2) by simp
        then show "node_path n = node_path m'" using m(3) that by simp
      qed
    qed
    then show ?thesis using Some R(2) q by (simp add: one_path_insert)
  qed
  show ?thesis
  proof (cases "aligned plane n")
    case False
    then show ?thesis unfolding al by (auto simp: st)
  next
    case True
    then have id: "node_id n = path_str (node_canonical n)"
      and sv: "\<not> (plane = ServicePlane \<and> path_str (node_path n) \<noteq> path_str (node_canonical n))"
      using al by blast+
    let ?clash = "case gm_get (plane_map s plane) (node_id n) of
      Some existing \<Rightarrow> path_str existing \<noteq> path_str (node_path n) | None \<Rightarrow> False"
    have pm: "plane_map (s\<lparr>is_canonical := c\<rparr>) plane = plane_map s plane" for c
      by (simp add: plane_map_def)
    have "index_nodes plane s (n # ns) =
        (if ?clash then Inl ErrProjectionInvalidNode else index_nodes plane (index_node plane s n) ns)"
    proof (cases ?clash)
      case True
      then show ?thesis
        using id sv can [OF id] by (cases "gm_has (is_canonical s) (node_id n)") (simp_all add: st pm Let_def)
    next
      case False
      then show ?thesis
        using id sv can [OF id]
        by (cases "gm_has (is_canonical s) (node_id n)"; cases "gm_has (plane_map s plane) (node_id n)")
          (simp_all add: st pm Let_def index_node_def)
    qed
    then show ?thesis using True op by simp
  qed
qed

text \<open>A map that is the graph of a function on a set stays one when an element is added.\<close>

lemma graph_add:
  assumes m: "\<forall>i c. gm_get m i = Some c \<longleftrightarrow> (\<exists>x \<in> S. f x = i \<and> g x = c)"
    and y: "\<forall>x \<in> S. f x = f y \<longrightarrow> g x = g y"
  shows "gm_get (if gm_has m (f y) then m else gm_put (f y) (g y) m) i = Some c \<longleftrightarrow>
     (\<exists>x \<in> insert y S. f x = i \<and> g x = c)"
proof (cases "i = f y")
  case True
  show ?thesis
  proof (cases "gm_get m (f y)")
    case None
    then have "\<not> (\<exists>x \<in> S. f x = f y)" using m by (metis option.distinct(1))
    then show ?thesis using True None by (auto simp: gm_has_def)
  next
    case (Some d)
    then obtain x where "x \<in> S" "f x = f y" "g x = d" using m by blast
    then have "d = g y" using y by blast
    then show ?thesis using True Some y by (auto simp: gm_has_def)
  qed
next
  case False
  then have "gm_get (if gm_has m (f y) then m else gm_put (f y) (g y) m) i = gm_get m i" by simp
  then show ?thesis using False m by auto
qed

lemma aligned_canonical:
  "node_ok p a \<Longrightarrow> node_ok q b \<Longrightarrow> aligned p a \<Longrightarrow> aligned q b \<Longrightarrow> node_id a = node_id b \<Longrightarrow>
     node_canonical a = node_canonical b"
  using path_str_eq by (simp add: aligned_def node_ok_def)

lemma plane_map_put:
  "gm_get (is_planes t) = (gm_get (is_planes s))(plane \<mapsto> pm) \<Longrightarrow>
     plane_map t pl = (if pl = plane then pm else plane_map s pl)"
  by (simp add: plane_map_def)

lemma rep_index_node:
  assumes "rep S s" and n: "node_ok plane n" "aligned plane n" "one_path (insert (plane, n) S)"
  shows "rep (insert (plane, n) S) (index_node plane s n)"
proof -
  note R = repD [OF assms(1)]
  let ?t = "index_node plane s n"
  let ?C = "{m. \<exists>pl. (pl, m) \<in> S}" and ?P = "{m. (plane, m) \<in> S}"
  have pm: "plane_map ?t pl = (if pl = plane
      then (if gm_has (plane_map s plane) (node_id n) then plane_map s plane
            else gm_put (node_id n) (node_path n) (plane_map s plane)) else plane_map s pl)" for pl
    by (simp add: index_node_def plane_map_def)
  have can: "gm_get (is_canonical ?t) i = Some c \<longleftrightarrow> (\<exists>x \<in> insert n ?C. node_id x = i \<and> node_canonical x = c)" for i c
  proof -
    have "\<forall>i c. gm_get (is_canonical s) i = Some c \<longleftrightarrow> (\<exists>x \<in> ?C. node_id x = i \<and> node_canonical x = c)"
      using R(4) by simp blast
    moreover have "\<forall>x \<in> ?C. node_id x = node_id n \<longrightarrow> node_canonical x = node_canonical n"
      using R(3) n(1,2) aligned_canonical by blast
    ultimately show ?thesis
      using graph_add [of "is_canonical s" ?C node_id node_canonical n i c] by (simp add: index_node_def)
  qed
  have pat: "gm_get (plane_map ?t plane) i = Some q \<longleftrightarrow> (\<exists>x \<in> insert n ?P. node_id x = i \<and> node_path x = q)" for i q
  proof -
    have "\<forall>i q. gm_get (plane_map s plane) i = Some q \<longleftrightarrow> (\<exists>x \<in> ?P. node_id x = i \<and> node_path x = q)"
      using R(5) by simp
    moreover have "\<forall>x \<in> ?P. node_id x = node_id n \<longrightarrow> node_path x = node_path n"
    proof (intro ballI impI)
      fix x assume x: "x \<in> ?P" and id: "node_id x = node_id n"
      show "node_path x = node_path n" by (rule one_pathD [OF n(3), of plane, OF _ _ id]) (use x in simp_all)
    qed
    ultimately show ?thesis
      using graph_add [of "plane_map s plane" ?P node_id node_path n i q] by (simp add: pm)
  qed
  show ?thesis
    unfolding rep_def
  proof (intro conjI allI)
    show "gm_ok (is_planes ?t)" using R(1) by (simp add: index_node_def)
    show "one_path (insert (plane, n) S)" by (rule n(3))
    show "(pl, m) \<in> insert (plane, n) S \<longrightarrow> node_ok pl m \<and> aligned pl m" for pl m
      using R(3) n(1,2) by blast
    show "gm_get (is_canonical ?t) i = Some c \<longleftrightarrow>
        (\<exists>pl m. (pl, m) \<in> insert (plane, n) S \<and> node_id m = i \<and> node_canonical m = c)" for i c
      unfolding can by blast
    show "gm_get (plane_map ?t pl) i = Some q \<longleftrightarrow>
        (\<exists>m. (pl, m) \<in> insert (plane, n) S \<and> node_id m = i \<and> node_path m = q)" for pl i q
    proof (cases "pl = plane")
      case True
      then show ?thesis using pat [of i q] by simp blast
    next
      case False
      then show ?thesis using R(5) [of pl i q] by (simp add: pm)
    qed
    show "i \<in> is_service ?t \<longleftrightarrow> (\<exists>m. (ServicePlane, m) \<in> insert (plane, n) S \<and> node_id m = i)" for i
      using R(6) [of i] by (auto simp: index_node_def)
  qed
qed

lemma index_nodes_rep:
  "rep S s \<Longrightarrow> \<forall>n \<in> set ns. node_ok plane n \<Longrightarrow> index_nodes plane s ns = Inr t \<Longrightarrow>
     rep (S \<union> Pair plane ` set ns) t"
proof (induction ns arbitrary: S s)
  case (Cons n ns)
  then have n: "node_ok plane n" by simp
  note step = index_nodes_step [OF Cons.prems(1) n, THEN iffD1, OF Cons.prems(3)]
  then have "rep (insert (plane, n) S) (index_node plane s n)"
    using rep_index_node [OF Cons.prems(1) n] by blast
  with Cons.IH [OF this] Cons.prems(2) step show ?case by simp
qed simp

lemma index_nodes_Inr:
  "rep S s \<Longrightarrow> \<forall>n \<in> set ns. node_ok plane n \<Longrightarrow>
     (\<exists>t. index_nodes plane s ns = Inr t) \<longleftrightarrow>
     (\<forall>n \<in> set ns. aligned plane n) \<and> one_path (S \<union> Pair plane ` set ns)"
proof (induction ns arbitrary: S s)
  case Nil
  then show ?case using repD(2) by simp
next
  case (Cons n ns)
  then have n: "node_ok plane n" by simp
  have sub: "one_path (S \<union> Pair plane ` set (n # ns)) \<Longrightarrow> one_path (insert (plane, n) S)"
    by (rule one_path_mono) auto
  show ?case
  proof (cases "aligned plane n \<and> one_path (insert (plane, n) S)")
    case True
    then have "rep (insert (plane, n) S) (index_node plane s n)"
      using rep_index_node [OF Cons.prems(1) n] by blast
    from Cons.IH [OF this] Cons.prems(2) show ?thesis
      unfolding index_nodes_step [OF Cons.prems(1) n] using True by simp
  next
    case False
    then show ?thesis
      unfolding index_nodes_step [OF Cons.prems(1) n] using sub by auto
  qed
qed

lemma all_scanned_Cons:
  "all_scanned (p # ps) = Pair (prj_plane p) ` set (prj_nodes p) \<union> all_scanned ps"
  by (auto simp: all_scanned_def)

text \<open>The entry of a plane is created before its nodes are scanned.\<close>

definition open_plane :: "string \<Rightarrow> index_state \<Rightarrow> index_state" where
  "open_plane plane s = (if gm_has (is_planes s) plane then s
     else s\<lparr>is_planes := gm_put plane [] (is_planes s)\<rparr>)"

lemma rep_open_plane: "rep S s \<Longrightarrow> rep S (open_plane plane s)"
proof -
  assume r: "rep S s"
  have pm: "plane_map (open_plane plane s) pl = plane_map s pl" for pl
    by (auto simp: plane_map_def open_plane_def gm_has_def)
  have o: "is_canonical (open_plane plane s) = is_canonical s" "is_service (open_plane plane s) = is_service s"
    "gm_ok (is_planes s) \<Longrightarrow> gm_ok (is_planes (open_plane plane s))"
    by (simp_all add: open_plane_def)
  show ?thesis using r unfolding rep_def pm o(1,2) using o(3) by blast
qed

lemma index_projections_step:
  "index_projections s (p # ps) = Inr t \<longleftrightarrow> projection_ok p \<and>
     (\<exists>u. index_nodes (prj_plane p) (open_plane (prj_plane p) s) (prj_nodes p) = Inr u \<and>
       index_projections u ps = Inr t)"
  by (auto simp: Let_def open_plane_def projection_validate_None [symmetric] split: option.splits sum.splits)

lemma index_projections_rep:
  "rep S s \<Longrightarrow> index_projections s ps = Inr t \<Longrightarrow> rep (S \<union> all_scanned ps) t"
proof (induction ps arbitrary: S s)
  case Nil
  then show ?case by (simp add: all_scanned_def)
next
  case (Cons p ps)
  then obtain u where p: "projection_ok p"
    and u: "index_nodes (prj_plane p) (open_plane (prj_plane p) s) (prj_nodes p) = Inr u"
      "index_projections u ps = Inr t"
    using index_projections_step by blast
  have "\<forall>n \<in> set (prj_nodes p). node_ok (prj_plane p) n" using p by (simp add: projection_ok_def)
  from index_nodes_rep [OF rep_open_plane [OF Cons.prems(1)] this u(1)]
  show ?case unfolding all_scanned_Cons Un_assoc [symmetric] by (rule Cons.IH [OF _ u(2)])
qed

lemma index_projections_Inr:
  "rep S s \<Longrightarrow> (\<exists>t. index_projections s ps = Inr t) \<longleftrightarrow>
     (\<forall>p \<in> set ps. projection_ok p) \<and> (\<forall>(plane, n) \<in> all_scanned ps. aligned plane n) \<and>
     one_path (S \<union> all_scanned ps)"
proof (induction ps arbitrary: S s)
  case Nil
  then show ?case using repD(2) by (simp add: all_scanned_def)
next
  case (Cons p ps)
  let ?N = "Pair (prj_plane p) ` set (prj_nodes p)"
  show ?case
  proof (cases "projection_ok p")
    case False
    then show ?thesis unfolding index_projections_step by simp
  next
    case True
    then have nodes: "\<forall>n \<in> set (prj_nodes p). node_ok (prj_plane p) n" by (simp add: projection_ok_def)
    note r = rep_open_plane [OF Cons.prems, of "prj_plane p"]
    note first = index_nodes_Inr [OF r nodes]
    have al: "(\<forall>(plane, n) \<in> all_scanned (p # ps). aligned plane n) \<longleftrightarrow>
        (\<forall>n \<in> set (prj_nodes p). aligned (prj_plane p) n) \<and> (\<forall>(plane, n) \<in> all_scanned ps. aligned plane n)"
      by (simp add: all_scanned_Cons ball_Un)
    have un: "S \<union> all_scanned (p # ps) = (S \<union> ?N) \<union> all_scanned ps" by (auto simp: all_scanned_Cons)
    show ?thesis
    proof (cases "\<exists>u. index_nodes (prj_plane p) (open_plane (prj_plane p) s) (prj_nodes p) = Inr u")
      case False
      then have "\<not> ((\<forall>n \<in> set (prj_nodes p). aligned (prj_plane p) n) \<and> one_path (S \<union> ?N))" using first by blast
      moreover have "one_path (S \<union> all_scanned (p # ps)) \<Longrightarrow> one_path (S \<union> ?N)"
        unfolding un by (rule one_path_mono) auto
      ultimately show ?thesis
        using False unfolding index_projections_step al by blast
    next
      case True
      then obtain u where u: "index_nodes (prj_plane p) (open_plane (prj_plane p) s) (prj_nodes p) = Inr u" by blast
      have "(\<exists>t. index_projections s (p # ps) = Inr t) \<longleftrightarrow> (\<exists>t. index_projections u ps = Inr t)"
        unfolding index_projections_step using u \<open>projection_ok p\<close> by simp
      also have "\<dots> \<longleftrightarrow> (\<forall>p \<in> set ps. projection_ok p) \<and> (\<forall>(plane, n) \<in> all_scanned ps. aligned plane n) \<and>
          one_path (S \<union> all_scanned (p # ps))"
        unfolding un by (rule Cons.IH [OF index_nodes_rep [OF r nodes u]])
      finally show ?thesis
        using first True \<open>projection_ok p\<close> unfolding al by simp
    qed
  qed
qed

text \<open>With a service projection every node id of another plane is the id of a service node.\<close>

definition service_closed :: "plane_projection list \<Rightarrow> bool" where
  "service_closed ps \<longleftrightarrow> ServicePlane \<in> prj_plane ` set ps \<longrightarrow>
     (\<forall>(plane, n) \<in> all_scanned ps. \<exists>m. (ServicePlane, m) \<in> all_scanned ps \<and> node_id m = node_id n)"

lemma rep_empty: "rep {} \<lparr>is_canonical = [], is_planes = [], is_service = {}\<rparr>"
  by (simp add: rep_def one_path_def plane_map_def)

lemma plane_map_Some:
  "gm_get (plane_map s plane) i = Some q \<longleftrightarrow>
     (\<exists>pm. gm_get (is_planes s) plane = Some pm \<and> gm_get pm i = Some q)"
  by (simp add: plane_map_def split: option.splits)

lemma service_check:
  assumes "rep S s"
  shows "list_ex (\<lambda>(plane, pm). plane \<noteq> ServicePlane \<and> list_ex (\<lambda>(i, _). i \<notin> is_service s) pm) (is_planes s) \<longleftrightarrow>
     (\<exists>(plane, n) \<in> S. \<not> (\<exists>m. (ServicePlane, m) \<in> S \<and> node_id m = node_id n))"
proof -
  note R = repD [OF assms]
  have "list_ex (\<lambda>(plane, pm). plane \<noteq> ServicePlane \<and> list_ex (\<lambda>(i, _). i \<notin> is_service s) pm) (is_planes s) \<longleftrightarrow>
      (\<exists>plane pm. gm_get (is_planes s) plane = Some pm \<and> plane \<noteq> ServicePlane \<and>
        (\<exists>i \<in> gm_keys pm. i \<notin> is_service s))"
    by (auto simp: list_ex_iff gm_in_iff [OF R(1), symmetric] gm_keys_def) force+
  also have "\<dots> \<longleftrightarrow> (\<exists>plane i q. plane \<noteq> ServicePlane \<and> gm_get (plane_map s plane) i = Some q \<and> i \<notin> is_service s)"
    unfolding plane_map_Some Bex_def gm_keys_iff by blast
  also have "\<dots> \<longleftrightarrow> (\<exists>plane n. (plane, n) \<in> S \<and> \<not> (\<exists>m. (ServicePlane, m) \<in> S \<and> node_id m = node_id n))"
    (is "?l \<longleftrightarrow> ?r")
  proof
    assume ?l
    then obtain plane i q where i: "gm_get (plane_map s plane) i = Some q" "i \<notin> is_service s" by blast
    then obtain n where "(plane, n) \<in> S" "node_id n = i" unfolding R(5) by blast
    then show ?r using i(2) unfolding R(6) by blast
  next
    assume ?r
    then obtain plane n where n: "(plane, n) \<in> S" "\<not> (\<exists>m. (ServicePlane, m) \<in> S \<and> node_id m = node_id n)"
      by blast
    then have "plane \<noteq> ServicePlane" by blast
    moreover have "gm_get (plane_map s plane) (node_id n) = Some (node_path n)" unfolding R(5) using n(1) by blast
    moreover have "node_id n \<notin> is_service s" unfolding R(6) by (rule n(2))
    ultimately show ?l by blast
  qed
  also have "\<dots> \<longleftrightarrow> (\<exists>(plane, n) \<in> S. \<not> (\<exists>m. (ServicePlane, m) \<in> S \<and> node_id m = node_id n))"
    unfolding Bex_def split_paired_Ex by simp
  finally show ?thesis .
qed

text \<open>What the index says when it is built from the projections.\<close>

definition index_of :: "plane_projection list \<Rightarrow> canonical_index \<Rightarrow> bool" where
  "index_of ps ix \<longleftrightarrow>
     (\<forall>i c. index_canonical ix i = Some c \<longleftrightarrow>
        (\<exists>(plane, n) \<in> all_scanned ps. node_id n = i \<and> node_canonical n = c)) \<and>
     (\<forall>plane i q. index_plane_path ix plane i = Some q \<longleftrightarrow>
        (\<exists>n. (plane, n) \<in> all_scanned ps \<and> node_id n = i \<and> node_path n = q))"

lemma build_index_rep:
  assumes "build_canonical_index ps = Inr ix"
  shows "index_of ps ix"
proof -
  let ?z = "\<lparr>is_canonical = [], is_planes = [], is_service = {}\<rparr> :: index_state"
  obtain s where s: "index_projections ?z ps = Inr s"
    "ix = \<lparr>ci_canonical = Some (is_canonical s), ci_planes = Some (is_planes s)\<rparr>"
    using assms by (auto simp: build_canonical_index_def split: sum.splits if_splits)
  have r: "rep (all_scanned ps) s" using index_projections_rep [OF rep_empty s(1)] by simp
  have pl: "index_plane_path ix plane i = gm_get (plane_map s plane) i" for plane i
    by (simp add: index_plane_path_def s(2) plane_map_def split: option.splits)
  show ?thesis
    unfolding index_of_def pl using repD(4,5) [OF r]
    by (simp add: index_canonical_def s(2) Bex_def split_paired_Ex) 
qed

lemma build_index_Inr:
  "(\<exists>ix. build_canonical_index ps = Inr ix) \<longleftrightarrow>
     (\<forall>p \<in> set ps. projection_ok p) \<and> (\<forall>(plane, n) \<in> all_scanned ps. aligned plane n) \<and>
     one_path (all_scanned ps) \<and> service_closed ps"
proof -
  let ?z = "\<lparr>is_canonical = [], is_planes = [], is_service = {}\<rparr> :: index_state"
  note ex = index_projections_Inr [OF rep_empty, of ps, unfolded Un_empty_left]
  show ?thesis
  proof (cases "index_projections ?z ps")
    case (Inl e)
    then show ?thesis using ex by (simp add: build_canonical_index_def) blast
  next
    case (Inr s)
    have r: "rep (all_scanned ps) s" using index_projections_rep [OF rep_empty Inr] by simp
    have "list_ex (\<lambda>p. prj_plane p = ServicePlane) ps \<longleftrightarrow> ServicePlane \<in> prj_plane ` set ps"
      by (simp add: list_ex_iff image_iff eq_commute [of ServicePlane])
    then have "(\<exists>ix. build_canonical_index ps = Inr ix) \<longleftrightarrow> service_closed ps"
      using Inr service_check [OF r] by (auto simp: build_canonical_index_def service_closed_def split: if_splits)
    then show ?thesis using ex Inr by blast
  qed
qed

section \<open>Portal indexes\<close>

lemma option_ext: "(\<And>c. a = Some c \<longleftrightarrow> b = Some c) \<Longrightarrow> a = b"
  by (cases a; cases b) auto

lemma map_of_key:
  "distinct (map k xs) \<Longrightarrow> map_of (map (\<lambda>x. (k x, x)) xs) i = Some x \<longleftrightarrow> x \<in> set xs \<and> k x = i"
  by (subst map_of_eq_Some_iff) (auto simp: comp_def)

lemma fold_put_key:
  assumes "distinct (map k xs)"
  shows "gm_get (fold (\<lambda>x m. gm_put (k x) x m) xs []) i = Some x \<longleftrightarrow> x \<in> set xs \<and> k x = i"
proof -
  have "fold (\<lambda>x m. gm_put (k x) x m) xs [] = fold (\<lambda>(k, v). gm_put k v) (map (\<lambda>x. (k x, x)) xs) []"
    by (simp add: fold_map comp_def)
  then have "gm_get (fold (\<lambda>x m. gm_put (k x) x m) xs []) = map_of (map (\<lambda>x. (k x, x)) (rev xs))"
    using gm.fold_put_get [of "map (\<lambda>x. (k x, x)) xs" "[]"]
    by (simp add: rev_map map_add_def fun_eq_iff split: option.splits)
  then show ?thesis using map_of_key [of k "rev xs" i x] assms by (simp add: rev_map [symmetric])
qed

lemma plane_index_nodes_Inr:
  "plane_index_nodes by_id paths ns = Inr (a, b) \<longleftrightarrow>
     distinct (map node_id ns) \<and> node_id ` set ns \<inter> gm_keys by_id = {} \<and>
     a = fold (\<lambda>n m. gm_put (node_id n) n m) ns by_id \<and>
     b = fold (\<lambda>n m. gm_put (path_str (node_path n)) n m) ns paths"
proof (induction ns arbitrary: by_id paths)
  case (Cons n ns)
  show ?case
    by (simp add: Cons.IH gm_has_def gm_keys_iff) (auto simp: gm_keys_iff)
qed auto

lemma slice_of_put [simp]: "slice_of (gm_put k v m) j = (if j = k then v else slice_of m j)"
  by (simp add: slice_of_def)

lemma plane_index_edges_Inr:
  "plane_index_edges by_id from_m to_m es = Inr (a, f, t) \<Longrightarrow>
     distinct (map edge_id es) \<and> edge_id ` set es \<inter> gm_keys by_id = {} \<and>
     a = fold (\<lambda>e m. gm_put (edge_id e) e m) es by_id \<and>
     (\<forall>i. slice_of f i = slice_of from_m i @ filter (\<lambda>e. edge_from e = i) es) \<and>
     (\<forall>i. slice_of t i = slice_of to_m i @ filter (\<lambda>e. edge_to e = i) es)"
proof (induction es arbitrary: by_id from_m to_m)
  case (Cons e es)
  then have new: "\<not> gm_has by_id (edge_id e)" by (auto split: if_splits)
  with Cons.prems have "plane_index_edges (gm_put (edge_id e) e by_id)
      (gm_put (edge_from e) (slice_of from_m (edge_from e) @ [e]) from_m)
      (gm_put (edge_to e) (slice_of to_m (edge_to e) @ [e]) to_m) es = Inr (a, f, t)" by simp
  from Cons.IH [OF this] new show ?case
    by (auto simp: gm_has_def gm_keys_iff)
qed simp

lemma plane_index_edges_total:
  "(\<exists>r. plane_index_edges by_id from_m to_m es = Inr r) \<longleftrightarrow>
     distinct (map edge_id es) \<and> edge_id ` set es \<inter> gm_keys by_id = {}"
proof (induction es arbitrary: by_id from_m to_m)
  case (Cons e es)
  show ?case by (simp add: Cons.IH gm_has_def gm_keys_iff del: split_paired_Ex) (auto simp: gm_keys_iff)
qed auto

text \<open>The answers of one plane of the portal.\<close>

definition plane_answers :: "plane_projection \<Rightarrow> plane_index option \<Rightarrow> bool" where
  "plane_answers p ix \<longleftrightarrow> plane_index_plane ix = prj_plane p \<and>
     (\<forall>i n. node_by_id ix i = Some n \<longleftrightarrow> n \<in> set (prj_nodes p) \<and> node_id n = i) \<and>
     (\<forall>q n. node_by_path ix q = Inr (Some n) \<longleftrightarrow> n \<in> set (prj_nodes p) \<and> node_path n = q) \<and>
     (\<forall>i e. edge_by_id ix i = Some e \<longleftrightarrow> e \<in> set (prj_edges p) \<and> edge_id e = i) \<and>
     (\<forall>i. edges_from ix i = filter (\<lambda>e. edge_from e = i) (prj_edges p)) \<and>
     (\<forall>i. edges_to ix i = filter (\<lambda>e. edge_to e = i) (prj_edges p)) \<and>
     edge_count ix = length (prj_edges p)"

lemma new_plane_index_answers:
  assumes "new_plane_index p = Inr ix"
  shows "plane_answers p (Some ix)"
proof -
  obtain a b c f t where ok: "projection_ok p"
    and nodes: "plane_index_nodes [] [] (prj_nodes p) = Inr (a, b)"
    and edges: "plane_index_edges [] [] [] (prj_edges p) = Inr (c, f, t)"
    and ix: "ix = \<lparr>pi_plane = prj_plane p, pi_nodes_by_id = a, pi_paths = b, pi_edges_by_id = c,
       pi_edges_from = f, pi_edges_to = t, pi_edge_counts = length (prj_edges p)\<rparr>"
    using assms
    by (auto simp: new_plane_index_def projection_validate_None [symmetric] split: option.splits sum.splits)
  note N = nodes [unfolded plane_index_nodes_Inr]
  note E = plane_index_edges_Inr [OF edges]
  have paths_ok: "\<forall>n \<in> set (prj_nodes p). path_ok (node_path n) \<and> path_plane (node_path n) = prj_plane p"
    using ok by (simp add: projection_ok_def node_ok_def)
  have "distinct (map path_str (map node_path (prj_nodes p)))"
    by (subst pp.distinct_keys) (use ok paths_ok in \<open>auto simp: projection_ok_def\<close>)
  then have dp: "distinct (map (\<lambda>n. path_str (node_path n)) (prj_nodes p))" by (simp add: comp_def)
  have byp: "node_by_path (Some ix) q = Inr (Some n) \<longleftrightarrow> n \<in> set (prj_nodes p) \<and> node_path n = q" for q n
  proof (cases "path_ok q \<and> path_plane q = prj_plane p")
    case True
    then have "path_validate q = None" by (simp add: path_validate_None)
    then have "node_by_path (Some ix) q = Inr (gm_get b (path_str q))"
      using True by (simp add: node_by_path_def ix)
    moreover have "gm_get b (path_str q) = Some n \<longleftrightarrow> n \<in> set (prj_nodes p) \<and> path_str (node_path n) = path_str q"
      using N fold_put_key [OF dp] by simp
    ultimately show ?thesis using paths_ok True path_str_eq by auto
  next
    case False
    then show ?thesis
      using paths_ok by (auto simp: node_by_path_def ix path_validate_None [symmetric] split: option.splits)
  qed
  show ?thesis
    unfolding plane_answers_def
  proof (intro conjI allI)
    show "node_by_id (Some ix) i = Some n \<longleftrightarrow> n \<in> set (prj_nodes p) \<and> node_id n = i" for i n
      using N fold_put_key [of node_id "prj_nodes p"] by (simp add: node_by_id_def ix)
    show "edge_by_id (Some ix) i = Some e \<longleftrightarrow> e \<in> set (prj_edges p) \<and> edge_id e = i" for i e
      using E fold_put_key [of edge_id "prj_edges p"] by (simp add: edge_by_id_def ix)
    show "edges_from (Some ix) i = filter (\<lambda>e. edge_from e = i) (prj_edges p)" for i
      using E by (simp add: edges_from_def ix slice_of_def [of "[]"])
    show "edges_to (Some ix) i = filter (\<lambda>e. edge_to e = i) (prj_edges p)" for i
      using E by (simp add: edges_to_def ix slice_of_def [of "[]"])
    show "node_by_path (Some ix) q = Inr (Some n) \<longleftrightarrow> n \<in> set (prj_nodes p) \<and> node_path n = q" for q n
      by (rule byp)
  qed (simp_all add: plane_index_plane_def edge_count_def ix)
qed

text \<open>What \<open>newPlaneIndex\<close> accepts.\<close>

definition plane_indexable :: "plane_projection \<Rightarrow> bool" where
  "plane_indexable p \<longleftrightarrow> projection_ok p \<and> distinct (map node_id (prj_nodes p)) \<and>
     distinct (map edge_id (prj_edges p))"

lemma new_plane_index_Inr: "(\<exists>ix. new_plane_index p = Inr ix) \<longleftrightarrow> plane_indexable p"
proof -
  have n: "(\<exists>r. plane_index_nodes [] [] (prj_nodes p) = Inr r) \<longleftrightarrow> distinct (map node_id (prj_nodes p))"
    by (auto simp: plane_index_nodes_Inr)
  have e: "(\<exists>r. plane_index_edges [] [] [] (prj_edges p) = Inr r) \<longleftrightarrow> distinct (map edge_id (prj_edges p))"
    by (simp add: plane_index_edges_total del: split_paired_Ex)
  show ?thesis
    unfolding plane_indexable_def n [symmetric] e [symmetric] projection_validate_None [symmetric]
    by (auto simp: new_plane_index_def split: option.splits sum.splits)
qed

lemma portal_index_planes_Inr:
  "(\<exists>m. portal_index_planes planes ps = Inr m) \<longleftrightarrow>
     distinct (map prj_plane ps) \<and> prj_plane ` set ps \<inter> gm_keys planes = {} \<and> (\<forall>p \<in> set ps. plane_indexable p)"
proof (induction ps arbitrary: planes)
  case (Cons p ps)
  show ?case
  proof (cases "plane_indexable p")
    case True
    then obtain ix where "new_plane_index p = Inr ix" using new_plane_index_Inr by blast
    then show ?thesis
      using True by (simp add: Cons.IH gm_has_def) (auto simp: gm_keys_iff)
  next
    case False
    then have "\<nexists>ix. new_plane_index p = Inr ix" using new_plane_index_Inr by blast
    then show ?thesis using False by (auto split: sum.splits)
  qed
qed simp

lemma portal_index_planes_get:
  "portal_index_planes planes ps = Inr m \<Longrightarrow>
     gm_get m plane = (case find (\<lambda>p. prj_plane p = plane) ps of
        Some p \<Rightarrow> (case new_plane_index p of Inr ix \<Rightarrow> Some ix | Inl _ \<Rightarrow> None)
      | None \<Rightarrow> gm_get planes plane)"
proof (induction ps arbitrary: planes)
  case (Cons p ps)
  then obtain ix where ix: "new_plane_index p = Inr ix" "\<not> gm_has planes (prj_plane p)"
    "portal_index_planes (gm_put (prj_plane p) ix planes) ps = Inr m"
    by (auto split: if_splits sum.splits)
  have "prj_plane p \<notin> prj_plane ` set ps"
    using portal_index_planes_Inr [of "gm_put (prj_plane p) ix planes" ps] ix(3) by auto
  then have "find (\<lambda>q. prj_plane q = prj_plane p) ps = None" by (simp add: find_None_iff image_iff eq_commute [of "prj_plane p"])
  then show ?case
    using Cons.IH [OF ix(3)] ix(1) by (cases "prj_plane p = plane") (auto split: option.splits)
qed simp

lemma portal_answers:
  assumes "new_portal_index ps = Inr portal" and p: "p \<in> set ps"
  shows "plane_answers p (portal_plane_index portal (prj_plane p))"
proof -
  have ne: "length ps \<noteq> 0" using p by auto
  then obtain m where m: "portal_index_planes [] ps = Inr m" "portal = \<lparr>portal_planes = Some m\<rparr>"
    using assms(1) by (auto simp: new_portal_index_def split: sum.splits)
  then have d: "distinct (map prj_plane ps)" and ok: "\<exists>ix. new_plane_index p = Inr ix"
    using portal_index_planes_Inr [of "[]" ps] new_plane_index_Inr p by auto
  have "find (\<lambda>q. prj_plane q = prj_plane p) ps = Some p"
    using d p by (induction ps) auto
  then have "portal_plane_index portal (prj_plane p) = (case new_plane_index p of Inr ix \<Rightarrow> Some ix | Inl _ \<Rightarrow> None)"
    using portal_index_planes_get [OF m(1), of "prj_plane p"] by (simp add: portal_plane_index_def m(2))
  then show ?thesis using ok new_plane_index_answers by auto
qed

section \<open>A sample of two planes\<close>

definition sample_segment :: "string \<Rightarrow> path_segment" where
  "sample_segment x = \<lparr>seg_name = x, seg_location = False\<rparr>"

definition sample_canonical :: "string \<Rightarrow> projection_path" where
  "sample_canonical x = \<lparr>path_plane = ServicePlane, path_segments = [sample_segment ''ebus'', sample_segment x]\<rparr>"

definition sample_service :: plane_projection where
  "sample_service = \<lparr>prj_plane = ServicePlane,
     prj_nodes = [\<lparr>node_id = ''Service:/ebus/a'', node_path = sample_canonical ''a'', node_canonical = sample_canonical ''a''\<rparr>,
                  \<lparr>node_id = ''Service:/ebus/b'', node_path = sample_canonical ''b'', node_canonical = sample_canonical ''b''\<rparr>],
     prj_edges = [\<lparr>edge_id = ''Service:e'', edge_from = ''Service:/ebus/a'', edge_to = ''Service:/ebus/b''\<rparr>]\<rparr>"

definition sample_view :: plane_projection where
  "sample_view = \<lparr>prj_plane = ''Debug'',
     prj_nodes = [\<lparr>node_id = ''Service:/ebus/b'',
                   node_path = \<lparr>path_plane = ''Debug'', path_segments = [\<lparr>seg_name = ''b'', seg_location = True\<rparr>]\<rparr>,
                   node_canonical = sample_canonical ''b''\<rparr>],
     prj_edges = []\<rparr>"

lemma sample_builds:
  "(case build_canonical_index [sample_service, sample_view] of Inr ix \<Rightarrow>
      index_canonical ix ''Service:/ebus/b'' = Some (sample_canonical ''b'') | Inl _ \<Rightarrow> False)"
  "(case new_portal_index [sample_service, sample_view] of Inr _ \<Rightarrow> True | Inl _ \<Rightarrow> False)"
  by code_simp+

section \<open>Properties\<close>

text \<open>  \<open>Projection.Validate\<close> accepts exactly the projections whose plane name is not blank and free
  of separators, whose nodes have a nonempty id, a valid path on that plane and a valid canonical
  path on the service plane, whose paths are pairwise different, where one id always has one
  canonical path, and whose edges join ids of nodes of the projection.
\<close>

theorem projection_validate_exact:
  "projection_validate p = None \<longleftrightarrow> plane_name_ok (prj_plane p) \<and>
     (\<forall>n \<in> set (prj_nodes p). node_id n \<noteq> [] \<and>
        path_validate (node_path n) = None \<and> path_plane (node_path n) = prj_plane p \<and>
        path_validate (node_canonical n) = None \<and> path_plane (node_canonical n) = ServicePlane) \<and>
     distinct (map node_path (prj_nodes p)) \<and>
     (\<forall>n \<in> set (prj_nodes p). \<forall>m \<in> set (prj_nodes p). node_id n = node_id m \<longrightarrow>
        node_canonical n = node_canonical m) \<and>
     (\<forall>e \<in> set (prj_edges p). edge_id e \<noteq> [] \<and> edge_from e \<noteq> [] \<and> edge_to e \<noteq> [] \<and>
        edge_from e \<in> node_id ` set (prj_nodes p) \<and> edge_to e \<in> node_id ` set (prj_nodes p))"
  unfolding projection_validate_None path_validate_None projection_ok_def node_ok_def edge_ok_def ..

theorem projection_validate_exact_witness:
  "projection_validate sample_view = None \<and> distinct (map node_path (prj_nodes sample_view))"
proof -
  have ok: "projection_validate sample_view = None" by code_simp
  show ?thesis using projection_validate_exact [of sample_view] ok by blast
qed

text \<open>Stable node ids are injective: two canonical paths with the same id are the same path, and a
  node built by \<open>NewNode\<close> carries the id of its canonical path, lies on the service plane only at
  that path, and fails validation nowhere.
\<close>

theorem stable_ids_injective:
  assumes "new_node p c = Inr n" and "new_node q d = Inr m"
  shows "node_path n = p \<and> node_canonical n = c \<and> (node_id n = node_id m \<longleftrightarrow> c = d) \<and>
    (path_str p = path_str q \<longleftrightarrow> p = q) \<and> (path_plane p = ServicePlane \<longrightarrow> p = c) \<and>
    path_validate p = None \<and> path_validate c = None"
proof -
  have new: "path_ok p' \<and> path_ok c' \<and> path_plane c' = ServicePlane \<and>
      n' = \<lparr>node_id = path_str c', node_path = p', node_canonical = c'\<rparr> \<and>
      (path_plane p' = ServicePlane \<longrightarrow> path_str p' = path_str c')"
    if "new_node p' c' = Inr n'" for p' c' n'
    using that stable_node_id_Inr
    by (auto simp: new_node_def path_validate_None [symmetric] split: option.splits sum.splits if_splits)
  show ?thesis
    using new [OF assms(1)] new [OF assms(2)] path_str_eq [of p q] path_str_eq [of p c] path_str_eq [of c d]
    by (auto simp: path_validate_None)
qed

theorem stable_ids_injective_witness:
  "\<exists>n m. new_node (sample_canonical ''a'') (sample_canonical ''a'') = Inr n \<and>
     new_node (sample_canonical ''b'') (sample_canonical ''b'') = Inr m \<and> node_id n \<noteq> node_id m"
proof -
  have n: "new_node (sample_canonical ''a'') (sample_canonical ''a'') = Inr \<lparr>node_id = ''Service:/ebus/a'',
      node_path = sample_canonical ''a'', node_canonical = sample_canonical ''a''\<rparr>" by code_simp
  have m: "new_node (sample_canonical ''b'') (sample_canonical ''b'') = Inr \<lparr>node_id = ''Service:/ebus/b'',
      node_path = sample_canonical ''b'', node_canonical = sample_canonical ''b''\<rparr>" by code_simp
  have "sample_canonical ''a'' \<noteq> sample_canonical ''b''" by (simp add: sample_canonical_def sample_segment_def)
  then show ?thesis using stable_ids_injective [OF n m] n m by blast
qed

text \<open>  \<open>BuildCanonicalIndex\<close> returns an index exactly when every projection is valid, every node id is
  the text of its canonical path, service paths are canonical, a plane gives one path to an id,
  and, if there is a service projection, every id of another plane is an id of a service node.
\<close>

theorem canonical_index_accepts:
  "(\<exists>ix. build_canonical_index ps = Inr ix) \<longleftrightarrow>
     (\<forall>p \<in> set ps. projection_validate p = None) \<and>
     (\<forall>(plane, n) \<in> all_scanned ps. aligned plane n) \<and> one_path (all_scanned ps) \<and> service_closed ps"
  unfolding projection_validate_None by (rule build_index_Inr)

theorem canonical_index_accepts_witness:
  "one_path (all_scanned [sample_service, sample_view]) \<and> service_closed [sample_service, sample_view]"
proof -
  have "\<exists>ix. build_canonical_index [sample_service, sample_view] = Inr ix"
    using sample_builds(1) by (auto split: sum.splits)
  then show ?thesis unfolding canonical_index_accepts by blast
qed

text \<open>(C10)
  A canonical index answers exactly what the projections say: the canonical path of an id is the
  canonical path of the nodes with that id, the path of an id on a plane is the path of the node
  of that plane, and projections given in any other order build an index with the same answers.
\<close>

theorem canonical_index_answers:
  assumes "build_canonical_index ps = Inr ix"
  shows "(index_canonical ix i = Some c \<longleftrightarrow> (\<exists>p \<in> set ps. \<exists>n \<in> set (prj_nodes p). node_id n = i \<and> node_canonical n = c)) \<and>
    (index_plane_path ix plane i = Some q \<longleftrightarrow>
       (\<exists>p \<in> set ps. prj_plane p = plane \<and> (\<exists>n \<in> set (prj_nodes p). node_id n = i \<and> node_path n = q))) \<and>
    (index_canonical ix i = Some c \<longrightarrow> i = path_str c \<and> path_plane c = ServicePlane) \<and>
    (set qs = set ps \<longrightarrow> (\<exists>jx. build_canonical_index qs = Inr jx \<and> index_canonical jx = index_canonical ix \<and>
       index_plane_path jx = index_plane_path ix))"
proof -
  have scan: "(pl, n) \<in> all_scanned ps \<longleftrightarrow> (\<exists>p \<in> set ps. prj_plane p = pl \<and> n \<in> set (prj_nodes p))" for pl n
    by (auto simp: all_scanned_def)
  note ix = build_index_rep [OF assms]
  note can = ix [unfolded index_of_def, THEN conjunct1, rule_format]
  note pla = ix [unfolded index_of_def, THEN conjunct2, rule_format]
  have ex: "\<exists>ix. build_canonical_index ps = Inr ix" using assms by blast
  note acc = build_index_Inr [of ps, THEN iffD1, OF ex]
  have c1: "index_canonical ix i = Some c \<longleftrightarrow>
      (\<exists>p \<in> set ps. \<exists>n \<in> set (prj_nodes p). node_id n = i \<and> node_canonical n = c)"
    unfolding can Bex_def split_paired_Ex prod.case scan by blast
  have c2: "index_plane_path ix plane i = Some q \<longleftrightarrow>
      (\<exists>p \<in> set ps. prj_plane p = plane \<and> (\<exists>n \<in> set (prj_nodes p). node_id n = i \<and> node_path n = q))"
    unfolding pla scan by blast
  have c3: "i = path_str c \<and> path_plane c = ServicePlane" if "index_canonical ix i = Some c"
  proof -
    obtain p n where n: "p \<in> set ps" "n \<in> set (prj_nodes p)" "node_id n = i" "node_canonical n = c"
      using \<open>index_canonical ix i = Some c\<close> c1 by blast
    then have "(prj_plane p, n) \<in> all_scanned ps" using scan by blast
    then have "aligned (prj_plane p) n" using acc [THEN conjunct2, THEN conjunct1] by (auto dest: bspec)
    moreover have "projection_ok p" using acc [THEN conjunct1] n(1) by (rule bspec)
    then have "node_ok (prj_plane p) n" using n(2) by (simp add: projection_ok_def)
    ultimately show ?thesis using n by (simp add: aligned_def node_ok_def)
  qed
  have c4: "\<exists>jx. build_canonical_index qs = Inr jx \<and> index_canonical jx = index_canonical ix \<and>
      index_plane_path jx = index_plane_path ix" if "set qs = set ps"
  proof -
    have sc: "all_scanned qs = all_scanned ps" using that by (simp add: all_scanned_def)
    then have "service_closed qs = service_closed ps" using that by (simp add: service_closed_def)
    then have "\<exists>jx. build_canonical_index qs = Inr jx"
      unfolding build_index_Inr sc that using acc by simp
    then obtain jx where jx: "build_canonical_index qs = Inr jx" by blast
    note J = build_index_rep [OF jx, unfolded index_of_def sc]
    have "index_canonical jx i = index_canonical ix i" for i
      by (rule option_ext) (simp only: J [THEN conjunct1, rule_format] can)
    moreover have "index_plane_path jx pl i = index_plane_path ix pl i" for pl i
      by (rule option_ext) (simp only: J [THEN conjunct2, rule_format] pla)
    ultimately show ?thesis using jx by (auto simp: fun_eq_iff)
  qed
  show ?thesis by (rule conjI [OF c1 conjI [OF c2 conjI [OF impI [OF c3] impI [OF c4]]]])
qed

theorem canonical_index_answers_witness:
  "\<exists>ix. build_canonical_index [sample_service, sample_view] = Inr ix \<and>
     index_plane_path ix ''Debug'' ''Service:/ebus/b'' =
       Some \<lparr>path_plane = ''Debug'', path_segments = [\<lparr>seg_name = ''b'', seg_location = True\<rparr>]\<rparr> \<and>
     (\<exists>jx. build_canonical_index [sample_view, sample_service] = Inr jx \<and> index_canonical jx = index_canonical ix)"
proof -
  obtain ix where ix: "build_canonical_index [sample_service, sample_view] = Inr ix"
    using sample_builds(1) by (auto split: sum.splits)
  note A = canonical_index_answers [OF ix]
  have "index_plane_path ix ''Debug'' ''Service:/ebus/b'' =
      Some \<lparr>path_plane = ''Debug'', path_segments = [\<lparr>seg_name = ''b'', seg_location = True\<rparr>]\<rparr>"
    by (rule A [THEN conjunct2, THEN conjunct1, THEN iffD2]) (simp add: sample_service_def sample_view_def)
  moreover have "set [sample_view, sample_service] = set [sample_service, sample_view]" by auto
  ultimately show ?thesis
    using ix A [of _ _ _ _ "[sample_view, sample_service]", THEN conjunct2, THEN conjunct2, THEN conjunct2] by blast
qed

text \<open>  A portal index is built exactly from projections of different planes that are valid and have
  no two nodes and no two edges with one id, and each plane of it answers exactly: the node of
  an id, the node of a path, the edge of an id, the edges leaving and entering a node in the
  order of the projection, and the number of edges.
\<close>

theorem portal_exact:
  assumes "p \<in> set ps"
  shows "((\<exists>portal. new_portal_index ps = Inr portal) \<longleftrightarrow>
       distinct (map prj_plane ps) \<and> (\<forall>q \<in> set ps. projection_validate q = None \<and>
         distinct (map node_id (prj_nodes q)) \<and> distinct (map edge_id (prj_edges q)))) \<and>
     (\<forall>portal. new_portal_index ps = Inr portal \<longrightarrow>
       (let ix = portal_plane_index portal (prj_plane p) in
        plane_index_plane ix = prj_plane p \<and>
        (\<forall>i n. node_by_id ix i = Some n \<longleftrightarrow> n \<in> set (prj_nodes p) \<and> node_id n = i) \<and>
        (\<forall>q n. node_by_path ix q = Inr (Some n) \<longleftrightarrow> n \<in> set (prj_nodes p) \<and> node_path n = q) \<and>
        (\<forall>i e. edge_by_id ix i = Some e \<longleftrightarrow> e \<in> set (prj_edges p) \<and> edge_id e = i) \<and>
        (\<forall>i. edges_from ix i = filter (\<lambda>e. edge_from e = i) (prj_edges p)) \<and>
        (\<forall>i. edges_to ix i = filter (\<lambda>e. edge_to e = i) (prj_edges p)) \<and>
        edge_count ix = length (prj_edges p)))"
proof -
  have "(\<exists>portal. new_portal_index ps = Inr portal) \<longleftrightarrow> (\<exists>m. portal_index_planes [] ps = Inr m)"
    using assms by (cases ps) (auto simp: new_portal_index_def split: sum.splits)
  also have "\<dots> \<longleftrightarrow> distinct (map prj_plane ps) \<and> (\<forall>q \<in> set ps. projection_validate q = None \<and>
         distinct (map node_id (prj_nodes q)) \<and> distinct (map edge_id (prj_edges q)))"
    by (simp add: portal_index_planes_Inr plane_indexable_def projection_validate_None)
  finally show ?thesis
    using portal_answers [OF _ assms] unfolding plane_answers_def Let_def by blast
qed

theorem portal_exact_witness:
  "\<exists>portal. new_portal_index [sample_service, sample_view] = Inr portal \<and>
     edges_from (portal_plane_index portal ServicePlane) ''Service:/ebus/a'' = prj_edges sample_service"
proof -
  obtain portal where ix: "new_portal_index [sample_service, sample_view] = Inr portal"
    using sample_builds(2) by (auto split: sum.splits)
  have "sample_service \<in> set [sample_service, sample_view]" by simp
  from portal_exact [OF this, THEN conjunct2, rule_format, OF ix]
  have "edges_from (portal_plane_index portal (prj_plane sample_service)) ''Service:/ebus/a'' =
      filter (\<lambda>e. edge_from e = ''Service:/ebus/a'') (prj_edges sample_service)"
    unfolding Let_def by blast
  then show ?thesis using ix by (simp add: sample_service_def)
qed

end
