(* ===== verification/Reg_Identity.thy ===== *)
theory Reg_Identity
  imports Go_Prelude
begin

text \<open>
  Device identities (\<open>registry/identity.go\<close> and the identity comparisons of
  \<open>registry_alias.go\<close> and \<open>registry_registration.go\<close>): normalized members, the key of a
  complete manufacturer/device/serial triple, the serial sentinels, and when two descriptions
  may belong to one device.
\<close>

record device_info =
  di_address :: byte
  di_manufacturer :: string
  di_device_id :: string
  di_serial_number :: string
  di_mac_address :: string
  di_software_version :: string
  di_hardware_version :: string

record physical_identity =
  ph_manufacturer :: string
  ph_device_id :: string
  ph_serial_number :: string
  ph_mac_address :: string
  ph_software_version :: string
  ph_hardware_version :: string

abbreviation stable_identity_key_prefix :: string where
  "stable_identity_key_prefix \<equiv> ''triple:''"

definition normalize_identity_part :: "string \<Rightarrow> string" where
  "normalize_identity_part value = to_upper (trim_space value)"

definition canonical_physical_identity :: "device_info \<Rightarrow> physical_identity" where
  "canonical_physical_identity info =
     \<lparr>ph_manufacturer = normalize_identity_part (di_manufacturer info),
      ph_device_id = normalize_identity_part (di_device_id info),
      ph_serial_number = normalize_identity_part (di_serial_number info),
      ph_mac_address = normalize_identity_part (di_mac_address info),
      ph_software_version = normalize_identity_part (di_software_version info),
      ph_hardware_version = normalize_identity_part (di_hardware_version info)\<rparr>"

text \<open>\<open>strings.TrimLeft(digits, "0")\<close>.\<close>

definition trim_left_zeros :: "string \<Rightarrow> string" where
  "trim_left_zeros s = dropWhile (\<lambda>c. c = CHR ''0'') s"

definition is_hex_upper :: "char \<Rightarrow> bool" where
  "is_hex_upper c \<longleftrightarrow> \<not> (((of_char c :: nat) < 48 \<or> (of_char c :: nat) > 57) \<and>
     ((of_char c :: nat) < 65 \<or> (of_char c :: nat) > 70))"

definition is_invalid_serial_sentinel :: "string \<Rightarrow> bool" where
  "is_invalid_serial_sentinel serial =
     (let normalized = normalize_identity_part serial;
          digits = trim_prefix normalized ''0X''
      in if digits = [] then False
         else if \<not> list_all is_hex_upper digits then False
         else let rest = trim_left_zeros digits
              in if rest = [] then True else rest = ''FFFFFFFF'' \<or> rest = ''7FFFFFFF'')"

definition is_qualified :: "physical_identity \<Rightarrow> bool" where
  "is_qualified p \<longleftrightarrow> ph_manufacturer p \<noteq> [] \<and> ph_device_id p \<noteq> [] \<and>
     ph_serial_number p \<noteq> [] \<and> \<not> is_invalid_serial_sentinel (ph_serial_number p)"

definition encode_identity_member :: "string \<Rightarrow> string" where
  "encode_identity_member member = nat_str (length member) @ '':'' @ member"

definition identity_key :: "physical_identity \<Rightarrow> string" where
  "identity_key p =
     (if \<not> is_qualified p then []
      else stable_identity_key_prefix @ encode_identity_member (ph_manufacturer p) @
        encode_identity_member (ph_device_id p) @ encode_identity_member (ph_serial_number p))"

definition is_stable_identity_key :: "string \<Rightarrow> bool" where
  "is_stable_identity_key key \<longleftrightarrow> has_prefix key stable_identity_key_prefix"

definition identity_part_agrees_or_missing :: "string \<Rightarrow> string \<Rightarrow> bool" where
  "identity_part_agrees_or_missing incoming current \<longleftrightarrow> incoming = [] \<or> incoming = current"

definition can_merge_identity :: "device_info \<Rightarrow> device_info \<Rightarrow> bool" where
  "can_merge_identity incoming existing =
     (let incoming_serial = normalize_identity_part (di_serial_number incoming);
          existing_serial = normalize_identity_part (di_serial_number existing);
          incoming_mac = normalize_identity_part (di_mac_address incoming);
          existing_mac = normalize_identity_part (di_mac_address existing)
      in if incoming_serial \<noteq> [] \<and> existing_serial \<noteq> [] \<and> incoming_serial \<noteq> existing_serial then False
         else if incoming_mac \<noteq> [] \<and> existing_mac \<noteq> [] \<and> incoming_mac \<noteq> existing_mac then False
         else True)"

definition has_conflicting_model_signature :: "device_info \<Rightarrow> device_info \<Rightarrow> bool" where
  "has_conflicting_model_signature incoming existing =
     (let incoming_device = normalize_identity_part (di_device_id incoming);
          existing_device = normalize_identity_part (di_device_id existing);
          incoming_software = normalize_identity_part (di_software_version incoming);
          existing_software = normalize_identity_part (di_software_version existing);
          incoming_hardware = normalize_identity_part (di_hardware_version incoming);
          existing_hardware = normalize_identity_part (di_hardware_version existing)
      in if incoming_device = [] \<or> existing_device = [] \<or> incoming_software = [] \<or>
            existing_software = [] \<or> incoming_hardware = [] \<or> existing_hardware = [] then False
         else incoming_device \<noteq> existing_device \<or> incoming_software \<noteq> existing_software \<or>
              incoming_hardware \<noteq> existing_hardware)"

section \<open>Normalization and keys\<close>

lemma normalize_idem [simp]:
  "normalize_identity_part (normalize_identity_part s) = normalize_identity_part s"
proof -
  have "to_upper (to_upper t) = to_upper t" for t by (simp add: to_upper_def)
  then show ?thesis by (simp add: normalize_identity_part_def trim_space_to_upper) (simp add: trim_space_def)
qed

lemma normalize_Nil [simp]: "normalize_identity_part [] = []"
  by (simp add: normalize_identity_part_def trim_space_def trim_by_Nil to_upper_def)

text \<open>A length-prefixed member is read back unambiguously, whatever follows it.\<close>

lemma encode_member_unique:
  assumes "encode_identity_member a @ x = encode_identity_member b @ y"
  shows "a = b \<and> x = y"
proof -
  have colon: "CHR '':'' \<notin> set (nat_str n)" for n
    using nat_str_digits [of n] not_digit_sign(3) by (auto simp: list_all_iff)
  have "nat_str (length a) @ CHR '':'' # (a @ x) = nat_str (length b) @ CHR '':'' # (b @ y)"
    using assms by (simp add: encode_identity_member_def)
  then have "nat_str (length a) = nat_str (length b) \<and> a @ x = b @ y"
    using sep_unique [OF colon colon] by blast
  then show ?thesis using append_eq_append_conv nat_str_inj by blast
qed

interpretation ik: keyed identity_key
  "\<lambda>p. is_qualified p \<and> ph_mac_address p = [] \<and> ph_software_version p = [] \<and> ph_hardware_version p = []"
proof unfold_locales
  fix p q :: physical_identity
  assume p: "is_qualified p \<and> ph_mac_address p = [] \<and> ph_software_version p = [] \<and> ph_hardware_version p = []"
    and q: "is_qualified q \<and> ph_mac_address q = [] \<and> ph_software_version q = [] \<and> ph_hardware_version q = []"
    and eq: "identity_key p = identity_key q"
  have "encode_identity_member (ph_manufacturer p) @ encode_identity_member (ph_device_id p) @
      encode_identity_member (ph_serial_number p) @ [] = encode_identity_member (ph_manufacturer q) @
      encode_identity_member (ph_device_id q) @ encode_identity_member (ph_serial_number q) @ []"
    using eq p q by (simp add: identity_key_def)
  note m = encode_member_unique [OF this]
  note d = encode_member_unique [OF m [THEN conjunct2]]
  note s = encode_member_unique [OF d [THEN conjunct2]]
  show "p = q"
    using p q m [THEN conjunct1] d [THEN conjunct1] s [THEN conjunct1] by (cases p, cases q) simp
qed

definition triple_of :: "physical_identity \<Rightarrow> string \<times> string \<times> string" where
  "triple_of p = (ph_manufacturer p, ph_device_id p, ph_serial_number p)"

lemma identity_key_nonempty: "identity_key p \<noteq> [] \<longleftrightarrow> is_qualified p"
  by (simp add: identity_key_def)

lemma identity_key_eq:
  assumes "is_qualified p"
  shows "identity_key p = identity_key q \<longleftrightarrow> triple_of p = triple_of q"
proof
  let ?c = "\<lambda>p. p\<lparr>ph_mac_address := [], ph_software_version := [], ph_hardware_version := []\<rparr>"
  have c: "identity_key (?c r) = identity_key r" "is_qualified (?c r) = is_qualified r" for r
    by (simp_all add: identity_key_def is_qualified_def)
  show "triple_of p = triple_of q" if eq: "identity_key p = identity_key q"
  proof -
    have "identity_key p \<noteq> []" using assms by (simp add: identity_key_def)
    then have "identity_key q \<noteq> []" using eq by simp
    then have q: "is_qualified q" unfolding identity_key_nonempty .
    have "identity_key (?c p) = identity_key (?c q)" using eq by (simp only: c(1))
    from ik.key_inj [OF _ _ this] have "?c p = ?c q" using assms q c(2) by simp
    then show ?thesis by (cases p, cases q) (simp add: triple_of_def)
  qed
  show "triple_of p = triple_of q \<Longrightarrow> identity_key p = identity_key q"
    by (simp add: triple_of_def identity_key_def is_qualified_def)
qed

lemma identity_key_stable: "identity_key p \<noteq> [] \<Longrightarrow> is_stable_identity_key (identity_key p)"
  unfolding is_stable_identity_key_def by (simp add: identity_key_def split: if_splits)

lemma is_stable_nonempty: "is_stable_identity_key k \<Longrightarrow> k \<noteq> []"
  by (auto simp: is_stable_identity_key_def)

lemma identity_key_cong: "triple_of p = triple_of q \<Longrightarrow> identity_key p = identity_key q"
  by (simp add: triple_of_def identity_key_def is_qualified_def)

lemma can_merge_sym: "can_merge_identity a b = can_merge_identity b a"
  by (auto simp: can_merge_identity_def Let_def)

lemma can_merge_refl [simp]: "can_merge_identity a a"
  by (simp add: can_merge_identity_def Let_def)

section \<open>Properties\<close>

text \<open>  A device has a key exactly when manufacturer, device id and serial are present after trimming
  and the serial is no sentinel, and two devices with a key share it exactly when their
  normalized triples agree, whatever punctuation the members contain.
\<close>

theorem identity_key_exact:
  "(identity_key (canonical_physical_identity i) \<noteq> [] \<longleftrightarrow>
      (\<forall>part \<in> {di_manufacturer i, di_device_id i, di_serial_number i}. trim_space part \<noteq> []) \<and>
      \<not> is_invalid_serial_sentinel (di_serial_number i)) \<and>
   (identity_key (canonical_physical_identity i) \<noteq> [] \<longrightarrow>
      (identity_key (canonical_physical_identity i) = identity_key (canonical_physical_identity j) \<longleftrightarrow>
        normalize_identity_part (di_manufacturer i) = normalize_identity_part (di_manufacturer j) \<and>
        normalize_identity_part (di_device_id i) = normalize_identity_part (di_device_id j) \<and>
        normalize_identity_part (di_serial_number i) = normalize_identity_part (di_serial_number j)))"
proof -
  have nonempty: "normalize_identity_part s \<noteq> [] \<longleftrightarrow> trim_space s \<noteq> []" for s
    by (simp add: normalize_identity_part_def to_upper_def)
  have sentinel: "is_invalid_serial_sentinel (normalize_identity_part s) = is_invalid_serial_sentinel s" for s
    by (simp add: is_invalid_serial_sentinel_def)
  show ?thesis
    using identity_key_eq [of "canonical_physical_identity i" "canonical_physical_identity j"]
    unfolding identity_key_nonempty
    by (auto simp: is_qualified_def canonical_physical_identity_def nonempty sentinel triple_of_def)
qed

theorem identity_key_exact_witness:
  "\<exists>i j. identity_key (canonical_physical_identity i) \<noteq> [] \<and>
     identity_key (canonical_physical_identity i) = identity_key (canonical_physical_identity j) \<and> i \<noteq> j"
proof -
  let ?i = "\<lparr>di_address = 8, di_manufacturer = ''Vaillant'', di_device_id = ''BAI00'', di_serial_number = ''21:7'',
     di_mac_address = [], di_software_version = [], di_hardware_version = []\<rparr>"
  let ?j = "\<lparr>di_address = 3, di_manufacturer = '' vaillant'', di_device_id = ''bai00 '', di_serial_number = ''21:7'',
     di_mac_address = [], di_software_version = [], di_hardware_version = []\<rparr>"
  have "identity_key (canonical_physical_identity ?i) \<noteq> []" by code_simp
  moreover have "normalize_identity_part ''Vaillant'' = normalize_identity_part '' vaillant''" 
    "normalize_identity_part ''BAI00'' = normalize_identity_part ''bai00 ''" by code_simp+
  ultimately have "identity_key (canonical_physical_identity ?i) = identity_key (canonical_physical_identity ?j)"
    using identity_key_exact [of ?i ?j] by simp
  then show ?thesis using \<open>identity_key (canonical_physical_identity ?i) \<noteq> []\<close> by fastforce
qed

end
