(* ===== verification/Reg_State.thy ===== *)
theory Reg_State
  imports Reg_Identity Reg_Projection
begin

text \<open>
  The state of \<open>*DeviceRegistry\<close> and the primitives its operations are made of
  (\<open>registry.go\<close>, \<open>address_slot.go\<close>, \<open>registry_index.go\<close>, the \<open>Locked\<close> helpers of
  \<open>registry_scan.go\<close>, \<open>registry_alias.go\<close>, \<open>registry_registration.go\<close>).

  A \<open>*deviceEntry\<close> is shared between the address map, the identity index and the address
  slots, so entries live in a store indexed by numbers; a nil pointer is \<open>None\<close>. A slot is only
  reached through the address table and is kept there by value. \<open>time.Time\<close> is a number whose
  zero is the zero time. Providers are records of their methods, functions of their arguments;
  a provider that is no \<open>ProjectionProvider\<close> has none.
\<close>

section \<open>Data\<close>

datatype slot_role = SlotRoleUnknown | SlotRoleMaster | SlotRoleSlave

datatype discovery_source =
    DiscoverySourceUnknown
  | DiscoverySourcePassiveObserved
  | DiscoverySourceStaticSeed
  | DiscoverySourceActiveConfirmed

datatype verification_state =
    VerificationStateUnknown
  | VerificationStateCandidate
  | VerificationStateCorroborated
  | VerificationStateIdentityConfirmed

fun verification_rank :: "verification_state \<Rightarrow> nat" where
  "verification_rank VerificationStateUnknown = 0"
| "verification_rank VerificationStateCandidate = 1"
| "verification_rank VerificationStateCorroborated = 2"
| "verification_rank VerificationStateIdentityConfirmed = 3"

lemma verification_rank_inj: "verification_rank x = verification_rank y \<longleftrightarrow> x = y"
  by (cases x; cases y) simp_all

instantiation verification_state :: linorder
begin

definition less_eq_verification_state :: "verification_state \<Rightarrow> verification_state \<Rightarrow> bool" where
  "less_eq_verification_state x y \<longleftrightarrow> verification_rank x \<le> verification_rank y"

definition less_verification_state :: "verification_state \<Rightarrow> verification_state \<Rightarrow> bool" where
  "less_verification_state x y \<longleftrightarrow> verification_rank x < verification_rank y"

instance
  by standard
    (auto simp: less_eq_verification_state_def less_verification_state_def verification_rank_inj)

end

type_synonym go_time = nat
type_synonym entry_ref = nat

record address_slot =
  sl_addr :: byte
  sl_role :: slot_role
  sl_source :: discovery_source
  sl_state :: verification_state
  sl_device :: "entry_ref option"
  sl_first :: go_time
  sl_last :: go_time

record bus_face =
  bf_addr :: byte
  bf_role :: slot_role
  bf_source :: discovery_source
  bf_state :: verification_state
  bf_protocols :: "string list"

record 'm plane =
  plane_name :: string
  plane_methods :: "'m list"

record 'm plane_provider =
  pp_name :: string
  pp_match :: "device_info \<Rightarrow> bool"
  pp_create :: "device_info \<Rightarrow> 'm plane list"
  pp_projections :: "(device_info \<Rightarrow> 'm plane list \<Rightarrow> plane_projection list) option"

record 'm device_entry =
  de_primary :: byte
  de_addresses :: "byte list"
  de_physical :: physical_identity
  de_key :: string
  de_key_aliases :: "string list"
  de_info :: device_info
  de_planes :: "'m plane list"
  de_projections :: "plane_projection list"
  de_index :: canonical_index
  de_index_err :: "projection_error option"
  de_faces :: "bus_face list"

record identity_authority =
  ia_manufacturer :: string
  ia_device_id :: string
  ia_serial_number :: string

record identity_witness =
  iw_address :: byte
  iw_authority :: identity_authority
  iw_provenance :: string
  iw_current :: bool
  iw_immutable :: bool
  iw_observation_generation :: uint64
  iw_proof_generation :: uint64

record witness_record =
  wr_witness :: identity_witness
  wr_key :: string

definition no_witness :: witness_record where
  "no_witness = \<lparr>wr_witness = \<lparr>iw_address = 0,
     iw_authority = \<lparr>ia_manufacturer = [], ia_device_id = [], ia_serial_number = []\<rparr>,
     iw_provenance = [], iw_current = False, iw_immutable = False,
     iw_observation_generation = 0, iw_proof_generation = 0\<rparr>, wr_key = []\<rparr>"

text \<open>An absent entry of the topology map is the empty list; emptied entries are deleted.\<close>

record 'm device_registry =
  dr_observation_generation :: uint64
  dr_proof_generation :: uint64
  dr_providers :: "'m plane_provider list"
  dr_heap :: "entry_ref \<Rightarrow> 'm device_entry"
  dr_next :: entry_ref
  dr_entries :: "byte \<Rightarrow> entry_ref option"
  dr_table :: "byte \<Rightarrow> address_slot option"
  dr_identity :: "(string, entry_ref) gomap"
  dr_witnesses :: "byte \<Rightarrow> witness_record"
  dr_topology :: "byte \<Rightarrow> byte list"
  dr_order :: "entry_ref list"

definition zero_info :: device_info where
  "zero_info = \<lparr>di_address = 0, di_manufacturer = [], di_device_id = [], di_serial_number = [],
     di_mac_address = [], di_software_version = [], di_hardware_version = []\<rparr>"

definition zero_physical :: physical_identity where
  "zero_physical = \<lparr>ph_manufacturer = [], ph_device_id = [], ph_serial_number = [],
     ph_mac_address = [], ph_software_version = [], ph_hardware_version = []\<rparr>"

definition fresh_entry :: "byte \<Rightarrow> 'm device_entry" where
  "fresh_entry a = \<lparr>de_primary = a, de_addresses = [a], de_physical = zero_physical, de_key = [],
     de_key_aliases = [], de_info = zero_info, de_planes = [], de_projections = [],
     de_index = zero_index, de_index_err = None, de_faces = []\<rparr>"

definition new_device_registry :: "'m plane_provider list \<Rightarrow> 'm device_registry" where
  "new_device_registry providers =
     \<lparr>dr_observation_generation = 0, dr_proof_generation = 0, dr_providers = providers,
      dr_heap = (\<lambda>_. fresh_entry 0), dr_next = 0, dr_entries = (\<lambda>_. None), dr_table = (\<lambda>_. None),
      dr_identity = [], dr_witnesses = (\<lambda>_. no_witness), dr_topology = (\<lambda>_. []), dr_order = []\<rparr>"

definition register_provider :: "'m plane_provider \<Rightarrow> 'm device_registry \<Rightarrow> 'm device_registry" where
  "register_provider p s = s\<lparr>dr_providers := dr_providers s @ [p],
     dr_observation_generation := dr_observation_generation s + 1\<rparr>"

text \<open>\<open>WithObservationGeneration\<close>: what the callback receives; \<open>None\<close> is a nil receiver.\<close>

definition with_observation_generation :: "'m device_registry option \<Rightarrow> uint64 option" where
  "with_observation_generation r = map_option dr_observation_generation r"

abbreviation entry_of :: "'m device_registry \<Rightarrow> entry_ref \<Rightarrow> 'm device_entry" where
  "entry_of s e \<equiv> dr_heap s e"

definition update_entry ::
  "entry_ref \<Rightarrow> ('m device_entry \<Rightarrow> 'm device_entry) \<Rightarrow> 'm device_registry \<Rightarrow> 'm device_registry" where
  "update_entry e f s = s\<lparr>dr_heap := (dr_heap s)(e := f (dr_heap s e))\<rparr>"

section \<open>Address lists\<close>

definition contains_address :: "byte list \<Rightarrow> byte \<Rightarrow> bool" where
  "contains_address addresses a \<longleftrightarrow> list_ex (\<lambda>x. x = a) addresses"

fun remove_address :: "byte list \<Rightarrow> byte \<Rightarrow> byte list" where
  "remove_address [] a = []"
| "remove_address (x # xs) a = (if x \<noteq> a then x # remove_address xs a else xs)"

fun remove_entry :: "entry_ref list \<Rightarrow> entry_ref \<Rightarrow> entry_ref list" where
  "remove_entry [] e = []"
| "remove_entry (x # xs) e = (if x \<noteq> e then x # remove_entry xs e else xs)"

lemma contains_address_iff [simp]: "contains_address xs a \<longleftrightarrow> a \<in> set xs"
  by (auto simp: contains_address_def list_ex_iff)

lemma remove_address_eq [simp]: "remove_address xs a = remove1 a xs"
  by (induction xs) auto

lemma remove_entry_eq [simp]: "remove_entry xs e = remove1 e xs"
  by (induction xs) auto

section \<open>Slots\<close>

definition new_slot :: "byte \<Rightarrow> address_slot" where
  "new_slot a = \<lparr>sl_addr = a, sl_role = SlotRoleUnknown, sl_source = DiscoverySourceUnknown,
     sl_state = VerificationStateUnknown, sl_device = None, sl_first = 0, sl_last = 0\<rparr>"

definition ensure_address_slot :: "byte \<Rightarrow> 'm device_registry \<Rightarrow> 'm device_registry" where
  "ensure_address_slot a s =
     (case dr_table s a of Some _ \<Rightarrow> s | None \<Rightarrow> s\<lparr>dr_table := (dr_table s)(a \<mapsto> new_slot a)\<rparr>)"

text \<open>The slot at an address after \<open>ensureAddressSlotLocked\<close>.\<close>

definition slot_at :: "'m device_registry \<Rightarrow> byte \<Rightarrow> address_slot" where
  "slot_at s a = (case dr_table s a of Some sl \<Rightarrow> sl | None \<Rightarrow> new_slot a)"

definition write_slot :: "byte \<Rightarrow> (address_slot \<Rightarrow> address_slot) \<Rightarrow> 'm device_registry \<Rightarrow> 'm device_registry" where
  "write_slot a f s = s\<lparr>dr_table := (dr_table s)(a \<mapsto> f (slot_at s a))\<rparr>"

definition record_discovery_source :: "discovery_source \<Rightarrow> address_slot \<Rightarrow> address_slot" where
  "record_discovery_source source slot =
     (if sl_source slot = DiscoverySourceUnknown \<and> source \<noteq> DiscoverySourceUnknown
      then slot\<lparr>sl_source := source\<rparr> else slot)"

definition raise_state :: "verification_state \<Rightarrow> address_slot \<Rightarrow> address_slot" where
  "raise_state state slot = (if sl_state slot < state then slot\<lparr>sl_state := state\<rparr> else slot)"

definition learn_role :: "slot_role \<Rightarrow> address_slot \<Rightarrow> address_slot" where
  "learn_role role slot =
     (if role \<noteq> SlotRoleUnknown \<and> sl_role slot = SlotRoleUnknown then slot\<lparr>sl_role := role\<rparr> else slot)"

definition stamp_times :: "go_time \<Rightarrow> address_slot \<Rightarrow> address_slot" where
  "stamp_times t slot =
     (let slot1 = (if sl_first slot = 0 \<and> t \<noteq> 0 then slot\<lparr>sl_first := t\<rparr> else slot)
      in if t \<noteq> 0 then slot1\<lparr>sl_last := t\<rparr> else slot1)"

definition mark_slot_passive_observed :: "slot_role \<Rightarrow> go_time \<Rightarrow> address_slot \<Rightarrow> address_slot" where
  "mark_slot_passive_observed role t slot =
     stamp_times t (learn_role role (raise_state VerificationStateCorroborated
       (record_discovery_source DiscoverySourcePassiveObserved slot)))"

definition mark_slot_static_seed :: "slot_role \<Rightarrow> go_time \<Rightarrow> address_slot \<Rightarrow> address_slot" where
  "mark_slot_static_seed role t slot =
     stamp_times t (learn_role role (raise_state VerificationStateCandidate
       (record_discovery_source DiscoverySourceStaticSeed slot)))"

text \<open>\<open>observeAddressSlotLocked\<close> with the clock reading it takes.\<close>

definition observe_address_slot ::
  "go_time \<Rightarrow> byte \<Rightarrow> entry_ref \<Rightarrow> discovery_source \<Rightarrow> verification_state \<Rightarrow> 'm device_registry \<Rightarrow>
     'm device_registry" where
  "observe_address_slot now a e source state s =
     write_slot a (\<lambda>slot0.
       let slot = raise_state state (record_discovery_source source (slot0\<lparr>sl_device := Some e\<rparr>));
           slot1 = (if sl_first slot = 0 then slot\<lparr>sl_first := now\<rparr> else slot)
       in slot1\<lparr>sl_last := now\<rparr>) s"

definition face_of :: "byte \<Rightarrow> address_slot \<Rightarrow> bus_face" where
  "face_of a slot = \<lparr>bf_addr = a, bf_role = sl_role slot, bf_source = sl_source slot,
     bf_state = sl_state slot, bf_protocols = []\<rparr>"

fun sync_faces :: "entry_ref \<Rightarrow> byte list \<Rightarrow> 'm device_registry \<Rightarrow> 'm device_registry \<times> bus_face list" where
  "sync_faces e [] s = (s, [])"
| "sync_faces e (a # as) s =
     (let s1 = ensure_address_slot a s;
          s2 = (if sl_device (slot_at s1 a) = None
                then write_slot a (\<lambda>slot. slot\<lparr>sl_device := Some e\<rparr>) s1 else s1);
          (s3, faces) = sync_faces e as s2
      in (s3, face_of a (slot_at s2 a) # faces))"

definition sync_entry_faces :: "entry_ref \<Rightarrow> 'm device_registry \<Rightarrow> 'm device_registry" where
  "sync_entry_faces e s =
     (let (s1, faces) = sync_faces e (de_addresses (entry_of s e)) s
      in update_entry e (\<lambda>x. x\<lparr>de_faces := faces\<rparr>) s1)"

section \<open>The identity index\<close>

definition is_current_qualified_identity_key :: "'m device_registry \<Rightarrow> entry_ref option \<Rightarrow> string \<Rightarrow> bool" where
  "is_current_qualified_identity_key s e k \<longleftrightarrow>
     (case e of None \<Rightarrow> False
      | Some x \<Rightarrow> is_stable_identity_key k \<and> de_key (entry_of s x) = k \<and>
                 identity_key (de_physical (entry_of s x)) = k)"

definition current_identity_entry :: "string \<Rightarrow> 'm device_registry \<Rightarrow> 'm device_registry \<times> entry_ref option" where
  "current_identity_entry k s =
     (let e = gm_get (dr_identity s) k
      in if \<not> is_current_qualified_identity_key s e k
         then (if e \<noteq> None then s\<lparr>dr_identity := gm_del k (dr_identity s)\<rparr> else s, None)
         else (s, e))"

definition retain_current_identity_binding ::
  "entry_ref \<Rightarrow> string \<Rightarrow> 'm device_registry \<Rightarrow> 'm device_registry" where
  "retain_current_identity_binding e k s =
     update_entry e (\<lambda>x. x\<lparr>de_key_aliases := []\<rparr>)
       (s\<lparr>dr_identity := gm_filter (\<lambda>key indexed. \<not> (indexed = e \<and> key \<noteq> k)) (dr_identity s)\<rparr>)"

definition remove_identity_bindings :: "entry_ref \<Rightarrow> 'm device_registry \<Rightarrow> 'm device_registry" where
  "remove_identity_bindings e s = retain_current_identity_binding e [] s"

definition publish_current_identity_binding ::
  "entry_ref \<Rightarrow> string \<Rightarrow> 'm device_registry \<Rightarrow> 'm device_registry" where
  "publish_current_identity_binding e k s =
     (let (s1, incumbent) = (if k \<noteq> [] then current_identity_entry k s else (s, None))
      in if (case incumbent of None \<Rightarrow> False
             | Some i \<Rightarrow> i \<noteq> e \<and> \<not> can_merge_identity (de_info (entry_of s1 e)) (de_info (entry_of s1 i)))
         then update_entry e (\<lambda>x. x\<lparr>de_key := []\<rparr>) (retain_current_identity_binding e [] s1)
         else
           let s2 = update_entry e (\<lambda>x. x\<lparr>de_key := k\<rparr>) (retain_current_identity_binding e k s1)
           in if k \<noteq> [] then s2\<lparr>dr_identity := gm_put k e (dr_identity s2)\<rparr> else s2)"

text \<open>\<open>lookupByIdentity\<close>.\<close>

definition lookup_by_identity :: "'m device_registry \<Rightarrow> device_info \<Rightarrow> entry_ref option" where
  "lookup_by_identity s info =
     (let k = identity_key (canonical_physical_identity info)
      in if k = [] then None
         else let e = gm_get (dr_identity s) k
              in if is_current_qualified_identity_key s e k then e else None)"

section \<open>Topology\<close>

definition record_topology_alias :: "byte \<Rightarrow> byte \<Rightarrow> 'm device_registry \<Rightarrow> 'm device_registry" where
  "record_topology_alias a b s =
     (if a = b then s
      else let t1 = (dr_topology s)(a := List.insert b (dr_topology s a))
           in s\<lparr>dr_topology := t1(b := List.insert a (t1 b))\<rparr>)"

definition forget_topology_address :: "byte \<Rightarrow> 'm device_registry \<Rightarrow> 'm device_registry" where
  "forget_topology_address a s =
     (let t = fold (\<lambda>c t. t(c := removeAll a (t c))) (dr_topology s a) (dr_topology s)
      in s\<lparr>dr_topology := t(a := [])\<rparr>)"

section \<open>Detaching and absorbing entries\<close>

text \<open>The entry keeps a primary address of its own.\<close>

definition leave_primary :: "byte \<Rightarrow> 'm device_entry \<Rightarrow> 'm device_entry" where
  "leave_primary a x =
     (if de_primary x = a
      then x\<lparr>de_primary := hd (de_addresses x), de_info := (de_info x)\<lparr>di_address := hd (de_addresses x)\<rparr>\<rparr>
      else x)"

definition detach_address :: "entry_ref \<Rightarrow> byte \<Rightarrow> 'm device_registry \<Rightarrow> 'm device_registry" where
  "detach_address e a s =
     (let s1 = s\<lparr>dr_entries := (dr_entries s)(a := None)\<rparr>;
          s2 = (case dr_table s1 a of
                  Some slot \<Rightarrow> if sl_device slot = Some e then s1\<lparr>dr_table := (dr_table s1)(a := None)\<rparr> else s1
                | None \<Rightarrow> s1)
      in if \<not> contains_address (de_addresses (entry_of s2 e)) a then s2
         else
           let s3 = forget_topology_address a s2;
               s4 = update_entry e (\<lambda>x. x\<lparr>de_addresses := remove_address (de_addresses x) a\<rparr>) s3
           in if length (de_addresses (entry_of s4 e)) = 0
              then let s5 = remove_identity_bindings e s4
                   in s5\<lparr>dr_order := remove_entry (dr_order s5) e\<rparr>
              else sync_entry_faces e (update_entry e (leave_primary a) s4))"

definition absorb_info :: "device_info \<Rightarrow> device_info \<Rightarrow> device_info" where
  "absorb_info d s =
     d\<lparr>di_manufacturer := (if di_manufacturer d = [] then di_manufacturer s else di_manufacturer d),
       di_device_id := (if di_device_id d = [] then di_device_id s else di_device_id d),
       di_serial_number := (if di_serial_number d = [] then di_serial_number s else di_serial_number d),
       di_mac_address := (if di_mac_address d = [] then di_mac_address s else di_mac_address d),
       di_software_version := (if di_software_version d = [] then di_software_version s else di_software_version d),
       di_hardware_version := (if di_hardware_version d = [] then di_hardware_version s else di_hardware_version d)\<rparr>"

definition absorb_entry :: "'m device_entry \<Rightarrow> 'm device_entry \<Rightarrow> 'm device_entry" where
  "absorb_entry dst src =
     (let info = absorb_info (de_info dst) (de_info src) in
      dst\<lparr>de_info := info,
          de_physical :=
            (if de_physical dst = zero_physical \<and> de_physical src \<noteq> zero_physical then de_physical src
             else if de_physical dst \<noteq> zero_physical then canonical_physical_identity info
             else de_physical dst),
          de_planes := (if de_planes dst = [] then de_planes src else de_planes dst),
          de_projections := (if de_projections dst = [] then de_projections src else de_projections dst),
          de_index := (if ci_canonical (de_index dst) = None \<and> ci_canonical (de_index src) \<noteq> None
                       then de_index src else de_index dst),
          de_index_err := (if de_index_err dst = None then de_index_err src else de_index_err dst)\<rparr>)"

definition absorb_identity :: "entry_ref \<Rightarrow> entry_ref \<Rightarrow> 'm device_registry \<Rightarrow> 'm device_registry" where
  "absorb_identity dst src s =
     (if dst = src then s else update_entry dst (\<lambda>x. absorb_entry x (entry_of s src)) s)"

fun move_addresses :: "entry_ref \<Rightarrow> byte list \<Rightarrow> 'm device_registry \<Rightarrow> 'm device_registry" where
  "move_addresses dst [] s = s"
| "move_addresses dst (a # as) s =
     (let s1 = (if \<not> contains_address (de_addresses (entry_of s dst)) a
                then update_entry dst (\<lambda>x. x\<lparr>de_addresses := de_addresses x @ [a]\<rparr>) s else s);
          s2 = s1\<lparr>dr_entries := (dr_entries s1)(a \<mapsto> dst)\<rparr>
      in move_addresses dst as (write_slot a (\<lambda>slot. slot\<lparr>sl_device := Some dst\<rparr>) s2))"

definition merge_registered_aliases :: "entry_ref \<Rightarrow> entry_ref \<Rightarrow> 'm device_registry \<Rightarrow> 'm device_registry" where
  "merge_registered_aliases dst src s =
     (let s1 = absorb_identity dst src s;
          s2 = move_addresses dst (de_addresses (entry_of s1 src)) s1;
          s3 = remove_identity_bindings src s2
      in s3\<lparr>dr_order := remove_entry (dr_order s3) src\<rparr>)"

definition compatible_alias_enrichment :: "device_info \<Rightarrow> 'm device_entry \<Rightarrow> bool" where
  "compatible_alias_enrichment info previous \<longleftrightarrow>
     (let manufacturer = normalize_identity_part (di_manufacturer info)
      in can_merge_identity info (de_info previous) \<and>
         \<not> has_conflicting_model_signature info (de_info previous) \<and>
         (manufacturer = [] \<or> ph_manufacturer (de_physical previous) = [] \<or>
          manufacturer = ph_manufacturer (de_physical previous)))"

definition preserves_current_identity_authority :: "device_info \<Rightarrow> 'm device_entry \<Rightarrow> bool" where
  "preserves_current_identity_authority incoming x =
     (if de_key x = [] \<or> identity_key (de_physical x) \<noteq> de_key x then False
      else let p = canonical_physical_identity incoming
           in identity_part_agrees_or_missing (ph_manufacturer p) (ph_manufacturer (de_physical x)) \<and>
              identity_part_agrees_or_missing (ph_device_id p) (ph_device_id (de_physical x)) \<and>
              identity_part_agrees_or_missing (ph_serial_number p) (ph_serial_number (de_physical x)))"

end
