(* ===== verification/Reg_Register.thy ===== *)
theory Reg_Register
  imports Reg_State
begin

text \<open>
  The operations of the device registry: registration (\<open>registry_registration.go\<close>,
  \<open>registry_scan.go\<close>), aliasing (\<open>registry_alias.go\<close>), identity witnesses
  (\<open>qualified_identity_witness.go\<close>), passive companions (\<open>admit_passive_companion.go\<close>) and
  the reads (\<open>registry_snapshot.go\<close>). Each runs under the registry lock and is one step.
  The eBUS address classes come from the protocol module, as a record of its functions.
\<close>

datatype address_class = AddressClassMaster | AddressClassSlave | AddressClassOther

record protocol_env =
  address_class_of :: "byte \<Rightarrow> address_class"
  companion_of_source :: "byte \<Rightarrow> byte option"

section \<open>Identity witnesses\<close>

abbreviation provenance_direct :: string where
  "provenance_direct \<equiv> ''direct_observation''"

definition is_qualified_witness_address :: "protocol_env \<Rightarrow> byte \<Rightarrow> bool" where
  "is_qualified_witness_address env a \<longleftrightarrow>
     address_class_of env a = AddressClassMaster \<or> address_class_of env a = AddressClassSlave"

text \<open>The identity a witness claims, as the code rebuilds it from the witness.\<close>

definition authority_identity :: "identity_authority \<Rightarrow> physical_identity" where
  "authority_identity w = canonical_physical_identity (zero_info\<lparr>
     di_manufacturer := ia_manufacturer w, di_device_id := ia_device_id w,
     di_serial_number := ia_serial_number w\<rparr>)"

definition qualified_identity_witness_current ::
  "protocol_env \<Rightarrow> 'm device_registry \<Rightarrow> byte \<Rightarrow> identity_witness \<Rightarrow> bool" where
  "qualified_identity_witness_current env s a w =
     (if iw_address w \<noteq> a \<or> \<not> iw_current w \<or> \<not> iw_immutable w \<or>
         iw_provenance w \<noteq> provenance_direct \<or> iw_observation_generation w = 0 \<or>
         iw_proof_generation w = 0 \<or> \<not> is_qualified_witness_address env a
      then False
      else
        let authority = authority_identity (iw_authority w); k = identity_key authority
        in if k = [] \<or> ph_manufacturer authority \<noteq> ia_manufacturer (iw_authority w) \<or>
              ph_device_id authority \<noteq> ia_device_id (iw_authority w) \<or>
              ph_serial_number authority \<noteq> ia_serial_number (iw_authority w)
           then False
           else if wr_key (dr_witnesses s a) \<noteq> k \<or> wr_witness (dr_witnesses s a) \<noteq> w then False
           else is_current_qualified_identity_key s (dr_entries s a) k \<and>
                gm_get (dr_identity s) k = dr_entries s a)"

definition reconcile_qualified_identity_witnesses ::
  "protocol_env \<Rightarrow> 'm device_registry \<Rightarrow> 'm device_registry" where
  "reconcile_qualified_identity_witnesses env s =
     s\<lparr>dr_witnesses := (\<lambda>a.
        let r = dr_witnesses s a
        in if wr_key r = [] then r
           else if \<not> qualified_identity_witness_current env s a (wr_witness r) then no_witness else r)\<rparr>"

definition direct_witness :: "byte \<Rightarrow> physical_identity \<Rightarrow> 'm device_registry \<Rightarrow> witness_record" where
  "direct_witness a authority s =
     \<lparr>wr_witness = \<lparr>iw_address = a,
        iw_authority = \<lparr>ia_manufacturer = ph_manufacturer authority, ia_device_id = ph_device_id authority,
          ia_serial_number = ph_serial_number authority\<rparr>,
        iw_provenance = provenance_direct, iw_current = True, iw_immutable = True,
        iw_observation_generation = dr_observation_generation s,
        iw_proof_generation = dr_proof_generation s\<rparr>,
      wr_key = identity_key authority\<rparr>"

definition record_direct_qualified_identity_witness ::
  "protocol_env \<Rightarrow> device_info \<Rightarrow> entry_ref \<Rightarrow> 'm device_registry \<Rightarrow> 'm device_registry" where
  "record_direct_qualified_identity_witness env info e s =
     (let authority = canonical_physical_identity info; k = identity_key authority; a = di_address info
      in if \<not> is_qualified_witness_address env a \<or> k = [] \<or> dr_entries s a \<noteq> Some e \<or>
            \<not> is_current_qualified_identity_key s (Some e) k \<or> gm_get (dr_identity s) k \<noteq> Some e
         then s
         else
           let s1 = s\<lparr>dr_proof_generation := dr_proof_generation s + 1\<rparr>
           in s1\<lparr>dr_witnesses := (dr_witnesses s1)(a := direct_witness a authority s1)\<rparr>)"

text \<open>\<open>WithCurrentQualifiedIdentityWitness\<close>: the witness the callback receives, if any.\<close>

definition with_current_qualified_identity_witness ::
  "protocol_env \<Rightarrow> 'm device_registry \<Rightarrow> byte \<Rightarrow> identity_witness option" where
  "with_current_qualified_identity_witness env s a =
     (let w = wr_witness (dr_witnesses s a)
      in if qualified_identity_witness_current env s a w then Some w else None)"

section \<open>Registration\<close>

definition admit_identity_candidate ::
  "'m device_registry \<Rightarrow> device_info \<Rightarrow> entry_ref option \<Rightarrow> entry_ref option \<times> bool" where
  "admit_identity_candidate s incoming candidate =
     (case candidate of None \<Rightarrow> (None, False)
      | Some c \<Rightarrow> if can_merge_identity incoming (de_info (entry_of s c)) then (Some c, False) else (None, True))"

text \<open>The entry an observation selects, and the identity match that is still relied on.\<close>

definition select_entry ::
  "device_info \<Rightarrow> entry_ref option \<Rightarrow> entry_ref option \<Rightarrow> 'm device_registry \<Rightarrow>
     entry_ref option \<times> entry_ref option" where
  "select_entry info by_identity by_address s =
     (let stable = is_qualified (canonical_physical_identity info);
          e0 = (if by_identity = None then by_address else by_identity);
          e1 = (case by_address of None \<Rightarrow> e0
                | Some x \<Rightarrow> if e0 = by_address \<and> stable \<and>
                               \<not> can_merge_identity info (de_info (entry_of s x)) then None else e0)
      in case by_address of None \<Rightarrow> (e1, by_identity)
         | Some x \<Rightarrow>
             if length (de_addresses (entry_of s x)) > 1 \<and> e1 \<noteq> by_address \<and> \<not> stable \<and>
                compatible_alias_enrichment info (entry_of s x)
             then (by_address, None) else (e1, by_identity))"

text \<open>
  The group the address leaves is merged into the selected entry or loses the address. The
  selected entry is the identity match when there is one.
\<close>

definition leave_previous_group ::
  "device_info \<Rightarrow> entry_ref option \<Rightarrow> entry_ref option \<Rightarrow> entry_ref option \<Rightarrow> 'm device_registry \<Rightarrow>
     'm device_registry" where
  "leave_previous_group info selected by_identity by_address s =
     (case by_address of None \<Rightarrow> s
      | Some previous \<Rightarrow>
          if by_address = selected then s
          else case (by_identity, selected) of
            (Some _, Some e) \<Rightarrow>
              if is_stable_identity_key (identity_key (canonical_physical_identity info)) \<and>
                 compatible_alias_enrichment info (entry_of s previous) \<and>
                 compatible_alias_enrichment (de_info (entry_of s e)) (entry_of s previous)
              then merge_registered_aliases e previous s
              else detach_address previous (di_address info) s
          | _ \<Rightarrow> detach_address previous (di_address info) s)"

definition join_entry :: "byte \<Rightarrow> entry_ref option \<Rightarrow> 'm device_registry \<Rightarrow> 'm device_registry \<times> entry_ref" where
  "join_entry a selected s =
     (case selected of
        None \<Rightarrow>
          (let e = dr_next s
           in (s\<lparr>dr_heap := (dr_heap s)(e := fresh_entry a), dr_next := Suc e,
                 dr_order := dr_order s @ [e]\<rparr>, e))
      | Some e \<Rightarrow>
          (if \<not> contains_address (de_addresses (entry_of s e)) a
           then update_entry e (\<lambda>x. x\<lparr>de_addresses := de_addresses x @ [a]\<rparr>) s else s, e))"

definition stored_info :: "device_info \<Rightarrow> 'm device_entry \<Rightarrow> bool \<Rightarrow> device_info" where
  "stored_info info x preserve_device_id =
     (let old = de_info x in
      \<lparr>di_address = de_primary x,
       di_manufacturer = (if di_manufacturer info = [] then di_manufacturer old else di_manufacturer info),
       di_device_id =
         (if preserve_device_id \<and> di_device_id old \<noteq> [] \<and> di_device_id info \<noteq> di_device_id old
          then di_device_id old
          else if di_device_id info = [] then di_device_id old else di_device_id info),
       di_serial_number = (if di_serial_number info = [] then di_serial_number old else di_serial_number info),
       di_mac_address = (if di_mac_address info = [] then di_mac_address old else di_mac_address info),
       di_software_version = (if di_software_version info = [] then di_software_version old else di_software_version info),
       di_hardware_version = (if di_hardware_version info = [] then di_hardware_version old else di_hardware_version info)\<rparr>)"

definition authority_for :: "device_info \<Rightarrow> 'm device_entry \<Rightarrow> bool \<Rightarrow> string" where
  "authority_for info x conflict =
     (let k = identity_key (canonical_physical_identity info)
      in if conflict then []
         else if k = [] \<and> preserves_current_identity_authority info x then de_key x
         else k)"

text \<open>Planes and projections of the matching providers, and their index.\<close>

definition provided ::
  "'m plane_provider list \<Rightarrow> device_info \<Rightarrow> 'm plane list \<times> plane_projection list" where
  "provided providers info =
     (let matched = filter (\<lambda>p. pp_match p info) providers;
          planes = concat (map (\<lambda>p. pp_create p info) matched)
      in (planes, concat (map (\<lambda>p. case pp_projections p of
                                      None \<Rightarrow> [] | Some create \<Rightarrow> create info planes) matched)))"

definition refresh_entry ::
  "'m plane_provider list \<Rightarrow> device_info \<Rightarrow> 'm device_entry \<Rightarrow> 'm device_entry" where
  "refresh_entry providers stored x =
     (let (planes, projections) = provided providers stored in
      case build_canonical_index projections of
        Inl err \<Rightarrow> x\<lparr>de_info := stored, de_physical := canonical_physical_identity stored,
                     de_planes := planes, de_projections := [], de_index := zero_index,
                     de_index_err := Some err\<rparr>
      | Inr index \<Rightarrow> x\<lparr>de_info := stored, de_physical := canonical_physical_identity stored,
                       de_planes := planes, de_projections := projections, de_index := index,
                       de_index_err := None\<rparr>)"

text \<open>The part of \<open>registerLocked\<close> after the retained-conflict exit.\<close>

definition register_at ::
  "device_info \<Rightarrow> entry_ref option \<Rightarrow> bool \<Rightarrow> 'm device_registry \<Rightarrow> 'm device_registry \<times> entry_ref" where
  "register_at info by_identity0 conflict s =
     (let a = di_address info;
          by_address = dr_entries s a;
          (selected, by_identity) = select_entry info by_identity0 by_address s;
          s1 = leave_previous_group info selected by_identity by_address s;
          (s2, e) = join_entry a selected s1;
          stored = stored_info info (entry_of s2 e) (by_identity \<noteq> None \<and> by_identity \<noteq> by_address);
          authority = authority_for info (entry_of s2 e) conflict;
          s3 = update_entry e (refresh_entry (dr_providers s2) stored) s2;
          s4 = publish_current_identity_binding e authority s3
      in (s4\<lparr>dr_entries := (dr_entries s4)(a \<mapsto> e)\<rparr>, e))"

text \<open>\<open>registerLocked\<close>: the entry and whether a contradiction was kept out.\<close>

definition register_locked ::
  "device_info \<Rightarrow> 'm device_registry \<Rightarrow> 'm device_registry \<times> entry_ref \<times> bool" where
  "register_locked info s =
     (let k = identity_key (canonical_physical_identity info);
          (s1, by_identity, conflict) =
            (if k = [] then (s, None, False)
             else let (s1, candidate) = current_identity_entry k s
                  in (s1, admit_identity_candidate s1 info candidate))
      in case dr_entries s (di_address info) of
           Some e \<Rightarrow> if conflict then (s1, e, True)
                     else let (s2, x) = register_at info by_identity conflict s1 in (s2, x, False)
         | None \<Rightarrow> let (s2, x) = register_at info by_identity conflict s1 in (s2, x, False))"

text \<open>The breadth-first walk of \<open>confirmTopologyIdentitySlotsLocked\<close>.\<close>

definition unseen_companions :: "'m device_registry \<Rightarrow> entry_ref \<Rightarrow> byte set \<Rightarrow> byte \<Rightarrow> byte list" where
  "unseen_companions s e seen current =
     remdups (filter (\<lambda>c. \<not> (c \<in> seen \<or> dr_entries s c \<noteq> Some e)) (dr_topology s current))"

definition confirm_slot :: "byte \<Rightarrow> 'm device_registry \<Rightarrow> 'm device_registry" where
  "confirm_slot a s = write_slot a (raise_state VerificationStateIdentityConfirmed) s"

function confirm_walk :: "entry_ref \<Rightarrow> byte set \<Rightarrow> byte list \<Rightarrow> 'm device_registry \<Rightarrow> 'm device_registry" where
  "confirm_walk e seen [] s = s"
| "confirm_walk e seen (current # pending) s =
     (if dr_entries s current \<noteq> Some e then confirm_walk e seen pending s
      else let s1 = confirm_slot current s;
               new = unseen_companions s1 e seen current
           in confirm_walk e (seen \<union> set new) (pending @ new) s1)"
  by pat_completeness auto

lemma card_unseen:
  assumes "set new \<inter> seen = {}" and "distinct new"
  shows "card (- (seen \<union> set (new :: byte list))) = card (- seen) - length new" and "length new \<le> card (- seen)"
proof -
  have sub: "set new \<subseteq> - seen" using assms(1) by auto
  have "- (seen \<union> set new) = - seen - set new" by auto
  then show "card (- (seen \<union> set new)) = card (- seen) - length new"
    using sub assms(2) by (simp add: card_Diff_subset distinct_card)
  show "length new \<le> card (- seen)"
    using card_mono [OF _ sub] assms(2) by (simp add: distinct_card)
qed

termination confirm_walk
proof (relation "measure (\<lambda>(e, seen, pending, s). 2 * card (- seen) + length pending)")
  fix e seen current pending and s s1 :: "'m device_registry" and new
  assume "s1 = confirm_slot current s" and "new = unseen_companions s1 e seen current"
  then have new: "set new \<inter> seen = {}" "distinct new" by (auto simp: unseen_companions_def)
  show "((e, seen \<union> set new, pending @ new, s1), e, seen, current # pending, s)
      \<in> measure (\<lambda>(e, seen, pending, s). 2 * card (- seen) + length pending)"
    using card_unseen [OF new] by simp
qed simp_all

definition confirm_topology_identity_slots :: "byte \<Rightarrow> entry_ref \<Rightarrow> 'm device_registry \<Rightarrow> 'm device_registry" where
  "confirm_topology_identity_slots a e s = confirm_walk e {a} [a] s"

definition advance_generation :: "'m device_registry \<Rightarrow> 'm device_registry" where
  "advance_generation s = s\<lparr>dr_observation_generation := dr_observation_generation s + 1\<rparr>"

text \<open>\<open>Register\<close>, with the clock reading of \<open>observeAddressSlotLocked\<close>.\<close>

definition dev_register ::
  "protocol_env \<Rightarrow> go_time \<Rightarrow> device_info \<Rightarrow> 'm device_registry \<Rightarrow> 'm device_registry \<times> entry_ref" where
  "dev_register env now info s =
     (let (s1, e, retained) = register_locked info s
      in if retained then (s1, e)
         else
           let state = (if is_qualified (canonical_physical_identity info)
                        then VerificationStateIdentityConfirmed else VerificationStateCandidate);
               s2 = observe_address_slot now (di_address info) e DiscoverySourceActiveConfirmed state s1;
               s3 = (if state = VerificationStateIdentityConfirmed
                     then confirm_topology_identity_slots (di_address info) e s2 else s2);
               s4 = advance_generation (sync_entry_faces e s3);
               s5 = reconcile_qualified_identity_witnesses env s4
           in (record_direct_qualified_identity_witness env info e s5, e))"

definition confirm_scan_identity :: "go_time \<Rightarrow> byte \<Rightarrow> 'm device_registry \<Rightarrow> 'm device_registry" where
  "confirm_scan_identity now a s =
     (case dr_entries s a of None \<Rightarrow> s
      | Some e \<Rightarrow>
          advance_generation (sync_entry_faces e (confirm_topology_identity_slots a e
            (observe_address_slot now a e DiscoverySourceActiveConfirmed VerificationStateIdentityConfirmed s))))"

definition register_marked ::
  "protocol_env \<Rightarrow> (address_slot \<Rightarrow> address_slot) \<Rightarrow> device_info \<Rightarrow> 'm device_registry \<Rightarrow>
     'm device_registry \<times> entry_ref" where
  "register_marked env mark info s =
     (let (s1, e, retained) = register_locked info s
      in if retained then (s1, e)
         else
           let s2 = write_slot (di_address info) (\<lambda>slot. mark (slot\<lparr>sl_device := Some e\<rparr>)) s1
           in (reconcile_qualified_identity_witnesses env (advance_generation (sync_entry_faces e s2)), e))"

definition register_static_seed ::
  "protocol_env \<Rightarrow> device_info \<Rightarrow> slot_role \<Rightarrow> go_time \<Rightarrow> 'm device_registry \<Rightarrow> 'm device_registry \<times> entry_ref" where
  "register_static_seed env info role t s = register_marked env (mark_slot_static_seed role t) info s"

definition register_passive_observed ::
  "protocol_env \<Rightarrow> device_info \<Rightarrow> slot_role \<Rightarrow> go_time \<Rightarrow> 'm device_registry \<Rightarrow> 'm device_registry \<times> entry_ref" where
  "register_passive_observed env info role t s = register_marked env (mark_slot_passive_observed role t) info s"

definition mark_slot :: "(address_slot \<Rightarrow> address_slot) \<Rightarrow> byte \<Rightarrow> 'm device_registry \<Rightarrow> 'm device_registry" where
  "mark_slot mark a s =
     (let s1 = write_slot a mark s
      in advance_generation (case sl_device (slot_at s1 a) of None \<Rightarrow> s1 | Some e \<Rightarrow> sync_entry_faces e s1))"

definition mark_slot_static_seed_at :: "byte \<Rightarrow> slot_role \<Rightarrow> go_time \<Rightarrow> 'm device_registry \<Rightarrow> 'm device_registry" where
  "mark_slot_static_seed_at a role t s = mark_slot (mark_slot_static_seed role t) a s"

definition mark_slot_passive_observed_at :: "byte \<Rightarrow> slot_role \<Rightarrow> go_time \<Rightarrow> 'm device_registry \<Rightarrow> 'm device_registry" where
  "mark_slot_passive_observed_at a role t s = mark_slot (mark_slot_passive_observed role t) a s"

section \<open>Aliases\<close>

definition merge_removed_alias_entry :: "entry_ref \<Rightarrow> entry_ref \<Rightarrow> 'm device_registry \<Rightarrow> 'm device_registry" where
  "merge_removed_alias_entry canonical secondary s =
     (let k0 = (if de_key (entry_of s canonical) = [] then de_key (entry_of s secondary)
                else de_key (entry_of s canonical));
          s1 = remove_identity_bindings secondary (absorb_identity canonical secondary s);
          s2 = update_entry canonical (\<lambda>x. x\<lparr>de_physical := canonical_physical_identity (de_info x)\<rparr>) s1;
          k = (if identity_key (de_physical (entry_of s2 canonical)) \<noteq> k0 then [] else k0);
          s3 = publish_current_identity_binding canonical k s2
      in s3\<lparr>dr_order := remove_entry (dr_order s3) secondary\<rparr>)"

text \<open>The other address \<open>b\<close> joins \<open>canonical\<close>: one branch of the switch of \<open>AliasAddresses\<close>.\<close>

definition alias_into :: "entry_ref \<Rightarrow> byte \<Rightarrow> 'm device_registry \<Rightarrow> 'm device_registry" where
  "alias_into canonical b s =
     (let s1 = (case sl_device (slot_at s b) of None \<Rightarrow> s
                | Some secondary \<Rightarrow>
                    if secondary = canonical then s
                    else
                      let s1 = update_entry secondary
                                 (\<lambda>x. x\<lparr>de_addresses := remove_address (de_addresses x) b\<rparr>) s
                      in if length (de_addresses (entry_of s1 secondary)) = 0
                         then merge_removed_alias_entry canonical secondary s1
                         else sync_entry_faces secondary (update_entry secondary (leave_primary b) s1));
          s2 = write_slot b (\<lambda>slot. slot\<lparr>sl_device := Some canonical\<rparr>) s1;
          s3 = (if \<not> contains_address (de_addresses (entry_of s2 canonical)) b
                then update_entry canonical (\<lambda>x. x\<lparr>de_addresses := de_addresses x @ [b]\<rparr>) s2 else s2);
          s4 = s3\<lparr>dr_entries := (dr_entries s3)(b \<mapsto> canonical)\<rparr>
      in sync_entry_faces canonical s4)"

definition alias_addresses :: "protocol_env \<Rightarrow> byte \<Rightarrow> byte \<Rightarrow> 'm device_registry \<Rightarrow> 'm device_registry" where
  "alias_addresses env a b s =
     (let s1 = ensure_address_slot b (ensure_address_slot a s);
          s2 = (case sl_device (slot_at s1 a) of
                  Some canonical \<Rightarrow> alias_into canonical b s1
                | None \<Rightarrow>
                    (case sl_device (slot_at s1 b) of
                       Some canonical \<Rightarrow> alias_into canonical a s1
                     | None \<Rightarrow> s1));
          s3 = (if dr_entries s2 a \<noteq> None \<and> dr_entries s2 a = dr_entries s2 b
                then record_topology_alias a b s2 else s2)
      in reconcile_qualified_identity_witnesses env (advance_generation s3))"

section \<open>Passive companions\<close>

definition admit_passive_companion_locked ::
  "protocol_env \<Rightarrow> byte \<Rightarrow> byte \<Rightarrow> go_time \<Rightarrow> 'm device_registry \<Rightarrow> 'm device_registry \<times> bool" where
  "admit_passive_companion_locked env source companion t s =
     (if \<not> qualified_identity_witness_current env s source (wr_witness (dr_witnesses s source)) then (s, False)
      else if (case dr_table s companion of None \<Rightarrow> False
               | Some slot \<Rightarrow> sl_role slot \<noteq> SlotRoleUnknown \<and> sl_role slot \<noteq> SlotRoleSlave)
      then (s, False)
      else (mark_slot (mark_slot_passive_observed SlotRoleSlave t) companion s, True))"

definition admit_passive_companion ::
  "protocol_env \<Rightarrow> byte \<Rightarrow> go_time \<Rightarrow> 'm device_registry \<Rightarrow> 'm device_registry \<times> byte option" where
  "admit_passive_companion env source t s =
     (if t = 0 then (s, None)
      else case companion_of_source env source of None \<Rightarrow> (s, None)
      | Some companion \<Rightarrow>
          let (s1, admitted) = admit_passive_companion_locked env source companion t s
          in (s1, if admitted then Some companion else None))"

section \<open>Reads\<close>

definition dev_lookup :: "'m device_registry \<Rightarrow> byte \<Rightarrow> entry_ref option" where
  "dev_lookup s a = dr_entries s a"

definition lookup_slot :: "'m device_registry \<Rightarrow> byte \<Rightarrow> address_slot option" where
  "lookup_slot s a = dr_table s a"

record address_slot_snapshot =
  ss_addr :: byte
  ss_role :: slot_role
  ss_source :: discovery_source
  ss_state :: verification_state
  ss_first :: go_time
  ss_last :: go_time
  ss_device_attached :: bool

definition lookup_slot_snapshot :: "'m device_registry \<Rightarrow> byte \<Rightarrow> address_slot_snapshot option" where
  "lookup_slot_snapshot s a =
     (case dr_table s a of None \<Rightarrow> None
      | Some slot \<Rightarrow> Some \<lparr>ss_addr = sl_addr slot, ss_role = sl_role slot, ss_source = sl_source slot,
          ss_state = sl_state slot, ss_first = sl_first slot, ss_last = sl_last slot,
          ss_device_attached = (sl_device slot \<noteq> None)\<rparr>)"

definition primary_display_address :: "'m device_entry \<Rightarrow> byte" where
  "primary_display_address x = (if de_primary x \<noteq> 0 then de_primary x else di_address (de_info x))"

text \<open>The two passes over the faces.\<close>

fun face_with_role :: "slot_role \<Rightarrow> bus_face list \<Rightarrow> byte option" where
  "face_with_role role [] = None"
| "face_with_role role (f # fs) = (if bf_role f = role then Some (bf_addr f) else face_with_role role fs)"

fun face_with_class :: "protocol_env \<Rightarrow> slot_role \<Rightarrow> bus_face list \<Rightarrow> byte option" where
  "face_with_class env role [] = None"
| "face_with_class env role (f # fs) =
     (if bf_role f \<noteq> SlotRoleUnknown then face_with_class env role fs
      else case address_class_of env (bf_addr f) of
        AddressClassMaster \<Rightarrow> if role = SlotRoleMaster then Some (bf_addr f) else face_with_class env role fs
      | AddressClassSlave \<Rightarrow> if role = SlotRoleSlave then Some (bf_addr f) else face_with_class env role fs
      | AddressClassOther \<Rightarrow> face_with_class env role fs)"

definition faces_by_role :: "protocol_env \<Rightarrow> slot_role \<Rightarrow> bus_face list \<Rightarrow> byte option" where
  "faces_by_role env role faces =
     (case face_with_role role faces of Some a \<Rightarrow> Some a | None \<Rightarrow> face_with_class env role faces)"

definition address_by_role :: "protocol_env \<Rightarrow> slot_role \<Rightarrow> 'm device_entry \<Rightarrow> byte option" where
  "address_by_role env role x = faces_by_role env role (de_faces x)"

definition entry_addresses :: "'m device_entry \<Rightarrow> byte list" where
  "entry_addresses x =
     (if length (de_addresses x) = 0 then (if di_address (de_info x) = 0 then [] else [di_address (de_info x)])
      else de_addresses x)"

record 'm device_entry_snapshot =
  es_primary :: byte
  es_addresses :: "byte list"
  es_faces :: "bus_face list"
  es_manufacturer :: string
  es_device_id :: string
  es_serial_number :: string
  es_mac_address :: string
  es_software_version :: string
  es_hardware_version :: string
  es_planes :: "'m plane list"
  es_projections :: "plane_projection list"

text \<open>Copies of slices are the slices: nothing else holds the values of the model.\<close>

definition snapshot_entry :: "'m device_registry \<Rightarrow> entry_ref \<Rightarrow> 'm device_entry_snapshot" where
  "snapshot_entry s e =
     (let x = entry_of s e; info = de_info x in
      \<lparr>es_primary = (if de_primary x = 0 then di_address info else de_primary x),
       es_addresses = de_addresses x, es_faces = de_faces x,
       es_manufacturer = di_manufacturer info, es_device_id = di_device_id info,
       es_serial_number = di_serial_number info, es_mac_address = di_mac_address info,
       es_software_version = di_software_version info, es_hardware_version = di_hardware_version info,
       es_planes = de_planes x, es_projections = de_projections x\<rparr>)"

definition lookup_entry_snapshot :: "'m device_registry \<Rightarrow> byte \<Rightarrow> 'm device_entry_snapshot option" where
  "lookup_entry_snapshot s a = map_option (snapshot_entry s) (dr_entries s a)"

definition snapshot_address_by_role :: "protocol_env \<Rightarrow> slot_role \<Rightarrow> 'm device_entry_snapshot \<Rightarrow> byte option" where
  "snapshot_address_by_role env role x = faces_by_role env role (es_faces x)"

text \<open>\<open>IterateSnapshots\<close>: the snapshots the callback is offered, in order, up to its first refusal.\<close>

fun offered :: "('a \<Rightarrow> bool) \<Rightarrow> 'a list \<Rightarrow> 'a list" where
  "offered accept [] = []"
| "offered accept (x # xs) = x # (if accept x then offered accept xs else [])"

definition iterate_snapshots ::
  "('m device_entry_snapshot \<Rightarrow> bool) \<Rightarrow> 'm device_registry \<Rightarrow> 'm device_entry_snapshot list" where
  "iterate_snapshots accept s = offered accept (map (snapshot_entry s) (dr_order s))"

definition iterate_entries :: "(entry_ref \<Rightarrow> bool) \<Rightarrow> 'm device_registry \<Rightarrow> entry_ref list" where
  "iterate_entries accept s = offered accept (dr_order s)"

text \<open>\<open>CanonicalIndexForEntry\<close>: \<open>None\<close> is a nil entry, \<open>Inl\<close> an entry of the registry, \<open>Inr\<close> another
  implementation, known by its projections.\<close>

definition canonical_index_for_entry ::
  "('m device_entry + plane_projection list) option \<Rightarrow> projection_error option \<times> canonical_index" where
  "canonical_index_for_entry entry =
     (case entry of
        None \<Rightarrow> (Some ErrProjectionInvalidNode, zero_index)
      | Some (Inl x) \<Rightarrow> (de_index_err x, de_index x)
      | Some (Inr projections) \<Rightarrow>
          (case build_canonical_index projections of
             Inl err \<Rightarrow> (Some err, zero_index) | Inr index \<Rightarrow> (None, index)))"

end
