(* ===== verification/Reg_Groups.thy ===== *)
theory Reg_Groups
  imports Reg_Register
begin

text \<open>
  The address groups of the registry: the published entries partition the addresses they hold,
  and the address map is that partition. The effect of every primitive on the partition, the
  slots and the identity index.
\<close>

section \<open>Partitions\<close>

text \<open>
  \<open>order\<close> lists the live entries, \<open>owner\<close> is the address map, \<open>members\<close> and \<open>primary\<close> are
  read from the entries, references from \<open>bound\<close> on are unused.
\<close>

definition groups ::
  "entry_ref list \<Rightarrow> (byte \<Rightarrow> entry_ref option) \<Rightarrow> (entry_ref \<Rightarrow> byte list) \<Rightarrow> (entry_ref \<Rightarrow> byte) \<Rightarrow>
     entry_ref \<Rightarrow> bool" where
  "groups order owner members primary bound \<longleftrightarrow> distinct order \<and>
     (\<forall>e \<in> set order. e < bound \<and> distinct (members e) \<and> primary e \<in> set (members e)) \<and>
     (\<forall>a e. owner a = Some e \<longleftrightarrow> e \<in> set order \<and> a \<in> set (members e))"

lemma groupsD:
  assumes "groups order owner members primary bound"
  shows "distinct order" "e \<in> set order \<Longrightarrow> e < bound" "e \<in> set order \<Longrightarrow> distinct (members e)"
    "e \<in> set order \<Longrightarrow> primary e \<in> set (members e)"
    "owner a = Some e \<longleftrightarrow> e \<in> set order \<and> a \<in> set (members e)"
  using assms by (auto simp: groups_def)

lemma groups_cong:
  assumes "\<And>e. e \<in> set order \<Longrightarrow> members e = members' e \<and> primary e = primary' e"
  shows "groups order owner members primary bound \<longleftrightarrow> groups order owner members' primary' bound"
  unfolding groups_def using assms by auto

lemma groups_new:
  assumes "groups order owner members primary bound" and "owner a = None"
  shows "groups (order @ [bound]) (owner(a \<mapsto> bound)) (members(bound := [a])) (primary(bound := a)) (Suc bound)"
proof -
  note G = groupsD [OF assms(1)]
  have nb: "bound \<notin> set order" using G(2) by blast
  have own: "(owner(a \<mapsto> bound)) b = Some e \<longleftrightarrow>
      e \<in> set (order @ [bound]) \<and> b \<in> set ((members(bound := [a])) e)" for b e
  proof (cases "e = bound")
    case True
    have "owner b \<noteq> Some bound" using nb G(5) [of b bound] by simp
    then show ?thesis using True by auto
  next
    case False
    then show ?thesis using G(5) [of b e] G(5) [of a e] assms(2) by auto
  qed
  show ?thesis
    unfolding groups_def own using G nb by (auto simp: less_Suc_eq)
qed

lemma groups_add:
  assumes "groups order owner members primary bound" and "owner a = None" and "e \<in> set order"
  shows "groups order (owner(a \<mapsto> e)) (members(e := members e @ [a])) primary bound"
proof -
  note G = groupsD [OF assms(1)]
  have na: "a \<notin> set (members x)" if "x \<in> set order" for x using G(5) [of a x] assms(2) that by simp
  have own: "(owner(a \<mapsto> e)) b = Some x \<longleftrightarrow> x \<in> set order \<and> b \<in> set ((members(e := members e @ [a])) x)" for b x
    using G(5) [of b x] na assms(3) by auto
  show ?thesis
    unfolding groups_def own using G(1-4) na assms(3) by auto
qed

lemma groups_remove:
  assumes "groups order owner members primary bound" and "owner a = Some e" and "members e = [a]"
  shows "groups (remove1 e order) (owner(a := None)) members primary bound"
proof -
  note G = groupsD [OF assms(1)]
  have e: "e \<in> set order" using G(5) assms(2) by blast
  have own: "(owner(a := None)) b = Some x \<longleftrightarrow> x \<in> set (remove1 e order) \<and> b \<in> set (members x)" for b x
  proof (cases "b = a")
    case True
    have "x \<noteq> e \<Longrightarrow> \<not> (x \<in> set order \<and> a \<in> set (members x))"
      using G(5) [of a x] assms(2) by auto
    then show ?thesis using True G(1) by auto
  next
    case False
    then show ?thesis using G(5) [of b x] G(1) assms(3) by auto
  qed
  show ?thesis unfolding groups_def own using G(1-4) by (auto simp: notin_set_remove1)
qed

lemma groups_shrink:
  assumes "groups order owner members primary bound" and "owner a = Some e" and "remove1 a (members e) \<noteq> []"
  shows "groups order (owner(a := None)) (members(e := remove1 a (members e)))
     (primary(e := if primary e = a then hd (remove1 a (members e)) else primary e)) bound"
proof -
  note G = groupsD [OF assms(1)]
  have e: "e \<in> set order" using G(5) assms(2) by blast
  have own: "(owner(a := None)) b = Some x \<longleftrightarrow>
      x \<in> set order \<and> b \<in> set ((members(e := remove1 a (members e))) x)" for b x
  proof (cases "b = a")
    case True
    have "x \<noteq> e \<Longrightarrow> \<not> (x \<in> set order \<and> a \<in> set (members x))"
      using G(5) [of a x] assms(2) by auto
    then show ?thesis using True G(3) [OF e] by auto
  next
    case False
    then show ?thesis using G(5) [of b x] G(3) [OF e] by auto
  qed
  have p: "(if primary e = a then hd (remove1 a (members e)) else primary e) \<in> set (remove1 a (members e))"
    using assms(3) G(4) [OF e] by (simp add: in_set_remove1)
  show ?thesis unfolding groups_def own using G(1-4) p by (auto simp: distinct_remove1)
qed

text \<open>All addresses of one group move to another.\<close>

definition add_all :: "byte list \<Rightarrow> byte list \<Rightarrow> byte list" where
  "add_all xs ys = foldl (\<lambda>xs y. if y \<in> set xs then xs else xs @ [y]) xs ys"

lemma add_all_facts: "set (add_all xs ys) = set xs \<union> set ys" "distinct xs \<Longrightarrow> distinct (add_all xs ys)"
  unfolding add_all_def by (induction ys arbitrary: xs) auto

lemma groups_merge:
  assumes "groups order owner members primary bound" and "d \<in> set order" and "s \<in> set order" and "d \<noteq> s"
  shows "groups (remove1 s order) (\<lambda>a. if a \<in> set (members s) then Some d else owner a)
     (members(d := add_all (members d) (members s))) primary bound"
proof -
  note G = groupsD [OF assms(1)]
  have own: "(if b \<in> set (members s) then Some d else owner b) = Some x \<longleftrightarrow>
      x \<in> set (remove1 s order) \<and> b \<in> set ((members(d := add_all (members d) (members s))) x)" for b x
  proof (cases "b \<in> set (members s)")
    case True
    then have "owner b = Some s" using G(5) assms(3) by blast
    then have "x \<noteq> s \<Longrightarrow> \<not> (x \<in> set order \<and> b \<in> set (members x))" using G(5) [of b x] by auto
    then show ?thesis using True assms(2,4) G(1) by (auto simp: add_all_facts)
  next
    case False
    then show ?thesis using G(5) [of b x] G(1) assms(4) by (auto simp: add_all_facts)
  qed
  show ?thesis
    unfolding groups_def own using G(1-4) assms(4) by (auto simp: add_all_facts notin_set_remove1)
qed

text \<open>The groups of a state.\<close>

abbreviation members_of :: "'m device_registry \<Rightarrow> entry_ref \<Rightarrow> byte list" where
  "members_of s \<equiv> \<lambda>e. de_addresses (dr_heap s e)"

abbreviation primary_of :: "'m device_registry \<Rightarrow> entry_ref \<Rightarrow> byte" where
  "primary_of s \<equiv> \<lambda>e. de_primary (dr_heap s e)"

definition groups_ok :: "'m device_registry \<Rightarrow> bool" where
  "groups_ok s \<longleftrightarrow> groups (dr_order s) (dr_entries s) (members_of s) (primary_of s) (dr_next s)"

lemmas groups_okD = groupsD [OF groups_ok_def [THEN iffD1]]

end
