(* ===== verification/Reg_Invariant.thy ===== *)
theory Reg_Invariant
  imports Reg_Groups
begin

text \<open>
  The invariant of the device registry and its preservation by every operation: the groups
  partition the address map, slots point to the group of their address, faces mirror slots,
  identities are those of the stored descriptions, the identity index binds live entries under
  their own key, the topology is symmetric, and every recorded witness is backed by the index.
\<close>

section \<open>The parts of the invariant\<close>

definition slot_fits :: "'m device_registry \<Rightarrow> byte \<Rightarrow> bool" where
  "slot_fits s a \<longleftrightarrow> (dr_table s a = None \<longrightarrow> dr_entries s a = None) \<and>
     (\<forall>slot. dr_table s a = Some slot \<longrightarrow> sl_addr slot = a \<and> sl_device slot = dr_entries s a)"

definition slots_ok :: "'m device_registry \<Rightarrow> bool" where
  "slots_ok s \<longleftrightarrow> (\<forall>a. slot_fits s a)"

definition expected_faces :: "'m device_registry \<Rightarrow> entry_ref \<Rightarrow> bus_face list" where
  "expected_faces s e = map (\<lambda>a. face_of a (slot_at s a)) (members_of s e)"

text \<open>Faces and descriptions, except those of the entries that an operation is about to refresh.\<close>

definition faces_ok :: "entry_ref set \<Rightarrow> 'm device_registry \<Rightarrow> bool" where
  "faces_ok X s \<longleftrightarrow> (\<forall>e \<in> set (dr_order s) - X. de_faces (entry_of s e) = expected_faces s e)"

definition infos_ok :: "entry_ref set \<Rightarrow> 'm device_registry \<Rightarrow> bool" where
  "infos_ok X s \<longleftrightarrow> (\<forall>e \<in> set (dr_order s) - X. di_address (de_info (entry_of s e)) = primary_of s e \<and>
     de_physical (entry_of s e) = canonical_physical_identity (de_info (entry_of s e)))"

definition topology_ok :: "'m device_registry \<Rightarrow> bool" where
  "topology_ok s \<longleftrightarrow> (\<forall>a b. b \<in> set (dr_topology s a) \<longrightarrow> a \<in> set (dr_topology s b) \<and> a \<noteq> b)"

definition identity_ok :: "'m device_registry \<Rightarrow> bool" where
  "identity_ok s \<longleftrightarrow> gm_ok (dr_identity s) \<and>
     (\<forall>k e. gm_get (dr_identity s) k = Some e \<longrightarrow>
        e \<in> set (dr_order s) \<and> de_key (entry_of s e) = k \<and> is_stable_identity_key k)"

text \<open>What a witness claims holds: its address resolves to the entry its key selects.\<close>

definition witness_valid :: "protocol_env \<Rightarrow> 'm device_registry \<Rightarrow> byte \<Rightarrow> witness_record \<Rightarrow> bool" where
  "witness_valid env s a r \<longleftrightarrow>
     (let w = wr_witness r; authority = authority_identity (iw_authority w) in
      iw_address w = a \<and> iw_current w \<and> iw_immutable w \<and> iw_provenance w = provenance_direct \<and>
      is_qualified_witness_address env a \<and>
      wr_key r = identity_key authority \<and> wr_key r \<noteq> [] \<and>
      ph_manufacturer authority = ia_manufacturer (iw_authority w) \<and>
      ph_device_id authority = ia_device_id (iw_authority w) \<and>
      ph_serial_number authority = ia_serial_number (iw_authority w) \<and>
      is_current_qualified_identity_key s (dr_entries s a) (wr_key r) \<and>
      gm_get (dr_identity s) (wr_key r) = dr_entries s a)"

definition witnesses_ok :: "protocol_env \<Rightarrow> 'm device_registry \<Rightarrow> bool" where
  "witnesses_ok env s \<longleftrightarrow> (\<forall>a. dr_witnesses s a = no_witness \<or> witness_valid env s a (dr_witnesses s a))"

text \<open>The invariant without faces and descriptions of \<open>X\<close>, and the whole invariant.\<close>

definition core_ok :: "entry_ref set \<Rightarrow> 'm device_registry \<Rightarrow> bool" where
  "core_ok X s \<longleftrightarrow> groups_ok s \<and> slots_ok s \<and> faces_ok X s \<and> infos_ok X s \<and> topology_ok s \<and> identity_ok s"

definition registry_ok :: "protocol_env \<Rightarrow> 'm device_registry \<Rightarrow> bool" where
  "registry_ok env s \<longleftrightarrow> core_ok {} s \<and> witnesses_ok env s"

lemma core_okD:
  assumes "core_ok X s"
  shows "groups_ok s" "slots_ok s" "faces_ok X s" "infos_ok X s" "topology_ok s" "identity_ok s"
  using assms by (simp_all add: core_ok_def)

lemma no_witness_key [simp]: "wr_key no_witness = []"
  by (simp add: no_witness_def)

lemma new_registry_groups: "registry_ok env (new_device_registry providers)"
  by (simp add: registry_ok_def core_ok_def groups_ok_def groups_def slots_ok_def slot_fits_def faces_ok_def
      infos_ok_def topology_ok_def identity_ok_def witnesses_ok_def new_device_registry_def)

section \<open>Slots\<close>

lemma slot_at_simps:
  "dr_table s a = Some slot \<Longrightarrow> slot_at s a = slot" "dr_table s a = None \<Longrightarrow> slot_at s a = new_slot a"
  by (simp_all add: slot_at_def)

lemma slot_fitsD:
  assumes "slots_ok s" and "dr_entries s a = Some e"
  obtains slot where "dr_table s a = Some slot" "sl_addr slot = a" "sl_device slot = Some e"
proof -
  have fit: "slot_fits s a" using assms(1) by (simp add: slots_ok_def)
  then obtain slot where "dr_table s a = Some slot" using assms(2) by (cases "dr_table s a") (auto simp: slot_fits_def)
  then show thesis using fit assms(2) that by (auto simp: slot_fits_def)
qed

lemma slot_at_fits:
  assumes "slot_fits s a"
  shows "sl_addr (slot_at s a) = a \<and> sl_device (slot_at s a) = dr_entries s a"
  using assms by (cases "dr_table s a") (auto simp: slot_fits_def slot_at_simps new_slot_def)

lemma slot_device: "slots_ok s \<Longrightarrow> sl_device (slot_at s a) = dr_entries s a"
  using slot_at_fits by (auto simp: slots_ok_def)

lemma ensure_selectors [simp]:
  "dr_entries (ensure_address_slot a s) = dr_entries s" "dr_heap (ensure_address_slot a s) = dr_heap s"
  "dr_order (ensure_address_slot a s) = dr_order s" "dr_next (ensure_address_slot a s) = dr_next s"
  "dr_identity (ensure_address_slot a s) = dr_identity s" "dr_topology (ensure_address_slot a s) = dr_topology s"
  "dr_witnesses (ensure_address_slot a s) = dr_witnesses s" "dr_providers (ensure_address_slot a s) = dr_providers s"
  "dr_observation_generation (ensure_address_slot a s) = dr_observation_generation s"
  "dr_proof_generation (ensure_address_slot a s) = dr_proof_generation s"
  by (simp_all add: ensure_address_slot_def split: option.splits)

lemma slot_at_ensure [simp]: "slot_at (ensure_address_slot a s) b = slot_at s b"
  by (simp add: slot_at_def ensure_address_slot_def split: option.splits)

lemma write_slot_selectors [simp]:
  "dr_entries (write_slot a f s) = dr_entries s" "dr_heap (write_slot a f s) = dr_heap s"
  "dr_order (write_slot a f s) = dr_order s" "dr_next (write_slot a f s) = dr_next s"
  "dr_identity (write_slot a f s) = dr_identity s" "dr_topology (write_slot a f s) = dr_topology s"
  "dr_witnesses (write_slot a f s) = dr_witnesses s" "dr_providers (write_slot a f s) = dr_providers s"
  "dr_observation_generation (write_slot a f s) = dr_observation_generation s"
  "dr_proof_generation (write_slot a f s) = dr_proof_generation s"
  by (simp_all add: write_slot_def)

lemma slot_at_write [simp]: "slot_at (write_slot a f s) b = (if b = a then f (slot_at s a) else slot_at s b)"
  by (simp add: slot_at_def write_slot_def)

lemma table_write: "dr_table (write_slot a f s) b = (if b = a then Some (f (slot_at s a)) else dr_table s b)"
  by (simp add: write_slot_def)

definition keeps_place :: "(address_slot \<Rightarrow> address_slot) \<Rightarrow> bool" where
  "keeps_place f \<longleftrightarrow> (\<forall>slot. sl_addr (f slot) = sl_addr slot \<and> sl_device (f slot) = sl_device slot)"

lemma keeps_place_marks [simp]:
  "keeps_place (mark_slot_passive_observed role t)" "keeps_place (mark_slot_static_seed role t)"
  "keeps_place (raise_state state)"
  by (simp_all add: keeps_place_def mark_slot_passive_observed_def mark_slot_static_seed_def stamp_times_def
      learn_role_def raise_state_def record_discovery_source_def Let_def)

lemma slot_fits_write:
  "slot_fits (write_slot a f s) b \<longleftrightarrow>
     (if b = a then sl_addr (f (slot_at s a)) = a \<and> sl_device (f (slot_at s a)) = dr_entries s a else slot_fits s b)"
  by (auto simp: slot_fits_def table_write)

lemma slots_write: "slots_ok s \<Longrightarrow> keeps_place f \<Longrightarrow> slots_ok (write_slot a f s)"
  unfolding slots_ok_def slot_fits_write keeps_place_def using slot_at_fits [of s] by simp

lemma slots_ensure:
  assumes "slots_ok s"
  shows "slots_ok (ensure_address_slot a s)"
proof -
  have "slot_fits (ensure_address_slot a s) b" for b
    using assms by (cases "dr_table s a") (auto simp: slots_ok_def slot_fits_def ensure_address_slot_def new_slot_def)
  then show ?thesis by (simp add: slots_ok_def)
qed

text \<open>Attaching the device completes the slot of an address that was just bound.\<close>

lemma slots_attach:
  "(\<And>b. b \<noteq> a \<Longrightarrow> slot_fits s b) \<Longrightarrow> sl_addr (slot_at s a) = a \<Longrightarrow> dr_entries s a = Some e \<Longrightarrow>
     (\<And>slot. sl_addr (f slot) = sl_addr slot \<and> sl_device (f slot) = Some e) \<Longrightarrow> slots_ok (write_slot a f s)"
  unfolding slots_ok_def slot_fits_write by simp

lemma faces_write:
  assumes "faces_ok X s" and "groups_ok s" and "\<And>e. dr_entries s a = Some e \<Longrightarrow> e \<in> X"
  shows "faces_ok X (write_slot a f s)"
  unfolding faces_ok_def
proof
  fix e assume e: "e \<in> set (dr_order (write_slot a f s)) - X"
  then have "a \<notin> set (members_of s e)" using groups_okD(5) [OF assms(2), of a e] assms(3) by auto
  then have "expected_faces (write_slot a f s) e = expected_faces s e" by (auto simp: expected_faces_def)
  then show "de_faces (entry_of (write_slot a f s) e) = expected_faces (write_slot a f s) e"
    using assms(1) e by (simp add: faces_ok_def)
qed

lemma write_slot_ok:
  "core_ok X s \<Longrightarrow> keeps_place f \<Longrightarrow> (\<And>e. dr_entries s a = Some e \<Longrightarrow> e \<in> X) \<Longrightarrow> core_ok X (write_slot a f s)"
  using slots_write [of s f a] faces_write [of X s a f]
  by (simp add: core_ok_def groups_ok_def infos_ok_def topology_ok_def identity_ok_def)

lemma ensure_ok: "core_ok X s \<Longrightarrow> core_ok X (ensure_address_slot a s)"
  using slots_ensure [of s a]
  by (simp add: core_ok_def groups_ok_def infos_ok_def topology_ok_def identity_ok_def faces_ok_def expected_faces_def)

lemma core_ok_mono: "core_ok X s \<Longrightarrow> X \<subseteq> Y \<Longrightarrow> core_ok Y s"
  by (auto simp: core_ok_def faces_ok_def infos_ok_def)

section \<open>Faces\<close>

lemma sync_faces_attached:
  "\<forall>a \<in> set as. \<exists>slot. dr_table s a = Some slot \<and> sl_device slot \<noteq> None \<Longrightarrow>
     sync_faces e as s = (s, map (\<lambda>a. face_of a (slot_at s a)) as)"
proof (induction as)
  case (Cons a as)
  then obtain slot where slot: "dr_table s a = Some slot" "sl_device slot \<noteq> None" by auto
  have "ensure_address_slot a s = s" using slot by (simp add: ensure_address_slot_def)
  moreover obtain d where "sl_device (slot_at s a) = Some d" using slot by (auto simp: slot_at_simps)
  ultimately show ?case using Cons by (simp add: Let_def)
qed simp

lemma sync_entry_faces_eq:
  assumes "slots_ok s" and "groups_ok s" and "e \<in> set (dr_order s)"
  shows "sync_entry_faces e s = update_entry e (\<lambda>x. x\<lparr>de_faces := expected_faces s e\<rparr>) s"
proof -
  have "\<exists>slot. dr_table s a = Some slot \<and> sl_device slot \<noteq> None" if "a \<in> set (members_of s e)" for a
  proof -
    have "dr_entries s a = Some e" using groups_okD(5) [OF assms(2)] assms(3) that by blast
    from slot_fitsD [OF assms(1) this] show ?thesis by blast
  qed
  then show ?thesis by (simp add: sync_entry_faces_def sync_faces_attached expected_faces_def)
qed

lemma expected_faces_update:
  "(\<And>x. de_addresses (f x) = de_addresses x) \<Longrightarrow> expected_faces (update_entry e f s) x = expected_faces s x"
  by (simp add: expected_faces_def update_entry_def slot_at_def)

lemma update_entry_selectors [simp]:
  "dr_entries (update_entry e f s) = dr_entries s" "dr_table (update_entry e f s) = dr_table s"
  "dr_order (update_entry e f s) = dr_order s" "dr_next (update_entry e f s) = dr_next s"
  "dr_identity (update_entry e f s) = dr_identity s" "dr_topology (update_entry e f s) = dr_topology s"
  "dr_witnesses (update_entry e f s) = dr_witnesses s" "dr_providers (update_entry e f s) = dr_providers s"
  "dr_observation_generation (update_entry e f s) = dr_observation_generation s"
  "dr_proof_generation (update_entry e f s) = dr_proof_generation s"
  "entry_of (update_entry e f s) x = (if x = e then f (entry_of s e) else entry_of s x)"
  by (simp_all add: update_entry_def)

lemma slots_update [simp]: "slots_ok (update_entry e f s) = slots_ok s" "slot_at (update_entry e f s) a = slot_at s a"
  "slot_fits (update_entry e f s) a = slot_fits s a"
  by (simp_all add: slots_ok_def slot_fits_def slot_at_def cong: option.case_cong)

lemma groups_update:
  "(\<And>x. de_addresses (f x) = de_addresses x) \<Longrightarrow> (\<And>x. de_primary (f x) = de_primary x) \<Longrightarrow>
     groups_ok (update_entry e f s) = groups_ok s"
  unfolding groups_ok_def update_entry_selectors by (rule groups_cong) simp

text \<open>After syncing, the entry is no exception any more.\<close>

lemma sync_ok:
  assumes "core_ok (insert e X) s" and "infos_ok X s" and "e \<in> set (dr_order s)"
  shows "core_ok X (sync_entry_faces e s)"
proof -
  note C = core_okD [OF assms(1)]
  let ?f = "\<lambda>x. x\<lparr>de_faces := expected_faces s e\<rparr>"
  note eq = sync_entry_faces_eq [OF C(2,1) assms(3)]
  have "groups_ok (update_entry e ?f s)" using C(1) by (simp add: groups_update)
  moreover have "faces_ok X (update_entry e ?f s)"
    using C(3) by (auto simp: faces_ok_def expected_faces_update)
  moreover have "infos_ok X (update_entry e ?f s)" using assms(2) by (auto simp: infos_ok_def)
  moreover have "identity_ok (update_entry e ?f s)" using C(6) by (auto simp: identity_ok_def)
  ultimately show ?thesis unfolding eq using C(2,5) by (simp add: core_ok_def topology_ok_def)
qed

section \<open>The identity index\<close>

definition publish_refused :: "entry_ref \<Rightarrow> string \<Rightarrow> 'm device_registry \<Rightarrow> bool" where
  "publish_refused e k s \<longleftrightarrow> k \<noteq> [] \<and> (case snd (current_identity_entry k s) of None \<Rightarrow> False
     | Some i \<Rightarrow> i \<noteq> e \<and> \<not> can_merge_identity (de_info (entry_of s e)) (de_info (entry_of s i)))"

definition published_key :: "entry_ref \<Rightarrow> string \<Rightarrow> 'm device_registry \<Rightarrow> string" where
  "published_key e k s = (if publish_refused e k s then [] else k)"

definition rebind :: "entry_ref \<Rightarrow> string \<Rightarrow> 'm device_entry \<Rightarrow> 'm device_entry" where
  "rebind e k x = x\<lparr>de_key_aliases := [], de_key := k\<rparr>"

definition without_entry :: "entry_ref \<Rightarrow> (string, entry_ref) gomap \<Rightarrow> string \<Rightarrow> entry_ref option" where
  "without_entry e m j = (if gm_get m j = Some e then None else gm_get m j)"

lemma identity_okD:
  assumes "identity_ok s"
  shows "gm_ok (dr_identity s)"
    "gm_get (dr_identity s) k = Some e \<Longrightarrow> e \<in> set (dr_order s) \<and> de_key (entry_of s e) = k \<and> is_stable_identity_key k"
  using assms by (auto simp: identity_ok_def)

lemma identity_nonempty: "identity_ok s \<Longrightarrow> gm_get (dr_identity s) k = Some e \<Longrightarrow> k \<noteq> []"
  using identity_okD(2) is_stable_nonempty by blast

lemma current_identity_entry_cases:
  assumes "current_identity_entry k s = (t, c)"
  shows "(\<exists>m. t = s\<lparr>dr_identity := m\<rparr> \<and> (gm_ok (dr_identity s) \<longrightarrow> gm_ok m) \<and>
       (\<forall>j. gm_get m j = (if j = k \<and> c = None then None else gm_get (dr_identity s) j))) \<and>
     (c \<noteq> None \<longrightarrow> t = s \<and> c = gm_get (dr_identity s) k \<and> is_current_qualified_identity_key s c k)"
proof (cases "is_current_qualified_identity_key s (gm_get (dr_identity s) k) k")
  case True
  then have tc: "t = s \<and> c = gm_get (dr_identity s) k"
    using assms by (auto simp: current_identity_entry_def Let_def)
  moreover have "c \<noteq> None" using True tc by (auto simp: is_current_qualified_identity_key_def split: option.splits)
  ultimately show ?thesis using True by (intro conjI exI [of _ "dr_identity s"]) auto
next
  case False
  then have c: "c = None" and t: "t = (if gm_get (dr_identity s) k \<noteq> None
      then s\<lparr>dr_identity := gm_del k (dr_identity s)\<rparr> else s)"
    using assms by (auto simp: current_identity_entry_def Let_def split: if_splits)
  show ?thesis
  proof (cases "gm_get (dr_identity s) k")
    case None
    then show ?thesis using c t by (intro conjI exI [of _ "dr_identity s"]) auto
  next
    case (Some i)
    then show ?thesis using c t by (intro conjI exI [of _ "gm_del k (dr_identity s)"]) auto
  qed
qed

lemma retain_eq:
  assumes "gm_ok (dr_identity s)"
  shows "\<exists>m. retain_current_identity_binding e k s = update_entry e (\<lambda>x. x\<lparr>de_key_aliases := []\<rparr>) (s\<lparr>dr_identity := m\<rparr>) \<and>
     gm_ok m \<and> (\<forall>j. gm_get m j = (if j = k then gm_get (dr_identity s) j else without_entry e (dr_identity s) j))"
  using assms
  by (intro exI [of _ "gm_filter (\<lambda>key indexed. \<not> (indexed = e \<and> key \<noteq> k)) (dr_identity s)"])
    (auto simp: retain_current_identity_binding_def without_entry_def split: option.splits)

lemma remove_bindings_eq:
  assumes "identity_ok s"
  shows "\<exists>m. remove_identity_bindings e s = update_entry e (\<lambda>x. x\<lparr>de_key_aliases := []\<rparr>) (s\<lparr>dr_identity := m\<rparr>) \<and>
     gm_ok m \<and> gm_get m = without_entry e (dr_identity s)"
proof -
  obtain m where m: "retain_current_identity_binding e [] s =
      update_entry e (\<lambda>x. x\<lparr>de_key_aliases := []\<rparr>) (s\<lparr>dr_identity := m\<rparr>)" "gm_ok m"
    "\<forall>j. gm_get m j = (if j = [] then gm_get (dr_identity s) j else without_entry e (dr_identity s) j)"
    using retain_eq [OF identity_okD(1) [OF assms]] by blast
  have "gm_get (dr_identity s) [] = None"
    using identity_nonempty [OF assms] by (cases "gm_get (dr_identity s) []") auto
  then have "gm_get m = without_entry e (dr_identity s)" using m(3) by (auto simp: fun_eq_iff without_entry_def)
  then show ?thesis using m by (auto simp: remove_identity_bindings_def)
qed

lemma publish_eq:
  assumes ok: "identity_ok s"
  shows "\<exists>m. publish_current_identity_binding e k s =
       update_entry e (rebind e (published_key e k s)) (s\<lparr>dr_identity := m\<rparr>) \<and> gm_ok m \<and>
     (\<forall>j. gm_get m j = (if published_key e k s \<noteq> [] \<and> j = published_key e k s then Some e
                        else without_entry e (dr_identity s) j))"
proof (cases "k = []")
  case True
  have "gm_get (dr_identity s) [] = None"
    using identity_nonempty [OF ok] by (cases "gm_get (dr_identity s) []") auto
  moreover obtain m where "retain_current_identity_binding e [] s =
      update_entry e (\<lambda>x. x\<lparr>de_key_aliases := []\<rparr>) (s\<lparr>dr_identity := m\<rparr>)" "gm_ok m"
    "\<forall>j. gm_get m j = (if j = [] then gm_get (dr_identity s) j else without_entry e (dr_identity s) j)"
    using retain_eq [OF identity_okD(1) [OF ok]] by blast
  ultimately show ?thesis
    using True by (intro exI [of _ m])
      (auto simp: publish_current_identity_binding_def published_key_def publish_refused_def update_entry_def
        rebind_def without_entry_def)
next
  case False
  obtain t c where tc: "current_identity_entry k s = (t, c)" by (cases "current_identity_entry k s")
  obtain m0 where m0: "t = s\<lparr>dr_identity := m0\<rparr>" "gm_ok m0"
      "\<forall>j. gm_get m0 j = (if j = k \<and> c = None then None else gm_get (dr_identity s) j)"
    using current_identity_entry_cases [OF tc] identity_okD(1) [OF ok] by blast
  have c: "c \<noteq> None \<Longrightarrow> c = gm_get (dr_identity s) k" using current_identity_entry_cases [OF tc] by blast
  have heap: "entry_of t = entry_of s" by (simp add: m0(1))
  have refused: "publish_refused e k s \<longleftrightarrow> (case c of None \<Rightarrow> False
      | Some i \<Rightarrow> i \<noteq> e \<and> \<not> can_merge_identity (de_info (entry_of t e)) (de_info (entry_of t i)))"
    using False by (simp add: publish_refused_def tc heap split: option.splits)
  have pub: "publish_current_identity_binding e k s =
      (if publish_refused e k s then update_entry e (\<lambda>x. x\<lparr>de_key := []\<rparr>) (retain_current_identity_binding e [] t)
       else let s2 = update_entry e (\<lambda>x. x\<lparr>de_key := k\<rparr>) (retain_current_identity_binding e k t)
            in s2\<lparr>dr_identity := gm_put k e (dr_identity s2)\<rparr>)"
    unfolding publish_current_identity_binding_def refused using False by (simp add: tc)
  have ok0: "gm_ok (dr_identity t)" by (simp add: m0)
  show ?thesis
  proof (cases "publish_refused e k s")
    case True
    obtain m where m: "retain_current_identity_binding e [] t =
        update_entry e (\<lambda>x. x\<lparr>de_key_aliases := []\<rparr>) (t\<lparr>dr_identity := m\<rparr>)" "gm_ok m"
      "\<forall>j. gm_get m j = (if j = [] then gm_get (dr_identity t) j else without_entry e (dr_identity t) j)"
      using retain_eq [OF ok0] by blast
    have cs: "c \<noteq> None" using True refused by (auto split: option.splits)
    then have "dr_identity t = m0 \<and> gm_get m0 = gm_get (dr_identity s)" using m0 by (auto simp: fun_eq_iff)
    moreover have "gm_get (dr_identity s) [] = None"
      using identity_nonempty [OF ok] by (cases "gm_get (dr_identity s) []") auto
    ultimately have "\<forall>j. gm_get m j = without_entry e (dr_identity s) j"
      using m(3) by (auto simp: without_entry_def)
    then show ?thesis
      unfolding pub using True m(1,2) by (intro exI [of _ m])
        (simp add: published_key_def update_entry_def rebind_def m0(1))
  next
    case nr: False
    obtain m where m: "retain_current_identity_binding e k t =
        update_entry e (\<lambda>x. x\<lparr>de_key_aliases := []\<rparr>) (t\<lparr>dr_identity := m\<rparr>)" "gm_ok m"
      "\<forall>j. gm_get m j = (if j = k then gm_get (dr_identity t) j else without_entry e (dr_identity t) j)"
      using retain_eq [OF ok0] by blast
    have "\<forall>j. j \<noteq> k \<longrightarrow> gm_get m j = without_entry e (dr_identity s) j"
      using m(3) m0 by (auto simp: without_entry_def)
    then show ?thesis
      unfolding pub using nr m(1,2) False by (intro exI [of _ "gm_put k e m"])
        (simp add: published_key_def update_entry_def rebind_def m0(1) Let_def)
  qed
qed

lemma publish_frame:
  assumes "identity_ok s"
  shows "dr_entries (publish_current_identity_binding e k s) = dr_entries s"
    "dr_table (publish_current_identity_binding e k s) = dr_table s"
    "dr_order (publish_current_identity_binding e k s) = dr_order s"
    "dr_next (publish_current_identity_binding e k s) = dr_next s"
    "dr_topology (publish_current_identity_binding e k s) = dr_topology s"
    "dr_witnesses (publish_current_identity_binding e k s) = dr_witnesses s"
    "dr_providers (publish_current_identity_binding e k s) = dr_providers s"
    "dr_observation_generation (publish_current_identity_binding e k s) = dr_observation_generation s"
    "dr_proof_generation (publish_current_identity_binding e k s) = dr_proof_generation s"
    "entry_of (publish_current_identity_binding e k s) x =
       (if x = e then rebind e (published_key e k s) (entry_of s e) else entry_of s x)"
    "gm_get (dr_identity (publish_current_identity_binding e k s)) j =
       (if published_key e k s \<noteq> [] \<and> j = published_key e k s then Some e
        else without_entry e (dr_identity s) j)"
  using publish_eq [OF assms, of e k] by auto

lemma rebind_selectors [simp]:
  "de_primary (rebind e k x) = de_primary x" "de_addresses (rebind e k x) = de_addresses x"
  "de_physical (rebind e k x) = de_physical x" "de_info (rebind e k x) = de_info x"
  "de_planes (rebind e k x) = de_planes x" "de_projections (rebind e k x) = de_projections x"
  "de_index (rebind e k x) = de_index x" "de_index_err (rebind e k x) = de_index_err x"
  "de_faces (rebind e k x) = de_faces x" "de_key (rebind e k x) = k"
  by (simp_all add: rebind_def)

lemma publish_identity_ok:
  assumes ok: "identity_ok s" and e: "e \<in> set (dr_order s)" and k: "k \<noteq> [] \<Longrightarrow> is_stable_identity_key k"
  shows "identity_ok (publish_current_identity_binding e k s)"
proof -
  obtain m where m: "publish_current_identity_binding e k s =
       update_entry e (rebind e (published_key e k s)) (s\<lparr>dr_identity := m\<rparr>)" "gm_ok m"
    "\<forall>j. gm_get m j = (if published_key e k s \<noteq> [] \<and> j = published_key e k s then Some e
                        else without_entry e (dr_identity s) j)"
    using publish_eq [OF ok, of e k] by blast
  have "x \<in> set (dr_order s) \<and> de_key (entry_of (publish_current_identity_binding e k s) x) = j \<and> is_stable_identity_key j"
    if j: "gm_get m j = Some x" for j x
  proof (cases "published_key e k s \<noteq> [] \<and> j = published_key e k s")
    case True
    then have "x = e" using j m(3) by simp
    then show ?thesis using True e k by (simp add: m(1) published_key_def split: if_splits)
  next
    case False
    then have "gm_get (dr_identity s) j = Some x \<and> x \<noteq> e"
      using j m(3) by (simp only: without_entry_def if_False split: if_splits) auto
    then show ?thesis using identity_okD(2) [OF ok, of j x] by (simp add: m(1))
  qed
  then show ?thesis using m(1,2) by (simp add: identity_ok_def)
qed

lemma publish_ok:
  assumes "core_ok X s" and "e \<in> set (dr_order s)" and "k \<noteq> [] \<Longrightarrow> is_stable_identity_key k"
  shows "core_ok X (publish_current_identity_binding e k s)"
proof -
  note C = core_okD [OF assms(1)]
  note F = publish_frame [OF C(6)]
  have at: "slot_at (publish_current_identity_binding e k s) a = slot_at s a" for a by (simp add: slot_at_def F)
  have "groups_ok (publish_current_identity_binding e k s)"
    using C(1) unfolding groups_ok_def F
    by (rule groups_cong [THEN iffD1, rotated]) simp
  then show ?thesis
    using C publish_identity_ok [OF C(6) assms(2,3)]
    by (auto simp: core_ok_def slots_ok_def slot_fits_def faces_ok_def expected_faces_def infos_ok_def topology_ok_def F at)
qed

section \<open>Topology\<close>

lemma forget_topology_eq:
  "dr_topology (forget_topology_address a s) =
     (\<lambda>x. if x = a then [] else if x \<in> set (dr_topology s a) then removeAll a (dr_topology s x) else dr_topology s x)"
proof -
  have "fold (\<lambda>c t. t(c := removeAll a (t c))) cs T = (\<lambda>x. if x \<in> set cs then removeAll a (T x) else T x)" for cs T
    by (induction cs arbitrary: T) (auto simp: fun_eq_iff)
  note this [of "dr_topology s a" "dr_topology s"]
  then show ?thesis by (simp add: forget_topology_address_def Let_def fun_eq_iff)
qed

lemma forget_topology_edges:
  "topology_ok s \<Longrightarrow> y \<in> set (dr_topology (forget_topology_address a s) x) \<longleftrightarrow>
     x \<noteq> a \<and> y \<noteq> a \<and> y \<in> set (dr_topology s x)"
  by (auto simp: forget_topology_eq topology_ok_def)

lemma forget_topology_ok: "topology_ok s \<Longrightarrow> topology_ok (forget_topology_address a s)"
  using forget_topology_edges [of s] by (auto simp: topology_ok_def)

lemma forget_frame [simp]:
  "dr_entries (forget_topology_address a s) = dr_entries s" "dr_table (forget_topology_address a s) = dr_table s"
  "dr_order (forget_topology_address a s) = dr_order s" "dr_next (forget_topology_address a s) = dr_next s"
  "dr_heap (forget_topology_address a s) = dr_heap s" "dr_identity (forget_topology_address a s) = dr_identity s"
  "dr_witnesses (forget_topology_address a s) = dr_witnesses s" "dr_providers (forget_topology_address a s) = dr_providers s"
  "dr_observation_generation (forget_topology_address a s) = dr_observation_generation s"
  "dr_proof_generation (forget_topology_address a s) = dr_proof_generation s"
  by (simp_all add: forget_topology_address_def Let_def)

lemma record_topology_edges:
  "y \<in> set (dr_topology (record_topology_alias a b s) x) \<longleftrightarrow>
     y \<in> set (dr_topology s x) \<or> a \<noteq> b \<and> (x = a \<and> y = b \<or> x = b \<and> y = a)"
  by (auto simp: record_topology_alias_def Let_def)

lemma record_topology_frame [simp]:
  "dr_entries (record_topology_alias a b s) = dr_entries s" "dr_table (record_topology_alias a b s) = dr_table s"
  "dr_order (record_topology_alias a b s) = dr_order s" "dr_next (record_topology_alias a b s) = dr_next s"
  "dr_heap (record_topology_alias a b s) = dr_heap s" "dr_identity (record_topology_alias a b s) = dr_identity s"
  "dr_witnesses (record_topology_alias a b s) = dr_witnesses s" "dr_providers (record_topology_alias a b s) = dr_providers s"
  "dr_observation_generation (record_topology_alias a b s) = dr_observation_generation s"
  "dr_proof_generation (record_topology_alias a b s) = dr_proof_generation s"
  by (simp_all add: record_topology_alias_def Let_def)

lemma record_topology_ok: "core_ok X s \<Longrightarrow> core_ok X (record_topology_alias a b s)"
  by (auto simp: core_ok_def groups_ok_def slots_ok_def slot_fits_def faces_ok_def expected_faces_def slot_at_def
      infos_ok_def topology_ok_def identity_ok_def record_topology_edges)

section \<open>Leaving a group\<close>

text \<open>The partial states of a detachment: the address is already unbound.\<close>

lemma unbind_ok:
  assumes "core_ok X s" and "dr_entries s a = Some e"
  shows "slots_ok (s\<lparr>dr_entries := (dr_entries s)(a := None), dr_table := (dr_table s)(a := None)\<rparr>)"
  using core_okD(2) [OF assms(1)] by (auto simp: slots_ok_def slot_fits_def)

lemma drop_entry_identity:
  assumes "identity_ok s" and "distinct (dr_order s)"
  shows "identity_ok (let t = remove_identity_bindings e s in t\<lparr>dr_order := remove_entry (dr_order t) e\<rparr>)"
proof -
  obtain m where m: "remove_identity_bindings e s =
      update_entry e (\<lambda>x. x\<lparr>de_key_aliases := []\<rparr>) (s\<lparr>dr_identity := m\<rparr>)" "gm_ok m"
      "gm_get m = without_entry e (dr_identity s)"
    using remove_bindings_eq [OF assms(1)] by blast
  have "x \<in> set (dr_order s) \<and> x \<noteq> e \<and> de_key (entry_of s x) = j \<and> is_stable_identity_key j"
    if "without_entry e (dr_identity s) j = Some x" for j x
    using that identity_okD(2) [OF assms(1), of j x] by (auto simp: without_entry_def split: if_splits)
  then show ?thesis using m by (auto simp: identity_ok_def Let_def)
qed

lemma remove_bindings_frame:
  assumes "identity_ok s"
  shows "dr_entries (remove_identity_bindings e s) = dr_entries s" "dr_table (remove_identity_bindings e s) = dr_table s"
    "dr_order (remove_identity_bindings e s) = dr_order s" "dr_next (remove_identity_bindings e s) = dr_next s"
    "dr_topology (remove_identity_bindings e s) = dr_topology s" "dr_witnesses (remove_identity_bindings e s) = dr_witnesses s"
    "dr_providers (remove_identity_bindings e s) = dr_providers s"
    "dr_observation_generation (remove_identity_bindings e s) = dr_observation_generation s"
    "dr_proof_generation (remove_identity_bindings e s) = dr_proof_generation s"
    "entry_of (remove_identity_bindings e s) x =
       (if x = e then (entry_of s e)\<lparr>de_key_aliases := []\<rparr> else entry_of s x)"
    "gm_get (dr_identity (remove_identity_bindings e s)) = without_entry e (dr_identity s)"
  using remove_bindings_eq [OF assms, of e] by auto

definition shrink_entry :: "byte \<Rightarrow> 'm device_entry \<Rightarrow> 'm device_entry" where
  "shrink_entry a x = leave_primary a (x\<lparr>de_addresses := remove1 a (de_addresses x)\<rparr>)"

lemma shrink_selectors [simp]:
  "de_addresses (shrink_entry a x) = remove1 a (de_addresses x)" "de_physical (shrink_entry a x) = de_physical x"
  "de_key (shrink_entry a x) = de_key x"
  "de_primary (shrink_entry a x) = (if de_primary x = a then hd (remove1 a (de_addresses x)) else de_primary x)"
  "de_faces (shrink_entry a x) = de_faces x"
  "canonical_physical_identity (de_info (shrink_entry a x)) = canonical_physical_identity (de_info x)"
  by (simp_all add: shrink_entry_def leave_primary_def canonical_physical_identity_def)

lemma shrink_address:
  "di_address (de_info x) = de_primary x \<Longrightarrow> di_address (de_info (shrink_entry a x)) = de_primary (shrink_entry a x)"
  by (simp add: shrink_entry_def leave_primary_def)

text \<open>An address leaves a group that keeps others: groups, slots, faces and descriptions stay in place.\<close>

lemma shrink_ok:
  assumes ok: "core_ok X s" and a: "dr_entries s a = Some e" and rest: "remove1 a (members_of s e) \<noteq> []"
    and t: "dr_entries t = (dr_entries s)(a := None)" "dr_table t = (dr_table s)(a := None)"
      "dr_order t = dr_order s" "dr_next t = dr_next s" "dr_identity t = dr_identity s" "topology_ok t"
      "entry_of t = (entry_of s)(e := shrink_entry a (entry_of s e))"
  shows "core_ok X (sync_entry_faces e t)" and "slots_ok t" and "groups_ok t" and "e \<in> set (dr_order t)"
proof -
  note C = core_okD [OF ok] and G = groups_okD [OF core_okD(1) [OF ok]]
  have e: "e \<in> set (dr_order s)" using G(5) a by blast
  have members: "members_of t = (members_of s)(e := remove1 a (members_of s e))" by (auto simp: t)
  have primary: "primary_of t = (primary_of s)(e := if primary_of s e = a then hd (remove1 a (members_of s e)) else primary_of s e)"
    by (auto simp: t)
  show gt: "groups_ok t"
    unfolding groups_ok_def members primary t(1,3,4) by (rule groups_shrink [OF C(1) [unfolded groups_ok_def] a rest])
  show st: "slots_ok t" using C(2) by (auto simp: slots_ok_def slot_fits_def t)
  show et: "e \<in> set (dr_order t)" using e t by simp
  have "expected_faces t x = expected_faces s x" if "x \<in> set (dr_order s)" "x \<noteq> e" for x
  proof -
    have "a \<notin> set (members_of s x)" using G(5) [of a x] a that by auto
    then show ?thesis using that(2) by (auto simp: expected_faces_def t slot_at_def)
  qed
  then have "faces_ok (insert e X) t" using C(3) by (auto simp: faces_ok_def t)
  moreover have it: "infos_ok X t"
    using C(4) unfolding infos_ok_def by (auto simp: t shrink_address)
  moreover have "identity_ok t" using C(6) by (auto simp: identity_ok_def t)
  ultimately have "core_ok (insert e X) t"
    using gt st t(6) by (auto simp: core_ok_def infos_ok_def)
  from sync_ok [OF this it et] show "core_ok X (sync_entry_faces e t)" .
qed

text \<open>The last address of a group leaves: the entry is gone.\<close>

lemma vanish_ok:
  assumes ok: "core_ok X s" and a: "dr_entries s a = Some e" and last: "members_of s e = [a]"
    and t: "dr_entries t = (dr_entries s)(a := None)" "dr_table t = (dr_table s)(a := None)"
      "dr_order t = remove1 e (dr_order s)" "dr_next t = dr_next s" "topology_ok t" "identity_ok t"
      "\<And>x. x \<noteq> e \<Longrightarrow> entry_of t x = entry_of s x"
  shows "core_ok X t"
proof -
  note C = core_okD [OF ok] and G = groups_okD [OF core_okD(1) [OF ok]]
  have live: "x \<in> set (dr_order t) \<longleftrightarrow> x \<in> set (dr_order s) \<and> x \<noteq> e" for x using G(1) by (simp add: t)
  have "groups_ok t"
    unfolding groups_ok_def t(1,3,4)
    by (rule groups_cong [THEN iffD1, OF _ groups_remove [OF C(1) [unfolded groups_ok_def] a last]])
      (use live t(3,7) in auto)
  moreover have "slots_ok t" using C(2) by (auto simp: slots_ok_def slot_fits_def t)
  moreover have "expected_faces t x = expected_faces s x" if "x \<in> set (dr_order t)" for x
  proof -
    have x: "x \<in> set (dr_order s)" "x \<noteq> e" using that live by auto
    then have "a \<notin> set (members_of s x)" using G(5) [of a x] a by auto
    then show ?thesis using x by (auto simp: expected_faces_def t slot_at_def)
  qed
  ultimately show ?thesis
    using C(3,4) t(5,6,7) live by (auto simp: core_ok_def faces_ok_def infos_ok_def)
qed

end
