(* ===== verification/Reg_Preserve.thy ===== *)
theory Reg_Preserve
  imports Reg_Invariant
begin

text \<open>
  The composite steps of the registry keep its invariant: detaching an address, merging groups,
  joining and refreshing an entry, the topology walk, aliases.
\<close>

definition same_frame :: "'m device_registry \<Rightarrow> 'm device_registry \<Rightarrow> bool" where
  "same_frame s t \<longleftrightarrow> dr_providers t = dr_providers s \<and> dr_witnesses t = dr_witnesses s \<and>
     dr_observation_generation t = dr_observation_generation s \<and> dr_proof_generation t = dr_proof_generation s"

lemma same_frame_refl [simp]: "same_frame s s"
  by (simp add: same_frame_def)

lemma same_frame_trans: "same_frame s t \<Longrightarrow> same_frame t u \<Longrightarrow> same_frame s u"
  by (simp add: same_frame_def)

section \<open>Detaching\<close>

lemma detach_ok:
  assumes ok: "core_ok X s" and a: "dr_entries s a = Some e"
  shows "core_ok X (detach_address e a s)" and "dr_entries (detach_address e a s) = (dr_entries s)(a := None)"
    and "dr_table (detach_address e a s) = (dr_table s)(a := None)"
    and "dr_next (detach_address e a s) = dr_next s" and "same_frame s (detach_address e a s)"
    and "x \<noteq> e \<Longrightarrow> entry_of (detach_address e a s) x = entry_of s x"
    and "x \<noteq> e \<Longrightarrow> x \<in> set (dr_order (detach_address e a s)) \<longleftrightarrow> x \<in> set (dr_order s)"
    and "members_of (detach_address e a s) e = remove1 a (members_of s e)"
proof -
  note C = core_okD [OF ok] and G = groups_okD [OF core_okD(1) [OF ok]]
  have e: "e \<in> set (dr_order s)" "a \<in> set (members_of s e)" using G(5) a by blast+
  obtain slot where slot: "dr_table s a = Some slot" "sl_device slot = Some e" using slot_fitsD [OF C(2) a] by blast
  define u where "u = s\<lparr>dr_entries := (dr_entries s)(a := None), dr_table := (dr_table s)(a := None)\<rparr>"
  define v where "v = forget_topology_address a u"
  define w where "w = update_entry e (\<lambda>x. x\<lparr>de_addresses := remove_address (de_addresses x) a\<rparr>) v"
  have top: "topology_ok v" using C(5) forget_topology_ok [of u] by (simp add: v_def u_def topology_ok_def)
  have cut: "members_of w e = remove1 a (members_of s e)" by (simp add: w_def v_def u_def)
  let ?t = "detach_address e a s"
  have t: "?t = (if members_of w e = []
      then (let y = remove_identity_bindings e w in y\<lparr>dr_order := remove_entry (dr_order y) e\<rparr>)
      else sync_entry_faces e (update_entry e (leave_primary a) w))"
    using slot e(2) by (simp add: detach_address_def u_def v_def w_def Let_def)
  have w: "dr_entries w = (dr_entries s)(a := None)" "dr_table w = (dr_table s)(a := None)" "dr_order w = dr_order s"
    "dr_next w = dr_next s" "dr_identity w = dr_identity s" "topology_ok w" "same_frame s w"
    "\<And>x. x \<noteq> e \<Longrightarrow> entry_of w x = entry_of s x" "de_key (entry_of w e) = de_key (entry_of s e)"
    using top by (simp_all add: w_def v_def u_def same_frame_def topology_ok_def)
  have wid: "identity_ok w" using C(6) w(8,9) by (auto simp: identity_ok_def w(3,5)) metis+
  have "core_ok X ?t \<and> dr_entries ?t = (dr_entries s)(a := None) \<and> dr_table ?t = (dr_table s)(a := None) \<and>
      dr_next ?t = dr_next s \<and> same_frame s ?t \<and> (x \<noteq> e \<longrightarrow> entry_of ?t x = entry_of s x) \<and>
      (x \<noteq> e \<longrightarrow> (x \<in> set (dr_order ?t) \<longleftrightarrow> x \<in> set (dr_order s))) \<and>
      members_of ?t e = remove1 a (members_of s e)" for x
  proof (cases "members_of w e = []")
    case True
    note F = remove_bindings_frame [OF wid, of e]
    let ?y = "remove_identity_bindings e w"
    have tt: "?t = ?y\<lparr>dr_order := remove1 e (dr_order ?y)\<rparr>" using t True by (simp add: Let_def)
    have "length (members_of s e) \<le> 1"
      using True cut length_remove1 [of a "members_of s e"] e(2) by simp
    then have last: "members_of s e = [a]" using e(2) by (cases "members_of s e") auto
    have "identity_ok ?t" unfolding t using True drop_entry_identity [OF wid, of e] G(1) by (simp add: w(3))
    then have "core_ok X ?t"
      unfolding tt using w by (intro vanish_ok [OF ok a last]) (simp_all add: F topology_ok_def)
    then show ?thesis using w True cut by (simp add: tt F same_frame_def)
  next
    case False
    let ?y = "update_entry e (leave_primary a) w"
    have y: "entry_of ?y = (entry_of s)(e := shrink_entry a (entry_of s e))"
      by (auto simp: w_def v_def u_def shrink_entry_def)
    have ytop: "topology_ok ?y" using w(6) by (simp add: topology_ok_def)
    note S = shrink_ok [OF ok a _ _ _ _ _ _ ytop y]
    have yok: "core_ok X (sync_entry_faces e ?y)" "slots_ok ?y" "groups_ok ?y" "e \<in> set (dr_order ?y)"
      using S False cut w by simp_all
    have tt: "?t = update_entry e (\<lambda>x. x\<lparr>de_faces := expected_faces ?y e\<rparr>) ?y"
      using t False sync_entry_faces_eq [OF yok(2,3,4)] by simp
    have "core_ok X ?t" using yok(1) t False by simp
    moreover have "members_of ?t e = remove1 a (members_of s e)"
      unfolding tt using cut by (simp add: leave_primary_def)
    moreover have "x \<noteq> e \<longrightarrow> entry_of ?t x = entry_of s x" unfolding tt using w(8) by simp
    ultimately show ?thesis using w by (simp add: tt same_frame_def)
  qed
  then show "core_ok X ?t" "dr_entries ?t = (dr_entries s)(a := None)" "dr_table ?t = (dr_table s)(a := None)"
    "dr_next ?t = dr_next s" "same_frame s ?t" "x \<noteq> e \<Longrightarrow> entry_of ?t x = entry_of s x"
    "x \<noteq> e \<Longrightarrow> x \<in> set (dr_order ?t) \<longleftrightarrow> x \<in> set (dr_order s)" "members_of ?t e = remove1 a (members_of s e)"
    by blast+
qed

section \<open>Merging groups\<close>

lemma absorb_selectors [simp]:
  "de_primary (absorb_entry x y) = de_primary x" "de_addresses (absorb_entry x y) = de_addresses x"
  "de_key (absorb_entry x y) = de_key x" "de_faces (absorb_entry x y) = de_faces x"
  "de_info (absorb_entry x y) = absorb_info (de_info x) (de_info y)"
  by (simp_all add: absorb_entry_def Let_def)

lemma absorb_info_address [simp]: "di_address (absorb_info d s) = di_address d"
  by (simp add: absorb_info_def)

text \<open>Moving addresses only appends members, rebinds the addresses and their slots.\<close>

lemma move_addresses_frame:
  "dr_order (move_addresses d as s) = dr_order s" "dr_next (move_addresses d as s) = dr_next s"
  "dr_identity (move_addresses d as s) = dr_identity s" "dr_topology (move_addresses d as s) = dr_topology s"
  "same_frame s (move_addresses d as s)"
  "x \<noteq> d \<Longrightarrow> entry_of (move_addresses d as s) x = entry_of s x"
  "entry_of (move_addresses d as s) d = (entry_of s d)\<lparr>de_addresses := add_all (members_of s d) as\<rparr>"
  "dr_entries (move_addresses d as s) = (\<lambda>a. if a \<in> set as then Some d else dr_entries s a)"
  by (induction as arbitrary: s) (auto simp: Let_def same_frame_def add_all_def fun_eq_iff)

lemma move_addresses_slot:
  "slot_at (move_addresses d as s) a = (if a \<in> set as then (slot_at s a)\<lparr>sl_device := Some d\<rparr> else slot_at s a)"
  "dr_table (move_addresses d as s) a = (if a \<in> set as then Some ((slot_at s a)\<lparr>sl_device := Some d\<rparr>) else dr_table s a)"
  by (induction as arbitrary: s) (auto simp: Let_def table_write slot_at_def)

lemma merge_registered_ok:
  assumes ok: "core_ok X s" and d: "d \<in> set (dr_order s)" and src: "src \<in> set (dr_order s)" and ne: "d \<noteq> src"
  shows "core_ok (insert d X) (merge_registered_aliases d src s)"
    and "dr_entries (merge_registered_aliases d src s) =
       (\<lambda>a. if a \<in> set (members_of s src) then Some d else dr_entries s a)"
    and "dr_next (merge_registered_aliases d src s) = dr_next s"
    and "same_frame s (merge_registered_aliases d src s)"
    and "x \<noteq> d \<Longrightarrow> x \<noteq> src \<Longrightarrow> entry_of (merge_registered_aliases d src s) x = entry_of s x"
    and "x \<noteq> src \<Longrightarrow> x \<in> set (dr_order (merge_registered_aliases d src s)) \<longleftrightarrow> x \<in> set (dr_order s)"
    and "de_key (entry_of (merge_registered_aliases d src s) d) = de_key (entry_of s d)"
    and "slot_at (merge_registered_aliases d src s) a =
       (if a \<in> set (members_of s src) then (slot_at s a)\<lparr>sl_device := Some d\<rparr> else slot_at s a)"
proof -
  note C = core_okD [OF ok] and G = groups_okD [OF core_okD(1) [OF ok]]
  define u where "u = absorb_identity d src s"
  have u: "u = update_entry d (\<lambda>x. absorb_entry x (entry_of s src)) s" using ne by (simp add: u_def absorb_identity_def)
  define v where "v = move_addresses d (members_of s src) u"
  have heap_v: "entry_of v d = (absorb_entry (entry_of s d) (entry_of s src))\<lparr>de_addresses := add_all (members_of s d) (members_of s src)\<rparr>"
    "x \<noteq> d \<Longrightarrow> entry_of v x = entry_of s x" for x
    by (simp_all add: v_def move_addresses_frame u)
  have v: "dr_order v = dr_order s" "dr_next v = dr_next s" "dr_identity v = dr_identity s" "dr_topology v = dr_topology s"
    "same_frame s v" "dr_entries v = (\<lambda>a. if a \<in> set (members_of s src) then Some d else dr_entries s a)"
    using move_addresses_frame(5) [of u d "members_of s src"]
    by (simp_all add: v_def move_addresses_frame u same_frame_def cong: if_cong)
  have slot_v: "slot_at v a = (if a \<in> set (members_of s src) then (slot_at s a)\<lparr>sl_device := Some d\<rparr> else slot_at s a)"
    "dr_table v a = (if a \<in> set (members_of s src) then Some ((slot_at s a)\<lparr>sl_device := Some d\<rparr>) else dr_table s a)" for a
    by (simp_all add: v_def move_addresses_slot u)
  have key_v: "de_key (entry_of v x) = de_key (entry_of s x)" for x by (cases "x = d") (simp_all add: heap_v)
  have idv: "identity_ok v" using C(6) by (simp add: identity_ok_def v key_v)
  note F = remove_bindings_frame [OF idv, of src]
  let ?w = "remove_identity_bindings src v"
  let ?t = "merge_registered_aliases d src s"
  have t: "?t = ?w\<lparr>dr_order := remove1 src (dr_order ?w)\<rparr>"
  proof -
    have "members_of u src = members_of s src" using ne by (simp add: u)
    then show ?thesis by (simp add: merge_registered_aliases_def Let_def u_def [symmetric] v_def)
  qed
  have live: "x \<in> set (dr_order ?t) \<longleftrightarrow> x \<in> set (dr_order s) \<and> x \<noteq> src" for x
    using G(1) by (simp add: t F v)
  have heap_t: "x \<noteq> src \<Longrightarrow> entry_of ?t x = entry_of v x" for x by (simp add: t F)
  have slot_t: "slot_at ?t a = slot_at v a" "dr_table ?t a = dr_table v a" for a by (simp_all add: t F slot_at_def)
  have own: "dr_entries s a = Some src" if "a \<in> set (members_of s src)" for a using G(5) src that by blast
  have fits: "slot_fits s a" for a using C(2) by (simp add: slots_ok_def)
  have gt: "groups_ok ?t"
    unfolding groups_ok_def
  proof (rule groups_cong [THEN iffD1, rotated])
    show "groups (dr_order ?t) (dr_entries ?t) ((members_of s)(d := add_all (members_of s d) (members_of s src)))
        (primary_of s) (dr_next ?t)"
      using groups_merge [OF C(1) [unfolded groups_ok_def] d src ne] by (simp add: t F v)
  next
    fix x assume "x \<in> set (dr_order ?t)"
    then have "x \<noteq> src" using live by blast
    then show "((members_of s)(d := add_all (members_of s d) (members_of s src))) x = members_of ?t x \<and>
        primary_of s x = primary_of ?t x"
      by (cases "x = d") (simp_all add: heap_t heap_v)
  qed
  moreover have "slots_ok ?t"
    unfolding slots_ok_def
  proof
    fix a
    show "slot_fits ?t a"
    proof (cases "a \<in> set (members_of s src)")
      case True
      then show ?thesis using slot_at_fits [OF fits, of a] by (simp add: slot_fits_def slot_t slot_v t F v)
    next
      case False
      then show ?thesis using fits [of a] by (simp add: slot_fits_def slot_t slot_v t F v)
    qed
  qed
  moreover have "de_faces (entry_of ?t x) = expected_faces ?t x" if x: "x \<in> set (dr_order ?t) - insert d X" for x
  proof -
    have x': "x \<in> set (dr_order s)" "x \<noteq> src" "x \<noteq> d" "x \<notin> X" using x live by auto
    have "a \<notin> set (members_of s src)" if "a \<in> set (members_of s x)" for a
      using own [of a] G(5) [of a x] x'(1,2) that by auto
    then have "expected_faces ?t x = expected_faces s x"
      using x' by (auto simp: expected_faces_def heap_t heap_v slot_t slot_v)
    then show ?thesis using C(3) x' by (simp add: faces_ok_def heap_t heap_v)
  qed
  then have "faces_ok (insert d X) ?t" by (simp add: faces_ok_def)
  moreover have "infos_ok (insert d X) ?t"
    using C(4) live by (auto simp: infos_ok_def heap_t heap_v)
  moreover have "topology_ok ?t" using C(5) by (simp add: topology_ok_def t F v)
  moreover have "identity_ok ?t"
    using drop_entry_identity [OF idv, of src] G(1) by (simp add: t Let_def v)
  ultimately show "core_ok (insert d X) ?t" by (simp add: core_ok_def)
  show "dr_entries ?t = (\<lambda>a. if a \<in> set (members_of s src) then Some d else dr_entries s a)"
    "dr_next ?t = dr_next s" "same_frame s ?t"
    using v(5) by (simp_all add: t F v same_frame_def)
  show "x \<noteq> d \<Longrightarrow> x \<noteq> src \<Longrightarrow> entry_of ?t x = entry_of s x" by (simp add: heap_t heap_v)
  show "x \<noteq> src \<Longrightarrow> x \<in> set (dr_order ?t) \<longleftrightarrow> x \<in> set (dr_order s)" using live by simp
  show "de_key (entry_of ?t d) = de_key (entry_of s d)" using ne by (simp add: heap_t heap_v)
  show "slot_at ?t a = (if a \<in> set (members_of s src) then (slot_at s a)\<lparr>sl_device := Some d\<rparr> else slot_at s a)"
    by (simp add: slot_t slot_v)
qed

section \<open>Registration\<close>

lemma select_entry_cases:
  assumes "select_entry info by_identity0 by_address s = (selected, by_identity)"
  shows "selected \<in> {None, by_identity0, by_address}"
    and "by_identity \<noteq> None \<Longrightarrow> by_identity = by_identity0"
    and "by_address = None \<Longrightarrow> selected = by_identity0"
  using assms by (auto simp: select_entry_def Let_def split: option.splits if_splits)

text \<open>The previous group of the address is left: merged into the selected entry or shrunk.\<close>

lemma leave_ok:
  assumes ok: "core_ok {} s" and i: "\<And>i. by_identity0 = Some i \<Longrightarrow> i \<in> set (dr_order s)"
    and sel: "select_entry info by_identity0 (dr_entries s (di_address info)) s = (selected, by_identity)"
    and s1: "s1 = leave_previous_group info selected by_identity (dr_entries s (di_address info)) s"
  shows "core_ok (set_option selected) s1" "dr_entries s1 (di_address info) \<in> {None, selected}"
    "selected = Some e \<Longrightarrow> e \<in> set (dr_order s1) \<and> de_key (entry_of s1 e) = de_key (entry_of s e)"
    "same_frame s s1" "dr_next s1 = dr_next s"
proof -
  let ?a = "di_address info"
  note G = groups_okD [OF core_okD(1) [OF ok]]
  have live: "x \<in> set (dr_order s)" if "selected = Some x" for x
    using select_entry_cases(1) [OF sel] i [of x] G(5) [of ?a x] that by auto
  let ?concl = "core_ok (set_option selected) s1 \<and> dr_entries s1 ?a \<in> {None, selected} \<and>
      (\<forall>e. selected = Some e \<longrightarrow> e \<in> set (dr_order s1) \<and> de_key (entry_of s1 e) = de_key (entry_of s e)) \<and>
      same_frame s s1 \<and> dr_next s1 = dr_next s"
  have ?concl
  proof (cases "dr_entries s ?a = None \<or> dr_entries s ?a = selected")
    case True
    then have "s1 = s" unfolding s1 leave_previous_group_def by (auto split: option.splits)
    then show ?thesis using True live core_ok_mono [OF ok] by auto
  next
    case False
    then obtain p where p: "dr_entries s ?a = Some p" "selected \<noteq> Some p" by (metis not_None_eq)
    have plive: "p \<in> set (dr_order s)" "?a \<in> set (members_of s p)" using G(5) p(1) by blast+
    note D = detach_ok [OF ok p(1)]
    have "s1 = detach_address p ?a s \<or> (\<exists>e. selected = Some e \<and> s1 = merge_registered_aliases e p s)"
      using p unfolding s1 leave_previous_group_def by (auto split: option.splits)
    then show ?thesis
    proof
      assume eq: "s1 = detach_address p ?a s"
      have "e \<in> set (dr_order s1) \<and> entry_of s1 e = entry_of s e" if "selected = Some e" for e
        using that p(2) live [OF that] D(6,7) [of e] by (simp add: eq)
      then show ?thesis using D(2,4,5) core_ok_mono [OF D(1)] by (simp add: eq)
    next
      assume "\<exists>e. selected = Some e \<and> s1 = merge_registered_aliases e p s"
      then obtain e where e: "selected = Some e" "s1 = merge_registered_aliases e p s" by blast
      then have ne: "e \<noteq> p" using p(2) by simp
      note M = merge_registered_ok [OF ok live [OF e(1)] plive(1) ne]
      show ?thesis using M(1-4,7) M(6) [OF ne] live [OF e(1)] plive(2) by (simp add: e)
    qed
  qed
  then show "core_ok (set_option selected) s1" "dr_entries s1 (di_address info) \<in> {None, selected}"
    "selected = Some e \<Longrightarrow> e \<in> set (dr_order s1) \<and> de_key (entry_of s1 e) = de_key (entry_of s e)"
    "same_frame s s1" "dr_next s1 = dr_next s"
    by blast+
qed

text \<open>The address is bound to its entry, whose slot and faces are still to be stamped.\<close>

definition bound_ok :: "byte \<Rightarrow> entry_ref \<Rightarrow> 'm device_registry \<Rightarrow> bool" where
  "bound_ok a e s \<longleftrightarrow> groups_ok s \<and> (\<forall>b. b \<noteq> a \<longrightarrow> slot_fits s b) \<and> sl_addr (slot_at s a) = a \<and>
     faces_ok {e} s \<and> infos_ok {} s \<and> topology_ok s \<and> identity_ok s \<and> dr_entries s a = Some e"

lemma refresh_selectors [simp]:
  "de_primary (refresh_entry ps i x) = de_primary x" "de_addresses (refresh_entry ps i x) = de_addresses x"
  "de_key (refresh_entry ps i x) = de_key x" "de_faces (refresh_entry ps i x) = de_faces x"
  "de_info (refresh_entry ps i x) = i" "de_physical (refresh_entry ps i x) = canonical_physical_identity i"
  by (simp_all add: refresh_entry_def split: prod.splits sum.splits)

lemma stored_info_address [simp]: "di_address (stored_info info x b) = de_primary x"
  by (simp add: stored_info_def Let_def)

text \<open>An entry joins the address: the groups after the address map is written.\<close>

lemma join_ok:
  assumes ok: "core_ok (set_option selected) s" and a: "dr_entries s a \<in> {None, selected}"
    and e: "\<And>e. selected = Some e \<Longrightarrow> e \<in> set (dr_order s)"
    and j: "join_entry a selected s = (t, e)"
  shows "groups_ok (t\<lparr>dr_entries := (dr_entries t)(a \<mapsto> e)\<rparr>)" "dr_entries t = dr_entries s" "dr_table t = dr_table s"
    "dr_topology t = dr_topology s" "same_frame s t" "dr_identity t = dr_identity s" "identity_ok t"
    "e \<in> set (dr_order t)" "x \<noteq> e \<Longrightarrow> entry_of t x = entry_of s x"
    "x \<noteq> e \<Longrightarrow> x \<in> set (dr_order t) \<longleftrightarrow> x \<in> set (dr_order s)"
    "selected = Some e \<Longrightarrow> de_key (entry_of t e) = de_key (entry_of s e)"
    "selected = None \<Longrightarrow> de_key (entry_of t e) = []"
    "\<And>b. b \<noteq> a \<Longrightarrow> b \<in> set (members_of t e) \<Longrightarrow> dr_entries s b = Some e"
proof -
  note C = core_okD [OF ok] and G = groups_okD [OF core_okD(1) [OF ok]]
  let ?concl = "\<lambda>x. groups_ok (t\<lparr>dr_entries := (dr_entries t)(a \<mapsto> e)\<rparr>) \<and> dr_entries t = dr_entries s \<and>
    dr_table t = dr_table s \<and> dr_topology t = dr_topology s \<and> same_frame s t \<and> dr_identity t = dr_identity s \<and>
    identity_ok t \<and> e \<in> set (dr_order t) \<and> (x \<noteq> e \<longrightarrow> entry_of t x = entry_of s x) \<and>
    (x \<noteq> e \<longrightarrow> (x \<in> set (dr_order t) \<longleftrightarrow> x \<in> set (dr_order s))) \<and>
    (selected = Some e \<longrightarrow> de_key (entry_of t e) = de_key (entry_of s e)) \<and>
    (selected = None \<longrightarrow> de_key (entry_of t e) = []) \<and>
    (\<forall>b. b \<noteq> a \<longrightarrow> b \<in> set (members_of t e) \<longrightarrow> dr_entries s b = Some e)"
  have "?concl x" for x
  proof (cases selected)
    case None
    then have t: "t = s\<lparr>dr_heap := (dr_heap s)(dr_next s := fresh_entry a), dr_next := Suc (dr_next s),
        dr_order := dr_order s @ [dr_next s]\<rparr>" and en: "e = dr_next s"
      using j by (auto simp: join_entry_def Let_def)
    have free: "dr_entries s a = None" using a None by simp
    have nl: "dr_next s \<notin> set (dr_order s)" using G(2) by blast
    have m: "members_of t = (members_of s)(dr_next s := [a])" "primary_of t = (primary_of s)(dr_next s := a)"
      by (auto simp: t fresh_entry_def)
    have "groups_ok (t\<lparr>dr_entries := (dr_entries t)(a \<mapsto> e)\<rparr>)"
      using groups_new [OF C(1) [unfolded groups_ok_def] free] by (simp add: groups_ok_def m en) (simp add: t)
    moreover have "identity_ok t"
      using C(6) nl by (auto simp: identity_ok_def t)
    ultimately show ?thesis using None by (auto simp: t en same_frame_def fresh_entry_def)
  next
    case (Some d)
    then have ed: "e = d" and dl: "d \<in> set (dr_order s)"
      and t: "t = (if a \<notin> set (members_of s d) then update_entry d (\<lambda>x. x\<lparr>de_addresses := de_addresses x @ [a]\<rparr>) s else s)"
      using j e by (auto simp: join_entry_def)
    show ?thesis
    proof (cases "a \<in> set (members_of s d)")
      case True
      then have "dr_entries s a = Some d" using G(5) dl by blast
      then have "(dr_entries s)(a \<mapsto> d) = dr_entries s" by auto
      then show ?thesis using True C(1,6) Some dl G(5) by (auto simp: t ed groups_ok_def)
    next
      case False
      then have free: "dr_entries s a = None" using a Some G(5) [of a d] by auto
      have m: "members_of t = (members_of s)(d := members_of s d @ [a])" "primary_of t = primary_of s"
        using False by (auto simp: t)
      have "groups_ok (t\<lparr>dr_entries := (dr_entries t)(a \<mapsto> e)\<rparr>)"
        using groups_add [OF C(1) [unfolded groups_ok_def] free dl] False
        by (simp add: groups_ok_def m ed) (simp add: t)
      moreover have "identity_ok t" using C(6) False by (auto simp: identity_ok_def t)
      moreover have "\<forall>b. b \<noteq> a \<longrightarrow> b \<in> set (members_of t e) \<longrightarrow> dr_entries s b = Some e"
        using G(5) dl False by (auto simp: t ed)
      ultimately show ?thesis using Some dl False by (auto simp: t ed same_frame_def)
    qed
  qed
  note R = this [of x]
  show "groups_ok (t\<lparr>dr_entries := (dr_entries t)(a \<mapsto> e)\<rparr>)" "dr_entries t = dr_entries s" "dr_table t = dr_table s"
    "dr_topology t = dr_topology s" "same_frame s t" "dr_identity t = dr_identity s" "identity_ok t"
    "e \<in> set (dr_order t)" "x \<noteq> e \<Longrightarrow> entry_of t x = entry_of s x"
    "x \<noteq> e \<Longrightarrow> x \<in> set (dr_order t) \<longleftrightarrow> x \<in> set (dr_order s)"
    "selected = Some e \<Longrightarrow> de_key (entry_of t e) = de_key (entry_of s e)"
    "selected = None \<Longrightarrow> de_key (entry_of t e) = []"
    "\<And>b. b \<noteq> a \<Longrightarrow> b \<in> set (members_of t e) \<Longrightarrow> dr_entries s b = Some e"
    using R by blast+
qed

lemma authority_for_stable: "authority_for info x c \<noteq> [] \<Longrightarrow> is_stable_identity_key (authority_for info x c)"
proof -
  assume "authority_for info x c \<noteq> []"
  then have "\<exists>p. authority_for info x c = identity_key p \<and> identity_key p \<noteq> []"
    by (auto simp: authority_for_def preserves_current_identity_authority_def Let_def split: if_splits) metis
  then show ?thesis using identity_key_stable by metis
qed

text \<open>The state that \<open>registerLocked\<close> leaves, as one update of the joined state.\<close>

lemma register_at_unfold:
  assumes "register_at info by_identity0 conflict s = (t, e)"
  obtains selected by_identity s1 s2 where
    "select_entry info by_identity0 (dr_entries s (di_address info)) s = (selected, by_identity)"
    "s1 = leave_previous_group info selected by_identity (dr_entries s (di_address info)) s"
    "join_entry (di_address info) selected s1 = (s2, e)"
    "t = (let s4 = publish_current_identity_binding e (authority_for info (entry_of s2 e) conflict)
            (update_entry e (refresh_entry (dr_providers s2) (stored_info info (entry_of s2 e)
              (by_identity \<noteq> None \<and> by_identity \<noteq> dr_entries s (di_address info)))) s2)
          in s4\<lparr>dr_entries := (dr_entries s4)(di_address info \<mapsto> e)\<rparr>)"
proof -
  obtain selected by_identity where 1: "select_entry info by_identity0 (dr_entries s (di_address info)) s = (selected, by_identity)"
    by (cases "select_entry info by_identity0 (dr_entries s (di_address info)) s")
  define s1 where "s1 = leave_previous_group info selected by_identity (dr_entries s (di_address info)) s"
  obtain s2 e' where 2: "join_entry (di_address info) selected s1 = (s2, e')"
    by (cases "join_entry (di_address info) selected s1")
  have "e' = e" using assms 1 2 by (simp add: register_at_def Let_def s1_def)
  moreover have "t = (let s4 = publish_current_identity_binding e' (authority_for info (entry_of s2 e') conflict)
            (update_entry e' (refresh_entry (dr_providers s2) (stored_info info (entry_of s2 e')
              (by_identity \<noteq> None \<and> by_identity \<noteq> dr_entries s (di_address info)))) s2)
          in s4\<lparr>dr_entries := (dr_entries s4)(di_address info \<mapsto> e')\<rparr>)"
    using assms 1 2 by (auto simp: register_at_def Let_def s1_def)
  ultimately show thesis using that [OF 1 s1_def] 2 by simp
qed

lemma register_at_ok:
  assumes ok: "core_ok {} s" and i: "\<And>i. by_identity0 = Some i \<Longrightarrow> i \<in> set (dr_order s)"
    and t: "register_at info by_identity0 conflict s = (t, e)"
  shows "bound_ok (di_address info) e t" and "same_frame s t"
proof -
  let ?a = "di_address info"
  obtain selected by_identity s1 s2 where sel: "select_entry info by_identity0 (dr_entries s ?a) s = (selected, by_identity)"
    and s1: "s1 = leave_previous_group info selected by_identity (dr_entries s ?a) s"
    and j: "join_entry ?a selected s1 = (s2, e)"
    and tt: "t = (let s4 = publish_current_identity_binding e (authority_for info (entry_of s2 e) conflict)
            (update_entry e (refresh_entry (dr_providers s2) (stored_info info (entry_of s2 e)
              (by_identity \<noteq> None \<and> by_identity \<noteq> dr_entries s ?a))) s2)
          in s4\<lparr>dr_entries := (dr_entries s4)(?a \<mapsto> e)\<rparr>)"
    by (rule register_at_unfold [OF t])
  note L = leave_ok [OF ok i sel s1]
  have e1: "\<And>x. selected = Some x \<Longrightarrow> x \<in> set (dr_order s1)" using L(3) by blast
  note J = join_ok [OF L(1,2) e1 j]
  note C = core_okD [OF L(1)]
  define k where "k = authority_for info (entry_of s2 e) conflict"
  define st where "st = stored_info info (entry_of s2 e) (by_identity \<noteq> None \<and> by_identity \<noteq> dr_entries s ?a)"
  define s3 where "s3 = update_entry e (refresh_entry (dr_providers s2) st) s2"
  define s4 where "s4 = publish_current_identity_binding e k s3"
  have t4: "t = s4\<lparr>dr_entries := (dr_entries s4)(?a \<mapsto> e)\<rparr>"
    unfolding tt s4_def s3_def k_def st_def Let_def ..
  have id3: "identity_ok s3" using J(7) by (auto simp: identity_ok_def s3_def)
  note F = publish_frame [OF id3, of e k, folded s4_def]
  have heap4: "entry_of s4 x = (if x = e then rebind e (published_key e k s3) (refresh_entry (dr_providers s2) st (entry_of s2 e)) else entry_of s2 x)" for x
    by (simp add: F s3_def)
  have members: "members_of t x = members_of s2 x" "primary_of t x = primary_of s2 x" for x
    by (simp_all add: t4 heap4)
  have same2: "dr_order t = dr_order s2" "dr_next t = dr_next s2" "dr_table t = dr_table s2" "dr_topology t = dr_topology s2"
    by (simp_all add: t4 F s3_def)
  have "groups_ok t"
  proof -
    have ent: "dr_entries t = dr_entries (s2\<lparr>dr_entries := (dr_entries s2)(?a \<mapsto> e)\<rparr>)" by (simp add: t4 F s3_def)
    show ?thesis using J(1) unfolding groups_ok_def members same2 ent by simp
  qed
  moreover have "slot_fits t b" if "b \<noteq> ?a" for b
  proof -
    have "slot_fits s1 b" using C(2) by (simp add: slots_ok_def)
    then show ?thesis using that by (simp add: slot_fits_def t4 F s3_def J(2,3))
  qed
  moreover have "sl_addr (slot_at t ?a) = ?a"
    using slot_at_fits [of s1 ?a] C(2) by (simp add: slots_ok_def slot_at_def same2 J(3))
  moreover have "faces_ok {e} t"
  proof -
    have "de_faces (entry_of t x) = expected_faces t x" if "x \<in> set (dr_order t) - {e}" for x
    proof -
      have x: "x \<noteq> e" "x \<in> set (dr_order s1)" using that J(10) [of x] same2 by auto
      have "x \<notin> set_option selected" using x(1) j by (auto simp: join_entry_def split: if_splits)
      then have "de_faces (entry_of s1 x) = expected_faces s1 x" using C(3) x by (simp add: faces_ok_def)
      then show ?thesis
        using x(1) J(9) by (simp add: expected_faces_def t4 F s3_def slot_at_def J(3))
    qed
    then show ?thesis by (simp add: faces_ok_def)
  qed
  moreover have "infos_ok {} t"
    unfolding infos_ok_def
  proof
    fix x assume "x \<in> set (dr_order t) - {}"
    then have x: "x \<in> set (dr_order s2)" by (simp add: same2)
    show "di_address (de_info (entry_of t x)) = primary_of t x \<and>
        de_physical (entry_of t x) = canonical_physical_identity (de_info (entry_of t x))"
    proof (cases "x = e")
      case True
      then show ?thesis by (simp add: t4 heap4 st_def)
    next
      case False
      then have "x \<in> set (dr_order s1)" "x \<notin> set_option selected"
        using x J(10) [of x] j by (auto simp: join_entry_def split: if_splits)
      then show ?thesis using C(4) False J(9) by (simp add: infos_ok_def t4 heap4)
    qed
  qed
  moreover have "topology_ok t" using C(5) by (simp add: topology_ok_def same2 J(4))
  moreover have "identity_ok t"
    using publish_identity_ok [OF id3, of e k, folded s4_def] J(8) authority_for_stable [of info "entry_of s2 e" conflict]
    by (simp add: k_def s3_def t4 identity_ok_def)
  ultimately show "bound_ok ?a e t" by (simp add: bound_ok_def t4)
  have "same_frame s2 t" by (simp add: same_frame_def t4 F s3_def)
  then show "same_frame s t" using L(4) J(5) same_frame_trans by blast
qed

text \<open>\<open>registerLocked\<close> either keeps a contradiction out, changing nothing, or binds the address.\<close>

lemma register_locked_ok:
  assumes ok: "core_ok {} s" and t: "register_locked info s = (t, e, retained)"
  shows "retained \<Longrightarrow> t = s \<and> dr_entries s (di_address info) = Some e"
    and "\<not> retained \<Longrightarrow> bound_ok (di_address info) e t \<and> same_frame s t"
proof -
  let ?a = "di_address info" and ?k = "identity_key (canonical_physical_identity info)"
  define pre where "pre = (if ?k = [] then (s, None, False)
      else let (s1, candidate) = current_identity_entry ?k s in (s1, admit_identity_candidate s1 info candidate))"
  obtain s1 by_identity conflict where p: "pre = (s1, by_identity, conflict)" by (cases pre)
  have s1: "(\<exists>m. s1 = s\<lparr>dr_identity := m\<rparr> \<and> gm_ok m \<and> (\<forall>j x. gm_get m j = Some x \<longrightarrow> gm_get (dr_identity s) j = Some x)) \<and>
      (conflict \<longrightarrow> s1 = s) \<and> (\<forall>i. by_identity = Some i \<longrightarrow> s1 = s \<and> gm_get (dr_identity s) ?k = Some i)"
  proof (cases "?k = []")
    case True
    then show ?thesis using p core_okD(6) [OF ok] by (auto simp: pre_def identity_ok_def intro!: exI [of _ "dr_identity s"])
  next
    case False
    obtain u c where uc: "current_identity_entry ?k s = (u, c)" by (cases "current_identity_entry ?k s")
    note CC = current_identity_entry_cases [OF uc]
    have su: "s1 = u" "(by_identity, conflict) = admit_identity_candidate u info c" using p False uc by (auto simp: pre_def)
    obtain m where m: "u = s\<lparr>dr_identity := m\<rparr>" "gm_ok m"
        "\<forall>j. gm_get m j = (if j = ?k \<and> c = None then None else gm_get (dr_identity s) j)"
      using CC core_okD(6) [OF ok] by (auto simp: identity_ok_def)
    have "\<exists>m. s1 = s\<lparr>dr_identity := m\<rparr> \<and> gm_ok m \<and> (\<forall>j x. gm_get m j = Some x \<longrightarrow> gm_get (dr_identity s) j = Some x)"
      using m su(1) by (intro exI [of _ m]) auto
    moreover have "conflict \<longrightarrow> c \<noteq> None" "by_identity = Some i \<longrightarrow> c = Some i" for i
      using su(2) by (auto simp: admit_identity_candidate_def split: option.splits if_splits)
    ultimately show ?thesis using CC su(1) by auto
  qed
  have ok1: "core_ok {} s1"
  proof -
    obtain m where m: "s1 = s\<lparr>dr_identity := m\<rparr>" "gm_ok m" "\<forall>j x. gm_get m j = Some x \<longrightarrow> gm_get (dr_identity s) j = Some x"
      using s1 by blast
    have "identity_ok s1" using core_okD(6) [OF ok] m by (auto simp: identity_ok_def)
    then show ?thesis
      using ok by (simp add: core_ok_def m(1) groups_ok_def slots_ok_def slot_fits_def faces_ok_def expected_faces_def
          slot_at_def infos_ok_def topology_ok_def)
  qed
  have live: "i \<in> set (dr_order s1)" if "by_identity = Some i" for i
    using s1 that identity_okD(2) [OF core_okD(6) [OF ok]] by metis
  have frame1: "same_frame s s1" "dr_entries s1 = dr_entries s" using s1 by (auto simp: same_frame_def)
  have rl: "register_locked info s = (case dr_entries s ?a of
      Some e \<Rightarrow> if conflict then (s1, e, True) else let (s2, x) = register_at info by_identity conflict s1 in (s2, x, False)
    | None \<Rightarrow> let (s2, x) = register_at info by_identity conflict s1 in (s2, x, False))"
    using p by (simp add: register_locked_def pre_def Let_def)
  obtain s2 x where at: "register_at info by_identity conflict s1 = (s2, x)"
    by (cases "register_at info by_identity conflict s1")
  have cases: "(retained \<and> conflict \<and> t = s1 \<and> dr_entries s ?a = Some e) \<or> (\<not> retained \<and> t = s2 \<and> e = x)"
    using t at unfolding rl by (auto split: option.splits if_splits)
  show "t = s \<and> dr_entries s ?a = Some e" if retained using cases that s1 by blast
  show "bound_ok ?a e t \<and> same_frame s t" if "\<not> retained"
    using cases that register_at_ok [OF ok1 live at] same_frame_trans [OF frame1(1)] by blast
qed

end
