(* ===== verification/Reg_Walk.thy ===== *)
theory Reg_Walk
  imports Reg_Preserve
begin

text \<open>
  The topology walk confirms exactly the addresses of the entry that are joined to the start
  by topology edges within the entry; and the operations of the registry keep its invariant.
\<close>

section \<open>The walk\<close>

text \<open>An edge of the topology whose far end resolves to the entry.\<close>

definition joined :: "'m device_registry \<Rightarrow> entry_ref \<Rightarrow> byte \<Rightarrow> byte \<Rightarrow> bool" where
  "joined s e a b \<longleftrightarrow> b \<in> set (dr_topology s a) \<and> dr_entries s b = Some e"

lemma confirm_slot_frame [simp]:
  "dr_entries (confirm_slot a s) = dr_entries s" "dr_heap (confirm_slot a s) = dr_heap s"
  "dr_order (confirm_slot a s) = dr_order s" "dr_next (confirm_slot a s) = dr_next s"
  "dr_identity (confirm_slot a s) = dr_identity s" "dr_topology (confirm_slot a s) = dr_topology s"
  "dr_witnesses (confirm_slot a s) = dr_witnesses s" "dr_providers (confirm_slot a s) = dr_providers s"
  "dr_observation_generation (confirm_slot a s) = dr_observation_generation s"
  "dr_proof_generation (confirm_slot a s) = dr_proof_generation s"
  by (simp_all add: confirm_slot_def)

lemma unseen_companions_iff:
  "set (unseen_companions s e seen a) = {b. joined s e a b \<and> b \<notin> seen}"
  "distinct (unseen_companions s e seen a)"
  by (auto simp: unseen_companions_def joined_def)

lemma joined_confirm [simp]: "joined (confirm_slot a s) = joined s"
  by (simp add: joined_def fun_eq_iff)

text \<open>The seen addresses that are no longer pending are confirmed and closed under joins.\<close>

definition walk_inv ::
  "'m device_registry \<Rightarrow> entry_ref \<Rightarrow> byte \<Rightarrow> byte set \<Rightarrow> byte list \<Rightarrow> 'm device_registry \<Rightarrow> bool" where
  "walk_inv s0 e a seen pending s \<longleftrightarrow> a \<in> seen \<and> set pending \<subseteq> seen \<and> distinct pending \<and>
     (\<forall>b \<in> seen. dr_entries s0 b = Some e \<and> (joined s0 e)\<^sup>*\<^sup>* a b) \<and>
     (\<forall>b \<in> seen - set pending. \<forall>c. joined s0 e b c \<longrightarrow> c \<in> seen) \<and>
     (\<exists>T. s = s0\<lparr>dr_table := T\<rparr>) \<and>
     (\<forall>b. dr_table s b = (if b \<in> seen - set pending
        then Some (raise_state VerificationStateIdentityConfirmed (slot_at s0 b)) else dr_table s0 b))"

lemma confirm_walk_exact:
  "walk_inv s0 e a seen pending s \<Longrightarrow>
     (\<exists>T. confirm_walk e seen pending s = s0\<lparr>dr_table := T\<rparr> \<and>
       (\<forall>b. T b = (if (joined s0 e)\<^sup>*\<^sup>* a b
          then Some (raise_state VerificationStateIdentityConfirmed (slot_at s0 b)) else dr_table s0 b)))"
proof (induction e seen pending s rule: confirm_walk.induct)
  case (1 e seen s)
  then have I: "a \<in> seen" "\<forall>b \<in> seen. (joined s0 e)\<^sup>*\<^sup>* a b" "\<forall>b \<in> seen. \<forall>c. joined s0 e b c \<longrightarrow> c \<in> seen"
    by (auto simp: walk_inv_def)
  have "b \<in> seen" if "(joined s0 e)\<^sup>*\<^sup>* a b" for b
    using that by (induction rule: rtranclp_induct) (use I in auto)
  then have "(joined s0 e)\<^sup>*\<^sup>* a b \<longleftrightarrow> b \<in> seen" for b using I(2) by blast
  then show ?case using 1 by (auto simp: walk_inv_def)
next
  case (2 e seen current pending s)
  note I = "2.prems" [unfolded walk_inv_def]
  obtain T where sT: "s = s0\<lparr>dr_table := T\<rparr>" using I by blast
  have cur: "dr_entries s current = Some e" "current \<in> seen" "current \<notin> set pending" using I sT by auto
  define s1 where "s1 = confirm_slot current s"
  define new where "new = unseen_companions s1 e seen current"
  have js: "joined s = joined s0" by (simp add: joined_def sT fun_eq_iff)
  have new: "set new = {b. joined s0 e current b \<and> b \<notin> seen}" "distinct new"
    by (simp_all add: new_def unseen_companions_iff s1_def js)
  have "walk_inv s0 e a (seen \<union> set new) (pending @ new) s1"
    unfolding walk_inv_def
  proof (intro conjI)
    show "a \<in> seen \<union> set new" "set (pending @ new) \<subseteq> seen \<union> set new" "distinct (pending @ new)"
      using I new by auto
    show "\<forall>b \<in> seen \<union> set new. dr_entries s0 b = Some e \<and> (joined s0 e)\<^sup>*\<^sup>* a b"
    proof
      fix b assume "b \<in> seen \<union> set new"
      then consider "b \<in> seen" | "joined s0 e current b" using new(1) by blast
      then show "dr_entries s0 b = Some e \<and> (joined s0 e)\<^sup>*\<^sup>* a b"
      proof cases
        case 1
        then show ?thesis using I by blast
      next
        case 2
        have "(joined s0 e)\<^sup>*\<^sup>* a current" using I cur(2) by blast
        then show ?thesis using 2 by (auto simp: joined_def intro: rtranclp.rtrancl_into_rtrancl)
      qed
    qed
    show "\<forall>b \<in> seen \<union> set new - set (pending @ new). \<forall>c. joined s0 e b c \<longrightarrow> c \<in> seen \<union> set new"
    proof (intro ballI allI impI)
      fix b c assume b: "b \<in> seen \<union> set new - set (pending @ new)" and j: "joined s0 e b c"
      show "c \<in> seen \<union> set new"
      proof (cases "b = current")
        case True
        then show ?thesis using j new(1) by blast
      next
        case False
        then have "b \<in> seen - set (current # pending)" using b by auto
        then have "\<forall>c. joined s0 e b c \<longrightarrow> c \<in> seen" using I by blast
        then show ?thesis using j by blast
      qed
    qed
    show "\<exists>T. s1 = s0\<lparr>dr_table := T\<rparr>"
      unfolding s1_def confirm_slot_def write_slot_def sT by (rule exI) simp
    have at: "slot_at s current = slot_at s0 current" using I by (simp add: slot_at_def)
    have dom: "b \<in> seen \<union> set new - set (pending @ new) \<longleftrightarrow> b = current \<or> b \<in> seen - set (current # pending)" for b
      using cur new(1) by auto
    show "\<forall>b. dr_table s1 b = (if b \<in> seen \<union> set new - set (pending @ new)
        then Some (raise_state VerificationStateIdentityConfirmed (slot_at s0 b)) else dr_table s0 b)"
      unfolding dom using I at by (simp add: s1_def confirm_slot_def table_write)
  qed
  from "2.IH" (2) [OF _ s1_def new_def this] show ?case
    using cur(1) by (simp add: Let_def s1_def [symmetric] new_def [symmetric])
qed

lemma confirm_topology_exact:
  assumes "dr_entries s a = Some e"
  obtains T where "confirm_topology_identity_slots a e s = s\<lparr>dr_table := T\<rparr>"
    "\<forall>b. T b = (if (joined s e)\<^sup>*\<^sup>* a b
       then Some (raise_state VerificationStateIdentityConfirmed (slot_at s b)) else dr_table s b)"
proof -
  have "walk_inv s e a {a} [a] s" using assms by (auto simp: walk_inv_def intro!: exI [of _ "dr_table s"])
  from confirm_walk_exact [OF this] obtain T where "confirm_walk e {a} [a] s = s\<lparr>dr_table := T\<rparr>"
    "\<forall>b. T b = (if (joined s e)\<^sup>*\<^sup>* a b
       then Some (raise_state VerificationStateIdentityConfirmed (slot_at s b)) else dr_table s b)" by blast
  then show thesis by (intro that [of T]) (simp_all add: confirm_topology_identity_slots_def)
qed

lemma joined_entries: "(joined s e)\<^sup>*\<^sup>* a b \<Longrightarrow> dr_entries s a = Some e \<Longrightarrow> dr_entries s b = Some e"
  by (induction rule: rtranclp_induct) (auto simp: joined_def)

lemma confirm_topology_ok:
  assumes ok: "core_ok X s" and a: "dr_entries s a = Some e" and e: "e \<in> X"
  shows "core_ok X (confirm_topology_identity_slots a e s)" and "same_frame s (confirm_topology_identity_slots a e s)"
    and "dr_entries (confirm_topology_identity_slots a e s) = dr_entries s"
    and "dr_heap (confirm_topology_identity_slots a e s) = dr_heap s"
    and "dr_order (confirm_topology_identity_slots a e s) = dr_order s"
proof -
  note C = core_okD [OF ok] and G = groups_okD [OF core_okD(1) [OF ok]]
  obtain T where T: "confirm_topology_identity_slots a e s = s\<lparr>dr_table := T\<rparr>"
    "\<forall>b. T b = (if (joined s e)\<^sup>*\<^sup>* a b
       then Some (raise_state VerificationStateIdentityConfirmed (slot_at s b)) else dr_table s b)"
    by (rule confirm_topology_exact [OF a])
  let ?t = "confirm_topology_identity_slots a e s"
  have keeps: "sl_addr (raise_state v slot) = sl_addr slot" "sl_device (raise_state v slot) = sl_device slot" for v slot
    by (simp_all add: raise_state_def)
  have fits: "slot_fits s b" for b using C(2) by (simp add: slots_ok_def)
  have "slot_fits ?t b" for b
    using fits [of b] slot_at_fits [OF fits, of b] by (simp add: slot_fits_def T keeps)
  moreover have "faces_ok X ?t"
    unfolding faces_ok_def
  proof
    fix x assume x: "x \<in> set (dr_order ?t) - X"
    have "slot_at ?t b = slot_at s b" if "b \<in> set (members_of s x)" for b
    proof -
      have "dr_entries s b = Some x" using G(5) x that by (auto simp: T(1))
      then have "\<not> (joined s e)\<^sup>*\<^sup>* a b" using joined_entries [of s e a b] a x e by auto
      then show ?thesis by (simp add: slot_at_def T)
    qed
    then have "expected_faces ?t x = expected_faces s x" by (simp add: expected_faces_def T(1))
    then show "de_faces (entry_of ?t x) = expected_faces ?t x" using C(3) x by (simp add: faces_ok_def T(1))
  qed
  ultimately show "core_ok X ?t"
    using C by (simp add: core_ok_def slots_ok_def groups_ok_def infos_ok_def topology_ok_def identity_ok_def T(1))
  show "same_frame s ?t" "dr_entries ?t = dr_entries s" "dr_heap ?t = dr_heap s" "dr_order ?t = dr_order s"
    by (simp_all add: T(1) same_frame_def)
qed

end
