(* ===== verification/Reg_Alias.thy ===== *)
theory Reg_Alias
  imports Reg_Walk
begin

text \<open>
  \<open>AliasAddresses\<close> keeps the invariant. The code moves an address in steps whose middle states
  are not partitions; each is compared with the state in which the address is cut out.
\<close>

text \<open>The state with one address unbound.\<close>

definition cut :: "byte \<Rightarrow> 'm device_registry \<Rightarrow> 'm device_registry" where
  "cut b s = s\<lparr>dr_entries := (dr_entries s)(b := None), dr_table := (dr_table s)(b := None)\<rparr>"

lemma cut_frame [simp]:
  "dr_entries (cut b s) = (dr_entries s)(b := None)" "dr_table (cut b s) = (dr_table s)(b := None)"
  "dr_heap (cut b s) = dr_heap s" "dr_order (cut b s) = dr_order s" "dr_next (cut b s) = dr_next s"
  "dr_identity (cut b s) = dr_identity s" "dr_topology (cut b s) = dr_topology s"
  "dr_witnesses (cut b s) = dr_witnesses s" "dr_providers (cut b s) = dr_providers s"
  "dr_observation_generation (cut b s) = dr_observation_generation s"
  "dr_proof_generation (cut b s) = dr_proof_generation s"
  by (simp_all add: cut_def)

lemma cut_topology [simp]: "topology_ok (cut b s) = topology_ok s"
  by (simp add: topology_ok_def)

section \<open>The address joins its new group\<close>

definition rejoin :: "entry_ref \<Rightarrow> byte \<Rightarrow> 'm device_registry \<Rightarrow> 'm device_registry" where
  "rejoin c b s =
     (let s2 = write_slot b (\<lambda>slot. slot\<lparr>sl_device := Some c\<rparr>) s;
          s3 = (if \<not> contains_address (de_addresses (entry_of s2 c)) b
                then update_entry c (\<lambda>x. x\<lparr>de_addresses := de_addresses x @ [b]\<rparr>) s2 else s2)
      in sync_entry_faces c (s3\<lparr>dr_entries := (dr_entries s3)(b \<mapsto> c)\<rparr>))"

lemma rejoin_ok:
  assumes w: "core_ok {} (cut b s)" and c: "c \<in> set (dr_order s)" and addr: "sl_addr (slot_at s b) = b"
  shows "core_ok {} (rejoin c b s)" and "dr_entries (rejoin c b s) = (dr_entries s)(b \<mapsto> c)"
    and "same_frame s (rejoin c b s)" and "dr_topology (rejoin c b s) = dr_topology s"
    and "slot_at (rejoin c b s) a = (if a = b then (slot_at s b)\<lparr>sl_device := Some c\<rparr> else slot_at s a)"
    and "dr_order (rejoin c b s) = dr_order s"
    and "dr_identity (rejoin c b s) = dr_identity s"
    and "de_key (entry_of (rejoin c b s) x) = de_key (entry_of s x)"
    and "de_info (entry_of (rejoin c b s) x) = de_info (entry_of s x)"
    and "x \<noteq> c \<Longrightarrow> entry_of (rejoin c b s) x = entry_of s x"
proof -
  note W = core_okD [OF w] and G = groups_okD [OF core_okD(1) [OF w]]
  have nb: "b \<notin> set (members_of s x)" if "x \<in> set (dr_order s)" for x using G(5) [of b x] that by simp
  define u where "u = (update_entry c (\<lambda>x. x\<lparr>de_addresses := de_addresses x @ [b]\<rparr>)
      (write_slot b (\<lambda>slot. slot\<lparr>sl_device := Some c\<rparr>) s))\<lparr>dr_entries := (dr_entries s)(b \<mapsto> c)\<rparr>"
  have r: "rejoin c b s = sync_entry_faces c u" using nb [OF c] by (simp add: rejoin_def u_def Let_def)
  have u: "dr_entries u = (dr_entries s)(b \<mapsto> c)" "dr_order u = dr_order s" "dr_next u = dr_next s"
    "dr_topology u = dr_topology s" "dr_identity u = dr_identity s" "same_frame s u"
    "dr_table u a = (if a = b then Some ((slot_at s b)\<lparr>sl_device := Some c\<rparr>) else dr_table s a)"
    "slot_at u a = (if a = b then (slot_at s b)\<lparr>sl_device := Some c\<rparr> else slot_at s a)"
    "entry_of u x = (if x = c then (entry_of s c)\<lparr>de_addresses := members_of s c @ [b]\<rparr> else entry_of s x)" for a x
    by (simp_all add: u_def same_frame_def table_write slot_at_def)
  have "groups_ok u"
  proof -
    have m: "members_of u = (members_of s)(c := members_of s c @ [b])" "primary_of u = primary_of s"
      by (auto simp: u)
    have free: "dr_entries (cut b s) b = None" by simp
    have cl: "c \<in> set (dr_order (cut b s))" using c by simp
    have own: "(dr_entries (cut b s))(b \<mapsto> c) = (dr_entries s)(b \<mapsto> c)" by auto
    from groups_add [OF W(1) [unfolded groups_ok_def] free cl, unfolded own]
    show ?thesis unfolding groups_ok_def m u(1-3) by simp
  qed
  moreover have "slots_ok u"
  proof -
    have fit: "slot_fits (cut b s) a" for a using W(2) by (simp add: slots_ok_def)
    have "slot_fits u a" for a
      using fit [of a] addr by (cases "a = b") (simp_all add: slot_fits_def u)
    then show ?thesis by (simp add: slots_ok_def)
  qed
  moreover have "faces_ok {c} u"
  proof -
    have "expected_faces u x = expected_faces (cut b s) x" if "x \<in> set (dr_order s)" "x \<noteq> c" for x
      using nb [OF that(1)] that(2) by (auto simp: expected_faces_def u slot_at_def)
    then show ?thesis using W(3) by (auto simp: faces_ok_def u)
  qed
  moreover have "infos_ok {} u" using W(4) by (auto simp: infos_ok_def u)
  moreover have "topology_ok u" using W(5) by (simp add: topology_ok_def u)
  moreover have "identity_ok u" using W(6) by (auto simp: identity_ok_def u split: if_splits)
  ultimately have cu: "core_ok (insert c {}) u" "infos_ok {} u" "c \<in> set (dr_order u)"
    using c by (auto simp: core_ok_def infos_ok_def u)
  show "core_ok {} (rejoin c b s)" unfolding r by (rule sync_ok [OF cu])
  note S = sync_entry_faces_eq [OF core_okD(2,1) [OF cu(1)] cu(3)]
  show "dr_entries (rejoin c b s) = (dr_entries s)(b \<mapsto> c)" "same_frame s (rejoin c b s)"
    "dr_topology (rejoin c b s) = dr_topology s"
    "slot_at (rejoin c b s) a = (if a = b then (slot_at s b)\<lparr>sl_device := Some c\<rparr> else slot_at s a)"
    "dr_order (rejoin c b s) = dr_order s" "dr_identity (rejoin c b s) = dr_identity s"
    using u(6) by (simp_all add: r S u same_frame_def)
  show "de_key (entry_of (rejoin c b s) x) = de_key (entry_of s x)"
    "de_info (entry_of (rejoin c b s) x) = de_info (entry_of s x)"
    "x \<noteq> c \<Longrightarrow> entry_of (rejoin c b s) x = entry_of s x"
    by (auto simp: r S u)
qed

text \<open>An address that is already in the group.\<close>

lemma rejoin_same:
  assumes ok: "core_ok {} s" and b: "dr_entries s b = Some c"
  shows "core_ok {} (rejoin c b s)" and "dr_entries (rejoin c b s) = dr_entries s"
    and "same_frame s (rejoin c b s)" and "slot_at (rejoin c b s) a = slot_at s a"
    and "dr_topology (rejoin c b s) = dr_topology s"
proof -
  note C = core_okD [OF ok] and G = groups_okD [OF core_okD(1) [OF ok]]
  obtain slot where slot: "dr_table s b = Some slot" "sl_device slot = Some c" using slot_fitsD [OF C(2) b] by blast
  have "write_slot b (\<lambda>slot. slot\<lparr>sl_device := Some c\<rparr>) s = s"
    using slot by (simp add: write_slot_def slot_at_def fun_upd_idem)
  moreover have "b \<in> set (members_of s c)" "c \<in> set (dr_order s)" using G(5) b by blast+
  moreover have "s\<lparr>dr_entries := (dr_entries s)(b \<mapsto> c)\<rparr> = s" using b by (simp add: fun_upd_idem)
  ultimately have r: "rejoin c b s = sync_entry_faces c s" and c: "c \<in> set (dr_order s)"
    by (simp_all add: rejoin_def Let_def)
  show "core_ok {} (rejoin c b s)" unfolding r by (rule sync_ok [OF core_ok_mono [OF ok] C(4) c]) simp
  show "dr_entries (rejoin c b s) = dr_entries s" "same_frame s (rejoin c b s)"
    "slot_at (rejoin c b s) a = slot_at s a" "dr_topology (rejoin c b s) = dr_topology s"
    by (simp_all add: r sync_entry_faces_eq [OF C(2,1) c] same_frame_def)
qed

section \<open>The address leaves its old group\<close>

lemma leave_group_ok:
  assumes ok: "core_ok {} s" and b: "dr_entries s b = Some e" and rest: "remove1 b (members_of s e) \<noteq> []"
  defines "t \<equiv> sync_entry_faces e (update_entry e (leave_primary b)
     (update_entry e (\<lambda>x. x\<lparr>de_addresses := remove_address (de_addresses x) b\<rparr>) s))"
  shows "core_ok {} (cut b t)" and "dr_entries t = dr_entries s" and "dr_table t = dr_table s"
    and "same_frame s t" and "dr_order t = dr_order s" and "dr_topology t = dr_topology s"
    and "dr_identity t = dr_identity s" and "x \<noteq> e \<Longrightarrow> entry_of t x = entry_of s x"
proof -
  note C = core_okD [OF ok] and G = groups_okD [OF core_okD(1) [OF ok]]
  define y where "y = update_entry e (leave_primary b)
     (update_entry e (\<lambda>x. x\<lparr>de_addresses := remove_address (de_addresses x) b\<rparr>) s)"
  have y: "dr_heap y = (dr_heap s)(e := shrink_entry b (entry_of s e))"
    by (rule ext) (simp add: y_def shrink_entry_def)
  have yf: "dr_entries y = dr_entries s" "dr_table y = dr_table s" "dr_order y = dr_order s" "dr_next y = dr_next s"
    "dr_identity y = dr_identity s" "dr_topology y = dr_topology s" "same_frame s y"
    by (simp_all add: y_def same_frame_def)
  have e: "e \<in> set (dr_order s)" using G(5) b by blast
  have top: "topology_ok (cut b y)" using C(5) by (simp add: topology_ok_def yf)
  have cy: "dr_entries (cut b y) = (dr_entries s)(b := None)" "dr_table (cut b y) = (dr_table s)(b := None)"
    "dr_order (cut b y) = dr_order s" "dr_next (cut b y) = dr_next s" "dr_identity (cut b y) = dr_identity s"
    "dr_heap (cut b y) = (dr_heap s)(e := shrink_entry b (entry_of s e))"
    by (simp_all add: yf y)
  note S = shrink_ok [OF ok b rest cy(1-5) top cy(6)]
  have "\<exists>slot. dr_table y a = Some slot \<and> sl_device slot \<noteq> None" if "a \<in> set (members_of y e)" for a
  proof -
    have "a \<in> set (members_of s e)" using that notin_set_remove1 [of a "members_of s e" b] by (auto simp: y)
    then have "dr_entries s a = Some e" using G(5) e by blast
    from slot_fitsD [OF C(2) this] show ?thesis unfolding yf by blast
  qed
  then have ty: "t = update_entry e (\<lambda>x. x\<lparr>de_faces := expected_faces y e\<rparr>) y"
    unfolding t_def y_def [symmetric] by (simp add: sync_entry_faces_def sync_faces_attached expected_faces_def)
  have "b \<notin> set (members_of y e)" using G(3) [OF e] by (simp add: y)
  then have ef: "expected_faces (cut b y) e = expected_faces y e" by (auto simp: expected_faces_def slot_at_def)
  have "cut b t = sync_entry_faces e (cut b y)"
    unfolding sync_entry_faces_eq [OF S(2,3,4)] ty ef by (simp add: cut_def update_entry_def)
  then show "core_ok {} (cut b t)" using S(1) by simp
  show "dr_entries t = dr_entries s" "dr_table t = dr_table s" "same_frame s t" "dr_order t = dr_order s"
    "dr_topology t = dr_topology s" "dr_identity t = dr_identity s" "x \<noteq> e \<Longrightarrow> entry_of t x = entry_of s x"
    using yf(7) by (simp_all add: ty yf y same_frame_def)
qed

text \<open>Operations on the identity index do not look at the maps and the order.\<close>

lemma current_identity_cut:
  "current_identity_entry k (s\<lparr>dr_entries := E, dr_table := T, dr_order := R\<rparr>) =
     (let (t, c) = current_identity_entry k s in (t\<lparr>dr_entries := E, dr_table := T, dr_order := R\<rparr>, c))"
  by (simp add: current_identity_entry_def is_current_qualified_identity_key_def Let_def split: option.splits)

lemma retain_cut:
  "retain_current_identity_binding e k (s\<lparr>dr_entries := E, dr_table := T, dr_order := R\<rparr>) =
     (retain_current_identity_binding e k s)\<lparr>dr_entries := E, dr_table := T, dr_order := R\<rparr>"
  by (simp add: retain_current_identity_binding_def update_entry_def)

lemma publish_cut:
  "publish_current_identity_binding e k (s\<lparr>dr_entries := E, dr_table := T, dr_order := R\<rparr>) =
     (publish_current_identity_binding e k s)\<lparr>dr_entries := E, dr_table := T, dr_order := R\<rparr>"
  by (cases "current_identity_entry k s")
    (simp add: publish_current_identity_binding_def current_identity_cut retain_cut Let_def update_entry_def
      split: option.splits)

text \<open>The only address of a group leaves: its entry is merged into the canonical one and dropped.\<close>

lemma merge_removed_ok:
  assumes ok: "core_ok {} s" and b: "dr_entries s b = Some e" and last: "members_of s e = [b]"
    and c: "c \<in> set (dr_order s)" and ne: "c \<noteq> e"
  defines "t \<equiv> merge_removed_alias_entry c e (update_entry e (\<lambda>x. x\<lparr>de_addresses := []\<rparr>) s)"
  shows "core_ok {} (cut b t)" and "dr_entries t = dr_entries s" and "dr_table t = dr_table s"
    and "same_frame s t" and "dr_order t = remove1 e (dr_order s)" and "dr_topology t = dr_topology s"
    and "x \<noteq> e \<Longrightarrow> x \<noteq> c \<Longrightarrow> entry_of t x = entry_of s x"
proof -
  note C = core_okD [OF ok] and G = groups_okD [OF core_okD(1) [OF ok]]
  define s0 where "s0 = update_entry e (\<lambda>x. x\<lparr>de_addresses := []\<rparr>) s"
  define k0 where "k0 = (if de_key (entry_of s0 c) = [] then de_key (entry_of s0 e) else de_key (entry_of s0 c))"
  define s1 where "s1 = absorb_identity c e s0"
  define s2 where "s2 = remove_identity_bindings e s1"
  define s3 where "s3 = update_entry c (\<lambda>x. x\<lparr>de_physical := canonical_physical_identity (de_info x)\<rparr>) s2"
  define k where "k = (if identity_key (de_physical (entry_of s3 c)) \<noteq> k0 then [] else k0)"
  define s4 where "s4 = publish_current_identity_binding c k s3"
  have t: "t = s4\<lparr>dr_order := remove1 e (dr_order s4)\<rparr>"
    by (simp add: t_def merge_removed_alias_entry_def Let_def s0_def k0_def s1_def s2_def s3_def k_def s4_def)
  have id1: "identity_ok s1" using C(6) ne by (auto simp: identity_ok_def s1_def s0_def absorb_identity_def)
  note F2 = remove_bindings_frame [OF id1, of e, folded s2_def]
  define M where "M = dr_identity s2"
  have s1heap: "entry_of s1 x = (if x = c then absorb_entry (entry_of s c) (entry_of s0 e) else entry_of s0 x)" for x
    using ne by (simp add: s1_def absorb_identity_def s0_def)
  have s1f: "dr_entries s1 = dr_entries s" "dr_table s1 = dr_table s" "dr_order s1 = dr_order s" "dr_next s1 = dr_next s"
    "dr_topology s1 = dr_topology s" "same_frame s s1" "dr_identity s1 = dr_identity s"
    using ne by (simp_all add: s1_def absorb_identity_def s0_def same_frame_def)
  \<comment> \<open>the state without the entry and the address\<close>
  define v1 where "v1 = (s2\<lparr>dr_heap := (dr_heap s2)(c := entry_of s c)\<rparr>)\<lparr>dr_entries := (dr_entries s)(b := None),
      dr_table := (dr_table s)(b := None), dr_order := remove1 e (dr_order s)\<rparr>"
  have gm2: "gm_ok (dr_identity s2)" using remove_bindings_eq [OF id1, of e] by (auto simp: s2_def)
  have ok1: "core_ok {} v1"
  proof (rule vanish_ok [OF ok b last])
    show "identity_ok v1"
    proof -
      have "x \<in> set (dr_order s) \<and> x \<noteq> e \<and> de_key (entry_of s x) = j \<and> is_stable_identity_key j"
        if "without_entry e (dr_identity s) j = Some x" for j x
        using that identity_okD(2) [OF C(6), of j x] by (auto simp: without_entry_def split: if_splits)
      then show ?thesis
        using gm2 ne by (auto simp: identity_ok_def v1_def F2 s1heap s0_def s1f)
    qed
    show "topology_ok v1" using C(5) by (simp add: topology_ok_def v1_def F2 s1f)
    show "entry_of v1 x = entry_of s x" if "x \<noteq> e" for x
      using that ne by (simp add: v1_def F2 s1heap s0_def)
  qed (simp_all add: v1_def F2 s1f)
  define v3 where "v3 = s3\<lparr>dr_entries := (dr_entries s)(b := None), dr_table := (dr_table s)(b := None),
      dr_order := remove1 e (dr_order s)\<rparr>"
  have c3: "c \<in> set (dr_order v3)" using c ne by (simp add: v3_def)
  have ec: "entry_of v3 c = (absorb_entry (entry_of s c) (entry_of s0 e))\<lparr>de_physical :=
      canonical_physical_identity (absorb_info (de_info (entry_of s c)) (de_info (entry_of s0 e)))\<rparr>"
    "x \<noteq> c \<Longrightarrow> entry_of v3 x = entry_of v1 x" for x
    using ne by (simp_all add: v3_def v1_def s3_def F2 s1heap)
  have same31: "dr_entries v3 = dr_entries v1" "dr_table v3 = dr_table v1" "dr_order v3 = dr_order v1"
    "dr_next v3 = dr_next v1" "dr_topology v3 = dr_topology v1" "dr_identity v3 = dr_identity v1"
    by (simp_all add: v3_def v1_def s3_def)
  have v1c: "entry_of v1 c = entry_of s c" by (simp add: v1_def)
  have ok3: "core_ok {} v3"
  proof -
    note V = core_okD [OF ok1]
    have sel: "members_of v3 x = members_of v1 x" "primary_of v3 x = primary_of v1 x"
      "de_faces (entry_of v3 x) = de_faces (entry_of v1 x)" "de_key (entry_of v3 x) = de_key (entry_of v1 x)" for x
      by (cases "x = c"; simp add: ec v1c)+
    have "groups_ok v3" using V(1) unfolding groups_ok_def same31 sel .
    moreover have "slots_ok v3" using V(2) by (simp add: slots_ok_def slot_fits_def same31)
    moreover have "faces_ok {} v3" using V(3) by (simp add: faces_ok_def expected_faces_def same31 sel slot_at_def)
    moreover have "infos_ok {} v3"
      unfolding infos_ok_def
    proof
      fix x assume "x \<in> set (dr_order v3) - {}"
      then have "di_address (de_info (entry_of v1 x)) = primary_of v1 x \<and>
          de_physical (entry_of v1 x) = canonical_physical_identity (de_info (entry_of v1 x))"
        using V(4) by (simp add: infos_ok_def same31)
      then show "di_address (de_info (entry_of v3 x)) = primary_of v3 x \<and>
          de_physical (entry_of v3 x) = canonical_physical_identity (de_info (entry_of v3 x))"
        by (cases "x = c") (simp_all add: ec v1c)
    qed
    moreover have "topology_ok v3" using V(5) by (simp add: topology_ok_def same31)
    moreover have "identity_ok v3" using V(6) by (simp add: identity_ok_def same31 sel)
    ultimately show ?thesis by (simp add: core_ok_def)
  qed
  have stable: "k \<noteq> [] \<Longrightarrow> is_stable_identity_key k"
    using identity_key_stable [of "de_physical (entry_of s3 c)"] by (auto simp: k_def split: if_splits)
  have id3: "identity_ok v3" using core_okD(6) [OF ok3] .
  have s43: "publish_current_identity_binding c k v3 = s4\<lparr>dr_entries := (dr_entries s)(b := None),
      dr_table := (dr_table s)(b := None), dr_order := remove1 e (dr_order s)\<rparr>"
    by (simp add: v3_def publish_cut s4_def)
  have id3s: "identity_ok s3"
  proof -
    have "x \<in> set (dr_order s3)" if "x \<in> set (dr_order v3)" for x
      using that notin_set_remove1 [of x "dr_order s" e] by (auto simp: v3_def s3_def F2 s1f)
    then show ?thesis using id3 by (auto simp: identity_ok_def v3_def)
  qed
  note F4 = publish_frame [OF id3s, of c k, folded s4_def]
  have s3f: "dr_entries s3 = dr_entries s" "dr_table s3 = dr_table s" "dr_order s3 = dr_order s"
    "dr_topology s3 = dr_topology s" "same_frame s s3"
    using s1f(6) by (simp_all add: s3_def F2 s1f same_frame_def)
  have "cut b t = publish_current_identity_binding c k v3"
    unfolding s43 t by (simp add: cut_def F4 s3f)
  then show "core_ok {} (cut b t)" using publish_ok [OF ok3 c3 stable] by simp
  show "dr_entries t = dr_entries s" "dr_table t = dr_table s" "same_frame s t" "dr_order t = remove1 e (dr_order s)"
    "dr_topology t = dr_topology s"
    using s3f(5) by (simp_all add: t F4 s3f same_frame_def)
  show "x \<noteq> e \<Longrightarrow> x \<noteq> c \<Longrightarrow> entry_of t x = entry_of s x"
    by (simp add: t F4 s3_def F2 s1heap s0_def)
qed

section \<open>The whole operation\<close>

lemma alias_into_ok:
  assumes ok: "core_ok {} s" and slot: "dr_table s b \<noteq> None" and c: "c \<in> set (dr_order s)"
  shows "core_ok {} (alias_into c b s)" and "dr_entries (alias_into c b s) = (dr_entries s)(b \<mapsto> c)"
    and "same_frame s (alias_into c b s)" and "dr_topology (alias_into c b s) = dr_topology s"
    and "slot_at (alias_into c b s) a = (if a = b then (slot_at s b)\<lparr>sl_device := Some c\<rparr> else slot_at s a)"
proof -
  note C = core_okD [OF ok] and G = groups_okD [OF core_okD(1) [OF ok]]
  note dev = slot_device [OF C(2), of b]
  have addr: "sl_addr (slot_at s b) = b" using C(2) slot_at_fits by (auto simp: slots_ok_def)
  let ?t = "alias_into c b s"
  let ?concl = "\<lambda>a. core_ok {} ?t \<and> dr_entries ?t = (dr_entries s)(b \<mapsto> c) \<and> same_frame s ?t \<and>
     dr_topology ?t = dr_topology s \<and>
     slot_at ?t a = (if a = b then (slot_at s b)\<lparr>sl_device := Some c\<rparr> else slot_at s a)"
  have via: "?concl a"
    if s1: "?t = rejoin c b s1" and w: "core_ok {} (cut b s1)" and f: "dr_entries s1 = dr_entries s"
      "dr_table s1 = dr_table s" "same_frame s s1" "c \<in> set (dr_order s1)" "dr_topology s1 = dr_topology s" for s1 a
  proof -
    have at: "slot_at s1 x = slot_at s x" for x by (simp add: slot_at_def f)
    note R = rejoin_ok [OF w f(4)]
    show ?thesis using R(1-5) addr same_frame_trans [OF f(3)] by (simp add: s1 at f)
  qed
  have "?concl a"
  proof (cases "dr_entries s b")
    case None
    have "?t = rejoin c b s" using dev None by (simp add: alias_into_def rejoin_def Let_def)
    moreover have "core_ok {} (cut b s)"
    proof -
      have nb: "b \<notin> set (members_of s x)" if "x \<in> set (dr_order s)" for x using G(5) [of b x] None that by simp
      have "groups_ok (cut b s)" using C(1) None by (simp add: groups_ok_def fun_upd_idem)
      moreover have "slots_ok (cut b s)" using C(2) by (auto simp: slots_ok_def slot_fits_def)
      moreover have "expected_faces (cut b s) x = expected_faces s x" if "x \<in> set (dr_order s)" for x
        using nb [OF that] by (auto simp: expected_faces_def slot_at_def)
      then have "faces_ok {} (cut b s)" using C(3) by (simp add: faces_ok_def)
      moreover have "infos_ok {} (cut b s)" using C(4) by (simp add: infos_ok_def)
      moreover have "topology_ok (cut b s)" "identity_ok (cut b s)" using C(5,6) by (simp_all add: identity_ok_def)
      ultimately show ?thesis by (simp add: core_ok_def)
    qed
    ultimately show ?thesis using c by (intro via) simp_all
  next
    case (Some e)
    have e: "e \<in> set (dr_order s)" "b \<in> set (members_of s e)" using G(5) Some by blast+
    show ?thesis
    proof (cases "e = c")
      case True
      then have "?t = rejoin c b s" using dev Some by (simp add: alias_into_def rejoin_def Let_def)
      moreover have "(dr_entries s)(b \<mapsto> c) = dr_entries s" using Some True by auto
      moreover have "(slot_at s b)\<lparr>sl_device := Some c\<rparr> = slot_at s b" using dev Some True by simp
      ultimately show ?thesis using rejoin_same [OF ok, of b c] Some True by simp
    next
      case False
      let ?u = "update_entry e (\<lambda>x. x\<lparr>de_addresses := remove_address (de_addresses x) b\<rparr>) s"
      show ?thesis
      proof (cases "remove1 b (members_of s e) = []")
        case True
        have "length (members_of s e) \<le> 1" using True length_remove1 [of b "members_of s e"] e(2) by simp
        then have last: "members_of s e = [b]" using e(2) by (cases "members_of s e") auto
        have u: "?u = update_entry e (\<lambda>x. x\<lparr>de_addresses := []\<rparr>) s" using True by (simp add: update_entry_def)
        let ?s1 = "merge_removed_alias_entry c e (update_entry e (\<lambda>x. x\<lparr>de_addresses := []\<rparr>) s)"
        have ne: "c \<noteq> e" using False by simp
        note M = merge_removed_ok [OF ok Some last c ne]
        have "?t = rejoin c b ?s1"
          using dev Some False True by (simp add: alias_into_def rejoin_def Let_def u [simplified])
        moreover have "c \<in> set (dr_order ?s1)" using M(5) c False by simp
        ultimately show ?thesis using M(1-4,6) by (intro via)
      next
        case rest: False
        let ?s1 = "sync_entry_faces e (update_entry e (leave_primary b) ?u)"
        note L = leave_group_ok [OF ok Some rest]
        have "?t = rejoin c b ?s1"
          using dev Some False rest by (simp add: alias_into_def rejoin_def Let_def)
        moreover have "c \<in> set (dr_order ?s1)" using L(5) c by simp
        ultimately show ?thesis using L(1-4,6) by (intro via)
      qed
    qed
  qed
  then show "core_ok {} ?t" "dr_entries ?t = (dr_entries s)(b \<mapsto> c)" "same_frame s ?t"
    "dr_topology ?t = dr_topology s"
    "slot_at ?t a = (if a = b then (slot_at s b)\<lparr>sl_device := Some c\<rparr> else slot_at s a)" by blast+
qed

text \<open>What \<open>AliasAddresses\<close> does before it reconciles the witnesses.\<close>

definition alias_joined :: "byte \<Rightarrow> byte \<Rightarrow> 'm device_registry \<Rightarrow> 'm device_registry" where
  "alias_joined a b s =
     (let s1 = ensure_address_slot b (ensure_address_slot a s)
      in case sl_device (slot_at s1 a) of
           Some canonical \<Rightarrow> alias_into canonical b s1
         | None \<Rightarrow> (case sl_device (slot_at s1 b) of Some canonical \<Rightarrow> alias_into canonical a s1 | None \<Rightarrow> s1))"

text \<open>The group both addresses end in.\<close>

definition alias_owner :: "byte \<Rightarrow> byte \<Rightarrow> 'm device_registry \<Rightarrow> entry_ref option" where
  "alias_owner a b s = (if dr_entries s a \<noteq> None then dr_entries s a else dr_entries s b)"

lemma ensure_table: "dr_table (ensure_address_slot a s) a \<noteq> None"
  "dr_table s b \<noteq> None \<Longrightarrow> dr_table (ensure_address_slot a s) b \<noteq> None"
  by (auto simp: ensure_address_slot_def split: option.splits)

lemma alias_joined_ok:
  assumes ok: "core_ok {} s"
  shows "core_ok {} (alias_joined a b s)"
    and "dr_entries (alias_joined a b s) =
       (case alias_owner a b s of None \<Rightarrow> dr_entries s | Some c \<Rightarrow> (dr_entries s)(a \<mapsto> c, b \<mapsto> c))"
    and "same_frame s (alias_joined a b s)" and "dr_topology (alias_joined a b s) = dr_topology s"
    and "sl_role (slot_at (alias_joined a b s) x) = sl_role (slot_at s x) \<and>
       sl_source (slot_at (alias_joined a b s) x) = sl_source (slot_at s x) \<and>
       sl_state (slot_at (alias_joined a b s) x) = sl_state (slot_at s x) \<and>
       sl_first (slot_at (alias_joined a b s) x) = sl_first (slot_at s x) \<and>
       sl_last (slot_at (alias_joined a b s) x) = sl_last (slot_at s x)"
proof -
  let ?s1 = "ensure_address_slot b (ensure_address_slot a s)"
  have ok1: "core_ok {} ?s1" by (intro ensure_ok ok)
  have tab: "dr_table ?s1 a \<noteq> None" "dr_table ?s1 b \<noteq> None" using ensure_table by blast+
  note C = core_okD [OF ok1] and G = groups_okD [OF core_okD(1) [OF ok1]]
  have dev: "sl_device (slot_at s a) = dr_entries s a" "sl_device (slot_at s b) = dr_entries s b"
    using slot_device [OF C(2)] by simp_all
  have frame: "same_frame s ?s1" by (simp add: same_frame_def)
  have live: "x \<in> set (dr_order ?s1)" if "dr_entries s y = Some x" for x y using G(5) [of y x] that by simp
  let ?t = "alias_joined a b s"
  consider c where "dr_entries s a = Some c" "?t = alias_into c b ?s1" "alias_owner a b s = Some c"
    | c where "dr_entries s a = None" "dr_entries s b = Some c" "?t = alias_into c a ?s1" "alias_owner a b s = Some c"
    | "dr_entries s a = None" "dr_entries s b = None" "?t = ?s1" "alias_owner a b s = None"
    using dev by (cases "dr_entries s a"; cases "dr_entries s b") (auto simp: alias_joined_def alias_owner_def)
  then have "core_ok {} ?t \<and>
      dr_entries ?t = (case alias_owner a b s of None \<Rightarrow> dr_entries s | Some c \<Rightarrow> (dr_entries s)(a \<mapsto> c, b \<mapsto> c)) \<and>
      same_frame s ?t \<and> dr_topology ?t = dr_topology s \<and>
      (sl_role (slot_at ?t x) = sl_role (slot_at s x) \<and> sl_source (slot_at ?t x) = sl_source (slot_at s x) \<and>
       sl_state (slot_at ?t x) = sl_state (slot_at s x) \<and> sl_first (slot_at ?t x) = sl_first (slot_at s x) \<and>
       sl_last (slot_at ?t x) = sl_last (slot_at s x))"
  proof cases
    case 1
    have "(dr_entries s)(a \<mapsto> c) = dr_entries s" using 1(1) by auto
    then show ?thesis
      using alias_into_ok [OF ok1 tab(2) live [OF 1(1)]] same_frame_trans [OF frame] by (simp add: 1(2,3))
  next
    case 2
    have "(dr_entries s)(a \<mapsto> c, b \<mapsto> c) = (dr_entries s)(a \<mapsto> c)" using 2(2) by auto
    then show ?thesis
      using alias_into_ok [OF ok1 tab(1) live [OF 2(2)]] same_frame_trans [OF frame] by (simp add: 2(3,4))
  next
    case 3
    then show ?thesis using ok1 frame by simp
  qed
  then show "core_ok {} ?t"
    "dr_entries ?t = (case alias_owner a b s of None \<Rightarrow> dr_entries s | Some c \<Rightarrow> (dr_entries s)(a \<mapsto> c, b \<mapsto> c))"
    "same_frame s ?t" "dr_topology ?t = dr_topology s"
    "sl_role (slot_at ?t x) = sl_role (slot_at s x) \<and> sl_source (slot_at ?t x) = sl_source (slot_at s x) \<and>
     sl_state (slot_at ?t x) = sl_state (slot_at s x) \<and> sl_first (slot_at ?t x) = sl_first (slot_at s x) \<and>
     sl_last (slot_at ?t x) = sl_last (slot_at s x)" by blast+
qed

lemma alias_addresses_eq:
  "alias_addresses env a b s =
     (let t = alias_joined a b s
      in reconcile_qualified_identity_witnesses env (advance_generation
           (if dr_entries t a \<noteq> None \<and> dr_entries t a = dr_entries t b then record_topology_alias a b t else t)))"
  by (simp only: alias_addresses_def alias_joined_def Let_def)

end
