(* ===== verification/Reg_Reach.thy ===== *)
theory Reg_Reach
  imports Reg_Alias
begin

text \<open>
  Every operation keeps the invariant of the registry, identity witnesses included, so it holds
  in every reachable state.
\<close>

section \<open>Witnesses\<close>

lemma authority_identity_normal:
  "authority_identity \<lparr>ia_manufacturer = ph_manufacturer (canonical_physical_identity i),
     ia_device_id = ph_device_id (canonical_physical_identity i),
     ia_serial_number = ph_serial_number (canonical_physical_identity i)\<rparr> =
   (canonical_physical_identity i)\<lparr>ph_mac_address := [], ph_software_version := [], ph_hardware_version := []\<rparr>"
  by (simp add: authority_identity_def canonical_physical_identity_def zero_info_def)

lemma identity_key_triple [simp]:
  "identity_key (p\<lparr>ph_mac_address := m, ph_software_version := v, ph_hardware_version := h\<rparr>) = identity_key p"
  by (simp add: identity_key_def is_qualified_def)

lemma current_is_valid:
  "qualified_identity_witness_current env s a (wr_witness (dr_witnesses s a)) \<Longrightarrow>
     witness_valid env s a (dr_witnesses s a)"
  by (auto simp: qualified_identity_witness_current_def witness_valid_def Let_def split: if_splits)

lemma valid_is_current:
  "witness_valid env s a (dr_witnesses s a) \<Longrightarrow>
     iw_observation_generation (wr_witness (dr_witnesses s a)) \<noteq> 0 \<Longrightarrow>
     iw_proof_generation (wr_witness (dr_witnesses s a)) \<noteq> 0 \<Longrightarrow>
     qualified_identity_witness_current env s a (wr_witness (dr_witnesses s a))"
  by (auto simp: qualified_identity_witness_current_def witness_valid_def Let_def)

lemma no_witness_not_current: "\<not> qualified_identity_witness_current env s a (wr_witness no_witness)"
  by (simp add: qualified_identity_witness_current_def no_witness_def)

text \<open>Validity depends on the address map, the index, and the keys and identities of the entries.\<close>

lemma witness_valid_cong:
  assumes "dr_entries t = dr_entries s" and "dr_identity t = dr_identity s"
    and "\<And>x. de_key (entry_of t x) = de_key (entry_of s x) \<and> de_physical (entry_of t x) = de_physical (entry_of s x)"
  shows "witness_valid env t a r = witness_valid env s a r"
  using assms by (simp add: witness_valid_def is_current_qualified_identity_key_def Let_def cong: option.case_cong)

lemma reconcile_frame [simp]:
  "dr_entries (reconcile_qualified_identity_witnesses env s) = dr_entries s"
  "dr_table (reconcile_qualified_identity_witnesses env s) = dr_table s"
  "dr_heap (reconcile_qualified_identity_witnesses env s) = dr_heap s"
  "dr_order (reconcile_qualified_identity_witnesses env s) = dr_order s"
  "dr_next (reconcile_qualified_identity_witnesses env s) = dr_next s"
  "dr_identity (reconcile_qualified_identity_witnesses env s) = dr_identity s"
  "dr_topology (reconcile_qualified_identity_witnesses env s) = dr_topology s"
  "dr_observation_generation (reconcile_qualified_identity_witnesses env s) = dr_observation_generation s"
  "dr_proof_generation (reconcile_qualified_identity_witnesses env s) = dr_proof_generation s"
  by (simp_all add: reconcile_qualified_identity_witnesses_def)

lemma core_ok_frame:
  assumes "dr_entries t = dr_entries s" "dr_table t = dr_table s" "dr_heap t = dr_heap s" "dr_order t = dr_order s"
    "dr_next t = dr_next s" "dr_identity t = dr_identity s" "dr_topology t = dr_topology s"
  shows "core_ok X t = core_ok X s"
  using assms by (simp add: core_ok_def groups_ok_def slots_ok_def slot_fits_def faces_ok_def expected_faces_def
      slot_at_def infos_ok_def topology_ok_def identity_ok_def)

lemma advance_frame [simp]:
  "dr_entries (advance_generation s) = dr_entries s" "dr_table (advance_generation s) = dr_table s"
  "dr_heap (advance_generation s) = dr_heap s" "dr_order (advance_generation s) = dr_order s"
  "dr_next (advance_generation s) = dr_next s" "dr_identity (advance_generation s) = dr_identity s"
  "dr_topology (advance_generation s) = dr_topology s" "dr_witnesses (advance_generation s) = dr_witnesses s"
  "dr_proof_generation (advance_generation s) = dr_proof_generation s"
  "dr_observation_generation (advance_generation s) = dr_observation_generation s + 1"
  by (simp_all add: advance_generation_def)

text \<open>Records without a key are the zero record.\<close>

definition keyless_zero :: "'m device_registry \<Rightarrow> bool" where
  "keyless_zero s \<longleftrightarrow> (\<forall>a. wr_key (dr_witnesses s a) = [] \<longrightarrow> dr_witnesses s a = no_witness)"

lemma witnesses_keyless: "witnesses_ok env s \<Longrightarrow> keyless_zero s"
  by (auto simp: witnesses_ok_def keyless_zero_def witness_valid_def Let_def)

lemma reconcile_ok:
  assumes "keyless_zero s"
  shows "witnesses_ok env (reconcile_qualified_identity_witnesses env s)"
    and "keyless_zero (reconcile_qualified_identity_witnesses env s)"
proof -
  let ?t = "reconcile_qualified_identity_witnesses env s"
  have w: "dr_witnesses ?t a = (if wr_key (dr_witnesses s a) = [] \<or>
      \<not> qualified_identity_witness_current env s a (wr_witness (dr_witnesses s a)) then no_witness
      else dr_witnesses s a)" for a
    using assms by (simp add: reconcile_qualified_identity_witnesses_def keyless_zero_def Let_def)
  have "witness_valid env ?t a r = witness_valid env s a r" for a r by (rule witness_valid_cong) simp_all
  then show ok: "witnesses_ok env ?t" using current_is_valid [of env s] by (simp add: witnesses_ok_def w)
  show "keyless_zero ?t" by (rule witnesses_keyless [OF ok])
qed

lemma record_direct_ok:
  assumes "witnesses_ok env s"
  shows "witnesses_ok env (record_direct_qualified_identity_witness env info e s)"
proof (cases "record_direct_qualified_identity_witness env info e s = s")
  case True
  then show ?thesis using assms by simp
next
  case False
  let ?p = "canonical_physical_identity info" and ?a = "di_address info"
  let ?t = "record_direct_qualified_identity_witness env info e s"
  have c: "is_qualified_witness_address env ?a" "identity_key ?p \<noteq> []" "dr_entries s ?a = Some e"
      "is_current_qualified_identity_key s (Some e) (identity_key ?p)" "gm_get (dr_identity s) (identity_key ?p) = Some e"
    and t: "?t = (let s1 = s\<lparr>dr_proof_generation := dr_proof_generation s + 1\<rparr>
       in s1\<lparr>dr_witnesses := (dr_witnesses s1)(?a := direct_witness ?a ?p s1)\<rparr>)"
    using False by (auto simp: record_direct_qualified_identity_witness_def Let_def split: if_splits)
  have same: "witness_valid env ?t a r = witness_valid env s a r" for a r
    by (rule witness_valid_cong) (simp_all add: t Let_def)
  define u where "u = s\<lparr>dr_proof_generation := dr_proof_generation s + 1\<rparr>"
  have v: "witness_valid env s ?a (direct_witness ?a ?p u)"
    using c by (simp add: witness_valid_def direct_witness_def authority_identity_normal Let_def)
  have "dr_witnesses ?t = (dr_witnesses s)(?a := direct_witness ?a ?p u)" by (simp add: t u_def Let_def)
  then show ?thesis using assms v unfolding witnesses_ok_def same by simp
qed

lemma record_direct_frame [simp]:
  "dr_entries (record_direct_qualified_identity_witness env info e s) = dr_entries s"
  "dr_table (record_direct_qualified_identity_witness env info e s) = dr_table s"
  "dr_heap (record_direct_qualified_identity_witness env info e s) = dr_heap s"
  "dr_order (record_direct_qualified_identity_witness env info e s) = dr_order s"
  "dr_next (record_direct_qualified_identity_witness env info e s) = dr_next s"
  "dr_identity (record_direct_qualified_identity_witness env info e s) = dr_identity s"
  "dr_topology (record_direct_qualified_identity_witness env info e s) = dr_topology s"
  "dr_observation_generation (record_direct_qualified_identity_witness env info e s) = dr_observation_generation s"
  by (simp_all add: record_direct_qualified_identity_witness_def Let_def)

section \<open>Operations\<close>

text \<open>An operation that does not touch the index keeps the witnesses.\<close>

lemma witnesses_ok_cong:
  assumes "witnesses_ok env s" and "same_frame s t" and "dr_entries t = dr_entries s" and "dr_identity t = dr_identity s"
    and "\<And>x. de_key (entry_of t x) = de_key (entry_of s x) \<and> de_physical (entry_of t x) = de_physical (entry_of s x)"
  shows "witnesses_ok env t"
  using assms(1) witness_valid_cong [OF assms(3-5)] assms(2) by (simp add: witnesses_ok_def same_frame_def)

lemma advance_ok: "core_ok X s \<Longrightarrow> core_ok X (advance_generation s)"
  by (subst core_ok_frame [of _ s]) simp_all

lemma advance_witnesses: "witnesses_ok env s \<Longrightarrow> witnesses_ok env (advance_generation s)"
  using witness_valid_cong [of "advance_generation s" s] by (simp add: witnesses_ok_def)

lemma advanced_ok: "core_ok {} s \<Longrightarrow> witnesses_ok env s \<Longrightarrow> registry_ok env (advance_generation s)"
  unfolding registry_ok_def using advance_ok advance_witnesses by blast

lemma mark_slot_ok:
  assumes ok: "registry_ok env s" and f: "keeps_place f"
  shows "registry_ok env (mark_slot f a s)"
proof -
  have c: "core_ok {} s" and w: "witnesses_ok env s" using ok by (simp_all add: registry_ok_def)
  note C = core_okD [OF c]
  let ?s1 = "write_slot a f s"
  have dev: "sl_device (slot_at ?s1 a) = dr_entries s a"
    using f slot_device [OF C(2)] by (simp add: keeps_place_def)
  show ?thesis
  proof (cases "dr_entries s a")
    case None
    have "core_ok {} ?s1" using write_slot_ok [OF c f, of a] None by simp
    moreover have "witnesses_ok env ?s1" by (rule witnesses_ok_cong [OF w]) (simp_all add: same_frame_def)
    moreover have "mark_slot f a s = advance_generation ?s1" using dev None by (simp add: mark_slot_def Let_def)
    ultimately show ?thesis using advanced_ok by metis
  next
    case (Some e)
    have ce: "core_ok {e} ?s1"
      using write_slot_ok [OF core_ok_mono [OF c] f, of "{e}" a] Some by simp
    have i: "infos_ok {} ?s1" using C(4) by (simp add: infos_ok_def)
    have e: "e \<in> set (dr_order ?s1)" using groups_okD(5) [OF C(1)] Some by simp
    have s2: "core_ok {} (sync_entry_faces e ?s1)" by (rule sync_ok [OF ce i e])
    moreover have "witnesses_ok env (sync_entry_faces e ?s1)"
      unfolding sync_entry_faces_eq [OF core_okD(2,1) [OF ce] e]
      by (rule witnesses_ok_cong [OF w]) (simp_all add: same_frame_def)
    moreover have "mark_slot f a s = advance_generation (sync_entry_faces e ?s1)"
      using dev Some by (simp add: mark_slot_def Let_def)
    ultimately show ?thesis using advanced_ok by metis
  qed
qed

lemma raise_keeps [simp]: "sl_addr (raise_state v slot) = sl_addr slot" "sl_device (raise_state v slot) = sl_device slot"
  by (simp_all add: raise_state_def)

lemma record_source_keeps [simp]:
  "sl_addr (record_discovery_source v slot) = sl_addr slot" "sl_device (record_discovery_source v slot) = sl_device slot"
  by (simp_all add: record_discovery_source_def)

text \<open>Stamping the slot of a bound address and syncing its entry completes the invariant.\<close>

definition attaches :: "entry_ref \<Rightarrow> (address_slot \<Rightarrow> address_slot) \<Rightarrow> bool" where
  "attaches e f \<longleftrightarrow> (\<forall>slot. sl_addr (f slot) = sl_addr slot \<and> sl_device (f slot) = Some e)"

lemma attach_ok:
  assumes b: "bound_ok a e s" and f: "attaches e f"
  shows "core_ok {e} (write_slot a f s)" and "infos_ok {} (write_slot a f s)" and "e \<in> set (dr_order s)"
proof -
  have B: "groups_ok s" "\<forall>b. b \<noteq> a \<longrightarrow> slot_fits s b" "sl_addr (slot_at s a) = a" "faces_ok {e} s" "infos_ok {} s"
    "topology_ok s" "identity_ok s" "dr_entries s a = Some e"
    using b by (simp_all add: bound_ok_def)
  have "slots_ok (write_slot a f s)"
    using f B(2) by (intro slots_attach [OF _ B(3) B(8)]) (simp_all add: attaches_def)
  moreover have "faces_ok {e} (write_slot a f s)" using B(8) by (intro faces_write [OF B(4,1)]) simp
  moreover show "infos_ok {} (write_slot a f s)" using B(5) by (simp add: infos_ok_def)
  moreover have "infos_ok {e} (write_slot a f s)" using B(5) by (simp add: infos_ok_def)
  ultimately show "core_ok {e} (write_slot a f s)"
    using B by (simp add: core_ok_def groups_ok_def topology_ok_def identity_ok_def)
  show "e \<in> set (dr_order s)" using groups_okD(5) [OF B(1)] B(8) by blast
qed

lemma register_marked_ok:
  assumes ok: "registry_ok env s" and f: "keeps_place mark" and t: "register_marked env mark info s = (t, e)"
  shows "registry_ok env t" and "dr_entries t (di_address info) = Some e"
proof -
  have c: "core_ok {} s" and w: "witnesses_ok env s" using ok by (simp_all add: registry_ok_def)
  obtain s1 x retained where r: "register_locked info s = (s1, x, retained)" by (cases "register_locked info s")
  note R = register_locked_ok [OF c r]
  have "registry_ok env t \<and> dr_entries t (di_address info) = Some e"
  proof (cases retained)
    case True
    then show ?thesis using R(1) t ok by (simp add: register_marked_def r)
  next
    case False
    let ?f = "\<lambda>slot. mark (slot\<lparr>sl_device := Some x\<rparr>)"
    let ?s2 = "write_slot (di_address info) ?f s1"
    have b: "bound_ok (di_address info) x s1" and sf: "same_frame s s1" using R(2) False by simp_all
    have "attaches x ?f" using f by (simp add: attaches_def keeps_place_def)
    note A = attach_ok [OF b this]
    have x: "x \<in> set (dr_order ?s2)" using A(3) by simp
    have s3: "core_ok {} (sync_entry_faces x ?s2)" by (rule sync_ok [OF A(1,2) x])
    have w3: "dr_witnesses (sync_entry_faces x ?s2) = dr_witnesses s"
      using sf by (simp add: sync_entry_faces_eq [OF core_okD(2,1) [OF A(1)] x] same_frame_def)
    let ?s4 = "advance_generation (sync_entry_faces x ?s2)"
    have "keyless_zero ?s4" using witnesses_keyless [OF w] by (simp add: keyless_zero_def w3)
    then have "witnesses_ok env (reconcile_qualified_identity_witnesses env ?s4)" by (rule reconcile_ok)
    moreover have "core_ok {} (reconcile_qualified_identity_witnesses env ?s4)"
      using advance_ok [OF s3] by (subst core_ok_frame [of _ ?s4]) simp_all
    moreover have "dr_entries (sync_entry_faces x ?s2) (di_address info) = Some x"
      using b by (simp add: sync_entry_faces_eq [OF core_okD(2,1) [OF A(1)] x] bound_ok_def)
    ultimately show ?thesis
      using t False by (auto simp: register_marked_def r registry_ok_def)
  qed
  then show "registry_ok env t" "dr_entries t (di_address info) = Some e" by blast+
qed

definition observe_slot :: "go_time \<Rightarrow> entry_ref \<Rightarrow> discovery_source \<Rightarrow> verification_state \<Rightarrow> address_slot \<Rightarrow> address_slot" where
  "observe_slot now e source state slot0 =
     (let slot = raise_state state (record_discovery_source source (slot0\<lparr>sl_device := Some e\<rparr>));
          slot1 = (if sl_first slot = 0 then slot\<lparr>sl_first := now\<rparr> else slot)
      in slot1\<lparr>sl_last := now\<rparr>)"

lemma observe_address_slot_eq:
  "observe_address_slot now a e source state s = write_slot a (observe_slot now e source state) s"
  by (simp add: observe_address_slot_def observe_slot_def [abs_def])

lemma observe_attaches: "attaches e (observe_slot now e source state)"
  by (simp add: attaches_def observe_slot_def Let_def)

lemma observe_slot_place [simp]:
  "sl_addr (observe_slot now e source state slot) = sl_addr slot" "sl_device (observe_slot now e source state slot) = Some e"
  by (simp_all add: observe_slot_def Let_def)

text \<open>An active observation: the slot is stamped, the walk confirms, the faces follow.\<close>

definition observed ::
  "go_time \<Rightarrow> byte \<Rightarrow> verification_state \<Rightarrow> entry_ref \<Rightarrow> 'm device_registry \<Rightarrow> 'm device_registry" where
  "observed now a state e s =
     (let s2 = observe_address_slot now a e DiscoverySourceActiveConfirmed state s
      in sync_entry_faces e (if state = VerificationStateIdentityConfirmed
           then confirm_topology_identity_slots a e s2 else s2))"

definition observed_state :: "device_info \<Rightarrow> verification_state" where
  "observed_state info = (if is_qualified (canonical_physical_identity info)
     then VerificationStateIdentityConfirmed else VerificationStateCandidate)"

lemma dev_register_eq:
  "dev_register env now info s =
     (let (s1, e, retained) = register_locked info s
      in if retained then (s1, e)
         else (record_direct_qualified_identity_witness env info e (reconcile_qualified_identity_witnesses env
                 (advance_generation (observed now (di_address info) (observed_state info) e s1))), e))"
  by (simp add: dev_register_def observed_def observed_state_def Let_def split: prod.splits)

lemma observed_ok:
  assumes b: "bound_ok a e s"
  shows "core_ok {} (observed now a v e s)"
    and "same_frame s (observed now a v e s)"
    and "dr_entries (observed now a v e s) = dr_entries s"
    and "dr_identity (observed now a v e s) = dr_identity s"
    and "dr_topology (observed now a v e s) = dr_topology s"
    and "dr_order (observed now a v e s) = dr_order s"
    and "dr_heap (observed now a v e s) = (dr_heap s)(e := (entry_of s e)\<lparr>de_faces :=
           de_faces (entry_of (observed now a v e s) e)\<rparr>)"
    and "slot_at (observed now a v e s) x =
       (let slot = (if x = a then observe_slot now e DiscoverySourceActiveConfirmed v (slot_at s x) else slot_at s x)
        in if v = VerificationStateIdentityConfirmed \<and> (joined s e)\<^sup>*\<^sup>* a x
           then raise_state VerificationStateIdentityConfirmed slot else slot)"
proof -
  let ?a = a and ?q = "v = VerificationStateIdentityConfirmed"
  define f where "f = observe_slot now e DiscoverySourceActiveConfirmed v"
  define s2 where "s2 = write_slot ?a f s"
  define s3 where "s3 = (if ?q then confirm_topology_identity_slots ?a e s2 else s2)"
  have "attaches e f" by (simp add: f_def observe_attaches)
  note A = attach_ok [OF b this, folded s2_def]
  have w: "same_frame s s2" "dr_entries s2 = dr_entries s" "dr_heap s2 = dr_heap s" "dr_order s2 = dr_order s"
    "dr_identity s2 = dr_identity s" "dr_topology s2 = dr_topology s"
    "\<And>x. slot_at s2 x = (if x = ?a then f (slot_at s x) else slot_at s x)"
    by (simp_all add: s2_def same_frame_def)
  have a: "dr_entries s2 ?a = Some e" using b by (simp add: w bound_ok_def)
  obtain T where T: "confirm_topology_identity_slots ?a e s2 = s2\<lparr>dr_table := T\<rparr>"
    "\<forall>b. T b = (if (joined s2 e)\<^sup>*\<^sup>* ?a b
       then Some (raise_state VerificationStateIdentityConfirmed (slot_at s2 b)) else dr_table s2 b)"
    by (rule confirm_topology_exact [OF a])
  have j: "joined s2 = joined s" by (simp add: joined_def fun_eq_iff w)
  have "core_ok {e} s3" using A(1) confirm_topology_ok(1) [OF A(1) a] by (simp add: s3_def)
  moreover have "same_frame s s3" "dr_entries s3 = dr_entries s" "dr_heap s3 = dr_heap s"
      "dr_order s3 = dr_order s" "dr_identity s3 = dr_identity s" "dr_topology s3 = dr_topology s"
    using w by (simp_all add: s3_def T(1) same_frame_def)
  ultimately have s3: "core_ok {e} s3" "same_frame s s3" "dr_entries s3 = dr_entries s" "dr_heap s3 = dr_heap s"
      "dr_order s3 = dr_order s" "dr_identity s3 = dr_identity s" "dr_topology s3 = dr_topology s" by blast+
  have r: "observed now a v e s = sync_entry_faces e s3"
    by (simp add: observed_def observe_address_slot_eq s3_def s2_def f_def)
  have i: "infos_ok {} s3" using A(2) s3(4,5) w(3,4) by (simp add: infos_ok_def)
  have e: "e \<in> set (dr_order s3)" using A(3) s3(5) w(4) by simp
  note eq = r [unfolded sync_entry_faces_eq [OF core_okD(2,1) [OF s3(1)] e]]
  show "core_ok {} (observed now a v e s)" unfolding r by (rule sync_ok [OF s3(1) i e])
  show "same_frame s (observed now a v e s)" using s3(2) by (simp add: eq same_frame_def)
  show "dr_entries (observed now a v e s) = dr_entries s"
    "dr_identity (observed now a v e s) = dr_identity s"
    "dr_topology (observed now a v e s) = dr_topology s"
    "dr_order (observed now a v e s) = dr_order s" using s3 by (simp_all add: eq)
  show "dr_heap (observed now a v e s) = (dr_heap s)(e := (entry_of s e)\<lparr>de_faces :=
           de_faces (entry_of (observed now a v e s) e)\<rparr>)"
    unfolding eq update_entry_def using s3(4) by simp
  have "slot_at s3 x = (if ?q \<and> (joined s e)\<^sup>*\<^sup>* ?a x
      then raise_state VerificationStateIdentityConfirmed (slot_at s2 x) else slot_at s2 x)"
  proof (cases ?q)
    case True
    then have "dr_table s3 x = (if (joined s e)\<^sup>*\<^sup>* ?a x
       then Some (raise_state VerificationStateIdentityConfirmed (slot_at s2 x)) else dr_table s2 x)"
      using T(2) by (simp add: s3_def T(1) j)
    then show ?thesis using True by (simp add: slot_at_def)
  qed (simp add: s3_def)
  then show "slot_at (observed now a v e s) x =
       (let slot = (if x = a then observe_slot now e DiscoverySourceActiveConfirmed v (slot_at s x) else slot_at s x)
        in if v = VerificationStateIdentityConfirmed \<and> (joined s e)\<^sup>*\<^sup>* a x
           then raise_state VerificationStateIdentityConfirmed slot else slot)"
    unfolding eq by (simp add: Let_def w f_def)
qed

lemma dev_register_ok:
  assumes ok: "registry_ok env s" and t: "dev_register env now info s = (t, e)"
  shows "registry_ok env t" and "dr_entries t (di_address info) = Some e"
proof -
  have c: "core_ok {} s" and w: "witnesses_ok env s" using ok by (simp_all add: registry_ok_def)
  obtain s1 x retained where r: "register_locked info s = (s1, x, retained)" by (cases "register_locked info s")
  note R = register_locked_ok [OF c r]
  have "registry_ok env t \<and> dr_entries t (di_address info) = Some e"
  proof (cases retained)
    case True
    then show ?thesis using R(1) t ok by (simp add: dev_register_eq r)
  next
    case False
    then have b: "bound_ok (di_address info) x s1" and sf: "same_frame s s1" using R(2) by simp_all
    let ?s4 = "advance_generation (observed now (di_address info) (observed_state info) x s1)"
    note O = observed_ok [OF b, of now "observed_state info"]
    have "keyless_zero ?s4"
      using witnesses_keyless [OF w] O(2) sf by (simp add: keyless_zero_def same_frame_def)
    note W = record_direct_ok [OF reconcile_ok(1) [OF this, of env], of info x]
    let ?s6 = "record_direct_qualified_identity_witness env info x (reconcile_qualified_identity_witnesses env ?s4)"
    have "core_ok {} ?s6 = core_ok {} ?s4" by (rule core_ok_frame) simp_all
    then have "core_ok {} ?s6" using advance_ok [OF O(1)] by simp
    moreover have "t = ?s6 \<and> e = x" using t False by (auto simp: dev_register_eq r)
    ultimately show ?thesis using W O(3) b by (simp add: registry_ok_def bound_ok_def)
  qed
  then show "registry_ok env t" "dr_entries t (di_address info) = Some e" by blast+
qed

lemma bound_live:
  assumes ok: "core_ok {} s" and a: "dr_entries s a = Some e"
  shows "bound_ok a e s"
proof -
  note C = core_okD [OF ok]
  have "sl_addr (slot_at s a) = a" using slot_at_fits [of s a] C(2) by (simp add: slots_ok_def)
  moreover have "faces_ok {e} s" using core_ok_mono [OF ok, of "{e}"] by (simp add: core_ok_def)
  ultimately show ?thesis using C a by (simp add: bound_ok_def slots_ok_def)
qed

lemma confirm_scan_identity_eq:
  "confirm_scan_identity now a s = (case dr_entries s a of None \<Rightarrow> s
     | Some e \<Rightarrow> advance_generation (observed now a VerificationStateIdentityConfirmed e s))"
  by (simp add: confirm_scan_identity_def observed_def Let_def split: option.splits)

lemma confirm_scan_identity_ok:
  assumes ok: "registry_ok env s"
  shows "registry_ok env (confirm_scan_identity now a s)"
proof (cases "dr_entries s a")
  case (Some e)
  have c: "core_ok {} s" and w: "witnesses_ok env s" using ok by (simp_all add: registry_ok_def)
  let ?t = "observed now a VerificationStateIdentityConfirmed e s"
  note O = observed_ok [OF bound_live [OF c Some], of now VerificationStateIdentityConfirmed]
  obtain F where F: "dr_heap ?t = (dr_heap s)(e := (entry_of s e)\<lparr>de_faces := F\<rparr>)" using O(7) by blast
  have "witnesses_ok env ?t" by (rule witnesses_ok_cong [OF w O(2,3,4)]) (simp add: F)
  then show ?thesis using advanced_ok [OF O(1)] Some by (simp add: confirm_scan_identity_eq)
qed (use ok in \<open>simp add: confirm_scan_identity_eq\<close>)

lemma alias_addresses_ok:
  assumes ok: "registry_ok env s"
  shows "registry_ok env (alias_addresses env a b s)"
proof -
  have c: "core_ok {} s" and w: "witnesses_ok env s" using ok by (simp_all add: registry_ok_def)
  let ?t = "alias_joined a b s"
  let ?u = "if dr_entries ?t a \<noteq> None \<and> dr_entries ?t a = dr_entries ?t b then record_topology_alias a b ?t else ?t"
  note J = alias_joined_ok [OF c, of a b]
  have u: "core_ok {} ?u" "dr_witnesses ?u = dr_witnesses s"
    using J(1,3) record_topology_ok [OF J(1), of a b] by (simp_all add: same_frame_def)
  have "keyless_zero (advance_generation ?u)" using witnesses_keyless [OF w] u(2) by (simp add: keyless_zero_def)
  note R = reconcile_ok(1) [OF this, of env]
  have "core_ok {} (reconcile_qualified_identity_witnesses env (advance_generation ?u)) = core_ok {} (advance_generation ?u)"
    by (rule core_ok_frame) simp_all
  then show ?thesis
    using R advance_ok [OF u(1)] unfolding alias_addresses_eq Let_def registry_ok_def by blast
qed

lemma admit_passive_companion_ok:
  assumes ok: "registry_ok env s" and t: "admit_passive_companion env source tm s = (t, c)"
  shows "registry_ok env t"
  using assms mark_slot_ok [OF ok keeps_place_marks(1)]
  by (auto simp: admit_passive_companion_def admit_passive_companion_locked_def split: option.splits if_splits)

lemma register_provider_ok: "registry_ok env s \<Longrightarrow> registry_ok env (register_provider p s)"
proof -
  assume ok: "registry_ok env s"
  have "core_ok {} (register_provider p s) = core_ok {} s" by (rule core_ok_frame) (simp_all add: register_provider_def)
  moreover have "witness_valid env (register_provider p s) a r = witness_valid env s a r" for a r
    by (rule witness_valid_cong) (simp_all add: register_provider_def)
  ultimately show ?thesis using ok by (simp add: registry_ok_def witnesses_ok_def) (simp add: register_provider_def)
qed

section \<open>Steps\<close>

text \<open>The public operations that change the registry, each atomic under its lock.\<close>

inductive dev_step :: "protocol_env \<Rightarrow> 'm device_registry \<Rightarrow> 'm device_registry \<Rightarrow> bool" for env where
  step_provider: "dev_step env s (register_provider p s)"
| step_register: "dev_register env now info s = (t, e) \<Longrightarrow> dev_step env s t"
| step_static_seed: "register_static_seed env info role tm s = (t, e) \<Longrightarrow> dev_step env s t"
| step_passive: "register_passive_observed env info role tm s = (t, e) \<Longrightarrow> dev_step env s t"
| step_mark_seed: "dev_step env s (mark_slot_static_seed_at a role tm s)"
| step_mark_passive: "dev_step env s (mark_slot_passive_observed_at a role tm s)"
| step_confirm: "dev_step env s (confirm_scan_identity now a s)"
| step_alias: "dev_step env s (alias_addresses env a b s)"
| step_admit: "admit_passive_companion env source tm s = (t, c) \<Longrightarrow> dev_step env s t"

lemma dev_step_ok:
  assumes ok: "registry_ok env s" and step: "dev_step env s t"
  shows "registry_ok env t"
  using step
proof cases
  case step_provider
  then show ?thesis using register_provider_ok [OF ok] by simp
next
  case step_register
  then show ?thesis using dev_register_ok(1) [OF ok] by blast
next
  case (step_static_seed info role tm e)
  then show ?thesis unfolding register_static_seed_def by (rule register_marked_ok(1) [OF ok keeps_place_marks(2)])
next
  case (step_passive info role tm e)
  then show ?thesis unfolding register_passive_observed_def by (rule register_marked_ok(1) [OF ok keeps_place_marks(1)])
next
  case step_mark_seed
  then show ?thesis using mark_slot_ok [OF ok keeps_place_marks(2)] by (simp add: mark_slot_static_seed_at_def)
next
  case step_mark_passive
  then show ?thesis using mark_slot_ok [OF ok keeps_place_marks(1)] by (simp add: mark_slot_passive_observed_at_def)
next
  case step_confirm
  then show ?thesis using confirm_scan_identity_ok [OF ok] by simp
next
  case step_alias
  then show ?thesis using alias_addresses_ok [OF ok] by simp
next
  case step_admit
  then show ?thesis using admit_passive_companion_ok [OF ok] by blast
qed

interpretation dr: invariant_system "\<lambda>s. s = new_device_registry providers" "dev_step env" "registry_ok env"
  for providers env
  by unfold_locales (auto simp: new_registry_groups intro: dev_step_ok)

abbreviation dev_reachable :: "protocol_env \<Rightarrow> 'm plane_provider list \<Rightarrow> 'm device_registry \<Rightarrow> bool" where
  "dev_reachable env providers \<equiv> reach (\<lambda>s. s = new_device_registry providers) (dev_step env)"

end
