(* ===== verification/Reg_History.thy ===== *)
theory Reg_History
  imports Reg_Reach
begin

text \<open>
  What the operations do to the history of a slot and to the groups of other addresses: a slot
  keeps its role, source and first sighting once known and its state only rises, unless a complete
  contradicting triple detaches the address; a merge moves only the group of the observed address.
\<close>

section \<open>Slot histories\<close>

definition slot_history ::
  "address_slot \<Rightarrow> slot_role \<times> discovery_source \<times> verification_state \<times> go_time \<times> go_time" where
  "slot_history slot = (sl_role slot, sl_source slot, sl_state slot, sl_first slot, sl_last slot)"

definition history_le :: "address_slot \<Rightarrow> address_slot \<Rightarrow> bool" where
  "history_le x y \<longleftrightarrow> (sl_role x \<noteq> SlotRoleUnknown \<longrightarrow> sl_role y = sl_role x) \<and>
     (sl_source x \<noteq> DiscoverySourceUnknown \<longrightarrow> sl_source y = sl_source x) \<and>
     sl_state x \<le> sl_state y \<and> (sl_first x \<noteq> 0 \<longrightarrow> sl_first y = sl_first x)"

lemma history_refl [simp]: "history_le x x"
  by (simp add: history_le_def)

lemma history_trans [trans]: "history_le x y \<Longrightarrow> history_le y z \<Longrightarrow> history_le x z"
  by (auto simp: history_le_def)

lemma history_same: "slot_history x = slot_history y \<Longrightarrow> history_le x y"
  by (simp add: slot_history_def history_le_def)

lemma history_source: "history_le x (record_discovery_source v x)"
  by (simp add: history_le_def record_discovery_source_def)

lemma history_raise: "history_le x (raise_state v x)"
  by (simp add: history_le_def raise_state_def less_imp_le)

lemma history_role: "history_le x (learn_role v x)"
  by (simp add: history_le_def learn_role_def)

lemma history_times: "history_le x (stamp_times v x)"
  by (simp add: history_le_def stamp_times_def Let_def)

lemma history_marks [simp]:
  "history_le x (mark_slot_passive_observed role t x)" "history_le x (mark_slot_static_seed role t x)"
  unfolding mark_slot_passive_observed_def mark_slot_static_seed_def
  by (rule history_trans [OF history_trans [OF history_trans [OF history_source history_raise] history_role] history_times])+

lemma history_device [simp]: "slot_history (x\<lparr>sl_device := d\<rparr>) = slot_history x"
  by (simp add: slot_history_def)

lemma history_observe: "history_le x (observe_slot now e source v x)"
proof -
  let ?y = "raise_state v (record_discovery_source source (x\<lparr>sl_device := Some e\<rparr>))"
  have "history_le x (x\<lparr>sl_device := Some e\<rparr>)" by (rule history_same) simp
  also have "history_le \<dots> (record_discovery_source source (x\<lparr>sl_device := Some e\<rparr>))" by (rule history_source)
  also have "history_le \<dots> ?y" by (rule history_raise)
  also have "history_le ?y (observe_slot now e source v x)" by (simp add: observe_slot_def history_le_def Let_def)
  finally show ?thesis .
qed

section \<open>Registration\<close>

lemma register_locked_at:
  assumes ok: "core_ok {} s" and t: "register_locked info s = (t, e, False)"
  obtains m by_identity conflict where
    "core_ok {} (s\<lparr>dr_identity := m\<rparr>)" "register_at info by_identity conflict (s\<lparr>dr_identity := m\<rparr>) = (t, e)"
    "\<forall>i. by_identity = Some i \<longrightarrow> i \<in> set (dr_order s) \<and> m = dr_identity s \<and> \<not> conflict \<and>
       snd (current_identity_entry (identity_key (canonical_physical_identity info)) s) = Some i"
    "by_identity = None \<longrightarrow> \<not> conflict \<longrightarrow> gm_get m (identity_key (canonical_physical_identity info)) = None \<and>
       (identity_key (canonical_physical_identity info) \<noteq> [] \<longrightarrow>
          snd (current_identity_entry (identity_key (canonical_physical_identity info)) s) = None)"
    "conflict \<longrightarrow> (\<exists>c. snd (current_identity_entry (identity_key (canonical_physical_identity info)) s) = Some c \<and>
       \<not> can_merge_identity info (de_info (entry_of s c)))"
proof -
  let ?k = "identity_key (canonical_physical_identity info)"
  note C = core_okD [OF ok]
  have none: "gm_get (dr_identity s) [] = None"
    using identity_nonempty [OF C(6)] by (cases "gm_get (dr_identity s) []") auto
  show thesis
  proof (cases "?k = []")
    case True
    then have "register_at info None False (s\<lparr>dr_identity := dr_identity s\<rparr>) = (t, e)"
      using t by (auto simp: register_locked_def Let_def split: option.splits prod.splits)
    then show thesis using ok none True by (intro that [of "dr_identity s" None False]) simp_all
  next
    case False
    obtain u c where uc: "current_identity_entry ?k s = (u, c)" by (cases "current_identity_entry ?k s")
    note CC = current_identity_entry_cases [OF uc]
    obtain m where m: "u = s\<lparr>dr_identity := m\<rparr>" "gm_ok m"
        "\<forall>j. gm_get m j = (if j = ?k \<and> c = None then None else gm_get (dr_identity s) j)"
      using CC C(6) by (auto simp: identity_ok_def)
    obtain bi cf where a: "admit_identity_candidate u info c = (bi, cf)" by (cases "admit_identity_candidate u info c")
    have id: "identity_ok (s\<lparr>dr_identity := m\<rparr>)" using C(6) m by (auto simp: identity_ok_def)
    then have "core_ok {} (s\<lparr>dr_identity := m\<rparr>)"
      using ok by (simp add: core_ok_def groups_ok_def slots_ok_def slot_fits_def faces_ok_def expected_faces_def
          slot_at_def infos_ok_def topology_ok_def)
    moreover have "register_at info bi cf (s\<lparr>dr_identity := m\<rparr>) = (t, e)"
      using t False uc a m(1) by (auto simp: register_locked_def Let_def split: option.splits prod.splits if_splits)
    moreover have bc: "(bi = None \<longrightarrow> \<not> cf \<longrightarrow> c = None) \<and> (\<forall>i. bi = Some i \<longrightarrow> c = Some i \<and> \<not> cf) \<and>
        (cf \<longrightarrow> (\<exists>x. c = Some x \<and> \<not> can_merge_identity info (de_info (entry_of s x))))"
      using a m(1) by (auto simp: admit_identity_candidate_def split: option.splits if_splits)
    moreover have "c = Some i \<longrightarrow> i \<in> set (dr_order s) \<and> m = dr_identity s" for i
      using CC m(1) identity_okD(2) [OF C(6), of ?k i] by (cases s) auto
    moreover have "c = None \<longrightarrow> gm_get m ?k = None" using m(3) by simp
    ultimately show thesis using uc by (intro that [of m bi cf]) simp_all
  qed
qed

lemma leave_cases:
  assumes "s1 = leave_previous_group info selected by_identity (dr_entries s a) s" and "a = di_address info"
  obtains (stay) "s1 = s" "dr_entries s a = None \<or> dr_entries s a = selected"
    | (detach) p where "dr_entries s a = Some p" "selected \<noteq> Some p" "s1 = detach_address p a s"
    | (merge) p e where "dr_entries s a = Some p" "selected = Some e" "e \<noteq> p" "s1 = merge_registered_aliases e p s"
        "is_qualified (canonical_physical_identity info)" "compatible_alias_enrichment info (entry_of s p)"
proof (cases "dr_entries s a = None \<or> dr_entries s a = selected")
  case True
  then have "s1 = s" unfolding assms(1) leave_previous_group_def by (auto split: option.splits)
  then show thesis using True stay by blast
next
  case False
  then obtain p where p: "dr_entries s a = Some p" "selected \<noteq> Some p" by (metis not_None_eq)
  have "s1 = detach_address p a s \<or> (\<exists>e. selected = Some e \<and> s1 = merge_registered_aliases e p s \<and>
      is_stable_identity_key (identity_key (canonical_physical_identity info)) \<and>
      compatible_alias_enrichment info (entry_of s p))"
    using p unfolding assms leave_previous_group_def by (auto split: option.splits)
  moreover have "is_qualified (canonical_physical_identity info)"
    if "is_stable_identity_key (identity_key (canonical_physical_identity info))"
    using is_stable_nonempty [OF that] unfolding identity_key_nonempty .
  ultimately show thesis using p detach merge by blast
qed

text \<open>Addresses other than the observed one keep slot histories and groups, up to a merge.\<close>

definition group_moved :: "device_info \<Rightarrow> entry_ref \<Rightarrow> 'm device_registry \<Rightarrow> byte \<Rightarrow> bool" where
  "group_moved info e s b \<longleftrightarrow> is_qualified (canonical_physical_identity info) \<and>
     dr_entries s (di_address info) \<noteq> None \<and> dr_entries s b = dr_entries s (di_address info) \<and>
     compatible_alias_enrichment info (entry_of s (the (dr_entries s b)))"

lemma register_at_history:
  assumes ok: "core_ok {} s" and i: "\<And>i. by_identity0 = Some i \<Longrightarrow> i \<in> set (dr_order s)"
    and t: "register_at info by_identity0 conflict s = (t, e)"
  shows "b \<noteq> di_address info \<Longrightarrow> slot_history (slot_at t b) = slot_history (slot_at s b)"
    and "b \<noteq> di_address info \<Longrightarrow>
       dr_entries t b = dr_entries s b \<or> group_moved info e s b \<and> dr_entries t b = Some e"
    and "slot_history (slot_at t (di_address info)) = slot_history (slot_at s (di_address info)) \<or>
       slot_history (slot_at t (di_address info)) = slot_history (new_slot (di_address info)) \<and>
       dr_entries s (di_address info) \<notin> {None, Some e}"
proof -
  let ?a = "di_address info"
  obtain selected by_identity s1 s2 where sel: "select_entry info by_identity0 (dr_entries s ?a) s = (selected, by_identity)"
    and s1: "s1 = leave_previous_group info selected by_identity (dr_entries s ?a) s"
    and j: "join_entry ?a selected s1 = (s2, e)"
    and tt: "t = (let s4 = publish_current_identity_binding e (authority_for info (entry_of s2 e) conflict)
            (update_entry e (refresh_entry (dr_providers s2) (stored_info info (entry_of s2 e)
              (by_identity \<noteq> None \<and> by_identity \<noteq> dr_entries s ?a))) s2)
          in s4\<lparr>dr_entries := (dr_entries s4)(?a \<mapsto> e)\<rparr>)"
    by (rule register_at_unfold [OF t])
  note L = leave_ok [OF ok i sel s1]
  note G = groups_okD [OF core_okD(1) [OF ok]]
  have e1: "\<And>x. selected = Some x \<Longrightarrow> x \<in> set (dr_order s1)" using L(3) by blast
  note J = join_ok [OF L(1,2) e1 j]
  have id3: "identity_ok (update_entry e (refresh_entry ps st) s2)" for ps st using J(7) by (auto simp: identity_ok_def)
  have frame: "dr_entries t = (dr_entries s1)(?a \<mapsto> e)" "dr_table t = dr_table s1"
    by (simp_all add: tt Let_def publish_frame [OF id3] J(2,3))
  have slots: "slot_at t b = slot_at s1 b" for b by (simp add: slot_at_def frame)
  have e: "selected = Some e \<or> selected = None \<and> e = dr_next s"
    using j L(5) by (auto simp: join_entry_def Let_def split: option.splits)
  have all: "(b \<noteq> ?a \<longrightarrow> slot_history (slot_at s1 b) = slot_history (slot_at s b)) \<and>
      (b \<noteq> ?a \<longrightarrow> dr_entries s1 b = dr_entries s b \<or> group_moved info e s b \<and> dr_entries s1 b = Some e) \<and>
      (slot_history (slot_at s1 ?a) = slot_history (slot_at s ?a) \<or>
       slot_history (slot_at s1 ?a) = slot_history (new_slot ?a) \<and> dr_entries s ?a \<notin> {None, Some e})" for b
    using s1 refl
  proof (cases rule: leave_cases)
    case (detach p)
    note D = detach_ok [OF ok detach(1)]
    have "p \<in> set (dr_order s)" using G(5) detach(1) by blast
    then have "p \<noteq> e" using e detach(2) G(2) [of p] by auto
    then show ?thesis using detach(1) by (simp add: slot_at_def detach(3) D(2,3))
  next
    case (merge p x)
    have live: "x \<in> set (dr_order s)" "p \<in> set (dr_order s)"
      using select_entry_cases(1) [OF sel] i [of x] G(5) [of ?a x] G(5) [of ?a p] merge(1,2) by auto
    note M = merge_registered_ok [OF ok live merge(3)]
    have own: "dr_entries s b = Some p" if "b \<in> set (members_of s p)" for b using G(5) live(2) that by blast
    have "e = x" using e merge(2) by simp
    then show ?thesis using own [of b] merge(1,5,6) by (simp add: merge(4) M(2,8) group_moved_def)
  qed simp
  show "b \<noteq> di_address info \<Longrightarrow> slot_history (slot_at t b) = slot_history (slot_at s b)"
    "b \<noteq> di_address info \<Longrightarrow>
       dr_entries t b = dr_entries s b \<or> group_moved info e s b \<and> dr_entries t b = Some e"
    "slot_history (slot_at t (di_address info)) = slot_history (slot_at s (di_address info)) \<or>
       slot_history (slot_at t (di_address info)) = slot_history (new_slot (di_address info)) \<and>
       dr_entries s (di_address info) \<notin> {None, Some e}"
    using all [of b] by (simp_all add: frame slots)
qed

lemma register_locked_history:
  assumes ok: "core_ok {} s" and t: "register_locked info s = (t, e, False)"
  shows "b \<noteq> di_address info \<Longrightarrow> slot_history (slot_at t b) = slot_history (slot_at s b)"
    and "b \<noteq> di_address info \<Longrightarrow>
       dr_entries t b = dr_entries s b \<or> group_moved info e s b \<and> dr_entries t b = Some e"
    and "slot_history (slot_at t (di_address info)) = slot_history (slot_at s (di_address info)) \<or>
       slot_history (slot_at t (di_address info)) = slot_history (new_slot (di_address info)) \<and>
       dr_entries s (di_address info) \<notin> {None, Some e}"
proof -
  obtain m by_identity conflict where m: "core_ok {} (s\<lparr>dr_identity := m\<rparr>)"
    "register_at info by_identity conflict (s\<lparr>dr_identity := m\<rparr>) = (t, e)"
    "\<forall>i. by_identity = Some i \<longrightarrow> i \<in> set (dr_order s) \<and> m = dr_identity s \<and> \<not> conflict \<and>
       snd (current_identity_entry (identity_key (canonical_physical_identity info)) s) = Some i"
    by (rule register_locked_at [OF ok t])
  have live: "\<And>i. by_identity = Some i \<Longrightarrow> i \<in> set (dr_order (s\<lparr>dr_identity := m\<rparr>))" using m(3) by simp
  note H = register_at_history [OF m(1) live m(2)]
  have same: "slot_at (s\<lparr>dr_identity := m\<rparr>) = slot_at s" "group_moved info e (s\<lparr>dr_identity := m\<rparr>) b = group_moved info e s b" for b
    by (simp_all add: slot_at_def group_moved_def fun_eq_iff)
  show "b \<noteq> di_address info \<Longrightarrow> slot_history (slot_at t b) = slot_history (slot_at s b)"
    "b \<noteq> di_address info \<Longrightarrow>
       dr_entries t b = dr_entries s b \<or> group_moved info e s b \<and> dr_entries t b = Some e"
    "slot_history (slot_at t (di_address info)) = slot_history (slot_at s (di_address info)) \<or>
       slot_history (slot_at t (di_address info)) = slot_history (new_slot (di_address info)) \<and>
       dr_entries s (di_address info) \<notin> {None, Some e}"
    using H(1,2) [of b] H(3) by (simp_all add: same)
qed

section \<open>Steps\<close>

text \<open>
  The effect of registering an observation, whatever its kind: \<open>e\<close> answers for the address,
  histories only grow and groups move only by a merge.
\<close>

definition observation_effect :: "device_info \<Rightarrow> entry_ref \<Rightarrow> 'm device_registry \<Rightarrow> 'm device_registry \<Rightarrow> bool" where
  "observation_effect info e s t \<longleftrightarrow> dr_entries t (di_address info) = Some e \<and>
     (\<forall>b. b \<noteq> di_address info \<longrightarrow> history_le (slot_at s b) (slot_at t b) \<and>
        (dr_entries t b = dr_entries s b \<or> group_moved info e s b \<and> dr_entries t b = Some e)) \<and>
     (history_le (slot_at s (di_address info)) (slot_at t (di_address info)) \<or>
      dr_entries s (di_address info) \<notin> {None, Some e})"

lemma observation_effect_refl: "dr_entries s (di_address info) = Some e \<Longrightarrow> observation_effect info e s s"
  by (simp add: observation_effect_def)

lemma locked_effect:
  assumes ok: "core_ok {} s" and u: "register_locked info s = (u, e, False)"
    and ent: "dr_entries t = dr_entries u"
    and slot: "\<And>b. history_le (slot_at u b) (slot_at t b)"
  shows "observation_effect info e s t"
proof -
  note H = register_locked_history [OF ok u]
  have "dr_entries t (di_address info) = Some e"
    using register_locked_ok(2) [OF ok u] by (simp add: ent bound_ok_def)
  moreover have "history_le (slot_at s b) (slot_at t b) \<and>
        (dr_entries t b = dr_entries s b \<or> group_moved info e s b \<and> dr_entries t b = Some e)"
    if "b \<noteq> di_address info" for b
    using H(1,2) [OF that] history_trans [OF history_same slot] ent by metis
  moreover have "history_le (slot_at s (di_address info)) (slot_at t (di_address info)) \<or>
      dr_entries s (di_address info) \<notin> {None, Some e}"
    using H(3) history_trans [OF history_same slot] by metis
  ultimately show ?thesis by (simp add: observation_effect_def)
qed

lemma slot_at_frame: "dr_table t = dr_table s \<Longrightarrow> slot_at t b = slot_at s b"
  by (simp add: slot_at_def)

lemma dev_register_effect:
  assumes ok: "registry_ok env s" and t: "dev_register env now info s = (t, e)"
  shows "observation_effect info e s t"
proof -
  have c: "core_ok {} s" using ok by (simp add: registry_ok_def)
  obtain u x retained where r: "register_locked info s = (u, x, retained)" by (cases "register_locked info s")
  note R = register_locked_ok [OF c r]
  show ?thesis
  proof (cases retained)
    case True
    then show ?thesis using R(1) t observation_effect_refl by (auto simp: dev_register_eq r)
  next
    case False
    then have b: "bound_ok (di_address info) x u" using R(2) by simp
    let ?o = "observed now (di_address info) (observed_state info) x u"
    note O = observed_ok [OF b, of now "observed_state info"]
    have te: "t = record_direct_qualified_identity_witness env info x (reconcile_qualified_identity_witnesses env
        (advance_generation ?o))" "e = x"
      using t False by (auto simp: dev_register_eq r)
    have "slot_at t b = slot_at ?o b" for b by (rule slot_at_frame) (simp add: te)
    moreover have "history_le (slot_at u b) (slot_at ?o b)" for b
      unfolding O(8) Let_def using history_observe history_raise history_trans by (simp split: if_splits) blast
    ultimately show ?thesis
      using r False O(3) unfolding te(2) by (intro locked_effect [OF c, of _ u]) (simp_all add: te(1))
  qed
qed

lemma register_marked_effect:
  assumes ok: "registry_ok env s" and f: "keeps_place mark" and h: "\<And>x. history_le x (mark x)"
    and t: "register_marked env mark info s = (t, e)"
  shows "observation_effect info e s t"
proof -
  have c: "core_ok {} s" using ok by (simp add: registry_ok_def)
  obtain u x retained where r: "register_locked info s = (u, x, retained)" by (cases "register_locked info s")
  note R = register_locked_ok [OF c r]
  show ?thesis
  proof (cases retained)
    case True
    then show ?thesis using R(1) t observation_effect_refl by (auto simp: register_marked_def r)
  next
    case False
    then have b: "bound_ok (di_address info) x u" using R(2) by simp
    let ?f = "\<lambda>slot. mark (slot\<lparr>sl_device := Some x\<rparr>)"
    let ?w = "write_slot (di_address info) ?f u"
    have "attaches x ?f" using f by (simp add: attaches_def keeps_place_def)
    note A = attach_ok [OF b this]
    have x: "x \<in> set (dr_order ?w)" using A(3) by simp
    note S = sync_entry_faces_eq [OF core_okD(2,1) [OF A(1)] x]
    have te: "t = reconcile_qualified_identity_witnesses env (advance_generation (sync_entry_faces x ?w))" "e = x"
      using t False by (auto simp: register_marked_def r)
    have "slot_at t b = slot_at ?w b" for b by (rule slot_at_frame) (simp add: te S)
    moreover have "history_le (slot_at u b) (slot_at ?w b)" for b
      using h [of "(slot_at u b)\<lparr>sl_device := Some x\<rparr>"] history_same [of "slot_at u b" "(slot_at u b)\<lparr>sl_device := Some x\<rparr>"]
      by (auto intro: history_trans)
    ultimately show ?thesis
      using r False unfolding te(2) by (intro locked_effect [OF c, of _ u]) (simp_all add: te(1) S)
  qed
qed

lemma mark_slot_effect:
  assumes ok: "core_ok {} s" and f: "keeps_place f" and h: "\<And>x. history_le x (f x)"
  shows "dr_entries (mark_slot f a s) = dr_entries s" and "history_le (slot_at s b) (slot_at (mark_slot f a s) b)"
    and "dr_identity (mark_slot f a s) = dr_identity s" and "dr_topology (mark_slot f a s) = dr_topology s"
    and "dr_order (mark_slot f a s) = dr_order s"
    and "slot_at (mark_slot f a s) b = (if b = a then f (slot_at s a) else slot_at s b)"
proof -
  note C = core_okD [OF ok]
  let ?w = "write_slot a f s"
  have dev: "sl_device (slot_at ?w a) = dr_entries s a"
    using f slot_device [OF C(2)] by (simp add: keeps_place_def)
  have "dr_entries (mark_slot f a s) = dr_entries s \<and> dr_identity (mark_slot f a s) = dr_identity s \<and>
      dr_topology (mark_slot f a s) = dr_topology s \<and> dr_order (mark_slot f a s) = dr_order s \<and>
      dr_table (mark_slot f a s) = dr_table ?w"
  proof (cases "dr_entries s a")
    case None
    then show ?thesis using dev by (simp add: mark_slot_def Let_def)
  next
    case (Some e)
    have ce: "core_ok {e} ?w" using write_slot_ok [OF core_ok_mono [OF ok] f, of "{e}" a] Some by simp
    have "e \<in> set (dr_order ?w)" using groups_okD(5) [OF C(1)] Some by simp
    note S = sync_entry_faces_eq [OF core_okD(2,1) [OF ce] this]
    show ?thesis using dev Some by (simp add: mark_slot_def Let_def S)
  qed
  then show "dr_entries (mark_slot f a s) = dr_entries s" "history_le (slot_at s b) (slot_at (mark_slot f a s) b)"
    "dr_identity (mark_slot f a s) = dr_identity s" "dr_topology (mark_slot f a s) = dr_topology s"
    "dr_order (mark_slot f a s) = dr_order s"
    "slot_at (mark_slot f a s) b = (if b = a then f (slot_at s a) else slot_at s b)"
    using h slot_at_frame [of "mark_slot f a s" ?w b] by simp_all
qed

text \<open>Every step keeps the history of a slot, but for an address that a registration moves.\<close>

lemma dev_step_history:
  assumes ok: "registry_ok env s" and step: "dev_step env s t"
  shows "history_le (slot_at s b) (slot_at t b) \<or> dr_entries s b \<notin> {None, dr_entries t b}"
  using step
proof cases
  case step_provider
  then show ?thesis using slot_at_frame [of t s b] by (simp add: register_provider_def)
next
  case (step_register now info e)
  then show ?thesis using dev_register_effect [OF ok] by (cases "b = di_address info") (auto simp: observation_effect_def)
next
  case (step_static_seed info role tm e)
  then have "observation_effect info e s t"
    unfolding register_static_seed_def by (rule register_marked_effect [OF ok keeps_place_marks(2) history_marks(2)])
  then show ?thesis by (cases "b = di_address info") (auto simp: observation_effect_def)
next
  case (step_passive info role tm e)
  then have "observation_effect info e s t"
    unfolding register_passive_observed_def by (rule register_marked_effect [OF ok keeps_place_marks(1) history_marks(1)])
  then show ?thesis by (cases "b = di_address info") (auto simp: observation_effect_def)
next
  case step_mark_seed
  have c: "core_ok {} s" using ok by (simp add: registry_ok_def)
  show ?thesis using mark_slot_effect(2) [OF c keeps_place_marks(2) history_marks(2)]
    by (simp add: step_mark_seed mark_slot_static_seed_at_def)
next
  case step_mark_passive
  have c: "core_ok {} s" using ok by (simp add: registry_ok_def)
  show ?thesis using mark_slot_effect(2) [OF c keeps_place_marks(1) history_marks(1)]
    by (simp add: step_mark_passive mark_slot_passive_observed_at_def)
next
  case (step_confirm now a)
  have c: "core_ok {} s" using ok by (simp add: registry_ok_def)
  show ?thesis
  proof (cases "dr_entries s a")
    case (Some e)
    let ?o = "observed now a VerificationStateIdentityConfirmed e s"
    note O = observed_ok [OF bound_live [OF c Some], of now VerificationStateIdentityConfirmed]
    have "slot_at t b = slot_at ?o b" by (rule slot_at_frame) (simp add: step_confirm confirm_scan_identity_eq Some)
    moreover have "history_le (slot_at s b) (slot_at ?o b)"
      unfolding O(8) Let_def using history_observe history_raise history_trans by (simp split: if_splits) blast
    ultimately show ?thesis by simp
  qed (simp add: step_confirm confirm_scan_identity_eq)
next
  case (step_alias a b')
  have c: "core_ok {} s" using ok by (simp add: registry_ok_def)
  have "slot_at t b = slot_at (alias_joined a b' s) b"
    by (rule slot_at_frame) (simp add: step_alias alias_addresses_eq Let_def)
  then show ?thesis using alias_joined_ok(5) [OF c, of a b' b] by (simp add: history_le_def)
next
  case (step_admit source tm c)
  have k: "core_ok {} s" using ok by (simp add: registry_ok_def)
  have "t = s \<or> (\<exists>x. t = mark_slot (mark_slot_passive_observed SlotRoleSlave tm) x s)"
    using step_admit by (auto simp: admit_passive_companion_def admit_passive_companion_locked_def split: option.splits if_splits)
  then show ?thesis using mark_slot_effect(2) [OF k keeps_place_marks(1) history_marks(1)] by auto
qed

end
