(* ===== verification/Reg_Confirm.thy ===== *)
theory Reg_Confirm
  imports Reg_History
begin

text \<open>
  Registering a complete triple: unless a media address contradicts the entry of that triple, the
  identity index then binds the triple to the entry that answers for the address, and the address
  has a current witness.
\<close>

section \<open>The index after leaving a group\<close>

lemma remove_identity_sub:
  assumes "gm_ok (dr_identity s)" and "gm_get (dr_identity (remove_identity_bindings e s)) j = Some x"
  shows "gm_get (dr_identity s) j = Some x"
proof -
  obtain m where "remove_identity_bindings e s = update_entry e (\<lambda>x. x\<lparr>de_key_aliases := []\<rparr>) (s\<lparr>dr_identity := m\<rparr>)"
    "\<forall>j. gm_get m j = (if j = [] then gm_get (dr_identity s) j else without_entry e (dr_identity s) j)"
    using retain_eq [OF assms(1), of e "[]"] by (auto simp: remove_identity_bindings_def)
  then show ?thesis using assms(2) by (auto simp: without_entry_def split: if_splits)
qed

lemma sync_faces_identity [simp]: "dr_identity (fst (sync_faces e as s)) = dr_identity s"
  by (induction as arbitrary: s) (simp_all add: Let_def split: prod.splits, metis fst_conv ensure_selectors(5) write_slot_selectors(5))

lemma sync_entry_identity [simp]: "dr_identity (sync_entry_faces e s) = dr_identity s"
  using sync_faces_identity [of e "members_of s e" s]
  by (cases "sync_faces e (members_of s e) s") (simp add: sync_entry_faces_def)

lemma detach_identity_sub:
  assumes "gm_ok (dr_identity s)" and "gm_get (dr_identity (detach_address e a s)) j = Some x"
  shows "gm_get (dr_identity s) j = Some x"
proof -
  let ?s1 = "s\<lparr>dr_entries := (dr_entries s)(a := None)\<rparr>"
  define s2 where "s2 = (case dr_table ?s1 a of
      Some slot \<Rightarrow> if sl_device slot = Some e then ?s1\<lparr>dr_table := (dr_table ?s1)(a := None)\<rparr> else ?s1 | None \<Rightarrow> ?s1)"
  define s4 where "s4 = update_entry e (\<lambda>x. x\<lparr>de_addresses := remove_address (de_addresses x) a\<rparr>) (forget_topology_address a s2)"
  have 2: "dr_identity s2 = dr_identity s" by (simp add: s2_def split: option.splits)
  then have 4: "dr_identity s4 = dr_identity s" by (simp add: s4_def)
  have "detach_address e a s = (if \<not> contains_address (de_addresses (entry_of s2 e)) a then s2
      else if length (de_addresses (entry_of s4 e)) = 0
      then (remove_identity_bindings e s4)\<lparr>dr_order := remove_entry (dr_order (remove_identity_bindings e s4)) e\<rparr>
      else sync_entry_faces e (update_entry e (leave_primary a) s4))"
    by (simp only: detach_address_def Let_def s2_def s4_def)
  then consider "detach_address e a s = s2"
    | "dr_identity (detach_address e a s) = dr_identity (remove_identity_bindings e s4)"
    | "detach_address e a s = sync_entry_faces e (update_entry e (leave_primary a) s4)"
    by (cases "contains_address (de_addresses (entry_of s2 e)) a"; cases "length (de_addresses (entry_of s4 e)) = 0") simp_all
  then show ?thesis
  proof cases
    case 2
    then show ?thesis using remove_identity_sub [of s4 e j x] assms 4 by simp
  qed (use assms 2 4 in simp_all)
qed

lemma merge_identity_sub:
  assumes "gm_ok (dr_identity s)" and "gm_get (dr_identity (merge_registered_aliases d e s)) j = Some x"
  shows "gm_get (dr_identity s) j = Some x"
proof -
  let ?v = "move_addresses d (members_of (absorb_identity d e s) e) (absorb_identity d e s)"
  have "dr_identity ?v = dr_identity s" by (simp add: move_addresses_frame absorb_identity_def)
  moreover have "gm_get (dr_identity (remove_identity_bindings e ?v)) j = Some x"
    using assms(2) by (simp add: merge_registered_aliases_def Let_def)
  ultimately show ?thesis using remove_identity_sub [of ?v e j x] assms(1) by simp
qed

lemma merge_info:
  assumes "d \<noteq> e" and "gm_ok (dr_identity s)"
  shows "de_info (entry_of (merge_registered_aliases d e s) d) = absorb_info (de_info (entry_of s d)) (de_info (entry_of s e))"
proof -
  let ?u = "absorb_identity d e s"
  let ?v = "move_addresses d (members_of ?u e) ?u"
  have "gm_ok (dr_identity ?v)" using assms by (simp add: move_addresses_frame absorb_identity_def)
  from retain_eq [OF this, of e "[]"] have "de_info (entry_of (remove_identity_bindings e ?v) d) = de_info (entry_of ?v d)"
    by (auto simp: remove_identity_bindings_def)
  moreover have "de_info (entry_of ?v d) = absorb_info (de_info (entry_of s d)) (de_info (entry_of s e))"
    using assms by (simp add: move_addresses_frame absorb_identity_def absorb_entry_def Let_def)
  ultimately show ?thesis by (simp add: merge_registered_aliases_def Let_def)
qed

text \<open>A selected entry keeps the members of its description that it has.\<close>

definition keeps_members :: "device_info \<Rightarrow> device_info \<Rightarrow> bool" where
  "keeps_members i j \<longleftrightarrow>
     (di_manufacturer i \<noteq> [] \<longrightarrow> di_manufacturer j = di_manufacturer i) \<and>
     (di_device_id i \<noteq> [] \<longrightarrow> di_device_id j = di_device_id i) \<and>
     (di_serial_number i \<noteq> [] \<longrightarrow> di_serial_number j = di_serial_number i)"

lemma leave_selected:
  assumes ok: "core_ok {} s"
    and live: "\<And>x. selected = Some x \<Longrightarrow> x \<in> set (dr_order s)"
    and s1: "s1 = leave_previous_group info selected by_identity (dr_entries s (di_address info)) s"
  shows "gm_get (dr_identity s1) j = Some x \<Longrightarrow> gm_get (dr_identity s) j = Some x"
    and "selected = Some e \<Longrightarrow> keeps_members (de_info (entry_of s e)) (de_info (entry_of s1 e))"
proof -
  note gm = identity_okD(1) [OF core_okD(6) [OF ok]]
  have "(gm_get (dr_identity s1) j = Some x \<longrightarrow> gm_get (dr_identity s) j = Some x) \<and>
      (selected = Some e \<longrightarrow> keeps_members (de_info (entry_of s e)) (de_info (entry_of s1 e)))"
    using s1 refl
  proof (cases rule: leave_cases)
    case stay
    then show ?thesis by (simp add: keeps_members_def)
  next
    case (detach p)
    then show ?thesis
      using detach_identity_sub [OF gm] detach_ok(6) [OF ok detach(1), of e] by (auto simp: keeps_members_def)
  next
    case (merge p d)
    then show ?thesis
      using merge_identity_sub [OF gm] merge_info [OF merge(3) gm] by (auto simp: keeps_members_def absorb_info_def)
  qed
  then show "gm_get (dr_identity s1) j = Some x \<Longrightarrow> gm_get (dr_identity s) j = Some x"
    "selected = Some e \<Longrightarrow> keeps_members (de_info (entry_of s e)) (de_info (entry_of s1 e))" by blast+
qed

section \<open>The triple of the stored description\<close>

lemma qualified_parts:
  assumes "is_qualified (canonical_physical_identity info)"
  shows "di_manufacturer info \<noteq> []" "di_device_id info \<noteq> []" "di_serial_number info \<noteq> []"
  using assms by (auto simp: is_qualified_def canonical_physical_identity_def)

lemma join_info:
  assumes "join_entry a selected s = (t, e)" and "selected = Some d"
  shows "e = d" "de_info (entry_of t e) = de_info (entry_of s e)"
  using assms by (auto simp: join_entry_def split: if_splits)

lemma stored_triple:
  assumes q: "is_qualified (canonical_physical_identity info)"
    and old: "preserve \<Longrightarrow> normalize_identity_part (di_device_id (de_info x)) = normalize_identity_part (di_device_id info)"
  shows "triple_of (canonical_physical_identity (stored_info info x preserve)) = triple_of (canonical_physical_identity info)"
  using qualified_parts [OF q] old by (simp add: stored_info_def Let_def triple_of_def canonical_physical_identity_def)

lemma select_qualified:
  assumes "select_entry info (Some i) by_address s = (selected, by_identity)"
    and "is_qualified (canonical_physical_identity info)" and "can_merge_identity info (de_info (entry_of s i))"
  shows "selected = Some i \<and> by_identity = Some i"
  using assms by (auto simp: select_entry_def Let_def split: option.splits if_splits)

lemma register_at_identity:
  assumes ok: "core_ok {} s" and q: "is_qualified (canonical_physical_identity info)"
    and i: "\<And>i. by_identity0 = Some i \<Longrightarrow> gm_get (dr_identity s) (identity_key (canonical_physical_identity info)) = Some i \<and>
       identity_key (de_physical (entry_of s i)) = identity_key (canonical_physical_identity info) \<and>
       can_merge_identity info (de_info (entry_of s i))"
    and n: "by_identity0 = None \<Longrightarrow> gm_get (dr_identity s) (identity_key (canonical_physical_identity info)) = None"
    and t: "register_at info by_identity0 False s = (t, e)"
  shows "gm_get (dr_identity t) (identity_key (canonical_physical_identity info)) = Some e"
    and "de_key (entry_of t e) = identity_key (canonical_physical_identity info)"
    and "identity_key (de_physical (entry_of t e)) = identity_key (canonical_physical_identity info)"
    and "by_identity0 = Some d \<Longrightarrow> e = d"
proof -
  let ?a = "di_address info" and ?k = "identity_key (canonical_physical_identity info)"
  obtain selected by_identity s1 s2 where sel: "select_entry info by_identity0 (dr_entries s ?a) s = (selected, by_identity)"
    and s1: "s1 = leave_previous_group info selected by_identity (dr_entries s ?a) s"
    and j: "join_entry ?a selected s1 = (s2, e)"
    and tt: "t = (let s4 = publish_current_identity_binding e (authority_for info (entry_of s2 e) False)
            (update_entry e (refresh_entry (dr_providers s2) (stored_info info (entry_of s2 e)
              (by_identity \<noteq> None \<and> by_identity \<noteq> dr_entries s ?a))) s2)
          in s4\<lparr>dr_entries := (dr_entries s4)(?a \<mapsto> e)\<rparr>)"
    by (rule register_at_unfold [OF t])
  have il: "\<And>i. by_identity0 = Some i \<Longrightarrow> i \<in> set (dr_order s)"
    using i identity_okD(2) [OF core_okD(6) [OF ok]] by blast
  note L = leave_ok [OF ok il sel s1]
  have e1: "\<And>x. selected = Some x \<Longrightarrow> x \<in> set (dr_order s1)" using L(3) by blast
  note J = join_ok [OF L(1,2) e1 j]
  have live: "\<And>x. selected = Some x \<Longrightarrow> x \<in> set (dr_order s)"
    using select_entry_cases(1) [OF sel] il groups_okD(5) [OF core_okD(1) [OF ok], of ?a] by force
  note V = leave_selected [OF ok live s1]
  define st where "st = stored_info info (entry_of s2 e) (by_identity \<noteq> None \<and> by_identity \<noteq> dr_entries s ?a)"
  define s3 where "s3 = update_entry e (refresh_entry (dr_providers s2) st) s2"
  have kne: "?k \<noteq> []" using q by (simp add: identity_key_nonempty)
  have auth: "authority_for info (entry_of s2 e) False = ?k" using kne by (simp add: authority_for_def Let_def)
  have t4: "t = (let s4 = publish_current_identity_binding e ?k s3 in s4\<lparr>dr_entries := (dr_entries s4)(?a \<mapsto> e)\<rparr>)"
    unfolding tt auth s3_def st_def ..
  have id3: "identity_ok s3" using J(7) by (auto simp: identity_ok_def s3_def)
  have here: "selected = Some d \<and> by_identity = Some d" if "by_identity0 = Some d" for d
    using select_qualified [OF _ q] sel i [OF that] that by blast
  show same: "by_identity0 = Some d \<Longrightarrow> e = d" for d using join_info(1) [OF j] here by blast
  have dev: "normalize_identity_part (di_device_id (de_info (entry_of s2 e))) = normalize_identity_part (di_device_id info)"
    if pres: "by_identity \<noteq> None"
  proof -
    obtain d where d: "by_identity0 = Some d" "by_identity = Some d"
      using pres select_entry_cases(2) [OF sel] by auto
    then have ed: "e = d" "selected = Some d" using same here by blast+
    have dl: "d \<in> set (dr_order s)" using il d(1) by blast
    have "de_physical (entry_of s d) = canonical_physical_identity (de_info (entry_of s d))"
      using core_okD(4) [OF ok] dl by (simp add: infos_ok_def)
    then have k: "identity_key (canonical_physical_identity (de_info (entry_of s d))) = ?k" using i [OF d(1)] by simp
    then have "is_qualified (canonical_physical_identity (de_info (entry_of s d)))"
      using kne identity_key_nonempty by metis
    moreover have "keeps_members (de_info (entry_of s d)) (de_info (entry_of s1 d))" using V(2) ed(2) by blast
    ultimately have "di_device_id (de_info (entry_of s1 d)) = di_device_id (de_info (entry_of s d))"
      using qualified_parts(2) by (simp add: keeps_members_def)
    moreover have "triple_of (canonical_physical_identity info) = triple_of (canonical_physical_identity (de_info (entry_of s d)))"
      using identity_key_eq [OF q] k by metis
    ultimately show ?thesis
      using join_info(2) [OF j ed(2)] ed(1) by (simp add: triple_of_def canonical_physical_identity_def)
  qed
  have "identity_key (canonical_physical_identity st) = ?k"
    unfolding st_def by (rule identity_key_cong [OF stored_triple [OF q dev]]) simp
  then have phys: "identity_key (de_physical (entry_of s3 e)) = ?k" by (simp add: s3_def)
  have "\<not> publish_refused e ?k s3"
  proof -
    have "c = e" if c: "snd (current_identity_entry ?k s3) = Some c" for c
    proof -
      obtain u where "current_identity_entry ?k s3 = (u, Some c)" using c by (cases "current_identity_entry ?k s3") auto
      from current_identity_entry_cases [OF this] have "gm_get (dr_identity s3) ?k = Some c" by auto
      then have g: "gm_get (dr_identity s) ?k = Some c" using V(1) by (simp add: s3_def J(6))
      then obtain d where "by_identity0 = Some d" using n by (cases by_identity0) auto
      then show ?thesis using i [of d] same g by auto
    qed
    then show ?thesis by (auto simp: publish_refused_def split: option.splits)
  qed
  then have pk: "published_key e ?k s3 = ?k" by (simp add: published_key_def)
  obtain m where m: "publish_current_identity_binding e ?k s3 = update_entry e (rebind e ?k) (s3\<lparr>dr_identity := m\<rparr>)"
    "\<forall>j. gm_get m j = (if ?k \<noteq> [] \<and> j = ?k then Some e else without_entry e (dr_identity s3) j)"
    using publish_eq [OF id3, of e ?k, unfolded pk] by blast
  then show "gm_get (dr_identity t) ?k = Some e" using kne by (simp add: t4 Let_def)
  show "de_key (entry_of t e) = ?k" by (simp add: t4 Let_def m(1) rebind_def)
  show "identity_key (de_physical (entry_of t e)) = ?k" using phys by (simp add: t4 Let_def m(1) rebind_def)
qed

section \<open>Register with a complete triple\<close>

lemma lookup_current:
  "identity_key (canonical_physical_identity info) \<noteq> [] \<Longrightarrow>
     snd (current_identity_entry (identity_key (canonical_physical_identity info)) s) = lookup_by_identity s info"
  by (simp add: current_identity_entry_def lookup_by_identity_def Let_def)

lemma lookup_by_identity_iff:
  assumes "is_qualified (canonical_physical_identity info)"
  shows "lookup_by_identity s info = Some e \<longleftrightarrow>
     gm_get (dr_identity s) (identity_key (canonical_physical_identity info)) = Some e \<and>
     de_key (entry_of s e) = identity_key (canonical_physical_identity info) \<and>
     identity_key (de_physical (entry_of s e)) = identity_key (canonical_physical_identity info)"
proof -
  have k: "identity_key (canonical_physical_identity info) \<noteq> []" using assms by (simp add: identity_key_nonempty)
  then show ?thesis
    using identity_key_stable [OF k]
    by (auto simp: lookup_by_identity_def is_current_qualified_identity_key_def Let_def split: option.splits)
qed

text \<open>No entry of the same triple is contradicted by the media address of the observation.\<close>

definition uncontradicted :: "device_info \<Rightarrow> 'm device_registry \<Rightarrow> bool" where
  "uncontradicted info s \<longleftrightarrow>
     (\<forall>c. lookup_by_identity s info = Some c \<longrightarrow> can_merge_identity info (de_info (entry_of s c)))"

lemma uncontradicted_not_retained:
  assumes "uncontradicted info s" and "is_qualified (canonical_physical_identity info)"
    and "register_locked info s = (t, e, retained)"
  shows "\<not> retained"
proof -
  let ?k = "identity_key (canonical_physical_identity info)"
  have k: "?k \<noteq> []" using assms(2) by (simp add: identity_key_nonempty)
  obtain u c where uc: "current_identity_entry ?k s = (u, c)" by (cases "current_identity_entry ?k s")
  have c: "c = lookup_by_identity s info" using lookup_current [OF k, of s] uc by simp
  have "entry_of u = entry_of s" using current_identity_entry_cases [OF uc] by auto
  then have "\<not> snd (admit_identity_candidate u info c)"
    using assms(1) c by (auto simp: admit_identity_candidate_def uncontradicted_def split: option.splits)
  then show ?thesis
    using assms(3) k uc by (auto simp: register_locked_def Let_def split: option.splits prod.splits if_splits)
qed

lemma register_locked_identity:
  assumes ok: "core_ok {} s" and q: "is_qualified (canonical_physical_identity info)" and n: "uncontradicted info s"
    and t: "register_locked info s = (t, e, False)"
  shows "lookup_by_identity t info = Some e" and "lookup_by_identity s info = Some d \<Longrightarrow> e = d"
proof -
  let ?k = "identity_key (canonical_physical_identity info)"
  have k: "?k \<noteq> []" using q by (simp add: identity_key_nonempty)
  obtain m b c where at: "core_ok {} (s\<lparr>dr_identity := m\<rparr>)" "register_at info b c (s\<lparr>dr_identity := m\<rparr>) = (t, e)"
    "\<forall>i. b = Some i \<longrightarrow> i \<in> set (dr_order s) \<and> m = dr_identity s \<and> \<not> c \<and> snd (current_identity_entry ?k s) = Some i"
    "b = None \<longrightarrow> \<not> c \<longrightarrow> gm_get m ?k = None \<and> (?k \<noteq> [] \<longrightarrow> snd (current_identity_entry ?k s) = None)"
    "c \<longrightarrow> (\<exists>c. snd (current_identity_entry ?k s) = Some c \<and> \<not> can_merge_identity info (de_info (entry_of s c)))"
    by (rule register_locked_at [OF ok t])
  note cur = lookup_current [OF k, of s] and L = lookup_by_identity_iff [OF q]
  have c: "\<not> c" using at(5) n unfolding cur uncontradicted_def by blast
  have i: "gm_get (dr_identity (s\<lparr>dr_identity := m\<rparr>)) ?k = Some i \<and>
      identity_key (de_physical (entry_of (s\<lparr>dr_identity := m\<rparr>) i)) = ?k \<and>
      can_merge_identity info (de_info (entry_of (s\<lparr>dr_identity := m\<rparr>) i))" if "b = Some i" for i
    using at(3) that n L [of s i] unfolding cur uncontradicted_def by simp
  have none: "b = None \<Longrightarrow> gm_get (dr_identity (s\<lparr>dr_identity := m\<rparr>)) ?k = None" using at(4) c by simp
  have t': "register_at info b False (s\<lparr>dr_identity := m\<rparr>) = (t, e)" using at(2) c by simp
  note R = register_at_identity [OF at(1) q i none t']
  show "lookup_by_identity t info = Some e" unfolding L using R(1-3) by blast
  show "e = d" if d: "lookup_by_identity s info = Some d"
  proof (cases b)
    case None
    then show ?thesis using at(4) c k cur d by simp
  next
    case (Some i)
    then show ?thesis using at(3) d cur R(4) by auto
  qed
qed

lemma dev_register_confirms:
  assumes ok: "registry_ok env s" and q: "is_qualified (canonical_physical_identity info)" and n: "uncontradicted info s"
    and adr: "is_qualified_witness_address env (di_address info)"
    and gen: "dr_observation_generation s + 1 \<noteq> 0" "dr_proof_generation s + 1 \<noteq> 0"
    and t: "dev_register env now info s = (t, e)"
  shows "lookup_by_identity t info = Some e"
    and "with_current_qualified_identity_witness env t (di_address info) =
       Some (wr_witness (direct_witness (di_address info) (canonical_physical_identity info) t))"
    and "dr_observation_generation t = dr_observation_generation s + 1"
    and "dr_proof_generation t = dr_proof_generation s + 1"
proof -
  let ?a = "di_address info" and ?k = "identity_key (canonical_physical_identity info)"
  have c: "core_ok {} s" using ok by (simp add: registry_ok_def)
  have k: "?k \<noteq> []" using q by (simp add: identity_key_nonempty)
  obtain u x retained where r: "register_locked info s = (u, x, retained)" by (cases "register_locked info s")
  have nr: "\<not> retained" by (rule uncontradicted_not_retained [OF n q r])
  have b: "bound_ok ?a x u" "same_frame s u" using register_locked_ok(2) [OF c r nr] by simp_all
  have lu: "lookup_by_identity u info = Some x" using register_locked_identity(1) [OF c q n] r nr by simp
  let ?o = "observed now ?a (observed_state info) x u"
  note O = observed_ok [OF b(1), of now "observed_state info"]
  define v where "v = reconcile_qualified_identity_witnesses env (advance_generation ?o)"
  obtain F where F: "dr_heap ?o = (dr_heap u)(x := (entry_of u x)\<lparr>de_faces := F\<rparr>)" using O(7) by blast
  have v: "dr_entries v ?a = Some x" "dr_identity v = dr_identity u" "entry_of v x = (entry_of u x)\<lparr>de_faces := F\<rparr>"
    "dr_proof_generation v = dr_proof_generation s" "dr_observation_generation v = dr_observation_generation s + 1"
    using b O(2,3,4) by (simp_all add: v_def F same_frame_def bound_ok_def)
  have te: "t = record_direct_qualified_identity_witness env info x v" "e = x"
    using t nr by (auto simp: dev_register_eq r v_def)
  note L = lookup_by_identity_iff [OF q]
  have lv: "gm_get (dr_identity v) ?k = Some x" "is_current_qualified_identity_key v (Some x) ?k"
    using lu [unfolded L] identity_key_stable [OF k] by (simp_all add: v is_current_qualified_identity_key_def)
  let ?v1 = "v\<lparr>dr_proof_generation := dr_proof_generation v + 1\<rparr>"
  have t1: "t = ?v1\<lparr>dr_witnesses := (dr_witnesses ?v1)(?a := direct_witness ?a (canonical_physical_identity info) ?v1)\<rparr>"
    using adr k v(1) lv by (simp add: te record_direct_qualified_identity_witness_def Let_def)
  show "lookup_by_identity t info = Some e"
    unfolding L te(2) using lu [unfolded L] by (simp add: t1 v)
  show g: "dr_observation_generation t = dr_observation_generation s + 1" "dr_proof_generation t = dr_proof_generation s + 1"
    by (simp_all add: t1 v)
  have w: "dr_witnesses t ?a = direct_witness ?a (canonical_physical_identity info) t"
    by (simp add: t1 direct_witness_def)
  have "witnesses_ok env t" using dev_register_ok(1) [OF ok t] by (simp add: registry_ok_def)
  moreover have "dr_witnesses t ?a \<noteq> no_witness"
  proof
    assume "dr_witnesses t ?a = no_witness"
    then have "wr_key (dr_witnesses t ?a) = []" by simp
    then show False using k by (simp add: w direct_witness_def)
  qed
  ultimately have "witness_valid env t ?a (dr_witnesses t ?a)" by (auto simp: witnesses_ok_def)
  from valid_is_current [OF this] have "qualified_identity_witness_current env t ?a (wr_witness (dr_witnesses t ?a))"
    using gen by (simp add: w direct_witness_def g)
  then show "with_current_qualified_identity_witness env t ?a =
      Some (wr_witness (direct_witness ?a (canonical_physical_identity info) t))"
    by (simp add: with_current_qualified_identity_witness_def w Let_def)
qed

end
