(* ===== verification/Reg_Properties.thy ===== *)
theory Reg_Properties
  imports Reg_Confirm
begin

text \<open>
  What the device registry promises, over every sequence of its operations, with witnesses on a
  registry that has observed one appliance.
\<close>

section \<open>A sample\<close>

definition sample_env :: protocol_env where
  "sample_env = \<lparr>address_class_of = (\<lambda>a. if a = 0x10 then AddressClassMaster
       else if a = 0x15 \<or> a = 0x08 then AddressClassSlave else AddressClassOther),
     companion_of_source = (\<lambda>a. if a = 0x10 then Some 0x15 else None)\<rparr>"

definition sample_info :: device_info where
  "sample_info = \<lparr>di_address = 0x10, di_manufacturer = ''Vaillant'', di_device_id = ''BAI00'', di_serial_number = ''2117'',
     di_mac_address = ''AA'', di_software_version = ''0202'', di_hardware_version = ''9602''\<rparr>"

definition sample_start :: "nat device_registry" where
  "sample_start = new_device_registry []"

definition sample_seen :: "nat device_registry" where
  "sample_seen = fst (dev_register sample_env 5 sample_info sample_start)"

lemma sample_start_reachable: "dev_reachable sample_env [] sample_start"
  unfolding sample_start_def by (rule reach_init) (rule refl)

lemma sample_qualified: "is_qualified (canonical_physical_identity sample_info)"
  unfolding sample_info_def by code_simp

lemma sample_step: "dev_register sample_env 5 sample_info sample_start =
    (sample_seen, snd (dev_register sample_env 5 sample_info sample_start))"
  by (simp add: sample_seen_def)

lemma sample_seen_reachable: "dev_reachable sample_env [] sample_seen"
  by (rule reach_step [OF sample_start_reachable step_register [OF sample_step]])

lemma sample_ok: "registry_ok sample_env sample_start" "registry_ok sample_env sample_seen"
  using dr.reach_inv [OF sample_start_reachable] dr.reach_inv [OF sample_seen_reachable] by blast+

lemma sample_uncontradicted: "uncontradicted sample_info sample_start"
  by (simp add: uncontradicted_def lookup_by_identity_def sample_start_def new_device_registry_def
      is_current_qualified_identity_key_def Let_def)

lemma sample_class: "is_qualified_witness_address sample_env (di_address sample_info)"
  by (simp add: is_qualified_witness_address_def sample_env_def sample_info_def)

lemma sample_generations: "dr_observation_generation sample_start + 1 \<noteq> 0" "dr_proof_generation sample_start + 1 \<noteq> 0"
  by (simp_all add: sample_start_def new_device_registry_def)

lemmas sample_confirms = dev_register_confirms [OF sample_ok(1) sample_qualified sample_uncontradicted sample_class
    sample_generations sample_step]

lemma sample_bound: "\<exists>e. dr_entries sample_seen 0x10 = Some e"
  using dev_register_ok(2) [OF sample_ok(1) sample_step] by (simp add: sample_info_def)

section \<open>The invariant\<close>

lemma reachable_parts:
  assumes "dev_reachable env providers s"
  shows "groups_ok s" "slots_ok s" "faces_ok {} s" "infos_ok {} s" "topology_ok s" "identity_ok s" "witnesses_ok env s"
  using dr.reach_inv [OF assms] by (simp_all add: registry_ok_def core_ok_def)

text \<open>(C11)
  In every reachable registry the published entries partition the addresses: the address map
  sends an address to the one live entry that lists it, entries list no address twice and keep
  their primary address, and the slot of an address belongs to that address and points to the
  entry the map gives.
\<close>

theorem registry_partition:
  assumes "dev_reachable env providers s"
  shows "distinct (dr_order s) \<and>
     (\<forall>e \<in> set (dr_order s). distinct (de_addresses (entry_of s e)) \<and>
        de_primary (entry_of s e) \<in> set (de_addresses (entry_of s e))) \<and>
     (\<forall>a e. dr_entries s a = Some e \<longleftrightarrow> e \<in> set (dr_order s) \<and> a \<in> set (de_addresses (entry_of s e))) \<and>
     (\<forall>a slot. lookup_slot s a = Some slot \<longrightarrow> sl_addr slot = a \<and> sl_device slot = dev_lookup s a) \<and>
     (\<forall>a. dev_lookup s a \<noteq> None \<longrightarrow> lookup_slot s a \<noteq> None)"
proof -
  note R = reachable_parts [OF assms] and G = groups_okD [OF reachable_parts(1) [OF assms]]
  have "\<forall>a. slot_fits s a" using R(2) by (simp add: slots_ok_def)
  then have "(\<forall>a slot. lookup_slot s a = Some slot \<longrightarrow> sl_addr slot = a \<and> sl_device slot = dev_lookup s a) \<and>
     (\<forall>a. dev_lookup s a \<noteq> None \<longrightarrow> lookup_slot s a \<noteq> None)"
    unfolding slot_fits_def lookup_slot_def dev_lookup_def by metis
  moreover have "\<forall>e \<in> set (dr_order s). distinct (de_addresses (entry_of s e)) \<and>
      de_primary (entry_of s e) \<in> set (de_addresses (entry_of s e))" using G(3,4) by blast
  ultimately show ?thesis using G(1) by (simp add: G(5))
qed

theorem registry_partition_witness:
  "\<exists>e. e \<in> set (dr_order sample_seen) \<and> 0x10 \<in> set (de_addresses (entry_of sample_seen e))"
  using registry_partition [OF sample_seen_reachable] sample_bound by blast

text \<open>(C12)
  In every reachable registry the faces of an entry mirror the slots of its addresses in order,
  its description carries its primary address and its normalized identity, every key of the
  identity index selects a live entry that holds that key, and the alias topology is symmetric
  and has no loops.
\<close>

theorem registry_entries_synced:
  assumes "dev_reachable env providers s"
  shows "(\<forall>e \<in> set (dr_order s). let x = entry_of s e in
        de_faces x = map (\<lambda>a. face_of a (slot_at s a)) (de_addresses x) \<and>
        di_address (de_info x) = de_primary x \<and> de_physical x = canonical_physical_identity (de_info x)) \<and>
     (\<forall>k e. gm_get (dr_identity s) k = Some e \<longrightarrow> e \<in> set (dr_order s) \<and> de_key (entry_of s e) = k \<and> is_stable_identity_key k) \<and>
     (\<forall>a b. b \<in> set (dr_topology s a) \<longrightarrow> a \<in> set (dr_topology s b) \<and> a \<noteq> b)"
  using reachable_parts [OF assms]
  by (simp add: faces_ok_def infos_ok_def identity_ok_def topology_ok_def expected_faces_def Let_def)

theorem registry_entries_synced_witness:
  "\<exists>e. dr_entries sample_seen 0x10 = Some e \<and> di_address (de_info (entry_of sample_seen e)) = de_primary (entry_of sample_seen e)"
proof -
  obtain e where e: "dr_entries sample_seen 0x10 = Some e" using sample_bound by blast
  then have "e \<in> set (dr_order sample_seen)"
    using groups_okD(5) [OF reachable_parts(1) [OF sample_seen_reachable]] by blast
  then show ?thesis using registry_entries_synced [OF sample_seen_reachable] e by (auto simp: Let_def)
qed

section \<open>Identity witnesses\<close>

text \<open>(C13)
  A witness that \<open>WithCurrentQualifiedIdentityWitness\<close> hands out in a reachable registry is for the
  address asked, a master or slave, was recorded from a direct observation, and names exactly the
  normalized triple of the entry that the address and the identity index both resolve to.
\<close>

theorem current_witness_sound:
  assumes "dev_reachable env providers s"
    and "with_current_qualified_identity_witness env s a = Some w"
  shows "iw_address w = a \<and> iw_current w \<and> iw_immutable w \<and> iw_provenance w = provenance_direct \<and>
     address_class_of env a \<in> {AddressClassMaster, AddressClassSlave} \<and>
     (\<exists>e. dev_lookup s a = Some e \<and> e \<in> set (dr_order s) \<and>
        gm_get (dr_identity s) (de_key (entry_of s e)) = Some e \<and>
        triple_of (de_physical (entry_of s e)) =
          (ia_manufacturer (iw_authority w), ia_device_id (iw_authority w), ia_serial_number (iw_authority w)))"
proof -
  let ?r = "dr_witnesses s a"
  have w: "w = wr_witness ?r" "qualified_identity_witness_current env s a (wr_witness ?r)"
    using assms(2) by (auto simp: with_current_qualified_identity_witness_def Let_def split: if_splits)
  note V = current_is_valid [OF w(2), unfolded witness_valid_def Let_def]
  let ?p = "authority_identity (iw_authority w)"
  obtain e where e: "dr_entries s a = Some e" "de_key (entry_of s e) = wr_key ?r"
      "identity_key (de_physical (entry_of s e)) = wr_key ?r"
    using V by (auto simp: is_current_qualified_identity_key_def split: option.splits)
  have "identity_key ?p = identity_key (de_physical (entry_of s e))" "is_qualified ?p"
    using V e w(1) identity_key_nonempty by metis+
  then have "triple_of (de_physical (entry_of s e)) = triple_of ?p" using identity_key_eq by metis
  then show ?thesis
    using V e w(1) groups_okD(5) [OF reachable_parts(1) [OF assms(1)], of a e]
    by (auto simp: is_qualified_witness_address_def dev_lookup_def triple_of_def)
qed

theorem current_witness_sound_witness:
  "\<exists>w e. with_current_qualified_identity_witness sample_env sample_seen 0x10 = Some w \<and>
     dev_lookup sample_seen 0x10 = Some e \<and> ia_serial_number (iw_authority w) = ph_serial_number (de_physical (entry_of sample_seen e))"
proof -
  obtain w where w: "with_current_qualified_identity_witness sample_env sample_seen 0x10 = Some w"
    using sample_confirms(2) by (simp add: sample_info_def)
  show ?thesis using current_witness_sound [OF sample_seen_reachable w] w by (auto simp: triple_of_def)
qed

text \<open>(C14)
  Registering a complete triple that no media address contradicts, at a master or slave address,
  makes the identity index resolve the triple to the entry returned for the address, and leaves
  at the address a current witness of the normalized triple with the next observation and proof
  generations.
\<close>

theorem register_confirms_identity:
  assumes "dev_reachable env providers s" and "is_qualified (canonical_physical_identity info)"
    and "\<forall>c. lookup_by_identity s info = Some c \<longrightarrow> can_merge_identity info (de_info (entry_of s c))"
    and "is_qualified_witness_address env (di_address info)"
    and "dr_observation_generation s + 1 \<noteq> 0" and "dr_proof_generation s + 1 \<noteq> 0"
    and "dev_register env now info s = (t, e)"
  shows "dev_lookup t (di_address info) = Some e \<and> lookup_by_identity t info = Some e \<and>
     with_current_qualified_identity_witness env t (di_address info) = Some
       \<lparr>iw_address = di_address info,
        iw_authority = \<lparr>ia_manufacturer = normalize_identity_part (di_manufacturer info),
          ia_device_id = normalize_identity_part (di_device_id info),
          ia_serial_number = normalize_identity_part (di_serial_number info)\<rparr>,
        iw_provenance = provenance_direct, iw_current = True, iw_immutable = True,
        iw_observation_generation = dr_observation_generation s + 1,
        iw_proof_generation = dr_proof_generation s + 1\<rparr>"
proof -
  have ok: "registry_ok env s" by (rule dr.reach_inv [OF assms(1)])
  have "uncontradicted info s" using assms(3) by (simp add: uncontradicted_def)
  note D = dev_register_confirms [OF ok assms(2) this assms(4-7)]
  have "dev_lookup t (di_address info) = Some e" using dev_register_ok(2) [OF ok assms(7)] by (simp add: dev_lookup_def)
  then show ?thesis using D by (simp add: direct_witness_def canonical_physical_identity_def)
qed

theorem register_confirms_identity_witness:
  "\<exists>t e w. dev_register sample_env 5 sample_info sample_start = (t, e) \<and> lookup_by_identity t sample_info = Some e \<and>
     with_current_qualified_identity_witness sample_env t 0x10 = Some w \<and> iw_proof_generation w = 1"
proof -
  have "\<forall>c. lookup_by_identity sample_start sample_info = Some c \<longrightarrow>
      can_merge_identity sample_info (de_info (entry_of sample_start c))"
    using sample_uncontradicted by (simp add: uncontradicted_def)
  note R = register_confirms_identity [OF sample_start_reachable sample_qualified this sample_class sample_generations sample_step]
  have "di_address sample_info = 0x10" "dr_proof_generation sample_start + 1 = 1"
    by (simp_all add: sample_info_def sample_start_def new_device_registry_def)
  then show ?thesis using R by (subst sample_step) auto
qed

section \<open>Observations\<close>

lemma retained_locked:
  assumes "lookup_by_identity s info = Some c" and "\<not> can_merge_identity info (de_info (entry_of s c))"
    and "dr_entries s (di_address info) = Some e"
  shows "register_locked info s = (s, e, True)"
proof -
  let ?k = "identity_key (canonical_physical_identity info)"
  have k: "?k \<noteq> []" using assms(1) by (auto simp: lookup_by_identity_def Let_def)
  then have "current_identity_entry ?k s = (s, Some c)"
    using assms(1) by (auto simp: current_identity_entry_def lookup_by_identity_def Let_def split: if_splits)
  then show ?thesis
    using k assms by (simp add: register_locked_def admit_identity_candidate_def Let_def)
qed

text \<open>(C15)
  A complete triple whose media address contradicts the entry of that triple changes nothing at an
  address that already has an entry: all three registrations return that entry and the registry as
  it was, generations included.
\<close>

theorem contradiction_retained:
  assumes "lookup_by_identity s info = Some c" and "\<not> can_merge_identity info (de_info (entry_of s c))"
    and "dev_lookup s (di_address info) = Some e"
  shows "dev_register env now info s = (s, e) \<and> register_static_seed env info role tm s = (s, e) \<and>
     register_passive_observed env info role tm s = (s, e)"
  using retained_locked [OF assms(1,2) assms(3) [unfolded dev_lookup_def]]
  by (simp add: dev_register_def register_static_seed_def register_passive_observed_def register_marked_def)

definition sample_other :: device_info where
  "sample_other = sample_info\<lparr>di_mac_address := ''BB''\<rparr>"

definition sample_bound_state :: "nat device_registry" where
  "sample_bound_state = sample_start\<lparr>
     dr_heap := (\<lambda>_. (fresh_entry 0x10)\<lparr>de_info := sample_info, de_physical := canonical_physical_identity sample_info,
       de_key := identity_key (canonical_physical_identity sample_info)\<rparr>),
     dr_next := 1, dr_entries := [0x10 \<mapsto> 0], dr_order := [0],
     dr_identity := [(identity_key (canonical_physical_identity sample_info), 0)]\<rparr>"

theorem contradiction_retained_witness:
  "dev_register sample_env 9 sample_other sample_bound_state = (sample_bound_state, 0)"
proof -
  have q: "is_qualified (canonical_physical_identity sample_other)" unfolding sample_other_def sample_info_def by code_simp
  have k: "identity_key (canonical_physical_identity sample_other) = identity_key (canonical_physical_identity sample_info)"
    by (rule identity_key_cong) (simp add: triple_of_def canonical_physical_identity_def sample_other_def)
  have "lookup_by_identity sample_bound_state sample_other = Some 0"
    unfolding lookup_by_identity_iff [OF q] by (simp add: k sample_bound_state_def gm_get_def)
  moreover have "\<not> can_merge_identity sample_other sample_info" unfolding sample_other_def sample_info_def by code_simp
  then have "\<not> can_merge_identity sample_other (de_info (entry_of sample_bound_state 0))"
    by (simp add: sample_bound_state_def)
  moreover have "dev_lookup sample_bound_state (di_address sample_other) = Some 0"
    by (simp add: dev_lookup_def sample_bound_state_def sample_other_def sample_info_def)
  ultimately show ?thesis by (rule contradiction_retained [THEN conjunct1])
qed

text \<open>(C16)
  \<open>Register\<close> binds the address to the entry it returns and touches the group of another address
  only by merging the previous group of the observed address into that entry, which takes a
  complete triple that is compatible with the group. Every other slot keeps a role, source and
  first sighting it has, and its verification state does not fall.
\<close>

theorem register_frame:
  assumes "dev_reachable env providers s" and "dev_register env now info s = (t, e)"
  shows "dev_lookup t (di_address info) = Some e \<and>
     (\<forall>b. b \<noteq> di_address info \<longrightarrow>
        (dev_lookup t b = dev_lookup s b \<or>
         dev_lookup t b = Some e \<and> is_qualified (canonical_physical_identity info) \<and>
         (\<exists>p. dev_lookup s b = Some p \<and> dev_lookup s (di_address info) = Some p \<and>
            compatible_alias_enrichment info (entry_of s p))) \<and>
        history_le (slot_at s b) (slot_at t b))"
proof -
  have "observation_effect info e s t" by (rule dev_register_effect [OF dr.reach_inv [OF assms(1)] assms(2)])
  moreover have "\<exists>p. dr_entries s b = Some p \<and> dr_entries s (di_address info) = Some p \<and>
      compatible_alias_enrichment info (entry_of s p)" if "group_moved info e s b" for b
    using that by (auto simp: group_moved_def)
  moreover have "is_qualified (canonical_physical_identity info)" if "group_moved info e s b" for b
    using that by (simp add: group_moved_def)
  ultimately show ?thesis unfolding observation_effect_def dev_lookup_def by blast
qed

theorem register_frame_witness: "dev_lookup sample_seen 0x15 = None \<and> dev_lookup sample_seen 0x10 \<noteq> None"
proof -
  note R = register_frame [OF sample_start_reachable sample_step]
  have "dev_lookup sample_start 0x15 = None" by (simp add: dev_lookup_def sample_start_def new_device_registry_def)
  moreover have "(0x15 :: byte) \<noteq> di_address sample_info" by (simp add: sample_info_def)
  ultimately have "dev_lookup sample_seen 0x15 = None" using R [THEN conjunct2, rule_format, of "0x15"] by simp
  moreover have "dev_lookup sample_seen 0x10 \<noteq> None" using R by (simp add: sample_info_def)
  ultimately show ?thesis by blast
qed

text \<open>  No operation on a reachable registry forgets what a slot has seen: its role, its first discovery
  source and its first sighting never change once known and its verification state never falls,
  except at an address that a registration moves to another entry.
\<close>

theorem slot_history_sticky:
  assumes "dev_reachable env providers s" and "dev_step env s t"
    and "dev_lookup s a = None \<or> dev_lookup t a = dev_lookup s a"
  shows "(sl_role (slot_at s a) \<noteq> SlotRoleUnknown \<longrightarrow> sl_role (slot_at t a) = sl_role (slot_at s a)) \<and>
     (sl_source (slot_at s a) \<noteq> DiscoverySourceUnknown \<longrightarrow> sl_source (slot_at t a) = sl_source (slot_at s a)) \<and>
     sl_state (slot_at s a) \<le> sl_state (slot_at t a) \<and>
     (sl_first (slot_at s a) \<noteq> 0 \<longrightarrow> sl_first (slot_at t a) = sl_first (slot_at s a))"
  using dev_step_history [OF dr.reach_inv [OF assms(1)] assms(2), of a] assms(3)
  by (auto simp: history_le_def dev_lookup_def)

theorem slot_history_sticky_witness:
  "sl_state (slot_at sample_seen 0x10) \<le> sl_state (slot_at (mark_slot_static_seed_at 0x10 SlotRoleMaster 7 sample_seen) 0x10)"
proof -
  let ?t = "mark_slot_static_seed_at 0x10 SlotRoleMaster 7 sample_seen"
  have c: "core_ok {} sample_seen" using sample_ok(2) by (simp add: registry_ok_def)
  have "dev_lookup ?t 0x10 = dev_lookup sample_seen 0x10"
    using mark_slot_effect(1) [OF c keeps_place_marks(2) history_marks(2)]
    by (simp add: mark_slot_static_seed_at_def dev_lookup_def)
  then show ?thesis using slot_history_sticky [OF sample_seen_reachable step_mark_seed] by blast
qed

text \<open>(C17)
  The walk that a confirmed observation starts ends, and it raises to identity-confirmed exactly
  the slots that recorded topology joins to the address through addresses of its own entry. No
  address changes its entry.
\<close>

theorem confirmation_exact:
  assumes "dev_reachable env providers s" and "dev_lookup s a = Some e"
  shows "dr_entries (confirm_scan_identity now a s) = dr_entries s \<and>
     (\<forall>b. sl_state (slot_at (confirm_scan_identity now a s) b) =
        (if (\<lambda>x y. y \<in> set (dr_topology s x) \<and> dev_lookup s y = Some e)\<^sup>*\<^sup>* a b
         then VerificationStateIdentityConfirmed else sl_state (slot_at s b)))"
proof -
  have c: "core_ok {} s" using dr.reach_inv [OF assms(1)] by (simp add: registry_ok_def)
  have a: "dr_entries s a = Some e" using assms(2) by (simp add: dev_lookup_def)
  let ?o = "observed now a VerificationStateIdentityConfirmed e s"
  note O = observed_ok [OF bound_live [OF c a], of now VerificationStateIdentityConfirmed]
  have t: "confirm_scan_identity now a s = advance_generation ?o" by (simp add: confirm_scan_identity_eq a)
  have max: "v \<le> VerificationStateIdentityConfirmed" for v by (cases v) (simp_all add: less_eq_verification_state_def)
  have raise: "sl_state (raise_state VerificationStateIdentityConfirmed slot) = VerificationStateIdentityConfirmed" for slot
    using max [of "sl_state slot"] by (auto simp: raise_state_def)
  have j: "(\<lambda>x y. y \<in> set (dr_topology s x) \<and> dev_lookup s y = Some e) = joined s e"
    by (simp add: joined_def dev_lookup_def fun_eq_iff)
  have "sl_state (slot_at (confirm_scan_identity now a s) b) =
      (if (joined s e)\<^sup>*\<^sup>* a b then VerificationStateIdentityConfirmed else sl_state (slot_at s b))" for b
  proof -
    have "slot_at (confirm_scan_identity now a s) b = slot_at ?o b" by (rule slot_at_frame) (simp add: t)
    then show ?thesis unfolding O(8) by (cases "b = a") (simp_all add: Let_def raise)
  qed
  moreover have "dr_entries (confirm_scan_identity now a s) = dr_entries s" by (simp add: t O(3))
  ultimately show ?thesis unfolding j by blast
qed

theorem confirmation_exact_witness:
  "sl_state (slot_at (confirm_scan_identity 9 0x10 sample_seen) 0x10) = VerificationStateIdentityConfirmed"
proof -
  obtain e where "dev_lookup sample_seen 0x10 = Some e" using sample_bound by (auto simp: dev_lookup_def)
  from confirmation_exact [OF sample_seen_reachable this, of 9] show ?thesis by simp
qed

text \<open>  \<open>AliasAddresses\<close> puts both addresses into one group, that of the first address when it has one
  and that of the second otherwise, joins them in the topology when they are distinct, leaves every
  other address in its group and keeps the history of all slots. With no group on either side no
  address changes.
\<close>

theorem alias_addresses_joins:
  assumes "dev_reachable env providers s"
  shows "let t = alias_addresses env a b s;
             owner = (if dev_lookup s a \<noteq> None then dev_lookup s a else dev_lookup s b)
         in (\<forall>x. dev_lookup t x = (if owner \<noteq> None \<and> x \<in> {a, b} then owner else dev_lookup s x)) \<and>
            (\<forall>x y. y \<in> set (dr_topology t x) \<longleftrightarrow>
               y \<in> set (dr_topology s x) \<or> owner \<noteq> None \<and> a \<noteq> b \<and> (x = a \<and> y = b \<or> x = b \<and> y = a)) \<and>
            (\<forall>x. slot_history (slot_at t x) = slot_history (slot_at s x))"
proof -
  have c: "core_ok {} s" using dr.reach_inv [OF assms] by (simp add: registry_ok_def)
  note J = alias_joined_ok [OF c, of a b]
  let ?j = "alias_joined a b s" and ?t = "alias_addresses env a b s"
  have ent: "dr_entries ?t x = (if alias_owner a b s \<noteq> None \<and> x \<in> {a, b} then alias_owner a b s else dr_entries s x)" for x
    using J(2) by (cases "alias_owner a b s") (auto simp: alias_addresses_eq Let_def)
  have same: "(dr_entries ?j a \<noteq> None \<and> dr_entries ?j a = dr_entries ?j b) = (alias_owner a b s \<noteq> None)"
    using J(2) by (cases "alias_owner a b s") (auto simp: alias_owner_def split: if_splits)
  have top: "y \<in> set (dr_topology ?t x) \<longleftrightarrow>
      y \<in> set (dr_topology s x) \<or> alias_owner a b s \<noteq> None \<and> a \<noteq> b \<and> (x = a \<and> y = b \<or> x = b \<and> y = a)" for x y
    unfolding alias_addresses_eq Let_def same by (cases "alias_owner a b s") (auto simp: record_topology_edges J(4))
  have hist: "slot_history (slot_at ?t x) = slot_history (slot_at s x)" for x
    using J(5) [of x] slot_at_frame [of ?t ?j x] by (simp add: alias_addresses_eq Let_def slot_history_def)
  show ?thesis using ent top hist unfolding Let_def dev_lookup_def alias_owner_def by blast
qed

theorem alias_addresses_joins_witness:
  "dev_lookup (alias_addresses sample_env 0x15 0x10 sample_seen) 0x15 = dev_lookup sample_seen 0x10 \<and>
   dev_lookup sample_seen 0x10 \<noteq> None"
proof -
  have b: "dev_lookup sample_seen 0x10 \<noteq> None" using sample_bound by (auto simp: dev_lookup_def)
  have "dev_lookup sample_seen 0x15 = None"
    using dev_register_effect [OF sample_ok(1) sample_step]
    by (auto simp: observation_effect_def dev_lookup_def sample_info_def sample_start_def new_device_registry_def group_moved_def)
  then show ?thesis
    using alias_addresses_joins [OF sample_seen_reachable, where a = "0x15" and b = "0x10"] b
    by (simp add: Let_def)
qed

text \<open>  A passive companion is admitted exactly for a time that is set, a source with a companion, a
  current witness of the source and a companion slot whose role is unknown or slave. Then the
  companion is a slave at least corroborated, no other slot and no group changes and one generation
  passes; otherwise the registry is as it was.
\<close>

theorem passive_companion_exact:
  assumes "dev_reachable env providers s" and "admit_passive_companion env source tm s = (t, c)"
  shows "c = (if tm = 0 \<or> with_current_qualified_identity_witness env s source = None then None
      else case companion_of_source env source of None \<Rightarrow> None
        | Some x \<Rightarrow> if sl_role (slot_at s x) \<in> {SlotRoleUnknown, SlotRoleSlave} then Some x else None) \<and>
    (case c of None \<Rightarrow> t = s
     | Some x \<Rightarrow> sl_role (slot_at t x) = SlotRoleSlave \<and> VerificationStateCorroborated \<le> sl_state (slot_at t x) \<and>
         (\<forall>y. y \<noteq> x \<longrightarrow> slot_at t y = slot_at s y) \<and> dr_entries t = dr_entries s)"
proof -
  have k: "core_ok {} s" using dr.reach_inv [OF assms(1)] by (simp add: registry_ok_def)
  let ?q = "qualified_identity_witness_current env s source (wr_witness (dr_witnesses s source))"
  let ?m = "mark_slot_passive_observed SlotRoleSlave tm"
  have role: "(case dr_table s x of None \<Rightarrow> False | Some slot \<Rightarrow> sl_role slot \<noteq> SlotRoleUnknown \<and> sl_role slot \<noteq> SlotRoleSlave)
      = (sl_role (slot_at s x) \<notin> {SlotRoleUnknown, SlotRoleSlave})" for x
    by (cases "dr_table s x") (simp_all add: slot_at_simps new_slot_def)
  have w: "with_current_qualified_identity_witness env s source = None \<longleftrightarrow> \<not> ?q"
    by (simp add: with_current_qualified_identity_witness_def Let_def)
  have marked: "sl_role (?m slot) = SlotRoleSlave" if "sl_role slot \<in> {SlotRoleUnknown, SlotRoleSlave}" for slot
    using that by (auto simp: mark_slot_passive_observed_def stamp_times_def learn_role_def raise_state_def
        record_discovery_source_def Let_def)
  have high: "VerificationStateCorroborated \<le> sl_state (?m slot)" for slot
    by (cases "sl_state slot") (auto simp: mark_slot_passive_observed_def stamp_times_def learn_role_def raise_state_def
        record_discovery_source_def Let_def less_eq_verification_state_def less_verification_state_def)
  note M = mark_slot_effect [OF k keeps_place_marks(1) history_marks(1)]
  show ?thesis
  proof (cases "tm = 0 \<or> \<not> ?q \<or> companion_of_source env source = None")
    case True
    then show ?thesis
      using assms(2) unfolding w
      by (auto simp: admit_passive_companion_def admit_passive_companion_locked_def split: option.splits if_splits)
  next
    case False
    then obtain x where x: "companion_of_source env source = Some x" by auto
    show ?thesis
    proof (cases "sl_role (slot_at s x) \<in> {SlotRoleUnknown, SlotRoleSlave}")
      case True
      then have "t = mark_slot ?m x s" "c = Some x"
        using assms(2) False x by (auto simp: admit_passive_companion_def admit_passive_companion_locked_def role)
      then show ?thesis unfolding w using True False x marked high M(1,6) by simp
    next
      case no: False
      then have "t = s \<and> c = None"
        using assms(2) False x by (auto simp: admit_passive_companion_def admit_passive_companion_locked_def role)
      then show ?thesis unfolding w using no False x by simp
    qed
  qed
qed

text \<open>An active registration teaches no slot a role.\<close>

lemma dev_register_role:
  assumes ok: "registry_ok env s" and t: "dev_register env now info s = (t, e)"
  shows "sl_role (slot_at t b) \<in> {SlotRoleUnknown, sl_role (slot_at s b)}"
proof -
  have c: "core_ok {} s" using ok by (simp add: registry_ok_def)
  obtain u x retained where r: "register_locked info s = (u, x, retained)" by (cases "register_locked info s")
  note R = register_locked_ok [OF c r]
  show ?thesis
  proof (cases retained)
    case True
    then show ?thesis using R(1) t by (simp add: dev_register_eq r)
  next
    case False
    then have b: "bound_ok (di_address info) x u" using R(2) by simp
    let ?o = "observed now (di_address info) (observed_state info) x u"
    note O = observed_ok [OF b, of now "observed_state info"]
    have u: "sl_role (slot_at u b) \<in> {SlotRoleUnknown, sl_role (slot_at s b)}"
      using register_locked_history [OF c, of info u x] r False
      by (cases "b = di_address info") (auto simp: slot_history_def new_slot_def)
    have "t = record_direct_qualified_identity_witness env info x (reconcile_qualified_identity_witnesses env
        (advance_generation ?o))"
      using t False by (auto simp: dev_register_eq r)
    then have "slot_at t b = slot_at ?o b" by (intro slot_at_frame) simp
    moreover have "sl_role (slot_at ?o b) = sl_role (slot_at u b)"
      unfolding O(8) by (simp add: Let_def observe_slot_def raise_state_def record_discovery_source_def)
    ultimately show ?thesis using u by simp
  qed
qed

theorem passive_companion_exact_witness:
  "\<exists>t. admit_passive_companion sample_env 0x10 9 sample_seen = (t, Some 0x15) \<and> sl_role (slot_at t 0x15) = SlotRoleSlave"
proof -
  obtain t c where t: "admit_passive_companion sample_env 0x10 9 sample_seen = (t, c)"
    by (cases "admit_passive_companion sample_env 0x10 9 sample_seen")
  have "sl_role (slot_at sample_seen 0x15) = SlotRoleUnknown"
    using dev_register_role [OF sample_ok(1) sample_step, of "0x15"]
    by (simp add: sample_start_def slot_at_def new_device_registry_def new_slot_def)
  moreover have "with_current_qualified_identity_witness sample_env sample_seen 0x10 \<noteq> None"
    using sample_confirms(2) by (simp add: sample_info_def)
  moreover have "companion_of_source sample_env 0x10 = Some 0x15" by (simp add: sample_env_def)
  ultimately have "c = Some 0x15" using passive_companion_exact [OF sample_seen_reachable t] by simp
  then show ?thesis using passive_companion_exact [OF sample_seen_reachable t] t by auto
qed

section \<open>Blank members\<close>

text \<open>
  A refresh whose manufacturer is only white space is accepted as omitting the manufacturer, so the
  entry keeps its key, yet the stored description takes the blank manufacturer and no longer has a
  key: the binding stays in the index and is not current.
\<close>

lemma blank_member_drops_identity:
  "let blank = sample_info\<lparr>di_manufacturer := '' '', di_device_id := [], di_serial_number := []\<rparr>;
       x = entry_of sample_bound_state 0;
       stored = stored_info blank x False
   in de_key x \<noteq> [] \<and> authority_for blank x False = de_key x \<and>
      identity_key (canonical_physical_identity stored) = []"
proof -
  let ?blank = "sample_info\<lparr>di_manufacturer := '' '', di_device_id := [], di_serial_number := []\<rparr>"
  let ?x = "entry_of sample_bound_state 0"
  have k: "identity_key (canonical_physical_identity sample_info) \<noteq> []"
    using sample_qualified by (simp add: identity_key_nonempty)
  have norm: "normalize_identity_part '' '' = []" by code_simp
  then have c: "ph_manufacturer (canonical_physical_identity ?blank) = []" "ph_device_id (canonical_physical_identity ?blank) = []"
    "ph_serial_number (canonical_physical_identity ?blank) = []"
    by (simp_all add: canonical_physical_identity_def)
  then have b: "identity_key (canonical_physical_identity ?blank) = []" by (simp add: identity_key_def is_qualified_def)
  have x: "de_key ?x = identity_key (canonical_physical_identity sample_info)"
    "de_physical ?x = canonical_physical_identity sample_info"
    by (simp_all add: sample_bound_state_def)
  have "preserves_current_identity_authority ?blank ?x"
    using k c by (simp add: preserves_current_identity_authority_def identity_part_agrees_or_missing_def x Let_def)
  moreover have "identity_key (canonical_physical_identity (stored_info ?blank ?x False)) = []"
    using norm by (simp add: identity_key_def is_qualified_def canonical_physical_identity_def stored_info_def Let_def)
  ultimately show ?thesis using b k x by (simp add: authority_for_def Let_def)
qed

end
