(* ===== verification/Reg_Views.thy ===== *)
theory Reg_Views
  imports Reg_Properties
begin

text \<open>
  The accessors of an entry (\<open>registry_snapshot.go\<close>) and the compatibility accessors of an
  address slot (\<open>address_slot.go\<close>), and their agreement with the snapshot of the entry. A nil
  slot is \<open>None\<close>.
\<close>

section \<open>Accessors\<close>

definition entry_manufacturer :: "'m device_entry \<Rightarrow> string" where
  "entry_manufacturer x = di_manufacturer (de_info x)"

definition entry_device_id :: "'m device_entry \<Rightarrow> string" where
  "entry_device_id x = di_device_id (de_info x)"

definition entry_serial_number :: "'m device_entry \<Rightarrow> string" where
  "entry_serial_number x = di_serial_number (de_info x)"

definition entry_mac_address :: "'m device_entry \<Rightarrow> string" where
  "entry_mac_address x = di_mac_address (de_info x)"

definition entry_software_version :: "'m device_entry \<Rightarrow> string" where
  "entry_software_version x = di_software_version (de_info x)"

definition entry_hardware_version :: "'m device_entry \<Rightarrow> string" where
  "entry_hardware_version x = di_hardware_version (de_info x)"

text \<open>The entry a slot wraps.\<close>

definition slot_entry :: "'m device_registry \<Rightarrow> address_slot option \<Rightarrow> 'm device_entry option" where
  "slot_entry s slot =
     (case slot of None \<Rightarrow> None
      | Some x \<Rightarrow> (case sl_device x of None \<Rightarrow> None | Some e \<Rightarrow> Some (entry_of s e)))"

definition slot_primary_display_address :: "'m device_registry \<Rightarrow> address_slot option \<Rightarrow> byte" where
  "slot_primary_display_address s slot =
     (case slot of None \<Rightarrow> 0
      | Some x \<Rightarrow> (case slot_entry s slot of Some d \<Rightarrow> primary_display_address d | None \<Rightarrow> sl_addr x))"

definition slot_address_by_role ::
  "protocol_env \<Rightarrow> slot_role \<Rightarrow> 'm device_registry \<Rightarrow> address_slot option \<Rightarrow> byte option" where
  "slot_address_by_role env role s slot =
     (case slot of None \<Rightarrow> None
      | Some x \<Rightarrow> (case slot_entry s slot of Some d \<Rightarrow> address_by_role env role d
          | None \<Rightarrow> if sl_role x = role then Some (sl_addr x) else None))"

definition slot_addresses :: "'m device_registry \<Rightarrow> address_slot option \<Rightarrow> byte list" where
  "slot_addresses s slot = (case slot_entry s slot of None \<Rightarrow> [] | Some d \<Rightarrow> entry_addresses d)"

definition slot_manufacturer :: "'m device_registry \<Rightarrow> address_slot option \<Rightarrow> string" where
  "slot_manufacturer s slot = (case slot_entry s slot of None \<Rightarrow> [] | Some d \<Rightarrow> entry_manufacturer d)"

definition slot_device_id :: "'m device_registry \<Rightarrow> address_slot option \<Rightarrow> string" where
  "slot_device_id s slot = (case slot_entry s slot of None \<Rightarrow> [] | Some d \<Rightarrow> entry_device_id d)"

definition slot_serial_number :: "'m device_registry \<Rightarrow> address_slot option \<Rightarrow> string" where
  "slot_serial_number s slot = (case slot_entry s slot of None \<Rightarrow> [] | Some d \<Rightarrow> entry_serial_number d)"

definition slot_mac_address :: "'m device_registry \<Rightarrow> address_slot option \<Rightarrow> string" where
  "slot_mac_address s slot = (case slot_entry s slot of None \<Rightarrow> [] | Some d \<Rightarrow> entry_mac_address d)"

definition slot_software_version :: "'m device_registry \<Rightarrow> address_slot option \<Rightarrow> string" where
  "slot_software_version s slot = (case slot_entry s slot of None \<Rightarrow> [] | Some d \<Rightarrow> entry_software_version d)"

definition slot_hardware_version :: "'m device_registry \<Rightarrow> address_slot option \<Rightarrow> string" where
  "slot_hardware_version s slot = (case slot_entry s slot of None \<Rightarrow> [] | Some d \<Rightarrow> entry_hardware_version d)"

definition slot_planes :: "'m device_registry \<Rightarrow> address_slot option \<Rightarrow> 'm plane list" where
  "slot_planes s slot = (case slot_entry s slot of None \<Rightarrow> [] | Some d \<Rightarrow> de_planes d)"

definition slot_projections :: "'m device_registry \<Rightarrow> address_slot option \<Rightarrow> plane_projection list" where
  "slot_projections s slot = (case slot_entry s slot of None \<Rightarrow> [] | Some d \<Rightarrow> de_projections d)"

section \<open>Agreement\<close>

text \<open>In a reachable registry the three ways to read a device agree: through the slot of any of its
  addresses, through its entry and through its snapshot one reads the same display address, the
  same addresses, the same address for every role, the same description, planes and projections.
\<close>

theorem read_paths_agree:
  assumes "dev_reachable env providers s" and "dev_lookup s a = Some e"
  shows "let x = entry_of s e; slot = lookup_slot s a in
     \<exists>y. lookup_entry_snapshot s a = Some y \<and>
       slot_primary_display_address s slot = es_primary y \<and> primary_display_address x = es_primary y \<and>
       slot_addresses s slot = es_addresses y \<and> entry_addresses x = es_addresses y \<and> a \<in> set (es_addresses y) \<and>
       (\<forall>role. slot_address_by_role env role s slot = snapshot_address_by_role env role y \<and>
          address_by_role env role x = snapshot_address_by_role env role y) \<and>
       (slot_manufacturer s slot, slot_device_id s slot, slot_serial_number s slot, slot_mac_address s slot,
        slot_software_version s slot, slot_hardware_version s slot) =
       (es_manufacturer y, es_device_id y, es_serial_number y, es_mac_address y, es_software_version y,
        es_hardware_version y) \<and>
       slot_planes s slot = es_planes y \<and> slot_projections s slot = es_projections y"
proof -
  note R = reachable_parts [OF assms(1)] and G = groups_okD [OF reachable_parts(1) [OF assms(1)]]
  have e: "dr_entries s a = Some e" using assms(2) by (simp add: dev_lookup_def)
  obtain slot where slot: "dr_table s a = Some slot" "sl_device slot = Some e" using slot_fitsD [OF R(2) e] by blast
  have live: "e \<in> set (dr_order s)" "a \<in> set (members_of s e)" using G(5) e by blast+
  then have ne: "de_addresses (entry_of s e) \<noteq> []" by (cases "members_of s e") simp_all
  have ls: "lookup_slot s a = Some slot" by (simp add: lookup_slot_def slot)
  have se: "slot_entry s (Some slot) = Some (entry_of s e)" by (simp add: slot_entry_def slot)
  have "entry_addresses (entry_of s e) = de_addresses (entry_of s e)" using ne by (simp add: entry_addresses_def)
  then show ?thesis
    using live(2)
    by (simp add: lookup_entry_snapshot_def e snapshot_entry_def Let_def slot_primary_display_address_def
        slot_addresses_def slot_address_by_role_def slot_manufacturer_def slot_device_id_def slot_serial_number_def
        slot_mac_address_def slot_software_version_def slot_hardware_version_def slot_planes_def slot_projections_def ls se)
      (simp add: primary_display_address_def snapshot_address_by_role_def address_by_role_def
        entry_manufacturer_def entry_device_id_def entry_serial_number_def entry_mac_address_def
        entry_software_version_def entry_hardware_version_def)
qed

theorem read_paths_agree_witness:
  "\<exists>y. lookup_entry_snapshot sample_seen 0x10 = Some y \<and> 0x10 \<in> set (es_addresses y) \<and>
     slot_serial_number sample_seen (lookup_slot sample_seen 0x10) = es_serial_number y"
proof -
  obtain e where "dev_lookup sample_seen 0x10 = Some e" using sample_bound by (auto simp: dev_lookup_def)
  from read_paths_agree [OF sample_seen_reachable this] show ?thesis by (auto simp: Let_def)
qed

section \<open>Routing by role\<close>

definition class_role :: "protocol_env \<Rightarrow> byte \<Rightarrow> slot_role" where
  "class_role env a = (case address_class_of env a of
     AddressClassMaster \<Rightarrow> SlotRoleMaster | AddressClassSlave \<Rightarrow> SlotRoleSlave | AddressClassOther \<Rightarrow> SlotRoleUnknown)"

lemma face_with_role_find: "face_with_role role fs = map_option bf_addr (find (\<lambda>f. bf_role f = role) fs)"
  by (induction fs) simp_all

lemma face_with_class_find:
  "role \<noteq> SlotRoleUnknown \<Longrightarrow> face_with_class env role fs =
     map_option bf_addr (find (\<lambda>f. bf_role f = SlotRoleUnknown \<and> class_role env (bf_addr f) = role) fs)"
  by (induction fs) (auto simp: class_role_def split: address_class.splits)

lemma map_find: "find p (map f xs) = map_option f (find (\<lambda>x. p (f x)) xs)"
  by (induction xs) simp_all

text \<open>For a master or slave role an entry of a reachable registry answers with the first of its
  addresses whose slot has that role and, when none has, with the first whose slot has no role and
  whose bus class is that role; it answers nothing exactly when there is neither.
\<close>

theorem role_routing_exact:
  assumes "dev_reachable env providers s" and "dev_lookup s a = Some e" and "role \<noteq> SlotRoleUnknown"
  shows "address_by_role env role (entry_of s e) =
     (let members = de_addresses (entry_of s e) in
      case find (\<lambda>b. sl_role (slot_at s b) = role) members of Some b \<Rightarrow> Some b
      | None \<Rightarrow> find (\<lambda>b. sl_role (slot_at s b) = SlotRoleUnknown \<and> class_role env b = role) members)"
proof -
  have "e \<in> set (dr_order s)"
    using groups_okD(5) [OF reachable_parts(1) [OF assms(1)]] assms(2) by (auto simp: dev_lookup_def)
  then have "de_faces (entry_of s e) = map (\<lambda>b. face_of b (slot_at s b)) (de_addresses (entry_of s e))"
    using reachable_parts(3) [OF assms(1)] by (simp add: faces_ok_def expected_faces_def)
  then show ?thesis
    by (simp add: address_by_role_def faces_by_role_def face_with_role_find face_with_class_find [OF assms(3)] map_find
        face_of_def option.map_comp comp_def option.map_ident Let_def split: option.splits)
qed

theorem role_routing_exact_witness:
  "\<exists>e. dev_lookup sample_seen 0x10 = Some e \<and>
     (\<forall>b. find (\<lambda>b. sl_role (slot_at sample_seen b) = SlotRoleMaster) (de_addresses (entry_of sample_seen e)) = Some b \<longrightarrow>
        address_by_role sample_env SlotRoleMaster (entry_of sample_seen e) = Some b)"
proof -
  obtain e where e: "dev_lookup sample_seen 0x10 = Some e" using sample_bound by (auto simp: dev_lookup_def)
  from role_routing_exact [OF sample_seen_reachable this, of SlotRoleMaster] show ?thesis
    by (intro exI [of _ e]) (simp add: e Let_def)
qed

end
