(* ===== verification/Reg_Service.thy ===== *)
theory Reg_Service
  imports Reg_Views
begin

text \<open>
  Method metadata (\<open>method_metadata.go\<close>) and the sorted views that the service layer shares
  (\<open>service_projection.go\<close>). A method is a record of its answers; the optional interfaces of a
  method are options, a nil method or template is \<open>None\<close>. Every error of these functions wraps
  \<open>ErrInvalidPayload\<close>.
\<close>

section \<open>Methods\<close>

record frame_template =
  ft_primary :: byte
  ft_secondary :: byte

record 'sel bus_method =
  bm_name :: string
  bm_read_only :: bool
  bm_template :: "frame_template option"
  bm_response :: 'sel
  bm_mutability :: "string option"
  bm_danger :: "string option"
  bm_routable :: "bool option"

abbreviation mutability_unknown :: string where "mutability_unknown \<equiv> ''unknown''"
abbreviation mutability_read_only :: string where "mutability_read_only \<equiv> ''read_only''"
abbreviation mutability_mutating :: string where "mutability_mutating \<equiv> ''mutating''"
abbreviation danger_unknown :: string where "danger_unknown \<equiv> ''unknown''"
abbreviation danger_safe :: string where "danger_safe \<equiv> ''safe''"
abbreviation danger_dangerous :: string where "danger_dangerous \<equiv> ''dangerous''"

record method_metadata =
  mm_mutability :: string
  mm_danger :: string
  mm_routable :: bool

definition normalize_method_mutability :: "string \<Rightarrow> string \<times> bool" where
  "normalize_method_mutability m =
     (if m \<in> {mutability_unknown, mutability_read_only, mutability_mutating} then (m, True)
      else (mutability_unknown, False))"

definition normalize_method_danger :: "string \<Rightarrow> string" where
  "normalize_method_danger d = (if d \<in> {danger_safe, danger_dangerous} then d else danger_unknown)"

definition method_mutability_of :: "'sel bus_method option \<Rightarrow> string" where
  "method_mutability_of method =
     (case method of None \<Rightarrow> mutability_unknown
      | Some m \<Rightarrow>
          let inferred = (if bm_read_only m then mutability_read_only else mutability_mutating)
          in case bm_mutability m of None \<Rightarrow> inferred
             | Some v \<Rightarrow> (let (mutability, valid) = normalize_method_mutability v
                          in if valid then mutability else inferred))"

definition method_danger_of :: "'sel bus_method option \<Rightarrow> string" where
  "method_danger_of method =
     (case method of None \<Rightarrow> danger_dangerous
      | Some m \<Rightarrow>
          let inferred = (if method_mutability_of method = mutability_read_only then danger_safe else danger_dangerous)
          in case bm_danger m of None \<Rightarrow> inferred
             | Some v \<Rightarrow> if normalize_method_danger v \<noteq> danger_unknown then normalize_method_danger v else inferred)"

definition method_routable_of :: "'sel bus_method option \<Rightarrow> bool" where
  "method_routable_of method =
     (case method of None \<Rightarrow> False
      | Some m \<Rightarrow> (case bm_routable m of Some r \<Rightarrow> r | None \<Rightarrow> True))"

definition resolve_method_metadata :: "'sel bus_method option \<Rightarrow> method_metadata" where
  "resolve_method_metadata method = \<lparr>mm_mutability = method_mutability_of method,
     mm_danger = method_danger_of method, mm_routable = method_routable_of method\<rparr>"

text \<open>A resolved danger is never unknown.\<close>

lemma method_danger_known: "method_danger_of method \<in> {danger_safe, danger_dangerous}"
  by (simp add: method_danger_of_def normalize_method_danger_def Let_def split: option.splits)

section \<open>Service views\<close>

datatype service_error = ErrInvalidPayload

record 'sel service_method_view =
  sm_name :: string
  sm_read_only :: bool
  sm_primary :: byte
  sm_secondary :: byte
  sm_metadata :: method_metadata
  sm_selector :: 'sel

record 'sel service_plane_view =
  sp_name :: string
  sp_methods :: "'sel service_method_view list"

record 'sel service_device_view =
  sd_address :: byte
  sd_addresses :: "byte list"
  sd_manufacturer :: string
  sd_device_id :: string
  sd_serial_number :: string
  sd_mac_address :: string
  sd_software_version :: string
  sd_hardware_version :: string
  sd_planes :: "'sel service_plane_view list"

definition compare_folded :: "string \<Rightarrow> string \<Rightarrow> int" where
  "compare_folded left right =
     (let l = to_lower (trim_space left); r = to_lower (trim_space right)
      in if l < r then -1 else if l > r then 1 else 0)"

definition method_less :: "'sel service_method_view \<Rightarrow> 'sel service_method_view \<Rightarrow> bool" where
  "method_less a b =
     (if compare_folded (sm_name a) (sm_name b) \<noteq> 0 then compare_folded (sm_name a) (sm_name b) < 0
      else if sm_name a \<noteq> sm_name b then sm_name a < sm_name b
      else if sm_primary a \<noteq> sm_primary b then sm_primary a < sm_primary b
      else sm_secondary a < sm_secondary b)"

definition sort_service_methods :: "'sel service_method_view list \<Rightarrow> 'sel service_method_view list" where
  "sort_service_methods methods = sort_by method_less methods"

definition plane_less :: "'sel service_plane_view \<Rightarrow> 'sel service_plane_view \<Rightarrow> bool" where
  "plane_less a b =
     (if compare_folded (sp_name a) (sp_name b) \<noteq> 0 then compare_folded (sp_name a) (sp_name b) < 0
      else sp_name a < sp_name b)"

definition sort_service_planes :: "'sel service_plane_view list \<Rightarrow> 'sel service_plane_view list" where
  "sort_service_planes planes =
     map (\<lambda>p. p\<lparr>sp_methods := sort_service_methods (sp_methods p)\<rparr>) (sort_by plane_less planes)"

definition device_less :: "'sel service_device_view \<Rightarrow> 'sel service_device_view \<Rightarrow> bool" where
  "device_less a b =
     (if sd_address a \<noteq> sd_address b then sd_address a < sd_address b
      else if compare_folded (sd_manufacturer a) (sd_manufacturer b) \<noteq> 0
      then compare_folded (sd_manufacturer a) (sd_manufacturer b) < 0
      else if compare_folded (sd_device_id a) (sd_device_id b) \<noteq> 0
      then compare_folded (sd_device_id a) (sd_device_id b) < 0
      else if compare_folded (sd_hardware_version a) (sd_hardware_version b) \<noteq> 0
      then compare_folded (sd_hardware_version a) (sd_hardware_version b) < 0
      else compare_folded (sd_serial_number a) (sd_serial_number b) < 0)"

definition sort_service_devices :: "'sel service_device_view list \<Rightarrow> 'sel service_device_view list" where
  "sort_service_devices devices =
     map (\<lambda>d. d\<lparr>sd_planes := sort_service_planes (sd_planes d)\<rparr>) (sort_by device_less devices)"

definition append_unique :: "byte \<Rightarrow> byte list \<Rightarrow> byte list" where
  "append_unique a out = (if list_ex (\<lambda>x. x = a) out then out else out @ [a])"

definition normalize_projected_addresses :: "byte \<Rightarrow> byte list \<Rightarrow> byte list" where
  "normalize_projected_addresses primary aliases =
     fold append_unique (sort_by (\<lambda>x y. x < y) aliases) (append_unique primary [])"

definition project_method :: "'sel bus_method option \<Rightarrow> service_error + 'sel service_method_view" where
  "project_method method =
     (case method of None \<Rightarrow> Inl ErrInvalidPayload
      | Some m \<Rightarrow>
          (case bm_template m of None \<Rightarrow> Inl ErrInvalidPayload
           | Some template \<Rightarrow> Inr
               \<lparr>sm_name = bm_name m, sm_read_only = bm_read_only m, sm_primary = ft_primary template,
                sm_secondary = ft_secondary template, sm_metadata = resolve_method_metadata method,
                sm_selector = bm_response m\<rparr>))"

text \<open>The loops of \<open>ProjectPlane\<close>, \<open>ProjectDeviceEntry\<close> and \<open>ProjectRegistryDevices\<close>: the first
  error ends them.\<close>

fun project_all :: "('a \<Rightarrow> 'e + 'b) \<Rightarrow> 'a list \<Rightarrow> 'e + 'b list" where
  "project_all f [] = Inr []"
| "project_all f (x # xs) =
     (case f x of Inl err \<Rightarrow> Inl err
      | Inr y \<Rightarrow> (case project_all f xs of Inl err \<Rightarrow> Inl err | Inr ys \<Rightarrow> Inr (y # ys)))"

definition project_plane :: "'sel bus_method option plane option \<Rightarrow> service_error + 'sel service_plane_view" where
  "project_plane plane =
     (case plane of None \<Rightarrow> Inl ErrInvalidPayload
      | Some p \<Rightarrow>
          (case project_all project_method (plane_methods p) of Inl err \<Rightarrow> Inl err
           | Inr methods \<Rightarrow> Inr \<lparr>sp_name = plane_name p, sp_methods = sort_service_methods methods\<rparr>))"

definition project_device_entry ::
  "'sel bus_method option device_entry option \<Rightarrow> service_error + 'sel service_device_view" where
  "project_device_entry entry =
     (case entry of None \<Rightarrow> Inl ErrInvalidPayload
      | Some x \<Rightarrow>
          (case project_all (\<lambda>p. project_plane (Some p)) (de_planes x) of Inl err \<Rightarrow> Inl err
           | Inr planes \<Rightarrow> Inr
               \<lparr>sd_address = primary_display_address x,
                sd_addresses = normalize_projected_addresses (primary_display_address x) (entry_addresses x),
                sd_manufacturer = entry_manufacturer x, sd_device_id = entry_device_id x,
                sd_serial_number = entry_serial_number x, sd_mac_address = entry_mac_address x,
                sd_software_version = entry_software_version x, sd_hardware_version = entry_hardware_version x,
                sd_planes = sort_service_planes planes\<rparr>))"

definition project_registry_devices ::
  "'sel bus_method option device_registry option \<Rightarrow> service_error + 'sel service_device_view list" where
  "project_registry_devices iter =
     (case iter of None \<Rightarrow> Inl ErrInvalidPayload
      | Some s \<Rightarrow>
          (case project_all (\<lambda>e. project_device_entry (Some (entry_of s e))) (dr_order s) of Inl err \<Rightarrow> Inl err
           | Inr out \<Rightarrow> Inr (sort_service_devices out)))"

section \<open>Orders\<close>

lemma folded_cases: "compare_folded a b < 0 \<longleftrightarrow> to_lower (trim_space a) < to_lower (trim_space b)"
  "compare_folded a b = 0 \<longleftrightarrow> to_lower (trim_space a) = to_lower (trim_space b)"
  by (auto simp: compare_folded_def Let_def)

lemma key_order: "strict_weak_order (\<lambda>x y. (k x :: 'k :: linorder) < k y)"
  by unfold_locales (auto intro: less_trans)

text \<open>A comparison by a key first and by another order on ties.\<close>

lemma lex_order:
  assumes "strict_weak_order lt"
  shows "strict_weak_order (\<lambda>x y. if (k x :: 'k :: linorder) \<noteq> k y then k x < k y else lt x y)"
proof
  fix x y z
  note L = strict_weak_order.asym [OF assms] strict_weak_order.neg_trans [OF assms]
  show "(if k x \<noteq> k y then k x < k y else lt x y) \<Longrightarrow> \<not> (if k y \<noteq> k x then k y < k x else lt y x)"
    using L(1) [of x y] by (cases "k x" "k y" rule: linorder_cases) (auto split: if_splits)
  show "(if k x \<noteq> k z then k x < k z else lt x z) \<Longrightarrow>
      (if k x \<noteq> k y then k x < k y else lt x y) \<or> (if k y \<noteq> k z then k y < k z else lt y z)"
    using L(2) [of x z y] by (cases "k x" "k y" rule: linorder_cases; cases "k y" "k z" rule: linorder_cases) (auto split: if_splits)
qed

abbreviation fold_key :: "('a \<Rightarrow> string) \<Rightarrow> 'a \<Rightarrow> string" where
  "fold_key f x \<equiv> to_lower (trim_space (f x))"

lemma method_less_keys: "method_less = (\<lambda>x y.
    if fold_key sm_name x \<noteq> fold_key sm_name y then fold_key sm_name x < fold_key sm_name y
    else if sm_name x \<noteq> sm_name y then sm_name x < sm_name y
    else if sm_primary x \<noteq> sm_primary y then sm_primary x < sm_primary y else sm_secondary x < sm_secondary y)"
  unfolding fun_eq_iff method_less_def folded_cases by (intro allI refl)

lemma plane_less_keys: "plane_less = (\<lambda>x y.
    if fold_key sp_name x \<noteq> fold_key sp_name y then fold_key sp_name x < fold_key sp_name y else sp_name x < sp_name y)"
  unfolding fun_eq_iff plane_less_def folded_cases by (intro allI refl)

lemma device_less_keys: "device_less = (\<lambda>x y.
    if sd_address x \<noteq> sd_address y then sd_address x < sd_address y
    else if fold_key sd_manufacturer x \<noteq> fold_key sd_manufacturer y then fold_key sd_manufacturer x < fold_key sd_manufacturer y
    else if fold_key sd_device_id x \<noteq> fold_key sd_device_id y then fold_key sd_device_id x < fold_key sd_device_id y
    else if fold_key sd_hardware_version x \<noteq> fold_key sd_hardware_version y
    then fold_key sd_hardware_version x < fold_key sd_hardware_version y
    else fold_key sd_serial_number x < fold_key sd_serial_number y)"
  unfolding fun_eq_iff device_less_def folded_cases by (intro allI refl)

interpretation sm: strict_weak_order method_less
  unfolding method_less_keys by (rule lex_order [OF lex_order [OF lex_order [OF key_order]]])

interpretation sp: strict_weak_order plane_less
  unfolding plane_less_keys by (rule lex_order [OF key_order])

interpretation sd: strict_weak_order device_less
  unfolding device_less_keys by (rule lex_order [OF lex_order [OF lex_order [OF lex_order [OF key_order]]]])

interpretation bt: strict_weak_order "\<lambda>x y :: byte. x < y"
  by (rule key_order)

lemma project_all_Inr: "project_all f xs = Inr ys \<Longrightarrow> list_all2 (\<lambda>x y. f x = Inr y) xs ys"
  by (induction xs arbitrary: ys) (auto split: sum.splits)

lemma project_all_Inl: "(\<exists>err. project_all f xs = Inl err) \<longleftrightarrow> (\<exists>x \<in> set xs. \<exists>err. f x = Inl err)"
  by (induction xs) (auto split: sum.splits)

lemma list_all2_members:
  "list_all2 P xs ys \<Longrightarrow> (\<forall>x \<in> set xs. \<exists>y \<in> set ys. P x y) \<and> (\<forall>y \<in> set ys. \<exists>x \<in> set xs. P x y)"
  by (induction rule: list_all2_induct) auto

section \<open>Addresses\<close>

lemma append_unique_eq: "append_unique a out = (if a \<in> set out then out else out @ [a])"
  by (auto simp: append_unique_def list_ex_iff)

lemma fold_append_unique:
  "sorted xs \<Longrightarrow> \<exists>rest. fold append_unique xs out = out @ rest \<and> sorted_wrt (<) rest \<and> set rest = set xs - set out"
proof (induction xs arbitrary: out)
  case (Cons a xs)
  then have s: "sorted xs" "\<forall>b \<in> set xs. a \<le> b" by simp_all
  show ?case
  proof (cases "a \<in> set out")
    case True
    then have "append_unique a out = out" by (simp add: append_unique_eq)
    then show ?thesis using Cons.IH [OF s(1), of out] True by auto
  next
    case False
    obtain rest where r: "fold append_unique xs (out @ [a]) = (out @ [a]) @ rest" "sorted_wrt (<) rest"
        "set rest = set xs - set (out @ [a])"
      using Cons.IH [OF s(1), of "out @ [a]"] by blast
    have "\<forall>b \<in> set rest. a < b" using r(3) s(2) by (auto simp: less_le)
    moreover have "append_unique a out = out @ [a]" using False by (simp add: append_unique_eq)
    ultimately show ?thesis using False r by (intro exI [of _ "a # rest"]) auto
  qed
qed simp

lemma sorted_bytes: "sorted (sort_by (\<lambda>x y :: byte. x < y) xs)"
  using bt.sorted_sort_by [of xs] by (simp only: not_less)

lemma normalize_addresses_exact:
  "\<exists>rest. normalize_projected_addresses p as = p # rest \<and> sorted_wrt (<) rest \<and> set rest = set as - {p}"
  using fold_append_unique [OF sorted_bytes, of as "[p]"] by (simp add: normalize_projected_addresses_def append_unique_eq)

section \<open>Views of a registry\<close>

lemma primary_display: "di_address (de_info x) = de_primary x \<Longrightarrow> primary_display_address x = de_primary x"
  by (simp add: primary_display_address_def)

definition invalid_method :: "'sel bus_method option \<Rightarrow> bool" where
  "invalid_method method \<longleftrightarrow> (case method of None \<Rightarrow> True | Some m \<Rightarrow> bm_template m = None)"

lemma project_method_Inl: "(\<exists>err. project_method m = Inl err) \<longleftrightarrow> invalid_method m"
  by (auto simp: project_method_def invalid_method_def split: option.splits)

lemma project_plane_Inl: "(\<exists>err. project_plane (Some p) = Inl err) \<longleftrightarrow> (\<exists>m \<in> set (plane_methods p). invalid_method m)"
  unfolding project_method_Inl [symmetric] project_all_Inl [symmetric] by (simp add: project_plane_def split: sum.splits)

lemma project_entry_Inl: "(\<exists>err. project_device_entry (Some x) = Inl err) \<longleftrightarrow>
    (\<exists>p \<in> set (de_planes x). \<exists>m \<in> set (plane_methods p). invalid_method m)"
  unfolding project_plane_Inl [symmetric] project_all_Inl [symmetric] by (simp add: project_device_entry_def split: sum.splits)

lemma project_devices_Inl: "(\<exists>err. project_registry_devices (Some s) = Inl err) \<longleftrightarrow>
    (\<exists>e \<in> set (dr_order s). \<exists>p \<in> set (de_planes (entry_of s e)). \<exists>m \<in> set (plane_methods p). invalid_method m)"
  unfolding project_entry_Inl [symmetric] project_all_Inl [symmetric] by (simp add: project_registry_devices_def split: sum.splits)

lemma project_plane_names: "project_plane (Some p) = Inr v \<Longrightarrow> sp_name v = plane_name p"
  by (auto simp: project_plane_def split: sum.splits)

lemma sort_planes_names: "mset (map sp_name (sort_service_planes ps)) = mset (map sp_name ps)"
  by (simp add: sort_service_planes_def comp_def)

lemma project_entry_planes:
  assumes "project_device_entry (Some x) = Inr v"
  shows "mset (map sp_name (sd_planes v)) = mset (map plane_name (de_planes x))"
proof -
  obtain ps where ps: "project_all (\<lambda>p. project_plane (Some p)) (de_planes x) = Inr ps" "sd_planes v = sort_service_planes ps"
    using assms by (auto simp: project_device_entry_def split: sum.splits)
  have "list_all2 (\<lambda>p v. sp_name v = plane_name p) (de_planes x) ps"
    by (rule list_all2_mono [OF project_all_Inr [OF ps(1)]]) (rule project_plane_names)
  then have "map sp_name ps = map plane_name (de_planes x)" by (induction rule: list_all2_induct) simp_all
  then show ?thesis unfolding ps(2) sort_planes_names by simp
qed

lemma sorted_by_key:
  "sorted_wrt (\<lambda>v w. \<not> lt w v) vs \<Longrightarrow> distinct (map k vs) \<Longrightarrow> (\<And>v w. k v < k w \<Longrightarrow> lt v w) \<Longrightarrow>
     sorted_wrt (\<lambda>v w. (k v :: 'k :: linorder) < k w) vs"
proof (induction vs)
  case (Cons v vs)
  have "k v < k w" if w: "w \<in> set vs" for w
  proof -
    have "k v \<noteq> k w" "\<not> k w < k v" using Cons.prems w by auto
    then show ?thesis by simp
  qed
  then show ?case using Cons by simp
qed simp

lemma device_less_address: "sd_address v < sd_address w \<Longrightarrow> device_less v w"
proof -
  assume a: "sd_address v < sd_address w"
  then have "sd_address v \<noteq> sd_address w" by simp
  with a show "device_less v w" unfolding device_less_def by simp
qed

text \<open>What a view shows of its entry.\<close>

definition view_shows :: "'sel bus_method option device_entry \<Rightarrow> 'sel service_device_view \<Rightarrow> bool" where
  "view_shows x v \<longleftrightarrow> sd_address v = de_primary x \<and>
     (\<exists>rest. sd_addresses v = de_primary x # rest \<and> sorted_wrt (<) rest) \<and> set (sd_addresses v) = set (de_addresses x) \<and>
     (sd_manufacturer v, sd_device_id v, sd_serial_number v, sd_mac_address v, sd_software_version v, sd_hardware_version v) =
       (di_manufacturer (de_info x), di_device_id (de_info x), di_serial_number (de_info x), di_mac_address (de_info x),
        di_software_version (de_info x), di_hardware_version (de_info x)) \<and>
     mset (map sp_name (sd_planes v)) = mset (map plane_name (de_planes x))"

lemma project_entry_shows:
  assumes "project_device_entry (Some x) = Inr v" and "de_primary x \<in> set (de_addresses x)"
    and "di_address (de_info x) = de_primary x"
  shows "view_shows x v"
proof -
  have "entry_addresses x = de_addresses x" using assms(2) by (cases "de_addresses x") (auto simp: entry_addresses_def)
  then have v: "sd_address v = de_primary x" "sd_addresses v = normalize_projected_addresses (de_primary x) (de_addresses x)"
    "sd_manufacturer v = di_manufacturer (de_info x)" "sd_device_id v = di_device_id (de_info x)"
    "sd_serial_number v = di_serial_number (de_info x)" "sd_mac_address v = di_mac_address (de_info x)"
    "sd_software_version v = di_software_version (de_info x)" "sd_hardware_version v = di_hardware_version (de_info x)"
    using assms(1) primary_display [OF assms(3)]
    by (auto simp: project_device_entry_def entry_manufacturer_def entry_device_id_def entry_serial_number_def
        entry_mac_address_def entry_software_version_def entry_hardware_version_def split: sum.splits)
  obtain rest where r: "normalize_projected_addresses (de_primary x) (de_addresses x) = de_primary x # rest"
      "sorted_wrt (<) rest" "set rest = set (de_addresses x) - {de_primary x}"
    using normalize_addresses_exact by blast
  show ?thesis
    unfolding view_shows_def v r(1) using r(2,3) assms(2) project_entry_planes [OF assms(1)] by auto
qed

lemma resorted_shows: "view_shows x v \<Longrightarrow> view_shows x (v\<lparr>sd_planes := sort_service_planes (sd_planes v)\<rparr>)"
  unfolding view_shows_def using sort_planes_names [of "sd_planes v"] by simp

text \<open>  \<open>ProjectRegistryDevices\<close> of a reachable registry fails exactly when some plane of an entry has a
  nil method or a method without template. Otherwise the views come strictly sorted by address, so
  their order is determined, one for each entry, and each lists the primary address first and the
  other addresses of its entry strictly sorted, with the description of the entry and its planes.
\<close>

theorem service_views_exact:
  assumes "dev_reachable env providers s"
  shows "case project_registry_devices (Some s) of
     Inl err \<Rightarrow> \<exists>e \<in> set (dr_order s). \<exists>p \<in> set (de_planes (entry_of s e)). \<exists>m \<in> set (plane_methods p). invalid_method m
   | Inr views \<Rightarrow>
       (\<forall>e \<in> set (dr_order s). \<forall>p \<in> set (de_planes (entry_of s e)). \<forall>m \<in> set (plane_methods p). \<not> invalid_method m) \<and>
       sorted_wrt (\<lambda>v w. sd_address v < sd_address w) views \<and> length views = length (dr_order s) \<and>
       (\<forall>v \<in> set views. \<exists>e \<in> set (dr_order s). view_shows (entry_of s e) v) \<and>
       (\<forall>e \<in> set (dr_order s). \<exists>v \<in> set views. view_shows (entry_of s e) v)"
proof (cases "project_registry_devices (Some s)")
  case (Inl err)
  then show ?thesis using project_devices_Inl [of s] by auto
next
  case (Inr views)
  let ?bad = "\<exists>e \<in> set (dr_order s). \<exists>p \<in> set (de_planes (entry_of s e)). \<exists>m \<in> set (plane_methods p). invalid_method m"
  have valid: "\<not> ?bad" using Inr project_devices_Inl [of s] by auto
  note R = reachable_parts [OF assms] and G = groups_okD [OF reachable_parts(1) [OF assms]]
  obtain out where out: "project_all (\<lambda>e. project_device_entry (Some (entry_of s e))) (dr_order s) = Inr out"
      "views = sort_service_devices out"
    using Inr by (auto simp: project_registry_devices_def split: sum.splits)
  have shows1: "view_shows (entry_of s e) v" if "e \<in> set (dr_order s)" "project_device_entry (Some (entry_of s e)) = Inr v" for e v
    using project_entry_shows [OF that(2) G(4) [OF that(1)]] R(4) that(1) by (simp add: infos_ok_def)
  have rel: "list_all2 (\<lambda>e v. view_shows (entry_of s e) v) (dr_order s) out"
    using project_all_Inr [OF out(1)] shows1 by (simp add: list_all2_conv_all_nth)
  have addr: "map sd_address out = map (primary_of s) (dr_order s)"
    using rel by (induction rule: list_all2_induct) (simp_all add: view_shows_def)
  have "inj_on (primary_of s) (set (dr_order s))"
  proof (rule inj_onI)
    fix e f assume "e \<in> set (dr_order s)" "f \<in> set (dr_order s)" "primary_of s e = primary_of s f"
    then have "dr_entries s (primary_of s e) = Some e" "dr_entries s (primary_of s e) = Some f"
      using G(4,5) by metis+
    then show "e = f" by simp
  qed
  then have dist: "distinct (map sd_address out)" using G(1) by (simp add: addr distinct_map)
  let ?sorted = "sort_by device_less out"
  have ds: "distinct (map sd_address ?sorted)"
    using dist by (metis mset_map mset_sort_by mset_eq_imp_distinct_iff)
  have strict: "sorted_wrt (\<lambda>v w. sd_address v < sd_address w) ?sorted"
    by (rule sorted_by_key [OF sd.sorted_sort_by ds device_less_address])
  let ?f = "\<lambda>d :: 'b service_device_view. d\<lparr>sd_planes := sort_service_planes (sd_planes d)\<rparr>"
  have views: "views = map ?f ?sorted" by (simp add: out(2) sort_service_devices_def)
  have "sorted_wrt (\<lambda>v w. sd_address v < sd_address w) views" using strict by (simp add: views sorted_wrt_map)
  moreover have "length views = length (dr_order s)" using rel by (simp add: views list_all2_lengthD)
  moreover have "\<forall>v \<in> set views. \<exists>e \<in> set (dr_order s). view_shows (entry_of s e) v"
    using list_all2_members [OF rel] resorted_shows unfolding views by fastforce
  moreover have "\<forall>e \<in> set (dr_order s). \<exists>v \<in> set views. view_shows (entry_of s e) v"
  proof
    fix e assume "e \<in> set (dr_order s)"
    then obtain v where "v \<in> set out" "view_shows (entry_of s e) v"
      using list_all2_members [OF rel] by blast
    then show "\<exists>v \<in> set views. view_shows (entry_of s e) v"
      using resorted_shows by (intro bexI [of _ "?f v"]) (simp_all add: views)
  qed
  ultimately show ?thesis using valid Inr by simp
qed

theorem service_views_exact_witness:
  "\<exists>s :: 'sel bus_method option device_registry. dev_reachable sample_env [] s \<and> dev_lookup s 0x10 \<noteq> None \<and>
     (case project_registry_devices (Some s) of Inl err \<Rightarrow> \<exists>e \<in> set (dr_order s). de_planes (entry_of s e) \<noteq> []
      | Inr views \<Rightarrow> \<exists>v \<in> set views. 0x10 \<in> set (sd_addresses v))"
proof -
  let ?s0 = "new_device_registry [] :: 'sel bus_method option device_registry"
  obtain s e where t: "dev_register sample_env 5 sample_info ?s0 = (s, e)" by (cases "dev_register sample_env 5 sample_info ?s0")
  have r0: "dev_reachable sample_env [] ?s0" by (rule reach_init) (rule refl)
  have r: "dev_reachable sample_env [] s" by (rule reach_step [OF r0 step_register [OF t]])
  have b: "dr_entries s 0x10 = Some e"
    using dev_register_ok(2) [OF dr.reach_inv [OF r0] t] by (simp add: sample_info_def)
  then have m: "e \<in> set (dr_order s)" "0x10 \<in> set (de_addresses (entry_of s e))"
    using groups_okD(5) [OF reachable_parts(1) [OF r]] by blast+
  have "case project_registry_devices (Some s) of Inl err \<Rightarrow> \<exists>e \<in> set (dr_order s). de_planes (entry_of s e) \<noteq> []
      | Inr views \<Rightarrow> \<exists>v \<in> set views. 0x10 \<in> set (sd_addresses v)"
  proof (cases "project_registry_devices (Some s)")
    case (Inl err)
    then obtain x p where "x \<in> set (dr_order s)" "p \<in> set (de_planes (entry_of s x))"
      using service_views_exact [OF r] by auto
    then have "\<exists>x \<in> set (dr_order s). de_planes (entry_of s x) \<noteq> []" by (intro bexI [of _ x]) auto
    then show ?thesis by (simp add: Inl)
  next
    case (Inr views)
    then obtain v where "v \<in> set views" "view_shows (entry_of s e) v" using service_views_exact [OF r] m(1) by auto
    then have "0x10 \<in> set (sd_addresses v)" using m(2) unfolding view_shows_def by blast
    then show ?thesis using Inr \<open>v \<in> set views\<close> by auto
  qed
  then show ?thesis using r b by (intro exI [of _ s]) (simp add: dev_lookup_def)
qed

end
