(* ===== verification/Router.thy ===== *)
theory Router
  imports Reg_Service
begin

text \<open>
  The bus event router (\<open>router/router.go\<close>): subscriptions, the bounded broadcast queue, and the
  decision part of \<open>Invoke\<close> (refresh class, age limit, cache key). Planes and the bus are records
  of their methods; \<open>json.Marshal\<close> is a parameter. Frames have the five fields the code reads.
  A parameter value is text or something the router does not look into.
\<close>

section \<open>Data\<close>

record frame =
  fr_source :: byte
  fr_target :: byte
  fr_primary :: byte
  fr_secondary :: byte
  fr_data :: "byte list"

type_synonym subscription = "byte \<times> byte"

datatype 'p param_value = TextParam string | OtherParam 'p

type_synonym 'p params = "(string, 'p param_value) gomap"

datatype 'e router_error =
    PlaneError 'e
  | BroadcastOverflow
  | InvalidPayload
  | ContextDone

record 'v broadcast_event =
  be_plane :: string
  be_frame :: frame
  be_values :: "(string, 'v) gomap"

record ('e, 'v, 'p, 'r, 'sel) router_plane =
  rp_name :: string
  rp_methods :: "'sel bus_method list"
  rp_subscriptions :: "subscription list"
  rp_on_broadcast :: "frame \<Rightarrow> 'e option"
  rp_decode_broadcast :: "(frame \<Rightarrow> 'e + (string, 'v) gomap option) option"
  rp_build_request :: "'sel bus_method \<Rightarrow> 'p params \<Rightarrow> 'e + frame"
  rp_decode_response :: "'sel bus_method \<Rightarrow> frame \<Rightarrow> 'p params \<Rightarrow> 'e + 'r"

type_synonym refresh_class = string

abbreviation refresh_class_state :: refresh_class where "refresh_class_state \<equiv> ''state''"
abbreviation refresh_class_config :: refresh_class where "refresh_class_config \<equiv> ''config''"

text \<open>Durations and clock readings are nanoseconds.\<close>

definition default_state_refresh_interval :: int where
  "default_state_refresh_interval = 60 * 10 ^ 9"

definition default_config_refresh_interval :: int where
  "default_config_refresh_interval = 5 * 60 * 10 ^ 9"

record 'p router_options =
  ro_state_refresh_interval :: int
  ro_config_refresh_interval :: int
  ro_classify_invocation :: "(string \<Rightarrow> string \<Rightarrow> 'p params \<Rightarrow> refresh_class) option"
  ro_disable_coalescing :: bool

record invoke_entry =
  ie_running :: bool
  ie_done :: nat
  ie_last_ok_at :: int
  ie_last_frame :: frame
  ie_has_last_frame :: bool

type_synonym invoke_cache = "(string, invoke_entry) gomap"

record ('e, 'v, 'p, 'r, 'sel) bus_event_router =
  rt_subscriptions :: "(subscription, ('e, 'v, 'p, 'r, 'sel) router_plane list) gomap"
  rt_events :: "'v broadcast_event list"
  rt_overflow_total :: int
  rt_cache :: invoke_cache
  rt_options :: "'p router_options"

definition new_bus_event_router_with_options :: "'p router_options \<Rightarrow> ('e, 'v, 'p, 'r, 'sel) bus_event_router" where
  "new_bus_event_router_with_options options =
     \<lparr>rt_subscriptions = [], rt_events = [], rt_overflow_total = 0, rt_cache = [],
      rt_options = options\<lparr>
        ro_state_refresh_interval := (if ro_state_refresh_interval options \<le> 0
          then default_state_refresh_interval else ro_state_refresh_interval options),
        ro_config_refresh_interval := (if ro_config_refresh_interval options \<le> 0
          then default_config_refresh_interval else ro_config_refresh_interval options)\<rparr>\<rparr>"

definition new_bus_event_router :: "('e, 'v, 'p, 'r, 'sel) bus_event_router" where
  "new_bus_event_router = new_bus_event_router_with_options
     \<lparr>ro_state_refresh_interval = 0, ro_config_refresh_interval = 0, ro_classify_invocation = None,
      ro_disable_coalescing = False\<rparr>"

section \<open>Broadcasts\<close>

definition plane_list :: "('k, 'a list) gomap \<Rightarrow> 'k \<Rightarrow> 'a list" where
  "plane_list m k = (case gm_get m k of None \<Rightarrow> [] | Some ps \<Rightarrow> ps)"

definition subscribe :: "'a \<Rightarrow> 'k \<Rightarrow> ('k, 'a list) gomap \<Rightarrow> ('k, 'a list) gomap" where
  "subscribe plane key m = gm_put key (plane_list m key @ [plane]) m"

definition set_planes ::
  "('e, 'v, 'p, 'r, 'sel) router_plane list \<Rightarrow> ('e, 'v, 'p, 'r, 'sel) bus_event_router \<Rightarrow>
     ('e, 'v, 'p, 'r, 'sel) bus_event_router" where
  "set_planes planes router = router\<lparr>rt_subscriptions :=
     fold (\<lambda>plane. fold (subscribe plane) (rp_subscriptions plane)) planes []\<rparr>"

definition event_capacity :: nat where
  "event_capacity = 64"

text \<open>The queue send with its default case.\<close>

definition offer_event ::
  "'v broadcast_event \<Rightarrow> ('e, 'v, 'p, 'r, 'sel) bus_event_router \<Rightarrow>
     ('e, 'v, 'p, 'r, 'sel) bus_event_router \<times> 'e router_error list" where
  "offer_event event router =
     (if length (rt_events router) < event_capacity
      then (router\<lparr>rt_events := rt_events router @ [event]\<rparr>, [])
      else (router\<lparr>rt_overflow_total := rt_overflow_total router + 1\<rparr>, [BroadcastOverflow]))"

fun broadcast_to ::
  "frame \<Rightarrow> ('e, 'v, 'p, 'r, 'sel) router_plane list \<Rightarrow> ('e, 'v, 'p, 'r, 'sel) bus_event_router \<Rightarrow>
     ('e, 'v, 'p, 'r, 'sel) bus_event_router \<times> 'e router_error list" where
  "broadcast_to frame [] router = (router, [])"
| "broadcast_to frame (plane # planes) router =
     (let errs1 = (case rp_on_broadcast plane frame of None \<Rightarrow> [] | Some err \<Rightarrow> [PlaneError err]);
          (router1, errs2) =
            (case rp_decode_broadcast plane of None \<Rightarrow> (router, [])
             | Some decode \<Rightarrow>
                 (case decode frame of Inl err \<Rightarrow> (router, [PlaneError err])
                  | Inr None \<Rightarrow> (router, [])
                  | Inr (Some decoded) \<Rightarrow>
                      offer_event \<lparr>be_plane = rp_name plane, be_frame = frame, be_values = decoded\<rparr> router));
          (router2, errs3) = broadcast_to frame planes router1
      in (router2, errs1 @ errs2 @ errs3))"

definition handle_broadcast ::
  "frame \<Rightarrow> ('e, 'v, 'p, 'r, 'sel) bus_event_router \<Rightarrow>
     ('e, 'v, 'p, 'r, 'sel) bus_event_router \<times> 'e router_error list" where
  "handle_broadcast frame router =
     broadcast_to frame (plane_list (rt_subscriptions router) (fr_primary frame, fr_secondary frame)) router"

section \<open>Deciding an invocation\<close>

definition config_tokens :: "string list" where
  "config_tokens = [''config'', ''setpoint'', ''desired'', ''mode'', ''curve'', ''holiday'', ''name'', ''limit'',
     ''offset'', ''schedule'', ''timer'', ''mapping'']"

definition infer_refresh_class :: "string \<Rightarrow> refresh_class" where
  "infer_refresh_class mname =
     (let normalized = to_lower (trim_space mname)
      in if normalized = [] then refresh_class_state
         else if list_ex (str_contains normalized) config_tokens then refresh_class_config
         else refresh_class_state)"

fun class_from_keys :: "string list \<Rightarrow> 'p params \<Rightarrow> refresh_class option" where
  "class_from_keys [] params = None"
| "class_from_keys (key # keys) params =
     (case gm_get params key of
        Some (TextParam text) \<Rightarrow>
          (let normalized = to_lower (trim_space text)
           in if normalized = refresh_class_state then Some refresh_class_state
              else if normalized = refresh_class_config then Some refresh_class_config
              else class_from_keys keys params)
      | _ \<Rightarrow> class_from_keys keys params)"

definition refresh_class_from_params :: "'p params \<Rightarrow> refresh_class option" where
  "refresh_class_from_params params =
     (if length params = 0 then None else class_from_keys [''cache_class'', ''refresh_class''] params)"

definition invoke_max_age :: "'p router_options \<Rightarrow> string \<Rightarrow> 'sel bus_method \<Rightarrow> 'p params \<Rightarrow> int" where
  "invoke_max_age options pname method params =
     (if ro_disable_coalescing options \<or> \<not> bm_read_only method then 0
      else
        let class1 = infer_refresh_class (bm_name method);
            class2 = (case ro_classify_invocation options of None \<Rightarrow> class1
              | Some classify \<Rightarrow>
                  (let override = classify pname (bm_name method) params
                   in if override \<noteq> [] then override else class1));
            class3 = (case refresh_class_from_params params of None \<Rightarrow> class2 | Some c \<Rightarrow> c)
        in if class3 = refresh_class_config then ro_config_refresh_interval options
           else ro_state_refresh_interval options)"

text \<open>A nil parameter map and an empty one serialize alike; both are the empty map here.\<close>

definition build_invoke_cache_key ::
  "('p params \<Rightarrow> 'e + string) \<Rightarrow> string \<Rightarrow> string \<Rightarrow> 'p params \<Rightarrow> 'e + string" where
  "build_invoke_cache_key marshal pname mname params =
     (case marshal params of Inl err \<Rightarrow> Inl err
      | Inr serialized \<Rightarrow> Inr (pname @ ''|'' @ mname @ ''|'' @ serialized))"

definition clone_frame :: "frame \<Rightarrow> frame" where
  "clone_frame f = \<lparr>fr_source = fr_source f, fr_target = fr_target f, fr_primary = fr_primary f,
     fr_secondary = fr_secondary f, fr_data = [] @ fr_data f\<rparr>"

fun find_method :: "'sel bus_method list \<Rightarrow> string \<Rightarrow> 'sel bus_method option" where
  "find_method [] name = None"
| "find_method (m # ms) name = (if bm_name m = name then Some m else find_method ms name)"

lemma clone_frame_id [simp]: "clone_frame f = f"
  by (cases f) (simp add: clone_frame_def)

lemma find_method_eq: "find_method ms name = find (\<lambda>m. bm_name m = name) ms"
  by (induction ms) simp_all

text \<open>\<open>sendAndDecode\<close> on what the bus answered.\<close>

definition send_and_decode ::
  "'e + frame option \<Rightarrow> ('e, 'v, 'p, 'r, 'sel) router_plane \<Rightarrow> 'sel bus_method \<Rightarrow> 'p params \<Rightarrow>
     'e router_error + 'r \<times> frame" where
  "send_and_decode answer plane method params =
     (case answer of Inl err \<Rightarrow> Inl (PlaneError err)
      | Inr None \<Rightarrow> Inl InvalidPayload
      | Inr (Some response) \<Rightarrow>
          (let f = clone_frame response in
           case rp_decode_response plane method f params of Inl err \<Rightarrow> Inl (PlaneError err)
           | Inr decoded \<Rightarrow> Inr (decoded, f)))"

text \<open>\<open>Invoke\<close> up to its loop: an error, a direct send, or a call that goes through the cache.\<close>

datatype ('e, 'sel) prepared =
    PrepareError "'e router_error"
  | PrepareDirect "'sel bus_method" frame
  | PrepareCached "'sel bus_method" frame int string

definition invoke_prepare ::
  "('p params \<Rightarrow> 'e + string) \<Rightarrow> 'p router_options \<Rightarrow> ('e, 'v, 'p, 'r, 'sel) router_plane option \<Rightarrow>
     string \<Rightarrow> 'p params \<Rightarrow> ('e, 'sel) prepared" where
  "invoke_prepare marshal options plane mname params =
     (case plane of None \<Rightarrow> PrepareError InvalidPayload
      | Some p \<Rightarrow>
          (case find_method (rp_methods p) mname of None \<Rightarrow> PrepareError InvalidPayload
           | Some method \<Rightarrow>
               (case rp_build_request p method params of Inl err \<Rightarrow> PrepareError (PlaneError err)
                | Inr request \<Rightarrow>
                    (let max_age = invoke_max_age options (rp_name p) method params
                     in if max_age \<le> 0 then PrepareDirect method request
                        else case build_invoke_cache_key marshal (rp_name p) (bm_name method) params of
                          Inl err \<Rightarrow> PrepareError (PlaneError err)
                        | Inr key \<Rightarrow> PrepareCached method request max_age key))))"

section \<open>The two critical sections of the loop\<close>

datatype admission = AdmitHit frame | AdmitWait nat | AdmitRun

text \<open>\<open>time.Time.Sub\<close> saturates at the ends of the 64-bit duration range.\<close>

definition time_sub :: "int \<Rightarrow> int \<Rightarrow> int" where
  "time_sub t u = max (- (2 ^ 63)) (min (2 ^ 63 - 1) (t - u))"

definition zero_frame :: frame where
  "zero_frame = \<lparr>fr_source = 0, fr_target = 0, fr_primary = 0, fr_secondary = 0, fr_data = []\<rparr>"

definition new_invoke_entry :: invoke_entry where
  "new_invoke_entry = \<lparr>ie_running = False, ie_done = 0, ie_last_ok_at = 0, ie_last_frame = zero_frame,
     ie_has_last_frame = False\<rparr>"

definition entry_at :: "invoke_cache \<Rightarrow> string \<Rightarrow> invoke_entry" where
  "entry_at cache key = (case gm_get cache key of None \<Rightarrow> new_invoke_entry | Some x \<Rightarrow> x)"

text \<open>\<open>fresh\<close> names the channel that \<open>make\<close> would return.\<close>

definition invoke_admit ::
  "int \<Rightarrow> int \<Rightarrow> string \<Rightarrow> nat \<Rightarrow> invoke_cache \<Rightarrow> invoke_cache \<times> admission" where
  "invoke_admit now max_age key fresh cache =
     (let entry = entry_at cache key; cache1 = gm_put key entry cache; age = time_sub now (ie_last_ok_at entry)
      in if \<not> ie_running entry \<and> ie_has_last_frame entry \<and> age \<ge> 0 \<and> age \<le> max_age
         then (cache1, AdmitHit (clone_frame (ie_last_frame entry)))
         else if ie_running entry then (cache1, AdmitWait (ie_done entry))
         else (gm_put key (entry\<lparr>ie_running := True, ie_done := fresh\<rparr>) cache1, AdmitRun))"

definition invoke_complete :: "int \<Rightarrow> string \<Rightarrow> 'e + frame \<Rightarrow> invoke_cache \<Rightarrow> invoke_cache" where
  "invoke_complete now key result cache =
     (let entry = (entry_at cache key)\<lparr>ie_running := False\<rparr>
      in gm_put key (case result of Inl _ \<Rightarrow> entry
           | Inr f \<Rightarrow> entry\<lparr>ie_last_ok_at := now, ie_last_frame := clone_frame f, ie_has_last_frame := True\<rparr>) cache)"

lemma entry_at_put [simp]: "entry_at (gm_put k v m) j = (if j = k then v else entry_at m j)"
  by (simp add: entry_at_def)

lemma invoke_admit_entry:
  assumes "invoke_admit now max_age key fresh cache = (cache', a)"
  shows "entry_at cache' j = (if j = key \<and> a = AdmitRun
     then (entry_at cache key)\<lparr>ie_running := True, ie_done := fresh\<rparr> else entry_at cache j)"
    and "a = AdmitRun \<Longrightarrow> \<not> ie_running (entry_at cache key)"
    and "a = AdmitWait d \<Longrightarrow> ie_running (entry_at cache key) \<and> d = ie_done (entry_at cache key)"
    and "a = AdmitHit f \<Longrightarrow> \<not> ie_running (entry_at cache key) \<and> ie_has_last_frame (entry_at cache key) \<and>
       f = ie_last_frame (entry_at cache key) \<and> 0 \<le> time_sub now (ie_last_ok_at (entry_at cache key)) \<and>
       time_sub now (ie_last_ok_at (entry_at cache key)) \<le> max_age"
    and "\<not> ie_running (entry_at cache key) \<Longrightarrow> a = AdmitRun \<or> (\<exists>f. a = AdmitHit f)"
  using assms by (auto simp: invoke_admit_def Let_def split: if_splits)

lemma invoke_complete_entry:
  "entry_at (invoke_complete now key result cache) j = (if j \<noteq> key then entry_at cache j
     else case result of Inl _ \<Rightarrow> (entry_at cache key)\<lparr>ie_running := False\<rparr>
       | Inr f \<Rightarrow> (entry_at cache key)\<lparr>ie_running := False, ie_last_ok_at := now, ie_last_frame := f, ie_has_last_frame := True\<rparr>)"
  by (simp add: invoke_complete_def Let_def split: sum.splits)

end
