(* ===== verification/Router_Invoke.thy ===== *)
theory Router_Invoke
  imports Router
begin

text \<open>
  Concurrent calls of \<open>Invoke\<close> on one router as a step relation. Between the two critical
  sections of the loop a call sends outside the lock, and a call that meets a running one waits on
  its channel. Channels are numbers, closed when their sender completes; the bus answers, decode
  errors, cancellations and clock readings are whatever the step says. The log of completed sends
  is a ghost.
\<close>

section \<open>Calls and steps\<close>

datatype ('e, 'r) call_phase =
    Starting
  | Waiting nat
  | Sending nat
  | Finished "'e router_error + 'r"

record ('e, 'v, 'p, 'r, 'sel) invoke_call =
  cl_plane :: "('e, 'v, 'p, 'r, 'sel) router_plane"
  cl_method :: "'sel bus_method"
  cl_params :: "'p params"
  cl_request :: frame
  cl_max_age :: int
  cl_key :: string
  cl_phase :: "('e, 'r) call_phase"

record ('e, 'v, 'p, 'r, 'sel) invoke_system =
  sy_cache :: invoke_cache
  sy_calls :: "nat \<Rightarrow> ('e, 'v, 'p, 'r, 'sel) invoke_call option"
  sy_closed :: "nat set"
  sy_next :: nat
  sy_log :: "(string \<times> frame \<times> int) list"

definition new_invoke_system :: "('e, 'v, 'p, 'r, 'sel) invoke_system" where
  "new_invoke_system = \<lparr>sy_cache = [], sy_calls = (\<lambda>_. None), sy_closed = {}, sy_next = 0, sy_log = []\<rparr>"

definition set_phase ::
  "nat \<Rightarrow> ('e, 'r) call_phase \<Rightarrow> ('e, 'v, 'p, 'r, 'sel) invoke_system \<Rightarrow> ('e, 'v, 'p, 'r, 'sel) invoke_system" where
  "set_phase t ph s = s\<lparr>sy_calls := (sy_calls s)(t := map_option (\<lambda>c. c\<lparr>cl_phase := ph\<rparr>) (sy_calls s t))\<rparr>"

definition decode_hit :: "('e, 'v, 'p, 'r, 'sel) invoke_call \<Rightarrow> frame \<Rightarrow> 'e router_error + 'r" where
  "decode_hit c f = (case rp_decode_response (cl_plane c) (cl_method c) f (cl_params c) of
     Inl err \<Rightarrow> Inl (PlaneError err) | Inr decoded \<Rightarrow> Inr decoded)"

text \<open>The first critical section of a call, and what it does next.\<close>

definition admit_call ::
  "int \<Rightarrow> nat \<Rightarrow> ('e, 'v, 'p, 'r, 'sel) invoke_call \<Rightarrow> ('e, 'v, 'p, 'r, 'sel) invoke_system \<Rightarrow>
     ('e, 'v, 'p, 'r, 'sel) invoke_system" where
  "admit_call now t c s =
     (let (cache, a) = invoke_admit now (cl_max_age c) (cl_key c) (sy_next s) (sy_cache s); s1 = s\<lparr>sy_cache := cache\<rparr>
      in case a of
           AdmitHit f \<Rightarrow> set_phase t (Finished (decode_hit c f)) s1
         | AdmitWait d \<Rightarrow> set_phase t (Waiting d) s1
         | AdmitRun \<Rightarrow> set_phase t (Sending (sy_next s)) (s1\<lparr>sy_next := Suc (sy_next s)\<rparr>))"

text \<open>The second critical section, with the answer of the bus.\<close>

definition complete_call ::
  "int \<Rightarrow> nat \<Rightarrow> nat \<Rightarrow> ('e, 'v, 'p, 'r, 'sel) invoke_call \<Rightarrow> 'e + frame option \<Rightarrow>
     ('e, 'v, 'p, 'r, 'sel) invoke_system \<Rightarrow> ('e, 'v, 'p, 'r, 'sel) invoke_system" where
  "complete_call now t d c answer s =
     (let result = send_and_decode answer (cl_plane c) (cl_method c) (cl_params c);
          s1 = s\<lparr>sy_cache := invoke_complete now (cl_key c)
                  (case result of Inl err \<Rightarrow> Inl err | Inr (decoded, f) \<Rightarrow> Inr f) (sy_cache s),
                 sy_closed := insert d (sy_closed s),
                 sy_log := (case result of Inl _ \<Rightarrow> sy_log s | Inr (decoded, f) \<Rightarrow> (cl_key c, f, now) # sy_log s)\<rparr>
      in set_phase t (Finished (case result of Inl err \<Rightarrow> Inl err | Inr (decoded, f) \<Rightarrow> Inr decoded)) s1)"

inductive invoke_step ::
  "('e, 'v, 'p, 'r, 'sel) invoke_system \<Rightarrow> ('e, 'v, 'p, 'r, 'sel) invoke_system \<Rightarrow> bool" where
  step_call: "sy_calls s t = None \<Longrightarrow> cl_phase c = Starting \<Longrightarrow> invoke_step s (s\<lparr>sy_calls := (sy_calls s)(t \<mapsto> c)\<rparr>)"
| step_lock: "sy_calls s t = Some c \<Longrightarrow> cl_phase c = Starting \<Longrightarrow> invoke_step s (admit_call now t c s)"
| step_wake: "sy_calls s t = Some c \<Longrightarrow> cl_phase c = Waiting d \<Longrightarrow> d \<in> sy_closed s \<Longrightarrow> invoke_step s (set_phase t Starting s)"
| step_cancel: "sy_calls s t = Some c \<Longrightarrow> cl_phase c = Waiting d \<Longrightarrow>
     invoke_step s (set_phase t (Finished (Inl ContextDone)) s)"
| step_answer: "sy_calls s t = Some c \<Longrightarrow> cl_phase c = Sending d \<Longrightarrow> invoke_step s (complete_call now t d c answer s)"

inductive_cases invoke_stepE: "invoke_step s u"

section \<open>The invariant\<close>

text \<open>\<open>sends s t k d\<close>: call \<open>t\<close> is sending for key \<open>k\<close> with channel \<open>d\<close>.\<close>

definition sends :: "('e, 'v, 'p, 'r, 'sel) invoke_system \<Rightarrow> nat \<Rightarrow> string \<Rightarrow> nat \<Rightarrow> bool" where
  "sends s t k d \<longleftrightarrow> (\<exists>c. sy_calls s t = Some c \<and> cl_key c = k \<and> cl_phase c = Sending d)"

definition waits :: "('e, 'v, 'p, 'r, 'sel) invoke_system \<Rightarrow> nat \<Rightarrow> string \<Rightarrow> nat \<Rightarrow> bool" where
  "waits s t k d \<longleftrightarrow> (\<exists>c. sy_calls s t = Some c \<and> cl_key c = k \<and> cl_phase c = Waiting d)"

definition invoke_ok :: "('e, 'v, 'p, 'r, 'sel) invoke_system \<Rightarrow> bool" where
  "invoke_ok s \<longleftrightarrow>
     (\<forall>t k d. sends s t k d \<longrightarrow> ie_running (entry_at (sy_cache s) k) \<and> ie_done (entry_at (sy_cache s) k) = d) \<and>
     (\<forall>k. ie_running (entry_at (sy_cache s) k) \<longrightarrow> (\<exists>t. sends s t k (ie_done (entry_at (sy_cache s) k)))) \<and>
     (\<forall>t u k l d. sends s t k d \<and> sends s u l d \<longrightarrow> t = u) \<and>
     (\<forall>t k d. sends s t k d \<longrightarrow> d < sy_next s \<and> d \<notin> sy_closed s) \<and>
     (\<forall>t k d. waits s t k d \<longrightarrow> d \<in> sy_closed s \<or> (\<exists>u. sends s u k d)) \<and>
     (\<forall>d \<in> sy_closed s. d < sy_next s) \<and>
     (\<forall>k. ie_has_last_frame (entry_at (sy_cache s) k) \<longrightarrow>
        (k, ie_last_frame (entry_at (sy_cache s) k), ie_last_ok_at (entry_at (sy_cache s) k)) \<in> set (sy_log s))"

lemma invoke_okD:
  assumes "invoke_ok s"
  shows "sends s t k d \<Longrightarrow> ie_running (entry_at (sy_cache s) k) \<and> ie_done (entry_at (sy_cache s) k) = d"
    and "ie_running (entry_at (sy_cache s) k) \<Longrightarrow> \<exists>t. sends s t k (ie_done (entry_at (sy_cache s) k))"
    and "sends s t k d \<Longrightarrow> sends s u l d \<Longrightarrow> t = u"
    and "sends s t k d \<Longrightarrow> d < sy_next s \<and> d \<notin> sy_closed s"
    and "waits s t k d \<Longrightarrow> d \<in> sy_closed s \<or> (\<exists>u. sends s u k d)"
    and "d \<in> sy_closed s \<Longrightarrow> d < sy_next s"
    and "ie_has_last_frame (entry_at (sy_cache s) k) \<Longrightarrow>
       (k, ie_last_frame (entry_at (sy_cache s) k), ie_last_ok_at (entry_at (sy_cache s) k)) \<in> set (sy_log s)"
  using assms unfolding invoke_ok_def by blast+

lemma set_phase_selectors [simp]:
  "sy_cache (set_phase t ph s) = sy_cache s" "sy_closed (set_phase t ph s) = sy_closed s"
  "sy_next (set_phase t ph s) = sy_next s" "sy_log (set_phase t ph s) = sy_log s"
  by (simp_all add: set_phase_def)

lemma sends_set_phase:
  assumes "sy_calls s t = Some c"
  shows "sends (set_phase t ph s) u k d \<longleftrightarrow> (if u = t then cl_key c = k \<and> ph = Sending d else sends s u k d)"
    and "waits (set_phase t ph s) u k d \<longleftrightarrow> (if u = t then cl_key c = k \<and> ph = Waiting d else waits s u k d)"
  using assms by (auto simp: sends_def waits_def set_phase_def)

lemma sends_frame [simp]:
  "sends (s\<lparr>sy_cache := C\<rparr>) = sends s" "waits (s\<lparr>sy_cache := C\<rparr>) = waits s"
  "sends (s\<lparr>sy_next := n\<rparr>) = sends s" "waits (s\<lparr>sy_next := n\<rparr>) = waits s"
  "sends (s\<lparr>sy_cache := C, sy_closed := D, sy_log := L\<rparr>) = sends s"
  "waits (s\<lparr>sy_cache := C, sy_closed := D, sy_log := L\<rparr>) = waits s"
  by (simp_all add: sends_def waits_def fun_eq_iff)

lemma new_invoke_ok: "invoke_ok new_invoke_system"
  by (simp add: invoke_ok_def new_invoke_system_def sends_def waits_def entry_at_def new_invoke_entry_def)

text \<open>A call that stops waiting or starts changes nothing that the invariant speaks of.\<close>

lemma quiet_ok:
  assumes ok: "invoke_ok s" and c: "sy_calls s t = Some c" and n: "\<And>d. cl_phase c \<noteq> Sending d"
    and ph: "\<And>d. ph \<noteq> Sending d" "\<And>d. ph \<noteq> Waiting d"
  shows "invoke_ok (set_phase t ph s)"
proof -
  have s: "sends (set_phase t ph s) u k d \<longleftrightarrow> sends s u k d" for u k d
    unfolding sends_set_phase [OF c] using ph(1) c n by (auto simp: sends_def)
  have w: "waits (set_phase t ph s) u k d \<Longrightarrow> waits s u k d" for u k d
    unfolding sends_set_phase [OF c] using ph(2) [of d] by (auto split: if_splits)
  have "\<forall>u k d. waits (set_phase t ph s) u k d \<longrightarrow> d \<in> sy_closed s \<or> (\<exists>v. sends s v k d)"
    using w invoke_okD(5) [OF ok] by blast
  then show ?thesis
    using ok unfolding invoke_ok_def s set_phase_selectors by (elim conjE) (intro conjI; assumption)
qed

lemma admit_ok:
  assumes ok: "invoke_ok s" and c: "sy_calls s t = Some c" and st: "cl_phase c = Starting"
  shows "invoke_ok (admit_call now t c s)"
proof -
  note I = invoke_okD [OF ok]
  let ?k = "cl_key c"
  obtain cache a where a: "invoke_admit now (cl_max_age c) ?k (sy_next s) (sy_cache s) = (cache, a)"
    by (cases "invoke_admit now (cl_max_age c) ?k (sy_next s) (sy_cache s)")
  note E = invoke_admit_entry [OF a]
  have quiet: "\<not> sends s t k d" "\<not> waits s t k d" for k d using c st by (simp_all add: sends_def waits_def)
  show ?thesis
  proof (cases a)
    case (AdmitHit f)
    then have same: "entry_at cache j = entry_at (sy_cache s) j" for j using E(1) by simp
    have "invoke_ok (s\<lparr>sy_cache := cache\<rparr>)" using ok by (simp add: invoke_ok_def same)
    moreover have "admit_call now t c s = set_phase t (Finished (decode_hit c f)) (s\<lparr>sy_cache := cache\<rparr>)"
      using AdmitHit by (simp add: admit_call_def a)
    ultimately show ?thesis using quiet_ok [of "s\<lparr>sy_cache := cache\<rparr>" t c] c st by simp
  next
    case (AdmitWait d)
    then have same: "entry_at cache j = entry_at (sy_cache s) j" for j using E(1) by simp
    let ?t = "set_phase t (Waiting d) (s\<lparr>sy_cache := cache\<rparr>)"
    have t: "admit_call now t c s = ?t" using AdmitWait by (simp add: admit_call_def a)
    have c': "sy_calls (s\<lparr>sy_cache := cache\<rparr>) t = Some c" using c by simp
    have sd: "sends ?t u k e \<longleftrightarrow> sends s u k e" for u k e
      unfolding sends_set_phase [OF c'] using quiet by simp
    have wt: "waits ?t u k e \<longleftrightarrow> waits s u k e \<or> u = t \<and> k = ?k \<and> e = d" for u k e
      unfolding sends_set_phase [OF c'] using quiet by auto
    have "\<exists>u. sends s u ?k d" using E(3) [OF AdmitWait] I(2) by blast
    then have "\<forall>u k e. waits ?t u k e \<longrightarrow> e \<in> sy_closed s \<or> (\<exists>v. sends s v k e)" unfolding wt using I(5) by blast
    then show ?thesis
      unfolding t invoke_ok_def sd by (simp add: same) (use I in blast)
  next
    case AdmitRun
    let ?s1 = "s\<lparr>sy_cache := cache, sy_next := Suc (sy_next s)\<rparr>" and ?d = "sy_next s"
    let ?t = "set_phase t (Sending ?d) ?s1"
    have t: "admit_call now t c s = ?t" using AdmitRun by (simp add: admit_call_def a)
    have c': "sy_calls ?s1 t = Some c" using c by simp
    have base: "sends ?s1 = sends s" "waits ?s1 = waits s" by (simp_all add: sends_def waits_def fun_eq_iff)
    have sd: "sends ?t u k e \<longleftrightarrow> sends s u k e \<or> u = t \<and> k = ?k \<and> e = ?d" for u k e
      unfolding sends_set_phase [OF c'] base using quiet by auto
    have wt: "waits ?t u k e \<longleftrightarrow> waits s u k e" for u k e
      unfolding sends_set_phase [OF c'] base using quiet by auto
    have entry: "entry_at cache j = (if j = ?k then (entry_at (sy_cache s) ?k)\<lparr>ie_running := True, ie_done := ?d\<rparr>
        else entry_at (sy_cache s) j)" for j using E(1) AdmitRun by simp
    have idle: "\<not> sends s u ?k e" for u e using E(2) [OF AdmitRun] I(1) by blast
    have 1: "\<forall>u k e. sends ?t u k e \<longrightarrow> ie_running (entry_at cache k) \<and> ie_done (entry_at cache k) = e"
      unfolding sd entry using I(1) idle by auto
    have 2: "\<forall>k. ie_running (entry_at cache k) \<longrightarrow> (\<exists>u. sends ?t u k (ie_done (entry_at cache k)))"
      unfolding sd entry using I(2) by auto
    have 3: "\<forall>u v k l e. sends ?t u k e \<and> sends ?t v l e \<longrightarrow> u = v"
    proof (intro allI impI)
      fix u v k l e assume "sends ?t u k e \<and> sends ?t v l e"
      moreover have "sends s w j e \<Longrightarrow> e \<noteq> ?d" for w j using I(4) by blast
      ultimately show "u = v" unfolding sd using I(3) by metis
    qed
    have 4: "\<forall>u k e. sends ?t u k e \<longrightarrow> e < Suc ?d \<and> e \<notin> sy_closed s"
      unfolding sd using I(4,6) less_SucI by blast
    have 5: "\<forall>u k e. waits ?t u k e \<longrightarrow> e \<in> sy_closed s \<or> (\<exists>v. sends ?t v k e)"
      unfolding wt sd using I(5) by blast
    have 7: "\<forall>k. ie_has_last_frame (entry_at cache k) \<longrightarrow>
        (k, ie_last_frame (entry_at cache k), ie_last_ok_at (entry_at cache k)) \<in> set (sy_log s)"
      unfolding entry using I(7) by simp
    show ?thesis
      unfolding t invoke_ok_def using 1 2 3 4 5 7 I(6) by (simp add: less_SucI)
  qed
qed

lemma complete_ok:
  assumes ok: "invoke_ok s" and c: "sy_calls s t = Some c" and st: "cl_phase c = Sending d"
  shows "invoke_ok (complete_call now t d c answer s)"
proof -
  note I = invoke_okD [OF ok]
  let ?k = "cl_key c"
  define result where "result = send_and_decode answer (cl_plane c) (cl_method c) (cl_params c)"
  define ok_frame where "ok_frame = (case result of Inl err \<Rightarrow> Inl err | Inr (decoded, f) \<Rightarrow> Inr f)"
  define L where "L = (case result of Inl _ \<Rightarrow> sy_log s | Inr (decoded, f) \<Rightarrow> (?k, f, now) # sy_log s)"
  define ph where "ph = Finished (case result of Inl err \<Rightarrow> Inl err | Inr (decoded, f) \<Rightarrow> Inr decoded)"
  let ?C = "invoke_complete now ?k ok_frame (sy_cache s)"
  let ?s1 = "s\<lparr>sy_cache := ?C, sy_closed := insert d (sy_closed s), sy_log := L\<rparr>"
  have t: "complete_call now t d c answer s = set_phase t ph ?s1"
    by (simp only: complete_call_def result_def [symmetric] ok_frame_def L_def ph_def Let_def)
  have me: "sends s t ?k d" using c st by (simp add: sends_def)
  have c': "sy_calls ?s1 t = Some c" using c by simp
  have fin: "ph \<noteq> Sending e" "ph \<noteq> Waiting e" for e by (simp_all add: ph_def)
  have sd: "sends (set_phase t ph ?s1) u k e \<longleftrightarrow> sends s u k e \<and> u \<noteq> t" for u k e
    unfolding sends_set_phase [OF c'] using fin by simp
  have wt: "waits (set_phase t ph ?s1) u k e \<Longrightarrow> waits s u k e" for u k e
    unfolding sends_set_phase [OF c'] using fin(2) [of e] by (auto split: if_splits)
  have entry: "entry_at ?C j = (if j \<noteq> ?k then entry_at (sy_cache s) j
     else case ok_frame of Inl _ \<Rightarrow> (entry_at (sy_cache s) ?k)\<lparr>ie_running := False\<rparr>
       | Inr f \<Rightarrow> (entry_at (sy_cache s) ?k)\<lparr>ie_running := False, ie_last_ok_at := now, ie_last_frame := f,
           ie_has_last_frame := True\<rparr>)" for j by (rule invoke_complete_entry)
  have run: "ie_running (entry_at ?C j) \<longleftrightarrow> j \<noteq> ?k \<and> ie_running (entry_at (sy_cache s) j)"
    "j \<noteq> ?k \<Longrightarrow> entry_at ?C j = entry_at (sy_cache s) j" for j
    by (simp_all add: entry split: sum.splits)
  have only: "e = d \<and> u = t" if "sends s u ?k e" for u e using I(1) [OF that] I(1) [OF me] I(3) [OF _ me] that by auto
  have mine: "u = t" if "sends s u k d" for u k using I(3) [OF that me] .
  have mykey: "k = ?k" if "sends s t k e" for k e using that c by (simp add: sends_def)
  have 1: "\<forall>u k e. sends (set_phase t ph ?s1) u k e \<longrightarrow> ie_running (entry_at ?C k) \<and> ie_done (entry_at ?C k) = e"
  proof (intro allI impI)
    fix u k e assume "sends (set_phase t ph ?s1) u k e"
    then have u: "sends s u k e" "u \<noteq> t" using sd by blast+
    then have "k \<noteq> ?k" using only by blast
    then show "ie_running (entry_at ?C k) \<and> ie_done (entry_at ?C k) = e" using I(1) [OF u(1)] run by simp
  qed
  have 2: "\<forall>k. ie_running (entry_at ?C k) \<longrightarrow> (\<exists>u. sends (set_phase t ph ?s1) u k (ie_done (entry_at ?C k)))"
  proof (intro allI impI)
    fix k assume "ie_running (entry_at ?C k)"
    then have k: "k \<noteq> ?k" "ie_running (entry_at (sy_cache s) k)" "entry_at ?C k = entry_at (sy_cache s) k" using run by auto
    then obtain u where "sends s u k (ie_done (entry_at (sy_cache s) k))" using I(2) by blast
    then show "\<exists>u. sends (set_phase t ph ?s1) u k (ie_done (entry_at ?C k))" unfolding sd k(3) using k(1) mykey by blast
  qed
  have 4: "\<forall>u k e. sends (set_phase t ph ?s1) u k e \<longrightarrow> e < sy_next s \<and> e \<notin> insert d (sy_closed s)"
    unfolding sd using I(4) mine by blast
  have 5: "\<forall>u k e. waits (set_phase t ph ?s1) u k e \<longrightarrow> e \<in> insert d (sy_closed s) \<or> (\<exists>v. sends (set_phase t ph ?s1) v k e)"
  proof (intro allI impI)
    fix u k e assume "waits (set_phase t ph ?s1) u k e"
    then have "e \<in> sy_closed s \<or> (\<exists>v. sends s v k e)" using wt I(5) by blast
    moreover have "e = d" if "sends s t k e" using that c st by (simp add: sends_def)
    ultimately show "e \<in> insert d (sy_closed s) \<or> (\<exists>v. sends (set_phase t ph ?s1) v k e)" unfolding sd by blast
  qed
  have 7: "\<forall>k. ie_has_last_frame (entry_at ?C k) \<longrightarrow>
      (k, ie_last_frame (entry_at ?C k), ie_last_ok_at (entry_at ?C k)) \<in> set L"
  proof (intro allI impI)
    fix k assume h: "ie_has_last_frame (entry_at ?C k)"
    have sub: "set (sy_log s) \<subseteq> set L" by (auto simp: L_def split: sum.splits)
    show "(k, ie_last_frame (entry_at ?C k), ie_last_ok_at (entry_at ?C k)) \<in> set L"
    proof (cases "k = ?k")
      case True
      then show ?thesis using h I(7) [of ?k] sub by (auto simp: invoke_complete_entry ok_frame_def L_def split: sum.splits)
    next
      case False
      then show ?thesis using h I(7) [of k] sub run(2) by auto
    qed
  qed
  have 6: "\<forall>e \<in> insert d (sy_closed s). e < sy_next s" using I(4) [OF me] I(6) by blast
  have 3: "\<forall>u v k l e. sends (set_phase t ph ?s1) u k e \<and> sends (set_phase t ph ?s1) v l e \<longrightarrow> u = v"
    unfolding sd using I(3) by blast
  show ?thesis unfolding t invoke_ok_def using 1 2 3 4 5 6 7 by simp
qed

lemma invoke_step_ok:
  assumes ok: "invoke_ok s" and step: "invoke_step s u"
  shows "invoke_ok u"
  using step
proof cases
  case (step_call t c)
  then have "sends u = sends s" "waits u = waits s" by (auto simp: sends_def waits_def fun_eq_iff)
  then show ?thesis using ok step_call(1) by (simp add: invoke_ok_def)
next
  case step_lock
  then show ?thesis using admit_ok [OF ok] by blast
next
  case step_wake
  then show ?thesis using quiet_ok [OF ok] by simp
next
  case step_cancel
  then show ?thesis using quiet_ok [OF ok] by simp
next
  case step_answer
  then show ?thesis using complete_ok [OF ok] by blast
qed

interpretation iv: invariant_system "\<lambda>s. s = new_invoke_system" invoke_step invoke_ok
  by unfold_locales (auto simp: new_invoke_ok intro: invoke_step_ok)

abbreviation invoke_reachable :: "('e, 'v, 'p, 'r, 'sel) invoke_system \<Rightarrow> bool" where
  "invoke_reachable \<equiv> reach (\<lambda>s. s = new_invoke_system) invoke_step"

end
