(* ===== verification/Router_Properties.thy ===== *)
theory Router_Properties
  imports Router_Invoke
begin

text \<open>
  What the router promises: exact delivery of broadcasts into the bounded queue, one send per key
  at a time, answers from the cache that are fresh, no stranded caller, and what the cache key does
  not tell apart.
\<close>

section \<open>Broadcasts\<close>

lemma plane_list_put [simp]: "plane_list (gm_put k v m) j = (if j = k then v else plane_list m j)"
  by (simp add: plane_list_def)

lemma subscribe_all: "plane_list (fold (subscribe p) subs m) k = plane_list m k @ replicate (count_list subs k) p"
  by (induction subs arbitrary: m) (auto simp: subscribe_def replicate_append_same)

lemma set_planes_list:
  "plane_list (fold (\<lambda>p. fold (subscribe p) (rp_subscriptions p)) ps m) k =
     plane_list m k @ concat (map (\<lambda>p. replicate (count_list (rp_subscriptions p) k) p) ps)"
  by (induction ps arbitrary: m) (simp_all add: subscribe_all)

text \<open>The event a plane makes of a broadcast, if any.\<close>

definition plane_event :: "frame \<Rightarrow> ('e, 'v, 'p, 'r, 'sel) router_plane \<Rightarrow> 'v broadcast_event option" where
  "plane_event frame p = (case rp_decode_broadcast p of None \<Rightarrow> None
     | Some decode \<Rightarrow> (case decode frame of Inr (Some decoded) \<Rightarrow>
           Some \<lparr>be_plane = rp_name p, be_frame = frame, be_values = decoded\<rparr> | _ \<Rightarrow> None))"

lemma offer_event_effect:
  "offer_event e r = (r', errs) \<Longrightarrow>
     rt_events r' = rt_events r @ take (event_capacity - length (rt_events r)) [e] \<and>
     rt_overflow_total r' = rt_overflow_total r + int (length (drop (event_capacity - length (rt_events r)) [e])) \<and>
     count_list errs BroadcastOverflow = length (drop (event_capacity - length (rt_events r)) [e]) \<and>
     rt_subscriptions r' = rt_subscriptions r \<and> rt_cache r' = rt_cache r \<and> rt_options r' = rt_options r"
  by (cases "event_capacity - length (rt_events r)") (auto simp: offer_event_def split: if_splits)

lemma count_append [simp]: "count_list (xs @ ys) x = count_list xs x + count_list ys x"
  by (induction xs) simp_all

lemma broadcast_to_effect:
  "broadcast_to frame ps r = (r', errs) \<Longrightarrow>
     (let room = event_capacity - length (rt_events r); events = List.map_filter (plane_event frame) ps in
      rt_events r' = rt_events r @ take room events \<and>
      rt_overflow_total r' = rt_overflow_total r + int (length (drop room events)) \<and>
      count_list errs BroadcastOverflow = length (drop room events) \<and>
      rt_subscriptions r' = rt_subscriptions r \<and> rt_cache r' = rt_cache r \<and> rt_options r' = rt_options r)"
proof (induction ps arbitrary: r r' errs)
  case Nil
  then show ?case by (simp add: map_filter_simps)
next
  case (Cons p ps)
  define errs1 :: "'a router_error list" where
    "errs1 = (case rp_on_broadcast p frame of None \<Rightarrow> [] | Some err \<Rightarrow> [PlaneError err])"
  define mid where "mid = (case rp_decode_broadcast p of None \<Rightarrow> (r, [])
     | Some decode \<Rightarrow> (case decode frame of Inl err \<Rightarrow> (r, [PlaneError err])
          | Inr None \<Rightarrow> (r, [])
          | Inr (Some decoded) \<Rightarrow> offer_event \<lparr>be_plane = rp_name p, be_frame = frame, be_values = decoded\<rparr> r))"
  obtain r1 errs2 where mid1: "mid = (r1, errs2)" by (cases mid)
  obtain r2 errs3 where rest: "broadcast_to frame ps r1 = (r2, errs3)" by (cases "broadcast_to frame ps r1")
  have res: "r' = r2 \<and> errs = errs1 @ errs2 @ errs3"
    using Cons.prems mid1 rest by (simp add: errs1_def mid_def)
  have none: "count_list errs1 BroadcastOverflow = 0" by (simp add: errs1_def split: option.splits)
  note IH = Cons.IH [OF rest, unfolded Let_def]
  show ?case
  proof (cases "plane_event frame p")
    case None
    then have m: "r1 = r" "count_list errs2 BroadcastOverflow = 0"
      using mid1 by (auto simp: plane_event_def mid_def split: option.splits sum.splits)
    show ?thesis using IH res none m None by (simp add: map_filter_simps Let_def)
  next
    case (Some ev)
    then have "offer_event ev r = (r1, errs2)"
      using mid1 by (auto simp: plane_event_def mid_def split: option.splits sum.splits)
    note O = offer_event_effect [OF this]
    show ?thesis
    proof (cases "event_capacity - length (rt_events r)")
      case 0
      then show ?thesis using IH res none O Some by (simp add: map_filter_simps Let_def)
    next
      case (Suc n)
      then have "rt_events r1 = rt_events r @ [ev]" "event_capacity - length (rt_events r1) = n" using O by auto
      then show ?thesis using IH res none O Some Suc by (simp add: map_filter_simps Let_def)
    qed
  qed
qed

text \<open>(C18)
  After \<open>SetPlanes\<close>, \<open>HandleBroadcast\<close> asks the planes in order, a plane as often as it lists the
  subscription of the frame. The decoded events go to the queue in that order until 64 are queued;
  each of the others counts as one overflow and is reported as one overflow error. Nothing else of
  the router changes.
\<close>

theorem broadcast_exact:
  "let (router', errs) = handle_broadcast frame (set_planes planes router);
       asked = concat (map (\<lambda>p. replicate (count_list (rp_subscriptions p) (fr_primary frame, fr_secondary frame)) p) planes);
       events = List.map_filter (plane_event frame) asked;
       room = 64 - length (rt_events router)
   in rt_events router' = rt_events router @ take room events \<and>
      rt_overflow_total router' = rt_overflow_total router + int (length (drop room events)) \<and>
      count_list errs BroadcastOverflow = length (drop room events) \<and>
      rt_subscriptions router' = rt_subscriptions (set_planes planes router) \<and>
      rt_cache router' = rt_cache router \<and> rt_options router' = rt_options router"
proof -
  obtain router' errs where h: "handle_broadcast frame (set_planes planes router) = (router', errs)"
    by (cases "handle_broadcast frame (set_planes planes router)")
  have asked: "plane_list (rt_subscriptions (set_planes planes router)) k =
      concat (map (\<lambda>p. replicate (count_list (rp_subscriptions p) k) p) planes)" for k
    by (simp add: set_planes_def set_planes_list) (simp add: plane_list_def)
  note B = broadcast_to_effect [OF h [unfolded handle_broadcast_def asked], unfolded Let_def]
  have same: "rt_events (set_planes planes router) = rt_events router"
    "rt_overflow_total (set_planes planes router) = rt_overflow_total router"
    "rt_cache (set_planes planes router) = rt_cache router" "rt_options (set_planes planes router) = rt_options router"
    by (simp_all add: set_planes_def)
  show ?thesis unfolding h Let_def prod.case using B unfolding same event_capacity_def by blast
qed

section \<open>Concurrent invocations\<close>

text \<open>(C19)
  Whatever the interleaving of callers, answers, failures and cancellations, at most one call is
  sending for a key at any time.
\<close>

theorem invoke_exclusive:
  assumes "invoke_reachable s"
    and "sy_calls s t = Some c" "cl_phase c = Sending d"
    and "sy_calls s u = Some c'" "cl_phase c' = Sending d'"
    and "cl_key c = cl_key c'"
  shows "t = u"
proof -
  note I = invoke_okD [OF iv.reach_inv [OF assms(1)]]
  have s: "sends s t (cl_key c) d" "sends s u (cl_key c) d'" using assms by (auto simp: sends_def)
  then have "d = d'" using I(1) by metis
  then show ?thesis using I(3) s by blast
qed

lemma admit_call_self:
  assumes "sy_calls s t = Some c"
    and "invoke_admit now (cl_max_age c) (cl_key c) (sy_next s) (sy_cache s) = (cache, a)"
  shows "sy_calls (admit_call now t c s) t = Some (c\<lparr>cl_phase := (case a of AdmitHit f \<Rightarrow> Finished (decode_hit c f)
       | AdmitWait d \<Rightarrow> Waiting d | AdmitRun \<Rightarrow> Sending (sy_next s))\<rparr>)"
  using assms by (simp add: admit_call_def set_phase_def split: admission.splits)

text \<open>(C20)
  A call that the first critical section answers without a send gets the decoding, by its own plane,
  of the frame of an earlier successful send for the same key, whose completion lies in the past by
  no more than the age limit of the call.
\<close>

theorem cache_answer_fresh:
  assumes "invoke_reachable s" and "sy_calls s t = Some c" and "cl_phase c = Starting"
    and "sy_calls (admit_call now t c s) t = Some c'" and "cl_phase c' = Finished r"
  shows "\<exists>f tm. (cl_key c, f, tm) \<in> set (sy_log s) \<and> 0 \<le> time_sub now tm \<and> time_sub now tm \<le> cl_max_age c \<and>
     r = decode_hit c f"
proof -
  note I = invoke_okD [OF iv.reach_inv [OF assms(1)]]
  obtain cache a where a: "invoke_admit now (cl_max_age c) (cl_key c) (sy_next s) (sy_cache s) = (cache, a)"
    by (cases "invoke_admit now (cl_max_age c) (cl_key c) (sy_next s) (sy_cache s)")
  obtain f where f: "a = AdmitHit f" "r = decode_hit c f"
    using assms(4,5) admit_call_self [OF assms(2) a] by (cases a) auto
  show ?thesis using invoke_admit_entry(4) [OF a f(1)] I(7) [of "cl_key c"] f(2) by blast
qed

text \<open>Steps towards an answer.\<close>

lemma complete_call_frame:
  assumes "sy_calls s u = Some c"
  shows "t \<noteq> u \<Longrightarrow> sy_calls (complete_call now u d c answer s) t = sy_calls s t"
    and "d \<in> sy_closed (complete_call now u d c answer s)"
    and "\<not> ie_running (entry_at (sy_cache (complete_call now u d c answer s)) (cl_key c))"
    and "sy_calls (complete_call now u d c (Inr None) s) u = Some (c\<lparr>cl_phase := Finished (Inl InvalidPayload)\<rparr>)"
  using assms by (simp_all add: complete_call_def set_phase_def Let_def invoke_complete_entry send_and_decode_def
      split: sum.splits)

definition answered :: "('e, 'v, 'p, 'r, 'sel) invoke_system \<Rightarrow> nat \<Rightarrow> bool" where
  "answered s t \<longleftrightarrow> (\<exists>c r. sy_calls s t = Some c \<and> cl_phase c = Finished r \<and> r \<noteq> Inl ContextDone)"

lemma sending_answers:
  assumes "sy_calls s t = Some c" and "cl_phase c = Sending d"
  shows "\<exists>u. invoke_step s u \<and> answered u t"
  using step_answer [OF assms] complete_call_frame(4) [OF assms(1)] by (fastforce simp: answered_def)

lemma idle_answers:
  assumes c: "sy_calls s t = Some c" "cl_phase c = Starting" and idle: "\<not> ie_running (entry_at (sy_cache s) (cl_key c))"
  shows "\<exists>u. invoke_step\<^sup>*\<^sup>* s u \<and> answered u t"
proof -
  obtain cache a where a: "invoke_admit 0 (cl_max_age c) (cl_key c) (sy_next s) (sy_cache s) = (cache, a)"
    by (cases "invoke_admit 0 (cl_max_age c) (cl_key c) (sy_next s) (sy_cache s)")
  let ?s1 = "admit_call 0 t c s"
  have step: "invoke_step s ?s1" by (rule step_lock [OF c])
  note self = admit_call_self [OF c(1) a]
  consider f where "a = AdmitHit f" | "a = AdmitRun" using invoke_admit_entry(5) [OF a idle] by blast
  then show ?thesis
  proof cases
    case 1
    have "decode_hit c f \<noteq> Inl ContextDone" by (simp add: decode_hit_def split: sum.splits)
    then have "answered ?s1 t" using self 1 by (simp add: answered_def)
    then show ?thesis using step by blast
  next
    case 2
    then have "sy_calls ?s1 t = Some (c\<lparr>cl_phase := Sending (sy_next s)\<rparr>)" using self by simp
    from sending_answers [OF this] obtain u where "invoke_step ?s1 u" "answered u t" by auto
    then show ?thesis using step by (meson converse_rtranclp_into_rtranclp r_into_rtranclp)
  qed
qed

lemma starting_answers:
  assumes ok: "invoke_ok s" and c: "sy_calls s t = Some c" "cl_phase c = Starting"
  shows "\<exists>u. invoke_step\<^sup>*\<^sup>* s u \<and> answered u t"
proof (cases "ie_running (entry_at (sy_cache s) (cl_key c))")
  case True
  then obtain v c' d where v: "sy_calls s v = Some c'" "cl_key c' = cl_key c" "cl_phase c' = Sending d"
    using invoke_okD(2) [OF ok True] by (auto simp: sends_def)
  have "v \<noteq> t" using v c by auto
  let ?s1 = "complete_call 0 v d c' (Inr None) s"
  have step: "invoke_step s ?s1" by (rule step_answer [OF v(1,3)])
  note F = complete_call_frame [OF v(1)]
  have "sy_calls ?s1 t = Some c" using F(1) \<open>v \<noteq> t\<close> c(1) by simp
  moreover have "\<not> ie_running (entry_at (sy_cache ?s1) (cl_key c))" using F(3) v(2) by metis
  ultimately show ?thesis using idle_answers c(2) step by (meson converse_rtranclp_into_rtranclp)
qed (use idle_answers [OF c] in blast)

text \<open>(C21)
  No caller is stranded: from every reachable state, every call that is not finished can still be
  answered, without being cancelled. A waiting call never waits on a channel that nobody will close.
\<close>

theorem invoke_progress:
  assumes "invoke_reachable s" and "sy_calls s t = Some c" and "\<And>r. cl_phase c \<noteq> Finished r"
  shows "\<exists>u c' r. invoke_step\<^sup>*\<^sup>* s u \<and> sy_calls u t = Some c' \<and> cl_phase c' = Finished r \<and> r \<noteq> Inl ContextDone"
proof -
  have ok: "invoke_ok s" by (rule iv.reach_inv [OF assms(1)])
  have "\<exists>u. invoke_step\<^sup>*\<^sup>* s u \<and> answered u t"
  proof (cases "cl_phase c")
    case Starting
    then show ?thesis using starting_answers [OF ok assms(2)] by blast
  next
    case (Sending d)
    then show ?thesis using sending_answers [OF assms(2)] by blast
  next
    case (Waiting d)
    have wake: ?thesis if "invoke_step\<^sup>*\<^sup>* s s1" "invoke_ok s1" "sy_calls s1 t = Some c" "d \<in> sy_closed s1" for s1
    proof -
      let ?s2 = "set_phase t Starting s1"
      have step: "invoke_step s1 ?s2" by (rule step_wake [OF that(3) Waiting that(4)])
      have "sy_calls ?s2 t = Some (c\<lparr>cl_phase := Starting\<rparr>)" using that(3) by (simp add: set_phase_def)
      from starting_answers [OF invoke_step_ok [OF that(2) step] this] show ?thesis
        using that(1) step by (auto intro: rtranclp_trans rtranclp.rtrancl_into_rtrancl)
    qed
    have "waits s t (cl_key c) d" using assms(2) Waiting by (simp add: waits_def)
    from invoke_okD(5) [OF ok this] show ?thesis
    proof
      assume "d \<in> sy_closed s"
      then show ?thesis using wake [of s] ok assms(2) by blast
    next
      assume "\<exists>v. sends s v (cl_key c) d"
      then obtain v c' where v: "sy_calls s v = Some c'" "cl_phase c' = Sending d" by (auto simp: sends_def)
      let ?s1 = "complete_call 0 v d c' (Inr None) s"
      have step: "invoke_step s ?s1" by (rule step_answer [OF v])
      have "v \<noteq> t" using v Waiting assms(2) by auto
      then have "sy_calls ?s1 t = Some c" using complete_call_frame(1) [OF v(1)] assms(2) by simp
      then show ?thesis
        using wake [OF r_into_rtranclp [of invoke_step, OF step] invoke_step_ok [OF ok step]] complete_call_frame(2) [OF v(1)] by blast
    qed
  qed (use assms(3) in blast)
  then show ?thesis unfolding answered_def by blast
qed

section \<open>The cache key\<close>

text \<open>  The key of a cached invocation is made of the plane name, the method name and the parameters: two
  planes of the same name with the same methods share their cache entry, whatever requests they
  build. After a successful send of the one, the other is answered within the age limit with the
  frame that the first one received, and nothing is sent to its own device.
\<close>

theorem invoke_key_shared:
  assumes "invoke_prepare marshal options (Some p) name params = PrepareCached m request_p age key"
    and "invoke_prepare marshal options (Some q) name params = PrepareCached m' request_q age' key'"
    and "rp_name p = rp_name q" and "rp_methods p = rp_methods q"
    and "0 \<le> time_sub now done_at" and "time_sub now done_at \<le> age"
  shows "snd (invoke_admit now age' key' fresh (invoke_complete done_at key (Inr f) cache)) = AdmitHit f"
proof -
  have "m' = m \<and> age' = age \<and> key' = key"
    using assms(1-4) by (auto simp: invoke_prepare_def build_invoke_cache_key_def Let_def
        split: option.splits sum.splits if_splits)
  then show ?thesis using assms(5,6) by (simp add: invoke_admit_def invoke_complete_entry Let_def)
qed

text \<open>Two planes of the same provider for the devices at 0x08 and 0x15.\<close>

definition sample_method :: "unit bus_method" where
  "sample_method = \<lparr>bm_name = ''get_register'', bm_read_only = True,
     bm_template = Some \<lparr>ft_primary = 0xB5, ft_secondary = 0x09\<rparr>, bm_response = (), bm_mutability = None,
     bm_danger = None, bm_routable = None\<rparr>"

definition sample_plane :: "byte \<Rightarrow> (unit, unit, unit, byte list, unit) router_plane" where
  "sample_plane target = \<lparr>rp_name = ''system'', rp_methods = [sample_method], rp_subscriptions = [],
     rp_on_broadcast = (\<lambda>_. None), rp_decode_broadcast = None,
     rp_build_request = (\<lambda>m ps. Inr \<lparr>fr_source = 0x10, fr_target = target, fr_primary = 0xB5, fr_secondary = 0x09, fr_data = []\<rparr>),
     rp_decode_response = (\<lambda>m f ps. Inr (fr_data f))\<rparr>"

definition sample_options :: "unit router_options" where
  "sample_options = rt_options (new_bus_event_router :: (unit, unit, unit, byte list, unit) bus_event_router)"

definition sample_request :: "byte \<Rightarrow> frame" where
  "sample_request target = \<lparr>fr_source = 0x10, fr_target = target, fr_primary = 0xB5, fr_secondary = 0x09, fr_data = []\<rparr>"

lemma sample_prepare:
  "invoke_prepare (\<lambda>_. Inr ''{}'') sample_options (Some (sample_plane target)) ''get_register'' [] =
     PrepareCached sample_method (sample_request target) (60 * 10 ^ 9) ''system|get_register|{}''"
proof -
  have "infer_refresh_class ''get_register'' = refresh_class_state" by code_simp
  then show ?thesis
    by (simp add: invoke_prepare_def sample_plane_def sample_method_def sample_request_def sample_options_def
        new_bus_event_router_def new_bus_event_router_with_options_def default_state_refresh_interval_def
        invoke_max_age_def refresh_class_from_params_def build_invoke_cache_key_def Let_def)
qed

theorem invoke_key_shared_witness:
  "sample_request 0x08 \<noteq> sample_request 0x15 \<and>
   snd (invoke_admit 5 (60 * 10 ^ 9) ''system|get_register|{}'' 1
     (invoke_complete 3 ''system|get_register|{}'' (Inr (sample_request 0x08)) [])) = AdmitHit (sample_request 0x08)"
proof
  show "sample_request 0x08 \<noteq> sample_request 0x15" by (simp add: sample_request_def)
  show "snd (invoke_admit 5 (60 * 10 ^ 9) ''system|get_register|{}'' 1
     (invoke_complete 3 ''system|get_register|{}'' (Inr (sample_request 0x08)) [])) = AdmitHit (sample_request 0x08)"
    by (rule invoke_key_shared [OF sample_prepare [of "0x08"] sample_prepare [of "0x15"]])
      (simp_all add: sample_plane_def time_sub_def)
qed

section \<open>A run\<close>

definition sample_call :: "(unit, unit, unit, byte list, unit) invoke_call" where
  "sample_call = \<lparr>cl_plane = sample_plane 0x08, cl_method = sample_method, cl_params = [],
     cl_request = sample_request 0x08, cl_max_age = 60 * 10 ^ 9, cl_key = ''k'', cl_phase = Starting\<rparr>"

definition run1 :: "(unit, unit, unit, byte list, unit) invoke_system" where
  "run1 = new_invoke_system\<lparr>sy_calls := (sy_calls new_invoke_system)(0 \<mapsto> sample_call)\<rparr>"

definition run2 :: "(unit, unit, unit, byte list, unit) invoke_system" where
  "run2 = admit_call 1 0 sample_call run1"

definition run3 :: "(unit, unit, unit, byte list, unit) invoke_system" where
  "run3 = complete_call 2 0 0 (sample_call\<lparr>cl_phase := Sending 0\<rparr>) (Inr (Some (sample_request 0x08))) run2"

definition run4 :: "(unit, unit, unit, byte list, unit) invoke_system" where
  "run4 = run3\<lparr>sy_calls := (sy_calls run3)(1 \<mapsto> sample_call)\<rparr>"

lemma run_calls:
  "sy_calls run1 0 = Some sample_call" "sy_calls run2 0 = Some (sample_call\<lparr>cl_phase := Sending 0\<rparr>)"
  "sy_calls run3 1 = None" "sy_calls run4 1 = Some sample_call"
  by (simp_all add: run1_def run2_def run3_def run4_def admit_call_def invoke_admit_def new_invoke_system_def
      entry_at_def new_invoke_entry_def sample_call_def set_phase_def complete_call_def send_and_decode_def
      sample_plane_def gm_get_def Let_def)

lemma run_reachable: "invoke_reachable run1" "invoke_reachable run2" "invoke_reachable run4"
proof -
  let ?new = "new_invoke_system :: (unit, unit, unit, byte list, unit) invoke_system"
  have r0: "invoke_reachable ?new" by (rule reach_init) (rule refl)
  have c0: "sy_calls ?new 0 = None" "cl_phase sample_call = Starting" by (simp_all add: new_invoke_system_def sample_call_def)
  show r1: "invoke_reachable run1" unfolding run1_def by (rule reach_step [OF r0 step_call [OF c0]])
  show r2: "invoke_reachable run2"
    unfolding run2_def by (rule reach_step [OF r1 step_lock [OF run_calls(1)]]) (simp add: sample_call_def)
  have r3: "invoke_reachable run3"
    unfolding run3_def by (rule reach_step [OF r2 step_answer [OF run_calls(2)]]) simp
  show "invoke_reachable run4"
    unfolding run4_def by (rule reach_step [OF r3 step_call [OF run_calls(3)]]) (simp add: sample_call_def)
qed

theorem invoke_exclusive_witness:
  "\<nexists>u c'. sy_calls run2 u = Some c' \<and> cl_phase c' = Sending 0 \<and> cl_key c' = ''k'' \<and> u \<noteq> 0"
proof
  assume "\<exists>u c'. sy_calls run2 u = Some c' \<and> cl_phase c' = Sending 0 \<and> cl_key c' = ''k'' \<and> u \<noteq> 0"
  then obtain u c' where u: "sy_calls run2 u = Some c'" "cl_phase c' = Sending 0" "cl_key c' = ''k''" "u \<noteq> 0" by blast
  have "cl_phase (sample_call\<lparr>cl_phase := Sending 0\<rparr>) = Sending 0" "cl_key (sample_call\<lparr>cl_phase := Sending 0\<rparr>) = cl_key c'"
    by (simp_all add: u(3)) (simp add: sample_call_def)
  from invoke_exclusive [OF run_reachable(2) run_calls(2) this(1) u(1,2) this(2)] u(4) show False by simp
qed

theorem cache_answer_fresh_witness:
  "\<exists>r. sy_calls (admit_call 3 1 sample_call run4) 1 = Some (sample_call\<lparr>cl_phase := Finished r\<rparr>) \<and>
     (\<exists>f. r = decode_hit sample_call f)"
proof -
  have entry: "entry_at (sy_cache run4) ''k'' = \<lparr>ie_running = False, ie_done = 0, ie_last_ok_at = 2,
      ie_last_frame = sample_request 0x08, ie_has_last_frame = True\<rparr>"
    by (simp add: run4_def run3_def run2_def run1_def admit_call_def invoke_admit_def new_invoke_system_def
        entry_at_def new_invoke_entry_def sample_call_def set_phase_def complete_call_def send_and_decode_def
        invoke_complete_def sample_plane_def gm_get_def gm_put_def Let_def)
  obtain cache a where a: "invoke_admit 3 (cl_max_age sample_call) (cl_key sample_call) (sy_next run4) (sy_cache run4) = (cache, a)"
    by (cases "invoke_admit 3 (cl_max_age sample_call) (cl_key sample_call) (sy_next run4) (sy_cache run4)")
  have "a = AdmitHit (sample_request 0x08)"
    using a by (simp add: invoke_admit_def entry sample_call_def time_sub_def Let_def)
  then have self: "sy_calls (admit_call 3 1 sample_call run4) 1 =
      Some (sample_call\<lparr>cl_phase := Finished (decode_hit sample_call (sample_request 0x08))\<rparr>)"
    using admit_call_self [OF run_calls(4) a] by simp
  have "\<exists>f. decode_hit sample_call (sample_request 0x08) = decode_hit sample_call f"
    using cache_answer_fresh [OF run_reachable(3) run_calls(4) _ self] by (auto simp: sample_call_def)
  then show ?thesis using self by blast
qed

theorem invoke_progress_witness:
  "\<exists>u c' r. invoke_step\<^sup>*\<^sup>* run2 u \<and> sy_calls u 0 = Some c' \<and> cl_phase c' = Finished r"
  using invoke_progress [OF run_reachable(2) run_calls(2)] by (auto simp: sample_call_def) 

end
