(* ===== verification/Go_Format.thy ===== *)
theory Go_Format
  imports Go_Prelude
begin

text \<open>
  Bytes as text and as 16-bit numbers: \<open>string(b)\<close>, the hexadecimal verbs of \<open>fmt\<close>, hexadecimal
  parsing, and the shifts that put two bytes together.
\<close>

section \<open>Text\<close>

definition byte_char :: "byte \<Rightarrow> char" where
  "byte_char b = char_of (unat b)"

definition hex_char :: "nat \<Rightarrow> char" where
  "hex_char d = (if d < 10 then char_of (48 + d) else char_of (55 + d))"

text \<open>\<open>%02X\<close> and \<open>%04X\<close>.\<close>

definition hex2 :: "byte \<Rightarrow> string" where
  "hex2 b = [hex_char (unat b div 16), hex_char (unat b mod 16)]"

definition hex4 :: "uint16 \<Rightarrow> string" where
  "hex4 a = map hex_char [unat a div 4096 mod 16, unat a div 256 mod 16, unat a div 16 mod 16, unat a mod 16]"

definition hex_value :: "char \<Rightarrow> nat option" where
  "hex_value c =
     (let n = (of_char c :: nat)
      in if 48 \<le> n \<and> n \<le> 57 then Some (n - 48)
         else if 97 \<le> n \<and> n \<le> 102 then Some (n - 87)
         else if 65 \<le> n \<and> n \<le> 70 then Some (n - 55)
         else None)"

fun parse_hex :: "nat \<Rightarrow> string \<Rightarrow> nat option" where
  "parse_hex n [] = Some n"
| "parse_hex n (c # cs) = (case hex_value c of None \<Rightarrow> None | Some d \<Rightarrow> parse_hex (16 * n + d) cs)"

lemma hex_value_char [simp]:
  assumes "d < 16"
  shows "hex_value (hex_char d) = Some d"
proof -
  have "(of_char (char_of (48 + d) :: char) :: nat) = 48 + d" "(of_char (char_of (55 + d) :: char) :: nat) = 55 + d"
    using assms by (simp_all add: of_char_of)
  then show ?thesis using assms by (simp add: hex_value_def hex_char_def)
qed

lemma parse_hex4 [simp]: "parse_hex 0 (hex4 a) = Some (unat a)"
proof -
  let ?n = "unat a"
  have "?n < 2 ^ LENGTH(16)" by (rule unsigned_less)
  then have "?n div 4096 < 16" by simp
  moreover have "16 * (m div 16) + m mod 16 = m" for m :: nat by simp
  moreover have "?n div 4096 = ?n div 16 div 16 div 16" "?n div 256 = ?n div 16 div 16"
    by (simp_all add: div_mult2_eq [symmetric])
  ultimately show ?thesis by (simp add: hex4_def)
qed

lemma length_hex4 [simp]: "length (hex4 a) = 4"
  by (simp add: hex4_def)

section \<open>Two bytes\<close>

unbundle bit_operations_syntax

text \<open>\<open>uint16(hi)<<8 | uint16(lo)\<close> and the bytes \<open>a >> 8\<close> and \<open>a\<close>.\<close>

definition be16 :: "byte \<Rightarrow> byte \<Rightarrow> uint16" where
  "be16 hi lo = push_bit 8 (ucast hi) OR ucast lo"

definition hi8 :: "uint16 \<Rightarrow> byte" where
  "hi8 a = ucast (drop_bit 8 a)"

definition lo8 :: "uint16 \<Rightarrow> byte" where
  "lo8 a = ucast a"

lemma be16_bytes [simp]: "hi8 (be16 h l) = h" "lo8 (be16 h l) = l" "be16 (hi8 a) (lo8 a) = a"
proof -
  show "hi8 (be16 h l) = h"
    by (rule bit_word_eqI) (auto simp: hi8_def be16_def bit_simps dest: bit_imp_le_length)
  show "lo8 (be16 h l) = l"
    by (rule bit_word_eqI) (simp add: lo8_def be16_def bit_simps)
  show "be16 (hi8 a) (lo8 a) = a"
    by (rule bit_word_eqI) (auto simp: hi8_def lo8_def be16_def bit_simps)
qed

lemma be16_eq: "be16 h l = a \<longleftrightarrow> h = hi8 a \<and> l = lo8 a"
  by auto

end
