(* ===== verification/Reg_Scan.thy ===== *)
theory Reg_Scan
  imports Router Go_Format
begin

text \<open>
  The identification scan of the bus (\<open>registry/scan.go\<close>): which targets are probed, how an answer
  is checked and read, the optional serial read, what an answer does to the registry, and the
  passes that retry collisions and lost answers.

  The bus, the context and the clock are not part of the repository; the scan takes them as a
  record of functions on a state of the outside world. An error is the list of the sentinel errors
  it wraps, so that \<open>errors.Is\<close> is membership.
\<close>

section \<open>The outside world\<close>

datatype sentinel =
    ErrBusCollision
  | ErrNoSuchDevice
  | ErrTimeout
  | ErrNACK
  | ErrCRCMismatch
  | InvalidPayloadError
  | DeadlineExceeded
  | Canceled
  | ErrScanResponsePayload
  | ErrScanDirectedEmptyTargets

type_synonym go_error = "sentinel list"

text \<open>
  \<open>se_pause d\<close> is the \<open>select\<close> between a timer of \<open>d\<close> nanoseconds and \<open>ctx.Done()\<close>: it gives the
  context's error when the context ended first. \<open>se_known_target\<close> is
  \<open>FrameTypeForTarget(t) != FrameTypeUnknown\<close> of the protocol module.
\<close>

record 'w scan_world =
  se_send :: "frame \<Rightarrow> 'w \<Rightarrow> (go_error + frame option) \<times> 'w"
  se_ctx_err :: "'w \<Rightarrow> go_error option"
  se_pause :: "int \<Rightarrow> 'w \<Rightarrow> go_error option \<times> 'w"
  se_now :: "'w \<Rightarrow> go_time \<times> 'w"
  se_known_target :: "byte \<Rightarrow> bool"

abbreviation scan_primary :: byte where "scan_primary \<equiv> 0x07"
abbreviation scan_secondary :: byte where "scan_secondary \<equiv> 0x04"
abbreviation vaillant_primary :: byte where "vaillant_primary \<equiv> 0xB5"
abbreviation vaillant_scan_id_secondary :: byte where "vaillant_scan_id_secondary \<equiv> 0x09"

definition scan_collision_max_passes :: nat where
  "scan_collision_max_passes = 3"

definition scan_probe_delay :: int where
  "scan_probe_delay = 100 * 10 ^ 6"

text \<open>The 25 ms between two passes.\<close>

definition scan_pass_delay :: int where
  "scan_pass_delay = 25 * 10 ^ 6"

definition should_skip_scan_error :: "go_error \<Rightarrow> bool" where
  "should_skip_scan_error err =
     (ErrNoSuchDevice \<in> set err \<or> ErrTimeout \<in> set err \<or> DeadlineExceeded \<in> set err \<or> ErrNACK \<in> set err \<or>
      ErrCRCMismatch \<in> set err \<or> ErrScanResponsePayload \<in> set err)"

definition should_retry_scan_error :: "go_error \<Rightarrow> bool" where
  "should_retry_scan_error err =
     (ErrTimeout \<in> set err \<or> DeadlineExceeded \<in> set err \<or> ErrCRCMismatch \<in> set err \<or> ErrScanResponsePayload \<in> set err)"

section \<open>Targets\<close>

fun dedupe_from :: "byte list \<Rightarrow> byte list \<Rightarrow> byte list" where
  "dedupe_from seen [] = []"
| "dedupe_from seen (t # ts) =
     (if t \<in> set seen then dedupe_from seen ts else t # dedupe_from (t # seen) ts)"

definition dedupe_scan_targets :: "byte list \<Rightarrow> byte list" where
  "dedupe_scan_targets = dedupe_from []"

definition initiator_part_index :: "byte \<Rightarrow> nat" where
  "initiator_part_index bits =
     (if bits = 0x0 then 1 else if bits = 0x1 then 2 else if bits = 0x3 then 3
      else if bits = 0x7 then 4 else if bits = 0xF then 5 else 0)"

unbundle bit_operations_syntax

definition is_initiator_capable_address :: "byte \<Rightarrow> bool" where
  "is_initiator_capable_address a \<longleftrightarrow>
     initiator_part_index (a AND 0x0F) > 0 \<and> initiator_part_index (drop_bit 4 (a AND 0xF0)) > 0"

definition default_scan_targets :: "byte list" where
  "default_scan_targets = map of_nat [1..<254]"

section \<open>Reading an answer\<close>

definition is_directed_scan_response :: "frame \<Rightarrow> frame option \<Rightarrow> bool" where
  "is_directed_scan_response request response =
     (case response of None \<Rightarrow> False
      | Some r \<Rightarrow> fr_source r \<noteq> 0 \<and> fr_target r = fr_source request \<and>
          fr_primary r = fr_primary request \<and> fr_secondary r = fr_secondary request)"

definition parse_device_info :: "byte \<Rightarrow> byte list \<Rightarrow> go_error + device_info" where
  "parse_device_info address payload =
     (if length payload < 10 then Inl [ErrScanResponsePayload, InvalidPayloadError]
      else Inr \<lparr>di_address = address,
        di_manufacturer = (if payload ! 0 = 0xB5 then ''Vaillant'' else ''0x'' @ hex2 (payload ! 0)),
        di_device_id = trim_by (\<lambda>c. c = CHR '' '' \<or> c = CHR 0x00) (map byte_char (take 5 (drop 1 payload))),
        di_serial_number = [], di_mac_address = [],
        di_software_version = hex2 (payload ! 6) @ hex2 (payload ! 7),
        di_hardware_version = hex2 (payload ! 8) @ hex2 (payload ! 9)\<rparr>)"

section \<open>The serial number\<close>

definition normalize_scan_id_chunk :: "byte list \<Rightarrow> byte list" where
  "normalize_scan_id_chunk chunk = (if length chunk = 9 \<and> chunk ! 0 = 0 then drop 1 chunk else chunk)"

definition is_filler :: "byte \<Rightarrow> bool" where
  "is_filler b \<longleftrightarrow> b = 0x00 \<or> b = 0x20 \<or> b = 0xFF"

definition trim_scan_id_bytes :: "byte list \<Rightarrow> byte list" where
  "trim_scan_id_bytes data = rev (dropWhile is_filler (rev (dropWhile is_filler data)))"

definition slice :: "nat \<Rightarrow> nat \<Rightarrow> 'a list \<Rightarrow> 'a list" where
  "slice i j xs = take (j - i) (drop i xs)"

definition format_vaillant_serial :: "string \<Rightarrow> string" where
  "format_vaillant_serial raw0 =
     (let raw = trim_space raw0
      in if raw = [] then []
         else if length raw < 28 then raw
         else
           let candidate = take 28 raw
           in if \<not> list_all is_digit (take 26 candidate) then raw
              else str_join ''-'' [slice 0 2 candidate, slice 2 4 candidate, slice 4 6 candidate,
                slice 6 16 candidate, slice 16 20 candidate, slice 20 26 candidate, slice 26 28 candidate])"

text \<open>The two readings of the chunks: status bytes stripped when all have one, else what is there.\<close>

definition serial_of_chunks :: "byte list list \<Rightarrow> string option" where
  "serial_of_chunks chunks =
     (let status_ok = list_all (\<lambda>c. length c = 9 \<and> c ! 0 = 0) chunks;
          status = trim_scan_id_bytes (concat (map (drop 1) chunks));
          first = (if status_ok \<and> status \<noteq> [] then format_vaillant_serial (map byte_char status) else [])
      in if first \<noteq> [] then Some first
         else
           let full = trim_scan_id_bytes (concat (map normalize_scan_id_chunk chunks));
               formatted = format_vaillant_serial (map byte_char full)
           in if full = [] then None else if formatted = [] then None else Some formatted)"

datatype chunk_read = ChunkError go_error | ChunksUnavailable | ChunksRead "byte list list"

definition scan_id_request :: "byte \<Rightarrow> byte \<Rightarrow> byte \<Rightarrow> frame" where
  "scan_id_request source target qq = \<lparr>fr_source = source, fr_target = target,
     fr_primary = vaillant_primary, fr_secondary = vaillant_scan_id_secondary, fr_data = [qq]\<rparr>"

fun read_scan_id_chunks ::
  "'w scan_world \<Rightarrow> byte \<Rightarrow> byte \<Rightarrow> byte list \<Rightarrow> byte list list \<Rightarrow> 'w \<Rightarrow> chunk_read \<times> 'w" where
  "read_scan_id_chunks se source target [] chunks w = (ChunksRead chunks, w)"
| "read_scan_id_chunks se source target (qq # qqs) chunks w =
     (let (response, w1) = se_send se (scan_id_request source target qq) w
      in case response of
           Inl err \<Rightarrow>
             (if Canceled \<in> set err then (ChunkError err, w1)
              else if DeadlineExceeded \<in> set err
              then (case se_ctx_err se w1 of Some e \<Rightarrow> (ChunkError e, w1) | None \<Rightarrow> (ChunksUnavailable, w1))
              else (ChunksUnavailable, w1))
         | Inr None \<Rightarrow> (ChunksUnavailable, w1)
         | Inr (Some r) \<Rightarrow>
             if fr_data r = [] then (ChunksUnavailable, w1)
             else read_scan_id_chunks se source target qqs (chunks @ [fr_data r]) w1)"

definition read_vaillant_scan_id ::
  "'w scan_world \<Rightarrow> byte \<Rightarrow> byte \<Rightarrow> 'w \<Rightarrow> (go_error + string option) \<times> 'w" where
  "read_vaillant_scan_id se source target w =
     (case read_scan_id_chunks se source target [0x24, 0x25, 0x26, 0x27] [] w of
        (ChunkError e, w1) \<Rightarrow> (Inl e, w1)
      | (ChunksUnavailable, w1) \<Rightarrow> (Inr None, w1)
      | (ChunksRead chunks, w1) \<Rightarrow> (Inr (serial_of_chunks chunks), w1))"

text \<open>The exported reader also accepts that there is no bus.\<close>

definition read_vaillant_scan_id_on ::
  "'w scan_world option \<Rightarrow> byte \<Rightarrow> byte \<Rightarrow> 'w \<Rightarrow> (go_error + string option) \<times> 'w" where
  "read_vaillant_scan_id_on bus source target w =
     (case bus of None \<Rightarrow> (Inr None, w) | Some se \<Rightarrow> read_vaillant_scan_id se source target w)"

section \<open>The scan\<close>

datatype scan_stop = ScanFailed go_error | ScanPanic

record ('w, 'm) scan_state =
  sc_world :: 'w
  sc_registry :: "'m device_registry"
  sc_registered :: "byte list"
  sc_entries :: "entry_ref list"
  sc_collisions :: "byte list"
  sc_retries :: "byte list"

type_synonym ('w, 'm) scan_result = "('w, 'm) scan_state \<times> scan_stop option"

text \<open>What the loop does with an error that ends a probe: retry, skip, or give up.\<close>

definition probe_failed :: "go_error \<Rightarrow> byte \<Rightarrow> ('w, 'm) scan_state \<Rightarrow> ('w, 'm) scan_result" where
  "probe_failed err target st =
     (if should_retry_scan_error err then (st\<lparr>sc_retries := sc_retries st @ [target]\<rparr>, None)
      else if should_skip_scan_error err then (st, None)
      else (st, Some (ScanFailed err)))"

text \<open>
  Registering an answer: the device at the address that answered; when another address was probed,
  the same device there and the alias between the two; then the confirmation. The registry reads
  the clock once in \<open>Register\<close> and once in \<open>confirmScanIdentity\<close>.
\<close>

definition register_probed ::
  "protocol_env \<Rightarrow> 'w scan_world \<Rightarrow> byte \<Rightarrow> device_info \<Rightarrow> 'w \<Rightarrow> 'm device_registry \<Rightarrow>
     'w \<times> 'm device_registry \<times> entry_ref option" where
  "register_probed env se target info w reg =
     (let address = di_address info;
          (now, w1) = se_now se w;
          (reg1, e) = dev_register env now info reg
      in if address \<noteq> target
         then
           let (now', w2) = se_now se w1;
               reg2 = fst (dev_register env now' (info\<lparr>di_address := target\<rparr>) reg1);
               reg3 = alias_addresses env address target reg2
           in (w2, reg3, dev_lookup reg3 address)
         else (w1, reg1, Some e))"

definition record_answer ::
  "protocol_env \<Rightarrow> 'w scan_world \<Rightarrow> byte \<Rightarrow> device_info \<Rightarrow> ('w, 'm) scan_state \<Rightarrow> ('w, 'm) scan_result" where
  "record_answer env se target info st =
     (let address = di_address info;
          (w1, reg1, entry1) = register_probed env se target info (sc_world st) (sc_registry st);
          (now, w2) = se_now se w1;
          reg2 = confirm_scan_identity now address reg1;
          entry = (case dev_lookup reg2 address of Some confirmed \<Rightarrow> Some confirmed | None \<Rightarrow> entry1);
          st1 = st\<lparr>sc_world := w2, sc_registry := reg2\<rparr>
      in case entry of
           None \<Rightarrow> (st1, Some ScanPanic)
         | Some e \<Rightarrow>
             let canonical = primary_display_address (entry_of reg2 e)
             in if canonical \<in> set (sc_registered st1) then (st1, None)
                else (st1\<lparr>sc_registered := canonical # sc_registered st1, sc_entries := sc_entries st1 @ [e]\<rparr>, None))"

definition take_answer ::
  "protocol_env \<Rightarrow> 'w scan_world \<Rightarrow> byte \<Rightarrow> byte \<Rightarrow> frame \<Rightarrow> ('w, 'm) scan_state \<Rightarrow> ('w, 'm) scan_result" where
  "take_answer env se source target response st =
     (case parse_device_info (fr_source response) (fr_data response) of
        Inl err \<Rightarrow> probe_failed err target st
      | Inr info \<Rightarrow>
          if di_manufacturer info = ''Vaillant'' \<and> di_serial_number info = []
          then (case read_vaillant_scan_id se source (fr_source response) (sc_world st) of
                  (Inl err, w1) \<Rightarrow> (st\<lparr>sc_world := w1\<rparr>, Some (ScanFailed err))
                | (Inr None, w1) \<Rightarrow> record_answer env se target info (st\<lparr>sc_world := w1\<rparr>)
                | (Inr (Some serial), w1) \<Rightarrow>
                    record_answer env se target (info\<lparr>di_serial_number := serial\<rparr>) (st\<lparr>sc_world := w1\<rparr>))
          else record_answer env se target info st)"

definition scan_request :: "byte \<Rightarrow> byte \<Rightarrow> frame" where
  "scan_request source target = \<lparr>fr_source = source, fr_target = target,
     fr_primary = scan_primary, fr_secondary = scan_secondary, fr_data = []\<rparr>"

definition scan_probe ::
  "protocol_env \<Rightarrow> 'w scan_world \<Rightarrow> byte \<Rightarrow> byte \<Rightarrow> ('w, 'm) scan_state \<Rightarrow> ('w, 'm) scan_result" where
  "scan_probe env se source target st =
     (case se_ctx_err se (sc_world st) of
        Some e \<Rightarrow> (st, Some (ScanFailed e))
      | None \<Rightarrow>
          if \<not> se_known_target se target \<or> is_initiator_capable_address target then (st, None)
          else
            let request = scan_request source target;
                (response, w1) = se_send se request (sc_world st);
                (ended, w2) = se_pause se scan_probe_delay w1;
                st2 = st\<lparr>sc_world := w2\<rparr>
            in case ended of
                 Some e \<Rightarrow> (st2, Some (ScanFailed e))
               | None \<Rightarrow>
                   case response of
                     Inl err \<Rightarrow>
                       (case se_ctx_err se w2 of
                          Some e \<Rightarrow> (st2, Some (ScanFailed e))
                        | None \<Rightarrow>
                            if ErrBusCollision \<in> set err
                            then (st2\<lparr>sc_collisions := sc_collisions st2 @ [target]\<rparr>, None)
                            else probe_failed err target st2)
                   | Inr None \<Rightarrow> probe_failed [ErrScanResponsePayload, InvalidPayloadError] target st2
                   | Inr (Some r) \<Rightarrow>
                       if \<not> is_directed_scan_response request (Some r)
                       then probe_failed [ErrScanResponsePayload, InvalidPayloadError] target st2
                       else take_answer env se source target r st2)"

fun scan_pending ::
  "protocol_env \<Rightarrow> 'w scan_world \<Rightarrow> byte \<Rightarrow> byte list \<Rightarrow> ('w, 'm) scan_state \<Rightarrow> ('w, 'm) scan_result" where
  "scan_pending env se source [] st = (st, None)"
| "scan_pending env se source (target # targets) st =
     (case scan_probe env se source target st of
        (st1, Some stop) \<Rightarrow> (st1, Some stop)
      | (st1, None) \<Rightarrow> scan_pending env se source targets st1)"

text \<open>The passes, counted down from \<open>scanCollisionMaxPasses + 1\<close>.\<close>

fun scan_passes ::
  "protocol_env \<Rightarrow> 'w scan_world \<Rightarrow> byte \<Rightarrow> nat \<Rightarrow> byte list \<Rightarrow> ('w, 'm) scan_state \<Rightarrow> ('w, 'm) scan_result" where
  "scan_passes env se source 0 pending st = (st, None)"
| "scan_passes env se source (Suc n) pending st =
     (if pending = [] then (st, None)
      else
        case scan_pending env se source pending (st\<lparr>sc_collisions := [], sc_retries := []\<rparr>) of
          (st1, Some stop) \<Rightarrow> (st1, Some stop)
        | (st1, None) \<Rightarrow>
            if sc_collisions st1 = [] \<and> sc_retries st1 = [] then (st1, None)
            else if n = 0 then (st1, None)
            else
              let (ended, w1) = se_pause se scan_pass_delay (sc_world st1);
                  st2 = st1\<lparr>sc_world := w1\<rparr>
              in case ended of
                   Some e \<Rightarrow> (st2, Some (ScanFailed e))
                 | None \<Rightarrow> scan_passes env se source n (dedupe_scan_targets (sc_collisions st1 @ sc_retries st1)) st2)"

text \<open>The entries seen, resolved in the final registry, each group once.\<close>

fun canonical_from :: "'m device_registry \<Rightarrow> byte list \<Rightarrow> entry_ref list \<Rightarrow> entry_ref list" where
  "canonical_from reg seen [] = []"
| "canonical_from reg seen (e # es) =
     (case dev_lookup reg (primary_display_address (entry_of reg e)) of
        None \<Rightarrow> canonical_from reg seen es
      | Some resolved \<Rightarrow>
          let address = primary_display_address (entry_of reg resolved)
          in if address \<in> set seen then canonical_from reg seen es
             else resolved # canonical_from reg (address # seen) es)"

definition canonicalize_scan_entries :: "'m device_registry \<Rightarrow> entry_ref list \<Rightarrow> entry_ref list" where
  "canonicalize_scan_entries reg = canonical_from reg []"

definition scan_start :: "'w \<Rightarrow> 'm device_registry \<Rightarrow> ('w, 'm) scan_state" where
  "scan_start w reg = \<lparr>sc_world = w, sc_registry = reg, sc_registered = [], sc_entries = [],
     sc_collisions = [], sc_retries = []\<rparr>"

text \<open>\<open>Scan\<close> on a bus and a registry: the answer, the world and the registry afterwards.\<close>

definition scan ::
  "protocol_env \<Rightarrow> 'w scan_world \<Rightarrow> byte \<Rightarrow> byte list \<Rightarrow> 'w \<Rightarrow> 'm device_registry \<Rightarrow>
     (scan_stop + entry_ref list) \<times> 'w \<times> 'm device_registry" where
  "scan env se source targets0 w reg =
     (let targets = (if targets0 = [] then default_scan_targets else targets0);
          (st, stop) = scan_passes env se source (Suc scan_collision_max_passes) (dedupe_scan_targets targets)
            (scan_start w reg)
      in (case stop of Some e \<Rightarrow> Inl e | None \<Rightarrow> Inr (canonicalize_scan_entries (sc_registry st) (sc_entries st)),
          sc_world st, sc_registry st))"

text \<open>The checks for a missing bus and a missing registry come first.\<close>

definition scan_on ::
  "protocol_env \<Rightarrow> 'w scan_world option \<Rightarrow> byte \<Rightarrow> byte list \<Rightarrow> 'w \<Rightarrow> 'm device_registry option \<Rightarrow>
     (scan_stop + entry_ref list) \<times> 'w \<times> 'm device_registry option" where
  "scan_on env bus source targets w registry =
     (case bus of
        None \<Rightarrow> (Inl (ScanFailed [InvalidPayloadError]), w, registry)
      | Some se \<Rightarrow>
          case registry of
            None \<Rightarrow> (Inl (ScanFailed [InvalidPayloadError]), w, None)
          | Some reg \<Rightarrow> let (r, w1, reg1) = scan env se source targets w reg in (r, w1, Some reg1))"

definition scan_directed ::
  "protocol_env \<Rightarrow> 'w scan_world option \<Rightarrow> byte \<Rightarrow> byte list \<Rightarrow> 'w \<Rightarrow> 'm device_registry option \<Rightarrow>
     (scan_stop + entry_ref list) \<times> 'w \<times> 'm device_registry option" where
  "scan_directed env bus source targets w registry =
     (if targets = [] then (Inl (ScanFailed [ErrScanDirectedEmptyTargets]), w, registry)
      else scan_on env bus source targets w registry)"

end
