(* ===== verification/Reg_Scan_Effect.thy ===== *)
theory Reg_Scan_Effect
  imports Reg_Scan Reg_History
begin

text \<open>
  What a scan does to the registry: only steps of the registry, addresses stay bound, the answer
  can always be looked up again, and the list returned has each live group once.
\<close>

section \<open>Bound addresses stay bound\<close>

lemma effect_bound: "observation_effect info e s t \<Longrightarrow> dr_entries s a \<noteq> None \<Longrightarrow> dr_entries t a \<noteq> None"
  unfolding observation_effect_def by (cases "a = di_address info") (simp, metis option.distinct(1))

lemma alias_addresses_entries:
  assumes ok: "registry_ok env s"
  shows "dr_entries (alias_addresses env a b s) =
     (case alias_owner a b s of None \<Rightarrow> dr_entries s | Some c \<Rightarrow> (dr_entries s)(a \<mapsto> c, b \<mapsto> c))"
proof -
  have "core_ok {} s" using ok by (simp add: registry_ok_def)
  from alias_joined_ok(2) [OF this, of a b] show ?thesis
    by (simp add: alias_addresses_eq Let_def)
qed

lemma dev_step_bound:
  assumes ok: "registry_ok env s" and step: "dev_step env s t" and a: "dr_entries s a \<noteq> None"
  shows "dr_entries t a \<noteq> None"
proof -
  have c: "core_ok {} s" using ok by (simp add: registry_ok_def)
  note marks = mark_slot_effect(1) [OF c keeps_place_marks(1) history_marks(1)]
    mark_slot_effect(1) [OF c keeps_place_marks(2) history_marks(2)]
  show ?thesis
    using step
  proof cases
    case step_provider
    then show ?thesis using a by (simp add: register_provider_def)
  next
    case step_register
    then show ?thesis using effect_bound [OF dev_register_effect [OF ok] a] by blast
  next
    case (step_static_seed info role tm e)
    then have "observation_effect info e s t"
      unfolding register_static_seed_def by (rule register_marked_effect [OF ok keeps_place_marks(2) history_marks(2)])
    then show ?thesis using effect_bound a by blast
  next
    case (step_passive info role tm e)
    then have "observation_effect info e s t"
      unfolding register_passive_observed_def by (rule register_marked_effect [OF ok keeps_place_marks(1) history_marks(1)])
    then show ?thesis using effect_bound a by blast
  next
    case step_mark_seed
    then show ?thesis using a marks by (simp add: mark_slot_static_seed_at_def)
  next
    case step_mark_passive
    then show ?thesis using a marks by (simp add: mark_slot_passive_observed_at_def)
  next
    case (step_confirm now x)
    show ?thesis
    proof (cases "dr_entries s x")
      case (Some e)
      then show ?thesis using a observed_ok(3) [OF bound_live [OF c Some], of now VerificationStateIdentityConfirmed]
        by (simp add: step_confirm confirm_scan_identity_eq)
    qed (use a in \<open>simp add: step_confirm confirm_scan_identity_eq\<close>)
  next
    case (step_alias x y)
    then show ?thesis using a alias_addresses_entries [OF ok, of x y] by (auto split: option.splits)
  next
    case (step_admit source tm x)
    then show ?thesis using a marks
      by (auto simp: admit_passive_companion_def admit_passive_companion_locked_def split: option.splits if_splits)
  qed
qed

lemma dev_steps_ok:
  assumes "(dev_step env)\<^sup>*\<^sup>* s t" and "registry_ok env s"
  shows "registry_ok env t"
  using assms by (induction rule: rtranclp_induct) (auto intro: dev_step_ok)

lemma dev_steps_bound:
  assumes "(dev_step env)\<^sup>*\<^sup>* s t" and "registry_ok env s" and "dr_entries s a \<noteq> None"
  shows "dr_entries t a \<noteq> None"
  using assms
proof (induction rule: rtranclp_induct)
  case (step t u)
  then show ?case using dev_step_bound [OF dev_steps_ok [OF step(1,4)] step(2)] by blast
qed simp

section \<open>Recording an answer\<close>

lemma dev_register_step: "dev_register env now info s = (t, e) \<Longrightarrow> dev_step env s t"
  by (rule step_register)

lemma register_probed_steps:
  assumes ok: "registry_ok env reg" and r: "register_probed env se target info w reg = (w', reg', entry)"
  shows "(dev_step env)\<^sup>*\<^sup>* reg reg'" and "dr_entries reg' (di_address info) \<noteq> None"
    and "dr_entries reg' target \<noteq> None" and "entry \<noteq> None"
proof -
  obtain now w1 where n: "se_now se w = (now, w1)" by (cases "se_now se w")
  obtain reg1 e where r1: "dev_register env now info reg = (reg1, e)" by (cases "dev_register env now info reg")
  have s1: "dev_step env reg reg1" using r1 by (rule step_register)
  note R1 = dev_register_ok [OF ok r1]
  have "(dev_step env)\<^sup>*\<^sup>* reg reg' \<and> dr_entries reg' (di_address info) \<noteq> None \<and> dr_entries reg' target \<noteq> None \<and> entry \<noteq> None"
  proof (cases "di_address info = target")
    case True
    then have "reg' = reg1 \<and> entry = Some e" using r n r1 by (simp add: register_probed_def)
    then show ?thesis using s1 R1 True by auto
  next
    case False
    obtain now' w2 where n': "se_now se w1 = (now', w2)" by (cases "se_now se w1")
    obtain reg2 e2 where r2: "dev_register env now' (info\<lparr>di_address := target\<rparr>) reg1 = (reg2, e2)"
      by (cases "dev_register env now' (info\<lparr>di_address := target\<rparr>) reg1")
    let ?reg3 = "alias_addresses env (di_address info) target reg2"
    have eq: "reg' = ?reg3" "entry = dev_lookup ?reg3 (di_address info)"
      using r n n' r1 r2 False by (auto simp: register_probed_def Let_def)
    have s: "dev_step env reg1 reg2" "dev_step env reg2 ?reg3" using r2 by (auto intro: step_register step_alias)
    note R2 = dev_register_ok [OF R1(1) r2]
    have "dr_entries reg2 (di_address info) \<noteq> None" using dev_step_bound [OF R1(1) s(1)] R1(2) by simp
    then have "dr_entries ?reg3 (di_address info) \<noteq> None" "dr_entries ?reg3 target \<noteq> None"
      using dev_step_bound [OF R2(1) s(2)] R2(2) by simp_all
    moreover have "(dev_step env)\<^sup>*\<^sup>* reg ?reg3" using s1 s by (meson rtranclp.rtrancl_refl rtranclp.rtrancl_into_rtrancl)
    ultimately show ?thesis unfolding eq dev_lookup_def by blast
  qed
  then show "(dev_step env)\<^sup>*\<^sup>* reg reg'" "dr_entries reg' (di_address info) \<noteq> None"
    "dr_entries reg' target \<noteq> None" "entry \<noteq> None" by blast+
qed

text \<open>What a stage of the scan may do: step the registry, never panic.\<close>

definition stage_ok :: "protocol_env \<Rightarrow> ('w, 'm) scan_state \<Rightarrow> ('w, 'm) scan_result \<Rightarrow> bool" where
  "stage_ok env st r \<longleftrightarrow>
     (dev_step env)\<^sup>*\<^sup>* (sc_registry st) (sc_registry (fst r)) \<and> snd r \<noteq> Some ScanPanic"

lemma stage_ok_world [simp]: "stage_ok env (st\<lparr>sc_world := w\<rparr>) r = stage_ok env st r"
  by (simp add: stage_ok_def)

lemma stage_ok_same: "sc_registry st' = sc_registry st \<Longrightarrow> stop \<noteq> Some ScanPanic \<Longrightarrow> stage_ok env st (st', stop)"
  by (simp add: stage_ok_def)

lemma probe_failed_ok: "stage_ok env st (probe_failed err target st)"
  by (simp add: stage_ok_def probe_failed_def)

lemma record_answer_steps:
  assumes ok: "registry_ok env (sc_registry st)"
  shows "stage_ok env st (record_answer env se target info st)"
    and "snd (record_answer env se target info st) = None"
    and "dr_entries (sc_registry (fst (record_answer env se target info st))) (di_address info) \<noteq> None"
    and "dr_entries (sc_registry (fst (record_answer env se target info st))) target \<noteq> None"
proof -
  obtain w1 reg1 entry1 where r: "register_probed env se target info (sc_world st) (sc_registry st) = (w1, reg1, entry1)"
    by (cases "register_probed env se target info (sc_world st) (sc_registry st)")
  obtain now w2 where n: "se_now se w1 = (now, w2)" by (cases "se_now se w1")
  note R = register_probed_steps [OF ok r]
  let ?reg2 = "confirm_scan_identity now (di_address info) reg1"
  have s: "dev_step env reg1 ?reg2" by (rule step_confirm)
  note B = dev_step_bound [OF dev_steps_ok [OF R(1) ok] s]
  obtain e where e: "dev_lookup ?reg2 (di_address info) = Some e" using B [OF R(2)] by (auto simp: dev_lookup_def)
  have "(dev_step env)\<^sup>*\<^sup>* (sc_registry st) ?reg2" using R(1) s by simp
  moreover have "sc_registry (fst (record_answer env se target info st)) = ?reg2 \<and>
      snd (record_answer env se target info st) = None"
    by (simp add: record_answer_def r n e Let_def)
  ultimately show "stage_ok env st (record_answer env se target info st)"
    "snd (record_answer env se target info st) = None"
    "dr_entries (sc_registry (fst (record_answer env se target info st))) (di_address info) \<noteq> None"
    "dr_entries (sc_registry (fst (record_answer env se target info st))) target \<noteq> None"
    using B R(2,3) by (simp_all add: stage_ok_def)
qed

lemma take_answer_ok:
  assumes ok: "registry_ok env (sc_registry st)"
  shows "stage_ok env st (take_answer env se source target r st)"
proof -
  have "stage_ok env st (record_answer env se target info (st\<lparr>sc_world := w\<rparr>))" for info w
    using record_answer_steps(1) [of env "st\<lparr>sc_world := w\<rparr>"] ok by simp
  then show ?thesis
    using record_answer_steps(1) [OF ok] probe_failed_ok
    by (auto simp: take_answer_def stage_ok_same split: sum.splits option.splits prod.splits)
qed

lemma scan_probe_ok:
  assumes ok: "registry_ok env (sc_registry st)"
  shows "stage_ok env st (scan_probe env se source target st)"
proof -
  have "stage_ok env st (take_answer env se source target r (st\<lparr>sc_world := w\<rparr>))" for r w
    using take_answer_ok [of env "st\<lparr>sc_world := w\<rparr>"] ok by simp
  moreover have "stage_ok env st (probe_failed err target (st\<lparr>sc_world := w\<rparr>))" for err w
    using probe_failed_ok [of env "st\<lparr>sc_world := w\<rparr>"] by simp
  ultimately show ?thesis
    by (auto simp: scan_probe_def stage_ok_same Let_def split: option.splits sum.splits prod.splits)
qed

lemma stage_trans:
  "stage_ok env st (st1, None) \<Longrightarrow> stage_ok env st1 r \<Longrightarrow> stage_ok env st r"
  by (auto simp: stage_ok_def)

lemma stage_registry: "registry_ok env (sc_registry st) \<Longrightarrow> stage_ok env st r \<Longrightarrow> registry_ok env (sc_registry (fst r))"
  using dev_steps_ok by (auto simp: stage_ok_def)

lemma scan_pending_ok:
  "registry_ok env (sc_registry st) \<Longrightarrow> stage_ok env st (scan_pending env se source targets st)"
proof (induction targets arbitrary: st)
  case (Cons t ts)
  note P = scan_probe_ok [OF Cons.prems, of se source t]
  obtain st1 stop where p: "scan_probe env se source t st = (st1, stop)" by (cases "scan_probe env se source t st")
  show ?case
  proof (cases stop)
    case None
    have "registry_ok env (sc_registry st1)" using stage_registry [OF Cons.prems P] by (simp add: p)
    from stage_trans [OF P [unfolded p None] Cons.IH [OF this]] show ?thesis by (simp add: p None)
  qed (use P in \<open>simp add: p\<close>)
qed (simp add: stage_ok_same)

lemma scan_passes_ok:
  "registry_ok env (sc_registry st) \<Longrightarrow> stage_ok env st (scan_passes env se source n pending st)"
proof (induction n arbitrary: pending st)
  case (Suc n)
  let ?st0 = "st\<lparr>sc_collisions := [], sc_retries := []\<rparr>"
  have ok0: "registry_ok env (sc_registry ?st0)" using Suc.prems by simp
  obtain st1 stop where p: "scan_pending env se source pending ?st0 = (st1, stop)"
    by (cases "scan_pending env se source pending ?st0")
  have P: "stage_ok env st (st1, stop)" using scan_pending_ok [OF ok0, of se source pending] by (simp add: p stage_ok_def)
  obtain ended w1 where w: "se_pause se scan_pass_delay (sc_world st1) = (ended, w1)"
    by (cases "se_pause se scan_pass_delay (sc_world st1)")
  let ?st2 = "st1\<lparr>sc_world := w1\<rparr>" and ?next = "dedupe_scan_targets (sc_collisions st1 @ sc_retries st1)"
  have ok2: "registry_ok env (sc_registry ?st2)" using stage_registry [OF Suc.prems P] by simp
  have "stop = None \<Longrightarrow> stage_ok env st (scan_passes env se source n ?next ?st2)"
    using stage_trans [of env st ?st2] Suc.IH [OF ok2] P by (simp add: stage_ok_def)
  then show ?case
    using P by (cases stop; cases ended) (simp_all add: p w stage_ok_same, simp_all add: stage_ok_def)
qed (simp add: stage_ok_same)

section \<open>The answer\<close>

lemma primary_display_live:
  assumes "registry_ok env s" and "e \<in> set (dr_order s)"
  shows "primary_display_address (entry_of s e) = primary_of s e"
    and "dev_lookup s (primary_display_address (entry_of s e)) = Some e"
proof -
  note C = core_okD [of "{}" s]
  have c: "core_ok {} s" using assms(1) by (simp add: registry_ok_def)
  then show p: "primary_display_address (entry_of s e) = primary_of s e"
    using C(4) assms(2) by (simp add: infos_ok_def primary_display_address_def)
  note G = groups_okD [OF C(1) [OF c]]
  show "dev_lookup s (primary_display_address (entry_of s e)) = Some e"
    unfolding p dev_lookup_def using G(4) G(5) assms(2) by blast
qed

lemma canonical_from_ok:
  assumes ok: "registry_ok env s"
  shows "distinct (canonical_from s seen es) \<and>
     (\<forall>e \<in> set (canonical_from s seen es). e \<in> set (dr_order s) \<and> primary_display_address (entry_of s e) \<notin> set seen)"
proof (induction es arbitrary: seen)
  case (Cons e es)
  show ?case
  proof (cases "dev_lookup s (primary_display_address (entry_of s e))")
    case None
    then show ?thesis using Cons by simp
  next
    case (Some x)
    have "core_ok {} s" using ok by (simp add: registry_ok_def)
    then have "x \<in> set (dr_order s)" using groups_okD(5) [OF core_okD(1)] Some by (fastforce simp: dev_lookup_def)
    then show ?thesis using Cons [of seen] Cons [of "primary_display_address (entry_of s x) # seen"] Some
      by (auto simp: Let_def)
  qed
qed simp

end
