(* ===== verification/Reg_Scan_Log.thy ===== *)
theory Reg_Scan_Log
  imports Reg_Scan_Effect
begin

text \<open>
  What a scan sends. A bus that records its traffic tells, for every stage of the scan, which
  frames it added: per probed target one identification request, followed by at most four serial
  reads of the device that answered.
\<close>

section \<open>Recording buses\<close>

type_synonym traffic = "(frame \<times> (go_error + frame option)) list"

text \<open>\<open>sent\<close> reads the traffic off the outside world: sending appends, everything else keeps it.\<close>

definition records :: "'w scan_world \<Rightarrow> ('w \<Rightarrow> traffic) \<Rightarrow> bool" where
  "records se sent \<longleftrightarrow>
     (\<forall>f w. sent (snd (se_send se f w)) = sent w @ [(f, fst (se_send se f w))]) \<and>
     (\<forall>d w. sent (snd (se_pause se d w)) = sent w) \<and> (\<forall>w. sent (snd (se_now se w)) = sent w)"

text \<open>Any bus becomes a recording one when the world carries the traffic.\<close>

definition logged :: "'w scan_world \<Rightarrow> ('w \<times> traffic) scan_world" where
  "logged se = \<lparr>se_send = (\<lambda>f (w, l). let (r, w1) = se_send se f w in (r, (w1, l @ [(f, r)]))),
     se_ctx_err = (\<lambda>(w, l). se_ctx_err se w),
     se_pause = (\<lambda>d (w, l). let (r, w1) = se_pause se d w in (r, (w1, l))),
     se_now = (\<lambda>(w, l). let (t, w1) = se_now se w in (t, (w1, l))),
     se_known_target = se_known_target se\<rparr>"

lemma logged_records: "records (logged se) snd"
  by (simp add: records_def logged_def split_beta Let_def)

section \<open>Traffic of a probe\<close>

text \<open>
  The serial reads of one device: the chunk requests in their order, a further one only after an answer with
  data, and all four unless an answer had none.
\<close>

definition chunk_given :: "go_error + frame option \<Rightarrow> bool" where
  "chunk_given r \<longleftrightarrow> (case r of Inr (Some f) \<Rightarrow> fr_data f \<noteq> [] | _ \<Rightarrow> False)"

definition chunk_reads :: "byte \<Rightarrow> byte \<Rightarrow> byte list \<Rightarrow> traffic \<Rightarrow> bool" where
  "chunk_reads source a qs l \<longleftrightarrow>
     length l \<le> length qs \<and> map fst l = map (scan_id_request source a) (take (length l) qs) \<and>
     list_all chunk_given (butlast (map snd l)) \<and>
     (length l = length qs \<or> l \<noteq> [] \<and> \<not> chunk_given (snd (last l)))"

definition id_reads :: "byte \<Rightarrow> byte \<Rightarrow> traffic \<Rightarrow> bool" where
  "id_reads source a = chunk_reads source a [0x24, 0x25, 0x26, 0x27]"

lemma chunk_reads_nil [simp]: "chunk_reads source a [] []"
  by (simp add: chunk_reads_def)

lemma chunk_reads_last: "\<not> chunk_given r \<or> qs = [] \<Longrightarrow> chunk_reads source a (q # qs) [(scan_id_request source a q, r)]"
  by (auto simp: chunk_reads_def)

lemma chunk_reads_Cons:
  "chunk_given r \<Longrightarrow> chunk_reads source a qs l \<Longrightarrow> chunk_reads source a (q # qs) ((scan_id_request source a q, r) # l)"
  by (cases "l = []") (auto simp: chunk_reads_def)

lemma id_reads_length: "id_reads source a l \<Longrightarrow> length l \<le> 4"
  by (simp add: id_reads_def chunk_reads_def)

lemma id_reads_fst:
  assumes "id_reads source a l" and "x \<in> set l"
  shows "\<exists>q. fst x = scan_id_request source a q"
proof -
  have "map fst l = map (scan_id_request source a) (take (length l) [0x24, 0x25, 0x26, 0x27])"
    using assms(1) unfolding id_reads_def chunk_reads_def by blast
  from arg_cong [OF this, of set] have "fst ` set l \<subseteq> range (scan_id_request source a)" by auto
  then show ?thesis using assms(2) by blast
qed

text \<open>An answer that ends the probing of its target, and one that asks for another pass.\<close>

definition accepted :: "byte \<Rightarrow> byte \<Rightarrow> go_error + frame option \<Rightarrow> bool" where
  "accepted source t r \<longleftrightarrow> (case r of Inr (Some f) \<Rightarrow>
     is_directed_scan_response (scan_request source t) (Some f) \<and> 10 \<le> length (fr_data f) | _ \<Rightarrow> False)"

definition asks_again :: "byte \<Rightarrow> byte \<Rightarrow> go_error + frame option \<Rightarrow> bool" where
  "asks_again source t r \<longleftrightarrow> (case r of Inl err \<Rightarrow> ErrBusCollision \<in> set err \<or> should_retry_scan_error err
     | Inr _ \<Rightarrow> \<not> accepted source t r)"

definition eligible :: "'w scan_world \<Rightarrow> byte \<Rightarrow> bool" where
  "eligible se t \<longleftrightarrow> se_known_target se t \<and> \<not> is_initiator_capable_address t"

text \<open>The traffic that the probe of one target adds.\<close>

definition probe_traffic :: "'w scan_world \<Rightarrow> byte \<Rightarrow> byte \<Rightarrow> traffic \<Rightarrow> bool" where
  "probe_traffic se source t l \<longleftrightarrow> l = [] \<or> eligible se t \<and>
     (\<exists>r l'. l = (scan_request source t, r) # l' \<and>
        (l' = [] \<or> accepted source t r \<and> (\<exists>f. r = Inr (Some f) \<and> fr_data f ! 0 = vaillant_primary \<and> id_reads source (fr_source f) l')))"

text \<open>The traffic is that of probes of the targets, one after the other.\<close>

definition probes_only :: "'w scan_world \<Rightarrow> byte \<Rightarrow> byte set \<Rightarrow> traffic \<Rightarrow> bool" where
  "probes_only se source T l \<longleftrightarrow> (\<exists>ps. l = concat ps \<and> (\<forall>p \<in> set ps. \<exists>t \<in> T. probe_traffic se source t p))"

lemma probes_only_nil [simp]: "probes_only se source T []"
  unfolding probes_only_def by (rule exI [of _ "[]"]) simp

lemma probes_only_one: "probe_traffic se source t l \<Longrightarrow> t \<in> T \<Longrightarrow> probes_only se source T l"
  unfolding probes_only_def by (rule exI [of _ "[l]"]) auto

lemma probes_only_append: "probes_only se source T k \<Longrightarrow> probes_only se source T l \<Longrightarrow> probes_only se source T (k @ l)"
  unfolding probes_only_def by (metis Un_iff concat_append set_append)

lemma probes_only_mono: "probes_only se source T l \<Longrightarrow> T \<subseteq> U \<Longrightarrow> probes_only se source U l"
  unfolding probes_only_def by blast

definition answers :: "byte \<Rightarrow> byte \<Rightarrow> traffic \<Rightarrow> (go_error + frame option) list" where
  "answers source t l = map snd (filter (\<lambda>x. fst x = scan_request source t) l)"

lemma answers_append [simp]: "answers source t (k @ l) = answers source t k @ answers source t l"
  by (simp add: answers_def)

lemma answers_nil [simp]: "answers source t [] = []"
  by (simp add: answers_def)

lemma requests_differ [simp]: "scan_id_request source a q \<noteq> scan_request source' t"
  by (simp add: scan_id_request_def scan_request_def)

lemma scan_request_inj [simp]: "scan_request source t = scan_request source u \<longleftrightarrow> t = u"
  by (simp add: scan_request_def)

lemma answers_id_reads: "id_reads source a l \<Longrightarrow> answers source t l = []"
  unfolding answers_def using id_reads_fst [of source a l] by (fastforce simp: filter_empty_conv)

lemma probe_traffic_answers:
  assumes "probe_traffic se source t l"
  shows "answers source u l = (if u = t then (case l of [] \<Rightarrow> [] | x # l' \<Rightarrow> [snd x]) else [])"
    and "length l \<le> 5"
proof -
  have "answers source u l = (if u = t then (case l of [] \<Rightarrow> [] | x # l' \<Rightarrow> [snd x]) else []) \<and> length l \<le> 5"
  proof (cases l)
    case (Cons x l')
    then have x: "fst x = scan_request source t" and l': "l' = [] \<or> (\<exists>a. id_reads source a l')"
      using assms by (auto simp: probe_traffic_def)
    have "answers source u l' = []" "length l' \<le> 4"
      using l' answers_id_reads id_reads_length by fastforce+
    then show ?thesis using x by (auto simp: Cons answers_def)
  qed simp
  then show "answers source u l = (if u = t then (case l of [] \<Rightarrow> [] | x # l' \<Rightarrow> [snd x]) else [])" "length l \<le> 5"
    by blast+
qed

text \<open>
  Why a scan stops in the world it leaves: the context has ended there or during the pause that led to it, or
  the last send failed with an error that ends scans.
\<close>

definition ends_scan :: "frame \<Rightarrow> go_error \<Rightarrow> bool" where
  "ends_scan f e \<longleftrightarrow> (if fr_primary f = scan_primary
     then ErrBusCollision \<notin> set e \<and> \<not> should_retry_scan_error e \<and> \<not> should_skip_scan_error e
     else Canceled \<in> set e)"

definition stop_cause :: "'w scan_world \<Rightarrow> 'w \<Rightarrow> go_error \<Rightarrow> traffic \<Rightarrow> bool" where
  "stop_cause se w' e l \<longleftrightarrow>
     se_ctx_err se w' = Some e \<or> (\<exists>d \<in> {scan_probe_delay, scan_pass_delay}. \<exists>w. se_pause se d w = (Some e, w')) \<or>
     l \<noteq> [] \<and> snd (last l) = Inl e \<and> ends_scan (fst (last l)) e"

lemma stop_cause_append: "stop_cause se w e l \<Longrightarrow> stop_cause se w e (k @ l)"
  by (auto simp: stop_cause_def)

lemma stop_cause_ctx [intro]: "se_ctx_err se w = Some e \<Longrightarrow> stop_cause se w e l"
  "se_pause se scan_probe_delay w = (Some e, w') \<Longrightarrow> stop_cause se w' e l"
  "se_pause se scan_pass_delay w = (Some e, w') \<Longrightarrow> stop_cause se w' e l"
  by (auto simp: stop_cause_def)

definition result_cause :: "'w scan_world \<Rightarrow> 'w \<Rightarrow> scan_stop option \<Rightarrow> traffic \<Rightarrow> bool" where
  "result_cause se w stop l \<longleftrightarrow> (\<forall>e. stop = Some (ScanFailed e) \<longrightarrow> stop_cause se w e l)"

lemma result_cause_simps [simp]: "result_cause se w None l" "result_cause se w (Some ScanPanic) l"
  "result_cause se w (Some (ScanFailed e)) l = stop_cause se w e l"
  by (simp_all add: result_cause_def)

lemma result_cause_append: "result_cause se w stop l \<Longrightarrow> result_cause se w stop (k @ l)"
  by (simp add: result_cause_def stop_cause_append)

text \<open>A stage stops for a cause that holds in the world it returns.\<close>

definition stage_cause :: "'w scan_world \<Rightarrow> ('w, 'm) scan_result \<Rightarrow> traffic \<Rightarrow> bool" where
  "stage_cause se r l \<longleftrightarrow> result_cause se (sc_world (fst r)) (snd r) l"

lemma stage_cause_append: "stage_cause se r l \<Longrightarrow> stage_cause se r (k @ l)"
  by (simp add: stage_cause_def result_cause_append)

text \<open>A probe defers its target at most once, and only on an answer that asks for it.\<close>

definition defers :: "byte \<Rightarrow> ('w, 'm) scan_state \<Rightarrow> ('w, 'm) scan_state \<Rightarrow> bool" where
  "defers t st st' \<longleftrightarrow>
     sc_collisions st' = sc_collisions st @ [t] \<and> sc_retries st' = sc_retries st \<or>
     sc_collisions st' = sc_collisions st \<and> sc_retries st' = sc_retries st @ [t]"

definition same_lists :: "('w, 'm) scan_state \<Rightarrow> ('w, 'm) scan_state \<Rightarrow> bool" where
  "same_lists st st' \<longleftrightarrow> sc_collisions st' = sc_collisions st \<and> sc_retries st' = sc_retries st"

lemma same_lists_world [simp]: "same_lists (st\<lparr>sc_world := w\<rparr>) st' = same_lists st st'"
  "same_lists st (st'\<lparr>sc_world := w\<rparr>) = same_lists st st'" "same_lists st st"
  "defers t (st\<lparr>sc_world := w\<rparr>) st' = defers t st st'"
  by (simp_all add: same_lists_def defers_def)

lemma record_answer_lists: "same_lists st (fst (record_answer env se target info st))"
  by (simp add: record_answer_def same_lists_def Let_def split: prod.split option.split)

lemma take_answer_lists:
  "same_lists st (fst (take_answer env se source t f st)) \<or>
     length (fr_data f) < 10 \<and> defers t st (fst (take_answer env se source t f st))"
proof (cases "length (fr_data f) < 10")
  case True
  then show ?thesis
    by (simp add: take_answer_def parse_device_info_def probe_failed_def should_retry_scan_error_def defers_def)
next
  case False
  have "same_lists st (fst (record_answer env se t info (st\<lparr>sc_world := w\<rparr>)))" for info w
    using record_answer_lists [of "st\<lparr>sc_world := w\<rparr>"] by simp
  then show ?thesis using False record_answer_lists [of st]
    by (auto simp: take_answer_def parse_device_info_def split: sum.split option.split prod.split)
qed

text \<open>
  The discipline of a whole scan over the targets \<open>T\<close> after \<open>m\<close> passes: identification requests
  go to eligible targets only, at most \<open>m\<close> to each, and every answer to a target but its last asked
  for another pass.
\<close>

definition disciplined :: "'w scan_world \<Rightarrow> byte \<Rightarrow> byte set \<Rightarrow> nat \<Rightarrow> traffic \<Rightarrow> bool" where
  "disciplined se source T m l \<longleftrightarrow> length l \<le> 5 * m * card T \<and>
     probes_only se source T l \<and>
     (\<forall>t. length (answers source t l) \<le> m \<and> list_all (asks_again source t) (butlast (answers source t l)))"

lemma disciplined_mono:
  assumes "disciplined se source T m l" and "m \<le> n"
  shows "disciplined se source T n l"
proof -
  have "length l \<le> 5 * m * card T" using assms(1) by (simp add: disciplined_def)
  also have "\<dots> \<le> 5 * n * card T" using assms(2) by simp
  finally have "length l \<le> 5 * n * card T" .
  moreover have "length (answers source t l) \<le> n" for t using assms by (auto simp: disciplined_def intro: le_trans)
  ultimately show ?thesis using assms(1) by (simp add: disciplined_def)
qed

lemma dedupe_from_ok: "distinct (dedupe_from seen ts) \<and> set (dedupe_from seen ts) = set ts - set seen"
  by (induction ts arbitrary: seen) auto

lemma dedupe_facts [simp]: "distinct (dedupe_scan_targets ts)" "set (dedupe_scan_targets ts) = set ts"
  using dedupe_from_ok [of "[]" ts] by (simp_all add: dedupe_scan_targets_def)

text \<open>Every device whose answer was accepted is bound, and so is the address that was probed.\<close>

definition devices_bound :: "byte \<Rightarrow> 'm device_registry \<Rightarrow> traffic \<Rightarrow> bool" where
  "devices_bound source reg l \<longleftrightarrow> (\<forall>t f. (scan_request source t, Inr (Some f)) \<in> set l \<and> accepted source t (Inr (Some f)) \<longrightarrow>
     dr_entries reg (fr_source f) \<noteq> None \<and> dr_entries reg t \<noteq> None)"

lemma devices_bound_append [simp]:
  "devices_bound source reg (k @ l) \<longleftrightarrow> devices_bound source reg k \<and> devices_bound source reg l"
  by (auto simp: devices_bound_def)

lemma devices_bound_nil [simp]: "devices_bound source reg []"
  by (simp add: devices_bound_def)

lemma devices_bound_steps:
  "devices_bound source s l \<Longrightarrow> (dev_step env)\<^sup>*\<^sup>* s t \<Longrightarrow> registry_ok env s \<Longrightarrow> devices_bound source t l"
  unfolding devices_bound_def using dev_steps_bound [of env s t] by blast

definition binds_answer :: "byte \<Rightarrow> byte \<Rightarrow> ('w, 'm) scan_result \<Rightarrow> bool" where
  "binds_answer a t r \<longleftrightarrow>
     (snd r = None \<longrightarrow> dr_entries (sc_registry (fst r)) a \<noteq> None \<and> dr_entries (sc_registry (fst r)) t \<noteq> None)"

lemma take_answer_bound:
  assumes ok: "registry_ok env (sc_registry st)" and long: "10 \<le> length (fr_data f)"
  shows "binds_answer (fr_source f) t (take_answer env se source t f st)"
proof -
  have R: "binds_answer (fr_source f) t (record_answer env se t j st')"
    if "di_address j = fr_source f" "sc_registry st' = sc_registry st" for j st'
    using record_answer_steps(3,4) [of env st' se t j] ok that by (simp add: binds_answer_def)
  have "binds_answer (fr_source f) t (st', Some e)" for st' e by (simp add: binds_answer_def)
  then show ?thesis using long R
    by (auto simp: take_answer_def parse_device_info_def split: sum.split option.split prod.split)
qed

locale recording =
  fixes se :: "'w scan_world" and sent :: "'w \<Rightarrow> traffic"
  assumes records: "records se sent"
begin

lemma send: "se_send se f w = (r, w1) \<Longrightarrow> sent w1 = sent w @ [(f, r)]"
  using records unfolding records_def by (metis fst_conv snd_conv)

lemma pause: "se_pause se d w = (r, w1) \<Longrightarrow> sent w1 = sent w"
  using records unfolding records_def by (metis snd_conv)

lemma now: "se_now se w = (t, w1) \<Longrightarrow> sent w1 = sent w"
  using records unfolding records_def by (metis snd_conv)

lemma read_chunks:
  "read_scan_id_chunks se source a qs chunks w = (c, w1) \<Longrightarrow>
     \<exists>l. sent w1 = sent w @ l \<and> chunk_reads source a qs l \<and> (\<forall>e. c = ChunkError e \<longrightarrow> stop_cause se w1 e l)"
proof (induction qs arbitrary: chunks w)
  case Nil
  then show ?case by (intro exI [of _ "[]"]) auto
next
  case (Cons q qs)
  obtain r w2 where s: "se_send se (scan_id_request source a q) w = (r, w2)"
    by (cases "se_send se (scan_id_request source a q) w")
  let ?one = "[(scan_id_request source a q, r)]"
  consider (ends) "w1 = w2" "\<not> chunk_given r" "\<forall>e. c = ChunkError e \<longrightarrow> r = Inl e \<and> Canceled \<in> set e \<or> se_ctx_err se w2 = Some e"
    | (more) d where "read_scan_id_chunks se source a qs d w2 = (c, w1)" "chunk_given r"
    using Cons.prems s by (auto simp: Let_def chunk_given_def split: sum.splits option.splits if_splits)
  then show ?case
  proof cases
    case ends
    have "\<forall>e. c = ChunkError e \<longrightarrow> stop_cause se w1 e ?one"
      using ends(1,3) by (auto simp: stop_cause_def ends_scan_def scan_id_request_def)
    then show ?thesis using send [OF s] ends(1,2) chunk_reads_last by (intro exI [of _ ?one]) simp
  next
    case more
    from Cons.IH [OF more(1)] obtain l where l: "sent w1 = sent w2 @ l" "chunk_reads source a qs l"
        "\<forall>e. c = ChunkError e \<longrightarrow> stop_cause se w1 e l" by blast
    then show ?thesis using send [OF s] stop_cause_append [of se w1 _ l ?one] chunk_reads_Cons [OF more(2) l(2)]
      by (intro exI [of _ "?one @ l"]) simp
  qed
qed

lemma read_scan_id:
  assumes "read_vaillant_scan_id se source a w = (r, w1)"
  shows "\<exists>l. sent w1 = sent w @ l \<and> id_reads source a l \<and> (\<forall>e. r = Inl e \<longrightarrow> stop_cause se w1 e l)"
proof -
  obtain c w2 where c: "read_scan_id_chunks se source a [0x24, 0x25, 0x26, 0x27] [] w = (c, w2)"
    by (cases "read_scan_id_chunks se source a [0x24, 0x25, 0x26, 0x27] [] w")
  have "w1 = w2" "\<And>e. r = Inl e \<Longrightarrow> c = ChunkError e"
    using assms c by (auto simp: read_vaillant_scan_id_def split: chunk_read.splits)
  then show ?thesis using read_chunks [OF c] unfolding id_reads_def by blast
qed

lemma record_answer:
  "sent (sc_world (fst (record_answer env se target info st))) = sent (sc_world st)"
proof -
  obtain w1 reg1 entry1 where r: "register_probed env se target info (sc_world st) (sc_registry st) = (w1, reg1, entry1)"
    by (cases "register_probed env se target info (sc_world st) (sc_registry st)")
  obtain t w2 where n: "se_now se w1 = (t, w2)" by (cases "se_now se w1")
  have "sent w1 = sent (sc_world st)"
    using r now by (auto simp: register_probed_def Let_def split: prod.splits if_splits)
  moreover have "sc_world (fst (record_answer env se target info st)) = w2"
    by (simp add: record_answer_def r n Let_def split: option.splits)
  ultimately show ?thesis using now [OF n] by simp
qed

lemma record_answer_cause [simp]: "stage_cause se' (record_answer env se target info st) l"
  by (simp add: record_answer_def stage_cause_def result_cause_def Let_def split: prod.split option.split)

lemma take_answer:
  "\<exists>l. sent (sc_world (fst (take_answer env se source t f st))) = sent (sc_world st) @ l \<and>
     (l = [] \<or> 10 \<le> length (fr_data f) \<and> fr_data f ! 0 = vaillant_primary \<and> id_reads source (fr_source f) l) \<and>
     stage_cause se (take_answer env se source t f st) l"
proof (cases "parse_device_info (fr_source f) (fr_data f)")
  case (Inl err)
  then have "should_retry_scan_error err" by (auto simp: parse_device_info_def should_retry_scan_error_def split: if_splits)
  then show ?thesis by (intro exI [of _ "[]"]) (simp add: take_answer_def Inl probe_failed_def stage_cause_def)
next
  case (Inr info)
  then have long: "10 \<le> length (fr_data f)" by (simp add: parse_device_info_def split: if_splits)
  show ?thesis
  proof (cases "di_manufacturer info = ''Vaillant'' \<and> di_serial_number info = []")
    case True
    obtain r w1 where r: "read_vaillant_scan_id se source (fr_source f) (sc_world st) = (r, w1)"
      by (cases "read_vaillant_scan_id se source (fr_source f) (sc_world st)")
    obtain l where l: "sent w1 = sent (sc_world st) @ l" "id_reads source (fr_source f) l"
      "\<forall>e. r = Inl e \<longrightarrow> stop_cause se w1 e l" using read_scan_id [OF r] by blast
    have "sent (sc_world (fst (take_answer env se source t f st))) = sent w1 \<and>
        stage_cause se (take_answer env se source t f st) l"
      using True r l(3) by (simp add: take_answer_def Inr record_answer stage_cause_def [of se "(a, Some b)" for a b]
        split: sum.split option.split)
    moreover have "fr_data f ! 0 = vaillant_primary"
      using True Inr by (auto simp: parse_device_info_def split: if_splits)
    ultimately show ?thesis using l long by (intro exI [of _ l]) simp
  next
    case False
    then show ?thesis
      by (intro exI [of _ "[]"]) (simp add: take_answer_def Inr record_answer del: de_Morgan_conj)
  qed
qed

lemma probe_failed_sent: "sent (sc_world (fst (probe_failed err t st))) = sent (sc_world st)"
  by (simp add: probe_failed_def)

lemma scan_probe:
  fixes st :: "('w, 'm) scan_state"
  obtains l where "sent (sc_world (fst (scan_probe env se source t st))) = sent (sc_world st) @ l"
    and "probe_traffic se source t l" and "stage_cause se (scan_probe env se source t st) l"
    and "same_lists st (fst (scan_probe env se source t st)) \<or>
      defers t st (fst (scan_probe env se source t st)) \<and> (\<exists>r l'. l = (scan_request source t, r) # l' \<and> asks_again source t r)"
    and "registry_ok env (sc_registry st) \<Longrightarrow> snd (scan_probe env se source t st) = None \<Longrightarrow>
      devices_bound source (sc_registry (fst (scan_probe env se source t st))) l"
proof (cases "se_ctx_err se (sc_world st) = None \<and> eligible se t")
  case False
  then show thesis
    by (intro that [of "[]"]) (auto simp: scan_probe_def eligible_def probe_traffic_def stage_cause_def split: option.splits)
next
  case True
  obtain r w1 where r: "se_send se (scan_request source t) (sc_world st) = (r, w1)"
    by (cases "se_send se (scan_request source t) (sc_world st)")
  obtain ended w2 where p: "se_pause se scan_probe_delay w1 = (ended, w2)" by (cases "se_pause se scan_probe_delay w1")
  let ?st2 = "st\<lparr>sc_world := w2\<rparr>" and ?one = "[(scan_request source t, r)]"
  have w2: "sent w2 = sent (sc_world st) @ ?one" using send [OF r] pause [OF p] by simp
  let ?bad = "probe_failed [ErrScanResponsePayload, InvalidPayloadError] t ?st2"
  have failed: "same_lists st (fst ?bad) \<or> defers t st (fst ?bad)" "snd ?bad = None" "sc_world (fst ?bad) = w2"
    by (simp_all add: probe_failed_def should_retry_scan_error_def defers_def)
  have one: "probe_traffic se source t ?one" using True by (simp add: probe_traffic_def)
  have eq: "scan_probe env se source t st = (case ended of Some e \<Rightarrow> (?st2, Some (ScanFailed e)) | None \<Rightarrow>
      case r of Inl err \<Rightarrow> (case se_ctx_err se w2 of Some e \<Rightarrow> (?st2, Some (ScanFailed e))
          | None \<Rightarrow> if ErrBusCollision \<in> set err then (?st2\<lparr>sc_collisions := sc_collisions ?st2 @ [t]\<rparr>, None)
               else probe_failed err t ?st2)
        | Inr None \<Rightarrow> ?bad
        | Inr (Some f) \<Rightarrow> if \<not> is_directed_scan_response (scan_request source t) (Some f) then ?bad
             else take_answer env se source t f ?st2)"
    using True r p by (simp add: scan_probe_def eligible_def Let_def)
  consider (ended) e where "ended = Some e"
    | (err) err where "ended = None" "r = Inl err"
    | (bad) "ended = None" "scan_probe env se source t st = ?bad" "asks_again source t r"
    | (answer) f where "ended = None" "r = Inr (Some f)" "is_directed_scan_response (scan_request source t) (Some f)"
        "scan_probe env se source t st = take_answer env se source t f ?st2"
    by (cases ended; cases r; cases "projr r"; cases "is_directed_scan_response (scan_request source t) (projr r)")
      (auto simp: eq asks_again_def accepted_def)
  then show thesis
  proof cases
    case ended
    then show thesis using w2 one p by (intro that [of ?one]) (auto simp: eq stage_cause_def)
  next
    case err
    then show thesis using w2 one
      by (intro that [of ?one])
        (auto simp: eq probe_failed_def asks_again_def defers_def stop_cause_def ends_scan_def scan_request_def
          devices_bound_def stage_cause_def split: option.splits)
  next
    case bad
    then show thesis using w2 one failed bad(3)
      by (intro that [of ?one], unfold bad(2)) (auto simp: devices_bound_def asks_again_def stage_cause_def)
  next
    case answer
    obtain l where l: "sent (sc_world (fst (take_answer env se source t f ?st2))) = sent w2 @ l"
      "l = [] \<or> 10 \<le> length (fr_data f) \<and> fr_data f ! 0 = vaillant_primary \<and> id_reads source (fr_source f) l"
      "stage_cause se (take_answer env se source t f ?st2) l"
      using take_answer [of env source t f ?st2] by auto
    have "probe_traffic se source t (?one @ l)"
      using True l(2) answer by (auto simp: probe_traffic_def accepted_def)
    moreover have "same_lists st (fst (take_answer env se source t f ?st2)) \<or>
        defers t st (fst (take_answer env se source t f ?st2)) \<and> asks_again source t r"
      using take_answer_lists [of ?st2 env se source t f] answer by (auto simp: asks_again_def accepted_def)
    moreover have "devices_bound source (sc_registry (fst (take_answer env se source t f ?st2))) (?one @ l)"
      if "registry_ok env (sc_registry st)" "snd (take_answer env se source t f ?st2) = None"
    proof -
      have ok: "registry_ok env (sc_registry ?st2)" using that(1) by simp
      have no: "(scan_request source u, x) \<notin> set l" for u x
        using l(2) id_reads_fst [of source "fr_source f" l "(scan_request source u, x)"] requests_differ by (metis empty_iff fst_conv list.set(1))
      show ?thesis unfolding devices_bound_def
        using take_answer_bound [OF ok, of f t se source] no answer(2) that(2) by (auto simp: accepted_def binds_answer_def)
    qed
    ultimately show thesis using l(1) w2 stage_cause_append [OF l(3), of ?one]
      by (intro that [of "?one @ l"], unfold answer(4)) auto
  qed
qed

text \<open>
  One pass over distinct targets: each is asked at most once, and deferred only on an answer that
  asks for it.
\<close>

lemma scan_pending:
  assumes "distinct targets"
  obtains l where "sent (sc_world (fst (scan_pending env se source targets st))) = sent (sc_world st) @ l"
    and "length l \<le> 5 * length targets" and "stage_cause se (scan_pending env se source targets st) l"
    and "probes_only se source (set targets) l"
    and "\<And>t. length (answers source t l) \<le> 1"
    and "\<And>t. t \<notin> set targets \<Longrightarrow> answers source t l = []"
    and "\<And>t. t \<in> set (sc_collisions (fst (scan_pending env se source targets st)) @
             sc_retries (fst (scan_pending env se source targets st))) \<Longrightarrow>
           t \<in> set (sc_collisions st @ sc_retries st) \<or> t \<in> set targets \<and> (\<exists>r. answers source t l = [r] \<and> asks_again source t r)"
    and "registry_ok env (sc_registry st) \<Longrightarrow> snd (scan_pending env se source targets st) = None \<Longrightarrow>
      devices_bound source (sc_registry (fst (scan_pending env se source targets st))) l"
  using assms
proof (induction targets arbitrary: st thesis)
  case Nil
  show ?case by (rule Nil.prems(1) [of "[]"]) (simp_all add: stage_cause_def)
next
  case (Cons t ts)
  obtain st1 stop where p: "scan_probe env se source t st = (st1, stop)" by (cases "scan_probe env se source t st")
  obtain k where k: "sent (sc_world st1) = sent (sc_world st) @ k" "probe_traffic se source t k" "stage_cause se (st1, stop) k"
      "same_lists st st1 \<or> defers t st st1 \<and> (\<exists>r l'. k = (scan_request source t, r) # l' \<and> asks_again source t r)"
      "registry_ok env (sc_registry st) \<Longrightarrow> stop = None \<Longrightarrow> devices_bound source (sc_registry st1) k"
    by (rule scan_probe [of env source t st]) (simp add: p)
  note A = probe_traffic_answers [OF k(2)]
  have frames: "probes_only se source (set (t # ts)) k" using k(2) by (rule probes_only_one) simp
  have deferred: "u \<in> set (sc_collisions st1 @ sc_retries st1) \<Longrightarrow> u \<in> set (sc_collisions st @ sc_retries st) \<or>
      u = t \<and> (\<exists>r. answers source t k = [r] \<and> asks_again source t r)" for u
    using k(4) A(1) [of t] by (auto simp: same_lists_def defers_def)
  show ?case
  proof (cases stop)
    case (Some e)
    then have eq: "scan_pending env se source (t # ts) st = (st1, Some e)" by (simp add: p)
    show ?thesis
    proof (rule Cons.prems(1) [of k], unfold eq)
      show "sent (sc_world (fst (st1, Some e))) = sent (sc_world st) @ k" using k(1) by simp
      show "length k \<le> 5 * length (t # ts)" using A(2) by simp
      show "stage_cause se (st1, Some e) k" using k(3) Some by simp
      show "probes_only se source (set (t # ts)) k" by (rule frames)
      show "length (answers source u k) \<le> 1" for u using A(1) [of u] by (simp split: list.split)
      show "answers source u k = []" if "u \<notin> set (t # ts)" for u using A(1) [of u] that by simp
      show "u \<in> set (sc_collisions st @ sc_retries st) \<or> u \<in> set (t # ts) \<and> (\<exists>r. answers source u k = [r] \<and> asks_again source u r)"
        if "u \<in> set (sc_collisions (fst (st1, Some e)) @ sc_retries (fst (st1, Some e)))" for u
        using deferred [of u] that by auto
    qed simp
  next
    case None
    then have eq: "scan_pending env se source (t # ts) st = scan_pending env se source ts st1" by (simp add: p)
    have "distinct ts" "t \<notin> set ts" using Cons.prems(2) by simp_all
    obtain l where l: "sent (sc_world (fst (scan_pending env se source ts st1))) = sent (sc_world st1) @ l"
      "length l \<le> 5 * length ts" "stage_cause se (scan_pending env se source ts st1) l"
      "probes_only se source (set ts) l"
      "\<And>t. length (answers source t l) \<le> 1" "\<And>t. t \<notin> set ts \<Longrightarrow> answers source t l = []"
      "\<And>t. t \<in> set (sc_collisions (fst (scan_pending env se source ts st1)) @
             sc_retries (fst (scan_pending env se source ts st1))) \<Longrightarrow>
           t \<in> set (sc_collisions st1 @ sc_retries st1) \<or> t \<in> set ts \<and> (\<exists>r. answers source t l = [r] \<and> asks_again source t r)"
      "registry_ok env (sc_registry st1) \<Longrightarrow> snd (scan_pending env se source ts st1) = None \<Longrightarrow>
         devices_bound source (sc_registry (fst (scan_pending env se source ts st1))) l"
      by (rule Cons.IH [OF _ \<open>distinct ts\<close>, of st1]) (erule that; simp)
    show ?thesis
    proof (rule Cons.prems(1) [of "k @ l"], unfold eq)
      show "sent (sc_world (fst (scan_pending env se source ts st1))) = sent (sc_world st) @ k @ l" using k(1) l(1) by simp
      show "length (k @ l) \<le> 5 * length (t # ts)" using A(2) l(2) by simp
      show "stage_cause se (scan_pending env se source ts st1) (k @ l)" using l(3) by (rule stage_cause_append)
      show "probes_only se source (set (t # ts)) (k @ l)"
        using frames probes_only_mono [OF l(4), of "set (t # ts)"] by (intro probes_only_append) auto
      show "devices_bound source (sc_registry (fst (scan_pending env se source ts st1))) (k @ l)"
        if "registry_ok env (sc_registry st)" "snd (scan_pending env se source ts st1) = None"
      proof -
        have ok: "registry_ok env (sc_registry st1)"
          using stage_registry [OF that(1) scan_probe_ok [OF that(1), of se source t]] by (simp add: p)
        have "(dev_step env)\<^sup>*\<^sup>* (sc_registry st1) (sc_registry (fst (scan_pending env se source ts st1)))"
          using scan_pending_ok [OF ok] by (simp add: stage_ok_def)
        from devices_bound_steps [OF k(5) [OF that(1) None] this ok]
        show ?thesis using l(8) [OF ok that(2)] by simp
      qed
      have none: "answers source t l = []" by (rule l(6)) fact
      show "length (answers source u (k @ l)) \<le> 1" for u
        using A(1) [of u] l(5) [of u] none by (cases "u = t") (simp_all split: list.split)
      show "answers source u (k @ l) = []" if "u \<notin> set (t # ts)" for u using that A(1) [of u] l(6) [of u] by simp
      show "u \<in> set (sc_collisions st @ sc_retries st) \<or> u \<in> set (t # ts) \<and> (\<exists>r. answers source u (k @ l) = [r] \<and> asks_again source u r)"
        if "u \<in> set (sc_collisions (fst (scan_pending env se source ts st1)) @ sc_retries (fst (scan_pending env se source ts st1)))" for u
      proof -
        note u = l(7) [OF that]
        consider "u \<in> set (sc_collisions st1 @ sc_retries st1)" | "u \<in> set ts" "\<exists>r. answers source u l = [r] \<and> asks_again source u r"
          using u by blast
        then show ?thesis
        proof cases
          case 1
          from deferred [OF 1] show ?thesis using none by auto
        next
          case 2
          then have "answers source u k = []" using A(1) [of u] \<open>t \<notin> set ts\<close> by auto
          then show ?thesis using 2 by simp
        qed
      qed
    qed
  qed
qed

lemma pass_discipline:
  assumes d: "disciplined se source T m k" and p: "distinct pending" "set pending \<subseteq> T" "finite T"
    and again: "\<And>t. t \<in> set pending \<Longrightarrow> list_all (asks_again source t) (answers source t k)"
    and len: "length l \<le> 5 * length pending"
    and fr: "probes_only se source (set pending) l"
    and one: "\<And>t. length (answers source t l) \<le> 1" and none: "\<And>t. t \<notin> set pending \<Longrightarrow> answers source t l = []"
  shows "disciplined se source T (Suc m) (k @ l)"
proof -
  have "length pending \<le> card T" using p by (metis card_mono distinct_card)
  then have "length l \<le> 5 * card T" using len by simp
  moreover have "length k \<le> 5 * m * card T" using d by (simp add: disciplined_def)
  moreover have "5 * Suc m * card T = 5 * m * card T + 5 * card T" by (simp add: algebra_simps)
  ultimately have "length (k @ l) \<le> 5 * Suc m * card T" by simp
  moreover have "probes_only se source T (k @ l)"
    using d probes_only_mono [OF fr p(2)] by (intro probes_only_append) (simp_all add: disciplined_def)
  moreover have "length (answers source t (k @ l)) \<le> Suc m \<and>
      list_all (asks_again source t) (butlast (answers source t (k @ l)))" for t
  proof (cases "answers source t l = []")
    case True
    then show ?thesis using d by (auto simp: disciplined_def le_Suc_eq)
  next
    case False
    then obtain r where r: "answers source t l = [r]" using one [of t] by (cases "answers source t l") auto
    then have "t \<in> set pending" using none by fastforce
    then show ?thesis using r d again by (simp add: disciplined_def butlast_append)
  qed
  ultimately show ?thesis by (simp add: disciplined_def)
qed

lemma scan_passes:
  assumes "finite T" and "distinct pending" and "set pending \<subseteq> T" and "disciplined se source T m k"
    and "\<And>t. t \<in> set pending \<Longrightarrow> list_all (asks_again source t) (answers source t k)"
  shows "\<exists>l. sent (sc_world (fst (scan_passes env se source n pending st))) = sent (sc_world st) @ l \<and>
     disciplined se source T (m + n) (k @ l) \<and> stage_cause se (scan_passes env se source n pending st) (k @ l) \<and>
     (registry_ok env (sc_registry st) \<longrightarrow> snd (scan_passes env se source n pending st) = None \<longrightarrow>
        devices_bound source (sc_registry (fst (scan_passes env se source n pending st))) l)"
  using assms(2-)
proof (induction n arbitrary: pending st m k)
  case 0
  then show ?case by (intro exI [of _ "[]"]) (simp add: stage_cause_def)
next
  case (Suc n)
  let ?st0 = "st\<lparr>sc_collisions := [], sc_retries := []\<rparr>"
  obtain st1 stop where p: "scan_pending env se source pending ?st0 = (st1, stop)"
    by (cases "scan_pending env se source pending ?st0")
  obtain l where l: "sent (sc_world st1) = sent (sc_world st) @ l" "length l \<le> 5 * length pending" "stage_cause se (st1, stop) l"
    "probes_only se source (set pending) l"
    "\<And>t. length (answers source t l) \<le> 1" "\<And>t. t \<notin> set pending \<Longrightarrow> answers source t l = []"
    "\<And>t. t \<in> set (sc_collisions st1 @ sc_retries st1) \<Longrightarrow>
       t \<in> set pending \<and> (\<exists>r. answers source t l = [r] \<and> asks_again source t r)"
    "registry_ok env (sc_registry st) \<Longrightarrow> stop = None \<Longrightarrow> devices_bound source (sc_registry st1) l"
    by (rule scan_pending [OF Suc.prems(1), of env source ?st0]) (simp add: p)
  have D: "disciplined se source T (Suc m) (k @ l)"
  proof (rule pass_discipline [OF Suc.prems(3) Suc.prems(1,2) assms(1)])
    show "list_all (asks_again source t) (answers source t k)" if "t \<in> set pending" for t
      using that by (rule Suc.prems(4))
    show "length l \<le> 5 * length pending" by (rule l(2))
    show "probes_only se source (set pending) l" by (rule l(4))
    show "length (answers source t l) \<le> 1" for t by (rule l(5))
    show "answers source t l = []" if "t \<notin> set pending" for t using that by (rule l(6))
  qed
  have D': "disciplined se source T (m + Suc n) (k @ l)" by (rule disciplined_mono [OF D]) simp
  have C: "stage_cause se (st1, stop) (k @ l)" using l(3) by (rule stage_cause_append)
  obtain ended w1 where w: "se_pause se scan_pass_delay (sc_world st1) = (ended, w1)"
    by (cases "se_pause se scan_pass_delay (sc_world st1)")
  let ?st2 = "st1\<lparr>sc_world := w1\<rparr>" and ?next = "dedupe_scan_targets (sc_collisions st1 @ sc_retries st1)"
  have w1: "sent w1 = sent (sc_world st) @ l" using pause [OF w] l(1) by simp
  have nx: "set ?next = set (sc_collisions st1 @ sc_retries st1)" "distinct ?next" by simp_all
  have sub: "set ?next \<subseteq> T" unfolding nx(1) using l(7) Suc.prems(2) by blast
  have ag: "list_all (asks_again source t) (answers source t (k @ l))" if "t \<in> set ?next" for t
    using l(7) [of t] that Suc.prems(4) [of t] unfolding nx(1) by auto
  obtain l2 where l2: "sent (sc_world (fst (scan_passes env se source n ?next ?st2))) = sent w1 @ l2"
      "disciplined se source T (Suc m + n) ((k @ l) @ l2)"
      "stage_cause se (scan_passes env se source n ?next ?st2) ((k @ l) @ l2)"
      "registry_ok env (sc_registry ?st2) \<longrightarrow> snd (scan_passes env se source n ?next ?st2) = None \<longrightarrow>
         devices_bound source (sc_registry (fst (scan_passes env se source n ?next ?st2))) l2"
    using Suc.IH [OF nx(2) sub D, of ?st2] ag by auto
  have ok1: "registry_ok env (sc_registry st1)" if "registry_ok env (sc_registry st)"
    using stage_registry [of env ?st0, OF _ scan_pending_ok, of se source pending] that by (simp add: p)
  have bound: "devices_bound source (sc_registry (fst (scan_passes env se source n ?next ?st2))) (l @ l2)"
    if "registry_ok env (sc_registry st)" "stop = None" "snd (scan_passes env se source n ?next ?st2) = None"
  proof -
    have ok2: "registry_ok env (sc_registry ?st2)" using ok1 [OF that(1)] by simp
    have "(dev_step env)\<^sup>*\<^sup>* (sc_registry st1) (sc_registry (fst (scan_passes env se source n ?next ?st2)))"
      using scan_passes_ok [OF ok2, of se source n ?next] by (simp add: stage_ok_def)
    from devices_bound_steps [OF l(8) [OF that(1,2)] this ok1 [OF that(1)]]
    show ?thesis using l2(4) ok2 that(3) by simp
  qed
  consider (empty) "pending = []" | (over) "pending \<noteq> []" "stop \<noteq> None \<or> sc_collisions st1 = [] \<and> sc_retries st1 = [] \<or> n = 0"
    | (ended) e where "pending \<noteq> []" "stop = None" "ended = Some e" "\<not> (sc_collisions st1 = [] \<and> sc_retries st1 = [])" "n \<noteq> 0"
    | (more) "pending \<noteq> []" "stop = None" "ended = None" "\<not> (sc_collisions st1 = [] \<and> sc_retries st1 = [])" "n \<noteq> 0"
    by blast
  then show ?case
  proof cases
    case empty
    then show ?thesis using disciplined_mono [OF Suc.prems(3)] by (intro exI [of _ "[]"]) (simp add: stage_cause_def)
  next
    case over
    then show ?thesis using l(1) D' C l(8) by (intro exI [of _ l]) (cases stop; auto simp: p)
  next
    case ended
    then show ?thesis using w1 D' w by (intro exI [of _ l]) (auto simp: p Let_def stage_cause_def)
  next
    case more
    have eq: "scan_passes env se source (Suc n) pending st = scan_passes env se source n ?next ?st2"
      using more by (auto simp: p w Let_def)
    show ?thesis unfolding eq using w1 l2(1-3) bound more(2) by (intro exI [of _ "l @ l2"]) simp
  qed
qed

text \<open>A pass that runs to its end has asked every eligible target.\<close>

lemma scan_probe_asks:
  assumes "scan_probe env se source t st = (st1, stop)"
  shows "set (sent (sc_world st)) \<subseteq> set (sent (sc_world st1))"
    and "stop = None \<Longrightarrow> eligible se t \<Longrightarrow> \<exists>r. (scan_request source t, r) \<in> set (sent (sc_world st1))"
proof -
  obtain l where l: "sent (sc_world st1) = sent (sc_world st) @ l" "probe_traffic se source t l"
    by (rule scan_probe [of env source t st]) (simp add: assms)
  then show "set (sent (sc_world st)) \<subseteq> set (sent (sc_world st1))" by simp
  assume e: "stop = None" "eligible se t"
  obtain r w1 where r: "se_send se (scan_request source t) (sc_world st) = (r, w1)"
    by (cases "se_send se (scan_request source t) (sc_world st)")
  have "se_ctx_err se (sc_world st) = None" using assms e(1) by (auto simp: scan_probe_def split: option.splits)
  then have "sent (sc_world st1) \<noteq> sent (sc_world st)"
  proof -
    obtain ended w2 where w: "se_pause se scan_probe_delay w1 = (ended, w2)" by (cases "se_pause se scan_probe_delay w1")
    have "sent w2 = sent (sc_world st) @ [(scan_request source t, r)]" using send [OF r] pause [OF w] by simp
    moreover have "\<exists>k. sent (sc_world (fst (take_answer env se source t f (st\<lparr>sc_world := w2\<rparr>)))) = sent w2 @ k" for f
      using take_answer [of env source t f "st\<lparr>sc_world := w2\<rparr>"] by auto
    then have "\<exists>k. sent (sc_world st1) = sent w2 @ k"
      using assms e(2) r w \<open>se_ctx_err se (sc_world st) = None\<close> probe_failed_sent [of _ t "st\<lparr>sc_world := w2\<rparr>"]
      by (auto simp: scan_probe_def eligible_def Let_def split: option.splits sum.splits if_splits) (metis append_Nil2 fst_conv)+
    ultimately show ?thesis by auto
  qed
  then show "\<exists>r. (scan_request source t, r) \<in> set (sent (sc_world st1))"
    using l by (auto simp: probe_traffic_def)
qed

lemma scan_pending_asks:
  "scan_pending env se source targets st = (st1, stop) \<Longrightarrow>
     set (sent (sc_world st)) \<subseteq> set (sent (sc_world st1)) \<and>
     (stop = None \<longrightarrow> (\<forall>t \<in> set targets. eligible se t \<longrightarrow> (\<exists>r. (scan_request source t, r) \<in> set (sent (sc_world st1)))))"
proof (induction targets arbitrary: st)
  case (Cons t ts)
  obtain st2 stop2 where p: "scan_probe env se source t st = (st2, stop2)" by (cases "scan_probe env se source t st")
  note A = scan_probe_asks [OF p]
  show ?case
  proof (cases stop2)
    case None
    then have "scan_pending env se source ts st2 = (st1, stop)" using Cons.prems by (simp add: p)
    from Cons.IH [OF this] show ?thesis using A None by auto
  next
    case (Some e)
    then show ?thesis using Cons.prems A(1) by (auto simp: p)
  qed
qed simp

lemma scan_passes_asks:
  "scan_passes env se source n pending st = (st1, stop) \<Longrightarrow>
     set (sent (sc_world st)) \<subseteq> set (sent (sc_world st1)) \<and>
     (0 < n \<longrightarrow> stop = None \<longrightarrow>
        (\<forall>t \<in> set pending. eligible se t \<longrightarrow> (\<exists>r. (scan_request source t, r) \<in> set (sent (sc_world st1)))))"
proof (induction n arbitrary: pending st)
  case (Suc n)
  let ?st0 = "st\<lparr>sc_collisions := [], sc_retries := []\<rparr>"
  obtain st2 stop2 where p: "scan_pending env se source pending ?st0 = (st2, stop2)"
    by (cases "scan_pending env se source pending ?st0")
  note A = scan_pending_asks [OF p, simplified]
  obtain ended w1 where w: "se_pause se scan_pass_delay (sc_world st2) = (ended, w1)"
    by (cases "se_pause se scan_pass_delay (sc_world st2)")
  let ?next = "dedupe_scan_targets (sc_collisions st2 @ sc_retries st2)"
  consider (empty) "pending = []" "st1 = st" | (here) "sent (sc_world st1) = sent (sc_world st2)" "stop = None \<longrightarrow> stop2 = None"
    | (more) "stop2 = None" "scan_passes env se source n ?next (st2\<lparr>sc_world := w1\<rparr>) = (st1, stop)"
    using Suc.prems pause [OF w] by (auto simp: p w Let_def split: option.splits if_splits)
  then show ?case
  proof cases
    case here
    then show ?thesis using A by auto
  next
    case more
    have "set (sent (sc_world st2)) \<subseteq> set (sent (sc_world st1))" using Suc.IH [OF more(2)] pause [OF w] by simp
    then show ?thesis using A more(1) by blast
  qed simp
qed simp

end

interpretation logged_bus: recording "logged se" snd for se
  by unfold_locales (rule logged_records)

end
