(* ===== verification/Reg_Scan_Properties.thy ===== *)
theory Reg_Scan_Properties
  imports Reg_Scan_Log
begin

text \<open>
  What a scan promises: what it does to the registry, what it sends and why it stops, and how a
  serial number is read out of its chunks.
\<close>

section \<open>The registry after a scan\<close>

lemma scan_stages:
  assumes "scan env se source targets w reg = (result, w', reg')"
  obtains st stop where
    "scan_passes env se source 4 (dedupe_scan_targets (if targets = [] then default_scan_targets else targets)) (scan_start w reg) = (st, stop)"
    and "result = (case stop of Some e \<Rightarrow> Inl e | None \<Rightarrow> Inr (canonicalize_scan_entries reg' (sc_entries st)))"
    and "w' = sc_world st" and "reg' = sc_registry st"
  using assms by (auto simp: scan_def scan_collision_max_passes_def Let_def numeral_eq_Suc split: prod.splits)

lemma scan_start_facts [simp]: "sc_registry (scan_start w reg) = reg" "sc_world (scan_start w reg) = w"
  by (simp_all add: scan_start_def)

lemma scan_registry_steps:
  assumes ok: "registry_ok env reg" and s: "scan env se source targets w reg = (result, w', reg')"
  shows "(dev_step env)\<^sup>*\<^sup>* reg reg'" and "registry_ok env reg'" and "result \<noteq> Inl ScanPanic"
proof -
  let ?T = "dedupe_scan_targets (if targets = [] then default_scan_targets else targets)"
  obtain st stop where t: "scan_passes env se source 4 ?T (scan_start w reg) = (st, stop)"
    "result = (case stop of Some e \<Rightarrow> Inl e | None \<Rightarrow> Inr (canonicalize_scan_entries reg' (sc_entries st)))" "reg' = sc_registry st"
    by (rule scan_stages [OF s])
  have "stage_ok env (scan_start w reg) (st, stop)"
    using scan_passes_ok [of env "scan_start w reg" se source 4 ?T] ok by (simp add: t(1))
  then show steps: "(dev_step env)\<^sup>*\<^sup>* reg reg'" and "result \<noteq> Inl ScanPanic"
    by (auto simp: stage_ok_def t(2,3) split: option.splits)
  show "registry_ok env reg'" by (rule dev_steps_ok [OF steps ok])
qed

text \<open>(C22)
  A scan of a reachable registry leaves a reachable registry behind however it ends, never
  dereferences a missing entry, and unbinds no address. The entries it returns are distinct live
  groups, each the one that its own primary address looks up.
\<close>

theorem scan_keeps_registry:
  assumes "dev_reachable env providers reg" and "scan env se source targets w reg = (result, w', reg')"
  shows "dev_reachable env providers reg' \<and> result \<noteq> Inl ScanPanic \<and>
     (\<forall>a. dev_lookup reg a \<noteq> None \<longrightarrow> dev_lookup reg' a \<noteq> None) \<and>
     (\<forall>es. result = Inr es \<longrightarrow> distinct es \<and>
        (\<forall>e \<in> set es. e \<in> set (dr_order reg') \<and> dev_lookup reg' (primary_display_address (entry_of reg' e)) = Some e))"
proof -
  have ok: "registry_ok env reg" by (rule dr.reach_inv [OF assms(1)])
  note S = scan_registry_steps [OF ok assms(2)]
  have "dev_lookup reg a \<noteq> None \<Longrightarrow> dev_lookup reg' a \<noteq> None" for a
    using dev_steps_bound [OF S(1) ok] by (simp add: dev_lookup_def)
  moreover have "distinct es \<and> (\<forall>e \<in> set es. e \<in> set (dr_order reg') \<and>
      dev_lookup reg' (primary_display_address (entry_of reg' e)) = Some e)" if "result = Inr es" for es
  proof -
    obtain st stop where
      "scan_passes env se source 4 (dedupe_scan_targets (if targets = [] then default_scan_targets else targets)) (scan_start w reg) = (st, stop)"
      and r: "result = (case stop of Some e \<Rightarrow> Inl e | None \<Rightarrow> Inr (canonicalize_scan_entries reg' (sc_entries st)))"
      and "w' = sc_world st" "reg' = sc_registry st"
      by (rule scan_stages [OF assms(2)])
    from r have "es = canonical_from reg' [] (sc_entries st)"
      using that by (simp add: canonicalize_scan_entries_def split: option.splits)
    then show ?thesis using canonical_from_ok [OF S(2), of "[]" "sc_entries st"] primary_display_live(2) [OF S(2)] by auto
  qed
  ultimately show ?thesis using dr.reach_steps [OF S(1) assms(1)] S(3) by blast
qed

text \<open>A bus with one appliance, at 0x08; every other target times out.\<close>

definition sample_bus :: "unit scan_world" where
  "sample_bus = \<lparr>se_send = (\<lambda>f w. (if fr_target f = 0x08
       then Inr (Some \<lparr>fr_source = 0x08, fr_target = fr_source f, fr_primary = fr_primary f, fr_secondary = fr_secondary f,
         fr_data = [0x20, 0x42, 0x41, 0x49, 0x30, 0x30, 0x02, 0x02, 0x96, 0x02]\<rparr>)
       else Inl [ErrTimeout], w)),
     se_ctx_err = (\<lambda>w. None), se_pause = (\<lambda>d w. (None, w)), se_now = (\<lambda>w. (7, w)),
     se_known_target = (\<lambda>t. t = 0x08 \<or> t = 0x15)\<rparr>"

theorem scan_keeps_registry_witness:
  "\<exists>result reg'. scan sample_env sample_bus 0x31 [0x08, 0x15] () sample_seen = (result, (), reg') \<and>
     dev_reachable sample_env [] reg' \<and> result \<noteq> Inl ScanPanic \<and> dev_lookup reg' 0x10 \<noteq> None"
proof -
  obtain result reg' where s: "scan sample_env sample_bus 0x31 [0x08, 0x15] () sample_seen = (result, (), reg')"
    by (metis prod.collapse unit.exhaust)
  have "dev_lookup sample_seen 0x10 \<noteq> None" using sample_bound by (auto simp: dev_lookup_def)
  then show ?thesis using scan_keeps_registry [OF sample_seen_reachable s] s by blast
qed

section \<open>The traffic of a scan\<close>

lemma logged_probe [simp]: "probe_traffic (logged se) = probe_traffic se" "eligible (logged se) = eligible se"
  by (simp_all add: fun_eq_iff probe_traffic_def eligible_def logged_def)

lemma logged_pause: "se_pause (logged se) d (w, l) = (r, (w', l')) \<longleftrightarrow> se_pause se d w = (r, w') \<and> l' = l"
  by (auto simp: logged_def split: prod.splits)

lemma logged_cause: "stop_cause (logged se) (w', l) e l \<longleftrightarrow> stop_cause se w' e l"
  by (simp add: stop_cause_def logged_pause) (simp add: logged_def)

text \<open>(C23)
  A scan passes at most four times over its distinct targets and sends at most five frames per target
  and pass. Its traffic is that of single probes: an identification request to a target of a known frame
  type that is no initiator and, only when the answer was accepted and comes from a Vaillant device, the
  serial reads of the address that answered, in their order, going on exactly while an answer has data.
  A target is asked again only after an answer that collided, timed out, was corrupt or did not
  fit the probe. The scan stops early only when the context has ended in the world it leaves or during
  the pause that led there, or on an error of its last send that is neither of these nor a missing device. A scan
  that runs to its end has asked every eligible target, and every device whose answer it accepted is
  in the registry.
\<close>

theorem scan_traffic_exact:
  assumes "dev_reachable env providers reg"
    and "scan env (logged se) source targets (w, []) reg = (result, (w', traffic), reg')"
    and "T = set (if targets = [] then default_scan_targets else targets)"
  shows "length traffic \<le> 20 * card T \<and>
     (\<exists>probes. traffic = concat probes \<and> (\<forall>p \<in> set probes. \<exists>t \<in> T. probe_traffic se source t p)) \<and>
     (\<forall>t. length (answers source t traffic) \<le> 4 \<and> list_all (asks_again source t) (butlast (answers source t traffic))) \<and>
     (\<forall>e. result = Inl (ScanFailed e) \<longrightarrow> stop_cause se w' e traffic) \<and>
     (\<forall>es. result = Inr es \<longrightarrow> devices_bound source reg' traffic \<and>
        (\<forall>t \<in> T. eligible se t \<longrightarrow> answers source t traffic \<noteq> []))"
proof -
  let ?T = "dedupe_scan_targets (if targets = [] then default_scan_targets else targets)"
  have ok: "registry_ok env (sc_registry (scan_start (w, [] :: traffic) reg))" using dr.reach_inv [OF assms(1)] by simp
  obtain st stop where t: "scan_passes env (logged se) source 4 ?T (scan_start (w, []) reg) = (st, stop)"
    "result = (case stop of Some e \<Rightarrow> Inl e | None \<Rightarrow> Inr (canonicalize_scan_entries reg' (sc_entries st)))"
    "(w', traffic) = sc_world st" "reg' = sc_registry st"
    by (rule scan_stages [OF assms(2)])
  have d0: "disciplined (logged se) source T 0 []" by (simp add: disciplined_def)
  have "\<exists>l. snd (sc_world st) = [] @ l \<and> disciplined (logged se) source T (0 + 4) ([] @ l) \<and> stage_cause (logged se) (st, stop) ([] @ l) \<and>
      (registry_ok env (sc_registry (scan_start (w, [] :: traffic) reg)) \<longrightarrow> stop = None \<longrightarrow> devices_bound source (sc_registry st) l)"
    using logged_bus.scan_passes [of T ?T se source 0 "[]" env 4 "scan_start (w, []) reg"] d0 by (simp add: t(1) assms(3))
  then have tr: "disciplined (logged se) source T 4 traffic" "result_cause (logged se) (w', traffic) stop traffic"
      "stop = None \<Longrightarrow> devices_bound source reg' traffic"
    using ok by (simp_all add: t(3) [symmetric] t(4) stage_cause_def)
  have "\<exists>r. (scan_request source u, r) \<in> set traffic" if "stop = None" "u \<in> T" "eligible se u" for u
    using logged_bus.scan_passes_asks [OF t(1)] that by (simp add: t(3) [symmetric] assms(3))
  then have asked: "answers source u traffic \<noteq> []" if "stop = None" "u \<in> T" "eligible se u" for u
    using that by (fastforce simp: answers_def filter_empty_conv)
  have res: "result = Inr es \<Longrightarrow> stop = None" "result = Inl (ScanFailed e) \<Longrightarrow> stop = Some (ScanFailed e)" for es e
    by (simp_all add: t(2) split: option.splits)
  show ?thesis
    using tr(1,2) tr(3) [OF res(1)] asked [OF res(1)] res(2)
    by (simp add: disciplined_def result_cause_def probes_only_def logged_cause)
qed

theorem scan_traffic_exact_witness:
  "\<exists>result traffic reg'. scan sample_env (logged sample_bus) 0x31 [0x08, 0x15] ((), []) sample_start = (result, ((), traffic), reg') \<and>
     length traffic \<le> 40 \<and> length (answers 0x31 0x15 traffic) \<le> 4"
proof -
  obtain result traffic reg' where
    s: "scan sample_env (logged sample_bus) 0x31 [0x08, 0x15] ((), []) sample_start = (result, ((), traffic), reg')"
    by (metis prod.collapse unit.exhaust)
  have "card (set [0x08, 0x15 :: byte]) = 2" by simp
  then show ?thesis
    using scan_traffic_exact [OF sample_start_reachable s refl] s by auto
qed

end
