(* ===== verification/Vai_Params.thy ===== *)
theory Vai_Params
  imports Router Go_Format Complex_Main
begin

text \<open>
  Parameters of a method call (\<open>vaillant/system/params.go\<close> and the address parameter of
  \<open>b509_register_access.go\<close>): values of any Go type, read as bytes and 16-bit addresses.

  A nil parameter map and an empty one are both the empty map: every method rejects both with the
  same error. A floating point value is a rational, an infinity or not a number; a
  \<open>json.Number\<close> is its text, with the float that \<open>strconv.ParseFloat\<close> makes of it.
\<close>

section \<open>Values\<close>

datatype go_float = NotANumber | Infinite | Finite rat

datatype go_value =
    VInt int64
  | VInt8 "8 word"
  | VInt16 "16 word"
  | VInt32 "32 word"
  | VInt64 int64
  | VUint uint64
  | VUint8 byte
  | VUint16 uint16
  | VUint32 uint32
  | VUint64 uint64
  | VFloat32 go_float
  | VFloat64 go_float
  | VNumber string "go_float option"
  | VString string
  | VBytes "byte list"
  | VInts "int64 list"
  | VAnys "go_value list"
  | VNil
  | VOther

type_synonym vai_params = "(string, go_value) gomap"

datatype 'e vai_error = PayloadRejected | DecoderError 'e

text \<open>Steps that may fail: \<open>and_then\<close> goes on with a value, \<open>require\<close> rejects a missing one.\<close>

definition and_then :: "'e + 'a \<Rightarrow> ('a \<Rightarrow> 'e + 'b) \<Rightarrow> 'e + 'b" where
  "and_then r f = (case r of Inl e \<Rightarrow> Inl e | Inr x \<Rightarrow> f x)"

definition require :: "'a option \<Rightarrow> 'e vai_error + 'a" where
  "require x = (case x of None \<Rightarrow> Inl PayloadRejected | Some y \<Rightarrow> Inr y)"

lemma and_then_simps [simp]: "and_then (Inl e) f = Inl e" "and_then (Inr x) f = f x"
  by (simp_all add: and_then_def)

lemma and_then_Inr: "and_then r f = Inr y \<longleftrightarrow> (\<exists>x. r = Inr x \<and> f x = Inr y)"
  by (cases r) simp_all

lemma require_simps [simp]: "require None = Inl PayloadRejected" "require (Some y) = Inr y"
  "require x = Inr y \<longleftrightarrow> x = Some y"
  by (auto simp: require_def split: option.splits)

section \<open>Integers\<close>

definition parse_integer :: "int \<Rightarrow> uint64 \<Rightarrow> uint64 option" where
  "parse_integer n limit = (if n < 0 \<or> n > uint limit then None else Some (word_of_int n))"

definition parse_float_uint :: "go_float \<Rightarrow> uint64 \<Rightarrow> uint64 option" where
  "parse_float_uint value limit =
     (case value of
        NotANumber \<Rightarrow> None
      | Infinite \<Rightarrow> None
      | Finite q \<Rightarrow>
          if q < 0 \<or> q > of_int (uint limit) then None
          else if of_int \<lfloor>q\<rfloor> \<noteq> q then None
          else Some (word_of_int \<lfloor>q\<rfloor>))"

text \<open>\<open>strconv.ParseInt(s, 10, 64)\<close>: an optional sign, digits, in range.\<close>

definition parse_int64 :: "string \<Rightarrow> int option" where
  "parse_int64 s = (case int_parse s of None \<Rightarrow> None | Some n \<Rightarrow> if is_int64 n then Some n else None)"

definition parse_uint :: "go_value \<Rightarrow> uint64 \<Rightarrow> uint64 option" where
  "parse_uint value limit =
     (case value of
        VInt n \<Rightarrow> parse_integer (sint n) limit
      | VInt8 n \<Rightarrow> parse_integer (sint n) limit
      | VInt16 n \<Rightarrow> parse_integer (sint n) limit
      | VInt32 n \<Rightarrow> parse_integer (sint n) limit
      | VInt64 n \<Rightarrow> parse_integer (sint n) limit
      | VUint n \<Rightarrow> parse_integer (uint n) limit
      | VUint8 n \<Rightarrow> parse_integer (uint n) limit
      | VUint16 n \<Rightarrow> parse_integer (uint n) limit
      | VUint32 n \<Rightarrow> parse_integer (uint n) limit
      | VUint64 n \<Rightarrow> parse_integer (uint n) limit
      | VFloat32 q \<Rightarrow> parse_float_uint q limit
      | VFloat64 q \<Rightarrow> parse_float_uint q limit
      | VNumber s q \<Rightarrow>
          (case parse_int64 s of
             Some n \<Rightarrow> parse_integer n limit
           | None \<Rightarrow> (case q of None \<Rightarrow> None | Some f \<Rightarrow> parse_float_uint f limit))
      | _ \<Rightarrow> None)"

definition to_byte :: "go_value \<Rightarrow> byte option" where
  "to_byte value = (case parse_uint value 0xFF of None \<Rightarrow> None | Some n \<Rightarrow> Some (ucast n))"

definition uint8_param :: "vai_params \<Rightarrow> string \<Rightarrow> byte option" where
  "uint8_param params key = (case gm_get params key of None \<Rightarrow> None | Some value \<Rightarrow> to_byte value)"

section \<open>Byte strings\<close>

fun bytes_of_ints :: "int64 list \<Rightarrow> byte list option" where
  "bytes_of_ints [] = Some []"
| "bytes_of_ints (v # vs) =
     (if sint v < 0 \<or> sint v > 255 then None
      else case bytes_of_ints vs of None \<Rightarrow> None | Some out \<Rightarrow> Some (ucast v # out))"

fun bytes_of_anys :: "go_value list \<Rightarrow> byte list option" where
  "bytes_of_anys [] = Some []"
| "bytes_of_anys (v # vs) =
     (case to_byte v of None \<Rightarrow> None
      | Some b \<Rightarrow> (case bytes_of_anys vs of None \<Rightarrow> None | Some out \<Rightarrow> Some (b # out)))"

text \<open>The data and whether the key is there.\<close>

definition bytes_param :: "vai_params \<Rightarrow> string \<Rightarrow> 'e vai_error + byte list \<times> bool" where
  "bytes_param params key =
     (case gm_get params key of
        None \<Rightarrow> Inr ([], False)
      | Some VNil \<Rightarrow> Inr ([], True)
      | Some (VBytes data) \<Rightarrow> Inr (data, True)
      | Some (VInts vs) \<Rightarrow>
          (case bytes_of_ints vs of None \<Rightarrow> Inl PayloadRejected | Some out \<Rightarrow> Inr (out, True))
      | Some (VAnys vs) \<Rightarrow>
          (case bytes_of_anys vs of None \<Rightarrow> Inl PayloadRejected | Some out \<Rightarrow> Inr (out, True))
      | Some value \<Rightarrow>
          (case to_byte value of None \<Rightarrow> Inl PayloadRejected | Some b \<Rightarrow> Inr ([b], True)))"

section \<open>Register addresses\<close>

definition address_of_text :: "string \<Rightarrow> uint16 option" where
  "address_of_text text =
     (let s = trim_prefix (trim_prefix (trim_space text) ''0x'') ''0X''
      in if length s \<noteq> 4 then None
         else case parse_hex 0 s of None \<Rightarrow> None | Some n \<Rightarrow> Some (of_nat n))"

definition address_of_value :: "go_value \<Rightarrow> uint16 option" where
  "address_of_value value =
     (case value of
        VString text \<Rightarrow> address_of_text text
      | VBytes bs \<Rightarrow> (if length bs \<noteq> 2 then None else Some (be16 (bs ! 0) (bs ! 1)))
      | VInts vs \<Rightarrow>
          (if length vs \<noteq> 2 then None
           else if \<not> list_all (\<lambda>v. 0 \<le> sint v \<and> sint v \<le> 255) vs then None
           else Some (be16 (ucast (vs ! 0)) (ucast (vs ! 1))))
      | VAnys vs \<Rightarrow>
          (if length vs \<noteq> 2 then None
           else case to_byte (vs ! 0) of None \<Rightarrow> None
           | Some hi \<Rightarrow> (case to_byte (vs ! 1) of None \<Rightarrow> None | Some lo \<Rightarrow> Some (be16 hi lo)))
      | _ \<Rightarrow> None)"

text \<open>The address, nothing when the key is missing, an error when it is there and unreadable.\<close>

definition register_addr_param :: "vai_params \<Rightarrow> string \<Rightarrow> 'e vai_error + uint16 option" where
  "register_addr_param params key =
     (case gm_get params key of
        None \<Rightarrow> Inr None
      | Some value \<Rightarrow>
          (case parse_uint value 0xFFFF of
             Some n \<Rightarrow> Inr (Some (ucast n))
           | None \<Rightarrow>
               (case address_of_value value of
                  None \<Rightarrow> Inl PayloadRejected
                | Some a \<Rightarrow> Inr (Some a))))"

end
