(* ===== verification/Vai_System.thy ===== *)
theory Vai_System
  imports Vai_Params Schema_Codec
begin

text \<open>
  The system plane of Vaillant devices (\<open>vaillant/system\<close>): its methods, the requests they build
  and the answers they decode (B5 04, B5 05, B5 09, B5 24), the table of register bounds, and the
  energy broadcasts (B5 16).

  The decoders of the BCD, DATA2b and EXP types come from another module and are parameters. A
  decoded map is an association list; a \<open>types.Value\<close> is a known Go value, an invalid value, or
  what a decoder gave. Error texts are left out.
\<close>

section \<open>Register bounds\<close>

record b524_constraint =
  bc_type :: string
  bc_min :: rat
  bc_max :: rat
  bc_step :: rat

abbreviation b524_opcode_local :: byte where "b524_opcode_local \<equiv> 0x02"
abbreviation b524_opcode_remote :: byte where "b524_opcode_remote \<equiv> 0x06"

type_synonym b524_selector = "byte \<times> byte \<times> uint16"

definition constraint_row ::
  "byte \<Rightarrow> uint16 \<Rightarrow> string \<Rightarrow> rat \<Rightarrow> rat \<Rightarrow> rat \<Rightarrow> b524_selector \<times> b524_constraint" where
  "constraint_row grp register kind lo hi step =
     ((b524_opcode_local, grp, register), \<lparr>bc_type = kind, bc_min = lo, bc_max = hi, bc_step = step\<rparr>)"

definition b524_static_constraints :: "(b524_selector, b524_constraint) gomap" where
  "b524_static_constraints = [
   constraint_row 0x00 0x0002 ''f32_range'' (- 26) 10 1,
   constraint_row 0x00 0x0003 ''u16_range'' 0 12 1,
   constraint_row 0x00 0x0004 ''u16_range'' 0 300 10,
   constraint_row 0x00 0x0080 ''f32_range'' (- 10) 10 1,
   constraint_row 0x01 0x0001 ''u16_range'' 0 1 1,
   constraint_row 0x01 0x0002 ''u8_range'' 0 1 1,
   constraint_row 0x01 0x0003 ''u16_range'' 0 2 1,
   constraint_row 0x01 0x0004 ''f32_range'' 35 70 1,
   constraint_row 0x01 0x0005 ''f32_range'' 0 99 1,
   constraint_row 0x01 0x0006 ''u8_range'' 0 1 1,
   constraint_row 0x02 0x0001 ''u16_range'' 1 2 1,
   constraint_row 0x02 0x0002 ''u16_range'' 0 4 1,
   constraint_row 0x02 0x0004 ''f32_range'' 15 80 1,
   constraint_row 0x02 0x0005 ''u8_range'' 0 1 1,
   constraint_row 0x02 0x0006 ''u8_range'' 0 1 1,
   constraint_row 0x03 0x0001 ''u16_range'' 0 2 1,
   constraint_row 0x03 0x0002 ''f32_range'' 15 30 (1 / 2),
   constraint_row 0x03 0x0005 ''f32_range'' 5 30 1,
   constraint_row 0x03 0x0006 ''u16_range'' 0 2 1,
   constraint_row 0x04 0x0001 ''u8_range'' 0 1 1,
   constraint_row 0x04 0x0002 ''u8_range'' 0 1 1,
   constraint_row 0x04 0x0003 ''f32_range'' (- 40) 155 1,
   constraint_row 0x04 0x0004 ''f32_range'' 0 99 1,
   constraint_row 0x04 0x0005 ''f32_range'' 110 150 1,
   constraint_row 0x04 0x0006 ''f32_range'' 75 115 1,
   constraint_row 0x05 0x0001 ''f32_range'' 0 99 1,
   constraint_row 0x05 0x0002 ''f32_range'' 2 25 1,
   constraint_row 0x05 0x0003 ''f32_range'' 1 20 1,
   constraint_row 0x05 0x0004 ''f32_range'' (- 10) 110 1,
   constraint_row 0x08 0x0001 ''f32_range'' 0 99 1,
   constraint_row 0x08 0x0002 ''f32_range'' 0 99 1,
   constraint_row 0x08 0x0003 ''f32_range'' 2 25 1,
   constraint_row 0x08 0x0004 ''f32_range'' 1 20 1,
   constraint_row 0x08 0x0005 ''f32_range'' (- 10) 110 1,
   constraint_row 0x08 0x0006 ''f32_range'' (- 10) 110 1,
   constraint_row 0x09 0x0001 ''u16_range'' 0 255 1,
   constraint_row 0x09 0x0002 ''u16_range'' 1 3 1,
   constraint_row 0x09 0x0003 ''u8_range'' 0 1 1,
   constraint_row 0x09 0x0004 ''u16_range'' 0 10 1,
   constraint_row 0x09 0x0005 ''u16_range'' 0 32768 1,
   constraint_row 0x09 0x0006 ''u16_range'' 0 32768 1,
   constraint_row 0x0A 0x0001 ''u8_range'' 0 3 1,
   constraint_row 0x0A 0x0002 ''u8_range'' 1 2 1,
   constraint_row 0x0A 0x0003 ''u8_range'' 1 2 1,
   constraint_row 0x0A 0x0005 ''u8_range'' 0 3 1,
   constraint_row 0x0A 0x0006 ''u8_range'' 0 1 1
  ]"

definition lookup_b524_constraint :: "byte \<Rightarrow> byte \<Rightarrow> uint16 \<Rightarrow> b524_constraint option" where
  "lookup_b524_constraint opcode grp register = gm_get b524_static_constraints (opcode, grp, register)"

section \<open>Decoded values\<close>

record ab07_timer_slot =
  ts_raw_pair :: "byte \<times> byte"
  ts_start_minutes :: "int option"
  ts_stop_minutes :: "int option"
  ts_unused :: bool

datatype any_value =
    AByte byte
  | AUint16 uint16
  | AText string
  | ABytes "byte list"
  | ABool bool
  | AInt int
  | AFloat rat
  | AConstraint b524_constraint
  | ASlots "ab07_timer_slot list"

datatype 'v plane_value = Known any_value | Invalid | Decoded 'v

type_synonym 'v plane_values = "(string, 'v plane_value) gomap"

section \<open>Templates\<close>

record 'e plane_template =
  pt_primary :: byte
  pt_secondary :: byte
  pt_build :: "(vai_params \<Rightarrow> 'e vai_error + byte list) option"

record 'e system_method =
  sm_name :: string
  sm_read_only :: bool
  sm_template :: "'e plane_template option"

text \<open>The payload of a write: \<open>data\<close>, or \<open>payload\<close> when there is no \<open>data\<close>.\<close>

definition write_data :: "vai_params \<Rightarrow> 'e vai_error + byte list" where
  "write_data params =
     and_then (bytes_param params ''data'') (\<lambda>(data, has_data).
       if has_data then Inr data
       else and_then (bytes_param params ''payload'') (\<lambda>(data, _). Inr data))"

definition required_address :: "vai_params \<Rightarrow> 'e vai_error + uint16" where
  "required_address params = and_then (register_addr_param params ''addr'') require"

definition operational_build :: "vai_params \<Rightarrow> 'e vai_error + byte list" where
  "operational_build params = and_then (require (uint8_param params ''op'')) (\<lambda>op. Inr [op])"

definition operational_write_build :: "vai_params \<Rightarrow> 'e vai_error + byte list" where
  "operational_write_build params =
     and_then (require (uint8_param params ''op'')) (\<lambda>op.
     and_then (write_data params) (\<lambda>data.
       if length data > 0xFE then Inl PayloadRejected else Inr (op # data)))"

abbreviation register_cmd_read :: byte where "register_cmd_read \<equiv> 0x0D"
abbreviation register_cmd_write :: byte where "register_cmd_write \<equiv> 0x0E"

definition register_read_build :: "vai_params \<Rightarrow> 'e vai_error + byte list" where
  "register_read_build params =
     and_then (required_address params) (\<lambda>a. Inr [register_cmd_read, hi8 a, lo8 a])"

definition register_write_build :: "vai_params \<Rightarrow> 'e vai_error + byte list" where
  "register_write_build params =
     and_then (required_address params) (\<lambda>a.
     and_then (write_data params) (\<lambda>data.
       if length data > 0xFC then Inl PayloadRejected
       else Inr ([register_cmd_write, hi8 a, lo8 a] @ data)))"

abbreviation ext_register_op_read :: byte where "ext_register_op_read \<equiv> 0x00"
abbreviation ext_register_op_write :: byte where "ext_register_op_write \<equiv> 0x01"

definition checked_opcode :: "byte \<Rightarrow> 'e vai_error + byte" where
  "checked_opcode opcode =
     (if opcode \<noteq> b524_opcode_local \<and> opcode \<noteq> b524_opcode_remote then Inl PayloadRejected else Inr opcode)"

definition ext_register_opcode :: "vai_params \<Rightarrow> 'e vai_error + byte" where
  "ext_register_opcode params =
     (case uint8_param params ''opcode'' of
        Some opcode \<Rightarrow> checked_opcode opcode
      | None \<Rightarrow>
          (case uint8_param params ''op'' of
             Some opcode \<Rightarrow> checked_opcode opcode
           | None \<Rightarrow> Inr b524_opcode_local))"

definition ext_register_read_build :: "vai_params \<Rightarrow> 'e vai_error + byte list" where
  "ext_register_read_build params =
     and_then (ext_register_opcode params) (\<lambda>opcode.
     and_then (require (uint8_param params ''group'')) (\<lambda>grp.
     and_then (require (uint8_param params ''instance'')) (\<lambda>inst.
     and_then (required_address params) (\<lambda>a.
       Inr [opcode, ext_register_op_read, grp, inst, lo8 a, hi8 a]))))"

definition ext_register_write_build :: "vai_params \<Rightarrow> 'e vai_error + byte list" where
  "ext_register_write_build params =
     and_then (ext_register_opcode params) (\<lambda>opcode.
     and_then (require (uint8_param params ''group'')) (\<lambda>grp.
     and_then (require (uint8_param params ''instance'')) (\<lambda>inst.
     and_then (required_address params) (\<lambda>a.
     and_then (write_data params) (\<lambda>data.
       if length data > 0xF9 then Inl PayloadRejected
       else Inr ([opcode, ext_register_op_write, grp, inst, lo8 a, hi8 a] @ data))))))"

abbreviation timer_opcode_read :: byte where "timer_opcode_read \<equiv> 0x03"

definition timer_read_build :: "vai_params \<Rightarrow> 'e vai_error + byte list" where
  "timer_read_build params =
     and_then (require (uint8_param params ''sel1'')) (\<lambda>sel1.
     and_then (require (uint8_param params ''sel2'')) (\<lambda>sel2.
     and_then (require (uint8_param params ''sel3'')) (\<lambda>sel3.
     and_then (require (uint8_param params ''weekday'')) (\<lambda>weekday.
       if weekday > 6 then Inl PayloadRejected
       else Inr [timer_opcode_read, sel1, sel2, sel3, weekday]))))"

definition raw_read_build :: "vai_params \<Rightarrow> 'e vai_error + byte list" where
  "raw_read_build params =
     and_then (bytes_param params ''payload'') (\<lambda>(payload, has_payload).
       if \<not> has_payload \<or> length payload = 0 then Inl PayloadRejected
       else if length payload > 16 then Inl PayloadRejected
       else Inr payload)"

definition system_method_of :: "string \<Rightarrow> bool \<Rightarrow> byte \<Rightarrow> byte \<Rightarrow> (vai_params \<Rightarrow> 'e vai_error + byte list) \<Rightarrow> 'e system_method" where
  "system_method_of name read_only primary secondary build = \<lparr>sm_name = name, sm_read_only = read_only,
     sm_template = Some \<lparr>pt_primary = primary, pt_secondary = secondary, pt_build = Some build\<rparr>\<rparr>"

definition system_methods :: "'e system_method list" where
  "system_methods =
     [system_method_of ''get_operational_data'' True 0xB5 0x04 operational_build,
      system_method_of ''set_operational_data'' False 0xB5 0x05 operational_write_build,
      system_method_of ''get_register'' True 0xB5 0x09 register_read_build,
      system_method_of ''set_register'' False 0xB5 0x09 register_write_build,
      system_method_of ''get_ext_register'' True 0xB5 0x24 ext_register_read_build,
      system_method_of ''set_ext_register'' False 0xB5 0x24 ext_register_write_build,
      system_method_of ''read_timer'' True 0xB5 0x24 timer_read_build,
      system_method_of ''read_raw'' False 0xB5 0x24 raw_read_build]"

section \<open>Requests\<close>

definition request_target :: "byte \<Rightarrow> vai_params \<Rightarrow> 'e vai_error + byte" where
  "request_target address params =
     (if address = 0 then require (uint8_param params ''target'') else Inr address)"

definition template_payload :: "'e plane_template \<Rightarrow> vai_params \<Rightarrow> 'e vai_error + byte list" where
  "template_payload template params =
     (case pt_build template of None \<Rightarrow> Inr [] | Some build \<Rightarrow> build params)"

definition system_build_request ::
  "byte \<Rightarrow> 'e system_method option \<Rightarrow> vai_params \<Rightarrow> 'e vai_error + frame" where
  "system_build_request address method params =
     and_then (require method) (\<lambda>m.
     and_then (require (uint8_param params ''source'')) (\<lambda>source.
     and_then (request_target address params) (\<lambda>target.
     and_then (require (sm_template m)) (\<lambda>template.
     and_then (template_payload template params) (\<lambda>payload.
       Inr \<lparr>fr_source = source, fr_target = target, fr_primary = pt_primary template,
         fr_secondary = pt_secondary template, fr_data = payload\<rparr>)))))"

section \<open>Responses\<close>

record ('e, 'v) value_types =
  vt_bcd :: "byte list \<Rightarrow> 'e + 'v"
  vt_data2b :: "byte list \<Rightarrow> 'e + 'v"

definition value_of_payload :: "byte list \<Rightarrow> 'v plane_value" where
  "value_of_payload payload = Known (ABytes payload)"

definition decode_with :: "('b list \<Rightarrow> 'e + 'v) \<Rightarrow> 'b list \<Rightarrow> 'e vai_error + 'v plane_value" where
  "decode_with decode bytes = (case decode bytes of Inl e \<Rightarrow> Inl (DecoderError e) | Inr v \<Rightarrow> Inr (Decoded v))"

definition part :: "nat \<Rightarrow> nat \<Rightarrow> 'b list \<Rightarrow> 'b list" where
  "part low high xs = take (high - low) (drop low xs)"

text \<open>The two layouts of the date and time, ten bytes or at least eight.\<close>

definition decode_operational_date_time ::
  "('e, 'v) value_types \<Rightarrow> byte list \<Rightarrow> 'e vai_error + 'v plane_values" where
  "decode_operational_date_time types payload =
     (if length payload < 8 then Inl PayloadRejected
      else
        let (h, m, d, mo, y, t) = (if length payload \<ge> 10 then (3, 2, 4, 5, 7, 8) else (1, 2, 3, 4, 5, 6));
            bcd = (\<lambda>i. decode_with (vt_bcd types) (part i (i + 1) payload))
        in and_then (bcd h) (\<lambda>hour. and_then (bcd m) (\<lambda>minute. and_then (bcd d) (\<lambda>day.
           and_then (bcd mo) (\<lambda>month. and_then (bcd y) (\<lambda>year.
           and_then (decode_with (vt_data2b types) (part t (t + 2) payload)) (\<lambda>temp.
             Inr [(''dcfstate'', Known (AByte (payload ! 0))), (''time_hour'', hour), (''time_minute'', minute),
                  (''date_day'', day), (''date_month'', month), (''date_year'', year), (''temp'', temp)])))))))"

definition decode_operational_data ::
  "('e, 'v) value_types \<Rightarrow> byte \<Rightarrow> byte list \<Rightarrow> 'e vai_error + 'v plane_values" where
  "decode_operational_data types op payload =
     (let values = [(''op'', Known (AByte op)), (''payload'', value_of_payload payload)]
      in if op \<noteq> 0 then Inr values
         else and_then (decode_operational_date_time types payload) (\<lambda>decoded. Inr (values @ decoded)))"

definition decode_operational_write_response :: "byte \<Rightarrow> byte list \<Rightarrow> 'v plane_values" where
  "decode_operational_write_response op payload =
     [(''op'', Known (AByte op)), (''payload'', value_of_payload payload)]"

definition decode_register_response :: "byte \<Rightarrow> uint16 \<Rightarrow> byte list \<Rightarrow> 'v plane_values" where
  "decode_register_response cmd a payload =
     [(''cmd'', Known (AByte cmd)), (''addr'', Known (AUint16 a)), (''addr_hex'', Known (AText (hex4 a))),
      (''payload'', value_of_payload payload),
      (''value'', if length payload = 1 \<and> payload ! 0 = 0x00 then Invalid else value_of_payload payload)]"

definition constraint_values :: "b524_constraint option \<Rightarrow> uint16 \<Rightarrow> 'v plane_values" where
  "constraint_values constraint record =
     (case constraint of None \<Rightarrow> []
      | Some c \<Rightarrow>
          [(''constraints'', Known (AConstraint c)), (''constraint_qualified'', Known (ABool False)),
           (''constraint_scope'', Known (AText ''unscoped_catalog'')),
           (''constraint_record'', Known (AUint16 record)), (''constraint_record_hex'', Known (AText (hex4 record))),
           (''constraint_type'', Known (AText (bc_type c))), (''constraint_min'', Known (AFloat (bc_min c))),
           (''constraint_max'', Known (AFloat (bc_max c))), (''constraint_step'', Known (AFloat (bc_step c)))])"

text \<open>The first four bytes of an extended answer: kind, group, and the register, low byte first.\<close>

definition prefix_values :: "byte list \<Rightarrow> 'v plane_values" where
  "prefix_values payload =
     (if length payload \<ge> 4
      then let reply = be16 (payload ! 3) (payload ! 2)
           in [(''prefix'', Known (ABytes (take 4 payload))), (''reply_group'', Known (AByte (payload ! 1))),
               (''reply_addr'', Known (AUint16 reply)), (''reply_addr_hex'', Known (AText (hex4 reply)))]
      else [(''prefix'', Invalid)])"

definition decode_ext_register_response ::
  "byte \<Rightarrow> byte \<Rightarrow> byte \<Rightarrow> byte \<Rightarrow> uint16 \<Rightarrow> byte list \<Rightarrow> 'v plane_values" where
  "decode_ext_register_response cmd opcode grp inst a payload =
     (let values = [(''optype'', Known (AByte cmd)), (''opcode'', Known (AByte opcode)), (''group'', Known (AByte grp)),
            (''instance'', Known (AByte inst)), (''addr'', Known (AUint16 a)), (''addr_hex'', Known (AText (hex4 a))),
            (''payload'', value_of_payload payload)] @ prefix_values payload @
            [(''reply_kind'', if length payload \<ge> 1 then Known (AByte (payload ! 0)) else Invalid)]
      in if length payload \<le> 4 \<or> gm_get values ''reply_group'' \<noteq> Some (Known (AByte grp)) \<or>
            gm_get values ''reply_addr'' \<noteq> Some (Known (AUint16 a))
         then values @ [(''value'', Invalid)]
         else values @ [(''value'', Known (ABytes (drop 4 payload)))] @
                constraint_values (lookup_b524_constraint opcode grp a) a)"

definition ab07_slot :: "byte list \<Rightarrow> nat \<Rightarrow> ab07_timer_slot" where
  "ab07_slot payload i =
     (let start = payload ! (1 + 2 * i); stop = payload ! (2 + 2 * i); ordered = start < stop \<and> stop \<le> 0x90
      in \<lparr>ts_raw_pair = (start, stop),
          ts_start_minutes = (if ordered then Some (int (unat start) * 10) else None),
          ts_stop_minutes = (if ordered then Some (int (unat stop) * 10) else None),
          ts_unused = (start = 0x90 \<and> stop = 0x90)\<rparr>)"

definition decode_timer_response :: "byte \<Rightarrow> byte \<Rightarrow> byte \<Rightarrow> byte \<Rightarrow> byte list \<Rightarrow> 'v plane_values" where
  "decode_timer_response sel1 sel2 sel3 weekday payload =
     (let values = [(''opcode'', Known (AByte timer_opcode_read)), (''sel1'', Known (AByte sel1)),
            (''sel2'', Known (AByte sel2)), (''sel3'', Known (AByte sel3)), (''weekday'', Known (AByte weekday)),
            (''payload'', value_of_payload payload)]
      in if length payload = 0 then values @ [(''value'', Invalid)]
         else if length payload \<noteq> 7 then values @ [(''value'', value_of_payload payload)]
         else values @ [(''value'', value_of_payload payload), (''slot_count'', Known (AInt 3)),
                (''ab07_parameter_configuration'', Known (AByte (payload ! 0))),
                (''ab07_slots'', Known (ASlots (map (ab07_slot payload) [0, 1, 2])))])"

definition decode_raw_response :: "byte list \<Rightarrow> byte list \<Rightarrow> 'v plane_values" where
  "decode_raw_response request response =
     [(''request_payload'', Known (ABytes request)), (''response_payload'', Known (ABytes response)),
      (''value'', if length response = 0 then Invalid else Known (ABytes response))]"

text \<open>The switch of \<open>DecodeResponse\<close> on the name of the method.\<close>

definition decode_by_name ::
  "('e, 'v) value_types \<Rightarrow> string \<Rightarrow> byte list \<Rightarrow> vai_params \<Rightarrow> 'e vai_error + 'v plane_values" where
  "decode_by_name types name data params =
     (if name = ''get_operational_data'' then
        and_then (require (uint8_param params ''op'')) (\<lambda>op. decode_operational_data types op data)
      else if name = ''set_operational_data'' then
        and_then (require (uint8_param params ''op'')) (\<lambda>op. Inr (decode_operational_write_response op data))
      else if name = ''get_register'' then
        and_then (required_address params) (\<lambda>a. Inr (decode_register_response register_cmd_read a data))
      else if name = ''set_register'' then
        and_then (required_address params) (\<lambda>a. Inr (decode_register_response register_cmd_write a data))
      else if name = ''get_ext_register'' \<or> name = ''set_ext_register'' then
        and_then (require (uint8_param params ''group'')) (\<lambda>grp.
        and_then (require (uint8_param params ''instance'')) (\<lambda>inst.
        and_then (ext_register_opcode params) (\<lambda>opcode.
        and_then (required_address params) (\<lambda>a.
          Inr (decode_ext_register_response
                 (if name = ''get_ext_register'' then ext_register_op_read else ext_register_op_write)
                 opcode grp inst a data)))))
      else if name = ''read_timer'' then
        and_then (require (uint8_param params ''sel1'')) (\<lambda>sel1.
        and_then (require (uint8_param params ''sel2'')) (\<lambda>sel2.
        and_then (require (uint8_param params ''sel3'')) (\<lambda>sel3.
        and_then (require (uint8_param params ''weekday'')) (\<lambda>weekday.
          Inr (decode_timer_response sel1 sel2 sel3 weekday data)))))
      else if name = ''read_raw'' then
        Inr (decode_raw_response
          (case bytes_param params ''payload'' :: 'e vai_error + byte list \<times> bool of
             Inl _ \<Rightarrow> [] | Inr (request, _) \<Rightarrow> request) data)
      else Inl PayloadRejected)"

definition system_decode_response ::
  "('e, 'v) value_types \<Rightarrow> 'e system_method option \<Rightarrow> frame \<Rightarrow> vai_params \<Rightarrow> 'e vai_error + 'v plane_values" where
  "system_decode_response types method response params =
     and_then (require method) (\<lambda>m.
     and_then (require (sm_template m)) (\<lambda>template.
       if fr_primary response \<noteq> pt_primary template \<or> fr_secondary response \<noteq> pt_secondary template
       then Inl PayloadRejected
       else decode_by_name types (sm_name m) (fr_data response) params))"

section \<open>Energy broadcasts\<close>

record energy_stats_selector =
  es_raw :: "byte list"
  es_period :: byte
  es_source :: byte
  es_usage :: byte
  es_date_word :: uint16
  es_is_response :: bool

definition parse_energy_stats_selector :: "byte list \<Rightarrow> energy_stats_selector option" where
  "parse_energy_stats_selector payload =
     (if length payload = 8 then
        (if payload ! 0 \<noteq> 0x10 then None
         else if payload ! 2 \<noteq> 0xFF \<or> payload ! 3 \<noteq> 0xFF then None
         else Some \<lparr>es_raw = payload, es_period = payload ! 1 AND 0x0F, es_source = payload ! 4 AND 0x0F,
           es_usage = payload ! 5 AND 0x0F, es_date_word = be16 (payload ! 7) (payload ! 6), es_is_response = False\<rparr>)
      else if length payload = 11 then
        (if payload ! 0 > 0x03 then None
         else Some \<lparr>es_raw = take 7 payload, es_period = payload ! 0 AND 0x0F, es_source = payload ! 3 AND 0x0F,
           es_usage = payload ! 4 AND 0x0F, es_date_word = be16 (payload ! 6) (payload ! 5), es_is_response = True\<rparr>)
      else None)"

definition energy_stats_period_name :: "byte \<Rightarrow> string option" where
  "energy_stats_period_name code =
     (if code = 0 then Some ''all'' else if code = 1 then Some ''day'' else if code = 2 then Some ''month''
      else if code = 3 then Some ''year'' else None)"

definition energy_stats_source_name :: "byte \<Rightarrow> string option" where
  "energy_stats_source_name code =
     (if code = 1 then Some ''solar'' else if code = 2 then Some ''environmental''
      else if code = 3 then Some ''electricity'' else if code = 4 then Some ''gas''
      else if code = 9 then Some ''heat_pump'' else None)"

definition energy_stats_usage_name :: "byte \<Rightarrow> string option" where
  "energy_stats_usage_name code =
     (if code = 0 then Some ''all'' else if code = 3 then Some ''heating''
      else if code = 4 then Some ''hot_water'' else if code = 5 then Some ''cooling'' else None)"

text \<open>\<open>time.Date\<close> carries a day past the end of its month into the next one.\<close>

definition leap_year :: "nat \<Rightarrow> bool" where
  "leap_year y \<longleftrightarrow> (y mod 4 = 0 \<and> y mod 100 \<noteq> 0) \<or> y mod 400 = 0"

definition days_in_month :: "nat \<Rightarrow> nat \<Rightarrow> nat" where
  "days_in_month y m = (if m = 2 then (if leap_year y then 29 else 28)
     else if m = 4 \<or> m = 6 \<or> m = 9 \<or> m = 11 then 30 else 31)"

definition energy_stats_date :: "byte \<Rightarrow> uint16 \<Rightarrow> (uint16 \<times> byte \<times> byte) option" where
  "energy_stats_date period word =
     (let year = 2000 + drop_bit 9 word; month = ucast (drop_bit 5 word AND 0x0F); day = ucast (word AND 0x1F)
      in if period = 1 then
           (if month < 1 \<or> month > 12 \<or> day < 1 then None
            else if unat day > days_in_month (unat year) (unat month) then None
            else Some (year, month, day))
         else if period = 2 then (if month < 1 \<or> month > 12 \<or> day \<noteq> 0 then None else Some (year, month, day))
         else if period = 3 then (if month \<noteq> 0 \<or> day \<noteq> 0 then None else Some (year, month, day))
         else None)"

definition name_value :: "string option \<Rightarrow> 'v plane_value" where
  "name_value name = (case name of None \<Rightarrow> Invalid | Some n \<Rightarrow> Known (AText n))"

definition date_values :: "byte \<Rightarrow> uint16 \<Rightarrow> 'v plane_values" where
  "date_values period word =
     (case energy_stats_date period word of
        None \<Rightarrow> [(''year'', Invalid), (''month'', Invalid), (''day'', Invalid)]
      | Some (year, month, day) \<Rightarrow>
          [(''year'', Known (AUint16 year)),
           (''month'', if period = 1 \<or> period = 2 then Known (AByte month) else Invalid),
           (''day'', if period = 1 then Known (AByte day) else Invalid)])"

definition selector_values :: "byte list \<Rightarrow> energy_stats_selector \<Rightarrow> 'v plane_values" where
  "selector_values data selector =
     [(''payload'', Known (ABytes data)), (''selector'', Known (ABytes (es_raw selector))),
      (''period_code'', Known (AByte (es_period selector))), (''source_code'', Known (AByte (es_source selector))),
      (''usage_code'', Known (AByte (es_usage selector))),
      (''selector_w'', Known (AByte (ucast (drop_bit 4 (es_date_word selector) AND 0x0F)))),
      (''selector_v'', Known (AByte (ucast (es_date_word selector AND 0x0F)))),
      (''selector_q'', Known (AByte (ucast (drop_bit 8 (es_date_word selector) AND 0x0F)))),
      (''selector_is_rsp'', Known (ABool (es_is_response selector))),
      (''period'', name_value (energy_stats_period_name (es_period selector))),
      (''source'', name_value (energy_stats_source_name (es_source selector))),
      (''usage'', name_value (energy_stats_usage_name (es_usage selector)))] @
     date_values (es_period selector) (es_date_word selector)"

text \<open>
  The energy of a response is its last four bytes, decoded by a schema with one EXP field. A missing
  key of the decoded map is the zero \<open>types.Value\<close>, which is invalid.
\<close>

definition decode_energy ::
  "('v, 'a, 'e) data_type \<Rightarrow> byte list \<Rightarrow> ('e schema_error, 'v plane_value) outcome" where
  "decode_energy exp_type data =
     outcome_bind (schema_decode \<lparr>sch_fields = [\<lparr>sf_name = ''wh'', sf_type = Some exp_type\<rparr>]\<rparr>
         (drop (length data - 4) data))
       (\<lambda>decoded. Return (case gm_get decoded ''wh'' of None \<Rightarrow> Invalid | Some v \<Rightarrow> Decoded v))"

definition system_decode_broadcast ::
  "('v, 'a, 'e) data_type \<Rightarrow> frame \<Rightarrow> ('e schema_error, 'v plane_values option) outcome" where
  "system_decode_broadcast exp_type frame =
     (if fr_primary frame \<noteq> 0xB5 \<or> fr_secondary frame \<noteq> 0x16 then Return None
      else case parse_energy_stats_selector (fr_data frame) of
        None \<Rightarrow> Return None
      | Some selector \<Rightarrow>
          let values = selector_values (fr_data frame) selector
          in if es_is_response selector
             then outcome_bind (decode_energy exp_type (fr_data frame)) (\<lambda>wh. Return (Some (values @ [(''wh'', wh)])))
             else Return (Some values))"

section \<open>The plane\<close>

definition system_match :: "device_info \<Rightarrow> bool" where
  "system_match info =
     (let manufacturer = trim_space (di_manufacturer info)
      in if manufacturer = [] then False
         else let normalized = to_lower manufacturer
              in str_contains normalized ''vaillant'' \<or> str_contains normalized ''saunier'' \<or>
                 str_contains normalized ''awb'')"

record 'e system_plane =
  sp_name :: string
  sp_address :: byte
  sp_hw_version :: string
  sp_methods :: "'e system_method list"
  sp_subscriptions :: "subscription list"

definition system_subscriptions :: "subscription list" where
  "system_subscriptions = [(0xB5, 0x16), (0xB5, 0x16), (0xFE, 0x01)]"

definition new_system_plane :: "device_info \<Rightarrow> 'e system_plane" where
  "new_system_plane info = \<lparr>sp_name = ''system'', sp_address = di_address info, sp_hw_version = di_hardware_version info,
     sp_methods = system_methods, sp_subscriptions = system_subscriptions\<rparr>"

definition system_create_planes :: "device_info \<Rightarrow> 'e system_plane list" where
  "system_create_planes info = [new_system_plane info]"

text \<open>
  The plane as the router sees it. Methods are found again by their name, which the methods of one
  plane do not share; a panic of the energy decoder, which cannot occur, would decode nothing.
\<close>

datatype 'e system_error = CallError "'e vai_error" | BroadcastError "'e schema_error"

definition bus_method_of :: "'e system_method \<Rightarrow> unit bus_method" where
  "bus_method_of m = \<lparr>bm_name = sm_name m, bm_read_only = sm_read_only m,
     bm_template = map_option (\<lambda>t. \<lparr>ft_primary = pt_primary t, ft_secondary = pt_secondary t\<rparr>) (sm_template m),
     bm_response = (), bm_mutability = None, bm_danger = None, bm_routable = None\<rparr>"

definition vai_params_of :: "go_value params \<Rightarrow> vai_params" where
  "vai_params_of = gm_map (\<lambda>_ v. case v of TextParam text \<Rightarrow> VString text | OtherParam w \<Rightarrow> w)"

definition system_method_named :: "string \<Rightarrow> 'e system_method option" where
  "system_method_named name = find (\<lambda>m. sm_name m = name) system_methods"

definition call_error :: "'e vai_error + 'b \<Rightarrow> 'e system_error + 'b" where
  "call_error r = (case r of Inl e \<Rightarrow> Inl (CallError e) | Inr x \<Rightarrow> Inr x)"

definition system_router_plane ::
  "('e, 'v) value_types \<Rightarrow> ('v, 'a, 'e) data_type \<Rightarrow> device_info \<Rightarrow>
     ('e system_error, 'v plane_value, go_value, 'v plane_values, unit) router_plane" where
  "system_router_plane types exp_type info =
     (let plane = new_system_plane info in
      \<lparr>rp_name = sp_name plane, rp_methods = map bus_method_of (sp_methods plane :: 'e system_method list),
       rp_subscriptions = sp_subscriptions plane, rp_on_broadcast = (\<lambda>f. None),
       rp_decode_broadcast = Some (\<lambda>f. case system_decode_broadcast exp_type f of
           Panic \<Rightarrow> Inr None | Fail e \<Rightarrow> Inl (BroadcastError e) | Return decoded \<Rightarrow> Inr decoded),
       rp_build_request = (\<lambda>m ps. call_error
           (system_build_request (sp_address plane) (system_method_named (bm_name m)) (vai_params_of ps))),
       rp_decode_response = (\<lambda>m f ps. call_error
           (system_decode_response types (system_method_named (bm_name m)) f (vai_params_of ps)))\<rparr>)"

end
