(* ===== verification/Vai_Properties.thy ===== *)
theory Vai_Properties
  imports Vai_System Router_Properties
begin

text \<open>
  What the system plane promises: requests that fit a frame and whose answers are decoded under the
  parameters that built them, values only from answers about the register asked for, dates of energy
  windows, and what its subscriptions make of a broadcast.
\<close>

section \<open>Parameters\<close>

lemma param_and_then:
  "and_then (require x) f = Inr y \<longleftrightarrow> (\<exists>v. x = Some v \<and> f v = Inr y)"
  by (cases x) simp_all

section \<open>Requests\<close>

text \<open>What an answer says about the request it is decoded for.\<close>

definition request_echoed :: "string \<Rightarrow> byte list \<Rightarrow> 'v plane_values \<Rightarrow> bool" where
  "request_echoed name data values \<longleftrightarrow>
     (if name = ''get_operational_data'' \<or> name = ''set_operational_data'' then
        gm_get values ''op'' = Some (Known (AByte (data ! 0)))
      else if name = ''get_register'' \<or> name = ''set_register'' then
        gm_get values ''cmd'' = Some (Known (AByte (data ! 0))) \<and>
        gm_get values ''addr'' = Some (Known (AUint16 (be16 (data ! 1) (data ! 2))))
      else if name = ''get_ext_register'' \<or> name = ''set_ext_register'' then
        gm_get values ''opcode'' = Some (Known (AByte (data ! 0))) \<and>
        gm_get values ''optype'' = Some (Known (AByte (data ! 1))) \<and>
        gm_get values ''group'' = Some (Known (AByte (data ! 2))) \<and>
        gm_get values ''instance'' = Some (Known (AByte (data ! 3))) \<and>
        gm_get values ''addr'' = Some (Known (AUint16 (be16 (data ! 5) (data ! 4))))
      else if name = ''read_timer'' then
        gm_get values ''opcode'' = Some (Known (AByte (data ! 0))) \<and>
        gm_get values ''sel1'' = Some (Known (AByte (data ! 1))) \<and>
        gm_get values ''sel2'' = Some (Known (AByte (data ! 2))) \<and>
        gm_get values ''sel3'' = Some (Known (AByte (data ! 3))) \<and>
        gm_get values ''weekday'' = Some (Known (AByte (data ! 4))) \<and> data ! 4 \<le> 6
      else gm_get values ''request_payload'' = Some (Known (ABytes data)) \<and> data \<noteq> [] \<and> length data \<le> 16)"

lemmas build_defs = operational_build_def operational_write_build_def register_read_build_def register_write_build_def
  ext_register_read_build_def ext_register_write_build_def timer_read_build_def raw_read_build_def

lemma gm_get_Cons [simp]: "gm_get ((k, v) # m) j = (if j = k then Some v else gm_get m j)"
  by (simp add: gm_get_def)

lemma gm_get_append: "gm_get (m @ n) j = (case gm_get m j of None \<Rightarrow> gm_get n j | Some v \<Rightarrow> Some v)"
  by (simp add: gm_get_def map_add_def split: option.split)

lemma ext_values:
  assumes "out = decode_ext_register_response cmd opcode grp inst a payload"
  shows "gm_get out ''opcode'' = Some (Known (AByte opcode))" "gm_get out ''optype'' = Some (Known (AByte cmd))"
    "gm_get out ''group'' = Some (Known (AByte grp))" "gm_get out ''instance'' = Some (Known (AByte inst))"
    "gm_get out ''addr'' = Some (Known (AUint16 a))"
  by (simp_all add: assms decode_ext_register_response_def Let_def)

lemma timer_values:
  assumes "out = decode_timer_response sel1 sel2 sel3 weekday payload"
  shows "gm_get out ''opcode'' = Some (Known (AByte timer_opcode_read))" "gm_get out ''sel1'' = Some (Known (AByte sel1))"
    "gm_get out ''sel2'' = Some (Known (AByte sel2))" "gm_get out ''sel3'' = Some (Known (AByte sel3))"
    "gm_get out ''weekday'' = Some (Known (AByte weekday))"
  by (simp_all add: assms decode_timer_response_def Let_def)

lemma checked_opcode_same: "checked_opcode b = Inr opcode \<Longrightarrow> b = opcode"
  by (simp add: checked_opcode_def split: if_splits)

text \<open>Payload and answer of each method, from the same parameters.\<close>

definition serves ::
  "('e, 'v) value_types \<Rightarrow> string \<Rightarrow> (vai_params \<Rightarrow> 'e vai_error + byte list) \<Rightarrow> vai_params \<Rightarrow> byte list \<Rightarrow> bool" where
  "serves types name build params answer \<longleftrightarrow>
     (\<forall>data. build params = Inr data \<longrightarrow> length data \<le> 255 \<and>
        (\<exists>out. decode_by_name types name answer params = Inr out \<and> request_echoed name data out))"

lemma operational_serves:
  "uint8_param params ''op'' \<noteq> Some 0 \<Longrightarrow> serves types ''get_operational_data'' operational_build params answer"
  "serves types ''set_operational_data'' operational_write_build params answer"
  by (auto simp: serves_def operational_build_def operational_write_build_def param_and_then and_then_Inr decode_by_name_def
      decode_operational_data_def decode_operational_write_response_def request_echoed_def Let_def split: if_splits)

lemma register_serves:
  "serves types ''get_register'' register_read_build params answer"
  "serves types ''set_register'' register_write_build params answer"
  by (auto simp: serves_def register_read_build_def register_write_build_def and_then_Inr decode_by_name_def
      decode_register_response_def request_echoed_def split: if_splits)

lemma ext_register_serves:
  "serves types ''get_ext_register'' ext_register_read_build params answer"
  "serves types ''set_ext_register'' ext_register_write_build params answer"
  by (auto simp: serves_def ext_register_read_build_def ext_register_write_build_def param_and_then and_then_Inr decode_by_name_def
      ext_values [OF refl] request_echoed_def split: if_splits)

lemma timer_serves: "serves types ''read_timer'' timer_read_build params answer"
  by (auto simp: serves_def timer_read_build_def param_and_then decode_by_name_def timer_values [OF refl] request_echoed_def
      split: if_splits)

lemma raw_serves: "serves types ''read_raw'' raw_read_build params answer"
  by (auto simp: serves_def raw_read_build_def and_then_Inr decode_by_name_def decode_raw_response_def request_echoed_def
      split: if_splits)

lemma system_method_cases:
  assumes "m \<in> set system_methods"
  obtains t build where "sm_template m = Some t" "pt_build t = Some build" "pt_primary t = 0xB5"
    "sm_name m \<noteq> ''get_operational_data'' \<or> uint8_param params ''op'' \<noteq> Some 0 \<Longrightarrow> serves types (sm_name m) build params answer"
proof -
  have "\<exists>t build. sm_template m = Some t \<and> pt_build t = Some build \<and> pt_primary t = 0xB5 \<and>
     (sm_name m \<noteq> ''get_operational_data'' \<or> uint8_param params ''op'' \<noteq> Some 0 \<longrightarrow> serves types (sm_name m) build params answer)"
    using assms operational_serves [where params = params and types = types and answer = answer] register_serves [where params = params and types = types and answer = answer]
      ext_register_serves [where params = params and types = types and answer = answer] timer_serves [where params = params and types = types and answer = answer] raw_serves [where params = params and types = types and answer = answer]
    by (auto simp: system_methods_def system_method_of_def)
  then show thesis using that by blast
qed

text \<open>  A request that the system plane builds for one of its methods goes from the given source to the
  plane's device, or to the given target when the plane has no address, under primary byte B5 and
  with at most 255 bytes of data. Any answer of the same kind is then decoded under the same
  parameters, and the decoded values name the operation, register, group, instance or timer that the
  request asked for. (The one exception is the date and time, whose fields may be unreadable.)
\<close>

theorem system_request_decodable:
  assumes "m \<in> set system_methods" and "system_build_request address (Some m) params = Inr request"
    and "fr_primary answer = fr_primary request" "fr_secondary answer = fr_secondary request"
    and "sm_name m \<noteq> ''get_operational_data'' \<or> uint8_param params ''op'' \<noteq> Some 0"
  shows "uint8_param params ''source'' = Some (fr_source request) \<and>
     (if address = 0 then uint8_param params ''target'' = Some (fr_target request) else fr_target request = address) \<and>
     fr_primary request = 0xB5 \<and> length (fr_data request) \<le> 255 \<and>
     (\<exists>out. system_decode_response types (Some m) answer params = Inr out \<and> request_echoed (sm_name m) (fr_data request) out)"
proof -
  obtain t build where t: "sm_template m = Some t" "pt_build t = Some build" "pt_primary t = 0xB5"
    "serves types (sm_name m) build params (fr_data answer)"
    using system_method_cases [OF assms(1), where params = params and types = types and answer = "fr_data answer"] assms(5) by metis
  then obtain source target payload where r: "uint8_param params ''source'' = Some source"
    "request_target address params = (Inr target :: 'a vai_error + byte)" "build params = Inr payload"
    "request = \<lparr>fr_source = source, fr_target = target, fr_primary = pt_primary t, fr_secondary = pt_secondary t, fr_data = payload\<rparr>"
    using assms(2) by (auto simp: system_build_request_def template_payload_def param_and_then and_then_Inr)
  have "if address = 0 then uint8_param params ''target'' = Some target else target = address"
    using r(2) by (simp add: request_target_def split: if_splits)
  moreover have "system_decode_response types (Some m) answer params = decode_by_name types (sm_name m) (fr_data answer) params"
    using assms(3,4) t(1) r(4) by (simp add: system_decode_response_def)
  ultimately show ?thesis using t(3,4) r by (simp add: serves_def)
qed

definition sample_params :: vai_params where
  "sample_params = [(''source'', VInt 0x31), (''addr'', VString ''0x1234''), (''group'', VUint8 2), (''instance'', VFloat64 (Finite 1))]"

definition sample_reply :: frame where
  "sample_reply = \<lparr>fr_source = 0x15, fr_target = 0x31, fr_primary = 0xB5, fr_secondary = 0x24, fr_data = [0x00, 0x02, 0x34, 0x12, 0x2A]\<rparr>"

abbreviation get_ext_register :: "unit system_method" where
  "get_ext_register \<equiv> system_method_of ''get_ext_register'' True 0xB5 0x24 ext_register_read_build"

lemma sample_parameters:
  "uint8_param sample_params ''source'' = Some 0x31" "uint8_param sample_params ''group'' = Some 2"
  "uint8_param sample_params ''instance'' = Some 1" "uint8_param sample_params ''opcode'' = None"
  "uint8_param sample_params ''op'' = None"
  "register_addr_param sample_params ''addr'' = (Inr (Some 0x1234) :: unit vai_error + uint16 option)"
  by code_simp+

lemma sample_request:
  "system_build_request 0x15 (Some get_ext_register) sample_params = Inr \<lparr>fr_source = 0x31, fr_target = 0x15,
     fr_primary = 0xB5, fr_secondary = 0x24, fr_data = [0x02, 0x00, 0x02, 0x01, 0x34, 0x12]\<rparr>"
  by (simp add: system_build_request_def sample_parameters request_target_def system_method_of_def template_payload_def
      ext_register_read_build_def ext_register_opcode_def required_address_def hi8_def lo8_def)

theorem system_request_decodable_witness:
  "\<forall>types :: (unit, unit) value_types. \<exists>out. system_decode_response types (Some get_ext_register) sample_reply sample_params = Inr out \<and>
     request_echoed ''get_ext_register'' [0x02, 0x00, 0x02, 0x01, 0x34, 0x12] out"
proof
  fix types :: "(unit, unit) value_types"
  have "get_ext_register \<in> set system_methods" "sm_name get_ext_register = ''get_ext_register''"
    by (simp_all add: system_methods_def system_method_of_def)
  then show "\<exists>out. system_decode_response types (Some get_ext_register) sample_reply sample_params = Inr out \<and>
     request_echoed ''get_ext_register'' [0x02, 0x00, 0x02, 0x01, 0x34, 0x12] out"
    using system_request_decodable [OF _ sample_request, of sample_reply types] by (simp add: sample_reply_def)
qed

section \<open>Extended registers\<close>

text \<open>  An answer to an extended register call gives a value exactly when it is longer than its prefix and
  the prefix names the group and register asked for; the value is what follows the prefix. Bounds are
  attached to such a value only, exactly when the table has the selector, and never as qualified.
\<close>

theorem ext_register_value_exact:
  assumes "out = decode_ext_register_response cmd opcode grp inst a payload"
    and "fits \<longleftrightarrow> length payload > 4 \<and> payload ! 1 = grp \<and> payload ! 2 = lo8 a \<and> payload ! 3 = hi8 a"
  shows "gm_get out ''value'' = Some (if fits then Known (ABytes (drop 4 payload)) else Invalid) \<and>
     gm_get out ''constraints'' = (if fits then map_option (\<lambda>c. Known (AConstraint c)) (lookup_b524_constraint opcode grp a) else None) \<and>
     gm_get out ''constraint_qualified'' =
       (if fits \<and> lookup_b524_constraint opcode grp a \<noteq> None then Some (Known (ABool False)) else None)"
proof -
  have "fits \<longleftrightarrow> \<not> (length payload \<le> 4 \<or> gm_get (prefix_values payload) ''reply_group'' \<noteq> Some (Known (AByte grp) :: 'a plane_value) \<or>
      gm_get (prefix_values payload) ''reply_addr'' \<noteq> Some (Known (AUint16 a) :: 'a plane_value))"
    unfolding assms(2) by (auto simp: prefix_values_def be16_eq Let_def)
  then show ?thesis unfolding assms(1)
    by (auto simp: decode_ext_register_response_def constraint_values_def prefix_values_def gm_get_append Let_def
        split: option.splits)
qed

theorem ext_register_value_exact_witness:
  "gm_get (decode_ext_register_response 0 2 3 1 0x0002 [0, 3, 0x02, 0x00, 7] :: unit plane_values) ''value'' = Some (Known (ABytes [7]))"
proof -
  have "True \<longleftrightarrow> length [0, 3, 0x02, 0x00, 7 :: byte] > 4 \<and> [0, 3, 0x02, 0x00, 7 :: byte] ! 1 = 3 \<and>
      [0, 3, 0x02, 0x00, 7 :: byte] ! 2 = lo8 0x0002 \<and> [0, 3, 0x02, 0x00, 7 :: byte] ! 3 = hi8 0x0002"
    by (simp add: lo8_def hi8_def)
  from ext_register_value_exact [OF _ this, of "decode_ext_register_response 0 2 3 1 0x0002 [0, 3, 0x02, 0x00, 7] :: unit plane_values" 0 2 1]
  show ?thesis by simp
qed

section \<open>Energy broadcasts\<close>

lemma word_fields:
  fixes w :: uint16
  shows "unat (2000 + drop_bit 9 w) = 2000 + unat w div 512"
    and "unat (ucast (drop_bit 5 w AND 0x0F) :: byte) = unat w div 32 mod 16"
    and "unat (ucast (w AND 0x1F) :: byte) = unat w mod 32"
proof -
  have n: "unat w < 2 ^ LENGTH(16)" by (rule unsigned_less)
  then have "unat w div 512 < 128" by simp
  then show "unat (2000 + drop_bit 9 w) = 2000 + unat w div 512"
    by (simp add: unat_word_ariths unat_drop_bit_eq drop_bit_eq_div)
  have low: "unat (ucast (take_bit n x) :: byte) = unat x mod 2 ^ n" if "n \<le> 8" for x :: uint16 and n
  proof -
    have "unat (ucast (take_bit n x) :: byte) = take_bit n (unat x)"
      using that by (simp add: unsigned_ucast_eq unsigned_take_bit_eq min_def)
    then show ?thesis by (simp add: take_bit_eq_mod)
  qed
  have "drop_bit 5 w AND 0x0F = take_bit 4 (drop_bit 5 w)" "w AND 0x1F = take_bit 5 w"
    by (simp_all add: take_bit_eq_mask mask_eq_exp_minus_1)
  then show "unat (ucast (drop_bit 5 w AND 0x0F) :: byte) = unat w div 32 mod 16"
    and "unat (ucast (w AND 0x1F) :: byte) = unat w mod 32"
    using low [of 4 "drop_bit 5 w"] low [of 5 w] unat_drop_bit_eq [of 5 w] by (simp_all add: drop_bit_eq_div [of 5 "unat w"])
qed

text \<open>The sixteen bits of a date hold seven bits of year, four of month and five of day.\<close>

lemma split_fields:
  fixes n :: nat
  assumes "d < 32" and "m < 16"
  shows "n = y * 512 + m * 32 + d \<longleftrightarrow> y = n div 512 \<and> m = n div 32 mod 16 \<and> d = n mod 32"
proof -
  have "n = n div 512 * 512 + n div 32 mod 16 * 32 + n mod 32"
  proof -
    have "n div 512 = n div 32 div 16" by (simp add: div_mult2_eq [symmetric])
    then show ?thesis using div_mult_mod_eq [of n 32] div_mult_mod_eq [of "n div 32" 16] by linarith
  qed
  moreover have "y = (y * 512 + m * 32 + d) div 512" using assms by (intro div_nat_eqI [symmetric]) simp_all
  moreover have n: "y * 512 + m * 32 + d = (y * 16 + m) * 32 + d" by simp
  have k: "(k * 32 + d) div 32 = k" "(k * 32 + d) mod 32 = d" for k using assms(1) by simp_all
  have "m = (y * 512 + m * 32 + d) div 32 mod 16" "d = (y * 512 + m * 32 + d) mod 32"
    unfolding n k using assms(2) by simp_all
  ultimately show ?thesis by metis
qed

lemma year_fields:
  fixes n y m d :: nat
  shows "y = 2000 + n div 512 \<and> m = n div 32 mod 16 \<and> d = n mod 32 \<longleftrightarrow>
     2000 \<le> y \<and> d < 32 \<and> m < 16 \<and> n = (y - 2000) * 512 + m * 32 + d"
proof (cases "d < 32 \<and> m < 16 \<and> 2000 \<le> y")
  case True
  moreover from True have "y = 2000 + n div 512 \<longleftrightarrow> y - 2000 = n div 512" by linarith
  ultimately show ?thesis using split_fields [of d m n "y - 2000"] by simp
next
  case False
  moreover have "n mod 32 < 32" "n div 32 mod 16 < 16" by simp_all
  ultimately show ?thesis by (metis le_add1)
qed

lemma period_cases:
  "(if p1 then (if a then None else if b then None else Some t) else if p2 then (if c then None else Some t)
      else if p3 then (if e then None else Some t) else None) = Some u \<longleftrightarrow>
     u = t \<and> (p1 \<and> \<not> a \<and> \<not> b \<or> \<not> p1 \<and> p2 \<and> \<not> c \<or> \<not> p1 \<and> \<not> p2 \<and> p3 \<and> \<not> e)"
  by auto

text \<open>  The date of an energy window is read exactly: a word gives a date for a period exactly when it
  packs a year from 2000 with a day of the calendar for a daily window, with a month and no day for a
  monthly one, and with neither for a yearly one.
\<close>

theorem energy_date_exact:
  "energy_stats_date period word = Some (y, m, d) \<longleftrightarrow>
     2000 \<le> unat y \<and> unat d < 32 \<and> unat m < 16 \<and> unat word = (unat y - 2000) * 512 + unat m * 32 + unat d \<and>
     (period = 1 \<and> 1 \<le> unat m \<and> unat m \<le> 12 \<and> 1 \<le> unat d \<and> unat d \<le> days_in_month (unat y) (unat m) \<or>
      period = 2 \<and> 1 \<le> unat m \<and> unat m \<le> 12 \<and> unat d = 0 \<or>
      period = 3 \<and> unat m = 0 \<and> unat d = 0)"
proof -
  define year where "year = 2000 + drop_bit 9 word"
  define month :: byte where "month = ucast (drop_bit 5 word AND 0x0F)"
  define day :: byte where "day = ucast (word AND 0x1F)"
  note F = word_fields [of word, folded year_def month_def day_def]
  let ?ok = "\<lambda>y m d. period = 1 \<and> 1 \<le> m \<and> m \<le> 12 \<and> 1 \<le> d \<and> d \<le> days_in_month y m \<or>
      period = 2 \<and> 1 \<le> m \<and> m \<le> 12 \<and> d = 0 \<or> period = 3 \<and> m = 0 \<and> d = 0"
  have c: "month < 1 \<longleftrightarrow> unat month < 1" "12 < month \<longleftrightarrow> 12 < unat month" "day < 1 \<longleftrightarrow> unat day < 1"
    "month = 0 \<longleftrightarrow> unat month = 0" "day = 0 \<longleftrightarrow> unat day = 0"
    by (simp_all add: word_less_nat_alt unsigned_eq_0_iff)
  obtain Y M D where n: "unat year = Y" "unat month = M" "unat day = D" by blast
  have "energy_stats_date period word =
     (if period = 1 then (if M < 1 \<or> 12 < M \<or> D < 1 then None else if days_in_month Y M < D then None else Some (year, month, day))
      else if period = 2 then (if M < 1 \<or> 12 < M \<or> D \<noteq> 0 then None else Some (year, month, day))
      else if period = 3 then (if M \<noteq> 0 \<or> D \<noteq> 0 then None else Some (year, month, day)) else None)"
    unfolding energy_stats_date_def Let_def year_def [symmetric] month_def [symmetric] day_def [symmetric] c n ..
  then have "energy_stats_date period word = Some (y, m, d) \<longleftrightarrow> (y, m, d) = (year, month, day) \<and>
      (period = 1 \<and> \<not> (M < 1 \<or> 12 < M \<or> D < 1) \<and> \<not> days_in_month Y M < D \<or>
       period \<noteq> 1 \<and> period = 2 \<and> \<not> (M < 1 \<or> 12 < M \<or> D \<noteq> 0) \<or>
       period \<noteq> 1 \<and> period \<noteq> 2 \<and> period = 3 \<and> \<not> (M \<noteq> 0 \<or> D \<noteq> 0))"
    by (simp only: period_cases)
  also have "\<dots> \<longleftrightarrow> y = year \<and> m = month \<and> d = day \<and> ?ok Y M D"
    by (cases "period = 1"; cases "period = 2"; cases "period = 3") (simp_all add: not_less Suc_le_eq)
  finally have "energy_stats_date period word = Some (y, m, d) \<longleftrightarrow>
      y = year \<and> m = month \<and> d = day \<and> ?ok (unat year) (unat month) (unat day)"
    unfolding n .
  also have "\<dots> \<longleftrightarrow> (y = year \<and> m = month \<and> d = day) \<and> ?ok (unat y) (unat m) (unat d)"
    by (cases "y = year"; cases "m = month"; cases "d = day") (simp_all only: simp_thms)
  also have "y = year \<and> m = month \<and> d = day \<longleftrightarrow>
      unat y = 2000 + unat word div 512 \<and> unat m = unat word div 32 mod 16 \<and> unat d = unat word mod 32"
    by (simp only: word_unat_eq_iff F)
  also have "unat y = 2000 + unat word div 512 \<and> unat m = unat word div 32 mod 16 \<and> unat d = unat word mod 32 \<longleftrightarrow>
      2000 \<le> unat y \<and> unat d < 32 \<and> unat m < 16 \<and> unat word = (unat y - 2000) * 512 + unat m * 32 + unat d"
    by (rule year_fields)
  finally show ?thesis by (simp only: conj_assoc)
qed

section \<open>The plane in the router\<close>

lemma decode_energy_no_panic: "decode_energy exp_type data \<noteq> Panic"
proof -
  have "schema_decode \<lparr>sch_fields = [\<lparr>sf_name = ''wh'', sf_type = Some exp_type\<rparr>]\<rparr> bytes \<noteq> Panic" for bytes
    by (auto simp: schema_decode_def go_slice_def split: sum.split)
  then show ?thesis by (auto simp: decode_energy_def outcome_bind_def split: outcome.splits)
qed

lemma broadcast_no_panic: "system_decode_broadcast exp_type f \<noteq> Panic"
  using decode_energy_no_panic
  by (auto simp: system_decode_broadcast_def outcome_bind_def Let_def split: option.split outcome.split)

lemma doubled_subscription:
  assumes "rp_subscriptions p = system_subscriptions"
  shows "plane_list (rt_subscriptions (set_planes [p] r)) (0xB5, 0x16) = [p, p]"
proof -
  have "count_list system_subscriptions (0xB5, 0x16) = 2" by code_simp
  then have "replicate (count_list system_subscriptions (0xB5, 0x16)) p = [p, p]" by (simp add: numeral_2_eq_2)
  moreover have "plane_list [] (0xB5, 0x16) = []" by (simp add: plane_list_def)
  ultimately show ?thesis using set_planes_list [of "[p]" "[]" "(0xB5, 0x16)"] by (simp add: set_planes_def assms)
qed

text \<open>  The plane subscribes to its energy broadcasts twice, so the router asks it twice and queues every
  accepted broadcast as two equal events; both are kept while the queue has room.
\<close>

theorem energy_broadcast_doubled:
  assumes "system_decode_broadcast exp_type f = Return (Some out)"
    and "r = set_planes [system_router_plane types exp_type info] r0" and "length (rt_events r) + 2 \<le> event_capacity"
    and "ev = \<lparr>be_plane = ''system'', be_frame = f, be_values = out\<rparr>"
  shows "rt_events (fst (handle_broadcast f r)) = rt_events r @ [ev, ev] \<and> snd (handle_broadcast f r) = []"
proof -
  let ?p = "system_router_plane types exp_type info"
  have f: "fr_primary f = 0xB5" "fr_secondary f = 0x16" using assms(1) by (auto simp: system_decode_broadcast_def split: if_splits)
  have p: "rp_name ?p = ''system''" "rp_on_broadcast ?p f = None"
    "rp_decode_broadcast ?p = Some (\<lambda>f. case system_decode_broadcast exp_type f of
        Panic \<Rightarrow> Inr None | Fail e \<Rightarrow> Inl (BroadcastError e) | Return decoded \<Rightarrow> Inr decoded)"
    by (simp_all add: system_router_plane_def new_system_plane_def Let_def)
  have "plane_list (rt_subscriptions r) (fr_primary f, fr_secondary f) = [?p, ?p]"
    unfolding f assms(2) by (rule doubled_subscription) (simp add: system_router_plane_def new_system_plane_def Let_def)
  then show ?thesis using assms(1,3,4) p by (simp add: handle_broadcast_def offer_event_def)
qed

definition sample_energy_frame :: frame where
  "sample_energy_frame = \<lparr>fr_source = 0x10, fr_target = 0xFE, fr_primary = 0xB5, fr_secondary = 0x16,
     fr_data = [0x10, 0x03, 0xFF, 0xFF, 0x04, 0x03, 0x00, 0x32]\<rparr>"

theorem energy_broadcast_doubled_witness:
  "\<forall>(exp_type :: (unit, unit, unit) data_type) (types :: (unit, unit) value_types).
     \<exists>out. rt_events (fst (handle_broadcast sample_energy_frame
       (set_planes [system_router_plane types exp_type sample_info] new_bus_event_router))) =
     [\<lparr>be_plane = ''system'', be_frame = sample_energy_frame, be_values = out\<rparr>,
      \<lparr>be_plane = ''system'', be_frame = sample_energy_frame, be_values = out\<rparr>]"
proof (intro allI)
  fix exp_type :: "(unit, unit, unit) data_type" and types :: "(unit, unit) value_types"
  obtain out :: "unit plane_values" where out: "system_decode_broadcast exp_type sample_energy_frame = Return (Some out)"
    by (simp add: system_decode_broadcast_def sample_energy_frame_def parse_energy_stats_selector_def)
  have none: "rt_events (set_planes [system_router_plane types exp_type sample_info] new_bus_event_router) = []"
    by (simp add: set_planes_def new_bus_event_router_def new_bus_event_router_with_options_def Let_def)
  then have "length (rt_events (set_planes [system_router_plane types exp_type sample_info] new_bus_event_router)) + 2 \<le> event_capacity"
    by (simp add: event_capacity_def)
  from energy_broadcast_doubled [OF out refl this refl] none
  show "\<exists>out. rt_events (fst (handle_broadcast sample_energy_frame
       (set_planes [system_router_plane types exp_type sample_info] new_bus_event_router))) =
     [\<lparr>be_plane = ''system'', be_frame = sample_energy_frame, be_values = out\<rparr>,
      \<lparr>be_plane = ''system'', be_frame = sample_energy_frame, be_values = out\<rparr>]" by auto
qed

end
