(* ===== verification/Vai_Timer.thy ===== *)
theory Vai_Timer
  imports Vai_System
begin

text \<open>
  The timer plane of the Vaillant controllers (\<open>vaillant/b555\<close>): building the four B5 55 requests,
  decoding their answers, and the views over an answer whose declared and received lengths differ.
  The readers of parameters are those of the system plane, which the package repeats; the checks of a
  nil parameter map and of a missing key end in the same error.

  A \<open>TFloat q\<close> is the \<open>float64\<close> nearest to \<open>q\<close>.
\<close>

section \<open>Templates\<close>

definition opcode_config_read :: byte where "opcode_config_read = 0xA3"
definition opcode_slots_read :: byte where "opcode_slots_read = 0xA4"
definition opcode_timer_read :: byte where "opcode_timer_read = 0xA5"
definition opcode_timer_write :: byte where "opcode_timer_write = 0xA6"

lemmas timer_opcodes = opcode_config_read_def opcode_slots_read_def opcode_timer_read_def opcode_timer_write_def

definition uint16_param :: "vai_params \<Rightarrow> string \<Rightarrow> uint16 option" where
  "uint16_param params key =
     (case gm_get params key of
        None \<Rightarrow> None
      | Some value \<Rightarrow> (case parse_uint value 0xFFFF of None \<Rightarrow> None | Some n \<Rightarrow> Some (ucast n)))"

text \<open>A byte parameter that must not exceed a limit.\<close>

definition bounded_param :: "vai_params \<Rightarrow> string \<Rightarrow> byte \<Rightarrow> 'e vai_error + byte" where
  "bounded_param params key limit =
     and_then (require (uint8_param params key)) (\<lambda>b. if b > limit then Inl PayloadRejected else Inr b)"

definition config_read_build :: "vai_params \<Rightarrow> 'e vai_error + byte list" where
  "config_read_build params =
     and_then (require (uint8_param params ''zone'')) (\<lambda>zone.
     and_then (bounded_param params ''hc'' 4) (\<lambda>hc.
       Inr [opcode_config_read, zone, hc]))"

definition slots_read_build :: "vai_params \<Rightarrow> 'e vai_error + byte list" where
  "slots_read_build params =
     and_then (require (uint8_param params ''zone'')) (\<lambda>zone.
     and_then (bounded_param params ''hc'' 4) (\<lambda>hc.
       Inr [opcode_slots_read, zone, hc]))"

definition slot_read_build :: "vai_params \<Rightarrow> 'e vai_error + byte list" where
  "slot_read_build params =
     and_then (require (uint8_param params ''zone'')) (\<lambda>zone.
     and_then (bounded_param params ''hc'' 4) (\<lambda>hc.
     and_then (bounded_param params ''weekday'' 6) (\<lambda>dd.
     and_then (require (uint8_param params ''slot'')) (\<lambda>ss.
       Inr [opcode_timer_read, zone, hc, dd, ss]))))"

definition slot_write_build :: "vai_params \<Rightarrow> 'e vai_error + byte list" where
  "slot_write_build params =
     and_then (require (uint8_param params ''zone'')) (\<lambda>zone.
     and_then (bounded_param params ''hc'' 4) (\<lambda>hc.
     and_then (bounded_param params ''weekday'' 6) (\<lambda>dd.
     and_then (require (uint8_param params ''slot'')) (\<lambda>si.
     and_then (require (uint8_param params ''slot_count'')) (\<lambda>sc.
     if sc = 0 then Inl PayloadRejected else
     and_then (bounded_param params ''start_hour'' 24) (\<lambda>start_hour.
     and_then (bounded_param params ''start_minute'' 59) (\<lambda>start_minute.
     and_then (bounded_param params ''end_hour'' 24) (\<lambda>end_hour.
     and_then (bounded_param params ''end_minute'' 59) (\<lambda>end_minute.
     and_then (require (uint16_param params ''temperature'')) (\<lambda>temp.
       Inr [opcode_timer_write, zone, hc, dd, si, sc, start_hour, start_minute, end_hour, end_minute,
            lo8 temp, hi8 temp]))))))))))"

section \<open>Plane\<close>

definition timer_methods :: "'e system_method list" where
  "timer_methods =
     [system_method_of ''read_timer_config'' True 0xB5 0x55 config_read_build,
      system_method_of ''read_timer_slots'' True 0xB5 0x55 slots_read_build,
      system_method_of ''read_timer'' True 0xB5 0x55 slot_read_build,
      system_method_of ''write_timer'' False 0xB5 0x55 slot_write_build]"

definition timer_match :: "device_info \<Rightarrow> bool" where
  "timer_match info =
     (let manufacturer = trim_space (di_manufacturer info)
      in if manufacturer = [] then False
         else let normalized = to_lower manufacturer
              in str_contains normalized ''vaillant'' \<or> str_contains normalized ''saunier'' \<or>
                 str_contains normalized ''awb'')"

record 'e timer_plane =
  tp_name :: string
  tp_address :: byte
  tp_methods :: "'e system_method list"

definition new_timer_plane :: "device_info \<Rightarrow> 'e timer_plane" where
  "new_timer_plane info = \<lparr>tp_name = ''timer'', tp_address = di_address info, tp_methods = timer_methods\<rparr>"

definition timer_create_planes :: "device_info \<Rightarrow> 'e timer_plane list" where
  "timer_create_planes info = [new_timer_plane info]"

definition timer_build_request ::
  "'e timer_plane \<Rightarrow> 'e system_method option \<Rightarrow> vai_params \<Rightarrow> 'e vai_error + frame" where
  "timer_build_request p method params =
     and_then (require method) (\<lambda>m.
     and_then (require (uint8_param params ''source'')) (\<lambda>source.
     and_then (request_target (tp_address p) params) (\<lambda>target.
     and_then (require (sm_template m)) (\<lambda>template.
     and_then (template_payload template params) (\<lambda>payload.
       Inr \<lparr>fr_source = source, fr_target = target, fr_primary = pt_primary template,
         fr_secondary = pt_secondary template, fr_data = payload\<rparr>)))))"

section \<open>Answers\<close>

datatype timer_value =
    TByte byte
  | TUint16 uint16
  | TBytes "byte list"
  | TBool bool
  | TFloat rat
  | TInts "int list"
  | TInvalid

type_synonym timer_values = "(string, timer_value) gomap"

text \<open>A map literal followed by assignments of keys it does not hold yet.\<close>

definition float_or_invalid :: "byte \<Rightarrow> timer_value" where
  "float_or_invalid b = (if b = 0xFF then TInvalid else TFloat (of_nat (unat b)))"

definition decode_config_response :: "byte \<Rightarrow> byte \<Rightarrow> byte list \<Rightarrow> timer_values" where
  "decode_config_response zone hc payload =
     (let values = [(''opcode'', TByte opcode_config_read), (''zone'', TByte zone), (''hc'', TByte hc),
                    (''payload'', TBytes payload)]
      in if length payload < 9 then values @ [(''status'', TInvalid)]
         else values @
           [(''status'', TByte (payload ! 0)), (''max_slots'', TByte (payload ! 1)),
            (''time_resolution'', TByte (payload ! 2)), (''min_duration'', TByte (payload ! 3)),
            (''has_temperature'', TBool (payload ! 4 = 1)), (''temp_slots'', TByte (payload ! 5)),
            (''min_temp_c'', float_or_invalid (payload ! 6)), (''max_temp_c'', float_or_invalid (payload ! 7)),
            (''available'', TBool (payload ! 0 = 0))])"

definition decode_slots_response :: "byte \<Rightarrow> byte \<Rightarrow> byte list \<Rightarrow> timer_values" where
  "decode_slots_response zone hc payload =
     (let values = [(''opcode'', TByte opcode_slots_read), (''zone'', TByte zone), (''hc'', TByte hc),
                    (''payload'', TBytes payload)]
      in if length payload < 9 then values @ [(''status'', TInvalid)]
         else values @
           [(''status'', TByte (payload ! 0)), (''available'', TBool (payload ! 0 = 0)),
            (''slots_per_day'', TInts (map (\<lambda>i. int (unat (payload ! (1 + i)))) [0 ..< 7]))])"

definition decode_slot_read_response :: "byte \<Rightarrow> byte \<Rightarrow> byte \<Rightarrow> byte \<Rightarrow> byte list \<Rightarrow> timer_values" where
  "decode_slot_read_response zone hc weekday slot payload =
     (let values = [(''opcode'', TByte opcode_timer_read), (''zone'', TByte zone), (''hc'', TByte hc),
                    (''weekday'', TByte weekday), (''slot'', TByte slot), (''payload'', TBytes payload)]
      in if length payload < 7 then values @ [(''status'', TInvalid)]
         else let temp_raw = be16 (payload ! 6) (payload ! 5)
              in values @
                [(''status'', TByte (payload ! 0)), (''available'', TBool (payload ! 0 = 0)),
                 (''start_hour'', TByte (payload ! 1)), (''start_minute'', TByte (payload ! 2)),
                 (''end_hour'', TByte (payload ! 3)), (''end_minute'', TByte (payload ! 4)),
                 (''temperature_raw'', TUint16 temp_raw),
                 (''temperature_c'', if temp_raw = 0xFFFF then TInvalid
                                     else TFloat (of_nat (unat temp_raw) / 10))])"

definition decode_slot_write_response :: "byte \<Rightarrow> byte \<Rightarrow> byte \<Rightarrow> byte \<Rightarrow> byte list \<Rightarrow> timer_values" where
  "decode_slot_write_response zone hc weekday slot payload =
     (let values = [(''opcode'', TByte opcode_timer_write), (''zone'', TByte zone), (''hc'', TByte hc),
                    (''weekday'', TByte weekday), (''slot'', TByte slot), (''payload'', TBytes payload)]
      in if length payload = 0 then values @ [(''error_code'', TInvalid), (''accepted'', TBool False)]
         else values @ [(''error_code'', TByte (payload ! 0)), (''accepted'', TBool (payload ! 0 = 0))])"

text \<open>The switch of \<open>DecodeResponse\<close> on the name of the method.\<close>

definition timer_decode_by_name :: "string \<Rightarrow> byte list \<Rightarrow> vai_params \<Rightarrow> 'e vai_error + timer_values" where
  "timer_decode_by_name name data params =
     (if name = ''read_timer_config'' then
        and_then (require (uint8_param params ''zone'')) (\<lambda>zone.
        and_then (require (uint8_param params ''hc'')) (\<lambda>hc. Inr (decode_config_response zone hc data)))
      else if name = ''read_timer_slots'' then
        and_then (require (uint8_param params ''zone'')) (\<lambda>zone.
        and_then (require (uint8_param params ''hc'')) (\<lambda>hc. Inr (decode_slots_response zone hc data)))
      else if name = ''read_timer'' \<or> name = ''write_timer'' then
        and_then (require (uint8_param params ''zone'')) (\<lambda>zone.
        and_then (require (uint8_param params ''hc'')) (\<lambda>hc.
        and_then (require (uint8_param params ''weekday'')) (\<lambda>weekday.
        and_then (require (uint8_param params ''slot'')) (\<lambda>slot.
          Inr (if name = ''read_timer'' then decode_slot_read_response zone hc weekday slot data
               else decode_slot_write_response zone hc weekday slot data)))))
      else Inl PayloadRejected)"

definition timer_decode_response ::
  "'e system_method option \<Rightarrow> frame \<Rightarrow> vai_params \<Rightarrow> 'e vai_error + timer_values" where
  "timer_decode_response method response params =
     and_then (require method) (\<lambda>m.
     and_then (require (sm_template m)) (\<lambda>template.
       if fr_primary response \<noteq> pt_primary template \<or> fr_secondary response \<noteq> pt_secondary template
       then Inl PayloadRejected
       else timer_decode_by_name (sm_name m) (fr_data response) params))"

section \<open>Extent views\<close>

text \<open>
  A view over the bytes received for an answer that declares its own length. The declared count is a
  Go \<open>int\<close> that is only compared. Slicing and indexing panic out of range: a view is \<open>None\<close> then.
\<close>

record ab52_byte =
  ab52_present :: bool
  ab52_value :: byte

definition ab52_extent :: "int \<Rightarrow> byte list \<Rightarrow> int \<times> string list" where
  "ab52_extent declared available =
     (if declared < 0 then (0, [''declared_negative''])
      else let (extent, issues) =
             (if int (length available) < declared then (int (length available), [''available_short''])
              else (declared, []))
           in (extent, if int (length available) > declared then issues @ [''available_exceeds_declared''] else issues))"

definition go_prefix :: "byte list \<Rightarrow> int \<Rightarrow> byte list option" where
  "go_prefix bs n = (if n < 0 \<or> n > int (length bs) then None else Some (take (nat n) bs))"

definition go_index :: "byte list \<Rightarrow> nat \<Rightarrow> byte option" where
  "go_index bs i = (if i < length bs then Some (bs ! i) else None)"

definition ab52_absent :: ab52_byte where
  "ab52_absent = \<lparr>ab52_present = False, ab52_value = 0\<rparr>"

definition ab52_cell :: "byte list \<Rightarrow> nat \<Rightarrow> ab52_byte" where
  "ab52_cell raw index =
     (if index < length raw then \<lparr>ab52_present = True, ab52_value = raw ! index\<rparr> else ab52_absent)"

record ab52_a4_view =
  a4_raw :: "byte list"
  a4_declared_count :: int
  a4_available_count :: int
  a4_extent :: int
  a4_incomplete :: bool
  a4_issues :: "string list"
  a4_status :: ab52_byte
  a4_status_accepted :: bool
  a4_status_unavailable :: bool
  a4_status_grade :: string
  a4_day_counts :: "byte list"
  a4_week_complete :: bool
  a4_week_valid :: bool
  a4_day_count_grade :: string
  a4_eighth_count :: ab52_byte
  a4_eighth_count_grade :: string

text \<open>The loop over the days 1 to 7 that the bytes hold.\<close>

fun ab52_days :: "byte list \<Rightarrow> nat list \<Rightarrow> byte list" where
  "ab52_days raw [] = []"
| "ab52_days raw (day # days) = (if day < length raw then raw ! day # ab52_days raw days else [])"

definition ab52_decode_a4 :: "int \<Rightarrow> byte list \<Rightarrow> ab52_a4_view option" where
  "ab52_decode_a4 declared available =
     (let (extent, issues) = ab52_extent declared available; n = int (length available)
      in case go_prefix available extent of
           None \<Rightarrow> None
         | Some raw \<Rightarrow>
             (let status = ab52_cell raw 0;
                  days = ab52_days raw [1 ..< 8];
                  issues = (if 0 \<le> declared \<and> declared < 8 then issues @ [''declared_below_week''] else issues);
                  complete = (declared \<ge> 8 \<and> n \<ge> 8);
                  valid = (complete \<and> \<not> list_ex (\<lambda>count. count > 12) days);
                  issues = (if complete \<and> \<not> valid then issues @ [''day_count_over_limit''] else issues);
                  view = (\<lambda>eighth.
                    \<lparr>a4_raw = raw, a4_declared_count = declared, a4_available_count = n, a4_extent = extent,
                     a4_incomplete = (\<not> complete \<or> n < declared), a4_issues = issues, a4_status = status,
                     a4_status_accepted = (ab52_present status \<and> ab52_value status = 0),
                     a4_status_unavailable = (ab52_present status \<and> ab52_value status = 3),
                     a4_status_grade = ''hypothesis'', a4_day_counts = days, a4_week_complete = complete,
                     a4_week_valid = valid, a4_day_count_grade = ''hypothesis'', a4_eighth_count = eighth,
                     a4_eighth_count_grade = ''hypothesis''\<rparr>)
              in if declared \<ge> 9 \<and> n \<ge> 9
                 then map_option (\<lambda>b. view \<lparr>ab52_present = True, ab52_value = b\<rparr>) (go_index available 8)
                 else Some (view ab52_absent)))"

record ab52_a5_view =
  a5_raw :: "byte list"
  a5_declared_count :: int
  a5_available_count :: int
  a5_extent :: int
  a5_incomplete :: bool
  a5_issues :: "string list"
  a5_status :: ab52_byte
  a5_status_accepted :: bool
  a5_start_hour :: ab52_byte
  a5_start_minute :: ab52_byte
  a5_end_hour :: ab52_byte
  a5_end_minute :: ab52_byte
  a5_setpoint_present :: bool
  a5_setpoint_raw :: uint16
  a5_setpoint_tenths :: rat
  a5_setpoint_grade :: string
  a5_setpoint_qualified :: string

definition ab52_decode_a5 :: "int \<Rightarrow> byte list \<Rightarrow> ab52_a5_view option" where
  "ab52_decode_a5 declared available =
     (let (extent, issues) = ab52_extent declared available; n = int (length available)
      in case go_prefix available extent of
           None \<Rightarrow> None
         | Some raw \<Rightarrow>
             (let status = ab52_cell raw 0;
                  issues = (if \<not> extent \<ge> 7 \<and> 0 \<le> declared \<and> declared < 7
                            then issues @ [''declared_below_a5_setpoint''] else issues);
                  view = (\<lambda>present setpoint.
                    \<lparr>a5_raw = raw, a5_declared_count = declared, a5_available_count = n, a5_extent = extent,
                     a5_incomplete = (\<not> present \<or> n < declared), a5_issues = issues, a5_status = status,
                     a5_status_accepted = (ab52_present status \<and> ab52_value status = 0),
                     a5_start_hour = ab52_cell raw 1, a5_start_minute = ab52_cell raw 2,
                     a5_end_hour = ab52_cell raw 3, a5_end_minute = ab52_cell raw 4,
                     a5_setpoint_present = present, a5_setpoint_raw = setpoint,
                     a5_setpoint_tenths = of_nat (unat setpoint) / 10,
                     a5_setpoint_grade = ''hypothesis'', a5_setpoint_qualified = ''unknown''\<rparr>)
              in if extent \<ge> 7
                 then (case (go_index raw 5, go_index raw 6) of
                         (Some lo, Some hi) \<Rightarrow> Some (view True (be16 hi lo))
                       | _ \<Rightarrow> None)
                 else Some (view False 0)))"

end
