(* ===== verification/Vai_Timer_Properties.thy ===== *)
theory Vai_Timer_Properties
  imports Vai_Timer
begin

text \<open>
  What the timer plane promises: the shape of every decoded answer, the schedules a write admits and
  how a read gives them back, and that the extent views stay within the bytes they may read.
\<close>

section \<open>Parameters\<close>

lemma require_then: "and_then (require x) f = Inr y \<longleftrightarrow> (\<exists>v. x = Some v \<and> f v = Inr y)"
  by (cases x) simp_all

lemma bounded_then:
  "and_then (bounded_param params key limit) f = Inr y \<longleftrightarrow>
     (\<exists>v. uint8_param params key = Some v \<and> v \<le> limit \<and> f v = Inr y)"
  by (cases "uint8_param params key") (auto simp: bounded_param_def)

lemma rejected_if: "(if b then Inl e else r) = Inr y \<longleftrightarrow> \<not> b \<and> r = Inr y"
  by simp

section \<open>The type of an answer\<close>

datatype timer_kind = ByteKind | Uint16Kind | BytesKind | BoolKind | FloatKind | IntsKind

fun value_kind :: "timer_value \<Rightarrow> timer_kind option" where
  "value_kind (TByte _) = Some ByteKind"
| "value_kind (TUint16 _) = Some Uint16Kind"
| "value_kind (TBytes _) = Some BytesKind"
| "value_kind (TBool _) = Some BoolKind"
| "value_kind (TFloat _) = Some FloatKind"
| "value_kind (TInts _) = Some IntsKind"
| "value_kind TInvalid = None"

text \<open>The keys of an answer with their types: those of every answer, and those of a long enough one.\<close>

definition request_fields :: "string \<Rightarrow> (string \<times> timer_kind) list" where
  "request_fields name =
     [(''opcode'', ByteKind), (''zone'', ByteKind), (''hc'', ByteKind)] @
     (if name = ''read_timer'' \<or> name = ''write_timer'' then [(''weekday'', ByteKind), (''slot'', ByteKind)] else []) @
     [(''payload'', BytesKind)]"

definition answer_length :: "string \<Rightarrow> nat" where
  "answer_length name =
     (if name = ''read_timer_config'' \<or> name = ''read_timer_slots'' then 9
      else if name = ''read_timer'' then 7 else 1)"

definition answer_fields :: "string \<Rightarrow> (string \<times> timer_kind) list" where
  "answer_fields name =
     (if name = ''read_timer_config'' then
        [(''status'', ByteKind), (''max_slots'', ByteKind), (''time_resolution'', ByteKind), (''min_duration'', ByteKind),
         (''has_temperature'', BoolKind), (''temp_slots'', ByteKind), (''min_temp_c'', FloatKind),
         (''max_temp_c'', FloatKind), (''available'', BoolKind)]
      else if name = ''read_timer_slots'' then
        [(''status'', ByteKind), (''available'', BoolKind), (''slots_per_day'', IntsKind)]
      else if name = ''read_timer'' then
        [(''status'', ByteKind), (''available'', BoolKind), (''start_hour'', ByteKind), (''start_minute'', ByteKind),
         (''end_hour'', ByteKind), (''end_minute'', ByteKind), (''temperature_raw'', Uint16Kind),
         (''temperature_c'', FloatKind)]
      else [(''error_code'', ByteKind), (''accepted'', BoolKind)])"

definition short_fields :: "string \<Rightarrow> (string \<times> timer_kind) list" where
  "short_fields name =
     (if name = ''write_timer'' then [(''error_code'', ByteKind), (''accepted'', BoolKind)] else [(''status'', ByteKind)])"

text \<open>A field may be invalid: a temperature that is the replacement value, or the status of a short answer.\<close>

definition may_be_invalid :: "string \<Rightarrow> bool \<Rightarrow> bool" where
  "may_be_invalid key full \<longleftrightarrow>
     (if full then key \<in> {''min_temp_c'', ''max_temp_c'', ''temperature_c''} else key \<in> {''status'', ''error_code''})"

definition fields_typed :: "bool \<Rightarrow> (string \<times> timer_kind) list \<Rightarrow> timer_values \<Rightarrow> bool" where
  "fields_typed full expected found \<longleftrightarrow>
     list_all2 (\<lambda>(k, kind) (j, v). j = k \<and>
       (if v = TInvalid then may_be_invalid k full else value_kind v = Some kind)) expected found"

lemma decoded_fields_typed:
  assumes "timer_decode_by_name name data params = Inr values"
    and "name \<in> {''read_timer_config'', ''read_timer_slots'', ''read_timer'', ''write_timer''}"
  shows "fields_typed (length data \<ge> answer_length name)
     (request_fields name @ (if length data \<ge> answer_length name then answer_fields name else short_fields name)) values"
proof -
  consider "name = ''read_timer_config''" | "name = ''read_timer_slots''" | "name = ''read_timer''" | "name = ''write_timer''"
    using assms(2) by blast
  then show ?thesis
    by cases (use assms(1) in \<open>auto simp: timer_decode_by_name_def require_then decode_config_response_def
      decode_slots_response_def decode_slot_read_response_def decode_slot_write_response_def Let_def
      fields_typed_def request_fields_def answer_length_def answer_fields_def short_fields_def
      float_or_invalid_def may_be_invalid_def\<close>)
qed

text \<open>(C27)
  Every answer that decodes has the shape of its method: exactly the keys that name the request and
  then, for an answer long enough, the fields of the method, each of its declared type; only a
  temperature may be invalid. A shorter answer has an invalid status (or error code, never accepted).
\<close>

theorem timer_answer_typed:
  fixes m :: "'e system_method"
  assumes "m \<in> set timer_methods" and "timer_decode_response (Some m) answer params = Inr values"
  shows "fields_typed (length (fr_data answer) \<ge> answer_length (sm_name m))
     (request_fields (sm_name m) @ (if length (fr_data answer) \<ge> answer_length (sm_name m)
        then answer_fields (sm_name m) else short_fields (sm_name m))) values"
proof (rule decoded_fields_typed)
  show "(timer_decode_by_name (sm_name m) (fr_data answer) params :: 'e vai_error + timer_values) = Inr values"
    using assms(2) by (auto simp: timer_decode_response_def require_then split: if_splits)
  show "sm_name m \<in> {''read_timer_config'', ''read_timer_slots'', ''read_timer'', ''write_timer''}"
    using assms(1) by (auto simp: timer_methods_def system_method_of_def)
qed

definition sample_timer_params :: vai_params where
  "sample_timer_params =
     [(''source'', VInt 0x31), (''zone'', VUint8 1), (''hc'', VInt 2), (''weekday'', VInt 6), (''slot'', VInt 0),
      (''slot_count'', VInt 3), (''start_hour'', VInt 6), (''start_minute'', VInt 30), (''end_hour'', VInt 24),
      (''end_minute'', VInt 0), (''temperature'', VInt 215)]"

definition sample_timer_answer :: frame where
  "sample_timer_answer = \<lparr>fr_source = 0x15, fr_target = 0x31, fr_primary = 0xB5, fr_secondary = 0x55,
     fr_data = [0, 6, 30, 24, 0, 0xFF, 0xFF]\<rparr>"

lemma sample_timer_values [simp]:
  "uint8_param sample_timer_params ''zone'' = Some 1" "uint8_param sample_timer_params ''hc'' = Some 2"
  "uint8_param sample_timer_params ''weekday'' = Some 6" "uint8_param sample_timer_params ''slot'' = Some 0"
  "uint8_param sample_timer_params ''slot_count'' = Some 3" "uint8_param sample_timer_params ''start_hour'' = Some 6"
  "uint8_param sample_timer_params ''start_minute'' = Some 30" "uint8_param sample_timer_params ''end_hour'' = Some 24"
  "uint8_param sample_timer_params ''end_minute'' = Some 0" "uint16_param sample_timer_params ''temperature'' = Some 215"
  by code_simp+

theorem timer_answer_typed_witness:
  "\<exists>values. timer_decode_response (Some (timer_methods ! 2 :: unit system_method)) sample_timer_answer sample_timer_params = Inr values \<and>
     fields_typed True (request_fields ''read_timer'' @ answer_fields ''read_timer'') values"
proof -
  let ?m = "timer_methods ! 2 :: unit system_method"
  have m: "?m \<in> set timer_methods" "sm_name ?m = ''read_timer''"
    "sm_template ?m = Some \<lparr>pt_primary = 0xB5, pt_secondary = 0x55, pt_build = Some slot_read_build\<rparr>"
    by (simp_all add: timer_methods_def system_method_of_def)
  obtain out where v: "timer_decode_response (Some ?m) sample_timer_answer sample_timer_params = Inr out"
    by (simp add: timer_decode_response_def m timer_decode_by_name_def sample_timer_answer_def)
  then show ?thesis
    using timer_answer_typed [OF m(1) v] by (simp add: m(2) answer_length_def sample_timer_answer_def)
qed

section \<open>Schedules\<close>

definition param_within :: "vai_params \<Rightarrow> string \<Rightarrow> byte \<Rightarrow> bool" where
  "param_within params key limit \<longleftrightarrow> (case uint8_param params key of None \<Rightarrow> False | Some b \<Rightarrow> b \<le> limit)"

text \<open>
  The schedules a write admits: all ten parameters are there, the heating circuit is at most 4, the
  weekday at most 6, the slot count positive, hours at most 24 and minutes at most 59.
\<close>

definition schedule_admitted :: "vai_params \<Rightarrow> bool" where
  "schedule_admitted params \<longleftrightarrow>
     param_within params ''zone'' 255 \<and> param_within params ''hc'' 4 \<and> param_within params ''weekday'' 6 \<and>
     param_within params ''slot'' 255 \<and> param_within params ''slot_count'' 255 \<and>
     uint8_param params ''slot_count'' \<noteq> Some 0 \<and>
     param_within params ''start_hour'' 24 \<and> param_within params ''start_minute'' 59 \<and>
     param_within params ''end_hour'' 24 \<and> param_within params ''end_minute'' 59 \<and>
     uint16_param params ''temperature'' \<noteq> None"

lemma byte_le_255 [simp]: "(b :: byte) \<le> 255"
  using unsigned_less [of b, where 'a = nat] by (simp add: word_le_nat_alt)

text \<open>(C28)
  A write is built exactly for an admitted schedule, and a controller that stores the twelve bytes and
  answers a read of the slot with them gives the schedule back: the same zone, circuit, weekday and
  slot, the same hours and minutes, and the same raw temperature, for every admitted schedule.
\<close>

theorem slot_write_read_back:
  "((\<exists>data. (slot_write_build params :: 'e vai_error + byte list) = Inr data) \<longleftrightarrow> schedule_admitted params) \<and>
   (case (slot_write_build params :: 'e vai_error + byte list) of
      Inl e \<Rightarrow> e = PayloadRejected
    | Inr data \<Rightarrow>
        length data = 12 \<and> data ! 0 = opcode_timer_write \<and> uint8_param params ''slot_count'' = Some (data ! 5) \<and>
        (let stored = decode_slot_read_response (data ! 1) (data ! 2) (data ! 3) (data ! 4) (0 # drop 6 data)
         in list_all (\<lambda>key. gm_get stored key = map_option TByte (uint8_param params key))
              [''zone'', ''hc'', ''weekday'', ''slot'', ''start_hour'', ''start_minute'', ''end_hour'', ''end_minute''] \<and>
            gm_get stored ''temperature_raw'' = map_option TUint16 (uint16_param params ''temperature'') \<and>
            gm_get stored ''available'' = Some (TBool True)))"
proof -
  have built: "(slot_write_build params :: 'e vai_error + byte list) = Inr data \<longleftrightarrow>
     (\<exists>zone hc dd si sc sh sm eh em temp.
        uint8_param params ''zone'' = Some zone \<and> uint8_param params ''hc'' = Some hc \<and> hc \<le> 4 \<and>
        uint8_param params ''weekday'' = Some dd \<and> dd \<le> 6 \<and> uint8_param params ''slot'' = Some si \<and>
        uint8_param params ''slot_count'' = Some sc \<and> sc \<noteq> 0 \<and>
        uint8_param params ''start_hour'' = Some sh \<and> sh \<le> 24 \<and> uint8_param params ''start_minute'' = Some sm \<and> sm \<le> 59 \<and>
        uint8_param params ''end_hour'' = Some eh \<and> eh \<le> 24 \<and> uint8_param params ''end_minute'' = Some em \<and> em \<le> 59 \<and>
        uint16_param params ''temperature'' = Some temp \<and>
        [opcode_timer_write, zone, hc, dd, si, sc, sh, sm, eh, em, lo8 temp, hi8 temp] = data)" for data
    unfolding slot_write_build_def by (simp add: require_then bounded_then rejected_if del: split_paired_Ex)
  have "(\<exists>data. (slot_write_build params :: 'e vai_error + byte list) = Inr data) \<longleftrightarrow> schedule_admitted params"
    by (simp add: built schedule_admitted_def param_within_def split: option.splits)
  moreover have "e = PayloadRejected" if "(slot_write_build params :: 'e vai_error + byte list) = Inl e" for e
    using that unfolding slot_write_build_def
    by (auto simp: and_then_def require_def bounded_param_def split: option.splits if_splits)
  moreover have "length data = 12 \<and> data ! 0 = opcode_timer_write \<and> uint8_param params ''slot_count'' = Some (data ! 5) \<and>
        (let stored = decode_slot_read_response (data ! 1) (data ! 2) (data ! 3) (data ! 4) (0 # drop 6 data)
         in list_all (\<lambda>key. gm_get stored key = map_option TByte (uint8_param params key))
              [''zone'', ''hc'', ''weekday'', ''slot'', ''start_hour'', ''start_minute'', ''end_hour'', ''end_minute''] \<and>
            gm_get stored ''temperature_raw'' = map_option TUint16 (uint16_param params ''temperature'') \<and>
            gm_get stored ''available'' = Some (TBool True))"
    if "(slot_write_build params :: 'e vai_error + byte list) = Inr data" for data
    using that unfolding built by (elim exE conjE, hypsubst) (simp add: decode_slot_read_response_def Let_def gm_get_def)
  ultimately show ?thesis by (auto split: sum.split)
qed

section \<open>Extent views\<close>

text \<open>The bytes a view may use: as many as declared, as far as they were received.\<close>

definition usable :: "int \<Rightarrow> byte list \<Rightarrow> byte list" where
  "usable declared available = take (nat declared) available"

lemma extent_prefix: "go_prefix available (fst (ab52_extent declared available)) = Some (usable declared available)"
  by (simp add: ab52_extent_def go_prefix_def usable_def Let_def nat_le_iff)

lemma ab52_days_prefix: "m \<le> n \<Longrightarrow> ab52_days raw [m ..< n] = take (n - m) (drop m raw)"
proof (induction "n - m" arbitrary: m)
  case (Suc d)
  then have "[m ..< n] = m # [Suc m ..< n]" by (simp add: upt_conv_Cons)
  moreover have "take (n - m) (drop m raw) = (if m < length raw then raw ! m # take (n - Suc m) (drop (Suc m) raw) else [])"
    using Suc.hyps by (auto simp: Cons_nth_drop_Suc [symmetric] take_Cons' not_less)
  ultimately show ?case using Suc by simp
qed simp

text \<open>  The extent views never panic, use only the bytes that were both declared and received, and keep
  exactly those. The weekly view is complete exactly when eight bytes were declared and received, and
  then valid exactly when none of the seven day counts exceeds 12; the timer view has a setpoint exactly
  when seven were, and it is the little-endian word of bytes five and six.
\<close>

theorem extent_views_exact:
  "(case ab52_decode_a4 declared available of
      None \<Rightarrow> False
    | Some v \<Rightarrow>
        a4_raw v = usable declared available \<and> a4_extent v = int (length (usable declared available)) \<and>
        a4_day_counts v = take 7 (drop 1 (usable declared available)) \<and>
        (a4_week_complete v \<longleftrightarrow> length (usable declared available) \<ge> 8) \<and>
        (a4_week_valid v \<longleftrightarrow> a4_week_complete v \<and> list_all (\<lambda>count. count \<le> 12) (a4_day_counts v)) \<and>
        a4_eighth_count v = ab52_cell (usable declared available) 8) \<and>
   (case ab52_decode_a5 declared available of
      None \<Rightarrow> False
    | Some v \<Rightarrow>
        a5_raw v = usable declared available \<and> a5_extent v = int (length (usable declared available)) \<and>
        (a5_setpoint_present v \<longleftrightarrow> length (usable declared available) \<ge> 7) \<and>
        a5_setpoint_raw v = (if length (usable declared available) \<ge> 7
          then be16 (usable declared available ! 6) (usable declared available ! 5) else 0))"
proof -
  let ?u = "usable declared available"
  obtain extent issues where e: "ab52_extent declared available = (extent, issues)" by fastforce
  have pre: "go_prefix available extent = Some ?u" using extent_prefix [of available declared] e by simp
  then have extent: "extent = int (length ?u)"
    using e by (auto simp: ab52_extent_def usable_def Let_def split: if_splits)
  have len: "length ?u = min (nat declared) (length available)" by (simp add: usable_def)
  have nth: "i < length ?u \<Longrightarrow> available ! i = ?u ! i" for i by (simp add: usable_def)
  have days: "ab52_days ?u [1 ..< 8] = take 7 (drop 1 ?u)" using ab52_days_prefix [of 1 8 ?u] by simp
  have week: "declared \<ge> int k \<and> int (length available) \<ge> int k \<longleftrightarrow> length ?u \<ge> k" if "k > 0" for k
    using that by (auto simp: len)
  have eight: "8 \<le> declared \<and> 8 \<le> int (length available) \<longleftrightarrow> length ?u \<ge> 8"
    "9 \<le> declared \<and> 9 \<le> int (length available) \<longleftrightarrow> length ?u \<ge> 9"
    using week [of 8] week [of 9] by simp_all
  have index: "length ?u \<ge> 9 \<Longrightarrow> go_index available 8 = Some (?u ! 8)"
    using nth [of 8] by (simp add: go_index_def len)
  have none: "\<not> list_ex (\<lambda>count. count > (12 :: byte)) xs \<longleftrightarrow> list_all (\<lambda>count. count \<le> 12) xs" for xs
    by (induction xs) (simp_all add: not_less)
  have a4: "case ab52_decode_a4 declared available of None \<Rightarrow> False
    | Some v \<Rightarrow> a4_raw v = ?u \<and> a4_extent v = int (length ?u) \<and> a4_day_counts v = take 7 (drop 1 ?u) \<and>
        (a4_week_complete v \<longleftrightarrow> length ?u \<ge> 8) \<and>
        (a4_week_valid v \<longleftrightarrow> a4_week_complete v \<and> list_all (\<lambda>count. count \<le> 12) (a4_day_counts v)) \<and>
        a4_eighth_count v = ab52_cell ?u 8"
    unfolding ab52_decode_a4_def e Let_def prod.case pre option.case unfolding days eight none extent
    by (cases "length ?u \<ge> 9") (simp_all add: index ab52_cell_def)
  have a5: "case ab52_decode_a5 declared available of None \<Rightarrow> False
    | Some v \<Rightarrow> a5_raw v = ?u \<and> a5_extent v = int (length ?u) \<and> (a5_setpoint_present v \<longleftrightarrow> length ?u \<ge> 7) \<and>
        a5_setpoint_raw v = (if length ?u \<ge> 7 then be16 (?u ! 6) (?u ! 5) else 0)"
    unfolding ab52_decode_a5_def e Let_def prod.case pre option.case unfolding extent
    by (cases "length ?u \<ge> 7") (simp_all add: go_index_def)
  show ?thesis using a4 a5 by blast
qed

end
