(* ===== verification/Go_Json.thy ===== *)
theory Go_Json
  imports Go_Format
begin

text \<open>
  The part of \<open>encoding/json\<close> the catalog loader uses: \<open>json.Marshal\<close> of strings, bytes, string
  slices and structs of these, as the bytes it writes. A text is UTF-8 when Go's decoder finds no
  malformed byte in it; a malformed byte is written as the escape of U+FFFD. \<open>utf8_marked\<close>
  replaces every malformed byte by one mark; two texts have the same JSON exactly when they agree so marked.

  The encoders are prefix codes: the encoding of a value determines where it ends and what it was.
  The locale \<open>prefix_code\<close> states that law and carries it from the elements to an array.
\<close>

section \<open>UTF-8\<close>

definition char_in :: "nat \<Rightarrow> nat \<Rightarrow> char \<Rightarrow> bool" where
  "char_in lo hi c \<longleftrightarrow> lo \<le> of_char c \<and> of_char c \<le> hi"

text \<open>The ranges the bytes after a leading byte lie in (\<open>first\<close> and \<open>acceptRanges\<close> of \<open>unicode/utf8\<close>).\<close>

definition utf8_ranges :: "char \<Rightarrow> (nat \<times> nat) list option" where
  "utf8_ranges c =
     (if char_in 0xC2 0xDF c then Some [(0x80, 0xBF)]
      else if char_in 0xE0 0xE0 c then Some [(0xA0, 0xBF), (0x80, 0xBF)]
      else if char_in 0xED 0xED c then Some [(0x80, 0x9F), (0x80, 0xBF)]
      else if char_in 0xE1 0xEF c then Some [(0x80, 0xBF), (0x80, 0xBF)]
      else if char_in 0xF0 0xF0 c then Some [(0x90, 0xBF), (0x80, 0xBF), (0x80, 0xBF)]
      else if char_in 0xF1 0xF3 c then Some [(0x80, 0xBF), (0x80, 0xBF), (0x80, 0xBF)]
      else if char_in 0xF4 0xF4 c then Some [(0x80, 0x8F), (0x80, 0xBF), (0x80, 0xBF)]
      else None)"

fun in_ranges :: "(nat \<times> nat) list \<Rightarrow> string \<Rightarrow> bool" where
  "in_ranges [] s \<longleftrightarrow> True"
| "in_ranges (r # rs) [] \<longleftrightarrow> False"
| "in_ranges ((lo, hi) # rs) (c # s) \<longleftrightarrow> char_in lo hi c \<and> in_ranges rs s"

text \<open>How many bytes follow a leading byte in its rune; nothing for a malformed one.\<close>

definition utf8_trailing :: "char \<Rightarrow> string \<Rightarrow> nat option" where
  "utf8_trailing c s =
     (case utf8_ranges c of
        None \<Rightarrow> None
      | Some rs \<Rightarrow> if in_ranges rs s then Some (length rs) else None)"

definition is_ascii :: "char \<Rightarrow> bool" where
  "is_ascii c \<longleftrightarrow> (of_char c :: nat) < 128"

fun valid_utf8 :: "string \<Rightarrow> bool" where
  "valid_utf8 [] \<longleftrightarrow> True"
| "valid_utf8 (c # s) \<longleftrightarrow>
     (if is_ascii c then valid_utf8 s
      else case utf8_trailing c s of None \<Rightarrow> False | Some n \<Rightarrow> valid_utf8 (drop n s))"

lemma valid_utf8_ascii: "list_all is_ascii s \<Longrightarrow> valid_utf8 s"
  by (induction s) simp_all

text \<open>
  The text with every malformed byte replaced by one byte that no rune has: all that is left of such bytes in
  what the encoder writes.
\<close>

fun utf8_marked :: "string \<Rightarrow> string" where
  "utf8_marked [] = []"
| "utf8_marked (c # s) =
     (if is_ascii c then c # utf8_marked s
      else case utf8_trailing c s of
             None \<Rightarrow> CHR 0xFD # utf8_marked s
           | Some n \<Rightarrow> c # take n s @ utf8_marked (drop n s))"

lemma utf8_marked_valid: "valid_utf8 s \<Longrightarrow> utf8_marked s = s"
  by (induction s rule: utf8_marked.induct) (auto split: option.splits)

lemma utf8_marked_ascii: "list_all is_ascii t \<Longrightarrow> utf8_marked s = t \<longleftrightarrow> s = t"
proof (induction s arbitrary: t rule: utf8_marked.induct)
  case (2 c s)
  show ?case
  proof (cases "is_ascii c")
    case True
    then show ?thesis using "2.IH"(1) [OF True, of "tl t"] "2.prems" by (cases t) auto
  next
    case False
    then show ?thesis
      using "2.prems" by (cases t) (auto simp: is_ascii_def split: option.splits)
  qed
qed simp

lemma utf8_marked_Nil [simp]: "utf8_marked s = [] \<longleftrightarrow> s = []"
  by (cases s) (simp_all split: option.split)

lemma in_ranges_take:
  "in_ranges rs s \<Longrightarrow> \<forall>(lo, hi) \<in> set rs. 128 \<le> lo \<Longrightarrow>
     length (take (length rs) s) = length rs \<and> (\<forall>c \<in> set (take (length rs) s). \<not> is_ascii c)"
  by (induction rs s rule: in_ranges.induct) (auto simp: char_in_def is_ascii_def)

lemma utf8_trailing_high:
  assumes "utf8_trailing c s = Some n"
  shows "length (take n s) = n" and "\<forall>d \<in> set (take n s). \<not> is_ascii d" and "\<not> is_ascii c"
proof -
  obtain rs where rs: "utf8_ranges c = Some rs" "in_ranges rs s" "n = length rs"
    using assms by (auto simp: utf8_trailing_def split: option.splits if_splits)
  have "\<forall>(lo, hi) \<in> set rs. 128 \<le> lo"
    using rs(1) by (auto simp: utf8_ranges_def split: if_splits)
  from in_ranges_take [OF rs(2) this] show "length (take n s) = n" "\<forall>d \<in> set (take n s). \<not> is_ascii d"
    by (simp_all add: rs(3))
  show "\<not> is_ascii c"
    using rs(1) by (auto simp: utf8_ranges_def is_ascii_def char_in_def split: if_splits)
qed

section \<open>Strings\<close>

definition json_hex :: "nat \<Rightarrow> char" where
  "json_hex d = (if d < 10 then char_of (48 + d) else char_of (87 + d))"

definition json_ascii :: "char \<Rightarrow> string" where
  "json_ascii c =
     (let n = of_char c :: nat
      in if c = CHR 0x22 \<or> c = CHR 0x5C then [CHR 0x5C, c]
         else if n = 8 then [CHR 0x5C, CHR ''b'']
         else if n = 12 then [CHR 0x5C, CHR ''f'']
         else if n = 10 then [CHR 0x5C, CHR ''n'']
         else if n = 13 then [CHR 0x5C, CHR ''r'']
         else if n = 9 then [CHR 0x5C, CHR ''t'']
         else if n < 32 \<or> c = CHR ''<'' \<or> c = CHR ''>'' \<or> c = CHR 0x26
              then CHR 0x5C # ''u00'' @ [json_hex (n div 16), json_hex (n mod 16)]
         else [c])"

definition json_rune :: "string \<Rightarrow> string" where
  "json_rune rune =
     (if rune = [CHR 0xE2, CHR 0x80, CHR 0xA8] then CHR 0x5C # ''u2028''
      else if rune = [CHR 0xE2, CHR 0x80, CHR 0xA9] then CHR 0x5C # ''u2029''
      else rune)"

fun json_body :: "string \<Rightarrow> string" where
  "json_body [] = []"
| "json_body (c # s) =
     (if is_ascii c then json_ascii c @ json_body s
      else case utf8_trailing c s of
             None \<Rightarrow> (CHR 0x5C # ''ufffd'') @ json_body s
           | Some n \<Rightarrow> json_rune (c # take n s) @ json_body (drop n s))"

definition json_string :: "string \<Rightarrow> string" where
  "json_string s = CHR 0x22 # json_body s @ [CHR 0x22]"

text \<open>The decoder of a string body: the text up to the closing quote and what follows it.\<close>

definition json_char :: "char \<Rightarrow> char" where
  "json_char c =
     (if c = CHR ''b'' then char_of (8 :: nat)
      else if c = CHR ''f'' then char_of (12 :: nat)
      else if c = CHR ''n'' then char_of (10 :: nat)
      else if c = CHR ''r'' then char_of (13 :: nat)
      else if c = CHR ''t'' then char_of (9 :: nat)
      else c)"

definition json_code :: "char \<Rightarrow> char \<Rightarrow> char \<Rightarrow> string" where
  "json_code a e f =
     (let d = (case hex_value f of None \<Rightarrow> 0 | Some d \<Rightarrow> d);
          h = (case hex_value e of None \<Rightarrow> 0 | Some h \<Rightarrow> h)
      in if a = CHR ''2'' then [CHR 0xE2, CHR 0x80, char_of (160 + d)] else [char_of (16 * h + d)])"

definition json_prepend :: "string \<Rightarrow> (string \<times> string) option \<Rightarrow> (string \<times> string) option" where
  "json_prepend xs r = (case r of None \<Rightarrow> None | Some (s, rest) \<Rightarrow> Some (xs @ s, rest))"

lemma json_prepend_simps [simp]:
  "json_prepend xs None = None" "json_prepend xs (Some (s, rest)) = Some (xs @ s, rest)"
  "json_prepend [] r = r" "json_prepend xs (json_prepend ys r) = json_prepend (xs @ ys) r"
  by (auto simp: json_prepend_def split: option.splits)

fun json_unquote :: "string \<Rightarrow> (string \<times> string) option" where
  "json_unquote [] = None"
| "json_unquote (c # s) =
     (if c = CHR 0x22 then Some ([], s)
      else if c \<noteq> CHR 0x5C then json_prepend [c] (json_unquote s)
      else case s of
             [] \<Rightarrow> None
           | d # s' \<Rightarrow>
               if d \<noteq> CHR ''u'' then json_prepend [json_char d] (json_unquote s')
               else case s' of
                      a # b # e # f # s'' \<Rightarrow> json_prepend (json_code a e f) (json_unquote s'')
                    | _ \<Rightarrow> None)"

lemma hex_value_json_hex [simp]: "d < 16 \<Longrightarrow> hex_value (json_hex d) = Some d"
proof -
  assume "d < 16"
  then have "(of_char (char_of (48 + d) :: char) :: nat) = 48 + d" "(of_char (char_of (87 + d) :: char) :: nat) = 87 + d"
    by (simp_all add: of_char_of)
  with \<open>d < 16\<close> show ?thesis by (simp add: hex_value_def json_hex_def)
qed

lemma json_unquote_ascii:
  assumes "is_ascii c"
  shows "json_unquote (json_ascii c @ r) = json_prepend [c] (json_unquote r)"
proof -
  let ?n = "of_char c :: nat"
  have n: "?n < 128" using assms by (simp add: is_ascii_def)
  have code: "char_of (16 * (?n div 16) + ?n mod 16) = c" by simp
  have eqs: "?n = k \<Longrightarrow> k < 256 \<Longrightarrow> c = char_of k" for k by (metis char_of_char)
  have "?n div 16 < 16" "?n mod 16 < 16" using n by simp_all
  then have escape: "json_code CHR ''0'' (json_hex (?n div 16)) (json_hex (?n mod 16)) = [c]"
    by (simp add: json_code_def)
  let ?short = "c = CHR 0x22 \<or> c = CHR 0x5C \<or> ?n = 8 \<or> ?n = 12 \<or> ?n = 10 \<or> ?n = 13 \<or> ?n = 9"
  let ?long = "?n < 32 \<or> c = CHR ''<'' \<or> c = CHR ''>'' \<or> c = CHR 0x26"
  consider "c = CHR 0x22 \<or> c = CHR 0x5C" | "?n = 8" | "?n = 12" | "?n = 10" | "?n = 13" | "?n = 9"
    | (long) "\<not> ?short" "?long" | (plain) "\<not> ?short" "\<not> ?long"
    by blast
  then show ?thesis
  proof cases
    case long
    then have "json_ascii c = CHR 0x5C # ''u00'' @ [json_hex (?n div 16), json_hex (?n mod 16)]"
      by (simp add: json_ascii_def Let_def)
    then show ?thesis using escape by simp
  next
    case plain
    then show ?thesis by (simp add: json_ascii_def Let_def)
  qed (auto simp: json_ascii_def json_char_def dest: eqs)
qed

lemma json_unquote_high:
  "\<forall>d \<in> set xs. \<not> is_ascii d \<Longrightarrow> json_unquote (xs @ r) = json_prepend xs (json_unquote r)"
proof (induction xs)
  case (Cons d xs)
  then have "d \<noteq> CHR 0x22" "d \<noteq> CHR 0x5C" by (auto simp: is_ascii_def)
  with Cons show ?case by simp
qed simp

lemma json_code_separators [simp]:
  "json_code CHR ''2'' CHR ''2'' CHR ''8'' = [CHR 0xE2, CHR 0x80, CHR 0xA8]"
  "json_code CHR ''2'' CHR ''2'' CHR ''9'' = [CHR 0xE2, CHR 0x80, CHR 0xA9]"
  by code_simp+

lemma json_unquote_rune:
  assumes "utf8_trailing c s = Some n"
  shows "json_unquote (json_rune (c # take n s) @ r) =
           json_prepend (c # take n s) (json_unquote r)"
proof -
  have "\<forall>d \<in> set (c # take n s). \<not> is_ascii d" using utf8_trailing_high [OF assms] by auto
  then show ?thesis using json_unquote_high [of "c # take n s" r]
    by (auto simp: json_rune_def)
qed

text \<open>Marking changes nothing of what is written, and the decoder reads back the marked text.\<close>

lemma malformed_mark: "\<not> is_ascii CHR 0xFD" "utf8_trailing CHR 0xFD s = None"
  by (simp_all add: is_ascii_def utf8_trailing_def utf8_ranges_def char_in_def)

lemma in_ranges_append: "in_ranges rs s \<Longrightarrow> in_ranges rs (take (length rs) s @ t)"
  by (induction rs s rule: in_ranges.induct) auto

lemma utf8_trailing_append: "utf8_trailing c s = Some n \<Longrightarrow> utf8_trailing c (take n s @ t) = Some n"
  using in_ranges_append by (auto simp: utf8_trailing_def split: option.splits if_splits)

lemma utf8_marked_rune:
  assumes "utf8_trailing c s = Some n"
  shows "utf8_trailing c (take n s @ t) = Some n" "take n (take n s @ t) = take n s" "drop n (take n s @ t) = t"
  using utf8_trailing_append [OF assms] utf8_trailing_high(1) [OF assms] by simp_all

lemma json_body_marked: "json_body (utf8_marked s) = json_body s"
proof (induction s rule: json_body.induct)
  case (2 c s)
  show ?case
  proof (cases "is_ascii c")
    case False
    then show ?thesis
      using 2 utf8_marked_rune [of c s _ "utf8_marked (drop _ s)"] malformed_mark
      by (cases "utf8_trailing c s") (simp_all del: take_append drop_append)
  qed (use 2 in simp)
qed simp

lemma utf8_marked_idem [simp]: "utf8_marked (utf8_marked s) = utf8_marked s"
proof (induction s rule: utf8_marked.induct)
  case (2 c s)
  show ?case
  proof (cases "is_ascii c")
    case False
    then show ?thesis
      using 2 utf8_marked_rune [of c s _ "utf8_marked (drop _ s)"] malformed_mark
      by (cases "utf8_trailing c s") (simp_all del: take_append drop_append)
  qed (use 2 in simp)
qed simp

lemma json_code_replacement [simp]: "json_code CHR ''f'' CHR ''f'' CHR ''d'' = [CHR 0xFD]"
  by code_simp

lemma json_unquote_marked: "json_unquote (json_body s @ CHR 0x22 # r) = Some (utf8_marked s, r)"
proof (induction s rule: json_body.induct)
  case (2 c s)
  show ?case
  proof (cases "is_ascii c")
    case True
    with 2 show ?thesis by (simp add: json_unquote_ascii)
  next
    case False
    then show ?thesis
      using 2(2,3) by (cases "utf8_trailing c s") (simp_all add: json_unquote_rune)
  qed
qed simp

lemma json_string_marked: "json_string (utf8_marked s) = json_string s"
  by (simp add: json_string_def json_body_marked)

section \<open>Prefix codes\<close>

text \<open>\<open>json.Marshal\<close> of a slice of values that \<open>enc\<close> encodes, and of a nil slice.\<close>

definition json_array :: "('a \<Rightarrow> string) \<Rightarrow> 'a list \<Rightarrow> string" where
  "json_array enc xs = ''['' @ str_join '','' (map enc xs) @ '']''"

definition json_slice :: "('a \<Rightarrow> string) \<Rightarrow> 'a list option \<Rightarrow> string" where
  "json_slice enc v = (case v of None \<Rightarrow> ''null'' | Some xs \<Rightarrow> json_array enc xs)"

text \<open>A member of a struct: its name and its encoded value.\<close>

definition json_member :: "string \<Rightarrow> string \<Rightarrow> string" where
  "json_member name v = json_string name @ '':'' @ v"

locale prefix_code =
  fixes ok :: "'a \<Rightarrow> bool" and enc :: "'a \<Rightarrow> string"
  assumes enc_inj: "ok x \<Longrightarrow> ok y \<Longrightarrow> enc x @ r = enc y @ r' \<Longrightarrow> x = y \<and> r = r'"
    and enc_start: "ok x \<Longrightarrow> \<exists>c s. enc x = c # s \<and> c \<noteq> CHR '']''"
begin

lemma enc_eq: "ok x \<Longrightarrow> ok y \<Longrightarrow> enc x @ r = enc y @ r' \<longleftrightarrow> x = y \<and> r = r'"
  using enc_inj by blast

lemma elements_inj:
  "list_all ok xs \<Longrightarrow> list_all ok ys \<Longrightarrow>
     str_join '','' (map enc xs) @ CHR '']'' # r = str_join '','' (map enc ys) @ CHR '']'' # r' \<Longrightarrow>
     xs = ys \<and> r = r'"
proof (induction xs arbitrary: ys)
  case Nil
  then show ?case using enc_start
    by (cases ys; cases "tl ys") fastforce+
next
  case (Cons x xs)
  then obtain y ys' where ys: "ys = y # ys'" using enc_start [of x]
    by (cases ys; cases xs) fastforce+
  have tail: "str_join '','' (map enc (z # zs)) @ CHR '']'' # q =
        enc z @ (if zs = [] then [] else '','' @ str_join '','' (map enc zs)) @ CHR '']'' # q" for z zs q
    by (cases zs) simp_all
  have "x = y \<and> (if xs = [] then [] else '','' @ str_join '','' (map enc xs)) @ CHR '']'' # r
               = (if ys' = [] then [] else '','' @ str_join '','' (map enc ys')) @ CHR '']'' # r'"
    using Cons.prems unfolding ys tail by (intro enc_inj) simp_all
  then show ?case using Cons.IH [of ys'] Cons.prems by (auto simp: ys split: if_splits)
qed

lemma array_eq:
  "list_all ok xs \<Longrightarrow> list_all ok ys \<Longrightarrow>
     json_array enc xs @ r = json_array enc ys @ r' \<longleftrightarrow> xs = ys \<and> r = r'"
  using elements_inj [of xs ys r r'] by (auto simp: json_array_def)

lemma slice_eq:
  "pred_option (list_all ok) u \<Longrightarrow> pred_option (list_all ok) v \<Longrightarrow>
     json_slice enc u @ r = json_slice enc v @ r' \<longleftrightarrow> u = v \<and> r = r'"
  using array_eq by (auto simp: json_slice_def json_array_def split: option.splits)

end

text \<open>Strings are a prefix code on the texts that marking does not change; every UTF-8 text is one.\<close>

interpretation jm: prefix_code "\<lambda>s. utf8_marked s = s" json_string
proof
  fix x y r r' :: string
  assume ok: "utf8_marked x = x" "utf8_marked y = y" and "json_string x @ r = json_string y @ r'"
  then have "json_unquote (json_body x @ CHR 0x22 # r) = json_unquote (json_body y @ CHR 0x22 # r')"
    by (simp add: json_string_def)
  then show "x = y \<and> r = r'" by (simp add: json_unquote_marked ok)
qed (simp add: json_string_def)

lemma json_string_eq: "json_string s = json_string t \<longleftrightarrow> utf8_marked s = utf8_marked t"
proof
  assume "json_string s = json_string t"
  then have "json_string (utf8_marked s) @ [] = json_string (utf8_marked t) @ []" by (simp add: json_string_marked)
  then show "utf8_marked s = utf8_marked t" using jm.enc_inj [of "utf8_marked s" "utf8_marked t" "[]" "[]"] by simp
qed (metis json_string_marked)

text \<open>A byte is written in decimal; the comma after it ends it.\<close>

definition json_uint8 :: "byte \<Rightarrow> string" where
  "json_uint8 b = nat_str (unat b)"

lemma json_uint8_eq:
  "json_uint8 a @ CHR '','' # r = json_uint8 b @ CHR '','' # r' \<longleftrightarrow> a = b \<and> r = r'"
proof -
  have "CHR '','' \<notin> set (nat_str n)" for n
    using nat_str_digits [of n] by (auto simp: list_all_iff is_digit_def)
  then show ?thesis
    by (simp add: json_uint8_def sep_unique nat_str_inj unsigned_word_eqI word_unat_eq_iff)
qed

lemma json_member_eq:
  "json_member name u @ r = json_member name v @ r' \<longleftrightarrow> u @ r = v @ r'"
  by (simp add: json_member_def)

end
