(* ===== verification/Std_Catalog.thy ===== *)
theory Std_Catalog
  imports Go_Json
begin

text \<open>
  The catalog of the eBUS standard services: its data (\<open>catalog.go\<close>, \<open>identity.go\<close>) and the
  validation the loader runs after \<open>yaml.Unmarshal\<close> (\<open>loader_yaml.go\<close>). The YAML decoder is a
  parameter; a field the code declares as a pointer or that may be a nil slice is an option.

  An error carries what its text names, except for the ambiguous length selector: the code reports
  the first offending bucket of a map in iteration order, so here it carries nothing.
\<close>

section \<open>Data\<close>

record std_parameter =
  par_name :: string
  par_type :: string
  par_description :: string

record catalog_identity_key =
  ik_namespace :: string
  ik_pb :: "byte option"
  ik_sb :: "byte option"
  ik_selector_path :: string
  ik_telegram_class :: string
  ik_direction :: string
  ik_role :: string
  ik_addressing :: string
  ik_answer_policy :: string
  ik_length_prefix_mode :: string
  ik_selector_decoder :: string
  ik_service_variant :: string
  ik_transport_requirements :: "string list option"
  ik_version :: string

record std_command =
  sc_id :: string
  sc_name :: string
  sc_description :: string
  sc_identity :: catalog_identity_key
  sc_safety_class :: string
  sc_request :: "std_parameter list"
  sc_response :: "std_parameter list"

record std_service =
  ss_pb :: "byte option"
  ss_name :: string
  ss_description :: string
  ss_commands :: "std_command list"

record std_catalog =
  sk_namespace :: string
  sk_version :: string
  sk_plan_sha256 :: string
  sk_services :: "std_service list"
  sk_content_sha256 :: string

definition std_namespace :: string where
  "std_namespace = ''ebus_standard''"

definition telegram_classes :: "string list" where
  "telegram_classes = [''addressed'', ''broadcast'', ''initiator_initiator'', ''controller_broadcast'']"

definition directions :: "string list" where
  "directions = [''request'', ''response'']"

definition roles :: "string list" where
  "roles = [''initiator'', ''responder'', ''originator'']"

definition addressings :: "string list" where
  "addressings = [''addressed'', ''broadcast'']"

definition answer_policies :: "string list" where
  "answer_policies = [''answer_required'', ''no_answer'']"

definition length_prefix_modes :: "string list" where
  "length_prefix_modes = [''none'', ''fixed'', ''byte_prefix'', ''typed_payload'']"

definition safety_classes :: "string list" where
  "safety_classes =
     [''read_only_safe'', ''read_only_bus_load'', ''mutating'', ''destructive'', ''broadcast'', ''memory_write'']"

text \<open>\<open>PBValue\<close> and \<open>SBValue\<close>: 0 for an absent byte.\<close>

definition byte_or_zero :: "byte option \<Rightarrow> byte" where
  "byte_or_zero b = (case b of None \<Rightarrow> 0 | Some x \<Rightarrow> x)"

definition is_complete :: "catalog_identity_key \<Rightarrow> bool" where
  "is_complete k \<longleftrightarrow>
     (if ik_namespace k = [] then False
      else if ik_pb k = None then False
      else if ik_sb k = None then False
      else if ik_telegram_class k = [] then False
      else if ik_direction k = [] then False
      else if ik_role k = [] then False
      else if ik_addressing k = [] then False
      else if ik_answer_policy k = [] then False
      else if ik_length_prefix_mode k = [] then False
      else if ik_selector_decoder k = [] then False
      else if ik_service_variant k = [] then False
      else if ik_transport_requirements k = None then False
      else if ik_version k = [] then False
      else True)"

section \<open>Validation of a command\<close>

datatype 'e catalog_error =
    YamlError 'e
  | ErrCatalogMissingServices
  | ErrServiceMissingPB string
  | ErrServiceMissingCommands string byte
  | ErrIncompleteIdentityKey string
  | ErrInvalidNamespace string string
  | ErrServicePBMismatch string byte string byte
  | ErrUnknownSafetyClass string string
  | ErrUnknownEnumValue string string string
  | ErrDuplicateIdentityKey string string string
  | ErrAmbiguousLengthSelector

text \<open>The next check runs when this one returned nil.\<close>

definition or_else :: "'e option \<Rightarrow> 'e option \<Rightarrow> 'e option" where
  "or_else a b = (case a of None \<Rightarrow> b | Some e \<Rightarrow> Some e)"

lemma or_else_None [simp]: "or_else a b = None \<longleftrightarrow> a = None \<and> b = None"
  by (simp add: or_else_def split: option.splits)

definition check_enum :: "string \<Rightarrow> string \<Rightarrow> string \<Rightarrow> string list \<Rightarrow> 'e catalog_error option" where
  "check_enum cmd_id field value allowed =
     (if value \<in> set allowed then None else Some (ErrUnknownEnumValue cmd_id field value))"

definition validate_identity_enums :: "string \<Rightarrow> catalog_identity_key \<Rightarrow> 'e catalog_error option" where
  "validate_identity_enums cmd_id k =
     or_else (check_enum cmd_id ''telegram_class'' (ik_telegram_class k) telegram_classes)
     (or_else (check_enum cmd_id ''direction'' (ik_direction k) directions)
     (or_else (check_enum cmd_id ''request_or_response_role'' (ik_role k) roles)
     (or_else (check_enum cmd_id ''broadcast_or_addressed'' (ik_addressing k) addressings)
     (or_else (check_enum cmd_id ''answer_policy'' (ik_answer_policy k) answer_policies)
              (check_enum cmd_id ''length_prefix_mode'' (ik_length_prefix_mode k) length_prefix_modes)))))"

definition validate_namespace :: "string \<Rightarrow> catalog_identity_key \<Rightarrow> 'e catalog_error option" where
  "validate_namespace cmd_id k =
     (if ik_namespace k \<noteq> std_namespace then Some (ErrInvalidNamespace cmd_id (ik_namespace k)) else None)"

definition is_known_safety_class :: "string \<Rightarrow> bool" where
  "is_known_safety_class s \<longleftrightarrow> s \<in> set safety_classes"

definition check_command :: "std_service \<Rightarrow> std_command \<Rightarrow> 'e catalog_error option" where
  "check_command svc cmd =
     (let k = sc_identity cmd
      in if \<not> is_complete k then Some (ErrIncompleteIdentityKey (sc_id cmd))
         else or_else (validate_namespace (sc_id cmd) k)
           (if byte_or_zero (ik_pb k) \<noteq> byte_or_zero (ss_pb svc) then
              Some (ErrServicePBMismatch (ss_name svc) (byte_or_zero (ss_pb svc)) (sc_id cmd)
                      (byte_or_zero (ik_pb k)))
            else if \<not> is_known_safety_class (sc_safety_class cmd) then
              Some (ErrUnknownSafetyClass (sc_id cmd) (sc_safety_class cmd))
            else validate_identity_enums (sc_id cmd) k))"

fun check_commands :: "std_service \<Rightarrow> std_command list \<Rightarrow> 'e catalog_error option" where
  "check_commands svc [] = None"
| "check_commands svc (cmd # cmds) = or_else (check_command svc cmd) (check_commands svc cmds)"

definition check_service :: "std_service \<Rightarrow> 'e catalog_error option" where
  "check_service svc =
     (if ss_pb svc = None then Some (ErrServiceMissingPB (ss_name svc))
      else if ss_commands svc = [] then
        Some (ErrServiceMissingCommands (ss_name svc) (byte_or_zero (ss_pb svc)))
      else check_commands svc (ss_commands svc))"

fun check_services :: "std_service list \<Rightarrow> 'e catalog_error option" where
  "check_services [] = None"
| "check_services (svc # svcs) = or_else (check_service svc) (check_services svcs)"

section \<open>Collisions between commands\<close>

text \<open>The commands in the order of the two nested loops.\<close>

definition catalog_commands :: "std_catalog \<Rightarrow> std_command list" where
  "catalog_commands cat = concat (map ss_commands (sk_services cat))"

definition identity_key_fingerprint :: "catalog_identity_key \<Rightarrow> string" where
  "identity_key_fingerprint k =
     ''{'' @ json_member ''Namespace'' (json_string (ik_namespace k))
     @ '','' @ json_member ''PB'' (json_uint8 (byte_or_zero (ik_pb k)))
     @ '','' @ json_member ''SB'' (json_uint8 (byte_or_zero (ik_sb k)))
     @ '','' @ json_member ''SelectorPath'' (json_string (ik_selector_path k))
     @ '','' @ json_member ''TelegramClass'' (json_string (ik_telegram_class k))
     @ '','' @ json_member ''Direction'' (json_string (ik_direction k))
     @ '','' @ json_member ''RequestOrResponseRole'' (json_string (ik_role k))
     @ '','' @ json_member ''BroadcastOrAddressed'' (json_string (ik_addressing k))
     @ '','' @ json_member ''AnswerPolicy'' (json_string (ik_answer_policy k))
     @ '','' @ json_member ''LengthPrefixMode'' (json_string (ik_length_prefix_mode k))
     @ '','' @ json_member ''SelectorDecoder'' (json_string (ik_selector_decoder k))
     @ '','' @ json_member ''ServiceVariant'' (json_string (ik_service_variant k))
     @ '','' @ json_member ''TransportCapabilityRequirements''
                 (json_slice json_string (ik_transport_requirements k))
     @ '','' @ json_member ''Version'' (json_string (ik_version k)) @ ''}''"

fun detect_duplicates :: "(string, string) gomap \<Rightarrow> std_command list \<Rightarrow> 'e catalog_error option" where
  "detect_duplicates seen [] = None"
| "detect_duplicates seen (cmd # cmds) =
     (let fp = identity_key_fingerprint (sc_identity cmd)
      in case gm_get seen fp of
           Some prev \<Rightarrow> Some (ErrDuplicateIdentityKey (sc_id cmd) prev fp)
         | None \<Rightarrow> detect_duplicates (gm_put fp (sc_id cmd) seen) cmds)"

definition detect_duplicate_identity_keys :: "std_catalog \<Rightarrow> 'e catalog_error option" where
  "detect_duplicate_identity_keys cat = detect_duplicates [] (catalog_commands cat)"

definition selector_decoder_axis :: "catalog_identity_key \<Rightarrow> string" where
  "selector_decoder_axis k = (if ik_selector_decoder k = [] then ''none'' else ik_selector_decoder k)"

definition selector_path_axis :: "catalog_identity_key \<Rightarrow> string" where
  "selector_path_axis k = (if selector_decoder_axis k = ''none'' then [] else ik_selector_path k)"

definition selector_bucket :: "catalog_identity_key \<Rightarrow> string" where
  "selector_bucket k =
     ''{'' @ json_member ''Namespace'' (json_string (ik_namespace k))
     @ '','' @ json_member ''PB'' (json_uint8 (byte_or_zero (ik_pb k)))
     @ '','' @ json_member ''SB'' (json_uint8 (byte_or_zero (ik_sb k)))
     @ '','' @ json_member ''Decoder'' (json_string (selector_decoder_axis k))
     @ '','' @ json_member ''SelectorPath'' (json_string (selector_path_axis k))
     @ '','' @ json_member ''Direction'' (json_string (ik_direction k))
     @ '','' @ json_member ''RequestOrResponseRole'' (json_string (ik_role k)) @ ''}''"

text \<open>The entries of a bucket are the commands put in it; the code keeps their id and length mode.\<close>

fun fill_buckets ::
  "(string, (string \<times> string) list) gomap \<Rightarrow> std_command list \<Rightarrow> (string, (string \<times> string) list) gomap" where
  "fill_buckets buckets [] = buckets"
| "fill_buckets buckets (cmd # cmds) =
     (let key = selector_bucket (sc_identity cmd);
          entries = (case gm_get buckets key of None \<Rightarrow> [] | Some es \<Rightarrow> es)
      in fill_buckets
           (gm_put key (entries @ [(sc_id cmd, ik_length_prefix_mode (sc_identity cmd))]) buckets) cmds)"

definition ambiguous_bucket :: "(string \<times> string) list \<Rightarrow> bool" where
  "ambiguous_bucket entries \<longleftrightarrow>
     (case entries of [] \<Rightarrow> False | (_, first) # rest \<Rightarrow> list_ex (\<lambda>(_, lpm). lpm \<noteq> first) rest)"

definition detect_ambiguous_length_selectors :: "std_catalog \<Rightarrow> 'e catalog_error option" where
  "detect_ambiguous_length_selectors cat =
     (if list_ex (\<lambda>(_, entries). ambiguous_bucket entries) (fill_buckets [] (catalog_commands cat))
      then Some ErrAmbiguousLengthSelector else None)"

section \<open>Loading\<close>

text \<open>\<open>unmarshal\<close> is \<open>yaml.Unmarshal\<close> into an empty catalog, \<open>sha256_hex\<close> the hexadecimal SHA-256 of the document.\<close>

definition load_catalog ::
  "(string \<Rightarrow> 'e + std_catalog) \<Rightarrow> (string \<Rightarrow> string) \<Rightarrow> string \<Rightarrow> 'e catalog_error + std_catalog" where
  "load_catalog unmarshal sha256_hex data =
     (case unmarshal data of
        Inl e \<Rightarrow> Inl (YamlError e)
      | Inr doc \<Rightarrow>
          (let cat = (if sk_namespace doc = [] then doc\<lparr>sk_namespace := std_namespace\<rparr> else doc)
           in if sk_services cat = [] then Inl ErrCatalogMissingServices
              else case or_else (check_services (sk_services cat))
                          (or_else (detect_duplicate_identity_keys cat)
                             (detect_ambiguous_length_selectors cat)) of
                     Some e \<Rightarrow> Inl e
                   | None \<Rightarrow> Inr (cat\<lparr>sk_content_sha256 := sha256_hex data\<rparr>)))"

section \<open>Keys\<close>

definition identity_texts :: "catalog_identity_key \<Rightarrow> string list" where
  "identity_texts k =
     [ik_namespace k, ik_selector_path k, ik_telegram_class k, ik_direction k, ik_role k,
      ik_addressing k, ik_answer_policy k, ik_length_prefix_mode k, ik_selector_decoder k,
      ik_service_variant k, ik_version k]"

definition identity_all :: "(string \<Rightarrow> bool) \<Rightarrow> catalog_identity_key \<Rightarrow> bool" where
  "identity_all ok k \<longleftrightarrow> list_all ok (identity_texts k) \<and> pred_option (list_all ok) (ik_transport_requirements k)"

definition identity_utf8 :: "catalog_identity_key \<Rightarrow> bool" where
  "identity_utf8 = identity_all valid_utf8"

text \<open>
  The identity with the malformed bytes of its texts marked: a YAML document is UTF-8, but an escape or a
  \<open>!!binary\<close> scalar can give any text.
\<close>

definition identity_marked :: "catalog_identity_key \<Rightarrow> catalog_identity_key" where
  "identity_marked k =
     k\<lparr>ik_namespace := utf8_marked (ik_namespace k), ik_selector_path := utf8_marked (ik_selector_path k),
       ik_telegram_class := utf8_marked (ik_telegram_class k), ik_direction := utf8_marked (ik_direction k),
       ik_role := utf8_marked (ik_role k), ik_addressing := utf8_marked (ik_addressing k),
       ik_answer_policy := utf8_marked (ik_answer_policy k),
       ik_length_prefix_mode := utf8_marked (ik_length_prefix_mode k),
       ik_selector_decoder := utf8_marked (ik_selector_decoder k),
       ik_service_variant := utf8_marked (ik_service_variant k),
       ik_transport_requirements := map_option (map utf8_marked) (ik_transport_requirements k),
       ik_version := utf8_marked (ik_version k)\<rparr>"

definition identity_plain :: "catalog_identity_key \<Rightarrow> bool" where
  "identity_plain = identity_all (\<lambda>s. utf8_marked s = s)"

lemma identity_utf8_plain: "identity_utf8 k \<Longrightarrow> identity_plain k"
  unfolding identity_utf8_def identity_plain_def identity_all_def
  by (auto simp: list_all_iff utf8_marked_valid pred_option_def)

lemma identity_plain_marked: "identity_plain k \<Longrightarrow> identity_marked k = k"
  unfolding identity_plain_def identity_all_def
  by (cases "ik_transport_requirements k")
    (auto simp: identity_texts_def identity_marked_def list_all_iff intro!: catalog_identity_key.equality map_idI)

lemma identity_marked_plain: "identity_plain (identity_marked k)"
  by (cases "ik_transport_requirements k")
    (simp_all add: identity_plain_def identity_all_def identity_texts_def identity_marked_def list_all_iff)

lemma is_complete_marked [simp]: "is_complete (identity_marked k) = is_complete k"
  by (simp add: is_complete_def identity_marked_def)

lemma fingerprint_marked: "identity_key_fingerprint (identity_marked k) = identity_key_fingerprint k"
  by (cases "ik_transport_requirements k")
    (simp_all add: identity_key_fingerprint_def identity_marked_def json_string_marked json_slice_def json_array_def comp_def)

lemma identity_key_fingerprint_eq:
  assumes "identity_plain k" and "identity_plain k'"
  shows "identity_key_fingerprint k = identity_key_fingerprint k' \<longleftrightarrow>
     identity_texts k = identity_texts k' \<and> ik_transport_requirements k = ik_transport_requirements k' \<and>
     byte_or_zero (ik_pb k) = byte_or_zero (ik_pb k') \<and> byte_or_zero (ik_sb k) = byte_or_zero (ik_sb k')"
  using assms
  by (auto simp: identity_key_fingerprint_def json_member_def identity_plain_def identity_all_def identity_texts_def
      jm.enc_eq jm.slice_eq json_uint8_eq jm.enc_eq [of _ _ "[]" "[]", simplified])

lemma is_complete_byte: "is_complete k \<Longrightarrow> ik_pb k = Some (byte_or_zero (ik_pb k)) \<and> ik_sb k = Some (byte_or_zero (ik_sb k))"
  by (auto simp: is_complete_def byte_or_zero_def split: if_splits option.splits)

interpretation fingerprint: keyed identity_key_fingerprint "\<lambda>k. is_complete k \<and> identity_plain k"
proof
  fix k k' :: catalog_identity_key
  assume k: "is_complete k \<and> identity_plain k" "is_complete k' \<and> identity_plain k'"
    and "identity_key_fingerprint k = identity_key_fingerprint k'"
  then have eq: "identity_texts k = identity_texts k'" "ik_transport_requirements k = ik_transport_requirements k'"
    "byte_or_zero (ik_pb k) = byte_or_zero (ik_pb k')" "byte_or_zero (ik_sb k) = byte_or_zero (ik_sb k')"
    by (simp_all add: identity_key_fingerprint_eq)
  moreover have "ik_pb k = ik_pb k'" "ik_sb k = ik_sb k'"
    using is_complete_byte [of k] is_complete_byte [of k'] k eq by metis+
  ultimately show "k = k'" by (simp add: identity_texts_def)
qed

text \<open>What a bucket of the ambiguity check stands for.\<close>

definition selector_axes :: "catalog_identity_key \<Rightarrow> string list \<times> byte \<times> byte" where
  "selector_axes k =
     ([ik_namespace k, selector_decoder_axis k, selector_path_axis k, ik_direction k, ik_role k],
      byte_or_zero (ik_pb k), byte_or_zero (ik_sb k))"

lemma utf8_marked_none [simp]: "utf8_marked ''none'' = ''none''" "utf8_marked s = ''none'' \<longleftrightarrow> s = ''none''"
  using utf8_marked_ascii [of "''none''" s] by (simp_all add: is_ascii_def)

lemma selector_axes_marked:
  "selector_decoder_axis (identity_marked k) = utf8_marked (selector_decoder_axis k)"
  "selector_path_axis (identity_marked k) = utf8_marked (selector_path_axis k)"
  by (simp_all add: selector_decoder_axis_def selector_path_axis_def identity_marked_def del: utf8_marked.simps(2))

lemma selector_bucket_marked: "selector_bucket (identity_marked k) = selector_bucket k"
  by (simp add: selector_bucket_def selector_axes_marked json_string_marked) (simp add: identity_marked_def json_string_marked)

lemma selector_bucket_plain:
  assumes "identity_plain k" and "identity_plain k'"
  shows "selector_bucket k = selector_bucket k' \<longleftrightarrow> selector_axes k = selector_axes k'"
proof -
  have axes: "utf8_marked (selector_decoder_axis l) = selector_decoder_axis l \<and> utf8_marked (selector_path_axis l) = selector_path_axis l"
    if "identity_plain l" for l
    using that selector_axes_marked [of l] identity_plain_marked by metis
  show ?thesis
    using assms axes [OF assms(1)] axes [OF assms(2)]
    by (auto simp: selector_bucket_def selector_axes_def json_member_def identity_plain_def identity_all_def
        identity_texts_def jm.enc_eq json_uint8_eq jm.enc_eq [of _ _ "[]" "[]", simplified])
qed

lemma selector_bucket_eq:
  "selector_bucket k = selector_bucket k' \<longleftrightarrow> selector_axes (identity_marked k) = selector_axes (identity_marked k')"
  using selector_bucket_plain [OF identity_marked_plain identity_marked_plain, of k k']
  by (simp add: selector_bucket_marked)

lemma fingerprint_eq_marked:
  assumes "is_complete k" and "is_complete k'"
  shows "identity_key_fingerprint k = identity_key_fingerprint k' \<longleftrightarrow> identity_marked k = identity_marked k'"
  using fingerprint.key_eq_iff [of "identity_marked k" "identity_marked k'"] assms
  by (simp add: identity_marked_plain fingerprint_marked)

section \<open>What the collision checks find\<close>

lemma detect_duplicates_None:
  "detect_duplicates seen cmds = None \<longleftrightarrow>
     distinct (map (\<lambda>c. identity_key_fingerprint (sc_identity c)) cmds) \<and>
     (\<forall>c \<in> set cmds. gm_get seen (identity_key_fingerprint (sc_identity c)) = None)"
proof (induction cmds arbitrary: seen)
  case (Cons cmd cmds)
  let ?fp = "\<lambda>c. identity_key_fingerprint (sc_identity c)"
  show ?case
  proof (cases "gm_get seen (?fp cmd)")
    case None
    have "(\<forall>c \<in> set cmds. gm_get (gm_put (?fp cmd) (sc_id cmd) seen) (?fp c) = None) \<longleftrightarrow>
       ?fp cmd \<notin> ?fp ` set cmds \<and> (\<forall>c \<in> set cmds. gm_get seen (?fp c) = None)"
      by (simp only: gm_get_put) (metis (no_types, lifting) image_iff option.distinct(1))
    then show ?thesis by (simp add: Let_def None Cons.IH conj_ac del: gm_get_put)
  qed (simp add: Let_def)
qed simp

definition bucket_entries :: "(string, (string \<times> string) list) gomap \<Rightarrow> string \<Rightarrow> (string \<times> string) list" where
  "bucket_entries buckets key = (case gm_get buckets key of None \<Rightarrow> [] | Some es \<Rightarrow> es)"

lemma bucket_entries_put [simp]:
  "bucket_entries (gm_put k v m) j = (if j = k then v else bucket_entries m j)"
  by (simp add: bucket_entries_def)

lemma fill_buckets_Cons:
  "fill_buckets buckets (cmd # cmds) =
     fill_buckets (gm_put (selector_bucket (sc_identity cmd))
       (bucket_entries buckets (selector_bucket (sc_identity cmd)) @ [(sc_id cmd, ik_length_prefix_mode (sc_identity cmd))])
       buckets) cmds"
  by (simp add: Let_def bucket_entries_def)

lemma bucket_entries_fill:
  "bucket_entries (fill_buckets buckets cmds) key =
     bucket_entries buckets key @
     map (\<lambda>c. (sc_id c, ik_length_prefix_mode (sc_identity c))) (filter (\<lambda>c. selector_bucket (sc_identity c) = key) cmds)"
  by (induction cmds arbitrary: buckets) (simp_all add: fill_buckets_Cons del: fill_buckets.simps(2))

lemma gm_ok_fill_buckets: "gm_ok buckets \<Longrightarrow> gm_ok (fill_buckets buckets cmds)"
  by (induction buckets cmds rule: fill_buckets.induct) (simp_all add: Let_def)

lemma ambiguous_bucket_iff:
  "ambiguous_bucket es \<longleftrightarrow> (\<exists>x \<in> set es. \<exists>y \<in> set es. snd x \<noteq> snd y)"
proof (cases es)
  case (Cons e rest)
  have "ambiguous_bucket es \<longleftrightarrow> (\<exists>y \<in> set rest. snd y \<noteq> snd e)"
    by (simp add: ambiguous_bucket_def Cons list_ex_iff split_beta)
  then show ?thesis by (simp add: Cons) metis
qed (simp add: ambiguous_bucket_def)

lemma detect_ambiguous_None:
  "detect_ambiguous_length_selectors cat = None \<longleftrightarrow>
     (\<forall>c \<in> set (catalog_commands cat). \<forall>d \<in> set (catalog_commands cat).
        selector_bucket (sc_identity c) = selector_bucket (sc_identity d) \<longrightarrow>
        ik_length_prefix_mode (sc_identity c) = ik_length_prefix_mode (sc_identity d))"
proof -
  let ?cmds = "catalog_commands cat" and ?b = "fill_buckets [] (catalog_commands cat)"
  have ok: "gm_ok ?b" by (simp add: gm_ok_fill_buckets)
  have entries: "set (bucket_entries ?b key) =
      (\<lambda>c. (sc_id c, ik_length_prefix_mode (sc_identity c))) ` {c \<in> set ?cmds. selector_bucket (sc_identity c) = key}" for key
    by (simp add: bucket_entries_fill bucket_entries_def [of "[]"])
  have "list_ex (\<lambda>(_, es). ambiguous_bucket es) ?b \<longleftrightarrow> (\<exists>key. ambiguous_bucket (bucket_entries ?b key))"
  proof
    assume "list_ex (\<lambda>(_, es). ambiguous_bucket es) ?b"
    then obtain key es where "(key, es) \<in> set ?b" "ambiguous_bucket es" by (auto simp: list_ex_iff)
    then show "\<exists>key. ambiguous_bucket (bucket_entries ?b key)"
      using gm_in_get [OF ok] by (auto simp: bucket_entries_def intro!: exI [of _ key])
  next
    assume "\<exists>key. ambiguous_bucket (bucket_entries ?b key)"
    then obtain key where key: "ambiguous_bucket (bucket_entries ?b key)" by blast
    then obtain es where "gm_get ?b key = Some es" "bucket_entries ?b key = es"
      by (cases "gm_get ?b key") (auto simp: bucket_entries_def ambiguous_bucket_def)
    then show "list_ex (\<lambda>(_, es). ambiguous_bucket es) ?b"
      using key gm_get_Some_in by (fastforce simp: list_ex_iff)
  qed
  then have "detect_ambiguous_length_selectors cat = None \<longleftrightarrow> (\<forall>key. \<not> ambiguous_bucket (bucket_entries ?b key))"
    by (simp add: detect_ambiguous_length_selectors_def)
  also have "\<dots> \<longleftrightarrow> (\<forall>key. \<forall>c \<in> {c \<in> set ?cmds. selector_bucket (sc_identity c) = key}.
       \<forall>d \<in> {c \<in> set ?cmds. selector_bucket (sc_identity c) = key}.
       ik_length_prefix_mode (sc_identity c) = ik_length_prefix_mode (sc_identity d))"
    by (simp only: ambiguous_bucket_iff entries ball_simps bex_simps snd_conv not_not) blast
  finally show ?thesis by blast
qed

end
