(* ===== verification/Std_Provider.thy ===== *)
theory Std_Provider
  imports Std_Catalog
begin

text \<open>
  The provider of the eBUS standard services (\<open>provider.go\<close>) and its safety gate
  (\<open>internal/safetypolicy\<close>): the method index built from a catalog, the disable switch, the gate
  at the invoke boundary, the identification stub, and the provenance comparison.
\<close>

section \<open>The safety gate\<close>

datatype safety_caller = CallerUserFacing | CallerSystemNMRuntime

definition allow :: "string \<Rightarrow> safety_caller \<Rightarrow> bool" where
  "allow class caller \<longleftrightarrow>
     (if class = ''read_only_safe'' \<or> class = ''read_only_bus_load'' then True else False)"

text \<open>A caller context is an integer of the caller; only 1 is the network-management runtime.\<close>

type_synonym caller_context = int64

definition caller_context_system_nm_runtime :: caller_context where
  "caller_context_system_nm_runtime = 1"

definition to_internal :: "caller_context \<Rightarrow> safety_caller" where
  "to_internal c = (if c = caller_context_system_nm_runtime then CallerSystemNMRuntime else CallerUserFacing)"

section \<open>Construction\<close>

datatype provider_error =
    ErrProviderDisabled
  | ErrUnknownMethod string
  | ErrSafetyClassDenied string string
  | ErrDuplicateMethodID string string string
  | ErrEmptyMethodID string string

record std_provider =
  sp_catalog :: std_catalog
  sp_method_idx :: "(string, std_command) gomap"
  sp_enabled :: bool

fun index_commands ::
  "string \<Rightarrow> (string, std_command) gomap \<Rightarrow> std_command list \<Rightarrow> provider_error + (string, std_command) gomap" where
  "index_commands svc idx [] = Inr idx"
| "index_commands svc idx (cmd # cmds) =
     (if sc_id cmd = [] then Inl (ErrEmptyMethodID svc (sc_name cmd))
      else case gm_get idx (sc_id cmd) of
             Some prev \<Rightarrow> Inl (ErrDuplicateMethodID (sc_id cmd) (sc_name prev) (sc_name cmd))
           | None \<Rightarrow> index_commands svc (gm_put (sc_id cmd) cmd idx) cmds)"

fun index_services ::
  "(string, std_command) gomap \<Rightarrow> std_service list \<Rightarrow> provider_error + (string, std_command) gomap" where
  "index_services idx [] = Inr idx"
| "index_services idx (svc # svcs) =
     (case index_commands (ss_name svc) idx (ss_commands svc) of
        Inl e \<Rightarrow> Inl e
      | Inr idx' \<Rightarrow> index_services idx' svcs)"

definition new_provider :: "std_catalog \<Rightarrow> bool \<Rightarrow> provider_error + std_provider" where
  "new_provider cat enabled =
     (case index_services [] (sk_services cat) of
        Inl e \<Rightarrow> Inl e
      | Inr idx \<Rightarrow> Inr \<lparr>sp_catalog = cat, sp_method_idx = idx, sp_enabled = enabled\<rparr>)"

definition disable_env_var :: string where
  "disable_env_var = ''EBUS_STANDARD_PROVIDER_ENABLED''"

definition env_enabled :: "string \<Rightarrow> bool" where
  "env_enabled v =
     (let s = to_lower (trim_space v) in if s = ''0'' \<or> s = ''false'' then False else True)"

text \<open>\<open>getenv\<close> is the process environment; an unset variable is the empty string.\<close>

definition new_provider_from_env :: "(string \<Rightarrow> string) \<Rightarrow> std_catalog \<Rightarrow> provider_error + std_provider" where
  "new_provider_from_env getenv cat = new_provider cat (env_enabled (getenv disable_env_var))"

section \<open>Calls\<close>

text \<open>A nil receiver is \<open>None\<close>.\<close>

definition is_enabled :: "std_provider option \<Rightarrow> bool" where
  "is_enabled p = (case p of None \<Rightarrow> False | Some q \<Rightarrow> sp_enabled q)"

datatype descriptor_value = DescText string | DescBool bool

type_synonym descriptor = "(string, descriptor_value) gomap"

definition invoke_descriptor :: "std_catalog \<Rightarrow> std_command \<Rightarrow> descriptor" where
  "invoke_descriptor cat cmd =
     [(''method_id'', DescText (sc_id cmd)),
      (''safety_class'', DescText (sc_safety_class cmd)),
      (''catalog_version'', DescText (sk_version cat)),
      (''executed'', DescBool False)]"

text \<open>The context and the parameters of a call are not looked at.\<close>

definition provider_invoke :: "std_provider option \<Rightarrow> string \<Rightarrow> caller_context \<Rightarrow> provider_error + descriptor" where
  "provider_invoke p method_id caller =
     (case p of
        None \<Rightarrow> Inl ErrProviderDisabled
      | Some q \<Rightarrow>
          if \<not> sp_enabled q then Inl ErrProviderDisabled
          else case gm_get (sp_method_idx q) method_id of
                 None \<Rightarrow> Inl (ErrUnknownMethod method_id)
               | Some cmd \<Rightarrow>
                   if \<not> allow (sc_safety_class cmd) (to_internal caller)
                   then Inl (ErrSafetyClassDenied method_id (sc_safety_class cmd))
                   else Inr (invoke_descriptor (sp_catalog q) cmd))"

record identification_descriptor =
  idd_manufacturer :: string
  idd_device_id :: string
  idd_software_version :: string
  idd_hardware_version :: string
  idd_source :: string
  idd_catalog_version :: string
  idd_valid :: bool

definition source_device_info :: string where
  "source_device_info = ''device_info''"

definition source_ebus_standard_ident :: string where
  "source_ebus_standard_ident = ''ebus_standard.identification''"

definition identification :: "std_provider option \<Rightarrow> provider_error + identification_descriptor" where
  "identification p =
     (case p of
        None \<Rightarrow> Inl ErrProviderDisabled
      | Some q \<Rightarrow>
          if \<not> sp_enabled q then Inl ErrProviderDisabled
          else Inr \<lparr>idd_manufacturer = [], idd_device_id = [], idd_software_version = [],
                    idd_hardware_version = [], idd_source = source_ebus_standard_ident,
                    idd_catalog_version = sk_version (sp_catalog q), idd_valid = False\<rparr>)"

section \<open>Provenance\<close>

record provider_device_info =
  pdi_manufacturer :: string
  pdi_device_id :: string
  pdi_software_version :: string
  pdi_hardware_version :: string

record identity_source_value =
  isv_source :: string
  isv_value :: string
  isv_valid :: bool

record field_provenance =
  fp_preferred :: string
  fp_sources :: "identity_source_value list"
  fp_agreement :: bool

record provenance_record =
  prov_manufacturer :: field_provenance
  prov_device_id :: field_provenance
  prov_software_version :: field_provenance
  prov_hardware_version :: field_provenance

definition merge_field :: "bool \<Rightarrow> string \<Rightarrow> string \<Rightarrow> field_provenance" where
  "merge_field desc_valid existing_val desc_val =
     (let srcs = (if existing_val \<noteq> []
                  then [\<lparr>isv_source = source_device_info, isv_value = existing_val, isv_valid = True\<rparr>] else []);
          srcs = (if desc_val \<noteq> []
                  then srcs @ [\<lparr>isv_source = source_ebus_standard_ident, isv_value = desc_val, isv_valid = desc_valid\<rparr>]
                  else srcs);
          preferred = (if existing_val = [] \<and> desc_valid then desc_val else existing_val)
      in \<lparr>fp_preferred = preferred, fp_sources = srcs,
          fp_agreement = (existing_val = [] \<or> desc_val = [] \<or> existing_val = desc_val)\<rparr>)"

definition compare_identity :: "provider_device_info \<Rightarrow> identification_descriptor \<Rightarrow> provenance_record" where
  "compare_identity existing desc =
     \<lparr>prov_manufacturer = merge_field (idd_valid desc) (pdi_manufacturer existing) (idd_manufacturer desc),
      prov_device_id = merge_field (idd_valid desc) (pdi_device_id existing) (idd_device_id desc),
      prov_software_version = merge_field (idd_valid desc) (pdi_software_version existing) (idd_software_version desc),
      prov_hardware_version = merge_field (idd_valid desc) (pdi_hardware_version existing) (idd_hardware_version desc)\<rparr>"

section \<open>The method index\<close>

lemma index_commands_Inr:
  "index_commands svc idx cmds = Inr idx' \<Longrightarrow>
     (\<forall>c \<in> set cmds. sc_id c \<noteq> [] \<and> gm_get idx (sc_id c) = None) \<and> distinct (map sc_id cmds) \<and>
     (\<forall>k. gm_get idx' k = (case gm_get idx k of Some c \<Rightarrow> Some c | None \<Rightarrow> find (\<lambda>c. sc_id c = k) cmds))"
proof (induction cmds arbitrary: idx)
  case Nil
  then show ?case by (auto split: option.splits)
next
  case (Cons cmd cmds)
  then have hd: "sc_id cmd \<noteq> []" "gm_get idx (sc_id cmd) = None"
    "index_commands svc (gm_put (sc_id cmd) cmd idx) cmds = Inr idx'"
    by (auto split: if_splits option.splits)
  from Cons.IH [OF hd(3)] have IH: "\<forall>c \<in> set cmds. sc_id c \<noteq> [] \<and> gm_get (gm_put (sc_id cmd) cmd idx) (sc_id c) = None"
    "distinct (map sc_id cmds)"
    "\<And>k. gm_get idx' k = (case gm_get (gm_put (sc_id cmd) cmd idx) k of Some c \<Rightarrow> Some c
                            | None \<Rightarrow> find (\<lambda>c. sc_id c = k) cmds)"
    by blast+
  from IH(1) have "\<forall>c \<in> set cmds. sc_id c \<noteq> [] \<and> sc_id c \<noteq> sc_id cmd \<and> gm_get idx (sc_id c) = None"
    by (metis gm_get_put option.distinct(1))
  then show ?case using IH(2) hd by (auto simp: IH(3) split: option.splits)
qed

lemma index_commands_complete:
  "\<forall>c \<in> set cmds. sc_id c \<noteq> [] \<and> gm_get idx (sc_id c) = None \<Longrightarrow> distinct (map sc_id cmds) \<Longrightarrow>
     \<exists>idx'. index_commands svc idx cmds = Inr idx'"
proof (induction cmds arbitrary: idx)
  case (Cons cmd cmds)
  have "\<forall>c \<in> set cmds. sc_id c \<noteq> [] \<and> gm_get (gm_put (sc_id cmd) cmd idx) (sc_id c) = None"
    using Cons.prems by (auto simp: image_iff eq_commute [of "sc_id cmd"])
  from Cons.IH [OF this] Cons.prems show ?case by simp
qed simp

lemma index_services_flat:
  "index_services idx svcs = Inr idx' \<longleftrightarrow> index_commands any idx (concat (map ss_commands svcs)) = Inr idx'"
proof (induction svcs arbitrary: idx)
  case (Cons svc svcs)
  have app: "index_commands any i (xs @ ys) = Inr j \<longleftrightarrow>
      (\<exists>i'. index_commands name i xs = Inr i' \<and> index_commands any i' ys = Inr j)" for i j xs ys name
    by (induction xs arbitrary: i) (auto split: option.splits)
  show ?case
    by (simp add: Cons.IH app [of _ _ _ _ "ss_name svc"] split: sum.splits)
qed simp

lemma new_provider_Inr:
  "new_provider cat enabled = Inr p \<Longrightarrow>
     sp_catalog p = cat \<and> sp_enabled p = enabled \<and>
     (\<forall>k. gm_get (sp_method_idx p) k = find (\<lambda>c. sc_id c = k) (catalog_commands cat))"
  using index_commands_Inr [of _ "[]" "catalog_commands cat"]
  by (auto simp: new_provider_def catalog_commands_def index_services_flat [of _ _ _ "[]"] split: sum.splits)

lemma new_provider_succeeds:
  "(\<exists>p. new_provider cat enabled = Inr p) \<longleftrightarrow>
     [] \<notin> set (map sc_id (catalog_commands cat)) \<and> distinct (map sc_id (catalog_commands cat))"
proof -
  have "(\<exists>p. new_provider cat enabled = Inr p) \<longleftrightarrow> (\<exists>idx. index_commands [] [] (catalog_commands cat) = Inr idx)"
    by (auto simp: new_provider_def catalog_commands_def index_services_flat [of _ _ _ "[]", symmetric] split: sum.splits)
  moreover have "[] \<notin> set (map sc_id cmds) \<longleftrightarrow> (\<forall>c \<in> set cmds. sc_id c \<noteq> [])" for cmds :: "std_command list"
    by force
  ultimately show ?thesis
    using index_commands_Inr [of "[]" "[]" "catalog_commands cat"]
      index_commands_complete [of "catalog_commands cat" "[]" "[]"] by (simp only: gm_get_Nil) blast
qed

end
