(* ===== verification/Std_Properties.thy ===== *)
theory Std_Properties
  imports Std_Provider
begin

text \<open>
  The properties of the catalog of standard services and of its provider: which documents load,
  which identities collide, which calls pass the gate, and what the provenance record keeps.
\<close>

section \<open>Identities\<close>

text \<open>(C25)
  The fingerprint is injective on the identities a loaded document may have: two complete identities
  of UTF-8 texts have the same JSON text only when all fourteen fields agree, whatever quotes,
  backslashes, delimiters or list boundaries their texts contain.
\<close>

theorem fingerprint_injective:
  assumes "is_complete k" "identity_utf8 k" and "is_complete k'" "identity_utf8 k'"
  shows "identity_key_fingerprint k = identity_key_fingerprint k' \<longleftrightarrow> k = k'"
  using assms by (intro fingerprint.key_eq_iff) (simp_all add: identity_utf8_plain)

definition sample_identity :: "string \<Rightarrow> string \<Rightarrow> catalog_identity_key" where
  "sample_identity variant lpm =
     \<lparr>ik_namespace = ''ebus_standard'', ik_pb = Some 0x07, ik_sb = Some 0x04, ik_selector_path = [],
      ik_telegram_class = ''addressed'', ik_direction = ''request'', ik_role = ''initiator'',
      ik_addressing = ''addressed'', ik_answer_policy = ''answer_required'',
      ik_length_prefix_mode = lpm, ik_selector_decoder = ''none'', ik_service_variant = variant,
      ik_transport_requirements = Some [''a'', ''b''], ik_version = ''v1''\<rparr>"

lemma sample_identity_ok [simp]:
  "list_all is_ascii variant \<Longrightarrow> variant \<noteq> [] \<Longrightarrow> list_all is_ascii lpm \<Longrightarrow> lpm \<noteq> [] \<Longrightarrow>
     is_complete (sample_identity variant lpm) \<and> identity_utf8 (sample_identity variant lpm)"
  by (simp add: sample_identity_def is_complete_def identity_utf8_def identity_all_def identity_texts_def valid_utf8_ascii is_ascii_def
      del: valid_utf8.simps)

theorem fingerprint_injective_witness:
  "identity_key_fingerprint (sample_identity ''a|sv=b'' ''none'') \<noteq> identity_key_fingerprint (sample_identity ''a'' ''none'')"
proof -
  have "is_complete (sample_identity v ''none'') \<and> identity_utf8 (sample_identity v ''none'')"
    if "v \<in> {''a|sv=b'', ''a''}" for v
    by (rule sample_identity_ok) (use that in \<open>auto simp: is_ascii_def\<close>)
  then have "is_complete (sample_identity ''a|sv=b'' ''none'')" "identity_utf8 (sample_identity ''a|sv=b'' ''none'')"
    "is_complete (sample_identity ''a'' ''none'')" "identity_utf8 (sample_identity ''a'' ''none'')"
    by simp_all
  from fingerprint_injective [OF this] show ?thesis by (simp add: sample_identity_def)
qed

text \<open>
  The restriction to UTF-8 is needed: \<open>json.Marshal\<close> writes every malformed byte as the same escape,
  so two identities that differ in such a byte have one fingerprint.
\<close>

theorem fingerprint_merges_malformed_texts:
  "sample_identity [CHR 0xFE] ''none'' \<noteq> sample_identity [CHR 0xFF] ''none'' \<and>
   identity_key_fingerprint (sample_identity [CHR 0xFE] ''none'') = identity_key_fingerprint (sample_identity [CHR 0xFF] ''none'')"
proof -
  have "json_string [CHR 0xFE] = json_string [CHR 0xFF]"
    by (simp add: json_string_def is_ascii_def utf8_trailing_def utf8_ranges_def char_in_def)
  then show ?thesis by (simp add: sample_identity_def identity_key_fingerprint_def)
qed

section \<open>Loading\<close>










text \<open>A document with one service of two commands.\<close>

definition sample_command :: "string \<Rightarrow> string \<Rightarrow> string \<Rightarrow> std_command" where
  "sample_command cmd_id variant class =
     \<lparr>sc_id = cmd_id, sc_name = ''command'', sc_description = [], sc_identity = sample_identity variant ''none'',
      sc_safety_class = class, sc_request = [], sc_response = []\<rparr>"

definition sample_catalog :: std_catalog where
  "sample_catalog =
     \<lparr>sk_namespace = [], sk_version = ''v1'', sk_plan_sha256 = [],
      sk_services =
        [\<lparr>ss_pb = Some 0x07, ss_name = ''system'', ss_description = [],
          ss_commands = [sample_command ''identification'' ''a'' ''read_only_safe'',
                         sample_command ''reset'' ''b'' ''destructive'']\<rparr>],
      sk_content_sha256 = []\<rparr>"

lemma sample_catalog_commands [simp]:
  "catalog_commands sample_catalog =
     [sample_command ''identification'' ''a'' ''read_only_safe'', sample_command ''reset'' ''b'' ''destructive'']"
  by (simp add: catalog_commands_def sample_catalog_def)



section \<open>Calls\<close>

text \<open>  A provider can be built exactly from a catalog whose method ids are not empty and all different;
  the method index then finds what a linear search of the catalog finds.
\<close>

theorem provider_constructible_exact:
  "((\<exists>p. new_provider cat enabled = Inr p) \<longleftrightarrow>
      [] \<notin> set (map sc_id (catalog_commands cat)) \<and> distinct (map sc_id (catalog_commands cat))) \<and>
   (case new_provider cat enabled of
      Inl e \<Rightarrow> True
    | Inr p \<Rightarrow> sp_catalog p = cat \<and> sp_enabled p = enabled \<and>
        gm_get (sp_method_idx p) = (\<lambda>method_id. find (\<lambda>c. sc_id c = method_id) (catalog_commands cat)))"
  using new_provider_succeeds [of cat enabled] new_provider_Inr [of cat enabled]
  by (auto simp: fun_eq_iff split: sum.splits)

text \<open>(C26)
  What a call returns, for every environment, method and caller: disabled when the switch reads 0 or
  false in any case and with any space around it, unknown when no command has the id, denied unless
  the command is one of the two read-only classes, whoever calls, and else the descriptor of that one
  command, marked as not executed. In particular no caller context admits a mutating, destructive,
  broadcast or memory-writing command, nor one of a class the gate does not know.
\<close>

theorem provider_dispatch_exact:
  assumes "new_provider_from_env getenv cat = Inr p"
  shows "provider_invoke (Some p) method_id caller =
     (if to_lower (trim_space (getenv disable_env_var)) \<in> {''0'', ''false''} then Inl ErrProviderDisabled
      else case find (\<lambda>c. sc_id c = method_id) (catalog_commands cat) of
             None \<Rightarrow> Inl (ErrUnknownMethod method_id)
           | Some cmd \<Rightarrow>
               if sc_safety_class cmd \<in> {''read_only_safe'', ''read_only_bus_load''}
               then Inr (invoke_descriptor cat cmd)
               else Inl (ErrSafetyClassDenied method_id (sc_safety_class cmd)))"
  using new_provider_Inr [OF assms [unfolded new_provider_from_env_def]]
  by (auto simp: provider_invoke_def allow_def env_enabled_def Let_def split: option.splits)

theorem provider_dispatch_exact_witness:
  "\<exists>p. new_provider_from_env (\<lambda>_. []) sample_catalog = Inr p \<and>
     provider_invoke (Some p) ''reset'' caller_context_system_nm_runtime = Inl (ErrSafetyClassDenied ''reset'' ''destructive'') \<and>
     (\<exists>d. provider_invoke (Some p) ''identification'' 0 = Inr d)"
proof -
  have "env_enabled []" by (simp add: env_enabled_def to_lower_def trim_space_def trim_by_def)
  obtain p where p: "new_provider_from_env (\<lambda>_. []) sample_catalog = Inr p"
    using new_provider_succeeds [of sample_catalog "env_enabled []"]
    by (auto simp: new_provider_from_env_def sample_command_def)
  have blank: "to_lower (trim_space []) = []" by (simp add: to_lower_def trim_space_def trim_by_def)
  show ?thesis
    using p provider_dispatch_exact [OF p, of "''reset''" caller_context_system_nm_runtime]
      provider_dispatch_exact [OF p, of "''identification''" 0]
    by (simp add: blank sample_command_def)
qed

section \<open>Provenance\<close>

definition provenance_fields ::
  "provenance_record \<Rightarrow> provider_device_info \<Rightarrow> identification_descriptor \<Rightarrow> (field_provenance \<times> string \<times> string) list" where
  "provenance_fields r existing desc =
     [(prov_manufacturer r, pdi_manufacturer existing, idd_manufacturer desc),
      (prov_device_id r, pdi_device_id existing, idd_device_id desc),
      (prov_software_version r, pdi_software_version existing, idd_software_version desc),
      (prov_hardware_version r, pdi_hardware_version existing, idd_hardware_version desc)]"

text \<open>  Every field of a provenance record keeps exactly the non-empty values, the registry's first; prefers
  the value of the first valid source, so an invalid descriptor never becomes the preferred value; and
  reports disagreement exactly when two kept values differ.
\<close>

theorem compare_identity_precedence:
  "list_all (\<lambda>(f, existing_val, desc_val).
      map (\<lambda>s. (isv_source s, isv_value s, isv_valid s)) (fp_sources f) =
        filter (\<lambda>(_, v, _). v \<noteq> [])
          [(source_device_info, existing_val, True), (source_ebus_standard_ident, desc_val, idd_valid desc)] \<and>
      fp_preferred f = (case filter isv_valid (fp_sources f) of [] \<Rightarrow> [] | s # _ \<Rightarrow> isv_value s) \<and>
      (fp_agreement f \<longleftrightarrow> card (set (map isv_value (fp_sources f))) \<le> 1))
     (provenance_fields (compare_identity existing desc) existing desc)"
proof -
  have "(case (merge_field ok v w, v, w) of (f, existing_val, desc_val) \<Rightarrow>
      map (\<lambda>s. (isv_source s, isv_value s, isv_valid s)) (fp_sources f) =
        filter (\<lambda>(_, v, _). v \<noteq> [])
          [(source_device_info, existing_val, True), (source_ebus_standard_ident, desc_val, ok)] \<and>
      fp_preferred f = (case filter isv_valid (fp_sources f) of [] \<Rightarrow> [] | s # _ \<Rightarrow> isv_value s) \<and>
      (fp_agreement f \<longleftrightarrow> card (set (map isv_value (fp_sources f))) \<le> 1))" for ok v w
    by (cases "v = []"; cases "w = []"; cases ok; cases "v = w") (simp_all add: merge_field_def Let_def)
  then show ?thesis by (simp only: provenance_fields_def compare_identity_def list.pred_inject provenance_record.simps simp_thms)
qed

end
