(* ===== verification/Cat_Transfer.thy ===== *)
theory Cat_Transfer
  imports Go_Format
begin

text \<open>
  Transfer planning of the B5 1B service (\<open>ab23an23_b51b_local_budget_crc.go\<close>): how a procedure cuts an
  input into chunks, how accepted progress adds up in a Go \<open>int\<close>, and the 16-bit CRC.
\<close>

section \<open>Chunks\<close>

record transfer_budget =
  tb_procedure :: string
  tb_chunks :: "byte list list"
  tb_consumed :: nat
  tb_unplanned :: nat

definition grouped_1024 :: string where "grouped_1024 = ''ab23an23_grouped_1024''"
definition single_205 :: string where "single_205 = ''ab23an23_single_205''"

text \<open>The loop over the caps; slicing the input panics out of range, a panic is \<open>None\<close>.\<close>

fun plan_chunks :: "byte list \<Rightarrow> nat list \<Rightarrow> transfer_budget \<Rightarrow> transfer_budget option" where
  "plan_chunks input [] b = Some b"
| "plan_chunks input (cap # caps) b =
     (if tb_unplanned b = 0 then Some b
      else let len = (if cap > tb_unplanned b then tb_unplanned b else cap);
               stop = tb_consumed b + len
           in if stop > length input then None
              else plan_chunks input caps
                (b\<lparr>tb_chunks := tb_chunks b @ [take len (drop (tb_consumed b) input)],
                   tb_consumed := stop, tb_unplanned := tb_unplanned b - len\<rparr>))"

text \<open>An unknown procedure is an error beside the initial budget.\<close>

definition transfer_plan :: "byte list \<Rightarrow> string \<Rightarrow> (transfer_budget \<times> bool) option" where
  "transfer_plan input procedure =
     (let start = \<lparr>tb_procedure = procedure, tb_chunks = [], tb_consumed = 0, tb_unplanned = length input\<rparr>
      in if procedure = grouped_1024 then
           map_option (\<lambda>b. (b, True)) (plan_chunks input [206, 206, 206, 206, 200] start)
         else if procedure = single_205 then map_option (\<lambda>b. (b, True)) (plan_chunks input [205] start)
         else Some (start, False))"

text \<open>The progress and whether it was an error.\<close>

definition transfer_progress :: "int64 \<Rightarrow> bool \<Rightarrow> int64 \<Rightarrow> int64 \<times> bool" where
  "transfer_progress prior accepted actual =
     (if sint prior < 0 \<or> sint actual < 0 then (prior, True)
      else if \<not> accepted then (prior, False)
      else if sint actual > sint ((word_of_int max_int64 :: int64) - prior) then (prior, True)
      else (prior + actual, False))"

section \<open>The CRC\<close>

definition crc_step :: "uint16 \<Rightarrow> uint16" where
  "crc_step crc = (if crc AND 0x8000 \<noteq> 0 then push_bit 1 crc XOR 0x1021 else push_bit 1 crc)"

fun crc_bits :: "nat \<Rightarrow> uint16 \<Rightarrow> uint16" where
  "crc_bits 0 crc = crc"
| "crc_bits (Suc n) crc = crc_bits n (crc_step crc)"

fun crc_with_initial :: "byte list \<Rightarrow> uint16 \<Rightarrow> uint16" where
  "crc_with_initial [] crc = crc"
| "crc_with_initial (b # bs) crc = crc_with_initial bs (crc_bits 8 (crc XOR push_bit 8 (ucast b)))"

definition transfer_crc :: "byte list \<Rightarrow> uint16" where
  "transfer_crc bs = crc_with_initial bs 0xFFFF"

lemma crc_check_value: "transfer_crc [0x31, 0x32, 0x33, 0x34, 0x35, 0x36, 0x37, 0x38, 0x39] = 0x29B1"
  by code_simp

section \<open>What a plan covers\<close>

lemma plan_chunks_exact:
  assumes "tb_consumed b + tb_unplanned b = length input" and "concat (tb_chunks b) = take (tb_consumed b) input"
    and "\<forall>c \<in> set caps. 0 < c" and "\<forall>c \<in> set (tb_chunks b). c \<noteq> []"
  shows "\<exists>b'. plan_chunks input caps b = Some b' \<and> tb_procedure b' = tb_procedure b \<and>
     tb_consumed b' = min (length input) (tb_consumed b + sum_list caps) \<and>
     tb_consumed b' + tb_unplanned b' = length input \<and> concat (tb_chunks b') = take (tb_consumed b') input \<and>
     (\<forall>c \<in> set (tb_chunks b'). c \<noteq> []) \<and>
     (\<exists>new. tb_chunks b' = tb_chunks b @ new \<and> list_all (\<lambda>(c, cap). length c \<le> cap) (zip new caps) \<and> length new \<le> length caps)"
  using assms
proof (induction caps arbitrary: b)
  case (Cons cap caps)
  show ?case
  proof (cases "tb_unplanned b = 0")
    case True
    then show ?thesis using Cons.prems by auto
  next
    case False
    let ?len = "min cap (tb_unplanned b)"
    let ?b = "b\<lparr>tb_chunks := tb_chunks b @ [take ?len (drop (tb_consumed b) input)],
      tb_consumed := tb_consumed b + ?len, tb_unplanned := tb_unplanned b - ?len\<rparr>"
    have step: "plan_chunks input (cap # caps) b = plan_chunks input caps ?b"
      using False Cons.prems(1) by (simp add: Let_def min_def not_less)
    have "concat (tb_chunks ?b) = take (tb_consumed ?b) input"
      using Cons.prems(2) by (simp add: take_add)
    moreover have "tb_consumed ?b + tb_unplanned ?b = length input" using Cons.prems(1) by simp
    moreover have "\<forall>c \<in> set (tb_chunks ?b). c \<noteq> []"
      using Cons.prems False by auto
    ultimately obtain b' new where b': "plan_chunks input caps ?b = Some b'" "tb_procedure b' = tb_procedure b"
      "tb_consumed b' = min (length input) (tb_consumed ?b + sum_list caps)"
      "tb_consumed b' + tb_unplanned b' = length input" "concat (tb_chunks b') = take (tb_consumed b') input"
      "\<forall>c \<in> set (tb_chunks b'). c \<noteq> []" "tb_chunks b' = tb_chunks ?b @ new"
      "list_all (\<lambda>(c, cap). length c \<le> cap) (zip new caps)" "length new \<le> length caps"
      using Cons.IH [of ?b] Cons.prems(3) by auto
    have "min (length input) (tb_consumed ?b + sum_list caps) = min (length input) (tb_consumed b + sum_list (cap # caps))"
      using Cons.prems(1) by auto
    moreover have "tb_chunks b' = tb_chunks b @ (take ?len (drop (tb_consumed b) input) # new)"
      using b'(7) by simp
    ultimately show ?thesis
      using b' unfolding step by (intro exI [of _ b'] conjI exI [of _ "take ?len (drop (tb_consumed b) input) # new"]) auto
  qed
qed auto

section \<open>Bijective steps\<close>

text \<open>The top bit goes out, and comes back as the bottom bit of the polynomial: no two words step to one.\<close>

lemma bit_top_mask: "bit ((crc :: uint16) AND 0x8000) n \<longleftrightarrow> n = 15 \<and> bit crc 15"
proof -
  have "(0x8000 :: uint16) = push_bit 15 1" by simp
  then have "bit (crc AND 0x8000) n \<longleftrightarrow> bit crc n \<and> bit (push_bit 15 (1 :: uint16)) n"
    by (simp only: bit_and_iff)
  then show ?thesis by (simp only: bit_push_bit_iff bit_1_iff) auto
qed

lemma top_bit: "(crc :: uint16) AND 0x8000 \<noteq> 0 \<longleftrightarrow> bit crc 15"
proof -
  have "crc AND 0x8000 = 0 \<longleftrightarrow> (\<forall>n. \<not> bit (crc AND 0x8000) n)"
    by (metis bit_0_eq bit_eqI bot_apply bot_bool_def)
  then show ?thesis unfolding bit_top_mask by blast
qed

lemma crc_step_bit:
  assumes "n < 16"
  shows "bit (crc_step crc) n \<longleftrightarrow> ((n > 0 \<and> bit crc (n - 1)) \<noteq> (bit crc 15 \<and> bit (0x1021 :: uint16) n))"
proof -
  have "bit (push_bit 1 crc) n \<longleftrightarrow> n > 0 \<and> bit crc (n - 1)"
    using assms by (simp only: bit_push_bit_iff) auto
  moreover have "bit (crc_step crc) n \<longleftrightarrow> (bit (push_bit 1 crc) n \<noteq> (bit crc 15 \<and> bit (0x1021 :: uint16) n))"
    unfolding crc_step_def top_bit by (cases "bit crc 15") (simp_all only: bit_xor_iff if_True if_False simp_thms)
  ultimately show ?thesis by blast
qed

lemma crc_step_inj: "crc_step a = crc_step b \<Longrightarrow> a = b"
proof -
  assume eq: "crc_step a = crc_step b"
  have "bit (crc_step a) 0 = bit a 15" "bit (crc_step b) 0 = bit b 15"
    by (simp_all add: crc_step_bit bit_numeral_rec)
  then have top: "bit a 15 = bit b 15" using eq by simp
  show "a = b"
  proof (rule bit_word_eqI)
    fix n assume "n < LENGTH(16)"
    show "bit a n = bit b n"
    proof (cases "n = 15")
      case False
      then have "Suc n < 16" using \<open>n < LENGTH(16)\<close> by simp
      then show ?thesis
        using crc_step_bit [of "Suc n" a] crc_step_bit [of "Suc n" b] eq top by auto
    qed (simp add: top)
  qed
qed

lemma crc_bits_inj: "crc_bits n a = crc_bits n b \<Longrightarrow> a = b"
  by (induction n arbitrary: a b) (auto dest: crc_step_inj)

lemma xor_inj: "(a :: uint16) XOR c = b XOR c \<longleftrightarrow> a = b"
  by (metis xor.assoc xor.right_neutral xor_self_eq)

lemma crc_with_initial_inj: "crc_with_initial bs a = crc_with_initial bs b \<Longrightarrow> a = b"
proof (induction bs arbitrary: a b)
  case (Cons x xs)
  then have "crc_bits 8 (a XOR push_bit 8 (ucast x)) = crc_bits 8 (b XOR push_bit 8 (ucast x))"
    by (simp del: crc_bits.simps)
  then show ?case using crc_bits_inj xor_inj by blast
qed simp

lemma crc_append: "crc_with_initial (xs @ ys) crc = crc_with_initial ys (crc_with_initial xs crc)"
  by (induction xs arbitrary: crc) simp_all

lemma shifted_byte_inj: "push_bit 8 (ucast a :: uint16) = push_bit 8 (ucast (b :: byte)) \<longleftrightarrow> a = b"
proof
  assume eq: "push_bit 8 (ucast a :: uint16) = push_bit 8 (ucast b)"
  show "a = b"
  proof (rule bit_word_eqI)
    fix n assume n: "n < LENGTH(8)"
    have "bit (push_bit 8 (ucast a :: uint16)) (n + 8) = bit (push_bit 8 (ucast b :: uint16)) (n + 8)"
      using eq by simp
    then show "bit a n = bit b n" using n by (simp add: bit_simps)
  qed
qed simp

text \<open>(C32)
  Transfer planning is exact: a known procedure never slices out of range, its chunks are non-empty, no
  longer than the procedure's caps, and together the first 1024 (or 205) bytes of the input, the rest
  being reported as unplanned. The CRC of a concatenation is the CRC of its last part started from the
  CRC of the first, and replacing one byte anywhere always changes it.
\<close>

theorem transfer_exact:
  "(case transfer_plan input grouped_1024 of
      None \<Rightarrow> False
    | Some (b, known) \<Rightarrow> known \<and> concat (tb_chunks b) = take 1024 input \<and> tb_unplanned b = length input - 1024 \<and>
        list_all (\<lambda>c. c \<noteq> []) (tb_chunks b) \<and>
        list_all (\<lambda>(c, cap). length c \<le> cap) (zip (tb_chunks b) [206, 206, 206, 206, 200]) \<and> length (tb_chunks b) \<le> 5) \<and>
   (case transfer_plan input single_205 of
      None \<Rightarrow> False
    | Some (b, known) \<Rightarrow> known \<and> concat (tb_chunks b) = take 205 input \<and> tb_unplanned b = length input - 205 \<and>
        length (tb_chunks b) \<le> 1) \<and>
   crc_with_initial (xs @ ys) crc = crc_with_initial ys (crc_with_initial xs crc) \<and>
   (transfer_crc (xs @ [a] @ ys) = transfer_crc (xs @ [b] @ ys) \<longleftrightarrow> a = b)"
proof -
  have grouped: "(206 :: nat) + (206 + (206 + (206 + 200))) = 1024" by simp
  have "transfer_crc (xs @ [a] @ ys) = transfer_crc (xs @ [b] @ ys) \<longleftrightarrow> a = b"
  proof
    assume "transfer_crc (xs @ [a] @ ys) = transfer_crc (xs @ [b] @ ys)"
    then have "crc_bits 8 (crc_with_initial xs 0xFFFF XOR push_bit 8 (ucast a)) =
        crc_bits 8 (crc_with_initial xs 0xFFFF XOR push_bit 8 (ucast b))"
      by (auto simp: transfer_crc_def crc_append simp del: crc_bits.simps dest!: crc_with_initial_inj)
    then have "push_bit 8 (ucast a :: uint16) = push_bit 8 (ucast b)"
      using crc_bits_inj xor_inj by (metis xor.commute)
    then show "a = b" by (simp add: shifted_byte_inj)
  qed simp
  then show ?thesis
    using plan_chunks_exact [of "\<lparr>tb_procedure = grouped_1024, tb_chunks = [], tb_consumed = 0, tb_unplanned = length input\<rparr>"
        input "[206, 206, 206, 206, 200]"]
      plan_chunks_exact [of "\<lparr>tb_procedure = single_205, tb_chunks = [], tb_consumed = 0, tb_unplanned = length input\<rparr>"
        input "[205]"]
    by (auto simp: transfer_plan_def Let_def crc_append list_all_iff single_205_def grouped_1024_def min_def
        simp del: plan_chunks.simps split: if_splits)
qed

end
