(* ===== verification/Cat_Json.thy ===== *)
theory Cat_Json
  imports Go_Prelude
begin

text \<open>
  The reader the catalog evaluators share: each file repeats the same recursive function over a
  \<open>json.Decoder\<close> that uses \<open>json.Number\<close> and rejects an object with a repeated key. The decoder is the
  list of tokens it yields and whether it then ends (rather than with a syntax error); an
  evaluator's own errors carry no more than that there is one.
\<close>

section \<open>Values and tokens\<close>

datatype json =
    JNull
  | JBool bool
  | JNumber string
  | JString string
  | JArray "json list"
  | JObject "(string, json) gomap"

datatype token =
    TokObject
  | TokObjectEnd
  | TokArray
  | TokArrayEnd
  | TokNull
  | TokBool bool
  | TokNumber string
  | TokString string

text \<open>
  The recursive reader with its two loops. At most two nested calls go by per token, so two units of
  fuel per token and two more are enough; \<open>None\<close> is an error, of the decoder or a repeated key. The decoder only
  yields strings where a key is due and the closing delimiter that fits.
\<close>

fun json_read :: "nat \<Rightarrow> token list \<Rightarrow> (json \<times> token list) option"
  and json_members :: "nat \<Rightarrow> (string, json) gomap \<Rightarrow> token list \<Rightarrow> (json \<times> token list) option"
  and json_elements :: "nat \<Rightarrow> json list \<Rightarrow> token list \<Rightarrow> (json \<times> token list) option" where
  "json_read 0 ts = None"
| "json_read (Suc n) [] = None"
| "json_read (Suc n) (t # ts) =
     (case t of
        TokObject \<Rightarrow> json_members n [] ts
      | TokArray \<Rightarrow> json_elements n [] ts
      | TokNull \<Rightarrow> Some (JNull, ts)
      | TokBool b \<Rightarrow> Some (JBool b, ts)
      | TokNumber s \<Rightarrow> Some (JNumber s, ts)
      | TokString s \<Rightarrow> Some (JString s, ts)
      | _ \<Rightarrow> None)"
| "json_members 0 obj ts = None"
| "json_members (Suc n) obj ts =
     (case ts of
        TokObjectEnd # ts' \<Rightarrow> Some (JObject obj, ts')
      | TokString key # ts' \<Rightarrow>
          if gm_has obj key then None
          else (case json_read n ts' of
                  None \<Rightarrow> None
                | Some (v, rest) \<Rightarrow> json_members n (gm_put key v obj) rest)
      | _ \<Rightarrow> None)"
| "json_elements 0 xs ts = None"
| "json_elements (Suc n) xs ts =
     (if ts \<noteq> [] \<and> hd ts = TokArrayEnd then Some (JArray xs, tl ts)
      else (case json_read n ts of
              None \<Rightarrow> None
            | Some (v, rest) \<Rightarrow> json_elements n (xs @ [v]) rest))"

text \<open>The document: one value and the end of the input.\<close>

definition json_document :: "token list \<Rightarrow> bool \<Rightarrow> json option" where
  "json_document ts at_end =
     (case json_read (2 * length ts + 2) ts of
        Some (v, []) \<Rightarrow> if at_end then Some v else None
      | _ \<Rightarrow> None)"

section \<open>Looking into a value\<close>

text \<open>
  Looking up a missing key gives Go's nil, like the key of a null; a type assertion fails on both.
\<close>

definition as_object :: "json option \<Rightarrow> (string, json) gomap option" where
  "as_object v = (case v of Some (JObject obj) \<Rightarrow> Some obj | _ \<Rightarrow> None)"

definition as_array :: "json option \<Rightarrow> json list option" where
  "as_array v = (case v of Some (JArray vs) \<Rightarrow> Some vs | _ \<Rightarrow> None)"

definition as_bool :: "json option \<Rightarrow> bool option" where
  "as_bool v = (case v of Some (JBool b) \<Rightarrow> Some b | _ \<Rightarrow> None)"

definition as_string :: "json option \<Rightarrow> string option" where
  "as_string v = (case v of Some (JString s) \<Rightarrow> Some s | _ \<Rightarrow> None)"

definition is_nil :: "json option \<Rightarrow> bool" where
  "is_nil v \<longleftrightarrow> v = None \<or> v = Some JNull"

text \<open>\<open>strconv.ParseUint(s, 10, bits)\<close> on the text of a number.\<close>

definition as_uint :: "nat \<Rightarrow> json option \<Rightarrow> nat option" where
  "as_uint bits v =
     (case v of
        Some (JNumber s) \<Rightarrow> (case digits_parse s of None \<Rightarrow> None | Some n \<Rightarrow> if n < 2 ^ bits then Some n else None)
      | _ \<Rightarrow> None)"

definition json_nat :: "nat \<Rightarrow> json" where
  "json_nat n = JNumber (nat_str n)"

text \<open>A byte array: an array of numbers that fit a byte.\<close>

definition byte_array :: "json \<Rightarrow> bool" where
  "byte_array v \<longleftrightarrow> (case v of JArray vs \<Rightarrow> list_all (\<lambda>b. as_uint 8 (Some b) \<noteq> None) vs | _ \<Rightarrow> False)"

lemma as_uint_json_nat [simp]: "as_uint bits (Some (json_nat n)) = (if n < 2 ^ bits then Some n else None)"
  by (simp add: as_uint_def json_nat_def)

lemma as_uint_less: "as_uint bits v = Some n \<Longrightarrow> n < 2 ^ bits"
  by (auto simp: as_uint_def split: option.splits json.splits if_splits)

section \<open>Reading\<close>

text \<open>The tokens of a value, and the values no object of which repeats a key.\<close>

fun json_tokens :: "json \<Rightarrow> token list" where
  "json_tokens JNull = [TokNull]"
| "json_tokens (JBool b) = [TokBool b]"
| "json_tokens (JNumber s) = [TokNumber s]"
| "json_tokens (JString s) = [TokString s]"
| "json_tokens (JArray vs) = TokArray # concat (map json_tokens vs) @ [TokArrayEnd]"
| "json_tokens (JObject obj) =
     TokObject # concat (map (\<lambda>(k, v). TokString k # json_tokens v) obj) @ [TokObjectEnd]"

fun json_keys_ok :: "json \<Rightarrow> bool" where
  "json_keys_ok (JArray vs) \<longleftrightarrow> list_all json_keys_ok vs"
| "json_keys_ok (JObject obj) \<longleftrightarrow> gm_ok obj \<and> list_all (\<lambda>(k, v). json_keys_ok v) obj"
| "json_keys_ok v \<longleftrightarrow> True"

definition member_tokens :: "(string, json) gomap \<Rightarrow> token list" where
  "member_tokens obj = concat (map (\<lambda>(k, v). TokString k # json_tokens v) obj)"

lemma member_tokens_simps [simp]:
  "member_tokens [] = []" "member_tokens ((k, v) # obj) = TokString k # json_tokens v @ member_tokens obj"
  "member_tokens (obj @ obj') = member_tokens obj @ member_tokens obj'"
  by (simp_all add: member_tokens_def)

lemma gm_put_new: "\<not> gm_has m k \<Longrightarrow> gm_put k v m = m @ [(k, v)]"
  unfolding gm_has_def gm_get_def gm_put_def by (induction m) (auto split: if_splits)

lemma gm_ok_snoc: "gm_ok (m @ [(k, v)]) \<longleftrightarrow> gm_ok m \<and> \<not> gm_has m k"
  by (auto simp: gm_ok_def gm_has_def gm_get_def map_of_eq_None_iff)

lemma json_read_sound:
  "json_read n ts = Some (v, rest) \<Longrightarrow> ts = json_tokens v @ rest \<and> json_keys_ok v"
  "json_members n obj ts = Some (v, rest) \<Longrightarrow>
     \<exists>new. v = JObject (obj @ new) \<and> ts = member_tokens new @ TokObjectEnd # rest \<and>
       list_all (\<lambda>(k, v). json_keys_ok v) new \<and> (gm_ok obj \<longrightarrow> gm_ok (obj @ new))"
  "json_elements n xs ts = Some (v, rest) \<Longrightarrow>
     \<exists>new. v = JArray (xs @ new) \<and> ts = concat (map json_tokens new) @ TokArrayEnd # rest \<and>
       list_all json_keys_ok new"
proof (induction n ts and n obj ts and n xs ts arbitrary: v rest and v rest and v rest
    rule: json_read_json_members_json_elements.induct)
  case (3 n t ts)
  then show ?case by (fastforce split: token.splits simp: member_tokens_def)
next
  case (5 n obj ts)
  show ?case
  proof (cases "\<exists>ts'. ts = TokObjectEnd # ts'")
    case True
    then show ?thesis using "5.prems" by (auto intro: exI [of _ "[]"])
  next
    case False
    then obtain key ts' x r where ts: "ts = TokString key # ts'" "\<not> gm_has obj key"
      "json_read n ts' = Some (x, r)" "json_members n (gm_put key x obj) r = Some (v, rest)"
      using "5.prems" by (auto split: list.splits token.splits if_splits option.splits)
    from "5.IH"(1) [OF ts(1) refl ts(2,3)] have x: "ts' = json_tokens x @ r" "json_keys_ok x" by auto
    from "5.IH"(2) [OF ts(1) refl ts(2,3) refl ts(4)] obtain new where
      "v = JObject (gm_put key x obj @ new)" "r = member_tokens new @ TokObjectEnd # rest"
      "list_all (\<lambda>(k, v). json_keys_ok v) new" "gm_ok (gm_put key x obj) \<longrightarrow> gm_ok (gm_put key x obj @ new)"
      by blast
    then show ?thesis using x ts(1,2)
      by (intro exI [of _ "(key, x) # new"]) (auto simp: gm_put_new gm_ok_snoc)
  qed
next
  case (7 n xs ts)
  show ?case
  proof (cases "ts \<noteq> [] \<and> hd ts = TokArrayEnd")
    case True
    then show ?thesis using "7.prems" by (cases ts) auto
  next
    case False
    then obtain x r where r: "json_read n ts = Some (x, r)" "json_elements n (xs @ [x]) r = Some (v, rest)"
      using "7.prems" by (auto split: option.splits)
    from "7.IH"(1) [OF False r(1)] have x: "ts = json_tokens x @ r" "json_keys_ok x" by auto
    from "7.IH"(2) [OF False r(1) refl r(2)] obtain new where "v = JArray ((xs @ [x]) @ new)"
      "r = concat (map json_tokens new) @ TokArrayEnd # rest" "list_all json_keys_ok new" by blast
    then show ?thesis using x by (intro exI [of _ "x # new"]) simp
  qed
qed auto

lemma json_tokens_start: "\<exists>t ts. json_tokens v = t # ts \<and> t \<noteq> TokArrayEnd \<and> t \<noteq> TokObjectEnd"
  by (cases v) simp_all

lemma json_elements_complete:
  assumes "\<And>v n rest. v \<in> set vs \<Longrightarrow> 2 * length (json_tokens v) \<le> n \<Longrightarrow> json_read n (json_tokens v @ rest) = Some (v, rest)"
    and "2 * length (concat (map json_tokens vs)) + 2 \<le> n"
  shows "json_elements n xs (concat (map json_tokens vs) @ TokArrayEnd # rest) = Some (JArray (xs @ vs), rest)"
  using assms
proof (induction vs arbitrary: n xs)
  case Nil
  then show ?case by (cases n) simp_all
next
  case (Cons v vs)
  obtain m where n: "n = Suc m" using Cons.prems(2) by (cases n) simp_all
  obtain t ts where t: "json_tokens v = t # ts" "t \<noteq> TokArrayEnd" using json_tokens_start [of v] by blast
  have "json_read m (json_tokens v @ concat (map json_tokens vs) @ TokArrayEnd # rest) =
      Some (v, concat (map json_tokens vs) @ TokArrayEnd # rest)"
    using Cons.prems n by simp
  moreover have "json_elements m (xs @ [v]) (concat (map json_tokens vs) @ TokArrayEnd # rest) = Some (JArray ((xs @ [v]) @ vs), rest)"
    using Cons.prems n t(1) by (intro Cons.IH) auto
  ultimately show ?case using t by (simp add: n)
qed

lemma json_members_complete:
  assumes "\<And>k v n rest. (k, v) \<in> set new \<Longrightarrow> 2 * length (json_tokens v) \<le> n \<Longrightarrow> json_read n (json_tokens v @ rest) = Some (v, rest)"
    and "2 * length (member_tokens new) + 2 \<le> n" and "gm_ok (obj @ new)"
  shows "json_members n obj (member_tokens new @ TokObjectEnd # rest) = Some (JObject (obj @ new), rest)"
  using assms
proof (induction new arbitrary: n obj)
  case Nil
  then show ?case by (cases n) simp_all
next
  case (Cons kv new)
  obtain k v where kv: "kv = (k, v)" by fastforce
  obtain m where n: "n = Suc m" using Cons.prems(2) by (cases n) simp_all
  have ok: "gm_ok ((obj @ [(k, v)]) @ new)" using Cons.prems(3) by (simp add: kv)
  then have fresh: "\<not> gm_has obj k"
    by (auto simp: gm_ok_def gm_has_def gm_get_def map_of_eq_None_iff)
  have "json_read m (json_tokens v @ member_tokens new @ TokObjectEnd # rest) =
      Some (v, member_tokens new @ TokObjectEnd # rest)"
    using Cons.prems(1) [of k v] Cons.prems(2) n by (simp add: kv)
  moreover have "json_members m (obj @ [(k, v)]) (member_tokens new @ TokObjectEnd # rest) = Some (JObject ((obj @ [(k, v)]) @ new), rest)"
    using Cons.prems(1,2) n ok by (intro Cons.IH) (auto simp: kv)
  ultimately show ?case by (simp add: n kv fresh gm_put_new)
qed

lemma json_read_complete:
  "json_keys_ok v \<Longrightarrow> 2 * length (json_tokens v) \<le> n \<Longrightarrow> json_read n (json_tokens v @ rest) = Some (v, rest)"
proof (induction v arbitrary: n rest rule: json_tokens.induct)
  case (5 vs)
  obtain m where n: "n = Suc m" using "5.prems"(2) by (cases n) simp_all
  have "json_elements m [] (concat (map json_tokens vs) @ TokArrayEnd # rest) = Some (JArray ([] @ vs), rest)"
    using "5.prems" n by (intro json_elements_complete "5.IH") (auto simp: list_all_iff)
  then show ?case by (simp add: n)
next
  case (6 obj)
  obtain m where n: "n = Suc m" using "6.prems"(2) by (cases n) simp_all
  have "json_members m [] (member_tokens obj @ TokObjectEnd # rest) = Some (JObject ([] @ obj), rest)"
    using "6.prems" n by (intro json_members_complete "6.IH") (auto simp: list_all_iff member_tokens_def)
  then show ?case by (simp add: n member_tokens_def)
qed (case_tac n; simp)+

text \<open>(C29)
  The shared reader accepts exactly the token sequences of one value without a repeated key, followed
  by the end of the input, and returns that value; the fuel is always enough.
\<close>

theorem json_document_exact:
  "json_document ts at_end = Some v \<longleftrightarrow> at_end \<and> ts = json_tokens v \<and> json_keys_ok v"
proof -
  have "json_read (2 * length ts + 2) ts = Some (v, []) \<longleftrightarrow> ts = json_tokens v \<and> json_keys_ok v"
    using json_read_sound(1) [of "2 * length ts + 2" ts v "[]"] json_read_complete [of v "2 * length ts + 2" "[]"]
    by auto
  then show ?thesis by (auto simp: json_document_def split: option.splits prod.splits list.splits if_splits)
qed

end
