(* ===== verification/Cat_Cycle.thy ===== *)
theory Cat_Cycle
  imports Cat_Json
begin

text \<open>
  The reducer of a B5 16 reading cycle (\<open>ab05ap05_b516_cycle_reducer.go\<close>): nine slots, each registered
  or not, capable or not, and read with success or failure, reduced to a 32-bit sum, counts and a
  failure counter. An error is \<open>None\<close>; whether an input has one does not depend on the order in which
  the code ranges over a map. The returned document is the tree that \<open>json.Marshal\<close> writes out.
\<close>

section \<open>Slots\<close>

record cycle_slot =
  cs_raw :: json
  cs_registered :: bool
  cs_capable :: bool
  cs_prior_changed :: bool
  cs_prior :: nat
  cs_previous :: nat
  cs_outcome :: string
  cs_value :: nat

definition cycle_slot_of :: "json \<Rightarrow> cycle_slot option" where
  "cycle_slot_of v =
     Option.bind (as_object (Some v)) (\<lambda>slot.
     Option.bind (as_bool (gm_get slot ''registered'')) (\<lambda>registered.
     Option.bind (as_bool (gm_get slot ''capable'')) (\<lambda>capable.
     Option.bind (as_bool (gm_get slot ''prior_changed'')) (\<lambda>prior_changed.
     Option.bind (as_uint 32 (gm_get slot ''prior'')) (\<lambda>prior.
     Option.bind (as_uint 32 (gm_get slot ''prior_previous'')) (\<lambda>previous.
     Option.bind (as_string (gm_get slot ''outcome'')) (\<lambda>outcome.
     if outcome \<noteq> ''success'' \<and> outcome \<noteq> ''read-failure'' \<and> outcome \<noteq> ''parse-failure'' then None
     else Option.bind
       (if outcome = ''success'' then as_uint 32 (gm_get slot ''value'')
        else if gm_has slot ''value'' then None else Some 0) (\<lambda>value.
       Some \<lparr>cs_raw = v, cs_registered = registered, cs_capable = capable, cs_prior_changed = prior_changed,
         cs_prior = prior, cs_previous = previous, cs_outcome = outcome, cs_value = value\<rparr>))))))))"

definition quantity :: "json \<Rightarrow> nat \<Rightarrow> json" where
  "quantity raw n =
     JObject [(''state'', JString ''Hypothesis''), (''calculation'', JString ''Proven''), (''number'', json_nat n), (''raw'', raw)]"

definition slot_attempted :: "cycle_slot \<Rightarrow> bool" where
  "slot_attempted s \<longleftrightarrow> \<not> (\<not> cs_registered s \<or> \<not> cs_capable s)"

definition slot_succeeded :: "cycle_slot \<Rightarrow> bool" where
  "slot_succeeded s \<longleftrightarrow> slot_attempted s \<and> \<not> cs_outcome s \<noteq> ''success''"

text \<open>A reading changed when there was none before or it is at least two ahead, modulo 32 bits.\<close>

definition slot_changed :: "cycle_slot \<Rightarrow> bool" where
  "slot_changed s \<longleftrightarrow>
     cs_prior s = 0xFFFFFFFF \<or> (of_nat (cs_value s) :: uint32) - of_nat (cs_prior s) \<ge> 2"

definition slot_result :: "cycle_slot \<Rightarrow> json" where
  "slot_result s =
     JObject
       [(''raw'', cs_raw s), (''state'', JString ''Hypothesis''), (''prior_changed'', JBool (cs_prior_changed s)),
        (''changed'', if slot_succeeded s
           then JObject [(''state'', JString ''Hypothesis''), (''calculation'', JString ''Proven''),
                         (''value'', JBool (slot_changed s)), (''raw'', cs_raw s)]
           else JObject [(''state'', JString ''Unknown''), (''raw'', cs_raw s)]),
        (''current'', quantity (cs_raw s) (if slot_succeeded s then cs_value s else 0xFFFFFFFF)),
        (''attempted'', JBool (slot_attempted s)),
        (''outcome'', JString (if slot_attempted s then cs_outcome s else ''skipped'')),
        (''previous'', quantity (cs_raw s) (if slot_attempted s then cs_prior s else cs_previous s))]"

section \<open>The reduction\<close>

record cycle_state =
  cy_results :: "json list"
  cy_sum :: uint32
  cy_successful :: nat
  cy_failed :: nat
  cy_skipped :: nat

definition cycle_step :: "cycle_state \<Rightarrow> cycle_slot \<Rightarrow> cycle_state" where
  "cycle_step st s =
     (let st' = (if \<not> cs_registered s \<or> \<not> cs_capable s then st\<lparr>cy_skipped := cy_skipped st + 1\<rparr>
                 else if cs_outcome s \<noteq> ''success'' then st\<lparr>cy_failed := cy_failed st + 1\<rparr>
                 else st\<lparr>cy_successful := cy_successful st + 1, cy_sum := cy_sum st + of_nat (cs_value s)\<rparr>)
      in st'\<lparr>cy_results := cy_results st' @ [slot_result s]\<rparr>)"

fun cycle_reduce :: "cycle_state \<Rightarrow> json list \<Rightarrow> cycle_state option" where
  "cycle_reduce st [] = Some st"
| "cycle_reduce st (v # vs) =
     Option.bind (cycle_slot_of v) (\<lambda>s. cycle_reduce (cycle_step st s) vs)"

definition cycle_start :: cycle_state where
  "cycle_start = \<lparr>cy_results = [], cy_sum = 0, cy_successful = 0, cy_failed = 0, cy_skipped = 0\<rparr>"

section \<open>Evaluation\<close>

text \<open>A selector of the context: an error when present with the wrong type, else whether it is the expected one.\<close>

definition uint_selector :: "(string, json) gomap \<Rightarrow> string \<Rightarrow> nat \<Rightarrow> bool option" where
  "uint_selector ctx key expected =
     (if is_nil (gm_get ctx key) then Some False
      else map_option (\<lambda>n. n = expected) (as_uint 8 (gm_get ctx key)))"

definition string_selector :: "(string, json) gomap \<Rightarrow> string \<Rightarrow> string \<Rightarrow> bool option" where
  "string_selector ctx key expected =
     (if is_nil (gm_get ctx key) then Some False
      else map_option (\<lambda>s. s = expected) (as_string (gm_get ctx key)))"

definition all_selected :: "bool option list \<Rightarrow> bool option" where
  "all_selected rs = (if None \<in> set rs then None else Some (list_all (\<lambda>r. r = Some True) rs))"

definition raw_fields :: "(string, json) gomap \<Rightarrow> (string, json) gomap" where
  "raw_fields raw = gm_map (\<lambda>_ v. JObject [(''raw'', v), (''state'', JString ''Unknown'')]) raw"

definition failure_counter_field :: "cycle_state \<Rightarrow> json option \<Rightarrow> nat \<Rightarrow> nat option \<Rightarrow> json" where
  "failure_counter_field st raw counter increment =
     (let raw = (case raw of None \<Rightarrow> JNull | Some v \<Rightarrow> v)
      in if cy_failed st = 0 then quantity raw 0
         else case increment of
                Some i \<Rightarrow>
                  JObject [(''state'', JString ''Hypothesis''), (''calculation'', JString ''Proven''),
                           (''number'', json_nat (unat (of_nat (counter + i) :: uint32))), (''raw'', raw),
                           (''native_increments'', JString ''Unknown'')]
              | None \<Rightarrow>
                  JObject [(''state'', JString ''Unknown''), (''prior'', json_nat counter), (''raw'', raw),
                           (''native_increments'', JString ''Unknown'')])"

definition cycle_output ::
  "(string, json) gomap \<Rightarrow> (string, json) gomap \<Rightarrow> (string, json) gomap \<Rightarrow> json list \<Rightarrow> nat \<Rightarrow> nat option \<Rightarrow> cycle_state \<Rightarrow> json" where
  "cycle_output ctx raw args slots counter increment st =
     (let state = (if cy_failed st > 0 \<and> increment = None then ''partial'' else ''complete'');
          flds = gm_put ''failure_counter'' (failure_counter_field st (gm_get args ''failure_counter'') counter increment)
            (gm_put ''counts'' (JObject
               [(''raw'', JArray slots), (''state'', JString ''Hypothesis''), (''successful'', json_nat (cy_successful st)),
                (''failed'', json_nat (cy_failed st)), (''skipped'', json_nat (cy_skipped st)),
                (''attempted'', json_nat (cy_successful st + cy_failed st))])
            (gm_put ''sum'' (quantity (JArray slots) (unat (cy_sum st)))
            (gm_put ''slots'' (JObject
               [(''raw'', JArray slots), (''state'', JString ''Hypothesis''), (''outcomes'', JArray (cy_results st))])
              (raw_fields raw))))
      in JObject
        [(''context'', JObject ctx), (''raw'', JObject raw), (''state'', JString state), (''fields'', JObject flds),
         (''physical'', JString ''Unknown''), (''qualified'', JBool False), (''arguments'', JObject args),
         (''partial_cycle'', JBool (cy_failed st + cy_skipped st > 0))])"

definition unsupported_output ::
  "(string, json) gomap \<Rightarrow> (string, json) gomap \<Rightarrow> (string, json) gomap \<Rightarrow> (string, json) gomap option \<Rightarrow> json" where
  "unsupported_output ctx raw flds args =
     JObject
       ([(''context'', JObject ctx), (''raw'', JObject raw), (''state'', JString ''Unknown''), (''fields'', JObject flds),
         (''physical'', JString ''Unknown''), (''qualified'', JBool False)] @
        (case args of None \<Rightarrow> [] | Some a \<Rightarrow> [(''arguments'', JObject a)]))"

text \<open>The arguments: missing, or an object; anything else is an error.\<close>

definition optional_arguments :: "(string, json) gomap \<Rightarrow> (string, json) gomap option option" where
  "optional_arguments obj =
     (case gm_get obj ''arguments'' of None \<Rightarrow> Some None | Some v \<Rightarrow> map_option Some (as_object (Some v)))"

definition cycle_supported ::
  "(string, json) gomap \<Rightarrow> (string, json) gomap \<Rightarrow> (string, json) gomap \<Rightarrow> json option" where
  "cycle_supported ctx raw args =
     Option.bind (as_uint 32 (gm_get args ''failure_counter'')) (\<lambda>counter.
     Option.bind
       (case gm_get args ''counter_increment'' of None \<Rightarrow> Some None | Some v \<Rightarrow> map_option Some (as_uint 32 (Some v))) (\<lambda>increment.
     Option.bind (as_array (gm_get args ''slots'')) (\<lambda>slots.
     if length slots \<noteq> 9 then None
     else Option.bind (cycle_reduce cycle_start slots) (\<lambda>st.
       Some (cycle_output ctx raw args slots counter increment st)))))"

definition ab05ap05_evaluate :: "token list \<Rightarrow> bool \<Rightarrow> json option" where
  "ab05ap05_evaluate ts at_end =
     Option.bind (json_document ts at_end) (\<lambda>doc.
     Option.bind (as_object (Some doc)) (\<lambda>root.
     Option.bind (as_object (gm_get root ''context'')) (\<lambda>ctx.
     Option.bind (as_object (gm_get root ''fields'')) (\<lambda>raw.
     if \<not> list_all (\<lambda>(_, v). byte_array v) raw then None
     else Option.bind (optional_arguments root) (\<lambda>args.
     Option.bind (all_selected
       [uint_selector ctx ''primary'' 181, uint_selector ctx ''secondary'' 22, uint_selector ctx ''operation'' 14,
        string_selector ctx ''direction'' ''local'', string_selector ctx ''view'' ''cycle'']) (\<lambda>supported.
     if \<not> supported then Some (unsupported_output ctx raw (raw_fields raw) args)
     else Option.bind args (cycle_supported ctx raw)))))))"

section \<open>What a cycle reports\<close>

definition slots_summary :: "cycle_state \<Rightarrow> cycle_slot list \<Rightarrow> cycle_state" where
  "slots_summary st slots =
     \<lparr>cy_results = cy_results st @ map slot_result slots,
      cy_sum = cy_sum st + of_nat (\<Sum>s \<leftarrow> filter slot_succeeded slots. cs_value s),
      cy_successful = cy_successful st + length (filter slot_succeeded slots),
      cy_failed = cy_failed st + length (filter (\<lambda>s. slot_attempted s \<and> \<not> slot_succeeded s) slots),
      cy_skipped = cy_skipped st + length (filter (\<lambda>s. \<not> slot_attempted s) slots)\<rparr>"

lemma slots_summary_step: "slots_summary (cycle_step st s) slots = slots_summary st (s # slots)"
  by (auto simp: slots_summary_def cycle_step_def Let_def slot_succeeded_def slot_attempted_def)

lemma cycle_reduce_summary:
  "cycle_reduce st vs = map_option (slots_summary st) (those (map cycle_slot_of vs))"
proof (induction vs arbitrary: st)
  case (Cons v vs)
  show ?case
    by (cases "cycle_slot_of v") (simp_all add: Cons.IH slots_summary_step option.map_comp comp_def)
qed (simp add: slots_summary_def)

lemma those_length: "those xs = Some ys \<Longrightarrow> length ys = length xs"
  by (induction xs arbitrary: ys) (auto split: option.splits)

lemma list_ex_length: "list_ex P xs \<longleftrightarrow> length (filter P xs) \<noteq> 0"
  by (induction xs) simp_all

lemma slots_split:
  "length (filter slot_succeeded slots) + length (filter (\<lambda>s. slot_attempted s \<and> \<not> slot_succeeded s) slots)
     + length (filter (\<lambda>s. \<not> slot_attempted s) slots) = length slots"
  by (induction slots) (auto simp: slot_succeeded_def)

definition output_member :: "json \<Rightarrow> string \<Rightarrow> json option" where
  "output_member v key = Option.bind (as_object (Some v)) (\<lambda>obj. gm_get obj key)"

definition output_field :: "json \<Rightarrow> string \<Rightarrow> string \<Rightarrow> json option" where
  "output_field v field key =
     Option.bind (output_member v ''fields'') (\<lambda>fs. Option.bind (output_member fs field) (\<lambda>f. output_member f key))"

lemma output_member_object [simp]: "output_member (JObject obj) key = gm_get obj key"
  by (simp add: output_member_def as_object_def)

lemma gm_get_first [simp]: "gm_get ((k, v) # m) j = (if j = k then Some v else gm_get m j)"
  by (simp add: gm_get_def)

text \<open>(C31)
  What a reading cycle reports, whichever of its nine slots are registered, capable and read: one result
  per slot in order; the sum of the values read, modulo 32 bits; counts of successful, failed and
  skipped slots that add up to nine; a partial cycle exactly when some slot was not read; and the failure
  counter, reset after a cycle without failures, advanced by the given increment modulo 32 bits after one
  with failures, and unknown (the document partial) when no increment was given.
\<close>

theorem cycle_report_exact:
  assumes "cycle_supported ctx raw args = Some out"
  shows "\<exists>vs slots counter.
     as_array (gm_get args ''slots'') = Some vs \<and> those (map cycle_slot_of vs) = Some slots \<and> length slots = 9 \<and>
     as_uint 32 (gm_get args ''failure_counter'') = Some counter \<and>
     output_field out ''slots'' ''outcomes'' = Some (JArray (map slot_result slots)) \<and>
     output_field out ''sum'' ''number'' = Some (json_nat ((\<Sum>s \<leftarrow> filter slot_succeeded slots. cs_value s) mod 2 ^ 32)) \<and>
     output_field out ''counts'' ''successful'' = Some (json_nat (length (filter slot_succeeded slots))) \<and>
     output_field out ''counts'' ''skipped'' = Some (json_nat (length (filter (\<lambda>s. \<not> slot_attempted s) slots))) \<and>
     output_field out ''counts'' ''failed'' =
       Some (json_nat (9 - length (filter slot_succeeded slots) - length (filter (\<lambda>s. \<not> slot_attempted s) slots))) \<and>
     output_member out ''partial_cycle'' = Some (JBool (\<not> list_all slot_succeeded slots)) \<and>
     output_field out ''failure_counter'' ''number'' =
       (if \<not> list_ex (\<lambda>s. slot_attempted s \<and> \<not> slot_succeeded s) slots then Some (json_nat 0)
        else map_option (\<lambda>i. json_nat ((counter + i) mod 2 ^ 32)) (as_uint 32 (gm_get args ''counter_increment''))) \<and>
     output_member out ''state'' = Some (JString
       (if list_ex (\<lambda>s. slot_attempted s \<and> \<not> slot_succeeded s) slots \<and> gm_get args ''counter_increment'' = None
        then ''partial'' else ''complete''))"
proof -
  obtain counter increment vs st where ok: "as_uint 32 (gm_get args ''failure_counter'') = Some counter"
    "(case gm_get args ''counter_increment'' of None \<Rightarrow> Some None | Some v \<Rightarrow> map_option Some (as_uint 32 (Some v))) = Some increment"
    "as_array (gm_get args ''slots'') = Some vs" "length vs = 9" "cycle_reduce cycle_start vs = Some st"
    "out = cycle_output ctx raw args vs counter increment st"
    using assms by (auto simp: cycle_supported_def bind_eq_Some_conv split: if_splits)
  obtain slots where slots: "those (map cycle_slot_of vs) = Some slots" "st = slots_summary cycle_start slots"
    using ok(5) by (auto simp: cycle_reduce_summary)
  have len: "length slots = 9" using those_length [OF slots(1)] ok(4) by simp
  have st: "cy_results st = map slot_result slots" "unat (cy_sum st) = (\<Sum>s \<leftarrow> filter slot_succeeded slots. cs_value s) mod 2 ^ 32"
    "length (filter slot_succeeded slots) = cy_successful st" "length (filter (\<lambda>s. \<not> slot_attempted s) slots) = cy_skipped st"
    "length (filter (\<lambda>s. slot_attempted s \<and> \<not> slot_succeeded s) slots) = cy_failed st"
    by (simp_all add: slots(2) slots_summary_def cycle_start_def unat_of_nat)
  have failed: "9 - (cy_successful st + cy_skipped st) = cy_failed st"
    using slots_split [of slots] st(3-5) len by simp
  have some: "list_ex (\<lambda>s. slot_attempted s \<and> \<not> slot_succeeded s) slots \<longleftrightarrow> cy_failed st \<noteq> 0"
    by (simp only: list_ex_length st(5))
  have "list_ex (\<lambda>s. \<not> slot_attempted s) slots \<longleftrightarrow> cy_skipped st \<noteq> 0"
    by (simp only: list_ex_length st(4))
  then have all: "list_all slot_succeeded slots \<longleftrightarrow> cy_failed st = 0 \<and> cy_skipped st = 0"
    using some by (auto simp: list_all_iff list_ex_iff slot_succeeded_def)
  have wrap: "unat (of_nat counter + of_nat i :: uint32) = (counter + i) mod 2 ^ 32" for i
    by (simp only: of_nat_add [symmetric] unat_of_nat) simp
  have incr: "as_uint 32 (gm_get args ''counter_increment'') = increment" "gm_get args ''counter_increment'' = None \<longleftrightarrow> increment = None"
    using ok(2) by (auto simp: as_uint_def split: option.splits)
  show ?thesis
    by (intro exI [of _ vs] exI [of _ slots] exI [of _ counter], cases "cy_failed st = 0"; cases increment)
      (simp_all add: ok(1,3) slots(1) len ok(6) output_field_def cycle_output_def Let_def st failed some all incr wrap
        quantity_def failure_counter_field_def)
qed

definition sample_cycle_slot :: json where
  "sample_cycle_slot =
     JObject [(''registered'', JBool True), (''capable'', JBool True), (''prior_changed'', JBool False),
       (''prior'', json_nat 10), (''prior_previous'', json_nat 0), (''outcome'', JString ''success''), (''value'', json_nat 12)]"

definition sample_cycle_arguments :: "(string, json) gomap" where
  "sample_cycle_arguments =
     [(''failure_counter'', json_nat 3), (''counter_increment'', json_nat 1), (''slots'', JArray (replicate 9 sample_cycle_slot))]"

lemma those_replicate: "those (replicate n (Some x)) = Some (replicate n x)"
  by (induction n) simp_all

theorem cycle_report_exact_witness:
  "\<exists>out. cycle_supported [] [] sample_cycle_arguments = Some out \<and> output_member out ''state'' = Some (JString ''complete'')"
proof -
  obtain s where "cycle_slot_of sample_cycle_slot = Some s"
    by (simp add: cycle_slot_of_def sample_cycle_slot_def as_object_def as_bool_def as_string_def)
  then have "cycle_reduce cycle_start (replicate 9 sample_cycle_slot) \<noteq> None"
    by (simp add: cycle_reduce_summary those_replicate)
  then obtain out where out: "cycle_supported [] [] sample_cycle_arguments = Some out"
    by (auto simp: cycle_supported_def sample_cycle_arguments_def as_array_def)
  have "gm_get sample_cycle_arguments ''counter_increment'' \<noteq> None"
    by (simp add: sample_cycle_arguments_def)
  then show ?thesis using cycle_report_exact [OF out] out by auto
qed

end
