(* ===== verification/Cat_Weekly.thy ===== *)
theory Cat_Weekly
  imports Cat_Cycle
begin

text \<open>
  The refresh of a weekly schedule and the shape of a non-heating one
  (\<open>ab07ap07_b555_weekly_refresh.go\<close>): seven days are read slot by slot until the first that cannot be
  completed. An error is \<open>None\<close>, as for the cycle reducer, and the result is the tree that is written out.
\<close>

section \<open>Input\<close>

definition uint_upto :: "nat \<Rightarrow> json option \<Rightarrow> nat option" where
  "uint_upto limit v = (case as_uint 64 v of None \<Rightarrow> None | Some n \<Rightarrow> if n > limit then None else Some n)"

definition bytes_field :: "json \<Rightarrow> bool" where
  "bytes_field v \<longleftrightarrow> (case v of JArray vs \<Rightarrow> list_all (\<lambda>b. uint_upto 255 (Some b) \<noteq> None) vs | _ \<Rightarrow> False)"

record week_slot =
  ws_raw :: json
  ws_ok :: bool
  ws_has_data :: bool

record week_day =
  wd_count :: nat
  wd_slots :: "week_slot list"

definition week_slot_of :: "json \<Rightarrow> week_slot option" where
  "week_slot_of v =
     Option.bind (as_object (Some v)) (\<lambda>slot.
     Option.bind (as_bool (gm_get slot ''ok'')) (\<lambda>ok.
     if (case gm_get slot ''raw'' of None \<Rightarrow> False | Some raw \<Rightarrow> \<not> bytes_field raw) then None
     else Some \<lparr>ws_raw = v, ws_ok = ok, ws_has_data = gm_has slot ''raw''\<rparr>))"

definition week_day_of :: "json \<Rightarrow> week_day option" where
  "week_day_of v =
     Option.bind (as_object (Some v)) (\<lambda>day.
     Option.bind (uint_upto 255 (gm_get day ''count'')) (\<lambda>count.
     Option.bind (as_array (gm_get day ''slots'')) (\<lambda>slots.
     Option.bind (those (map week_slot_of slots)) (\<lambda>slots.
       Some \<lparr>wd_count = count, wd_slots = slots\<rparr>))))"

section \<open>The refresh\<close>

record week_state =
  wk_attempts :: nat
  wk_completed :: nat
  wk_progress :: "json list"
  wk_reason :: string

text \<open>The slots of a day, up to its count: the attempts, the slots read, and why it stopped.\<close>

fun week_slots :: "nat \<Rightarrow> week_slot list \<Rightarrow> nat \<Rightarrow> json list \<Rightarrow> string \<Rightarrow> nat \<times> json list \<times> string" where
  "week_slots 0 slots attempts success reason = (attempts, success, reason)"
| "week_slots (Suc n) [] attempts success reason = (attempts, success, ''missing-slot'')"
| "week_slots (Suc n) (slot # slots) attempts success reason =
     (if \<not> ws_ok slot then (attempts + 1, success, ''slot-failure'')
      else if \<not> ws_has_data slot then (attempts + 1, success, ''missing-slot-data'')
      else week_slots n slots (attempts + 1) (success @ [ws_raw slot]) reason)"

fun week_days :: "nat \<Rightarrow> nat \<Rightarrow> week_day list \<Rightarrow> week_state \<Rightarrow> week_state" where
  "week_days limit index [] st = st"
| "week_days limit index (day # days) st =
     (if wd_count day > limit then st\<lparr>wk_reason := ''count-overflow''\<rparr>
      else let (attempts, success, reason) = week_slots (wd_count day) (wd_slots day) (wk_attempts st) [] (wk_reason st);
               finished = (length success = wd_count day);
               st' = st\<lparr>wk_attempts := attempts, wk_reason := reason, wk_progress := wk_progress st @
                 [JObject [(''day'', json_nat index), (''slots'', JArray success), (''complete'', JBool finished)]]\<rparr>
           in if \<not> finished then st'
              else week_days limit (index + 1) days (st'\<lparr>wk_completed := wk_completed st' + 1\<rparr>))"

definition week_refresh :: "bool \<Rightarrow> nat \<Rightarrow> week_day list \<Rightarrow> week_state" where
  "week_refresh status limit days =
     (let st = \<lparr>wk_attempts = 0, wk_completed = 0, wk_progress = [], wk_reason = ''status-failure''\<rparr>
      in if status then week_days limit 0 days (st\<lparr>wk_reason := ''complete''\<rparr>) else st)"

section \<open>Evaluation\<close>

definition week_output ::
  "(string, json) gomap \<Rightarrow> (string, json) gomap \<Rightarrow> (string, json) gomap \<Rightarrow> string \<Rightarrow> (string, json) gomap \<Rightarrow> bool \<Rightarrow> json" where
  "week_output ctx raw args key extra full =
     (let result = JObject
        ([(''raw'', case gm_get raw key of None \<Rightarrow> JObject args | Some v \<Rightarrow> v),
          (''state'', JString ''Hypothesis''), (''complete'', JBool full)] @ extra)
      in JObject
        [(''context'', JObject ctx), (''raw'', JObject raw), (''state'', JString (if full then ''complete'' else ''partial'')),
         (''fields'', JObject (gm_put key result (raw_fields raw))), (''physical'', JString ''Unknown''),
         (''qualified'', JBool False), (''arguments'', JObject args)])"

definition weekly_result ::
  "(string, json) gomap \<Rightarrow> (string, json) gomap \<Rightarrow> (string, json) gomap \<Rightarrow> json option" where
  "weekly_result ctx raw args =
     Option.bind (as_bool (gm_get args ''status_ok'')) (\<lambda>status.
     Option.bind (uint_upto 255 (gm_get args ''slot_limit'')) (\<lambda>limit.
     Option.bind (as_array (gm_get args ''days'')) (\<lambda>days.
     if length days \<noteq> 7 then None
     else Option.bind (those (map week_day_of days)) (\<lambda>days.
       let st = week_refresh status limit days
       in Some (week_output ctx raw args ''weekly''
            [(''attempts'', json_nat (wk_attempts st)), (''completed_days'', json_nat (wk_completed st)),
             (''days'', JArray (wk_progress st)), (''reason'', JString (wk_reason st))]
            (wk_completed st = 7))))))"

definition is_scalar :: "json \<Rightarrow> bool" where
  "is_scalar v \<longleftrightarrow> (case v of JArray _ \<Rightarrow> False | JObject _ \<Rightarrow> False | _ \<Rightarrow> True)"

definition shape_result ::
  "(string, json) gomap \<Rightarrow> (string, json) gomap \<Rightarrow> (string, json) gomap \<Rightarrow> json option" where
  "shape_result ctx raw args =
     Option.bind (as_array (gm_get args ''initial'')) (\<lambda>initial.
     if length initial \<noteq> 5 \<or> \<not> list_all is_scalar initial then None
     else Option.bind (uint_upto 255 (gm_get args ''count'')) (\<lambda>count.
     Option.bind (as_array (gm_get args ''slot_setpoints'')) (\<lambda>setpoints.
     if \<not> list_all (\<lambda>v. uint_upto 65535 (Some v) \<noteq> None) setpoints \<or> length setpoints < count then None
     else Some (week_output ctx raw args ''nonheating-shape''
            [(''initial'', JArray initial), (''processed_setpoints'', JArray (replicate count (json_nat 65535))),
             (''processed_slots'', json_nat count), (''unused_setpoints'', JArray (drop count setpoints))] True))))"

text \<open>A context value is absent, null, or of its type.\<close>

definition context_ok :: "(string, json) gomap \<Rightarrow> bool" where
  "context_ok ctx \<longleftrightarrow>
     list_all (\<lambda>key. is_nil (gm_get ctx key) \<or> uint_upto 255 (gm_get ctx key) \<noteq> None) [''primary'', ''secondary'', ''operation''] \<and>
     list_all (\<lambda>key. is_nil (gm_get ctx key) \<or> as_string (gm_get ctx key) \<noteq> None) [''direction'', ''view'']"

definition ab07ap07_evaluate :: "token list \<Rightarrow> bool \<Rightarrow> json option" where
  "ab07ap07_evaluate ts at_end =
     Option.bind (json_document ts at_end) (\<lambda>doc.
     Option.bind (as_object (Some doc)) (\<lambda>obj.
     Option.bind (as_object (gm_get obj ''context'')) (\<lambda>ctx.
     Option.bind (as_object (gm_get obj ''fields'')) (\<lambda>raw.
     if \<not> list_all (\<lambda>(_, v). bytes_field v) raw then None
     else Option.bind (optional_arguments obj) (\<lambda>args.
     if \<not> context_ok ctx then None
     else if gm_get ctx ''primary'' \<noteq> Some (JNumber ''181'') \<or> gm_get ctx ''secondary'' \<noteq> Some (JNumber ''85'') \<or>
             gm_get ctx ''direction'' \<noteq> Some (JString ''local'')
     then Some (unsupported_output ctx raw (raw_fields raw) args)
     else let weekly = (gm_get ctx ''operation'' = Some (JNumber ''164'') \<and> gm_get ctx ''view'' = Some (JString ''weekly''));
              shape = (gm_get ctx ''operation'' = Some (JNumber ''166'') \<and> gm_get ctx ''view'' = Some (JString ''nonheating-shape''))
          in if \<not> weekly \<and> \<not> shape then Some (unsupported_output ctx raw (raw_fields raw) args)
             else Option.bind args (\<lambda>a. if weekly then weekly_result ctx raw a else shape_result ctx raw a))))))"

section \<open>What a refresh completes\<close>

definition slot_readable :: "week_slot \<Rightarrow> bool" where
  "slot_readable s \<longleftrightarrow> ws_ok s \<and> ws_has_data s"

definition slots_read :: "week_day \<Rightarrow> week_slot list" where
  "slots_read day = takeWhile slot_readable (take (wd_count day) (wd_slots day))"

text \<open>A day is completed when its count is within the limit and all its slots are there and readable.\<close>

definition day_completed :: "nat \<Rightarrow> week_day \<Rightarrow> bool" where
  "day_completed limit day \<longleftrightarrow> wd_count day \<le> limit \<and> length (slots_read day) = wd_count day"

text \<open>Why a day that is not completed stops the refresh, and the attempts made on it.\<close>

definition day_failure :: "nat \<Rightarrow> week_day \<Rightarrow> string" where
  "day_failure limit day =
     (let k = length (slots_read day)
      in if wd_count day > limit then ''count-overflow''
         else if k \<ge> length (wd_slots day) then ''missing-slot''
         else if \<not> ws_ok (wd_slots day ! k) then ''slot-failure'' else ''missing-slot-data'')"

definition day_attempts :: "nat \<Rightarrow> week_day \<Rightarrow> nat" where
  "day_attempts limit day =
     (let k = length (slots_read day)
      in if wd_count day > limit then 0
         else if k = wd_count day \<or> k \<ge> length (wd_slots day) then k else k + 1)"

lemma week_slots_exact:
  "week_slots n slots attempts success reason =
     (let read = takeWhile slot_readable (take n slots); k = length read
      in (attempts + (if k = n \<or> k \<ge> length slots then k else k + 1), success @ map ws_raw read,
          if k = n then reason else if k \<ge> length slots then ''missing-slot''
          else if \<not> ws_ok (slots ! k) then ''slot-failure'' else ''missing-slot-data''))"
proof (induction n slots attempts success reason rule: week_slots.induct)
  case (3 n slot slots attempts success reason)
  then show ?case by (cases "slot_readable slot") (auto simp: slot_readable_def Let_def)
qed (simp_all add: Let_def)

text \<open>The report of a day.\<close>

definition day_report :: "nat \<Rightarrow> week_day \<Rightarrow> json" where
  "day_report index day =
     JObject [(''day'', json_nat index), (''slots'', JArray (map ws_raw (slots_read day))),
              (''complete'', JBool (length (slots_read day) = wd_count day))]"

lemma week_days_exact:
  "week_days limit index days st =
     (let n = length (takeWhile (day_completed limit) days)
      in if n = length days
         then st\<lparr>wk_attempts := wk_attempts st + (\<Sum>d \<leftarrow> days. day_attempts limit d),
                 wk_completed := wk_completed st + n,
                 wk_progress := wk_progress st @ map2 day_report [index ..< index + n] days\<rparr>
         else st\<lparr>wk_attempts := wk_attempts st + (\<Sum>d \<leftarrow> take (n + 1) days. day_attempts limit d),
                 wk_completed := wk_completed st + n,
                 wk_reason := day_failure limit (days ! n),
                 wk_progress := wk_progress st @ map2 day_report [index ..< index + n] (take n days) @
                   (if wd_count (days ! n) > limit then [] else [day_report (index + n) (days ! n)])\<rparr>)"
proof (induction days arbitrary: index st)
  case (Cons day days)
  have slots: "week_slots (wd_count day) (wd_slots day) a [] r =
      (a + day_attempts limit day, map ws_raw (slots_read day),
       if length (slots_read day) = wd_count day then r else day_failure limit day)"
    if "\<not> wd_count day > limit" for a r
    using that by (simp add: week_slots_exact slots_read_def day_attempts_def day_failure_def Let_def)
  show ?case
  proof (cases "day_completed limit day")
    case True
    then have day: "\<not> wd_count day > limit" "length (slots_read day) = wd_count day" by (simp_all add: day_completed_def)
    have step: "week_days limit index (day # days) st = week_days limit (Suc index) days
        (st\<lparr>wk_attempts := wk_attempts st + day_attempts limit day,
            wk_progress := wk_progress st @ [day_report index day], wk_completed := Suc (wk_completed st)\<rparr>)"
      using day by (simp add: slots Let_def day_report_def)
    have upt: "[index ..< Suc (index + n)] = index # [Suc index ..< Suc (index + n)]" for n
      by (simp add: upt_conv_Cons del: upt_Suc)
    show ?thesis unfolding step Cons.IH using True by (simp add: Let_def upt add.assoc del: upt_Suc)
  next
    case False
    then show ?thesis
      by (auto simp: slots Let_def day_completed_def day_failure_def day_attempts_def day_report_def)
  qed
qed simp

lemma day_attempts_bounded: "day_attempts limit day \<le> limit"
proof -
  have "length (slots_read day) \<le> wd_count day" "length (slots_read day) \<le> length (wd_slots day)"
    using length_takeWhile_le [of slot_readable "take (wd_count day) (wd_slots day)"] by (simp_all add: slots_read_def)
  then show ?thesis by (auto simp: day_attempts_def Let_def)
qed

text \<open>(C30)
  A weekly refresh is exact: a failed status reads nothing; otherwise the days are completed in order up
  to the first whose count exceeds the limit, or whose slots are missing or unreadable. The result counts
  those days, is complete exactly when all seven are, names why the first other day stopped, reports the
  slots read of every completed day (and of the day it stopped in, unless its count was too large), and
  makes as many attempts as it read slots, plus the failing one, at most the limit for each day.
\<close>

theorem weekly_refresh_exact:
  assumes "weekly_result ctx raw args = Some out"
  shows "\<exists>status limit vs days n.
     as_bool (gm_get args ''status_ok'') = Some status \<and> uint_upto 255 (gm_get args ''slot_limit'') = Some limit \<and>
     as_array (gm_get args ''days'') = Some vs \<and> those (map week_day_of vs) = Some days \<and> length days = 7 \<and>
     n = (if status then length (takeWhile (day_completed limit) days) else 0) \<and>
     output_field out ''weekly'' ''completed_days'' = Some (json_nat n) \<and>
     output_field out ''weekly'' ''complete'' = Some (JBool (status \<and> list_all (day_completed limit) days)) \<and>
     output_field out ''weekly'' ''reason'' = Some (JString
       (if \<not> status then ''status-failure'' else if n = 7 then ''complete'' else day_failure limit (days ! n))) \<and>
     output_field out ''weekly'' ''days'' = Some (JArray
       (map2 day_report [0 ..< n] (take n days) @
        (if \<not> status \<or> n = 7 \<or> wd_count (days ! n) > limit then [] else [day_report n (days ! n)]))) \<and>
     (\<exists>attempts \<le> 7 * limit. output_field out ''weekly'' ''attempts'' = Some (json_nat attempts) \<and>
        attempts = (if status then \<Sum>d \<leftarrow> take (n + 1) days. day_attempts limit d else 0))"
proof -
  obtain status limit vs days where ok: "as_bool (gm_get args ''status_ok'') = Some status"
    "uint_upto 255 (gm_get args ''slot_limit'') = Some limit" "as_array (gm_get args ''days'') = Some vs" "length vs = 7"
    "those (map week_day_of vs) = Some days"
    "out = week_output ctx raw args ''weekly''
       [(''attempts'', json_nat (wk_attempts (week_refresh status limit days))),
        (''completed_days'', json_nat (wk_completed (week_refresh status limit days))),
        (''days'', JArray (wk_progress (week_refresh status limit days))),
        (''reason'', JString (wk_reason (week_refresh status limit days)))]
       (wk_completed (week_refresh status limit days) = 7)"
    using assms by (auto simp: weekly_result_def bind_eq_Some_conv Let_def split: if_splits)
  have len: "length days = 7" using those_length [OF ok(5)] ok(4) by simp
  let ?n = "length (takeWhile (day_completed limit) days)"
  have n: "?n \<le> 7" using length_takeWhile_le [of "day_completed limit" days] len by simp
  have all: "list_all (day_completed limit) days \<longleftrightarrow> ?n = 7"
    using len by (metis list_all_iff takeWhile_eq_all_conv length_takeWhile_le takeWhile_eq_take take_all order_refl)
  have "(\<Sum>d \<leftarrow> xs. day_attempts limit d) \<le> length xs * limit" for xs
    by (induction xs) (simp_all add: add_mono day_attempts_bounded)
  from this [of "take (?n + 1) days"] have bound: "(\<Sum>d \<leftarrow> take (?n + 1) days. day_attempts limit d) \<le> 7 * limit"
    using len by (auto intro: order_trans mult_le_mono1 simp del: take_Suc)
  show ?thesis
    by (intro exI [of _ status] exI [of _ limit] exI [of _ vs] exI [of _ days] exI [of _ "if status then ?n else 0"], cases status; cases "?n = 7")
      (use bound n in \<open>simp_all add: ok(1-3,5,6) len all output_field_def week_output_def week_refresh_def week_days_exact Let_def\<close>)
qed

definition sample_week_day :: json where
  "sample_week_day =
     JObject [(''count'', json_nat 1), (''slots'', JArray [JObject [(''ok'', JBool True), (''raw'', JArray [])]])]"

definition sample_week_arguments :: "(string, json) gomap" where
  "sample_week_arguments =
     [(''status_ok'', JBool True), (''slot_limit'', json_nat 0), (''days'', JArray (replicate 7 sample_week_day))]"

theorem weekly_refresh_exact_witness:
  "\<exists>out. weekly_result [] [] sample_week_arguments = Some out \<and>
     output_field out ''weekly'' ''reason'' = Some (JString ''count-overflow'')"
proof -
  obtain d where d: "week_day_of sample_week_day = Some d" "wd_count d = 1"
    by (simp add: week_day_of_def sample_week_day_def as_object_def as_bool_def as_array_def uint_upto_def week_slot_of_def bytes_field_def)
  have days: "those (map week_day_of (replicate 7 sample_week_day)) = Some (replicate 7 d)"
    by (simp add: d those_replicate)
  have args: "as_bool (gm_get sample_week_arguments ''status_ok'') = Some True"
    "uint_upto 255 (gm_get sample_week_arguments ''slot_limit'') = Some 0"
    "as_array (gm_get sample_week_arguments ''days'') = Some (replicate 7 sample_week_day)"
    by (simp_all add: sample_week_arguments_def as_bool_def as_array_def uint_upto_def)
  then obtain out where out: "weekly_result [] [] sample_week_arguments = Some out"
    by (simp add: weekly_result_def d those_replicate Let_def)
  have "\<not> day_completed 0 d" by (simp add: day_completed_def d(2))
  then have "takeWhile (day_completed 0) (replicate 7 d) = []" "day_failure 0 d = ''count-overflow''"
    by (simp_all add: day_failure_def d(2) Let_def)
  then show ?thesis using weekly_refresh_exact [OF out] out by (auto simp: args d those_replicate)
qed

end
