(* ===== verification/Cat_Transitions.thy ===== *)
theory Cat_Transitions
  imports Cat_Cycle
begin

text \<open>
  Four evaluators that model one transition of a controller's cached state: the B5 10 capability cache
  (\<open>ab11ao11_b510_cache_transition.go\<close>), the B5 11 failure flag (\<open>ab13ao13_b511_failure_transition.go\<close>),
  the B5 31 capability word and row selection (\<open>ab01ap01_b531_capability_state.go\<close>) and the B5 55
  manager gate (\<open>ab09ap09_b555_manager_gate.go\<close>). An error is \<open>None\<close>.
\<close>

section \<open>Numbers\<close>

text \<open>\<open>big.Int.SetString\<close> and \<open>strconv.ParseInt\<close> in base ten on the text of a number.\<close>

definition as_integer :: "json option \<Rightarrow> int option" where
  "as_integer v = (case v of Some (JNumber s) \<Rightarrow> int_parse s | _ \<Rightarrow> None)"

definition as_int64 :: "json option \<Rightarrow> int option" where
  "as_int64 v = (case as_integer v of None \<Rightarrow> None | Some n \<Rightarrow> if is_int64 n then Some n else None)"

definition json_int :: "int \<Rightarrow> json" where
  "json_int n = JNumber (int_str n)"

definition signed_byte_array :: "(json option \<Rightarrow> int option) \<Rightarrow> json \<Rightarrow> bool" where
  "signed_byte_array num v \<longleftrightarrow>
     (case v of JArray vs \<Rightarrow> list_all (\<lambda>b. case num (Some b) of None \<Rightarrow> False | Some n \<Rightarrow> 0 \<le> n \<and> n \<le> 255) vs | _ \<Rightarrow> False)"

text \<open>An object under a key that may be missing.\<close>

definition object_or_empty :: "(string, json) gomap \<Rightarrow> string \<Rightarrow> (string, json) gomap option" where
  "object_or_empty obj key = (case gm_get obj key of None \<Rightarrow> Some [] | Some v \<Rightarrow> as_object (Some v))"

section \<open>The B5 10 cache\<close>

text \<open>An axis that, when present, must have its type: whether it has the expected value.\<close>

definition present_integer :: "(string, json) gomap \<Rightarrow> string \<Rightarrow> int \<Rightarrow> bool option" where
  "present_integer ctx key expected =
     (case gm_get ctx key of None \<Rightarrow> Some False | Some v \<Rightarrow> map_option (\<lambda>n. n = expected) (as_integer (Some v)))"

definition present_string :: "(string, json) gomap \<Rightarrow> string \<Rightarrow> string \<Rightarrow> bool option" where
  "present_string ctx key expected =
     (case gm_get ctx key of None \<Rightarrow> Some False | Some v \<Rightarrow> map_option (\<lambda>s. s = expected) (as_string (Some v)))"

definition cache_argument :: "string \<Rightarrow> json \<Rightarrow> bool" where
  "cache_argument name v \<longleftrightarrow>
     (if name = ''parsed'' then as_bool (Some v) \<noteq> None
      else if name = ''count'' then as_integer (Some v) \<noteq> None else False)"

text \<open>A field of one byte.\<close>

definition single_byte :: "(string, json) gomap \<Rightarrow> string \<Rightarrow> int option" where
  "single_byte raw name =
     (case as_array (gm_get raw name) of Some [b] \<Rightarrow> as_integer (Some b) | _ \<Rightarrow> None)"

text \<open>The cell, its freshness, the rule and the state of the rule.\<close>

definition cache_transition :: "bool \<Rightarrow> int \<Rightarrow> int \<Rightarrow> int \<Rightarrow> int \<Rightarrow> int \<times> string \<times> string \<times> string" where
  "cache_transition parsed feedback cnt prior bit_six =
     (if parsed \<and> feedback = 1 then
        if cnt = 0 then (prior, ''Unknown'', ''Unknown'', ''Unknown'')
        else if cnt \<le> 2 then (0, ''fresh'', ''replace-zero'', ''Hypothesis'')
        else (bit_six, ''fresh'', ''replace-bit-six'', ''Hypothesis'')
      else (prior, ''Unknown'', ''retain'', ''Hypothesis''))"

definition context_output ::
  "(string, json) gomap \<Rightarrow> (string, json) gomap \<Rightarrow> (string, json) gomap option \<Rightarrow> string \<Rightarrow> (string, json) gomap \<Rightarrow> json" where
  "context_output ctx raw args state flds =
     JObject
       ([(''context'', JObject ctx), (''raw'', JObject raw), (''state'', JString state), (''fields'', JObject flds),
         (''physical'', JString ''Unknown''), (''qualified'', JBool False)] @
        (case args of None \<Rightarrow> [] | Some a \<Rightarrow> [(''arguments'', JObject a)]))"

definition raw_of :: "(string, json) gomap \<Rightarrow> string \<Rightarrow> json" where
  "raw_of raw key = (case gm_get raw key of None \<Rightarrow> JNull | Some v \<Rightarrow> v)"

definition cache_document ::
  "(string, json) gomap \<Rightarrow> (string, json) gomap \<Rightarrow> (string, json) gomap option \<Rightarrow> bool \<Rightarrow> json" where
  "cache_document ctx raw args selected =
     (let a = (case args of None \<Rightarrow> [] | Some a \<Rightarrow> a);
          unknown = context_output ctx raw args ''Unknown'' []
      in case (single_byte raw ''prior'', single_byte raw ''feedback'', single_byte raw ''bit_six'',
               as_bool (gm_get a ''parsed''), as_integer (gm_get a ''count'')) of
           (Some prior, Some feedback, Some bit_six, Some parsed, Some cnt) \<Rightarrow>
             if \<not> selected \<or> (bit_six \<noteq> 0 \<and> bit_six \<noteq> 64) \<or> cnt < 0 then unknown
             else let (cell, freshness, rule, rule_state) = cache_transition parsed feedback cnt prior bit_six
                  in context_output ctx raw args (if rule_state \<noteq> ''Unknown'' then ''Hypothesis'' else ''Unknown'')
                    [(''cache'', JObject [(''raw'', raw_of raw ''prior''), (''state'', JString ''Hypothesis''), (''number'', json_int cell)]),
                     (''freshness'', JObject [(''raw'', raw_of raw ''feedback''), (''state'', JString ''Hypothesis''), (''label'', JString freshness)]),
                     (''rule'', JObject [(''raw'', raw_of raw ''bit_six''), (''state'', JString rule_state), (''label'', JString rule)])]
         | _ \<Rightarrow> unknown)"

definition ab11ao11_interpret :: "token list \<Rightarrow> bool \<Rightarrow> json option" where
  "ab11ao11_interpret ts at_end =
     Option.bind (json_document ts at_end) (\<lambda>doc.
     Option.bind (as_object (Some doc)) (\<lambda>obj.
     Option.bind (object_or_empty obj ''context'') (\<lambda>ctx.
     Option.bind (object_or_empty obj ''fields'') (\<lambda>raw.
     if \<not> list_all (\<lambda>(_, v). signed_byte_array as_integer v) raw then None
     else Option.bind (all_selected
       [present_integer ctx ''primary'' 181, present_integer ctx ''secondary'' 16,
        (case gm_get ctx ''operation'' of None \<Rightarrow> Some True | Some v \<Rightarrow> map_option (\<lambda>_. False) (as_integer (Some v))),
        present_string ctx ''direction'' ''local'', present_string ctx ''view'' ''capability-query'']) (\<lambda>selected.
     Option.bind (optional_arguments obj) (\<lambda>args.
     if \<not> list_all (\<lambda>(name, v). cache_argument name v) (case args of None \<Rightarrow> [] | Some a \<Rightarrow> a) then None
     else Some (cache_document ctx raw args selected)))))))"

section \<open>The B5 11 failure flag\<close>

definition failure_argument :: "string \<Rightarrow> json \<Rightarrow> bool" where
  "failure_argument name v \<longleftrightarrow>
     (if name = ''parsed'' then as_bool (Some v) \<noteq> None
      else if name \<in> {''index'', ''selector'', ''local_selector'', ''count''}
      then (case as_int64 (Some v) of None \<Rightarrow> False | Some n \<Rightarrow> 0 \<le> n) else False)"

text \<open>The bytes of a field; an absent field has none.\<close>

definition field_bytes :: "(string, json) gomap \<Rightarrow> string \<Rightarrow> int list" where
  "field_bytes raw name =
     (case as_array (gm_get raw name) of
        None \<Rightarrow> []
      | Some vs \<Rightarrow> map (\<lambda>v. case as_int64 (Some v) of None \<Rightarrow> 0 | Some n \<Rightarrow> n) vs)"

definition failure_field :: "json \<Rightarrow> bool \<Rightarrow> json" where
  "failure_field raw failure =
     JObject [(''raw'', raw), (''state'', JString ''Hypothesis''), (''flags'', JObject [(''failure'', JBool failure)])]"

definition timer_consume ::
  "(string, json) gomap \<Rightarrow> (string, json) gomap \<Rightarrow> (string, json) gomap option \<Rightarrow> json" where
  "timer_consume ctx raw args =
     (let a = (case args of None \<Rightarrow> [] | Some a \<Rightarrow> a); prior = field_bytes raw ''prior_failure''
      in if as_int64 (gm_get a ''index'') \<noteq> Some 0 then context_output ctx raw args ''Unknown'' []
         else if length prior \<noteq> 1 then context_output ctx raw args ''partial'' []
         else let failure = prior ! 0 \<noteq> 0
              in context_output ctx raw args ''Hypothesis''
                [(''failure'', failure_field (raw_of raw ''prior_failure'') failure),
                 (''path'', JObject
                   ([(''raw'', raw_of raw ''prior_failure''), (''state'', JString ''Hypothesis''),
                     (''label'', JString (if failure then ''error'' else ''capability-path''))] @
                    (if failure then [(''number'', json_int 120)] else [])))])"

definition refresh_failure ::
  "(string, json) gomap \<Rightarrow> (string, json) gomap \<Rightarrow> (string, json) gomap option \<Rightarrow> json" where
  "refresh_failure ctx raw args =
     (let a = (case args of None \<Rightarrow> [] | Some a \<Rightarrow> a);
          prior = field_bytes raw ''prior_failure''; registration = field_bytes raw ''registration'';
          body = field_bytes raw ''local_body'';
          state = (if length prior = 1 then ''Hypothesis'' else ''partial'');
          kept = (if length prior = 1 then [(''failure'', failure_field (raw_of raw ''prior_failure'') (prior ! 0 \<noteq> 0))] else [])
      in case (as_int64 (gm_get a ''index''), as_int64 (gm_get a ''selector''), as_int64 (gm_get a ''local_selector''),
               as_int64 (gm_get a ''count''), as_bool (gm_get a ''parsed'')) of
           (Some index, Some selector, Some local_selector, Some cnt, Some parsed) \<Rightarrow>
             if length registration \<noteq> 1 then context_output ctx raw args ''partial'' kept
             else if even (registration ! 0) \<or> index = 1 \<or> selector = local_selector \<or> \<not> parsed \<or> cnt = 0
             then context_output ctx raw args state kept
             else if length body < 9 then context_output ctx raw args ''partial'' kept
             else let copied = JArray (map json_int (take 9 body))
                  in context_output ctx raw args state
                    [(''copied'', JObject [(''raw'', copied), (''state'', JString ''Hypothesis'')]),
                     (''failure'', failure_field copied (odd (body ! 8)))]
         | _ \<Rightarrow> context_output ctx raw args ''partial'' kept)"

definition failure_document ::
  "(string, json) gomap \<Rightarrow> (string, json) gomap \<Rightarrow> (string, json) gomap option \<Rightarrow> json" where
  "failure_document ctx raw args =
     (let unknown = context_output ctx raw args ''Unknown'' [];
          view = (case as_string (gm_get ctx ''view'') of None \<Rightarrow> [] | Some s \<Rightarrow> s)
      in if as_int64 (gm_get ctx ''primary'') \<noteq> Some 181 \<or> as_int64 (gm_get ctx ''secondary'') \<noteq> Some 17 \<or>
            gm_get ctx ''direction'' \<noteq> Some (JString ''local'') then unknown
         else if view = ''refresh'' then
           if as_int64 (gm_get ctx ''operation'') \<noteq> Some 1 then unknown else refresh_failure ctx raw args
         else if gm_has ctx ''operation'' then unknown
         else if view = ''initialize'' then
           context_output ctx raw args ''Hypothesis'' [(''failure'', failure_field (JArray []) False)]
         else if view = ''timer-consume'' then timer_consume ctx raw args
         else unknown)"

definition ab13ao13_interpret :: "token list \<Rightarrow> bool \<Rightarrow> json option" where
  "ab13ao13_interpret ts at_end =
     Option.bind (json_document ts at_end) (\<lambda>doc.
     Option.bind (as_object (Some doc)) (\<lambda>obj.
     Option.bind (as_object (gm_get obj ''context'')) (\<lambda>ctx.
     Option.bind (as_object (gm_get obj ''fields'')) (\<lambda>raw.
     if \<not> list_all (\<lambda>(_, v). signed_byte_array as_int64 v) raw then None
     else if \<not> list_all (\<lambda>key. gm_has ctx key \<longrightarrow> as_int64 (gm_get ctx key) \<noteq> None) [''primary'', ''secondary'', ''operation''] then None
     else if \<not> list_all (\<lambda>key. gm_has ctx key \<longrightarrow> as_string (gm_get ctx key) \<noteq> None) [''direction'', ''view''] then None
     else Option.bind (optional_arguments obj) (\<lambda>args.
     if \<not> list_all (\<lambda>(name, v). failure_argument name v) (case args of None \<Rightarrow> [] | Some a \<Rightarrow> a) then None
     else Some (failure_document ctx raw args))))))"

section \<open>The B5 31 capability word\<close>

definition optional_uint32 :: "(string, json) gomap \<Rightarrow> string \<Rightarrow> bool" where
  "optional_uint32 a key \<longleftrightarrow> (case gm_get a key of None \<Rightarrow> True | Some v \<Rightarrow> as_uint 32 (Some v) \<noteq> None)"

text \<open>A row: its three words.\<close>

definition capability_row :: "json \<Rightarrow> (nat \<times> nat \<times> nat) option" where
  "capability_row v =
     Option.bind (as_object (Some v)) (\<lambda>row.
     Option.bind (as_uint 32 (gm_get row ''a'')) (\<lambda>a.
     Option.bind (as_uint 32 (gm_get row ''b'')) (\<lambda>b.
     Option.bind (as_uint 32 (gm_get row ''c'')) (\<lambda>c. Some (a, b, c)))))"

definition capability_rows :: "(string, json) gomap \<Rightarrow> (nat \<times> nat \<times> nat) list option option" where
  "capability_rows a =
     (case gm_get a ''rows'' of
        None \<Rightarrow> Some None
      | Some v \<Rightarrow>
          Option.bind (as_array (Some v)) (\<lambda>rows.
          if length rows \<noteq> 9 then None else map_option Some (those (map capability_row rows))))"

definition capability_update :: "nat \<Rightarrow> nat \<Rightarrow> nat \<Rightarrow> nat \<times> string" where
  "capability_update registered prior result =
     (if registered = 0 then (prior, ''skipped'')
      else if result = 0 then (0, ''cleared'')
      else if result = 1 then (if prior = 0 then 1 else prior, ''admitted'')
      else (prior, ''Unknown''))"

text \<open>The first row of three words other than zero, or the number of rows.\<close>

fun select_row :: "nat \<Rightarrow> (nat \<times> nat \<times> nat) list \<Rightarrow> nat" where
  "select_row position [] = 9"
| "select_row position ((a, b, c) # rows) =
     (if a \<noteq> 0 \<and> b \<noteq> 0 \<and> c \<noteq> 0 then position else select_row (position + 1) rows)"

definition capability_fields :: "bool \<Rightarrow> (string, json) gomap \<Rightarrow> (string, json) gomap" where
  "capability_fields supported raw =
     gm_map (\<lambda>_ v. JObject
       [(''raw'', v),
        (''state'', JString (if supported \<and> v = JArray [] then ''incomplete'' else ''Unknown'')),
        (''unmodeled'', JBool True)]) raw"

definition capability_output ::
  "(string, json) gomap \<Rightarrow> (string, json) gomap \<Rightarrow> (string, json) gomap option \<Rightarrow> bool \<Rightarrow> (string, json) gomap \<Rightarrow> string \<Rightarrow> json" where
  "capability_output ctx raw args supported extra state =
     JObject
       ([(''context'', JObject ctx), (''raw'', JObject raw), (''fields'', JObject (capability_fields supported raw)),
         (''physical'', JString ''Unknown''), (''qualified'', JBool False)] @
        (case args of None \<Rightarrow> [] | Some a \<Rightarrow> [(''arguments'', JObject a)]) @ extra @ [(''state'', JString state)])"

definition capability_document ::
  "(string, json) gomap \<Rightarrow> (string, json) gomap \<Rightarrow> (string, json) gomap option \<Rightarrow> bool \<Rightarrow> json option" where
  "capability_document ctx raw args supported =
     (let a = (case args of None \<Rightarrow> [] | Some a \<Rightarrow> a);
          state = (if list_ex (\<lambda>(_, v). v = JArray []) raw then ''partial'' else ''complete'')
      in if \<not> list_all (optional_uint32 a) [''registered'', ''prior'', ''result''] then None
         else Option.bind (capability_rows a) (\<lambda>rows.
         if \<not> supported then Some (capability_output ctx raw args False [] ''Unknown'')
         else if gm_get ctx ''view'' = Some (JString ''capability'') then
           Option.bind (as_uint 32 (gm_get a ''registered'')) (\<lambda>registered.
           Option.bind (as_uint 32 (gm_get a ''prior'')) (\<lambda>prior.
           Option.bind (as_uint 32 (gm_get a ''result'')) (\<lambda>result.
             let (updated, outcome) = capability_update registered prior result
             in Some (capability_output ctx raw args True
               [(''capability'', JObject
                  [(''state'', JString ''Hypothesis''), (''calculation'', JString ''Proven''), (''marker'', json_nat 65535),
                   (''updated'', json_nat updated), (''cached_bit0'', JBool (odd updated)),
                   (''whole_nonzero'', JBool (updated \<noteq> 0)), (''outcome'', JString outcome)])] state))))
         else Option.bind rows (\<lambda>rs.
           Some (capability_output ctx raw args True
             [(''select'', JObject
                [(''state'', JString ''Hypothesis''), (''calculation'', JString ''Proven''), (''index'', json_nat (select_row 0 rs))])]
             state))))"

definition ab01ap01_evaluate :: "token list \<Rightarrow> bool \<Rightarrow> json option" where
  "ab01ap01_evaluate ts at_end =
     Option.bind (json_document ts at_end) (\<lambda>doc.
     Option.bind (as_object (Some doc)) (\<lambda>obj.
     Option.bind (as_object (gm_get obj ''context'')) (\<lambda>ctx.
     Option.bind (as_object (gm_get obj ''fields'')) (\<lambda>raw.
     Option.bind (all_selected
       [uint_selector ctx ''primary'' 181, uint_selector ctx ''secondary'' 49, uint_selector ctx ''operation'' 1]) (\<lambda>axes.
     if \<not> list_all (\<lambda>key. is_nil (gm_get ctx key) \<or> as_string (gm_get ctx key) \<noteq> None) [''direction'', ''view''] then None
     else if \<not> list_all (\<lambda>(_, v). byte_array v) raw then None
     else Option.bind (optional_arguments obj) (\<lambda>args.
       capability_document ctx raw args
         (axes \<and> gm_get ctx ''direction'' = Some (JString ''local'') \<and>
          (gm_get ctx ''view'' = Some (JString ''capability'') \<or> gm_get ctx ''view'' = Some (JString ''select'')))))))))"

section \<open>The B5 55 manager gate\<close>

definition gate_arguments_ok :: "(string, json) gomap \<Rightarrow> bool" where
  "gate_arguments_ok a \<longleftrightarrow>
     (gm_has a ''controller_type'' \<longrightarrow> as_uint 8 (gm_get a ''controller_type'') \<noteq> None) \<and>
     (gm_has a ''spn'' \<longrightarrow> as_uint 16 (gm_get a ''spn'') \<noteq> None) \<and>
     (is_nil (gm_get a ''family_match'') \<or> as_bool (gm_get a ''family_match'') \<noteq> None)"

definition uint_or_zero :: "nat \<Rightarrow> json option \<Rightarrow> nat" where
  "uint_or_zero bits v = (case as_uint bits v of None \<Rightarrow> 0 | Some n \<Rightarrow> n)"

definition manager_eligible :: "nat \<Rightarrow> nat \<Rightarrow> bool \<Rightarrow> nat \<Rightarrow> bool" where
  "manager_eligible controller_type spn family reply \<longleftrightarrow>
     controller_type = 2 \<and> spn = 385 \<and> family \<and> odd reply \<and> odd (reply div 2)"

definition gate_reply :: "(string, json) gomap \<Rightarrow> json \<Rightarrow> nat \<Rightarrow> json" where
  "gate_reply a raw reply =
     (let family = (as_bool (gm_get a ''family_match'') = Some True)
      in JObject
        [(''state'', JString ''Hypothesis''), (''raw'', raw), (''calculation'', JString ''Proven''),
         (''flags'', JObject [(''bit0'', JBool (odd reply)), (''bit1'', JBool (odd (reply div 2)))]),
         (''unmodeled'', json_nat (reply div 4 * 4)),
         (''eligible'', JBool (manager_eligible (uint_or_zero 8 (gm_get a ''controller_type''))
            (uint_or_zero 16 (gm_get a ''spn'')) family reply)),
         (''first_bit_policy'', JBool (odd reply)), (''first_bit_policy_label'', JString ''caller predicate''),
         (''family_role'', json_nat 0x15), (''route_role'', json_nat 0x08),
         (''family_applicability'', JString (if is_nil (gm_get a ''family_match'') then ''Unknown'' else ''Hypothesis'')),
         (''unknown'', JArray [JString ''exact family prefix'', JString ''reply adaptation'', JString ''actual manager state'',
            JString ''physical support''])])"

definition gate_document ::
  "(string, json) gomap \<Rightarrow> (string, json) gomap \<Rightarrow> (string, json) gomap option \<Rightarrow> bool \<Rightarrow> json option" where
  "gate_document ctx raw args supported =
     (let a = (case args of None \<Rightarrow> [] | Some a \<Rightarrow> a)
      in if \<not> supported then Some (context_output ctx raw args ''Unknown'' [])
         else if \<not> list_all (gm_has a) [''controller_type'', ''spn'', ''family_match''] then None
         else case as_array (gm_get raw ''reply'') of
                Some [b] \<Rightarrow>
                  Some (context_output ctx raw args ''complete''
                    [(''reply'', gate_reply a (raw_of raw ''reply'') (uint_or_zero 8 (Some b)))])
              | _ \<Rightarrow>
                  Some (context_output ctx raw args ''partial''
                    [(''reply'', JObject ([(''state'', JString ''incomplete'')] @
                       (if gm_has raw ''reply'' then [(''raw'', raw_of raw ''reply'')] else [])))]))"

definition ab09ap09_evaluate :: "token list \<Rightarrow> bool \<Rightarrow> json option" where
  "ab09ap09_evaluate ts at_end =
     Option.bind (json_document ts at_end) (\<lambda>doc.
     Option.bind (as_object (Some doc)) (\<lambda>obj.
     Option.bind (as_object (gm_get obj ''context'')) (\<lambda>ctx.
     Option.bind (as_object (gm_get obj ''fields'')) (\<lambda>raw.
     if \<not> list_all (\<lambda>(_, v). byte_array v) raw then None
     else Option.bind (optional_arguments obj) (\<lambda>args.
     if \<not> gate_arguments_ok (case args of None \<Rightarrow> [] | Some a \<Rightarrow> a) then None
     else Option.bind (all_selected
       [uint_selector ctx ''primary'' 181, uint_selector ctx ''secondary'' 85, uint_selector ctx ''operation'' 0,
        string_selector ctx ''direction'' ''local'', string_selector ctx ''view'' ''manager-gate'']) (\<lambda>supported.
       gate_document ctx raw args supported))))))"

section \<open>Where cached state comes from\<close>

lemma context_output_field [simp]:
  "output_field (context_output ctx raw args state flds) field key =
     Option.bind (gm_get flds field) (\<lambda>f. output_member f key)"
  by (simp add: output_field_def context_output_def)

lemma context_output_state [simp]:
  "output_member (context_output ctx raw args state flds) ''state'' = Some (JString state)"
  by (simp add: context_output_def)

text \<open>
  A selected row is the first of three words other than zero.
\<close>

lemma select_row_exact:
  "select_row position rows =
     (let good = (\<lambda>(a, b, c). a \<noteq> 0 \<and> b \<noteq> 0 \<and> c \<noteq> 0); k = length (takeWhile (\<lambda>r. \<not> good r) rows)
      in if k < length rows then position + k else 9)"
  by (induction position rows rule: select_row.induct) (auto simp: Let_def)

text \<open>
  The capability cache reports the prior cell, unless the answer was parsed, positive and not empty; the
  new cell is then zero for an answer of one or two bytes, and the capability bit for a longer one.
\<close>

theorem cache_cell_source:
  assumes "output_field (cache_document ctx raw args selected) ''cache'' ''number'' = Some v"
  shows "\<exists>prior feedback bit_six parsed cnt.
     single_byte raw ''prior'' = Some prior \<and> single_byte raw ''feedback'' = Some feedback \<and>
     single_byte raw ''bit_six'' = Some bit_six \<and> bit_six \<in> {0, 64} \<and> cnt \<ge> 0 \<and>
     as_bool (gm_get (case args of None \<Rightarrow> [] | Some a \<Rightarrow> a) ''parsed'') = Some parsed \<and>
     as_integer (gm_get (case args of None \<Rightarrow> [] | Some a \<Rightarrow> a) ''count'') = Some cnt \<and>
     v = json_int (if parsed \<and> feedback = 1 \<and> cnt > 0 then (if cnt \<le> 2 then 0 else bit_six) else prior)"
proof -
  define a where "a = (case args of None \<Rightarrow> [] | Some a \<Rightarrow> a)"
  note doc = assms [unfolded cache_document_def Let_def, folded a_def]
  obtain prior feedback bit_six parsed cnt where
    "single_byte raw ''prior'' = Some prior" "single_byte raw ''feedback'' = Some feedback"
    "single_byte raw ''bit_six'' = Some bit_six" "as_bool (gm_get a ''parsed'') = Some parsed"
    "as_integer (gm_get a ''count'') = Some cnt"
    using doc
    by (cases "single_byte raw ''prior''"; cases "single_byte raw ''feedback''"; cases "single_byte raw ''bit_six''";
        cases "as_bool (gm_get a ''parsed'')"; cases "as_integer (gm_get a ''count'')") simp_all
  note given = this
  have "bit_six \<in> {0, 64}" "cnt \<ge> 0" using doc unfolding given by (auto split: if_splits)
  moreover have "v = json_int (if parsed \<and> feedback = 1 \<and> cnt > 0 then (if cnt \<le> 2 then 0 else bit_six) else prior)"
    using doc \<open>cnt \<ge> 0\<close> unfolding given cache_transition_def by (auto split: if_splits)
  ultimately show ?thesis using given unfolding a_def [symmetric] by blast
qed

text \<open>
  The failure flag a refresh reports is the prior one, unless the slot is registered and not the excluded
  one, the selector is not the local one, and the answer was parsed and not empty; it is then the lowest
  bit of the ninth byte of the copied body.
\<close>

theorem failure_flag_source:
  assumes "output_field (refresh_failure ctx raw args) ''failure'' ''flags'' = Some f"
  shows "f = JObject [(''failure'', JBool (field_bytes raw ''prior_failure'' ! 0 \<noteq> 0))] \<and>
           length (field_bytes raw ''prior_failure'') = 1 \<or>
         f = JObject [(''failure'', JBool (odd (field_bytes raw ''local_body'' ! 8)))] \<and>
           length (field_bytes raw ''local_body'') \<ge> 9 \<and> length (field_bytes raw ''registration'') = 1 \<and>
           odd (field_bytes raw ''registration'' ! 0) \<and>
           as_bool (gm_get (case args of None \<Rightarrow> [] | Some a \<Rightarrow> a) ''parsed'') = Some True"
  using assms
  by (auto simp: refresh_failure_def Let_def failure_field_def split: option.splits if_splits)

text \<open>A manager is eligible exactly for its type and parameter number, a known family and both bits.\<close>

theorem gate_eligible_source:
  assumes "gate_document ctx raw (Some a) True = Some out"
    and "output_field out ''reply'' ''eligible'' = Some (JBool True)"
  shows "as_uint 8 (gm_get a ''controller_type'') = Some 2 \<and> as_uint 16 (gm_get a ''spn'') = Some 385 \<and>
     as_bool (gm_get a ''family_match'') = Some True \<and>
     (\<exists>b n. as_array (gm_get raw ''reply'') = Some [b] \<and> as_uint 8 (Some b) = Some n \<and> n mod 4 = 3)"
proof -
  have "odd n \<Longrightarrow> odd (n div 2) \<Longrightarrow> n mod 4 = 3" for n :: nat by presburger
  then show ?thesis using assms
    by (auto simp: gate_document_def Let_def output_field_def context_output_def gate_reply_def manager_eligible_def
        uint_or_zero_def split: option.splits if_splits list.splits)
qed

end
