(* ===== verification/Vai_Projections.thy ===== *)
theory Vai_Projections
  imports Vai_System Reg_Index Reg_State
begin

text \<open>
  The projections the system provider makes of a device (\<open>vaillant/system/projections.go\<close>): the
  service plane with one node per method, views of it on other planes, and a root for each of the
  domain planes the device has. A plane of the registry is never nil in this model, so the nil test
  of \<open>planeNameSet\<close> has no counterpart.
\<close>

section \<open>Paths of a device\<close>

definition plane_name_set :: "'m plane list \<Rightarrow> string set" where
  "plane_name_set planes = set (map to_lower (filter (\<lambda>n. n \<noteq> []) (map (trim_space \<circ> plane_name) planes)))"

definition should_create_projections :: "'m plane list \<Rightarrow> bool" where
  "should_create_projections planes \<longleftrightarrow> plane_name_set planes \<noteq> {}"

definition named_segment :: "string \<Rightarrow> path_segment" where
  "named_segment name = \<lparr>seg_name = name, seg_location = False\<rparr>"

definition projection_base_segments :: "device_info \<Rightarrow> path_segment list" where
  "projection_base_segments info =
     (let addr = hex2 (di_address info);
          trimmed = trim_space (di_device_id info);
          device_id = (if trimmed = [] then addr else trimmed)
      in [named_segment ''ebus'', named_segment (''addr@'' @ addr), named_segment (''device@'' @ device_id)])"

definition method_segment :: "string \<Rightarrow> path_segment" where
  "method_segment name = named_segment (''method@'' @ name)"

definition system_node :: "string \<Rightarrow> path_segment list \<Rightarrow> projection_path \<Rightarrow> node option" where
  "system_node plane segments canonical =
     (case new_node \<lparr>path_plane = plane, path_segments = segments\<rparr> canonical of Inl _ \<Rightarrow> None | Inr n \<Rightarrow> Some n)"

section \<open>Projections\<close>

definition service_path :: "path_segment list \<Rightarrow> projection_path" where
  "service_path segments = \<lparr>path_plane = ServicePlane, path_segments = segments\<rparr>"

text \<open>An edge or projection the registry refuses is left out.\<close>

definition edges_from_root :: "string \<Rightarrow> node \<Rightarrow> node list \<Rightarrow> edge list" where
  "edges_from_root plane root_node targets =
     concat (map (\<lambda>n. case new_edge plane (node_id root_node) (node_id n) of Inl _ \<Rightarrow> [] | Inr e \<Rightarrow> [e]) targets)"

definition projection_if_valid :: "string \<Rightarrow> node list \<Rightarrow> edge list \<Rightarrow> plane_projection list" where
  "projection_if_valid plane nodes edges = (case new_projection plane nodes edges of Inl _ \<Rightarrow> [] | Inr p \<Rightarrow> [p])"

definition root_projection_if_present ::
  "string set \<Rightarrow> string \<Rightarrow> projection_path \<Rightarrow> path_segment list \<Rightarrow> plane_projection list" where
  "root_projection_if_present planes plane canonical base =
     (if to_lower plane \<notin> planes then []
      else case system_node plane base canonical of
             None \<Rightarrow> []
           | Some n \<Rightarrow> projection_if_valid plane [n] [])"

text \<open>A method with its node on the service plane and on the plane that shows it.\<close>

definition method_nodes ::
  "path_segment list \<Rightarrow> string \<Rightarrow> string \<Rightarrow> path_segment \<Rightarrow> (node \<times> node) option" where
  "method_nodes base method plane view =
     (let canonical = service_path (base @ [method_segment method]) in
      Option.bind (system_node ServicePlane (path_segments canonical) canonical) (\<lambda>service.
      Option.bind (system_node plane (base @ [view]) canonical) (\<lambda>shown. Some (service, shown))))"

definition system_create_projections :: "device_info \<Rightarrow> 'm plane list \<Rightarrow> plane_projection list" where
  "system_create_projections info planes =
     (if \<not> should_create_projections planes then []
      else
        let base = projection_base_segments info; root_path = service_path base; names = plane_name_set planes in
        case
          Option.bind (system_node ServicePlane base root_path) (\<lambda>root_service.
          Option.bind (system_node ''Observability'' base root_path) (\<lambda>root_observability.
          Option.bind (system_node ''Debug'' base root_path) (\<lambda>root_debug.
          Option.bind (method_nodes base ''get_operational_data'' ''Observability'' (method_segment ''get_operational_data''))
            (\<lambda>(operational, operational_observability).
          Option.bind (method_nodes base ''get_register'' ''Debug'' (named_segment ''register@b509'')) (\<lambda>(register, register_debug).
          Option.bind (method_nodes base ''get_ext_register'' ''Debug'' (named_segment ''register@b524'')) (\<lambda>(ext, ext_debug).
          Option.bind (method_nodes base ''read_timer'' ''Debug'' (named_segment ''timer@b524'')) (\<lambda>(timer, timer_debug).
          Option.bind (method_nodes base ''read_raw'' ''Debug'' (named_segment ''raw@b524'')) (\<lambda>(raw, raw_debug).
            Some
              (projection_if_valid ServicePlane [root_service, operational, register, ext, timer, raw]
                 (edges_from_root ServicePlane root_service [operational, register, ext, timer, raw]) @
               projection_if_valid ''Observability'' [root_observability, operational_observability]
                 (edges_from_root ''Observability'' root_observability [operational_observability]) @
               projection_if_valid ''Debug'' [root_debug, register_debug, ext_debug, timer_debug, raw_debug]
                 (edges_from_root ''Debug'' root_debug [register_debug, ext_debug, timer_debug, raw_debug]) @
               root_projection_if_present names ''System'' root_path base @
               root_projection_if_present names ''Heating'' root_path base @
               root_projection_if_present names ''DHW'' root_path base @
               root_projection_if_present names ''Solar'' root_path base)))))))))
        of None \<Rightarrow> [] | Some projections \<Rightarrow> projections)"

section \<open>What a device with a plain identifier gets\<close>

text \<open>A device id is plain if it cannot break a path.\<close>

definition plain_device :: "device_info \<Rightarrow> bool" where
  "plain_device info \<longleftrightarrow> CHR ''/'' \<notin> set (trim_space (di_device_id info)) \<and> CHR '':'' \<notin> set (trim_space (di_device_id info))"

lemma trim_space_starting:
  assumes "\<not> is_space c"
  shows "trim_space (c # s) \<noteq> []"
proof -
  have "dropWhile is_space (rev (c # s)) \<noteq> []" using assms by (auto simp: dropWhile_eq_Nil_conv)
  then show ?thesis using assms by (simp add: trim_space_def trim_by_def)
qed

lemma of_char_hex: "d < 16 \<Longrightarrow> (of_char (hex_char d) :: nat) = (if d < 10 then 48 + d else 55 + d)"
  by (simp add: hex_char_def of_char_of)

lemma hex_char_plain: "d < 16 \<Longrightarrow> hex_char d \<noteq> CHR ''/'' \<and> hex_char d \<noteq> CHR '':''"
  using of_char_hex [of d] by (auto split: if_splits)

lemma hex2_plain [simp]: "CHR ''/'' \<notin> set (hex2 a)" "CHR '':'' \<notin> set (hex2 a)"
proof -
  have "unat a div 16 < 16" "unat a mod 16 < 16" using unsigned_less [where ?'a = nat and w = a] by simp_all
  then show "CHR ''/'' \<notin> set (hex2 a)" "CHR '':'' \<notin> set (hex2 a)"
    using hex_char_plain [of "unat a div 16"] hex_char_plain [of "unat a mod 16"] by (auto simp: hex2_def)
qed

lemma segment_ok_named:
  "\<not> is_space c \<Longrightarrow> c \<noteq> CHR ''@'' \<Longrightarrow>
     segment_ok (named_segment (c # s)) \<longleftrightarrow> CHR ''/'' \<notin> set (c # s) \<and> CHR '':'' \<notin> set (c # s)"
  by (auto simp: segment_ok_def named_segment_def trim_space_starting)

lemma base_segments_ok:
  "(\<forall>s \<in> set (projection_base_segments info). segment_ok s) \<longleftrightarrow> plain_device info"
  by (auto simp: projection_base_segments_def Let_def segment_ok_named plain_device_def is_space_def)

section \<open>Views\<close>

text \<open>A view lists paths of a plane with the service paths they stand for, the root first.\<close>

type_synonym view = "string \<times> (path_segment list \<times> path_segment list) list"

definition view_node :: "string \<Rightarrow> path_segment list \<times> path_segment list \<Rightarrow> node" where
  "view_node plane x = \<lparr>node_id = path_str (service_path (snd x)),
     node_path = \<lparr>path_plane = plane, path_segments = fst x\<rparr>, node_canonical = service_path (snd x)\<rparr>"

definition view_link :: "string \<Rightarrow> node \<Rightarrow> node \<Rightarrow> edge" where
  "view_link plane n m = \<lparr>edge_id = plane @ '':'' @ node_id n @ ''->'' @ node_id m, edge_from = node_id n, edge_to = node_id m\<rparr>"

definition view_projection :: "view \<Rightarrow> plane_projection" where
  "view_projection v =
     (let ns = map (view_node (fst v)) (snd v)
      in \<lparr>prj_plane = fst v, prj_nodes = ns, prj_edges = map (view_link (fst v) (hd ns)) (tl ns)\<rparr>)"

definition paths_ok :: "string \<Rightarrow> path_segment list \<times> path_segment list \<Rightarrow> bool" where
  "paths_ok plane x \<longleftrightarrow> (\<forall>s \<in> set (fst x) \<union> set (snd x). segment_ok s) \<and> (plane = ServicePlane \<longrightarrow> fst x = snd x)"

definition view_ok :: "view \<Rightarrow> bool" where
  "view_ok v \<longleftrightarrow> plane_name_ok (fst v) \<and> snd v \<noteq> [] \<and> distinct (map fst (snd v)) \<and> distinct (map snd (snd v)) \<and>
     (\<forall>x \<in> set (snd v). paths_ok (fst v) x)"

definition views_ok :: "view list \<Rightarrow> bool" where
  "views_ok vs \<longleftrightarrow> distinct (map fst vs) \<and> (\<forall>v \<in> set vs. view_ok v) \<and>
     (\<forall>v \<in> set vs. \<forall>x \<in> set (snd v). \<exists>w \<in> set vs. fst w = ServicePlane \<and> snd x \<in> snd ` set (snd w))"

lemma service_plane_ok [simp]: "plane_name_ok ServicePlane"
  by (simp add: plane_name_ok_def trim_space_starting is_space_def contains_any_iff)

lemma view_projection_fields [simp]:
  "prj_plane (view_projection v) = fst v" "prj_nodes (view_projection v) = map (view_node (fst v)) (snd v)"
  "prj_edges (view_projection v) = map (view_link (fst v) (hd (map (view_node (fst v)) (snd v)))) (tl (map (view_node (fst v)) (snd v)))"
  by (simp_all add: view_projection_def Let_def)

lemma service_path_ok: "path_ok (service_path segments) \<longleftrightarrow> (\<forall>s \<in> set segments. segment_ok s)"
  by (simp add: path_ok_def service_path_def)

lemma service_path_eq:
  "\<forall>s \<in> set a. segment_ok s \<Longrightarrow> \<forall>s \<in> set b. segment_ok s \<Longrightarrow>
     path_str (service_path a) = path_str (service_path b) \<longleftrightarrow> a = b"
  by (simp add: path_str_eq service_path_ok) (simp add: service_path_def)

lemma service_path_nonempty [simp]: "path_str (service_path a) \<noteq> []"
  by (simp add: path_str_def service_path_def)

lemma service_path_fields [simp]:
  "path_plane (service_path a) = ServicePlane" "path_segments (service_path a) = a"
  by (simp_all add: service_path_def)

lemma system_node_view:
  assumes "plane_name_ok plane" and "paths_ok plane (v, c)"
  shows "system_node plane v (service_path c) = Some (view_node plane (v, c))"
proof -
  have "path_ok \<lparr>path_plane = plane, path_segments = v\<rparr>" "path_ok (service_path c)"
    using assms by (simp_all add: path_ok_def paths_ok_def service_path_ok [unfolded path_ok_def] ball_Un)
  then show ?thesis
    using assms(2)
    by (auto simp: system_node_def new_node_def stable_node_id_def path_validate_None [THEN iffD2] view_node_def paths_ok_def service_path_def)
qed

lemma edges_from_root_view:
  assumes "plane_name_ok plane"
  shows "edges_from_root plane (view_node plane x) (map (view_node plane) xs) =
    map (view_link plane (view_node plane x)) (map (view_node plane) xs)"
  using assms
  by (induction xs)
    (simp_all add: edges_from_root_def new_edge_def stable_edge_id_def plane_name_ok_def view_link_def view_node_def)

lemma view_node_ok: "plane_name_ok plane \<Longrightarrow> paths_ok plane x \<Longrightarrow> node_ok plane (view_node plane x) \<and> aligned plane (view_node plane x)"
  by (auto simp: node_ok_def view_node_def path_ok_def paths_ok_def aligned_def service_path_ok [unfolded path_ok_def])

lemma view_node_same:
  assumes "view_ok v" and "x \<in> set (snd v)" and "y \<in> set (snd v)"
  shows "node_id (view_node (fst v) x) = node_id (view_node (fst v) y) \<longleftrightarrow> x = y"
proof -
  have "\<forall>s \<in> set (snd x). segment_ok s" "\<forall>s \<in> set (snd y). segment_ok s"
    using assms by (auto simp: view_ok_def paths_ok_def)
  moreover have "inj_on snd (set (snd v))" using assms(1) by (simp add: view_ok_def distinct_map)
  ultimately show ?thesis
    using assms(2,3) by (auto simp: view_node_def service_path_eq dest: inj_onD)
qed

lemma distinct_map_on:
  assumes "distinct (map f xs)" and "\<And>x y. x \<in> set xs \<Longrightarrow> y \<in> set xs \<Longrightarrow> g x = g y \<Longrightarrow> f x = f y"
  shows "distinct (map g xs)"
  unfolding distinct_map
proof (intro conjI inj_onI)
  show "distinct xs" using assms(1) by (simp add: distinct_map)
  fix x y assume xy: "x \<in> set xs" "y \<in> set xs" "g x = g y"
  from assms(1) have "inj_on f (set xs)" by (simp add: distinct_map)
  then show "x = y" using xy assms(2) [OF xy] by (auto dest: inj_onD)
qed

lemma view_indexable:
  assumes "view_ok v"
  shows "plane_indexable (view_projection v)"
proof -
  obtain x xs where v: "snd v = x # xs" using assms by (cases "snd v") (auto simp: view_ok_def)
  have d: "distinct (map fst (snd v))" "distinct (map snd (snd v))" and p: "plane_name_ok (fst v)"
    and ok: "\<And>y. y \<in> set (snd v) \<Longrightarrow> paths_ok (fst v) y"
    using assms by (simp_all add: view_ok_def)
  note same = view_node_same [OF assms]
  have "distinct (map (node_path \<circ> view_node (fst v)) (snd v))"
    by (rule distinct_map_on [OF d(1)]) (simp add: view_node_def)
  moreover have ids: "distinct (map (node_id \<circ> view_node (fst v)) (snd v))"
    by (rule distinct_map_on [OF d(1)]) (simp add: same)
  moreover have "distinct (map (edge_id \<circ> view_link (fst v) (view_node (fst v) x) \<circ> view_node (fst v)) xs)"
    by (rule distinct_map_on [where f = "node_id \<circ> view_node (fst v)"]) (use ids v in \<open>simp_all add: view_link_def\<close>)
  moreover have "\<forall>n \<in> set (prj_nodes (view_projection v)). node_ok (fst v) n"
    using view_node_ok [OF p ok] by (auto simp: view_projection_def Let_def)
  moreover have "edge_ok (node_id ` set (map (view_node (fst v)) (snd v))) (view_link (fst v) (view_node (fst v) x) (view_node (fst v) y))"
    if "y \<in> set xs" for y
    using that v by (simp add: edge_ok_def view_link_def) (simp add: view_node_def)
  ultimately show ?thesis
    using p v same
    by (auto simp: plane_indexable_def projection_ok_def view_projection_def Let_def comp_def)
qed

lemma projection_of_view:
  assumes "view_ok v" and "snd v = x # xs"
  shows "projection_if_valid (fst v) (map (view_node (fst v)) (snd v))
      (edges_from_root (fst v) (view_node (fst v) x) (map (view_node (fst v)) xs)) = [view_projection v]"
proof -
  have "projection_validate (view_projection v) = None"
    using view_indexable [OF assms(1)] by (simp add: projection_validate_None plane_indexable_def)
  then show ?thesis
    using assms edges_from_root_view [of "fst v" x xs]
    by (simp add: projection_if_valid_def new_projection_def view_projection_def view_ok_def)
qed

lemma views_scanned:
  "(plane, n) \<in> all_scanned (map view_projection vs) \<longleftrightarrow>
     (\<exists>v \<in> set vs. fst v = plane \<and> n \<in> view_node plane ` set (snd v))"
proof
  assume "(plane, n) \<in> all_scanned (map view_projection vs)"
  then obtain p where "p \<in> set (map view_projection vs)" and p: "prj_plane p = plane" "n \<in> set (prj_nodes p)"
    unfolding all_scanned_def by blast
  then obtain v where "v \<in> set vs" "p = view_projection v" by auto
  then show "\<exists>v \<in> set vs. fst v = plane \<and> n \<in> view_node plane ` set (snd v)" using p by (intro bexI [of _ v]) simp_all
next
  assume "\<exists>v \<in> set vs. fst v = plane \<and> n \<in> view_node plane ` set (snd v)"
  then obtain v where v: "v \<in> set vs" "fst v = plane" "n \<in> view_node plane ` set (snd v)" by blast
  then have "view_projection v \<in> set (map view_projection vs)" "n \<in> set (prj_nodes (view_projection v))" by simp_all
  then have "(prj_plane (view_projection v), n) \<in> all_scanned (map view_projection vs)" unfolding all_scanned_def by blast
  then show "(plane, n) \<in> all_scanned (map view_projection vs)" using v(2) by simp
qed

lemma views_indexed:
  assumes "views_ok vs"
  shows "\<exists>ix. build_canonical_index (map view_projection vs) = Inr ix"
  unfolding build_index_Inr
proof (intro conjI)
  have ok: "view_ok v" if "v \<in> set vs" for v using that assms by (simp add: views_ok_def)
  show "\<forall>p \<in> set (map view_projection vs). projection_ok p"
    using ok view_indexable by (auto simp: plane_indexable_def)
  show "\<forall>(plane, n) \<in> all_scanned (map view_projection vs). aligned plane n"
    unfolding views_scanned split_paired_Ball_Sigma Ball_def split_paired_All prod.case
    using ok view_node_ok by (auto simp: view_ok_def)
  have one: "v = w" if "v \<in> set vs" "w \<in> set vs" "fst v = fst w" for v w
    using that assms by (auto simp: views_ok_def distinct_map dest: inj_onD)
  show "one_path (all_scanned (map view_projection vs))"
    unfolding one_path_def views_scanned using ok view_node_same one by blast
  show "service_closed (map view_projection vs)"
    unfolding service_closed_def Ball_def split_paired_All prod.case views_scanned
    using assms by (fastforce simp: views_ok_def view_node_def)
qed

lemma views_portal:
  assumes "views_ok vs" and "vs \<noteq> []"
  shows "\<exists>portal. new_portal_index (map view_projection vs) = Inr portal"
proof -
  have "distinct (map (prj_plane \<circ> view_projection) vs)" using assms(1) by (simp add: views_ok_def comp_def)
  then have "\<exists>m. portal_index_planes [] (map view_projection vs) = Inr m"
    using assms view_indexable by (auto simp: portal_index_planes_Inr views_ok_def)
  then show ?thesis using assms(2) by (auto simp: new_portal_index_def)
qed

section \<open>The views of a device\<close>

definition service_view :: "path_segment list \<Rightarrow> view" where
  "service_view base = (ServicePlane, map (\<lambda>p. (p, p)) (base # map (\<lambda>m. base @ [method_segment m])
     [''get_operational_data'', ''get_register'', ''get_ext_register'', ''read_timer'', ''read_raw'']))"

definition observability_view :: "path_segment list \<Rightarrow> view" where
  "observability_view base = (''Observability'', map (\<lambda>p. (p, p)) [base, base @ [method_segment ''get_operational_data'']])"

definition debug_methods :: "(string \<times> string) list" where
  "debug_methods = [(''get_register'', ''register@b509''), (''get_ext_register'', ''register@b524''),
     (''read_timer'', ''timer@b524''), (''read_raw'', ''raw@b524'')]"

definition debug_view :: "path_segment list \<Rightarrow> view" where
  "debug_view base = (''Debug'', (base, base) # map (\<lambda>(m, x). (base @ [named_segment x], base @ [method_segment m])) debug_methods)"

definition root_view :: "path_segment list \<Rightarrow> string \<Rightarrow> view" where
  "root_view base plane = (plane, [(base, base)])"

definition device_views :: "path_segment list \<Rightarrow> string set \<Rightarrow> view list" where
  "device_views base names =
     [service_view base, observability_view base, debug_view base] @
      map (root_view base) (filter (\<lambda>plane. to_lower plane \<in> names) [''System'', ''Heating'', ''DHW'', ''Solar''])"

lemmas view_defs = service_view_def observability_view_def debug_view_def [unfolded debug_methods_def] root_view_def

lemma view_planes [simp]:
  "fst (service_view base) = ServicePlane" "fst (observability_view base) = ''Observability''"
  "fst (debug_view base) = ''Debug''" "fst (root_view base plane) = plane"
  by (simp_all add: view_defs)

lemma segment_ok_method: "segment_ok (method_segment m) \<longleftrightarrow> CHR ''/'' \<notin> set m \<and> CHR '':'' \<notin> set m"
  by (simp add: method_segment_def segment_ok_named is_space_def)

lemma segment_names [simp]:
  "named_segment a = named_segment b \<longleftrightarrow> a = b" "method_segment a = method_segment b \<longleftrightarrow> a = b"
  by (simp_all add: method_segment_def named_segment_def)

lemma view_segments_ok [simp]:
  "segment_ok (named_segment ''register@b509'')" "segment_ok (named_segment ''register@b524'')"
  "segment_ok (named_segment ''timer@b524'')" "segment_ok (named_segment ''raw@b524'')"
  "segment_ok (method_segment ''get_operational_data'')" "segment_ok (method_segment ''get_register'')"
  "segment_ok (method_segment ''get_ext_register'')" "segment_ok (method_segment ''read_timer'')"
  "segment_ok (method_segment ''read_raw'')"
  by (simp_all add: segment_ok_method segment_ok_named is_space_def)

lemma plane_name_ok_named: "\<not> is_space c \<Longrightarrow> CHR ''/'' \<notin> set (c # s) \<Longrightarrow> CHR '':'' \<notin> set (c # s) \<Longrightarrow> plane_name_ok (c # s)"
  by (auto simp: plane_name_ok_def trim_space_starting contains_any_iff)

lemma view_planes_ok [simp]:
  "plane_name_ok ''Observability''" "plane_name_ok ''Debug''" "plane_name_ok ''System''" "plane_name_ok ''Heating''"
  "plane_name_ok ''DHW''" "plane_name_ok ''Solar''"
  by (rule plane_name_ok_named; simp add: is_space_def)+

lemma device_view_ok:
  assumes "\<forall>s \<in> set base. segment_ok s"
  shows "view_ok (service_view base)" "view_ok (observability_view base)" "view_ok (debug_view base)"
    and "plane_name_ok plane \<Longrightarrow> view_ok (root_view base plane)"
  using assms by (simp_all add: view_ok_def paths_ok_def view_defs ball_Un)

lemma device_views_ok:
  assumes "\<forall>s \<in> set base. segment_ok s"
  shows "views_ok (device_views base names)"
proof -
  note ok = device_view_ok [OF assms]
  have "view_ok v" if "v \<in> set (device_views base names)" for v
    using that ok by (auto simp: device_views_def split: if_splits)
  moreover have "distinct (map fst (device_views base names))"
    by (simp add: device_views_def view_defs comp_def)
  moreover have "snd ` set (snd v) \<subseteq> snd ` set (snd (service_view base))" if "v \<in> set (device_views base names)" for v
    using that by (auto simp: device_views_def view_defs)
  moreover have "service_view base \<in> set (device_views base names)" "fst (service_view base) = ServicePlane"
    by (simp_all add: device_views_def service_view_def)
  ultimately show ?thesis unfolding views_ok_def by blast
qed

lemma system_node_bad: "\<not> (\<forall>s \<in> set segments. segment_ok s) \<Longrightarrow> system_node plane segments canonical = None"
  using path_validate_None [of "\<lparr>path_plane = plane, path_segments = segments\<rparr>"]
  by (auto simp: system_node_def new_node_def path_ok_def split: option.splits)

lemma root_projection_view:
  assumes "plane_name_ok plane" and "\<forall>s \<in> set base. segment_ok s"
  shows "root_projection_if_present names plane (service_path base) base =
    (if to_lower plane \<in> names then [view_projection (root_view base plane)] else [])"
proof -
  have v: "view_ok (root_view base plane)" using device_view_ok(4) assms by blast
  show ?thesis
    using projection_of_view [OF v, of "(base, base)" "[]"] assms
    by (simp add: root_projection_if_present_def system_node_view paths_ok_def edges_from_root_def root_view_def)
qed

lemma method_nodes_view:
  assumes "\<forall>s \<in> set base. segment_ok s" and "plane_name_ok plane" and "plane \<noteq> ServicePlane"
    and "segment_ok (method_segment m)" and "segment_ok v"
  shows "method_nodes base m plane v =
    Some (view_node ServicePlane (base @ [method_segment m], base @ [method_segment m]), view_node plane (base @ [v], base @ [method_segment m]))"
  using assms by (simp add: method_nodes_def Let_def system_node_view paths_ok_def ball_Un)

lemma system_create_projections_eq:
  "system_create_projections info planes =
     (if should_create_projections planes \<and> plain_device info
      then map view_projection (device_views (projection_base_segments info) (plane_name_set planes)) else [])"
proof (cases "should_create_projections planes \<and> plain_device info")
  case False
  then show ?thesis
    by (auto simp: system_create_projections_def Let_def system_node_bad base_segments_ok)
next
  case True
  define base where "base = projection_base_segments info"
  have ok: "\<forall>s \<in> set base. segment_ok s" using True base_segments_ok unfolding base_def by blast
  have same: "paths_ok plane (base, base)" for plane using ok by (simp add: paths_ok_def)
  note one = device_view_ok(1-3) [OF ok, THEN projection_of_view]
  show ?thesis
    using True one [unfolded view_defs, simplified]
    unfolding system_create_projections_def Let_def base_def [symmetric]
    by (simp add: system_node_view same method_nodes_view ok root_projection_view device_views_def view_defs)
qed

lemma debug_methods_ok: "(m, x) \<in> set debug_methods \<Longrightarrow> segment_ok (method_segment m)"
  by (auto simp: debug_methods_def)

lemma debug_paths:
  assumes ok: "\<forall>s \<in> set base. segment_ok s"
    and ix: "build_canonical_index (map view_projection (device_views base names)) = Inr ix"
    and m: "segment_ok (method_segment m)"
  shows "index_plane_path ix ''Debug'' (path_str (service_path (base @ [method_segment m]))) =
    map_option (\<lambda>x. \<lparr>path_plane = ''Debug'', path_segments = base @ [named_segment x]\<rparr>) (map_of debug_methods m)"
proof (rule option_ext)
  fix q
  have same: "path_str (service_path (base @ [method_segment n])) = path_str (service_path (base @ [method_segment m])) \<longleftrightarrow> n = m"
    if "segment_ok (method_segment n)" for n
    using ok m that by (simp add: service_path_eq ball_Un)
  have root: "path_str (service_path base) \<noteq> path_str (service_path (base @ [method_segment m]))"
    using ok m by (simp add: service_path_eq ball_Un)
  have only: "v \<in> set (device_views base names) \<and> fst v = ''Debug'' \<longleftrightarrow> v = debug_view base" for v
    unfolding device_views_def by (auto simp del: filter.simps)
  have only_view: "(\<exists>v \<in> set (device_views base names). fst v = ''Debug'' \<and> P v) \<longleftrightarrow> P (debug_view base)" for P
    unfolding Bex_def conj_assoc [symmetric] only by simp
  have "index_plane_path ix ''Debug'' i = Some q \<longleftrightarrow>
      (\<exists>v \<in> set (device_views base names). fst v = ''Debug'' \<and> (\<exists>x \<in> set (snd v). node_id (view_node ''Debug'' x) = i \<and>
         node_path (view_node ''Debug'' x) = q))" for i
    using build_index_rep [OF ix, unfolded index_of_def, THEN conjunct2, rule_format, of "''Debug''" i q]
    unfolding views_scanned by blast
  also have "\<dots> i \<longleftrightarrow> (\<exists>x \<in> set (snd (debug_view base)). path_str (service_path (snd x)) = i \<and>
         \<lparr>path_plane = ''Debug'', path_segments = fst x\<rparr> = q)" for i
    unfolding only_view by (simp add: view_node_def)
  also have "\<dots> (path_str (service_path (base @ [method_segment m]))) \<longleftrightarrow>
      (\<exists>x. (m, x) \<in> set debug_methods \<and> \<lparr>path_plane = ''Debug'', path_segments = base @ [named_segment x]\<rparr> = q)"
    (is "?shown \<longleftrightarrow> ?listed")
  proof
    assume ?shown
    then obtain y where "y \<in> set (snd (debug_view base))" "path_str (service_path (snd y)) = path_str (service_path (base @ [method_segment m]))"
      and q: "\<lparr>path_plane = ''Debug'', path_segments = fst y\<rparr> = q" by blast
    then obtain n x where nx: "(n, x) \<in> set debug_methods" "y = (base @ [named_segment x], base @ [method_segment n])"
      using root by (auto simp: debug_view_def)
    then have "n = m" using same [OF debug_methods_ok [OF nx(1)]] \<open>path_str (service_path (snd y)) = _\<close> by simp
    then show ?listed using nx q by auto
  next
    assume ?listed
    then obtain x where x: "(m, x) \<in> set debug_methods" "\<lparr>path_plane = ''Debug'', path_segments = base @ [named_segment x]\<rparr> = q" by blast
    then have "(base @ [named_segment x], base @ [method_segment m]) \<in> set (snd (debug_view base))"
      by (auto simp: debug_view_def intro!: image_eqI [of _ _ "(m, x)"])
    then show ?shown by (rule bexI [rotated]) (simp add: x(2))
  qed
  finally have "index_plane_path ix ''Debug'' (path_str (service_path (base @ [method_segment m]))) = Some q \<longleftrightarrow> \<dots>" .
  moreover have "distinct (map fst debug_methods)" by (simp add: debug_methods_def)
  ultimately show "index_plane_path ix ''Debug'' (path_str (service_path (base @ [method_segment m]))) = Some q \<longleftrightarrow>
      map_option (\<lambda>x. \<lparr>path_plane = ''Debug'', path_segments = base @ [named_segment x]\<rparr>) (map_of debug_methods m) = Some q"
    by auto
qed

text \<open>(C33)
  The projections of a device fit the registry: whenever the device has a named plane and an identifier
  without slash or colon, it gets the service, observability and debug projections and one root for each
  domain plane it has; both the canonical index and the portal index of them can always be built, and the
  canonical index leads from a service method to the path that shows it. Otherwise it gets none.
\<close>

theorem device_projections_indexed:
  "if should_create_projections planes \<and> plain_device info
   then map prj_plane (system_create_projections info planes) = [ServicePlane, ''Observability'', ''Debug''] @
       filter (\<lambda>plane. to_lower plane \<in> plane_name_set planes) [''System'', ''Heating'', ''DHW'', ''Solar''] \<and>
     (\<exists>portal. new_portal_index (system_create_projections info planes) = Inr portal) \<and>
     (\<exists>ix. build_canonical_index (system_create_projections info planes) = Inr ix \<and>
        (let base = projection_base_segments info;
             id_of = (\<lambda>m. path_str (service_path (base @ [method_segment m])));
             debug = (\<lambda>x. Some \<lparr>path_plane = ''Debug'', path_segments = base @ [named_segment x]\<rparr>) in
         index_plane_path ix ''Debug'' (id_of ''get_register'') = debug ''register@b509'' \<and>
         index_plane_path ix ''Debug'' (id_of ''get_ext_register'') = debug ''register@b524'' \<and>
         index_plane_path ix ''Debug'' (id_of ''read_timer'') = debug ''timer@b524'' \<and>
         index_plane_path ix ''Debug'' (id_of ''read_raw'') = debug ''raw@b524'' \<and>
         index_plane_path ix ''Debug'' (id_of ''get_operational_data'') = None))
   else system_create_projections info planes = []"
proof (cases "should_create_projections planes \<and> plain_device info")
  case True
  define base where "base = projection_base_segments info"
  have ok: "\<forall>s \<in> set base. segment_ok s" using True base_segments_ok unfolding base_def by blast
  let ?V = "device_views base (plane_name_set planes)"
  have eq: "system_create_projections info planes = map view_projection ?V"
    using True by (simp add: system_create_projections_eq base_def)
  note V = device_views_ok [OF ok, of "plane_name_set planes"]
  obtain ix where ix: "build_canonical_index (map view_projection ?V) = Inr ix" using views_indexed [OF V] by blast
  have "\<exists>portal. new_portal_index (map view_projection ?V) = Inr portal"
    using views_portal [OF V] by (simp add: device_views_def)
  moreover have "map prj_plane (map view_projection ?V) = [ServicePlane, ''Observability'', ''Debug''] @
      filter (\<lambda>plane. to_lower plane \<in> plane_name_set planes) [''System'', ''Heating'', ''DHW'', ''Solar'']"
    by (simp add: device_views_def view_defs comp_def)
  ultimately show ?thesis
    using True ix unfolding eq base_def [symmetric] Let_def by (simp add: debug_paths [OF ok ix] debug_methods_def)
next
  case False
  then show ?thesis by (simp only: system_create_projections_eq if_False simp_thms)
qed

end
