(* ===== verification/Go_Words.thy ===== *)
theory Go_Words
  imports Go_Prelude
begin

text \<open>
  Facts shared by the plans and codecs: guarded results, and signed words that are not negative with the
  bytes Go conversions make of them.
\<close>

lemma if_None: "(if c then None else x) = Some y \<longleftrightarrow> \<not> c \<and> x = Some y"
  by simp

lemma uint_of_sint: "0 \<le> sint n \<Longrightarrow> uint n = sint n" for n :: "'l::len word"
proof -
  assume n: "0 \<le> sint n"
  have "sint n < 2 ^ (LENGTH('l) - 1)" by (rule sint_lt)
  also have "(2 :: int) ^ (LENGTH('l) - 1) \<le> 2 ^ LENGTH('l)" by simp
  finally have "sint n mod 2 ^ LENGTH('l) = sint n" using n by simp
  then show ?thesis using uint_word_of_int [of "sint n", where 'a = 'l] by simp
qed

lemma ucast_sint: "0 \<le> sint n \<Longrightarrow> (ucast n :: byte) = scast n"
  by (simp only: ucast_eq uint_of_sint scast_eq)

lemma uint_byte_of: "0 \<le> sint n \<Longrightarrow> sint n \<le> 255 \<Longrightarrow> uint (ucast n :: byte) = sint n"
  by (simp only: ucast_eq uint_of_sint uint_word_of_int_eq) (simp add: take_bit_int_eq_self)

end
