(* ===== verification/Vai_Planes.thy ===== *)
theory Vai_Planes
  imports Vai_Projections Vai_Timer Reg_Register Go_Words
begin

text \<open>
  The heating, hot water and solar planes of Vaillant devices (\<open>vaillant/heating\<close>, \<open>vaillant/dhw\<close>,
  \<open>vaillant/solar\<close>) and the list of all providers (\<open>providers/vaillant\<close>), as the device registry
  sees them. The three packages declare the same types; here they share them. The data types of the
  response schemas come from another module and are parameters.
\<close>

section \<open>Methods\<close>

datatype vendor_template =
    PlainTemplate byte byte
  | OpTemplate byte byte byte
  | EnergyTemplate byte byte

record ('v, 'a, 'e) vendor_method =
  vm_name :: string
  vm_read_only :: bool
  vm_template :: vendor_template
  vm_response :: "('v, 'a, 'e) schema_selector"

fun template_primary :: "vendor_template \<Rightarrow> byte" where
  "template_primary (PlainTemplate p s) = p"
| "template_primary (OpTemplate p s op) = p"
| "template_primary (EnergyTemplate p s) = p"

fun template_secondary :: "vendor_template \<Rightarrow> byte" where
  "template_secondary (PlainTemplate p s) = s"
| "template_secondary (OpTemplate p s op) = s"
| "template_secondary (EnergyTemplate p s) = s"

text \<open>This reader of a byte takes only Go integers: no floats, no \<open>json.Number\<close>.\<close>

definition energy_uint8_param :: "vai_params \<Rightarrow> string \<Rightarrow> byte option" where
  "energy_uint8_param params key =
     (case gm_get params key of
        None \<Rightarrow> None
      | Some value \<Rightarrow>
          (case value of
             VInt n \<Rightarrow> if sint n < 0 \<or> sint n > 255 then None else Some (ucast n)
           | VInt8 n \<Rightarrow> if sint n < 0 then None else Some (ucast n)
           | VInt16 n \<Rightarrow> if sint n < 0 \<or> sint n > 255 then None else Some (ucast n)
           | VInt32 n \<Rightarrow> if sint n < 0 \<or> sint n > 255 then None else Some (ucast n)
           | VInt64 n \<Rightarrow> if sint n < 0 \<or> sint n > 255 then None else Some (ucast n)
           | VUint n \<Rightarrow> if n > 255 then None else Some (ucast n)
           | VUint8 n \<Rightarrow> Some n
           | VUint16 n \<Rightarrow> if n > 255 then None else Some (ucast n)
           | VUint32 n \<Rightarrow> if n > 255 then None else Some (ucast n)
           | VUint64 n \<Rightarrow> if n > 255 then None else Some (ucast n)
           | _ \<Rightarrow> None))"

definition energy_build :: "vai_params \<Rightarrow> 'e vai_error + byte list" where
  "energy_build params =
     and_then (require (energy_uint8_param params ''period'')) (\<lambda>period.
     and_then (require (energy_uint8_param params ''source'')) (\<lambda>source.
     and_then (require (energy_uint8_param params ''usage'')) (\<lambda>usage.
       Inr [period, source, usage])))"

text \<open>A plain template has no \<open>Build\<close>.\<close>

fun template_build :: "vendor_template \<Rightarrow> (vai_params \<Rightarrow> 'e vai_error + byte list) option" where
  "template_build (PlainTemplate p s) = None"
| "template_build (OpTemplate p s op) = Some (\<lambda>params. Inr [op])"
| "template_build (EnergyTemplate p s) = Some energy_build"

definition supports_energy_stats :: "device_info \<Rightarrow> bool" where
  "supports_energy_stats info = hardware_version_at_least (di_hardware_version info) 7603"

section \<open>Response schemas\<close>

definition typed_field :: "string \<Rightarrow> ('v, 'a, 'e) data_type \<Rightarrow> ('v, 'a, 'e) schema_field" where
  "typed_field name t = \<lparr>sf_name = name, sf_type = Some t\<rparr>"

definition always :: "('v, 'a, 'e) schema_field list \<Rightarrow> ('v, 'a, 'e) schema_selector" where
  "always fs = \<lparr>sel_default = \<lparr>sch_fields = fs\<rparr>, sel_conditions = []\<rparr>"

definition heating_status_schema :: "('v, 'a, 'e) builtin_types \<Rightarrow> ('v, 'a, 'e) schema_selector" where
  "heating_status_schema b = always [typed_field ''status'' (bt_DATA1b b)]"

definition heating_set_target_temp_schema :: "('v, 'a, 'e) schema_selector" where
  "heating_set_target_temp_schema = always []"

definition heating_parameters_schema :: "('v, 'a, 'e) builtin_types \<Rightarrow> ('v, 'a, 'e) schema_selector" where
  "heating_parameters_schema b =
     (let boiler = \<lparr>sch_fields = [typed_field ''flow_temp'' (bt_DATA2b b), typed_field ''return_temp'' (bt_DATA2b b),
            typed_field ''pump_status'' (bt_DATA1b b)]\<rparr>;
          controller = \<lparr>sch_fields = [typed_field ''room_temp'' (bt_DATA2b b), typed_field ''target_temp'' (bt_DATA2b b),
            typed_field ''mode'' (bt_DATA1b b)]\<rparr>
      in \<lparr>sel_default = boiler,
          sel_conditions = [\<lparr>sc_target = 0x10, sc_has_target = True, sc_min_hw = 0, sc_has_min_hw = False,
            sc_max_hw = 0, sc_has_max_hw = False, sc_schema = controller\<rparr>]\<rparr>)"

definition heating_energy_schema :: "('v, 'a, 'e) builtin_types \<Rightarrow> ('v, 'a, 'e) schema_selector" where
  "heating_energy_schema b = always [typed_field ''energy'' (bt_WORD b)]"

definition dhw_status_schema :: "('v, 'a, 'e) builtin_types \<Rightarrow> ('v, 'a, 'e) schema_selector" where
  "dhw_status_schema b = always [typed_field ''status'' (bt_DATA1b b)]"

definition dhw_set_target_temp_schema :: "('v, 'a, 'e) schema_selector" where
  "dhw_set_target_temp_schema = always []"

definition dhw_parameters_schema :: "('v, 'a, 'e) builtin_types \<Rightarrow> ('v, 'a, 'e) schema_selector" where
  "dhw_parameters_schema b = always [typed_field ''dhw_temp'' (bt_DATA2b b), typed_field ''target_temp'' (bt_DATA2b b),
     typed_field ''mode'' (bt_DATA1b b)]"

definition dhw_energy_schema :: "('v, 'a, 'e) builtin_types \<Rightarrow> ('v, 'a, 'e) schema_selector" where
  "dhw_energy_schema b = always [typed_field ''energy'' (bt_WORD b)]"

definition solar_status_schema :: "('v, 'a, 'e) builtin_types \<Rightarrow> ('v, 'a, 'e) schema_selector" where
  "solar_status_schema b = always [typed_field ''collector_temp'' (bt_DATA2b b), typed_field ''tank_temp'' (bt_DATA2b b)]"

definition solar_yield_schema :: "('v, 'a, 'e) builtin_types \<Rightarrow> ('v, 'a, 'e) schema_selector" where
  "solar_yield_schema b = always [typed_field ''yield'' (bt_WORD b)]"

definition solar_parameters_schema :: "('v, 'a, 'e) builtin_types \<Rightarrow> ('v, 'a, 'e) schema_selector" where
  "solar_parameters_schema b = always [typed_field ''pump_speed'' (bt_DATA1b b), typed_field ''delta_temp'' (bt_DATA2b b)]"

section \<open>Planes\<close>

definition vendor_method_of ::
  "string \<Rightarrow> bool \<Rightarrow> vendor_template \<Rightarrow> ('v, 'a, 'e) schema_selector \<Rightarrow> ('v, 'a, 'e) vendor_method" where
  "vendor_method_of name read_only template response =
     \<lparr>vm_name = name, vm_read_only = read_only, vm_template = template, vm_response = response\<rparr>"

definition heating_match :: "device_info \<Rightarrow> bool" where
  "heating_match info =
     (let manufacturer = trim_space (di_manufacturer info)
      in if manufacturer = [] then False
         else let normalized = to_lower manufacturer
              in str_contains normalized ''vaillant'' \<or> str_contains normalized ''saunier'' \<or>
                 str_contains normalized ''awb'')"

definition new_heating_plane :: "('v, 'a, 'e) builtin_types \<Rightarrow> device_info \<Rightarrow> ('v, 'a, 'e) vendor_method plane" where
  "new_heating_plane b info = \<lparr>plane_name = ''heating'', plane_methods =
     [vendor_method_of ''get_status'' True (OpTemplate 0xB5 0x04 0x0D) (heating_status_schema b),
      vendor_method_of ''set_target_temp'' False (PlainTemplate 0xB5 0x05) heating_set_target_temp_schema,
      vendor_method_of ''get_parameters'' True (OpTemplate 0xB5 0x04 0x09) (heating_parameters_schema b)] @
     (if supports_energy_stats info
      then [vendor_method_of ''get_energy_stats'' True (EnergyTemplate 0xB5 0x16) (heating_energy_schema b)] else [])\<rparr>"

definition dhw_match :: "device_info \<Rightarrow> bool" where
  "dhw_match info =
     (let manufacturer = trim_space (di_manufacturer info)
      in if manufacturer = [] then False
         else let normalized = to_lower manufacturer
              in str_contains normalized ''vaillant'' \<or> str_contains normalized ''saunier'' \<or>
                 str_contains normalized ''awb'')"

definition new_dhw_plane :: "('v, 'a, 'e) builtin_types \<Rightarrow> device_info \<Rightarrow> ('v, 'a, 'e) vendor_method plane" where
  "new_dhw_plane b info = \<lparr>plane_name = ''dhw'', plane_methods =
     [vendor_method_of ''get_status'' True (OpTemplate 0xB5 0x04 0x0D) (dhw_status_schema b),
      vendor_method_of ''set_target_temp'' False (PlainTemplate 0xB5 0x05) dhw_set_target_temp_schema,
      vendor_method_of ''get_parameters'' True (OpTemplate 0xB5 0x04 0x09) (dhw_parameters_schema b)] @
     (if supports_energy_stats info
      then [vendor_method_of ''get_energy_stats'' True (EnergyTemplate 0xB5 0x16) (dhw_energy_schema b)] else [])\<rparr>"

definition solar_match :: "device_info \<Rightarrow> bool" where
  "solar_match info =
     (let manufacturer = trim_space (di_manufacturer info)
      in if manufacturer = [] then False
         else let normalized = to_lower manufacturer
              in str_contains normalized ''vaillant'' \<or> str_contains normalized ''saunier'' \<or>
                 str_contains normalized ''awb'')"

definition new_solar_plane :: "('v, 'a, 'e) builtin_types \<Rightarrow> ('v, 'a, 'e) vendor_method plane" where
  "new_solar_plane b = \<lparr>plane_name = ''solar'', plane_methods =
     [vendor_method_of ''get_status'' True (PlainTemplate 0xB5 0x04) (solar_status_schema b),
      vendor_method_of ''get_solar_yield'' True (PlainTemplate 0xB5 0x04) (solar_yield_schema b),
      vendor_method_of ''get_parameters'' True (PlainTemplate 0xB5 0x04) (solar_parameters_schema b)]\<rparr>"

section \<open>Providers\<close>

text \<open>A registry holds planes of every provider: a method is one of its two concrete types.\<close>

datatype ('v, 'a, 'e) provider_method =
    CallMethod "'e system_method"
  | SchemaMethod "('v, 'a, 'e) vendor_method"

definition schema_plane :: "('v, 'a, 'e) vendor_method plane \<Rightarrow> ('v, 'a, 'e) provider_method plane" where
  "schema_plane p = \<lparr>plane_name = plane_name p, plane_methods = map SchemaMethod (plane_methods p)\<rparr>"

definition system_provider :: "('v, 'a, 'e) provider_method plane_provider" where
  "system_provider = \<lparr>pp_name = ''vaillant_system'', pp_match = system_match,
     pp_create = map (\<lambda>p. \<lparr>plane_name = sp_name p, plane_methods = map CallMethod (sp_methods p)\<rparr>) \<circ> system_create_planes,
     pp_projections = Some system_create_projections\<rparr>"

definition heating_provider :: "('v, 'a, 'e) builtin_types \<Rightarrow> ('v, 'a, 'e) provider_method plane_provider" where
  "heating_provider b = \<lparr>pp_name = ''vaillant_heating'', pp_match = heating_match,
     pp_create = (\<lambda>info. [schema_plane (new_heating_plane b info)]), pp_projections = None\<rparr>"

definition dhw_provider :: "('v, 'a, 'e) builtin_types \<Rightarrow> ('v, 'a, 'e) provider_method plane_provider" where
  "dhw_provider b = \<lparr>pp_name = ''vaillant_dhw'', pp_match = dhw_match,
     pp_create = (\<lambda>info. [schema_plane (new_dhw_plane b info)]), pp_projections = None\<rparr>"

definition solar_provider :: "('v, 'a, 'e) builtin_types \<Rightarrow> ('v, 'a, 'e) provider_method plane_provider" where
  "solar_provider b = \<lparr>pp_name = ''vaillant_solar'', pp_match = solar_match,
     pp_create = (\<lambda>info. [schema_plane (new_solar_plane b)]), pp_projections = None\<rparr>"

definition timer_provider :: "('v, 'a, 'e) provider_method plane_provider" where
  "timer_provider = \<lparr>pp_name = ''vaillant_b555'', pp_match = timer_match,
     pp_create = map (\<lambda>p. \<lparr>plane_name = tp_name p, plane_methods = map CallMethod (tp_methods p)\<rparr>) \<circ> timer_create_planes,
     pp_projections = None\<rparr>"

definition default_providers :: "('v, 'a, 'e) builtin_types \<Rightarrow> ('v, 'a, 'e) provider_method plane_provider list" where
  "default_providers b = [system_provider, heating_provider b, dhw_provider b, solar_provider b, timer_provider]"

section \<open>What a described device gets\<close>

lemma matches_agree: "heating_match = system_match" "dhw_match = system_match" "solar_match = system_match" "timer_match = system_match"
  by (simp_all add: fun_eq_iff heating_match_def dhw_match_def solar_match_def timer_match_def system_match_def)

definition method_name :: "('v, 'a, 'e) provider_method \<Rightarrow> string" where
  "method_name m = (case m of CallMethod c \<Rightarrow> sm_name c | SchemaMethod v \<Rightarrow> vm_name v)"

lemma build_index_empty: "\<exists>ix. build_canonical_index [] = Inr ix"
  by (simp add: build_canonical_index_def)

lemma provider_plane_names:
  "plane_name_set [] = {}"
  "map (trim_space \<circ> plane_name) planes = [''system'', ''heating'', ''dhw'', ''solar'', ''timer''] \<Longrightarrow>
     plane_name_set planes = {''system'', ''heating'', ''dhw'', ''solar'', ''timer''}"
proof -
  have "map to_lower (filter (\<lambda>n. n \<noteq> []) [''system'', ''heating'', ''dhw'', ''solar'', ''timer'']) =
      [''system'', ''heating'', ''dhw'', ''solar'', ''timer'']" by code_simp
  then show "map (trim_space \<circ> plane_name) planes = [''system'', ''heating'', ''dhw'', ''solar'', ''timer''] \<Longrightarrow>
     plane_name_set planes = {''system'', ''heating'', ''dhw'', ''solar'', ''timer''}"
    unfolding plane_name_set_def by (simp only:) simp
qed (simp add: plane_name_set_def)

lemma provider_names_trimmed:
  "map trim_space [''system'', ''heating'', ''dhw'', ''solar'', ''timer''] = [''system'', ''heating'', ''dhw'', ''solar'', ''timer'']"
  "map to_lower [''System'', ''Heating'', ''DHW'', ''Solar''] = [''system'', ''heating'', ''dhw'', ''solar'']"
  by code_simp+

definition default_planes :: "('v, 'a, 'e) builtin_types \<Rightarrow> device_info \<Rightarrow> ('v, 'a, 'e) provider_method plane list" where
  "default_planes b info =
     [\<lparr>plane_name = ''system'', plane_methods = map CallMethod system_methods\<rparr>, schema_plane (new_heating_plane b info),
      schema_plane (new_dhw_plane b info), schema_plane (new_solar_plane b),
      \<lparr>plane_name = ''timer'', plane_methods = map CallMethod timer_methods\<rparr>]"

lemma default_plane_names: "map plane_name (default_planes b info) = [''system'', ''heating'', ''dhw'', ''solar'', ''timer'']"
  by (simp add: default_planes_def schema_plane_def new_heating_plane_def new_dhw_plane_def new_solar_plane_def)

lemma default_provided:
  "provided (default_providers b) info =
     (if system_match info then (default_planes b info, system_create_projections info (default_planes b info)) else ([], []))"
  by (simp add: provided_def default_providers_def system_provider_def heating_provider_def dhw_provider_def
      solar_provider_def timer_provider_def matches_agree system_create_planes_def timer_create_planes_def
      new_system_plane_def new_timer_plane_def default_planes_def Let_def)

lemma default_projections:
  "map prj_plane (system_create_projections info (default_planes b info)) =
     (if plain_device info then [ServicePlane, ''Observability'', ''Debug'', ''System'', ''Heating'', ''DHW'', ''Solar''] else [])"
  "\<exists>ix. build_canonical_index (system_create_projections info (default_planes b info)) = Inr ix"
proof -
  have "map (trim_space \<circ> plane_name) (default_planes b info) = [''system'', ''heating'', ''dhw'', ''solar'', ''timer'']"
    using provider_names_trimmed(1) unfolding map_map [symmetric] default_plane_names .
  then have names: "plane_name_set (default_planes b info) = {''system'', ''heating'', ''dhw'', ''solar'', ''timer''}"
    by (rule provider_plane_names)
  have lower: "to_lower ''System'' = ''system''" "to_lower ''Heating'' = ''heating''" "to_lower ''DHW'' = ''dhw''"
    "to_lower ''Solar'' = ''solar''" using provider_names_trimmed(2) by simp_all
  show "map prj_plane (system_create_projections info (default_planes b info)) =
      (if plain_device info then [ServicePlane, ''Observability'', ''Debug'', ''System'', ''Heating'', ''DHW'', ''Solar''] else [])"
    by (simp add: system_create_projections_eq should_create_projections_def names lower device_views_def comp_def)
  show "\<exists>ix. build_canonical_index (system_create_projections info (default_planes b info)) = Inr ix"
    using views_indexed [OF device_views_ok] base_segments_ok [of info] build_index_empty
    by (simp add: system_create_projections_eq)
qed

lemma default_energy_methods:
  "map (\<lambda>p. ''get_energy_stats'' \<in> set (map method_name (plane_methods p))) (default_planes b info) =
     [False, supports_energy_stats info, supports_energy_stats info, False, False]"
  by (cases "supports_energy_stats info")
    (simp_all add: default_planes_def schema_plane_def new_heating_plane_def new_dhw_plane_def new_solar_plane_def
      method_name_def vendor_method_of_def system_methods_def system_method_of_def timer_methods_def image_image)

section \<open>Properties\<close>

text \<open>(C34)
  Whatever device is registered with the default providers, its entry never carries an index error. A
  device of one of the known manufacturers has the five planes in the order of the providers, and exactly
  its heating and hot water planes offer energy statistics, and only from hardware version 7603 on; it
  has all seven projections unless its identifier contains a slash or a colon, and then none. A device
  of any other manufacturer has neither planes nor projections.
\<close>

theorem default_entry_complete:
  "let entry = refresh_entry (default_providers b) stored x;
       version = version_digits (di_hardware_version stored);
       energy = (version \<noteq> [] \<and> 7603 \<le> digits_val version \<and> digits_val version \<le> 65535)
   in de_index_err entry = None \<and> de_info entry = stored \<and>
      map plane_name (de_planes entry) =
        (if system_match stored then [''system'', ''heating'', ''dhw'', ''solar'', ''timer''] else []) \<and>
      map (\<lambda>p. ''get_energy_stats'' \<in> set (map method_name (plane_methods p))) (de_planes entry) =
        (if system_match stored then [False, energy, energy, False, False] else []) \<and>
      map prj_plane (de_projections entry) =
        (if system_match stored \<and> plain_device stored
         then [ServicePlane, ''Observability'', ''Debug'', ''System'', ''Heating'', ''DHW'', ''Solar''] else []) \<and>
      build_canonical_index (de_projections entry) = Inr (de_index entry)"
proof -
  obtain ix where ix: "build_canonical_index (system_create_projections stored (default_planes b stored)) = Inr ix"
    using default_projections(2) by blast
  obtain none where none: "build_canonical_index [] = Inr none" using build_index_empty by blast
  have energy: "supports_energy_stats stored \<longleftrightarrow> version_digits (di_hardware_version stored) \<noteq> [] \<and>
      7603 \<le> digits_val (version_digits (di_hardware_version stored)) \<and> digits_val (version_digits (di_hardware_version stored)) \<le> 65535"
    by (simp add: supports_energy_stats_def hardware_version_exact)
  show ?thesis
    unfolding Let_def energy [symmetric]
    using ix none default_projections(1) [of stored b] default_energy_methods [of b stored] default_plane_names [of b stored]
    by (cases "system_match stored") (simp_all add: refresh_entry_def default_provided)
qed

text \<open>A byte of the energy request: an integer of any Go type between 0 and 255.\<close>

definition go_integer :: "go_value \<Rightarrow> int option" where
  "go_integer value =
     (case value of VInt n \<Rightarrow> Some (sint n) | VInt8 n \<Rightarrow> Some (sint n) | VInt16 n \<Rightarrow> Some (sint n) | VInt32 n \<Rightarrow> Some (sint n)
      | VInt64 n \<Rightarrow> Some (sint n) | VUint n \<Rightarrow> Some (uint n) | VUint8 n \<Rightarrow> Some (uint n) | VUint16 n \<Rightarrow> Some (uint n)
      | VUint32 n \<Rightarrow> Some (uint n) | VUint64 n \<Rightarrow> Some (uint n) | _ \<Rightarrow> None)"

lemma word_above_255:
  "(x > (255 :: uint64)) = (uint x > 255)" "(y > (255 :: uint16)) = (uint y > 255)" "(z > (255 :: uint32)) = (uint z > 255)"
  by (simp_all add: word_less_def)

lemma energy_uint8_exact:
  "energy_uint8_param params key = Option.bind (Option.bind (gm_get params key) go_integer)
     (\<lambda>n. if 0 \<le> n \<and> n \<le> 255 then Some (word_of_int n) else None)"
proof (cases "gm_get params key")
  case (Some v)
  have b8: "sint n \<le> 255" for n :: "8 word" using sint_lt [of n] by simp
  have u8: "uint n \<le> 255" for n :: "8 word" using unsigned_less [where 'a = int and w = n] by simp
  show ?thesis
    using Some b8 u8
    by (cases v) (simp_all add: energy_uint8_param_def go_integer_def word_above_255 ucast_sint)
qed (simp add: energy_uint8_param_def)

lemma parse_go_integer: "go_integer v = Some k \<Longrightarrow> parse_uint v limit = parse_integer k limit"
  by (cases v) (simp_all add: go_integer_def parse_uint_def)

lemma ucast_small: "(ucast (word_of_int k :: uint64) :: byte) = word_of_int k"
  by (simp add: ucast_eq uint_word_of_int_eq word_of_int_eq_iff take_bit_take_bit)

text \<open>
  The energy request is built exactly when period, source and usage are integers of any Go integer type
  between 0 and 255; it is these three bytes in order, and the system plane's reader of a byte reads the
  same ones.
\<close>

theorem energy_build_exact:
  "(energy_build params :: 'e vai_error + byte list) = Inr bytes \<longleftrightarrow>
     (\<exists>ns. map (\<lambda>key. Option.bind (gm_get params key) go_integer) [''period'', ''source'', ''usage''] = map Some ns \<and>
        list_all (\<lambda>n. 0 \<le> n \<and> n \<le> 255) ns \<and> bytes = map word_of_int ns \<and>
        map (uint8_param params) [''period'', ''source'', ''usage''] = map Some bytes)"
proof -
  let ?i = "\<lambda>key. Option.bind (gm_get params key) go_integer"
  have one: "energy_uint8_param params key = Some n \<longleftrightarrow> (\<exists>k. ?i key = Some k \<and> 0 \<le> k \<and> k \<le> 255 \<and> n = word_of_int k)" for key n
    by (cases "?i key") (auto simp: energy_uint8_exact)
  have same: "uint8_param params key = Some n" if "energy_uint8_param params key = Some n" for key n
    using that unfolding one
    by (auto simp: bind_eq_Some_conv uint8_param_def to_byte_def parse_go_integer parse_integer_def ucast_small)
  show ?thesis
  proof
    assume "(energy_build params :: 'e vai_error + byte list) = Inr bytes"
    then obtain p s u where psu: "energy_uint8_param params ''period'' = Some p" "energy_uint8_param params ''source'' = Some s"
      "energy_uint8_param params ''usage'' = Some u" "bytes = [p, s, u]"
      by (auto simp: energy_build_def and_then_Inr)
    then obtain k l m where "?i ''period'' = Some k \<and> 0 \<le> k \<and> k \<le> 255 \<and> p = word_of_int k"
      "?i ''source'' = Some l \<and> 0 \<le> l \<and> l \<le> 255 \<and> s = word_of_int l"
      "?i ''usage'' = Some m \<and> 0 \<le> m \<and> m \<le> 255 \<and> u = word_of_int m" unfolding one by blast
    then show "\<exists>ns. map ?i [''period'', ''source'', ''usage''] = map Some ns \<and> list_all (\<lambda>n. 0 \<le> n \<and> n \<le> 255) ns \<and>
        bytes = map word_of_int ns \<and> map (uint8_param params) [''period'', ''source'', ''usage''] = map Some bytes"
      using psu same by (intro exI [of _ "[k, l, m]"]) simp
  next
    assume "\<exists>ns. map ?i [''period'', ''source'', ''usage''] = map Some ns \<and> list_all (\<lambda>n. 0 \<le> n \<and> n \<le> 255) ns \<and>
        bytes = map word_of_int ns \<and> map (uint8_param params) [''period'', ''source'', ''usage''] = map Some bytes"
    then obtain k l m where "?i ''period'' = Some k" "?i ''source'' = Some l" "?i ''usage'' = Some m"
      "0 \<le> k \<and> k \<le> 255" "0 \<le> l \<and> l \<le> 255" "0 \<le> m \<and> m \<le> 255" "bytes = [word_of_int k, word_of_int l, word_of_int m]"
      by (auto simp: Cons_eq_map_conv)
    then show "(energy_build params :: 'e vai_error + byte list) = Inr bytes"
      by (simp add: energy_build_def energy_uint8_exact)
  qed
qed

end
