(* ===== verification/Vai_Products.thy ===== *)
theory Vai_Products
  imports Go_Prelude
begin

text \<open>
  The product catalog of Vaillant part numbers (\<open>vaillant/productids\<close>): rows of a CSV file indexed by
  part number, and which products carry a controller. The CSV reader is the list of what its \<open>Read\<close>
  returns up to the end of the file, each call a row or an error.
\<close>

section \<open>Rows\<close>

record product_record =
  pr_brand :: string
  pr_family :: string
  pr_product_model :: string
  pr_part_number :: string
  pr_role :: string
  pr_notes :: string

record product_catalog =
  pc_all :: "product_record list"
  pc_by_part_number :: "(string, product_record) gomap"

datatype 'e product_error = EndOfInput | ReadError 'e | ErrMissingColumns

definition required_columns :: "string list" where
  "required_columns = [''brand'', ''family'', ''product_model'', ''part_number'', ''role'']"

fun index_columns :: "nat \<Rightarrow> (string, nat) gomap \<Rightarrow> string list \<Rightarrow> (string, nat) gomap" where
  "index_columns i m [] = m"
| "index_columns i m (name # names) = index_columns (i + 1) (gm_put (trim_space name) i m) names"

definition value_at :: "string list \<Rightarrow> nat \<Rightarrow> string" where
  "value_at row i = (if i \<ge> length row then [] else row ! i)"

text \<open>A missing name of the index map reads as column 0; the required ones are there.\<close>

definition column :: "(string, nat) gomap \<Rightarrow> string \<Rightarrow> nat" where
  "column m name = (case gm_get m name of None \<Rightarrow> 0 | Some i \<Rightarrow> i)"

definition product_of_row :: "(string, nat) gomap \<Rightarrow> string list \<Rightarrow> product_record" where
  "product_of_row m row =
     (let cell = (\<lambda>name. trim_space (value_at row (column m name))) in
      \<lparr>pr_brand = cell ''brand'', pr_family = cell ''family'', pr_product_model = cell ''product_model'',
       pr_part_number = cell ''part_number'', pr_role = cell ''role'',
       pr_notes = (case gm_get m ''notes'' of None \<Rightarrow> [] | Some i \<Rightarrow> trim_space (value_at row i))\<rparr>)"

definition metadata_complete :: "product_record \<Rightarrow> bool" where
  "metadata_complete r \<longleftrightarrow> \<not> (pr_brand r = [] \<or> pr_family r = [] \<or> pr_product_model r = [] \<or> pr_part_number r = [] \<or> pr_role r = [])"

fun read_products ::
  "(string, nat) gomap \<Rightarrow> product_catalog \<Rightarrow> ('e + string list) list \<Rightarrow> 'e product_error + product_catalog" where
  "read_products m cat [] = Inr cat"
| "read_products m cat (Inl e # reads) = Inl (ReadError e)"
| "read_products m cat (Inr row # reads) =
     (let record = product_of_row m row;
          cat' = cat\<lparr>pc_all := pc_all cat @ [record]\<rparr>
      in if \<not> metadata_complete record \<or> gm_has (pc_by_part_number cat') (pr_part_number record)
         then read_products m cat' reads
         else read_products m
                (cat'\<lparr>pc_by_part_number := gm_put (pr_part_number record) record (pc_by_part_number cat')\<rparr>) reads)"

fun parse_catalog :: "('e + string list) list \<Rightarrow> 'e product_error + product_catalog" where
  "parse_catalog [] = Inl EndOfInput"
| "parse_catalog (Inl e # reads) = Inl (ReadError e)"
| "parse_catalog (Inr header # reads) =
     (let m = index_columns 0 [] header in
      if list_ex (\<lambda>name. \<not> gm_has m name) required_columns then Inl ErrMissingColumns
      else read_products m \<lparr>pc_all = [], pc_by_part_number = []\<rparr> reads)"

section \<open>Controllers\<close>

datatype controller_capability = ControllerUnknown | ControllerNone | ControllerPresent

text \<open>
  \<open>strings.EqualFold\<close> with an ASCII text: letters up to case, and the two characters outside ASCII
  that fold to a letter, the long s (C5 BF) and the Kelvin sign (E2 84 AA).
\<close>

fun fold_text :: "string \<Rightarrow> string" where
  "fold_text [] = []"
| "fold_text (c # s) =
     (if c = CHR 0xC5 \<and> s \<noteq> [] \<and> hd s = CHR 0xBF then CHR ''s'' # fold_text (tl s)
      else if c = CHR 0xE2 \<and> take 2 s = [CHR 0x84, CHR 0xAA] then CHR ''k'' # fold_text (drop 2 s)
      else to_lower_char c # fold_text s)"

definition equal_fold :: "string \<Rightarrow> string \<Rightarrow> bool" where
  "equal_fold s ascii \<longleftrightarrow> fold_text s = to_lower ascii"

definition controller_capability_for_role :: "string \<Rightarrow> controller_capability" where
  "controller_capability_for_role role =
     (if equal_fold (trim_space role) ''Regulator'' \<or> equal_fold (trim_space role) ''Thermostat''
      then ControllerPresent else ControllerNone)"

fun classify_rows :: "string \<Rightarrow> bool \<Rightarrow> controller_capability \<Rightarrow> product_record list \<Rightarrow> controller_capability" where
  "classify_rows part_number found capability [] = (if \<not> found then ControllerUnknown else capability)"
| "classify_rows part_number found capability (r # rs) =
     (if trim_space (pr_part_number r) \<noteq> part_number then classify_rows part_number found capability rs
      else if trim_space (pr_role r) = [] then ControllerUnknown
      else
        let classified = controller_capability_for_role (trim_space (pr_role r))
        in if capability = ControllerUnknown then classify_rows part_number True classified rs
           else if capability \<noteq> classified then ControllerUnknown
           else classify_rows part_number True capability rs)"

definition catalog_controller_capability :: "product_catalog \<Rightarrow> string \<Rightarrow> controller_capability" where
  "catalog_controller_capability cat part_number =
     (let part_number = trim_space part_number in
      if part_number = [] then ControllerUnknown
      else if length (pc_all cat) \<noteq> 0 then classify_rows part_number False ControllerUnknown (pc_all cat)
      else case gm_get (pc_by_part_number cat) part_number of
             None \<Rightarrow> ControllerUnknown
           | Some r \<Rightarrow>
               if trim_space (pr_role r) = [] then ControllerUnknown
               else controller_capability_for_role (pr_role r))"

section \<open>Seeds\<close>

record seed_address =
  sa_addr :: byte
  sa_role :: string
  sa_confidence :: string

record static_seed =
  ss_manufacturer :: string
  ss_device_id :: string
  ss_addresses :: "seed_address list"
  ss_source :: string

definition load_seed_table :: "bool \<Rightarrow> static_seed list" where
  "load_seed_table enabled =
     (if \<not> enabled then []
      else let candidate = (\<lambda>role a. \<lparr>sa_addr = a, sa_role = role, sa_confidence = ''candidate''\<rparr>);
               source = ''vaillant_static_seed_w19_26''
           in [\<lparr>ss_manufacturer = ''Vaillant'', ss_device_id = ''NETX3'',
                ss_addresses = [candidate ''initiator'' 0xF1, candidate ''target'' 0xF6, candidate ''target'' 0x04,
                  candidate ''target'' 0xFF], ss_source = source\<rparr>,
               \<lparr>ss_manufacturer = ''Vaillant'', ss_device_id = ''BASV2'',
                ss_addresses = [candidate ''target'' 0x15, candidate ''target'' 0xEC], ss_source = source\<rparr>])"

section \<open>What the catalog answers\<close>

lemma trim_space_trimmed [simp]: "trim_space (trim_space s) = trim_space s"
  by (simp add: trim_space_def)

definition role_class :: "product_record \<Rightarrow> controller_capability" where
  "role_class r = controller_capability_for_role (pr_role r)"

lemma role_class_known [simp]: "role_class r \<noteq> ControllerUnknown"
  by (simp add: role_class_def controller_capability_for_role_def)

definition agreed_class :: "product_record list \<Rightarrow> controller_capability" where
  "agreed_class rs =
     (if rs = [] \<or> list_ex (\<lambda>r. trim_space (pr_role r) = []) rs then ControllerUnknown
      else if list_all (\<lambda>r. role_class r = ControllerPresent) rs then ControllerPresent
      else if list_all (\<lambda>r. role_class r = ControllerNone) rs then ControllerNone
      else ControllerUnknown)"

lemma agreed_class_empty: "agreed_class [] = ControllerUnknown"
  by (simp add: agreed_class_def)

lemma class_of_trimmed: "controller_capability_for_role (trim_space role) = controller_capability_for_role role"
  by (simp add: controller_capability_for_role_def)

lemma agreed_class_Cons:
  "agreed_class (r # rs) =
     (if trim_space (pr_role r) = [] then ControllerUnknown
      else if rs = [] then role_class r
      else if agreed_class rs = role_class r then role_class r else ControllerUnknown)"
  by (cases "role_class r") (auto simp: agreed_class_def list_all_iff list_ex_iff)

lemma classify_known:
  "c \<noteq> ControllerUnknown \<Longrightarrow> classify_rows p True c rs =
     (let ms = filter (\<lambda>r. trim_space (pr_part_number r) = p) rs in
      if ms = [] then c else if agreed_class ms = c then c else ControllerUnknown)"
proof (induction rs)
  case (Cons r rs)
  then show ?case
    by (auto simp: Let_def agreed_class_Cons class_of_trimmed role_class_def [symmetric])
qed simp

lemma classify_rows_exact:
  "classify_rows p False ControllerUnknown rs = agreed_class (filter (\<lambda>r. trim_space (pr_part_number r) = p) rs)"
proof (induction rs)
  case (Cons r rs)
  then show ?case
    by (auto simp: Let_def agreed_class_Cons class_of_trimmed role_class_def [symmetric] classify_known)
qed (simp add: agreed_class_def)

definition rows_of :: "('e + string list) list \<Rightarrow> string list list option" where
  "rows_of reads = those (map (\<lambda>r. case r of Inl _ \<Rightarrow> None | Inr row \<Rightarrow> Some row) reads)"

lemma read_products_exact:
  "read_products m cat reads = Inr cat' \<Longrightarrow>
     \<exists>rows. rows_of reads = Some rows \<and> pc_all cat' = pc_all cat @ map (product_of_row m) rows \<and>
       (\<forall>p. gm_get (pc_by_part_number cat') p =
          (case gm_get (pc_by_part_number cat) p of
             Some r \<Rightarrow> Some r
           | None \<Rightarrow> find (\<lambda>r. metadata_complete r \<and> pr_part_number r = p) (map (product_of_row m) rows)))"
proof (induction m cat reads rule: read_products.induct)
  case (1 m cat)
  then show ?case by (auto simp: rows_of_def split: option.splits)
next
  case (2 m cat e reads)
  then show ?case by simp
next
  case (3 m cat row reads)
  let ?r = "product_of_row m row"
  show ?case
  proof (cases "\<not> metadata_complete ?r \<or> gm_has (pc_by_part_number cat) (pr_part_number ?r)")
    case True
    with "3.prems" obtain rows where rows: "rows_of reads = Some rows"
        "pc_all cat' = (pc_all cat @ [?r]) @ map (product_of_row m) rows"
      and get: "\<And>p. gm_get (pc_by_part_number cat') p = (case gm_get (pc_by_part_number cat) p of Some r \<Rightarrow> Some r
          | None \<Rightarrow> find (\<lambda>r. metadata_complete r \<and> pr_part_number r = p) (map (product_of_row m) rows))"
      using "3.IH"(1) [OF refl refl] by (auto simp: Let_def)
    show ?thesis
      using rows True by (intro exI [of _ "row # rows"]) (auto simp: rows_of_def get gm_has_def split: option.splits)
  next
    case False
    with "3.prems" obtain rows where rows: "rows_of reads = Some rows"
        "pc_all cat' = (pc_all cat @ [?r]) @ map (product_of_row m) rows"
      and get: "\<And>p. gm_get (pc_by_part_number cat') p = (case (if p = pr_part_number ?r then Some ?r else gm_get (pc_by_part_number cat) p)
          of Some r \<Rightarrow> Some r
          | None \<Rightarrow> find (\<lambda>r. metadata_complete r \<and> pr_part_number r = p) (map (product_of_row m) rows))"
      using "3.IH"(2) [OF refl refl] by (auto simp: Let_def)
    show ?thesis
      using rows False by (intro exI [of _ "row # rows"]) (auto simp: rows_of_def get gm_has_def split: option.splits)
  qed
qed

lemma product_trimmed:
  "trim_space (pr_part_number (product_of_row m row)) = pr_part_number (product_of_row m row)"
  by (simp add: product_of_row_def Let_def)

section \<open>Properties\<close>

text \<open>(C35)
  A loaded catalog keeps every row in order. A part number finds the first of its rows whose metadata
  is complete. The part is classified by all of its rows, complete or not: it has a controller exactly
  when there is a row for it, every one of them names a role, and every role is a controller's; it has
  none when every role is another's; and it stays unknown when rows disagree or one has no role.
\<close>

theorem product_catalog_exact:
  assumes "parse_catalog reads = Inr cat"
  shows "\<exists>header rows. rows_of reads = Some (header # rows) \<and>
     list_all (\<lambda>name. name \<in> set (map trim_space header)) required_columns \<and>
     pc_all cat = map (product_of_row (index_columns 0 [] header)) rows \<and>
     gm_get (pc_by_part_number cat) p = find (\<lambda>r. metadata_complete r \<and> pr_part_number r = p) (pc_all cat) \<and>
     catalog_controller_capability cat q =
       (if trim_space q = [] then ControllerUnknown
        else agreed_class (filter (\<lambda>r. pr_part_number r = trim_space q) (pc_all cat)))"
proof -
  have keys: "gm_keys (index_columns i m names) = gm_keys m \<union> set (map trim_space names)" for i m names
    by (induction names arbitrary: i m) auto
  obtain header rest where h: "reads = Inr header # rest" "list_all (\<lambda>name. gm_has (index_columns 0 [] header) name) required_columns"
    "read_products (index_columns 0 [] header) \<lparr>pc_all = [], pc_by_part_number = []\<rparr> rest = Inr cat"
    using assms by (cases reads rule: parse_catalog.cases) (auto simp: Let_def list_all_iff list_ex_iff split: if_splits)
  obtain rows where rows: "rows_of rest = Some rows" "pc_all cat = map (product_of_row (index_columns 0 [] header)) rows"
    "\<And>p. gm_get (pc_by_part_number cat) p = find (\<lambda>r. metadata_complete r \<and> pr_part_number r = p) (pc_all cat)"
    using read_products_exact [OF h(3)] by (auto simp: gm_get_def)
  have "list_all (\<lambda>name. name \<in> set (map trim_space header)) required_columns"
    using h(2) keys [of 0 "[]" header] by (auto simp: list_all_iff gm_has_def gm_keys_iff)
  moreover have "filter (\<lambda>r. trim_space (pr_part_number r) = trim_space q) (pc_all cat) = filter (\<lambda>r. pr_part_number r = trim_space q) (pc_all cat)"
    by (rule filter_cong) (auto simp: rows(2) product_trimmed)
  then have "catalog_controller_capability cat q =
       (if trim_space q = [] then ControllerUnknown
        else agreed_class (filter (\<lambda>r. pr_part_number r = trim_space q) (pc_all cat)))"
    by (cases "pc_all cat = []")
      (simp_all add: catalog_controller_capability_def classify_rows_exact rows(3) agreed_class_empty Let_def)
  moreover have "rows_of reads = Some (header # rows)" using h(1) rows(1) by (simp add: rows_of_def)
  ultimately show ?thesis using rows(2,3) by blast
qed

definition sample_reads :: "(nat + string list) list" where
  "sample_reads = [Inr [''brand'', ''family'', ''product_model'', '' part_number'', ''role''],
     Inr [''Vaillant'', ''sensoCOMFORT'', ''VRC 720'', ''0020260914'', ''regulator''],
     Inr [''Vaillant'', '' '', ''VRC 720'', ''0020260914'', ''Regulator'']]"

theorem product_catalog_exact_witness:
  "\<exists>cat. parse_catalog sample_reads = Inr cat \<and>
     catalog_controller_capability cat '' 0020260914'' = ControllerPresent \<and> length (pc_all cat) = 2"
proof -
  have "case parse_catalog sample_reads of Inl _ \<Rightarrow> False
      | Inr cat \<Rightarrow> agreed_class (filter (\<lambda>r. pr_part_number r = trim_space '' 0020260914'') (pc_all cat)) = ControllerPresent \<and>
          length (pc_all cat) = 2"
    by code_simp
  then obtain cat where cat: "parse_catalog sample_reads = Inr cat"
    "agreed_class (filter (\<lambda>r. pr_part_number r = trim_space '' 0020260914'') (pc_all cat)) = ControllerPresent" "length (pc_all cat) = 2"
    by (auto split: sum.splits)
  have "trim_space '' 0020260914'' \<noteq> []" by code_simp
  then show ?thesis using product_catalog_exact [OF cat(1), of "[]" "'' 0020260914''"] cat by auto
qed

end
