(* ===== verification/Vai_Plans.thy ===== *)
theory Vai_Plans
  imports Go_Words
begin

text \<open>
  Plans for writing timers and events of the B5 24 protocol and the observations they start from
  (\<open>vaillant/system/ab08_timer_plan.go\<close>, \<open>ab23_event_decode.go\<close>, \<open>ab24_event_plan.go\<close>) and the index
  of register descriptions (\<open>ab25_description_index.go\<close>). A Go \<open>int\<close> is a 64-bit word; error texts
  are left out where they carry no sentinel.
\<close>

section \<open>Timer plans\<close>

record timer_identity =
  ti_family :: string
  ti_channel :: string
  ti_system_type :: int64
  ti_instance :: int64
  ti_address :: int64
  ti_day :: int64

record timer_baseline =
  tb_identity :: timer_identity
  tb_raw :: "byte list"

record timer_slot =
  ts_start :: int64
  ts_stop :: int64

record timer_plan =
  tp_identity :: timer_identity
  tp_baseline :: "byte list"
  tp_payload :: "byte list"

datatype plan_error = IdentityRejected | IdentityMismatch | WrongLength | SlotRejected nat

definition raw_byte :: "int64 \<Rightarrow> bool" where
  "raw_byte n \<longleftrightarrow> 0 \<le> sint n \<and> sint n \<le> 255"

definition timer_identity_valid :: "timer_identity \<Rightarrow> bool" where
  "timer_identity_valid i =
     (if ti_family i = [] \<or> ti_channel i = [] \<or> \<not> raw_byte (ti_system_type i) \<or> \<not> raw_byte (ti_instance i) \<or>
         \<not> raw_byte (ti_address i) \<or> \<not> raw_byte (ti_day i) \<or> sint (ti_day i) > 6 then False
      else
        let known = (if ti_system_type i = 0 then 1 \<le> sint (ti_address i) \<and> sint (ti_address i) \<le> 3
                     else if ti_system_type i = 1 \<or> ti_system_type i = 3 then ti_address i = 1 \<or> ti_address i = 2
                     else False)
        in \<not> (\<not> known \<or> (ti_system_type i \<noteq> 3 \<and> ti_instance i \<noteq> 0)))"

text \<open>The loop over the slots writes them into the payload, two bytes each from offset 5.\<close>

fun plan_slots :: "nat \<Rightarrow> timer_slot list \<Rightarrow> byte list \<Rightarrow> plan_error + byte list" where
  "plan_slots i [] payload = Inr payload"
| "plan_slots i (s # ss) payload =
     (if \<not> raw_byte (ts_start s) \<or> \<not> raw_byte (ts_stop s) then Inl (SlotRejected i)
      else if (ts_start s \<noteq> 0x90 \<or> ts_stop s \<noteq> 0x90) \<and>
              (sint (ts_start s) > 143 \<or> sint (ts_start s) \<ge> sint (ts_stop s) \<or> sint (ts_stop s) > 144)
      then Inl (SlotRejected i)
      else plan_slots (i + 1) ss
             ((payload[5 + 2 * i := ucast (ts_start s)])[6 + 2 * i := ucast (ts_stop s)]))"

definition build_timer_plan ::
  "timer_identity \<Rightarrow> timer_baseline \<Rightarrow> timer_slot list \<Rightarrow> plan_error + timer_plan" where
  "build_timer_plan identity baseline slots =
     (if \<not> timer_identity_valid identity then Inl IdentityRejected
      else if ti_family identity \<noteq> ti_family (tb_identity baseline) \<or>
              ti_channel identity \<noteq> ti_channel (tb_identity baseline) \<or>
              ti_system_type identity \<noteq> ti_system_type (tb_identity baseline) \<or>
              ti_instance identity \<noteq> ti_instance (tb_identity baseline) \<or>
              ti_address identity \<noteq> ti_address (tb_identity baseline) \<or>
              ti_day identity \<noteq> ti_day (tb_identity baseline) then Inl IdentityMismatch
      else if length (tb_raw baseline) \<noteq> 7 \<or> length slots \<noteq> 3 then Inl WrongLength
      else case plan_slots 0 slots
             ([0x04, ucast (ti_system_type identity), ucast (ti_instance identity), ucast (ti_address identity),
               ucast (ti_day identity)] @ replicate 6 0) of
        Inl e \<Rightarrow> Inl e
      | Inr payload \<Rightarrow> Inr \<lparr>tp_identity = identity, tp_baseline = tb_raw baseline, tp_payload = payload\<rparr>)"

section \<open>Event observations\<close>

text \<open>A failed exchange carries the text of its error.\<close>

record event =
  ev_family :: string
  ev_request :: "byte list"
  ev_response :: "byte list"
  ev_failure :: string
  ev_valid :: bool

definition decode_event :: "string \<Rightarrow> byte list \<Rightarrow> byte list \<Rightarrow> string option \<Rightarrow> event" where
  "decode_event family request response failure =
     (let result = \<lparr>ev_family = family, ev_request = request, ev_response = response, ev_failure = [], ev_valid = False\<rparr> in
      case failure of
        Some text \<Rightarrow> result\<lparr>ev_failure := text\<rparr>
      | None \<Rightarrow>
          if length request \<noteq> 5 \<or> length response \<noteq> 8 then result
          else if request ! 0 \<noteq> 0x09 \<and> request ! 0 \<noteq> 0x0B then result
          else if request ! 1 = 0x00 then result\<lparr>ev_valid := request ! 3 \<ge> 1 \<and> request ! 3 \<le> 3\<rparr>
          else if request ! 1 = 0x01 \<or> request ! 1 = 0x03 then result\<lparr>ev_valid := request ! 3 \<ge> 1 \<and> request ! 3 \<le> 2\<rparr>
          else result)"

definition event_configuration :: "event \<Rightarrow> byte option" where
  "event_configuration e = (if \<not> ev_valid e then None else Some (ev_response e ! 0))"

definition event_raw :: "event \<Rightarrow> byte list option" where
  "event_raw e = (if \<not> ev_valid e then None else Some (take 7 (tl (ev_response e))))"

definition pair_complete :: "event \<times> event \<Rightarrow> bool" where
  "pair_complete p =
     (let (first, second) = p in
      ev_valid first \<and> ev_valid second \<and> ev_family first = ev_family second \<and>
      tl (ev_request first) = tl (ev_request second) \<and> ev_request first ! 0 \<noteq> ev_request second ! 0)"

section \<open>Event plans\<close>

record event_identity =
  ei_family :: string
  ei_system_type :: int64
  ei_instance :: int64
  ei_address :: int64
  ei_code :: int64

record event_baseline =
  eb_identity :: event_identity
  eb_opcode :: int64
  eb_success :: bool
  eb_raw :: "byte list"

record event_edit =
  ee_identity :: event_identity
  ee_opcode :: int64
  ee_values :: "int64 list"
  ee_op09 :: "event_baseline option"
  ee_op0b :: "event_baseline option"

record event_plan =
  ep_identity :: event_identity
  ep_payload :: "byte list"
  ep_values :: "byte list"
  ep_op09 :: "byte list"
  ep_op0b :: "byte list"

definition baseline_usable :: "event_identity \<Rightarrow> int64 \<Rightarrow> event_baseline option \<Rightarrow> bool" where
  "baseline_usable identity opcode baseline =
     (case baseline of None \<Rightarrow> False
      | Some b \<Rightarrow> \<not> (\<not> eb_success b \<or> eb_opcode b \<noteq> opcode \<or> eb_identity b \<noteq> identity \<or> length (eb_raw b) \<noteq> 8))"

definition build_event_plan :: "event_edit \<Rightarrow> event_plan option" where
  "build_event_plan edit =
     (let i = ee_identity edit in
      if ei_family i = [] then None
      else if list_ex (\<lambda>f. \<not> raw_byte f) [ei_system_type i, ei_instance i, ei_address i, ei_code i, ee_opcode edit] then None
      else if ei_system_type i \<noteq> 0 \<and> ei_system_type i \<noteq> 1 \<and> ei_system_type i \<noteq> 3 then None
      else
        let max_address = (if ei_system_type i = 0 then 3 else 2) in
        if sint (ei_address i) < 1 \<or> sint (ei_address i) > max_address then None
        else if ee_opcode edit \<noteq> 0x0A \<and> ee_opcode edit \<noteq> 0x0C then None
        else if length (ee_values edit) \<noteq> 7 then None
        else if list_ex (\<lambda>v. \<not> raw_byte v) (ee_values edit) then None
        else if \<not> baseline_usable i 0x09 (ee_op09 edit) then None
        else if \<not> baseline_usable i 0x0B (ee_op0b edit) then None
        else
          let values = map ucast (ee_values edit);
              raw = (\<lambda>b. case b of None \<Rightarrow> [] | Some x \<Rightarrow> eb_raw x)
          in Some \<lparr>ep_identity = i,
               ep_payload = [ucast (ee_opcode edit), ucast (ei_system_type i), ucast (ei_instance i), ucast (ei_address i),
                 ucast (ei_code i)] @ values,
               ep_values = values, ep_op09 = raw (ee_op09 edit), ep_op0b = raw (ee_op0b edit)\<rparr>)"

section \<open>Register descriptions\<close>

record description_key =
  dk_family :: string
  dk_software :: string
  dk_hardware :: string
  dk_api_version :: uint16
  dk_api_revision :: uint16
  dk_opcode :: byte
  dk_group :: byte
  dk_requested_instance :: byte
  dk_register :: uint16

text \<open>
  A nil slice or pointer is \<open>None\<close>, so that equality of records is \<open>reflect.DeepEqual\<close>, which tells a nil
  slice from an empty one; copying a record is the identity.
\<close>

record description_record =
  dsc_key :: description_key
  dsc_state :: string
  dsc_raw :: "byte list option"
  dsc_codec :: "string option"
  dsc_width :: "uint16 option"

record description_index =
  di_records :: "(description_key, description_record list) gomap"
  di_conflicts :: "(description_key, bool) gomap"

definition normal_record :: "description_record \<Rightarrow> description_record" where
  "normal_record r =
     (if dsc_state r \<in> {''selector_qualified'', ''length_inferred'', ''undecoded''} then r
      else r\<lparr>dsc_state := ''unknown''\<rparr>)"

definition records_at :: "(description_key, description_record list) gomap \<Rightarrow> description_key \<Rightarrow> description_record list" where
  "records_at m k = (case gm_get m k of None \<Rightarrow> [] | Some rs \<Rightarrow> rs)"

text \<open>The index and whether a conflict was found.\<close>

fun index_descriptions :: "description_index \<Rightarrow> bool \<Rightarrow> description_record list \<Rightarrow> description_index \<times> bool" where
  "index_descriptions ix conflict [] = (ix, conflict)"
| "index_descriptions ix conflict (r # rs) =
     (let record = normal_record r;
          prior = records_at (di_records ix) (dsc_key record);
          differs = (length prior > 0 \<and> prior ! 0 \<noteq> record);
          ix1 = (if differs then ix\<lparr>di_conflicts := gm_put (dsc_key record) True (di_conflicts ix)\<rparr> else ix)
      in index_descriptions (ix1\<lparr>di_records := gm_put (dsc_key record) (prior @ [record]) (di_records ix1)\<rparr>)
           (conflict \<or> differs) rs)"

definition new_description_index :: "description_record list \<Rightarrow> description_index \<times> bool" where
  "new_description_index rs = index_descriptions \<lparr>di_records = [], di_conflicts = []\<rparr> False rs"

text \<open>A lookup: a conflict is \<open>Inl\<close>, a nil index finds nothing.\<close>

definition description_lookup ::
  "description_index option \<Rightarrow> description_key \<Rightarrow> unit + description_record option" where
  "description_lookup index k =
     (case index of None \<Rightarrow> Inr None
      | Some ix \<Rightarrow>
          if gm_get (di_conflicts ix) k = Some True then Inl ()
          else let rs = records_at (di_records ix) k in if length rs = 0 then Inr None else Inr (Some (rs ! 0)))"

definition description_records :: "description_index option \<Rightarrow> description_key \<Rightarrow> description_record list" where
  "description_records index k = (case index of None \<Rightarrow> [] | Some ix \<Rightarrow> records_at (di_records ix) k)"

section \<open>Timer and event plans\<close>

lemma raw_byte_uint: "raw_byte n \<Longrightarrow> uint (ucast n :: byte) = sint n"
  by (simp add: raw_byte_def uint_byte_of)

definition slot_planned :: "timer_slot \<Rightarrow> bool" where
  "slot_planned s \<longleftrightarrow> (ts_start s = 0x90 \<and> ts_stop s = 0x90) \<or>
     (0 \<le> sint (ts_start s) \<and> sint (ts_start s) < sint (ts_stop s) \<and> sint (ts_stop s) \<le> 144)"

lemma slot_planned_iff:
  "slot_planned s \<longleftrightarrow> raw_byte (ts_start s) \<and> raw_byte (ts_stop s) \<and>
     \<not> ((ts_start s \<noteq> 0x90 \<or> ts_stop s \<noteq> 0x90) \<and>
        (sint (ts_start s) > 143 \<or> sint (ts_start s) \<ge> sint (ts_stop s) \<or> sint (ts_stop s) > 144))"
  by (auto simp: slot_planned_def raw_byte_def)

lemma map_uint_eq: "map uint p = map uint q \<longleftrightarrow> p = q" for p q :: "byte list"
  by (rule inj_map_eq_map [OF inj_unsigned])

lemma valid_raw:
  assumes "timer_identity_valid i"
  shows "raw_byte (ti_system_type i)" "raw_byte (ti_instance i)" "raw_byte (ti_address i)" "raw_byte (ti_day i)"
  using assms unfolding timer_identity_valid_def by meson+

lemma planned_bytes:
  "list_all slot_planned ss \<Longrightarrow>
     map uint (concat (map (\<lambda>s. [ucast (ts_start s), ucast (ts_stop s)]) ss) :: byte list) =
       concat (map (\<lambda>s. [sint (ts_start s), sint (ts_stop s)]) ss)"
  by (induction ss) (simp_all add: slot_planned_iff raw_byte_uint)

lemma plan_slots_Cons:
  "plan_slots i (s # ss) payload =
     (if slot_planned s then plan_slots (i + 1) ss ((payload[5 + 2 * i := ucast (ts_start s)])[6 + 2 * i := ucast (ts_stop s)])
      else Inl (SlotRejected i))"
  unfolding slot_planned_iff by auto

lemma plan_three_slots:
  "length payload = 5 \<Longrightarrow> length ss = 3 \<Longrightarrow>
     plan_slots 0 ss (payload @ replicate 6 0) = Inr out \<longleftrightarrow>
       list_all slot_planned ss \<and> out = payload @ concat (map (\<lambda>s. [ucast (ts_start s), ucast (ts_stop s)]) ss)"
  by (auto simp: length_Suc_conv numeral_3_eq_3 plan_slots_Cons list_update_append nth_Cons' numeral_eq_Suc simp del: plan_slots.simps(2)
      split: if_splits)

text \<open>  A timer plan is built exactly for an admitted identity, a baseline of the same identity with seven
  bytes, and three slots, each either the unused pair or a nonempty span of ten-minute steps within one
  day. The plan keeps the baseline, and its eleven bytes are the opcode, the selector and the slots in
  order, so no two requests share a payload.
\<close>

theorem timer_plan_exact:
  "build_timer_plan identity baseline slots = Inr plan \<longleftrightarrow>
     timer_identity_valid identity \<and> tb_identity baseline = identity \<and> length (tb_raw baseline) = 7 \<and>
     length slots = 3 \<and> list_all slot_planned slots \<and>
     tp_identity plan = identity \<and> tp_baseline plan = tb_raw baseline \<and>
     map uint (tp_payload plan) = [4, sint (ti_system_type identity), sint (ti_instance identity), sint (ti_address identity),
       sint (ti_day identity)] @ concat (map (\<lambda>s. [sint (ts_start s), sint (ts_stop s)]) slots)"
proof -
  let ?head = "[0x04, ucast (ti_system_type identity), ucast (ti_instance identity), ucast (ti_address identity), ucast (ti_day identity)] :: byte list"
  let ?out = "?head @ concat (map (\<lambda>s. [ucast (ts_start s), ucast (ts_stop s)]) slots)"
  have same: "(ti_family identity \<noteq> ti_family i \<or> ti_channel identity \<noteq> ti_channel i \<or> ti_system_type identity \<noteq> ti_system_type i \<or>
      ti_instance identity \<noteq> ti_instance i \<or> ti_address identity \<noteq> ti_address i \<or> ti_day identity \<noteq> ti_day i) \<longleftrightarrow> i \<noteq> identity" for i
    by (cases i; cases identity) auto
  have fld: "\<lparr>tp_identity = i, tp_baseline = b, tp_payload = x\<rparr> = plan \<longleftrightarrow> tp_identity plan = i \<and> tp_baseline plan = b \<and> tp_payload plan = x" for i b x
    by (cases plan) auto
  have head: "length ?head = 5" by simp
  have slots: "(\<exists>x. plan_slots 0 slots (?head @ replicate 6 0) = Inr x \<and> Q x) \<longleftrightarrow> list_all slot_planned slots \<and> Q ?out"
    if "length slots = 3" for Q
  proof -
    have three: "plan_slots 0 slots (?head @ replicate 6 0) = Inr x \<longleftrightarrow> list_all slot_planned slots \<and> x = ?out" for x
      by (rule plan_three_slots [OF head that])
    show ?thesis unfolding three by simp
  qed
  have "(case r of Inl e \<Rightarrow> Inl e | Inr x \<Rightarrow> Inr (f x)) = Inr y \<longleftrightarrow> (\<exists>x. r = Inr x \<and> f x = y)" for r :: "plan_error + byte list" and f and y :: timer_plan
    by (cases r) auto
  then have "build_timer_plan identity baseline slots = Inr plan \<longleftrightarrow>
      timer_identity_valid identity \<and> tb_identity baseline = identity \<and> length (tb_raw baseline) = 7 \<and> length slots = 3 \<and>
      (\<exists>x. plan_slots 0 slots (?head @ replicate 6 0) = Inr x \<and> \<lparr>tp_identity = identity, tp_baseline = tb_raw baseline, tp_payload = x\<rparr> = plan)"
    unfolding build_timer_plan_def same by simp blast
  then have built: "build_timer_plan identity baseline slots = Inr plan \<longleftrightarrow>
      timer_identity_valid identity \<and> tb_identity baseline = identity \<and> length (tb_raw baseline) = 7 \<and>
      length slots = 3 \<and> list_all slot_planned slots \<and>
      tp_identity plan = identity \<and> tp_baseline plan = tb_raw baseline \<and> tp_payload plan = ?out"
    unfolding fld using slots by blast
  have payload: "tp_payload plan = ?out \<longleftrightarrow> map uint (tp_payload plan) = [4, sint (ti_system_type identity),
      sint (ti_instance identity), sint (ti_address identity), sint (ti_day identity)] @
      concat (map (\<lambda>s. [sint (ts_start s), sint (ts_stop s)]) slots)"
    if "timer_identity_valid identity" "list_all slot_planned slots"
  proof -
    have eq: "map uint ?out = [4, sint (ti_system_type identity), sint (ti_instance identity), sint (ti_address identity),
        sint (ti_day identity)] @ concat (map (\<lambda>s. [sint (ts_start s), sint (ts_stop s)]) slots)"
      using valid_raw [OF that(1)] planned_bytes [OF that(2)] by (simp add: raw_byte_uint)
    show ?thesis unfolding eq [symmetric] map_uint_eq ..
  qed
  show ?thesis unfolding built by (intro conj_cong refl payload)
qed

text \<open>
  An event plan is built exactly for a family, byte-sized selectors of a known system type and address,
  a write opcode, seven byte values, and successful eight-byte baselines of both read opcodes for the
  same identity. Its twelve bytes are the opcode, the selector and the values.
\<close>

theorem event_plan_exact:
  "build_event_plan edit = Some plan \<longleftrightarrow>
     (let i = ee_identity edit; head = [ee_opcode edit, ei_system_type i, ei_instance i, ei_address i, ei_code i] in
      ei_family i \<noteq> [] \<and> list_all raw_byte (head @ ee_values edit) \<and> length (ee_values edit) = 7 \<and>
      sint (ei_system_type i) \<in> {0, 1, 3} \<and> 1 \<le> sint (ei_address i) \<and>
      sint (ei_address i) \<le> (if ei_system_type i = 0 then 3 else 2) \<and> ee_opcode edit \<in> {0x0A, 0x0C} \<and>
      (\<exists>b09 b0b. ee_op09 edit = Some b09 \<and> ee_op0b edit = Some b0b \<and> eb_success b09 \<and> eb_success b0b \<and>
         eb_identity b09 = i \<and> eb_identity b0b = i \<and> eb_opcode b09 = 0x09 \<and> eb_opcode b0b = 0x0B \<and>
         length (eb_raw b09) = 8 \<and> length (eb_raw b0b) = 8 \<and> ep_op09 plan = eb_raw b09 \<and> ep_op0b plan = eb_raw b0b) \<and>
      ep_identity plan = i \<and> map uint (ep_payload plan) = map sint (head @ ee_values edit) \<and>
      ep_values plan = drop 5 (ep_payload plan))"
proof -
  let ?i = "ee_identity edit"
  let ?head = "[ee_opcode edit, ei_system_type ?i, ei_instance ?i, ei_address ?i, ei_code ?i]"
  have types: "sint s \<in> {0, 1, 3} \<longleftrightarrow> s = 0 \<or> s = 1 \<or> s = 3" for s :: int64
  proof -
    have "s = word_of_int (sint s)" by simp
    then have "sint s = 0 \<Longrightarrow> s = 0" "sint s = 1 \<Longrightarrow> s = 1" "sint s = 3 \<Longrightarrow> s = 3" by (metis of_int_0 of_int_1 of_int_numeral)+
    then show ?thesis by auto
  qed
  have bytes: "map uint p = map sint xs \<longleftrightarrow> p = map ucast xs" if "list_all raw_byte xs" for p :: "byte list" and xs
  proof -
    have eq: "map sint xs = map uint (map ucast xs :: byte list)" using that by (auto simp: list_all_iff raw_byte_uint)
    show ?thesis unfolding eq map_uint_eq ..
  qed
  have fld: "\<lparr>ep_identity = i, ep_payload = p, ep_values = v, ep_op09 = b, ep_op0b = c\<rparr> = plan \<longleftrightarrow>
      ep_op09 plan = b \<and> ep_op0b plan = c \<and> ep_identity plan = i \<and> ep_payload plan = p \<and> ep_values plan = v" for i p v b c
    by (cases plan) auto
  have baselines: "(baseline_usable ?i 0x09 x \<and> baseline_usable ?i 0x0B y \<and>
        ep_op09 plan = (case x of None \<Rightarrow> [] | Some b \<Rightarrow> eb_raw b) \<and> ep_op0b plan = (case y of None \<Rightarrow> [] | Some b \<Rightarrow> eb_raw b)) \<longleftrightarrow>
      (\<exists>b09 b0b. x = Some b09 \<and> y = Some b0b \<and> eb_success b09 \<and> eb_success b0b \<and>
         eb_identity b09 = ?i \<and> eb_identity b0b = ?i \<and> eb_opcode b09 = 0x09 \<and> eb_opcode b0b = 0x0B \<and>
         length (eb_raw b09) = 8 \<and> length (eb_raw b0b) = 8 \<and> ep_op09 plan = eb_raw b09 \<and> ep_op0b plan = eb_raw b0b)" for x y
    by (cases x; cases y) (auto simp: baseline_usable_def)
  have built: "build_event_plan edit = Some plan \<longleftrightarrow>
      ei_family ?i \<noteq> [] \<and> list_all raw_byte (?head @ ee_values edit) \<and> length (ee_values edit) = 7 \<and>
      (ei_system_type ?i = 0 \<or> ei_system_type ?i = 1 \<or> ei_system_type ?i = 3) \<and> 1 \<le> sint (ei_address ?i) \<and>
      sint (ei_address ?i) \<le> (if ei_system_type ?i = 0 then 3 else 2) \<and> ee_opcode edit \<in> {0x0A, 0x0C} \<and>
      (baseline_usable ?i 0x09 (ee_op09 edit) \<and> baseline_usable ?i 0x0B (ee_op0b edit) \<and>
       ep_op09 plan = (case ee_op09 edit of None \<Rightarrow> [] | Some b \<Rightarrow> eb_raw b) \<and>
       ep_op0b plan = (case ee_op0b edit of None \<Rightarrow> [] | Some b \<Rightarrow> eb_raw b)) \<and>
      ep_identity plan = ?i \<and> ep_payload plan = map ucast (?head @ ee_values edit) \<and> ep_values plan = map ucast (ee_values edit)"
    unfolding build_event_plan_def Let_def if_None option.inject fld
    by (auto simp: list_all_iff list_ex_iff split del: if_split)
  have rest: "ep_payload plan = map ucast (?head @ ee_values edit) \<and> ep_values plan = map ucast (ee_values edit) \<longleftrightarrow>
      map uint (ep_payload plan) = map sint (?head @ ee_values edit) \<and> ep_values plan = drop 5 (ep_payload plan)"
    if "list_all raw_byte (?head @ ee_values edit)"
    unfolding bytes [OF that] by auto
  show ?thesis
    unfolding Let_def types built baselines by (intro conj_cong refl rest)
qed

section \<open>Event pairs\<close>

definition event_answered :: "event \<Rightarrow> bool" where
  "event_answered e \<longleftrightarrow> (\<exists>op type inst addr code. ev_request e = [op, type, inst, addr, code] \<and>
     length (ev_response e) = 8 \<and> op \<in> {0x09, 0x0B} \<and>
     ((type = 0 \<and> addr \<in> {1, 2, 3}) \<or> (type \<in> {1, 3} \<and> addr \<in> {1, 2})))"

lemma small_byte:
  "1 \<le> a \<and> a \<le> 3 \<longleftrightarrow> a = 1 \<or> a = 2 \<or> a = (3 :: byte)" "1 \<le> a \<and> a \<le> 2 \<longleftrightarrow> a = 1 \<or> a = (2 :: byte)"
  by (auto simp: word_le_def word_eq_iff_unsigned [where 'a = int])

lemma decode_event_valid:
  "ev_valid (decode_event family request response failure) \<longleftrightarrow>
     failure = None \<and> event_answered (decode_event family request response failure)"
proof (cases failure)
  case None
  show ?thesis
  proof (cases "length request = 5")
    case True
    then obtain op type inst addr code where "request = [op, type, inst, addr, code]"
      by (auto simp: length_Suc_conv numeral_eq_Suc)
    then show ?thesis
      using None by (auto simp: decode_event_def Let_def event_answered_def small_byte)
  qed (use None in \<open>auto simp: decode_event_def event_answered_def\<close>)
qed (simp add: decode_event_def Let_def)

lemma decode_event_kept:
  "ev_family (decode_event family request response failure) = family"
  "ev_request (decode_event family request response failure) = request"
  "ev_response (decode_event family request response failure) = response"
  "ev_failure (decode_event family request response failure) = (case failure of None \<Rightarrow> [] | Some text \<Rightarrow> text)"
  by (auto simp: decode_event_def Let_def split: option.splits)

text \<open>
  Two observations make a complete pair exactly when both exchanges succeeded, one of them asked with
  opcode 09 and the other with 0B, for the same family and selector, of a known system type and address,
  and both answers have eight bytes; the configuration and the seven raw bytes are then those answers.
  Bytes and error text are kept in every case.
\<close>

theorem event_pair_exact:
  "let e = decode_event family request response failure; f = decode_event family' request' response' failure' in
   (pair_complete (e, f) \<longleftrightarrow> failure = None \<and> failure' = None \<and> family = family' \<and> event_answered e \<and> event_answered f \<and>
      tl request = tl request' \<and> {request ! 0, request' ! 0} = {0x09, 0x0B}) \<and>
   (case event_configuration e of
      None \<Rightarrow> event_raw e = None \<and> \<not> pair_complete (e, f)
    | Some c \<Rightarrow> (\<exists>raw. event_raw e = Some raw \<and> length raw = 7 \<and> response = c # raw)) \<and>
   ev_request e = request \<and> ev_response e = response \<and> ev_failure e = (case failure of None \<Rightarrow> [] | Some text \<Rightarrow> text)"
proof -
  let ?e = "decode_event family request response failure"
  let ?f = "decode_event family' request' response' failure'"
  have op: "request ! 0 \<in> {0x09, 0x0B}" if "event_answered ?e"
    using that by (auto simp: event_answered_def decode_event_kept)
  have op': "request' ! 0 \<in> {0x09, 0x0B}" if "event_answered ?f"
    using that by (auto simp: event_answered_def decode_event_kept)
  have ops: "x \<noteq> y \<longleftrightarrow> {x, y} = {a, b}" if "x \<in> {a, b}" "y \<in> {a, b}" "a \<noteq> b" for x y a b :: byte using that by auto
  have complete: "pair_complete (?e, ?f) \<longleftrightarrow> failure = None \<and> failure' = None \<and> family = family' \<and> event_answered ?e \<and> event_answered ?f \<and>
      tl request = tl request' \<and> {request ! 0, request' ! 0} = {0x09, 0x0B}"
    using ops [OF op op'] unfolding pair_complete_def Let_def prod.case decode_event_valid decode_event_kept by auto
  moreover have "\<exists>c raw. response = c # raw \<and> length raw = 7" if "ev_valid ?e"
    using that unfolding decode_event_valid event_answered_def decode_event_kept
    by (auto simp: length_Suc_conv numeral_eq_Suc)
  then have "case event_configuration ?e of
      None \<Rightarrow> event_raw ?e = None \<and> \<not> pair_complete (?e, ?f)
    | Some c \<Rightarrow> (\<exists>raw. event_raw ?e = Some raw \<and> length raw = 7 \<and> response = c # raw)"
    by (cases "ev_valid ?e") (auto simp: event_configuration_def event_raw_def pair_complete_def decode_event_kept)
  ultimately show ?thesis by (simp only: Let_def decode_event_kept simp_thms)
qed

section \<open>Register descriptions\<close>

lemma index_descriptions_exact:
  assumes "index_descriptions ix c rs = (ix', c')"
    and "\<And>k. gm_get (di_conflicts ix) k = Some True \<longleftrightarrow> \<not> list_all (\<lambda>r. r = hd (records_at (di_records ix) k)) (records_at (di_records ix) k)"
    and "c \<longleftrightarrow> (\<exists>k. gm_get (di_conflicts ix) k = Some True)"
  shows "records_at (di_records ix') k = records_at (di_records ix) k @ filter (\<lambda>r. dsc_key r = k) (map normal_record rs) \<and>
    (gm_get (di_conflicts ix') k = Some True \<longleftrightarrow>
       \<not> list_all (\<lambda>r. r = hd (records_at (di_records ix') k)) (records_at (di_records ix') k)) \<and>
    (c' \<longleftrightarrow> (\<exists>k. gm_get (di_conflicts ix') k = Some True))"
  using assms
proof (induction rs arbitrary: ix c)
  case (Cons r rs)
  let ?r = "normal_record r"
  let ?prior = "records_at (di_records ix) (dsc_key ?r)"
  let ?differs = "length ?prior > 0 \<and> ?prior ! 0 \<noteq> ?r"
  let ?ix1 = "if ?differs then ix\<lparr>di_conflicts := gm_put (dsc_key ?r) True (di_conflicts ix)\<rparr> else ix"
  let ?ix2 = "?ix1\<lparr>di_records := gm_put (dsc_key ?r) (?prior @ [?r]) (di_records ?ix1)\<rparr>"
  have step: "index_descriptions ?ix2 (c \<or> ?differs) rs = (ix', c')" using Cons.prems(1) by (simp only: index_descriptions.simps Let_def)
  have at: "records_at (di_records ?ix2) j = (if j = dsc_key ?r then ?prior @ [?r] else records_at (di_records ix) j)" for j
    by (simp add: records_at_def)
  have con: "gm_get (di_conflicts ?ix2) j = Some True \<longleftrightarrow> gm_get (di_conflicts ix) j = Some True \<or> (?differs \<and> j = dsc_key ?r)" for j
    by simp
  have "gm_get (di_conflicts ?ix2) j = Some True \<longleftrightarrow>
      \<not> list_all (\<lambda>x. x = hd (records_at (di_records ?ix2) j)) (records_at (di_records ?ix2) j)" for j
    unfolding con at using Cons.prems(2) [of j] by (cases ?prior) auto
  moreover have "c \<or> ?differs \<longleftrightarrow> (\<exists>j. gm_get (di_conflicts ?ix2) j = Some True)"
    unfolding con using Cons.prems(3) by blast
  ultimately show ?case
    using Cons.IH [OF step] unfolding at by simp
qed simp

text \<open>An index of descriptions answers a key from exactly the records given for it, in order, with an
  unlisted state read as unknown: it finds nothing if there are none, the common record if they are all
  equal, and reports a conflict otherwise, whatever the order in which they came; building the index
  reports a conflict exactly when some key has one, and the records stay readable then.
\<close>

theorem description_index_exact:
  "case new_description_index rs of (ix, conflict) \<Rightarrow>
     (let given = (\<lambda>k. filter (\<lambda>r. dsc_key r = k) (map normal_record rs)); agree = (\<lambda>k. list_all (\<lambda>r. r = hd (given k)) (given k)) in
      description_records (Some ix) k = given k \<and>
      description_lookup (Some ix) k =
        (if given k = [] then Inr None else if agree k then Inr (Some (hd (given k))) else Inl ()) \<and>
      (conflict \<longleftrightarrow> (\<exists>k. \<not> agree k)))"
proof -
  let ?z = "\<lparr>di_records = [], di_conflicts = []\<rparr>"
  obtain ix c where ix: "index_descriptions ?z False rs = (ix, c)" by (cases "index_descriptions ?z False rs")
  have get: "records_at (di_records ix) k = filter (\<lambda>r. dsc_key r = k) (map normal_record rs)"
    "gm_get (di_conflicts ix) k = Some True \<longleftrightarrow>
       \<not> list_all (\<lambda>r. r = hd (records_at (di_records ix) k)) (records_at (di_records ix) k)"
    "c \<longleftrightarrow> (\<exists>k. gm_get (di_conflicts ix) k = Some True)" for k
    using index_descriptions_exact [OF ix, of k] by (simp_all add: records_at_def gm_get_def)
  show ?thesis
    by (cases "filter (\<lambda>r. dsc_key r = k) (map normal_record rs)")
      (simp_all add: new_description_index_def ix description_records_def description_lookup_def get list_all_iff Let_def)
qed

end
