(* ===== verification/Vai_Values.thy ===== *)
theory Vai_Values
  imports Vai_Params Go_Words
begin

text \<open>
  Register values and descriptions of the B5 24 protocol (\<open>vaillant/system/ab11_value_codec.go\<close>,
  \<open>ab44_b524_description_spans.go\<close>): explicit codecs over little-endian bytes, with the grade of the
  evidence for them. A float32 that is decoded is its 32 bits; a limit is the exact number the bits
  stand for, which does not tell a negative zero from zero.
\<close>

section \<open>Little-endian words and float32\<close>

definition le16 :: "byte list \<Rightarrow> uint16" where
  "le16 bs = ucast (bs ! 0) OR push_bit 8 (ucast (bs ! 1))"

definition le32 :: "byte list \<Rightarrow> uint32" where
  "le32 bs = ucast (bs ! 0) OR push_bit 8 (ucast (bs ! 1)) OR push_bit 16 (ucast (bs ! 2)) OR push_bit 24 (ucast (bs ! 3))"

text \<open>\<open>math.Float32frombits\<close>: sign, 8 bits of exponent, 23 bits of fraction.\<close>

definition float32_of_bits :: "uint32 \<Rightarrow> go_float" where
  "float32_of_bits w =
     (let exponent = unat (drop_bit 23 w AND 0xFF); fraction = uint (w AND 0x7FFFFF);
          sign = (if bit w 31 then -1 else 1 :: rat)
      in if exponent = 255 then (if fraction = 0 then Infinite else NotANumber)
         else if exponent = 0 then Finite (sign * of_int fraction / 2 ^ 149)
         else Finite (sign * of_int (fraction + 2 ^ 23) * 2 ^ exponent / 2 ^ 150))"

section \<open>Value codecs\<close>

datatype value_meaning =
    IBool bool
  | IUint8 byte
  | IUint16 uint16
  | IInt8 "8 word"
  | IInt16 "16 word"
  | IUint32 uint32
  | IInt32 "32 word"
  | IFloat32 uint32
  | IDate byte byte byte
  | ITime byte byte byte
  | IFirmware "byte list"
  | IText "byte list" "byte list"
  | IHex "byte list"

record value_reading =
  va_raw :: "byte list"
  va_grade :: string
  va_interpretation :: "value_meaning option"
  va_qualified :: bool

text \<open>The UTF-8 of the code points 0 to 255, one per byte.\<close>

definition latin1_utf8 :: "byte list \<Rightarrow> byte list" where
  "latin1_utf8 bs = concat (map (\<lambda>b. if b < 0x80 then [b] else [0xC0 OR drop_bit 6 b, 0x80 OR (b AND 0x3F)]) bs)"

definition codec_width :: "string \<Rightarrow> int64 \<Rightarrow> int64 option" where
  "codec_width codec width =
     (if codec = ''BOOL'' \<or> codec = ''UCH'' \<or> codec = ''I8'' then Some 1
      else if codec = ''UIN'' \<or> codec = ''I16'' then Some 2
      else if codec = ''U32'' \<or> codec = ''I32'' \<or> codec = ''EXP'' then Some 4
      else if codec = ''DATE_DMY_U8X3'' \<or> codec = ''TIME_HMS_U8X3'' \<or> codec = ''FW'' \<or> codec = ''FWU'' then Some 3
      else if codec = ''STR'' \<or> codec = ''HEX'' then Some width
      else None)"

definition firmware_part :: "byte \<Rightarrow> byte option" where
  "firmware_part b =
     (if drop_bit 4 b > 9 \<or> b AND 15 > 9 then None else Some (drop_bit 4 b * 10 + (b AND 15)))"

definition interpret_value :: "string \<Rightarrow> byte list \<Rightarrow> value_meaning option" where
  "interpret_value codec raw =
     (if codec = ''BOOL'' then (if raw ! 0 > 1 then None else Some (IBool (raw ! 0 = 1)))
      else if codec = ''UCH'' then Some (IUint8 (raw ! 0))
      else if codec = ''UIN'' then Some (IUint16 (le16 raw))
      else if codec = ''I8'' then Some (IInt8 (raw ! 0))
      else if codec = ''I16'' then Some (IInt16 (le16 raw))
      else if codec = ''U32'' then Some (IUint32 (le32 raw))
      else if codec = ''I32'' then Some (IInt32 (le32 raw))
      else if codec = ''EXP'' then
        (case float32_of_bits (le32 raw) of Finite q \<Rightarrow> Some (IFloat32 (le32 raw)) | _ \<Rightarrow> None)
      else if codec = ''DATE_DMY_U8X3'' then Some (IDate (raw ! 0) (raw ! 1) (raw ! 2))
      else if codec = ''TIME_HMS_U8X3'' then Some (ITime (raw ! 0) (raw ! 1) (raw ! 2))
      else if codec = ''FWU'' then (if raw = [255, 255, 255] then None else Some (IFirmware raw))
      else if codec = ''FW'' then map_option IFirmware (those (map firmware_part raw))
      else if codec = ''STR'' then Some (IText raw (latin1_utf8 raw))
      else if codec = ''HEX'' then Some (IHex raw)
      else None)"

definition decode_value :: "string \<Rightarrow> int64 \<Rightarrow> string \<Rightarrow> byte list \<Rightarrow> value_reading" where
  "decode_value codec width grade raw =
     (let result = \<lparr>va_raw = raw, va_grade = grade, va_interpretation = None, va_qualified = False\<rparr> in
      if grade \<noteq> ''Proven'' \<and> grade \<noteq> ''Hypothesis'' then result
      else case codec_width codec width of
        None \<Rightarrow> result
      | Some expected \<Rightarrow>
          if sint width \<le> 0 \<or> width \<noteq> expected \<or> int (length raw) \<noteq> sint width then result
          else case interpret_value codec raw of
            None \<Rightarrow> result
          | Some v \<Rightarrow> result\<lparr>va_interpretation := Some v, va_qualified := (grade = ''Proven'')\<rparr>)"

section \<open>Register descriptions\<close>

record span_context =
  sx_family :: "string option"
  sx_software :: "uint16 option"
  sx_hardware :: "uint16 option"
  sx_api_version :: "byte option"
  sx_api_revision :: "byte option"
  sx_op :: "byte option"
  sx_gg :: "byte option"
  sx_ii :: "byte option"
  sx_rr :: "uint16 option"

record span_limits =
  sl_minimum :: rat
  sl_maximum :: rat
  sl_step :: rat

record span_description =
  sd_context :: span_context
  sd_codec :: string
  sd_width :: int64
  sd_grade :: string
  sd_raw :: "byte list"
  sd_minimum_raw :: "byte list"
  sd_maximum_raw :: "byte list"
  sd_step_raw :: "byte list"
  sd_metadata_op :: "byte option"
  sd_limits :: "span_limits option"
  sd_implementation_valid :: bool
  sd_numeric_valid :: bool
  sd_step_meaning :: string
  sd_reason :: string

text \<open>The empty reason is no reason; cloning a context is the identity.\<close>

definition context_reason :: "span_context \<Rightarrow> string" where
  "context_reason c =
     (if sx_family c = None \<or> sx_family c = Some [] \<or> sx_software c = None \<or> sx_hardware c = None \<or>
         sx_api_version c = None \<or> sx_api_revision c = None \<or> sx_op c = None \<or> sx_gg c = None \<or> sx_ii c = None \<or>
         sx_rr c = None then ''ab44_incomplete_context''
      else if sx_op c \<noteq> Some 0x01 \<and> sx_op c \<noteq> Some 0x07 then ''ab44_unsupported_op''
      else [])"

definition build_description :: "span_context \<Rightarrow> string + byte list" where
  "build_description c =
     (if context_reason c \<noteq> [] then Inl (context_reason c)
      else Inr [the (sx_op c), the (sx_gg c), the (sx_ii c), lo8 (the (sx_rr c)), hi8 (the (sx_rr c))])"

definition span_number :: "string \<Rightarrow> byte list \<Rightarrow> go_float" where
  "span_number codec bytes =
     (if codec = ''UCH'' then Finite (of_int (uint (bytes ! 0)))
      else if codec = ''UIN'' then Finite (of_int (uint (le16 bytes)))
      else float32_of_bits (le32 bytes))"

definition span_width :: "string \<Rightarrow> int64 option" where
  "span_width codec =
     (if codec = ''UCH'' then Some 1 else if codec = ''UIN'' then Some 2 else if codec = ''EXP'' then Some 4
      else if codec = ''DATE'' \<or> codec = ''TIME'' then Some 3 else None)"

text \<open>The three limits; none if one of them is not finite.\<close>

definition finite_limits :: "go_float \<Rightarrow> go_float \<Rightarrow> go_float \<Rightarrow> span_limits option" where
  "finite_limits low high step =
     (case (low, high, step) of
        (Finite l, Finite h, Finite s) \<Rightarrow> Some \<lparr>sl_minimum = l, sl_maximum = h, sl_step = s\<rparr>
      | _ \<Rightarrow> None)"

definition numeric_description :: "string \<Rightarrow> span_description \<Rightarrow> span_description" where
  "numeric_description codec d =
     (case finite_limits (span_number codec (sd_minimum_raw d)) (span_number codec (sd_maximum_raw d))
             (span_number codec (sd_step_raw d)) of
        None \<Rightarrow> d\<lparr>sd_reason := ''ab44_nonfinite_limits''\<rparr>
      | Some limits \<Rightarrow>
          if sl_minimum limits > sl_maximum limits then d\<lparr>sd_reason := ''ab44_reversed_limits''\<rparr>
          else if sl_step limits < 0 then d\<lparr>sd_reason := ''ab44_negative_step''\<rparr>
          else d\<lparr>sd_limits := Some limits, sd_implementation_valid := True, sd_numeric_valid := True,
                 sd_reason := ''ab44_numeric_limits''\<rparr>)"

definition codec_description :: "string \<Rightarrow> int64 \<Rightarrow> string \<Rightarrow> span_description \<Rightarrow> span_description" where
  "codec_description codec width grade d =
     (case span_width codec of
        None \<Rightarrow> d\<lparr>sd_reason := ''ab44_unsupported_codec''\<rparr>
      | Some expected \<Rightarrow>
          if width \<noteq> expected then d\<lparr>sd_reason := ''ab44_codec_width_mismatch''\<rparr>
          else if grade \<noteq> ''Hypothesis'' \<and> grade \<noteq> ''Proven'' then d\<lparr>sd_reason := ''ab44_codec_grade_required''\<rparr>
          else if codec = ''DATE'' \<or> codec = ''TIME''
          then d\<lparr>sd_implementation_valid := True, sd_reason := ''ab44_date_time_raw_only''\<rparr>
          else numeric_description codec d)"

definition decode_description ::
  "span_context \<Rightarrow> string \<Rightarrow> int64 \<Rightarrow> string \<Rightarrow> byte list \<Rightarrow> span_description" where
  "decode_description ctx codec width grade raw =
     (let result = \<lparr>sd_context = ctx, sd_codec = codec, sd_width = width, sd_grade = grade, sd_raw = raw,
            sd_minimum_raw = [], sd_maximum_raw = [], sd_step_raw = [], sd_metadata_op = None, sd_limits = None,
            sd_implementation_valid = False, sd_numeric_valid = False, sd_step_meaning = ''Unknown'', sd_reason = []\<rparr>;
          n = nat (sint width)
      in if sint width < 1 \<or> sint width > 4 then result\<lparr>sd_reason := ''ab44_bad_width''\<rparr>
         else if length raw \<noteq> 3 + 3 * n then result\<lparr>sd_reason := ''ab44_malformed_length''\<rparr>
         else
           let spans = result\<lparr>sd_minimum_raw := take n (drop 3 raw), sd_maximum_raw := take n (drop (3 + n) raw),
                 sd_step_raw := drop (3 + 2 * n) raw\<rparr>
           in if context_reason ctx \<noteq> [] then spans\<lparr>sd_reason := context_reason ctx\<rparr>
              else if raw ! 0 \<noteq> the (sx_gg ctx) \<or> le16 (take 2 (drop 1 raw)) \<noteq> the (sx_rr ctx)
              then spans\<lparr>sd_reason := ''ab44_echo_mismatch''\<rparr>
              else codec_description codec width grade
                     (spans\<lparr>sd_metadata_op := Some (if the (sx_op ctx) = 0x07 then 0x06 else 0x02)\<rparr>))"

section \<open>Values and their bytes\<close>

text \<open>The bytes a value has under a codec, if the codec can mean it.\<close>

definition bytes16 :: "uint16 \<Rightarrow> byte list" where
  "bytes16 w = [ucast w, ucast (drop_bit 8 w)]"

definition bytes32 :: "uint32 \<Rightarrow> byte list" where
  "bytes32 w = [ucast w, ucast (drop_bit 8 w), ucast (drop_bit 16 w), ucast (drop_bit 24 w)]"

lemma byte_bit_high: "8 \<le> n \<Longrightarrow> \<not> bit b n" for b :: byte
  using bit_imp_le_length [of b n] by auto

lemma le16_bytes: "length raw = 2 \<Longrightarrow> le16 raw = w \<longleftrightarrow> raw = bytes16 w"
proof -
  assume "length raw = 2"
  then obtain a b where raw: "raw = [a, b]" by (auto simp: length_Suc_conv numeral_eq_Suc)
  have "le16 (bytes16 w) = w" by (rule bit_word_eqI) (auto simp: le16_def bytes16_def bit_simps)
  moreover have "bytes16 (le16 [a, b]) = [a, b]"
    by (auto simp: le16_def bytes16_def bit_simps byte_bit_high intro!: bit_word_eqI)
  ultimately show ?thesis using raw by auto
qed

lemma le32_bytes: "length raw = 4 \<Longrightarrow> le32 raw = w \<longleftrightarrow> raw = bytes32 w"
proof -
  assume "length raw = 4"
  then obtain a b c d where raw: "raw = [a, b, c, d]" by (auto simp: length_Suc_conv numeral_eq_Suc)
  have "le32 (bytes32 w) = w"
    by (rule bit_word_eqI, rename_tac n, case_tac "n < 8"; case_tac "n < 16"; case_tac "n < 24")
      (auto simp: le32_def bytes32_def bit_simps)
  moreover have "bytes32 (le32 [a, b, c, d]) = [a, b, c, d]"
    by (auto simp: le32_def bytes32_def bit_simps byte_bit_high intro!: bit_word_eqI)
  ultimately show ?thesis using raw by auto
qed

fun value_bytes :: "string \<Rightarrow> value_meaning \<Rightarrow> byte list option" where
  "value_bytes codec (IBool b) = (if codec = ''BOOL'' then Some [if b then 1 else 0] else None)"
| "value_bytes codec (IUint8 b) = (if codec = ''UCH'' then Some [b] else None)"
| "value_bytes codec (IUint16 w) = (if codec = ''UIN'' then Some (bytes16 w) else None)"
| "value_bytes codec (IInt8 b) = (if codec = ''I8'' then Some [b] else None)"
| "value_bytes codec (IInt16 w) = (if codec = ''I16'' then Some (bytes16 w) else None)"
| "value_bytes codec (IUint32 w) = (if codec = ''U32'' then Some (bytes32 w) else None)"
| "value_bytes codec (IInt32 w) = (if codec = ''I32'' then Some (bytes32 w) else None)"
| "value_bytes codec (IFloat32 w) = (if codec = ''EXP'' \<and> (\<exists>q. float32_of_bits w = Finite q) then Some (bytes32 w) else None)"
| "value_bytes codec (IDate d m y) = (if codec = ''DATE_DMY_U8X3'' then Some [d, m, y] else None)"
| "value_bytes codec (ITime h m s) = (if codec = ''TIME_HMS_U8X3'' then Some [h, m, s] else None)"
| "value_bytes codec (IFirmware ps) =
     (if length ps \<noteq> 3 then None
      else if codec = ''FWU'' then (if ps = [255, 255, 255] then None else Some ps)
      else if codec = ''FW'' \<and> list_all (\<lambda>p. p \<le> 99) ps then Some (map (\<lambda>p. p div 10 * 16 + p mod 10) ps)
      else None)"
| "value_bytes codec (IText bs text) = (if codec = ''STR'' \<and> bs \<noteq> [] \<and> text = latin1_utf8 bs then Some bs else None)"
| "value_bytes codec (IHex bs) = (if codec = ''HEX'' \<and> bs \<noteq> [] then Some bs else None)"

lemma firmware_part_exact: "firmware_part b = Some p \<longleftrightarrow> p \<le> 99 \<and> b = p div 10 * 16 + p mod 10"
proof -
  let ?n = "unat b" let ?m = "unat p"
  have hi: "unat (drop_bit 4 b) = ?n div 16" by (simp add: drop_bit_eq_div unat_div)
  have "b AND 15 = b mod 16" using take_bit_eq_mask [of 4 b] by (simp add: mask_eq_exp_minus_1 take_bit_eq_mod)
  then have lo: "unat (b AND 15) = ?n mod 16" by (simp only: unat_mod) simp
  have part: "unat (drop_bit 4 b * 10 + (b AND 15)) = ?n div 16 * 10 + ?n mod 16" if "?n div 16 \<le> 9" "?n mod 16 \<le> 9"
    using that by (simp add: unat_word_ariths hi lo)
  have n: "?n < 256" and m: "?m < 256" using unsigned_less [of b] unsigned_less [of p] by simp_all
  have "firmware_part b = Some p \<longleftrightarrow> ?n div 16 \<le> 9 \<and> ?n mod 16 \<le> 9 \<and> ?m = ?n div 16 * 10 + ?n mod 16"
    using part by (auto simp: firmware_part_def word_less_nat_alt hi lo word_eq_iff_unsigned [where 'a = nat] not_less)
  also have "\<dots> \<longleftrightarrow> ?m \<le> 99 \<and> ?n = ?m div 10 * 16 + ?m mod 10"
    by (auto; presburger)
  also have "\<dots> \<longleftrightarrow> p \<le> 99 \<and> b = p div 10 * 16 + p mod 10"
    by (auto simp: word_le_nat_alt word_eq_iff_unsigned [where 'a = nat] unat_word_ariths unat_div unat_mod)
  finally show ?thesis .
qed

text \<open>How many bytes a codec has; none for the codecs of any width.\<close>

definition fixed_width :: "string \<Rightarrow> nat option" where
  "fixed_width codec = map_of [(''BOOL'', 1), (''UCH'', 1), (''I8'', 1), (''UIN'', 2), (''I16'', 2), (''U32'', 4), (''I32'', 4),
     (''EXP'', 4), (''DATE_DMY_U8X3'', 3), (''TIME_HMS_U8X3'', 3), (''FW'', 3), (''FWU'', 3)] codec"

definition length_fits :: "string \<Rightarrow> nat \<Rightarrow> bool" where
  "length_fits codec n \<longleftrightarrow> (case fixed_width codec of Some w \<Rightarrow> n = w | None \<Rightarrow> codec \<in> {''STR'', ''HEX''} \<and> n > 0)"

lemma those_Some: "those (map f xs) = Some ys \<longleftrightarrow> list_all2 (\<lambda>x y. f x = Some y) xs ys"
  by (induction xs arbitrary: ys) (auto simp: list_all2_Cons1 split: option.splits)

lemma firmware_list:
  "list_all2 (\<lambda>b p. firmware_part b = Some p) raw ps \<longleftrightarrow>
     list_all (\<lambda>p. p \<le> 99) ps \<and> raw = map (\<lambda>p. p div 10 * 16 + p mod 10) ps"
  unfolding firmware_part_exact by (induction ps arbitrary: raw) (auto simp: list_all2_Cons2)

lemma interpret_codecs:
  "interpret_value ''BOOL'' raw = (if raw ! 0 > 1 then None else Some (IBool (raw ! 0 = 1)))"
  "interpret_value ''UCH'' raw = Some (IUint8 (raw ! 0))"
  "interpret_value ''I8'' raw = Some (IInt8 (raw ! 0))"
  "interpret_value ''UIN'' raw = Some (IUint16 (le16 raw))"
  "interpret_value ''I16'' raw = Some (IInt16 (le16 raw))"
  "interpret_value ''U32'' raw = Some (IUint32 (le32 raw))"
  "interpret_value ''I32'' raw = Some (IInt32 (le32 raw))"
  "interpret_value ''EXP'' raw = (case float32_of_bits (le32 raw) of Finite q \<Rightarrow> Some (IFloat32 (le32 raw)) | _ \<Rightarrow> None)"
  "interpret_value ''DATE_DMY_U8X3'' raw = Some (IDate (raw ! 0) (raw ! 1) (raw ! 2))"
  "interpret_value ''TIME_HMS_U8X3'' raw = Some (ITime (raw ! 0) (raw ! 1) (raw ! 2))"
  "interpret_value ''FWU'' raw = (if raw = [255, 255, 255] then None else Some (IFirmware raw))"
  "interpret_value ''FW'' raw = map_option IFirmware (those (map firmware_part raw))"
  "interpret_value ''STR'' raw = Some (IText raw (latin1_utf8 raw))"
  "interpret_value ''HEX'' raw = Some (IHex raw)"
  by (simp_all add: interpret_value_def)

lemma bit_byte: "a > 1 \<longleftrightarrow> a \<noteq> 0 \<and> a \<noteq> 1" for a :: byte
  by (auto simp: word_less_nat_alt word_eq_iff_unsigned [where 'a = nat])

lemma interpret_one:
  assumes "length raw = 1"
  shows "interpret_value ''BOOL'' raw = Some v \<longleftrightarrow> value_bytes ''BOOL'' v = Some raw"
    and "interpret_value ''UCH'' raw = Some v \<longleftrightarrow> value_bytes ''UCH'' v = Some raw"
    and "interpret_value ''I8'' raw = Some v \<longleftrightarrow> value_bytes ''I8'' v = Some raw"
proof -
  obtain a where raw: "raw = [a]" using assms by (auto simp: length_Suc_conv)
  show "interpret_value ''BOOL'' raw = Some v \<longleftrightarrow> value_bytes ''BOOL'' v = Some raw"
    "interpret_value ''UCH'' raw = Some v \<longleftrightarrow> value_bytes ''UCH'' v = Some raw"
    "interpret_value ''I8'' raw = Some v \<longleftrightarrow> value_bytes ''I8'' v = Some raw"
    unfolding raw by (cases v; auto simp: interpret_codecs bit_byte)+
qed

lemma interpret_words:
  "length raw = 2 \<Longrightarrow> interpret_value ''UIN'' raw = Some v \<longleftrightarrow> value_bytes ''UIN'' v = Some raw"
  "length raw = 2 \<Longrightarrow> interpret_value ''I16'' raw = Some v \<longleftrightarrow> value_bytes ''I16'' v = Some raw"
  "length raw = 4 \<Longrightarrow> interpret_value ''U32'' raw = Some v \<longleftrightarrow> value_bytes ''U32'' v = Some raw"
  "length raw = 4 \<Longrightarrow> interpret_value ''I32'' raw = Some v \<longleftrightarrow> value_bytes ''I32'' v = Some raw"
  by (cases v; auto simp: interpret_codecs le16_bytes le32_bytes)+

lemma interpret_float:
  assumes "length raw = 4"
  shows "interpret_value ''EXP'' raw = Some v \<longleftrightarrow> value_bytes ''EXP'' v = Some raw"
proof -
  have "interpret_value ''EXP'' raw = Some v \<longleftrightarrow> (\<exists>q. float32_of_bits (le32 raw) = Finite q) \<and> v = IFloat32 (le32 raw)"
    by (cases "float32_of_bits (le32 raw)") (auto simp: interpret_codecs)
  also have "\<dots> \<longleftrightarrow> (\<exists>w. v = IFloat32 w \<and> (\<exists>q. float32_of_bits w = Finite q) \<and> raw = bytes32 w)"
    using le32_bytes [OF assms] by metis
  also have "\<dots> \<longleftrightarrow> value_bytes ''EXP'' v = Some raw" by (cases v) auto
  finally show ?thesis .
qed

lemma interpret_three:
  assumes "length raw = 3"
  shows "interpret_value ''DATE_DMY_U8X3'' raw = Some v \<longleftrightarrow> value_bytes ''DATE_DMY_U8X3'' v = Some raw"
    and "interpret_value ''TIME_HMS_U8X3'' raw = Some v \<longleftrightarrow> value_bytes ''TIME_HMS_U8X3'' v = Some raw"
    and "interpret_value ''FWU'' raw = Some v \<longleftrightarrow> value_bytes ''FWU'' v = Some raw"
    and "interpret_value ''FW'' raw = Some v \<longleftrightarrow> value_bytes ''FW'' v = Some raw"
proof -
  obtain a b c where raw: "raw = [a, b, c]" using assms by (auto simp: length_Suc_conv numeral_eq_Suc)
  show "interpret_value ''DATE_DMY_U8X3'' raw = Some v \<longleftrightarrow> value_bytes ''DATE_DMY_U8X3'' v = Some raw"
    "interpret_value ''TIME_HMS_U8X3'' raw = Some v \<longleftrightarrow> value_bytes ''TIME_HMS_U8X3'' v = Some raw"
    "interpret_value ''FWU'' raw = Some v \<longleftrightarrow> value_bytes ''FWU'' v = Some raw"
    unfolding raw by (cases v; auto simp: interpret_codecs)+
  have "interpret_value ''FW'' raw = Some v \<longleftrightarrow> (\<exists>ps. v = IFirmware ps \<and> list_all2 (\<lambda>b p. firmware_part b = Some p) raw ps)"
    by (auto simp: interpret_codecs those_Some [symmetric])
  also have "\<dots> \<longleftrightarrow> value_bytes ''FW'' v = Some raw"
    using assms unfolding firmware_list by (cases v) auto
  finally show "interpret_value ''FW'' raw = Some v \<longleftrightarrow> value_bytes ''FW'' v = Some raw" .
qed

lemma interpret_any:
  assumes "raw \<noteq> []"
  shows "interpret_value ''STR'' raw = Some v \<longleftrightarrow> value_bytes ''STR'' v = Some raw"
    and "interpret_value ''HEX'' raw = Some v \<longleftrightarrow> value_bytes ''HEX'' v = Some raw"
  using assms by (cases v; auto simp: interpret_codecs)+

definition codec_lengths :: "(string \<times> nat) list" where
  "codec_lengths = [(''BOOL'', 1), (''UCH'', 1), (''I8'', 1), (''UIN'', 2), (''I16'', 2), (''U32'', 4), (''I32'', 4),
     (''EXP'', 4), (''DATE_DMY_U8X3'', 3), (''TIME_HMS_U8X3'', 3), (''FW'', 3), (''FWU'', 3)]"

lemma interpret_value_exact:
  assumes "length_fits codec (length raw)"
  shows "interpret_value codec raw = Some v \<longleftrightarrow> value_bytes codec v = Some raw"
proof (cases "fixed_width codec")
  case None
  then have "codec = ''STR'' \<or> codec = ''HEX''" "raw \<noteq> []" using assms by (auto simp: length_fits_def)
  then show ?thesis using interpret_any by metis
next
  case (Some n)
  have "list_all (\<lambda>(c, n). length raw = n \<longrightarrow> (interpret_value c raw = Some v \<longleftrightarrow> value_bytes c v = Some raw)) codec_lengths"
    unfolding codec_lengths_def list.pred_inject(2) prod.case
    by (intro conjI impI list.pred_inject(1) interpret_one interpret_words interpret_float interpret_three; assumption)
  moreover have "(codec, n) \<in> set codec_lengths"
    using Some unfolding fixed_width_def codec_lengths_def by (rule map_of_SomeD)
  moreover have "length raw = n" using Some assms by (simp add: length_fits_def)
  ultimately show ?thesis by (auto simp: list_all_iff simp del: value_bytes.simps)
qed

lemma fixed_widths:
  "fixed_width ''BOOL'' = Some 1" "fixed_width ''UCH'' = Some 1" "fixed_width ''I8'' = Some 1" "fixed_width ''UIN'' = Some 2"
  "fixed_width ''I16'' = Some 2" "fixed_width ''U32'' = Some 4" "fixed_width ''I32'' = Some 4" "fixed_width ''EXP'' = Some 4"
  "fixed_width ''DATE_DMY_U8X3'' = Some 3" "fixed_width ''TIME_HMS_U8X3'' = Some 3" "fixed_width ''FW'' = Some 3"
  "fixed_width ''FWU'' = Some 3" "fixed_width ''STR'' = None" "fixed_width ''HEX'' = None"
  by (simp_all add: fixed_width_def)

lemma value_bytes_fits: "value_bytes codec v = Some raw \<Longrightarrow> length_fits codec (length raw)"
  by (cases v) (auto simp: length_fits_def fixed_widths bytes16_def bytes32_def split: if_splits)

lemma codec_width_fits:
  assumes "sint width = int (length raw)"
  shows "(case codec_width codec width of None \<Rightarrow> False | Some w \<Rightarrow> \<not> (sint width \<le> 0 \<or> width \<noteq> w)) \<longleftrightarrow>
    length_fits codec (length raw)"
proof -
  have w: "width = w \<longleftrightarrow> int (length raw) = sint w" for w
    using assms by (metis word_eq_iff_signed)
  show ?thesis
    using assms by (cases "raw = []") (simp_all add: codec_width_def length_fits_def fixed_width_def w)
qed

section \<open>Properties\<close>

text \<open>(C36)
  Decoding a value is the inverse of writing it: with a grade and a width that is the length of the
  bytes, a codec reads a value exactly from the bytes it writes for that value, so bytes and values
  determine each other; bytes that no value has, and any other grade or width, give no interpretation.
  Bytes and grade are kept in every case, and only a proven grade qualifies an interpretation.
\<close>

theorem value_codec_exact:
  "let r = decode_value codec width grade raw in
     va_raw r = raw \<and> va_grade r = grade \<and>
     (va_interpretation r = Some v \<longleftrightarrow>
        grade \<in> {''Proven'', ''Hypothesis''} \<and> sint width = int (length raw) \<and> value_bytes codec v = Some raw) \<and>
     (va_qualified r \<longleftrightarrow> grade = ''Proven'' \<and> va_interpretation r \<noteq> None)"
proof -
  have "va_interpretation (decode_value codec width grade raw) = Some v \<longleftrightarrow>
      grade \<in> {''Proven'', ''Hypothesis''} \<and> sint width = int (length raw) \<and>
      length_fits codec (length raw) \<and> interpret_value codec raw = Some v"
  proof (cases "sint width = int (length raw)")
    case True
    show ?thesis
      using codec_width_fits [OF True, of codec] True
      by (auto simp: decode_value_def Let_def split: option.splits)
  next
    case False
    then show ?thesis by (auto simp: decode_value_def Let_def split: option.splits)
  qed
  moreover have "length_fits codec (length raw) \<and> interpret_value codec raw = Some v \<longleftrightarrow> value_bytes codec v = Some raw"
    using interpret_value_exact value_bytes_fits by blast
  ultimately have "va_interpretation (decode_value codec width grade raw) = Some v \<longleftrightarrow>
      grade \<in> {''Proven'', ''Hypothesis''} \<and> sint width = int (length raw) \<and> value_bytes codec v = Some raw"
    by blast
  then show ?thesis
    unfolding Let_def by (intro conjI) (auto simp: decode_value_def Let_def split: option.splits)
qed

lemma case_None: "(case x of None \<Rightarrow> None | Some a \<Rightarrow> f a) = Some y \<longleftrightarrow> (\<exists>a. x = Some a \<and> f a = Some y)"
  by (cases x) simp_all

lemma finite_limits_Some:
  "finite_limits a b c = Some limits \<longleftrightarrow>
     a = Finite (sl_minimum limits) \<and> b = Finite (sl_maximum limits) \<and> c = Finite (sl_step limits)"
  by (cases a; cases b; cases c; cases limits) (auto simp: finite_limits_def)

lemma numeric_width:
  "span_width codec = Some width \<Longrightarrow> \<not> (codec = ''DATE'' \<or> codec = ''TIME'') \<longleftrightarrow> codec \<in> {''UCH'', ''UIN'', ''EXP''}"
  "span_width codec = Some width \<Longrightarrow> \<not> (sint width < 1 \<or> sint width > 4)"
  by (auto simp: span_width_def split: if_splits)

lemma bytes16_lo_hi: "bytes16 r = [lo8 r, hi8 r]"
  by (simp add: bytes16_def lo8_def hi8_def)

lemma spans_split:
  "(length raw = 3 + 3 * n \<and> raw ! 0 = g \<and> le16 (take 2 (drop 1 raw)) = r \<and>
      P (take n (drop 3 raw)) (take n (drop (3 + n) raw)) (drop (3 + 2 * n) raw)) \<longleftrightarrow>
   (\<exists>low high step. length low = n \<and> length high = n \<and> length step = n \<and>
      raw = [g, lo8 r, hi8 r] @ low @ high @ step \<and> P low high step)" (is "?l \<longleftrightarrow> ?r")
proof
  assume l: ?l
  then obtain a b c rest where raw: "raw = a # b # c # rest" "length rest = 3 * n"
    by (cases raw rule: list.exhaust; cases "tl raw"; cases "tl (tl raw)") auto
  have "[b, c] = bytes16 r" using l raw by (simp add: le16_bytes)
  then have head: "a = g" "b = lo8 r" "c = hi8 r" using l raw by (simp_all add: bytes16_lo_hi)
  have parts: "rest = take n rest @ take n (drop n rest) @ drop (2 * n) rest"
    by (metis append_take_drop_id drop_drop mult_2)
  have "drop 3 raw = rest" "drop (3 + n) raw = drop n rest" "drop (3 + 2 * n) raw = drop (2 * n) rest"
    by (simp_all add: raw(1) numeral_3_eq_3)
  then have "P (take n rest) (take n (drop n rest)) (drop (2 * n) rest)" using l by simp
  moreover have "length (take n rest) = n" "length (take n (drop n rest)) = n" "length (drop (2 * n) rest) = n" using raw(2) by simp_all
  moreover have "raw = [g, lo8 r, hi8 r] @ take n rest @ take n (drop n rest) @ drop (2 * n) rest"
    unfolding parts [symmetric] raw(1) head by simp
  ultimately show ?r by blast
next
  assume ?r
  then obtain low high step where "length low = n" "length high = n" "length step = n"
    "raw = [g, lo8 r, hi8 r] @ low @ high @ step" "P low high step" by blast
  moreover from this have "drop 3 raw = low @ high @ step" "drop (3 + n) raw = high @ step" "drop (3 + 2 * n) raw = step"
    by (simp_all add: numeral_3_eq_3)
  ultimately show ?l by (simp add: le16_bytes bytes16_lo_hi)
qed

definition fresh_description :: "span_description \<Rightarrow> bool" where
  "fresh_description d \<longleftrightarrow> sd_limits d = None \<and> \<not> sd_numeric_valid d"

definition description_settled :: "byte list \<Rightarrow> span_description \<Rightarrow> bool" where
  "description_settled raw d \<longleftrightarrow> sd_raw d = raw \<and> sd_reason d \<noteq> [] \<and> (sd_numeric_valid d \<longleftrightarrow> sd_limits d \<noteq> None)"

lemma numeric_description_exact:
  assumes "fresh_description d"
  shows "description_settled (sd_raw d) (numeric_description codec d)"
    and "sd_limits (numeric_description codec d) = Some limits \<longleftrightarrow>
      span_number codec (sd_minimum_raw d) = Finite (sl_minimum limits) \<and>
      span_number codec (sd_maximum_raw d) = Finite (sl_maximum limits) \<and>
      span_number codec (sd_step_raw d) = Finite (sl_step limits) \<and>
      sl_minimum limits \<le> sl_maximum limits \<and> 0 \<le> sl_step limits"
proof -
  show "description_settled (sd_raw d) (numeric_description codec d)"
    using assms by (auto simp: numeric_description_def fresh_description_def description_settled_def split: option.splits)
  show "sd_limits (numeric_description codec d) = Some limits \<longleftrightarrow>
      span_number codec (sd_minimum_raw d) = Finite (sl_minimum limits) \<and>
      span_number codec (sd_maximum_raw d) = Finite (sl_maximum limits) \<and>
      span_number codec (sd_step_raw d) = Finite (sl_step limits) \<and>
      sl_minimum limits \<le> sl_maximum limits \<and> 0 \<le> sl_step limits"
    using assms finite_limits_Some [of "span_number codec (sd_minimum_raw d)" "span_number codec (sd_maximum_raw d)"
        "span_number codec (sd_step_raw d)" limits]
    by (cases "finite_limits (span_number codec (sd_minimum_raw d)) (span_number codec (sd_maximum_raw d))
        (span_number codec (sd_step_raw d))") (auto simp: numeric_description_def fresh_description_def)
qed

lemma codec_description_exact:
  assumes "fresh_description d"
  shows "description_settled (sd_raw d) (codec_description codec width grade d)"
    and "sd_limits (codec_description codec width grade d) = Some limits \<longleftrightarrow>
      span_width codec = Some width \<and> (grade = ''Hypothesis'' \<or> grade = ''Proven'') \<and> \<not> (codec = ''DATE'' \<or> codec = ''TIME'') \<and>
      sd_limits (numeric_description codec d) = Some limits"
proof -
  show "description_settled (sd_raw d) (codec_description codec width grade d)"
    using assms numeric_description_exact(1) [OF assms, of codec]
    by (auto simp: codec_description_def fresh_description_def description_settled_def split: option.splits)
  show "sd_limits (codec_description codec width grade d) = Some limits \<longleftrightarrow>
      span_width codec = Some width \<and> (grade = ''Hypothesis'' \<or> grade = ''Proven'') \<and> \<not> (codec = ''DATE'' \<or> codec = ''TIME'') \<and>
      sd_limits (numeric_description codec d) = Some limits"
    using assms by (cases "span_width codec") (auto simp: codec_description_def fresh_description_def)
qed

text \<open>
  A description has numeric limits exactly when its context is complete and of a known operation, its
  bytes are the echoed group and register followed by minimum, maximum and step of the width of a numeric
  codec with a grade, and the three are finite with minimum at most maximum and step not negative. The
  limits are then the exact numbers of those spans; in every case there is a reason.
\<close>

theorem description_limits_exact:
  "let d = decode_description ctx codec width grade raw in
     sd_raw d = raw \<and> sd_reason d \<noteq> [] \<and> (sd_numeric_valid d \<longleftrightarrow> sd_limits d \<noteq> None) \<and>
     (sd_limits d = Some limits \<longleftrightarrow>
        context_reason ctx = [] \<and> grade \<in> {''Hypothesis'', ''Proven''} \<and> codec \<in> {''UCH'', ''UIN'', ''EXP''} \<and>
        span_width codec = Some width \<and>
        (\<exists>low high step. length low = nat (sint width) \<and> length high = nat (sint width) \<and> length step = nat (sint width) \<and>
           raw = [the (sx_gg ctx), lo8 (the (sx_rr ctx)), hi8 (the (sx_rr ctx))] @ low @ high @ step \<and>
           span_number codec low = Finite (sl_minimum limits) \<and> span_number codec high = Finite (sl_maximum limits) \<and>
           span_number codec step = Finite (sl_step limits)) \<and>
        sl_minimum limits \<le> sl_maximum limits \<and> 0 \<le> sl_step limits)"
proof -
  let ?n = "nat (sint width)"
  let ?P = "\<lambda>low high step. span_number codec low = Finite (sl_minimum limits) \<and>
     span_number codec high = Finite (sl_maximum limits) \<and> span_number codec step = Finite (sl_step limits)"
  let ?ok = "\<not> (sint width < 1 \<or> sint width > 4) \<and> length raw = 3 + 3 * ?n \<and> context_reason ctx = [] \<and>
      raw ! 0 = the (sx_gg ctx) \<and> le16 (take 2 (drop 1 raw)) = the (sx_rr ctx)"
  let ?d = "decode_description ctx codec width grade raw"
  define known where "known = \<lparr>sd_context = ctx, sd_codec = codec, sd_width = width, sd_grade = grade, sd_raw = raw,
     sd_minimum_raw = take ?n (drop 3 raw), sd_maximum_raw = take ?n (drop (3 + ?n) raw), sd_step_raw = drop (3 + 2 * ?n) raw,
     sd_metadata_op = Some (if the (sx_op ctx) = 0x07 then 0x06 else 0x02), sd_limits = None,
     sd_implementation_valid = False, sd_numeric_valid = False, sd_step_meaning = ''Unknown'', sd_reason = []\<rparr>"
  have fresh: "fresh_description known" by (simp add: known_def fresh_description_def)
  have good: "?d = codec_description codec width grade known" if ?ok
    using that by (simp add: decode_description_def known_def Let_def)
  have bad: "description_settled raw ?d \<and> sd_limits ?d = None" if "\<not> ?ok"
    using that by (auto simp: decode_description_def description_settled_def Let_def)
  have settled: "description_settled raw ?d"
    using good bad codec_description_exact(1) [OF fresh, of codec width grade] by (cases ?ok) (simp_all add: known_def)
  have "sd_limits ?d = Some limits \<longleftrightarrow> ?ok \<and> span_width codec = Some width \<and> (grade = ''Hypothesis'' \<or> grade = ''Proven'') \<and>
      \<not> (codec = ''DATE'' \<or> codec = ''TIME'') \<and> ?P (sd_minimum_raw known) (sd_maximum_raw known) (sd_step_raw known) \<and>
      sl_minimum limits \<le> sl_maximum limits \<and> 0 \<le> sl_step limits"
  proof (cases ?ok)
    case True
    show ?thesis unfolding good [OF True] codec_description_exact(2) [OF fresh] numeric_description_exact(2) [OF fresh]
      using True by blast
  next
    case False
    then have "sd_limits ?d = None" using bad by blast
    then show ?thesis using False by (simp only:) blast
  qed
  also have "\<dots> \<longleftrightarrow> context_reason ctx = [] \<and> grade \<in> {''Hypothesis'', ''Proven''} \<and> codec \<in> {''UCH'', ''UIN'', ''EXP''} \<and>
        span_width codec = Some width \<and>
        (length raw = 3 + 3 * ?n \<and> raw ! 0 = the (sx_gg ctx) \<and> le16 (take 2 (drop 1 raw)) = the (sx_rr ctx) \<and>
         ?P (take ?n (drop 3 raw)) (take ?n (drop (3 + ?n) raw)) (drop (3 + 2 * ?n) raw)) \<and>
        sl_minimum limits \<le> sl_maximum limits \<and> 0 \<le> sl_step limits"
  proof (cases "span_width codec = Some width")
    case True
    have num: "codec \<in> {''UCH'', ''UIN'', ''EXP''} \<longleftrightarrow> \<not> (codec = ''DATE'' \<or> codec = ''TIME'')" "(sint width < 1 \<or> sint width > 4) = False"
      using numeric_width [OF True] by (simp_all only: simp_thms)
    have grades: "grade \<in> {''Hypothesis'', ''Proven''} \<longleftrightarrow> (grade = ''Hypothesis'' \<or> grade = ''Proven'')"
      by (simp only: insert_iff empty_iff simp_thms)
    show ?thesis
      unfolding known_def span_description.simps num grades
      by (simp only: True simp_thms) (rule iffI; elim conjE; intro conjI; assumption)
  qed (simp only: simp_thms)
  finally have exact: "sd_limits ?d = Some limits \<longleftrightarrow> \<dots>" .
  note spans = spans_split [of raw ?n "the (sx_gg ctx)" "the (sx_rr ctx)" ?P]
  have "sd_raw ?d = raw" "sd_reason ?d \<noteq> []" "sd_numeric_valid ?d \<longleftrightarrow> sd_limits ?d \<noteq> None"
    using settled unfolding description_settled_def by simp_all
  then show ?thesis
    unfolding Let_def by (intro conjI exact [unfolded spans])
qed

end
