(* ===== verification/Vai_Scalars.thy ===== *)
theory Vai_Scalars
  imports Vai_Values
begin

text \<open>
  Scalar registers of the B5 24 protocol: system (\<open>ab58_b524_system_scalars.go\<close>), hot water and
  ventilation (\<open>ab60_b524_dhw_ventilation_scalars.go\<close>), circuits (\<open>ab62_b524_circuit_scalars.go\<close>) and zones
  (\<open>ab64_b524_zone_scalars.go\<close>), and the system information of operation 0
  (\<open>ab42_b524_system_information.go\<close>). The files repeat the types of the first with another prefix. A
  field that may be missing is an option; in \<open>ab64\<close> the reply kind and the grade are always given. A
  float32 is its 32 bits. The members of a result that are always Unknown are left out.
\<close>

section \<open>Requests and answers\<close>

record scalar_context =
  sc_family :: "string option"
  sc_software :: "string option"
  sc_hardware :: "string option"
  sc_api_version :: "string option"
  sc_api_revision :: "string option"
  sc_opcode :: "byte option"
  sc_group :: "byte option"
  sc_instance :: "byte option"
  sc_register :: "uint16 option"

record scalar_input =
  si_context :: scalar_context
  si_reply_kind :: "string option"
  si_returned_group :: "byte option"
  si_returned_register :: "uint16 option"
  si_codec_grade :: "string option"
  si_raw :: "byte list"

record scalar =
  sv_float32 :: uint32
  sv_uint16 :: uint16

record 'v scalar_result =
  sr_input :: scalar_input
  sr_state :: string
  sr_codec :: string
  sr_unit :: string
  sr_grade :: string
  sr_value :: "'v option"

definition context_complete :: "scalar_context \<Rightarrow> bool" where
  "context_complete ctx \<longleftrightarrow>
     sc_family ctx \<noteq> None \<and> sc_software ctx \<noteq> None \<and> sc_hardware ctx \<noteq> None \<and> sc_api_version ctx \<noteq> None \<and>
     sc_api_revision ctx \<noteq> None \<and> sc_opcode ctx \<noteq> None \<and> sc_group ctx \<noteq> None \<and> sc_instance ctx \<noteq> None \<and>
     sc_register ctx \<noteq> None"

definition raw_only :: "scalar_input \<Rightarrow> string \<Rightarrow> string \<Rightarrow> 'v scalar_result" where
  "raw_only input codec unit =
     \<lparr>sr_input = input, sr_state = ''raw_only'', sr_codec = codec, sr_unit = unit, sr_grade = ''Unknown'', sr_value = None\<rparr>"

definition scalar_candidate :: "'v scalar_result \<Rightarrow> 'v \<Rightarrow> 'v scalar_result" where
  "scalar_candidate r v = r\<lparr>sr_state := ''candidate'', sr_grade := ''Hypothesis'', sr_value := Some v\<rparr>"

text \<open>The answer is about the register asked for, and the codec has a grade.\<close>

definition scalar_echoed :: "scalar_input \<Rightarrow> bool" where
  "scalar_echoed input \<longleftrightarrow>
     si_reply_kind input = Some ''echo_payload'' \<and>
     si_returned_group input \<noteq> None \<and> si_returned_register input \<noteq> None \<and>
     si_returned_group input = sc_group (si_context input) \<and> si_returned_register input = sc_register (si_context input) \<and>
     (si_codec_grade input = Some ''Hypothesis'' \<or> si_codec_grade input = Some ''Proven'')"

text \<open>UTF-8 of the degree sign and C.\<close>

definition celsius :: string where
  "celsius = [CHR 0xC2, CHR 0xB0, CHR ''C'']"

definition finite_float :: "uint32 \<Rightarrow> bool" where
  "finite_float w \<longleftrightarrow> (case float32_of_bits w of Finite q \<Rightarrow> True | _ \<Rightarrow> False)"

definition float_answer :: "byte list \<Rightarrow> uint32 option" where
  "float_answer raw =
     (if length raw \<noteq> 4 then None else if \<not> finite_float (le32 raw) then None else Some (le32 raw))"

definition scalar_of :: "string \<Rightarrow> byte list \<Rightarrow> scalar option" where
  "scalar_of codec raw =
     (if codec = ''float32_le'' then map_option (\<lambda>w. \<lparr>sv_float32 = w, sv_uint16 = 0\<rparr>) (float_answer raw)
      else if codec = ''uint16_le'' then
        (if length raw \<noteq> 2 then None else Some \<lparr>sv_float32 = 0, sv_uint16 = le16 raw\<rparr>)
      else Some \<lparr>sv_float32 = 0, sv_uint16 = 0\<rparr>)"

section \<open>System registers\<close>

text \<open>Codec, unit, and whether every instance is admitted.\<close>

definition system_codec :: "string \<Rightarrow> uint16 \<Rightarrow> string \<times> string \<times> bool" where
  "system_codec family r =
     (if family = ''controller-720'' then
        (if r \<in> {0x0002, 0x0022, 0x0023, 0x0026, 0x0038, 0x0046, 0x004B, 0x0067, 0x0068, 0x0073, 0x0095, 0x009D, 0x009E, 0x009F, 0x00A0, 0x00EF}
         then (''float32_le'', celsius, False)
         else if r \<in> {0x0004, 0x0017, 0x0018} then (''uint16_le'', ''min'', False)
         else if r = 0x0029 then (''float32_le'', ''K'', False)
         else if r \<in> {0x002F, 0x0036} then (''uint16_le'', ''Unknown'', False)
         else if r = 0x0039 then (''float32_le'', ''bar'', False)
         else ([], ''Unknown'', False))
      else if family = ''controller-700'' then
        (if r \<in> {0x0002, 0x0022, 0x0023, 0x0026, 0x0038, 0x0046, 0x004B, 0x0067, 0x0068, 0x0073, 0x0095, 0x009D, 0x009E, 0x009F, 0x00A0}
         then (''float32_le'', celsius, False)
         else if r \<in> {0x0006, 0x002F, 0x0036} then (''uint16_le'', ''Unknown'', False)
         else if r = 0x0017 then (''uint16_le'', ''min'', False)
         else if r = 0x0029 then (''float32_le'', ''K'', False)
         else if r = 0x0039 then (''float32_le'', ''bar'', False)
         else if r \<in> {0x0042, 0x0043} then (''uint16_le'', ''Unknown'', True)
         else ([], ''Unknown'', False))
      else ([], ''Unknown'', False))"

definition interpret_system_scalar :: "scalar_input \<Rightarrow> scalar scalar_result" where
  "interpret_system_scalar input =
     (let ctx = si_context input
      in if \<not> context_complete ctx then raw_only input [] ''Unknown''
         else if sc_opcode ctx \<noteq> Some 0x02 \<or> sc_group ctx \<noteq> Some 0 then raw_only input [] ''Unknown''
         else let (codec, unit, dynamic) = system_codec (the (sc_family ctx)) (the (sc_register ctx));
                  r = raw_only input codec unit
              in if \<not> dynamic \<and> sc_instance ctx \<noteq> Some 0 then r
                 else if codec = [] \<or> \<not> scalar_echoed input then r
                 else case scalar_of codec (si_raw input) of None \<Rightarrow> r | Some v \<Rightarrow> scalar_candidate r v)"

section \<open>Hot water and ventilation registers\<close>

definition ventilation_codec :: "string \<Rightarrow> byte \<Rightarrow> uint16 \<Rightarrow> string \<times> string" where
  "ventilation_codec family g r =
     (if family = ''controller-720'' \<or> family = ''controller-700'' then
        (if g = 0x01 \<and> (r = 0x0004 \<or> r = 0x0005) then (''float32_le'', celsius)
         else if family = ''controller-720'' \<and> g = 0x09 \<and> (r = 0x000D \<or> r = 0x000E) then (''uint16_le'', ''Unknown'')
         else ([], ''Unknown''))
      else ([], ''Unknown''))"

definition interpret_ventilation_scalar :: "scalar_input \<Rightarrow> scalar scalar_result" where
  "interpret_ventilation_scalar input =
     (let ctx = si_context input
      in if \<not> context_complete ctx then raw_only input [] ''Unknown''
         else if sc_opcode ctx \<noteq> Some 0x02 \<or> sc_instance ctx \<noteq> Some 0 then raw_only input [] ''Unknown''
         else let (codec, unit) = ventilation_codec (the (sc_family ctx)) (the (sc_group ctx)) (the (sc_register ctx));
                  r = raw_only input codec unit
              in if codec = [] \<or> \<not> scalar_echoed input then r
                 else case scalar_of codec (si_raw input) of None \<Rightarrow> r | Some v \<Rightarrow> scalar_candidate r v)"

section \<open>Circuit registers\<close>

definition circuit_unit :: "string \<Rightarrow> uint16 \<Rightarrow> string option" where
  "circuit_unit family r =
     (if r \<in> {0x0007, 0x0008, 0x0010, 0x0011, 0x0012, 0x0014, 0x001f} then Some celsius
      else if r \<in> {0x000a, 0x000b} then Some ''K''
      else if r = 0x000f then Some ''Unknown''
      else if r = 0x001c then (if family \<noteq> ''controller-720'' then None else Some ''Unknown'')
      else if r = 0x001a then (if family \<noteq> ''controller-720'' then None else Some ''%'')
      else None)"

definition interpret_circuit_scalar :: "scalar_input \<Rightarrow> uint32 scalar_result" where
  "interpret_circuit_scalar input =
     (let ctx = si_context input
      in if \<not> context_complete ctx then raw_only input [] ''Unknown''
         else if sc_opcode ctx \<noteq> Some 0x02 \<or> sc_group ctx \<noteq> Some 0x02 then raw_only input [] ''Unknown''
         else if sc_family ctx \<noteq> Some ''controller-720'' \<and> sc_family ctx \<noteq> Some ''controller-700'' then raw_only input [] ''Unknown''
         else case circuit_unit (the (sc_family ctx)) (the (sc_register ctx)) of
                None \<Rightarrow> raw_only input [] ''Unknown''
              | Some unit \<Rightarrow>
                  (let r = raw_only input ''float32_le'' unit
                   in if \<not> scalar_echoed input then r
                      else case float_answer (si_raw input) of None \<Rightarrow> r | Some v \<Rightarrow> scalar_candidate r v))"

section \<open>Zone registers\<close>

text \<open>A zone result also names the rule for its instances.\<close>

definition zone_unit :: "string \<Rightarrow> uint16 \<Rightarrow> string option" where
  "zone_unit family r =
     (if r \<in> {0x0002, 0x0005, 0x0009, 0x000f, 0x0014, 0x0015} then Some celsius
      else if r = 0x0023 then (if family \<noteq> ''controller-720'' then None else Some celsius)
      else if r = 0x0028 then Some ''%''
      else None)"

definition interpret_zone_scalar :: "scalar_input \<Rightarrow> uint32 scalar_result \<times> string" where
  "interpret_zone_scalar input =
     (let ctx = si_context input
      in if \<not> context_complete ctx then (raw_only input [] ''Unknown'', [])
         else if sc_family ctx \<noteq> Some ''controller-720'' \<and> sc_family ctx \<noteq> Some ''controller-700'' then (raw_only input [] ''Unknown'', [])
         else if sc_opcode ctx \<noteq> Some 0x02 \<or> sc_group ctx \<noteq> Some 0x03 then (raw_only input [] ''Unknown'', [])
         else case zone_unit (the (sc_family ctx)) (the (sc_register ctx)) of
                None \<Rightarrow> (raw_only input [] ''Unknown'', [])
              | Some unit \<Rightarrow>
                  (let r = raw_only input ''float32_le'' unit
                   in (if \<not> scalar_echoed input then r
                       else case float_answer (si_raw input) of None \<Rightarrow> r | Some v \<Rightarrow> scalar_candidate r v, ''dynamic'')))"

section \<open>System information\<close>

record information_context =
  ic_family :: "string option"
  ic_software :: "string option"
  ic_hardware :: "string option"
  ic_api_version :: "uint16 option"
  ic_api_revision :: "uint16 option"
  ic_identifier :: uint16

record information_result =
  ir_context :: information_context
  ir_raw :: "byte list"
  ir_valid :: bool
  ir_invalid_reason :: string
  ir_value :: uint32
  ir_meaning :: string
  ir_capacity :: "uint32 option"
  ir_heat_pump_count :: "uint32 option"
  ir_representation_grade :: string

definition build_information :: "uint16 \<Rightarrow> byte list" where
  "build_information identifier = [0, ucast identifier, ucast (drop_bit 8 identifier)]"

definition information_meaning :: "uint16 \<Rightarrow> string" where
  "information_meaning identifier =
     (if identifier = 0 then ''supported circuit capacity''
      else if identifier = 1 then ''supported zone capacity''
      else if identifier = 0x000d then ''heat-pump count'' else ''Unknown'')"

text \<open>A float32 that is a natural number.\<close>

definition whole_float :: "uint32 \<Rightarrow> bool" where
  "whole_float w \<longleftrightarrow> (case float32_of_bits w of Finite q \<Rightarrow> q \<ge> 0 \<and> of_int \<lfloor>q\<rfloor> = q | _ \<Rightarrow> False)"

definition decode_information :: "information_context \<Rightarrow> byte list \<Rightarrow> information_result" where
  "decode_information ctx raw =
     (let r = \<lparr>ir_context = ctx, ir_raw = raw, ir_valid = False, ir_invalid_reason = [], ir_value = 0,
                ir_meaning = information_meaning (ic_identifier ctx), ir_capacity = None, ir_heat_pump_count = None,
                ir_representation_grade = ''Unknown''\<rparr>
      in if length raw \<noteq> 4 then r\<lparr>ir_invalid_reason := ''ab42 requires exactly four normalized bytes''\<rparr>
         else let v = le32 raw
              in if \<not> finite_float v then r\<lparr>ir_invalid_reason := ''ab42 non-finite binary32''\<rparr>
                 else let r' = r\<lparr>ir_valid := True, ir_value := v, ir_representation_grade := ''Proven''\<rparr>
                      in if \<not> whole_float v then r'
                         else if ic_identifier ctx = 0 \<or> ic_identifier ctx = 1 then r'\<lparr>ir_capacity := Some v\<rparr>
                         else if ic_identifier ctx = 0x000d then r'\<lparr>ir_heat_pump_count := Some v\<rparr>
                         else r')"

section \<open>What is read\<close>

text \<open>The bytes a value has under a codec, if the codec can mean it.\<close>

definition float_bytes :: "uint32 \<Rightarrow> byte list option" where
  "float_bytes w = (if finite_float w then Some (bytes32 w) else None)"

definition scalar_bytes :: "string \<Rightarrow> scalar \<Rightarrow> byte list option" where
  "scalar_bytes codec v =
     (if codec = ''float32_le'' then (if sv_uint16 v = 0 then float_bytes (sv_float32 v) else None)
      else if codec = ''uint16_le'' then (if sv_float32 v = 0 then Some (bytes16 (sv_uint16 v)) else None)
      else None)"

lemma float_answer_exact: "float_answer raw = Some w \<longleftrightarrow> float_bytes w = Some raw"
proof (cases "length raw = 4")
  case True
  then have "float_answer raw = Some w \<longleftrightarrow> le32 raw = w \<and> finite_float w" by (auto simp: float_answer_def)
  then show ?thesis unfolding le32_bytes [OF True] by (auto simp: float_bytes_def)
next
  case False
  then show ?thesis by (auto simp: float_answer_def float_bytes_def bytes32_def)
qed

lemma scalar_of_exact:
  assumes "codec = ''float32_le'' \<or> codec = ''uint16_le''"
  shows "scalar_of codec raw = Some v \<longleftrightarrow> scalar_bytes codec v = Some raw"
  using assms
proof
  assume "codec = ''float32_le''"
  then show ?thesis
    using float_answer_exact [of raw "sv_float32 v"] by (cases v) (auto simp: scalar_of_def scalar_bytes_def)
next
  assume codec: "codec = ''uint16_le''"
  show ?thesis
  proof (cases "length raw = 2")
    case True
    then show ?thesis using le16_bytes [OF True] by (cases v) (auto simp: codec scalar_of_def scalar_bytes_def)
  next
    case False
    then show ?thesis by (auto simp: codec scalar_of_def scalar_bytes_def bytes16_def)
  qed
qed

lemma table_codecs:
  "fst (system_codec family r) \<in> {[], ''float32_le'', ''uint16_le''}"
  "fst (ventilation_codec family g r) \<in> {[], ''float32_le'', ''uint16_le''}"
  unfolding system_codec_def ventilation_codec_def by (simp_all split: if_split)

lemma scalar_bytes_codec: "scalar_bytes [] v = None"
  by (simp add: scalar_bytes_def)

lemma read_value:
  assumes "codec \<in> {[], ''float32_le'', ''uint16_le''}"
  shows "sr_value (if codec = [] \<or> \<not> e then raw_only input codec unit
       else case scalar_of codec raw of None \<Rightarrow> raw_only input codec unit | Some w \<Rightarrow> scalar_candidate (raw_only input codec unit) w) = Some v \<longleftrightarrow>
     e \<and> scalar_bytes codec v = Some raw"
proof (cases "codec = []")
  case False
  then have "codec = ''float32_le'' \<or> codec = ''uint16_le''" using assms by simp
  from scalar_of_exact [OF this, of raw v] show ?thesis
    using False by (auto simp: raw_only_def scalar_candidate_def split: option.splits)
qed (simp add: raw_only_def scalar_bytes_codec)

lemma read_float:
  "sr_value (if \<not> e then raw_only input codec unit
       else case float_answer raw of None \<Rightarrow> raw_only input codec unit | Some w \<Rightarrow> scalar_candidate (raw_only input codec unit) w) = Some v \<longleftrightarrow>
     e \<and> float_bytes v = Some raw"
  using float_answer_exact [of raw v] by (auto simp: raw_only_def scalar_candidate_def split: option.splits)

lemma raw_only_value [simp]: "sr_value (raw_only input codec unit) = None"
  by (simp add: raw_only_def)

text \<open>(C37)
  A scalar is read exactly when the context is complete, the answer echoes the register asked for under a
  graded codec, the register is in the table of its kind for the controller (with instance 0 where the
  table asks for it), and the bytes are those the codec writes for that value; in particular no float that
  is infinite or not a number is ever read, and a value determines its bytes.
\<close>

theorem scalar_readers_exact:
  "let ctx = si_context input; family = the (sc_family ctx); reg = the (sc_register ctx);
       asked = (context_complete ctx \<and> sc_opcode ctx = Some 0x02 \<and> scalar_echoed input);
       known = (sc_family ctx = Some ''controller-720'' \<or> sc_family ctx = Some ''controller-700'')
   in (sr_value (interpret_system_scalar input) = Some v \<longleftrightarrow>
         asked \<and> sc_group ctx = Some 0 \<and>
         (case system_codec family reg of (codec, unit, dynamic) \<Rightarrow>
            (dynamic \<or> sc_instance ctx = Some 0) \<and> scalar_bytes codec v = Some (si_raw input))) \<and>
      (sr_value (interpret_ventilation_scalar input) = Some v \<longleftrightarrow>
         asked \<and> sc_instance ctx = Some 0 \<and>
         scalar_bytes (fst (ventilation_codec family (the (sc_group ctx)) reg)) v = Some (si_raw input)) \<and>
      (sr_value (interpret_circuit_scalar input) = Some w \<longleftrightarrow>
         asked \<and> known \<and> sc_group ctx = Some 0x02 \<and> circuit_unit family reg \<noteq> None \<and> float_bytes w = Some (si_raw input)) \<and>
      (sr_value (fst (interpret_zone_scalar input)) = Some w \<longleftrightarrow>
         asked \<and> known \<and> sc_group ctx = Some 0x03 \<and> zone_unit family reg \<noteq> None \<and> float_bytes w = Some (si_raw input))"
proof -
  define ctx where "ctx = si_context input"
  define family where "family = the (sc_family ctx)"
  define reg where "reg = the (sc_register ctx)"
  obtain codec unit dynamic where sys: "system_codec family reg = (codec, unit, dynamic)" by (cases "system_codec family reg")
  obtain vcodec vunit where ven: "ventilation_codec family (the (sc_group ctx)) reg = (vcodec, vunit)"
    by (cases "ventilation_codec family (the (sc_group ctx)) reg")
  have codecs: "codec \<in> {[], ''float32_le'', ''uint16_le''}" "vcodec \<in> {[], ''float32_le'', ''uint16_le''}"
    using table_codecs(1) [of family reg] table_codecs(2) [of family "the (sc_group ctx)" reg] unfolding sys ven fst_conv by blast+
  have "sr_value (interpret_system_scalar input) = Some v \<longleftrightarrow>
     (context_complete ctx \<and> sc_opcode ctx = Some 0x02 \<and> scalar_echoed input) \<and> sc_group ctx = Some 0 \<and>
       (dynamic \<or> sc_instance ctx = Some 0) \<and> scalar_bytes codec v = Some (si_raw input)"
    unfolding interpret_system_scalar_def Let_def ctx_def [symmetric] family_def [symmetric] reg_def [symmetric] sys prod.case
    using read_value [OF codecs(1)] by (auto split del: if_split split: if_split)
  moreover have "sr_value (interpret_ventilation_scalar input) = Some v \<longleftrightarrow>
     (context_complete ctx \<and> sc_opcode ctx = Some 0x02 \<and> scalar_echoed input) \<and> sc_instance ctx = Some 0 \<and>
       scalar_bytes vcodec v = Some (si_raw input)"
    unfolding interpret_ventilation_scalar_def Let_def ctx_def [symmetric] family_def [symmetric] reg_def [symmetric] ven prod.case
    using read_value [OF codecs(2)] by auto
  moreover have "sr_value (interpret_circuit_scalar input) = Some w \<longleftrightarrow>
     (context_complete ctx \<and> sc_opcode ctx = Some 0x02 \<and> scalar_echoed input) \<and>
       (sc_family ctx = Some ''controller-720'' \<or> sc_family ctx = Some ''controller-700'') \<and> sc_group ctx = Some 0x02 \<and>
       circuit_unit family reg \<noteq> None \<and> float_bytes w = Some (si_raw input)"
    unfolding interpret_circuit_scalar_def Let_def ctx_def [symmetric] family_def [symmetric] reg_def [symmetric]
    by (cases "circuit_unit family reg") (auto simp: read_float)
  moreover have "sr_value (fst (interpret_zone_scalar input)) = Some w \<longleftrightarrow>
     (context_complete ctx \<and> sc_opcode ctx = Some 0x02 \<and> scalar_echoed input) \<and>
       (sc_family ctx = Some ''controller-720'' \<or> sc_family ctx = Some ''controller-700'') \<and> sc_group ctx = Some 0x03 \<and>
       zone_unit family reg \<noteq> None \<and> float_bytes w = Some (si_raw input)"
    unfolding interpret_zone_scalar_def Let_def ctx_def [symmetric] family_def [symmetric] reg_def [symmetric]
    by (cases "zone_unit family reg") (auto simp: read_float)
  ultimately show ?thesis
    unfolding Let_def ctx_def [symmetric] family_def [symmetric] reg_def [symmetric] sys ven prod.case fst_conv
    by blast
qed

text \<open>The two controllers agree on the codec and the unit of every register both of them know.\<close>

theorem system_tables_agree:
  assumes "fst (system_codec ''controller-700'' r) \<noteq> []" "fst (system_codec ''controller-720'' r) \<noteq> []"
  shows "system_codec ''controller-700'' r = system_codec ''controller-720'' r"
proof -
  let ?table = "[0x0002, 0x0022, 0x0023, 0x0026, 0x0038, 0x0046, 0x004B, 0x0067, 0x0068, 0x0073, 0x0095, 0x009D, 0x009E, 0x009F,
     0x00A0, 0x0006, 0x002F, 0x0036, 0x0017, 0x0029, 0x0039, 0x0042, 0x0043] :: uint16 list"
  have "r \<in> set ?table"
  proof (rule ccontr)
    assume "r \<notin> set ?table"
    then have "fst (system_codec ''controller-700'' r) = []" by (simp add: system_codec_def)
    then show False using assms(1) by simp
  qed
  moreover have "list_all (\<lambda>r. fst (system_codec ''controller-720'' r) = [] \<or>
      system_codec ''controller-700'' r = system_codec ''controller-720'' r) ?table"
    by (simp add: system_codec_def)
  ultimately show ?thesis using assms(2) unfolding list_all_iff by blast
qed

theorem information_exact:
  "ir_valid (decode_information ctx raw) \<longleftrightarrow> float_answer raw \<noteq> None"
  "ir_capacity (decode_information ctx raw) = Some w \<longleftrightarrow>
     float_answer raw = Some w \<and> whole_float w \<and> (ic_identifier ctx = 0 \<or> ic_identifier ctx = 1)"
  "ir_heat_pump_count (decode_information ctx raw) = Some w \<longleftrightarrow>
     float_answer raw = Some w \<and> whole_float w \<and> ic_identifier ctx = 0x000d"
  by (auto simp: decode_information_def Let_def float_answer_def)

end
