(* ===== verification/Vai_Discovery.thy ===== *)
theory Vai_Discovery
  imports Vai_System
begin

text \<open>
  What is known about B5 24 registers before any is read: the discovery windows of family 720
  (\<open>ab03_discovery_catalog.go\<close>), the bounds observed under one exact controller identity
  (\<open>b524_controller_profile.go\<close>) and the unscoped hints (\<open>ab66_b524_unscoped_hints.go\<close>). A float64 bound
  is a rational. A nil slice of windows is the empty list.
\<close>

section \<open>Discovery windows\<close>

record instance_interval =
  iv_minimum :: byte
  iv_maximum :: byte

record discovery_window =
  dw_family :: string
  dw_opcode :: byte
  dw_group :: byte
  dw_instances :: instance_interval
  dw_register_ceiling :: "uint16 option"
  dw_availability_only :: bool
  dw_predicate_register :: "uint16 option"
  dw_virtual :: bool

definition window :: "string \<Rightarrow> byte \<Rightarrow> byte \<Rightarrow> byte \<Rightarrow> byte \<Rightarrow> uint16 option \<Rightarrow> discovery_window" where
  "window family opcode g lo hi limit =
     \<lparr>dw_family = family, dw_opcode = opcode, dw_group = g, dw_instances = \<lparr>iv_minimum = lo, iv_maximum = hi\<rparr>,
      dw_register_ceiling = limit, dw_availability_only = False, dw_predicate_register = None, dw_virtual = False\<rparr>"

definition discovery_windows :: "string \<Rightarrow> instance_interval option \<Rightarrow> discovery_window list" where
  "discovery_windows family gg08 =
     (if family \<noteq> ''720'' then []
      else
       [window family b524_opcode_local 0x02 0 8 (Some 0x25),
        (window family b524_opcode_local 0x02 9 9 (Some 0x25))\<lparr>dw_virtual := True\<rparr>,
        window family b524_opcode_local 0x03 0 10 (Some 0x2e),
        window family b524_opcode_local 0x04 0 1 (Some 0x0b),
        window family b524_opcode_local 0x05 0 1 (Some 0x04)] @
       (case gg08 of
          None \<Rightarrow> []
        | Some iv \<Rightarrow> if iv_minimum iv \<le> iv_maximum iv
                     then [window family b524_opcode_local 0x08 (iv_minimum iv) (iv_maximum iv) None] else []) @
       map (\<lambda>g. window family b524_opcode_remote g 1 8 (Some 0x2f)) [1, 2, 3, 5, 6, 7, 8, 0x0b, 0x0c] @
       map (\<lambda>g. window family b524_opcode_remote g 1 8 (Some 0x35)) [9, 10] @
       map (\<lambda>g. window family b524_opcode_remote g 1 8 (Some 0x33)) [0x0e, 0x0f] @
       [window family b524_opcode_remote 0x04 1 8 None,
        (window family b524_opcode_remote 0x0d 1 8 None)\<lparr>dw_availability_only := True, dw_predicate_register := Some 1\<rparr>])"

text \<open>The window is about the register: its scalar schedule, or its availability predicate.\<close>

definition window_scope :: "discovery_window \<Rightarrow> byte \<Rightarrow> byte \<Rightarrow> byte \<Rightarrow> bool" where
  "window_scope w opcode g i \<longleftrightarrow>
     \<not> (dw_opcode w \<noteq> opcode \<or> dw_group w \<noteq> g \<or> i < iv_minimum (dw_instances w) \<or> i > iv_maximum (dw_instances w))"

definition window_admits :: "discovery_window \<Rightarrow> uint16 \<Rightarrow> bool" where
  "window_admits w r \<longleftrightarrow>
     (if dw_availability_only w then dw_predicate_register w = Some r
      else case dw_register_ceiling w of None \<Rightarrow> False | Some c \<Rightarrow> r \<le> c)"

fun first_window :: "byte \<Rightarrow> byte \<Rightarrow> byte \<Rightarrow> uint16 \<Rightarrow> discovery_window list \<Rightarrow> discovery_window option" where
  "first_window opcode g i r [] = None"
| "first_window opcode g i r (w # ws) =
     (if \<not> window_scope w opcode g i then first_window opcode g i r ws
      else if window_admits w r then Some w
      else first_window opcode g i r ws)"

definition lookup_discovery_window ::
  "string \<Rightarrow> byte \<Rightarrow> byte \<Rightarrow> byte \<Rightarrow> uint16 \<Rightarrow> instance_interval option \<Rightarrow> discovery_window option" where
  "lookup_discovery_window family opcode g i r gg08 = first_window opcode g i r (discovery_windows family gg08)"

definition present_instances ::
  "string \<Rightarrow> byte \<Rightarrow> byte \<Rightarrow> uint16 \<Rightarrow> (byte, bool) gomap \<Rightarrow> byte list" where
  "present_instances family opcode g r presence =
     filter (\<lambda>i. gm_get presence i = Some True \<and> lookup_discovery_window family opcode g i r None \<noteq> None)
       (map of_nat [0..<256])"

section \<open>Controller bounds\<close>

record controller_identity =
  ci_eid :: string
  ci_software :: string
  ci_hardware :: string
  ci_api_version :: string
  ci_revision :: string

record register_bound =
  rb_codec :: string
  rb_min :: rat
  rb_max :: rat
  rb_step :: rat
  rb_access_flags :: byte
  rb_access_flags_known :: bool
  rb_qualified :: bool
  rb_evidence :: string

type_synonym bound_selector = "byte \<times> byte \<times> byte \<times> uint16"

record controller_profile =
  cp_identity :: controller_identity
  cp_bounds :: "(bound_selector, register_bound) gomap"

definition basv0_evidence :: string where
  "basv0_evidence =
     ''helianthus-docs-ebus protocols/vaillant/fixtures/b524-basv0-description-profile-v1.json, record OP02/GG00/II00/RR0001 (observation basv0_sw0217_hw8803_api1)''"

definition controller_profiles :: "controller_profile list" where
  "controller_profiles =
     [\<lparr>cp_identity = \<lparr>ci_eid = ''BASV0'', ci_software = ''0217'', ci_hardware = ''8803'', ci_api_version = ''1'', ci_revision = ''1''\<rparr>,
       cp_bounds = [((b524_opcode_local, 0x00, 0x00, 0x0001),
         \<lparr>rb_codec = ''EXP'', rb_min = - 20, rb_max = 20, rb_step = 1, rb_access_flags = 0x03, rb_access_flags_known = True,
          rb_qualified = True, rb_evidence = basv0_evidence\<rparr>)]\<rparr>]"

datatype bound_result = BoundUnknownProfile | BoundUnknownRegister | BoundFound register_bound

definition bound_status :: "bound_result \<Rightarrow> string" where
  "bound_status r =
     (case r of BoundUnknownProfile \<Rightarrow> ''unknown_profile'' | BoundUnknownRegister \<Rightarrow> ''unknown_register'' | BoundFound b \<Rightarrow> ''found'')"

fun lookup_bound_in :: "controller_identity \<Rightarrow> bound_selector \<Rightarrow> controller_profile list \<Rightarrow> bound_result" where
  "lookup_bound_in identity sel [] = BoundUnknownProfile"
| "lookup_bound_in identity sel (p # ps) =
     (if cp_identity p \<noteq> identity then lookup_bound_in identity sel ps
      else case gm_get (cp_bounds p) sel of None \<Rightarrow> BoundUnknownRegister | Some b \<Rightarrow> BoundFound b)"

definition lookup_b524_bound :: "controller_identity \<Rightarrow> byte \<Rightarrow> byte \<Rightarrow> byte \<Rightarrow> uint16 \<Rightarrow> bound_result" where
  "lookup_b524_bound identity opcode g i r = lookup_bound_in identity (opcode, g, i, r) controller_profiles"

section \<open>Unscoped hints\<close>

record hint_result =
  hr_key :: b524_selector
  hr_status :: string
  hr_qualified :: bool
  hr_applicability :: string
  hr_hint :: "b524_constraint option"

text \<open>The zero hint of an absent one is \<open>None\<close>.\<close>

definition lookup_unscoped_hint :: "b524_selector \<Rightarrow> hint_result" where
  "lookup_unscoped_hint key =
     (case key of (opcode, g, r) \<Rightarrow>
       (case lookup_b524_constraint opcode g r of
          None \<Rightarrow> \<lparr>hr_key = key, hr_status = ''absent'', hr_qualified = False, hr_applicability = ''Unknown'', hr_hint = None\<rparr>
        | Some c \<Rightarrow> \<lparr>hr_key = key, hr_status = ''unscoped_catalog'', hr_qualified = False, hr_applicability = ''Unknown'', hr_hint = Some c\<rparr>))"

definition selector_less :: "b524_selector \<Rightarrow> b524_selector \<Rightarrow> bool" where
  "selector_less = (\<lambda>(o1, g1, r1) (o2, g2, r2).
     if o1 \<noteq> o2 then o1 < o2 else if g1 \<noteq> g2 then g1 < g2 else r1 < r2)"

definition unscoped_hints :: "hint_result list" where
  "unscoped_hints =
     sort_by (\<lambda>a b. selector_less (hr_key a) (hr_key b)) (map (\<lambda>(key, _). lookup_unscoped_hint key) b524_static_constraints)"

section \<open>What a window admits\<close>

lemma first_window_Some:
  "first_window opcode g i r ws = Some w \<Longrightarrow> w \<in> set ws \<and> window_scope w opcode g i \<and> window_admits w r"
  by (induction ws) (auto split: if_splits)

lemma first_window_None:
  "first_window opcode g i r ws = None \<Longrightarrow> w \<in> set ws \<Longrightarrow> window_scope w opcode g i \<Longrightarrow> \<not> window_admits w r"
  by (induction ws) (auto split: if_splits)

text \<open>No two windows are about one instance.\<close>

definition windows_apart :: "discovery_window \<Rightarrow> discovery_window \<Rightarrow> bool" where
  "windows_apart v w \<longleftrightarrow>
     dw_opcode v \<noteq> dw_opcode w \<or> dw_group v \<noteq> dw_group w \<or>
     iv_maximum (dw_instances v) < iv_minimum (dw_instances w) \<or> iv_maximum (dw_instances w) < iv_minimum (dw_instances v)"

lemma apart_scope: "windows_apart v w \<Longrightarrow> window_scope v opcode g i \<Longrightarrow> \<not> window_scope w opcode g i"
  by (auto simp: windows_apart_def window_scope_def)

lemma discovery_windows_apart: "sorted_wrt windows_apart (discovery_windows family gg08)"
  by (cases gg08)
    (simp_all add: discovery_windows_def window_def windows_apart_def)

lemma scope_unique:
  "sorted_wrt windows_apart ws \<Longrightarrow> v \<in> set ws \<Longrightarrow> w \<in> set ws \<Longrightarrow> window_scope v opcode g i \<Longrightarrow> window_scope w opcode g i \<Longrightarrow> v = w"
  by (induction ws) (auto dest: apart_scope)

lemma lookup_window_exact:
  "lookup_discovery_window family opcode g i r gg08 = Some w \<longleftrightarrow>
     w \<in> set (discovery_windows family gg08) \<and> window_scope w opcode g i \<and> window_admits w r"
proof
  assume w: "w \<in> set (discovery_windows family gg08) \<and> window_scope w opcode g i \<and> window_admits w r"
  then obtain v where v: "lookup_discovery_window family opcode g i r gg08 = Some v"
    using first_window_None [of opcode g i r "discovery_windows family gg08" w]
    unfolding lookup_discovery_window_def by blast
  then have "v = w"
    using w first_window_Some scope_unique [OF discovery_windows_apart] unfolding lookup_discovery_window_def by metis
  then show "lookup_discovery_window family opcode g i r gg08 = Some w" using v by simp
qed (auto simp: lookup_discovery_window_def dest: first_window_Some)

lemma bytes_sorted: "sorted_wrt (<) (map of_nat [0..<256] :: byte list)"
proof -
  have "sorted_wrt (\<lambda>m n. (of_nat m :: byte) < of_nat n) [0..<256]"
    by (rule sorted_wrt_mono_rel [OF _ sorted_wrt_upt]) (simp add: word_less_nat_alt unat_of_nat)
  then show ?thesis by (simp add: sorted_wrt_map)
qed

lemma bytes_all: "set (map of_nat [0..<256] :: byte list) = UNIV"
proof (intro set_eqI iffI UNIV_I)
  fix b :: byte
  have "of_nat (unat b) = b" "unat b < 256" using unsigned_less [of b, where 'a = nat] by simp_all
  then show "b \<in> set (map of_nat [0..<256])" by (metis atLeast_upt image_eqI lessThan_iff set_map)
qed

lemma apart_unique: "sorted_wrt windows_apart ws \<Longrightarrow> length (filter (\<lambda>w. window_scope w opcode g i) ws) \<le> 1"
proof (induction ws)
  case (Cons w ws)
  have "filter (\<lambda>v. window_scope v opcode g i) ws = []" if "window_scope w opcode g i"
    using Cons.prems apart_scope [OF _ that] by (auto simp: filter_empty_conv)
  then show ?case using Cons by simp
qed simp

text \<open>
  The registers with a schedule: locally four groups with their own instances and ceilings, remotely
  the instances 1 to 8 of thirteen groups and the availability register of group 13. Nothing is scheduled in
  the local group 8.
\<close>

definition remote_ceiling :: "byte \<Rightarrow> uint16 option" where
  "remote_ceiling g =
     (if g \<in> {9, 10} then Some 0x35 else if g \<in> {14, 15} then Some 0x33
      else if g \<in> {1, 2, 3, 5, 6, 7, 8, 11, 12} then Some 0x2f else None)"

definition register_scheduled :: "byte \<Rightarrow> byte \<Rightarrow> byte \<Rightarrow> uint16 \<Rightarrow> bool" where
  "register_scheduled opcode g i r \<longleftrightarrow>
     opcode = b524_opcode_local \<and>
       (g = 2 \<and> i \<le> 9 \<and> r \<le> 0x25 \<or> g = 3 \<and> i \<le> 10 \<and> r \<le> 0x2e \<or> g = 4 \<and> i \<le> 1 \<and> r \<le> 0x0b \<or> g = 5 \<and> i \<le> 1 \<and> r \<le> 4) \<or>
     opcode = b524_opcode_remote \<and> 1 \<le> i \<and> i \<le> 8 \<and>
       (g = 13 \<and> r = 1 \<or> (\<exists>c. remote_ceiling g = Some c \<and> r \<le> c))"

lemma byte_nine: "(i :: byte) \<le> 9 \<longleftrightarrow> i \<le> 8 \<or> i = 9"
  unfolding word_le_nat_alt word_unat_eq_iff by auto

lemma windows_admit:
  "list_ex (\<lambda>w. window_scope w opcode g i \<and> window_admits w r) (discovery_windows family gg08) \<longleftrightarrow>
     family = ''720'' \<and> register_scheduled opcode g i r"
proof (cases "family = ''720''")
  case True
  have nine: "\<not> i < 9 \<and> \<not> 9 < i \<longleftrightarrow> i = 9" for i :: byte by auto
  show ?thesis
    unfolding register_scheduled_def byte_nine remote_ceiling_def
    using True nine
    by (cases gg08) (auto simp: discovery_windows_def window_def window_scope_def window_admits_def not_less)
next
  case False
  then show ?thesis by (simp add: discovery_windows_def)
qed

text \<open>(C38)
  The windows never overlap: whatever interval is selected for the local group 8, at most one window of
  the catalog is about a given instance, so a lookup finds the one window that is about the register
  and admits it. It finds one exactly for the registers that have a schedule, and only in family 720. The
  instances reported as present are exactly those with explicit presence whose register has a schedule,
  in increasing order and each once.
\<close>

theorem discovery_lookup_exact:
  "length (filter (\<lambda>v. window_scope v opcode g i) (discovery_windows family gg08)) \<le> 1 \<and>
   (lookup_discovery_window family opcode g i r gg08 = Some w \<longleftrightarrow>
      w \<in> set (discovery_windows family gg08) \<and> window_scope w opcode g i \<and> window_admits w r) \<and>
   (lookup_discovery_window family opcode g i r gg08 \<noteq> None \<longleftrightarrow> family = ''720'' \<and> register_scheduled opcode g i r) \<and>
   sorted_wrt (<) (present_instances family opcode g r presence) \<and>
   set (present_instances family opcode g r presence) =
     {j. gm_get presence j = Some True \<and> family = ''720'' \<and> register_scheduled opcode g j r}"
proof (intro conjI)
  have found: "lookup_discovery_window family opcode g j r iv \<noteq> None \<longleftrightarrow> family = ''720'' \<and> register_scheduled opcode g j r" for j iv
    using lookup_window_exact [of family opcode g j r iv] windows_admit [of opcode g j r family iv]
    by (auto simp: list_ex_iff)
  show "length (filter (\<lambda>v. window_scope v opcode g i) (discovery_windows family gg08)) \<le> 1"
    by (rule apart_unique [OF discovery_windows_apart])
  show "lookup_discovery_window family opcode g i r gg08 = Some w \<longleftrightarrow>
      w \<in> set (discovery_windows family gg08) \<and> window_scope w opcode g i \<and> window_admits w r"
    by (rule lookup_window_exact)
  show "lookup_discovery_window family opcode g i r gg08 \<noteq> None \<longleftrightarrow> family = ''720'' \<and> register_scheduled opcode g i r"
    by (rule found)
  show "sorted_wrt (<) (present_instances family opcode g r presence)"
    unfolding present_instances_def by (rule sorted_wrt_filter [OF bytes_sorted])
  show "set (present_instances family opcode g r presence) =
     {j. gm_get presence j = Some True \<and> family = ''720'' \<and> register_scheduled opcode g j r}"
    unfolding present_instances_def set_filter bytes_all found by blast
qed

section \<open>What the bounds and hints say\<close>

text \<open>A bound is never given for another identity, instance or register than the one it was observed for.\<close>

theorem bound_exact:
  "lookup_b524_bound identity opcode g i r = BoundFound b \<longleftrightarrow>
     list_ex (\<lambda>p. cp_identity p = identity \<and> gm_get (cp_bounds p) (opcode, g, i, r) = Some b) controller_profiles"
  by (auto simp: lookup_b524_bound_def controller_profiles_def split: option.splits)

lemma selector_total: "selector_less a b \<or> selector_less b a \<or> a = b"
  by (auto simp: selector_less_def split: prod.splits if_splits)

interpretation hint_order: strict_weak_order "\<lambda>a b. selector_less (hr_key a) (hr_key b)"
  by unfold_locales (auto simp: selector_less_def split: prod.splits if_splits)

text \<open>The hints are those of the catalog, one per selector, in increasing order of the selectors.\<close>

lemma hint_keys: "map hr_key (map (\<lambda>(key, _). lookup_unscoped_hint key) es) = map fst es"
  by (induction es) (auto simp: lookup_unscoped_hint_def split: option.splits)

lemma sorted_strict: "sorted_wrt (\<lambda>a b. \<not> selector_less b a) ks \<Longrightarrow> distinct ks \<Longrightarrow> sorted_wrt selector_less ks"
proof (induction ks)
  case (Cons k ks)
  have "selector_less k j" if "j \<in> set ks" for j
    using Cons.prems that selector_total [of k j] by auto
  then show ?case using Cons by simp
qed simp

theorem unscoped_hints_exact:
  "sorted_wrt selector_less (map hr_key unscoped_hints)"
  "set unscoped_hints = lookup_unscoped_hint ` gm_keys b524_static_constraints"
proof -
  have keys: "mset (map hr_key unscoped_hints) = mset (map fst b524_static_constraints)"
    unfolding unscoped_hints_def mset_map mset_sort_by
    unfolding mset_map [symmetric] hint_keys by (simp only: hint_keys)
  have "distinct (map fst b524_static_constraints)"
    by (simp add: b524_static_constraints_def constraint_row_def)
  then have distinct: "distinct (map hr_key unscoped_hints)"
    using mset_eq_imp_distinct_iff [OF keys] by blast
  have "sorted_wrt (\<lambda>a b. \<not> selector_less (hr_key b) (hr_key a)) unscoped_hints"
    unfolding unscoped_hints_def by (rule hint_order.sorted_sort_by)
  then have "sorted_wrt (\<lambda>a b. \<not> selector_less b a) (map hr_key unscoped_hints)"
    by (simp add: sorted_wrt_map)
  then show "sorted_wrt selector_less (map hr_key unscoped_hints)" using distinct by (rule sorted_strict)
  show "set unscoped_hints = lookup_unscoped_hint ` gm_keys b524_static_constraints"
    unfolding unscoped_hints_def gm_keys_def by force
qed

end
