(* ===== verification/Vai_Views.thy ===== *)
theory Vai_Views
  imports Vai_Values
begin

unbundle bit_operations_syntax

text \<open>
  Views of B5 24 and B5 09 answers: calendar cells (\<open>ab01an01_b524_calendar_views.go\<close>), codebooks
  (\<open>ab03an03_b524_codebook_views.go\<close>), constraint words (\<open>ab07an07_b509_constraint_word_views.go\<close>),
  quantities (\<open>ab09an09_b509_quantity_views.go\<close>) and the status bytes of operation 8
  (\<open>ab22_status.go\<close>). Members of a result that always hold the same grade are left out, and a result
  echoes its input; an array of three is a list. A quantity is the exact value of its quotient.
\<close>

section \<open>Calendar\<close>

record calendar_cell =
  cc_raw :: byte
  cc_state :: string

record calendar_input =
  ca_family :: string
  ca_software :: string
  ca_hardware :: string
  ca_api_version :: string
  ca_api_revision :: string
  ca_op :: byte
  ca_requested_gg :: byte
  ca_ii :: "byte option"
  ca_requested_rr :: uint16
  ca_alternative :: string
  ca_returned_gg :: byte
  ca_returned_rr :: uint16
  ca_response_state :: string
  ca_cells :: "calendar_cell list"

record calendar_component =
  cp_cell :: calendar_cell
  cp_state :: string
  cp_candidate :: "byte option"

record calendar_result =
  cr_components :: "calendar_component list"
  cr_complete_candidate :: bool
  cr_grade :: string

text \<open>The kind of cells a register has, or nothing.\<close>

definition calendar_kind :: "string \<Rightarrow> byte \<Rightarrow> byte \<Rightarrow> uint16 \<Rightarrow> string" where
  "calendar_kind family g i r =
     (let new = (family = ''controller-720''); old = (family = ''controller-700'')
      in if g = 0 then
           (if i \<noteq> 0 then []
            else if r = 0x34 then ''date'' else if r = 0x35 then ''time''
            else if r = 0x71 \<or> r = 0x72 then (if old then ''date'' else [])
            else if r = 0xda \<or> r = 0xdb then (if new then ''date'' else []) else [])
         else if g = 1 then
           (if i \<noteq> 0 then []
            else if r = 9 \<or> r = 10 then ''date''
            else if r = 0x10 \<or> r = 0x11 then (if new then ''time'' else []) else [])
         else if g = 3 then
           (if r = 3 \<or> r = 4 then ''date''
            else if r = 0x24 then (if new then ''date'' else [])
            else if r = 0x1e \<or> r = 0x20 \<or> r = 0x21 then (if new then ''time'' else []) else [])
         else if g = 9 then
           (if i \<noteq> 0 \<or> \<not> new then []
            else if r = 7 \<or> r = 9 then ''date'' else if r = 8 \<or> r = 10 then ''time'' else [])
         else [])"

definition calendar_matches :: "calendar_input \<Rightarrow> bool" where
  "calendar_matches inp \<longleftrightarrow>
     (if (ca_family inp \<noteq> ''controller-700'' \<and> ca_family inp \<noteq> ''controller-720'') \<or> ca_software inp = [] \<or> ca_hardware inp = [] \<or>
         ca_api_version inp = [] \<or> ca_api_revision inp = [] \<or> ca_op inp \<noteq> 2 \<or> ca_ii inp = None \<or>
         ca_response_state inp \<noteq> ''echo-payload'' \<or> ca_requested_gg inp \<noteq> ca_returned_gg inp \<or> ca_requested_rr inp \<noteq> ca_returned_rr inp
      then False
      else let kind = calendar_kind (ca_family inp) (ca_requested_gg inp) (the (ca_ii inp)) (ca_requested_rr inp)
           in kind \<noteq> [] \<and> ca_alternative inp = kind)"

definition out_of_domain :: "string \<Rightarrow> nat \<Rightarrow> byte \<Rightarrow> bool" where
  "out_of_domain alternative k raw \<longleftrightarrow>
     alternative = ''date'' \<and>
     ((k = 0 \<and> (raw < 1 \<or> raw > 31)) \<or> (k = 1 \<and> (raw < 1 \<or> raw > 12)) \<or> (k = 2 \<and> raw > 99))"

definition calendar_component_of :: "string \<Rightarrow> nat \<Rightarrow> calendar_cell \<Rightarrow> calendar_component" where
  "calendar_component_of alternative k cell =
     (if cc_state cell \<noteq> ''present'' then
        \<lparr>cp_cell = cell, cp_state = (if cc_state cell = ''missing'' \<or> cc_state cell = ''failed'' then cc_state cell else ''Unknown''),
         cp_candidate = None\<rparr>
      else if out_of_domain alternative k (cc_raw cell) then
        \<lparr>cp_cell = cell, cp_state = ''out-of-domain'', cp_candidate = None\<rparr>
      else \<lparr>cp_cell = cell, cp_state = ''candidate'', cp_candidate = Some (cc_raw cell)\<rparr>)"

text \<open>The loop over the cells: the components, and whether all of them are candidates.\<close>

fun calendar_components :: "string \<Rightarrow> nat \<Rightarrow> bool \<Rightarrow> calendar_cell list \<Rightarrow> calendar_component list \<times> bool" where
  "calendar_components alternative k ok [] = ([], ok)"
| "calendar_components alternative k ok (cell # cells) =
     (let comp = calendar_component_of alternative k cell;
          (rest, all) = calendar_components alternative (k + 1) (if cp_candidate comp = None then False else ok) cells
      in (comp # rest, all))"

definition interpret_calendar :: "calendar_input \<Rightarrow> calendar_result" where
  "interpret_calendar inp =
     (if \<not> calendar_matches inp then
        \<lparr>cr_components = map (\<lambda>c. \<lparr>cp_cell = c, cp_state = ''Unknown'', cp_candidate = None\<rparr>) (ca_cells inp),
         cr_complete_candidate = False, cr_grade = ''Unknown''\<rparr>
      else let (comps, all) = calendar_components (ca_alternative inp) 0 True (ca_cells inp)
           in \<lparr>cr_components = comps, cr_complete_candidate = all, cr_grade = ''Hypothesis''\<rparr>)"

section \<open>Codebooks\<close>

record codebook_input =
  cb_family :: string
  cb_op :: byte
  cb_gg :: byte
  cb_ii :: "byte option"
  cb_rr :: uint16
  cb_width :: string
  cb_requested_gg :: byte
  cb_requested_rr :: uint16
  cb_returned_gg :: byte
  cb_returned_rr :: uint16
  cb_response_state :: string
  cb_raw :: "byte list"

record codebook_result =
  ck_integer :: "int option"
  ck_label :: "string option"
  ck_applicable :: bool
  ck_malformed_width :: bool
  ck_grade :: string

definition codebook_size :: "string \<Rightarrow> nat" where
  "codebook_size width = (if width = ''u8'' \<or> width = ''signed8'' then 1 else if width = ''u16-le'' then 2 else 0)"

definition codebook_value :: "string \<Rightarrow> byte list \<Rightarrow> int" where
  "codebook_value width raw =
     (if width = ''signed8'' then sint (raw ! 0)
      else if codebook_size width = 2 then uint (raw ! 0) OR push_bit 8 (uint (raw ! 1))
      else uint (raw ! 0))"

text \<open>The widths and the labels of a register, if it has a codebook.\<close>

definition codebook_of :: "bool \<Rightarrow> byte \<Rightarrow> byte \<Rightarrow> uint16 \<Rightarrow> (string list \<times> (int \<times> string) list) option" where
  "codebook_of old g i r =
     (if (g = 1 \<and> r = 3 \<and> i = 0) \<or> (g = 3 \<and> (r = 1 \<or> r = 6)) then
        Some ([''u16-le''],
          if old then [(0, ''off''), (1, ''automatic''), (2, ''day'')] @ (if g = 3 \<and> r = 6 then [(3, ''setback'')] else [])
          else [(0, ''off''), (1, ''time-controlled''), (2, ''manual'')])
      else if g = 2 \<and> r = 2 then
        Some ([''u16-le''], [(0, ''deactivated''), (1, ''heating''), (2, ''fixed-flow''), (3, ''DHW''), (4, ''return-flow'')] @
          (if old then [(5, ''pool'')] else []))
      else if g = 3 \<and> r = 0x13 then
        Some ([''u16-le''],
          [(0, ''none''), (1, ''central''), (2, ''remote-circuit-one''), (3, ''remote-circuit-two''),
           (4, ''remote-circuit-three''), (5, ''remote-circuit-four'')] @
          (if old then [(6, ''remote-circuit-five''), (7, ''remote-circuit-six''), (8, ''remote-circuit-seven''), (9, ''remote-circuit-eight'')]
           else []))
      else if g = 3 \<and> r = 0x1b then
        Some ([''u8'', ''u16-le''],
          if old then
            [(0, ''no-quick-mode''), (1, ''ventilation-boost''), (3, ''party''), (4, ''quick-veto''), (5, ''one-day-holiday''),
             (6, ''one-day-bank-holiday''), (7, ''holiday''), (8, ''bank-holiday''), (10, ''system-off'')]
          else [(0, ''no-special-function''), (1, ''ventilation-boost''), (4, ''quick-veto''), (7, ''holiday''), (10, ''system-off'')])
      else if g = 3 \<and> r = 0x1c then
        Some ([''signed8''],
          [(-1, ''unbound''), (0, ''control-circuit-one''), (1, ''control-circuit-two''), (2, ''control-circuit-three'')] @
          (if \<not> old then
             [(3, ''control-circuit-four''), (4, ''control-circuit-five''), (5, ''control-circuit-six''), (6, ''control-circuit-seven''),
              (7, ''control-circuit-eight''), (8, ''control-circuit-nine'')]
           else []))
      else None)"

definition codebook_applies :: "codebook_input \<Rightarrow> bool" where
  "codebook_applies inp \<longleftrightarrow>
     \<not> ((cb_family inp \<noteq> ''controller-700'' \<and> cb_family inp \<noteq> ''controller-720'') \<or> cb_op inp \<noteq> 2 \<or> cb_ii inp = None \<or>
        cb_response_state inp \<noteq> ''echo-payload'' \<or> cb_requested_gg inp \<noteq> cb_gg inp \<or> cb_requested_rr inp \<noteq> cb_rr inp \<or>
        cb_returned_gg inp \<noteq> cb_gg inp \<or> cb_returned_rr inp \<noteq> cb_rr inp)"

definition interpret_codebook :: "codebook_input \<Rightarrow> codebook_result" where
  "interpret_codebook inp =
     (let none = \<lparr>ck_integer = None, ck_label = None, ck_applicable = False, ck_malformed_width = False, ck_grade = ''Unknown''\<rparr>;
          sz = codebook_size (cb_width inp)
      in if sz = 0 then none
         else if length (cb_raw inp) \<noteq> sz then none\<lparr>ck_malformed_width := True\<rparr>
         else let v = codebook_value (cb_width inp) (cb_raw inp); read = none\<lparr>ck_integer := Some v\<rparr>
              in if \<not> codebook_applies inp then read
                 else case codebook_of (cb_family inp = ''controller-700'') (cb_gg inp) (the (cb_ii inp)) (cb_rr inp) of
                        None \<Rightarrow> read
                      | Some (widths, labels) \<Rightarrow>
                          if cb_width inp \<notin> set widths then read
                          else read\<lparr>ck_applicable := True, ck_grade := ''Hypothesis'', ck_label := map_of labels v\<rparr>)"

section \<open>Constraint words\<close>

record constraint_word =
  cw_raw :: "byte list option"
  cw_state :: string
  cw_value :: int

record constraint_input =
  cw_operation :: byte
  cw_direction :: string
  cw_requested_address :: "byte list option"
  cw_returned_address :: "byte list option"
  cw_words :: "byte list option list"

record constraint_view =
  cv_selected :: bool
  cv_raw_address_equal :: bool
  cv_words :: "constraint_word list"

definition constraint_word_of :: "bool \<Rightarrow> byte list option \<Rightarrow> constraint_word" where
  "constraint_word_of selected raw =
     (case raw of
        None \<Rightarrow> \<lparr>cw_raw = None, cw_state = ''missing'', cw_value = 0\<rparr>
      | Some bs \<Rightarrow>
          if length bs \<noteq> 2 then \<lparr>cw_raw = raw, cw_state = ''malformed'', cw_value = 0\<rparr>
          else if \<not> selected then \<lparr>cw_raw = raw, cw_state = ''unselected'', cw_value = 0\<rparr>
          else \<lparr>cw_raw = raw, cw_state = ''decoded'', cw_value = sint (le16 bs)\<rparr>)"

text \<open>The words are the minimum, the maximum, the default, the step and the factor.\<close>

definition interpret_constraint :: "constraint_input \<Rightarrow> constraint_view" where
  "interpret_constraint inp =
     (let selected = (cw_operation inp = 0x33 \<and> cw_direction inp = ''positive-response'');
          bytes_of = (\<lambda>raw. case raw of None \<Rightarrow> [] | Some bs \<Rightarrow> bs)
      in \<lparr>cv_selected = selected,
          cv_raw_address_equal = (bytes_of (cw_requested_address inp) = bytes_of (cw_returned_address inp)),
          cv_words = map (constraint_word_of selected) (cw_words inp)\<rparr>)"

section \<open>Quantities\<close>

record quantity_selection =
  qs_family :: string
  qs_variant :: string
  qs_operation :: byte
  qs_direction :: string

record quantity_candidate =
  qc_raw :: "byte list option"
  qc_state :: string
  qc_value :: "rat option"
  qc_unit :: string
  qc_grade :: string

definition quantity_candidate_of :: "byte list option \<Rightarrow> bool \<Rightarrow> string \<Rightarrow> int \<Rightarrow> bool \<Rightarrow> quantity_candidate" where
  "quantity_candidate_of raw selected unit divisor has_sign =
     (let r = \<lparr>qc_raw = raw, qc_state = ''ab09an09_absent'', qc_value = None, qc_unit = unit,
                qc_grade = (if unit = [] then ''Unknown'' else ''Hypothesis'')\<rparr>
      in case raw of
           None \<Rightarrow> r
         | Some bs \<Rightarrow>
             if \<not> selected then r\<lparr>qc_state := ''ab09an09_unselected''\<rparr>
             else if unit = [] then r\<lparr>qc_state := ''ab09an09_opaque''\<rparr>
             else if length bs \<noteq> 2 then r\<lparr>qc_state := ''ab09an09_malformed''\<rparr>
             else r\<lparr>qc_state := ''ab09an09_candidate'',
                    qc_value := Some (of_int (if has_sign then sint (le16 bs) else uint (le16 bs)) / of_int divisor)\<rparr>)"

definition quantity_selected :: "quantity_selection \<Rightarrow> quantity_selection \<Rightarrow> bool" where
  "quantity_selected identity sel \<longleftrightarrow>
     identity = sel \<and> qs_family sel \<noteq> [] \<and> qs_variant sel \<noteq> [] \<and> qs_operation sel = 0x59 \<and>
     (qs_direction sel = ''ab09an09_request'' \<or> qs_direction sel = ''ab09an09_response'')"

text \<open>Temperature, flow, volume, and the minimum and maximum volume without a unit.\<close>

definition quantity_views ::
  "quantity_selection \<Rightarrow> quantity_selection \<Rightarrow> byte list option \<Rightarrow> byte list option \<Rightarrow> byte list option \<Rightarrow>
     byte list option \<Rightarrow> byte list option \<Rightarrow> quantity_candidate list" where
  "quantity_views identity sel temperature flow volume lo hi =
     (let s = quantity_selected identity sel
      in [quantity_candidate_of temperature s ''degrees Celsius'' 16 True,
          quantity_candidate_of flow s ''litres per minute'' 100 False,
          quantity_candidate_of volume s ''litres'' 10 False,
          quantity_candidate_of lo s [] 0 False,
          quantity_candidate_of hi s [] 0 False])"

section \<open>Status\<close>

text \<open>The eight fields of a status, in order.\<close>

definition decode_status :: "byte \<Rightarrow> byte list \<Rightarrow> byte list option" where
  "decode_status opcode payload =
     (if opcode \<noteq> 0x08 \<or> length payload \<noteq> 8 then None else Some (map ((!) payload) [0..<8]))"

section \<open>What the views say\<close>

definition cell_candidate :: "string \<Rightarrow> nat \<times> calendar_cell \<Rightarrow> byte option" where
  "cell_candidate alternative = (\<lambda>(k, c).
     if cc_state c = ''present'' \<and> \<not> out_of_domain alternative k (cc_raw c) then Some (cc_raw c) else None)"

lemma calendar_component_simps:
  "cp_cell (calendar_component_of alternative k c) = c"
  "cp_candidate (calendar_component_of alternative k c) = cell_candidate alternative (k, c)"
  by (simp_all add: calendar_component_of_def cell_candidate_def)

lemma calendar_components_exact:
  "map cp_cell (fst (calendar_components alternative k ok cells)) = cells"
  "map cp_candidate (fst (calendar_components alternative k ok cells)) = map (cell_candidate alternative) (enumerate k cells)"
  "snd (calendar_components alternative k ok cells) \<longleftrightarrow> ok \<and> None \<notin> set (map (cell_candidate alternative) (enumerate k cells))"
  by (induction alternative k ok cells rule: calendar_components.induct)
    (auto simp: Let_def calendar_component_simps split: prod.splits)

text \<open>
  A calendar answer keeps every cell. A cell is a candidate exactly when the answer is that of the register
  and kind asked for, the cell is present, and, for a date, day, month and year lie in their ranges; the
  candidate is complete exactly when every cell is one.
\<close>

theorem calendar_exact:
  "let r = interpret_calendar inp in
     map cp_cell (cr_components r) = ca_cells inp \<and>
     map cp_candidate (cr_components r) =
       (if calendar_matches inp then map (cell_candidate (ca_alternative inp)) (enumerate 0 (ca_cells inp))
        else map (\<lambda>_. None) (ca_cells inp)) \<and>
     (cr_complete_candidate r \<longleftrightarrow> calendar_matches inp \<and> None \<notin> set (map cp_candidate (cr_components r)))"
proof (cases "calendar_matches inp")
  case True
  obtain comps all where c: "calendar_components (ca_alternative inp) 0 True (ca_cells inp) = (comps, all)"
    by (cases "calendar_components (ca_alternative inp) 0 True (ca_cells inp)")
  show ?thesis
    using calendar_components_exact [of "ca_alternative inp" 0 True "ca_cells inp"] True
    unfolding c fst_conv snd_conv by (simp add: interpret_calendar_def c del: set_map)
next
  case False
  then show ?thesis by (simp add: interpret_calendar_def comp_def)
qed

lemma le16_pair: "le16 [a, b] = le16 [c, d] \<longleftrightarrow> a = c \<and> b = d"
  using le16_bytes [of "[a, b]" "le16 [c, d]"] le16_bytes [of "[c, d]" "le16 [c, d]"] by auto

lemma codebook_word: "codebook_value ''u16-le'' [a, b] = uint (le16 [a, b])"
proof -
  have "uint a < 2 ^ 8" "uint b < 2 ^ 8" using unsigned_less [of a, where 'a = int] unsigned_less [of b, where 'a = int] by simp_all
  then have "take_bit 16 (uint a) = uint a" "take_bit 8 (uint b) = uint b" by (simp_all add: take_bit_int_eq_self)
  then show ?thesis
    by (simp add: codebook_value_def codebook_size_def le16_def unsigned_or_eq unsigned_push_bit_eq unsigned_ucast_eq take_bit_push_bit)
qed

lemma codebook_lossless:
  assumes "length raw = codebook_size width" "length raw' = codebook_size width" "codebook_size width \<noteq> 0"
  shows "codebook_value width raw = codebook_value width raw' \<longleftrightarrow> raw = raw'"
proof -
  consider "width = ''u8''" | "width = ''signed8''" | "width = ''u16-le''"
    using assms(3) unfolding codebook_size_def by presburger
  then show ?thesis
  proof cases
    case 1
    then obtain a b where "raw = [a]" "raw' = [b]" using assms by (auto simp: codebook_size_def length_Suc_conv)
    then show ?thesis using 1 by (simp add: codebook_value_def codebook_size_def word_eq_iff_unsigned [where 'a = int])
  next
    case 2
    then obtain a b where "raw = [a]" "raw' = [b]" using assms by (auto simp: codebook_size_def length_Suc_conv)
    then show ?thesis using 2 by (simp add: codebook_value_def) (metis word_eq_iff_signed)
  next
    case 3
    then obtain a b c d where "raw = [a, b]" "raw' = [c, d]"
      using assms by (auto simp: codebook_size_def length_Suc_conv numeral_2_eq_2)
    then show ?thesis
      using 3 le16_pair [of a b c d] by (simp add: codebook_word word_eq_iff_unsigned [where 'a = int])
  qed
qed

text \<open>
  A codebook answer gives the integer of its bytes whenever they have the width, and no two byte strings
  of a width give the same integer. It gives a label exactly when the answer is the one asked for, the
  register has a codebook read at that width, and the codebook has a label for the integer.
\<close>

theorem codebook_exact:
  "let r = interpret_codebook inp; sz = codebook_size (cb_width inp); fits = (sz \<noteq> 0 \<and> length (cb_raw inp) = sz);
       v = codebook_value (cb_width inp) (cb_raw inp)
   in (ck_integer r = Some n \<longleftrightarrow> fits \<and> v = n) \<and>
      (ck_malformed_width r \<longleftrightarrow> sz \<noteq> 0 \<and> \<not> fits) \<and>
      (ck_label r = Some l \<longleftrightarrow> fits \<and> codebook_applies inp \<and>
         (case codebook_of (cb_family inp = ''controller-700'') (cb_gg inp) (the (cb_ii inp)) (cb_rr inp) of
            None \<Rightarrow> False
          | Some (widths, labels) \<Rightarrow> cb_width inp \<in> set widths \<and> map_of labels v = Some l))"
proof -
  obtain book where book: "codebook_of (cb_family inp = ''controller-700'') (cb_gg inp) (the (cb_ii inp)) (cb_rr inp) = book" by simp
  define fits where "fits \<longleftrightarrow> length (cb_raw inp) = codebook_size (cb_width inp)"
  show ?thesis
    unfolding interpret_codebook_def Let_def book fits_def [symmetric]
    by (cases "codebook_size (cb_width inp) = 0"; cases fits; cases "codebook_applies inp"; cases book)
      (simp_all split: prod.split)
qed

text \<open>A constraint word is read exactly from the two bytes of its value under the selected operation.\<close>

theorem constraint_word_exact:
  "cw_state (constraint_word_of selected raw) = ''decoded'' \<and> cw_value (constraint_word_of selected raw) = n \<longleftrightarrow>
     selected \<and> (\<exists>w. raw = Some (bytes16 w) \<and> sint w = n)"
proof (cases raw)
  case (Some bs)
  show ?thesis
  proof (cases "length bs = 2")
    case True
    then have "cw_state (constraint_word_of selected raw) = ''decoded'' \<and> cw_value (constraint_word_of selected raw) = n \<longleftrightarrow>
        selected \<and> (\<exists>w. le16 bs = w \<and> sint w = n)"
      by (simp add: constraint_word_of_def Some)
    then show ?thesis unfolding le16_bytes [OF True] by (simp add: Some)
  next
    case False
    then show ?thesis by (auto simp: constraint_word_of_def Some bytes16_def)
  qed
qed (simp add: constraint_word_of_def)

end
