(* ===== verification/Cat_Limit.thy ===== *)
theory Cat_Limit
  imports Cat_Transitions
begin

text \<open>
  The ordinary power limit of the B5 31 service (\<open>ab03ap03_b531_ordinary_limit.go\<close>): nine slots with a
  token and a maximum each, summed over the admitted slots, and the state that the sums request through a
  gate byte. Slot 1 is special: once admitted, its share of the limit is not known. An error is \<open>None\<close>.
\<close>

section \<open>Rows\<close>

record limit_row =
  lr_raw :: json
  lr_registered :: bool
  lr_capable :: bool
  lr_failure :: bool
  lr_token :: nat
  lr_maximum :: nat

definition limit_row_of :: "json \<Rightarrow> limit_row option" where
  "limit_row_of v =
     Option.bind (as_object (Some v)) (\<lambda>row.
     Option.bind (as_bool (gm_get row ''registered'')) (\<lambda>registered.
     Option.bind (as_bool (gm_get row ''capable'')) (\<lambda>capable.
     Option.bind (as_bool (gm_get row ''failure'')) (\<lambda>failure.
     Option.bind (as_uint 32 (gm_get row ''token'')) (\<lambda>token.
     Option.bind (as_uint 32 (gm_get row ''maximum'')) (\<lambda>maximum.
       Some \<lparr>lr_raw = v, lr_registered = registered, lr_capable = capable, lr_failure = failure,
         lr_token = token, lr_maximum = maximum\<rparr>))))))"

definition row_admitted :: "limit_row \<Rightarrow> bool" where
  "row_admitted r \<longleftrightarrow> lr_registered r \<and> lr_capable r \<and> \<not> lr_failure r"

definition limit_slot :: "nat \<Rightarrow> limit_row \<Rightarrow> json" where
  "limit_slot i r =
     JObject [(''slot'', json_nat i), (''raw'', lr_raw r), (''admitted'', JBool (row_admitted r)),
       (''state'', JString ''Hypothesis'')]"

record limit_state =
  ls_slots :: "json list"
  ls_indices :: "nat list"
  ls_token_sum :: uint64
  ls_maximum_sum :: uint64
  ls_special :: bool

definition limit_start :: limit_state where
  "limit_start = \<lparr>ls_slots = [], ls_indices = [], ls_token_sum = 0, ls_maximum_sum = 0, ls_special = False\<rparr>"

definition limit_step :: "nat \<Rightarrow> limit_state \<Rightarrow> limit_row \<Rightarrow> limit_state" where
  "limit_step i st r =
     (let st' = st\<lparr>ls_slots := ls_slots st @ [limit_slot i r]\<rparr>
      in if \<not> row_admitted r then st'
         else let st'' = st'\<lparr>ls_indices := ls_indices st' @ [i]\<rparr>
              in if i = 1 then st''\<lparr>ls_special := True\<rparr>
                 else st''\<lparr>ls_token_sum := ls_token_sum st'' + of_nat (lr_token r),
                          ls_maximum_sum := ls_maximum_sum st'' + of_nat (lr_maximum r)\<rparr>)"

fun limit_rows :: "nat \<Rightarrow> limit_state \<Rightarrow> json list \<Rightarrow> limit_state option" where
  "limit_rows i st [] = Some st"
| "limit_rows i st (v # vs) = Option.bind (limit_row_of v) (\<lambda>r. limit_rows (i + 1) (limit_step i st r) vs)"

section \<open>Evaluation\<close>

definition limit_quantity :: "json list \<Rightarrow> nat \<Rightarrow> json" where
  "limit_quantity rows n =
     JObject [(''raw'', JArray rows), (''state'', JString ''Hypothesis''), (''calculation'', JString ''Proven''), (''number'', json_nat n)]"

text \<open>The gate: a field of one byte.\<close>

definition limit_gate :: "(string, json) gomap \<Rightarrow> nat option" where
  "limit_gate raw = (case as_array (gm_get raw ''gate'') of Some [b] \<Rightarrow> Some (uint_or_zero 8 (Some b)) | _ \<Rightarrow> None)"

definition requested_number :: "nat option \<Rightarrow> bool \<Rightarrow> bool \<Rightarrow> nat option" where
  "requested_number gate special effective =
     (case gate of
        None \<Rightarrow> None
      | Some g \<Rightarrow> if g = 0 then Some 0 else if \<not> special then Some (if effective then 2 else 1) else None)"

definition requested_state :: "(string, json) gomap \<Rightarrow> nat option \<Rightarrow> json" where
  "requested_state raw number =
     JObject
       ((case gm_get raw ''gate'' of None \<Rightarrow> [] | Some v \<Rightarrow> [(''raw'', v)]) @
        (case number of
           None \<Rightarrow> [(''state'', JString ''Unknown'')]
         | Some n \<Rightarrow> [(''state'', JString ''Hypothesis''), (''number'', json_nat n), (''calculation'', JString ''Proven'')]))"

definition limit_output ::
  "(string, json) gomap \<Rightarrow> (string, json) gomap \<Rightarrow> (string, json) gomap \<Rightarrow> json list \<Rightarrow> nat \<Rightarrow> limit_state \<Rightarrow> json" where
  "limit_output ctx raw args rows limited st =
     (let effective = (ls_token_sum st < ls_maximum_sum st \<and> limited \<noteq> 0);
          gate = limit_gate raw
      in context_output ctx raw (Some args) (if ls_special st \<or> gate = None then ''partial'' else ''complete'')
        [(''slots'', JArray (ls_slots st)),
         (''admitted_slots'', JObject
            [(''raw'', JArray rows), (''state'', JString ''Hypothesis''), (''indices'', JArray (map json_nat (ls_indices st)))]),
         (''token_sum'', limit_quantity rows (unat (ls_token_sum st))),
         (''maximum_sum'', limit_quantity rows (unat (ls_maximum_sum st))),
         (''effective'', JObject ([(''raw'', JArray rows)] @
            (if ls_special st then [(''state'', JString ''Unknown'')]
             else [(''state'', JString ''Hypothesis''), (''calculation'', JString ''Proven''), (''value'', JBool effective)]))),
         (''requested_state'', requested_state raw (requested_number gate (ls_special st) effective))])"

definition limit_supported ::
  "(string, json) gomap \<Rightarrow> (string, json) gomap \<Rightarrow> (string, json) gomap \<Rightarrow> json option" where
  "limit_supported ctx raw args =
     Option.bind (as_uint 32 (gm_get args ''limited'')) (\<lambda>limited.
     Option.bind (as_array (gm_get args ''rows'')) (\<lambda>rows.
     if length rows \<noteq> 9 then None
     else Option.bind (limit_rows 0 limit_start rows) (\<lambda>st. Some (limit_output ctx raw args rows limited st))))"

definition validate_optional :: "(string, json) gomap \<Rightarrow> bool" where
  "validate_optional args \<longleftrightarrow>
     (gm_has args ''limited'' \<longrightarrow> as_uint 32 (gm_get args ''limited'') \<noteq> None) \<and>
     (gm_has args ''rows'' \<longrightarrow>
        (case as_array (gm_get args ''rows'') of
           None \<Rightarrow> False | Some rows \<Rightarrow> length rows = 9 \<and> list_all (\<lambda>v. limit_row_of v \<noteq> None) rows))"

definition ab03ap03_evaluate :: "token list \<Rightarrow> bool \<Rightarrow> json option" where
  "ab03ap03_evaluate ts at_end =
     Option.bind (json_document ts at_end) (\<lambda>doc.
     Option.bind (as_object (Some doc)) (\<lambda>obj.
     Option.bind (as_object (gm_get obj ''context'')) (\<lambda>ctx.
     Option.bind (as_object (gm_get obj ''fields'')) (\<lambda>raw.
     if \<not> list_all (\<lambda>(_, v). byte_array v) raw then None
     else Option.bind (optional_arguments obj) (\<lambda>args.
     Option.bind (all_selected
       [uint_selector ctx ''primary'' 181, uint_selector ctx ''secondary'' 49, uint_selector ctx ''operation'' 3,
        string_selector ctx ''direction'' ''local'', string_selector ctx ''view'' ''ordinary-limit'']) (\<lambda>supported.
     if \<not> supported then
       (if \<not> validate_optional (case args of None \<Rightarrow> [] | Some a \<Rightarrow> a) then None
        else Some (context_output ctx raw args ''Unknown'' []))
     else limit_supported ctx raw (case args of None \<Rightarrow> [] | Some a \<Rightarrow> a)))))))"

section \<open>What the limit reports\<close>

text \<open>The admitted rows with their slots, and those that count.\<close>

definition admitted_from :: "nat \<Rightarrow> limit_row list \<Rightarrow> (nat \<times> limit_row) list" where
  "admitted_from i rows = filter (\<lambda>(_, r). row_admitted r) (enumerate i rows)"

definition counted_from :: "nat \<Rightarrow> limit_row list \<Rightarrow> limit_row list" where
  "counted_from i rows = map snd (filter (\<lambda>(j, _). j \<noteq> 1) (admitted_from i rows))"

definition limit_summary :: "nat \<Rightarrow> limit_state \<Rightarrow> limit_row list \<Rightarrow> limit_state" where
  "limit_summary i st rows =
     \<lparr>ls_slots = ls_slots st @ map (\<lambda>(j, r). limit_slot j r) (enumerate i rows),
      ls_indices = ls_indices st @ map fst (admitted_from i rows),
      ls_token_sum = ls_token_sum st + of_nat (sum_list (map lr_token (counted_from i rows))),
      ls_maximum_sum = ls_maximum_sum st + of_nat (sum_list (map lr_maximum (counted_from i rows))),
      ls_special = (ls_special st \<or> 1 \<in> set (map fst (admitted_from i rows)))\<rparr>"

lemma limit_summary_step: "limit_summary (i + 1) (limit_step i st r) rows = limit_summary i st (r # rows)"
  by (auto simp: limit_summary_def limit_step_def Let_def admitted_from_def counted_from_def)

lemma limit_rows_summary:
  "limit_rows i st vs = map_option (limit_summary i st) (those (map limit_row_of vs))"
proof (induction vs arbitrary: i st)
  case (Cons v vs)
  show ?case
    using limit_summary_step
    by (cases "limit_row_of v") (simp_all add: Cons.IH option.map_comp comp_def)
qed (simp add: limit_summary_def admitted_from_def counted_from_def)

lemma limit_row_bounds:
  "limit_row_of v = Some r \<Longrightarrow> lr_token r < 2 ^ 32 \<and> lr_maximum r < 2 ^ 32"
  by (auto simp: limit_row_of_def bind_eq_Some_conv dest: as_uint_less)

lemma those_all: "those (map f vs) = Some rs \<Longrightarrow> \<forall>r \<in> set rs. \<exists>v. f v = Some r"
  by (induction vs arbitrary: rs) (auto split: option.splits)

lemma sum_list_bounded: "\<forall>x \<in> set xs. x < b \<Longrightarrow> sum_list xs \<le> length xs * (b - 1)" for b :: nat
  by (induction xs) auto

lemma counted_sum_small:
  fixes f :: "limit_row \<Rightarrow> nat"
  assumes "\<forall>r \<in> set rows. f r < 2 ^ 32" "length rows = 9"
  shows "sum_list (map f (counted_from i rows)) < 2 ^ 64"
proof -
  have "set (counted_from i rows) \<subseteq> set rows"
    unfolding counted_from_def admitted_from_def using in_set_enumerate_eq [of _ i rows] by fastforce
  moreover have "length (counted_from i rows) \<le> 9"
    unfolding counted_from_def admitted_from_def
    by (metis assms(2) length_enumerate length_filter_le length_map order.trans)
  ultimately have "sum_list (map f (counted_from i rows)) \<le> length (map f (counted_from i rows)) * (2 ^ 32 - 1)"
    using assms(1) by (intro sum_list_bounded) auto
  also have "\<dots> \<le> 9 * (2 ^ 32 - 1)" using \<open>length (counted_from i rows) \<le> 9\<close> by simp
  finally show ?thesis by simp
qed

lemma enumerate_nth: "enumerate 0 rows = map (\<lambda>i. (i, rows ! i)) [0..<length rows]"
  by (rule nth_equalityI) (simp_all add: nth_enumerate_eq)

lemma admitted_indices:
  "map fst (admitted_from 0 rows) = filter (\<lambda>i. row_admitted (rows ! i)) [0..<length rows]"
  by (simp add: admitted_from_def enumerate_nth filter_map comp_def)

lemma counted_rows:
  "counted_from 0 rows = map ((!) rows) (filter (\<lambda>i. i \<noteq> 1) (filter (\<lambda>i. row_admitted (rows ! i)) [0..<length rows]))"
  by (simp add: counted_from_def admitted_from_def enumerate_nth filter_map comp_def)

text \<open>  What the ordinary limit reports: the admitted slots are the registered, capable ones without a failure;
  tokens and maxima are summed exactly over the admitted slots other than slot 1. Unless slot 1 is
  admitted, the limit is effective exactly when tokens fall short of the maxima and the limit is not zero.
  The requested state is 0 for a zero gate, otherwise 2 or 1 for an effective or ineffective limit, and
  unknown without a gate byte or when slot 1 makes the limit unknown; exactly then, or if slot 1 is
  admitted, the document is partial.
\<close>

theorem limit_report_exact:
  assumes "limit_supported ctx raw args = Some out"
  shows "\<exists>vs rows limited.
     as_array (gm_get args ''rows'') = Some vs \<and> those (map limit_row_of vs) = Some rows \<and> length rows = 9 \<and>
     as_uint 32 (gm_get args ''limited'') = Some limited \<and>
     (let admitted = filter (\<lambda>i. row_admitted (rows ! i)) [0..<9];
          counted = filter (\<lambda>i. i \<noteq> 1) admitted;
          tokens = (\<Sum>i \<leftarrow> counted. lr_token (rows ! i));
          maxima = (\<Sum>i \<leftarrow> counted. lr_maximum (rows ! i));
          effective = (tokens < maxima \<and> limited \<noteq> 0);
          special = row_admitted (rows ! 1);
          gate = limit_gate raw
      in output_field out ''admitted_slots'' ''indices'' = Some (JArray (map json_nat admitted)) \<and>
         output_field out ''token_sum'' ''number'' = Some (json_nat tokens) \<and>
         output_field out ''maximum_sum'' ''number'' = Some (json_nat maxima) \<and>
         output_field out ''effective'' ''value'' = (if special then None else Some (JBool effective)) \<and>
         output_field out ''requested_state'' ''number'' =
           (if gate = Some 0 then Some (json_nat 0)
            else if gate = None \<or> special then None
            else Some (json_nat (if effective then 2 else 1))) \<and>
         output_member out ''state'' = Some (JString (if special \<or> gate = None then ''partial'' else ''complete'')))"
proof -
  obtain limited vs st where ok: "as_uint 32 (gm_get args ''limited'') = Some limited"
    "as_array (gm_get args ''rows'') = Some vs" "length vs = 9" "limit_rows 0 limit_start vs = Some st"
    "out = limit_output ctx raw args vs limited st"
    using assms by (auto simp: limit_supported_def bind_eq_Some_conv split: if_splits)
  obtain rows where rows: "those (map limit_row_of vs) = Some rows" "st = limit_summary 0 limit_start rows"
    using ok(4) by (auto simp: limit_rows_summary)
  have len: "length rows = 9" using those_length [OF rows(1)] ok(3) by simp
  have small: "\<forall>r \<in> set rows. lr_token r < 2 ^ 32" "\<forall>r \<in> set rows. lr_maximum r < 2 ^ 32"
    using those_all [OF rows(1)] limit_row_bounds by blast+
  define admitted where "admitted = filter (\<lambda>i. row_admitted (rows ! i)) [0..<9]"
  define tokens where "tokens = (\<Sum>i \<leftarrow> filter (\<lambda>i. i \<noteq> 1) admitted. lr_token (rows ! i))"
  define maxima where "maxima = (\<Sum>i \<leftarrow> filter (\<lambda>i. i \<noteq> 1) admitted. lr_maximum (rows ! i))"
  have counted: "counted_from 0 rows = map ((!) rows) (filter (\<lambda>i. i \<noteq> 1) admitted)"
    by (simp add: counted_rows len admitted_def)
  have sums: "tokens = sum_list (map lr_token (counted_from 0 rows))" "maxima = sum_list (map lr_maximum (counted_from 0 rows))"
    by (simp_all add: counted tokens_def maxima_def comp_def)
  have bounds: "tokens < 2 ^ 64" "maxima < 2 ^ 64"
    unfolding sums using counted_sum_small [OF small(1) len] counted_sum_small [OF small(2) len] by blast+
  have st: "unat (ls_token_sum st) = tokens" "unat (ls_maximum_sum st) = maxima" "ls_indices st = admitted"
    "ls_special st \<longleftrightarrow> row_admitted (rows ! 1)"
    using bounds
    by (simp_all add: rows(2) limit_summary_def limit_start_def admitted_indices len admitted_def [symmetric]
        sums [symmetric] unat_of_nat take_bit_nat_eq_self) (simp add: admitted_def)
  have effective: "ls_token_sum st < ls_maximum_sum st \<longleftrightarrow> tokens < maxima"
    by (simp add: word_less_nat_alt st)
  show ?thesis
    by (rule exI [of _ vs], rule exI [of _ rows], rule exI [of _ limited],
        unfold Let_def, fold admitted_def, fold tokens_def maxima_def, cases "limit_gate raw")
      (simp_all add: ok(1,2) rows(1) len ok(5) limit_output_def Let_def st effective limit_quantity_def requested_state_def
        requested_number_def split: option.split)
qed

definition sample_limit_arguments :: "(string, json) gomap" where
  "sample_limit_arguments =
     [(''limited'', json_nat 1), (''rows'', JArray (replicate 9 (JObject
        [(''registered'', JBool True), (''capable'', JBool True), (''failure'', JBool False),
         (''token'', json_nat 3), (''maximum'', json_nat 5)])))]"

theorem limit_report_exact_witness:
  "\<exists>out. limit_supported [] [(''gate'', JArray [json_nat 0])] sample_limit_arguments = Some out \<and>
     output_field out ''requested_state'' ''number'' = Some (json_nat 0)"
proof -
  have gate: "limit_gate [(''gate'', JArray [json_nat 0])] = Some 0"
    by (simp add: limit_gate_def as_array_def uint_or_zero_def)
  obtain st where "limit_rows 0 limit_start (replicate 9 (JObject
      [(''registered'', JBool True), (''capable'', JBool True), (''failure'', JBool False), (''token'', json_nat 3), (''maximum'', json_nat 5)])) = Some st"
    by (simp add: limit_rows_summary limit_row_of_def as_object_def as_bool_def those_replicate)
  then obtain out where "limit_supported [] [(''gate'', JArray [json_nat 0])] sample_limit_arguments = Some out"
    by (simp add: limit_supported_def sample_limit_arguments_def as_array_def)
  then show ?thesis using limit_report_exact [of "[]" "[(''gate'', JArray [json_nat 0])]" sample_limit_arguments out]
    by (auto simp: gate Let_def)
qed

end
