(* ===== verification/Cat_Rows.thy ===== *)
theory Cat_Rows
  imports Cat_Transitions
begin

text \<open>
  The rows of the B5 0E service (\<open>ab07ao07_b50e_row_spans.go\<close>): the key of a row says how its bytes
  split into a value, its inverse and a status, and how a one-byte value reads. Whether the input is UTF-8
  is an argument beside its tokens; an error is \<open>None\<close>.
\<close>

section \<open>Spans\<close>

definition span_end :: "json list \<Rightarrow> nat \<Rightarrow> nat \<Rightarrow> nat" where
  "span_end vs offset sz = (if offset + sz > length vs then length vs else offset + sz)"

definition span_start :: "json list \<Rightarrow> nat \<Rightarrow> nat \<Rightarrow> nat" where
  "span_start vs offset sz = (if offset > span_end vs offset sz then span_end vs offset sz else offset)"

definition span_bytes :: "json list \<Rightarrow> nat \<Rightarrow> nat \<Rightarrow> json list" where
  "span_bytes vs offset sz =
     take (span_end vs offset sz - span_start vs offset sz) (drop (span_start vs offset sz) vs)"

definition span_short :: "json list \<Rightarrow> nat \<Rightarrow> nat \<Rightarrow> bool" where
  "span_short vs offset sz \<longleftrightarrow> span_end vs offset sz - span_start vs offset sz < sz"

text \<open>The field of a span, with what its meaning adds when the span is complete.\<close>

definition span_field :: "json list option \<Rightarrow> nat \<Rightarrow> nat \<Rightarrow> string \<times> (string, json) gomap \<Rightarrow> json" where
  "span_field value offset sz meaning =
     (let vs = (case value of None \<Rightarrow> [] | Some vs \<Rightarrow> vs);
          raw = (if value = None then [] else [(''raw'', JArray (span_bytes vs offset sz))])
      in if span_short vs offset sz then JObject ([(''state'', JString ''incomplete'')] @ raw)
         else JObject ([(''state'', JString (fst meaning))] @ raw @ snd meaning))"

section \<open>Rows\<close>

definition row_width :: "int \<Rightarrow> nat" where
  "row_width key =
     (if key \<in> {4, 5, 11, 12, 17, 18} then 2 else if key \<in> {6, 7, 13, 14} then 4 else 1)"

definition row_has_inverse :: "int \<Rightarrow> bool" where
  "row_has_inverse key \<longleftrightarrow> key \<ge> 9 \<and> key \<le> 14 \<or> key = 18"

definition proven_number :: "int \<Rightarrow> string \<times> (string, json) gomap" where
  "proven_number n = (''Hypothesis'', [(''number'', json_int n), (''calculation'', JString ''Proven'')])"

definition labelled :: "string \<Rightarrow> string \<times> (string, json) gomap" where
  "labelled label = (''Hypothesis'', [(''label'', JString label)])"

text \<open>A value of one byte.\<close>

definition row_value :: "int \<Rightarrow> int \<Rightarrow> string \<times> (string, json) gomap" where
  "row_value key n =
     (if key = 1 then (''Unknown'', [])
      else if key = 8 then
        (if n = 15 then labelled ''true'' else if n = 240 then labelled ''false'' else (''Unknown'', []))
      else proven_number (if (key = 3 \<or> key = 10) \<and> n \<ge> 128 then n - 256 else n))"

definition row_status :: "int \<Rightarrow> string \<times> (string, json) gomap" where
  "row_status n =
     (if n = 0 then labelled ''okay'' else if n = 85 then labelled ''short-circuit''
      else if n = 170 then labelled ''interrupted'' else (''Unknown'', []))"

definition int64_or_zero :: "json option \<Rightarrow> int" where
  "int64_or_zero v = (case as_int64 v of None \<Rightarrow> 0 | Some n \<Rightarrow> n)"

definition byte_at :: "json list \<Rightarrow> nat \<Rightarrow> int" where
  "byte_at vs i = int64_or_zero (Some (vs ! i))"

definition row_fields :: "int \<Rightarrow> json list option \<Rightarrow> (string, json) gomap" where
  "row_fields key value =
     (let vs = (case value of None \<Rightarrow> [] | Some vs \<Rightarrow> vs); width = row_width key
      in [(''value'', span_field value 0 width (if width = 1 then row_value key (byte_at vs 0) else (''Hypothesis'', [])))] @
         (if row_has_inverse key then [(''inverse'', span_field value width width (''Hypothesis'', []))] else []) @
         (if key = 17 then [(''status'', span_field value 2 1 (row_status (byte_at vs 2)))] else []))"

definition row_state :: "int \<Rightarrow> json list option \<Rightarrow> string" where
  "row_state key value =
     (let vs = (case value of None \<Rightarrow> [] | Some vs \<Rightarrow> vs); width = row_width key
      in if span_short vs 0 width \<or> (row_has_inverse key \<and> span_short vs width width) \<or> (key = 17 \<and> span_short vs 2 1)
         then ''partial'' else ''Hypothesis'')"

section \<open>Interpretation\<close>

definition row_document ::
  "(string, json) gomap \<Rightarrow> (string, json) gomap \<Rightarrow> (string, json) gomap option \<Rightarrow> json" where
  "row_document ctx raw args =
     (let unknown = context_output ctx raw args ''Unknown'' [];
          value = as_array (gm_get raw ''value'')
      in if int64_or_zero (gm_get ctx ''primary'') \<noteq> 181 \<or> int64_or_zero (gm_get ctx ''secondary'') \<noteq> 14 \<or>
            int64_or_zero (gm_get ctx ''operation'') \<noteq> 2 \<or> gm_get ctx ''direction'' \<noteq> Some (JString ''positive'') \<or>
            gm_get ctx ''view'' \<noteq> Some (JString ''row-spans'') then unknown
         else case as_array (gm_get raw ''key'') of
                Some [k] \<Rightarrow>
                  (let key = int64_or_zero (Some k)
                   in if key > 18 then unknown
                      else if key = 0 \<or> key = 15 \<or> key = 16 then
                        context_output ctx raw args ''Unknown''
                          [(''value'', JObject ([(''state'', JString ''Unknown'')] @
                             (case value of None \<Rightarrow> [] | Some vs \<Rightarrow> [(''raw'', JArray vs)])))]
                      else context_output ctx raw args (row_state key value) (row_fields key value))
              | _ \<Rightarrow> unknown)"

definition ab07ao07_interpret :: "bool \<Rightarrow> token list \<Rightarrow> bool \<Rightarrow> json option" where
  "ab07ao07_interpret valid_utf8 ts at_end =
     (if \<not> valid_utf8 then None
      else
     Option.bind (json_document ts at_end) (\<lambda>doc.
     Option.bind (as_object (Some doc)) (\<lambda>obj.
     if \<not> list_all (\<lambda>(name, _). name = ''context'' \<or> name = ''fields'' \<or> name = ''arguments'') obj then None
     else Option.bind (as_object (gm_get obj ''context'')) (\<lambda>ctx.
     Option.bind (as_object (gm_get obj ''fields'')) (\<lambda>raw.
     if \<not> list_all (\<lambda>(_, v). signed_byte_array as_int64 v) raw then None
     else if \<not> list_all (\<lambda>key. gm_has ctx key \<longrightarrow> as_int64 (gm_get ctx key) \<noteq> None) [''primary'', ''secondary'', ''operation''] then None
     else if \<not> list_all (\<lambda>key. gm_has ctx key \<longrightarrow> as_string (gm_get ctx key) \<noteq> None) [''direction'', ''view''] then None
     else Option.bind (optional_arguments obj) (\<lambda>args.
     if args \<noteq> None \<and> args \<noteq> Some [] then None
     else Some (row_document ctx raw args)))))))"

section \<open>What a row reports\<close>

lemma span_bytes_eq: "span_bytes vs offset sz = take sz (drop offset vs)"
  by (auto simp: span_bytes_def span_end_def span_start_def min_def)

lemma span_short_iff: "span_short vs offset sz \<longleftrightarrow> 0 < sz \<and> length vs < offset + sz"
  by (auto simp: span_short_def span_end_def span_start_def)

text \<open>The bytes a row of a key consists of.\<close>

definition row_size :: "int \<Rightarrow> nat" where
  "row_size key = (if key = 17 then 3 else if row_has_inverse key then 2 * row_width key else row_width key)"

lemma row_keys: "row_has_inverse 17 = False" "row_width 17 = 2" "0 < row_width key"
  by (simp_all add: row_has_inverse_def row_width_def)

lemma span_field_raw:
  "output_member (span_field (Some vs) offset sz (s, m)) ''raw'' = Some (JArray (take sz (drop offset vs)))"
  by (simp add: span_field_def Let_def span_bytes_eq)

text \<open>A context that selects the rows.\<close>

definition row_selected :: "(string, json) gomap \<Rightarrow> bool" where
  "row_selected ctx \<longleftrightarrow>
     as_int64 (gm_get ctx ''primary'') = Some 181 \<and> as_int64 (gm_get ctx ''secondary'') = Some 14 \<and>
     as_int64 (gm_get ctx ''operation'') = Some 2 \<and> gm_get ctx ''direction'' = Some (JString ''positive'') \<and>
     gm_get ctx ''view'' = Some (JString ''row-spans'')"

lemma row_document_selected:
  assumes "row_selected ctx" "as_array (gm_get raw ''key'') = Some [k]" "as_int64 (Some k) = Some key"
    "1 \<le> key" "key \<le> 18" "key \<noteq> 15" "key \<noteq> 16"
  shows "row_document ctx raw args =
     context_output ctx raw args (row_state key (as_array (gm_get raw ''value''))) (row_fields key (as_array (gm_get raw ''value'')))"
  using assms by (simp add: row_document_def Let_def int64_or_zero_def row_selected_def)

lemma row_state_exact:
  "row_state key (Some vs) = (if length vs < row_size key then ''partial'' else ''Hypothesis'')"
  using row_keys by (auto simp: row_state_def row_size_def span_short_iff Let_def)

definition row_names :: "int \<Rightarrow> string list" where
  "row_names key = [''value''] @ (if row_has_inverse key then [''inverse''] else []) @ (if key = 17 then [''status''] else [])"

definition row_parts :: "int \<Rightarrow> json list \<Rightarrow> json list list" where
  "row_parts key vs =
     [take (row_width key) vs] @ (if row_has_inverse key then [take (row_width key) (drop (row_width key) vs)] else []) @
       (if key = 17 then [take 1 (drop 2 vs)] else [])"

lemma row_parts_concat: "concat (row_parts key vs) = take (row_size key) vs"
proof -
  have "take n vs @ take m (drop n vs) = take (n + m) vs" for n m by (simp add: take_add)
  then show ?thesis
    using row_keys by (simp add: row_parts_def row_size_def mult_2 del: append_take_drop_id)
qed

lemma row_fields_raw:
  "map (\<lambda>name. Option.bind (gm_get (row_fields key (Some vs)) name) (\<lambda>f. output_member f ''raw'')) (row_names key) =
     map (\<lambda>p. Some (JArray p)) (row_parts key vs)"
  by (cases "row_value key (byte_at vs 0)"; cases "row_status (byte_at vs 2)")
    (simp add: row_fields_def row_names_def row_parts_def Let_def span_field_raw row_keys)

lemma span_field_number:
  "0 < sz \<Longrightarrow> output_member (span_field (Some vs) offset sz meaning) ''number'' =
     (if length vs < offset + sz then None else gm_get (snd meaning) ''number'')"
  by (simp add: span_field_def Let_def span_short_iff)

lemma row_value_number:
  "gm_get (snd (row_value key n)) ''number'' =
     (if key = 1 \<or> key = 8 then None else Some (json_int (if (key = 3 \<or> key = 10) \<and> n \<ge> 128 then n - 256 else n)))"
  by (simp add: row_value_def proven_number_def labelled_def)

lemma row_fields_value:
  "gm_get (row_fields key (Some vs)) ''value'' =
     Some (span_field (Some vs) 0 (row_width key) (if row_width key = 1 then row_value key (byte_at vs 0) else (''Hypothesis'', [])))"
  by (simp add: row_fields_def Let_def)

text \<open>  A row of a known key splits its bytes without gap or overlap: its fields, in order, hold together the
  bytes up to the size of the row, and the document is partial exactly when the row is shorter. A number
  is reported exactly for a value of one byte that is there and neither opaque nor a truth value, and it
  is that byte, signed for the keys 3 and 10.
\<close>

theorem row_spans_exact:
  assumes "row_selected ctx" "as_array (gm_get raw ''key'') = Some [k]" "as_int64 (Some k) = Some key"
    and "1 \<le> key" "key \<le> 18" "key \<noteq> 15" "key \<noteq> 16"
    and "as_array (gm_get raw ''value'') = Some vs"
  shows "let out = row_document ctx raw args in
     output_member out ''state'' = Some (JString (if length vs < row_size key then ''partial'' else ''Hypothesis'')) \<and>
     (\<exists>parts. map (\<lambda>name. output_field out name ''raw'') (row_names key) = map (\<lambda>p. Some (JArray p)) parts \<and>
        concat parts = take (row_size key) vs) \<and>
     output_field out ''value'' ''number'' =
       (if row_width key = 1 \<and> key \<noteq> 1 \<and> key \<noteq> 8 \<and> vs \<noteq> []
        then Some (json_int (if (key = 3 \<or> key = 10) \<and> byte_at vs 0 \<ge> 128 then byte_at vs 0 - 256 else byte_at vs 0))
        else None)"
proof -
  have number: "Option.bind (gm_get (row_fields key (Some vs)) ''value'') (\<lambda>f. output_member f ''number'') =
      (if row_width key = 1 \<and> key \<noteq> 1 \<and> key \<noteq> 8 \<and> vs \<noteq> []
       then Some (json_int (if (key = 3 \<or> key = 10) \<and> byte_at vs 0 \<ge> 128 then byte_at vs 0 - 256 else byte_at vs 0))
       else None)"
  proof (cases "row_width key = 1")
    case True
    then show ?thesis
      unfolding row_fields_value span_field_number [OF row_keys(3)] by (cases vs) (simp_all add: span_field_number row_value_number)
  next
    case False
    then show ?thesis by (simp add: row_fields_value span_field_number row_keys(3))
  qed
  show ?thesis
    using row_fields_raw [of key vs] row_parts_concat [of key vs] number
    unfolding Let_def row_document_selected [OF assms(1-7)] assms(8)
    by (intro conjI exI [of _ "row_parts key vs"]) (simp_all add: row_state_exact)
qed

definition sample_row_context :: "(string, json) gomap" where
  "sample_row_context =
     [(''primary'', json_int 181), (''secondary'', json_int 14), (''operation'', json_int 2),
      (''direction'', JString ''positive''), (''view'', JString ''row-spans'')]"

lemma as_int64_json_int: "is_int64 n \<Longrightarrow> as_int64 (Some (json_int n)) = Some n"
  by (simp add: as_int64_def as_integer_def json_int_def)

lemma byte_int64: "0 \<le> n \<Longrightarrow> n \<le> 255 \<Longrightarrow> is_int64 n"
  by (simp add: is_int64_def max_int64_def)

theorem row_spans_exact_witness:
  "let out = row_document sample_row_context [(''key'', JArray [json_int 3]), (''value'', JArray [json_int 200])] None in
     output_member out ''state'' = Some (JString ''Hypothesis'') \<and>
     output_field out ''value'' ''number'' = Some (json_int (- 56))"
proof -
  have "row_selected sample_row_context"
    by (simp add: row_selected_def sample_row_context_def as_int64_json_int byte_int64)
  moreover have "as_int64 (Some (json_int 3)) = Some 3" "byte_at [json_int 200] 0 = 200"
    by (simp_all add: byte_at_def int64_or_zero_def as_int64_json_int byte_int64)
  moreover have "row_width 3 = 1" "row_size 3 = 1"
    by (simp_all add: row_width_def row_size_def row_has_inverse_def)
  ultimately show ?thesis
    using row_spans_exact [of sample_row_context "[(''key'', JArray [json_int 3]), (''value'', JArray [json_int 200])]" "json_int 3" 3
        "[json_int 200]" None]
    by (simp add: as_array_def Let_def)
qed

end
