(* ===== verification/Cat_Flow.thy ===== *)
theory Cat_Flow
  imports Cat_Rows
begin

unbundle bit_operations_syntax

text \<open>
  Flow and emergency data of the B5 12 service (\<open>ab15ap15_b512_emergency_flow.go\<close>): fields of fixed
  lengths, read as flag bits or as a number. A number is the text \<open>json.Marshal\<close> gives for the floating
  point value; every value here is a multiple of 1/16 or the double nearest to a tenth of a byte, so that
  text is the exact decimal. An error is \<open>None\<close>.
\<close>

section \<open>Numbers\<close>

fun fixed_digits :: "nat \<Rightarrow> nat \<Rightarrow> string" where
  "fixed_digits 0 n = []"
| "fixed_digits (Suc k) n = fixed_digits k (n div 10) @ [digit_char (n mod 10)]"

text \<open>The decimal of a number of tenths, hundredths and so on, without trailing zeros.\<close>

definition decimal_text :: "int \<Rightarrow> nat \<Rightarrow> string" where
  "decimal_text n k =
     (let a = nat \<bar>n\<bar>; frac = rev (dropWhile (\<lambda>c. c = CHR ''0'') (rev (fixed_digits k (a mod 10 ^ k))))
      in (if n < 0 then [CHR ''-''] else []) @ nat_str (a div 10 ^ k) @ (if frac = [] then [] else CHR ''.'' # frac))"

definition le_word :: "byte \<Rightarrow> byte \<Rightarrow> uint16" where
  "le_word b0 b1 = ucast b0 OR push_bit 8 (ucast b1)"

definition flow_number :: "string \<Rightarrow> byte list \<Rightarrow> string" where
  "flow_number name bs =
     (if name = ''temperature1'' \<or> name = ''temperature2'' \<or> name = ''temperature3''
      then decimal_text (sint (le_word (bs ! 0) (bs ! 1)) * 625) 4
      else if name = ''pressure'' then decimal_text (uint (bs ! 0)) 1
      else if name = ''flow'' then int_str (sint (bs ! 0) * 10)
      else if name = ''co2_1'' \<or> name = ''co2_2'' then int_str (uint (le_word (bs ! 0) (bs ! 1)))
      else int_str (uint (bs ! 0)))"

section \<open>Fields\<close>

definition flow_lengths :: "bool \<Rightarrow> bool \<Rightarrow> (string \<times> nat) list" where
  "flow_lengths flow positive =
     [(''flags'', 1)] @
     (if positive then (if flow then [(''setpoint'', 1)] else [])
      else if flow then
        [(''temperature1'', 2), (''temperature2'', 2), (''temperature3'', 2), (''pressure'', 1), (''flow'', 1), (''pump_status'', 1)]
      else [(''switch'', 1), (''co2_1'', 2), (''co2_2'', 2)])"

definition flow_flags :: "bool \<Rightarrow> bool \<Rightarrow> byte \<Rightarrow> (string, json) gomap" where
  "flow_flags flow positive b =
     (let label = (if flow then ''compressor-off'' else if positive then ''LED'' else ''emergency'')
      in if flow \<and> positive then
           [(''flags'', JObject [(label, JBool (b AND 1 \<noteq> 0)), (''pump-relay'', JBool (b AND 2 \<noteq> 0))]),
            (''reserved'', json_nat (unat (b AND 252)))]
         else
           [(''flags'', JObject [(label, JBool (b AND 1 \<noteq> 0))]),
            (''reserved'', json_nat (unat (b AND 126))), (''unmodeled'', json_nat (unat (b AND 128)))])"

definition flow_bytes :: "json list \<Rightarrow> byte list" where
  "flow_bytes vs = map (\<lambda>v. word_of_int (int64_or_zero (Some v))) vs"

definition flow_field :: "bool \<Rightarrow> bool \<Rightarrow> (string, json) gomap \<Rightarrow> string \<times> nat \<Rightarrow> json" where
  "flow_field flow positive raw = (\<lambda>(name, len).
     let vs = (case as_array (gm_get raw name) of None \<Rightarrow> [] | Some vs \<Rightarrow> vs);
         given = (case gm_get raw name of None \<Rightarrow> [] | Some v \<Rightarrow> [(''raw'', v)]);
         bs = flow_bytes vs
     in if length vs \<noteq> len then JObject ([(''state'', JString ''incomplete'')] @ given)
        else JObject ([(''state'', JString ''Hypothesis'')] @ given @
          (if name = ''flags'' then flow_flags flow positive (bs ! 0)
           else (if name = ''setpoint'' then [(''candidate_domain'', JBool (uint (bs ! 0) \<le> 100))] else []) @
             [(''number'', JNumber (flow_number name bs)), (''calculation'', JString ''Proven'')])))"

definition flow_partial :: "(string, json) gomap \<Rightarrow> string \<times> nat \<Rightarrow> bool" where
  "flow_partial raw = (\<lambda>(name, len). length (case as_array (gm_get raw name) of None \<Rightarrow> [] | Some vs \<Rightarrow> vs) \<noteq> len)"

text \<open>A field of the code overwrites the raw one of the same name.\<close>

definition flow_fields :: "bool \<Rightarrow> bool \<Rightarrow> (string, json) gomap \<Rightarrow> (string, json) gomap" where
  "flow_fields flow positive raw =
     fold (\<lambda>e acc. gm_put (fst e) (flow_field flow positive raw e) acc) (flow_lengths flow positive) (raw_fields raw)"

section \<open>Evaluation\<close>

definition flow_candidate :: "(string, json) gomap \<Rightarrow> json" where
  "flow_candidate ctx =
     JObject [(''state'', JString ''Hypothesis''), (''declared_positive_prefix'', JArray (map json_nat [181, 18, 12])),
       (''requested_operation'', (case gm_get ctx ''operation'' of None \<Rightarrow> JNull | Some v \<Rightarrow> v)),
       (''literal_reply_conflict'', JBool True), (''physical_association'', JString ''Unknown'')]"

definition flow_document ::
  "(string, json) gomap \<Rightarrow> (string, json) gomap \<Rightarrow> (string, json) gomap option \<Rightarrow> json" where
  "flow_document ctx raw args =
     (let flow = (gm_get ctx ''operation'' = Some (JNumber ''17'') \<and> gm_get ctx ''view'' = Some (JString ''flow-io''));
          emergency = (gm_get ctx ''operation'' = Some (JNumber ''18'') \<and> gm_get ctx ''view'' = Some (JString ''emergency-io''));
          request = (gm_get ctx ''direction'' = Some (JString ''request''));
          positive = (gm_get ctx ''direction'' = Some (JString ''positive''))
      in if gm_get ctx ''primary'' \<noteq> Some (JNumber ''181'') \<or> gm_get ctx ''secondary'' \<noteq> Some (JNumber ''18'') \<or>
            (\<not> flow \<and> \<not> emergency) \<or> (\<not> request \<and> \<not> positive)
         then context_output ctx raw args ''Unknown'' []
         else case context_output ctx raw args
                (if list_ex (flow_partial raw) (flow_lengths flow positive) then ''partial'' else ''complete'')
                (flow_fields flow positive raw) of
                JObject out \<Rightarrow> JObject (out @ (if positive then [(''candidate'', flow_candidate ctx)] else []))
              | doc \<Rightarrow> doc)"

text \<open>A number of the context: missing, null, or the text of a byte.\<close>

definition context_byte :: "json option \<Rightarrow> bool" where
  "context_byte v \<longleftrightarrow>
     is_nil v \<or> (case as_int64 v of None \<Rightarrow> False | Some n \<Rightarrow> 0 \<le> n \<and> n \<le> 255)"

definition ab15ap15_evaluate :: "token list \<Rightarrow> bool \<Rightarrow> json option" where
  "ab15ap15_evaluate ts at_end =
     Option.bind (json_document ts at_end) (\<lambda>doc.
     Option.bind (as_object (Some doc)) (\<lambda>obj.
     Option.bind (as_object (gm_get obj ''context'')) (\<lambda>ctx.
     if \<not> list_all (\<lambda>key. context_byte (gm_get ctx key)) [''primary'', ''secondary'', ''operation''] then None
     else if \<not> list_all (\<lambda>key. is_nil (gm_get ctx key) \<or> as_string (gm_get ctx key) \<noteq> None) [''direction'', ''view''] then None
     else Option.bind (as_object (gm_get obj ''fields'')) (\<lambda>raw.
     Option.bind (optional_arguments obj) (\<lambda>args.
     if \<not> list_all (\<lambda>(_, v). signed_byte_array as_int64 v) raw then None
     else Some (flow_document ctx raw args))))))"

section \<open>What the document reports\<close>

text \<open>The number a decimal denotes.\<close>

definition decimal_value :: "string \<Rightarrow> rat" where
  "decimal_value s =
     (let negative = (s \<noteq> [] \<and> hd s = CHR ''-''); t = (if negative then tl s else s);
          whole = takeWhile (\<lambda>c. c \<noteq> CHR ''.'') t; frac = drop (length whole + 1) t;
          v = of_nat (digits_val (whole @ frac)) / 10 ^ length frac
      in if negative then - v else v)"

lemma digits_val_joined: "digits_val (xs @ ys) = digits_val xs * 10 ^ length ys + digits_val ys"
proof (induction ys rule: rev_induct)
  case (snoc y ys)
  then show ?case using digits_val_snoc [of "xs @ ys" y] by (simp add: algebra_simps)
qed simp

lemma fixed_digits_val: "digits_val (fixed_digits k n) = n mod 10 ^ k" "length (fixed_digits k n) = k"
proof (induction k arbitrary: n)
  case (Suc k)
  { case 1 show ?case by (simp add: Suc mod_mult2_eq) }
  { case 2 show ?case by (simp add: Suc) }
qed simp_all

lemma zeros_val: "list_all (\<lambda>c. c = CHR ''0'') zs \<Longrightarrow> digits_val zs = 0"
proof (induction zs rule: rev_induct)
  case (snoc z zs)
  have "digit_val (CHR ''0'') = 0" by (simp add: digit_val_def)
  then show ?case using snoc by simp
qed simp

lemma strip_zeros:
  obtains zs where "xs = rev (dropWhile (\<lambda>c. c = CHR ''0'') (rev xs)) @ zs" "list_all (\<lambda>c. c = CHR ''0'') zs"
proof
  let ?P = "\<lambda>c. c = CHR ''0''"
  have "rev xs = takeWhile ?P (rev xs) @ dropWhile ?P (rev xs)" by simp
  then show "xs = rev (dropWhile ?P (rev xs)) @ rev (takeWhile ?P (rev xs))"
    by (metis rev_append rev_rev_ident)
  show "list_all ?P (rev (takeWhile ?P (rev xs)))"
    by (auto simp: list_all_iff dest: set_takeWhileD)
qed

lemma no_dot: "list_all is_digit s \<Longrightarrow> takeWhile (\<lambda>c. c \<noteq> CHR ''.'') (s @ r) = s @ takeWhile (\<lambda>c. c \<noteq> CHR ''.'') r"
  by (induction s) (auto simp: is_digit_def)

lemma digits_start: "list_all is_digit s \<Longrightarrow> s \<noteq> [] \<Longrightarrow> hd (s @ r) \<noteq> CHR ''-''"
  by (cases s) (auto simp: is_digit_def)

lemma decimal_text_value: "decimal_value (decimal_text n k) = of_int n / 10 ^ k"
proof -
  define a where "a = nat \<bar>n\<bar>"
  define q where "q = nat_str (a div 10 ^ k)"
  define frac where "frac = rev (dropWhile (\<lambda>c. c = CHR ''0'') (rev (fixed_digits k (a mod 10 ^ k))))"
  obtain zs where zs: "fixed_digits k (a mod 10 ^ k) = frac @ zs" "list_all (\<lambda>c. c = CHR ''0'') zs"
    using strip_zeros unfolding frac_def by blast
  have len: "length frac + length zs = k"
    using fixed_digits_val(2) [of k "a mod 10 ^ k"] by (simp add: zs(1))
  have tail: "digits_val frac * 10 ^ length zs = a mod 10 ^ k"
    using fixed_digits_val(1) [of k "a mod 10 ^ k"] by (simp add: zs(1) digits_val_joined zeros_val [OF zs(2)])
  have q: "list_all is_digit q" "q \<noteq> []" "digits_val q = a div 10 ^ k"
    unfolding q_def using nat_str_digits by simp_all
  define t where "t = q @ (if frac = [] then [] else CHR ''.'' # frac)"
  have start: "hd t \<noteq> CHR ''-''" "t \<noteq> []" using digits_start [OF q(1,2)] q(2) unfolding t_def by auto
  have split: "takeWhile (\<lambda>c. c \<noteq> CHR ''.'') t = q" "drop (length q + 1) t = frac"
    unfolding t_def using no_dot [OF q(1)] by simp_all
  have "digits_val (q @ frac) * 10 ^ length zs = a div 10 ^ k * 10 ^ k + a mod 10 ^ k"
    using tail len by (simp add: digits_val_joined q(3) add_mult_distrib power_add [symmetric] mult.assoc)
  then have "digits_val (q @ frac) * 10 ^ length zs = a" by (simp only: div_mult_mod_eq)
  then have "(of_nat (digits_val (q @ frac)) :: rat) * 10 ^ length zs = of_nat a"
    by (metis of_nat_mult of_nat_numeral of_nat_power)
  then have v: "(of_nat (digits_val (q @ frac)) :: rat) / 10 ^ length frac = of_nat a / 10 ^ k"
    by (simp add: len [symmetric] power_add divide_simps mult.assoc mult.commute)
  have shown: "decimal_text n k = (if n < 0 then [CHR ''-''] else []) @ t"
    by (simp add: decimal_text_def t_def Let_def a_def q_def frac_def)
  have "decimal_value (decimal_text n k) = (if n < 0 then - (of_nat a / 10 ^ k) else of_nat a / 10 ^ k)"
    using start split v by (simp add: decimal_value_def shown Let_def)
  then show ?thesis by (simp add: a_def)
qed

lemma int_str_value: "decimal_value (int_str n) = of_int n"
proof -
  have "decimal_text n 0 = int_str n" by (simp add: decimal_text_def int_str_def Let_def)
  then show ?thesis using decimal_text_value [of n 0] by simp
qed

text \<open>The physical value a field stands for.\<close>

definition flow_value :: "string \<Rightarrow> byte list \<Rightarrow> rat" where
  "flow_value name bs =
     (if name \<in> {''temperature1'', ''temperature2'', ''temperature3''} then of_int (sint (le_word (bs ! 0) (bs ! 1))) / 16
      else if name = ''pressure'' then of_int (uint (bs ! 0)) / 10
      else if name = ''flow'' then 10 * of_int (sint (bs ! 0))
      else if name \<in> {''co2_1'', ''co2_2''} then of_int (uint (le_word (bs ! 0) (bs ! 1)))
      else of_int (uint (bs ! 0)))"

lemma flow_number_value: "decimal_value (flow_number name bs) = flow_value name bs"
  by (simp add: flow_number_def flow_value_def decimal_text_value int_str_value)

text \<open>The flags of a byte, with the reserved bits, lose nothing of it.\<close>

lemma and_flag: "b AND 1 \<noteq> 0 \<longleftrightarrow> bit b 0" "b AND 2 \<noteq> 0 \<longleftrightarrow> bit b 1" for b :: byte
proof -
  show "b AND 1 \<noteq> 0 \<longleftrightarrow> bit b 0" by (simp add: bit_0 and_one_eq odd_iff_mod_2_eq_one)
  have "bit (b AND 2) n \<longleftrightarrow> n = 1 \<and> bit b 1" for n
    by (auto simp: bit_simps numeral_2_eq_2 [symmetric] bit_2_iff)
  then have "b AND 2 = (if bit b 1 then 2 else 0)"
    by (intro bit_word_eqI) (auto simp: bit_2_iff)
  then show "b AND 2 \<noteq> 0 \<longleftrightarrow> bit b 1" by simp
qed

lemma json_nat_inj: "json_nat m = json_nat n \<longleftrightarrow> m = n"
  by (metis as_uint_json_nat json_nat_def json.inject(2) digits_val_nat_str)

lemma json_unat_inj: "json_nat (unat m) = json_nat (unat n) \<longleftrightarrow> m = n" for m n :: byte
  by (simp add: json_nat_inj word_eq_iff_unsigned [where 'a = nat])

lemma and_bits: "b AND m = c AND m \<Longrightarrow> bit m n \<Longrightarrow> bit b n = bit c n" for b :: byte
  by (metis bit_and_iff)

lemma byte_bits_eq:
  "\<lbrakk>bit b 0 = bit c 0; bit b 1 = bit c 1; bit b 2 = bit c 2; bit b 3 = bit c 3; bit b 4 = bit c 4; bit b 5 = bit c 5;
    bit b 6 = bit c 6; bit b 7 = bit c 7\<rbrakk> \<Longrightarrow> b = c" for b :: byte
proof (rule bit_word_eqI)
  fix n :: nat
  assume bits: "bit b 0 = bit c 0" "bit b 1 = bit c 1" "bit b 2 = bit c 2" "bit b 3 = bit c 3" "bit b 4 = bit c 4" "bit b 5 = bit c 5"
    "bit b 6 = bit c 6" "bit b 7 = bit c 7" and n: "n < LENGTH(8)"
  from n have "n < 8" by simp
  then have "n = 0 \<or> n = 1 \<or> n = 2 \<or> n = 3 \<or> n = 4 \<or> n = 5 \<or> n = 6 \<or> n = 7" by presburger
  then show "bit b n = bit c n" using bits by (elim disjE) simp_all
qed

lemma flow_flags_lossless: "flow_flags flow positive b = flow_flags flow positive c \<longleftrightarrow> b = c"
proof
  assume eq: "flow_flags flow positive b = flow_flags flow positive c"
  show "b = c"
  proof (cases "flow \<and> positive")
    case True
    then have "bit b 0 = bit c 0" "bit b 1 = bit c 1" "b AND 252 = c AND 252"
      using eq by (simp_all add: flow_flags_def Let_def and_flag json_unat_inj)
    then show ?thesis using and_bits [of b 252 c] by (intro byte_bits_eq) (simp_all add: bit_numeral_simps)
  next
    case False
    then have "bit b 0 = bit c 0" "b AND 126 = c AND 126" "b AND 128 = c AND 128"
      using eq by (simp_all add: flow_flags_def Let_def and_flag json_unat_inj split: if_splits)
    then show ?thesis using and_bits [of b 126 c] and_bits [of b 128 c] by (intro byte_bits_eq) simp_all
  qed
qed simp

lemma flow_fields_get:
  assumes "distinct (map fst es)" "e \<in> set es"
  shows "gm_get (fold (\<lambda>e acc. gm_put (fst e) (f e) acc) es m) (fst e) = Some (f e)"
  using assms
proof (induction es rule: rev_induct)
  case (snoc x es)
  show ?case
  proof (cases "e = x")
    case False
    then have "e \<in> set es" using snoc.prems(2) by simp
    moreover have "fst x \<notin> fst ` set es" using snoc.prems(1) by simp
    ultimately have "fst e \<noteq> fst x" by (metis imageI)
    then show ?thesis using snoc.IH snoc.prems(1) \<open>e \<in> set es\<close> by simp
  qed simp
qed simp

lemma flow_lengths_distinct: "distinct (map fst (flow_lengths flow positive))"
  by (simp add: flow_lengths_def)

text \<open>A context that selects flow or emergency data, of a request or a positive answer.\<close>

definition flow_selected :: "(string, json) gomap \<Rightarrow> bool \<Rightarrow> bool \<Rightarrow> bool" where
  "flow_selected ctx flow positive \<longleftrightarrow>
     gm_get ctx ''primary'' = Some (JNumber ''181'') \<and> gm_get ctx ''secondary'' = Some (JNumber ''18'') \<and>
     gm_get ctx ''operation'' = Some (JNumber (if flow then ''17'' else ''18'')) \<and>
     gm_get ctx ''view'' = Some (JString (if flow then ''flow-io'' else ''emergency-io'')) \<and>
     gm_get ctx ''direction'' = Some (JString (if positive then ''positive'' else ''request''))"

definition flow_array :: "(string, json) gomap \<Rightarrow> string \<Rightarrow> json list" where
  "flow_array raw name = (case as_array (gm_get raw name) of None \<Rightarrow> [] | Some vs \<Rightarrow> vs)"

lemma flow_partial_any:
  "list_ex (flow_partial raw) es \<longleftrightarrow> \<not> list_all (\<lambda>(name, len). length (flow_array raw name) = len) es"
  by (induction es) (auto simp: flow_partial_def flow_array_def)

lemma flow_document_members:
  assumes "flow_selected ctx flow positive"
  shows "output_member (flow_document ctx raw args) ''state'' =
       Some (JString (if list_all (\<lambda>(name, len). length (flow_array raw name) = len) (flow_lengths flow positive) then ''complete'' else ''partial''))"
    and "output_field (flow_document ctx raw args) name key = Option.bind (gm_get (flow_fields flow positive raw) name) (\<lambda>f. output_member f key)"
  using assms
  by (auto simp: flow_selected_def flow_document_def Let_def context_output_def output_field_def flow_partial_any split: if_splits)

lemma flow_fields_entry:
  "(name, len) \<in> set (flow_lengths flow positive) \<Longrightarrow>
     gm_get (flow_fields flow positive raw) name = Some (flow_field flow positive raw (name, len))"
  using flow_fields_get [OF flow_lengths_distinct, of "(name, len)" flow positive] by (simp add: flow_fields_def)

lemma given_get:
  "key \<noteq> ''raw'' \<Longrightarrow> gm_get ((case v of None \<Rightarrow> [] | Some x \<Rightarrow> [(''raw'', x)]) @ m) key = gm_get m key"
  by (cases v) simp_all

lemma flow_field_members:
  assumes "key \<noteq> ''raw''"
  shows "length (flow_array raw name) \<noteq> len \<Longrightarrow>
       output_member (flow_field flow positive raw (name, len)) key = (if key = ''state'' then Some (JString ''incomplete'') else None)"
    and "length (flow_array raw ''flags'') = len \<Longrightarrow>
       output_member (flow_field flow positive raw (''flags'', len)) key =
         (if key = ''state'' then Some (JString ''Hypothesis'')
          else gm_get (flow_flags flow positive (flow_bytes (flow_array raw ''flags'') ! 0)) key)"
    and "length (flow_array raw name) = len \<Longrightarrow> name \<noteq> ''flags'' \<Longrightarrow> key \<noteq> ''candidate_domain'' \<Longrightarrow>
       output_member (flow_field flow positive raw (name, len)) key =
         (if key = ''state'' then Some (JString ''Hypothesis'')
          else if key = ''number'' then Some (JNumber (flow_number name (flow_bytes (flow_array raw name))))
          else if key = ''calculation'' then Some (JString ''Proven'') else None)"
  using given_get [OF assms, of "gm_get raw name" "[]"]
  by (simp_all add: flow_field_def flow_array_def [symmetric] Let_def given_get [OF assms])

text \<open>  A selected document is complete exactly when every field it expects has its length. A field of another
  length is reported incomplete and not read. A number that is reported is the exact decimal of the
  physical value: sixteenths of a degree from a signed word, tenths of a bar, tens of litres from a signed
  byte, or the plain word or byte. The flag byte is reported without losing a bit of it.
\<close>

theorem flow_fields_exact:
  assumes "flow_selected ctx flow positive" "(name, len) \<in> set (flow_lengths flow positive)"
  shows "let out = flow_document ctx raw args; vs = flow_array raw name in
     output_member out ''state'' =
       Some (JString (if list_all (\<lambda>(name, len). length (flow_array raw name) = len) (flow_lengths flow positive)
                      then ''complete'' else ''partial'')) \<and>
     output_field out name ''state'' = Some (JString (if length vs = len then ''Hypothesis'' else ''incomplete'')) \<and>
     (if length vs = len \<and> name \<noteq> ''flags''
      then \<exists>t. output_field out name ''number'' = Some (JNumber t) \<and> decimal_value t = flow_value name (flow_bytes vs)
      else output_field out name ''number'' = None) \<and>
     (if length vs = len \<and> name = ''flags''
      then \<exists>!b. output_field out name ''flags'' = gm_get (flow_flags flow positive b) ''flags'' \<and>
             output_field out name ''reserved'' = gm_get (flow_flags flow positive b) ''reserved'' \<and>
             output_field out name ''unmodeled'' = gm_get (flow_flags flow positive b) ''unmodeled''
      else output_field out name ''flags'' = None)"
proof -
  note members = flow_document_members [OF assms(1)]
  have field: "output_field (flow_document ctx raw args) name key = output_member (flow_field flow positive raw (name, len)) key" for key
    unfolding members(2) flow_fields_entry [OF assms(2)] by simp
  have keys: "flow_flags flow positive b = flow_flags flow positive c \<longleftrightarrow>
      gm_get (flow_flags flow positive b) ''flags'' = gm_get (flow_flags flow positive c) ''flags'' \<and>
      gm_get (flow_flags flow positive b) ''reserved'' = gm_get (flow_flags flow positive c) ''reserved'' \<and>
      gm_get (flow_flags flow positive b) ''unmodeled'' = gm_get (flow_flags flow positive c) ''unmodeled''" for b c
    by (simp add: flow_flags_def Let_def)
  have number: "gm_get (flow_flags flow positive b) ''number'' = None" for b
    by (simp add: flow_flags_def Let_def)
  let ?vs = "flow_array raw name"
  consider "length ?vs \<noteq> len" | "length ?vs = len" "name = ''flags''" | "length ?vs = len" "name \<noteq> ''flags''" by blast
  then show ?thesis
  proof cases
    case 1
    then show ?thesis
      unfolding Let_def members(1) field by (simp add: flow_field_members(1))
  next
    case 2
    then show ?thesis
      unfolding Let_def members(1) field
      using 2 keys [unfolded flow_flags_lossless, of "flow_bytes ?vs ! 0"] by (simp add: flow_field_members(2) number) metis
  next
    case 3
    then show ?thesis
      unfolding Let_def members(1) field by (simp add: flow_field_members(3) flow_number_value)
  qed
qed

definition sample_flow_context :: "(string, json) gomap" where
  "sample_flow_context =
     [(''primary'', JNumber ''181''), (''secondary'', JNumber ''18''), (''operation'', JNumber ''17''),
      (''view'', JString ''flow-io''), (''direction'', JString ''request'')]"

theorem flow_fields_exact_witness:
  "let out = flow_document sample_flow_context [(''pressure'', JArray [json_int 15])] None in
     output_member out ''state'' = Some (JString ''partial'') \<and>
     (\<exists>t. output_field out ''pressure'' ''number'' = Some (JNumber t) \<and> decimal_value t = 3 / 2)"
proof -
  have sel: "flow_selected sample_flow_context True False"
    by (simp add: flow_selected_def sample_flow_context_def)
  have len: "(''pressure'', 1) \<in> set (flow_lengths True False)"
    by (simp add: flow_lengths_def)
  have vs: "flow_array [(''pressure'', JArray [json_int 15])] ''pressure'' = [json_int 15]"
    by (simp add: flow_array_def as_array_def)
  have missing: "\<not> list_all (\<lambda>(name, len). length (flow_array [(''pressure'', JArray [json_int 15])] name) = len) (flow_lengths True False)"
    by (simp add: flow_lengths_def flow_array_def as_array_def)
  have val: "flow_value ''pressure'' (flow_bytes [json_int 15]) = 3 / 2"
    by (simp add: flow_value_def flow_bytes_def int64_or_zero_def as_int64_json_int byte_int64)
  show ?thesis
    using flow_fields_exact [OF sel len, of "[(''pressure'', JArray [json_int 15])]" None]
    unfolding Let_def vs val if_not_P [OF missing] by simp
qed

end
