(* ===== verification/Cat_Spectrum.thy ===== *)
theory Cat_Spectrum
  imports Go_Prelude
begin

unbundle bit_operations_syntax

text \<open>
  Spectrum blocks of the B5 25 service (\<open>ab82_b525_spectrum_blocks.go\<close>): a block holds up to 32 of 256
  signed bytes, and a join puts the blocks of one context together. Go ints that are only compared, or
  shifted within 0 to 256, are integers. The grade of every block and join is Hypothesis and left out.
\<close>

section \<open>Blocks\<close>

record spectrum_context =
  xc_primary :: byte
  xc_secondary :: byte
  xc_family :: string
  xc_variant :: string
  xc_operation :: int
  xc_direction :: string
  xc_selector :: int

record spectrum_entry =
  xe_index :: nat
  xe_raw :: byte
  xe_signed :: "8 word"

type_synonym spectrum_mask = "uint64 list"

record spectrum_block =
  xb_context :: spectrum_context
  xb_state :: string
  xb_start :: int
  xb_raw :: "byte list"
  xb_entries :: "spectrum_entry list"
  xb_mask :: spectrum_mask
  xb_incomplete :: bool
  xb_extra :: bool
  xb_remainder :: "byte list"

definition known_identity :: "spectrum_context \<Rightarrow> bool" where
  "known_identity c \<longleftrightarrow>
     xc_primary c = 0xB5 \<and> xc_secondary c = 0x25 \<and> xc_family c \<noteq> [] \<and> xc_variant c \<noteq> [] \<and>
     xc_operation c \<ge> 0 \<and> xc_operation c \<le> 255"

definition known_selector :: "int \<Rightarrow> bool" where
  "known_selector s \<longleftrightarrow> s \<ge> 10 \<and> s \<le> 17"

definition empty_mask :: spectrum_mask where
  "empty_mask = [0, 0, 0, 0]"

definition set_mask :: "nat \<Rightarrow> spectrum_mask \<Rightarrow> spectrum_mask" where
  "set_mask i m = m[i div 64 := m ! (i div 64) OR push_bit (i mod 64) 1]"

definition mask_present :: "spectrum_mask \<Rightarrow> int \<Rightarrow> bool" where
  "mask_present m i \<longleftrightarrow>
     (if i < 0 \<or> i \<ge> 256 then False
      else m ! (nat i div 64) AND push_bit (nat i mod 64) 1 \<noteq> 0)"

text \<open>The entries of the first bytes from a start, and the mask they set.\<close>

fun block_entries :: "nat \<Rightarrow> byte list \<Rightarrow> spectrum_mask \<Rightarrow> spectrum_entry list \<times> spectrum_mask" where
  "block_entries i [] m = ([], m)"
| "block_entries i (b # bs) m =
     (let (es, m') = block_entries (i + 1) bs (set_mask i m)
      in (\<lparr>xe_index = i, xe_raw = b, xe_signed = b\<rparr> # es, m'))"

definition spectrum_view :: "spectrum_context \<Rightarrow> byte list \<Rightarrow> spectrum_block" where
  "spectrum_view c raw =
     (let b = \<lparr>xb_context = c, xb_state = [], xb_start = -1, xb_raw = raw, xb_entries = [], xb_mask = empty_mask,
                xb_incomplete = False, xb_extra = False, xb_remainder = []\<rparr>
      in if \<not> known_identity c \<or> \<not> known_selector (xc_selector c) \<or>
            (xc_direction c \<noteq> ''request'' \<and> xc_direction c \<noteq> ''positive'')
         then b\<lparr>xb_state := ''raw-only''\<rparr>
         else if xc_direction c = ''positive'' then b\<lparr>xb_state := ''prefix-only''\<rparr>
         else let start = (xc_selector c - 10) * 32;
                  (es, m) = block_entries (nat start) (take 32 raw) empty_mask;
                  b' = b\<lparr>xb_start := start, xb_entries := es, xb_mask := m\<rparr>
              in if length raw < 32 then b'\<lparr>xb_state := ''short'', xb_incomplete := True\<rparr>
                 else if length raw > 32 then b'\<lparr>xb_state := ''extra'', xb_extra := True, xb_remainder := drop 32 raw\<rparr>
                 else b'\<lparr>xb_state := ''valid''\<rparr>)"

section \<open>Joins\<close>

record join_block =
  jb_selector :: int
  jb_state :: string
  jb_contributed :: bool
  jb_conflict :: bool

record spectrum_join =
  xj_state :: string
  xj_complete :: bool
  xj_blocks :: "join_block list"
  xj_entries :: "spectrum_entry list"
  xj_mask :: spectrum_mask
  xj_missing :: "int list"
  xj_conflicts :: "int list"

type_synonym join_key = "byte \<times> byte \<times> string \<times> string \<times> int \<times> string"

definition join_key_of :: "spectrum_context \<Rightarrow> join_key" where
  "join_key_of c =
     (xc_primary c, xc_secondary c, xc_family c, xc_variant c, xc_operation c, xc_direction c)"

fun join_mismatch :: "join_key option \<Rightarrow> bool \<Rightarrow> spectrum_block list \<Rightarrow> bool" where
  "join_mismatch key mismatch [] = mismatch"
| "join_mismatch key mismatch (v # vs) =
     (if xb_start v < 0 then join_mismatch key mismatch vs
      else case key of
             None \<Rightarrow> join_mismatch (Some (join_key_of (xb_context v))) mismatch vs
           | Some k \<Rightarrow> if join_key_of (xb_context v) \<noteq> k then join_mismatch key True vs else join_mismatch key mismatch vs)"

text \<open>For every selector the first view with it, and whether a later one has other bytes.\<close>

fun join_choose ::
  "spectrum_block list \<Rightarrow> nat \<Rightarrow> spectrum_block list \<Rightarrow> (int, nat) gomap \<Rightarrow> (int, bool) gomap \<Rightarrow> (int, nat) gomap \<times> (int, bool) gomap" where
  "join_choose views i [] chosen conflicted = (chosen, conflicted)"
| "join_choose views i (v # vs) chosen conflicted =
     (if xb_start v < 0 then join_choose views (i + 1) vs chosen conflicted
      else case gm_get chosen (xc_selector (xb_context v)) of
             None \<Rightarrow> join_choose views (i + 1) vs (gm_put (xc_selector (xb_context v)) i chosen) conflicted
           | Some prior \<Rightarrow>
               if xb_raw (views ! prior) \<noteq> xb_raw v
               then join_choose views (i + 1) vs chosen (gm_put (xc_selector (xb_context v)) True conflicted)
               else join_choose views (i + 1) vs chosen conflicted)"

record join_state =
  js_entries :: "spectrum_entry list"
  js_mask :: spectrum_mask
  js_conflicts :: "int list"
  js_valid :: nat

definition join_add :: "spectrum_block list \<Rightarrow> (int, nat) gomap \<Rightarrow> (int, bool) gomap \<Rightarrow> join_state \<Rightarrow> int \<Rightarrow> join_state" where
  "join_add views chosen conflicted st s =
     (if gm_get conflicted s = Some True then st\<lparr>js_conflicts := js_conflicts st @ [s]\<rparr>
      else let v = views ! the (gm_get chosen s)
           in \<lparr>js_entries = js_entries st @ xb_entries v,
               js_mask = fold (\<lambda>e m. set_mask (xe_index e) m) (xb_entries v) (js_mask st),
               js_conflicts = js_conflicts st,
               js_valid = (if xb_state v = ''valid'' then js_valid st + 1 else js_valid st)\<rparr>)"

definition join_blocks :: "spectrum_block list \<Rightarrow> (int, nat) gomap \<Rightarrow> (int, bool) gomap \<Rightarrow> join_block list" where
  "join_blocks views chosen conflicted =
     map (\<lambda>i. let v = views ! i; s = xc_selector (xb_context v); c = (gm_get conflicted s = Some True) in
       \<lparr>jb_selector = s, jb_state = xb_state v,
        jb_contributed = (xb_start v \<ge> 0 \<and> \<not> c \<and> gm_get chosen s = Some i),
        jb_conflict = (xb_start v \<ge> 0 \<and> c)\<rparr>) [0..<length views]"

definition spectrum_selectors :: "int list" where
  "spectrum_selectors = [10, 11, 12, 13, 14, 15, 16, 17]"

definition spectrum_joined :: "(spectrum_context \<times> byte list) list \<Rightarrow> spectrum_join" where
  "spectrum_joined supplied =
     (let views = map (\<lambda>(c, raw). spectrum_view c raw) supplied
      in if join_mismatch None False views then
           \<lparr>xj_state = ''context-mismatch'', xj_complete = False,
            xj_blocks = map (\<lambda>v. \<lparr>jb_selector = xc_selector (xb_context v), jb_state = xb_state v, jb_contributed = False, jb_conflict = False\<rparr>) views,
            xj_entries = [], xj_mask = empty_mask, xj_missing = spectrum_selectors, xj_conflicts = []\<rparr>
         else
           let (chosen, conflicted) = join_choose views 0 views [] [];
               st = foldl (join_add views chosen conflicted)
                      \<lparr>js_entries = [], js_mask = empty_mask, js_conflicts = [], js_valid = 0\<rparr> (sort (map fst chosen));
               all_valid = (js_conflicts st = [] \<and> js_valid st = 8)
           in \<lparr>xj_state = (if js_conflicts st \<noteq> [] then ''conflict'' else if js_valid st = 8 then ''complete''
                            else if js_entries st \<noteq> [] then ''partial'' else ''empty''),
               xj_complete = all_valid,
               xj_blocks = join_blocks views chosen conflicted,
               xj_entries = js_entries st, xj_mask = js_mask st,
               xj_missing = filter (\<lambda>s. \<not> gm_has chosen s \<or> gm_get conflicted s = Some True) spectrum_selectors,
               xj_conflicts = js_conflicts st\<rparr>)"


section \<open>Masks and entries\<close>

lemma length_set_mask [simp]: "length (set_mask i m) = length m"
  by (simp add: set_mask_def)

lemma length_fold_mask [simp]: "length (fold set_mask is m) = length m"
  by (induction "is" arbitrary: m) simp_all

lemma push_one_and: "i < 64 \<Longrightarrow> ((w :: uint64) AND 2 ^ i \<noteq> 0) = bit w i"
proof -
  assume i: "i < 64"
  have one: "bit (2 ^ i :: uint64) n \<longleftrightarrow> n = i" for n
    using i by (auto simp: bit_exp_iff)
  have "w AND 2 ^ i = (if bit w i then 2 ^ i else 0)"
    by (rule bit_eqI) (auto simp: bit_and_iff one)
  moreover have "(2 ^ i :: uint64) \<noteq> 0"
    using i by simp
  ultimately show ?thesis by simp
qed

lemma mask_present_bit:
  "mask_present m j \<longleftrightarrow> 0 \<le> j \<and> j < 256 \<and> bit (m ! (nat j div 64)) (nat j mod 64)"
  by (auto simp: mask_present_def push_one_and)

lemma mask_present_empty [simp]: "\<not> mask_present empty_mask j"
proof
  assume "mask_present empty_mask j"
  then have *: "nat j div 64 < 4" "bit (empty_mask ! (nat j div 64)) (nat j mod 64)"
    by (auto simp: mask_present_bit)
  have "k < 4 \<Longrightarrow> empty_mask ! k = 0" for k
    by (auto simp: empty_mask_def nth_Cons split: nat.splits)
  with * show False by simp
qed

lemma set_mask_present:
  assumes "length m = 4" and "i < 256"
  shows "mask_present (set_mask i m) j \<longleftrightarrow> j = int i \<or> mask_present m j"
proof (cases "0 \<le> j \<and> j < 256")
  case True
  define k where "k = nat j"
  have k: "j = int k" "k < 256" using True by (auto simp: k_def)
  have b: "i div 64 < 4" "k div 64 < 4" "i mod 64 < 64" "k mod 64 < 64" using assms(2) k by auto
  have same: "i div 64 = k div 64 \<and> i mod 64 = k mod 64 \<longleftrightarrow> i = k"
    by (metis div_mod_decomp)
  show ?thesis
    using assms b same
    by (auto simp: mask_present_bit set_mask_def k(1) k(2) nth_list_update bit_simps split: if_splits)
next
  case False
  then show ?thesis using assms(2) by (auto simp: mask_present_bit)
qed

lemma fold_mask_present:
  "length m = 4 \<Longrightarrow> \<forall>i \<in> set is. i < 256 \<Longrightarrow>
     mask_present (fold set_mask is m) j \<longleftrightarrow> (\<exists>i \<in> set is. j = int i) \<or> mask_present m j"
  by (induction "is" arbitrary: m) (auto simp: set_mask_present)

lemma fold_entry_mask: "fold (\<lambda>e. set_mask (xe_index e)) es m = fold set_mask (map xe_index es) m"
  by (simp add: fold_map comp_def)

definition entries_from :: "nat \<Rightarrow> byte list \<Rightarrow> spectrum_entry list" where
  "entries_from i bs = map (\<lambda>k. \<lparr>xe_index = i + k, xe_raw = bs ! k, xe_signed = bs ! k\<rparr>) [0..<length bs]"

lemma entries_from_Cons:
  "entries_from i (b # bs) = \<lparr>xe_index = i, xe_raw = b, xe_signed = b\<rparr> # entries_from (i + 1) bs"
  by (simp add: entries_from_def upt_conv_Cons map_Suc_upt [symmetric] del: upt_Suc)

lemma entries_from_indices: "map xe_index (entries_from i bs) = [i..<i + length bs]"
proof (induction bs arbitrary: i)
  case (Cons b bs)
  have "[i..<i + length (b # bs)] = i # [i + 1..<i + 1 + length bs]"
    by (simp add: upt_conv_Cons del: upt_Suc)
  then show ?case by (simp add: Cons.IH entries_from_Cons del: upt_Suc)
qed (simp add: entries_from_def)

lemma block_entries_exact:
  "block_entries i bs m = (entries_from i bs, fold set_mask [i..<i + length bs] m)"
proof (induction bs arbitrary: i m)
  case Nil
  then show ?case by (simp add: entries_from_def)
next
  case (Cons b bs)
  have "[i..<i + length (b # bs)] = i # [i + 1..<i + 1 + length bs]"
    by (simp add: upt_conv_Cons del: upt_Suc)
  then show ?case by (simp add: Cons.IH entries_from_Cons del: upt_Suc)
qed


section \<open>What a view and a join hold\<close>

definition usable_context :: "spectrum_context \<Rightarrow> bool" where
  "usable_context c \<longleftrightarrow> known_identity c \<and> known_selector (xc_selector c) \<and> xc_direction c = ''request''"

definition selector_entries :: "int \<Rightarrow> byte list \<Rightarrow> spectrum_entry list" where
  "selector_entries s raw = entries_from (nat ((s - 10) * 32)) (take 32 raw)"

lemma view_kept [simp]:
  "xb_context (spectrum_view c raw) = c" "xb_raw (spectrum_view c raw) = raw"
  by (simp_all add: spectrum_view_def Let_def split_beta)

lemma view_usable: "xb_start (spectrum_view c raw) < 0 \<longleftrightarrow> \<not> usable_context c"
  by (auto simp: spectrum_view_def Let_def split_beta usable_context_def known_selector_def)

lemma view_entries:
  "usable_context c \<Longrightarrow> xb_entries (spectrum_view c raw) = selector_entries (xc_selector c) raw"
  by (simp add: spectrum_view_def Let_def usable_context_def selector_entries_def block_entries_exact)

lemma view_valid: "usable_context c \<Longrightarrow> xb_state (spectrum_view c raw) = ''valid'' \<longleftrightarrow> length raw = 32"
  by (simp add: spectrum_view_def Let_def split_beta usable_context_def)

type_synonym spectrum_supply = "(spectrum_context \<times> byte list) list"

text \<open>The bytes supplied for a selector, and the ones all its blocks agree on.\<close>

definition selector_samples :: "spectrum_supply \<Rightarrow> int \<Rightarrow> byte list list" where
  "selector_samples supplied s =
     remdups (map snd (filter (\<lambda>(c, raw). usable_context c \<and> xc_selector c = s) supplied))"

definition agreed_bytes :: "spectrum_supply \<Rightarrow> int \<Rightarrow> byte list option" where
  "agreed_bytes supplied s = (case selector_samples supplied s of [raw] \<Rightarrow> Some raw | _ \<Rightarrow> None)"

definition contexts_differ :: "spectrum_supply \<Rightarrow> bool" where
  "contexts_differ supplied \<longleftrightarrow>
     length (remdups (map (join_key_of \<circ> fst) (filter (usable_context \<circ> fst) supplied))) > 1"

definition spectrum_views :: "spectrum_supply \<Rightarrow> spectrum_block list" where
  "spectrum_views supplied = map (\<lambda>(c, raw). spectrum_view c raw) supplied"

lemma remdups_cases:
  "remdups xs = [] \<and> set xs = {} \<or> (\<exists>x. remdups xs = [x] \<and> set xs = {x}) \<or>
   length (remdups xs) > 1 \<and> (\<exists>x \<in> set xs. \<exists>y \<in> set xs. x \<noteq> y)"
proof (cases "remdups xs" rule: remdups_adj.cases)
  case 1 then show ?thesis by simp
next
  case (2 x) then show ?thesis by (metis list.set(1) list.simps(15) set_remdups)
next
  case (3 x y zs)
  then have "x \<noteq> y" using distinct_remdups [of xs] by auto
  moreover have "x \<in> set xs" "y \<in> set xs" using 3 set_remdups [of xs] by auto
  ultimately show ?thesis using 3 by auto
qed

lemma one_value_iff: "length (remdups xs) > 1 \<longleftrightarrow> (\<exists>x \<in> set xs. \<exists>y \<in> set xs. x \<noteq> y)"
  using remdups_cases [of xs] by auto

lemma only_value_iff:
  "(case remdups xs of [x] \<Rightarrow> Some x | _ \<Rightarrow> None) = Some r \<longleftrightarrow> set (remdups xs) = {r}"
proof (cases "remdups xs" rule: remdups_adj.cases)
  case 1
  then show ?thesis by simp
next
  case (2 x)
  then show ?thesis by (auto simp del: set_remdups remdups_eq_nil_iff)
next
  case (3 x y zs)
  have "x \<noteq> y" using distinct_remdups [of xs] unfolding 3 by simp
  then show ?thesis unfolding 3 by auto
qed

lemma agreed_Some: "agreed_bytes supplied s = Some raw \<longleftrightarrow> set (selector_samples supplied s) = {raw}"
  unfolding agreed_bytes_def selector_samples_def by (rule only_value_iff)

lemma agreed_None:
  "agreed_bytes supplied s = None \<longleftrightarrow>
     selector_samples supplied s = [] \<or> length (selector_samples supplied s) > 1"
  unfolding agreed_bytes_def by (cases "selector_samples supplied s" rule: remdups_adj.cases) auto

lemma in_samples:
  "raw \<in> set (selector_samples supplied s) \<longleftrightarrow>
     (\<exists>v \<in> set (spectrum_views supplied).
        0 \<le> xb_start v \<and> xc_selector (xb_context v) = s \<and> xb_raw v = raw)"
  using view_usable
  by (force simp: selector_samples_def spectrum_views_def linorder_not_less [symmetric])

lemma many_samples:
  "length (selector_samples supplied s) > 1 \<longleftrightarrow>
     (\<exists>r \<in> set (selector_samples supplied s). \<exists>r' \<in> set (selector_samples supplied s). r \<noteq> r')"
  unfolding selector_samples_def set_remdups by (rule one_value_iff)

definition usable_keys :: "spectrum_block list \<Rightarrow> join_key list" where
  "usable_keys vs = map (join_key_of \<circ> xb_context) (filter (\<lambda>v. \<not> xb_start v < 0) vs)"

lemma mismatch_Some: "join_mismatch (Some k) b vs \<longleftrightarrow> b \<or> (\<exists>k' \<in> set (usable_keys vs). k' \<noteq> k)"
  by (induction vs arbitrary: b) (auto simp: usable_keys_def)

lemma mismatch_None:
  "join_mismatch None False vs \<longleftrightarrow> (\<exists>x \<in> set (usable_keys vs). \<exists>y \<in> set (usable_keys vs). x \<noteq> y)"
proof (induction vs)
  case (Cons v vs)
  show ?case
  proof (cases "xb_start v < 0")
    case True
    then show ?thesis using Cons.IH by (simp add: usable_keys_def)
  next
    case False
    then have "usable_keys (v # vs) = join_key_of (xb_context v) # usable_keys vs"
      by (simp add: usable_keys_def)
    moreover have "join_mismatch None False (v # vs) \<longleftrightarrow>
        (\<exists>k' \<in> set (usable_keys vs). k' \<noteq> join_key_of (xb_context v))"
      using False by (simp add: mismatch_Some)
    ultimately show ?thesis by (metis list.set_intros set_ConsD)
  qed
qed (simp add: usable_keys_def)

lemma usable_keys_views:
  "usable_keys (spectrum_views supplied) = map (join_key_of \<circ> fst) (filter (usable_context \<circ> fst) supplied)"
  by (induction supplied) (simp_all add: usable_keys_def spectrum_views_def view_usable split_beta)

lemma mismatch_exact: "join_mismatch None False (spectrum_views supplied) \<longleftrightarrow> contexts_differ supplied"
  unfolding contexts_differ_def one_value_iff mismatch_None usable_keys_views by (rule refl)

section \<open>The chosen blocks\<close>

text \<open>
  After the views \<open>vs\<close> are read: a selector is chosen when a usable view has it, it names such a view, and
  it is in conflict when another one has other bytes.
\<close>

definition chosen_for :: "spectrum_block list \<Rightarrow> (int, nat) gomap \<Rightarrow> int \<Rightarrow> bool" where
  "chosen_for vs ch s \<longleftrightarrow>
     (case gm_get ch s of
        None \<Rightarrow> \<forall>v \<in> set vs. 0 \<le> xb_start v \<longrightarrow> xc_selector (xb_context v) \<noteq> s
      | Some j \<Rightarrow> j < length vs \<and> 0 \<le> xb_start (vs ! j) \<and> xc_selector (xb_context (vs ! j)) = s)"

definition disputed_for ::
  "spectrum_block list \<Rightarrow> (int, nat) gomap \<Rightarrow> (int, bool) gomap \<Rightarrow> int \<Rightarrow> bool" where
  "disputed_for vs ch cf s \<longleftrightarrow>
     (gm_get cf s = Some True \<longleftrightarrow>
        (\<exists>j. gm_get ch s = Some j \<and>
           (\<exists>v \<in> set vs. 0 \<le> xb_start v \<and> xc_selector (xb_context v) = s \<and> xb_raw v \<noteq> xb_raw (vs ! j))))"

definition join_inv :: "spectrum_block list \<Rightarrow> (int, nat) gomap \<Rightarrow> (int, bool) gomap \<Rightarrow> bool" where
  "join_inv vs ch cf \<longleftrightarrow> gm_ok ch \<and> (\<forall>s. chosen_for vs ch s \<and> disputed_for vs ch cf s)"

lemma join_invD:
  assumes "join_inv vs ch cf"
  shows "gm_ok ch" and "chosen_for vs ch s" and "disputed_for vs ch cf s"
  using assms by (simp_all add: join_inv_def)

lemma chosen_below: "join_inv vs ch cf \<Longrightarrow> gm_get ch s = Some j \<Longrightarrow> j < length vs"
  using join_invD(2) [of vs ch cf s] by (simp add: chosen_for_def)

lemma chosen_step:
  assumes "chosen_for vs ch s" and "xb_start v < 0 \<or> xc_selector (xb_context v) \<noteq> s \<or> gm_get ch s \<noteq> None"
  shows "chosen_for (vs @ [v]) ch s"
proof (cases "gm_get ch s")
  case None
  then show ?thesis using assms by (auto simp: chosen_for_def)
next
  case (Some j)
  then show ?thesis using assms by (simp add: chosen_for_def nth_append)
qed

lemma disputed_step:
  assumes "join_inv vs ch cf" and "xb_start v < 0 \<or> xc_selector (xb_context v) \<noteq> s"
  shows "disputed_for (vs @ [v]) ch cf s"
proof (cases "gm_get ch s")
  case None
  then show ?thesis using join_invD(3) [OF assms(1), of s] by (simp add: disputed_for_def)
next
  case (Some j)
  then have "(vs @ [v]) ! j = vs ! j"
    using chosen_below [OF assms(1)] by (simp add: nth_append)
  then show ?thesis using join_invD(3) [OF assms(1), of s] Some assms(2)
    by (auto simp: disputed_for_def)
qed

lemma join_inv_skip:
  assumes "join_inv vs ch cf" and "xb_start v < 0"
  shows "join_inv (vs @ [v]) ch cf"
  unfolding join_inv_def
  using join_invD(1,2) [OF assms(1)] chosen_step disputed_step [OF assms(1)] assms(2) by blast

lemma join_inv_first:
  assumes "join_inv vs ch cf" and "0 \<le> xb_start v" and "gm_get ch (xc_selector (xb_context v)) = None"
  shows "join_inv (vs @ [v]) (gm_put (xc_selector (xb_context v)) (length vs) ch) cf"
    (is "join_inv _ (gm_put ?s _ _) _")
proof -
  have "chosen_for (vs @ [v]) (gm_put ?s (length vs) ch) s" for s
    using chosen_step [OF join_invD(2) [OF assms(1)], of v s] assms(2)
    by (cases "s = ?s") (simp_all add: chosen_for_def)
  moreover have "disputed_for (vs @ [v]) (gm_put ?s (length vs) ch) cf s" for s
  proof (cases "s = ?s")
    case True
    have "\<forall>w \<in> set vs. 0 \<le> xb_start w \<longrightarrow> xc_selector (xb_context w) \<noteq> ?s"
      using join_invD(2) [OF assms(1), of ?s] assms(3) by (simp add: chosen_for_def)
    moreover have "gm_get cf ?s \<noteq> Some True"
      using join_invD(3) [OF assms(1), of ?s] assms(3) by (simp add: disputed_for_def)
    ultimately show ?thesis using True by (auto simp: disputed_for_def)
  next
    case False
    then show ?thesis using disputed_step [OF assms(1), of v s] by (simp add: disputed_for_def)
  qed
  ultimately show ?thesis using join_invD(1) [OF assms(1)] by (simp add: join_inv_def)
qed

lemma join_inv_later:
  assumes "join_inv vs ch cf" and "0 \<le> xb_start v" and "gm_get ch (xc_selector (xb_context v)) = Some j"
  shows "join_inv (vs @ [v]) ch
           (if xb_raw (vs ! j) \<noteq> xb_raw v then gm_put (xc_selector (xb_context v)) True cf else cf)"
    (is "join_inv _ _ ?cf")
proof -
  have j: "(vs @ [v]) ! j = vs ! j" using chosen_below [OF assms(1,3)] by (simp add: nth_append)
  have "chosen_for (vs @ [v]) ch s" for s
    using chosen_step [OF join_invD(2) [OF assms(1)], of v s] assms(3)
    by (cases "s = xc_selector (xb_context v)") simp_all
  moreover have "disputed_for (vs @ [v]) ch ?cf s" for s
  proof (cases "s = xc_selector (xb_context v)")
    case True
    show ?thesis using join_invD(3) [OF assms(1), of s] assms(2,3) j True
      by (auto simp: disputed_for_def)
  next
    case False
    then show ?thesis using disputed_step [OF assms(1), of v s] by (simp add: disputed_for_def)
  qed
  ultimately show ?thesis using join_invD(1) [OF assms(1)] by (simp add: join_inv_def)
qed

lemma choose_inv:
  "join_inv pre ch cf \<Longrightarrow>
     case join_choose (pre @ vs) (length pre) vs ch cf of (ch', cf') \<Rightarrow> join_inv (pre @ vs) ch' cf'"
proof (induction vs arbitrary: pre ch cf)
  case (Cons v vs)
  note IH = Cons.IH [of "pre @ [v]", simplified]
  show ?case
  proof (cases "xb_start v < 0")
    case True
    then show ?thesis using IH [OF join_inv_skip [OF Cons.prems True]] by simp
  next
    case False
    then have u: "0 \<le> xb_start v" by simp
    show ?thesis
    proof (cases "gm_get ch (xc_selector (xb_context v))")
      case None
      then show ?thesis using IH [OF join_inv_first [OF Cons.prems u None]] False by simp
    next
      case (Some j)
      have "j < length pre"
        by (rule chosen_below [OF Cons.prems Some])
      then have "(pre @ v # vs) ! j = pre ! j" by (simp add: nth_append)
      then have "join_choose (pre @ v # vs) (length pre) (v # vs) ch cf =
          join_choose (pre @ v # vs) (Suc (length pre)) vs ch
            (if xb_raw (pre ! j) \<noteq> xb_raw v then gm_put (xc_selector (xb_context v)) True cf else cf)"
        using False Some by (simp del: append_Cons split: if_split)
      then show ?thesis using IH [OF join_inv_later [OF Cons.prems u Some]] by (simp only:)
    qed
  qed
qed simp

lemma join_inv_empty: "join_inv [] [] []"
  by (simp add: join_inv_def chosen_for_def disputed_for_def)


text \<open>What one selector contributes, by the bytes supplied for it.\<close>

definition agreed_entries :: "spectrum_supply \<Rightarrow> int \<Rightarrow> spectrum_entry list" where
  "agreed_entries supplied s =
     (case agreed_bytes supplied s of None \<Rightarrow> [] | Some raw \<Rightarrow> selector_entries s raw)"

definition disputed_bytes :: "spectrum_supply \<Rightarrow> int \<Rightarrow> bool" where
  "disputed_bytes supplied s \<longleftrightarrow> length (selector_samples supplied s) > 1"

definition agreed_full :: "spectrum_supply \<Rightarrow> int \<Rightarrow> bool" where
  "agreed_full supplied s \<longleftrightarrow>
     (case agreed_bytes supplied s of None \<Rightarrow> False | Some raw \<Rightarrow> length raw = 32)"

lemma chosen_view:
  assumes "join_inv (spectrum_views supplied) ch cf" and "gm_get ch s = Some j"
  obtains c raw where "spectrum_views supplied ! j = spectrum_view c raw"
    and "usable_context c" and "xc_selector c = s" and "raw \<in> set (selector_samples supplied s)"
proof -
  let ?v = "spectrum_views supplied ! j"
  have j: "j < length (spectrum_views supplied)" by (rule chosen_below [OF assms])
  have v: "0 \<le> xb_start ?v" "xc_selector (xb_context ?v) = s"
    using join_invD(2) [OF assms(1), of s] assms(2) by (simp_all add: chosen_for_def)
  obtain c raw where e: "?v = spectrum_view c raw"
    using j by (auto simp: spectrum_views_def split_beta)
  have "raw \<in> set (selector_samples supplied s)"
    unfolding in_samples using v e nth_mem [OF j] by (metis view_kept(2))
  moreover have "usable_context c" using view_usable [of c raw] v(1) e by simp
  ultimately show ?thesis using that e v(2) by simp
qed

lemma unchosen_empty:
  assumes "join_inv (spectrum_views supplied) ch cf" and "gm_get ch s = None"
  shows "selector_samples supplied s = []"
proof -
  have "\<forall>v \<in> set (spectrum_views supplied). 0 \<le> xb_start v \<longrightarrow> xc_selector (xb_context v) \<noteq> s"
    using join_invD(2) [OF assms(1), of s] assms(2) by (simp add: chosen_for_def)
  then have "raw \<notin> set (selector_samples supplied s)" for raw
    using in_samples [of raw supplied s] by blast
  then show ?thesis by (metis list.set_intros(1) neq_Nil_conv)
qed

lemma chosen_conflict:
  assumes "join_inv (spectrum_views supplied) ch cf" 
  shows "gm_get cf s = Some True \<longleftrightarrow> disputed_bytes supplied s"
proof (cases "gm_get ch s")
  case None
  then show ?thesis
    using join_invD(3) [OF assms, of s] unchosen_empty [OF assms None]
    by (simp add: disputed_for_def disputed_bytes_def)
next
  case (Some j)
  obtain c raw where v: "spectrum_views supplied ! j = spectrum_view c raw"
      "raw \<in> set (selector_samples supplied s)"
    using chosen_view [OF assms Some] by metis
  have "gm_get cf s = Some True \<longleftrightarrow> (\<exists>r \<in> set (selector_samples supplied s). r \<noteq> raw)"
    using join_invD(3) [OF assms, of s] Some v(1)
    unfolding disputed_for_def Bex_def in_samples by auto
  then show ?thesis
    unfolding disputed_bytes_def many_samples using v(2) by metis
qed

lemma chosen_agreed:
  assumes "join_inv (spectrum_views supplied) ch cf" and "gm_get ch s = Some j"
    and "\<not> disputed_bytes supplied s"
  shows "xb_entries (spectrum_views supplied ! j) = agreed_entries supplied s"
    and "xb_state (spectrum_views supplied ! j) = ''valid'' \<longleftrightarrow> agreed_full supplied s"
    and "agreed_bytes supplied s \<noteq> None"
proof -
  obtain c raw where v: "spectrum_views supplied ! j = spectrum_view c raw" "usable_context c"
      "xc_selector c = s" "raw \<in> set (selector_samples supplied s)"
    by (rule chosen_view [OF assms(1,2)])
  have "set (selector_samples supplied s) = {raw}"
    using v(4) assms(3) unfolding disputed_bytes_def many_samples by auto
  then have a: "agreed_bytes supplied s = Some raw" by (simp only: agreed_Some)
  show "xb_entries (spectrum_views supplied ! j) = agreed_entries supplied s"
    using v a by (simp add: agreed_entries_def view_entries)
  show "xb_state (spectrum_views supplied ! j) = ''valid'' \<longleftrightarrow> agreed_full supplied s"
    using v a by (simp add: agreed_full_def view_valid)
  show "agreed_bytes supplied s \<noteq> None" using a by simp
qed


section \<open>Joining\<close>

lemma join_folded:
  "foldl (join_add views ch cf) st ss =
     (let es = concat (map (\<lambda>s. xb_entries (views ! the (gm_get ch s))) (filter (\<lambda>s. gm_get cf s \<noteq> Some True) ss))
      in \<lparr>js_entries = js_entries st @ es,
          js_mask = fold set_mask (map xe_index es) (js_mask st),
          js_conflicts = js_conflicts st @ filter (\<lambda>s. gm_get cf s = Some True) ss,
          js_valid = js_valid st + length (filter (\<lambda>s. xb_state (views ! the (gm_get ch s)) = ''valid'')
            (filter (\<lambda>s. gm_get cf s \<noteq> Some True) ss))\<rparr>)"
proof (induction ss arbitrary: st)
  case (Cons s ss)
  show ?case
    unfolding foldl_Cons Cons.IH
    by (cases "gm_get cf s = Some True")
       (simp_all add: join_add_def Let_def fold_entry_mask del: not_Some_eq)
qed simp

lemma selectors_of_known: "known_selector s \<longleftrightarrow> s \<in> set spectrum_selectors"
  by (auto simp: known_selector_def spectrum_selectors_def)

lemma chosen_selectors:
  assumes "join_inv (spectrum_views supplied) ch cf"
  shows "sort (map fst ch) = filter (gm_has ch) spectrum_selectors"
proof (rule sorted_distinct_set_unique)
  have d: "distinct (map fst ch)" using join_invD(1) [OF assms] by (simp add: gm_ok_def)
  show "sorted (sort (map fst ch))" "distinct (sort (map fst ch))" using d by simp_all
  show "sorted (filter (gm_has ch) spectrum_selectors)" "distinct (filter (gm_has ch) spectrum_selectors)"
    by (simp_all add: spectrum_selectors_def)
  have "gm_has ch s \<Longrightarrow> s \<in> set spectrum_selectors" for s
    using chosen_view [OF assms, of s]
    unfolding gm_has_def selectors_of_known [symmetric] usable_context_def by auto
  moreover have "s \<in> fst ` set ch \<longleftrightarrow> gm_has ch s" for s
    using gm_keys_iff [of s ch] by (auto simp: gm_keys_def gm_has_def)
  ultimately show "set (sort (map fst ch)) = set (filter (gm_has ch) spectrum_selectors)"
    by auto
qed

lemma concat_filter_empty: "(\<And>x. x \<in> set xs \<Longrightarrow> \<not> P x \<Longrightarrow> f x = []) \<Longrightarrow> concat (map f (filter P xs)) = concat (map f xs)"
  by (induction xs) auto

lemma length_filter_all: "length (filter P xs) = length xs \<longleftrightarrow> list_all P xs"
proof (induction xs)
  case (Cons x xs)
  have "length (filter P xs) \<noteq> Suc (length xs)" using length_filter_le [of P xs] by linarith
  with Cons show ?case by auto
qed simp

lemma agreed_entries_below:
  "s \<in> set spectrum_selectors \<Longrightarrow> e \<in> set (agreed_entries supplied s) \<Longrightarrow> xe_index e < 256"
proof -
  assume s: "s \<in> set spectrum_selectors" and e: "e \<in> set (agreed_entries supplied s)"
  obtain raw where "e \<in> set (selector_entries s raw)"
    using e by (auto simp: agreed_entries_def split: option.splits)
  then have "xe_index e < nat ((s - 10) * 32) + 32"
    by (auto simp: selector_entries_def entries_from_def)
  moreover have "nat ((s - 10) * 32) \<le> 224" using s by (auto simp: spectrum_selectors_def)
  ultimately show "xe_index e < 256" by simp
qed


lemma joined_state:
  assumes "join_inv (spectrum_views supplied) ch cf"
  shows "foldl (join_add (spectrum_views supplied) ch cf)
           \<lparr>js_entries = [], js_mask = empty_mask, js_conflicts = [], js_valid = 0\<rparr> (sort (map fst ch)) =
         (let es = concat (map (agreed_entries supplied) spectrum_selectors)
          in \<lparr>js_entries = es, js_mask = fold set_mask (map xe_index es) empty_mask,
              js_conflicts = filter (disputed_bytes supplied) spectrum_selectors,
              js_valid = length (filter (agreed_full supplied) spectrum_selectors)\<rparr>)"
proof -
  let ?V = "spectrum_views supplied"
  let ?chosen = "\<lambda>s. gm_has ch s \<and> \<not> disputed_bytes supplied s"
  have cf: "gm_get cf s = Some True \<longleftrightarrow> disputed_bytes supplied s" for s
    by (rule chosen_conflict [OF assms])
  have view: "gm_has ch s \<and> \<not> disputed_bytes supplied s \<Longrightarrow>
      xb_entries (?V ! the (gm_get ch s)) = agreed_entries supplied s \<and>
      (xb_state (?V ! the (gm_get ch s)) = ''valid'' \<longleftrightarrow> agreed_full supplied s)" for s
    using chosen_agreed [OF assms] by (auto simp: gm_has_def)
  have absent: "\<not> ?chosen s \<Longrightarrow> agreed_bytes supplied s = None" for s
    using unchosen_empty [OF assms, of s] 
    by (auto simp: gm_has_def agreed_None disputed_bytes_def)
  have conflicts: "filter (disputed_bytes supplied) (filter (gm_has ch) spectrum_selectors) =
      filter (disputed_bytes supplied) spectrum_selectors"
    unfolding filter_filter
    by (rule filter_cong [OF refl])
       (metis unchosen_empty [OF assms] disputed_bytes_def gm_has_def list.size(3) not_less_zero)
  have both: "filter (\<lambda>s. \<not> disputed_bytes supplied s) (filter (gm_has ch) spectrum_selectors) =
      filter ?chosen spectrum_selectors"
    by (simp add: conj_commute)
  have entries: "map (\<lambda>s. xb_entries (?V ! the (gm_get ch s))) (filter ?chosen spectrum_selectors) =
      map (agreed_entries supplied) (filter ?chosen spectrum_selectors)"
    by (rule map_cong [OF refl]) (use view in simp)
  have agreed: "concat (map (agreed_entries supplied) (filter ?chosen spectrum_selectors)) =
      concat (map (agreed_entries supplied) spectrum_selectors)"
    by (rule concat_filter_empty) (simp add: agreed_entries_def absent)
  have full: "filter (\<lambda>s. xb_state (?V ! the (gm_get ch s)) = ''valid'') (filter ?chosen spectrum_selectors) =
      filter (agreed_full supplied) spectrum_selectors"
    unfolding filter_filter
  proof (rule filter_cong [OF refl])
    fix s
    show "(?chosen s \<and> xb_state (?V ! the (gm_get ch s)) = ''valid'') = agreed_full supplied s"
      using view [of s] absent [of s] by (cases "?chosen s") (simp_all add: agreed_full_def)
  qed
  show ?thesis
    unfolding join_folded chosen_selectors [OF assms] cf conflicts both entries agreed full Let_def
    by simp
qed

text \<open>The join the supplied bytes call for, selector by selector.\<close>

definition spectrum_reference :: "spectrum_supply \<Rightarrow> spectrum_join \<Rightarrow> bool" where
  "spectrum_reference supplied j \<longleftrightarrow>
     xj_entries j = concat (map (agreed_entries supplied) spectrum_selectors) \<and>
     xj_conflicts j = filter (disputed_bytes supplied) spectrum_selectors \<and>
     xj_missing j = filter (\<lambda>s. agreed_bytes supplied s = None) spectrum_selectors \<and>
     xj_complete j = list_all (agreed_full supplied) spectrum_selectors \<and>
     (xj_state j = ''complete'') = xj_complete j \<and>
     (xj_state j = ''conflict'') = list_ex (disputed_bytes supplied) spectrum_selectors"

lemma full_not_disputed: "agreed_full supplied s \<Longrightarrow> \<not> disputed_bytes supplied s"
  by (auto simp: agreed_full_def agreed_bytes_def disputed_bytes_def split: list.splits)

lemma joined_agrees:
  assumes "\<not> contexts_differ supplied"
  shows "spectrum_reference supplied (spectrum_joined supplied)"
    and "xj_mask (spectrum_joined supplied) =
           fold set_mask (map xe_index (xj_entries (spectrum_joined supplied))) empty_mask"
proof -
  define ch cf where "ch = fst (join_choose (spectrum_views supplied) 0 (spectrum_views supplied) [] [])"
    and "cf = snd (join_choose (spectrum_views supplied) 0 (spectrum_views supplied) [] [])"
  have c: "join_choose (spectrum_views supplied) 0 (spectrum_views supplied) [] [] = (ch, cf)"
    by (simp add: ch_def cf_def)
  have i: "join_inv (spectrum_views supplied) ch cf"
    using choose_inv [OF join_inv_empty, of "spectrum_views supplied"] by (simp add: c)
  let ?es = "concat (map (agreed_entries supplied) spectrum_selectors)"
  let ?conf = "filter (disputed_bytes supplied) spectrum_selectors"
  let ?n = "length (filter (agreed_full supplied) spectrum_selectors)"
  have missing: "(gm_has ch s \<longrightarrow> gm_get cf s = Some True) \<longleftrightarrow> agreed_bytes supplied s = None" for s
    using chosen_agreed(3) [OF i, of s] unchosen_empty [OF i, of s]
    by (cases "gm_get ch s") (auto simp: chosen_conflict [OF i] gm_has_def agreed_None disputed_bytes_def)
  have j: "spectrum_joined supplied =
      \<lparr>xj_state = (if ?conf \<noteq> [] then ''conflict'' else if ?n = 8 then ''complete''
                   else if ?es \<noteq> [] then ''partial'' else ''empty''),
       xj_complete = (?conf = [] \<and> ?n = 8),
       xj_blocks = join_blocks (spectrum_views supplied) ch cf,
       xj_entries = ?es, xj_mask = fold set_mask (map xe_index ?es) empty_mask,
       xj_missing = filter (\<lambda>s. agreed_bytes supplied s = None) spectrum_selectors,
       xj_conflicts = ?conf\<rparr>"
    using assms
    unfolding spectrum_joined_def spectrum_views_def [symmetric] mismatch_exact [symmetric]
    by (simp add: c joined_state [OF i] missing Let_def)
  have all: "?n = 8 \<longleftrightarrow> list_all (agreed_full supplied) spectrum_selectors"
    using length_filter_all [of "agreed_full supplied" spectrum_selectors]
    by (simp add: spectrum_selectors_def)
  have quiet: "?n = 8 \<Longrightarrow> ?conf = []"
    unfolding all filter_empty_conv list_all_iff using full_not_disputed by blast
  have some: "?conf = [] \<longleftrightarrow> \<not> list_ex (disputed_bytes supplied) spectrum_selectors"
    by (auto simp: filter_empty_conv list_ex_iff)
  show "spectrum_reference supplied (spectrum_joined supplied)"
    unfolding spectrum_reference_def j
    using quiet by (auto simp: all some)
  show "xj_mask (spectrum_joined supplied) =
      fold set_mask (map xe_index (xj_entries (spectrum_joined supplied))) empty_mask"
    unfolding j by simp
qed


text \<open>
  (C39) The spectrum join is the one its bytes call for. Blocks of two contexts join to nothing. Otherwise a
  selector contributes its indexed signed bytes exactly when all the usable blocks with it carry the same
  bytes, a selector with two different ones is a conflict, the join is complete when each of the eight
  selectors has agreed on 32 bytes, and an index is present exactly when an entry has it.
\<close>

lemma spectrum_join_exact:
  "let j = spectrum_joined supplied
   in (if contexts_differ supplied
       then xj_state j = ''context-mismatch'' \<and> xj_entries j = [] \<and> xj_missing j = spectrum_selectors \<and>
            \<not> xj_complete j
       else spectrum_reference supplied j) \<and>
      {i. mask_present (xj_mask j) i} = (\<lambda>e. int (xe_index e)) ` set (xj_entries j)"
proof (cases "contexts_differ supplied")
  case True
  then show ?thesis
    unfolding spectrum_joined_def spectrum_views_def [symmetric] mismatch_exact [symmetric] by simp
next
  case False
  note j = joined_agrees [OF False]
  let ?es = "xj_entries (spectrum_joined supplied)"
  have "\<forall>i \<in> set (map xe_index ?es). i < 256"
    using j(1) agreed_entries_below unfolding spectrum_reference_def by fastforce
  then have "mask_present (xj_mask (spectrum_joined supplied)) i \<longleftrightarrow>
      (\<exists>k \<in> set (map xe_index ?es). i = int k)" for i
    unfolding j(2) by (simp add: fold_mask_present empty_mask_def [THEN arg_cong, of length])
  then show ?thesis using False j(1) by (auto simp: Let_def)
qed

text \<open>So the order of the blocks, and repeated blocks, do not change what is joined.\<close>

lemma samples_of_set:
  "set supplied = set supplied' \<Longrightarrow> set (selector_samples supplied s) = set (selector_samples supplied' s)"
  by (simp add: selector_samples_def)

lemma spectrum_join_order:
  assumes "set supplied = set supplied'"
  shows "xj_entries (spectrum_joined supplied) = xj_entries (spectrum_joined supplied')"
    and "xj_complete (spectrum_joined supplied) = xj_complete (spectrum_joined supplied')"
    and "xj_missing (spectrum_joined supplied) = xj_missing (spectrum_joined supplied')"
proof -
  have d: "contexts_differ supplied = contexts_differ supplied'"
    unfolding contexts_differ_def one_value_iff by (simp add: assms)
  have a: "agreed_bytes supplied s = agreed_bytes supplied' s" for s
    using agreed_Some [of supplied s] agreed_Some [of supplied' s] samples_of_set [OF assms, of s]
    by (metis option.exhaust)
  have e: "agreed_entries supplied = agreed_entries supplied'" "agreed_full supplied = agreed_full supplied'"
    by (simp_all add: fun_eq_iff agreed_entries_def agreed_full_def a)
  have m: "contexts_differ supplied \<Longrightarrow> xj_entries (spectrum_joined supplied) = [] \<and>
      \<not> xj_complete (spectrum_joined supplied) \<and> xj_missing (spectrum_joined supplied) = spectrum_selectors"
    for supplied
    unfolding spectrum_joined_def spectrum_views_def [symmetric] mismatch_exact [symmetric] by simp
  have "xj_entries (spectrum_joined supplied) = xj_entries (spectrum_joined supplied') \<and>
      xj_complete (spectrum_joined supplied) = xj_complete (spectrum_joined supplied') \<and>
      xj_missing (spectrum_joined supplied) = xj_missing (spectrum_joined supplied')"
    using m [of supplied] m [of supplied'] joined_agrees(1) [of supplied] joined_agrees(1) [of supplied']
    unfolding spectrum_reference_def d a e by (cases "contexts_differ supplied'") simp_all
  then show "xj_entries (spectrum_joined supplied) = xj_entries (spectrum_joined supplied')"
    and "xj_complete (spectrum_joined supplied) = xj_complete (spectrum_joined supplied')"
    and "xj_missing (spectrum_joined supplied) = xj_missing (spectrum_joined supplied')"
    by simp_all
qed

end
