(* ===== verification/Cat_Actuator.thy ===== *)
theory Cat_Actuator
  imports Cat_Flow Go_Format
begin

text \<open>
  The logical object of the B5 20 actuator service (\<open>ab23ao23_b520_actuator_views.go\<close>): consecutive fields
  of one or two bytes, each with its own reading. The input is checked for escapes of unpaired surrogates
  before it is decoded; \<open>utf8.Valid\<close> and the token decoder are parameters on the input. An error is
  \<open>None\<close>. Go ints that stay below 65536 are integers.
\<close>

section \<open>Escapes\<close>

definition hex_code :: "string \<Rightarrow> nat option" where
  "hex_code s = (if s = [] then None else parse_hex 0 s)"

text \<open>
  The loop over the bytes, on what is left of the input. An escape that is not \<open>\u\<close> is skipped with its
  letter; four digits must follow \<open>\u\<close>, and a low surrogate only comes after a high one.
\<close>

function surrogates_paired :: "string \<Rightarrow> bool" where
  "surrogates_paired s =
     (case s of
        [] \<Rightarrow> True
      | c # s1 \<Rightarrow>
          if c \<noteq> CHR 0x5C then surrogates_paired s1
          else (case s1 of
                  [] \<Rightarrow> True
                | d # s2 \<Rightarrow>
                    if d \<noteq> CHR ''u'' then surrogates_paired s2
                    else if length s2 < 4 then False
                    else case hex_code (take 4 s2) of
                           None \<Rightarrow> False
                         | Some code \<Rightarrow>
                             let s3 = drop 4 s2
                             in if 0xDC00 \<le> code \<and> code \<le> 0xDFFF then False
                                else if 0xD800 \<le> code \<and> code \<le> 0xDBFF then
                                  (if length s3 < 6 \<or> s3 ! 0 \<noteq> CHR 0x5C \<or> s3 ! 1 \<noteq> CHR ''u'' then False
                                   else case hex_code (take 4 (drop 2 s3)) of
                                          None \<Rightarrow> False
                                        | Some low \<Rightarrow>
                                            if low < 0xDC00 \<or> low > 0xDFFF then False else surrogates_paired (drop 6 s3))
                                else surrogates_paired s3))"
  by pat_completeness auto

termination
  by (relation "measure length") auto

declare surrogates_paired.simps [simp del]

section \<open>Fields\<close>

text \<open>Name, offset and width of every field of a request and of a positive answer.\<close>

definition actuator_layout :: "bool \<Rightarrow> (string \<times> nat \<times> nat) list" where
  "actuator_layout positive =
     (if positive
      then [(''ADC'', 3, 2), (''temperature1'', 5, 2), (''temperature2'', 7, 2), (''temperature3'', 9, 2),
            (''temperature4'', 11, 2), (''reserved'', 13, 1), (''impeller'', 14, 2), (''vortex'', 16, 2)]
      else [(''relay'', 3, 1), (''PWM1'', 4, 1), (''PWM2'', 5, 1), (''stepper'', 6, 1), (''LED'', 7, 1), (''ED'', 8, 1),
            (''temperature-table'', 9, 1)])"

definition actuator_carrier :: "json list \<Rightarrow> nat \<Rightarrow> nat \<Rightarrow> int" where
  "actuator_carrier vs offset width =
     (let low = byte_at vs offset in if width = 2 then low + byte_at vs (offset + 1) * 256 else low)"

definition proven :: "string \<Rightarrow> (string, json) gomap" where
  "proven t = [(''number'', JNumber t), (''calculation'', JString ''Proven'')]"

definition domain :: "bool \<Rightarrow> (string, json) gomap" where
  "domain b = [(''candidate_domain'', JBool b)]"

definition table_range :: "int \<Rightarrow> json" where
  "table_range n =
     JArray (map JNumber
       ([[''-13.5'', ''116''], [''-20'', ''155''], [''-39'', ''80''], [''-13.9'', ''130'']] ! nat n))"

text \<open>The state and the further members of a complete field.\<close>

definition actuator_meaning :: "string \<Rightarrow> int \<Rightarrow> string \<times> (string, json) gomap" where
  "actuator_meaning name n =
     (if name = ''PWM1'' \<or> name = ''PWM2'' \<or> name = ''ED'' then (''Hypothesis'', proven (decimal_text (n * 5) 1))
      else if name = ''stepper'' then
        (if n \<le> 240 then (''Hypothesis'', [(''number'', json_int n)])
         else if n = 255 then (''Hypothesis'', [(''label'', JString ''calibrate/go-to-zero'')])
         else (''unmapped'', []))
      else if name = ''LED'' then
        (if n \<le> 1 then (''Hypothesis'', [(''label'', JString ([''disabled'', ''enabled''] ! nat n))]) else (''unmapped'', []))
      else if name = ''temperature-table'' then
        (if n \<le> 3
         then (''Hypothesis'',
                [(''label'', JString ([''standard3K3'', ''extended1K'', ''low-temperature15K'', ''standard1K''] ! nat n)),
                 (''flags'', JObject [(''candidate_celsius_range'', table_range n)])])
         else (''unmapped'', []))
      else if name = ''temperature1'' \<or> name = ''temperature2'' \<or> name = ''temperature3'' \<or> name = ''temperature4''
      then (''Hypothesis'', proven (decimal_text (sint (word_of_int n :: uint16) * 625) 4) @ domain (n \<le> 3200))
      else if name = ''ADC'' then (''Hypothesis'', [(''number'', json_int n)] @ domain (n \<le> 1023))
      else if name = ''impeller'' then (''Hypothesis'', [(''number'', json_int n)] @ domain (n \<le> 1000))
      else if name = ''vortex'' then
        (''Hypothesis'', [(''number'', json_int n)] @ domain (n \<le> 350) @
           [(''flags'', JObject
              [(''candidate_operational_domain'', JBool (n \<ge> 5 \<and> n \<le> 350)),
               (''candidate_hysteresis_hz'', JObject [(''on'', json_int 5), (''off'', json_int 4)])])])
      else if name = ''reserved'' then (''Hypothesis'', [(''reserved'', JBool True)])
      else (''Hypothesis'', []))"

definition actuator_raw :: "json list option \<Rightarrow> nat \<Rightarrow> nat \<Rightarrow> json" where
  "actuator_raw object offset width =
     (case object of
        None \<Rightarrow> JNull
      | Some vs \<Rightarrow>
          let start = min offset (length vs); end' = min (offset + width) (length vs)
          in JArray (take (end' - start) (drop start vs)))"

definition actuator_field :: "json list option \<Rightarrow> string \<times> nat \<times> nat \<Rightarrow> string \<times> json" where
  "actuator_field object = (\<lambda>(name, offset, width).
     let vs = (case object of None \<Rightarrow> [] | Some vs \<Rightarrow> vs); raw = (''raw'', actuator_raw object offset width);
         grade = (''grade'', JString ''Hypothesis'')
     in if length vs < offset + width then (''incomplete'', JObject [(''state'', JString ''incomplete''), grade, raw])
        else let (state, more) = actuator_meaning name (actuator_carrier vs offset width)
             in (state, JObject ([(''state'', JString state), grade, raw] @ more)))"

definition actuator_document ::
  "(string, json) gomap \<Rightarrow> (string, json) gomap \<Rightarrow> (string, json) gomap option \<Rightarrow> json" where
  "actuator_document ctx raw args =
     (let positive = (gm_get ctx ''direction'' = Some (JString ''positive''))
      in if int64_or_zero (gm_get ctx ''primary'') \<noteq> 181 \<or> int64_or_zero (gm_get ctx ''secondary'') \<noteq> 32 \<or>
            as_int64 (gm_get ctx ''operation'') \<noteq> Some 0 \<or> gm_get ctx ''view'' \<noteq> Some (JString ''logical-object'') \<or>
            (gm_get ctx ''direction'' \<noteq> Some (JString ''request'') \<and> \<not> positive)
         then context_output ctx raw args ''Unknown'' []
         else let fs = map (\<lambda>e. (fst e, actuator_field (as_array (gm_get raw ''logical_object'')) e)) (actuator_layout positive)
              in context_output ctx raw args
                   (if list_ex (\<lambda>(_, state, _). state = ''incomplete'' \<or> state = ''unmapped'') fs then ''partial'' else ''Hypothesis'')
                   (map (\<lambda>(name, _, f). (name, f)) fs))"

section \<open>Interpretation\<close>

definition integer_text :: "json \<Rightarrow> bool" where
  "integer_text v \<longleftrightarrow>
     (case v of JNumber s \<Rightarrow> list_all (\<lambda>c. c \<noteq> CHR ''.'' \<and> c \<noteq> CHR ''e'' \<and> c \<noteq> CHR ''E'') s | _ \<Rightarrow> False)"

definition ab23ao23_interpret ::
  "(string \<Rightarrow> bool) \<Rightarrow> (string \<Rightarrow> token list \<times> bool) \<Rightarrow> string \<Rightarrow> json option" where
  "ab23ao23_interpret valid_utf8 decoder input =
     (if \<not> valid_utf8 input then None
      else if \<not> surrogates_paired input then None
      else
     Option.bind (json_document (fst (decoder input)) (snd (decoder input))) (\<lambda>doc.
     Option.bind (as_object (Some doc)) (\<lambda>obj.
     if \<not> list_all (\<lambda>(name, _). name = ''context'' \<or> name = ''fields'' \<or> name = ''arguments'') obj then None
     else Option.bind (as_object (gm_get obj ''context'')) (\<lambda>ctx.
     Option.bind (as_object (gm_get obj ''fields'')) (\<lambda>raw.
     if \<not> list_all (\<lambda>key. case gm_get ctx key of None \<Rightarrow> True | Some v \<Rightarrow> integer_text v) [''primary'', ''secondary'', ''operation'']
     then None
     else if \<not> list_all (\<lambda>key. gm_has ctx key \<longrightarrow> as_string (gm_get ctx key) \<noteq> None) [''direction'', ''view''] then None
     else if \<not> list_all (\<lambda>(_, v). signed_byte_array as_int64 v) raw then None
     else Option.bind (optional_arguments obj) (\<lambda>args.
     if args \<noteq> None \<and> args \<noteq> Some [] then None
     else Some (actuator_document ctx raw args)))))))"


section \<open>What the scan for surrogates accepts\<close>

definition high_surrogate :: "nat \<Rightarrow> bool" where
  "high_surrogate n \<longleftrightarrow> 0xD800 \<le> n \<and> n \<le> 0xDBFF"

definition low_surrogate :: "nat \<Rightarrow> bool" where
  "low_surrogate n \<longleftrightarrow> 0xDC00 \<le> n \<and> n \<le> 0xDFFF"

text \<open>
  The units of a text: \<open>None\<close> for a character or a plain escape, the code for a \<open>\u\<close> escape; no units when
  such an escape lacks its four digits. A backslash at the end of the text has no unit.
\<close>

fun escape_units :: "string \<Rightarrow> nat option list option" where
  "escape_units [] = Some []"
| "escape_units [c] = Some (if c = CHR 0x5C then [] else [None])"
| "escape_units (c # d # s) =
     (if c \<noteq> CHR 0x5C then map_option ((#) None) (escape_units (d # s))
      else if d \<noteq> CHR ''u'' then map_option ((#) None) (escape_units s)
      else case s of
             h1 # h2 # h3 # h4 # r \<Rightarrow>
               (case hex_code [h1, h2, h3, h4] of
                  None \<Rightarrow> None
                | Some n \<Rightarrow> map_option ((#) (Some n)) (escape_units r))
           | _ \<Rightarrow> None)"

fun units_scanned :: "nat option list \<Rightarrow> bool" where
  "units_scanned [] \<longleftrightarrow> True"
| "units_scanned (None # us) \<longleftrightarrow> units_scanned us"
| "units_scanned (Some n # us) \<longleftrightarrow>
     (if low_surrogate n then False
      else if high_surrogate n then
        (case us of Some m # vs \<Rightarrow> low_surrogate m \<and> units_scanned vs | _ \<Rightarrow> False)
      else units_scanned us)"

text \<open>Every high surrogate is followed by a low one, every low one preceded by a high one.\<close>

definition unit_high :: "nat option list \<Rightarrow> nat \<Rightarrow> bool" where
  "unit_high us i \<longleftrightarrow> i < length us \<and> (\<exists>n. us ! i = Some n \<and> high_surrogate n)"

definition unit_low :: "nat option list \<Rightarrow> nat \<Rightarrow> bool" where
  "unit_low us i \<longleftrightarrow> i < length us \<and> (\<exists>n. us ! i = Some n \<and> low_surrogate n)"

definition steps_paired :: "nat option list \<Rightarrow> bool" where
  "steps_paired us \<longleftrightarrow> (\<forall>i. unit_high us i \<longleftrightarrow> unit_low us (Suc i))"

definition units_paired :: "nat option list \<Rightarrow> bool" where
  "units_paired us \<longleftrightarrow> \<not> unit_low us 0 \<and> steps_paired us"

lemma surrogates_disjoint: "low_surrogate n \<Longrightarrow> \<not> high_surrogate n"
  by (simp add: high_surrogate_def low_surrogate_def)

lemma unit_simps [simp]:
  "unit_high (u # us) (Suc i) = unit_high us i" "unit_low (u # us) (Suc i) = unit_low us i"
  "\<not> unit_high [] i" "\<not> unit_low [] i" "\<not> unit_high (None # us) 0" "\<not> unit_low (None # us) 0"
  "unit_high (Some n # us) 0 = high_surrogate n" "unit_low (Some n # us) 0 = low_surrogate n"
  by (simp_all add: unit_high_def unit_low_def)

lemma steps_paired_Cons:
  "steps_paired (u # us) \<longleftrightarrow> (unit_high (u # us) 0 \<longleftrightarrow> unit_low us 0) \<and> steps_paired us"
  unfolding steps_paired_def by (metis not0_implies_Suc unit_simps(1,2))

lemma units_scanned_paired: "units_scanned us \<longleftrightarrow> units_paired us"
proof (induction us rule: units_scanned.induct)
  case 1
  then show ?case by (simp add: units_paired_def steps_paired_def)
next
  case (2 us)
  then show ?case by (simp add: units_paired_def steps_paired_Cons)
next
  case (3 n us)
  consider "low_surrogate n" | "high_surrogate n" "\<not> low_surrogate n" | "\<not> high_surrogate n" "\<not> low_surrogate n"
    by blast
  then show ?case
  proof cases
    case 1
    then show ?thesis by (simp add: units_paired_def)
  next
    case 2
    consider "us = []" | vs where "us = None # vs" | m vs where "us = Some m # vs"
      by (cases us) (metis option.exhaust)+
    then show ?thesis
    proof cases
      case 3
      then show ?thesis
        using "3.IH"(1) [OF 2(2,1) 3 refl] 2 surrogates_disjoint [of m]
        by (auto simp: units_paired_def steps_paired_Cons)
    qed (use 2 in \<open>simp_all add: units_paired_def steps_paired_Cons\<close>)
  next
    case 3
    then show ?thesis using "3.IH"(2) by (simp add: units_paired_def steps_paired_Cons)
  qed
qed

text \<open>The scan checks the digits of every escape and the order of the surrogates in one pass.\<close>

lemma escape_units_plain:
  "c \<noteq> CHR 0x5C \<Longrightarrow> escape_units (c # s) = map_option ((#) None) (escape_units s)"
  by (cases s) simp_all

lemma escape_units_code:
  "escape_units (CHR 0x5C # CHR ''u'' # s) =
     (if length s < 4 then None
      else Option.bind (hex_code (take 4 s)) (\<lambda>n. map_option ((#) (Some n)) (escape_units (drop 4 s))))"
  by (cases s rule: list.exhaust; simp; rename_tac h1 s1; case_tac s1; simp; rename_tac h2 s2; case_tac s2; simp;
      rename_tac h3 s3; case_tac s3; simp split: option.splits)

definition scan_accepts :: "nat option list option \<Rightarrow> bool" where
  "scan_accepts us \<longleftrightarrow> (case us of None \<Rightarrow> False | Some us \<Rightarrow> units_scanned us)"


lemma scan_accepts_simps [simp]:
  "\<not> scan_accepts None" "scan_accepts (Some us) = units_scanned us"
  "scan_accepts (map_option ((#) None) found) = scan_accepts found"
  by (cases found; simp add: scan_accepts_def)+

lemma text_cases:
  obtains "s = []" | c r where "s = c # r" "c \<noteq> CHR 0x5C" | "s = [CHR 0x5C]"
  | d r where "s = CHR 0x5C # d # r" "d \<noteq> CHR ''u''" | r where "s = CHR 0x5C # CHR ''u'' # r"
  by (metis list.exhaust)

lemma escape_units_first:
  "escape_units s = Some (Some m # us) \<longleftrightarrow>
     6 \<le> length s \<and> s ! 0 = CHR 0x5C \<and> s ! 1 = CHR ''u'' \<and> hex_code (take 4 (drop 2 s)) = Some m \<and>
     escape_units (drop 6 s) = Some us"
proof (cases s rule: text_cases)
  case (2 c r)
  then show ?thesis by (simp add: escape_units_plain)
next
  case (5 r)
  have "drop 6 s = drop 4 r" "drop 2 s = r" by (simp_all add: 5 drop_Cons')
  then show ?thesis unfolding 5(1) escape_units_code
    by (auto simp: bind_eq_Some_conv 5)
qed (simp_all add: drop_Cons')

lemma scanned_high:
  assumes "high_surrogate n"
  shows "scan_accepts (map_option ((#) (Some n)) us) \<longleftrightarrow>
     (\<exists>m vs. us = Some (Some m # vs) \<and> low_surrogate m \<and> units_scanned vs)"
  using assms surrogates_disjoint [of n]
  by (cases us) (auto split: list.splits option.splits)

lemma surrogates_scanned: "surrogates_paired s \<longleftrightarrow> scan_accepts (escape_units s)"
proof (induction "length s" arbitrary: s rule: less_induct)
  case less
  show ?case
  proof (cases s rule: text_cases)
    case 1
    then show ?thesis by (simp add: surrogates_paired.simps)
  next
    case (2 c r)
    then show ?thesis using less [of r] by (simp add: surrogates_paired.simps [of "c # r"] escape_units_plain)
  next
    case 3
    then show ?thesis by (simp add: surrogates_paired.simps)
  next
    case (4 d r)
    then show ?thesis using less [of r] by (simp add: surrogates_paired.simps [of "CHR 0x5C # d # r"])
  next
    case (5 r)
    show ?thesis
    proof (cases "length r < 4 \<or> hex_code (take 4 r) = None")
      case True
      then show ?thesis unfolding 5 escape_units_code by (auto simp: surrogates_paired.simps [of "CHR 0x5C # CHR ''u'' # r"])
    next
      case False
      then obtain n where n: "4 \<le> length r" "hex_code (take 4 r) = Some n" by auto
      define q where "q = drop 4 r"
      have units: "escape_units s = map_option ((#) (Some n)) (escape_units q)"
        unfolding 5 escape_units_code using n by (simp add: q_def)
      have scan: "surrogates_paired s \<longleftrightarrow>
          (if low_surrogate n then False
           else if high_surrogate n then
             6 \<le> length q \<and> q ! 0 = CHR 0x5C \<and> q ! 1 = CHR ''u'' \<and>
             (\<exists>m. hex_code (take 4 (drop 2 q)) = Some m \<and> low_surrogate m \<and> surrogates_paired (drop 6 q))
           else surrogates_paired q)"
        unfolding 5 using n
        by (auto simp: surrogates_paired.simps [of "CHR 0x5C # CHR ''u'' # r"] q_def [symmetric] Let_def low_surrogate_def
            high_surrogate_def split: option.splits)
      have short: "length q < length s" "length (drop 6 q) < length s" by (simp_all add: 5 q_def)
      show ?thesis
      proof (cases "high_surrogate n")
        case True
        then show ?thesis
          using less [OF short(2)] surrogates_disjoint [of n]
          unfolding scan units scanned_high [OF True] escape_units_first
          by (cases "escape_units (drop 6 q)") auto
      next
        case False
        then show ?thesis
          using less [OF short(1)] unfolding scan units by (cases "escape_units q") auto
      qed
    qed
  qed
qed

text \<open>  An input passes the surrogate check exactly when all its \<open>\u\<close> escapes have four hexadecimal digits, and in
  the sequence of its characters and escapes every high surrogate is followed by a low one and every low one preceded by a high one.
\<close>

theorem surrogates_exact:
  "surrogates_paired s \<longleftrightarrow> (\<exists>us. escape_units s = Some us \<and> units_paired us)"
  by (cases "escape_units s") (simp_all add: surrogates_scanned units_scanned_paired)


section \<open>What the document reports\<close>

text \<open>Spans that follow one another take their bytes without gap.\<close>

fun spans_chained :: "nat \<Rightarrow> (string \<times> nat \<times> nat) list \<Rightarrow> bool" where
  "spans_chained start [] \<longleftrightarrow> True"
| "spans_chained start ((_, offset, width) # es) \<longleftrightarrow> offset = start \<and> spans_chained (start + width) es"

lemma spans_chained_bytes:
  "spans_chained start es \<Longrightarrow>
     concat (map (\<lambda>(_, offset, width). take width (drop offset vs)) es) =
     take (\<Sum>(_, _, width) \<leftarrow> es. width) (drop start vs)"
proof (induction start es rule: spans_chained.induct)
  case (2 start x offset width es)
  then show ?case by (simp add: take_add add.commute)
qed simp

definition actuator_size :: "bool \<Rightarrow> nat" where
  "actuator_size positive = (if positive then 18 else 10)"

lemma layout_facts:
  "spans_chained 3 (actuator_layout positive)"
  "(\<Sum>(_, _, width) \<leftarrow> actuator_layout positive. width) = actuator_size positive - 3"
  "distinct (map fst (actuator_layout positive))"
  by (simp_all add: actuator_layout_def actuator_size_def)

lemma actuator_raw_Some: "actuator_raw (Some vs) offset width = JArray (take width (drop offset vs))"
proof -
  have "take (min (offset + width) (length vs) - min offset (length vs)) (drop (min offset (length vs)) vs) =
      take width (drop offset vs)"
    by (cases "offset \<le> length vs") (auto simp: min_def)
  then show ?thesis by (simp add: actuator_raw_def Let_def)
qed

lemma actuator_field_state:
  "fst (actuator_field (Some vs) (name, offset, width)) =
     (if length vs < offset + width then ''incomplete''
      else fst (actuator_meaning name (actuator_carrier vs offset width)))"
  by (simp add: actuator_field_def Let_def split_beta)

lemma actuator_field_members:
  "output_member (snd (actuator_field (Some vs) (name, offset, width))) ''raw'' =
     Some (JArray (take width (drop offset vs)))"
  "output_member (snd (actuator_field (Some vs) (name, offset, width))) ''state'' =
     Some (JString (fst (actuator_field (Some vs) (name, offset, width))))"
  "length vs < offset + width \<Longrightarrow> output_member (snd (actuator_field (Some vs) (name, offset, width))) ''number'' = None"
  "\<not> length vs < offset + width \<Longrightarrow> output_member (snd (actuator_field (Some vs) (name, offset, width))) ''number'' =
     gm_get (snd (actuator_meaning name (actuator_carrier vs offset width))) ''number''"
  by (simp_all add: actuator_field_def Let_def split_beta actuator_raw_Some)

text \<open>A byte that has no reading in its field.\<close>

definition actuator_unmapped :: "string \<Rightarrow> int \<Rightarrow> bool" where
  "actuator_unmapped name n \<longleftrightarrow>
     name = ''stepper'' \<and> 240 < n \<and> n \<noteq> 255 \<or> name = ''LED'' \<and> 1 < n \<or> name = ''temperature-table'' \<and> 3 < n"

lemma actuator_meaning_state:
  "fst (actuator_meaning name n) = (if actuator_unmapped name n then ''unmapped'' else ''Hypothesis'')"
  by (simp add: actuator_meaning_def actuator_unmapped_def)

text \<open>The quantity a field stands for, where it stands for one.\<close>

definition actuator_value :: "string \<Rightarrow> int \<Rightarrow> rat option" where
  "actuator_value name n =
     (if name = ''PWM1'' \<or> name = ''PWM2'' \<or> name = ''ED'' then Some (of_int n / 2)
      else if name = ''temperature1'' \<or> name = ''temperature2'' \<or> name = ''temperature3'' \<or> name = ''temperature4''
      then Some (of_int (sint (word_of_int n :: uint16)) / 16)
      else if name = ''stepper'' then (if n \<le> 240 then Some (of_int n) else None)
      else if name = ''ADC'' \<or> name = ''impeller'' \<or> name = ''vortex'' then Some (of_int n)
      else None)"

lemma actuator_meaning_number:
  "map_option (\<lambda>v. case v of JNumber t \<Rightarrow> decimal_value t | _ \<Rightarrow> 0) (gm_get (snd (actuator_meaning name n)) ''number'') =
     actuator_value name n"
proof -
  have five: "decimal_value (decimal_text (n * 5) (Suc 0)) = of_int n / 2" for n
    by (simp add: decimal_text_value)
  have sixteenth: "decimal_value (decimal_text (n * 625) 4) = of_int n / 16" for n
    by (simp add: decimal_text_value)
  show ?thesis
    unfolding actuator_meaning_def actuator_value_def proven_def domain_def json_int_def
    by (simp add: five sixteenth int_str_value)
qed


definition actuator_selected :: "(string, json) gomap \<Rightarrow> bool \<Rightarrow> bool" where
  "actuator_selected ctx positive \<longleftrightarrow>
     as_int64 (gm_get ctx ''primary'') = Some 181 \<and> as_int64 (gm_get ctx ''secondary'') = Some 32 \<and>
     as_int64 (gm_get ctx ''operation'') = Some 0 \<and> gm_get ctx ''view'' = Some (JString ''logical-object'') \<and>
     gm_get ctx ''direction'' = Some (JString (if positive then ''positive'' else ''request''))"

definition actuator_readable :: "bool \<Rightarrow> json list \<Rightarrow> bool" where
  "actuator_readable positive vs \<longleftrightarrow>
     actuator_size positive \<le> length vs \<and>
     list_all (\<lambda>(name, offset, width). \<not> actuator_unmapped name (actuator_carrier vs offset width)) (actuator_layout positive)"

lemma actuator_partial:
  "list_ex (\<lambda>e. fst (actuator_field (Some vs) e) = ''incomplete'' \<or> fst (actuator_field (Some vs) e) = ''unmapped'')
     (actuator_layout positive) \<longleftrightarrow> \<not> actuator_readable positive vs"
proof -
  have bad: "fst (actuator_field (Some vs) e) = ''incomplete'' \<or> fst (actuator_field (Some vs) e) = ''unmapped'' \<longleftrightarrow>
      (case e of (_, offset, width) \<Rightarrow> length vs < offset + width) \<or>
      \<not> (case e of (name, offset, width) \<Rightarrow> \<not> actuator_unmapped name (actuator_carrier vs offset width))" for e
    by (cases e) (simp add: actuator_field_state actuator_meaning_state)
  have "list_ex (\<lambda>(_, offset, width). length vs < offset + width) (actuator_layout positive) \<longleftrightarrow>
      length vs < actuator_size positive"
    by (auto simp: actuator_layout_def actuator_size_def)
  moreover have "list_ex (\<lambda>e. P e \<or> \<not> Q e) es \<longleftrightarrow> list_ex P es \<or> \<not> list_all Q es"
    for P Q :: "string \<times> nat \<times> nat \<Rightarrow> bool" and es
    by (induction es) auto
  ultimately show ?thesis
    unfolding bad actuator_readable_def by (simp only: linorder_not_le [symmetric] de_Morgan_conj)
qed

lemma actuator_document_selected:
  assumes "actuator_selected ctx positive" and "as_array (gm_get raw ''logical_object'') = Some vs"
  shows "actuator_document ctx raw args =
     context_output ctx raw args (if actuator_readable positive vs then ''Hypothesis'' else ''partial'')
       (map (\<lambda>e. (fst e, snd (actuator_field (Some vs) e))) (actuator_layout positive))"
proof -
  have "list_ex (\<lambda>(_, state, _). state = ''incomplete'' \<or> state = ''unmapped'')
      (map (\<lambda>e. (fst e, actuator_field (Some vs) e)) (actuator_layout positive)) \<longleftrightarrow> \<not> actuator_readable positive vs"
    unfolding actuator_partial [symmetric] by (simp add: list_ex_iff split_beta)
  then show ?thesis
    using assms
    by (cases positive) (simp_all add: actuator_document_def actuator_selected_def int64_or_zero_def comp_def split_beta)
qed

lemma map_of_keyed: "distinct (map fst es) \<Longrightarrow> e \<in> set es \<Longrightarrow> gm_get (map (\<lambda>e. (fst e, f e)) es) (fst e) = Some (f e)"
  unfolding gm_get_def by (rule map_of_is_SomeI) (simp_all add: comp_def)

lemma actuator_output:
  assumes "actuator_selected ctx positive" and "as_array (gm_get raw ''logical_object'') = Some vs"
    and "(name, offset, width) \<in> set (actuator_layout positive)"
  shows "output_field (actuator_document ctx raw args) name key =
     output_member (snd (actuator_field (Some vs) (name, offset, width))) key"
  using map_of_keyed [OF layout_facts(3) assms(3), of "\<lambda>e. snd (actuator_field (Some vs) e)"]
  unfolding actuator_document_selected [OF assms(1,2)]
  by (simp add: output_field_def context_output_def)

text \<open>
  The fields of a logical object hold its bytes from the fourth to its size in order, without gap or overlap.
  The document is a reading, not partial, exactly when the object has its size and no byte is outside the
  codes of its field. A field that is there gives the exact decimal of its quantity, halves of a percent or
  sixteenths of a signed word, and a field that is cut off gives no number.
\<close>

theorem actuator_fields_exact:
  assumes "actuator_selected ctx positive" and "as_array (gm_get raw ''logical_object'') = Some vs"
    and "(name, offset, width) \<in> set (actuator_layout positive)"
  shows "let out = actuator_document ctx raw args
     in output_member out ''state'' = Some (JString (if actuator_readable positive vs then ''Hypothesis'' else ''partial'')) \<and>
        (\<exists>parts. map (\<lambda>(name, _). output_field out name ''raw'') (actuator_layout positive) = map (\<lambda>p. Some (JArray p)) parts \<and>
           concat parts = take (actuator_size positive - 3) (drop 3 vs)) \<and>
        map_option (\<lambda>v. case v of JNumber t \<Rightarrow> decimal_value t | _ \<Rightarrow> 0) (output_field out name ''number'') =
          (if length vs < offset + width then None else actuator_value name (actuator_carrier vs offset width))"
proof -
  note field = actuator_output [OF assms(1,2)]
  let ?parts = "map (\<lambda>(_, offset, width). take width (drop offset vs)) (actuator_layout positive)"
  have "map (\<lambda>(name, _). output_field (actuator_document ctx raw args) name ''raw'') (actuator_layout positive) =
      map (\<lambda>p. Some (JArray p)) ?parts"
    by (auto simp: field actuator_field_members(1))
  moreover have "concat ?parts = take (actuator_size positive - 3) (drop 3 vs)"
    using spans_chained_bytes [OF layout_facts(1), of vs positive] by (simp only: layout_facts(2))
  moreover have "map_option (\<lambda>v. case v of JNumber t \<Rightarrow> decimal_value t | _ \<Rightarrow> 0)
        (output_field (actuator_document ctx raw args) name ''number'') =
      (if length vs < offset + width then None else actuator_value name (actuator_carrier vs offset width))"
    using actuator_field_members(3,4) [of vs offset width name]
    by (simp add: field [OF assms(3)] actuator_meaning_number)
  moreover have "output_member (actuator_document ctx raw args) ''state'' =
      Some (JString (if actuator_readable positive vs then ''Hypothesis'' else ''partial''))"
    unfolding actuator_document_selected [OF assms(1,2)] by (rule context_output_state)
  ultimately show ?thesis unfolding Let_def by blast
qed

definition sample_actuator_context :: "(string, json) gomap" where
  "sample_actuator_context =
     [(''primary'', json_int 181), (''secondary'', json_int 32), (''operation'', json_int 0),
      (''direction'', JString ''request''), (''view'', JString ''logical-object'')]"

theorem actuator_fields_exact_witness:
  "let out = actuator_document sample_actuator_context [(''logical_object'', JArray (map json_int [0, 0, 0, 1, 75]))] None
   in output_member out ''state'' = Some (JString ''partial'') \<and>
      map_option (\<lambda>v. case v of JNumber t \<Rightarrow> decimal_value t | _ \<Rightarrow> 0) (output_field out ''PWM1'' ''number'') = Some (75 / 2)"
proof -
  have sel: "actuator_selected sample_actuator_context False"
    by (simp add: actuator_selected_def sample_actuator_context_def as_int64_json_int byte_int64)
  have arr: "as_array (gm_get [(''logical_object'', JArray (map json_int [0, 0, 0, 1, 75]))] ''logical_object'') =
      Some (map json_int [0, 0, 0, 1, 75])"
    by (simp add: as_array_def)
  have entry: "(''PWM1'', 4, 1) \<in> set (actuator_layout False)" by (simp add: actuator_layout_def)
  have short: "\<not> actuator_readable False (map json_int [0, 0, 0, 1, 75])"
    by (simp add: actuator_readable_def actuator_size_def)
  have "actuator_carrier (map json_int [0, 0, 0, 1, 75]) 4 1 = 75"
    by (simp add: actuator_carrier_def byte_at_def int64_or_zero_def as_int64_json_int byte_int64)
  then have "actuator_value ''PWM1'' (actuator_carrier (map json_int [0, 0, 0, 1, 75]) 4 1) = Some (75 / 2)"
    by (simp add: actuator_value_def)
  then show ?thesis
    using actuator_fields_exact [OF sel arr entry, of None] short unfolding Let_def by simp
qed

end
