(* ===== verification/Cat_Depth.thy ===== *)
theory Cat_Depth
  imports Cat_Json
begin

text \<open>
  Some evaluators read their input with a limit on nesting: their reader carries the depth and fails beyond
  64. It is the shared reader followed by a check of the value (\<open>deep_document_exact\<close>).
\<close>

definition max_depth :: nat where
  "max_depth = 64"

fun deep_read :: "nat \<Rightarrow> nat \<Rightarrow> token list \<Rightarrow> (json \<times> token list) option"
  and deep_members :: "nat \<Rightarrow> nat \<Rightarrow> (string, json) gomap \<Rightarrow> token list \<Rightarrow> (json \<times> token list) option"
  and deep_elements :: "nat \<Rightarrow> nat \<Rightarrow> json list \<Rightarrow> token list \<Rightarrow> (json \<times> token list) option" where
  "deep_read 0 depth ts = None"
| "deep_read (Suc n) depth ts =
     (if depth > max_depth then None
      else case ts of
             [] \<Rightarrow> None
           | t # ts' \<Rightarrow>
               (case t of
                  TokObject \<Rightarrow> deep_members n depth [] ts'
                | TokArray \<Rightarrow> deep_elements n depth [] ts'
                | TokNull \<Rightarrow> Some (JNull, ts')
                | TokBool b \<Rightarrow> Some (JBool b, ts')
                | TokNumber s \<Rightarrow> Some (JNumber s, ts')
                | TokString s \<Rightarrow> Some (JString s, ts')
                | _ \<Rightarrow> None))"
| "deep_members 0 depth obj ts = None"
| "deep_members (Suc n) depth obj ts =
     (case ts of
        TokObjectEnd # ts' \<Rightarrow> Some (JObject obj, ts')
      | TokString key # ts' \<Rightarrow>
          if gm_has obj key then None
          else (case deep_read n (depth + 1) ts' of
                  None \<Rightarrow> None
                | Some (v, rest) \<Rightarrow> deep_members n depth (gm_put key v obj) rest)
      | _ \<Rightarrow> None)"
| "deep_elements 0 depth xs ts = None"
| "deep_elements (Suc n) depth xs ts =
     (if ts \<noteq> [] \<and> hd ts = TokArrayEnd then Some (JArray xs, tl ts)
      else (case deep_read n (depth + 1) ts of
              None \<Rightarrow> None
            | Some (v, rest) \<Rightarrow> deep_elements n depth (xs @ [v]) rest))"

definition deep_document :: "token list \<Rightarrow> bool \<Rightarrow> json option" where
  "deep_document ts at_end =
     (case deep_read (2 * length ts + 2) 0 ts of
        Some (v, []) \<Rightarrow> if at_end then Some v else None
      | _ \<Rightarrow> None)"

text \<open>The values that nest at most so deep.\<close>

fun json_within :: "nat \<Rightarrow> json \<Rightarrow> bool" where
  "json_within n (JArray vs) \<longleftrightarrow> (case n of 0 \<Rightarrow> vs = [] | Suc m \<Rightarrow> list_all (json_within m) vs)"
| "json_within n (JObject obj) \<longleftrightarrow> (case n of 0 \<Rightarrow> obj = [] | Suc m \<Rightarrow> list_all (\<lambda>(k, v). json_within m v) obj)"
| "json_within n v \<longleftrightarrow> True"

definition within_from :: "nat \<Rightarrow> (json \<times> token list) option \<Rightarrow> (json \<times> token list) option" where
  "within_from depth found = Option.bind found (\<lambda>(v, r). if json_within (max_depth - depth) v then Some (v, r) else None)"

text \<open>A value that may stand inside one read at a depth.\<close>

definition child_within :: "nat \<Rightarrow> json \<Rightarrow> bool" where
  "child_within depth v \<longleftrightarrow> depth + 1 \<le> max_depth \<and> json_within (max_depth - (depth + 1)) v"

lemma within_children:
  assumes "depth \<le> max_depth"
  shows "json_within (max_depth - depth) (JObject obj) \<longleftrightarrow> list_all (\<lambda>(k, v). child_within depth v) obj"
    and "json_within (max_depth - depth) (JArray vs) \<longleftrightarrow> list_all (child_within depth) vs"
proof -
  consider "max_depth = depth" | m where "max_depth - depth = Suc m" "max_depth - (depth + 1) = m" "depth + 1 \<le> max_depth"
    using assms by (metis Suc_diff_Suc Suc_eq_plus1 Suc_leI le_neq_implies_less)
  note cases = this
  show "json_within (max_depth - depth) (JObject obj) \<longleftrightarrow> list_all (\<lambda>(k, v). child_within depth v) obj"
    by (rule cases; cases obj; simp add: child_within_def split_beta)
  show "json_within (max_depth - depth) (JArray vs) \<longleftrightarrow> list_all (child_within depth) vs"
    by (rule cases; cases vs; simp add: child_within_def [abs_def])
qed

declare json_within.simps(1,2) [simp del]

lemma members_keep: "json_members n obj ts = Some (v, r) \<Longrightarrow> \<exists>more. v = JObject (obj @ more)"
proof (induction n arbitrary: obj ts)
  case (Suc n)
  show ?case
    using Suc.prems Suc.IH
    by (fastforce simp: gm_put_new split: list.splits token.splits if_splits option.splits prod.splits)
qed simp

lemma elements_keep: "json_elements n xs ts = Some (v, r) \<Longrightarrow> \<exists>more. v = JArray (xs @ more)"
proof (induction n arbitrary: xs ts)
  case (Suc n)
  show ?case
    using Suc.prems Suc.IH by (fastforce split: if_splits option.splits prod.splits)
qed simp

lemma members_reject:
  assumes "depth \<le> max_depth" and "(k, v) \<in> set obj" and "\<not> child_within depth v"
  shows "within_from depth (json_members n obj ts) = None"
proof (cases "json_members n obj ts")
  case (Some p)
  then obtain more where "fst p = JObject (obj @ more)" using members_keep by (metis prod.collapse)
  then show ?thesis
    using assms by (cases p) (auto simp: Some within_from_def within_children list_all_iff)
qed (simp add: within_from_def)

lemma elements_reject:
  assumes "depth \<le> max_depth" and "v \<in> set xs" and "\<not> child_within depth v"
  shows "within_from depth (json_elements n xs ts) = None"
proof (cases "json_elements n xs ts")
  case (Some p)
  then obtain more where "fst p = JArray (xs @ more)" using elements_keep by (metis prod.collapse)
  then show ?thesis
    using assms by (cases p) (auto simp: Some within_from_def within_children list_all_iff)
qed (simp add: within_from_def)

definition depth_checked :: "nat \<Rightarrow> bool" where
  "depth_checked n \<longleftrightarrow>
     (\<forall>depth ts. deep_read n depth ts = (if depth > max_depth then None else within_from depth (json_read n ts))) \<and>
     (\<forall>depth obj ts. depth \<le> max_depth \<longrightarrow> list_all (\<lambda>(k, v). child_within depth v) obj \<longrightarrow>
        deep_members n depth obj ts = within_from depth (json_members n obj ts)) \<and>
     (\<forall>depth xs ts. depth \<le> max_depth \<longrightarrow> list_all (child_within depth) xs \<longrightarrow>
        deep_elements n depth xs ts = within_from depth (json_elements n xs ts))"

lemma depth_checkedD:
  assumes "depth_checked n"
  shows "deep_read n depth ts = (if depth > max_depth then None else within_from depth (json_read n ts))"
    and "depth \<le> max_depth \<Longrightarrow> list_all (\<lambda>(k, v). child_within depth v) obj \<Longrightarrow>
      deep_members n depth obj ts = within_from depth (json_members n obj ts)"
    and "depth \<le> max_depth \<Longrightarrow> list_all (child_within depth) xs \<Longrightarrow>
      deep_elements n depth xs ts = within_from depth (json_elements n xs ts)"
  using assms unfolding depth_checked_def by blast+

lemma deep_child:
  assumes "depth_checked n"
  shows "deep_read n (depth + 1) ts =
     Option.bind (json_read n ts) (\<lambda>(v, r). if child_within depth v then Some (v, r) else None)"
  unfolding depth_checkedD(1) [OF assms] within_from_def child_within_def by (cases "json_read n ts") auto

lemma deep_read_step:
  assumes "depth_checked n"
  shows "deep_read (Suc n) depth ts = (if depth > max_depth then None else within_from depth (json_read (Suc n) ts))"
proof (cases "depth > max_depth")
  case False
  then show ?thesis
    using depth_checkedD(2) [OF assms, of depth "[]"] depth_checkedD(3) [OF assms, of depth "[]"]
    by (auto simp: within_from_def split: list.split token.split)
qed simp

lemma deep_members_step:
  assumes "depth_checked n" and d: "depth \<le> max_depth" and o: "list_all (\<lambda>(k, v). child_within depth v) obj"
  shows "deep_members (Suc n) depth obj ts = within_from depth (json_members (Suc n) obj ts)"
proof -
  have step: "(case Option.bind found (\<lambda>(v, r). if child_within depth v then Some (v, r) else None) of None \<Rightarrow> None
       | Some (v, rest) \<Rightarrow> deep_members n depth (gm_put key v obj) rest) =
      within_from depth (case found of None \<Rightarrow> None | Some (v, rest) \<Rightarrow> json_members n (gm_put key v obj) rest)"
    if key: "\<not> gm_has obj key" for found key
  proof (cases found)
    case None
    then show ?thesis by (simp add: within_from_def)
  next
    case (Some p)
    obtain v r where p: "p = (v, r)" by (cases p)
    show ?thesis
    proof (cases "child_within depth v")
      case True
      then have "list_all (\<lambda>(k, v). child_within depth v) (gm_put key v obj)"
        using o by (simp add: gm_put_new [OF key])
      then show ?thesis using depth_checkedD(2) [OF assms(1) d] True by (simp add: Some p)
    next
      case False
      then show ?thesis
        using members_reject [OF d, of key v "gm_put key v obj" n r] by (simp add: Some p gm_put_new [OF key])
    qed
  qed
  have found: "within_from depth (Some (JObject obj, ts')) = Some (JObject obj, ts')" "within_from depth None = None" for ts'
    using o by (simp_all add: within_from_def within_children [OF d])
  show ?thesis
    by (cases ts) (simp_all add: deep_child [OF assms(1), simplified] step found split: token.split)
qed

lemma deep_elements_step:
  assumes "depth_checked n" and d: "depth \<le> max_depth" and o: "list_all (child_within depth) xs"
  shows "deep_elements (Suc n) depth xs ts = within_from depth (json_elements (Suc n) xs ts)"
proof -
  have step: "(case Option.bind found (\<lambda>(v, r). if child_within depth v then Some (v, r) else None) of None \<Rightarrow> None
       | Some (v, rest) \<Rightarrow> deep_elements n depth (xs @ [v]) rest) =
      within_from depth (case found of None \<Rightarrow> None | Some (v, rest) \<Rightarrow> json_elements n (xs @ [v]) rest)" for found
  proof (cases found)
    case None
    then show ?thesis by (simp add: within_from_def)
  next
    case (Some p)
    obtain v r where p: "p = (v, r)" by (cases p)
    show ?thesis
      using depth_checkedD(3) [OF assms(1) d, of "xs @ [v]" r] elements_reject [OF d, of v "xs @ [v]" n r] o
      by (cases "child_within depth v") (simp_all add: Some p)
  qed
  have found: "within_from depth (Some (JArray xs, ts')) = Some (JArray xs, ts')" for ts'
    using o by (simp add: within_from_def within_children [OF d])
  show ?thesis
    by (simp add: deep_child [OF assms(1), simplified] step found)
qed

lemma deep_reader_exact: "depth_checked n"
proof (induction n)
  case 0
  show ?case by (simp add: depth_checked_def within_from_def)
next
  case (Suc n)
  show ?case
    unfolding depth_checked_def
    using deep_read_step [OF Suc] deep_members_step [OF Suc] deep_elements_step [OF Suc] by blast
qed

lemma deep_document_exact:
  "deep_document ts at_end =
     Option.bind (json_document ts at_end) (\<lambda>v. if json_within max_depth v then Some v else None)"
  unfolding deep_document_def json_document_def depth_checkedD(1) [OF deep_reader_exact] within_from_def
  by (auto split: option.splits list.splits)

end
