(* ===== verification/Cat_Demand.thy ===== *)
theory Cat_Demand
  imports Cat_Depth Cat_Flow
begin

unbundle bit_operations_syntax

text \<open>
  Demand fields of the B5 22 service (\<open>ab25ao25_b522_demand_views.go\<close>): isolated fields of one byte, each
  decoded on its own. The copies the code makes are values; an error is \<open>None\<close>. An element of a field is read
  as an int that its test bounds to 0 to 255.
\<close>

section \<open>Numbers\<close>

text \<open>The pattern of a JSON number without fraction and exponent.\<close>

definition integer_pattern :: "string \<Rightarrow> bool" where
  "integer_pattern s \<longleftrightarrow>
     (let t = (if s \<noteq> [] \<and> hd s = CHR ''-'' then tl s else s)
      in t = ''0'' \<or> (t \<noteq> [] \<and> hd t \<noteq> CHR ''0'' \<and> list_all is_digit t))"

definition integer_literal :: "json option \<Rightarrow> string option" where
  "integer_literal v = (case v of Some (JNumber s) \<Rightarrow> if integer_pattern s then Some s else None | _ \<Rightarrow> None)"

definition demand_byte :: "json \<Rightarrow> int option" where
  "demand_byte v =
     Option.bind (integer_literal (Some v)) (\<lambda>s.
     Option.bind (as_int64 (Some (JNumber s))) (\<lambda>n. if n < 0 \<or> n > 255 then None else Some n))"

definition demand_bytes :: "json \<Rightarrow> int list option" where
  "demand_bytes v = Option.bind (as_array (Some v)) (\<lambda>vs. those (map demand_byte vs))"

section \<open>Fields\<close>

definition mode_label :: "int \<Rightarrow> string option" where
  "mode_label n =
     map_of [(0, ''no-heating-demand''), (1, ''no-source-demand-sink-demand''), (2, ''source-heating-demand''),
             (3, ''no-source-cooling-demand-sink-demand''), (4, ''source-cooling-demand'')] n"

definition decode_mode :: "int \<Rightarrow> (string, json) gomap" where
  "decode_mode n =
     (case mode_label n of
        None \<Rightarrow> [(''state'', JString ''unmapped'')]
      | Some label \<Rightarrow>
          [(''state'', JString (if n = 1 then ''label-conflict'' else ''decoded'')), (''number'', json_int n), (''label'', JString label)])"

definition decode_fan :: "int \<Rightarrow> (string, json) gomap" where
  "decode_fan n = [(''state'', JString ''decoded''), (''number'', json_int n)]"

definition decode_room :: "int \<Rightarrow> (string, json) gomap" where
  "decode_room n =
     [(''state'', JString ''decoded''), (''number'', JNumber (decimal_text (n * 5) 1)), (''unit'', JString ''celsius''),
      (''calculation'', JString ''Proven''), (''candidate_domain'', JBool True)]"

definition decode_automatic :: "int \<Rightarrow> (string, json) gomap" where
  "decode_automatic n =
     [(''state'', JString ''decoded''), (''number'', json_int (n AND 1)),
      (''label'', JString (if n AND 1 = 1 then ''enabled'' else ''disabled'')), (''reserved'', json_int (n AND 0xFE))]"

definition decode_positive :: "int \<Rightarrow> (string, json) gomap" where
  "decode_positive n =
     [(''state'', JString ''decoded''),
      (''flags'', JArray [JBool (n AND 1 \<noteq> 0), JBool (n AND 2 \<noteq> 0), JBool (n AND 4 \<noteq> 0)]),
      (''reserved'', json_int (n AND 0xF8))]"

definition demand_specs :: "bool \<Rightarrow> (string \<times> (int \<Rightarrow> (string, json) gomap)) list" where
  "demand_specs request =
     (if request
      then [(''mode'', decode_mode), (''fan'', decode_fan), (''room_temperature'', decode_room), (''automatic'', decode_automatic)]
      else [(''positive_flags'', decode_positive)])"

definition demand_field :: "int list option \<Rightarrow> (int \<Rightarrow> (string, json) gomap) \<Rightarrow> (string, json) gomap" where
  "demand_field raw decode =
     (case raw of
        None \<Rightarrow> [(''grade'', JString ''Hypothesis''), (''raw'', JNull), (''state'', JString ''absent'')]
      | Some bs \<Rightarrow>
          [(''grade'', JString ''Hypothesis''), (''raw'', JArray (map json_int bs))] @
          (case bs of
             [] \<Rightarrow> [(''state'', JString ''incomplete'')]
           | [b] \<Rightarrow> decode b
           | _ \<Rightarrow> [(''state'', JString ''overlong'')]))"

section \<open>Documents\<close>

definition demand_reasons :: "string \<Rightarrow> string \<Rightarrow> string \<Rightarrow> string \<Rightarrow> string \<Rightarrow> string list" where
  "demand_reasons primary secondary operation direction view =
     (if primary \<noteq> ''181'' then [''primary''] else []) @
     (if secondary \<noteq> ''34'' then [''secondary''] else []) @
     (case as_int64 (Some (JNumber operation)) of
        None \<Rightarrow> [''operation''] | Some n \<Rightarrow> if n < 0 \<or> n > 255 then [''operation''] else []) @
     (if direction \<noteq> ''request'' \<and> direction \<noteq> ''positive'' then [''direction''] else []) @
     (if view \<noteq> ''isolated-fields'' then [''view''] else [])"

definition demand_results ::
  "bool \<Rightarrow> (string, int list) gomap \<Rightarrow> (string \<times> (string, json) gomap) list" where
  "demand_results request byte_map =
     map (\<lambda>(name, decode). (name, demand_field (gm_get byte_map name) decode)) (demand_specs request)"

definition demand_decoded :: "(string \<times> (string, json) gomap) list \<Rightarrow> nat" where
  "demand_decoded rs = length (filter (\<lambda>(_, f). gm_get f ''state'' = Some (JString ''decoded'')) rs)"

definition demand_state :: "(string \<times> (string, json) gomap) list \<Rightarrow> string" where
  "demand_state rs =
     (if demand_decoded rs = length rs then ''complete'' else if demand_decoded rs > 0 then ''partial'' else ''unresolved'')"

definition demand_members ::
  "string list \<Rightarrow> bool \<Rightarrow> (string, int list) gomap \<Rightarrow> (string, json) gomap" where
  "demand_members reasons request byte_map =
     (if reasons \<noteq> []
      then [(''state'', JString ''unknown''), (''unknown_reasons'', JArray (map JString reasons)), (''fields'', JObject [])]
      else let rs = demand_results request byte_map
           in [(''state'', JString (demand_state rs)), (''fields'', JObject (map (\<lambda>(name, f). (name, JObject f)) rs))])"

definition demand_argument :: "json \<Rightarrow> bool" where
  "demand_argument v \<longleftrightarrow> integer_literal (Some v) \<noteq> None \<or> as_bool (Some v) \<noteq> None"

definition demand_unrecognised :: "(string, json) gomap \<Rightarrow> (string, json) gomap" where
  "demand_unrecognised obj = gm_filter (\<lambda>name _. name \<noteq> ''context'' \<and> name \<noteq> ''fields'' \<and> name \<noteq> ''arguments'') obj"

text \<open>The byte fields by name; the code stops at one that is not a byte array.\<close>

definition demand_byte_map :: "(string, json) gomap \<Rightarrow> (string, int list) gomap option" where
  "demand_byte_map raw = those (map (\<lambda>(name, v). map_option (Pair name) (demand_bytes v)) raw)"

definition ab25ao25_interpret :: "token list \<Rightarrow> bool \<Rightarrow> json option" where
  "ab25ao25_interpret ts at_end =
     Option.bind (deep_document ts at_end) (\<lambda>doc.
     Option.bind (as_object (Some doc)) (\<lambda>obj.
     Option.bind (as_object (gm_get obj ''context'')) (\<lambda>ctx.
     Option.bind (integer_literal (gm_get ctx ''primary'')) (\<lambda>primary.
     Option.bind (integer_literal (gm_get ctx ''secondary'')) (\<lambda>secondary.
     Option.bind (integer_literal (gm_get ctx ''operation'')) (\<lambda>operation.
     Option.bind (as_string (gm_get ctx ''direction'')) (\<lambda>direction.
     Option.bind (as_string (gm_get ctx ''view'')) (\<lambda>view.
     Option.bind (as_object (gm_get obj ''fields'')) (\<lambda>raw.
     Option.bind (demand_byte_map raw) (\<lambda>byte_map.
     Option.bind (optional_arguments obj) (\<lambda>args.
     if \<not> list_all (\<lambda>(_, v). demand_argument v) (case args of None \<Rightarrow> [] | Some a \<Rightarrow> a) then None
     else Some (JObject
       ([(''context'', JObject ctx), (''raw'', JObject raw), (''physical'', JString ''Unknown''), (''qualified'', JBool False)] @
        (case args of None \<Rightarrow> [] | Some a \<Rightarrow> [(''arguments'', JObject a)]) @
        (if demand_unrecognised obj = [] then [] else [(''unrecognised'', JObject (demand_unrecognised obj))]) @
        demand_members (demand_reasons primary secondary operation direction view) (direction = ''request'') byte_map))
     )))))))))))"


section \<open>What the document reports\<close>

lemma int_str_inj: "int_str m = int_str n \<longleftrightarrow> m = n"
  by (metis int_parse_int_str option.inject)

lemma json_int_inj: "json_int m = json_int n \<longleftrightarrow> m = n"
  by (simp add: json_int_def int_str_inj)

lemma decimal_text_inj: "decimal_text m k = decimal_text n k \<longleftrightarrow> m = n"
proof
  assume "decimal_text m k = decimal_text n k"
  then have "(of_int m :: rat) / 10 ^ k = of_int n / 10 ^ k" by (metis decimal_text_value)
  then show "m = n" by simp
qed simp

lemma byte_int_eq:
  fixes m n :: int
  assumes "m \<in> {0..255}" "n \<in> {0..255}"
    and "\<And>k. k \<in> {0, 1, 2, 3, 4, 5, 6, 7} \<Longrightarrow> bit m k = bit n k"
  shows "m = n"
proof -
  have "take_bit 8 m = take_bit 8 n"
  proof (rule bit_eqI)
    fix k :: nat
    have "k < 8 \<Longrightarrow> k \<in> {0, 1, 2, 3, 4, 5, 6, 7}" by auto
    then show "bit (take_bit 8 m) k = bit (take_bit 8 n) k"
      using assms(3) [of k] unfolding bit_take_bit_iff by blast
  qed
  moreover have "take_bit 8 m = m" "take_bit 8 n = n"
    using assms(1,2) by (auto intro!: take_bit_int_eq_self)
  ultimately show ?thesis by simp
qed

lemma and_flag_int:
  "(n AND 1 \<noteq> 0) = bit n 0" "(n AND 2 \<noteq> 0) = bit n 1" "(n AND 4 \<noteq> 0) = bit n 2" for n :: int
  using and_exp_eq_0_iff_not_bit [of n 0] and_exp_eq_0_iff_not_bit [of n 1] and_exp_eq_0_iff_not_bit [of n 2]
  by simp_all

lemma same_bits: "m AND c = n AND c \<Longrightarrow> bit c k \<Longrightarrow> bit m k = bit n k" for m n c :: int
  by (metis bit_and_iff)

lemma automatic_lossless: "inj_on decode_automatic {0..255}"
proof (rule inj_onI)
  fix m n :: int
  assume range: "m \<in> {0..255}" "n \<in> {0..255}" and "decode_automatic m = decode_automatic n"
  then have "m AND 1 = n AND 1" "m AND 254 = n AND 254"
    by (simp_all add: decode_automatic_def json_int_inj)
  then show "m = n"
    using same_bits [of m 1 n 0] same_bits [of m 254 n]
    by (intro byte_int_eq [OF range]) (auto simp: bit_numeral_simps)
qed

lemma positive_lossless: "inj_on decode_positive {0..255}"
proof (rule inj_onI)
  fix m n :: int
  assume range: "m \<in> {0..255}" "n \<in> {0..255}" and eq: "decode_positive m = decode_positive n"
  then have "bit m 0 = bit n 0" "bit m 1 = bit n 1" "bit m 2 = bit n 2" "m AND 248 = n AND 248"
    by (simp_all add: decode_positive_def json_int_inj and_flag_int)
  then show "m = n"
    using same_bits [of m 248 n] by (intro byte_int_eq [OF range]) (auto simp: bit_numeral_simps)
qed

lemma mode_lossless: "inj_on decode_mode {0..4}"
proof (rule inj_onI)
  fix m n :: int
  assume range: "m \<in> {0..4}" "n \<in> {0..4}" and eq: "decode_mode m = decode_mode n"
  have known: "mode_label k \<noteq> None" if "k \<in> {0..4}" for k
  proof -
    have "k = 0 \<or> k = 1 \<or> k = 2 \<or> k = 3 \<or> k = 4" using that by auto
    then show ?thesis by (auto simp: mode_label_def)
  qed
  then have "gm_get (decode_mode k) ''number'' = Some (json_int k)" if "k \<in> {0..4}" for k
    using known [OF that] by (auto simp: decode_mode_def)
  with range eq show "m = n" by (metis json_int_inj option.inject)
qed

lemma specs_lossless:
  "list_all (\<lambda>(name, decode). inj_on decode (if name = ''mode'' then {0..4} else {0..255})) (demand_specs request)"
  using mode_lossless automatic_lossless positive_lossless
  by (simp add: demand_specs_def inj_on_def decode_fan_def decode_room_def json_int_inj decimal_text_inj)

text \<open>A field that is decoded: one byte, and for the mode one whose label is not disputed.\<close>

definition demand_readable :: "(string, int list) gomap \<Rightarrow> string \<Rightarrow> bool" where
  "demand_readable byte_map name \<longleftrightarrow>
     (case gm_get byte_map name of Some [b] \<Rightarrow> name = ''mode'' \<longrightarrow> b \<in> {0, 2, 3, 4} | _ \<Rightarrow> False)"

lemma mode_decoded: "gm_get (decode_mode n) ''state'' = Some (JString ''decoded'') \<longleftrightarrow> n \<in> {0, 2, 3, 4}"
  by (auto simp: decode_mode_def mode_label_def)

lemma field_decoded:
  assumes "(name, decode) \<in> set (demand_specs request)"
  shows "gm_get (demand_field (gm_get byte_map name) decode) ''state'' = Some (JString ''decoded'') \<longleftrightarrow>
     demand_readable byte_map name"
proof -
  have "gm_get (decode n) ''state'' = Some (JString ''decoded'') \<longleftrightarrow> (name = ''mode'' \<longrightarrow> n \<in> {0, 2, 3, 4})" for n
    using assms mode_decoded
    by (auto simp: demand_specs_def decode_fan_def decode_room_def decode_automatic_def decode_positive_def split: if_splits)
  then show ?thesis
    by (auto simp: demand_field_def demand_readable_def split: option.split list.split)
qed

definition demand_names :: "bool \<Rightarrow> string list" where
  "demand_names request = map fst (demand_specs request)"

lemma decoded_names:
  "demand_decoded (demand_results request byte_map) =
     length (filter (demand_readable byte_map) (demand_names request))"
  unfolding demand_decoded_def demand_results_def demand_names_def filter_map length_map
  by (intro arg_cong [of _ _ length] filter_cong refl) (auto simp: field_decoded)

definition demand_supported :: "string \<Rightarrow> string \<Rightarrow> string \<Rightarrow> string \<Rightarrow> string \<Rightarrow> bool" where
  "demand_supported primary secondary operation direction view \<longleftrightarrow>
     primary = ''181'' \<and> secondary = ''34'' \<and> direction \<in> {''request'', ''positive''} \<and> view = ''isolated-fields'' \<and>
     (case as_int64 (Some (JNumber operation)) of None \<Rightarrow> False | Some n \<Rightarrow> 0 \<le> n \<and> n \<le> 255)"

lemma no_reasons: "demand_reasons primary secondary operation direction view = [] \<longleftrightarrow>
    demand_supported primary secondary operation direction view"
  by (auto simp: demand_reasons_def demand_supported_def split: option.split)

text \<open>  A context is unknown exactly when one of its axes does not select the service. Otherwise the document is
  complete, partial or unresolved as all, some or none of its fields are one byte with an undisputed meaning,
  and no decoder confuses two bytes: the mode among its five codes, every other field among all bytes.
\<close>

theorem demand_fields_exact:
  "let ms = demand_members (demand_reasons primary secondary operation direction view) (direction = ''request'') byte_map;
       names = demand_names (direction = ''request'')
   in gm_get ms ''state'' = Some (JString
        (if \<not> demand_supported primary secondary operation direction view then ''unknown''
         else if list_all (demand_readable byte_map) names then ''complete''
         else if list_ex (demand_readable byte_map) names then ''partial'' else ''unresolved'')) \<and>
      list_all (\<lambda>(name, decode). inj_on decode (if name = ''mode'' then {0..4} else {0..255}))
        (demand_specs (direction = ''request''))"
proof -
  let ?names = "demand_names (direction = ''request'')"
  have "length (demand_results (direction = ''request'') byte_map) = length ?names"
    by (simp add: demand_results_def demand_names_def)
  moreover have "length (filter P xs) = length xs \<longleftrightarrow> list_all P xs" "0 < length (filter P xs) \<longleftrightarrow> list_ex P xs"
    for P :: "string \<Rightarrow> bool" and xs
    by (auto simp: list_all_iff list_ex_iff filter_empty_conv simp del: length_greater_0_conv filter_id_conv)
       (metis filter_True filter_cong length_filter_less less_irrefl)
  ultimately show ?thesis
    using specs_lossless
    by (simp add: demand_members_def no_reasons Let_def demand_state_def decoded_names)
qed

end
