(* ===== verification/Cat_Thermal.thy ===== *)
theory Cat_Thermal
  imports Cat_Demand
begin

unbundle bit_operations_syntax

text \<open>
  Thermal, demand and integrity fields of the B5 0F service (\<open>ab09ao09_b50f_field_views.go\<close>): fields of
  fixed widths under their own names; integrity bytes and the stack voltage are kept but never count as
  read. An error is \<open>None\<close>.
\<close>

section \<open>Admission\<close>

text \<open>A plain integer literal that may be too large for 64 bits.\<close>

definition integer_digits :: "string \<Rightarrow> bool" where
  "integer_digits s \<longleftrightarrow>
     (let t = (if s \<noteq> [] \<and> hd s = CHR ''-'' then tl s else s) in t \<noteq> [] \<and> list_all is_digit t)"

definition integer_selector :: "json \<Rightarrow> bool" where
  "integer_selector v \<longleftrightarrow>
     (case v of JNumber s \<Rightarrow> as_int64 (Some v) \<noteq> None \<or> integer_digits s | _ \<Rightarrow> False)"

definition thermal_byte :: "json \<Rightarrow> int option" where
  "thermal_byte v =
     (case as_int64 (Some v) of
        None \<Rightarrow> None
      | Some n \<Rightarrow> if n < 0 \<or> n > 255 \<or> v = JNumber ''-0'' then None else Some n)"

definition thermal_array :: "json \<Rightarrow> int list option" where
  "thermal_array v = Option.bind (as_array (Some v)) (\<lambda>vs. those (map thermal_byte vs))"

definition thermal_arrays :: "(string, json) gomap \<Rightarrow> (string, int list) gomap option" where
  "thermal_arrays raw = those (map (\<lambda>(name, v). map_option (Pair name) (thermal_array v)) raw)"

section \<open>Fields\<close>

datatype thermal_view = ViewThermal | ViewDemand | ViewIntegrity

definition thermal_selection :: "(string, json) gomap \<Rightarrow> (thermal_view \<times> string) option" where
  "thermal_selection ctx =
     (let operation = gm_get ctx ''operation''; view = gm_get ctx ''view''
      in if gm_get ctx ''primary'' \<noteq> Some (JNumber ''181'') \<or> gm_get ctx ''secondary'' \<noteq> Some (JNumber ''15'') \<or>
            gm_get ctx ''direction'' \<noteq> Some (JString ''positive'') then None
         else if view = Some (JString ''thermal-fields'') \<and> operation = Some (JNumber ''0'') then Some (ViewThermal, ''0'')
         else if view = Some (JString ''thermal-fields'') \<and> operation = Some (JNumber ''1'') then Some (ViewThermal, ''1'')
         else if view = Some (JString ''demand'') \<and> operation = Some (JNumber ''3'') then Some (ViewDemand, ''3'')
         else if view = Some (JString ''integrity-only'') \<and> operation = Some (JNumber ''2'') then Some (ViewIntegrity, ''2'')
         else None)"

definition integrity_names :: "string list" where
  "integrity_names = [''integrity_one'', ''integrity_two'']"

text \<open>The fields a view asks for, with their widths; integrity bytes only where given or asked for.\<close>

definition thermal_layout :: "thermal_view \<Rightarrow> string \<Rightarrow> (string, int list) gomap \<Rightarrow> (string \<times> nat) list" where
  "thermal_layout view operation arrays =
     (case view of
        ViewThermal \<Rightarrow>
          [(''temperature_one'', 2), (''error_one'', 1), (''temperature_two'', 2), (''error_two'', 1),
           (if operation = ''1'' then ''stack_voltage'' else ''temperature_three'', 2), (''error_three'', 1)]
      | ViewDemand \<Rightarrow> [(''demand'', 1), (''feedback'', 1)]
      | ViewIntegrity \<Rightarrow> []) @
     map (\<lambda>name. (name, 1)) (filter (\<lambda>name. gm_has arrays name \<or> view = ViewIntegrity) integrity_names)"

definition thermal_word :: "int list \<Rightarrow> uint16" where
  "thermal_word bs = word_of_int (bs ! 0) OR push_bit 8 (word_of_int (bs ! 1))"

definition demand_flags :: "int \<Rightarrow> (string, json) gomap" where
  "demand_flags n =
     map (\<lambda>(i, name). (name, JBool (n AND push_bit i 1 \<noteq> 0)))
       [(0, ''burner''), (1, ''reformer-gas-valve''), (2, ''gas-flow''), (3, ''fan-power''), (4, ''valve'')]"

definition integrity_position :: "string \<Rightarrow> string \<Rightarrow> int" where
  "integrity_position operation name =
     (if operation = ''2'' then 11 else if operation = ''3'' then 4 else 12) + (if name = ''integrity_two'' then 1 else 0)"

text \<open>The state and the further members of a field of its width.\<close>

definition thermal_meaning :: "string \<Rightarrow> string \<Rightarrow> int list \<Rightarrow> string \<times> (string, json) gomap" where
  "thermal_meaning operation name bs =
     (if name = ''stack_voltage'' then (''unit-conflict'', [])
      else if name = ''temperature_one'' \<or> name = ''temperature_two'' \<or> name = ''temperature_three'' then
        (''complete'',
           [(''number'', JNumber (decimal_text (sint (thermal_word bs) * 625) 4)), (''label'', JString ''Celsius''),
            (''calculation'', JString ''Proven'')])
      else if name = ''demand'' then
        (''complete'',
           [(''flags'', JObject (demand_flags (bs ! 0))), (''reserved'', json_int (bs ! 0 AND 224)), (''label'', JString ''demand'')])
      else if name = ''feedback'' then
        (''complete'', [(''label'', JString (if bs ! 0 = 1 then ''accepted'' else ''rejected''))])
      else if name \<in> set integrity_names then
        (''unknown-order'',
           [(''logical_position'', json_int (integrity_position operation name)), (''word_order'', JString ''Unknown''),
            (''crc'', JString ''Unknown'')])
      else (''complete'', []))"

definition thermal_field ::
  "string \<Rightarrow> (string, json) gomap \<Rightarrow> (string, int list) gomap \<Rightarrow> string \<times> nat \<Rightarrow> string \<times> (string, json) gomap" where
  "thermal_field operation raw arrays = (\<lambda>(name, width).
     let grade = (''grade'', JString ''Hypothesis'')
     in case gm_get arrays name of
          None \<Rightarrow> (''missing'', [grade])
        | Some bs \<Rightarrow>
            let given = [grade, (''raw'', raw_of raw name)]
            in if length bs > width then (''unmapped'', given)
               else if length bs \<noteq> width then (''incomplete'', given)
               else let (state, more) = thermal_meaning operation name bs in (state, given @ more))"

definition thermal_fields ::
  "string \<Rightarrow> (string, json) gomap \<Rightarrow> (string, int list) gomap \<Rightarrow> (string \<times> nat) list \<Rightarrow> (string, json) gomap" where
  "thermal_fields operation raw arrays layout =
     fold (\<lambda>e acc. gm_put (fst e)
             (let (state, more) = thermal_field operation raw arrays e in JObject ((''state'', JString state) # more)) acc)
       layout (raw_fields raw)"

definition thermal_partial ::
  "string \<Rightarrow> (string, json) gomap \<Rightarrow> (string, int list) gomap \<Rightarrow> (string \<times> nat) list \<Rightarrow> bool" where
  "thermal_partial operation raw arrays layout \<longleftrightarrow>
     list_ex (\<lambda>e. fst (thermal_field operation raw arrays e) \<noteq> ''complete'') layout \<or>
     list_ex (\<lambda>(_, f). output_member f ''state'' = Some (JString ''Unknown'')) (thermal_fields operation raw arrays layout)"

definition thermal_document ::
  "(string, json) gomap \<Rightarrow> (string, json) gomap \<Rightarrow> (string, int list) gomap \<Rightarrow> (string, json) gomap option \<Rightarrow> json" where
  "thermal_document ctx raw arrays args =
     (case thermal_selection ctx of
        None \<Rightarrow> context_output ctx raw args ''Unknown'' (raw_fields raw)
      | Some (view, operation) \<Rightarrow>
          let layout = thermal_layout view operation arrays
          in context_output ctx raw args
               (if thermal_partial operation raw arrays layout then ''partial'' else ''complete'')
               (thermal_fields operation raw arrays layout))"

definition ab09ao09_interpret :: "token list \<Rightarrow> bool \<Rightarrow> json option" where
  "ab09ao09_interpret ts at_end =
     Option.bind (deep_document ts at_end) (\<lambda>doc.
     Option.bind (as_object (Some doc)) (\<lambda>obj.
     if \<not> list_all (\<lambda>(name, _). name = ''context'' \<or> name = ''fields'' \<or> name = ''arguments'') obj then None
     else Option.bind (as_object (gm_get obj ''context'')) (\<lambda>ctx.
     Option.bind (as_object (gm_get obj ''fields'')) (\<lambda>raw.
     if \<not> list_all (\<lambda>key. case gm_get ctx key of None \<Rightarrow> True | Some v \<Rightarrow> integer_selector v) [''primary'', ''secondary'', ''operation'']
     then None
     else if \<not> list_all (\<lambda>key. gm_has ctx key \<longrightarrow> as_string (gm_get ctx key) \<noteq> None) [''direction'', ''view''] then None
     else Option.bind (thermal_arrays raw) (\<lambda>arrays.
     Option.bind (optional_arguments obj) (\<lambda>args.
     if args \<noteq> None \<and> args \<noteq> Some [] then None
     else Some (thermal_document ctx raw arrays args)))))))"


section \<open>What the document reports\<close>

lemma fold_put_other:
  "k \<notin> fst ` set es \<Longrightarrow> gm_get (fold (\<lambda>e acc. gm_put (fst e) (f e) acc) es m) k = gm_get m k"
  by (induction es arbitrary: m) auto

lemma fold_put_distinct: "gm_ok m \<Longrightarrow> gm_ok (fold (\<lambda>e acc. gm_put (fst e) (f e) acc) es m)"
  by (induction es arbitrary: m) auto

lemma fold_put_keys: "gm_keys (fold (\<lambda>e acc. gm_put (fst e) (f e) acc) es m) = fst ` set es \<union> gm_keys m"
  by (induction es arbitrary: m) auto

lemma thermal_layout_distinct: "distinct (map fst (thermal_layout view operation arrays))"
  by (cases view) (auto simp: thermal_layout_def integrity_names_def)

lemma list_ex_gm: "gm_ok m \<Longrightarrow> list_ex (\<lambda>(k, v). P v) m \<longleftrightarrow> (\<exists>k \<in> gm_keys m. \<exists>v. gm_get m k = Some v \<and> P v)"
  unfolding list_ex_iff gm_keys_def by (force simp: gm_in_iff [symmetric])

definition thermal_member ::
  "string \<Rightarrow> (string, json) gomap \<Rightarrow> (string, int list) gomap \<Rightarrow> string \<times> nat \<Rightarrow> json" where
  "thermal_member operation raw arrays e =
     JObject ((''state'', JString (fst (thermal_field operation raw arrays e))) # snd (thermal_field operation raw arrays e))"

lemma thermal_fields_fold:
  "thermal_fields operation raw arrays layout =
     fold (\<lambda>e acc. gm_put (fst e) (thermal_member operation raw arrays e) acc) layout (raw_fields raw)"
  by (simp add: thermal_fields_def thermal_member_def split_beta Let_def)

lemma thermal_fields_get:
  assumes "distinct (map fst layout)"
  shows "e \<in> set layout \<Longrightarrow>
       gm_get (thermal_fields operation raw arrays layout) (fst e) = Some (thermal_member operation raw arrays e)"
    and "k \<notin> fst ` set layout \<Longrightarrow>
       gm_get (thermal_fields operation raw arrays layout) k = gm_get (raw_fields raw) k"
  unfolding thermal_fields_fold by (rule flow_fields_get [OF assms] fold_put_other; assumption)+

lemma thermal_known:
  "fst (thermal_field operation raw arrays e) \<noteq> ''Unknown''"
  by (cases e) (auto simp: thermal_field_def thermal_meaning_def Let_def split: option.split)

lemma thermal_unknown_left:
  assumes "gm_ok raw" and d: "distinct (map fst layout)"
  shows "list_ex (\<lambda>(_, f). output_member f ''state'' = Some (JString ''Unknown''))
       (thermal_fields operation raw arrays layout) \<longleftrightarrow> \<not> gm_keys raw \<subseteq> fst ` set layout"
proof -
  let ?fs = "thermal_fields operation raw arrays layout"
  have ok: "gm_ok ?fs" unfolding thermal_fields_fold using assms(1) by (simp add: fold_put_distinct raw_fields_def)
  have keys: "gm_keys ?fs = fst ` set layout \<union> gm_keys raw"
    unfolding thermal_fields_fold by (simp add: fold_put_keys raw_fields_def)
  have "(\<exists>v. gm_get ?fs k = Some v \<and> output_member v ''state'' = Some (JString ''Unknown'')) \<longleftrightarrow>
      k \<in> gm_keys raw - fst ` set layout" if "k \<in> gm_keys ?fs" for k
  proof (cases "k \<in> fst ` set layout")
    case True
    then obtain e where "e \<in> set layout" "k = fst e" by blast
    then show ?thesis using thermal_fields_get(1) [OF d] thermal_known by (auto simp: thermal_member_def)
  next
    case False
    then have "k \<in> gm_keys raw" using that by (simp add: keys)
    then show ?thesis using False thermal_fields_get(2) [OF d False]
      by (auto simp: gm_keys_iff raw_fields_def)
  qed
  then show ?thesis unfolding list_ex_gm [OF ok] keys by blast
qed

text \<open>A field that is read: it has its width and neither a disputed unit nor an unknown position.\<close>

definition thermal_readable :: "(string, int list) gomap \<Rightarrow> string \<times> nat \<Rightarrow> bool" where
  "thermal_readable arrays = (\<lambda>(name, width).
     name \<notin> set (''stack_voltage'' # integrity_names) \<and>
     (case gm_get arrays name of None \<Rightarrow> False | Some bs \<Rightarrow> length bs = width))"

lemma thermal_complete: "fst (thermal_field operation raw arrays e) = ''complete'' \<longleftrightarrow> thermal_readable arrays e"
  by (cases e) (auto simp: thermal_field_def thermal_readable_def thermal_meaning_def integrity_names_def Let_def split: option.split)

lemma demand_flags_lossless: "inj_on (\<lambda>n. (demand_flags n, n AND 224)) {0..255}"
proof (rule inj_onI)
  fix m n :: int
  assume range: "m \<in> {0..255}" "n \<in> {0..255}" and eq: "(demand_flags m, m AND 224) = (demand_flags n, n AND 224)"
  have flag: "(k AND push_bit i 1 \<noteq> 0) = bit k i" for k :: int and i
    using and_exp_eq_0_iff_not_bit [of k i] by simp
  have "bit m 0 = bit n 0" "bit m 1 = bit n 1" "bit m 2 = bit n 2" "bit m 3 = bit n 3" "bit m 4 = bit n 4" "m AND 224 = n AND 224"
    using eq unfolding demand_flags_def flag by simp_all
  then show "m = n"
    using same_bits [of m 224 n] by (intro byte_int_eq [OF range]) (auto simp: bit_numeral_simps)
qed

text \<open>
  A selected document is complete exactly when every field its view asks for has its width, none is a stack
  voltage or an integrity byte, and no other field is given. A temperature of two bytes is the exact decimal
  of the signed word in sixteenths of a degree, and the flags and reserved bits of the demand determine its
  byte.
\<close>

theorem thermal_fields_exact:
  assumes "thermal_selection ctx = Some (view, operation)" and "gm_ok raw"
  shows "let layout = thermal_layout view operation arrays; out = thermal_document ctx raw arrays args
     in output_member out ''state'' = Some (JString
          (if list_all (thermal_readable arrays) layout \<and> gm_keys raw \<subseteq> fst ` set layout then ''complete'' else ''partial'')) \<and>
        list_all (\<lambda>(name, width). case gm_get arrays name of
            Some [low, high] \<Rightarrow>
              width = 2 \<longrightarrow> name \<noteq> ''stack_voltage'' \<longrightarrow>
                map_option (\<lambda>v. case v of JNumber t \<Rightarrow> decimal_value t | _ \<Rightarrow> 0) (output_field out name ''number'') =
                Some (of_int (sint (thermal_word [low, high])) / 16)
          | _ \<Rightarrow> True) layout \<and>
        inj_on (\<lambda>n. (demand_flags n, n AND 224)) {0..255}"
proof -
  let ?layout = "thermal_layout view operation arrays"
  let ?out = "thermal_document ctx raw arrays args"
  note d = thermal_layout_distinct [of view operation arrays]
  have out: "?out = context_output ctx raw args (if thermal_partial operation raw arrays ?layout then ''partial'' else ''complete'')
      (thermal_fields operation raw arrays ?layout)"
    using assms(1) by (simp add: thermal_document_def Let_def)
  have "thermal_partial operation raw arrays ?layout \<longleftrightarrow>
      \<not> (list_all (thermal_readable arrays) ?layout \<and> gm_keys raw \<subseteq> fst ` set ?layout)"
    unfolding thermal_partial_def thermal_unknown_left [OF assms(2) d] thermal_complete
    by (auto simp: list_ex_iff list_all_iff)
  then have state: "output_member ?out ''state'' = Some (JString
      (if list_all (thermal_readable arrays) ?layout \<and> gm_keys raw \<subseteq> fst ` set ?layout then ''complete'' else ''partial''))"
    unfolding out by simp
  have "map_option (\<lambda>v. case v of JNumber t \<Rightarrow> decimal_value t | _ \<Rightarrow> 0) (output_field ?out name ''number'') =
      Some (of_int (sint (thermal_word [low, high])) / 16)"
    if e: "(name, 2) \<in> set ?layout" "gm_get arrays name = Some [low, high]" "name \<noteq> ''stack_voltage''" for name low high
  proof -
    have "name = ''temperature_one'' \<or> name = ''temperature_two'' \<or> name = ''temperature_three''"
      using e(1,3) by (cases view) (auto simp: thermal_layout_def integrity_names_def split: if_splits)
    then have "gm_get (snd (thermal_field operation raw arrays (name, 2))) ''number'' =
        Some (JNumber (decimal_text (sint (thermal_word [low, high]) * 625) 4))"
      by (auto simp: thermal_field_def e(2) thermal_meaning_def)
    then show ?thesis
      using thermal_fields_get(1) [OF d e(1), of operation raw arrays]
      unfolding out by (simp add: output_field_def context_output_def thermal_member_def decimal_text_value)
  qed
  then have "list_all (\<lambda>(name, width). case gm_get arrays name of
      Some [low, high] \<Rightarrow>
        width = 2 \<longrightarrow> name \<noteq> ''stack_voltage'' \<longrightarrow>
          map_option (\<lambda>v. case v of JNumber t \<Rightarrow> decimal_value t | _ \<Rightarrow> 0) (output_field ?out name ''number'') =
          Some (of_int (sint (thermal_word [low, high])) / 16)
    | _ \<Rightarrow> True) ?layout"
    by (auto simp: list_all_iff split: option.split list.split)
  then show ?thesis using state demand_flags_lossless unfolding Let_def by blast
qed

definition sample_thermal_context :: "(string, json) gomap" where
  "sample_thermal_context =
     [(''primary'', JNumber ''181''), (''secondary'', JNumber ''15''), (''operation'', JNumber ''3''),
      (''direction'', JString ''positive''), (''view'', JString ''demand'')]"

theorem thermal_fields_exact_witness:
  "output_member (thermal_document sample_thermal_context
       [(''demand'', JArray [json_int 9]), (''feedback'', JArray [json_int 1])] [(''demand'', [9]), (''feedback'', [1])] None) ''state'' =
     Some (JString ''complete'')"
proof -
  have sel: "thermal_selection sample_thermal_context = Some (ViewDemand, ''3'')"
    by (simp add: thermal_selection_def sample_thermal_context_def)
  have ok: "gm_ok [(''demand'', JArray [json_int 9]), (''feedback'', JArray [json_int 1])]"
    by (simp add: gm_ok_def)
  show ?thesis
    using thermal_fields_exact [OF sel ok, of "[(''demand'', [9]), (''feedback'', [1])]" None]
    by (simp add: Let_def thermal_layout_def thermal_readable_def integrity_names_def gm_has_def gm_keys_def)
qed

end
