(* ===== verification/Cat_Board.thy ===== *)
theory Cat_Board
  imports Cat_Thermal
begin

unbundle bit_operations_syntax

text \<open>
  Valve and board inputs and outputs of the B5 12 heat pump service (\<open>ab13ap13_b512_heatpump_io.go\<close>): fields
  of one or two bytes read as flags, labels or numbers. An error is \<open>None\<close>. Values of 8 and 16 bits in a
  \<open>uint64\<close> are naturals.
\<close>

section \<open>Arguments\<close>

text \<open>Every number within the arguments is an unsigned 32-bit one.\<close>

fun board_arguments_ok :: "json \<Rightarrow> bool" where
  "board_arguments_ok (JNumber s) \<longleftrightarrow> as_uint 32 (Some (JNumber s)) \<noteq> None"
| "board_arguments_ok (JObject obj) \<longleftrightarrow> list_all (\<lambda>(_, v). board_arguments_ok v) obj"
| "board_arguments_ok (JArray vs) \<longleftrightarrow> list_all board_arguments_ok vs"
| "board_arguments_ok v \<longleftrightarrow> True"

section \<open>Fields\<close>

definition board_names :: "nat \<Rightarrow> bool \<Rightarrow> string list" where
  "board_names operation request =
     (if operation = 15 \<and> request then [''output'', ''valve'']
      else if operation = 15 then [''temperature1'', ''temperature2'', ''input'', ''pressure'', ''backup'']
      else if operation = 16 \<and> request then [''actuator1'', ''actuator2'', ''inverse'']
      else if operation = 16
      then [''status'', ''phase1'', ''phase2'', ''adc0'', ''adc1'', ''adc2'', ''adc3'', ''adc4'', ''adc5'', ''board'']
      else [])"

definition board_width :: "string \<Rightarrow> nat" where
  "board_width name =
     (if name = ''temperature1'' \<or> name = ''temperature2'' \<or> name = ''inverse'' \<or>
         (length name = 4 \<and> take 3 name = ''adc'') then 2 else 1)"

definition flag_labels :: "string \<Rightarrow> string list" where
  "flag_labels name =
     (if name = ''output'' then [''output1'', ''output2'']
      else if name = ''actuator1''
      then [''cooling-valve'', ''passive-mixer1'', ''passive-mixer2'', ''cooling-active'', ''well-pump'', ''backup-safety'',
            ''backup1'', ''backup2'']
      else if name = ''actuator2'' then [''backup3'', ''external-valve'', ''external-backup'']
      else if name = ''status'' then [''anode1'', ''anode2'', ''smart-grid'', ''well'', ''safety-limiter'', ''safety'']
      else [])"

definition board_flags :: "string list \<Rightarrow> nat \<Rightarrow> (string, json) gomap" where
  "board_flags labels n =
     [(''flags'', JObject (map (\<lambda>(i, label). (label, JBool (n AND push_bit i 1 \<noteq> 0))) (enumerate 0 labels))),
      (''reserved'', json_nat (n AND push_bit (length labels) 255))]"

definition board_label :: "string \<Rightarrow> nat \<Rightarrow> string" where
  "board_label name n =
     (if name = ''valve'' then (if n < 3 then [''off'', ''CH'', ''DHW''] ! n else [])
      else if name = ''input'' then (if n < 2 then [''multipurpose'', ''utility-contact''] ! n else [])
      else if name = ''backup'' then
        (if n = 0 then ''off'' else if n \<le> 3 then ''step'' else if n = 255 then ''replacement'' else [])
      else if n \<le> 3 \<or> n = 11 \<or> n = 12 then ''opaque-code-'' @ nat_str n else [])"

definition board_proven :: "string \<Rightarrow> string \<Rightarrow> (string, json) gomap" where
  "board_proven t unit = [(''number'', JNumber t), (''calculation'', JString ''Proven''), (''unit'', JString unit)]"

definition approximate :: "string \<Rightarrow> nat list \<Rightarrow> json" where
  "approximate label ns =
     JObject [(''state'', JString ''Hypothesis''), (''label'', JString label), (''approximate'', JArray (map json_nat ns))]"

text \<open>The state and the further members of a field of its width, from its first byte and its word.\<close>

definition board_meaning :: "string \<Rightarrow> nat \<Rightarrow> nat \<Rightarrow> string \<times> (string, json) gomap" where
  "board_meaning name first word =
     (if name = ''temperature1'' \<or> name = ''temperature2'' then
        (''Hypothesis'',
           if word = 0x8000 then [(''label'', JString ''replacement'')]
           else board_proven (decimal_text (sint (of_nat word :: uint16) * 625) 4) ''Celsius'')
      else if name = ''pressure'' then
        (''Hypothesis'',
           board_proven (decimal_text (int first) 1) ''bar'' @
           [(''candidate_domain'', JBool True),
            (''alternatives'', JArray [JObject
               [(''state'', JString ''Hypothesis''), (''label'', JString ''candidate-default''), (''number'', json_nat 255),
                (''candidate_domain'', JBool False), (''conflict'', JBool True)]])])
      else if name = ''phase1'' \<or> name = ''phase2'' then
        (''Hypothesis'',
           [(''number'', json_nat first), (''unit'', JString ''percent''),
            (''alternatives'', JArray [approximate ''single-phase'' [50], approximate ''three-phase'' [0, 33, 66, 100]])])
      else if name \<in> {''adc0'', ''adc1'', ''adc2'', ''adc3'', ''adc4'', ''adc5''} then
        (''Hypothesis'', [(''number'', json_nat word), (''calculation'', JString ''Proven'')])
      else if name = ''inverse'' then
        (''Unknown'', [(''unmodeled'', JObject [(''order'', JString ''Unknown''), (''algorithm'', JString ''Unknown'')])])
      else if name = ''valve'' \<or> name = ''input'' \<or> name = ''backup'' \<or> name = ''board'' then
        (let label = board_label name first;
             number = (if name = ''backup'' \<and> 1 \<le> first \<and> first \<le> 3 then [(''number'', json_nat first)] else [])
         in if label = [] then (''Unknown'', number @ [(''unmodeled'', JBool True)])
            else (''Hypothesis'', number @ [(''label'', JString label)]))
      else (''Hypothesis'', board_flags (flag_labels name) first))"

definition uint_or_0 :: "json \<Rightarrow> nat" where
  "uint_or_0 v = (case as_uint 8 (Some v) of None \<Rightarrow> 0 | Some n \<Rightarrow> n)"

definition board_word :: "nat \<Rightarrow> json list \<Rightarrow> nat" where
  "board_word width vs = (if width = 2 then uint_or_0 (vs ! 0) OR push_bit 8 (uint_or_0 (vs ! 1)) else uint_or_0 (vs ! 0))"

definition board_array :: "(string, json) gomap \<Rightarrow> string \<Rightarrow> json list" where
  "board_array raw name = (case as_array (gm_get raw name) of None \<Rightarrow> [] | Some vs \<Rightarrow> vs)"

definition board_short :: "(string, json) gomap \<Rightarrow> string \<Rightarrow> bool" where
  "board_short raw name \<longleftrightarrow> \<not> gm_has raw name \<or> length (board_array raw name) \<noteq> board_width name"

definition board_field :: "(string, json) gomap \<Rightarrow> string \<Rightarrow> json" where
  "board_field raw name =
     (let given = (case gm_get raw name of None \<Rightarrow> [] | Some v \<Rightarrow> [(''raw'', v)]); vs = board_array raw name
      in if board_short raw name then JObject ((''state'', JString ''incomplete'') # given)
         else let (state, more) = board_meaning name (uint_or_0 (vs ! 0)) (board_word (board_width name) vs)
              in JObject ((''state'', JString state) # given @ more))"

definition board_document ::
  "(string, json) gomap \<Rightarrow> (string, json) gomap \<Rightarrow> (string, json) gomap option \<Rightarrow> json" where
  "board_document ctx raw args =
     (let axis = (\<lambda>key. case as_uint 8 (gm_get ctx key) of None \<Rightarrow> 0 | Some n \<Rightarrow> n);
          direction = gm_get ctx ''direction''; view = gm_get ctx ''view''; operation = axis ''operation'';
          names = board_names operation (direction = Some (JString ''request''))
      in if axis ''primary'' = 181 \<and> axis ''secondary'' = 18 \<and>
            (direction = Some (JString ''request'') \<or> direction = Some (JString ''positive'')) \<and>
            (operation = 15 \<and> view = Some (JString ''valve-io'') \<or> operation = 16 \<and> view = Some (JString ''board-io''))
         then context_output ctx raw args (if list_ex (board_short raw) names then ''partial'' else ''complete'')
                (map (\<lambda>name. (name, board_field raw name)) names)
         else context_output ctx raw args ''Unknown'' [])"

definition ab13ap13_evaluate :: "token list \<Rightarrow> bool \<Rightarrow> json option" where
  "ab13ap13_evaluate ts at_end =
     Option.bind (json_document ts at_end) (\<lambda>doc.
     Option.bind (as_object (Some doc)) (\<lambda>obj.
     Option.bind (as_object (gm_get obj ''context'')) (\<lambda>ctx.
     Option.bind (as_object (gm_get obj ''fields'')) (\<lambda>raw.
     if \<not> list_all (\<lambda>key. is_nil (gm_get ctx key) \<or> as_uint 8 (gm_get ctx key) \<noteq> None) [''primary'', ''secondary'', ''operation'']
     then None
     else if \<not> list_all (\<lambda>key. is_nil (gm_get ctx key) \<or> as_string (gm_get ctx key) \<noteq> None) [''view'', ''direction''] then None
     else if \<not> list_all (\<lambda>(_, v). byte_array v) raw then None
     else Option.bind (optional_arguments obj) (\<lambda>args.
     if \<not> board_arguments_ok (JObject (case args of None \<Rightarrow> [] | Some a \<Rightarrow> a)) then None
     else Some (board_document ctx raw args))))))"


section \<open>What the document reports\<close>

lemma nat_byte_eq:
  fixes m n :: nat
  assumes "m \<le> 255" "n \<le> 255" and "\<And>k. k < 8 \<Longrightarrow> bit m k = bit n k"
  shows "m = n"
proof -
  have "take_bit 8 m = take_bit 8 n"
    by (rule bit_eqI) (auto simp: bit_take_bit_iff assms(3))
  then show ?thesis using assms(1,2) by (simp add: take_bit_nat_eq_self)
qed

lemma flag_bit: "((n :: nat) AND push_bit i 1 \<noteq> 0) = bit n i"
  using and_exp_eq_0_iff_not_bit [of n i] by simp

lemma reserved_bit:
  fixes m n :: nat
  assumes "m AND push_bit k 255 = n AND push_bit k 255" and "k \<le> i" "i < 8"
  shows "bit m i = bit n i"
proof -
  have mask: "(255 :: nat) = mask 8" by (simp add: mask_eq_exp_minus_1)
  have "bit (push_bit k 255 :: nat) i"
    using assms(2,3) unfolding mask bit_push_bit_iff bit_mask_iff by simp
  then show ?thesis using assms(1) by (metis bit_and_iff)
qed

text \<open>The named flags of a byte and its reserved bits determine it.\<close>

lemma board_flags_lossless:
  assumes "length labels \<le> 8"
  shows "inj_on (board_flags labels) {0..255}"
proof (rule inj_onI)
  fix m n :: nat
  assume range: "m \<in> {0..255}" "n \<in> {0..255}" and eq: "board_flags labels m = board_flags labels n"
  have flags: "map (\<lambda>(i, label). (label, JBool (bit m i))) (enumerate 0 labels) =
      map (\<lambda>(i, label). (label, JBool (bit n i))) (enumerate 0 labels)"
    and reserved: "m AND push_bit (length labels) 255 = n AND push_bit (length labels) 255"
    using eq by (simp_all only: board_flags_def flag_bit json_nat_inj list.inject prod.inject json.inject)
  have "bit m i = bit n i" if i: "i < 8" for i
  proof (cases "i < length labels")
    case True
    then have "(i, labels ! i) \<in> set (enumerate 0 labels)"
      by (metis add_0 enumerate_eq_zip in_set_enumerate_eq nth_enumerate_eq nth_mem length_enumerate)
    then show ?thesis using flags by (auto dest: map_eq_conv [THEN iffD1])
  next
    case False
    then show ?thesis using reserved_bit [OF reserved, of i] i by simp
  qed
  then show "m = n" using range by (intro nat_byte_eq) auto
qed

definition board_selected :: "(string, json) gomap \<Rightarrow> nat \<Rightarrow> bool \<Rightarrow> bool" where
  "board_selected ctx operation request \<longleftrightarrow>
     as_uint 8 (gm_get ctx ''primary'') = Some 181 \<and> as_uint 8 (gm_get ctx ''secondary'') = Some 18 \<and>
     as_uint 8 (gm_get ctx ''operation'') = Some operation \<and>
     gm_get ctx ''direction'' = Some (JString (if request then ''request'' else ''positive'')) \<and>
     (operation = 15 \<and> gm_get ctx ''view'' = Some (JString ''valve-io'') \<or>
      operation = 16 \<and> gm_get ctx ''view'' = Some (JString ''board-io''))"

lemma board_names_distinct: "distinct (board_names operation request)"
  by (simp add: board_names_def)

lemma board_document_selected:
  assumes "board_selected ctx operation request"
  shows "board_document ctx raw args =
     context_output ctx raw args (if list_ex (board_short raw) (board_names operation request) then ''partial'' else ''complete'')
       (map (\<lambda>name. (name, board_field raw name)) (board_names operation request))"
  using assms by (cases request) (auto simp: board_document_def board_selected_def Let_def)

lemma board_output:
  assumes "board_selected ctx operation request" and "name \<in> set (board_names operation request)"
  shows "output_field (board_document ctx raw args) name key = output_member (board_field raw name) key"
proof -
  have "map_of (map (\<lambda>name. (name, board_field raw name)) (board_names operation request)) name = Some (board_field raw name)"
    using assms(2) by (simp add: map_of_map_restrict)
  then show ?thesis
    unfolding board_document_selected [OF assms(1)] output_field_def context_output_def by (simp add: gm_get_def)
qed

definition board_value :: "string \<Rightarrow> json list \<Rightarrow> rat option" where
  "board_value name vs =
     (if name = ''temperature1'' \<or> name = ''temperature2'' then
        (if board_word 2 vs = 0x8000 then None else Some (of_int (sint (of_nat (board_word 2 vs) :: uint16)) / 16))
      else if name = ''pressure'' then Some (of_nat (uint_or_0 (vs ! 0)) / 10)
      else if name \<in> {''phase1'', ''phase2''} then Some (of_nat (uint_or_0 (vs ! 0)))
      else if name \<in> {''adc0'', ''adc1'', ''adc2'', ''adc3'', ''adc4'', ''adc5''} then Some (of_nat (board_word 2 vs))
      else if name = ''backup'' then
        (if uint_or_0 (vs ! 0) \<in> {1, 2, 3} then Some (of_nat (uint_or_0 (vs ! 0))) else None)
      else None)"

definition number_value :: "json \<Rightarrow> rat" where
  "number_value v = (case v of JNumber t \<Rightarrow> decimal_value t | _ \<Rightarrow> 0)"

lemma json_nat_value: "number_value (json_nat n) = of_nat n"
proof -
  have "int_str (int n) = nat_str n" by (simp add: int_str_def)
  then show ?thesis using int_str_value [of "int n"] by (simp add: number_value_def json_nat_def)
qed

definition board_number_ok :: "json list \<Rightarrow> string \<Rightarrow> bool" where
  "board_number_ok vs name \<longleftrightarrow>
     map_option number_value (gm_get (snd (board_meaning name (uint_or_0 (vs ! 0)) (board_word (board_width name) vs))) ''number'') =
     board_value name vs"

lemma board_value_texts:
  "number_value (JNumber (decimal_text (int n) (Suc 0))) = of_nat n / 10"
  "number_value (JNumber (decimal_text (k * 625) 4)) = of_int k / 16"
  by (simp_all add: number_value_def decimal_text_value)

lemmas board_number_simps =
  board_number_ok_def board_meaning_def board_value_def board_proven_def board_flags_def board_width_def Let_def
  board_value_texts json_nat_value

lemma board_numbers_15:
  "list_all (board_number_ok vs) [''output'', ''valve'']"
  "list_all (board_number_ok vs) [''temperature1'', ''temperature2'']"
  "list_all (board_number_ok vs) [''input'', ''pressure'']"
  by (simp_all add: board_number_simps)

lemma board_numbers_backup: "board_number_ok vs ''backup''"
proof -
  have "Suc 0 \<le> n \<and> n \<le> 3 \<longleftrightarrow> n = 1 \<or> n = 2 \<or> n = 3" for n :: nat by auto
  then show ?thesis by (simp add: board_number_simps)
qed

lemma board_numbers_16:
  "list_all (board_number_ok vs) [''actuator1'', ''actuator2'', ''inverse'', ''status'']"
  "list_all (board_number_ok vs) [''phase1'', ''phase2'', ''board'']"
  "list_all (board_number_ok vs) [''adc0'', ''adc1'', ''adc2'']"
  "list_all (board_number_ok vs) [''adc3'', ''adc4'', ''adc5'']"
  by (simp_all add: board_number_simps)

lemma board_meaning_number: "list_all (board_number_ok vs) (board_names operation request)"
  using board_numbers_15 [of vs] board_numbers_backup [of vs] board_numbers_16 [of vs]
  by (simp add: board_names_def)

text \<open>
  A selected document is complete exactly when every field has its width. A field that has it gives the exact
  decimal of its quantity, unless its code stands for none, and a field of another width no number. Where
  flags are named, flags and reserved bits determine the byte.
\<close>

theorem board_fields_exact:
  assumes "board_selected ctx operation request" and "name \<in> set (board_names operation request)"
  shows "let out = board_document ctx raw args; vs = board_array raw name
     in output_member out ''state'' = Some (JString
          (if list_all (\<lambda>name. gm_has raw name \<and> length (board_array raw name) = board_width name) (board_names operation request)
           then ''complete'' else ''partial'')) \<and>
        map_option number_value (output_field out name ''number'') =
          (if gm_has raw name \<and> length vs = board_width name then board_value name vs else None) \<and>
        inj_on (board_flags (flag_labels name)) {0..255}"
proof -
  have "list_ex (board_short raw) names \<longleftrightarrow>
      \<not> list_all (\<lambda>name. gm_has raw name \<and> length (board_array raw name) = board_width name) names" for names
    by (induction names) (auto simp: board_short_def)
  then have state: "output_member (board_document ctx raw args) ''state'' = Some (JString
      (if list_all (\<lambda>name. gm_has raw name \<and> length (board_array raw name) = board_width name) (board_names operation request)
       then ''complete'' else ''partial''))"
    unfolding board_document_selected [OF assms(1)] by simp
  have "map_option number_value (output_member (board_field raw name) ''number'') =
      (if gm_has raw name \<and> length (board_array raw name) = board_width name then board_value name (board_array raw name) else None)"
    using board_meaning_number [of "board_array raw name" operation request] assms(2)
    unfolding list_all_iff board_number_ok_def
    by (cases "gm_get raw name") (simp_all add: board_field_def board_short_def gm_has_def Let_def split_beta)
  moreover have "length (flag_labels name) \<le> 8" by (simp add: flag_labels_def)
  ultimately show ?thesis
    using state board_flags_lossless unfolding Let_def board_output [OF assms] by blast
qed

definition sample_board_context :: "(string, json) gomap" where
  "sample_board_context =
     [(''primary'', json_nat 181), (''secondary'', json_nat 18), (''operation'', json_nat 15),
      (''direction'', JString ''positive''), (''view'', JString ''valve-io'')]"

theorem board_fields_exact_witness:
  "let out = board_document sample_board_context [(''pressure'', JArray [json_nat 15])] None
   in output_member out ''state'' = Some (JString ''partial'') \<and>
      map_option number_value (output_field out ''pressure'' ''number'') = Some (3 / 2)"
proof -
  have sel: "board_selected sample_board_context 15 False"
    by (simp add: board_selected_def sample_board_context_def)
  have name: "''pressure'' \<in> set (board_names 15 False)" by (simp add: board_names_def)
  have "board_array [(''pressure'', JArray [json_nat 15])] ''pressure'' = [json_nat 15]"
    by (simp add: board_array_def as_array_def)
  moreover have "board_width ''pressure'' = 1" by (simp add: board_width_def)
  moreover have "board_value ''pressure'' [json_nat 15] = Some (3 / 2)"
    by (simp add: board_value_def uint_or_0_def)
  ultimately show ?thesis
    using board_fields_exact [OF sel name, of "[(''pressure'', JArray [json_nat 15])]" None]
    by (simp add: Let_def gm_has_def board_names_def)
qed

end
