(* ===== verification/Cat_Number.thy ===== *)
theory Cat_Number
  imports Cat_Flow
begin

text \<open>
  Numbers of a JSON text as exact rationals, and the readers that fail on one that no finite double is
  nearest to: their test is \<open>Float64\<close> or \<open>ParseFloat\<close>, which report an error exactly from
  half a unit above the largest double on.
\<close>

definition number_mantissa :: "string \<Rightarrow> string" where
  "number_mantissa s = takeWhile (\<lambda>c. c \<noteq> CHR ''e'' \<and> c \<noteq> CHR ''E'') s"

text \<open>The decimal exponent of a number, zero when there is none.\<close>

definition number_exponent :: "string \<Rightarrow> int option" where
  "number_exponent s =
     (case drop (length (number_mantissa s)) s of [] \<Rightarrow> Some 0 | _ # digits \<Rightarrow> int_parse digits)"

definition exact_number :: "string \<Rightarrow> rat option" where
  "exact_number s = map_option (\<lambda>e. decimal_value (number_mantissa s) * 10 powi e) (number_exponent s)"

definition double_bound :: rat where
  "double_bound = 2 ^ 1024 - 2 ^ 970"

definition finite_number :: "string \<Rightarrow> bool" where
  "finite_number s \<longleftrightarrow> (case exact_number s of None \<Rightarrow> False | Some v \<Rightarrow> \<bar>v\<bar> < double_bound)"

definition token_finite :: "token \<Rightarrow> bool" where
  "token_finite t \<longleftrightarrow> (case t of TokNumber s \<Rightarrow> finite_number s | _ \<Rightarrow> True)"

text \<open>A document all of whose numbers are finite. A document uses all its tokens, so any other one fails.\<close>

definition finite_document :: "token list \<Rightarrow> bool \<Rightarrow> json option" where
  "finite_document ts at_end = (if list_all token_finite ts then json_document ts at_end else None)"

text \<open>
  \<open>Rat.SetString\<close> on the text of a JSON number: the exponent is an int64, and unless the digits are all zero its
  decimal exponent without the point is at most a million either way.
\<close>

definition fraction_digits :: "string \<Rightarrow> nat" where
  "fraction_digits s = length (drop (length (takeWhile (\<lambda>c. c \<noteq> CHR ''.'') (number_mantissa s)) + 1) (number_mantissa s))"

definition big_rat :: "string \<Rightarrow> rat option" where
  "big_rat s =
     (case number_exponent s of
        None \<Rightarrow> None
      | Some e \<Rightarrow>
          if \<not> is_int64 e then None
          else if decimal_value (number_mantissa s) = 0 then Some 0
          else if \<bar>e - int (fraction_digits s)\<bar> > 1000000 then None
          else Some (decimal_value (number_mantissa s) * 10 powi e))"

text \<open>An integer text denotes its integer.\<close>

lemma int_str_exact: "exact_number (int_str n) = Some (of_int n)"
proof -
  have plain: "c \<noteq> CHR ''e'' \<and> c \<noteq> CHR ''E''" if "c \<in> set (int_str n)" for c
    using that nat_str_digits [of "nat \<bar>n\<bar>"]
    by (auto simp: int_str_def list_all_iff is_digit_def split: if_splits)
  then have "number_mantissa (int_str n) = int_str n"
    unfolding number_mantissa_def by (simp add: takeWhile_eq_all_conv)
  then show ?thesis by (simp add: exact_number_def number_exponent_def int_str_value)
qed

lemma big_rat_int_str: "big_rat (int_str n) = Some (of_int n)"
proof -
  have exact: "number_exponent (int_str n) = Some e \<Longrightarrow> decimal_value (number_mantissa (int_str n)) * 10 powi e = of_int n" for e
    using int_str_exact [of n] by (simp add: exact_number_def)
  have plain: "c \<noteq> CHR ''e'' \<and> c \<noteq> CHR ''E'' \<and> c \<noteq> CHR ''.''" if "c \<in> set (int_str n)" for c
    using that nat_str_digits [of "nat \<bar>n\<bar>"]
    by (auto simp: int_str_def list_all_iff is_digit_def split: if_splits)
  then have m: "number_mantissa (int_str n) = int_str n"
    unfolding number_mantissa_def by (simp add: takeWhile_eq_all_conv)
  then have e: "number_exponent (int_str n) = Some 0" by (simp add: number_exponent_def)
  have whole: "takeWhile (\<lambda>c. c \<noteq> CHR ''.'') (int_str n) = int_str n"
    using plain by (simp add: takeWhile_eq_all_conv)
  have "fraction_digits (int_str n) = 0" unfolding fraction_digits_def m whole by simp
  then show ?thesis using exact [OF e] by (simp add: big_rat_def e m is_int64_def max_int64_def)
qed

end
