(* ===== verification/Cat_Periods.thy ===== *)
theory Cat_Periods
  imports Cat_Number
begin

text \<open>
  Periods of the B5 15 service (\<open>ab09aq09_b515_period_fields.go\<close>): endpoints in units of ten minutes, and
  the order of three intervals. Integers are at most 1440 and read as naturals; an error is \<open>None\<close>.
\<close>

section \<open>Admission\<close>

definition bounded_integer :: "nat \<Rightarrow> json option \<Rightarrow> nat option" where
  "bounded_integer maximum v =
     (case as_uint 16 v of None \<Rightarrow> None | Some n \<Rightarrow> if n > maximum then None else Some n)"

definition bounded_array :: "json \<Rightarrow> bool" where
  "bounded_array v \<longleftrightarrow>
     (case v of JArray vs \<Rightarrow> list_all (\<lambda>b. bounded_integer 255 (Some b) \<noteq> None) vs | _ \<Rightarrow> False)"

text \<open>Whether an axis has its value; \<open>None\<close> when it is not a byte.\<close>

definition period_axis :: "(string, json) gomap \<Rightarrow> string \<times> nat \<Rightarrow> bool option" where
  "period_axis ctx = (\<lambda>(key, expected).
     case gm_get ctx key of
       None \<Rightarrow> Some False
     | Some v \<Rightarrow> map_option (\<lambda>n. n = expected) (bounded_integer 255 (Some v)))"

definition optional_bounded :: "nat \<Rightarrow> (string, json) gomap \<Rightarrow> string \<Rightarrow> nat option option" where
  "optional_bounded maximum obj key =
     (case gm_get obj key of None \<Rightarrow> Some None | Some v \<Rightarrow> map_option Some (bounded_integer maximum (Some v)))"

definition read_pair :: "json \<Rightarrow> (nat \<times> nat) option" where
  "read_pair v =
     (case v of
        JArray [a, b] \<Rightarrow>
          Option.bind (bounded_integer 255 (Some a)) (\<lambda>x. map_option (Pair x) (bounded_integer 255 (Some b)))
      | _ \<Rightarrow> None)"

text \<open>Three pairs of endpoints, or none given.\<close>

definition read_pairs :: "(string, json) gomap \<Rightarrow> (json list \<times> (nat \<times> nat) list) option option" where
  "read_pairs args =
     (case gm_get args ''pairs'' of
        None \<Rightarrow> Some None
      | Some v \<Rightarrow>
          (case v of
             JArray vs \<Rightarrow>
               if length vs \<noteq> 3 then None else map_option (\<lambda>ps. Some (vs, ps)) (those (map read_pair vs))
           | _ \<Rightarrow> None))"

section \<open>Readings\<close>

definition two_digits :: "nat \<Rightarrow> string" where
  "two_digits n = (if n < 10 then CHR ''0'' # nat_str n else nat_str n)"

definition period_reading :: "nat \<Rightarrow> string \<times> (string, json) gomap" where
  "period_reading n =
     (if n \<le> 144 then
        (let minutes = n * 10
         in (''Hypothesis'',
               [(''calculation'', JString ''Proven''), (''number'', json_nat minutes), (''hour'', json_nat (minutes div 60)),
                (''minute'', json_nat (minutes mod 60)),
                (''label'', JString (two_digits (minutes div 60) @ '':'' @ two_digits (minutes mod 60)))]))
      else (''Unknown'', []))"

definition period_field :: "(string, json) gomap \<Rightarrow> string \<Rightarrow> json" where
  "period_field raw key =
     (case gm_get raw key of
        None \<Rightarrow> JObject [(''state'', JString ''incomplete'')]
      | Some v \<Rightarrow>
          (case v of
             JArray [b] \<Rightarrow>
               let (state, more) = period_reading (case bounded_integer 255 (Some b) of None \<Rightarrow> 0 | Some n \<Rightarrow> n)
               in JObject ([(''raw'', v), (''state'', JString state)] @ more)
           | _ \<Rightarrow> JObject [(''state'', JString ''incomplete''), (''raw'', v)]))"

definition period_names :: "string list" where
  "period_names = [''period0'', ''period1'', ''period2'']"

definition period_single :: "(string, json) gomap \<Rightarrow> string \<Rightarrow> bool" where
  "period_single raw key \<longleftrightarrow> (case gm_get raw key of Some (JArray [b]) \<Rightarrow> True | _ \<Rightarrow> False)"

definition minutes_field :: "json \<Rightarrow> nat \<Rightarrow> json" where
  "minutes_field v minutes =
     (if minutes mod 10 = 0
      then JObject [(''raw'', v), (''state'', JString ''Hypothesis''), (''calculation'', JString ''Proven''),
             (''number'', json_nat (minutes div 10))]
      else JObject [(''raw'', v), (''state'', JString ''Unknown'')])"

definition pair_result :: "json \<times> nat \<times> nat \<Rightarrow> json" where
  "pair_result = (\<lambda>(v, start, stop).
     JObject [(''raw'', v), (''state'', JString ''Hypothesis''), (''calculation'', JString ''Proven''),
       (''label'', JString (if start = stop then ''disabled'' else ''enabled-candidate'')),
       (''start'', json_nat start), (''end'', json_nat stop)])"

definition start_order :: "json \<Rightarrow> (nat \<times> nat) list \<Rightarrow> json" where
  "start_order v pairs =
     (if list_all (\<lambda>(start, stop). \<not> (start > 144 \<or> stop > 144)) pairs
      then JObject [(''raw'', v), (''state'', JString ''Hypothesis''), (''calculation'', JString ''Proven''),
             (''value'', JBool (fst (pairs ! 0) < fst (pairs ! 1) \<and> fst (pairs ! 1) < fst (pairs ! 2)))]
      else JObject [(''raw'', v), (''state'', JString ''Unknown'')])"

section \<open>Documents\<close>

definition period_output ::
  "(string, json) gomap \<Rightarrow> string \<Rightarrow> (string, json) gomap \<Rightarrow> json" where
  "period_output obj state results =
     JObject
       ([(''context'', raw_of obj ''context''), (''fields'', raw_of obj ''fields''),
         (''extra'', JObject (gm_filter (\<lambda>key _. key \<noteq> ''context'' \<and> key \<noteq> ''fields'' \<and> key \<noteq> ''arguments'') obj)),
         (''results'', JObject results), (''state'', JString state), (''physical'', JString ''Unknown''),
         (''qualified'', JBool False)] @
        (case gm_get obj ''arguments'' of None \<Rightarrow> [] | Some a \<Rightarrow> [(''arguments'', a)]))"

definition period_results ::
  "(string, json) gomap \<Rightarrow> (string, json) gomap \<Rightarrow> nat \<Rightarrow> (string, json) gomap" where
  "period_results raw args minutes =
     (let rs = fold (\<lambda>key acc. gm_put key (period_field raw key) acc) period_names (raw_fields raw)
      in case gm_get args ''minutes'' of None \<Rightarrow> rs | Some v \<Rightarrow> gm_put ''minutes'' (minutes_field v minutes) rs)"

definition interval_results ::
  "(string, json) gomap \<Rightarrow> json \<Rightarrow> json list \<times> (nat \<times> nat) list \<Rightarrow> (string, json) gomap" where
  "interval_results raw v = (\<lambda>(vs, pairs).
     gm_put ''start_order'' (start_order v pairs)
       (gm_put ''pairs''
          (JObject [(''raw'', v), (''state'', JString ''Hypothesis''), (''alternatives'', JArray (map pair_result (zip vs pairs)))])
          (raw_fields raw)))"

definition period_supported :: "(string, json) gomap \<Rightarrow> bool list \<Rightarrow> bool" where
  "period_supported ctx axes \<longleftrightarrow>
     list_all (\<lambda>b. b) axes \<and> \<not> gm_has ctx ''operation'' \<and>
     (gm_get ctx ''view'' = Some (JString ''periods'') \<and>
        (gm_get ctx ''direction'' = Some (JString ''request'') \<or> gm_get ctx ''direction'' = Some (JString ''positive'')) \<or>
      gm_get ctx ''view'' = Some (JString ''intervals'') \<and> gm_get ctx ''direction'' = Some (JString ''request''))"

definition period_document ::
  "(string, json) gomap \<Rightarrow> (string, json) gomap \<Rightarrow> (string, json) gomap \<Rightarrow> (string, json) gomap \<Rightarrow> bool \<Rightarrow>
     nat \<Rightarrow> (json list \<times> (nat \<times> nat) list) option \<Rightarrow> json option" where
  "period_document obj ctx raw args supported minutes pairs =
     (let intervals = (gm_get ctx ''view'' = Some (JString ''intervals''))
      in if supported \<and> intervals \<and> pairs = None then None
         else if \<not> supported then Some (period_output obj ''Unknown'' [])
         else case pairs of
                Some ps \<Rightarrow>
                  if intervals then Some (period_output obj ''complete'' (interval_results raw (raw_of args ''pairs'') ps))
                  else Some (period_output obj (if list_all (period_single raw) period_names then ''complete'' else ''partial'')
                         (period_results raw args minutes))
              | None \<Rightarrow>
                  Some (period_output obj (if list_all (period_single raw) period_names then ''complete'' else ''partial'')
                    (period_results raw args minutes)))"

definition ab09aq09_evaluate :: "token list \<Rightarrow> bool \<Rightarrow> json option" where
  "ab09aq09_evaluate ts at_end =
     Option.bind (finite_document ts at_end) (\<lambda>doc.
     Option.bind (as_object (Some doc)) (\<lambda>obj.
     Option.bind (as_object (gm_get obj ''context'')) (\<lambda>ctx.
     Option.bind (as_object (gm_get obj ''fields'')) (\<lambda>raw.
     if \<not> list_all (\<lambda>(_, v). bounded_array v) raw then None
     else Option.bind (those (map (period_axis ctx) [(''primary'', 181), (''secondary'', 21)])) (\<lambda>axes.
     if gm_has ctx ''operation'' \<and> bounded_integer 255 (gm_get ctx ''operation'') = None then None
     else if \<not> list_all (\<lambda>key. gm_has ctx key \<longrightarrow> as_string (gm_get ctx key) \<noteq> None) [''direction'', ''view''] then None
     else Option.bind (optional_arguments obj) (\<lambda>given.
     let args = (case given of None \<Rightarrow> [] | Some a \<Rightarrow> a)
     in Option.bind (optional_bounded 1440 args ''minutes'') (\<lambda>minutes.
        Option.bind (read_pairs args) (\<lambda>pairs.
        period_document obj ctx raw args (period_supported ctx axes) (case minutes of None \<Rightarrow> 0 | Some n \<Rightarrow> n) pairs))))))))"


section \<open>What the document reports\<close>

lemma digits_val_zero: "digits_val (CHR ''0'' # s) = digits_val s"
  using digits_val_joined [of "[CHR ''0'']" s] by (simp add: digits_val_def digit_val_def)

lemma two_digits_val: "digits_val (two_digits n) = n"
  by (simp add: two_digits_def digits_val_zero)

lemma two_digits_inj: "two_digits m = two_digits n \<longleftrightarrow> m = n"
  by (metis two_digits_val)

lemma nat_str_short: "nat_str n \<noteq> [] \<and> list_all is_digit (nat_str n)"
  using nat_str_digits [of n] by simp

lemma two_digits_plain: "list_all (\<lambda>c. c \<noteq> CHR '':'') (two_digits n)"
  using nat_str_short [of n] by (auto simp: two_digits_def is_digit_def list_all_iff)

lemma colon_split:
  assumes "list_all (\<lambda>c. c \<noteq> CHR '':'') a" and "list_all (\<lambda>c. c \<noteq> CHR '':'') b"
    and "a @ CHR '':'' # r = b @ CHR '':'' # t"
  shows "a = b \<and> r = t"
  using assms
proof (induction a arbitrary: b)
  case (Cons x a)
  then show ?case by (cases b) auto
next
  case Nil
  then show ?case by (cases b) auto
qed

text \<open>The clock time of a period is that many tens of minutes, and its label tells the period.\<close>

definition period_time :: "nat \<Rightarrow> nat \<times> nat" where
  "period_time n = (n * 10 div 60, n * 10 mod 60)"

lemma period_time_exact:
  "fst (period_time n) * 60 + snd (period_time n) = n * 10" "n \<le> 144 \<Longrightarrow> fst (period_time n) \<le> 24"
  "snd (period_time n) < 60"
proof -
  show "fst (period_time n) * 60 + snd (period_time n) = n * 10"
    unfolding period_time_def fst_conv snd_conv by (rule div_mult_mod_eq)
  show "n \<le> 144 \<Longrightarrow> fst (period_time n) \<le> 24"
    using div_le_mono [of "n * 10" 1440 60] by (simp add: period_time_def)
  show "snd (period_time n) < 60" by (simp add: period_time_def)
qed

lemma period_reading_get:
  "gm_get (snd (period_reading n)) ''number'' = (if n \<le> 144 then Some (json_nat (n * 10)) else None)"
  "gm_get (snd (period_reading n)) ''label'' =
     (if n \<le> 144 then Some (JString (two_digits (fst (period_time n)) @ '':'' @ two_digits (snd (period_time n)))) else None)"
  by (simp_all add: period_reading_def period_time_def Let_def)

lemma period_labels: "inj_on (\<lambda>n. gm_get (snd (period_reading n)) ''label'') {0..144}"
proof (rule inj_onI)
  fix m n
  assume range: "m \<in> {0..144}" "n \<in> {0..144}"
    and eq: "gm_get (snd (period_reading m)) ''label'' = gm_get (snd (period_reading n)) ''label''"
  have "two_digits (fst (period_time m)) @ CHR '':'' # two_digits (snd (period_time m)) =
      two_digits (fst (period_time n)) @ CHR '':'' # two_digits (snd (period_time n))"
    using eq range by (simp add: period_reading_get(2))
  from colon_split [OF two_digits_plain two_digits_plain this]
  have "fst (period_time m) = fst (period_time n) \<and> snd (period_time m) = snd (period_time n)"
    by (simp only: two_digits_inj)
  then have "m * 10 = n * 10" by (metis period_time_exact(1))
  then show "m = n" by simp
qed

lemma period_results_get:
  assumes "key \<in> set period_names"
  shows "gm_get (period_results raw args minutes) key = Some (period_field raw key)"
proof -
  have "key \<noteq> ''minutes''" using assms by (auto simp: period_names_def)
  moreover have "gm_get (fold (\<lambda>key acc. gm_put key (period_field raw key) acc) period_names m) key = Some (period_field raw key)" for m
    using assms by (auto simp: period_names_def)
  ultimately show ?thesis
    unfolding period_results_def Let_def by (cases "gm_get args ''minutes''") simp_all
qed

definition result_member :: "json \<Rightarrow> string \<Rightarrow> string \<Rightarrow> json option" where
  "result_member v field key =
     Option.bind (output_member v ''results'') (\<lambda>fs. Option.bind (output_member fs field) (\<lambda>f. output_member f key))"

lemma period_output_results:
  "result_member (period_output obj state results) field key = Option.bind (gm_get results field) (\<lambda>f. output_member f key)"
  "output_member (period_output obj state results) ''state'' = Some (JString state)"
  by (simp_all add: result_member_def period_output_def)

lemma period_field_number:
  assumes "gm_get raw key = Some (JArray [b])" and "bounded_integer 255 (Some b) = Some n"
  shows "output_member (period_field raw key) ''number'' = gm_get (snd (period_reading n)) ''number''"
    and "output_member (period_field raw key) ''label'' = gm_get (snd (period_reading n)) ''label''"
  using assms by (simp_all add: period_field_def split_beta)

lemma bounded_json_nat: "bounded_integer maximum (Some (json_nat n)) = (if n < 65536 \<and> n \<le> maximum then Some n else None)"
  by (simp add: bounded_integer_def)

text \<open>
  A supported view of periods is complete exactly when each period is one byte. A period up to 144 reads as
  the minutes it stands for, with the clock time as a label that tells it from every other, and a larger one as
  nothing. The minutes of the arguments read as the period that stands for them, if there is one.
\<close>

theorem periods_exact:
  assumes "period_supported ctx axes" and "gm_get ctx ''view'' = Some (JString ''periods'')"
    and "key \<in> set period_names" "gm_get raw key = Some (JArray [b])" "bounded_integer 255 (Some b) = Some n"
  shows "\<exists>out. period_document obj ctx raw args (period_supported ctx axes) minutes pairs = Some out \<and>
       output_member out ''state'' = Some (JString (if list_all (period_single raw) period_names then ''complete'' else ''partial'')) \<and>
       result_member out key ''number'' = (if n \<le> 144 then Some (json_nat (n * 10)) else None) \<and>
       result_member out key ''label'' =
         (if n \<le> 144 then Some (JString (two_digits (fst (period_time n)) @ '':'' @ two_digits (snd (period_time n)))) else None) \<and>
       inj_on (\<lambda>n. gm_get (snd (period_reading n)) ''label'') {0..144} \<and>
       (gm_has args ''minutes'' \<longrightarrow>
          result_member out ''minutes'' ''number'' = (if \<exists>p. minutes = p * 10 then Some (json_nat (minutes div 10)) else None))"
proof -
  let ?out = "period_output obj (if list_all (period_single raw) period_names then ''complete'' else ''partial'')
    (period_results raw args minutes)"
  have doc: "period_document obj ctx raw args (period_supported ctx axes) minutes pairs = Some ?out"
    using assms(1,2) by (simp add: period_document_def Let_def split: option.split)
  have "gm_has args ''minutes'' \<longrightarrow>
      result_member ?out ''minutes'' ''number'' = (if \<exists>p. minutes = p * 10 then Some (json_nat (minutes div 10)) else None)"
  proof
    assume "gm_has args ''minutes''"
    then obtain v where "gm_get args ''minutes'' = Some v" by (auto simp: gm_has_def)
    then have "gm_get (period_results raw args minutes) ''minutes'' = Some (minutes_field v minutes)"
      by (simp add: period_results_def Let_def)
    moreover have "(\<exists>p. minutes = p * 10) \<longleftrightarrow> minutes mod 10 = 0" by (auto elim: evenE intro: exI [of _ "minutes div 10"])
    ultimately show "result_member ?out ''minutes'' ''number'' =
        (if \<exists>p. minutes = p * 10 then Some (json_nat (minutes div 10)) else None)"
      by (simp add: period_output_results minutes_field_def)
  qed
  then show ?thesis
    using period_labels period_field_number [OF assms(4,5)]
    unfolding doc by (simp add: period_output_results period_results_get [OF assms(3)] period_reading_get)
qed

text \<open>Three intervals within the day are in order exactly when their starts strictly increase.\<close>

lemma start_order_exact:
  assumes "length pairs = 3"
  shows "output_member (start_order v pairs) ''value'' =
     (if list_all (\<lambda>(start, stop). start \<le> 144 \<and> stop \<le> 144) pairs
      then Some (JBool (sorted_wrt (<) (map fst pairs))) else None)"
proof -
  obtain p q r where "pairs = [p, q, r]"
    using assms by (auto simp: length_Suc_conv numeral_3_eq_3)
  then show ?thesis by (auto simp: start_order_def not_less split_beta)
qed

definition sample_period_context :: "(string, json) gomap" where
  "sample_period_context = [(''direction'', JString ''request''), (''view'', JString ''periods'')]"

theorem periods_exact_witness:
  "\<exists>out. period_document [] sample_period_context [(''period0'', JArray [json_nat 39])] [] True 0 None = Some out \<and>
     output_member out ''state'' = Some (JString ''partial'') \<and>
     result_member out ''period0'' ''label'' = Some (JString ''06:30'')"
proof -
  have sup: "period_supported sample_period_context [True, True] = True"
    by (simp add: period_supported_def sample_period_context_def gm_has_def)
  have view: "gm_get sample_period_context ''view'' = Some (JString ''periods'')"
    by (simp add: sample_period_context_def)
  have name: "''period0'' \<in> set period_names" by (simp add: period_names_def)
  have raw: "gm_get [(''period0'', JArray [json_nat 39])] ''period0'' = Some (JArray [json_nat 39])" by simp
  have byte: "bounded_integer 255 (Some (json_nat 39)) = Some 39" by (simp add: bounded_json_nat)
  have "\<not> list_all (period_single [(''period0'', JArray [json_nat 39])]) period_names"
    by (simp add: period_names_def period_single_def)
  moreover have "two_digits (fst (period_time 39)) @ '':'' @ two_digits (snd (period_time 39)) = ''06:30''"
    by code_simp
  ultimately show ?thesis
    using periods_exact [OF _ view name raw byte, of "[True, True]" "[]" "[]" 0 None] sup by auto
qed

end
