(* ===== verification/Cat_Valves.thy ===== *)
theory Cat_Valves
  imports Cat_Number Cat_Depth
begin

text \<open>
  Valve and pump fields of the B5 12 service (\<open>ab23aq23_b512_valve_pump_fields.go\<close>): each operation has its
  fields with a fixed width, a number and a label. Bytes are integers that their test bounds to 0 to 255; an
  error is \<open>None\<close>.
\<close>

section \<open>Admission\<close>

definition valve_byte :: "json option \<Rightarrow> int option" where
  "valve_byte v = (case as_int64 v of None \<Rightarrow> None | Some n \<Rightarrow> if n < 0 \<or> n > 255 then None else Some n)"

definition valve_bytes :: "json option \<Rightarrow> int list option" where
  "valve_bytes v = Option.bind (as_array v) (\<lambda>vs. those (map (\<lambda>b. valve_byte (Some b)) vs))"

definition valve_raw :: "(string, json) gomap \<Rightarrow> (string, int list) gomap option" where
  "valve_raw flds = those (map (\<lambda>(key, v). map_option (Pair key) (valve_bytes (Some v))) flds)"

definition valve_reader :: "token list \<Rightarrow> bool \<Rightarrow> json option" where
  "valve_reader ts at_end = (if list_all token_finite ts then deep_document ts at_end else None)"

section \<open>Fields\<close>

definition valve_widths :: "int \<Rightarrow> bool \<Rightarrow> (string \<times> nat) list" where
  "valve_widths operation request =
     (if request then
        (if operation = 0 \<or> operation = 4 then [(''setpoint'', 1)]
         else if operation = 2 then [(''valve'', 1)]
         else if operation = 3 then [(''selector'', 1)]
         else if operation = 5 then [(''channel0'', 1), (''channel1'', 1), (''channel2'', 1)]
         else [])
      else
        (if operation = 2 then [(''valve'', 1), (''contact'', 1), (''tank'', 2), (''virtual_error'', 2)]
         else if operation = 3 then [(''status'', 1), (''temperature_raw'', 2)]
         else if operation = 4 then [(''feedback'', 1)]
         else []))"

definition valve_number :: "nat \<Rightarrow> int list \<Rightarrow> int" where
  "valve_number width bs = (if width = 2 then bs ! 0 + 256 * (bs ! 1) else bs ! 0)"

definition integer_member :: "int \<Rightarrow> (string, json) gomap" where
  "integer_member n = [(''number'', json_int n), (''calculation'', JString ''Proven'')]"

definition label_member :: "string \<Rightarrow> (string, json) gomap" where
  "label_member l = [(''label'', JString l)]"

definition pump_label :: "int \<Rightarrow> int \<Rightarrow> string" where
  "pump_label operation n =
     (if operation = 4 \<and> n = 255 then ''no-remote-control''
      else if operation = 5 \<and> n = 255 then ''unchanged''
      else if n = 0 then ''off'' else if n \<le> 100 then ''on-or-speed'' else ''unmapped'')"

definition channel_index :: "string \<Rightarrow> nat" where
  "channel_index key = of_char (last key) - 48"

definition pump_members :: "int \<Rightarrow> int list \<Rightarrow> string \<Rightarrow> int \<Rightarrow> (string, json) gomap" where
  "pump_members operation modes key n =
     integer_member n @
     (if operation = 4 \<and> n = 255
      then [(''alternatives'', JArray [JString ''replacement'', JString ''no-remote-control''])] else []) @
     (if operation = 5 then [(''prerequisite'', JBool (modes ! channel_index key = 8))] else []) @
     (if operation = 4
      then [(''candidate_domain'', JObject [(''timeout_seconds'', json_int 900), (''reset'', JString ''every-service'')])] else []) @
     label_member (pump_label operation n)"

definition valve_label :: "int \<Rightarrow> string" where
  "valve_label n =
     (if n = 0 then ''CH'' else if n = 50 then ''midpoint'' else if n = 100 then ''DHW''
      else if n = 254 then ''standby'' else if n = 255 then ''unchanged'' else ''unmapped'')"

definition plain_label :: "string \<Rightarrow> int \<Rightarrow> string" where
  "plain_label key n =
     (if key = ''contact'' then (if n = 0 then ''open'' else if n = 1 then ''closed'' else ''unmapped'')
      else if key = ''virtual_error'' then (if n = 65535 then ''no-error'' else ''unmapped'')
      else if key = ''selector'' then (if n = 0 then ''valve-temperature-input'' else ''unmapped'')
      else if key = ''status'' then
        (if n = 0 then ''okay'' else if n = 1 then ''disconnected'' else if n = 2 then ''short-circuit'' else ''unmapped'')
      else if key = ''temperature_raw'' then ''raw''
      else if key = ''feedback'' then (if n = 1 then ''accepted'' else ''rejected'')
      else ''unmapped'')"

definition valve_members :: "int \<Rightarrow> bool \<Rightarrow> int list \<Rightarrow> string \<Rightarrow> int \<Rightarrow> (string, json) gomap" where
  "valve_members operation request modes key n =
     (if key \<in> {''setpoint'', ''channel0'', ''channel1'', ''channel2''} then pump_members operation modes key n
      else if key = ''valve'' then
        (if request then integer_member n @ label_member (valve_label n)
         else (''alternatives'', JArray [JString ''actual'', JString ''setpoint-fallback'']) # label_member ''unresolved'')
      else if key = ''tank'' then
        [(''number'', JNumber (decimal_text (sint (word_of_int n :: uint16) * 625) 4)), (''calculation'', JString ''Proven'')] @
        label_member ''Celsius''
      else integer_member n @ label_member (plain_label key n))"

definition valve_given :: "(string, int list) gomap \<Rightarrow> string \<Rightarrow> int list" where
  "valve_given bytes key = (case gm_get bytes key of None \<Rightarrow> [] | Some bs \<Rightarrow> bs)"

definition valve_field ::
  "int \<Rightarrow> bool \<Rightarrow> int list \<Rightarrow> (string, json) gomap \<Rightarrow> (string, int list) gomap \<Rightarrow> string \<times> nat \<Rightarrow> json" where
  "valve_field operation request modes flds bytes = (\<lambda>(key, width).
     let given = (''meaning'', JString ''Hypothesis'') # (case gm_get flds key of None \<Rightarrow> [] | Some v \<Rightarrow> [(''raw'', v)]);
         bs = valve_given bytes key
     in if length bs \<noteq> width then JObject ((''state'', JString ''incomplete'') # given)
        else JObject ((''state'', JString ''complete'') # given @ valve_members operation request modes key (valve_number width bs)))"

definition valve_results ::
  "int \<Rightarrow> bool \<Rightarrow> int list \<Rightarrow> (string, json) gomap \<Rightarrow> (string, int list) gomap \<Rightarrow> (string, json) gomap" where
  "valve_results operation request modes flds bytes =
     fold (\<lambda>e acc. gm_put (fst e) (valve_field operation request modes flds bytes e) acc)
       (valve_widths operation request) (raw_fields flds)"

section \<open>Documents\<close>

definition valve_output :: "(string, json) gomap \<Rightarrow> string \<Rightarrow> (string, json) gomap \<Rightarrow> json" where
  "valve_output obj state results =
     JObject (gm_put ''results'' (JObject results) (gm_put ''state'' (JString state)
       (gm_put ''qualified'' (JBool False) (gm_put ''physical'' (JString ''Unknown'') (gm_put ''input'' (JObject obj) obj)))))"

text \<open>The operation and whether it is a request, when the context selects one.\<close>

definition valve_selection :: "(string, json) gomap \<Rightarrow> (int \<times> bool) option" where
  "valve_selection ctx =
     (let direction = gm_get ctx ''direction''
      in case valve_byte (gm_get ctx ''operation'') of
           None \<Rightarrow> None
         | Some operation \<Rightarrow>
             if valve_byte (gm_get ctx ''primary'') = Some 181 \<and> valve_byte (gm_get ctx ''secondary'') = Some 18 \<and>
                gm_get ctx ''view'' = Some (JString ''actuator-fields'') \<and>
                (direction = Some (JString ''request'') \<or> direction = Some (JString ''positive'')) \<and>
                operation \<in> {0, 2, 3, 4, 5} \<and>
                \<not> (direction = Some (JString ''positive'') \<and> (operation = 0 \<or> operation = 5))
             then Some (operation, direction = Some (JString ''request'')) else None)"

text \<open>The three external modes that operation 5 needs; no other operation takes arguments.\<close>

definition valve_modes :: "int \<Rightarrow> bool \<Rightarrow> (string, json) gomap \<Rightarrow> int list option" where
  "valve_modes operation request args =
     (if operation = 5 \<and> request then
        (case valve_bytes (gm_get args ''external_modes'') of
           None \<Rightarrow> None
         | Some modes \<Rightarrow> if length modes \<noteq> 3 \<or> length args \<noteq> 1 then None else Some modes)
      else if args \<noteq> [] then None else Some [])"

definition valve_document ::
  "(string, json) gomap \<Rightarrow> (string, json) gomap \<Rightarrow> (string, json) gomap \<Rightarrow> (string, int list) gomap \<Rightarrow>
     (string, json) gomap \<Rightarrow> json option" where
  "valve_document obj ctx flds bytes args =
     (case valve_selection ctx of
        None \<Rightarrow> Some (valve_output obj ''Unknown'' (raw_fields flds))
      | Some (operation, request) \<Rightarrow>
          map_option (\<lambda>modes.
            valve_output obj
              (if list_ex (\<lambda>(key, width). length (valve_given bytes key) \<noteq> width) (valve_widths operation request)
               then ''partial'' else ''complete'')
              (valve_results operation request modes flds bytes))
            (valve_modes operation request args))"

definition ab23aq23_evaluate :: "token list \<Rightarrow> bool \<Rightarrow> json option" where
  "ab23aq23_evaluate ts at_end =
     Option.bind (valve_reader ts at_end) (\<lambda>doc.
     Option.bind (as_object (Some doc)) (\<lambda>obj.
     Option.bind (as_object (gm_get obj ''context'')) (\<lambda>ctx.
     Option.bind (as_object (gm_get obj ''fields'')) (\<lambda>flds.
     if \<not> list_all (\<lambda>key. gm_has ctx key \<longrightarrow> valve_byte (gm_get ctx key) \<noteq> None) [''primary'', ''secondary'', ''operation'']
     then None
     else if \<not> list_all (\<lambda>key. gm_has ctx key \<longrightarrow> as_string (gm_get ctx key) \<noteq> None) [''direction'', ''view''] then None
     else Option.bind (valve_raw flds) (\<lambda>bytes.
     Option.bind (optional_arguments obj) (\<lambda>args.
     valve_document obj ctx flds bytes (case args of None \<Rightarrow> [] | Some a \<Rightarrow> a)))))))"

section \<open>What the document reports\<close>

lemma valve_widths_distinct: "distinct (map fst (valve_widths operation request))"
  by (simp add: valve_widths_def)

lemma valve_output_get:
  "output_member (valve_output obj state results) ''state'' = Some (JString state)"
  "output_member (valve_output obj state results) ''results'' = Some (JObject results)"
  "output_member (valve_output obj state results) ''input'' = Some (JObject obj)"
  by (simp_all add: valve_output_def)

lemma valve_results_get:
  assumes "(key, width) \<in> set (valve_widths operation request)"
  shows "gm_get (valve_results operation request modes flds bytes) key =
     Some (valve_field operation request modes flds bytes (key, width))"
  using flow_fields_get [OF valve_widths_distinct assms] by (simp add: valve_results_def)

text \<open>The quantity of a field: none for a valve's answer, sixteenths of a degree for the tank.\<close>

definition valve_value :: "bool \<Rightarrow> string \<Rightarrow> int \<Rightarrow> rat option" where
  "valve_value request key n =
     (if key = ''valve'' \<and> \<not> request then None
      else if key = ''tank'' then Some (of_int (sint (word_of_int n :: uint16)) / 16)
      else Some (of_int n))"

definition number_rat :: "json \<Rightarrow> rat" where
  "number_rat v = (case v of JNumber t \<Rightarrow> decimal_value t | _ \<Rightarrow> 0)"

lemma pump_members_number: "gm_get (pump_members operation modes key n) ''number'' = Some (json_int n)"
  by (simp add: pump_members_def integer_member_def)

lemma valve_members_number:
  "map_option number_rat (gm_get (valve_members operation request modes key n) ''number'') = valve_value request key n"
proof -
  have int: "number_rat (json_int n) = of_int n" by (simp add: number_rat_def json_int_def int_str_value)
  have sixteenth: "number_rat (JNumber (decimal_text (k * 625) 4)) = of_int k / 16" for k
    by (simp add: number_rat_def decimal_text_value)
  show ?thesis
  proof (cases "key \<in> {''setpoint'', ''channel0'', ''channel1'', ''channel2''}")
    case True
    then have "key \<noteq> ''valve''" "key \<noteq> ''tank''" by auto
    then show ?thesis
      unfolding valve_members_def valve_value_def if_P [OF True] by (simp add: pump_members_number int)
  next
    case False
    show ?thesis
      unfolding valve_members_def valve_value_def if_not_P [OF False]
      by (simp add: integer_member_def label_member_def int sixteenth)
  qed
qed

lemma valve_field_number:
  "output_member (valve_field operation request modes flds bytes (key, width)) ''number'' =
     (if length (valve_given bytes key) = width
      then gm_get (valve_members operation request modes key (valve_number width (valve_given bytes key))) ''number'' else None)"
  by (cases "gm_get flds key") (simp_all add: valve_field_def Let_def)

text \<open>
  A selected document exists exactly when operation 5 comes with its three modes and any other operation without
  arguments. It keeps the input, is complete exactly when every field has its width, and a field of its
  width gives the exact number of its bytes, low byte first.
\<close>

theorem valve_fields_exact:
  assumes "valve_selection ctx = Some (operation, request)" and "(key, width) \<in> set (valve_widths operation request)"
  shows "case valve_document obj ctx flds bytes args of
       None \<Rightarrow> valve_modes operation request args = None
     | Some out \<Rightarrow>
         valve_modes operation request args \<noteq> None \<and> output_member out ''input'' = Some (JObject obj) \<and>
         output_member out ''state'' = Some (JString
           (if list_all (\<lambda>(key, width). length (valve_given bytes key) = width) (valve_widths operation request)
            then ''complete'' else ''partial'')) \<and>
         map_option number_rat (Option.bind (output_member out ''results'')
             (\<lambda>rs. Option.bind (output_member rs key) (\<lambda>f. output_member f ''number''))) =
           (if length (valve_given bytes key) = width
            then valve_value request key (valve_number width (valve_given bytes key)) else None)"
proof (cases "valve_modes operation request args")
  case None
  then show ?thesis using assms(1) by (simp add: valve_document_def)
next
  case (Some modes)
  have "list_ex (\<lambda>(key, width). length (valve_given bytes key) \<noteq> width) ws \<longleftrightarrow>
      \<not> list_all (\<lambda>(key, width). length (valve_given bytes key) = width) ws" for ws
    by (induction ws) auto
  then show ?thesis
    using assms(1) Some
    by (simp add: valve_document_def valve_output_get valve_results_get [OF assms(2)] valve_field_number valve_members_number)
qed

definition sample_valve_context :: "(string, json) gomap" where
  "sample_valve_context =
     [(''primary'', json_int 181), (''secondary'', json_int 18), (''operation'', json_int 2),
      (''direction'', JString ''positive''), (''view'', JString ''actuator-fields'')]"

theorem valve_fields_exact_witness:
  "case valve_document [] sample_valve_context [] [(''tank'', [232, 3])] [] of
     None \<Rightarrow> False
   | Some out \<Rightarrow>
       map_option number_rat (Option.bind (output_member out ''results'')
         (\<lambda>rs. Option.bind (output_member rs ''tank'') (\<lambda>f. output_member f ''number''))) = Some (125 / 2)"
proof -
  have sel: "valve_selection sample_valve_context = Some (2, False)"
    by (simp add: valve_selection_def sample_valve_context_def valve_byte_def as_int64_json_int byte_int64)
  have width: "(''tank'', 2) \<in> set (valve_widths 2 False)" by (simp add: valve_widths_def)
  have "valve_modes 2 False [] = Some []" by (simp add: valve_modes_def)
  moreover have "valve_given [(''tank'', [232, 3])] ''tank'' = [232, 3]" by (simp add: valve_given_def)
  moreover have "valve_value False ''tank'' (valve_number 2 [232, 3]) = Some (125 / 2)"
    by (simp add: valve_value_def valve_number_def)
  ultimately show ?thesis
    using valve_fields_exact [OF sel width, of "[]" "[]" "[(''tank'', [232, 3])]" "[]"]
    by (simp split: option.splits)
qed

end
