(* ===== verification/Cat_Roles.thy ===== *)
theory Cat_Roles
  imports Cat_Number Cat_Depth
begin

text \<open>
  Conditional roles of the B5 05 service (\<open>ab05aq05_b505_conditional_roles.go\<close>): a field means what the
  arguments of its view say. Numbers are exact: \<open>big.Rat\<close> is \<open>rat\<close>, and the sum of a demand and an
  excess is written with all its decimals. The loop that counts them is partial; it returns on the
  denominators it gets (\<open>decimal_scale_exact\<close>). An error is \<open>None\<close>.
\<close>

section \<open>Reading\<close>

text \<open>The bounds on a number: 64 characters, and an exponent between -400 and 400.\<close>

definition exponent_text :: "string \<Rightarrow> string option" where
  "exponent_text s = (case drop (length (number_mantissa s)) s of [] \<Rightarrow> None | _ # digits \<Rightarrow> Some digits)"

definition bounded_number :: "string \<Rightarrow> bool" where
  "bounded_number s \<longleftrightarrow>
     length s \<le> 64 \<and>
     (case exponent_text s of
        None \<Rightarrow> True
      | Some digits \<Rightarrow> (case int_parse digits of None \<Rightarrow> False | Some e \<Rightarrow> - 400 \<le> e \<and> e \<le> 400))"

definition role_token :: "token \<Rightarrow> bool" where
  "role_token t \<longleftrightarrow> (case t of TokNumber s \<Rightarrow> bounded_number s \<and> finite_number s | _ \<Rightarrow> True)"

definition role_reader :: "token list \<Rightarrow> bool \<Rightarrow> json option" where
  "role_reader ts at_end = (if list_all role_token ts then deep_document ts at_end else None)"

text \<open>A byte may be written in any way that denotes its integer.\<close>

definition exact_byte :: "json option \<Rightarrow> int option" where
  "exact_byte v =
     (case v of
        Some (JNumber s) \<Rightarrow>
          (case exact_number s of
             None \<Rightarrow> None
           | Some r \<Rightarrow> if snd (quotient_of r) = 1 \<and> 0 \<le> r \<and> r \<le> 255 then Some (fst (quotient_of r)) else None)
      | _ \<Rightarrow> None)"

definition byte_or_0 :: "json option \<Rightarrow> int" where
  "byte_or_0 v = (case exact_byte v of None \<Rightarrow> 0 | Some n \<Rightarrow> n)"

section \<open>Exact sums\<close>

text \<open>How often two and five divide a denominator; the code divides by five whenever two does not.\<close>

partial_function (option) decimal_scale :: "int \<Rightarrow> nat \<Rightarrow> nat \<Rightarrow> (nat \<times> nat) option" where
  "decimal_scale d twos fives =
     (if d = 1 then Some (twos, fives)
      else if odd d then decimal_scale (d div 5) twos (fives + 1)
      else decimal_scale (d div 2) (twos + 1) fives)"

text \<open>\<open>Rat.FloatString\<close>: that many decimals, rounded half away from zero.\<close>

definition float_string :: "rat \<Rightarrow> nat \<Rightarrow> string" where
  "float_string x prec =
     (let (a, b) = quotient_of x; n = nat ((2 * \<bar>a\<bar> * 10 ^ prec + b) div (2 * b))
      in (if a < 0 then [CHR ''-''] else []) @ nat_str (n div 10 ^ prec) @
         (if prec = 0 then [] else CHR ''.'' # fixed_digits prec (n mod 10 ^ prec)))"

definition exact_sum :: "rat \<Rightarrow> rat \<Rightarrow> string option" where
  "exact_sum x y =
     map_option (\<lambda>(twos, fives). float_string (x + y) (max twos fives)) (decimal_scale (snd (quotient_of (x + y))) 0 0)"

section \<open>Views\<close>

definition role_supported :: "string \<Rightarrow> int \<Rightarrow> bool" where
  "role_supported view operation \<longleftrightarrow>
     view = ''unchanged'' \<and> (operation = 90 \<or> operation = 61) \<or> view = ''dhw-enable'' \<and> operation = 49 \<or>
     view = ''parallel-charge'' \<and> (operation = 24 \<or> operation = 39) \<or> view = ''flow-excess'' \<and> operation = 23 \<or>
     view = ''programmed-start'' \<and> operation = 9"

definition plain_scalar :: "json option \<Rightarrow> bool" where
  "plain_scalar v \<longleftrightarrow> (case v of None \<Rightarrow> False | Some (JObject _) \<Rightarrow> False | Some (JArray _) \<Rightarrow> False | Some _ \<Rightarrow> True)"

definition unchanged_members :: "(string, json) gomap \<Rightarrow> (string, json) gomap option" where
  "unchanged_members args =
     Option.bind (as_bool (gm_get args ''replacement'')) (\<lambda>replacement.
     if \<not> plain_scalar (gm_get args ''previous'') \<or> \<not> plain_scalar (gm_get args ''requested'') then None
     else let requested = raw_of args ''requested''; shown = (if replacement then raw_of args ''previous'' else requested)
          in Some ([(''raw'', requested), (''value'', shown),
                    (''label'', JString (if replacement then ''unchanged'' else ''numeric-candidate'')),
                    (''replacement_code'', JString ''Unknown'')] @
                   (case shown of JNumber s \<Rightarrow> [(''number'', shown)] | _ \<Rightarrow> [])))"

definition as_number :: "json option \<Rightarrow> string option" where
  "as_number v = (case v of Some (JNumber s) \<Rightarrow> Some s | _ \<Rightarrow> None)"

definition excess_members :: "(string, json) gomap \<Rightarrow> (string, json) gomap option" where
  "excess_members args =
     Option.bind (as_number (gm_get args ''demand'')) (\<lambda>demand.
     Option.bind (as_number (gm_get args ''excess'')) (\<lambda>excess.
     Option.bind (exact_number demand) (\<lambda>x.
     Option.bind (exact_number excess) (\<lambda>y.
     map_option (\<lambda>t.
       [(''raw'', JObject [(''demand'', JNumber demand), (''excess'', JNumber excess)]), (''number'', JNumber t),
        (''calculation'', JString ''Proven'')]) (exact_sum x y)))))"

definition role_field_name :: "string \<Rightarrow> string" where
  "role_field_name view =
     (if view = ''parallel-charge'' then ''disable'' else if view = ''programmed-start'' then ''start'' else ''enabled'')"

definition charge_label :: "string \<Rightarrow> bool \<Rightarrow> int \<Rightarrow> string" where
  "charge_label role parallel n =
     (if role = ''dhw'' then ''not-applicable''
      else if n = 0 then ''suppression-not-requested''
      else if n = 1 then
        (if parallel then (if role = ''mixer'' then ''mixer-parallel-exception'' else ''exemption-unknown'')
         else ''heating-suppressed'')
      else ''unmapped'')"

definition enable_label :: "int \<Rightarrow> string" where
  "enable_label n =
     (if n = 0 then ''frost-only-eligible'' else if n = 1 then ''ordinary-DHW-eligible'' else ''unmapped'')"

text \<open>The state of the document and of the field, and the members of the field.\<close>

definition role_members ::
  "string \<Rightarrow> (string, json) gomap \<Rightarrow> (string, json) gomap \<Rightarrow> (string \<times> string \<times> (string, json) gomap) option" where
  "role_members view flds args =
     (let raw = gm_get flds (role_field_name view);
          vs = (case as_array raw of None \<Rightarrow> [] | Some vs \<Rightarrow> vs);
          given = (case raw of None \<Rightarrow> [] | Some v \<Rightarrow> [(''raw'', v)]);
          role = as_string (gm_get args ''role''); parallel = as_bool (gm_get args ''parallel'');
          mode = exact_byte (gm_get args ''program_mode'')
      in if view = ''parallel-charge'' \<and>
            (role \<noteq> Some ''mixer'' \<and> role \<noteq> Some ''heating'' \<and> role \<noteq> Some ''dhw'' \<or> parallel = None) then None
         else if view = ''programmed-start'' \<and> mode = None then None
         else if raw = None \<or> (view \<noteq> ''programmed-start'' \<and> length vs \<noteq> 1) then Some (''partial'', ''incomplete'', given)
         else Some (''complete'', ''complete'', given @
                [(''label'', JString
                   (if view = ''programmed-start'' then (if mode = Some 0 then ''applicable'' else ''ignored'')
                    else if view = ''dhw-enable'' then enable_label (byte_or_0 (Some (vs ! 0)))
                    else charge_label (the role) (the parallel) (byte_or_0 (Some (vs ! 0)))))]))"

definition role_result ::
  "string \<Rightarrow> (string, json) gomap \<Rightarrow> (string, json) gomap \<Rightarrow> (string \<times> string \<times> string \<times> (string, json) gomap) option" where
  "role_result view flds args =
     (if view = ''unchanged''
      then map_option (\<lambda>more. (''unchanged'', ''complete'', ''complete'', more)) (unchanged_members args)
      else if view = ''flow-excess''
      then map_option (\<lambda>more. (''flow-excess'', ''complete'', ''complete'', more)) (excess_members args)
      else map_option (Pair (role_field_name view)) (role_members view flds args))"

section \<open>Documents\<close>

definition role_output :: "(string, json) gomap \<Rightarrow> string \<Rightarrow> (string, json) gomap \<Rightarrow> json" where
  "role_output obj state results =
     JObject (obj @ [(''state'', JString state), (''results'', JObject results), (''physical'', JString ''Unknown''),
       (''qualified'', JBool False)])"

definition role_document ::
  "(string, json) gomap \<Rightarrow> (string, json) gomap \<Rightarrow> (string, json) gomap \<Rightarrow> (string, json) gomap \<Rightarrow> json option" where
  "role_document obj ctx flds args =
     (let view = (case as_string (gm_get ctx ''view'') of None \<Rightarrow> [] | Some s \<Rightarrow> s)
      in if byte_or_0 (gm_get ctx ''primary'') = 181 \<and> byte_or_0 (gm_get ctx ''secondary'') = 5 \<and>
            gm_get ctx ''direction'' = Some (JString ''request'') \<and> exact_byte (gm_get ctx ''operation'') \<noteq> None \<and>
            role_supported view (byte_or_0 (gm_get ctx ''operation''))
         then map_option (\<lambda>(name, state, field_state, more).
                role_output obj state
                  (gm_put name
                     (JObject ([(''state'', JString field_state), (''grade'', JString ''Hypothesis'')] @ more @
                        (if name = view then (case gm_get flds name of None \<Rightarrow> [] | Some v \<Rightarrow> [(''field_raw'', v)]) else [])))
                     (raw_fields flds)))
                (role_result view flds args)
         else Some (role_output obj ''Unknown'' (raw_fields flds)))"

definition reserved_keys :: "string list" where
  "reserved_keys = [''state'', ''results'', ''physical'', ''qualified'']"

definition ab05aq05_evaluate :: "token list \<Rightarrow> bool \<Rightarrow> json option" where
  "ab05aq05_evaluate ts at_end =
     Option.bind (role_reader ts at_end) (\<lambda>doc.
     Option.bind (as_object (Some doc)) (\<lambda>obj.
     Option.bind (as_object (gm_get obj ''context'')) (\<lambda>ctx.
     Option.bind (as_object (gm_get obj ''fields'')) (\<lambda>flds.
     Option.bind (optional_arguments obj) (\<lambda>args.
     if \<not> list_all (\<lambda>key. gm_has ctx key \<longrightarrow> exact_byte (gm_get ctx key) \<noteq> None) [''primary'', ''secondary'', ''operation'']
     then None
     else if \<not> list_all (\<lambda>key. gm_has ctx key \<longrightarrow> as_string (gm_get ctx key) \<noteq> None) [''direction'', ''view'', ''family'', ''variant'']
     then None
     else if list_ex (gm_has obj) reserved_keys then None
     else if \<not> list_all (\<lambda>(_, v). signed_byte_array exact_byte v) flds then None
     else role_document obj ctx flds (case args of None \<Rightarrow> [] | Some a \<Rightarrow> a))))))"


section \<open>Counting decimals\<close>

lemma five_divides:
  fixes d :: int
  assumes "d dvd 5 ^ k" and "0 < d" and "d \<noteq> 1"
  shows "5 dvd d"
proof (rule ccontr)
  assume no: "\<not> 5 dvd d"
  define g where "g = gcd d 5"
  have g: "g dvd 5" "g dvd d" "0 < g" by (simp_all add: g_def gcd_pos_int)
  then have "g \<le> 5" by (simp add: zdvd_imp_le)
  with g(3) have "g = 1 \<or> g = 2 \<or> g = 3 \<or> g = 4 \<or> g = 5" by presburger
  moreover have "g \<noteq> 5" using no g(2) by auto
  moreover have "g \<noteq> 2 \<and> g \<noteq> 3 \<and> g \<noteq> 4" using g(1) by auto
  ultimately have "coprime d 5" by (simp add: g_def coprime_iff_gcd_eq_1)
  then have "coprime d (5 ^ k)" by simp
  then have "is_unit d" using assms(1) by (metis coprime_common_divisor dvd_refl)
  then show False using assms(2,3) by (simp add: zdvd1_eq)
qed

text \<open>On the denominator of a decimal the loop returns, and finds how it is made of twos and fives.\<close>

lemma decimal_scale_exact:
  assumes "0 < d" and "d dvd 10 ^ k"
  shows "\<exists>p q. decimal_scale d twos fives = Some (twos + p, fives + q) \<and> d = 2 ^ p * 5 ^ q"
  using assms
proof (induction "nat d" arbitrary: d twos fives rule: less_induct)
  case less
  show ?case
  proof (cases "d = 1")
    case True
    then show ?thesis by (intro exI [of _ 0]) (simp add: decimal_scale.simps)
  next
    case one: False
    show ?thesis
    proof (cases "odd d")
      case True
      have "(10 :: int) ^ k = 2 ^ k * 5 ^ k" by (simp add: power_mult_distrib [symmetric])
      moreover have "coprime d (2 ^ k)" using True by (simp add: coprime_right_2_iff_odd)
      ultimately have "d dvd 5 ^ k" using less.prems(2) by (metis coprime_dvd_mult_right_iff)
      then have "5 dvd d" by (rule five_divides [OF _ less.prems(1) one])
      then obtain c where c: "d = 5 * c" by (elim dvdE)
      have "c dvd 10 ^ k" using less.prems(2) c by (meson dvd_mult_right)
      moreover have "0 < c" "nat c < nat d" using less.prems(1) c by auto
      ultimately obtain p q where r: "decimal_scale c twos (fives + 1) = Some (twos + p, fives + 1 + q)" "c = 2 ^ p * 5 ^ q"
        using less.hyps [of c twos "fives + 1"] by blast
      have "decimal_scale d twos fives = decimal_scale c twos (fives + 1)"
      proof -
        have "d div 5 = c" using c by simp
        then show ?thesis by (subst decimal_scale.simps) (simp add: one True)
      qed
      then show ?thesis using r c by (intro exI [of _ p] exI [of _ "q + 1"]) simp
    next
      case False
      then obtain c where c: "d = 2 * c" by (auto elim: evenE)
      have "c dvd 10 ^ k" using less.prems(2) c by (meson dvd_mult_right)
      moreover have "0 < c" "nat c < nat d" using less.prems(1) c by auto
      ultimately obtain p q where r: "decimal_scale c (twos + 1) fives = Some (twos + 1 + p, fives + q)" "c = 2 ^ p * 5 ^ q"
        using less.hyps [of c "twos + 1" fives] by blast
      have "decimal_scale d twos fives = decimal_scale c (twos + 1) fives"
      proof -
        have "d div 2 = c" using c by simp
        then show ?thesis using False by (subst decimal_scale.simps) (simp add: one)
      qed
      then show ?thesis using r c by (intro exI [of _ "p + 1"] exI [of _ q]) simp
    qed
  qed
qed

text \<open>A decimal number.\<close>

definition is_decimal :: "rat \<Rightarrow> bool" where
  "is_decimal x \<longleftrightarrow> (\<exists>m k. x = of_int m / 10 ^ k)"

lemma decimal_denominator:
  assumes "x = of_int m / 10 ^ k" and "quotient_of x = (a, b)"
  shows "b dvd 10 ^ k"
proof -
  have x: "x = of_int a / of_int b" "0 < b" "coprime a b"
    using assms(2) quotient_of_div quotient_of_denom_pos quotient_of_coprime by auto
  then have "(of_int (a * 10 ^ k) :: rat) = of_int (m * b)"
    using assms(1) by (simp add: field_simps)
  then have "a * 10 ^ k = m * b" by (simp only: of_int_eq_iff)
  then have "b dvd a * 10 ^ k" by simp
  then show ?thesis using x(3) by (simp add: coprime_dvd_mult_right_iff coprime_commute)
qed

lemma is_decimal_add: "is_decimal x \<Longrightarrow> is_decimal y \<Longrightarrow> is_decimal (x + y)"
proof -
  assume "is_decimal x" "is_decimal y"
  then obtain m k n l where "x = of_int m / 10 ^ k" "y = of_int n / 10 ^ l" unfolding is_decimal_def by blast
  then have "x + y = of_int (m * 10 ^ l + n * 10 ^ k) / 10 ^ (k + l)"
    by (simp add: power_add add_divide_distrib)
  then show "is_decimal (x + y)" unfolding is_decimal_def by blast
qed

lemma is_decimal_shift: "is_decimal x \<Longrightarrow> is_decimal (x * 10 powi e)"
proof -
  assume "is_decimal x"
  then obtain m k where x: "x = of_int m / 10 ^ k" unfolding is_decimal_def by blast
  show "is_decimal (x * 10 powi e)"
  proof (cases "0 \<le> e")
    case True
    then have "x * 10 powi e = of_int (m * 10 ^ nat e) / 10 ^ k" by (simp add: x power_int_def)
    then show ?thesis unfolding is_decimal_def by blast
  next
    case False
    then have "x * 10 powi e = of_int m / 10 ^ (k + nat (- e))"
      by (simp add: x power_int_def power_add field_simps)
    then show ?thesis unfolding is_decimal_def by blast
  qed
qed

lemma exact_number_decimal: "exact_number s = Some x \<Longrightarrow> is_decimal x"
proof -
  have "is_decimal (decimal_value t)" for t
  proof -
    have "is_decimal (of_nat n / 10 ^ k)" "is_decimal (- (of_nat n / 10 ^ k))" for n k
      unfolding is_decimal_def by (intro exI [of _ "int n"] exI [of _ k], simp)
        (intro exI [of _ "- int n"] exI [of _ k], simp)
    then show ?thesis unfolding decimal_value_def Let_def by (simp split: if_split)
  qed
  then show "exact_number s = Some x \<Longrightarrow> is_decimal x"
    unfolding exact_number_def using is_decimal_shift by auto
qed

section \<open>The text of a sum\<close>

lemma plain_decimal_value:
  assumes "list_all is_digit decs"
  shows "decimal_value ((if neg then [CHR ''-''] else []) @ nat_str q @ (if decs = [] then [] else CHR ''.'' # decs)) =
     (if neg then -1 else 1) * (of_nat (digits_val (nat_str q @ decs)) / 10 ^ length decs)"
proof -
  have q: "list_all is_digit (nat_str q)" "nat_str q \<noteq> []" using nat_str_digits by simp_all
  define t where "t = nat_str q @ (if decs = [] then [] else CHR ''.'' # decs)"
  have start: "hd t \<noteq> CHR ''-''" "t \<noteq> []" using digits_start [OF q(1,2)] q(2) unfolding t_def by auto
  have split: "takeWhile (\<lambda>c. c \<noteq> CHR ''.'') t = nat_str q" "drop (length (nat_str q) + 1) t = decs"
    unfolding t_def using no_dot [OF q(1)] by simp_all
  show ?thesis
    unfolding t_def [symmetric] using start split by (cases neg) (simp_all add: decimal_value_def Let_def)
qed

lemma fixed_digits_digit: "list_all is_digit (fixed_digits k n)"
  by (induction k arbitrary: n) (auto simp: is_digit_def digit_char_def)

lemma float_string_exact:
  assumes "quotient_of x = (a, b)" and "b dvd 10 ^ prec"
  shows "decimal_value (float_string x prec) = x"
proof -
  have x: "x = of_int a / of_int b" "0 < b"
    using assms(1) quotient_of_div quotient_of_denom_pos by auto
  obtain c where c: "10 ^ prec = b * c" using assms(2) by (auto elim: dvdE)
  define n where "n = nat ((2 * \<bar>a\<bar> * 10 ^ prec + b) div (2 * b))"
  have "(2 * \<bar>a\<bar> * 10 ^ prec + b) div (2 * b) = (b + \<bar>a\<bar> * c * (2 * b)) div (2 * b)"
    by (simp add: c algebra_simps)
  also have "\<dots> = \<bar>a\<bar> * c" using x(2) by simp
  finally have n: "n = nat (\<bar>a\<bar> * c)" by (simp add: n_def)
  have "0 < c" using c x(2) by (metis zero_less_mult_pos zero_less_power zero_less_numeral)
  then have "int n = \<bar>a\<bar> * c" using n by simp
  then have "(of_nat n :: rat) = of_int \<bar>a\<bar> * of_int c" by (metis of_int_mult of_int_of_nat_eq)
  moreover have "(10 ^ prec :: rat) = of_int b * of_int c"
    by (metis c of_int_mult of_int_numeral of_int_power)
  ultimately have quot: "(of_nat n :: rat) / 10 ^ prec = of_int \<bar>a\<bar> / of_int b"
    using \<open>0 < c\<close> by simp
  let ?decs = "fixed_digits prec (n mod 10 ^ prec)"
  have len: "length ?decs = prec" by (rule fixed_digits_val(2))
  have "digits_val (nat_str (n div 10 ^ prec) @ ?decs) = n"
    by (simp only: digits_val_joined fixed_digits_val digits_val_nat_str mod_mod_trivial div_mult_mod_eq)
  moreover have "float_string x prec =
      (if a < 0 then [CHR ''-''] else []) @ nat_str (n div 10 ^ prec) @ (if ?decs = [] then [] else CHR ''.'' # ?decs)"
    using len by (cases "prec = 0") (auto simp: float_string_def assms(1) n_def Let_def)
  ultimately have "decimal_value (float_string x prec) = (if a < 0 then -1 else 1) * (of_nat n / 10 ^ prec)"
    using plain_decimal_value [OF fixed_digits_digit] len by simp
  then show ?thesis using quot x by (simp add: abs_if)
qed

lemma exact_sum_value:
  assumes "is_decimal x" and "is_decimal y"
  shows "\<exists>t. exact_sum x y = Some t \<and> decimal_value t = x + y"
proof -
  obtain a b where q: "quotient_of (x + y) = (a, b)" by (cases "quotient_of (x + y)")
  obtain m k where "x + y = of_int m / 10 ^ k" using is_decimal_add [OF assms] unfolding is_decimal_def by blast
  then have "b dvd 10 ^ k" by (rule decimal_denominator [OF _ q])
  moreover have "0 < b" using q quotient_of_denom_pos by auto
  ultimately obtain p r where s: "decimal_scale b 0 0 = Some (p, r)" "b = 2 ^ p * 5 ^ r"
    using decimal_scale_exact [of b k 0 0] by auto
  have "(2 :: int) ^ p * 5 ^ r dvd 2 ^ max p r * 5 ^ max p r"
    by (intro mult_dvd_mono le_imp_power_dvd) simp_all
  then have "b dvd 10 ^ max p r" using s(2) by (simp add: power_mult_distrib [symmetric])
  then have "decimal_value (float_string (x + y) (max p r)) = x + y" by (rule float_string_exact [OF q])
  then show ?thesis using s(1) q by (simp add: exact_sum_def)
qed


section \<open>What the document reports\<close>

lemma role_output_get:
  assumes "\<not> list_ex (gm_has obj) reserved_keys"
  shows "output_member (role_output obj state results) ''state'' = Some (JString state)"
    and "output_member (role_output obj state results) ''results'' = Some (JObject results)"
  using assms
  by (simp_all add: role_output_def reserved_keys_def gm_has_def gm_get_def map_add_def map_of_append
      split: option.split)

definition role_member :: "json \<Rightarrow> string \<Rightarrow> string \<Rightarrow> json option" where
  "role_member v name key =
     Option.bind (output_member v ''results'') (\<lambda>rs. Option.bind (output_member rs name) (\<lambda>f. output_member f key))"

definition role_selected :: "(string, json) gomap \<Rightarrow> string \<Rightarrow> bool" where
  "role_selected ctx view \<longleftrightarrow>
     exact_byte (gm_get ctx ''primary'') = Some 181 \<and> exact_byte (gm_get ctx ''secondary'') = Some 5 \<and>
     gm_get ctx ''direction'' = Some (JString ''request'') \<and> gm_get ctx ''view'' = Some (JString view) \<and>
     (\<exists>n. exact_byte (gm_get ctx ''operation'') = Some n \<and> role_supported view n)"

lemma role_document_selected:
  assumes "role_selected ctx view"
  shows "role_document obj ctx flds args =
     map_option (\<lambda>(name, state, field_state, more).
       role_output obj state
         (gm_put name
            (JObject ([(''state'', JString field_state), (''grade'', JString ''Hypothesis'')] @ more @
               (if name = view then (case gm_get flds name of None \<Rightarrow> [] | Some v \<Rightarrow> [(''field_raw'', v)]) else [])))
            (raw_fields flds)))
       (role_result view flds args)"
  using assms by (auto simp: role_document_def role_selected_def byte_or_0_def as_string_def Let_def)

text \<open>(C40)
  A document of a view is complete or partial by its own field, and the sum of a demand and an excess is written
  exactly: the loop that counts its decimals returns on every sum of two JSON numbers, and the text denotes the
  sum of what they denote.
\<close>

theorem role_sum_exact:
  assumes "role_selected ctx ''flow-excess''" and "\<not> list_ex (gm_has obj) reserved_keys"
    and "gm_get args ''demand'' = Some (JNumber s)" and "exact_number s = Some x"
    and "gm_get args ''excess'' = Some (JNumber t)" and "exact_number t = Some y"
  shows "\<exists>out u. role_document obj ctx flds args = Some out \<and>
     output_member out ''state'' = Some (JString ''complete'') \<and>
     role_member out ''flow-excess'' ''number'' = Some (JNumber u) \<and> decimal_value u = x + y"
proof -
  obtain u where u: "exact_sum x y = Some u" "decimal_value u = x + y"
    using exact_sum_value [OF exact_number_decimal exact_number_decimal] assms(4,6) by blast
  have "role_result ''flow-excess'' flds args =
      Some (''flow-excess'', ''complete'', ''complete'',
        [(''raw'', JObject [(''demand'', JNumber s), (''excess'', JNumber t)]), (''number'', JNumber u), (''calculation'', JString ''Proven'')])"
    by (simp add: role_result_def excess_members_def assms(3-6) as_number_def u(1))
  then show ?thesis
    unfolding role_document_selected [OF assms(1)]
    by (simp add: role_member_def role_output_get [OF assms(2)] u(2))
qed

text \<open>A charge is suppressed only for heating or a mixer, and a mixer alone is exempt in parallel.\<close>

lemma charge_label_exact:
  "charge_label role parallel n \<in> {''heating-suppressed'', ''mixer-parallel-exception'', ''exemption-unknown''} \<longleftrightarrow> role \<noteq> ''dhw'' \<and> n = 1"
  "charge_label role parallel n = ''mixer-parallel-exception'' \<longleftrightarrow> role = ''mixer'' \<and> parallel \<and> n = 1"
  by (auto simp: charge_label_def)

definition sample_role_context :: "(string, json) gomap" where
  "sample_role_context =
     [(''primary'', json_int 181), (''secondary'', json_int 5), (''operation'', json_int 23),
      (''direction'', JString ''request''), (''view'', JString ''flow-excess'')]"

lemma exact_byte_json_int: "0 \<le> n \<Longrightarrow> n \<le> 255 \<Longrightarrow> exact_byte (Some (json_int n)) = Some n"
  by (simp add: exact_byte_def json_int_def int_str_exact)

theorem role_sum_exact_witness:
  "\<exists>out u. role_document [] sample_role_context []
       [(''demand'', JNumber ''1.5''), (''excess'', JNumber ''25e-2'')] = Some out \<and>
     role_member out ''flow-excess'' ''number'' = Some (JNumber u) \<and> decimal_value u = 7 / 4"
proof -
  have sel: "role_selected sample_role_context ''flow-excess''"
    by (simp add: role_selected_def sample_role_context_def exact_byte_json_int role_supported_def)
  have free: "\<not> list_ex (gm_has []) reserved_keys" by (simp add: reserved_keys_def gm_has_def)
  have x: "exact_number ''1.5'' = Some (3 / 2)" by code_simp
  have y: "exact_number ''25e-2'' = Some (1 / 4)" by code_simp
  show ?thesis
    using role_sum_exact [OF sel free _ x _ y, of "[(''demand'', JNumber ''1.5''), (''excess'', JNumber ''25e-2'')]" "[]"]
    by auto
qed

end
