(* ===== verification/Cat_Mixer.thy ===== *)
theory Cat_Mixer
  imports Cat_Roles Cat_Valves
begin

text \<open>
  Relay and mixer modules of the B5 23 service (\<open>ab21ap21_b523_actuator_fields.go\<close>): requests that set six
  or twelve relays or move a mixer, and the answers to them. A byte is any number text whose exact value is
  an integer from 0 to 255, as \<open>big.Rat\<close> reads it. An error is \<open>None\<close>.
\<close>

section \<open>Bytes\<close>

definition rational_byte :: "json option \<Rightarrow> int option" where
  "rational_byte v =
     Option.bind (as_number v) (\<lambda>s. Option.bind (big_rat s) (\<lambda>r.
       if snd (quotient_of r) \<noteq> 1 \<or> r < 0 \<or> r > 255 then None else Some (fst (quotient_of r))))"

definition rational_or_0 :: "json option \<Rightarrow> int" where
  "rational_or_0 v = (case rational_byte v of None \<Rightarrow> 0 | Some n \<Rightarrow> n)"

section \<open>Fields\<close>

definition graded :: "json \<Rightarrow> string \<Rightarrow> (string, json) gomap" where
  "graded raw state = [(''raw'', raw), (''state'', JString state), (''grade'', JString ''Hypothesis'')]"

text \<open>The fields that a request or an answer has, with their widths.\<close>

definition mixer_layout :: "int \<Rightarrow> bool \<Rightarrow> (string \<times> nat) list" where
  "mixer_layout operation request =
     (if \<not> request then (''feedback'', 1) # (if operation = 2 then [(''movement'', 1)] else [])
      else if operation = 1 then [(''relays'', 6), (''pwm1'', 1)]
      else if operation = 5 then [(''relays'', 12), (''pwm1'', 1), (''pwm2'', 1)]
      else [(''circuit'', 1), (''mode'', 1), (''setpoint'', 1)])"

definition mixer_array :: "(string, json) gomap \<Rightarrow> string \<Rightarrow> json list" where
  "mixer_array raw key = (case as_array (gm_get raw key) of None \<Rightarrow> [] | Some vs \<Rightarrow> vs)"

definition mixer_short :: "(string, json) gomap \<Rightarrow> string \<times> nat \<Rightarrow> bool" where
  "mixer_short raw e \<longleftrightarrow> \<not> gm_has raw (fst e) \<or> length (mixer_array raw (fst e)) \<noteq> snd e"

definition relay_json :: "json \<Rightarrow> json" where
  "relay_json v =
     (let n = rational_or_0 (Some v)
      in JObject (graded v ''complete'' @
           (if n = 0 then [(''label'', JString ''off'')]
            else if n = 254 then [(''label'', JString ''on'')]
            else if n = 255 then [(''label'', JString ''unchanged'')]
            else [(''label'', JString ''on-for-seconds-then-off''), (''number'', json_int n), (''unit'', JString ''seconds'')])))"

definition half_text :: "int \<Rightarrow> string" where
  "half_text n = decimal_text (n * 5) 1"

definition half_members :: "string \<Rightarrow> string \<Rightarrow> (string, json) gomap" where
  "half_members t unit = [(''number'', JNumber t), (''unit'', JString unit), (''calculation'', JString ''Proven'')]"

definition pwm_alternatives :: "json list \<Rightarrow> int \<Rightarrow> json" where
  "pwm_alternatives vs n =
     JArray
       [JObject (graded (JArray vs) ''complete'' @ [(''candidate'', JString ''numeric'')] @ half_members (half_text n) ''percent'' @
          [(''candidate_domain'', JBool (n \<le> 250))]),
        JObject (graded (JArray vs) ''complete'' @ [(''candidate'', JString ''behavior'')] @
          (if n \<le> 200 then half_members (half_text n) ''percent'' else [(''label'', JString ''unchanged'')]))]"

definition setpoint_alternatives :: "json list \<Rightarrow> int \<Rightarrow> json" where
  "setpoint_alternatives vs n =
     JArray
       [JObject (graded (JArray vs) ''complete'' @ [(''candidate'', JString ''signed-half'')] @
          half_members (half_text (sint (word_of_int n :: byte))) ''Celsius''),
        JObject (graded (JArray vs) (if n = 190 then ''complete'' else ''Unknown'') @
          [(''candidate'', JString ''conflicting-example''), (''clamp'', json_int 95)] @
          (if n = 190 then [(''number'', json_int 95), (''unit'', JString ''Celsius'')] else []))]"

definition movement_members :: "int \<Rightarrow> (string, json) gomap" where
  "movement_members m =
     [(''number'', json_int m), (''unit'', JString ''percent''), (''calculation'', JString ''Proven''),
      (''maximum'', JBool (m = - 100 \<or> m = 100)),
      (''label'', JString (if m > 0 then ''opening'' else if m < 0 then ''closing'' else ''stopped''))]"

definition mode_labels :: "string list" where
  "mode_labels =
     [''stop/pump-off/close'', ''heating-regulation'', ''cooling-regulation'', ''pump-off/open'', ''pump-on/close'', ''pump-on/open'']"

text \<open>The mode of a mixer request: -1 unless its field has its width.\<close>

definition mixer_mode :: "(string, json) gomap \<Rightarrow> int" where
  "mixer_mode raw = (if mixer_short raw (''mode'', 1) then - 1 else rational_or_0 (Some (mixer_array raw ''mode'' ! 0)))"

text \<open>The state and the further members of a field of its width.\<close>

definition mixer_meaning :: "int \<Rightarrow> bool \<Rightarrow> int \<Rightarrow> string \<Rightarrow> json list \<Rightarrow> string \<times> (string, json) gomap" where
  "mixer_meaning operation three mode key vs =
     (let n = rational_or_0 (Some (vs ! 0))
      in if key = ''feedback'' then
           (''complete'', label_member
              (if n = 1 then ''accepted'' else if operation = 5 then ''rejected-or-unsupported'' else ''rejected''))
         else if key = ''movement'' then
           (let m = sint (word_of_int n :: byte)
            in if - 100 \<le> m \<and> m \<le> 100 then (''complete'', movement_members m) else (''Unknown'', []))
         else if key = ''relays'' then (''complete'', [(''relays'', JArray (map relay_json vs))])
         else if key = ''pwm1'' \<or> key = ''pwm2'' then (''complete'', [(''alternatives'', pwm_alternatives vs n)])
         else if key = ''circuit'' then
           (''complete'', label_member (if n < 2 \<or> n = 2 \<and> three then ''circuit-'' @ int_str n else ''ignored''))
         else if key = ''mode'' then
           (''complete'', label_member (if n < int (length mode_labels) then mode_labels ! nat n else ''ignored''))
         else
           (''complete'',
              (if mode \<ge> 0 then (''relevant'', JBool (mode = 1 \<or> mode = 2)) else (''relevance'', JString ''Unknown'')) #
              [(''alternatives'', setpoint_alternatives vs n)]))"

definition mixer_field :: "int \<Rightarrow> bool \<Rightarrow> (string, json) gomap \<Rightarrow> string \<times> nat \<Rightarrow> json" where
  "mixer_field operation three raw e =
     (let present = (''present'', JBool (gm_has raw (fst e))); vs = mixer_array raw (fst e); shown = raw_of raw (fst e)
      in if mixer_short raw e then JObject (graded shown ''incomplete'' @ [present])
         else let (state, more) = mixer_meaning operation three (mixer_mode raw) (fst e) vs
              in JObject (graded shown state @ present # more))"

section \<open>Documents\<close>

definition mixer_selection :: "(string, json) gomap \<Rightarrow> (int \<times> bool) option" where
  "mixer_selection ctx =
     (let operation = rational_or_0 (gm_get ctx ''operation''); view = gm_get ctx ''view''; direction = gm_get ctx ''direction''
      in if rational_or_0 (gm_get ctx ''primary'') = 181 \<and> rational_or_0 (gm_get ctx ''secondary'') = 35 \<and>
            (operation = 1 \<and> view = Some (JString ''relay-six'') \<or> operation = 5 \<and> view = Some (JString ''relay-twelve'') \<or>
             operation = 2 \<and> view = Some (JString ''mixer'')) \<and>
            (direction = Some (JString ''request'') \<or> direction = Some (JString ''positive-feedback''))
         then Some (operation, direction = Some (JString ''request'')) else None)"

text \<open>Whether the variant has three circuits; only a mixer request must say one.\<close>

definition mixer_variant :: "int \<Rightarrow> bool \<Rightarrow> (string, json) gomap \<Rightarrow> bool option" where
  "mixer_variant operation request args =
     (if operation = 2 \<and> request then
        (if gm_get args ''variant'' = Some (JString ''three-circuit'') then Some True
         else if gm_get args ''variant'' = Some (JString ''two-circuit'') then Some False
         else None)
      else Some False)"

definition mixer_document ::
  "(string, json) gomap \<Rightarrow> (string, json) gomap \<Rightarrow> (string, json) gomap option \<Rightarrow> json option" where
  "mixer_document ctx raw args =
     (case mixer_selection ctx of
        None \<Rightarrow> Some (context_output ctx raw args ''Unknown'' [])
      | Some (operation, request) \<Rightarrow>
          (let layout = mixer_layout operation request
           in map_option (\<lambda>three.
                context_output ctx raw args (if list_ex (mixer_short raw) layout then ''partial'' else ''complete'')
                  (map (\<lambda>e. (fst e, mixer_field operation three raw e)) layout))
                (mixer_variant operation request (case args of None \<Rightarrow> [] | Some a \<Rightarrow> a))))"

definition rational_bytes :: "json \<Rightarrow> bool" where
  "rational_bytes v \<longleftrightarrow> (case v of JArray vs \<Rightarrow> list_all (\<lambda>b. rational_byte (Some b) \<noteq> None) vs | _ \<Rightarrow> False)"

definition ab21ap21_evaluate :: "token list \<Rightarrow> bool \<Rightarrow> json option" where
  "ab21ap21_evaluate ts at_end =
     Option.bind (json_document ts at_end) (\<lambda>doc.
     Option.bind (as_object (Some doc)) (\<lambda>obj.
     Option.bind (as_object (gm_get obj ''context'')) (\<lambda>ctx.
     Option.bind (as_object (gm_get obj ''fields'')) (\<lambda>raw.
     if \<not> list_all (\<lambda>key. is_nil (gm_get ctx key) \<or> rational_byte (gm_get ctx key) \<noteq> None) [''primary'', ''secondary'', ''operation'']
     then None
     else if \<not> list_all (\<lambda>key. is_nil (gm_get ctx key) \<or> as_string (gm_get ctx key) \<noteq> None) [''direction'', ''view''] then None
     else if \<not> list_all (\<lambda>(_, v). rational_bytes v) raw then None
     else Option.bind (optional_arguments obj) (\<lambda>args. mixer_document ctx raw args)))))"

section \<open>What the document reports\<close>

lemma rational_byte_json_int: "rational_byte (Some (json_int n)) = (if 0 \<le> n \<and> n \<le> 255 then Some n else None)"
  by (simp add: rational_byte_def as_number_def json_int_def big_rat_int_str)

lemma rational_byte_range: "rational_byte v = Some n \<Longrightarrow> 0 \<le> n \<and> n \<le> 255"
proof -
  assume "rational_byte v = Some n"
  then obtain r where r: "snd (quotient_of r) = 1" "0 \<le> r" "r \<le> 255" "n = fst (quotient_of r)"
    by (auto simp: rational_byte_def bind_eq_Some_conv split: if_splits)
  then have "r = of_int n" using quotient_of_div [of r n 1] by (metis prod.collapse div_by_1 of_int_1)
  then show ?thesis using r(2,3) by simp
qed

lemma rational_or_0_range: "0 \<le> rational_or_0 v \<and> rational_or_0 v \<le> 255"
  using rational_byte_range by (auto simp: rational_or_0_def split: option.split)

text \<open>What a relay reports gives back its byte.\<close>

definition relay_byte :: "json \<Rightarrow> rat" where
  "relay_byte out =
     (case output_member out ''number'' of
        Some v \<Rightarrow> number_rat v
      | None \<Rightarrow>
          if output_member out ''label'' = Some (JString ''off'') then 0
          else if output_member out ''label'' = Some (JString ''on'') then 254 else 255)"

lemma relay_byte_exact: "relay_byte (relay_json v) = of_int (rational_or_0 (Some v))"
  by (simp add: relay_json_def relay_byte_def Let_def graded_def number_rat_def json_int_def int_str_value)

text \<open>The numbers that the candidates of a field report.\<close>

definition candidate_number :: "json \<Rightarrow> nat \<Rightarrow> rat option" where
  "candidate_number v i = Option.bind (as_array (Some v)) (\<lambda>vs. map_option number_rat (output_member (vs ! i) ''number''))"

lemma half_text_value: "decimal_value (half_text n) = of_int n / 2"
  unfolding half_text_def decimal_text_value by simp

lemma pwm_candidates:
  "candidate_number (pwm_alternatives vs n) 0 = Some (of_int n / 2)"
  "candidate_number (pwm_alternatives vs n) 1 = (if n \<le> 200 then Some (of_int n / 2) else None)"
  by (simp_all add: candidate_number_def pwm_alternatives_def as_array_def graded_def half_members_def number_rat_def half_text_value)

lemma setpoint_candidates:
  "candidate_number (setpoint_alternatives vs n) 0 = Some (of_int (sint (word_of_int n :: byte)) / 2)"
  "candidate_number (setpoint_alternatives vs n) 1 = (if n = 190 then Some 95 else None)"
  by (simp_all add: candidate_number_def setpoint_alternatives_def as_array_def graded_def half_members_def number_rat_def
      half_text_value json_int_def int_str_value)

lemma mixer_layout_distinct: "distinct (map fst (mixer_layout operation request))"
  by (simp add: mixer_layout_def)

text \<open>
  A selected document exists exactly when a mixer request says its variant. It is complete exactly when
  every field is given with its width; a field tells whether it was given, and one of another width is
  reported incomplete and not read.
\<close>

theorem mixer_document_exact:
  assumes "mixer_selection ctx = Some (operation, request)" and "(key, width) \<in> set (mixer_layout operation request)"
  shows "let layout = mixer_layout operation request;
       whole = (\<lambda>(key, width). gm_has raw key \<and> length (mixer_array raw key) = width)
     in case mixer_document ctx raw args of
          None \<Rightarrow> mixer_variant operation request (case args of None \<Rightarrow> [] | Some a \<Rightarrow> a) = None
        | Some out \<Rightarrow>
            (\<exists>three. mixer_variant operation request (case args of None \<Rightarrow> [] | Some a \<Rightarrow> a) = Some three \<and>
               output_field out key ''state'' =
                 Some (JString (if whole (key, width)
                                then fst (mixer_meaning operation three (mixer_mode raw) key (mixer_array raw key)) else ''incomplete''))) \<and>
            output_member out ''state'' = Some (JString (if list_all whole layout then ''complete'' else ''partial'')) \<and>
            output_field out key ''present'' = Some (JBool (gm_has raw key)) \<and>
            output_field out key ''raw'' = Some (raw_of raw key)"
proof (cases "mixer_variant operation request (case args of None \<Rightarrow> [] | Some a \<Rightarrow> a)")
  case None
  then show ?thesis using assms(1) by (simp add: mixer_document_def Let_def)
next
  case (Some three)
  let ?whole = "\<lambda>(key, width). gm_has raw key \<and> length (mixer_array raw key) = width"
  have short: "mixer_short raw e = (\<not> ?whole e)" for e
    by (simp add: mixer_short_def split_beta)
  have "list_ex (mixer_short raw) es \<longleftrightarrow> \<not> list_all ?whole es" for es
    unfolding short by (induction es) auto
  then have out: "mixer_document ctx raw args = Some (context_output ctx raw args
      (if list_all ?whole (mixer_layout operation request) then ''complete'' else ''partial'')
      (map (\<lambda>e. (fst e, mixer_field operation three raw e)) (mixer_layout operation request)))" (is "_ = Some ?out")
    using assms(1) Some by (simp add: mixer_document_def Let_def)
  have "map_of (map (\<lambda>e. (fst e, mixer_field operation three raw e)) (mixer_layout operation request)) key =
      Some (mixer_field operation three raw (key, width))"
    using assms(2) mixer_layout_distinct
    by (intro map_of_is_SomeI) (auto simp: comp_def intro!: image_eqI [of _ _ "(key, width)"])
  then have field: "output_field ?out key k = output_member (mixer_field operation three raw (key, width)) k" for k
    by (simp add: output_field_def context_output_def gm_get_def)
  have "output_member (mixer_field operation three raw (key, width)) ''state'' =
      Some (JString (if ?whole (key, width)
        then fst (mixer_meaning operation three (mixer_mode raw) key (mixer_array raw key)) else ''incomplete''))"
    "output_member (mixer_field operation three raw (key, width)) ''present'' = Some (JBool (gm_has raw key))"
    "output_member (mixer_field operation three raw (key, width)) ''raw'' = Some (raw_of raw key)"
    by (simp_all add: mixer_field_def Let_def short graded_def split_beta)
  moreover have "output_member ?out ''state'' = Some (JString
      (if list_all ?whole (mixer_layout operation request) then ''complete'' else ''partial''))"
    by (simp add: context_output_def)
  ultimately show ?thesis unfolding out Let_def field [symmetric] using Some by simp
qed

end
