(* ===== verification/Cat_Guard.thy ===== *)
theory Cat_Guard
  imports Cat_Mixer Cat_Actuator
begin

text \<open>
  The local guard of the B5 17 adaptation (\<open>ab11aq11_b517_local_guard.go\<close>): whether a received input and the
  request that asked for it may be acted on. Escapes are checked inside the strings of the input only;
  \<open>utf8.Valid\<close> and the token decoder are parameters on the input. An error is \<open>None\<close>.
\<close>

section \<open>Escapes\<close>

text \<open>The code of a \<open>\u\<close> escape that the text starts with.\<close>

definition escape_code :: "string \<Rightarrow> nat option" where
  "escape_code s = (if length s < 6 \<or> s ! 0 \<noteq> CHR 0x5C \<or> s ! 1 \<noteq> CHR ''u'' then None else hex_code (take 4 (drop 2 s)))"

text \<open>The loop over the bytes on what is left of the input, and whether it is inside a string.\<close>

function string_escapes :: "bool \<Rightarrow> string \<Rightarrow> bool" where
  "string_escapes inside s =
     (case s of
        [] \<Rightarrow> True
      | c # r \<Rightarrow>
          if \<not> inside then string_escapes (c = CHR 0x22) r
          else if c = CHR 0x22 then string_escapes False r
          else if c \<noteq> CHR 0x5C then string_escapes inside r
          else if r \<noteq> [] \<and> hd r = CHR ''u'' then
            (case escape_code s of
               None \<Rightarrow> False
             | Some code \<Rightarrow>
                 if 0xDC00 \<le> code \<and> code \<le> 0xDFFF then False
                 else if 0xD800 \<le> code \<and> code \<le> 0xDBFF then
                   (case escape_code (drop 6 s) of
                      None \<Rightarrow> False
                    | Some low \<Rightarrow> if low < 0xDC00 \<or> low > 0xDFFF then False else string_escapes inside (drop 12 s))
                 else string_escapes inside (drop 6 s))
          else string_escapes inside (drop 1 r))"
  by pat_completeness auto

termination
  by (relation "measure (\<lambda>(_, s). length s)") auto

declare string_escapes.simps [simp del]

section \<open>Numbers\<close>

definition rational_up_to :: "int \<Rightarrow> json option \<Rightarrow> int option" where
  "rational_up_to bound v =
     Option.bind (as_number v) (\<lambda>s. Option.bind (big_rat s) (\<lambda>r.
       let n = fst (quotient_of r)
       in if snd (quotient_of r) \<noteq> 1 \<or> \<not> is_int64 n then None else if 0 \<le> n \<and> n \<le> bound then Some n else None))"

definition guard_bound :: "string \<Rightarrow> int" where
  "guard_bound name = (if name = ''received_length'' then 65535 else 255)"

definition guard_names :: "string list" where
  "guard_names = [''ready_state'', ''final_option'', ''received_length'']"

definition guard_number :: "(string, json) gomap \<Rightarrow> string \<Rightarrow> int option" where
  "guard_number args name = rational_up_to (guard_bound name) (gm_get args name)"

section \<open>Checks\<close>

definition guard_array :: "(string, json) gomap \<Rightarrow> string \<Rightarrow> int list" where
  "guard_array flds name =
     (case as_array (gm_get flds name) of
        None \<Rightarrow> []
      | Some vs \<Rightarrow> map (\<lambda>v. case rational_up_to 255 (Some v) of None \<Rightarrow> 0 | Some n \<Rightarrow> n) vs)"

text \<open>The checks in order: name, what they were made on, whether they could be made, and their outcome.\<close>

definition guard_checks ::
  "(string, json) gomap \<Rightarrow> (string, json) gomap \<Rightarrow> int \<Rightarrow> int \<Rightarrow> int \<Rightarrow> (string \<times> json \<times> bool \<times> bool) list" where
  "guard_checks flds args ready final received =
     (let request = guard_array flds ''request''; inp = guard_array flds ''input'';
          lengths = JObject [(''fields'', JObject flds), (''received_length'', raw_of args ''received_length'')];
          whole = length inp \<ge> 5
      in [(''ready_state'', raw_of args ''ready_state'', True, ready = 3),
          (''final_option'', raw_of args ''final_option'', True, final \<noteq> 0),
          (''initialized_input'', JObject flds, whole, whole),
          (''payload_length'', lengths, whole, whole \<and> inp ! 4 + 6 = received),
          (''initialized_length'', lengths, gm_has flds ''input'', received = int (length inp)),
          (''request_identity'', JObject flds, length request \<ge> 2,
             length request \<ge> 2 \<and> request ! 0 = 181 \<and> request ! 1 = 23),
          (''input_identity'', JObject flds, length inp \<ge> 2, length inp \<ge> 2 \<and> inp ! 0 = 181 \<and> inp ! 1 = 24)])"

definition guard_result :: "json \<Rightarrow> bool \<Rightarrow> bool \<Rightarrow> json" where
  "guard_result raw made flag =
     JObject ([(''raw'', raw), (''state'', JString (if made then ''complete'' else ''incomplete'')),
               (''grade'', JString ''Hypothesis''), (''flags'', JObject [(''value'', JBool flag)])] @
              (if made then [(''calculation'', JString ''Proven'')] else []))"

definition guard_eligible :: "(string \<times> json \<times> bool \<times> bool) list \<Rightarrow> bool" where
  "guard_eligible checks = fold (\<lambda>(_, _, made, flag) eligible. eligible \<and> made \<and> flag) checks True"

definition guard_partial :: "(string, json) gomap \<Rightarrow> bool" where
  "guard_partial flds \<longleftrightarrow> length (guard_array flds ''request'') < 2 \<or> length (guard_array flds ''input'') < 5"

definition guard_results ::
  "(string, json) gomap \<Rightarrow> (string, json) gomap \<Rightarrow> int \<Rightarrow> int \<Rightarrow> int \<Rightarrow> (string, json) gomap" where
  "guard_results flds args ready final received =
     (let checks = guard_checks flds args ready final received
      in map (\<lambda>(name, raw, made, flag). (name, guard_result raw made (made \<and> flag))) checks @
         [(''eligible'',
             guard_result (JObject [(''fields'', JObject flds), (''arguments'', JObject args)])
               (\<not> guard_partial flds) (guard_eligible checks))])"

section \<open>Documents\<close>

definition guard_output :: "(string, json) gomap \<Rightarrow> string \<Rightarrow> (string, json) gomap \<Rightarrow> json" where
  "guard_output obj state results =
     JObject (gm_put ''results'' (JObject results) (gm_put ''qualified'' (JBool False)
       (gm_put ''physical'' (JString ''Unknown'') (gm_put ''state'' (JString state) (gm_put ''raw'' (JObject obj) obj)))))"

definition guard_selected :: "(string, json) gomap \<Rightarrow> bool" where
  "guard_selected ctx \<longleftrightarrow>
     rational_up_to 255 (gm_get ctx ''primary'') = Some 181 \<and> rational_up_to 255 (gm_get ctx ''secondary'') = Some 23 \<and>
     \<not> gm_has ctx ''operation'' \<and> gm_get ctx ''direction'' = Some (JString ''local'') \<and>
     gm_get ctx ''view'' = Some (JString ''adaptation-guard'')"

definition guard_document ::
  "(string, json) gomap \<Rightarrow> (string, json) gomap \<Rightarrow> (string, json) gomap \<Rightarrow> (string, json) gomap \<Rightarrow> json option" where
  "guard_document obj ctx flds args =
     (if \<not> guard_selected ctx then Some (guard_output obj ''Unknown'' [])
      else Option.bind (guard_number args ''ready_state'') (\<lambda>ready.
           Option.bind (guard_number args ''final_option'') (\<lambda>final.
           Option.bind (guard_number args ''received_length'') (\<lambda>received.
           Some (guard_output obj (if guard_partial flds then ''partial'' else ''complete'')
             (guard_results flds args ready final received))))))"

definition guard_axis_ok :: "(string, json) gomap \<Rightarrow> string \<Rightarrow> bool" where
  "guard_axis_ok ctx name \<longleftrightarrow>
     (case gm_get ctx name of None \<Rightarrow> name = ''operation'' | Some v \<Rightarrow> rational_up_to 255 (Some v) \<noteq> None)"

definition guard_bytes :: "json \<Rightarrow> bool" where
  "guard_bytes v \<longleftrightarrow> (case v of JArray vs \<Rightarrow> list_all (\<lambda>b. rational_up_to 255 (Some b) \<noteq> None) vs | _ \<Rightarrow> False)"

definition ab11aq11_evaluate ::
  "(string \<Rightarrow> bool) \<Rightarrow> (string \<Rightarrow> token list \<times> bool) \<Rightarrow> string \<Rightarrow> json option" where
  "ab11aq11_evaluate valid_utf8 decoder input =
     (if \<not> valid_utf8 input \<or> \<not> string_escapes False input then None
      else
     Option.bind (finite_document (fst (decoder input)) (snd (decoder input))) (\<lambda>doc.
     Option.bind (as_object (Some doc)) (\<lambda>obj.
     Option.bind (as_object (gm_get obj ''context'')) (\<lambda>ctx.
     Option.bind (as_object (gm_get obj ''fields'')) (\<lambda>flds.
     Option.bind (optional_arguments obj) (\<lambda>given.
     let args = (case given of None \<Rightarrow> [] | Some a \<Rightarrow> a)
     in if \<not> list_all (guard_axis_ok ctx) [''primary'', ''secondary'', ''operation''] then None
        else if \<not> list_all (\<lambda>key. as_string (gm_get ctx key) \<noteq> None) [''direction'', ''view''] then None
        else if \<not> list_all (\<lambda>(_, v). guard_bytes v) flds then None
        else if \<not> list_all (\<lambda>name. gm_has args name \<longrightarrow> guard_number args name \<noteq> None) guard_names then None
        else guard_document obj ctx flds args))))))"

section \<open>When an input is eligible\<close>

lemma guard_output_get:
  "output_member (guard_output obj state results) ''state'' = Some (JString state)"
  "output_member (guard_output obj state results) ''results'' = Some (JObject results)"
  "output_member (guard_output obj state results) ''raw'' = Some (JObject obj)"
  by (simp_all add: guard_output_def)

lemma guard_eligible_all: "guard_eligible checks \<longleftrightarrow> list_all (\<lambda>(_, _, made, flag). made \<and> flag) checks"
proof -
  have "fold (\<lambda>(_, _, made, flag) eligible. eligible \<and> made \<and> flag) checks e \<longleftrightarrow>
      e \<and> list_all (\<lambda>(_, _, made, flag). made \<and> flag) checks" for e
    by (induction checks arbitrary: e) auto
  then show ?thesis by (simp add: guard_eligible_def)
qed

text \<open>The frame that may be acted on: request and answer of this service, and a length that adds up.\<close>

definition guard_frame :: "int list \<Rightarrow> int list \<Rightarrow> int \<Rightarrow> bool" where
  "guard_frame request inp received \<longleftrightarrow>
     take 2 request = [181, 23] \<and> take 2 inp = [181, 24] \<and> received = int (length inp) \<and> 5 \<le> length inp \<and> inp ! 4 + 6 = received"

lemma take_two: "take 2 xs = [a, b] \<longleftrightarrow> 2 \<le> length xs \<and> xs ! 0 = a \<and> xs ! 1 = b"
  by (cases xs; simp; case_tac list; simp add: numeral_2_eq_2)

lemma guard_array_given: "guard_array flds name \<noteq> [] \<Longrightarrow> gm_has flds name"
  by (cases "gm_get flds name") (simp_all add: guard_array_def as_array_def gm_has_def)

lemma guard_checks_all:
  "guard_eligible (guard_checks flds args ready final received) \<longleftrightarrow>
     ready = 3 \<and> final \<noteq> 0 \<and> guard_frame (guard_array flds ''request'') (guard_array flds ''input'') received"
  using guard_array_given [of flds "''input''"]
  by (cases "guard_array flds ''input'' = []") (auto simp: guard_eligible_all guard_checks_def Let_def guard_frame_def take_two)

definition guard_flag :: "json \<Rightarrow> bool option" where
  "guard_flag out =
     Option.bind (output_member out ''results'') (\<lambda>rs. Option.bind (output_member rs ''eligible'') (\<lambda>e.
       Option.bind (output_member e ''flags'') (\<lambda>fs. as_bool (output_member fs ''value''))))"

lemma guard_flag_output:
  "guard_flag (guard_output obj state (guard_results flds args ready final received)) =
     Some (guard_eligible (guard_checks flds args ready final received))"
  by (simp add: guard_flag_def guard_output_get guard_results_def guard_checks_def guard_result_def as_bool_def Let_def)

text \<open>
  A local adaptation check exists exactly when its three arguments are numbers in their bounds. It calls
  the input eligible exactly when the ready state is 3, an option is final, the request and the input are frames
  of the service, and the received length is that of the input and six more than its length byte. An
  eligible input is never reported as partial.
\<close>

theorem guard_eligible_exact:
  assumes "guard_selected ctx"
  shows "case (guard_number args ''ready_state'', guard_number args ''final_option'', guard_number args ''received_length'') of
       (Some ready, Some final, Some received) \<Rightarrow>
         (case guard_document obj ctx flds args of
            None \<Rightarrow> False
          | Some out \<Rightarrow>
              guard_flag out = Some (ready = 3 \<and> final \<noteq> 0 \<and>
                guard_frame (guard_array flds ''request'') (guard_array flds ''input'') received) \<and>
              \<not> (guard_flag out = Some True \<and> output_member out ''state'' \<noteq> Some (JString ''complete'')) \<and>
              output_member out ''raw'' = Some (JObject obj))
     | _ \<Rightarrow> guard_document obj ctx flds args = None"
proof -
  have "guard_frame (guard_array flds ''request'') (guard_array flds ''input'') received \<Longrightarrow> \<not> guard_partial flds" for received
    by (auto simp: guard_frame_def guard_partial_def take_two)
  then show ?thesis
    using assms
    by (auto simp: guard_document_def guard_flag_output guard_checks_all guard_output_get split: option.split)
qed

definition sample_guard_context :: "(string, json) gomap" where
  "sample_guard_context =
     [(''primary'', json_int 181), (''secondary'', json_int 23), (''direction'', JString ''local''),
      (''view'', JString ''adaptation-guard'')]"

definition sample_guard_arguments :: "(string, json) gomap" where
  "sample_guard_arguments =
     [(''ready_state'', json_int 3), (''final_option'', json_int 1), (''received_length'', json_int 6)]"

definition sample_guard_fields :: "(string, json) gomap" where
  "sample_guard_fields =
     [(''request'', JArray (map json_int [181, 23])), (''input'', JArray (map json_int [181, 24, 0, 0, 0, 7]))]"

lemma rational_up_to_json_int: "is_int64 n \<Longrightarrow>
     rational_up_to bound (Some (json_int n)) = (if 0 \<le> n \<and> n \<le> bound then Some n else None)"
  by (simp add: rational_up_to_def as_number_def json_int_def big_rat_int_str)

lemma small_int64: "0 \<le> n \<Longrightarrow> n \<le> 65535 \<Longrightarrow> is_int64 n"
  by (simp add: is_int64_def max_int64_def)

theorem guard_eligible_exact_witness:
  "case guard_document [] sample_guard_context sample_guard_fields sample_guard_arguments of
     None \<Rightarrow> False | Some out \<Rightarrow> guard_flag out = Some True"
proof -
  have sel: "guard_selected sample_guard_context"
    by (simp add: guard_selected_def sample_guard_context_def rational_up_to_json_int small_int64 gm_has_def)
  have numbers: "guard_number sample_guard_arguments ''ready_state'' = Some 3"
    "guard_number sample_guard_arguments ''final_option'' = Some 1" "guard_number sample_guard_arguments ''received_length'' = Some 6"
    by (simp_all add: guard_number_def sample_guard_arguments_def guard_bound_def rational_up_to_json_int small_int64)
  have "guard_array sample_guard_fields ''request'' = [181, 23]" "guard_array sample_guard_fields ''input'' = [181, 24, 0, 0, 0, 7]"
    by (simp_all add: guard_array_def sample_guard_fields_def as_array_def rational_up_to_json_int small_int64)
  moreover have "guard_frame [181, 23] [181, 24, 0, 0, 0, 7] 6" by (simp add: guard_frame_def)
  ultimately show ?thesis
    using guard_eligible_exact [OF sel, where args = sample_guard_arguments and obj = "[]" and flds = sample_guard_fields]
    by (simp add: numbers split: option.splits)
qed

end
