(* ===== verification/Cat_Sensor.thy ===== *)
theory Cat_Sensor
  imports Cat_Valves Cat_Actuator
begin

unbundle bit_operations_syntax

text \<open>
  Sensor words of the B5 23 service (\<open>ab27ao27_b523_sensor_views.go\<close>): temperatures of two bytes, and behind
  them a packed status with two bits for every sensor. \<open>utf8.Valid\<close> and the token decoder are parameters on the
  input, an error is \<open>None\<close>. Go ints that stay below 65536 are integers.
\<close>

section \<open>Layout\<close>

text \<open>The first sensor, how many there are, and where their status stands.\<close>

definition sensor_start :: "int \<Rightarrow> nat" where
  "sensor_start operation = (if operation = 7 then 8 else 1)"

definition sensor_count :: "int \<Rightarrow> nat" where
  "sensor_count operation = (if operation = 6 then 7 else 6)"

definition status_position :: "int \<Rightarrow> nat" where
  "status_position operation = (if operation = 6 then 17 else 16)"

definition sensor_position :: "int \<Rightarrow> nat \<Rightarrow> nat" where
  "sensor_position operation i = 3 + 2 * i + (if operation = 7 \<and> i \<ge> 4 then 1 else 0)"

text \<open>Bytes of the object from a position on, and whether all are there.\<close>

definition sensor_slice :: "json list \<Rightarrow> nat \<Rightarrow> nat \<Rightarrow> json list \<times> bool" where
  "sensor_slice object position width =
     (if position \<ge> length object then ([], False)
      else if position + width > length object then (drop position object, False)
      else (take width (drop position object), True))"

section \<open>Fields\<close>

definition slice_field ::
  "json list \<Rightarrow> nat \<Rightarrow> nat \<Rightarrow> (json list \<Rightarrow> json \<times> string \<times> (string, json) gomap) \<Rightarrow> bool \<times> json" where
  "slice_field object position width read =
     (let (bs, whole) = sensor_slice object position width;
          (raw, state, more) = (if whole then read bs else (JArray bs, ''incomplete'', []))
      in (whole, JObject ([(''raw'', raw), (''state'', JString state), (''grade'', JString ''Hypothesis'')] @ more)))"

definition sensor_word :: "json list \<Rightarrow> int" where
  "sensor_word bs = int64_or_zero (Some (bs ! 0)) OR push_bit 8 (int64_or_zero (Some (bs ! 1)))"

definition word_reading :: "json list \<Rightarrow> json \<times> string \<times> (string, json) gomap" where
  "word_reading bs =
     (json_int (sensor_word bs), ''Hypothesis'',
        if sensor_word bs = 32768 then [(''label'', JString ''replacement'')]
        else proven (decimal_text (sint (word_of_int (sensor_word bs) :: uint16) * 625) 4))"

definition status_pair :: "int \<Rightarrow> nat \<Rightarrow> int" where
  "status_pair b i = drop_bit (2 * (i mod 4)) b AND 3"

definition status_labels :: "string \<Rightarrow> string list" where
  "status_labels view =
     [if view = ''status-zero-valid-or-low'' then ''valid-value-or-low-level'' else ''valid-value'',
      ''open-circuit'', ''closed-circuit'', ''high-level'']"

definition status_reading :: "string \<Rightarrow> nat \<Rightarrow> json list \<Rightarrow> json \<times> string \<times> (string, json) gomap" where
  "status_reading view i bs =
     (let pair = status_pair (int64_or_zero (Some (bs ! 0))) i
      in (json_int pair, ''Hypothesis'', label_member (status_labels view ! nat pair)))"

definition reserved_bits :: "int \<Rightarrow> int \<Rightarrow> int" where
  "reserved_bits operation b = (if operation = 6 then drop_bit 6 (b AND 192) else drop_bit 4 (b AND 240))"

definition reserved_reading :: "int \<Rightarrow> json list \<Rightarrow> json \<times> string \<times> (string, json) gomap" where
  "reserved_reading operation bs =
     (let b = int64_or_zero (Some (bs ! 0))
      in (json_int b, ''Hypothesis'', [(''reserved'', json_int (reserved_bits operation b))]))"

definition extra_reading :: "int \<Rightarrow> json list \<Rightarrow> json \<times> string \<times> (string, json) gomap" where
  "extra_reading operation bs =
     (let b = int64_or_zero (Some (bs ! 0))
      in if operation = 3 then (json_int b, ''Hypothesis'', proven (decimal_text (b * 5) 1)) else (json_int b, ''Unknown'', []))"

definition sensor_name :: "int \<Rightarrow> nat \<Rightarrow> string" where
  "sensor_name operation i = ''S'' @ nat_str (sensor_start operation + i)"

definition status_name :: "int \<Rightarrow> nat \<Rightarrow> string" where
  "status_name operation i = ''statusS'' @ nat_str (sensor_start operation + i)"

text \<open>Every field with whether its bytes are there, in the order the code reads them.\<close>

definition sensor_fields :: "int \<Rightarrow> string \<Rightarrow> json list \<Rightarrow> (string \<times> bool \<times> json) list" where
  "sensor_fields operation view object =
     concat (map (\<lambda>i.
       [(sensor_name operation i, slice_field object (sensor_position operation i) 2 word_reading),
        (status_name operation i, slice_field object (status_position operation + i div 4) 1 (status_reading view i))])
       [0..<sensor_count operation]) @
     [(''status_reserved'', slice_field object (status_position operation + 1) 1 (reserved_reading operation))] @
     (if operation = 3 \<or> operation = 7
      then [(if operation = 7 then ''opaque11'' else ''PWM'',
             slice_field object (if operation = 7 then 11 else 15) 1 (extra_reading operation))] else [])"

section \<open>Documents\<close>

definition sensor_selection :: "(string, json) gomap \<Rightarrow> (int \<times> string) option" where
  "sensor_selection ctx =
     (let operation = int64_or_zero (gm_get ctx ''operation''); view = (case as_string (gm_get ctx ''view'') of None \<Rightarrow> [] | Some v \<Rightarrow> v)
      in if int64_or_zero (gm_get ctx ''primary'') \<noteq> 181 \<or> int64_or_zero (gm_get ctx ''secondary'') \<noteq> 35 \<or>
            gm_get ctx ''direction'' \<noteq> Some (JString ''positive'') \<or>
            (view \<noteq> ''status-zero-valid'' \<and> view \<noteq> ''status-zero-valid-or-low'') \<or>
            (operation \<noteq> 3 \<and> operation \<noteq> 6 \<and> operation \<noteq> 7)
         then None else Some (operation, view))"

definition sensor_document ::
  "(string, json) gomap \<Rightarrow> (string, json) gomap \<Rightarrow> (string, json) gomap option \<Rightarrow> json" where
  "sensor_document ctx raw args =
     (case sensor_selection ctx of
        None \<Rightarrow> context_output ctx raw args ''Unknown'' []
      | Some (operation, view) \<Rightarrow>
          (let object = as_array (gm_get raw ''logical_object'');
               fs = sensor_fields operation view (case object of None \<Rightarrow> [] | Some vs \<Rightarrow> vs)
           in context_output ctx raw args
                (if object = None \<or> list_ex (\<lambda>(_, whole, _). \<not> whole) fs then ''partial'' else ''Hypothesis'')
                (map (\<lambda>(name, _, f). (name, f)) fs)))"

definition ab27ao27_interpret ::
  "(string \<Rightarrow> bool) \<Rightarrow> (string \<Rightarrow> token list \<times> bool) \<Rightarrow> string \<Rightarrow> json option" where
  "ab27ao27_interpret valid_utf8 decoder input =
     (if \<not> valid_utf8 input then None
      else
     Option.bind (json_document (fst (decoder input)) (snd (decoder input))) (\<lambda>doc.
     Option.bind (as_object (Some doc)) (\<lambda>obj.
     if \<not> list_all (\<lambda>(name, _). name = ''context'' \<or> name = ''fields'' \<or> name = ''arguments'') obj then None
     else Option.bind (as_object (gm_get obj ''context'')) (\<lambda>ctx.
     Option.bind (as_object (gm_get obj ''fields'')) (\<lambda>raw.
     if \<not> list_all (\<lambda>key. gm_has ctx key \<longrightarrow> as_int64 (gm_get ctx key) \<noteq> None) [''primary'', ''secondary'', ''operation'']
     then None
     else if \<not> list_all (\<lambda>key. gm_has ctx key \<longrightarrow> as_string (gm_get ctx key) \<noteq> None) [''direction'', ''view''] then None
     else if \<not> list_all (\<lambda>(_, v). signed_byte_array as_int64 v) raw then None
     else Option.bind (optional_arguments obj) (\<lambda>args.
     if args \<noteq> None \<and> args \<noteq> Some [] then None
     else Some (sensor_document ctx raw args)))))))"

section \<open>What the document reports\<close>

definition sensor_names :: "int \<Rightarrow> string list" where
  "sensor_names operation =
     concat (map (\<lambda>i. [sensor_name operation i, status_name operation i]) [0..<sensor_count operation]) @ [''status_reserved''] @
     (if operation = 3 \<or> operation = 7 then [if operation = 7 then ''opaque11'' else ''PWM''] else [])"

lemma paired_names: "map fst (concat (map (\<lambda>i. [(f i, g i), (h i, k i)]) ns)) = concat (map (\<lambda>i. [f i, h i]) ns)"
  by (induction ns) auto

lemma sensor_fields_names: "map fst (sensor_fields operation view object) = sensor_names operation"
  unfolding sensor_fields_def sensor_names_def map_append paired_names by simp

lemma sensor_names_concrete: "list_all (\<lambda>operation. distinct (sensor_names operation)) [3, 6, 7]"
  by code_simp

lemma sensor_names_distinct: "operation \<in> {3, 6, 7} \<Longrightarrow> distinct (sensor_names operation)"
  using sensor_names_concrete by auto

definition sensor_object :: "(string, json) gomap \<Rightarrow> json list" where
  "sensor_object raw = (case as_array (gm_get raw ''logical_object'') of None \<Rightarrow> [] | Some vs \<Rightarrow> vs)"

lemma sensor_selection_operation: "sensor_selection ctx = Some (operation, view) \<Longrightarrow> operation \<in> {3, 6, 7}"
  by (auto simp: sensor_selection_def Let_def split: if_splits)

lemma sensor_output:
  assumes sel: "sensor_selection ctx = Some (operation, view)"
    and field: "(name, whole, f) \<in> set (sensor_fields operation view (sensor_object raw))"
  shows "output_field (sensor_document ctx raw args) name key = output_member f key"
proof -
  let ?fs = "sensor_fields operation view (sensor_object raw)"
  have "map fst (map (\<lambda>(name, _, f). (name, f)) ?fs) = sensor_names operation"
    unfolding sensor_fields_names [symmetric, of operation view "sensor_object raw"] by (simp add: comp_def split_beta)
  moreover have "(name, f) \<in> set (map (\<lambda>(name, _, f). (name, f)) ?fs)" using field by force
  ultimately have "map_of (map (\<lambda>(name, _, f). (name, f)) ?fs) name = Some f"
    using sensor_names_distinct [OF sensor_selection_operation [OF sel]] by (intro map_of_is_SomeI) simp_all
  then show ?thesis
    unfolding sensor_document_def sel option.case prod.case Let_def sensor_object_def [symmetric]
    by (simp add: output_field_def context_output_def gm_get_def)
qed

lemma slice_read:
  "position + width \<le> length object \<Longrightarrow> width > 0 \<Longrightarrow>
     slice_field object position width read =
       (let (raw, state, more) = read (take width (drop position object))
        in (True, JObject ([(''raw'', raw), (''state'', JString state), (''grade'', JString ''Hypothesis'')] @ more)))"
  by (simp add: slice_field_def sensor_slice_def Let_def)

lemma slice_short:
  "position + width > length object \<Longrightarrow>
     \<exists>bs. slice_field object position width read =
       (False, JObject [(''raw'', JArray bs), (''state'', JString ''incomplete''), (''grade'', JString ''Hypothesis'')])"
  by (simp add: slice_field_def sensor_slice_def Let_def)

text \<open>
  In a selected document the temperature of a sensor is the exact value of its signed word in sixteenths of a
  degree, or none when the word is the replacement code or its bytes are missing; its status is the
  label of its own two bits.
\<close>

theorem sensor_fields_exact:
  assumes "sensor_selection ctx = Some (operation, view)" and "i < sensor_count operation"
  shows "let out = sensor_document ctx raw args; object = sensor_object raw; position = sensor_position operation i;
       w = sensor_word (take 2 (drop position object)); status = status_position operation + i div 4
     in map_option number_rat (output_field out (sensor_name operation i) ''number'') =
          (if position + 2 \<le> length object \<and> w \<noteq> 32768 then Some (of_int (sint (word_of_int w :: uint16)) / 16) else None) \<and>
        output_field out (status_name operation i) ''label'' =
          (if status < length object
           then Some (JString (status_labels view ! nat (status_pair (int64_or_zero (Some (object ! status))) i))) else None)"
proof -
  let ?object = "sensor_object raw"
  define position where "position = sensor_position operation i"
  define status where "status = status_position operation + i div 4"
  obtain a f where f: "slice_field ?object position 2 word_reading = (a, f)" by fastforce
  obtain b g where g: "slice_field ?object status 1 (status_reading view i) = (b, g)" by fastforce
  have "(sensor_name operation i, a, f) \<in> set (sensor_fields operation view ?object)"
    "(status_name operation i, b, g) \<in> set (sensor_fields operation view ?object)"
    using assms(2) f g by (auto simp: sensor_fields_def position_def status_def)
  note out = this [THEN sensor_output [OF assms(1)]]
  have "map_option number_rat (output_member f ''number'') =
      (if position + 2 \<le> length ?object \<and> sensor_word (take 2 (drop position ?object)) \<noteq> 32768
       then Some (of_int (sint (word_of_int (sensor_word (take 2 (drop position ?object))) :: uint16)) / 16) else None)"
  proof (cases "position + 2 \<le> length ?object")
    case True
    then show ?thesis
      using f by (auto simp: slice_read word_reading_def Let_def proven_def number_rat_def decimal_text_value)
  next
    case False
    then show ?thesis using f slice_short [of ?object position 2 word_reading] by auto
  qed
  moreover have "output_member g ''label'' =
      (if status < length ?object
       then Some (JString (status_labels view ! nat (status_pair (int64_or_zero (Some (?object ! status))) i))) else None)"
  proof (cases "status < length ?object")
    case True
    then have "take 1 (drop status ?object) = [?object ! status]" by (simp add: take_Suc_conv_app_nth hd_drop_conv_nth take_Suc)
    then show ?thesis
      using True g by (auto simp: slice_read status_reading_def Let_def label_member_def)
  next
    case False
    then show ?thesis using g slice_short [of ?object status 1 "status_reading view i"] by auto
  qed
  ultimately show ?thesis
    unfolding Let_def out position_def [symmetric] status_def [symmetric] by blast
qed

end
