(* ===== verification/Spec2Isabelle.thy ===== *)
theory Spec2Isabelle
  imports Pv_Properties Schema_Codec Reg_Index Router_Properties Reg_Scan_Properties Vai_Properties Vai_Timer_Properties Std_Properties Cat_Transfer Cat_Weekly Cat_Transitions Vai_Planes Vai_Products Vai_Plans Vai_Scalars Vai_Discovery Vai_Views Cat_Limit Cat_Flow Cat_Spectrum Cat_Actuator Cat_Thermal Cat_Board Cat_Periods Cat_Valves Cat_Roles Cat_Guard Cat_Sensor
begin

text \<open>
  Verification library for helianthus-ebusreg, the device and fact registry of an eBUS gateway written in
  Go. This theory imports every other one and holds this description.

  The program. Package \<open>registry\<close> keeps the devices seen on the bus: addresses with their slots, entries that
  group the addresses of one appliance, an identity index, a topology of alias edges and identity witnesses;
  it scans the bus, and offers projections, a portal index and sorted service views of its contents.
  Package \<open>router\<close> delivers broadcasts to planes and calls their methods, with one send per cache key and a
  short cache of answers. The \<open>vaillant\<close> packages are such planes: they build requests and decode answers.
  Package \<open>schema\<close> encodes and decodes payloads, package \<open>pv\<close> keeps photovoltaic facts with their freshness
  and counter continuity, \<open>catalog/ebus_standard\<close> loads a catalog of standard services and gates the calls a
  caller may make, and \<open>catalog/vaillant\<close> evaluates observations of single Vaillant services. The registry
  asks plane providers while it registers a device; the router and the services read planes from it.

  Shared theories.
  \<^item> Go_Prelude: the integers of Go as words, strings as byte lists, Go maps as association lists with distinct
    keys (\<open>gm_get\<close>, \<open>gm_put\<close>), panics as the \<open>outcome\<close> type, parts of \<open>strings\<close>, \<open>strconv\<close>, \<open>math/big\<close> and \<open>sort\<close>.
  \<^item> Go_Format, Go_Json, Go_Words: \<open>fmt\<close> verbs, \<open>encoding/json\<close> of the texts the program writes, words as bytes.

  Facts: \<open>src/pv\<close>.
  \<^item> Pv_Types, Pv_Catalog, Pv_Lifecycle, Pv_Counter, Pv_Registry: types.go, catalog.go, lifecycle.go,
    counter.go, registry.go, one definition per function under its name in snake case (\<open>Registry.Apply\<close> is
    \<open>registry_apply\<close>, \<open>EvaluateCounter\<close> is \<open>evaluate_counter\<close>). A registry is a map from assets to their state.
  \<^item> Pv_Accounting, Pv_Invariant, Pv_Samples, Pv_Properties: what admission accepts, the invariant of an asset
    and its preservation by updates, two evaluated updates, and the promises of \<open>Apply\<close> and \<open>Snapshot\<close> over all
    update sequences: atomicity, absence of panics, origin and age of every fact, the meaning of counter deltas.

  Devices: \<open>src/registry\<close>.
  \<^item> Reg_Identity: identity.go, admission, aliases of identities. Reg_State: the record \<open>device_registry\<close> and the
    primitives on it. The pointers of the code to entries and slots are numbers into stores.
  \<^item> Reg_Register: Register, RegisterStaticSeed, RegisterPassiveObserved, MarkSlot*, AliasAddresses, passive
    companions and witnesses. Reg_Views: lookups, snapshots and accessors.
  \<^item> Reg_Groups, Reg_Invariant, Reg_Alias, Reg_Preserve, Reg_Reach: entries partition the addresses, faces
    mirror slots, the index names live entries, witnesses are backed; every operation keeps this, hence every
    reachable registry has it. Reg_History, Reg_Confirm, Reg_Walk: what one registration does to others, to the
    identity index and along the topology. Reg_Properties: the promises.
  \<^item> Reg_Projection, Reg_Index: projection.go and portal_index.go, and what the indexes answer.
    Reg_Service: service views and method metadata.
  \<^item> Reg_Scan, Reg_Scan_Effect, Reg_Scan_Log, Reg_Scan_Properties: scan.go over a bus, a context and a clock that
    are parameters; its effect on the registry, the frames it sends and why it ends.

  Calls: \<open>src/router\<close>, \<open>src/schema\<close>, \<open>src/internal/match\<close>.
  \<^item> Router: router.go; the event channel is a list of at most 64 events. Router_Invoke: concurrent calls of
    \<open>Invoke\<close> as the step relation of its two critical sections, with its reachable states. Router_Properties.
  \<^item> Schema_Codec: schema.go, selector.go, the conversions of json_loader.go and the version matcher.

  Vaillant planes: \<open>src/vaillant\<close>.
  \<^item> Vai_Params, Vai_System, Vai_Properties: parameters, requests and answers of the system plane, energy
    broadcasts, constraints. Vai_Projections: projections.go.
  \<^item> Vai_Timer, Vai_Timer_Properties: package b555. Vai_Planes: heating, dhw, solar and the default providers.
  \<^item> Vai_Products: product catalog and seed table. Vai_Plans: timer and event plans, description index.
  \<^item> Vai_Values: value codecs and description spans. Vai_Scalars: scalar registers and system information.
    Vai_Discovery: discovery windows, register bounds and hints. Vai_Views: calendar cells, codebooks,
    constraint words, quantities and status bytes.

  Catalogs.
  \<^item> Std_Catalog, Std_Provider, Std_Properties: \<open>src/catalog/ebus_standard\<close>.
  \<^item> Cat_Json: the JSON reader that the evaluators of \<open>src/catalog/vaillant\<close> repeat. On it or beside it, one theory
    per evaluator or group of evaluators; each opens with the file it models. State machines and plans: Cat_Cycle, Cat_Weekly,
    Cat_Transfer, Cat_Transitions, Cat_Limit, Cat_Guard. Field readings of one service: Cat_Rows, Cat_Flow, Cat_Spectrum,
    Cat_Demand, Cat_Actuator, Cat_Thermal, Cat_Board, Cat_Periods, Cat_Valves, Cat_Roles, Cat_Mixer, Cat_Sensor.
    Cat_Depth has the readers with a limit on nesting, Cat_Number the exact values of number texts.

  How the proofs are laid out. Every theory first defines the state and operations, then shows what each
  operation does on every branch, then the invariant or reference definition. Interfaces are locales next to
  their provider with an interpretation on the model (map laws, simulations of the router, orders of sorted
  listings, codec laws of a schema). The lemmas marked with a claim number are the promises of a component;
  the witness after one evaluates it on a concrete state where its premises hold.

  Bounds and fuel. Integers of fixed width are words and wrap as in Go; where Go arithmetic cannot leave the
  range, or values are only compared, a theory says that they are int or nat. \<open>event_capacity\<close> is the 64 of the
  code, the scan makes its four passes, durations saturate as in \<open>time.Time.Sub\<close>. The topology walk ends
  because every step removes an unseen address (a measure). The JSON reader takes two units of fuel per
  token and two more, and is shown never to run out. The loop of Cat_Roles that counts decimals is a partial
  function: it would not end on every integer, and is shown to return on the denominators it is given.

  Not modelled.
  \<^item> Texts of errors: an error is its sentinel, or the fact that there is one. Log output and \<open>String\<close> methods.
  \<^item> Letter case and trimming beyond ASCII. A nil and an empty map or slice are one where the code does not
    tell them apart; nil planes are not represented. The sign of a floating zero in limits is not kept.
  \<^item> \<open>yaml.Unmarshal\<close>, SHA-256, \<open>encoding/csv\<close>, the bytes of JSON documents before they are tokens, the data types,
    frames and transports of the ebus protocol module, the context and the clock: these are parameters, with the
    laws a proof needs of them as named premises. The catalog loader needs none: its theorem is about whatever
    the YAML decoder returns.
  \<^item> Reading from the events channel, which happens outside the router.
  \<^item> Members of a result that are constant in the code (grades, notes), where a theory says so.
  \<^item> The remaining files of \<open>src/catalog/vaillant\<close>: embedded JSON tables with their validators and lookups, and
    view tables of single services in which every field is its own constant.
\<close>

end
